(* ===== verification/Karar_Prelude.thy ===== *)
theory Karar_Prelude
  imports Main "HOL-Library.Signed_Division" "HOL-Library.Multiset"
begin

text \<open>
  The vocabulary every component of the development shares.

  \<^item> Named collections: \<open>result_simps\<close> for the outcome combinators, \<open>wire_simps\<close> for the
    text and number codecs, \<open>gate_simps\<close> for guard chains.
  \<^item> Outcomes: a TypeScript \<open>Result<T, E>\<close> is \<open>'e + 't\<close>, \<open>Inl\<close> the error and \<open>Inr\<close> the
    value; a \<open>throw\<close> of a typed error is an \<open>Inl\<close> as well (which of the two the source uses is
    said at each definition). The combinators of \<open>packages/shared-kernel/src/result.ts\<close> follow.
  \<^item> JavaScript numbers: where the source only asks \<open>Number.isInteger\<close> and compares, a number is
    either an integer or one of the values every such guard refuses (fractions, NaN, infinities).
  \<^item> Text: strings are lists of 8-bit characters, \<open>trim\<close> strips the white space of that range,
    and decimal printing and reading are those of \<open>BigInt\<close>.
  \<^item> Dates are their time value in milliseconds.
\<close>

named_theorems result_simps "outcome combinators"
named_theorems wire_simps "text and number codecs"
named_theorems gate_simps "guards and early returns"

section \<open>Types shared by the components\<close>

type_synonym millis = int
type_synonym ('e, 'a) outcome = "'e + 'a"

datatype js_number = Whole int | NotWhole

fun number_is_integer :: "js_number \<Rightarrow> bool" where
  "number_is_integer (Whole n) = True"
| "number_is_integer NotWhole = False"

section \<open>Outcomes: result.ts\<close>

fun result_isOk :: "('e, 'a) outcome \<Rightarrow> bool" where
  "result_isOk (Inr x) = True"
| "result_isOk (Inl e) = False"

fun result_isErr :: "('e, 'a) outcome \<Rightarrow> bool" where
  "result_isErr (Inr x) = False"
| "result_isErr (Inl e) = True"

fun result_map :: "('e, 'a) outcome \<Rightarrow> ('a \<Rightarrow> 'b) \<Rightarrow> ('e, 'b) outcome" where
  "result_map (Inr x) f = Inr (f x)"
| "result_map (Inl e) f = Inl e"

fun result_mapErr :: "('e, 'a) outcome \<Rightarrow> ('e \<Rightarrow> 'f) \<Rightarrow> ('f, 'a) outcome" where
  "result_mapErr (Inr x) f = Inr x"
| "result_mapErr (Inl e) f = Inl (f e)"

fun result_unwrapOr :: "('e, 'a) outcome \<Rightarrow> 'a \<Rightarrow> 'a" where
  "result_unwrapOr (Inr x) d = x"
| "result_unwrapOr (Inl e) d = d"

fun result_andThen :: "('e, 'a) outcome \<Rightarrow> ('a \<Rightarrow> ('e, 'b) outcome) \<Rightarrow> ('e, 'b) outcome" where
  "result_andThen (Inr x) f = f x"
| "result_andThen (Inl e) f = Inl e"

lemma result_andThen_eq_Inr [result_simps]:
  "result_andThen r f = Inr y \<longleftrightarrow> (\<exists>x. r = Inr x \<and> f x = Inr y)"
  by (cases r) auto

lemma result_andThen_eq_Inl [result_simps]:
  "result_andThen r f = Inl e \<longleftrightarrow> r = Inl e \<or> (\<exists>x. r = Inr x \<and> f x = Inl e)"
  by (cases r) auto

lemma result_map_eq_Inr [result_simps]:
  "result_map r f = Inr y \<longleftrightarrow> (\<exists>x. r = Inr x \<and> y = f x)"
  by (cases r) auto

lemma result_map_eq_Inl [result_simps]: "result_map r f = Inl e \<longleftrightarrow> r = Inl e"
  by (cases r) auto

lemma result_andThen_assoc [result_simps]:
  "result_andThen (result_andThen r f) g = result_andThen r (\<lambda>x. result_andThen (f x) g)"
  by (cases r) auto

lemma result_andThen_Inr_right [result_simps]: "result_andThen r Inr = r"
  by (cases r) auto

section \<open>White space and trimming\<close>

definition is_ws :: "char \<Rightarrow> bool" where
  "is_ws c \<longleftrightarrow> (let n = (of_char c :: nat) in (9 \<le> n \<and> n \<le> 13) \<or> n = 32 \<or> n = 160)"

definition js_trim :: "string \<Rightarrow> string" where
  "js_trim s = rev (dropWhile is_ws (rev (dropWhile is_ws s)))"

definition blank :: "string \<Rightarrow> bool" where
  "blank s \<longleftrightarrow> js_trim s = []"

lemma blank_iff: "blank s \<longleftrightarrow> (\<forall>c \<in> set s. is_ws c)"
proof -
  have "(\<forall>c \<in> set (rev (dropWhile is_ws s)). is_ws c) \<longleftrightarrow> (\<forall>c \<in> set s. is_ws c)"
    by (induction s) auto
  then show ?thesis
    by (simp add: blank_def js_trim_def dropWhile_eq_Nil_conv)
qed

lemma blank_Nil [simp]: "blank []"
  by (simp add: blank_iff)

section \<open>Decimal text\<close>

definition is_digit :: "char \<Rightarrow> bool" where
  "is_digit c \<longleftrightarrow> (48::nat) \<le> of_char c \<and> of_char c \<le> (57::nat)"

definition digit_val :: "char \<Rightarrow> nat" where
  "digit_val c = of_char c - 48"

definition digit_char :: "nat \<Rightarrow> char" where
  "digit_char d = char_of (48 + d)"

fun string_of_nat :: "nat \<Rightarrow> string" where
  "string_of_nat n =
     (if n < 10 then [digit_char n] else string_of_nat (n div 10) @ [digit_char (n mod 10)])"

declare string_of_nat.simps [simp del]

definition nat_of_digits :: "string \<Rightarrow> nat" where
  "nat_of_digits s = foldl (\<lambda>a c. 10 * a + digit_val c) 0 s"

definition all_digits :: "string \<Rightarrow> bool" where
  "all_digits s \<longleftrightarrow> list_all is_digit s"

definition pad_start :: "nat \<Rightarrow> char \<Rightarrow> string \<Rightarrow> string" where
  "pad_start n c s = replicate (n - length s) c @ s"

definition pad_end :: "nat \<Rightarrow> char \<Rightarrow> string \<Rightarrow> string" where
  "pad_end n c s = s @ replicate (n - length s) c"

lemma digit_char_facts [wire_simps]:
  assumes "d < 10"
  shows "is_digit (digit_char d)" and "digit_val (digit_char d) = d"
  using assms by (simp_all add: is_digit_def digit_val_def digit_char_def)

lemma nat_of_digits_Nil [wire_simps]: "nat_of_digits [] = 0"
  by (simp add: nat_of_digits_def)

lemma nat_of_digits_snoc [wire_simps]:
  "nat_of_digits (s @ [c]) = 10 * nat_of_digits s + digit_val c"
  by (simp add: nat_of_digits_def)

lemma nat_of_digits_append [wire_simps]:
  "nat_of_digits (s @ t) = nat_of_digits s * 10 ^ length t + nat_of_digits t"
proof (induction t rule: rev_induct)
  case Nil
  then show ?case by (simp add: nat_of_digits_Nil)
next
  case (snoc c t)
  have "nat_of_digits (s @ t @ [c]) = 10 * nat_of_digits (s @ t) + digit_val c"
    using nat_of_digits_snoc [of "s @ t" c] by simp
  with snoc show ?case by (simp add: nat_of_digits_snoc algebra_simps)
qed

lemma nat_of_digits_bound: "all_digits s \<Longrightarrow> nat_of_digits s < 10 ^ length s"
proof (induction s rule: rev_induct)
  case Nil
  then show ?case by (simp add: nat_of_digits_Nil)
next
  case (snoc c s)
  then have "digit_val c \<le> 9" and "nat_of_digits s < 10 ^ length s"
    by (auto simp: all_digits_def is_digit_def digit_val_def)
  then show ?case by (simp add: nat_of_digits_snoc)
qed

lemma nat_of_digits_zeros [wire_simps]: "nat_of_digits (replicate n (CHR ''0'')) = 0"
proof (induction n)
  case 0
  then show ?case by (simp add: nat_of_digits_Nil)
next
  case (Suc n)
  have "replicate (Suc n) (CHR ''0'') = replicate n (CHR ''0'') @ [CHR ''0'']"
    by (simp add: replicate_append_same)
  with Suc show ?case by (simp only: nat_of_digits_snoc) (simp add: digit_val_def)
qed

lemma string_of_nat_correct:
  "nat_of_digits (string_of_nat n) = n \<and> all_digits (string_of_nat n) \<and> string_of_nat n \<noteq> []"
proof (induction n rule: string_of_nat.induct)
  case (1 n)
  show ?case
  proof (cases "n < 10")
    case True
    then show ?thesis
      by (subst (1 2 3) string_of_nat.simps)
        (simp add: nat_of_digits_def all_digits_def digit_char_facts)
  next
    case False
    with 1 have "nat_of_digits (string_of_nat (n div 10)) = n div 10"
      and "all_digits (string_of_nat (n div 10))" by simp_all
    with False show ?thesis
      by (subst (1 2 3) string_of_nat.simps)
        (simp add: nat_of_digits_snoc all_digits_def digit_char_facts)
  qed
qed

lemmas nat_of_digits_string_of_nat [wire_simps] = string_of_nat_correct [THEN conjunct1]
lemmas all_digits_string_of_nat [wire_simps] = string_of_nat_correct [THEN conjunct2, THEN conjunct1]
lemmas string_of_nat_nonempty [wire_simps] = string_of_nat_correct [THEN conjunct2, THEN conjunct2]

text \<open>
  \<open>BigInt(text)\<close> on text matching \<open>^-?[0-9]+$\<close>, the test itself, and \<open>BigInt.prototype.toString\<close>.
\<close>

definition is_integer_text :: "string \<Rightarrow> bool" where
  "is_integer_text s \<longleftrightarrow>
     (case s of [] \<Rightarrow> False
      | c # cs \<Rightarrow> if c = CHR ''-'' then cs \<noteq> [] \<and> all_digits cs else all_digits s)"

definition bigint_of_text :: "string \<Rightarrow> int" where
  "bigint_of_text s =
     (case s of [] \<Rightarrow> 0
      | c # cs \<Rightarrow> if c = CHR ''-'' then - int (nat_of_digits cs) else int (nat_of_digits s))"

definition text_of_bigint :: "int \<Rightarrow> string" where
  "text_of_bigint n =
     (if n < 0 then CHR ''-'' # string_of_nat (nat (- n)) else string_of_nat (nat n))"

lemma string_of_nat_no_sign: "string_of_nat n = c # cs \<Longrightarrow> c \<noteq> CHR ''-''"
proof
  assume s: "string_of_nat n = c # cs" and c: "c = CHR ''-''"
  from s have "is_digit c"
    using all_digits_string_of_nat [of n] by (simp add: all_digits_def)
  with c show False by (simp add: is_digit_def)
qed

lemma text_of_bigint_integer [wire_simps]: "is_integer_text (text_of_bigint n)"
  using string_of_nat_no_sign [of "nat n"] all_digits_string_of_nat [of "nat n"]
    string_of_nat_correct [of "nat (- n)"] string_of_nat_nonempty [of "nat n"]
  by (auto simp: is_integer_text_def text_of_bigint_def split: list.splits)

lemma bigint_of_text_of_bigint [wire_simps]: "bigint_of_text (text_of_bigint n) = n"
proof (cases "n < 0")
  case True
  then show ?thesis
    by (simp add: bigint_of_text_def text_of_bigint_def nat_of_digits_string_of_nat)
next
  case False
  obtain c cs where s: "string_of_nat (nat n) = c # cs"
    using string_of_nat_nonempty [of "nat n"] by (cases "string_of_nat (nat n)") auto
  moreover have "nat_of_digits (c # cs) = nat n"
    using nat_of_digits_string_of_nat [of "nat n"] s by simp
  ultimately show ?thesis
    using False string_of_nat_no_sign [OF s]
    by (simp add: bigint_of_text_def text_of_bigint_def)
qed

text \<open>From an evaluated field of a success to the success itself.\<close>

lemma result_pair_Inr:
  "result_map (fst p) f = Inr v \<Longrightarrow> \<exists>r w. p = (Inr r, w) \<and> f r = v"
  by (cases p; cases "fst p") auto

lemma result_Inr:
  "result_map p f = Inr v \<Longrightarrow> \<exists>r. p = Inr r \<and> f r = v"
  by (cases p) auto

section \<open>Lists the components share\<close>

lemma find_Some_set: "List.find P xs = Some x \<Longrightarrow> x \<in> set xs \<and> P x"
  by (induction xs) (auto split: if_splits)

lemma find_None_iff_all: "List.find P xs = None \<longleftrightarrow> (\<forall>x \<in> set xs. \<not> P x)"
  by (induction xs) auto

lemma find_distinct_key:
  "distinct (map f xs) \<Longrightarrow> x \<in> set xs \<Longrightarrow> List.find (\<lambda>y. f y = f x) xs = Some x"
  by (induction xs) force+

text \<open>
  \<open>Array.prototype.sort(compare)\<close>: a stable sort.  For a comparator that is a total preorder the
  result is determined, so insertion stands for the engine's algorithm.
\<close>

fun js_insert :: "('a \<Rightarrow> 'a \<Rightarrow> int) \<Rightarrow> 'a \<Rightarrow> 'a list \<Rightarrow> 'a list" where
  "js_insert cmp x [] = [x]"
| "js_insert cmp x (y # ys) = (if cmp x y \<le> 0 then x # y # ys else y # js_insert cmp x ys)"

fun js_sort :: "('a \<Rightarrow> 'a \<Rightarrow> int) \<Rightarrow> 'a list \<Rightarrow> 'a list" where
  "js_sort cmp [] = []"
| "js_sort cmp (x # xs) = js_insert cmp x (js_sort cmp xs)"

lemma mset_js_insert: "mset (js_insert cmp x xs) = add_mset x (mset xs)"
  by (induction xs) auto

lemma mset_js_sort [simp]: "mset (js_sort cmp xs) = mset xs"
  by (induction xs) (auto simp: mset_js_insert)

lemma set_js_insert [simp]: "set (js_insert cmp x xs) = insert x (set xs)"
  by (induction xs) auto

lemma set_js_sort [simp]: "set (js_sort cmp xs) = set xs"
  by (induction xs) auto

lemma length_js_sort [simp]: "length (js_sort cmp xs) = length xs"
  by (metis mset_js_sort size_mset)

locale comparator =
  fixes cmp :: "'a \<Rightarrow> 'a \<Rightarrow> int"
  assumes cmp_total: "cmp x y \<le> 0 \<or> cmp y x \<le> 0"
    and cmp_trans: "cmp x y \<le> 0 \<Longrightarrow> cmp y z \<le> 0 \<Longrightarrow> cmp x z \<le> 0"
begin

lemma sorted_js_insert:
  "sorted_wrt (\<lambda>a b. cmp a b \<le> 0) xs \<Longrightarrow> sorted_wrt (\<lambda>a b. cmp a b \<le> 0) (js_insert cmp x xs)"
proof (induction xs)
  case (Cons y ys)
  show ?case
  proof (cases "cmp x y \<le> 0")
    case True
    with Cons.prems show ?thesis using cmp_trans [OF True] by auto
  next
    case False
    then have "cmp y x \<le> 0" using cmp_total [of x y] by blast
    with Cons False show ?thesis by auto
  qed
qed simp

lemma sorted_js_sort: "sorted_wrt (\<lambda>a b. cmp a b \<le> 0) (js_sort cmp xs)"
  by (induction xs) (auto simp: sorted_js_insert)

end

lemma sum_list_zeros: "sum_list (replicate n (0::int)) = 0"
  by (induction n) auto

lemma sum_list_update_add:
  fixes xs :: "int list"
  shows "i < length xs \<Longrightarrow> sum_list (xs[i := xs ! i + k]) = sum_list xs + k"
proof (induction xs arbitrary: i)
  case (Cons x xs)
  then show ?case by (cases i) auto
qed simp

end
