(* ===== verification/Integer_Math.thy ===== *)
theory Integer_Math
  imports Karar_Prelude
begin

text \<open>
  Exact integer arithmetic: \<open>packages/shared-kernel/src/internal/integer-math.ts\<close> and the error
  classes of the kernel (\<open>internal/kernel-error.ts\<close> and the subclasses nested in each
  universal).  A thrown \<open>KernelError\<close> is \<open>Inl\<close> of its class; message texts are left out.

  \<open>divideRounded\<close> is translated branch by branch over truncating division (\<open>sdiv\<close>, \<open>smod\<close>), as
  bigint division is.  The locale \<open>rounding\<close> is the contract the callers rely on (total on
  positive denominators, exact on multiples, off by less than one, monotone); every mode
  interprets it, and the two half modes interpret the stronger \<open>nearest_rounding\<close>.
\<close>

section \<open>Kernel errors\<close>

datatype kernel_error =
    KernelError
  | UnsupportedCurrencyError string
  | CurrencyMismatchError
  | InvalidAmountError
  | InvalidAllocationError
  | InvalidPercentageError
  | InvalidRateError
  | InvalidTenantIdError string
  | InvalidUserIdError string

section \<open>Rounding modes, powers of ten, rounded division\<close>

datatype rounding_mode = HALF_UP | HALF_EVEN | FLOOR | CEIL | TRUNC

definition pow10 :: "js_number \<Rightarrow> (kernel_error, int) outcome" where
  "pow10 exponent =
     (case exponent of
        NotWhole \<Rightarrow> Inl KernelError
      | Whole e \<Rightarrow> if e < 0 then Inl KernelError else Inr (10 ^ nat e))"

definition divideRounded :: "int \<Rightarrow> int \<Rightarrow> rounding_mode \<Rightarrow> (kernel_error, int) outcome" where
  "divideRounded numerator denominator roundingMode =
     (if denominator \<le> 0 then Inl KernelError
      else
        let quotient = numerator sdiv denominator;
            remainder = numerator smod denominator
        in if remainder = 0 then Inr quotient
           else
             let negative = numerator < 0;
                 awayFromZero = (if negative then quotient - 1 else quotient + 1)
             in (case roundingMode of
                   TRUNC \<Rightarrow> Inr quotient
                 | FLOOR \<Rightarrow> Inr (if negative then quotient - 1 else quotient)
                 | CEIL \<Rightarrow> Inr (if negative then quotient else quotient + 1)
                 | HALF_UP \<Rightarrow>
                     let twiceRemainder = 2 * (if remainder < 0 then - remainder else remainder)
                     in Inr (if denominator \<le> twiceRemainder then awayFromZero else quotient)
                 | HALF_EVEN \<Rightarrow>
                     let twiceRemainder = 2 * (if remainder < 0 then - remainder else remainder)
                     in if denominator < twiceRemainder then Inr awayFromZero
                        else if twiceRemainder < denominator then Inr quotient
                        else Inr (if quotient smod 2 = 0 then quotient else awayFromZero)))"

lemma pow10_nat [simp]: "pow10 (Whole (int e)) = Inr (10 ^ e)"
  by (simp add: pow10_def)

lemma pow10_Inr: "pow10 x = Inr p \<longleftrightarrow> (\<exists>e. x = Whole (int e) \<and> p = 10 ^ e)"
  by (auto simp: pow10_def split: js_number.splits if_splits intro: exI [of _ "nat _"])

text \<open>Truncating division in terms of the flooring \<open>div\<close> and \<open>mod\<close>.\<close>

lemma sdiv_smod_floor:
  assumes "0 < (d::int)"
  shows "n sdiv d = (if n < 0 \<and> n mod d \<noteq> 0 then n div d + 1 else n div d)"
    and "n smod d = (if n < 0 \<and> n mod d \<noteq> 0 then n mod d - d else n mod d)"
proof -
  show "n sdiv d = (if n < 0 \<and> n mod d \<noteq> 0 then n div d + 1 else n div d)"
    using assms
    by (auto simp: signed_divide_int_def sgn_if div_minus_minus zdiv_zminus1_eq_if)
  show "n smod d = (if n < 0 \<and> n mod d \<noteq> 0 then n mod d - d else n mod d)"
    using assms
    by (auto simp: signed_modulo_int_def sgn_if zmod_zminus1_eq_if)
qed

lemma smod_2_eq_0_iff: "(q::int) smod 2 = 0 \<longleftrightarrow> even q"
  using pos_mod_bound [of 2 q] by (auto simp: sdiv_smod_floor even_iff_mod_2_eq_zero)

text \<open>The reference: which of the two neighbours each mode picks.\<close>

definition rounds_up :: "rounding_mode \<Rightarrow> int \<Rightarrow> int \<Rightarrow> bool" where
  "rounds_up m n d =
     (case m of
        FLOOR \<Rightarrow> False
      | CEIL \<Rightarrow> n mod d \<noteq> 0
      | TRUNC \<Rightarrow> n < 0 \<and> n mod d \<noteq> 0
      | HALF_UP \<Rightarrow> d < 2 * (n mod d) \<or> (d = 2 * (n mod d) \<and> 0 \<le> n)
      | HALF_EVEN \<Rightarrow> d < 2 * (n mod d) \<or> (d = 2 * (n mod d) \<and> odd (n div d)))"

definition rounded_ref :: "rounding_mode \<Rightarrow> int \<Rightarrow> int \<Rightarrow> int" where
  "rounded_ref m n d = (if rounds_up m n d then n div d + 1 else n div d)"

lemma divideRounded_ref:
  assumes "0 < d"
  shows "divideRounded n d m = Inr (rounded_ref m n d)"
proof -
  have b: "0 \<le> n mod d" "n mod d < d" using assms by simp_all
  show ?thesis
  proof (cases "n mod d = 0")
    case True
    with assms show ?thesis
      by (cases m)
        (simp_all add: divideRounded_def sdiv_smod_floor rounded_ref_def rounds_up_def)
  next
    case False
    with assms b show ?thesis
      by (cases m)
        (auto simp: divideRounded_def sdiv_smod_floor rounded_ref_def rounds_up_def Let_def
          smod_2_eq_0_iff [unfolded sdiv_smod_floor])
  qed
qed

lemma rounded_ref_neighbour:
  "rounded_ref m n d = n div d \<or> (rounded_ref m n d = n div d + 1 \<and> (0 < d \<longrightarrow> n mod d \<noteq> 0))"
  by (cases m) (auto simp: rounded_ref_def rounds_up_def)

lemma rounds_up_mono:
  assumes "0 < d" "n \<le> n'" "n div d = n' div d" "rounds_up m n d"
  shows "rounds_up m n' d"
proof -
  have "n mod d = n - d * (n div d)" "n' mod d = n' - d * (n' div d)"
    by (simp_all add: minus_mult_div_eq_mod)
  with assms(2,3) have "n mod d \<le> n' mod d" by simp
  moreover have "n < 0 \<Longrightarrow> n' < 0"
    using assms(1,3) by (metis pos_imp_zdiv_neg_iff)
  moreover have "0 \<le> n mod d" using assms(1) by simp
  moreover from calculation have "n mod d \<noteq> 0 \<Longrightarrow> n' mod d \<noteq> 0" by linarith
  ultimately show ?thesis
    using assms by (cases m) (auto simp: rounds_up_def simp del: mod_eq_0_iff_dvd)
qed

section \<open>The contract of a rounded division\<close>

locale rounding =
  fixes dv :: "int \<Rightarrow> int \<Rightarrow> (kernel_error, int) outcome"
  assumes refuses: "d \<le> 0 \<Longrightarrow> dv n d = Inl KernelError"
    and total: "0 < d \<Longrightarrow> \<exists>q. dv n d = Inr q"
    and close: "0 < d \<Longrightarrow> dv n d = Inr q \<Longrightarrow> \<bar>q * d - n\<bar> < d"
    and mono: "0 < d \<Longrightarrow> n \<le> n' \<Longrightarrow> dv n d = Inr q \<Longrightarrow> dv n' d = Inr q' \<Longrightarrow> q \<le> q'"
begin

lemma Inr_iff_pos: "(\<exists>q. dv n d = Inr q) \<longleftrightarrow> 0 < d"
  using refuses [of d n] total [of d n] by (cases "0 < d") auto

lemma exact:
  assumes "0 < d"
  shows "dv (q * d) d = Inr q"
proof -
  obtain p where p: "dv (q * d) d = Inr p" using total [OF assms] by blast
  from close [OF assms p] have "\<bar>p - q\<bar> * d < d"
    using assms by (simp add: left_diff_distrib [symmetric] abs_mult)
  then have "\<bar>p - q\<bar> * d < 1 * d" by simp
  with assms have "\<bar>p - q\<bar> < 1" by (simp only: mult_less_cancel_right_pos)
  with p show ?thesis by simp
qed

lemma sign_kept:
  assumes "dv n d = Inr q"
  shows "0 \<le> n \<Longrightarrow> 0 \<le> q" and "n \<le> 0 \<Longrightarrow> q \<le> 0"
proof -
  have d: "0 < d" using assms Inr_iff_pos [of n d] by blast
  have z: "dv 0 d = Inr 0" using exact [OF d, of 0] by simp
  show "0 \<le> n \<Longrightarrow> 0 \<le> q" using mono [OF d _ z assms] .
  show "n \<le> 0 \<Longrightarrow> q \<le> 0" using mono [OF d _ assms z] .
qed

lemma between:
  assumes "dv n d = Inr q" "a * d \<le> n" "n \<le> b * d"
  shows "a \<le> q \<and> q \<le> b"
proof -
  have d: "0 < d" using assms(1) Inr_iff_pos [of n d] by blast
  show ?thesis
    using mono [OF d assms(2) exact [OF d] assms(1)] mono [OF d assms(3) assms(1) exact [OF d]]
    by simp
qed

end

locale nearest_rounding = rounding +
  assumes near: "0 < d \<Longrightarrow> dv n d = Inr q \<Longrightarrow> 2 * \<bar>q * d - n\<bar> \<le> d"
begin

lemma no_closer:
  assumes "dv n d = Inr q"
  shows "\<bar>q * d - n\<bar> \<le> \<bar>p * d - n\<bar>"
proof -
  have d: "0 < d" using assms Inr_iff_pos [of n d] by blast
  have q: "2 * \<bar>q * d - n\<bar> \<le> d" by (rule near [OF d assms])
  show ?thesis
  proof (cases "p = q")
    case False
    then have "1 \<le> \<bar>p - q\<bar>" by simp
    then have "d \<le> \<bar>p - q\<bar> * d" using d by simp
    also have "\<dots> = \<bar>(p - q) * d\<bar>" using d by (simp add: abs_mult)
    also have "\<dots> = \<bar>(p * d - n) - (q * d - n)\<bar>" by (simp add: left_diff_distrib)
    also have "\<dots> \<le> \<bar>p * d - n\<bar> + \<bar>q * d - n\<bar>" by (rule abs_triangle_ineq4)
    finally show ?thesis using q by simp
  qed simp
qed

end

text \<open>Every mode of the code's routine keeps the contract; the half modes round to nearest.\<close>

lemma rounded_ref_close: "0 < d \<Longrightarrow> \<bar>rounded_ref m n d * d - n\<bar> < d"
proof -
  assume d: "0 < d"
  have n: "n mod d = n - n div d * d" by (simp add: minus_div_mult_eq_mod)
  have b: "0 \<le> n mod d" "n mod d < d" using d by simp_all
  from rounded_ref_neighbour [of m n d] show ?thesis
  proof
    assume "rounded_ref m n d = n div d"
    then have "rounded_ref m n d * d - n = - (n mod d)" using n by simp
    with b show ?thesis by simp
  next
    assume r: "rounded_ref m n d = n div d + 1 \<and> (0 < d \<longrightarrow> n mod d \<noteq> 0)"
    then have "rounded_ref m n d * d - n = d - n mod d" using n by (simp add: distrib_right)
    moreover have "0 < n mod d" using b r d by (simp add: order_less_le)
    ultimately show ?thesis using b by simp
  qed
qed

lemma rounded_ref_mono:
  assumes "0 < d" "n \<le> n'"
  shows "rounded_ref m n d \<le> rounded_ref m n' d"
proof (cases "n div d = n' div d")
  case True
  then show ?thesis
    using rounds_up_mono [OF assms True, of m] by (simp add: rounded_ref_def)
next
  case False
  with zdiv_mono1 [OF assms(2,1)] have "n div d + 1 \<le> n' div d" by simp
  then show ?thesis by (simp add: rounded_ref_def)
qed

interpretation rounded: rounding "\<lambda>n d. divideRounded n d m" for m
proof unfold_locales
  show "d \<le> 0 \<Longrightarrow> divideRounded n d m = Inl KernelError" for n d
    by (simp add: divideRounded_def)
  show "0 < d \<Longrightarrow> \<exists>q. divideRounded n d m = Inr q" for n d
    by (simp add: divideRounded_ref)
  show "0 < d \<Longrightarrow> divideRounded n d m = Inr q \<Longrightarrow> \<bar>q * d - n\<bar> < d" for n d q
    using rounded_ref_close [of d m n] by (auto simp: divideRounded_ref)
  show "0 < d \<Longrightarrow> n \<le> n' \<Longrightarrow> divideRounded n d m = Inr q \<Longrightarrow> divideRounded n' d m = Inr q'
      \<Longrightarrow> q \<le> q'" for d n n' q q'
    using rounded_ref_mono [of d n n' m] by (auto simp: divideRounded_ref)
qed

lemma rounded_ref_near:
  assumes "0 < d" "m = HALF_UP \<or> m = HALF_EVEN"
  shows "2 * \<bar>rounded_ref m n d * d - n\<bar> \<le> d"
proof -
  have n: "n mod d = n - n div d * d" by (simp add: minus_div_mult_eq_mod)
  have b: "0 \<le> n mod d" "n mod d < d" using assms by simp_all
  have lo: "n div d * d - n = - (n mod d)" using n by simp
  have up: "(n div d + 1) * d - n = d - n mod d" using n by (simp add: distrib_right)
  show ?thesis
  proof (cases "rounds_up m n d")
    case True
    then have "d \<le> 2 * (n mod d)" using assms(2) by (auto simp: rounds_up_def)
    with True up b show ?thesis by (simp add: rounded_ref_def)
  next
    case False
    then have "2 * (n mod d) \<le> d" using assms(2) by (auto simp: rounds_up_def)
    with False lo b show ?thesis by (simp add: rounded_ref_def)
  qed
qed

interpretation half_up: nearest_rounding "\<lambda>n d. divideRounded n d HALF_UP"
  by unfold_locales (use rounded_ref_near [of _ HALF_UP] in \<open>auto simp: divideRounded_ref\<close>)

interpretation half_even: nearest_rounding "\<lambda>n d. divideRounded n d HALF_EVEN"
  by unfold_locales (use rounded_ref_near [of _ HALF_EVEN] in \<open>auto simp: divideRounded_ref\<close>)

section \<open>Properties\<close>

text \<open>
  C39: on a positive denominator every rounding mode returns one of the two integers around the
  exact quotient: the value of the floor when the division is exact, and otherwise the neighbour
  the mode's documentation names (ties of HALF_UP away from zero, ties of HALF_EVEN to the even
  neighbour, FLOOR and CEIL towards minus and plus infinity, TRUNC towards zero).  On a
  non-positive denominator it throws.
\<close>

theorem divideRounded_correct:
  "divideRounded n d m =
     (if d \<le> 0 then Inl KernelError
      else Inr (if n mod d = 0 then n div d
        else (case m of
            FLOOR \<Rightarrow> n div d
          | CEIL \<Rightarrow> n div d + 1
          | TRUNC \<Rightarrow> if n < 0 then n div d + 1 else n div d
          | HALF_UP \<Rightarrow>
              if d = 2 * (n mod d) then (if n < 0 then n div d else n div d + 1)
              else if d < 2 * (n mod d) then n div d + 1 else n div d
          | HALF_EVEN \<Rightarrow>
              if d = 2 * (n mod d) then (if even (n div d) then n div d else n div d + 1)
              else if d < 2 * (n mod d) then n div d + 1 else n div d)))"
proof (cases "0 < d")
  case True
  then show ?thesis
    by (cases m) (auto simp: divideRounded_ref rounded_ref_def rounds_up_def)
next
  case False
  then show ?thesis by (simp add: rounded.refuses)
qed

text \<open>
  the rounding error of every mode is less than one unit, rounding is monotone in the
  numerator, and no integer is closer to the exact quotient than the result of a half mode.
\<close>

theorem divideRounded_bounds:
  assumes "divideRounded n d m = Inr q"
  shows "0 < d \<and> \<bar>q * d - n\<bar> < d
    \<and> (\<forall>n' q'. n \<le> n' \<longrightarrow> divideRounded n' d m = Inr q' \<longrightarrow> q \<le> q')
    \<and> (m = HALF_UP \<or> m = HALF_EVEN \<longrightarrow> (\<forall>p. \<bar>q * d - n\<bar> \<le> \<bar>p * d - n\<bar>))"
proof (intro conjI)
  show d: "0 < d" using assms rounded.Inr_iff_pos [of n d m] by blast
  show "\<bar>q * d - n\<bar> < d" by (rule rounded.close [OF d assms])
  show "\<forall>n' q'. n \<le> n' \<longrightarrow> divideRounded n' d m = Inr q' \<longrightarrow> q \<le> q'"
    using rounded.mono [OF d _ assms] by blast
  show "m = HALF_UP \<or> m = HALF_EVEN \<longrightarrow> (\<forall>p. \<bar>q * d - n\<bar> \<le> \<bar>p * d - n\<bar>)"
    using assms half_up.no_closer half_even.no_closer by blast
qed

theorem divideRounded_bounds_witness:
  "divideRounded (- 25) 10 HALF_EVEN = Inr (- 2) \<and> \<bar>(- 2) * 10 - (- 25)\<bar> < (10::int)"
proof -
  have h: "divideRounded (- 25) 10 HALF_EVEN = Inr (- 2)"
    by code_simp
  show ?thesis using h divideRounded_bounds [OF h] by simp
qed

end
