(* ===== verification/Money.thy ===== *)
theory Money
  imports Integer_Math
begin

text \<open>
  Currencies and exact monetary amounts: \<open>packages/shared-kernel/src/currency.ts\<close> and
  \<open>packages/shared-kernel/src/money.ts\<close>.

  A \<open>Currency\<close> is a record of the closed registry \<open>SUPPORTED\<close> (its constructor is private), a
  \<open>Money\<close> a record of integer minor units and a currency.  Methods take the receiver first.  The
  lemmas show the round trips of the text forms, the algebra of the same-currency operations and
  the conservation and fairness of \<open>allocate\<close>.
\<close>

section \<open>Currency registry\<close>

record currency =
  code :: string
  exponent :: nat
  currency_name :: string

definition SUPPORTED :: "currency list" where
  "SUPPORTED = map (\<lambda>(c, e, n). \<lparr>code = c, exponent = e, currency_name = n\<rparr>)
     [(''QAR'', 2, ''Qatari riyal''),
      (''SAR'', 2, ''Saudi riyal''),
      (''AED'', 2, ''United Arab Emirates dirham''),
      (''OMR'', 3, ''Omani rial''),
      (''KWD'', 3, ''Kuwaiti dinar''),
      (''BHD'', 3, ''Bahraini dinar''),
      (''USD'', 2, ''United States dollar''),
      (''EUR'', 2, ''Euro''),
      (''GBP'', 2, ''Pound sterling'')]"

definition currency_tryGet :: "string \<Rightarrow> currency option" where
  "currency_tryGet c = List.find (\<lambda>cur. code cur = c) SUPPORTED"

definition currency_get :: "string \<Rightarrow> (kernel_error, currency) outcome" where
  "currency_get c =
     (case currency_tryGet c of
        None \<Rightarrow> Inl (UnsupportedCurrencyError c)
      | Some cur \<Rightarrow> Inr cur)"

definition currency_codes :: "string list" where
  "currency_codes = map code SUPPORTED"

lemma currency_codes_distinct: "distinct (map code SUPPORTED)"
  by code_simp

lemma currency_tryGet_code [wire_simps]: "cur \<in> set SUPPORTED \<Longrightarrow> currency_tryGet (code cur) = Some cur"
  unfolding currency_tryGet_def by (rule find_distinct_key [OF currency_codes_distinct])

lemma currency_tryGet_Some: "currency_tryGet c = Some cur \<Longrightarrow> cur \<in> set SUPPORTED \<and> code cur = c"
  using find_Some_set [of "\<lambda>cur. code cur = c" SUPPORTED cur] by (simp add: currency_tryGet_def)

lemma currency_code_inject:
  "a \<in> set SUPPORTED \<Longrightarrow> b \<in> set SUPPORTED \<Longrightarrow> code a = code b \<Longrightarrow> a = b"
  by (metis currency_tryGet_code option.inject)

section \<open>Amounts\<close>

record money =
  minorUnits :: int
  currency :: currency

datatype amount_input = BigintAmount int | TextAmount string

definition mk_money :: "int \<Rightarrow> currency \<Rightarrow> money" where
  "mk_money u cur = \<lparr>minorUnits = u, currency = cur\<rparr>"

fun money_of :: "amount_input \<Rightarrow> currency \<Rightarrow> (kernel_error, money) outcome" where
  "money_of (BigintAmount u) cur = Inr (mk_money u cur)"
| "money_of (TextAmount s) cur =
     (if \<not> is_integer_text s then Inl InvalidAmountError
      else Inr (mk_money (bigint_of_text s) cur))"

text \<open>
  The match of \<open>^(-?)([0-9]+)(?:[.]([0-9]+))?$\<close>: sign, whole digits and fraction digits.  The digit
  runs are maximal, since neither the dot nor the end of the text is a digit.
\<close>

definition match_decimal :: "string \<Rightarrow> (bool \<times> string \<times> string) option" where
  "match_decimal s =
     (let neg = (case s of [] \<Rightarrow> False | c # cs \<Rightarrow> c = CHR ''-'');
          body = (if neg then tl s else s);
          whole = takeWhile is_digit body;
          rest = dropWhile is_digit body
      in if whole = [] then None
         else (case rest of
                 [] \<Rightarrow> Some (neg, whole, [])
               | c # ds \<Rightarrow>
                   if c = CHR ''.'' \<and> ds \<noteq> [] \<and> all_digits ds then Some (neg, whole, ds) else None))"

definition fromDecimalString :: "string \<Rightarrow> currency \<Rightarrow> (kernel_error, money) outcome" where
  "fromDecimalString text cur =
     (case match_decimal text of
        None \<Rightarrow> Inl InvalidAmountError
      | Some (neg, wholePart, fractionPart) \<Rightarrow>
          let sign = (if neg then - 1 else 1)
          in if exponent cur < length fractionPart then Inl InvalidAmountError
             else
               let paddedFraction = pad_end (exponent cur) (CHR ''0'') fractionPart
               in result_map (pow10 (Whole (int (exponent cur))))
                    (\<lambda>scale. mk_money
                       (sign * (int (nat_of_digits wholePart) * scale
                          + int (nat_of_digits (if paddedFraction = [] then ''0'' else paddedFraction))))
                       cur))"

definition money_zero :: "currency \<Rightarrow> money" where
  "money_zero cur = mk_money 0 cur"

definition assertSameCurrency :: "money \<Rightarrow> money \<Rightarrow> (kernel_error, unit) outcome" where
  "assertSameCurrency a b =
     (if code (currency a) \<noteq> code (currency b) then Inl CurrencyMismatchError else Inr ())"

definition money_add :: "money \<Rightarrow> money \<Rightarrow> (kernel_error, money) outcome" where
  "money_add a b =
     result_map (assertSameCurrency a b) (\<lambda>_. mk_money (minorUnits a + minorUnits b) (currency a))"

definition money_subtract :: "money \<Rightarrow> money \<Rightarrow> (kernel_error, money) outcome" where
  "money_subtract a b =
     result_map (assertSameCurrency a b) (\<lambda>_. mk_money (minorUnits a - minorUnits b) (currency a))"

definition money_compare :: "money \<Rightarrow> money \<Rightarrow> (kernel_error, int) outcome" where
  "money_compare a b =
     result_map (assertSameCurrency a b)
       (\<lambda>_. if minorUnits a < minorUnits b then - 1
            else if minorUnits a > minorUnits b then 1 else 0)"

definition money_equals :: "money \<Rightarrow> money \<Rightarrow> (kernel_error, bool) outcome" where
  "money_equals a b = result_map (assertSameCurrency a b) (\<lambda>_. minorUnits a = minorUnits b)"

definition money_isZero :: "money \<Rightarrow> bool" where
  "money_isZero m \<longleftrightarrow> minorUnits m = 0"

definition money_isNegative :: "money \<Rightarrow> bool" where
  "money_isNegative m \<longleftrightarrow> minorUnits m < 0"

definition money_isPositive :: "money \<Rightarrow> bool" where
  "money_isPositive m \<longleftrightarrow> minorUnits m > 0"

definition money_negate :: "money \<Rightarrow> money" where
  "money_negate m = mk_money (- minorUnits m) (currency m)"

definition money_abs :: "money \<Rightarrow> money" where
  "money_abs m = (if minorUnits m < 0 then money_negate m else m)"

subsection \<open>allocate\<close>

fun total_weight :: "int list \<Rightarrow> int \<Rightarrow> (kernel_error, int) outcome" where
  "total_weight [] acc = Inr acc"
| "total_weight (w # ws) acc =
     (if w < 0 then Inl InvalidAllocationError else total_weight ws (acc + w))"

fun share_out :: "int \<Rightarrow> int \<Rightarrow> int list \<Rightarrow> int list \<times> int list \<times> int \<Rightarrow> int list \<times> int list \<times> int"
where
  "share_out units totalWeight [] (floors, remainders, assigned) = (floors, remainders, assigned)"
| "share_out units totalWeight (w # ws) (floors, remainders, assigned) =
     (let product = units * w;
          q0 = product sdiv totalWeight;
          r0 = product smod totalWeight;
          quotient = (if r0 < 0 then q0 - 1 else q0);
          remainder = (if r0 < 0 then r0 + totalWeight else r0)
      in share_out units totalWeight ws
           (floors @ [quotient], remainders @ [remainder], assigned + quotient))"

definition by_largest_remainder :: "int \<times> nat \<Rightarrow> int \<times> nat \<Rightarrow> int" where
  "by_largest_remainder a b =
     (if fst a \<noteq> fst b then (if fst a > fst b then - 1 else 1)
      else int (snd a) - int (snd b))"

fun hand_out :: "nat \<Rightarrow> (int \<times> nat) list \<Rightarrow> int list \<Rightarrow> int list" where
  "hand_out 0 winners floors = floors"
| "hand_out (Suc k) [] floors = floors"
| "hand_out (Suc k) (w # winners) floors =
     hand_out k winners (floors[snd w := floors ! snd w + 1])"

definition allocate :: "money \<Rightarrow> int list \<Rightarrow> (kernel_error, money list) outcome" where
  "allocate m weights =
     (if weights = [] then Inl InvalidAllocationError
      else result_andThen (total_weight weights 0)
        (\<lambda>totalWeight.
           if totalWeight = 0 then Inl InvalidAllocationError
           else
             case share_out (minorUnits m) totalWeight weights ([], [], 0) of
               (floors, remainders, assigned) \<Rightarrow>
                 let leftover = nat (minorUnits m - assigned);
                     byLargestRemainder =
                       js_sort by_largest_remainder (zip remainders [0..<length remainders])
                 in Inr (map (\<lambda>units. mk_money units (currency m))
                           (hand_out leftover byLargestRemainder floors))))"

subsection \<open>Text forms\<close>

definition money_toString :: "money \<Rightarrow> string" where
  "money_toString m =
     (let scale = 10 ^ exponent (currency m);
          magnitude = (if minorUnits m < 0 then - minorUnits m else minorUnits m);
          whole = magnitude div scale;
          sign = (if minorUnits m < 0 then ''-'' else [])
      in if exponent (currency m) = 0
         then code (currency m) @ '' '' @ sign @ text_of_bigint whole
         else
           let fraction = pad_start (exponent (currency m)) (CHR ''0'')
                            (text_of_bigint (magnitude mod scale))
           in code (currency m) @ '' '' @ sign @ text_of_bigint whole @ ''.'' @ fraction)"

definition money_toWireString :: "money \<Rightarrow> string" where
  "money_toWireString m = text_of_bigint (minorUnits m)"

lemmas money_defs = mk_money_def money_zero_def money_negate_def money_abs_def
  money_isZero_def money_isNegative_def money_isPositive_def

lemmas money_ops = money_add_def money_subtract_def money_compare_def money_equals_def
  assertSameCurrency_def

lemma mk_money_sel [simp]:
  "minorUnits (mk_money u cur) = u" "currency (mk_money u cur) = cur"
  by (simp_all add: mk_money_def)

lemma mk_money_surj [simp]: "mk_money (minorUnits m) (currency m) = m"
  by (simp add: mk_money_def)

section \<open>Round trips of the text forms\<close>

lemma takeWhile_digits_append:
  "all_digits s \<Longrightarrow> (t = [] \<or> \<not> is_digit (hd t)) \<Longrightarrow>
     takeWhile is_digit (s @ t) = s \<and> dropWhile is_digit (s @ t) = t"
  by (induction s) (auto simp: all_digits_def takeWhile_eq_Nil_iff dropWhile_eq_self_iff)

lemma all_digits_no_minus: "all_digits s \<Longrightarrow> s \<noteq> [] \<Longrightarrow> hd s \<noteq> CHR ''-''"
  by (cases s) (auto simp: all_digits_def is_digit_def)

lemma match_decimal_build:
  assumes "all_digits w" "w \<noteq> []" "all_digits f"
  shows "match_decimal ((if neg then ''-'' else []) @ w @ (if f = [] then [] else ''.'' @ f))
     = Some (neg, w, f)"
proof -
  have nd: "\<not> is_digit (CHR ''.'')" by (simp add: is_digit_def)
  have tw: "takeWhile is_digit (w @ (if f = [] then [] else ''.'' @ f)) = w"
    and dw: "dropWhile is_digit (w @ (if f = [] then [] else ''.'' @ f))
      = (if f = [] then [] else ''.'' @ f)"
    using takeWhile_digits_append [OF assms(1), of "if f = [] then [] else ''.'' @ f"] nd by auto
  obtain c cs where w: "w = c # cs" "c \<noteq> CHR ''-''" "is_digit c"
    using assms(1,2) all_digits_no_minus [OF assms(1,2)] by (cases w) (auto simp: all_digits_def)
  show ?thesis
    using tw dw w assms(2,3) by (cases neg) (auto simp: match_decimal_def Let_def)
qed

lemma length_string_of_nat: "n < 10 ^ k \<Longrightarrow> 0 < k \<Longrightarrow> length (string_of_nat n) \<le> k"
proof (induction n arbitrary: k rule: string_of_nat.induct)
  case (1 n)
  show ?case
  proof (cases "n < 10")
    case True
    with 1 show ?thesis by (subst string_of_nat.simps) simp
  next
    case False
    obtain j where k: "k = Suc j" using 1(3) by (cases k) auto
    with 1(2) False have "n div 10 < 10 ^ j" and "0 < j"
      by (auto simp: less_mult_imp_div_less mult.commute) (cases j, auto)
    with 1(1) [OF False] have "length (string_of_nat (n div 10)) \<le> j" by blast
    with k False show ?thesis by (subst string_of_nat.simps) simp
  qed
qed

lemma text_of_bigint_nonneg: "0 \<le> n \<Longrightarrow> text_of_bigint n = string_of_nat (nat n)"
  by (simp add: text_of_bigint_def)

lemma pad_start_digits:
  "all_digits s \<Longrightarrow> all_digits (pad_start n (CHR ''0'') s)"
  by (auto simp: pad_start_def all_digits_def is_digit_def list_all_iff)

lemma nat_of_digits_pad_start [wire_simps]:
  "nat_of_digits (pad_start n (CHR ''0'') s) = nat_of_digits s"
  by (simp add: pad_start_def nat_of_digits_append nat_of_digits_zeros)

text \<open>
  C40: printing an amount and reading the text after the currency code back gives the amount, for
  every sign and every exponent: the padded fraction and the scale agree, so no minor unit is lost
  or invented between \<open>toString\<close> and \<open>fromDecimalString\<close>.
\<close>

theorem money_decimal_roundtrip:
  "fromDecimalString (drop (length (code (currency m)) + 1) (money_toString m)) (currency m) = Inr m"
proof -
  let ?e = "exponent (currency m)" and ?mag = "\<bar>minorUnits m\<bar>" and ?neg = "minorUnits m < 0"
  let ?w = "string_of_nat (nat (?mag div 10 ^ ?e))"
  let ?f = "if ?e = 0 then [] else pad_start ?e (CHR ''0'') (string_of_nat (nat (?mag mod 10 ^ ?e)))"
  have mag: "(if minorUnits m < 0 then - minorUnits m else minorUnits m) = ?mag" by simp
  have nn: "0 \<le> ?mag div 10 ^ ?e" "0 \<le> ?mag mod 10 ^ ?e"
    by (simp_all add: pos_imp_zdiv_nonneg_iff)
  have lt: "nat (?mag mod 10 ^ ?e) < 10 ^ ?e" by (simp add: nat_less_iff)
  have lenf: "length ?f = ?e"
    using length_string_of_nat [OF lt] by (auto simp: pad_start_def)
  then have fe: "?f = [] \<longleftrightarrow> ?e = 0" by (metis length_0_conv)
  have shape: "drop (length (code (currency m)) + 1) (money_toString m)
      = (if ?neg then ''-'' else []) @ ?w @ (if ?f = [] then [] else ''.'' @ ?f)"
    using nn fe by (simp add: money_toString_def Let_def mag text_of_bigint_nonneg)
  have fd: "all_digits ?f"
    by (simp add: pad_start_digits all_digits_string_of_nat) (simp add: all_digits_def)
  have md: "match_decimal (drop (length (code (currency m)) + 1) (money_toString m))
      = Some (?neg, ?w, ?f)"
    unfolding shape
    by (rule match_decimal_build) (simp_all only: all_digits_string_of_nat string_of_nat_nonempty
        fd not_False_eq_True)
  have pad: "pad_end ?e (CHR ''0'') ?f = ?f" using lenf by (simp add: pad_end_def)
  have val: "int (nat_of_digits (if ?f = [] then ''0'' else ?f)) = ?mag mod 10 ^ ?e"
  proof (cases "?e = 0")
    case True
    then show ?thesis by (simp add: nat_of_digits_def digit_val_def)
  next
    case False
    with nn fe show ?thesis
      by (simp add: nat_of_digits_pad_start nat_of_digits_string_of_nat)
  qed
  have "(if ?neg then - 1 else 1) * (?mag div 10 ^ ?e * 10 ^ ?e + ?mag mod 10 ^ ?e) = minorUnits m"
    by (simp only: div_mult_mod_eq) (simp add: abs_if)
  then show ?thesis
    using nn unfolding fromDecimalString_def md
    by (simp only: option.case prod.case Let_def lenf less_irrefl if_False pad val pow10_nat
        result_map.simps nat_of_digits_string_of_nat int_nat_eq if_True) simp
qed

section \<open>The algebra of same-currency amounts\<close>

text \<open>
  on amounts of one currency, \<open>add\<close> and \<open>subtract\<close> are the group operations (each undoes the
  other, \<open>zero\<close> is neutral, \<open>negate\<close> is the inverse), \<open>compare\<close> is a total order whose zero is
  \<open>equals\<close>; on two currencies each of the four throws the mismatch error.
\<close>

theorem money_group_and_order:
  "(code (currency a) \<noteq> code (currency b) \<longrightarrow>
      money_add a b = Inl CurrencyMismatchError \<and> money_subtract a b = Inl CurrencyMismatchError
      \<and> money_compare a b = Inl CurrencyMismatchError \<and> money_equals a b = Inl CurrencyMismatchError)
   \<and> (currency a = currency b \<longrightarrow>
      result_andThen (money_add a b) (\<lambda>s. money_subtract s b) = Inr a
      \<and> result_andThen (money_subtract a b) (\<lambda>s. money_add s b) = Inr a
      \<and> money_add a b = money_add b a
      \<and> money_add a (money_negate b) = money_subtract a b
      \<and> money_add a (money_zero (currency a)) = Inr a
      \<and> (\<exists>c. money_compare a b = Inr c \<and> money_compare b a = Inr (- c) \<and> c \<in> {- 1, 0, 1}
            \<and> money_equals a b = Inr (c = 0) \<and> (c = 0 \<longleftrightarrow> a = b)))"
proof -
  have "a = b \<longleftrightarrow> minorUnits a = minorUnits b" if "currency a = currency b"
    using that by (metis mk_money_surj)
  then show ?thesis
    by (auto simp: money_ops money_defs)
qed

theorem money_group_and_order_witness:
  "(currency (mk_money 1050 (SUPPORTED ! 0)) = currency (mk_money 250 (SUPPORTED ! 0)))
   \<and> result_andThen (money_add (mk_money 1050 (SUPPORTED ! 0)) (mk_money 250 (SUPPORTED ! 0)))
       (\<lambda>s. money_subtract s (mk_money 250 (SUPPORTED ! 0))) = Inr (mk_money 1050 (SUPPORTED ! 0))
   \<and> money_add (mk_money 1 (SUPPORTED ! 0)) (mk_money 1 (SUPPORTED ! 4)) = Inl CurrencyMismatchError"
proof -
  have h: "currency (mk_money 1050 (SUPPORTED ! 0)) = currency (mk_money 250 (SUPPORTED ! 0))"
    by simp
  have n: "code (currency (mk_money 1 (SUPPORTED ! 0))) \<noteq> code (currency (mk_money 1 (SUPPORTED ! 4)))"
    by (simp add: SUPPORTED_def)
  show ?thesis
    using money_group_and_order [THEN conjunct2, THEN mp, OF h]
      money_group_and_order [THEN conjunct1, THEN mp, OF n] h by blast
qed

section \<open>allocate conserves every minor unit and is fair\<close>

lemma total_weight_Inr:
  "total_weight ws acc = Inr t \<longleftrightarrow> (\<forall>w \<in> set ws. 0 \<le> w) \<and> t = acc + sum_list ws"
  by (induction ws arbitrary: acc) auto

lemma share_out_spec:
  assumes "0 < t"
  shows "share_out u t ws (fs, rs, as) =
    (fs @ map (\<lambda>w. u * w div t) ws, rs @ map (\<lambda>w. u * w mod t) ws,
     as + sum_list (map (\<lambda>w. u * w div t) ws))"
proof (induction ws arbitrary: fs rs as)
  case (Cons w ws)
  have "(if (u * w) smod t < 0 then (u * w) sdiv t - 1 else (u * w) sdiv t) = u * w div t"
    and "(if (u * w) smod t < 0 then (u * w) smod t + t else (u * w) smod t) = u * w mod t"
    using assms pos_mod_bound [OF assms, of "u * w"] pos_mod_sign [OF assms, of "u * w"]
    by (auto simp: sdiv_smod_floor)
  with Cons show ?case by (simp add: Let_def)
qed simp

interpretation largest: comparator by_largest_remainder
  by unfold_locales (auto simp: by_largest_remainder_def split: if_splits)

lemma hand_out_nth:
  assumes "distinct (map snd ws)" "\<forall>w \<in> set ws. snd w < length fs" "i < length fs"
  shows "hand_out k ws fs ! i = fs ! i + (if i \<in> snd ` set (take k ws) then 1 else 0)"
  using assms
proof (induction k ws fs rule: hand_out.induct)
  case (3 k w ws fs)
  have "i \<notin> snd ` set (take k ws)" if "i = snd w"
    using 3(2) that set_take_subset [of k ws] by auto
  with 3 show ?case by (auto simp: nth_list_update)
qed simp_all

lemma length_hand_out [simp]: "length (hand_out k ws fs) = length fs"
  by (induction k ws fs rule: hand_out.induct) simp_all

lemma sum_list_hand_out:
  "\<forall>w \<in> set ws. snd w < length fs \<Longrightarrow>
     sum_list (hand_out k ws fs) = sum_list fs + int (min k (length ws))"
  by (induction k ws fs rule: hand_out.induct) (auto simp: sum_list_update_add)

lemma sum_list_div_mod:
  "sum_list (map (\<lambda>w. u * w) ws) =
     sum_list (map (\<lambda>w. u * w div t) ws) * t + sum_list (map (\<lambda>w. u * w mod t) ws)"
  for t :: int
  by (induction ws) (auto simp: algebra_simps)

lemma sum_list_less_bound:
  fixes t :: int
  shows "xs \<noteq> [] \<Longrightarrow> \<forall>x \<in> set xs. x < t \<Longrightarrow> sum_list xs < int (length xs) * t"
proof (induction xs)
  case (Cons x xs)
  then show ?case by (cases "xs = []") (auto simp: algebra_simps)
qed simp

text \<open>
  The winners of the hand-out all have a positive remainder: fewer parts would leave too small a
  sum of remainders.
\<close>

lemma winners_positive:
  fixes rs :: "int list" and t :: int
  defines "L \<equiv> js_sort by_largest_remainder (zip rs [0..<length rs])"
  assumes sum: "sum_list rs = int k * t" and t: "0 < t"
    and bound: "\<forall>r \<in> set rs. 0 \<le> r \<and> r < t" and w: "w \<in> set (take k L)"
  shows "0 < fst w"
proof (rule ccontr)
  assume "\<not> 0 < fst w"
  obtain p where p: "p < k" "p < length L" "w = L ! p"
    using w by (auto simp: in_set_conv_nth)
  have msL: "mset (map fst L) = mset rs"
    by (metis L_def mset_js_sort mset_map map_fst_zip length_upt minus_nat.diff_0)
  have memL: "0 \<le> fst x \<and> fst x < t" if "x \<in> set L" for x
    using that bound set_zip_leftD [of "fst x" "snd x"] by (auto simp: L_def)
  have "fst w = 0" using memL [of w] p \<open>\<not> 0 < fst w\<close> by force
  have zero: "fst (L ! q) = 0" if "p \<le> q" "q < length L" for q
  proof (cases "p = q")
    case False
    have "by_largest_remainder (L ! p) (L ! q) \<le> 0"
      using largest.sorted_js_sort [of "zip rs [0..<length rs]"] that False p
      by (auto simp: sorted_wrt_iff_nth_less L_def)
    then show ?thesis
      using memL [of "L ! q"] that \<open>fst w = 0\<close> p(3)
      by (force simp: by_largest_remainder_def split: if_splits)
  qed (use \<open>fst w = 0\<close> p in simp)
  have "map fst (drop p L) = replicate (length L - p) 0"
    by (rule nth_equalityI) (auto simp: zero)
  then have "sum_list (map fst (drop p L)) = 0" by (simp add: sum_list_zeros)
  moreover have "sum_list rs = sum_list (map fst (take p L)) + sum_list (map fst (drop p L))"
    by (metis append_take_drop_id map_append msL sum_list_append sum_mset_sum_list)
  moreover have "sum_list (map fst (take p L)) \<le> int p * t"
  proof (cases "take p L = []")
    case False
    then have "sum_list (map fst (take p L)) < int (length (take p L)) * t"
      using memL by (intro order.strict_trans2 [OF sum_list_less_bound])
        (auto dest: in_set_takeD)
    with p show ?thesis by (simp add: min_absorb2)
  next
    case True
    then have "sum_list (map fst (take p L)) = 0" by (simp only: list.map sum_list.Nil)
    with t show ?thesis by simp
  qed
  ultimately have "int k * t \<le> int p * t" using sum by simp
  with t p show False by simp
qed

text \<open>The winners come before the others in the order of the remainders, and of the indices among equal ones.\<close>

lemma winners_first:
  fixes rs :: "int list"
  defines "L \<equiv> js_sort by_largest_remainder (zip rs [0..<length rs])"
  assumes j: "j < length rs" "j \<notin> snd ` set (take k L)" and i: "i \<in> snd ` set (take k L)"
  shows "rs ! j < rs ! i \<or> rs ! j = rs ! i \<and> i < j"
proof -
  have mem: "x \<in> set L \<longleftrightarrow> snd x < length rs \<and> fst x = rs ! snd x" for x
    by (cases x) (auto simp: L_def in_set_zip)
  obtain w where w: "w \<in> set (take k L)" "snd w = i" using i by blast
  have "(rs ! j, j) \<in> set L" using mem j(1) by simp
  moreover have "(rs ! j, j) \<notin> set (take k L)" using j(2) by force
  ultimately have "(rs ! j, j) \<in> set (drop k L)" by (metis Un_iff append_take_drop_id set_append)
  moreover have "sorted_wrt (\<lambda>a b. by_largest_remainder a b \<le> 0) (take k L @ drop k L)"
    using largest.sorted_js_sort [of "zip rs [0..<length rs]"] by (simp add: L_def)
  ultimately have "by_largest_remainder w (rs ! j, j) \<le> 0" using w(1) unfolding sorted_wrt_append by blast
  moreover have "fst w = rs ! i" using mem [of w] w set_take_subset by fastforce
  moreover have "i \<noteq> j" using i j(2) by blast
  ultimately show ?thesis using w(2) by (auto simp: by_largest_remainder_def split: if_splits)
qed

lemma allocate_Inr:
  assumes "allocate m ws = Inr parts"
  defines "t \<equiv> sum_list ws"
  defines "fs \<equiv> map (\<lambda>w. minorUnits m * w div t) ws" and "rs \<equiv> map (\<lambda>w. minorUnits m * w mod t) ws"
  defines "k \<equiv> nat (minorUnits m - sum_list fs)"
  defines "L \<equiv> js_sort by_largest_remainder (zip rs [0..<length rs])"
  shows "ws \<noteq> []" "\<forall>w \<in> set ws. 0 \<le> w" "0 < t"
    "parts = map (\<lambda>u. mk_money u (currency m)) (hand_out k L fs)"
proof -
  from assms(1) show ws: "ws \<noteq> []" by (auto simp: allocate_def)
  from assms(1) have tw: "total_weight ws 0 = Inr t" and "t \<noteq> 0"
    by (auto simp: allocate_def result_simps total_weight_Inr t_def split: if_splits)
  then show nn: "\<forall>w \<in> set ws. 0 \<le> w" by (simp add: total_weight_Inr)
  then show t: "0 < t" using \<open>t \<noteq> 0\<close> by (simp add: t_def sum_list_nonneg order_less_le)
  show "parts = map (\<lambda>u. mk_money u (currency m)) (hand_out k L fs)"
    using assms(1) ws tw \<open>t \<noteq> 0\<close>
    by (simp add: allocate_def share_out_spec [OF t] Let_def fs_def rs_def k_def L_def)
qed

lemma remainder_sum:
  fixes u :: int and ws :: "int list"
  defines "t \<equiv> sum_list ws"
  defines "fs \<equiv> map (\<lambda>w. u * w div t) ws" and "rs \<equiv> map (\<lambda>w. u * w mod t) ws"
  defines "k \<equiv> nat (u - sum_list fs)"
  assumes "ws \<noteq> []" "0 < t"
  shows "u - sum_list fs = int k" "sum_list rs = int k * t" "k < length ws"
    "\<forall>r \<in> set rs. 0 \<le> r \<and> r < t"
proof -
  show rb: "\<forall>r \<in> set rs. 0 \<le> r \<and> r < t" using assms(6) by (auto simp: rs_def)
  have "sum_list (map (\<lambda>w. u * w) ws) = u * t" by (simp add: t_def sum_list_const_mult)
  then have rs: "sum_list rs = (u - sum_list fs) * t"
    using sum_list_div_mod [of u ws t] by (simp add: fs_def rs_def left_diff_distrib)
  moreover have "0 \<le> sum_list rs" using rb by (intro sum_list_nonneg) blast
  ultimately have "0 \<le> u - sum_list fs" using assms(6) by (simp add: zero_le_mult_iff)
  then show k: "u - sum_list fs = int k" by (simp add: k_def)
  with rs show sk: "sum_list rs = int k * t" by simp
  have "rs \<noteq> []" using assms(5) by (simp add: rs_def)
  then have "sum_list rs < int (length rs) * t" using sum_list_less_bound rb by blast
  then show "k < length ws" using sk assms(6) by (simp add: rs_def)
qed

text \<open>
  C3: whenever \<open>allocate\<close> returns, there is one part per weight, every part is in the currency of
  the amount, the parts sum to exactly the amount, and each part is within one minor unit of its
  exact proportional share (so a zero weight receives exactly zero).  Each part is its share rounded down, or one
  unit more, and the extra units go to the largest remainders, to the earlier part among equal ones: a part that got one
  has a larger remainder than every part that got none, or an equal one and a smaller index.
\<close>

theorem allocate_conserves_and_is_fair:
  assumes "allocate m ws = Inr parts"
  shows "length parts = length ws \<and> (\<forall>p \<in> set parts. currency p = currency m)
    \<and> sum_list (map minorUnits parts) = minorUnits m
    \<and> (\<forall>i < length ws. \<bar>minorUnits (parts ! i) * sum_list ws - minorUnits m * ws ! i\<bar> < sum_list ws)
    \<and> (\<forall>i < length ws. ws ! i = 0 \<longrightarrow> minorUnits (parts ! i) = 0)
    \<and> (let share = (\<lambda>i. minorUnits m * ws ! i div sum_list ws); remainder = (\<lambda>i. minorUnits m * ws ! i mod sum_list ws) in
        (\<forall>i < length ws. minorUnits (parts ! i) = share i \<or> minorUnits (parts ! i) = share i + 1)
        \<and> (\<forall>i < length ws. \<forall>j < length ws. minorUnits (parts ! i) = share i + 1 \<and> minorUnits (parts ! j) = share j
             \<longrightarrow> remainder j < remainder i \<or> remainder j = remainder i \<and> i < j))"
proof -
  let ?t = "sum_list ws" and ?u = "minorUnits m"
  let ?fs = "map (\<lambda>w. ?u * w div ?t) ws" and ?rs = "map (\<lambda>w. ?u * w mod ?t) ws"
  let ?k = "nat (?u - sum_list ?fs)"
  let ?L = "js_sort by_largest_remainder (zip ?rs [0..<length ?rs])"
  note a = allocate_Inr [OF assms]
  note r = remainder_sum [OF a(1,3), of ?u]
  have idx: "\<forall>w \<in> set ?L. snd w < length ?fs" by (auto dest: set_zip_rightD)
  have dist: "distinct (map snd ?L)"
    by (metis distinct_upt length_upt map_snd_zip minus_nat.diff_0 mset_eq_imp_distinct_iff
        mset_js_sort mset_map)
  have units: "map minorUnits parts = hand_out ?k ?L ?fs" by (simp add: a(4) comp_def)
  have sum: "sum_list (map minorUnits parts) = ?u"
  proof -
    have "sum_list (map minorUnits parts) = sum_list ?fs + int (min ?k (length ?L))"
      unfolding units by (rule sum_list_hand_out [OF idx])
    moreover have "min ?k (length ?L) = ?k" using r(3) by simp
    ultimately show ?thesis using r(1) by linarith
  qed
  have part: "minorUnits (parts ! i) = ?u * ws ! i div ?t + (if i \<in> snd ` set (take ?k ?L) then 1 else 0)" if i: "i < length ws" for i
    using i hand_out_nth [OF dist idx, of i ?k] by (simp add: a(4))
  have near: "\<bar>minorUnits (parts ! i) * ?t - ?u * ws ! i\<bar> < ?t" if i: "i < length ws" for i
  proof -
    note part = part [OF i]
    have e: "?u * ws ! i div ?t * ?t = ?u * ws ! i - ?u * ws ! i mod ?t"
      by (simp add: minus_mod_eq_div_mult)
    have b: "0 \<le> ?u * ws ! i mod ?t" "?u * ws ! i mod ?t < ?t" using a(3) by simp_all
    have "0 < ?u * ws ! i mod ?t" if "i \<in> snd ` set (take ?k ?L)"
    proof -
      obtain w where w: "w \<in> set (take ?k ?L)" "i = snd w" using \<open>i \<in> _\<close> by blast
      have "w \<in> set (zip ?rs [0..<length ?rs])" using set_take_subset w(1) by fastforce
      then have "fst w = ?u * ws ! i mod ?t" using w(2) by (auto simp: set_zip)
      then show ?thesis using winners_positive [OF r(2) a(3) r(4) w(1)] by simp
    qed
    then show ?thesis using part e b by (simp add: distrib_right)
  qed
  have "minorUnits (parts ! i) = 0" if "i < length ws" "ws ! i = 0" for i
    using near [OF that(1)] that(2) a(3) by (simp add: abs_mult)
  moreover have "?rs ! j < ?rs ! i \<or> ?rs ! j = ?rs ! i \<and> i < j"
    if ij: "i < length ws" "j < length ws" "i \<in> snd ` set (take ?k ?L)" "j \<notin> snd ` set (take ?k ?L)" for i j
    using winners_first [where rs = ?rs and k = ?k and i = i and j = j] ij by simp
  ultimately show ?thesis using sum near part by (auto simp: a(4) Let_def split: if_splits)
qed

theorem allocate_conserves_and_is_fair_witness:
  "allocate (mk_money (- 100) (SUPPORTED ! 0)) [1, 0, 1, 1]
     = Inr (map (\<lambda>u. mk_money u (SUPPORTED ! 0)) [- 33, 0, - 33, - 34])
   \<and> sum_list (map minorUnits (map (\<lambda>u. mk_money u (SUPPORTED ! 0)) [- 33, 0, - 33, - 34])) = - 100"
proof -
  have h: "allocate (mk_money (- 100) (SUPPORTED ! 0)) [1, 0, 1, 1]
     = Inr (map (\<lambda>u. mk_money u (SUPPORTED ! 0)) [- 33, 0, - 33, - 34])"
    by code_simp
  show ?thesis using h allocate_conserves_and_is_fair [OF h] by simp
qed

text \<open>
  \<open>allocate\<close> throws exactly on an empty weight list, a negative weight or a zero sum, and in
  every other case it returns.
\<close>

theorem allocate_errors:
  "allocate m ws = Inl e \<longleftrightarrow>
     e = InvalidAllocationError \<and> (ws = [] \<or> (\<exists>w \<in> set ws. w < 0) \<or> sum_list ws = 0)"
proof -
  have tl: "total_weight ws acc = Inl e \<longleftrightarrow> e = InvalidAllocationError \<and> (\<exists>w \<in> set ws. w < 0)"
    for acc e by (induction ws arbitrary: acc) auto
  show ?thesis
    by (auto simp: allocate_def result_simps tl total_weight_Inr Let_def not_le split: prod.splits)
qed

end
