(* ===== verification/Percentage_Rate.thy ===== *)
theory Percentage_Rate
  imports Money
begin

text \<open>
  Percentages and exchange rates: \<open>packages/shared-kernel/src/percentage.ts\<close>,
  \<open>packages/shared-kernel/src/exchange-rate.ts\<close>, and \<open>Money.multiplyByPercentage\<close> of
  \<open>money.ts\<close>.  A percentage is the ratio \<open>value / 10 ^ scale\<close>; a rate is \<open>mantissa / 10 ^ scale\<close>
  quote units per base unit.  A \<open>Date\<close> argument is its time value, \<open>None\<close> when that is NaN.

  The lemmas bound the rounding error of scaling and conversion to less than one minor unit of the
  target, and show that the printed form of a percentage reads back to the same ratio.
\<close>

section \<open>Percentage\<close>

record percentage =
  pct_value :: int
  pct_scale :: nat

definition percentage_MAX_SCALE :: nat where
  "percentage_MAX_SCALE = 30"

definition mk_percentage :: "int \<Rightarrow> nat \<Rightarrow> percentage" where
  "mk_percentage v s = \<lparr>pct_value = v, pct_scale = s\<rparr>"

definition percentage_of :: "int \<Rightarrow> js_number \<Rightarrow> (kernel_error, percentage) outcome" where
  "percentage_of v scale =
     (case scale of
        NotWhole \<Rightarrow> Inl InvalidPercentageError
      | Whole s \<Rightarrow>
          if s < 0 \<or> int percentage_MAX_SCALE < s then Inl InvalidPercentageError
          else Inr (mk_percentage v (nat s)))"

definition fromBasisPoints :: "int \<Rightarrow> percentage" where
  "fromBasisPoints bp = mk_percentage bp 4"

definition fromPercent :: "string \<Rightarrow> (kernel_error, percentage) outcome" where
  "fromPercent s =
     (case match_decimal s of
        None \<Rightarrow> Inl InvalidPercentageError
      | Some (neg, wholePart, fractionPart) \<Rightarrow>
          let sign = (if neg then - 1 else 1)
          in if percentage_MAX_SCALE < length fractionPart + 2 then Inl InvalidPercentageError
             else Inr (mk_percentage (sign * int (nat_of_digits (wholePart @ fractionPart)))
                         (length fractionPart + 2)))"

definition multiplyByPercentage ::
  "money \<Rightarrow> percentage \<Rightarrow> rounding_mode \<Rightarrow> (kernel_error, money) outcome" where
  "multiplyByPercentage m p mode =
     result_andThen (pow10 (Whole (int (pct_scale p))))
       (\<lambda>scale. result_map (divideRounded (minorUnits m * pct_value p) scale mode)
          (\<lambda>rounded. mk_money rounded (currency m)))"

datatype percentage_target = MoneyTarget money | UnitsTarget int

fun percentage_apply ::
  "percentage \<Rightarrow> percentage_target \<Rightarrow> rounding_mode \<Rightarrow> (kernel_error, percentage_target) outcome"
where
  "percentage_apply p (UnitsTarget n) mode =
     result_andThen (pow10 (Whole (int (pct_scale p))))
       (\<lambda>scale. result_map (divideRounded (n * pct_value p) scale mode) UnitsTarget)"
| "percentage_apply p (MoneyTarget m) mode =
     result_map (multiplyByPercentage m p mode) MoneyTarget"

definition strip_trailing_zeros :: "string \<Rightarrow> string" where
  "strip_trailing_zeros s = rev (dropWhile (\<lambda>c. c = CHR ''0'') (rev s))"

definition percentage_toString :: "percentage \<Rightarrow> string" where
  "percentage_toString p =
     (let sign = (if pct_value p < 0 then ''-'' else []);
          magnitude = (if pct_value p < 0 then - pct_value p else pct_value p);
          percentScale = int (pct_scale p) - 2
      in if percentScale \<le> 0
         then sign @ text_of_bigint (magnitude * 10 ^ nat (- percentScale)) @ ''%''
         else
           let divisor = 10 ^ nat percentScale;
               whole = magnitude div divisor;
               fraction = strip_trailing_zeros
                 (pad_start (nat percentScale) (CHR ''0'') (text_of_bigint (magnitude mod divisor)))
           in if fraction = [] then sign @ text_of_bigint whole @ ''%''
              else sign @ text_of_bigint whole @ ''.'' @ fraction @ ''%'')"

lemma mk_percentage_sel [simp]:
  "pct_value (mk_percentage v s) = v" "pct_scale (mk_percentage v s) = s"
  by (simp_all add: mk_percentage_def)

section \<open>Exchange rates\<close>

record exchange_rate =
  rate_base :: currency
  rate_quote :: currency
  rate_mantissa :: int
  rate_scale :: nat
  rate_source :: string
  rate_asOf :: millis

definition rate_MAX_SCALE :: nat where
  "rate_MAX_SCALE = 30"

definition rate_of ::
  "currency \<Rightarrow> currency \<Rightarrow> int \<Rightarrow> js_number \<Rightarrow> string \<Rightarrow> millis option
     \<Rightarrow> (kernel_error, exchange_rate) outcome" where
  "rate_of base quote mantissa scale source asOf =
     (if code base = code quote then Inl InvalidRateError
      else if mantissa \<le> 0 then Inl InvalidRateError
      else case scale of
        NotWhole \<Rightarrow> Inl InvalidRateError
      | Whole s \<Rightarrow>
          if s < 0 \<or> int rate_MAX_SCALE < s then Inl InvalidRateError
          else if js_trim source = [] then Inl InvalidRateError
          else (case asOf of
                  None \<Rightarrow> Inl InvalidRateError
                | Some t \<Rightarrow>
                    Inr \<lparr>rate_base = base, rate_quote = quote, rate_mantissa = mantissa,
                         rate_scale = nat s, rate_source = source, rate_asOf = t\<rparr>))"

definition rate_convert ::
  "exchange_rate \<Rightarrow> money \<Rightarrow> rounding_mode \<Rightarrow> (kernel_error, money) outcome" where
  "rate_convert r amount mode =
     (if code (currency amount) \<noteq> code (rate_base r) then Inl CurrencyMismatchError
      else
        result_andThen (pow10 (Whole (int (exponent (rate_quote r)))))
          (\<lambda>quoteUnits.
             let numerator = minorUnits amount * rate_mantissa r * quoteUnits
             in result_andThen (pow10 (Whole (int (rate_scale r + exponent (rate_base r)))))
                  (\<lambda>denominator.
                     result_andThen (divideRounded numerator denominator mode)
                       (\<lambda>u. money_of (BigintAmount u) (rate_quote r)))))"

definition rate_inverse ::
  "exchange_rate \<Rightarrow> js_number \<Rightarrow> rounding_mode \<Rightarrow> (kernel_error, exchange_rate) outcome" where
  "rate_inverse r scale mode =
     (case scale of
        NotWhole \<Rightarrow> Inl InvalidRateError
      | Whole s \<Rightarrow>
          if s < 0 \<or> int rate_MAX_SCALE < s then Inl InvalidRateError
          else
            result_andThen (pow10 (Whole (s + int (rate_scale r))))
              (\<lambda>num. result_andThen (divideRounded num (rate_mantissa r) mode)
                 (\<lambda>mantissa.
                    if mantissa \<le> 0 then Inl InvalidRateError
                    else rate_of (rate_quote r) (rate_base r) mantissa scale
                           (''inverse('' @ rate_source r @ '')'') (Some (rate_asOf r)))))"

text \<open>What every constructed rate satisfies: the refusals of \<open>ExchangeRate.of\<close>.\<close>

definition rate_wf :: "exchange_rate \<Rightarrow> bool" where
  "rate_wf r \<longleftrightarrow> code (rate_base r) \<noteq> code (rate_quote r) \<and> 0 < rate_mantissa r
     \<and> rate_scale r \<le> rate_MAX_SCALE \<and> js_trim (rate_source r) \<noteq> []"

lemma rate_of_Inr:
  "rate_of b q m s src at = Inr r \<longleftrightarrow>
     (\<exists>t. at = Some t \<and> s = Whole (int (rate_scale r)) \<and> rate_wf r
        \<and> r = \<lparr>rate_base = b, rate_quote = q, rate_mantissa = m, rate_scale = rate_scale r,
               rate_source = src, rate_asOf = t\<rparr>)"
  by (cases r) (auto simp: rate_of_def rate_wf_def split: js_number.splits option.splits if_splits)

section \<open>Properties\<close>

text \<open>
  scaling an amount by a percentage keeps the currency, is off by less than one minor unit
  from the exact ratio, keeps the sign for a non-negative percentage, and is exact when the ratio
  divides: 100 percent, at any scale, returns the amount unchanged.
\<close>

theorem multiplyByPercentage_bound:
  "\<exists>r. multiplyByPercentage m p mode = Inr r \<and> currency r = currency m
     \<and> \<bar>minorUnits r * 10 ^ pct_scale p - minorUnits m * pct_value p\<bar> < 10 ^ pct_scale p
     \<and> (0 \<le> minorUnits m * pct_value p \<longrightarrow> 0 \<le> minorUnits r)
     \<and> (minorUnits m * pct_value p \<le> 0 \<longrightarrow> minorUnits r \<le> 0)
     \<and> (pct_value p = 10 ^ pct_scale p \<longrightarrow> r = m)"
proof -
  let ?d = "10 ^ pct_scale p :: int" and ?n = "minorUnits m * pct_value p"
  have d: "0 < ?d" by simp
  obtain q where q: "divideRounded ?n ?d mode = Inr q"
    using rounded.total [OF d] by blast
  have "mk_money q (currency m) = m" if "pct_value p = ?d"
    using q rounded.exact [OF d, of "minorUnits m" mode] that by simp
  then show ?thesis
    using q rounded.close [OF d q] rounded.sign_kept [OF q]
    by (simp add: multiplyByPercentage_def)
qed

theorem multiplyByPercentage_bound_witness:
  "0 \<le> minorUnits (mk_money 1999 (SUPPORTED ! 0)) * pct_value (fromBasisPoints 250)
   \<and> multiplyByPercentage (mk_money 1999 (SUPPORTED ! 0)) (fromBasisPoints 250) HALF_EVEN
       = Inr (mk_money 50 (SUPPORTED ! 0))
   \<and> multiplyByPercentage (mk_money 7 (SUPPORTED ! 3)) (fromBasisPoints 10000) FLOOR
       = Inr (mk_money 7 (SUPPORTED ! 3))"
proof -
  have p: "pct_value (fromBasisPoints 10000) = 10 ^ pct_scale (fromBasisPoints 10000)"
    by (simp add: fromBasisPoints_def)
  have "multiplyByPercentage (mk_money 1999 (SUPPORTED ! 0)) (fromBasisPoints 250) HALF_EVEN
       = Inr (mk_money 50 (SUPPORTED ! 0))"
    by code_simp
  moreover have "multiplyByPercentage (mk_money 7 (SUPPORTED ! 3)) (fromBasisPoints 10000) FLOOR
       = Inr (mk_money 7 (SUPPORTED ! 3))"
    using multiplyByPercentage_bound [of "mk_money 7 (SUPPORTED ! 3)" "fromBasisPoints 10000" FLOOR] p
    by blast
  ultimately show ?thesis by (simp add: fromBasisPoints_def)
qed

text \<open>
  a conversion succeeds exactly on amounts of the base currency; the result is in the quote
  currency, off by less than one of its minor units from the exact product rescaled between the two
  exponents, and conversion is monotone in the amount.
\<close>

theorem rate_convert_correct:
  "(code (currency a) \<noteq> code (rate_base r) \<longrightarrow> rate_convert r a mode = Inl CurrencyMismatchError)
   \<and> (code (currency a) = code (rate_base r) \<longrightarrow>
       (\<exists>c. rate_convert r a mode = Inr c \<and> currency c = rate_quote r
          \<and> \<bar>minorUnits c * 10 ^ (rate_scale r + exponent (rate_base r))
               - minorUnits a * rate_mantissa r * 10 ^ exponent (rate_quote r)\<bar>
             < 10 ^ (rate_scale r + exponent (rate_base r))
          \<and> (\<forall>b d. code (currency b) = code (rate_base r) \<and> 0 < rate_mantissa r
               \<and> minorUnits a \<le> minorUnits b \<and> rate_convert r b mode = Inr d
               \<longrightarrow> minorUnits c \<le> minorUnits d)))"
proof (cases "code (currency a) = code (rate_base r)")
  case True
  let ?D = "10 ^ (rate_scale r + exponent (rate_base r)) :: int"
  let ?N = "\<lambda>u. u * rate_mantissa r * 10 ^ exponent (rate_quote r)"
  have d: "0 < ?D" by simp
  have conv: "rate_convert r b mode = result_map (divideRounded (?N (minorUnits b)) ?D mode)
      (\<lambda>u. mk_money u (rate_quote r))" if "code (currency b) = code (rate_base r)" for b
    using that pow10_nat [of "rate_scale r + exponent (rate_base r)"]
    by (cases "divideRounded (?N (minorUnits b)) ?D mode")
      (simp_all add: rate_convert_def del: of_nat_add)
  obtain q where q: "divideRounded (?N (minorUnits a)) ?D mode = Inr q"
    using rounded.total [OF d] by blast
  have "minorUnits (mk_money q (rate_quote r)) \<le> minorUnits e"
    if b: "code (currency b) = code (rate_base r)" "0 < rate_mantissa r"
      "minorUnits a \<le> minorUnits b" "rate_convert r b mode = Inr e" for b e
  proof -
    from b(4) obtain q' where q': "divideRounded (?N (minorUnits b)) ?D mode = Inr q'"
      and e: "e = mk_money q' (rate_quote r)"
      by (auto simp: conv [OF b(1)] result_map_eq_Inr)
    have "?N (minorUnits a) \<le> ?N (minorUnits b)" using b(2,3) by (simp add: mult_right_mono)
    from rounded.mono [OF d this q q'] show ?thesis by (simp add: e)
  qed
  then show ?thesis
    using True conv [OF True] q rounded.close [OF d q] by auto
next
  case False
  then show ?thesis by (simp add: rate_convert_def)
qed

theorem rate_convert_correct_witness:
  "rate_convert \<lparr>rate_base = SUPPORTED ! 0, rate_quote = SUPPORTED ! 4, rate_mantissa = 844,
       rate_scale = 4, rate_source = ''feed'', rate_asOf = 0\<rparr> (mk_money 1000 (SUPPORTED ! 0)) HALF_UP
     = Inr (mk_money 844 (SUPPORTED ! 4))
   \<and> currency (mk_money 844 (SUPPORTED ! 4)) = SUPPORTED ! 4"
proof -
  let ?r = "\<lparr>rate_base = SUPPORTED ! 0, rate_quote = SUPPORTED ! 4, rate_mantissa = 844,
       rate_scale = 4, rate_source = ''feed'', rate_asOf = 0\<rparr>"
  have h: "code (currency (mk_money 1000 (SUPPORTED ! 0))) = code (rate_base ?r)" by simp
  have v: "rate_convert ?r (mk_money 1000 (SUPPORTED ! 0)) HALF_UP = Inr (mk_money 844 (SUPPORTED ! 4))"
    by code_simp
  show ?thesis
    using rate_convert_correct [THEN conjunct2, THEN mp, OF h, of HALF_UP] v by auto
qed

text \<open>
  the inverse of a well-formed rate is again a well-formed rate between the swapped
  currencies; its mantissa is the reciprocal to less than one unit of the requested scale, and the
  only failures are a scale outside 0 to 30 and a reciprocal that rounds to zero.
\<close>

theorem rate_inverse_correct:
  assumes "rate_wf r"
  shows "rate_inverse r (Whole (int s)) mode =
      (if rate_MAX_SCALE < s
         \<or> divideRounded (10 ^ (s + rate_scale r)) (rate_mantissa r) mode = Inr 0
       then Inl InvalidRateError
       else Inr \<lparr>rate_base = rate_quote r, rate_quote = rate_base r,
           rate_mantissa = projr (divideRounded (10 ^ (s + rate_scale r)) (rate_mantissa r) mode),
           rate_scale = s, rate_source = ''inverse('' @ rate_source r @ '')'',
           rate_asOf = rate_asOf r\<rparr>)
    \<and> (\<forall>i. rate_inverse r (Whole (int s)) mode = Inr i \<longrightarrow> rate_wf i
        \<and> \<bar>rate_mantissa i * rate_mantissa r - 10 ^ (s + rate_scale r)\<bar> < rate_mantissa r)"
proof -
  let ?n = "10 ^ (s + rate_scale r) :: int"
  have m: "0 < rate_mantissa r" using assms by (simp add: rate_wf_def)
  obtain q where q: "divideRounded ?n (rate_mantissa r) mode = Inr q"
    using rounded.total [OF m] by blast
  have q0: "0 \<le> q" using rounded.sign_kept(1) [OF q] by simp
  have src: "\<not> is_ws (CHR ''i'')" by (simp add: is_ws_def)
  then have nb: "js_trim (''inverse('' @ rate_source r @ '')'') \<noteq> []"
    using blank_iff [of "''inverse('' @ rate_source r @ '')''"] by (simp add: blank_def)
  have p: "pow10 (Whole (int s + int (rate_scale r))) = Inr ?n"
    using pow10_nat [of "s + rate_scale r"] by simp
  have eq: "rate_inverse r (Whole (int s)) mode =
      (if rate_MAX_SCALE < s \<or> q = 0 then Inl InvalidRateError
       else Inr \<lparr>rate_base = rate_quote r, rate_quote = rate_base r, rate_mantissa = q,
           rate_scale = s, rate_source = ''inverse('' @ rate_source r @ '')'',
           rate_asOf = rate_asOf r\<rparr>)"
    using assms q0 nb q p by (auto simp: rate_inverse_def rate_of_def rate_wf_def)
  have "rate_wf i \<and> \<bar>rate_mantissa i * rate_mantissa r - ?n\<bar> < rate_mantissa r"
    if "rate_inverse r (Whole (int s)) mode = Inr i" for i
    using that assms q0 nb rounded.close [OF m q]
    by (auto simp: eq rate_wf_def split: if_splits)
  then show ?thesis using eq q by simp
qed

theorem rate_inverse_correct_witness:
  "rate_wf \<lparr>rate_base = SUPPORTED ! 6, rate_quote = SUPPORTED ! 0, rate_mantissa = 364,
       rate_scale = 2, rate_source = ''peg'', rate_asOf = 0\<rparr>
   \<and> rate_inverse \<lparr>rate_base = SUPPORTED ! 6, rate_quote = SUPPORTED ! 0, rate_mantissa = 364,
       rate_scale = 2, rate_source = ''peg'', rate_asOf = 0\<rparr> (Whole (int 4)) HALF_EVEN
     = Inr \<lparr>rate_base = SUPPORTED ! 0, rate_quote = SUPPORTED ! 6, rate_mantissa = 2747,
       rate_scale = 4, rate_source = ''inverse(peg)'', rate_asOf = 0\<rparr>"
proof -
  let ?r = "\<lparr>rate_base = SUPPORTED ! 6, rate_quote = SUPPORTED ! 0, rate_mantissa = 364,
       rate_scale = 2, rate_source = ''peg'', rate_asOf = 0\<rparr>"
  have h: "rate_wf ?r" by code_simp
  have d: "divideRounded (10 ^ (4 + 2)) 364 HALF_EVEN = Inr 2747" by code_simp
  show ?thesis
    using rate_inverse_correct [OF h, of 4 HALF_EVEN] h d by (simp add: rate_MAX_SCALE_def)
qed

section \<open>The printed percentage\<close>

lemma strip_trailing_zeros_split:
  "\<exists>k. s = strip_trailing_zeros s @ replicate k (CHR ''0'')"
proof -
  let ?z = "\<lambda>c. c = CHR ''0''"
  have "takeWhile ?z (rev s) = replicate (length (takeWhile ?z (rev s))) (CHR ''0'')"
    by (rule replicate_length_same [symmetric]) (auto dest: set_takeWhileD)
  moreover have "s = rev (dropWhile ?z (rev s)) @ rev (takeWhile ?z (rev s))"
    by (metis rev_append rev_rev_ident takeWhile_dropWhile_id)
  ultimately show ?thesis
    unfolding strip_trailing_zeros_def by (metis rev_replicate)
qed

lemma fromPercent_build:
  assumes "all_digits w" "w \<noteq> []" "all_digits f" "length f + 2 \<le> percentage_MAX_SCALE"
  shows "fromPercent ((if neg then ''-'' else []) @ w @ (if f = [] then [] else ''.'' @ f))
     = Inr (mk_percentage ((if neg then - 1 else 1) * int (nat_of_digits (w @ f))) (length f + 2))"
  using assms(4) match_decimal_build [OF assms(1,2,3), of neg]
  unfolding fromPercent_def by (simp only: option.case prod.case Let_def) simp

lemma butlast_percent: "butlast (a @ b @ ''%'') = a @ b" "butlast (a @ b @ c @ d @ ''%'') = a @ b @ c @ d"
  by (simp_all add: butlast_append)

lemma percentage_text_small:
  assumes "pct_scale p \<le> 2"
  shows "fromPercent (butlast (percentage_toString p))
    = Inr (mk_percentage (pct_value p * 10 ^ (2 - pct_scale p)) 2)"
proof -
  let ?neg = "pct_value p < 0" and ?n = "\<bar>pct_value p\<bar> * 10 ^ (2 - pct_scale p)"
  have mag: "(if ?neg then - pct_value p else pct_value p) = \<bar>pct_value p\<bar>" by simp
  have e: "nat (2 - int (pct_scale p)) = 2 - pct_scale p" using assms by (simp add: nat_diff_distrib')
  have "butlast (percentage_toString p)
      = (if ?neg then ''-'' else []) @ string_of_nat (nat ?n) @ (if [] = [] then [] else ''.'' @ [])"
    using assms by (simp add: percentage_toString_def Let_def mag e text_of_bigint_nonneg
        butlast_append del: zero_le_mult_iff)
  then have "fromPercent (butlast (percentage_toString p))
      = Inr (mk_percentage ((if ?neg then - 1 else 1) * int (nat ?n)) 2)"
    using fromPercent_build [of "string_of_nat (nat ?n)" "[]" ?neg]
    by (simp add: wire_simps percentage_MAX_SCALE_def all_digits_def [of "[]"])
  moreover have "(if ?neg then - 1 else 1) * int (nat ?n) = pct_value p * 10 ^ (2 - pct_scale p)"
    by (simp add: abs_if)
  ultimately show ?thesis by simp
qed

lemma percentage_text_large:
  assumes "2 < pct_scale p" "pct_scale p \<le> percentage_MAX_SCALE"
  shows "\<exists>v k. fromPercent (butlast (percentage_toString p))
      = Inr (mk_percentage v (pct_scale p - k)) \<and> k \<le> pct_scale p \<and> v * 10 ^ k = pct_value p"
proof -
  let ?neg = "pct_value p < 0" and ?mag = "\<bar>pct_value p\<bar>" and ?e = "pct_scale p - 2"
  let ?w = "string_of_nat (nat (?mag div 10 ^ ?e))"
  let ?pad = "pad_start ?e (CHR ''0'') (string_of_nat (nat (?mag mod 10 ^ ?e)))"
  let ?f = "strip_trailing_zeros ?pad"
  obtain k where k: "?pad = ?f @ replicate k (CHR ''0'')"
    using strip_trailing_zeros_split by blast
  have mag: "(if ?neg then - pct_value p else pct_value p) = ?mag" by simp
  have e: "nat (int (pct_scale p) - 2) = ?e" "\<not> int (pct_scale p) - 2 \<le> 0" using assms(1) by simp_all
  have nn: "0 \<le> ?mag div 10 ^ ?e" "0 \<le> ?mag mod 10 ^ ?e" by (simp_all add: pos_imp_zdiv_nonneg_iff)
  have lt: "nat (?mag mod 10 ^ ?e) < 10 ^ ?e" by (simp add: nat_less_iff)
  have lenp: "length ?pad = ?e"
    using length_string_of_nat [OF lt] assms(1) by (simp add: pad_start_def)
  then have lenf: "length ?f + k = ?e" by (metis k length_append length_replicate)
  have "all_digits ?pad" by (simp add: pad_start_digits all_digits_string_of_nat)
  then have fd: "all_digits ?f" using k by (metis all_digits_def list_all_append)
  have shape: "butlast (percentage_toString p)
      = (if ?neg then ''-'' else []) @ ?w @ (if ?f = [] then [] else ''.'' @ ?f)"
    using nn e by (simp add: percentage_toString_def Let_def mag text_of_bigint_nonneg butlast_append)
  have "fromPercent (butlast (percentage_toString p))
      = Inr (mk_percentage ((if ?neg then - 1 else 1) * int (nat_of_digits (?w @ ?f))) (length ?f + 2))"
    unfolding shape using assms lenf
    by (intro fromPercent_build) (simp_all add: all_digits_string_of_nat string_of_nat_nonempty fd)
  moreover have "length ?f + 2 = pct_scale p - k" using lenf assms(1) by linarith
  moreover have "(if ?neg then - 1 else 1) * int (nat_of_digits (?w @ ?f)) * 10 ^ k = pct_value p"
  proof -
    have "nat_of_digits (?w @ ?f) * 10 ^ k = nat_of_digits (?w @ ?pad)"
      by (subst k) (simp add: nat_of_digits_append nat_of_digits_zeros power_add algebra_simps)
    also have "\<dots> = nat (?mag div 10 ^ ?e) * 10 ^ ?e + nat (?mag mod 10 ^ ?e)"
      by (simp add: nat_of_digits_append lenp nat_of_digits_string_of_nat nat_of_digits_pad_start)
    finally have "int (nat_of_digits (?w @ ?f) * 10 ^ k)
        = int (nat (?mag div 10 ^ ?e) * 10 ^ ?e + nat (?mag mod 10 ^ ?e))"
      by (simp only:)
    then have "int (nat_of_digits (?w @ ?f)) * 10 ^ k = ?mag div 10 ^ ?e * 10 ^ ?e + ?mag mod 10 ^ ?e"
      using nn by (simp only: of_nat_mult of_nat_add of_nat_power of_nat_numeral int_nat_eq if_True)
    then have "int (nat_of_digits (?w @ ?f)) * 10 ^ k = ?mag" by (simp only: div_mult_mod_eq)
    then show ?thesis by (auto simp: abs_if)
  qed
  moreover have "k \<le> pct_scale p" using lenf by linarith
  ultimately show ?thesis by (intro exI conjI) (simp_all only:)
qed

text \<open>
  reading the printed percentage back gives the same ratio for every percentage the class can
  hold, however many trailing zeros the printer dropped (the scale may shrink, the ratio not).
\<close>

theorem percentage_text_roundtrip:
  assumes "pct_scale p \<le> percentage_MAX_SCALE"
  shows "\<exists>p'. fromPercent (butlast (percentage_toString p)) = Inr p'
    \<and> pct_value p' * 10 ^ pct_scale p = pct_value p * 10 ^ pct_scale p'"
proof (cases "pct_scale p \<le> 2")
  case True
  then have "(10::int) ^ 2 = 10 ^ (2 - pct_scale p) * 10 ^ pct_scale p"
    by (simp flip: power_add)
  with percentage_text_small [OF True] show ?thesis by simp
next
  case False
  then obtain v k where vk: "fromPercent (butlast (percentage_toString p))
      = Inr (mk_percentage v (pct_scale p - k))" "k \<le> pct_scale p" "v * 10 ^ k = pct_value p"
    using percentage_text_large [of p] assms by auto
  then have "v * 10 ^ pct_scale p = pct_value p * 10 ^ (pct_scale p - k)"
    by (metis le_add_diff_inverse mult.assoc power_add)
  with vk(1) show ?thesis by simp
qed

theorem percentage_text_roundtrip_witness:
  "pct_scale (mk_percentage (- 250) 4) \<le> percentage_MAX_SCALE
   \<and> (\<exists>p'. fromPercent (butlast (percentage_toString (mk_percentage (- 250) 4))) = Inr p'
        \<and> pct_value p' * 10 ^ 4 = - 250 * 10 ^ pct_scale p')"
proof -
  have h: "pct_scale (mk_percentage (- 250) 4) \<le> percentage_MAX_SCALE"
    by (simp add: percentage_MAX_SCALE_def)
  show ?thesis using h percentage_text_roundtrip [OF h] by simp
qed

end
