(* ===== verification/Wire_Format.thy ===== *)
theory Wire_Format
  imports Percentage_Rate
begin

text \<open>
  The JSON mappers of \<open>packages/platform/src/wire\<close>: \<open>money.ts\<close> and \<open>percentage.ts\<close>.

  A decoded JSON value is a \<open>json\<close>; reading a property of an object that lacks it, or of an array,
  is \<open>undefined\<close> (\<open>None\<close>).  A \<open>PlatformError\<close> with code VALIDATION_ERROR is kept with the field it
  names; the reason text is left out.  The locale \<open>wire_codec\<close> is the contract of a mapper pair,
  and both pairs interpret it.
\<close>

datatype json =
    JNull
  | JBool bool
  | JNumber js_number
  | JString string
  | JArray "json list"
  | JObject "(string \<times> json) list"

datatype wire_error = VALIDATION_ERROR string

fun json_is_object :: "json \<Rightarrow> bool" where
  "json_is_object (JArray xs) = True"
| "json_is_object (JObject kvs) = True"
| "json_is_object _ = False"

fun json_get :: "json \<Rightarrow> string \<Rightarrow> json option" where
  "json_get (JObject kvs) k = map_of kvs k"
| "json_get _ k = None"

section \<open>Mappers\<close>

definition moneyToWire :: "money \<Rightarrow> json" where
  "moneyToWire m = JObject
     [(''minorUnits'', JString (money_toWireString m)), (''currency'', JString (code (currency m)))]"

definition moneyFromWire :: "json \<Rightarrow> (wire_error, money) outcome" where
  "moneyFromWire input =
     (if \<not> json_is_object input then Inl (VALIDATION_ERROR ''money'')
      else case json_get input ''minorUnits'' of
        Some (JString units) \<Rightarrow>
          if \<not> is_integer_text units then Inl (VALIDATION_ERROR ''minorUnits'')
          else (case json_get input ''currency'' of
              Some (JString c) \<Rightarrow>
                (case currency_tryGet c of
                   None \<Rightarrow> Inl (VALIDATION_ERROR ''currency'')
                 | Some cur \<Rightarrow>
                     \<comment> \<open>the text was tested above, so \<open>Money.of\<close> cannot throw here\<close>
                     result_mapErr (money_of (TextAmount units) cur)
                       (\<lambda>_. VALIDATION_ERROR ''minorUnits''))
            | _ \<Rightarrow> Inl (VALIDATION_ERROR ''currency''))
      | _ \<Rightarrow> Inl (VALIDATION_ERROR ''minorUnits''))"

definition percentageToWire :: "percentage \<Rightarrow> json" where
  "percentageToWire p = JObject
     [(''value'', JString (text_of_bigint (pct_value p))),
      (''scale'', JNumber (Whole (int (pct_scale p))))]"

definition percentageFromWire :: "json \<Rightarrow> (wire_error, percentage) outcome" where
  "percentageFromWire input =
     (if \<not> json_is_object input then Inl (VALIDATION_ERROR ''percentage'')
      else case json_get input ''value'' of
        Some (JString v) \<Rightarrow>
          if \<not> is_integer_text v then Inl (VALIDATION_ERROR ''value'')
          else (case json_get input ''scale'' of
              Some (JNumber s) \<Rightarrow>
                result_mapErr (percentage_of (bigint_of_text v) s) (\<lambda>_. VALIDATION_ERROR ''scale'')
            | _ \<Rightarrow> Inl (VALIDATION_ERROR ''scale''))
      | _ \<Rightarrow> Inl (VALIDATION_ERROR ''value''))"

section \<open>The contract of a mapper pair\<close>

locale wire_codec =
  fixes enc :: "'a \<Rightarrow> json" and dec :: "json \<Rightarrow> (wire_error, 'a) outcome" and valid :: "'a \<Rightarrow> bool"
  assumes dec_enc: "valid x \<Longrightarrow> dec (enc x) = Inr x"
    and dec_valid: "dec j = Inr x \<Longrightarrow> valid x"
begin

lemma enc_inject: "valid x \<Longrightarrow> valid y \<Longrightarrow> enc x = enc y \<Longrightarrow> x = y"
  by (metis dec_enc sum.inject(2))

lemma dec_normalises: "dec j = Inr x \<Longrightarrow> dec (enc x) = Inr x"
  by (intro dec_enc dec_valid)

lemma valid_iff_decoded: "valid x \<longleftrightarrow> (\<exists>j. dec j = Inr x)"
  using dec_enc dec_valid by blast

end

definition money_valid :: "money \<Rightarrow> bool" where
  "money_valid m \<longleftrightarrow> currency m \<in> set SUPPORTED"

definition percentage_valid :: "percentage \<Rightarrow> bool" where
  "percentage_valid p \<longleftrightarrow> pct_scale p \<le> percentage_MAX_SCALE"

interpretation money_wire: wire_codec moneyToWire moneyFromWire money_valid
proof unfold_locales
  show "money_valid m \<Longrightarrow> moneyFromWire (moneyToWire m) = Inr m" for m
    by (simp add: money_valid_def moneyFromWire_def moneyToWire_def money_toWireString_def wire_simps)
  show "moneyFromWire j = Inr m \<Longrightarrow> money_valid m" for j m
    by (auto simp: money_valid_def moneyFromWire_def dest: currency_tryGet_Some
        split: if_splits option.splits json.splits)
qed

interpretation percentage_wire: wire_codec percentageToWire percentageFromWire percentage_valid
proof unfold_locales
  show "percentage_valid p \<Longrightarrow> percentageFromWire (percentageToWire p) = Inr p" for p
    by (simp add: percentage_valid_def percentageFromWire_def percentageToWire_def percentage_of_def
        mk_percentage_def wire_simps)
  show "percentageFromWire j = Inr p \<Longrightarrow> percentage_valid p" for j p
    by (auto simp: percentage_valid_def percentageFromWire_def percentage_of_def
        split: if_splits option.splits json.splits js_number.splits)
qed

text \<open>
  every amount in a supported currency and every percentage survives the wire: decoding its
  encoding gives it back, two values with one encoding are equal, and whatever untrusted payload
  decodes, decodes to a supported currency (a scale within bounds) and to a fixed point of
  encode-then-decode.
\<close>

theorem wire_roundtrip:
  "(money_valid m \<longrightarrow> moneyFromWire (moneyToWire m) = Inr m)
   \<and> (percentage_valid p \<longrightarrow> percentageFromWire (percentageToWire p) = Inr p)
   \<and> (moneyFromWire j = Inr m' \<longrightarrow> money_valid m' \<and> moneyFromWire (moneyToWire m') = Inr m')
   \<and> (percentageFromWire j = Inr p' \<longrightarrow>
        percentage_valid p' \<and> percentageFromWire (percentageToWire p') = Inr p')
   \<and> (money_valid m \<and> money_valid n \<and> moneyToWire m = moneyToWire n \<longrightarrow> m = n)"
  using money_wire.dec_enc money_wire.dec_valid percentage_wire.dec_enc percentage_wire.dec_valid
    money_wire.enc_inject by blast

theorem wire_roundtrip_witness:
  "money_valid (mk_money (- 9007199254740993) (SUPPORTED ! 3))
   \<and> moneyFromWire (moneyToWire (mk_money (- 9007199254740993) (SUPPORTED ! 3)))
       = Inr (mk_money (- 9007199254740993) (SUPPORTED ! 3))
   \<and> moneyFromWire (JObject [(''minorUnits'', JNumber (Whole 5)), (''currency'', JString ''QAR'')])
       = Inl (VALIDATION_ERROR ''minorUnits'')"
proof -
  have h: "money_valid (mk_money (- 9007199254740993) (SUPPORTED ! 3))"
    by (simp add: money_valid_def SUPPORTED_def)
  show ?thesis
    using wire_roundtrip [THEN conjunct1, THEN mp, OF h] h by (simp add: moneyFromWire_def)
qed

end
