(* ===== verification/Policy_Pack.thy ===== *)
theory Policy_Pack
  imports Karar_Prelude
begin

text \<open>
  The typed policy packs of \<open>packages/jurisdiction-policy/src\<close>: decisions (\<open>decision.ts\<close>),
  environments (\<open>environment.ts\<close>), the country and jurisdiction registers (\<open>country.ts\<close>,
  \<open>jurisdiction.ts\<close>), packs (\<open>policy-pack.ts\<close>), the lifecycle predicates (\<open>lifecycle.ts\<close>), the
  strategy registry (\<open>resolution/strategies.ts\<close>) and pack validation (\<open>validation.ts\<close>).

  Identifiers (jurisdictions, capabilities, purposes, versions) are strings.  A
  \<open>Record<string, T>\<close> is an association list in insertion order, the order \<open>Object.entries\<close>
  yields; a lookup is \<open>map_of\<close>.  Findings and denials keep their kind and their structured fields
  and leave the message texts out; the place a finding names (\<open>financialRulesets[..]\<close> and its kin)
  is a \<open>decision_slot\<close>.
\<close>

section \<open>Decisions\<close>

datatype 'a policy_decision =
    DECIDED 'a string
  | PENDING_LEGAL_REVIEW string
  | UNRESOLVED string

fun isDecided :: "'a policy_decision \<Rightarrow> bool" where
  "isDecided (DECIDED v basis) = True"
| "isDecided (PENDING_LEGAL_REVIEW r) = False"
| "isDecided (UNRESOLVED r) = False"

text \<open>The state, basis and reason of a decision, without its value.\<close>

datatype decision_view = DecidedView string | PendingView string | UnresolvedView string

fun view :: "'a policy_decision \<Rightarrow> decision_view" where
  "view (DECIDED v basis) = DecidedView basis"
| "view (PENDING_LEGAL_REVIEW r) = PendingView r"
| "view (UNRESOLVED r) = UnresolvedView r"

lemma view_decided [simp]: "(\<exists>b. view d = DecidedView b) \<longleftrightarrow> isDecided d"
  by (cases d) auto

section \<open>Environments, countries, jurisdictions\<close>

datatype environment = EnvLocal | EnvDev | EnvStaging | EnvProduction

definition POLICY_ENVIRONMENTS :: "(string \<times> environment) list" where
  "POLICY_ENVIRONMENTS =
     [(''local'', EnvLocal), (''dev'', EnvDev), (''staging'', EnvStaging), (''production'', EnvProduction)]"

definition isPolicyEnvironment :: "string \<Rightarrow> bool" where
  "isPolicyEnvironment v \<longleftrightarrow> v \<in> set (map fst POLICY_ENVIRONMENTS)"

definition is_upper :: "char \<Rightarrow> bool" where
  "is_upper c \<longleftrightarrow> (65::nat) \<le> of_char c \<and> of_char c \<le> (90::nat)"

text \<open>\<open>countryCode\<close> throws on a malformed literal: \<open>None\<close>.\<close>

definition countryCode :: "string \<Rightarrow> string option" where
  "countryCode v = (if length v = 2 \<and> list_all is_upper v then Some v else None)"

datatype country_status = CountryActive | CountryRetired

record country =
  country_code :: string
  displayNameKey :: string
  defaultCurrency :: string
  country_status :: country_status

definition mk_country :: "string \<Rightarrow> string \<Rightarrow> string \<Rightarrow> country option" where
  "mk_country c key cur =
     map_option (\<lambda>cc. \<lparr>country_code = cc, displayNameKey = key, defaultCurrency = cur,
                       country_status = CountryActive\<rparr>) (countryCode c)"

definition COUNTRIES :: "country list" where
  "COUNTRIES = List.map_filter (\<lambda>(c, k, cur). mk_country c k cur)
     [(''QA'', ''country.qa'', ''QAR''), (''SA'', ''country.sa'', ''SAR''),
      (''AE'', ''country.ae'', ''AED''), (''OM'', ''country.om'', ''OMR''),
      (''KW'', ''country.kw'', ''KWD''), (''BH'', ''country.bh'', ''BHD'')]"

definition findCountry :: "string \<Rightarrow> country option" where
  "findCountry c = List.find (\<lambda>entry. country_code entry = c) COUNTRIES"

datatype jurisdiction_type = NATIONAL | FINANCIAL_FREE_ZONE | SPECIAL_REGIME
datatype lifecycle = L_DRAFT | L_PENDING_LEGAL_REVIEW | L_APPROVED | L_RETIRED
datatype review_status = NOT_SUBMITTED | REVIEW_PENDING | REVIEW_COMPLETE

record jurisdiction =
  jurisdiction_id :: string
  jurisdiction_code :: string
  jurisdiction_country :: string
  jurisdiction_type :: jurisdiction_type
  jurisdiction_status :: lifecycle
  jurisdiction_review :: review_status
  jurisdiction_from :: "millis option"
  jurisdiction_to :: "millis option"
  jurisdiction_provenance :: string

definition draftJurisdiction ::
  "string \<Rightarrow> string \<Rightarrow> jurisdiction_type \<Rightarrow> review_status \<Rightarrow> string \<Rightarrow> jurisdiction option" where
  "draftJurisdiction c country ty review provenance =
     map_option (\<lambda>cc. \<lparr>jurisdiction_id = c, jurisdiction_code = c, jurisdiction_country = cc,
         jurisdiction_type = ty, jurisdiction_status = L_DRAFT, jurisdiction_review = review,
         jurisdiction_from = None, jurisdiction_to = None,
         jurisdiction_provenance = provenance\<rparr>) (countryCode country)"

definition JURISDICTIONS :: "jurisdiction list" where
  "JURISDICTIONS = List.map_filter (\<lambda>(c, country, ty, rv, pr). draftJurisdiction c country ty rv pr)
     [(''QA'', ''QA'', NATIONAL, REVIEW_PENDING,
       ''Declared by engineering in Phase 3.5 alongside the qa/v1 draft pack; submitted for legal review, no approval recorded.''),
      (''AE'', ''AE'', NATIONAL, NOT_SUBMITTED,
       ''Declared by engineering in Phase 3.5 as reference structure only; not submitted for review.''),
      (''AE-DIFC'', ''AE'', FINANCIAL_FREE_ZONE, NOT_SUBMITTED,
       ''Declared by engineering in Phase 3.5 to model a free-zone regime distinct from its country; not submitted for review.'')]"

definition findJurisdiction :: "string \<Rightarrow> jurisdiction option" where
  "findJurisdiction c = List.find (\<lambda>entry. jurisdiction_code entry = c) JURISDICTIONS"

definition sameJurisdiction :: "string \<Rightarrow> string \<Rightarrow> bool" where
  "sameJurisdiction a b \<longleftrightarrow> a = b"

section \<open>Packs\<close>

record ruleset_reference =
  rulesetId :: string
  rulesetVersion :: string

record consent_requirement =
  cr_purposeRef :: string
  cr_documentKind :: string

record identity_requirement =
  ir_kind :: string
  ir_description :: string

record approval_policy =
  workflow :: string
  approverRole :: string

record currency_policy =
  baseCurrency :: string
  permittedCurrencies :: "string list"

record ai_processing_policy =
  ai_permitted :: bool
  crossBorderTransferPermitted :: bool
  ai_conditions :: "string list"

record subject_option_set =
  optionSetId :: string
  optionSetVersion :: string
  permittedOptionIds :: "string list"

record pack_provenance =
  declaredBy :: string
  declaredAt :: millis
  provenance_source :: string

record policy_pack =
  pk_jurisdiction :: string
  pk_version :: string
  pk_lifecycle :: lifecycle
  pk_reviewStatus :: review_status
  pk_effectiveFrom :: millis
  pk_effectiveTo :: "millis option"
  financialRulesets :: "(string \<times> ruleset_reference policy_decision) list"
  consentRequirements :: "consent_requirement list policy_decision"
  declaredPurposes :: "string list"
  processingBases :: "(string \<times> string policy_decision) list"
  retention :: "(string \<times> string policy_decision) list"
  identityRequirements :: "identity_requirement list policy_decision"
  disclosurePolicy :: "string list policy_decision"
  approvalPolicies :: "(string \<times> approval_policy policy_decision) list"
  currencyPolicy :: "currency_policy policy_decision"
  aiProcessingPolicy :: "ai_processing_policy policy_decision"
  clearedCapabilities :: "string list"
  resolutionStrategies :: "(string \<times> string) list"
  subjectPolicyOptions :: "(string \<times> subject_option_set) list"
  pk_provenance :: pack_provenance
  approvalReference :: "string option"

section \<open>Lifecycle predicates\<close>

datatype activation_denial =
    LIFECYCLE_NOT_ACTIVATABLE lifecycle environment
  | APPROVAL_EVIDENCE_MISSING

datatype activation_decision = ActivationAllowed | ActivationDenied "activation_denial list"

definition no_evidence :: "policy_pack \<Rightarrow> bool" where
  "no_evidence pack \<longleftrightarrow> (case approvalReference pack of None \<Rightarrow> True | Some r \<Rightarrow> js_trim r = [])"

definition canActivate :: "policy_pack \<Rightarrow> environment \<Rightarrow> activation_decision" where
  "canActivate pack env =
     (if pk_lifecycle pack = L_RETIRED
      then ActivationDenied [LIFECYCLE_NOT_ACTIVATABLE (pk_lifecycle pack) env]
      else if pk_lifecycle pack = L_APPROVED
      then (if no_evidence pack then ActivationDenied [APPROVAL_EVIDENCE_MISSING]
            else ActivationAllowed)
      else if env = EnvLocal then ActivationAllowed
      else ActivationDenied [LIFECYCLE_NOT_ACTIVATABLE (pk_lifecycle pack) env])"

definition canResolveExplicitVersion :: "policy_pack \<Rightarrow> environment \<Rightarrow> activation_decision" where
  "canResolveExplicitVersion pack env =
     (if pk_lifecycle pack \<noteq> L_RETIRED then canActivate pack env
      else if env = EnvLocal then ActivationAllowed
      else if no_evidence pack then ActivationDenied [APPROVAL_EVIDENCE_MISSING]
      else ActivationAllowed)"

lemma canActivate_allowed_iff:
  "canActivate pack env = ActivationAllowed \<longleftrightarrow>
     pk_lifecycle pack = L_APPROVED \<and> \<not> no_evidence pack
     \<or> env = EnvLocal \<and> pk_lifecycle pack \<in> {L_DRAFT, L_PENDING_LEGAL_REVIEW}"
  by (cases "pk_lifecycle pack") (auto simp: canActivate_def)

lemma canResolve_allowed_iff:
  "canResolveExplicitVersion pack env = ActivationAllowed \<longleftrightarrow>
     canActivate pack env = ActivationAllowed
     \<or> pk_lifecycle pack = L_RETIRED \<and> (env = EnvLocal \<or> \<not> no_evidence pack)"
  by (auto simp: canResolveExplicitVersion_def canActivate_allowed_iff)

section \<open>Resolution strategies\<close>

record governing_context =
  versionAtCreation :: "string option"
  versionAtEvaluation :: "string option"

record strategy_definition =
  strategy_id :: string
  governingVersions :: "governing_context \<Rightarrow> string list"

text \<open>A registry is its definitions in registration order; a duplicate id throws (\<open>None\<close>).\<close>

fun register_strategies ::
  "strategy_definition list \<Rightarrow> strategy_definition list \<Rightarrow> strategy_definition list option" where
  "register_strategies byId [] = Some byId"
| "register_strategies byId (d # ds) =
     (if strategy_id d \<in> set (map strategy_id byId) then None
      else register_strategies (byId @ [d]) ds)"

definition createResolutionStrategyRegistry ::
  "strategy_definition list \<Rightarrow> strategy_definition list option" where
  "createResolutionStrategyRegistry definitions = register_strategies [] definitions"

definition strategy_get :: "strategy_definition list \<Rightarrow> string \<Rightarrow> strategy_definition option" where
  "strategy_get reg i = List.find (\<lambda>d. strategy_id d = i) reg"

definition strategy_has :: "strategy_definition list \<Rightarrow> string \<Rightarrow> bool" where
  "strategy_has reg i \<longleftrightarrow> i \<in> set (map strategy_id reg)"

definition AT_CREATION :: strategy_definition where
  "AT_CREATION = \<lparr>strategy_id = ''AT_CREATION'',
     governingVersions = (\<lambda>c. case versionAtCreation c of None \<Rightarrow> [] | Some v \<Rightarrow> [v])\<rparr>"

definition AT_EVALUATION :: strategy_definition where
  "AT_EVALUATION = \<lparr>strategy_id = ''AT_EVALUATION'',
     governingVersions = (\<lambda>c. case versionAtEvaluation c of None \<Rightarrow> [] | Some v \<Rightarrow> [v])\<rparr>"

definition MOST_RESTRICTIVE :: strategy_definition where
  "MOST_RESTRICTIVE = \<lparr>strategy_id = ''MOST_RESTRICTIVE'',
     governingVersions = (\<lambda>c.
       (case versionAtCreation c of None \<Rightarrow> [] | Some v \<Rightarrow> [v])
       @ (case versionAtEvaluation c of
            None \<Rightarrow> []
          | Some v \<Rightarrow> if versionAtCreation c \<noteq> Some v then [v] else []))\<rparr>"

definition DEFAULT_RESOLUTION_STRATEGIES :: "strategy_definition list" where
  "DEFAULT_RESOLUTION_STRATEGIES =
     (case createResolutionStrategyRegistry [AT_CREATION, AT_EVALUATION, MOST_RESTRICTIVE] of
        Some reg \<Rightarrow> reg | None \<Rightarrow> [])"

section \<open>Validation\<close>

datatype decision_slot =
    FinancialRulesetSlot string
  | ConsentRequirementsSlot
  | ProcessingBasisSlot string
  | RetentionSlot string
  | IdentityRequirementsSlot
  | DisclosurePolicySlot
  | ApprovalPolicySlot string
  | CurrencyPolicySlot
  | AiProcessingPolicySlot

datatype pack_finding =
    MISSING_VERSION
  | MISSING_JURISDICTION
  | INVALID_EFFECTIVE_PERIOD
  | MISSING_RESOLUTION_STRATEGY string
  | UNKNOWN_RESOLUTION_STRATEGY string string
  | MISSING_PROCESSING_BASIS string
  | MISSING_APPROVAL_POLICY string
  | EVIDENCE_MISSING
  | DECISION_WITHOUT_BASIS decision_slot
  | OVERLAPPING_EFFECTIVE_PERIODS string string
  | DUPLICATE_VERSION string

text \<open>Every decision of a pack with the slot it sits in, in the order the code walks them.\<close>

definition decisionEntries :: "policy_pack \<Rightarrow> (decision_slot \<times> decision_view) list" where
  "decisionEntries pack =
     map (\<lambda>(k, d). (FinancialRulesetSlot k, view d)) (financialRulesets pack)
     @ [(ConsentRequirementsSlot, view (consentRequirements pack))]
     @ map (\<lambda>(k, d). (ProcessingBasisSlot k, view d)) (processingBases pack)
     @ map (\<lambda>(k, d). (RetentionSlot k, view d)) (retention pack)
     @ [(IdentityRequirementsSlot, view (identityRequirements pack)),
        (DisclosurePolicySlot, view (disclosurePolicy pack))]
     @ map (\<lambda>(k, d). (ApprovalPolicySlot k, view d)) (approvalPolicies pack)
     @ [(CurrencyPolicySlot, view (currencyPolicy pack)),
        (AiProcessingPolicySlot, view (aiProcessingPolicy pack))]"

definition strategy_finding :: "policy_pack \<Rightarrow> strategy_definition list \<Rightarrow> string \<Rightarrow> pack_finding list" where
  "strategy_finding pack strategies cap =
     (case map_of (resolutionStrategies pack) cap of
        None \<Rightarrow> [MISSING_RESOLUTION_STRATEGY cap]
      | Some s \<Rightarrow>
          if js_trim s = [] then [MISSING_RESOLUTION_STRATEGY cap]
          else if \<not> strategy_has strategies s then [UNKNOWN_RESOLUTION_STRATEGY cap s]
          else [])"

definition approval_finding :: "policy_pack \<Rightarrow> string list \<Rightarrow> string \<Rightarrow> pack_finding list" where
  "approval_finding pack disclosureBearing cap =
     (if cap \<in> set disclosureBearing then
        (case map_of (approvalPolicies pack) cap of
           None \<Rightarrow> [MISSING_APPROVAL_POLICY cap]
         | Some d \<Rightarrow> if isDecided d then [] else [MISSING_APPROVAL_POLICY cap])
      else [])"

definition basis_finding :: "decision_slot \<times> decision_view \<Rightarrow> pack_finding list" where
  "basis_finding e =
     (case snd e of
        DecidedView basis \<Rightarrow> if js_trim basis = [] then [DECISION_WITHOUT_BASIS (fst e)] else []
      | PendingView r \<Rightarrow> []
      | UnresolvedView r \<Rightarrow> [])"

definition validatePack ::
  "policy_pack \<Rightarrow> strategy_definition list \<Rightarrow> string list \<Rightarrow> pack_finding list" where
  "validatePack pack strategies disclosureBearing =
     (if js_trim (pk_version pack) = [] then [MISSING_VERSION] else [])
     @ (if js_trim (pk_jurisdiction pack) = [] then [MISSING_JURISDICTION] else [])
     @ (case pk_effectiveTo pack of
          None \<Rightarrow> []
        | Some e \<Rightarrow> if e \<le> pk_effectiveFrom pack then [INVALID_EFFECTIVE_PERIOD] else [])
     @ (if pk_lifecycle pack = L_APPROVED \<and> no_evidence pack then [EVIDENCE_MISSING] else [])
     @ concat (map (\<lambda>cap. strategy_finding pack strategies cap
                          @ approval_finding pack disclosureBearing cap) (clearedCapabilities pack))
     @ concat (map (\<lambda>p. if map_of (processingBases pack) p = None
                        then [MISSING_PROCESSING_BASIS p] else []) (declaredPurposes pack))
     @ concat (map basis_finding (decisionEntries pack))"

text \<open>\<open>start < end\<close> where an absent end is plus infinity.\<close>

definition before_end :: "millis \<Rightarrow> millis option \<Rightarrow> bool" where
  "before_end t e \<longleftrightarrow> (case e of None \<Rightarrow> True | Some x \<Rightarrow> t < x)"

definition periods_overlap :: "policy_pack \<Rightarrow> policy_pack \<Rightarrow> bool" where
  "periods_overlap a b \<longleftrightarrow>
     before_end (pk_effectiveFrom a) (pk_effectiveTo b) \<and> before_end (pk_effectiveFrom b) (pk_effectiveTo a)"

fun duplicate_findings :: "string set \<Rightarrow> policy_pack list \<Rightarrow> pack_finding list" where
  "duplicate_findings seen [] = []"
| "duplicate_findings seen (p # ps) =
     (let key = pk_jurisdiction p @ ''#'' @ pk_version p
      in (if key \<in> seen then [DUPLICATE_VERSION (pk_version p)] else [])
         @ duplicate_findings (insert key seen) ps)"

definition overlap_finding :: "policy_pack \<Rightarrow> policy_pack \<Rightarrow> pack_finding list" where
  "overlap_finding a b =
     (if pk_jurisdiction a \<noteq> pk_jurisdiction b then []
      else if periods_overlap a b \<and> pk_version a \<noteq> pk_version b
      then [OVERLAPPING_EFFECTIVE_PERIODS (pk_version a) (pk_version b)] else [])"

fun overlap_findings :: "policy_pack list \<Rightarrow> pack_finding list" where
  "overlap_findings [] = []"
| "overlap_findings (a # ps) = concat (map (overlap_finding a) ps) @ overlap_findings ps"

definition validatePackSet ::
  "policy_pack list \<Rightarrow> strategy_definition list \<Rightarrow> string list \<Rightarrow> pack_finding list" where
  "validatePackSet packs strategies disclosureBearing =
     concat (map (\<lambda>p. validatePack p strategies disclosureBearing) packs)
     @ duplicate_findings {} packs
     @ overlap_findings packs"

section \<open>The qa/v1 draft\<close>

definition QA_V1 :: policy_pack where
  "QA_V1 = \<lparr>
     pk_jurisdiction = ''QA'', pk_version = ''qa/v1'', pk_lifecycle = L_DRAFT,
     pk_reviewStatus = REVIEW_PENDING,
     pk_effectiveFrom = 1786838400000, pk_effectiveTo = None,
     financialRulesets = [],
     consentRequirements = PENDING_LEGAL_REVIEW 
       ''Which purposes require consent in Qatar, and against which document kinds, is with legal review. Until decided, consent-gated purposes fail closed in the consent module (ADR-0024).'',
     declaredPurposes = [''purpose:ai-processing''],
     processingBases = [(''purpose:ai-processing'', PENDING_LEGAL_REVIEW 
       ''The lawful basis for AI processing under Qatari data-protection law has not been determined. No basis means the purpose fails closed (ADR-0024).'')],
     retention = [(''audit-events'', PENDING_LEGAL_REVIEW 
       ''The audit-record retention period for Qatar is undecided; the local development placeholder (13 months) lives in policy configuration, never here as a decision.''),
                  (''consent-evidence'', PENDING_LEGAL_REVIEW 
       ''How long consent evidence must outlive the consent under Qatari law is undecided.''),
                  (''user-profile'', PENDING_LEGAL_REVIEW 
       ''Post-closure retention of profile data for Qatar is undecided.'')],
     identityRequirements = PENDING_LEGAL_REVIEW 
       ''Which identity-verification level Qatar requires per capability is undecided; capabilities requiring verified jurisdiction fail closed on UNVERIFIED assignments regardless.'',
     disclosurePolicy = PENDING_LEGAL_REVIEW 
       ''Disclosure obligations and required document kinds for Qatar are undecided. No disclosure-bearing capability is cleared by this pack.'',
     approvalPolicies = [],
     currencyPolicy = PENDING_LEGAL_REVIEW 
       ''Which currencies the platform may transact or hold for Qatari subjects is undecided. QAR as the QA country formatting default is reference data, not this decision.'',
     aiProcessingPolicy = PENDING_LEGAL_REVIEW 
       ''Whether and under what conditions AI processing (including any cross-border transfer) is permitted for Qatar is undecided. Pending means denied.'',
     clearedCapabilities = [], resolutionStrategies = [], subjectPolicyOptions = [],
     pk_provenance = \<lparr>declaredBy = ''karar-engineering'', declaredAt = 1786838400000,
       provenance_source = ''Phase 3.5 structural draft: establishes the typed shape for legal review; contains no legal decisions.''\<rparr>,
     approvalReference = None\<rparr>"

definition POLICY_PACKS :: "policy_pack list" where
  "POLICY_PACKS = [QA_V1]"

end
