(* ===== verification/Effective_Policy.thy ===== *)
theory Effective_Policy
  imports Policy_Pack
begin

text \<open>
  Policy resolution: \<open>packages/jurisdiction-policy/src/resolution/effective-policy.ts\<close>.

  \<open>resolveEffectivePolicy\<close> selects the governing pack (\<open>select_pack\<close>, the two arms of the selection),
  validates it, and merges the runtime settings.  The locale \<open>restrict_only\<close> is the contract the
  documentation states for such a merge (it never adds to a ceiling and shrinks as restrictions
  grow); the code's merge interprets it.  The properties: settings only ever restrict, the governing
  pack is the activatable one in force, unapproved packs never govern outside local environments,
  and a pack set that validates leaves at most one pack in force.
\<close>

section \<open>Inputs and results\<close>

record jurisdiction_settings =
  disabledCapabilityIds :: "string list option"
  aiProcessingSuspended :: "bool option"
  settingsVersion :: "int option"

datatype pack_selection = IN_FORCE | EXPLICIT_VERSION string

record resolve_input =
  ri_jurisdiction :: string
  ri_requestedAt :: millis
  ri_packs :: "policy_pack list"
  ri_selection :: pack_selection
  ri_settings :: "jurisdiction_settings option"
  ri_environment :: environment
  ri_strategies :: "strategy_definition list option"
  ri_disclosureBearing :: "string list option"

datatype 'a effective_decision = FromPack "'a policy_decision" | RESTRICTED_BY_SETTINGS

datatype unresolved_state = StatePending | StateUnresolved

record unresolved_reason =
  ur_where :: decision_slot
  ur_state :: unresolved_state
  ur_reason :: string

record policy_provenance =
  pv_jurisdiction :: string
  pv_packVersion :: string
  pv_packLifecycle :: lifecycle
  pv_selection :: pack_selection
  pv_environment :: environment
  pv_requestedAt :: millis
  pv_strategyByCapability :: "(string \<times> string) list"
  pv_settingsVersion :: "int option"

record effective_policy =
  ep_jurisdiction :: string
  ep_packVersion :: string
  ep_packLifecycle :: lifecycle
  ep_packReviewStatus :: review_status
  ep_effectiveFrom :: millis
  ep_effectiveTo :: "millis option"
  ep_environment :: environment
  ep_financialRulesets :: "(string \<times> ruleset_reference policy_decision) list"
  ep_consentRequirements :: "consent_requirement list policy_decision"
  ep_processingBases :: "(string \<times> string policy_decision) list"
  ep_retention :: "(string \<times> string policy_decision) list"
  ep_identityRequirements :: "identity_requirement list policy_decision"
  ep_disclosurePolicy :: "string list policy_decision"
  ep_approvalPolicies :: "(string \<times> approval_policy policy_decision) list"
  ep_currencyPolicy :: "currency_policy policy_decision"
  ep_aiProcessing :: "ai_processing_policy effective_decision"
  ep_capabilityCeiling :: "(string \<times> string) list"
  ep_subjectPolicyOptions :: "(string \<times> subject_option_set) list"
  ep_subjectPolicySelectionVersion :: "string option"
  ep_unresolved :: "unresolved_reason list"
  ep_provenance :: policy_provenance

datatype resolve_error =
    NO_PACK_FOR_JURISDICTION string
  | PACK_VERSION_NOT_FOUND string
  | NO_PACK_IN_FORCE millis
  | OVERLAPPING_PACKS_IN_FORCE "string list" millis
  | PACK_NOT_RESOLVABLE string environment "activation_denial list"
  | PACK_INVALID string "pack_finding list"

section \<open>The resolver\<close>

definition collectUnresolved :: "policy_pack \<Rightarrow> unresolved_reason list" where
  "collectUnresolved pack =
     List.map_filter (\<lambda>(slot, v).
       (case v of
          PendingView r \<Rightarrow> Some \<lparr>ur_where = slot, ur_state = StatePending, ur_reason = r\<rparr>
        | UnresolvedView r \<Rightarrow> Some \<lparr>ur_where = slot, ur_state = StateUnresolved, ur_reason = r\<rparr>
        | DecidedView b \<Rightarrow> None)) (decisionEntries pack)"

definition covers :: "policy_pack \<Rightarrow> millis \<Rightarrow> bool" where
  "covers pack t \<longleftrightarrow> pk_effectiveFrom pack \<le> t \<and> before_end t (pk_effectiveTo pack)"

definition packInForce :: "policy_pack list \<Rightarrow> millis \<Rightarrow> policy_pack list" where
  "packInForce packs t = filter (\<lambda>pack. covers pack t) packs"

fun denial_reasons :: "activation_decision \<Rightarrow> activation_denial list" where
  "denial_reasons ActivationAllowed = []"
| "denial_reasons (ActivationDenied rs) = rs"

definition select_pack :: "resolve_input \<Rightarrow> (resolve_error, policy_pack) outcome" where
  "select_pack input =
     (let forJurisdiction = filter (\<lambda>pack. pk_jurisdiction pack = ri_jurisdiction input) (ri_packs input);
          env = ri_environment input
      in if forJurisdiction = [] then Inl (NO_PACK_FOR_JURISDICTION (ri_jurisdiction input))
         else case ri_selection input of
           EXPLICIT_VERSION version \<Rightarrow>
             (case List.find (\<lambda>candidate. pk_version candidate = version) forJurisdiction of
                None \<Rightarrow> Inl (PACK_VERSION_NOT_FOUND version)
              | Some found \<Rightarrow>
                  (case canResolveExplicitVersion found env of
                     ActivationDenied reasons \<Rightarrow> Inl (PACK_NOT_RESOLVABLE (pk_version found) env reasons)
                   | ActivationAllowed \<Rightarrow> Inr found))
         | IN_FORCE \<Rightarrow>
             let covering = packInForce forJurisdiction (ri_requestedAt input);
                 eligible = filter (\<lambda>c. canActivate c env = ActivationAllowed) covering
             in (case eligible of
                   [] \<Rightarrow>
                     (case List.find (\<lambda>c. canActivate c env \<noteq> ActivationAllowed) covering of
                        Some blocked \<Rightarrow>
                          Inl (PACK_NOT_RESOLVABLE (pk_version blocked) env
                                 (denial_reasons (canActivate blocked env)))
                      | None \<Rightarrow> Inl (NO_PACK_IN_FORCE (ri_requestedAt input)))
                 | [pack] \<Rightarrow> Inr pack
                 | _ \<Rightarrow> Inl (OVERLAPPING_PACKS_IN_FORCE (map pk_version eligible) (ri_requestedAt input))))"

text \<open>
  The loop over the cleared capabilities: the strategy of each (present, since the pack was
  validated), and the entries the settings leave in.
\<close>

definition strategyOf :: "policy_pack \<Rightarrow> string \<Rightarrow> string" where
  "strategyOf pack cap = (case map_of (resolutionStrategies pack) cap of Some s \<Rightarrow> s | None \<Rightarrow> [])"

definition disabled_ids :: "jurisdiction_settings option \<Rightarrow> string list" where
  "disabled_ids settings =
     (case settings of None \<Rightarrow> []
      | Some s \<Rightarrow> (case disabledCapabilityIds s of None \<Rightarrow> [] | Some ids \<Rightarrow> ids))"

definition merged_ceiling :: "policy_pack \<Rightarrow> string list \<Rightarrow> (string \<times> string) list" where
  "merged_ceiling pack disabled =
     map (\<lambda>cap. (cap, strategyOf pack cap))
       (filter (\<lambda>cap. cap \<notin> set disabled) (clearedCapabilities pack))"

definition strategyByCapability :: "policy_pack \<Rightarrow> (string \<times> string) list" where
  "strategyByCapability pack = map (\<lambda>cap. (cap, strategyOf pack cap)) (clearedCapabilities pack)"

definition merged_ai :: "policy_pack \<Rightarrow> jurisdiction_settings option
    \<Rightarrow> ai_processing_policy effective_decision" where
  "merged_ai pack settings =
     (if (case settings of None \<Rightarrow> False | Some s \<Rightarrow> aiProcessingSuspended s = Some True)
         \<and> isDecided (aiProcessingPolicy pack)
      then RESTRICTED_BY_SETTINGS else FromPack (aiProcessingPolicy pack))"

definition resolveEffectivePolicy :: "resolve_input \<Rightarrow> (resolve_error, effective_policy) outcome" where
  "resolveEffectivePolicy input =
     (let strategies = (case ri_strategies input of None \<Rightarrow> DEFAULT_RESOLUTION_STRATEGIES
                          | Some reg \<Rightarrow> reg);
          disclosureBearing = (case ri_disclosureBearing input of None \<Rightarrow> [] | Some ids \<Rightarrow> ids)
      in result_andThen (select_pack input)
        (\<lambda>pack.
           let findings = validatePack pack strategies disclosureBearing
           in if findings \<noteq> [] then Inl (PACK_INVALID (pk_version pack) findings)
              else Inr \<lparr>
                ep_jurisdiction = pk_jurisdiction pack,
                ep_packVersion = pk_version pack,
                ep_packLifecycle = pk_lifecycle pack,
                ep_packReviewStatus = pk_reviewStatus pack,
                ep_effectiveFrom = pk_effectiveFrom pack,
                ep_effectiveTo = pk_effectiveTo pack,
                ep_environment = ri_environment input,
                ep_financialRulesets = financialRulesets pack,
                ep_consentRequirements = consentRequirements pack,
                ep_processingBases = processingBases pack,
                ep_retention = retention pack,
                ep_identityRequirements = identityRequirements pack,
                ep_disclosurePolicy = disclosurePolicy pack,
                ep_approvalPolicies = approvalPolicies pack,
                ep_currencyPolicy = currencyPolicy pack,
                ep_aiProcessing = merged_ai pack (ri_settings input),
                ep_capabilityCeiling = merged_ceiling pack (disabled_ids (ri_settings input)),
                ep_subjectPolicyOptions = subjectPolicyOptions pack,
                ep_subjectPolicySelectionVersion = None,
                ep_unresolved = collectUnresolved pack,
                ep_provenance = \<lparr>
                  pv_jurisdiction = pk_jurisdiction pack,
                  pv_packVersion = pk_version pack,
                  pv_packLifecycle = pk_lifecycle pack,
                  pv_selection = ri_selection input,
                  pv_environment = ri_environment input,
                  pv_requestedAt = ri_requestedAt input,
                  pv_strategyByCapability = strategyByCapability pack,
                  pv_settingsVersion =
                    (case ri_settings input of None \<Rightarrow> None | Some s \<Rightarrow> settingsVersion s)\<rparr>\<rparr>))"

section \<open>Facts about selection and validation\<close>

definition governs :: "policy_pack \<Rightarrow> resolve_input \<Rightarrow> bool" where
  "governs pack input \<longleftrightarrow>
     (case ri_selection input of
        EXPLICIT_VERSION v \<Rightarrow>
          pk_version pack = v \<and> canResolveExplicitVersion pack (ri_environment input) = ActivationAllowed
      | IN_FORCE \<Rightarrow>
          covers pack (ri_requestedAt input) \<and> canActivate pack (ri_environment input) = ActivationAllowed)"

lemma select_pack_Inr:
  assumes "select_pack input = Inr pack"
  shows "pack \<in> set (ri_packs input)" "pk_jurisdiction pack = ri_jurisdiction input"
    "governs pack input"
proof -
  let ?fj = "filter (\<lambda>pack. pk_jurisdiction pack = ri_jurisdiction input) (ri_packs input)"
  have "pack \<in> set ?fj \<and> governs pack input"
  proof (cases "ri_selection input")
    case (EXPLICIT_VERSION v)
    with assms show ?thesis
      by (auto simp: select_pack_def Let_def governs_def dest: find_Some_set
          split: if_splits option.splits activation_decision.splits)
  next
    case IN_FORCE
    then obtain rest where
      "filter (\<lambda>c. canActivate c (ri_environment input) = ActivationAllowed)
        (packInForce ?fj (ri_requestedAt input)) = pack # rest"
      using assms by (auto simp: select_pack_def Let_def split: if_splits option.splits list.splits)
    then have "pack \<in> set (filter (\<lambda>c. canActivate c (ri_environment input) = ActivationAllowed)
        (packInForce ?fj (ri_requestedAt input)))" by simp
    with IN_FORCE show ?thesis by (auto simp: governs_def packInForce_def)
  qed
  then show "pack \<in> set (ri_packs input)" "pk_jurisdiction pack = ri_jurisdiction input"
    "governs pack input" by auto
qed

lemma resolve_Inr:
  assumes "resolveEffectivePolicy input = Inr p"
  obtains pack where "select_pack input = Inr pack"
    "validatePack pack (case ri_strategies input of None \<Rightarrow> DEFAULT_RESOLUTION_STRATEGIES | Some r \<Rightarrow> r)
       (case ri_disclosureBearing input of None \<Rightarrow> [] | Some ids \<Rightarrow> ids) = []"
    "ep_jurisdiction p = pk_jurisdiction pack" "ep_packVersion p = pk_version pack"
    "ep_packLifecycle p = pk_lifecycle pack" "ep_environment p = ri_environment input"
    "ep_capabilityCeiling p = merged_ceiling pack (disabled_ids (ri_settings input))"
    "ep_aiProcessing p = merged_ai pack (ri_settings input)"
    "ep_unresolved p = collectUnresolved pack"
    "ep_effectiveFrom p = pk_effectiveFrom pack" "ep_effectiveTo p = pk_effectiveTo pack"
  using assms
  by (auto simp: resolveEffectivePolicy_def result_simps Let_def split: if_splits)

lemma validatePack_Nil_strategy:
  assumes "validatePack pack strategies db = []" "cap \<in> set (clearedCapabilities pack)"
  shows "\<exists>s. map_of (resolutionStrategies pack) cap = Some s \<and> strategy_has strategies s"
    "cap \<in> set db \<longrightarrow> (\<exists>d. map_of (approvalPolicies pack) cap = Some d \<and> isDecided d)"
proof -
  have "strategy_finding pack strategies cap = []" "approval_finding pack db cap = []"
    using assms by (auto simp: validatePack_def)
  then show "\<exists>s. map_of (resolutionStrategies pack) cap = Some s \<and> strategy_has strategies s"
    "cap \<in> set db \<longrightarrow> (\<exists>d. map_of (approvalPolicies pack) cap = Some d \<and> isDecided d)"
    by (auto simp: strategy_finding_def approval_finding_def split: option.splits if_splits)
qed

lemma validatePack_Nil_evidence:
  "validatePack pack strategies db = [] \<Longrightarrow> pk_lifecycle pack = L_APPROVED \<Longrightarrow> \<not> no_evidence pack"
  by (auto simp: validatePack_def split: if_splits)

section \<open>Restrict-only merging\<close>

locale restrict_only =
  fixes merge :: "'p \<Rightarrow> 'r list \<Rightarrow> ('r \<times> 'v) list" and ceiling :: "'p \<Rightarrow> ('r \<times> 'v) list"
  assumes merge_none: "merge p [] = ceiling p"
    and merge_mem: "x \<in> set (merge p rs) \<longleftrightarrow> x \<in> set (ceiling p) \<and> fst x \<notin> set rs"
begin

lemma merge_subset: "set (merge p rs) \<subseteq> set (ceiling p)"
  by (auto simp: merge_mem)

lemma merge_antimono: "set rs \<subseteq> set rs' \<Longrightarrow> set (merge p rs') \<subseteq> set (merge p rs)"
  by (auto simp: merge_mem)

lemma merge_removes: "r \<in> set rs \<Longrightarrow> r \<notin> fst ` set (merge p rs)"
  by (auto simp: merge_mem)

lemma merge_irrelevant: "set rs \<inter> fst ` set (ceiling p) = {} \<Longrightarrow> set (merge p rs) = set (ceiling p)"
  by (force simp: merge_mem)

end

interpretation settings_merge: restrict_only merged_ceiling strategyByCapability
  by unfold_locales (auto simp: merged_ceiling_def strategyByCapability_def)

section \<open>Properties\<close>

lemma select_pack_settings [simp]:
  "select_pack (input\<lparr>ri_settings := x\<rparr>) = select_pack input"
  by (cases input, hypsubst, unfold select_pack_def resolve_input.simps) (rule refl)

lemma resolve_with_settings:
  "resolveEffectivePolicy (input\<lparr>ri_settings := x\<rparr>) =
     result_map (resolveEffectivePolicy (input\<lparr>ri_settings := None\<rparr>))
       (\<lambda>p. case select_pack input of
          Inl e \<Rightarrow> p
        | Inr pack \<Rightarrow> p\<lparr>ep_capabilityCeiling := merged_ceiling pack (disabled_ids x),
            ep_aiProcessing := merged_ai pack x,
            ep_provenance := (ep_provenance p)\<lparr>pv_settingsVersion :=
              (case x of None \<Rightarrow> None | Some s \<Rightarrow> settingsVersion s)\<rparr>\<rparr>)"
  by (cases "select_pack input") (simp_all add: resolveEffectivePolicy_def Let_def)

text \<open>
  C2: runtime settings can only restrict.  Whatever resolves with settings also resolves without
  them, with the same pack and every other field; the ceiling with settings is contained in the one
  without and in the one of every smaller disable list, it contains no disabled capability, and the
  AI decision is either the pack's own or narrowed to the restricted state.
\<close>

theorem settings_only_restrict:
  assumes "resolveEffectivePolicy (input\<lparr>ri_settings := Some s\<rparr>) = Inr p"
  shows "\<exists>p0. resolveEffectivePolicy (input\<lparr>ri_settings := None\<rparr>) = Inr p0
    \<and> set (ep_capabilityCeiling p) \<subseteq> set (ep_capabilityCeiling p0)
    \<and> fst ` set (ep_capabilityCeiling p) \<inter> set (disabled_ids (Some s)) = {}
    \<and> (ep_aiProcessing p = ep_aiProcessing p0 \<or> ep_aiProcessing p = RESTRICTED_BY_SETTINGS)
    \<and> p = p0\<lparr>ep_capabilityCeiling := ep_capabilityCeiling p, ep_aiProcessing := ep_aiProcessing p,
             ep_provenance := (ep_provenance p0)\<lparr>pv_settingsVersion := settingsVersion s\<rparr>\<rparr>
    \<and> (\<forall>s' p'. set (disabled_ids (Some s)) \<subseteq> set (disabled_ids (Some s'))
         \<and> resolveEffectivePolicy (input\<lparr>ri_settings := Some s'\<rparr>) = Inr p'
         \<longrightarrow> set (ep_capabilityCeiling p') \<subseteq> set (ep_capabilityCeiling p))"
proof -
  from assms obtain p0 where p0: "resolveEffectivePolicy (input\<lparr>ri_settings := None\<rparr>) = Inr p0"
    unfolding resolve_with_settings [of "Some s" input] by (auto simp: result_map_eq_Inr)
  obtain pack where sel: "select_pack input = Inr pack"
    and c0: "ep_capabilityCeiling p0 = merged_ceiling pack (disabled_ids None)"
    and a0: "ep_aiProcessing p0 = merged_ai pack None"
    using p0 by (rule resolve_Inr) simp
  have with_settings: "resolveEffectivePolicy (input\<lparr>ri_settings := Some s'\<rparr>) =
      Inr (p0\<lparr>ep_capabilityCeiling := merged_ceiling pack (disabled_ids (Some s')),
            ep_aiProcessing := merged_ai pack (Some s'),
            ep_provenance := (ep_provenance p0)\<lparr>pv_settingsVersion := settingsVersion s'\<rparr>\<rparr>)" for s'
    unfolding resolve_with_settings [of "Some s'" input] by (simp add: p0 sel)
  have p: "p = p0\<lparr>ep_capabilityCeiling := merged_ceiling pack (disabled_ids (Some s)),
            ep_aiProcessing := merged_ai pack (Some s),
            ep_provenance := (ep_provenance p0)\<lparr>pv_settingsVersion := settingsVersion s\<rparr>\<rparr>"
    using assms with_settings by simp
  have n: "disabled_ids None = []" by (simp add: disabled_ids_def)
  show ?thesis
  proof (intro exI conjI allI impI)
    show "resolveEffectivePolicy (input\<lparr>ri_settings := None\<rparr>) = Inr p0" by (rule p0)
    show "set (ep_capabilityCeiling p) \<subseteq> set (ep_capabilityCeiling p0)"
      using settings_merge.merge_subset [of pack] settings_merge.merge_none [of pack]
      by (simp add: p c0 n)
    show "fst ` set (ep_capabilityCeiling p) \<inter> set (disabled_ids (Some s)) = {}"
      using settings_merge.merge_removes by (auto simp: p)
    show "ep_aiProcessing p = ep_aiProcessing p0 \<or> ep_aiProcessing p = RESTRICTED_BY_SETTINGS"
      by (auto simp: p a0 merged_ai_def)
    show "p = p0\<lparr>ep_capabilityCeiling := ep_capabilityCeiling p, ep_aiProcessing := ep_aiProcessing p,
             ep_provenance := (ep_provenance p0)\<lparr>pv_settingsVersion := settingsVersion s\<rparr>\<rparr>"
      by (simp add: p)
    fix s' p'
    assume "set (disabled_ids (Some s)) \<subseteq> set (disabled_ids (Some s'))
         \<and> resolveEffectivePolicy (input\<lparr>ri_settings := Some s'\<rparr>) = Inr p'"
    then show "set (ep_capabilityCeiling p') \<subseteq> set (ep_capabilityCeiling p)"
      using settings_merge.merge_antimono [of "disabled_ids (Some s)" "disabled_ids (Some s')" pack]
      by (auto simp: with_settings p)
  qed
qed

text \<open>A synthetic approved pack, for the witnesses.\<close>

definition approved_pack :: policy_pack where
  "approved_pack = QA_V1\<lparr>pk_version := ''qa/v2'', pk_lifecycle := L_APPROVED,
     pk_effectiveFrom := 100, pk_effectiveTo := Some 200,
     clearedCapabilities := [''BUDGETS'', ''GOALS''],
     resolutionStrategies := [(''BUDGETS'', ''AT_CREATION''), (''GOALS'', ''AT_EVALUATION'')],
     approvalReference := Some ''review-7''\<rparr>"

definition approved_input :: "environment \<Rightarrow> resolve_input" where
  "approved_input env = \<lparr>ri_jurisdiction = ''QA'', ri_requestedAt = 150,
     ri_packs = [QA_V1, approved_pack], ri_selection = IN_FORCE, ri_settings = None,
     ri_environment = env, ri_strategies = None, ri_disclosureBearing = None\<rparr>"

definition disable_goals :: jurisdiction_settings where
  "disable_goals = \<lparr>disabledCapabilityIds = Some [''GOALS'', ''NOT_A_CAPABILITY''],
     aiProcessingSuspended = Some True, settingsVersion = Some 3\<rparr>"

lemma approved_resolves:
  "\<exists>p. resolveEffectivePolicy ((approved_input EnvProduction)\<lparr>ri_settings := Some disable_goals\<rparr>) = Inr p
     \<and> ep_capabilityCeiling p = [(''BUDGETS'', ''AT_CREATION'')]"
proof -
  have "result_map (resolveEffectivePolicy
      ((approved_input EnvProduction)\<lparr>ri_settings := Some disable_goals\<rparr>)) ep_capabilityCeiling
    = Inr [(''BUDGETS'', ''AT_CREATION'')]"
    by code_simp
  then show ?thesis by (auto simp: result_map_eq_Inr)
qed

theorem settings_only_restrict_witness:
  "\<exists>p p0. resolveEffectivePolicy ((approved_input EnvProduction)\<lparr>ri_settings := Some disable_goals\<rparr>) = Inr p
     \<and> resolveEffectivePolicy ((approved_input EnvProduction)\<lparr>ri_settings := None\<rparr>) = Inr p0
     \<and> set (ep_capabilityCeiling p) \<subseteq> set (ep_capabilityCeiling p0)"
proof -
  obtain p where p: "resolveEffectivePolicy
      ((approved_input EnvProduction)\<lparr>ri_settings := Some disable_goals\<rparr>) = Inr p"
    using approved_resolves by blast
  show ?thesis using p settings_only_restrict [OF p] by blast
qed

text \<open>
  what a successful resolution rests on.  The governing pack is one of the given packs, of the
  requested jurisdiction, selected as asked (covering the instant and activatable, or the named
  version and historically resolvable); it validates; every ceiling entry is a cleared capability
  under a registered strategy; and outside the local environment the pack is approved, or was
  retired after approval, with evidence on record.
\<close>

theorem resolution_is_governed:
  assumes "resolveEffectivePolicy input = Inr p"
  shows "\<exists>pack \<in> set (ri_packs input).
      pk_jurisdiction pack = ri_jurisdiction input \<and> ep_packVersion p = pk_version pack
    \<and> governs pack input
    \<and> (\<forall>(cap, s) \<in> set (ep_capabilityCeiling p). cap \<in> set (clearedCapabilities pack)
        \<and> map_of (resolutionStrategies pack) cap = Some s
        \<and> strategy_has (case ri_strategies input of None \<Rightarrow> DEFAULT_RESOLUTION_STRATEGIES
                          | Some r \<Rightarrow> r) s)
    \<and> (ri_environment input \<noteq> EnvLocal \<longrightarrow> \<not> no_evidence pack
        \<and> (pk_lifecycle pack = L_APPROVED
            \<or> pk_lifecycle pack = L_RETIRED \<and> ri_selection input \<noteq> IN_FORCE))"
proof -
  obtain pack where sel: "select_pack input = Inr pack"
    and v: "validatePack pack (case ri_strategies input of None \<Rightarrow> DEFAULT_RESOLUTION_STRATEGIES | Some r \<Rightarrow> r)
       (case ri_disclosureBearing input of None \<Rightarrow> [] | Some ids \<Rightarrow> ids) = []"
    and e: "ep_packVersion p = pk_version pack"
      "ep_capabilityCeiling p = merged_ceiling pack (disabled_ids (ri_settings input))"
    by (rule resolve_Inr [OF assms])
  note g = select_pack_Inr [OF sel]
  have "cap \<in> set (clearedCapabilities pack) \<and> map_of (resolutionStrategies pack) cap = Some s
        \<and> strategy_has (case ri_strategies input of None \<Rightarrow> DEFAULT_RESOLUTION_STRATEGIES
                          | Some r \<Rightarrow> r) s"
    if "(cap, s) \<in> set (ep_capabilityCeiling p)" for cap s
    using that validatePack_Nil_strategy(1) [OF v] by (fastforce simp: e merged_ceiling_def strategyOf_def)
  moreover have "\<not> no_evidence pack
        \<and> (pk_lifecycle pack = L_APPROVED
            \<or> pk_lifecycle pack = L_RETIRED \<and> ri_selection input \<noteq> IN_FORCE)"
    if "ri_environment input \<noteq> EnvLocal"
    using g(3) that
    by (auto simp: governs_def canActivate_allowed_iff canResolve_allowed_iff split: pack_selection.splits)
  ultimately show ?thesis using g e by blast
qed

theorem resolution_is_governed_witness:
  "\<exists>p. resolveEffectivePolicy ((approved_input EnvProduction)\<lparr>ri_settings := Some disable_goals\<rparr>) = Inr p
     \<and> (\<exists>pack \<in> set [QA_V1, approved_pack]. ep_packVersion p = pk_version pack \<and> \<not> no_evidence pack)"
proof -
  let ?i = "(approved_input EnvProduction)\<lparr>ri_settings := Some disable_goals\<rparr>"
  obtain p where p: "resolveEffectivePolicy ?i = Inr p"
    using approved_resolves by blast
  have "ri_packs ?i = [QA_V1, approved_pack]" "ri_environment ?i \<noteq> EnvLocal"
    by (simp_all add: approved_input_def)
  then show ?thesis using p resolution_is_governed [OF p] by metis
qed

text \<open>
  the shipped register.  With the packs of the repository, qa/v1 resolves for QA in the local
  environment from its declared instant on, with an empty capability ceiling whatever the settings,
  and in no other environment does QA resolve at all; no other jurisdiction has a pack.
\<close>

theorem shipped_packs_grant_nothing:
  assumes "ri_packs input = POLICY_PACKS" "ri_selection input = IN_FORCE"
    "pk_effectiveFrom QA_V1 \<le> ri_requestedAt input"
  shows "(if ri_jurisdiction input \<noteq> ''QA''
          then resolveEffectivePolicy input = Inl (NO_PACK_FOR_JURISDICTION (ri_jurisdiction input))
          else if ri_environment input \<noteq> EnvLocal
          then resolveEffectivePolicy input = Inl (PACK_NOT_RESOLVABLE ''qa/v1'' (ri_environment input)
                 [LIFECYCLE_NOT_ACTIVATABLE L_DRAFT (ri_environment input)])
          else (\<exists>p. resolveEffectivePolicy input = Inr p \<and> ep_capabilityCeiling p = []))"
proof -
  have v: "validatePack QA_V1 strategies db = []" for strategies db
  proof -
    have "clearedCapabilities QA_V1 = []" by (simp add: QA_V1_def)
    then have "validatePack QA_V1 strategies db = validatePack QA_V1 [] []"
      by (simp add: validatePack_def)
    also have "\<dots> = []" by code_simp
    finally show ?thesis .
  qed
  have f: "pk_jurisdiction QA_V1 = ''QA''" "pk_version QA_V1 = ''qa/v1''" "pk_lifecycle QA_V1 = L_DRAFT"
    "pk_effectiveTo QA_V1 = None" "clearedCapabilities QA_V1 = []"
    by (simp_all add: QA_V1_def)
  have c: "covers QA_V1 (ri_requestedAt input)"
    using assms(3) f by (simp add: covers_def before_end_def)
  have a: "canActivate QA_V1 env = (if env = EnvLocal then ActivationAllowed
      else ActivationDenied [LIFECYCLE_NOT_ACTIVATABLE L_DRAFT env])" for env
    by (simp add: canActivate_def f)
  have s: "select_pack input = (if ri_jurisdiction input \<noteq> ''QA''
      then Inl (NO_PACK_FOR_JURISDICTION (ri_jurisdiction input))
      else if ri_environment input = EnvLocal then Inr QA_V1
      else Inl (PACK_NOT_RESOLVABLE ''qa/v1'' (ri_environment input)
                 [LIFECYCLE_NOT_ACTIVATABLE L_DRAFT (ri_environment input)]))"
    using assms(1,2) c f a by (auto simp: select_pack_def POLICY_PACKS_def packInForce_def Let_def)
  show ?thesis
    using v f(5) by (simp add: resolveEffectivePolicy_def s Let_def merged_ceiling_def)
qed

theorem shipped_packs_grant_nothing_witness:
  "resolveEffectivePolicy \<lparr>ri_jurisdiction = ''QA'', ri_requestedAt = 1800000000000,
     ri_packs = POLICY_PACKS, ri_selection = IN_FORCE, ri_settings = None,
     ri_environment = EnvProduction, ri_strategies = None, ri_disclosureBearing = None\<rparr>
   = Inl (PACK_NOT_RESOLVABLE ''qa/v1'' EnvProduction [LIFECYCLE_NOT_ACTIVATABLE L_DRAFT EnvProduction])"
  using shipped_packs_grant_nothing [of "\<lparr>ri_jurisdiction = ''QA'', ri_requestedAt = 1800000000000,
     ri_packs = POLICY_PACKS, ri_selection = IN_FORCE, ri_settings = None,
     ri_environment = EnvProduction, ri_strategies = None, ri_disclosureBearing = None\<rparr>"]
  by (simp add: QA_V1_def)

section \<open>Pack sets, unresolved decisions, strategies\<close>

lemma overlap_findings_Nil:
  "overlap_findings ps = [] \<longleftrightarrow> sorted_wrt (\<lambda>a b. overlap_finding a b = []) ps"
  by (induction ps) auto

lemma duplicate_findings_Nil:
  "duplicate_findings seen ps = [] \<Longrightarrow>
     distinct (map (\<lambda>p. pk_jurisdiction p @ ''#'' @ pk_version p) ps)
     \<and> (\<lambda>p. pk_jurisdiction p @ ''#'' @ pk_version p) ` set ps \<inter> seen = {}"
proof (induction ps arbitrary: seen)
  case (Cons p ps)
  let ?key = "\<lambda>p. pk_jurisdiction p @ ''#'' @ pk_version p"
  have "?key p \<notin> seen" and "duplicate_findings (insert (?key p) seen) ps = []"
    using Cons.prems by (auto simp: Let_def split: if_splits)
  with Cons.IH [of "insert (?key p) seen"] show ?case by auto
qed simp

lemma overlap_covers:
  "covers a t \<Longrightarrow> covers b t \<Longrightarrow> periods_overlap a b"
  by (auto simp: covers_def periods_overlap_def before_end_def split: option.splits)

lemma covering_at_most_one:
  assumes "validatePackSet packs strategies db = []"
  shows "length (filter (\<lambda>p. pk_jurisdiction p = j \<and> covers p t) packs) \<le> 1"
proof -
  let ?key = "\<lambda>p. pk_jurisdiction p @ ''#'' @ pk_version p"
  have "sorted_wrt (\<lambda>a b. overlap_finding a b = []) packs" and "distinct (map ?key packs)"
    using assms duplicate_findings_Nil [of "{}" packs]
    by (simp_all add: validatePackSet_def overlap_findings_Nil)
  then have "sorted_wrt (\<lambda>a b. overlap_finding a b = [] \<and> ?key a \<noteq> ?key b) packs"
    by (induction packs) (auto simp: image_iff)
  then have "sorted_wrt (\<lambda>a b. overlap_finding a b = [] \<and> ?key a \<noteq> ?key b)
      (filter (\<lambda>p. pk_jurisdiction p = j \<and> covers p t) packs)"
    by (induction packs) auto
  then show ?thesis
  proof (cases "filter (\<lambda>p. pk_jurisdiction p = j \<and> covers p t) packs" rule: remdups_adj.cases)
    case (3 a b rest)
    then have "{a, b} \<subseteq> set (filter (\<lambda>p. pk_jurisdiction p = j \<and> covers p t) packs)" by simp
    then have "pk_jurisdiction a = j" "covers a t" "pk_jurisdiction b = j" "covers b t" by auto
    then have "overlap_finding a b \<noteq> [] \<or> ?key a = ?key b"
      using overlap_covers by (simp add: overlap_finding_def)
    with 3 \<open>sorted_wrt _ (filter _ packs)\<close> show ?thesis by simp
  qed simp_all
qed

text \<open>
  one instant, one pack in force.  When the set validator reports nothing, at most one pack of
  any jurisdiction covers any instant, and resolution never meets the ambiguity it would refuse.
\<close>

theorem valid_pack_sets_are_unambiguous:
  assumes "validatePackSet (ri_packs input) strategies db = []"
  shows "length (filter (\<lambda>p. pk_jurisdiction p = j \<and> covers p t) (ri_packs input)) \<le> 1
    \<and> resolveEffectivePolicy input \<noteq> Inl (OVERLAPPING_PACKS_IN_FORCE versions at)"
proof -
  let ?cov = "filter (\<lambda>p. pk_jurisdiction p = ri_jurisdiction input \<and> covers p (ri_requestedAt input))
      (ri_packs input)"
  let ?el = "filter (\<lambda>c. canActivate c (ri_environment input) = ActivationAllowed) ?cov"
  have "length ?el \<le> 1"
    using covering_at_most_one [OF assms, of "ri_jurisdiction input" "ri_requestedAt input"]
      length_filter_le [of "\<lambda>c. canActivate c (ri_environment input) = ActivationAllowed" ?cov]
    by linarith
  moreover have "packInForce (filter (\<lambda>p. pk_jurisdiction p = ri_jurisdiction input) (ri_packs input))
      (ri_requestedAt input) = ?cov"
    by (simp add: packInForce_def conj_commute)
  ultimately have "select_pack input \<noteq> Inl (OVERLAPPING_PACKS_IN_FORCE versions at)"
    by (auto simp: select_pack_def Let_def split: pack_selection.splits option.splits
        activation_decision.splits list.splits)
  then have "resolveEffectivePolicy input \<noteq> Inl (OVERLAPPING_PACKS_IN_FORCE versions at)"
    by (auto simp: resolveEffectivePolicy_def result_simps Let_def)
  then show ?thesis using covering_at_most_one [OF assms] by blast
qed

theorem valid_pack_sets_are_unambiguous_witness:
  "validatePackSet (ri_packs (approved_input EnvProduction)) DEFAULT_RESOLUTION_STRATEGIES [] = []
   \<and> length (filter (\<lambda>p. pk_jurisdiction p = ''QA'' \<and> covers p 150)
       (ri_packs (approved_input EnvProduction))) \<le> 1"
proof -
  have h: "validatePackSet (ri_packs (approved_input EnvProduction)) DEFAULT_RESOLUTION_STRATEGIES [] = []"
    by code_simp
  show ?thesis using h valid_pack_sets_are_unambiguous [OF h, of "''QA''" 150] by blast
qed

text \<open>
  no decision is lost or defaulted.  Of every decision the governing pack carries, a resolved
  policy either lists it as unresolved with the pack's own reason, or it is decided and names a
  non-blank basis; nothing decided is listed.
\<close>

theorem unresolved_decisions_surface:
  assumes "resolveEffectivePolicy input = Inr p"
  shows "\<exists>pack \<in> set (ri_packs input). ep_packVersion p = pk_version pack
    \<and> (\<forall>(slot, v) \<in> set (decisionEntries pack).
         (case v of
            DecidedView basis \<Rightarrow> js_trim basis \<noteq> []
          | PendingView r \<Rightarrow>
              \<lparr>ur_where = slot, ur_state = StatePending, ur_reason = r\<rparr> \<in> set (ep_unresolved p)
          | UnresolvedView r \<Rightarrow>
              \<lparr>ur_where = slot, ur_state = StateUnresolved, ur_reason = r\<rparr> \<in> set (ep_unresolved p)))
    \<and> (\<forall>u \<in> set (ep_unresolved p). \<exists>v. (ur_where u, v) \<in> set (decisionEntries pack)
         \<and> v \<in> {PendingView (ur_reason u), UnresolvedView (ur_reason u)})"
proof -
  obtain pack where sel: "select_pack input = Inr pack"
    and v: "validatePack pack (case ri_strategies input of None \<Rightarrow> DEFAULT_RESOLUTION_STRATEGIES | Some r \<Rightarrow> r)
       (case ri_disclosureBearing input of None \<Rightarrow> [] | Some ids \<Rightarrow> ids) = []"
    and e: "ep_packVersion p = pk_version pack" "ep_unresolved p = collectUnresolved pack"
    by (rule resolve_Inr [OF assms])
  have "\<forall>x \<in> set (decisionEntries pack). basis_finding x = []"
    using v by (simp add: validatePack_def)
  then have "\<forall>(slot, w) \<in> set (decisionEntries pack).
         (case w of
            DecidedView basis \<Rightarrow> js_trim basis \<noteq> []
          | PendingView r \<Rightarrow>
              \<lparr>ur_where = slot, ur_state = StatePending, ur_reason = r\<rparr> \<in> set (ep_unresolved p)
          | UnresolvedView r \<Rightarrow>
              \<lparr>ur_where = slot, ur_state = StateUnresolved, ur_reason = r\<rparr> \<in> set (ep_unresolved p))"
    unfolding e collectUnresolved_def List.map_filter_def
    by (fastforce simp: basis_finding_def image_iff split: decision_view.splits if_splits)
  moreover have "\<forall>u \<in> set (ep_unresolved p). \<exists>w. (ur_where u, w) \<in> set (decisionEntries pack)
         \<and> w \<in> {PendingView (ur_reason u), UnresolvedView (ur_reason u)}"
    unfolding e collectUnresolved_def List.map_filter_def
    by (fastforce split: decision_view.splits)
  ultimately show ?thesis using select_pack_Inr(1) [OF sel] e(1) by blast
qed

theorem unresolved_decisions_surface_witness:
  "\<exists>p. resolveEffectivePolicy ((approved_input EnvProduction)\<lparr>ri_settings := Some disable_goals\<rparr>) = Inr p
     \<and> (\<exists>pack \<in> set [QA_V1, approved_pack]. ep_packVersion p = pk_version pack)"
proof -
  let ?i = "(approved_input EnvProduction)\<lparr>ri_settings := Some disable_goals\<rparr>"
  obtain p where p: "resolveEffectivePolicy ?i = Inr p"
    using approved_resolves by blast
  have "ri_packs ?i = [QA_V1, approved_pack]" by (simp add: approved_input_def)
  then show ?thesis using p unresolved_decisions_surface [OF p] by metis
qed

lemma register_strategies_iff:
  "distinct (map strategy_id byId) \<Longrightarrow> register_strategies byId ds =
     (if distinct (map strategy_id (byId @ ds)) then Some (byId @ ds) else None)"
proof (induction ds arbitrary: byId)
  case (Cons d ds)
  show ?case
  proof (cases "strategy_id d \<in> set (map strategy_id byId)")
    case False
    with Cons.prems have "distinct (map strategy_id (byId @ [d]))" by simp
    from Cons.IH [OF this] False show ?thesis by simp
  qed auto
qed simp

text \<open>
  a strategy registry is built exactly from definitions with distinct ids and holds them all;
  the launch registry answers the three documented ids, and MOST_RESTRICTIVE governs by exactly the
  versions the other two name, each once.
\<close>

theorem strategy_registry_correct:
  "createResolutionStrategyRegistry ds = (if distinct (map strategy_id ds) then Some ds else None)
   \<and> (strategy_has DEFAULT_RESOLUTION_STRATEGIES i \<longleftrightarrow>
        i \<in> {''AT_CREATION'', ''AT_EVALUATION'', ''MOST_RESTRICTIVE''})
   \<and> distinct (governingVersions MOST_RESTRICTIVE c)
   \<and> set (governingVersions MOST_RESTRICTIVE c) =
       set (governingVersions AT_CREATION c) \<union> set (governingVersions AT_EVALUATION c)"
proof (intro conjI)
  show "createResolutionStrategyRegistry ds = (if distinct (map strategy_id ds) then Some ds else None)"
    using register_strategies_iff [of "[]" ds] by (simp add: createResolutionStrategyRegistry_def)
  show "strategy_has DEFAULT_RESOLUTION_STRATEGIES i \<longleftrightarrow>
        i \<in> {''AT_CREATION'', ''AT_EVALUATION'', ''MOST_RESTRICTIVE''}"
    by (simp add: strategy_has_def DEFAULT_RESOLUTION_STRATEGIES_def createResolutionStrategyRegistry_def
        AT_CREATION_def AT_EVALUATION_def MOST_RESTRICTIVE_def)
  show "distinct (governingVersions MOST_RESTRICTIVE c)"
    by (auto simp: MOST_RESTRICTIVE_def split: option.splits)
  show "set (governingVersions MOST_RESTRICTIVE c) =
       set (governingVersions AT_CREATION c) \<union> set (governingVersions AT_EVALUATION c)"
    by (auto simp: MOST_RESTRICTIVE_def AT_CREATION_def AT_EVALUATION_def split: option.splits)
qed

end
