(* ===== verification/Capability_Registry.thy ===== *)
theory Capability_Registry
  imports Policy_Pack
begin

text \<open>
  The compile-time capability registry: \<open>packages/capability-registry/src/index.ts\<close> and
  \<open>validation.ts\<close>, and the views of it the capability module consumes
  (\<open>modules/capability/application/registry-view.ts\<close>).

  Descriptors are records, the registry an association list from ids to descriptors in declaration
  order; a deployment map is an association list from environment names, as validation must meet
  names outside the known four.
\<close>

section \<open>Descriptors and the production registry\<close>

definition CAPABILITY_IDS :: "string list" where
  "CAPABILITY_IDS =
     [''TRANSACTIONS'', ''BUDGETS'', ''GOALS'', ''INSIGHTS'', ''AI_ADVISOR'', ''ZAKAT'', ''AMANAT'']"

definition isCapabilityId :: "string \<Rightarrow> bool" where
  "isCapabilityId v \<longleftrightarrow> v \<in> set CAPABILITY_IDS"

datatype capability_lifecycle = C_PLANNED | C_ALPHA | C_BETA | C_GA | C_DEPRECATED | C_RETIRED
datatype implementation = NOT_IMPLEMENTED | IMPLEMENTED
datatype deployment_state = NOT_DEPLOYED | DEPLOYED
datatype client_exposure = ACTIONABLE | HIDDEN

record capability_descriptor =
  cd_id :: string
  cd_lifecycle :: capability_lifecycle
  cd_implementation :: implementation
  cd_deployment :: "(string \<times> deployment_state) list"
  declaredJurisdictions :: "string list"
  cd_disclosureBearing :: bool
  clientExposure :: client_exposure
  providerPendingExplainable :: "bool option"

definition descriptor :: "string \<Rightarrow> capability_descriptor" where
  "descriptor i = \<lparr>cd_id = i, cd_lifecycle = C_PLANNED, cd_implementation = NOT_IMPLEMENTED,
     cd_deployment = [], declaredJurisdictions = [],
     cd_disclosureBearing = (i = ''AMANAT''),
     clientExposure = (if i = ''AMANAT'' then HIDDEN else ACTIONABLE),
     providerPendingExplainable = None\<rparr>"

definition CAPABILITY_REGISTRY :: "(string \<times> capability_descriptor) list" where
  "CAPABILITY_REGISTRY =
     [(''TRANSACTIONS'', descriptor ''TRANSACTIONS''),
      (''BUDGETS'', descriptor ''BUDGETS''),
      (''GOALS'', descriptor ''GOALS''),
      (''INSIGHTS'', descriptor ''INSIGHTS''),
      (''AI_ADVISOR'', descriptor ''AI_ADVISOR''),
      (''ZAKAT'', descriptor ''ZAKAT''),
      (''AMANAT'', descriptor ''AMANAT'')]"

section \<open>Validation\<close>

definition KARAR_ENVIRONMENTS :: "string list" where
  "KARAR_ENVIRONMENTS = [''local'', ''dev'', ''staging'', ''production'']"

definition isKararEnvironment :: "string \<Rightarrow> bool" where
  "isKararEnvironment v \<longleftrightarrow> v \<in> set KARAR_ENVIRONMENTS"

datatype registry_rule =
    DUPLICATE_ID
  | ID_KEY_MISMATCH
  | MISSING_DESCRIPTOR
  | UNDECLARED_DESCRIPTOR
  | DEPLOYED_WHILE_NOT_IMPLEMENTED
  | UNKNOWN_DEPLOYMENT_ENVIRONMENT
  | DUPLICATE_DECLARED_JURISDICTION
  | UNDISCLOSED_EXPOSURE

type_synonym registry_violation = "string \<times> registry_rule"

definition validateDescriptor :: "string \<Rightarrow> capability_descriptor \<Rightarrow> registry_violation list" where
  "validateDescriptor i d =
     (if cd_id d \<noteq> i then [(i, ID_KEY_MISMATCH)] else [])
     @ (let deployedEnvironments = map fst (filter (\<lambda>(env, state). state = DEPLOYED) (cd_deployment d))
        in if cd_implementation d = NOT_IMPLEMENTED \<and> deployedEnvironments \<noteq> []
           then [(i, DEPLOYED_WHILE_NOT_IMPLEMENTED)] else [])
     @ map (\<lambda>env. (i, UNKNOWN_DEPLOYMENT_ENVIRONMENT))
         (filter (\<lambda>env. \<not> isKararEnvironment env) (map fst (cd_deployment d)))
     @ (if card (set (declaredJurisdictions d)) \<noteq> length (declaredJurisdictions d)
        then [(i, DUPLICATE_DECLARED_JURISDICTION)] else [])
     @ (if cd_disclosureBearing d \<and> declaredJurisdictions d = [] \<and> clientExposure d \<noteq> HIDDEN
        then [(i, UNDISCLOSED_EXPOSURE)] else [])"

fun validate_ids ::
  "(string \<times> capability_descriptor) list \<Rightarrow> string list \<Rightarrow> string list \<Rightarrow> registry_violation list" where
  "validate_ids descriptors seen [] = []"
| "validate_ids descriptors seen (i # ids) =
     (if i \<in> set seen then (i, DUPLICATE_ID) # validate_ids descriptors seen ids
      else (case map_of descriptors i of
              None \<Rightarrow> [(i, MISSING_DESCRIPTOR)]
            | Some d \<Rightarrow> validateDescriptor i d)
           @ validate_ids descriptors (i # seen) ids)"

definition validateRegistry ::
  "string list \<Rightarrow> (string \<times> capability_descriptor) list \<Rightarrow> registry_violation list" where
  "validateRegistry ids descriptors =
     validate_ids descriptors [] ids
     @ map (\<lambda>key. (key, UNDECLARED_DESCRIPTOR))
         (filter (\<lambda>key. key \<notin> set ids) (map fst descriptors))"

text \<open>\<open>assertValidRegistry\<close> throws on any violation; the view is what passed it.\<close>

record registry_view =
  rv_ids :: "string list"
  rv_descriptors :: "(string \<times> capability_descriptor) list"

definition assertValidRegistry ::
  "string list \<Rightarrow> (string \<times> capability_descriptor) list \<Rightarrow> (registry_violation list, unit) outcome" where
  "assertValidRegistry ids descriptors =
     (let violations = validateRegistry ids descriptors
      in if violations \<noteq> [] then Inl violations else Inr ())"

definition registryView ::
  "string list \<Rightarrow> (string \<times> capability_descriptor) list
     \<Rightarrow> (registry_violation list, registry_view) outcome" where
  "registryView ids descriptors =
     result_map (assertValidRegistry ids descriptors)
       (\<lambda>_. \<lparr>rv_ids = ids, rv_descriptors = descriptors\<rparr>)"

definition productionRegistryView :: "(registry_violation list, registry_view) outcome" where
  "productionRegistryView = registryView CAPABILITY_IDS CAPABILITY_REGISTRY"

lemma validate_ids_Nil:
  "validate_ids ds seen ids = [] \<longleftrightarrow>
     distinct ids \<and> set ids \<inter> set seen = {}
     \<and> (\<forall>i \<in> set ids. \<exists>d. map_of ds i = Some d \<and> validateDescriptor i d = [])"
  by (induction ids arbitrary: seen) (auto split: option.splits)

lemma validateDescriptor_Nil:
  "validateDescriptor i d = [] \<longleftrightarrow>
     cd_id d = i
     \<and> (cd_implementation d = NOT_IMPLEMENTED \<longrightarrow> (\<forall>(env, state) \<in> set (cd_deployment d). state \<noteq> DEPLOYED))
     \<and> (\<forall>(env, state) \<in> set (cd_deployment d). isKararEnvironment env)
     \<and> distinct (declaredJurisdictions d)
     \<and> (cd_disclosureBearing d \<and> declaredJurisdictions d = [] \<longrightarrow> clientExposure d = HIDDEN)"
  by (auto simp: validateDescriptor_def Let_def filter_empty_conv card_distinct distinct_card
      split: if_splits)

lemma registryView_Inr:
  "registryView ids ds = Inr v \<longleftrightarrow>
     v = \<lparr>rv_ids = ids, rv_descriptors = ds\<rparr> \<and> validateRegistry ids ds = []"
  by (auto simp: registryView_def assertValidRegistry_def result_simps Let_def)

text \<open>
  what a constructed registry view guarantees.  Ids are distinct and are exactly the keys;
  every id has a descriptor carrying that id; nothing unimplemented is deployed, deployments name
  known environments, declared jurisdictions are sets, and a disclosure-bearing capability that
  declares no jurisdiction is hidden.  The production registry passes.
\<close>

theorem registry_view_is_sound:
  assumes "registryView ids ds = Inr v"
  shows "distinct ids \<and> set ids = set (map fst ds)
    \<and> (\<forall>i \<in> set ids. \<exists>d. map_of ds i = Some d \<and> cd_id d = i
        \<and> (cd_implementation d = NOT_IMPLEMENTED \<longrightarrow> DEPLOYED \<notin> snd ` set (cd_deployment d))
        \<and> fst ` set (cd_deployment d) \<subseteq> set KARAR_ENVIRONMENTS
        \<and> distinct (declaredJurisdictions d)
        \<and> (cd_disclosureBearing d \<and> declaredJurisdictions d = [] \<longrightarrow> clientExposure d = HIDDEN))
    \<and> (\<exists>p. productionRegistryView = Inr p)"
proof -
  have v: "distinct ids" "\<forall>i \<in> set ids. \<exists>d. map_of ds i = Some d \<and> validateDescriptor i d = []"
    "fst ` set ds \<subseteq> set ids"
    using assms by (auto simp: registryView_Inr validateRegistry_def validate_ids_Nil filter_empty_conv)
  have "set ids \<subseteq> fst ` set ds"
    using v(2) by (force dest: map_of_SomeD)
  moreover have "validateRegistry CAPABILITY_IDS CAPABILITY_REGISTRY = []" by code_simp
  ultimately show ?thesis
    using v by (fastforce simp: validateDescriptor_Nil isKararEnvironment_def productionRegistryView_def
        registryView_Inr)
qed

theorem registry_view_is_sound_witness:
  "registryView CAPABILITY_IDS CAPABILITY_REGISTRY
     = Inr \<lparr>rv_ids = CAPABILITY_IDS, rv_descriptors = CAPABILITY_REGISTRY\<rparr>
   \<and> set CAPABILITY_IDS = set (map fst CAPABILITY_REGISTRY)"
proof -
  have "validateRegistry CAPABILITY_IDS CAPABILITY_REGISTRY = []" by code_simp
  then have h: "registryView CAPABILITY_IDS CAPABILITY_REGISTRY
     = Inr \<lparr>rv_ids = CAPABILITY_IDS, rv_descriptors = CAPABILITY_REGISTRY\<rparr>"
    by (simp add: registryView_Inr)
  show ?thesis using h registry_view_is_sound [OF h] by blast
qed

end
