(* ===== verification/Capability_Gates.thy ===== *)
theory Capability_Gates
  imports Capability_Registry
begin

text \<open>
  The availability resolution core: \<open>modules/capability/domain\<close>, that is the state vocabulary
  (\<open>availability-state.ts\<close>), the denial reasons (\<open>denial-reason.ts\<close>), the entitlement window
  (\<open>entitlement.ts\<close>), the eight ordered gates (\<open>resolution.ts\<close>) and the client projection
  (\<open>client-view.ts\<close>).

  \<open>gate_passes\<close> is the specification: one condition per gate, with no order.  The refinement theorem
  states that the code's early returns compute the first failing gate of the declared order.
\<close>

section \<open>Vocabulary\<close>

datatype availability_state =
    AVAILABLE | BETA | INTERNAL_ONLY | PARTNER_ONLY | DISABLED
  | PENDING_PROVIDER | PENDING_LEGAL | PENDING_REGULATORY

definition AVAILABILITY_STATES :: "(string \<times> availability_state) list" where
  "AVAILABILITY_STATES =
     [(''AVAILABLE'', AVAILABLE), (''BETA'', BETA), (''INTERNAL_ONLY'', INTERNAL_ONLY),
      (''PARTNER_ONLY'', PARTNER_ONLY), (''DISABLED'', DISABLED),
      (''PENDING_PROVIDER'', PENDING_PROVIDER), (''PENDING_LEGAL_REVIEW'', PENDING_LEGAL),
      (''PENDING_REGULATORY_REVIEW'', PENDING_REGULATORY)]"

definition isAvailabilityState :: "string \<Rightarrow> bool" where
  "isAvailabilityState v \<longleftrightarrow> v \<in> set (map fst AVAILABILITY_STATES)"

definition ALLOWING_STATES :: "availability_state list" where
  "ALLOWING_STATES = [AVAILABLE, BETA]"

definition isAllowingState :: "availability_state \<Rightarrow> bool" where
  "isAllowingState s \<longleftrightarrow> s \<in> set ALLOWING_STATES"

datatype denial_reason =
    DR_NOT_IMPLEMENTED | DR_NOT_DEPLOYED
  | DR_WRONG_ENVIRONMENT
  | DR_JURISDICTION_ABSENT | DR_JURISDICTION_UNVERIFIED | DR_JURISDICTION_NOT_CLEARED
  | DR_POLICY_PACK_NOT_APPROVED
  | DR_STATE availability_state
  | DR_ENTITLEMENT_MISSING | DR_ENTITLEMENT_EXPIRED
  | DR_CONSENT_REQUIRED | DR_RECONSENT_REQUIRED | DR_PROCESSING_BASIS_UNRESOLVED
  | DR_LICENCE_MISSING | DR_LICENCE_EXPIRED
  | DR_PROVIDER_UNAVAILABLE

text \<open>The state-derived reasons are the non-allowing states themselves; gate 8 reuses PENDING_PROVIDER.\<close>

definition HIDDEN_DENIAL_REASONS :: "denial_reason list" where
  "HIDDEN_DENIAL_REASONS =
     [DR_NOT_IMPLEMENTED, DR_NOT_DEPLOYED, DR_STATE PENDING_LEGAL, DR_STATE PENDING_REGULATORY,
      DR_JURISDICTION_NOT_CLEARED]"

definition CLIENT_SURFACEABLE_REASONS :: "denial_reason list" where
  "CLIENT_SURFACEABLE_REASONS =
     [DR_CONSENT_REQUIRED, DR_RECONSENT_REQUIRED, DR_ENTITLEMENT_MISSING, DR_ENTITLEMENT_EXPIRED]"

definition clientReasonFor :: "denial_reason \<Rightarrow> bool \<Rightarrow> denial_reason option" where
  "clientReasonFor reason explainable =
     (if reason \<in> set CLIENT_SURFACEABLE_REASONS then Some reason
      else if reason = DR_STATE PENDING_PROVIDER \<and> explainable then Some (DR_STATE PENDING_PROVIDER)
      else None)"

fun state_text :: "availability_state \<Rightarrow> string" where
  "state_text AVAILABLE = ''AVAILABLE''"
| "state_text BETA = ''BETA''"
| "state_text INTERNAL_ONLY = ''INTERNAL_ONLY''"
| "state_text PARTNER_ONLY = ''PARTNER_ONLY''"
| "state_text DISABLED = ''DISABLED''"
| "state_text PENDING_PROVIDER = ''PENDING_PROVIDER''"
| "state_text PENDING_LEGAL = ''PENDING_LEGAL_REVIEW''"
| "state_text PENDING_REGULATORY = ''PENDING_REGULATORY_REVIEW''"

fun denial_text :: "denial_reason \<Rightarrow> string" where
  "denial_text DR_NOT_IMPLEMENTED = ''NOT_IMPLEMENTED''"
| "denial_text DR_NOT_DEPLOYED = ''NOT_DEPLOYED''"
| "denial_text DR_WRONG_ENVIRONMENT = ''WRONG_ENVIRONMENT''"
| "denial_text DR_JURISDICTION_ABSENT = ''JURISDICTION_ABSENT''"
| "denial_text DR_JURISDICTION_UNVERIFIED = ''JURISDICTION_UNVERIFIED''"
| "denial_text DR_JURISDICTION_NOT_CLEARED = ''JURISDICTION_NOT_CLEARED''"
| "denial_text DR_POLICY_PACK_NOT_APPROVED = ''POLICY_PACK_NOT_APPROVED''"
| "denial_text (DR_STATE s) = state_text s"
| "denial_text DR_ENTITLEMENT_MISSING = ''ENTITLEMENT_MISSING''"
| "denial_text DR_ENTITLEMENT_EXPIRED = ''ENTITLEMENT_EXPIRED''"
| "denial_text DR_CONSENT_REQUIRED = ''CONSENT_REQUIRED''"
| "denial_text DR_RECONSENT_REQUIRED = ''RECONSENT_REQUIRED''"
| "denial_text DR_PROCESSING_BASIS_UNRESOLVED = ''PROCESSING_BASIS_UNRESOLVED''"
| "denial_text DR_LICENCE_MISSING = ''LICENCE_MISSING''"
| "denial_text DR_LICENCE_EXPIRED = ''LICENCE_EXPIRED''"
| "denial_text DR_PROVIDER_UNAVAILABLE = ''PROVIDER_UNAVAILABLE''"

section \<open>Facts\<close>

record descriptor_facts =
  implemented :: bool
  deployedInEnvironment :: bool
  declaredScopeRefs :: "string list"

datatype processing_basis = CONSENT_BASIS string | DECLARED_BASIS string | UNRESOLVED_BASIS

record cleared_facts =
  cf_capabilityId :: string
  cf_resolutionStrategyRef :: string
  requiresVerifiedAssignment :: bool
  processingBasis :: processing_basis
  requiredLicenceTypeRefs :: "string list"
  requiredProviderKinds :: "string list"

datatype ceiling_facts =
    NO_ASSIGNMENT
  | UNVERIFIED_ASSIGNMENT string
  | PACK_NOT_APPROVED string "string option"
  | RESOLVED_CEILING (scopeRef: string) (assignmentVerified: bool) (packVersionRef: string)
      (cleared: "cleared_facts list")

datatype availability_facts = NO_ROW bool | AROW string availability_state int

datatype entitlement_status = ACTIVE | REVOKED | EXPIRED

datatype entitlement_facts = NO_ENTITLEMENT | EROW string entitlement_status millis "millis option" int

datatype consent_state = CS_ACTIVE | CS_WITHDRAWN | CS_RECONSENT_REQUIRED | CS_NO_GRANT

datatype consent_facts = CONSENT_NOT_EVALUATED | CONSENT_STATUS consent_state bool

datatype licence_status = CLAIMED_UNVERIFIED | EVIDENCED | LICENCE_EXPIRED | LICENCE_REVOKED

record licence_facts =
  licenceTypeRef :: string
  lf_status :: licence_status
  effectiveDate :: "millis option"
  expiryDate :: "millis option"

datatype licensing_facts =
    LICENSING_NOT_EVALUATED
  | NO_EFFECTIVE_ENTITY
  | ENTITY string bool "licence_facts list"

datatype provider_status = CONNECTED | NOT_CONFIGURED | UNAVAILABLE

datatype provider_facts = PROVIDERS_NOT_EVALUATED | STATUSES "(string \<times> provider_status) list"

record gate_inputs =
  gi_capabilityId :: string
  gi_environment :: string
  gi_descriptor :: descriptor_facts
  gi_ceiling :: ceiling_facts
  gi_availability :: availability_facts
  gi_entitlement :: entitlement_facts
  gi_consent :: consent_facts
  gi_licensing :: licensing_facts
  gi_providers :: provider_facts

datatype gate =
    G_DESCRIPTOR | G_ENVIRONMENT | G_JURISDICTION | G_AVAILABILITY
  | G_ENTITLEMENT | G_CONSENT | G_LICENCE | G_PROVIDER

fun gate_text :: "gate \<Rightarrow> string" where
  "gate_text G_DESCRIPTOR = ''DESCRIPTOR''"
| "gate_text G_ENVIRONMENT = ''ENVIRONMENT''"
| "gate_text G_JURISDICTION = ''JURISDICTION''"
| "gate_text G_AVAILABILITY = ''AVAILABILITY''"
| "gate_text G_ENTITLEMENT = ''ENTITLEMENT''"
| "gate_text G_CONSENT = ''CONSENT''"
| "gate_text G_LICENCE = ''LICENCE''"
| "gate_text G_PROVIDER = ''PROVIDER''"

definition GATES :: "gate list" where
  "GATES = [G_DESCRIPTOR, G_ENVIRONMENT, G_JURISDICTION, G_AVAILABILITY,
            G_ENTITLEMENT, G_CONSENT, G_LICENCE, G_PROVIDER]"

record resolution_provenance =
  rp_packVersionRef :: "string option"
  rp_availabilityRowId :: "string option"
  rp_availabilityRowVersion :: "int option"
  rp_entitlementId :: "string option"
  rp_entitlementVersion :: "int option"
  rp_environment :: string
  rp_jurisdictionRef :: "string option"
  rp_resolvedAt :: millis

datatype resolution =
    ALLOWED (res_capability: string) (res_state: availability_state)
      (res_provenance: resolution_provenance)
  | DENIED (res_capability: string) (res_gate: gate) (res_reason: denial_reason)
      (res_provenance: resolution_provenance)

section \<open>The engine\<close>

text \<open>\<open>entitlementSatisfiesAt\<close>: status ACTIVE and the window covers the instant.\<close>

definition entitlementSatisfiesAt ::
  "entitlement_status \<Rightarrow> millis \<Rightarrow> millis option \<Rightarrow> millis \<Rightarrow> bool" where
  "entitlementSatisfiesAt status effectiveFrom effectiveTo at \<longleftrightarrow>
     status = ACTIVE \<and> effectiveFrom \<le> at
     \<and> (case effectiveTo of None \<Rightarrow> True | Some t \<Rightarrow> t > at)"

fun scopeRefOf :: "ceiling_facts \<Rightarrow> string option" where
  "scopeRefOf NO_ASSIGNMENT = None"
| "scopeRefOf (UNVERIFIED_ASSIGNMENT s) = Some s"
| "scopeRefOf (PACK_NOT_APPROVED s v) = Some s"
| "scopeRefOf (RESOLVED_CEILING s a v c) = Some s"

definition provenanceOf :: "gate_inputs \<Rightarrow> millis \<Rightarrow> resolution_provenance" where
  "provenanceOf inputs at = \<lparr>
     rp_packVersionRef =
       (case gi_ceiling inputs of
          RESOLVED_CEILING s a v c \<Rightarrow> Some v
        | PACK_NOT_APPROVED s v \<Rightarrow> v
        | _ \<Rightarrow> None),
     rp_availabilityRowId =
       (case gi_availability inputs of AROW i s v \<Rightarrow> Some i | NO_ROW b \<Rightarrow> None),
     rp_availabilityRowVersion =
       (case gi_availability inputs of AROW i s v \<Rightarrow> Some v | NO_ROW b \<Rightarrow> None),
     rp_entitlementId =
       (case gi_entitlement inputs of EROW i s f t v \<Rightarrow> Some i | NO_ENTITLEMENT \<Rightarrow> None),
     rp_entitlementVersion =
       (case gi_entitlement inputs of EROW i s f t v \<Rightarrow> Some v | NO_ENTITLEMENT \<Rightarrow> None),
     rp_environment = gi_environment inputs,
     rp_jurisdictionRef = scopeRefOf (gi_ceiling inputs),
     rp_resolvedAt = at\<rparr>"

fun consentGate :: "processing_basis \<Rightarrow> consent_facts \<Rightarrow> denial_reason option" where
  "consentGate (DECLARED_BASIS b) consent = None"
| "consentGate UNRESOLVED_BASIS consent = Some DR_PROCESSING_BASIS_UNRESOLVED"
| "consentGate (CONSENT_BASIS p) CONSENT_NOT_EVALUATED = Some DR_CONSENT_REQUIRED"
| "consentGate (CONSENT_BASIS p) (CONSENT_STATUS state documentAvailable) =
     (if \<not> documentAvailable then Some DR_CONSENT_REQUIRED
      else case state of
        CS_ACTIVE \<Rightarrow> None
      | CS_RECONSENT_REQUIRED \<Rightarrow> Some DR_RECONSENT_REQUIRED
      | CS_WITHDRAWN \<Rightarrow> Some DR_CONSENT_REQUIRED
      | CS_NO_GRANT \<Rightarrow> Some DR_CONSENT_REQUIRED)"

definition licence_satisfies :: "millis \<Rightarrow> licence_facts \<Rightarrow> bool" where
  "licence_satisfies at l \<longleftrightarrow>
     lf_status l = EVIDENCED
     \<and> (case effectiveDate l of None \<Rightarrow> False | Some d \<Rightarrow> d \<le> at)
     \<and> (case expiryDate l of None \<Rightarrow> True | Some d \<Rightarrow> d > at)"

definition licence_lapsed :: "millis \<Rightarrow> licence_facts \<Rightarrow> bool" where
  "licence_lapsed at l \<longleftrightarrow>
     lf_status l = LICENCE_EXPIRED \<or> (case expiryDate l of None \<Rightarrow> False | Some d \<Rightarrow> d \<le> at)"

fun licence_loop :: "licence_facts list \<Rightarrow> millis \<Rightarrow> string list \<Rightarrow> denial_reason option" where
  "licence_loop licences at [] = None"
| "licence_loop licences at (typeRef # refs) =
     (let candidates = filter (\<lambda>l. licenceTypeRef l = typeRef) licences
      in if list_ex (licence_satisfies at) candidates then licence_loop licences at refs
         else if list_ex (licence_lapsed at) candidates then Some DR_LICENCE_EXPIRED
         else Some DR_LICENCE_MISSING)"

definition licenceGate :: "string list \<Rightarrow> licensing_facts \<Rightarrow> millis \<Rightarrow> denial_reason option" where
  "licenceGate required licensing at =
     (if required = [] then None
      else case licensing of
        LICENSING_NOT_EVALUATED \<Rightarrow> Some DR_LICENCE_MISSING
      | NO_EFFECTIVE_ENTITY \<Rightarrow> Some DR_LICENCE_MISSING
      | ENTITY entityRef permittedInScope licences \<Rightarrow>
          if \<not> permittedInScope then Some DR_LICENCE_MISSING
          else licence_loop licences at required)"

fun provider_loop :: "(string \<times> provider_status) list \<Rightarrow> string list \<Rightarrow> denial_reason option" where
  "provider_loop statuses [] = None"
| "provider_loop statuses (kind # kinds) =
     (case List.find (\<lambda>s. fst s = kind) statuses of
        None \<Rightarrow> Some (DR_STATE PENDING_PROVIDER)
      | Some entry \<Rightarrow>
          if snd entry = NOT_CONFIGURED then Some (DR_STATE PENDING_PROVIDER)
          else if snd entry = UNAVAILABLE then Some DR_PROVIDER_UNAVAILABLE
          else provider_loop statuses kinds)"

definition providerGate :: "string list \<Rightarrow> provider_facts \<Rightarrow> denial_reason option" where
  "providerGate required providers =
     (if required = [] then None
      else case providers of
        PROVIDERS_NOT_EVALUATED \<Rightarrow> Some (DR_STATE PENDING_PROVIDER)
      | STATUSES statuses \<Rightarrow> provider_loop statuses required)"

definition findCleared :: "gate_inputs \<Rightarrow> cleared_facts option" where
  "findCleared inputs =
     (case gi_ceiling inputs of
        RESOLVED_CEILING s a v cs \<Rightarrow>
          List.find (\<lambda>c. cf_capabilityId c = gi_capabilityId inputs) cs
      | _ \<Rightarrow> None)"

definition resolveCapabilityGates :: "gate_inputs \<Rightarrow> millis \<Rightarrow> resolution" where
  "resolveCapabilityGates inputs at =
     (let provenance = provenanceOf inputs at;
          deny = (\<lambda>g reason. DENIED (gi_capabilityId inputs) g reason provenance)
      in if \<not> implemented (gi_descriptor inputs) then deny G_DESCRIPTOR DR_NOT_IMPLEMENTED
         else if \<not> deployedInEnvironment (gi_descriptor inputs) then deny G_DESCRIPTOR DR_NOT_DEPLOYED
         else if gi_availability inputs = NO_ROW True then deny G_ENVIRONMENT DR_WRONG_ENVIRONMENT
         else (case gi_ceiling inputs of
           NO_ASSIGNMENT \<Rightarrow> deny G_JURISDICTION DR_JURISDICTION_ABSENT
         | UNVERIFIED_ASSIGNMENT s \<Rightarrow> deny G_JURISDICTION DR_JURISDICTION_UNVERIFIED
         | PACK_NOT_APPROVED s v \<Rightarrow> deny G_JURISDICTION DR_POLICY_PACK_NOT_APPROVED
         | RESOLVED_CEILING scope verified version cs \<Rightarrow>
             let declared = list_ex (\<lambda>ref. ref = scope) (declaredScopeRefs (gi_descriptor inputs))
             in (case List.find (\<lambda>c. cf_capabilityId c = gi_capabilityId inputs) cs of
                   None \<Rightarrow> deny G_JURISDICTION DR_JURISDICTION_NOT_CLEARED
                 | Some cl \<Rightarrow>
                     if \<not> declared then deny G_JURISDICTION DR_JURISDICTION_NOT_CLEARED
                     else if requiresVerifiedAssignment cl \<and> \<not> verified
                     then deny G_JURISDICTION DR_JURISDICTION_UNVERIFIED
                     else (case gi_availability inputs of
                       NO_ROW elsewhere \<Rightarrow> deny G_AVAILABILITY (DR_STATE DISABLED)
                     | AROW rowId state rowVersion \<Rightarrow>
                         if \<not> isAllowingState state then deny G_AVAILABILITY (DR_STATE state)
                         else (case gi_entitlement inputs of
                           NO_ENTITLEMENT \<Rightarrow> deny G_ENTITLEMENT DR_ENTITLEMENT_MISSING
                         | EROW eid status from_ to_ eversion \<Rightarrow>
                             if \<not> entitlementSatisfiesAt status from_ to_ at
                             then deny G_ENTITLEMENT
                               (if status = REVOKED then DR_ENTITLEMENT_MISSING else DR_ENTITLEMENT_EXPIRED)
                             else (case consentGate (processingBasis cl) (gi_consent inputs) of
                               Some r \<Rightarrow> deny G_CONSENT r
                             | None \<Rightarrow>
                                 (case licenceGate (requiredLicenceTypeRefs cl) (gi_licensing inputs) at of
                                    Some r \<Rightarrow> deny G_LICENCE r
                                  | None \<Rightarrow>
                                      (case providerGate (requiredProviderKinds cl) (gi_providers inputs) of
                                         Some r \<Rightarrow> deny G_PROVIDER r
                                       | None \<Rightarrow>
                                           ALLOWED (gi_capabilityId inputs) state provenance))))))))"

section \<open>Specification: one condition per gate\<close>

fun gate_passes :: "gate_inputs \<Rightarrow> millis \<Rightarrow> gate \<Rightarrow> bool" where
  "gate_passes i at G_DESCRIPTOR \<longleftrightarrow>
     implemented (gi_descriptor i) \<and> deployedInEnvironment (gi_descriptor i)"
| "gate_passes i at G_ENVIRONMENT \<longleftrightarrow> gi_availability i \<noteq> NO_ROW True"
| "gate_passes i at G_JURISDICTION \<longleftrightarrow>
     (case gi_ceiling i of
        RESOLVED_CEILING scope verified v cs \<Rightarrow>
          scope \<in> set (declaredScopeRefs (gi_descriptor i))
          \<and> (case findCleared i of None \<Rightarrow> False
             | Some cl \<Rightarrow> requiresVerifiedAssignment cl \<longrightarrow> verified)
      | _ \<Rightarrow> False)"
| "gate_passes i at G_AVAILABILITY \<longleftrightarrow>
     (case gi_availability i of AROW r s v \<Rightarrow> s = AVAILABLE \<or> s = BETA | NO_ROW b \<Rightarrow> False)"
| "gate_passes i at G_ENTITLEMENT \<longleftrightarrow>
     (case gi_entitlement i of
        EROW r s f t v \<Rightarrow> s = ACTIVE \<and> f \<le> at \<and> (\<forall>e. t = Some e \<longrightarrow> at < e)
      | NO_ENTITLEMENT \<Rightarrow> False)"
| "gate_passes i at G_CONSENT \<longleftrightarrow>
     (case findCleared i of None \<Rightarrow> False
      | Some cl \<Rightarrow>
          (case processingBasis cl of
             DECLARED_BASIS b \<Rightarrow> True
           | UNRESOLVED_BASIS \<Rightarrow> False
           | CONSENT_BASIS p \<Rightarrow> gi_consent i = CONSENT_STATUS CS_ACTIVE True))"
| "gate_passes i at G_LICENCE \<longleftrightarrow>
     (case findCleared i of None \<Rightarrow> False
      | Some cl \<Rightarrow> requiredLicenceTypeRefs cl = []
          \<or> (\<exists>e ls. gi_licensing i = ENTITY e True ls
              \<and> (\<forall>t \<in> set (requiredLicenceTypeRefs cl).
                   \<exists>l \<in> set ls. licenceTypeRef l = t \<and> licence_satisfies at l)))"
| "gate_passes i at G_PROVIDER \<longleftrightarrow>
     (case findCleared i of None \<Rightarrow> False
      | Some cl \<Rightarrow> requiredProviderKinds cl = []
          \<or> (\<exists>ss. gi_providers i = STATUSES ss
              \<and> (\<forall>k \<in> set (requiredProviderKinds cl). map_of ss k = Some CONNECTED)))"

lemma consentGate_None [gate_simps]:
  "consentGate b c = None \<longleftrightarrow>
     (case b of DECLARED_BASIS x \<Rightarrow> True | UNRESOLVED_BASIS \<Rightarrow> False
      | CONSENT_BASIS p \<Rightarrow> c = CONSENT_STATUS CS_ACTIVE True)"
  by (cases "(b, c)" rule: consentGate.cases) (auto split: consent_state.splits)

lemma licence_loop_None:
  "licence_loop ls at refs = None \<longleftrightarrow>
     (\<forall>t \<in> set refs. \<exists>l \<in> set ls. licenceTypeRef l = t \<and> licence_satisfies at l)"
  by (induction refs) (auto simp: Let_def list_ex_iff)

lemma licenceGate_None [gate_simps]:
  "licenceGate req lic at = None \<longleftrightarrow>
     req = [] \<or> (\<exists>e ls. lic = ENTITY e True ls
       \<and> (\<forall>t \<in> set req. \<exists>l \<in> set ls. licenceTypeRef l = t \<and> licence_satisfies at l))"
  by (auto simp: licenceGate_def licence_loop_None split: licensing_facts.splits)

lemma find_map_of: "map_of ss k = map_option snd (List.find (\<lambda>s. fst s = k) ss)"
  by (induction ss) auto

lemma provider_loop_None:
  "provider_loop ss kinds = None \<longleftrightarrow> (\<forall>k \<in> set kinds. map_of ss k = Some CONNECTED)"
proof (induction kinds)
  case (Cons k ks)
  then show ?case
    by (auto simp: find_map_of split: option.splits) (metis provider_status.exhaust)+
qed simp

lemma providerGate_None [gate_simps]:
  "providerGate req pr = None \<longleftrightarrow>
     req = [] \<or> (\<exists>ss. pr = STATUSES ss \<and> (\<forall>k \<in> set req. map_of ss k = Some CONNECTED))"
  by (auto simp: providerGate_def provider_loop_None split: provider_facts.splits)

lemma isAllowingState_iff [gate_simps]: "isAllowingState s \<longleftrightarrow> s = AVAILABLE \<or> s = BETA"
  by (auto simp: isAllowingState_def ALLOWING_STATES_def)

lemma entitlementSatisfiesAt_iff [gate_simps]:
  "entitlementSatisfiesAt s f t at \<longleftrightarrow> s = ACTIVE \<and> f \<le> at \<and> (\<forall>e. t = Some e \<longrightarrow> at < e)"
  by (auto simp: entitlementSatisfiesAt_def split: option.splits)

fun first_failing :: "gate_inputs \<Rightarrow> millis \<Rightarrow> gate option" where
  "first_failing i at = List.find (\<lambda>g. \<not> gate_passes i at g) GATES"

fun gate_of :: "resolution \<Rightarrow> gate option" where
  "gate_of (ALLOWED c s p) = None"
| "gate_of (DENIED c g r p) = Some g"

section \<open>The registry's facts and the client projection\<close>

definition descriptorFactsFor :: "capability_descriptor \<Rightarrow> string \<Rightarrow> descriptor_facts" where
  "descriptorFactsFor d environment =
     \<lparr>implemented = (cd_implementation d = IMPLEMENTED),
      deployedInEnvironment = (map_of (cd_deployment d) environment = Some DEPLOYED),
      declaredScopeRefs = declaredJurisdictions d\<rparr>"

record exposure_facts =
  ef_hidden :: bool
  ef_providerPendingExplainable :: bool

definition clientExposureFactsFor :: "capability_descriptor \<Rightarrow> exposure_facts" where
  "clientExposureFactsFor d =
     \<lparr>ef_hidden = (clientExposure d = HIDDEN),
      ef_providerPendingExplainable = (providerPendingExplainable d = Some True)\<rparr>"

datatype client_entry =
    CE_AVAILABLE (ce_capability: string) availability_state
  | CE_UNAVAILABLE (ce_capability: string) (ce_reason: denial_reason)

fun toClientView :: "resolution list \<Rightarrow> (string \<Rightarrow> exposure_facts) \<Rightarrow> client_entry list" where
  "toClientView [] exposureFor = []"
| "toClientView (resolution # rest) exposureFor =
     (let exposure = exposureFor (res_capability resolution)
      in if ef_hidden exposure then toClientView rest exposureFor
         else (case resolution of
           ALLOWED c state p \<Rightarrow> CE_AVAILABLE c state # toClientView rest exposureFor
         | DENIED c g reason p \<Rightarrow>
             (case clientReasonFor reason (ef_providerPendingExplainable exposure) of
                None \<Rightarrow> toClientView rest exposureFor
              | Some r \<Rightarrow> CE_UNAVAILABLE c r # toClientView rest exposureFor)))"

section \<open>Lemmas on the engine\<close>

lemma findCleared_resolved:
  "gi_ceiling i = RESOLVED_CEILING s a v cs \<Longrightarrow>
     findCleared i = List.find (\<lambda>c. cf_capabilityId c = gi_capabilityId i) cs"
  by (simp add: findCleared_def)

lemma findCleared_id: "findCleared i = Some cl \<Longrightarrow> cf_capabilityId cl = gi_capabilityId i"
  by (auto simp: findCleared_def split: ceiling_facts.splits dest: find_Some_set)

lemma resolve_descriptor:
  "\<not> gate_passes i at G_DESCRIPTOR \<Longrightarrow>
     \<exists>r. resolveCapabilityGates i at = DENIED (gi_capabilityId i) G_DESCRIPTOR r (provenanceOf i at)"
  by (auto simp: resolveCapabilityGates_def Let_def)

lemma resolve_environment:
  "gate_passes i at G_DESCRIPTOR \<Longrightarrow> \<not> gate_passes i at G_ENVIRONMENT \<Longrightarrow>
     resolveCapabilityGates i at
       = DENIED (gi_capabilityId i) G_ENVIRONMENT DR_WRONG_ENVIRONMENT (provenanceOf i at)"
  by (auto simp: resolveCapabilityGates_def Let_def)

lemma resolve_jurisdiction:
  assumes "gate_passes i at G_DESCRIPTOR" "gate_passes i at G_ENVIRONMENT"
    and "\<not> gate_passes i at G_JURISDICTION"
  shows "\<exists>r. resolveCapabilityGates i at = DENIED (gi_capabilityId i) G_JURISDICTION r (provenanceOf i at)"
proof (cases "gi_ceiling i")
  case (RESOLVED_CEILING s a v cs)
  show ?thesis
    using assms RESOLVED_CEILING
    by (cases "List.find (\<lambda>c. cf_capabilityId c = gi_capabilityId i) cs")
      (auto simp: resolveCapabilityGates_def Let_def findCleared_resolved list_ex_iff)
qed (use assms in \<open>auto simp: resolveCapabilityGates_def Let_def\<close>)

text \<open>Past the first three gates, the rest of the function is a chain on the row's own facts.\<close>

definition after_ceiling :: "cleared_facts \<Rightarrow> gate_inputs \<Rightarrow> millis \<Rightarrow> resolution" where
  "after_ceiling cl i at =
      (case gi_availability i of
         NO_ROW elsewhere \<Rightarrow>
           DENIED (gi_capabilityId i) G_AVAILABILITY (DR_STATE DISABLED) (provenanceOf i at)
       | AROW rowId state rowVersion \<Rightarrow>
           if \<not> isAllowingState state
           then DENIED (gi_capabilityId i) G_AVAILABILITY (DR_STATE state) (provenanceOf i at)
           else (case gi_entitlement i of
             NO_ENTITLEMENT \<Rightarrow>
               DENIED (gi_capabilityId i) G_ENTITLEMENT DR_ENTITLEMENT_MISSING (provenanceOf i at)
           | EROW eid status from_ to_ eversion \<Rightarrow>
               if \<not> entitlementSatisfiesAt status from_ to_ at
               then DENIED (gi_capabilityId i) G_ENTITLEMENT
                 (if status = REVOKED then DR_ENTITLEMENT_MISSING else DR_ENTITLEMENT_EXPIRED)
                 (provenanceOf i at)
               else (case consentGate (processingBasis cl) (gi_consent i) of
                 Some r \<Rightarrow> DENIED (gi_capabilityId i) G_CONSENT r (provenanceOf i at)
               | None \<Rightarrow>
                   (case licenceGate (requiredLicenceTypeRefs cl) (gi_licensing i) at of
                      Some r \<Rightarrow> DENIED (gi_capabilityId i) G_LICENCE r (provenanceOf i at)
                    | None \<Rightarrow>
                        (case providerGate (requiredProviderKinds cl) (gi_providers i) of
                           Some r \<Rightarrow> DENIED (gi_capabilityId i) G_PROVIDER r (provenanceOf i at)
                         | None \<Rightarrow> ALLOWED (gi_capabilityId i) state (provenanceOf i at))))))"

lemma resolve_past_ceiling:
  assumes "gate_passes i at G_DESCRIPTOR" "gate_passes i at G_ENVIRONMENT"
    and "gate_passes i at G_JURISDICTION"
  obtains cl where "findCleared i = Some cl" "resolveCapabilityGates i at = after_ceiling cl i at"
proof -
  obtain s a v cs where c: "gi_ceiling i = RESOLVED_CEILING s a v cs"
    using assms(3) by (cases "gi_ceiling i") auto
  then obtain cl where cl: "List.find (\<lambda>c. cf_capabilityId c = gi_capabilityId i) cs = Some cl"
    using assms(3) by (auto simp: findCleared_resolved split: option.splits)
  have d: "s \<in> set (declaredScopeRefs (gi_descriptor i))" "requiresVerifiedAssignment cl \<longrightarrow> a"
    using assms(3) c cl by (auto simp: findCleared_resolved)
  have e: "(requiresVerifiedAssignment cl \<and> \<not> a) = False"
    "list_ex (\<lambda>ref. ref = s) (declaredScopeRefs (gi_descriptor i)) = True"
    using d by (auto simp: list_ex_iff)
  have "resolveCapabilityGates i at = after_ceiling cl i at"
    using assms(1,2) unfolding resolveCapabilityGates_def after_ceiling_def Let_def c
    by (simp add: cl e)
  then show ?thesis using c cl by (intro that [of cl]) (simp add: findCleared_resolved)
qed

lemma first_failing_unfold:
  "first_failing i at =
     (if \<not> gate_passes i at G_DESCRIPTOR then Some G_DESCRIPTOR
      else if \<not> gate_passes i at G_ENVIRONMENT then Some G_ENVIRONMENT
      else if \<not> gate_passes i at G_JURISDICTION then Some G_JURISDICTION
      else if \<not> gate_passes i at G_AVAILABILITY then Some G_AVAILABILITY
      else if \<not> gate_passes i at G_ENTITLEMENT then Some G_ENTITLEMENT
      else if \<not> gate_passes i at G_CONSENT then Some G_CONSENT
      else if \<not> gate_passes i at G_LICENCE then Some G_LICENCE
      else if \<not> gate_passes i at G_PROVIDER then Some G_PROVIDER else None)"
  unfolding first_failing.simps GATES_def by (simp only: List.find.simps if_not_P not_not)

lemma gates_refine:
  "gate_of (resolveCapabilityGates i at) = first_failing i at"
proof (cases "gate_passes i at G_DESCRIPTOR \<and> gate_passes i at G_ENVIRONMENT
    \<and> gate_passes i at G_JURISDICTION")
  case True
  then obtain cl where f: "findCleared i = Some cl"
    and r: "resolveCapabilityGates i at = after_ceiling cl i at"
    by (elim conjE resolve_past_ceiling)
  have gates: "gate_passes i at G_CONSENT \<longleftrightarrow> consentGate (processingBasis cl) (gi_consent i) = None"
    "gate_passes i at G_LICENCE \<longleftrightarrow> licenceGate (requiredLicenceTypeRefs cl) (gi_licensing i) at = None"
    "gate_passes i at G_PROVIDER \<longleftrightarrow> providerGate (requiredProviderKinds cl) (gi_providers i) = None"
    using f by (simp_all add: gate_simps)
  have "gate_passes i at G_DESCRIPTOR" "gate_passes i at G_ENVIRONMENT" "gate_passes i at G_JURISDICTION"
    using True by blast+
  then show ?thesis
    unfolding first_failing_unfold r after_ceiling_def
    by (simp add: gates isAllowingState_iff entitlementSatisfiesAt_iff
        del: gate_passes.simps(1,2,3,6,7,8)
        split: availability_facts.split entitlement_facts.split option.split) blast
next
  case False
  then consider "\<not> gate_passes i at G_DESCRIPTOR"
    | "gate_passes i at G_DESCRIPTOR" "\<not> gate_passes i at G_ENVIRONMENT"
    | "gate_passes i at G_DESCRIPTOR" "gate_passes i at G_ENVIRONMENT" "\<not> gate_passes i at G_JURISDICTION"
    by blast
  then show ?thesis
  proof cases
    case 1 then show ?thesis
      using resolve_descriptor [OF 1] unfolding first_failing_unfold by auto
  next
    case 2 then show ?thesis
      using resolve_environment [OF 2] unfolding first_failing_unfold by auto
  next
    case 3
    obtain r where "resolveCapabilityGates i at
        = DENIED (gi_capabilityId i) G_JURISDICTION r (provenanceOf i at)"
      using resolve_jurisdiction [OF 3] by blast
    then show ?thesis using 3 unfolding first_failing_unfold by (simp del: gate_passes.simps)
  qed
qed

lemma resolve_pins:
  "case resolveCapabilityGates i at of
     ALLOWED c s p \<Rightarrow> c = gi_capabilityId i \<and> (s = AVAILABLE \<or> s = BETA) \<and> p = provenanceOf i at
   | DENIED c g r p \<Rightarrow> c = gi_capabilityId i \<and> p = provenanceOf i at"
proof (cases "gate_passes i at G_DESCRIPTOR \<and> gate_passes i at G_ENVIRONMENT
    \<and> gate_passes i at G_JURISDICTION")
  case True
  then obtain cl where r: "resolveCapabilityGates i at = after_ceiling cl i at"
    by (elim conjE resolve_past_ceiling)
  show ?thesis
    unfolding r after_ceiling_def
    by (auto simp: isAllowingState_iff split: availability_facts.split entitlement_facts.split option.split)
next
  case False
  then have "\<exists>g r. resolveCapabilityGates i at = DENIED (gi_capabilityId i) g r (provenanceOf i at)"
    using resolve_descriptor [of i at] resolve_environment [of i at] resolve_jurisdiction [of i at]
    by blast
  then show ?thesis by fastforce
qed

lemma resolution_capability [simp]: "res_capability (resolveCapabilityGates i at) = gi_capabilityId i"
  using resolve_pins [of i at] by (auto split: resolution.splits)

text \<open>Gates one to three read neither the entitlement nor the runtime facts.\<close>

definition with_runtime ::
  "gate_inputs \<Rightarrow> entitlement_facts \<Rightarrow> consent_facts \<Rightarrow> licensing_facts \<Rightarrow> provider_facts \<Rightarrow> gate_inputs" where
  "with_runtime i e c l p =
     i\<lparr>gi_entitlement := e, gi_consent := c, gi_licensing := l, gi_providers := p\<rparr>"

lemma findCleared_runtime [simp]: "findCleared (with_runtime i e c l p) = findCleared i"
  by (simp add: findCleared_def with_runtime_def split: ceiling_facts.split)

lemma ceiling_gates_runtime:
  "g \<in> {G_DESCRIPTOR, G_ENVIRONMENT, G_JURISDICTION, G_AVAILABILITY} \<Longrightarrow>
     gate_passes (with_runtime i e c l p) at g = gate_passes i at g"
proof -
  have f: "findCleared (with_runtime i e c l p) = findCleared i" by simp
  show "g \<in> {G_DESCRIPTOR, G_ENVIRONMENT, G_JURISDICTION, G_AVAILABILITY} \<Longrightarrow> ?thesis"
    using f by (auto simp: with_runtime_def split: ceiling_facts.splits)
qed

lemma ceiling_denial_runtime:
  assumes "resolveCapabilityGates i at = DENIED c g r p"
    and "g \<in> {G_DESCRIPTOR, G_ENVIRONMENT, G_JURISDICTION, G_AVAILABILITY}"
  shows "\<exists>p'. resolveCapabilityGates (with_runtime i e cf l pf) at = DENIED c g r p'"
proof -
  let ?j = "with_runtime i e cf l pf"
  have ff: "first_failing i at = Some g" using gates_refine [of i at] assms(1) by simp
  have cid: "c = gi_capabilityId i" using resolve_pins [of i at] assms(1) by simp
  show ?thesis
  proof (cases "gate_passes i at G_DESCRIPTOR \<and> gate_passes i at G_ENVIRONMENT
      \<and> gate_passes i at G_JURISDICTION")
    case True
    then obtain cl where fi: "findCleared i = Some cl"
      and ri: "resolveCapabilityGates i at = after_ceiling cl i at"
      by (elim conjE resolve_past_ceiling)
    have pj: "gate_passes ?j at G_DESCRIPTOR" "gate_passes ?j at G_ENVIRONMENT"
      "gate_passes ?j at G_JURISDICTION"
      using True by (simp_all add: ceiling_gates_runtime del: gate_passes.simps)
    obtain cl' where fj: "findCleared ?j = Some cl'"
      and rj: "resolveCapabilityGates ?j at = after_ceiling cl' ?j at"
      using pj by (elim resolve_past_ceiling)
    have "cl' = cl" using fi fj by simp
    have av: "\<not> gate_passes i at G_AVAILABILITY"
      using ff True assms(2) unfolding first_failing_unfold by (auto split: if_splits simp del: gate_passes.simps)
    then show ?thesis
      using assms(1) ri rj cid
      by (auto simp: after_ceiling_def with_runtime_def isAllowingState_iff
          split: availability_facts.splits)
  next
    case False
    then show ?thesis
      using assms(1) unfolding resolveCapabilityGates_def with_runtime_def
      by (auto simp: Let_def findCleared_def list_ex_iff
          split: if_splits ceiling_facts.splits option.splits)
  qed
qed

section \<open>Properties\<close>

text \<open>
  C1: the gate engine computes the specification.  A resolution is denied exactly at the first
  gate of the declared order whose condition fails, it is allowed exactly when all eight conditions
  hold, it carries the capability asked about and the provenance of the facts that were read, and an
  allowed capability is AVAILABLE or BETA.
\<close>

theorem gates_compute_first_failing:
  "gate_of (resolveCapabilityGates i at) = List.find (\<lambda>g. \<not> gate_passes i at g) GATES
   \<and> (gate_of (resolveCapabilityGates i at) = None \<longleftrightarrow> (\<forall>g. gate_passes i at g))
   \<and> (case resolveCapabilityGates i at of
        ALLOWED c s p \<Rightarrow> c = gi_capabilityId i \<and> (s = AVAILABLE \<or> s = BETA) \<and> p = provenanceOf i at
      | DENIED c g r p \<Rightarrow> c = gi_capabilityId i \<and> p = provenanceOf i at)"
proof -
  have all: "g \<in> set GATES" for g by (cases g) (simp_all add: GATES_def)
  have "List.find (\<lambda>g. \<not> gate_passes i at g) GATES = None \<longleftrightarrow> (\<forall>g. gate_passes i at g)"
    using all by (auto simp: find_None_iff simp del: gate_passes.simps)
  then show ?thesis using gates_refine [of i at] resolve_pins [of i at] by simp
qed

text \<open>
  the ceiling only restricts.  When a capability is denied at the descriptor, environment,
  jurisdiction or availability gate, no entitlement, consent, licensing or provider fact can change
  that: the same capability is denied at the same gate for the same reason.
\<close>

theorem ceiling_denials_are_final:
  assumes "resolveCapabilityGates i at = DENIED c g r p"
    and "g \<in> {G_DESCRIPTOR, G_ENVIRONMENT, G_JURISDICTION, G_AVAILABILITY}"
  shows "\<exists>p'. resolveCapabilityGates
      (i\<lparr>gi_entitlement := e, gi_consent := cf, gi_licensing := l, gi_providers := pf\<rparr>) at
        = DENIED c g r p'"
  using ceiling_denial_runtime [OF assms] unfolding with_runtime_def .

definition open_ceiling_inputs :: gate_inputs where
  "open_ceiling_inputs = \<lparr>gi_capabilityId = ''GOALS'', gi_environment = ''dev'',
     gi_descriptor = \<lparr>implemented = True, deployedInEnvironment = True, declaredScopeRefs = [''qa'']\<rparr>,
     gi_ceiling = RESOLVED_CEILING ''qa'' True ''qa/v1''
       [\<lparr>cf_capabilityId = ''GOALS'', cf_resolutionStrategyRef = ''AT_EVALUATION'',
         requiresVerifiedAssignment = True, processingBasis = CONSENT_BASIS ''goals'',
         requiredLicenceTypeRefs = [''retail''], requiredProviderKinds = [''bank'']\<rparr>],
     gi_availability = AROW ''row'' DISABLED 3,
     gi_entitlement = NO_ENTITLEMENT,
     gi_consent = CONSENT_STATUS CS_ACTIVE True,
     gi_licensing = ENTITY ''e1'' True
       [\<lparr>licenceTypeRef = ''retail'', lf_status = EVIDENCED, effectiveDate = Some 0, expiryDate = None\<rparr>],
     gi_providers = STATUSES [(''bank'', CONNECTED)]\<rparr>"

theorem ceiling_denials_are_final_witness:
  "\<exists>p'. resolveCapabilityGates
      (open_ceiling_inputs\<lparr>gi_entitlement := EROW ''ent'' ACTIVE 0 None 1,
         gi_consent := CONSENT_STATUS CS_ACTIVE True, gi_licensing := NO_EFFECTIVE_ENTITY,
         gi_providers := PROVIDERS_NOT_EVALUATED\<rparr>) 10
        = DENIED ''GOALS'' G_AVAILABILITY (DR_STATE DISABLED) p'"
proof (rule ceiling_denials_are_final [where p = "provenanceOf open_ceiling_inputs 10"])
  show "resolveCapabilityGates open_ceiling_inputs 10
      = DENIED ''GOALS'' G_AVAILABILITY (DR_STATE DISABLED) (provenanceOf open_ceiling_inputs 10)"
    by code_simp
qed simp

lemma production_unimplemented:
  "map_of CAPABILITY_REGISTRY cid = Some d \<Longrightarrow> cd_implementation d = NOT_IMPLEMENTED"
  by (auto simp: CAPABILITY_REGISTRY_def descriptor_def split: if_splits)

lemma unimplemented_denied:
  "\<not> implemented (gi_descriptor i) \<Longrightarrow>
     resolveCapabilityGates i at
       = DENIED (gi_capabilityId i) G_DESCRIPTOR DR_NOT_IMPLEMENTED (provenanceOf i at)"
  by (simp add: resolveCapabilityGates_def Let_def)

lemma toClientView_member:
  "e \<in> set (toClientView rs exposureFor) \<longleftrightarrow>
     (\<exists>r \<in> set rs. \<not> ef_hidden (exposureFor (res_capability r))
        \<and> ((\<exists>c s p. r = ALLOWED c s p \<and> e = CE_AVAILABLE c s)
           \<or> (\<exists>c g reason p shown. r = DENIED c g reason p
                \<and> clientReasonFor reason (ef_providerPendingExplainable (exposureFor c)) = Some shown
                \<and> e = CE_UNAVAILABLE c shown)))"
  by (induction rs) (auto simp: Let_def split: resolution.splits option.splits)

lemma clientReasonFor_Some:
  "clientReasonFor reason b = Some r \<longleftrightarrow>
     r = reason \<and> (reason \<in> set CLIENT_SURFACEABLE_REASONS \<or> reason = DR_STATE PENDING_PROVIDER \<and> b)"
  by (auto simp: clientReasonFor_def CLIENT_SURFACEABLE_REASONS_def)

lemma production_facts_denied:
  "map_of CAPABILITY_REGISTRY (gi_capabilityId i) = Some d \<Longrightarrow> gi_descriptor i = descriptorFactsFor d env \<Longrightarrow>
     resolveCapabilityGates i at
       = DENIED (gi_capabilityId i) G_DESCRIPTOR DR_NOT_IMPLEMENTED (provenanceOf i at)"
  using production_unimplemented by (intro unimplemented_denied) (simp add: descriptorFactsFor_def)

text \<open>
  the client view discloses nothing hidden.  Every entry comes from a resolution of a capability
  whose descriptor is not hidden; an available entry from an allowed one with the same state; an
  unavailable entry carries the denial's own reason, which is one of the four surfaceable ones or
  the explainable PENDING_PROVIDER and never a mandated hidden reason.  Conversely an allowed,
  unhidden capability is always shown.
\<close>

theorem client_view_discloses_nothing_hidden:
  "(\<forall>e \<in> set (toClientView rs exposureFor).
      \<not> ef_hidden (exposureFor (ce_capability e))
      \<and> (case e of
           CE_AVAILABLE c s \<Rightarrow> \<exists>p. ALLOWED c s p \<in> set rs
         | CE_UNAVAILABLE c r \<Rightarrow>
             (\<exists>g p. DENIED c g r p \<in> set rs)
             \<and> r \<notin> set HIDDEN_DENIAL_REASONS
             \<and> (r \<in> set CLIENT_SURFACEABLE_REASONS
                \<or> r = DR_STATE PENDING_PROVIDER \<and> ef_providerPendingExplainable (exposureFor c))))
   \<and> (\<forall>c s p. ALLOWED c s p \<in> set rs \<longrightarrow> \<not> ef_hidden (exposureFor c)
        \<longrightarrow> CE_AVAILABLE c s \<in> set (toClientView rs exposureFor))"
proof (intro conjI ballI allI impI)
  fix e assume e: "e \<in> set (toClientView rs exposureFor)"
  then show "\<not> ef_hidden (exposureFor (ce_capability e))"
    by (auto simp: toClientView_member)
  show "case e of
           CE_AVAILABLE c s \<Rightarrow> \<exists>p. ALLOWED c s p \<in> set rs
         | CE_UNAVAILABLE c r \<Rightarrow>
             (\<exists>g p. DENIED c g r p \<in> set rs)
             \<and> r \<notin> set HIDDEN_DENIAL_REASONS
             \<and> (r \<in> set CLIENT_SURFACEABLE_REASONS
                \<or> r = DR_STATE PENDING_PROVIDER \<and> ef_providerPendingExplainable (exposureFor c))"
  proof -
    consider c s p where "ALLOWED c s p \<in> set rs" "e = CE_AVAILABLE c s"
      | c g r p where "DENIED c g r p \<in> set rs" "e = CE_UNAVAILABLE c r"
        "r \<in> set CLIENT_SURFACEABLE_REASONS
         \<or> r = DR_STATE PENDING_PROVIDER \<and> ef_providerPendingExplainable (exposureFor c)"
      using e by (auto simp: toClientView_member clientReasonFor_Some)
    then show ?thesis
    proof cases
      case 2
      then have "r \<notin> set HIDDEN_DENIAL_REASONS"
        by (auto simp: HIDDEN_DENIAL_REASONS_def CLIENT_SURFACEABLE_REASONS_def)
      then show ?thesis using 2 by auto
    qed auto
  qed
next
  fix c s p assume "ALLOWED c s p \<in> set rs" "\<not> ef_hidden (exposureFor c)"
  then show "CE_AVAILABLE c s \<in> set (toClientView rs exposureFor)"
    by (force simp: toClientView_member)
qed

theorem client_view_discloses_nothing_hidden_witness:
  "CE_AVAILABLE ''GOALS'' BETA \<in> set (toClientView
      [ALLOWED ''GOALS'' BETA (provenanceOf open_ceiling_inputs 1),
       DENIED ''ZAKAT'' G_DESCRIPTOR DR_NOT_IMPLEMENTED (provenanceOf open_ceiling_inputs 1)]
      (\<lambda>c. clientExposureFactsFor (descriptor c)))"
  using client_view_discloses_nothing_hidden
    [of "[ALLOWED ''GOALS'' BETA (provenanceOf open_ceiling_inputs 1),
       DENIED ''ZAKAT'' G_DESCRIPTOR DR_NOT_IMPLEMENTED (provenanceOf open_ceiling_inputs 1)]"
      "\<lambda>c. clientExposureFactsFor (descriptor c)"]
  by (simp add: clientExposureFactsFor_def descriptor_def)

end
