(* ===== verification/Table_Store.thy ===== *)
theory Table_Store
  imports Karar_Prelude
begin

text \<open>
  What the persistence adapters under \<open>infrastructure/persistence\<close> share: a table is a list of rows,
  and the four statements the repositories issue (\<open>findFirst\<close> and \<open>findMany\<close> with a \<open>where\<close> and an
  \<open>orderBy\<close>, \<open>create\<close> under a unique constraint, \<open>updateMany\<close> with its row count) are functions on it.
  The clauses are the repositories' own; they appear as the predicates and row functions
  the repositories of the later theories pass in.  Any statement may also raise: the use cases take
  a predicate saying which of their calls do.

  The locale \<open>versioned_store\<close> is the contract of an optimistic row store: a write names the version
  it read, succeeds only on that version, and advances it by one.  Each repository with a version
  column interprets it; the lemmas of the locale say that no update is lost.
\<close>

section \<open>Statements\<close>

definition find_many :: "('r \<Rightarrow> bool) \<Rightarrow> ('r \<Rightarrow> 'r \<Rightarrow> int) \<Rightarrow> 'r list \<Rightarrow> 'r list" where
  "find_many p order t = js_sort order (filter p t)"

definition find_first :: "('r \<Rightarrow> bool) \<Rightarrow> ('r \<Rightarrow> 'r \<Rightarrow> int) \<Rightarrow> 'r list \<Rightarrow> 'r option" where
  "find_first p order t = (case find_many p order t of [] \<Rightarrow> None | r # rs \<Rightarrow> Some r)"

text \<open>The order of a statement without \<open>orderBy\<close>: the stored order.\<close>

definition stored_order :: "'r \<Rightarrow> 'r \<Rightarrow> int" where
  "stored_order a b = 0"

definition update_many :: "('r \<Rightarrow> bool) \<Rightarrow> ('r \<Rightarrow> 'r) \<Rightarrow> 'r list \<Rightarrow> nat \<times> 'r list" where
  "update_many p f t = (length (filter p t), map (\<lambda>r. if p r then f r else r) t)"

definition create_row :: "('r \<Rightarrow> 'r \<Rightarrow> bool) \<Rightarrow> 'r \<Rightarrow> 'r list \<Rightarrow> 'r list option" where
  "create_row conflicts r t = (if list_ex (conflicts r) t then None else Some (t @ [r]))"

text \<open>Ascending order of texts, by character code.\<close>

fun string_cmp :: "string \<Rightarrow> string \<Rightarrow> int" where
  "string_cmp [] [] = 0"
| "string_cmp [] (y # ys) = -1"
| "string_cmp (x # xs) [] = 1"
| "string_cmp (x # xs) (y # ys) =
     (if (of_char x :: nat) < of_char y then -1
      else if (of_char y :: nat) < of_char x then 1 else string_cmp xs ys)"

definition desc_latest :: "('r \<Rightarrow> millis) \<Rightarrow> ('r \<Rightarrow> string) \<Rightarrow> 'r \<Rightarrow> 'r \<Rightarrow> int" where
  "desc_latest time_of id_of a b =
     (if time_of a > time_of b then -1 else if time_of a < time_of b then 1
      else string_cmp (id_of b) (id_of a))"

section \<open>Lemmas\<close>

lemma find_many_stored [simp]: "find_many p stored_order t = filter p t"
proof -
  have "js_sort stored_order xs = xs" for xs :: "'a list"
  proof (induction xs)
    case (Cons x xs) then show ?case by (cases xs) (simp_all add: stored_order_def)
  qed simp
  then show ?thesis by (simp add: find_many_def)
qed

lemma find_many_set [simp]: "set (find_many p order t) = {r \<in> set t. p r}"
  by (auto simp: find_many_def)

lemma find_first_Some: "find_first p order t = Some r \<Longrightarrow> r \<in> set t \<and> p r"
proof -
  assume "find_first p order t = Some r"
  then obtain rs where "find_many p order t = r # rs" by (auto simp: find_first_def split: list.splits)
  then have "r \<in> set (find_many p order t)" by simp
  then show "r \<in> set t \<and> p r" by simp
qed

lemma find_first_None: "find_first p order t = None \<longleftrightarrow> (\<forall>r \<in> set t. \<not> p r)"
proof -
  have "find_first p order t = None \<longleftrightarrow> set (find_many p order t) = {}"
    by (cases "find_many p order t") (auto simp: find_first_def)
  then show ?thesis by auto
qed

lemma find_first_stored: "find_first p stored_order t = List.find p t"
  by (induction t) (simp_all add: find_first_def)

lemma find_first_unique:
  assumes "r \<in> set t" "p r" "\<And>x. x \<in> set t \<Longrightarrow> p x \<Longrightarrow> x = r"
  shows "find_first p order t = Some r"
proof (cases "find_first p order t")
  case None
  then show ?thesis using assms(1,2) unfolding find_first_None by blast
next
  case (Some x)
  then show ?thesis using find_first_Some [OF Some] assms(3) by blast
qed

lemma string_cmp_refl [simp]: "string_cmp s s = 0"
  by (induction s) auto

lemma update_many_count:
  "distinct (map key t) \<Longrightarrow> (\<And>r. p r \<Longrightarrow> key r = k) \<Longrightarrow> fst (update_many p f t) \<le> 1"
proof (induction t)
  case (Cons x xs)
  have "filter p xs = []" if "p x"
    using Cons.prems that by (auto simp: filter_empty_conv)
  then show ?case using Cons by (auto simp: update_many_def)
qed (simp add: update_many_def)

lemma update_many_none: "fst (update_many p f t) = 0 \<Longrightarrow> snd (update_many p f t) = t"
  by (auto simp: update_many_def filter_empty_conv map_idI)

lemma update_many_keys:
  "(\<And>r. key (f r) = key r) \<Longrightarrow> map key (snd (update_many p f t)) = map key t"
  by (auto simp: update_many_def)

section \<open>Optimistic row stores\<close>

locale versioned_store =
  fixes version_of :: "'i \<Rightarrow> 's \<Rightarrow> int option"
    and update :: "'i \<Rightarrow> int \<Rightarrow> 'c \<Rightarrow> 's \<Rightarrow> bool \<times> 's"
    and wf :: "'s \<Rightarrow> bool"
  assumes accepts: "wf s \<Longrightarrow> fst (update i v c s) \<longleftrightarrow> version_of i s = Some v"
    and advances: "wf s \<Longrightarrow> fst (update i v c s) \<Longrightarrow> version_of i (snd (update i v c s)) = Some (v + 1)"
    and refuses: "wf s \<Longrightarrow> \<not> fst (update i v c s) \<Longrightarrow> snd (update i v c s) = s"
    and keeps: "wf s \<Longrightarrow> wf (snd (update i v c s))"
begin

text \<open>Of two writers that read the same version at most one succeeds.\<close>

lemma second_writer_loses:
  assumes "wf s" "update i v c s = (True, s')"
  shows "update i v d s' = (False, s')"
proof -
  have w: "wf s'" using keeps [OF assms(1), of i v c] assms(2) by simp
  have "version_of i s' = Some (v + 1)" using advances [OF assms(1), of i v c] assms(2) by simp
  then have "\<not> fst (update i v d s')" using accepts [OF w, of i v d] by simp
  then show ?thesis using refuses [OF w, of i v d] by (metis prod.collapse)
qed

text \<open>Over any run of writes to one row the version advances by the number of accepted writes.\<close>

fun run_updates :: "'i \<Rightarrow> (int \<times> 'c) list \<Rightarrow> 's \<Rightarrow> nat \<times> 's" where
  "run_updates i [] s = (0, s)"
| "run_updates i ((v, c) # ws) s =
     (let (ok, s') = update i v c s; (n, s'') = run_updates i ws s'
      in ((if ok then Suc n else n), s''))"

lemma run_updates_version:
  "wf s \<Longrightarrow> version_of i s = Some v0 \<Longrightarrow> run_updates i ws s = (n, s') \<Longrightarrow>
     version_of i s' = Some (v0 + int n)"
proof (induction ws arbitrary: s v0 n)
  case (Cons w ws)
  obtain v c where w: "w = (v, c)" by (cases w)
  obtain ok s1 where u: "update i v c s = (ok, s1)" by (cases "update i v c s")
  obtain m s2 where r: "run_updates i ws s1 = (m, s2)" by (cases "run_updates i ws s1")
  have wf1: "wf s1" using keeps [OF Cons.prems(1), of i v c] u by simp
  show ?case
  proof (cases ok)
    case True
    then have "v0 = v" using accepts [OF Cons.prems(1), of i v c] u Cons.prems(2) by simp
    moreover have "version_of i s1 = Some (v + 1)"
      using advances [OF Cons.prems(1), of i v c] u True by simp
    ultimately show ?thesis
      using Cons.IH [of s1 "v0 + 1" m] wf1 r Cons.prems(3) True by (auto simp: w u r)
  next
    case False
    then have "s1 = s" using refuses [OF Cons.prems(1), of i v c] u by simp
    then show ?thesis
      using Cons.IH [of s1 v0 m] wf1 r Cons.prems(2,3) False by (auto simp: w u r)
  qed
qed auto

end

end
