(* ===== verification/Capability_Store.thy ===== *)
theory Capability_Store
  imports Capability_Gates Table_Store Wire_Format
begin

text \<open>
  The stored side of the capability module: the rows and the two repositories
  (\<open>infrastructure/persistence/prisma-availability-repository.ts\<close> and
  \<open>prisma-entitlement-repository.ts\<close>), the audit trail (\<open>application/audit-trail.ts\<close>), and the write
  use cases \<open>SetCapabilityAvailability\<close>, \<open>GrantTenantCapabilityEntitlement\<close> and
  \<open>RevokeTenantCapabilityEntitlement\<close>.

  A use case is a function of the world (the two tables and the trail) returning an outcome and the
  new world.  The policy service is the argument \<open>authorize\<close>, the minted id is an argument, and
  \<open>fails\<close> says which of the calls raise.  A thrown InvalidCapabilityInputError is the error value
  \<open>CAP_INVALID_INPUT\<close>.  The environment a trail is constructed with is the same on every entry and is
  left out of the entries.
\<close>

section \<open>Rows and records\<close>

record availability_row =
  ar_id :: string
  ar_environment :: string
  ar_jurisdictionRef :: "string option"
  ar_capabilityId :: string
  ar_state :: string
  ar_reason :: string
  ar_actorRef :: string
  ar_version :: int
  ar_updatedAt :: millis

record availability_record =
  cr_id :: string
  cr_environment :: string
  cr_jurisdictionRef :: "string option"
  cr_capabilityId :: string
  cr_state :: availability_state
  cr_reason :: string
  cr_actorRef :: string
  cr_version :: int

record entitlement_row =
  er_id :: string
  er_tenantId :: string
  er_capabilityId :: string
  er_status :: string
  er_sourceRef :: string
  er_reason :: string
  er_actorRef :: string
  er_effectiveFrom :: millis
  er_effectiveTo :: "millis option"
  er_version :: int

record entitlement =
  en_id :: string
  en_tenantId :: string
  en_capabilityId :: string
  en_status :: entitlement_status
  en_sourceRef :: string
  en_reason :: string
  en_actorRef :: string
  en_effectiveFrom :: millis
  en_effectiveTo :: "millis option"
  en_version :: int

definition parseState :: "string \<Rightarrow> availability_state" where
  "parseState v = (case map_of AVAILABILITY_STATES v of None \<Rightarrow> DISABLED | Some s \<Rightarrow> s)"

definition ENTITLEMENT_STATUSES :: "(string \<times> entitlement_status) list" where
  "ENTITLEMENT_STATUSES = [(''ACTIVE'', ACTIVE), (''REVOKED'', REVOKED), (''EXPIRED'', EXPIRED)]"

fun status_text :: "entitlement_status \<Rightarrow> string" where
  "status_text ACTIVE = ''ACTIVE''"
| "status_text REVOKED = ''REVOKED''"
| "status_text EXPIRED = ''EXPIRED''"

definition parseStatus :: "string \<Rightarrow> entitlement_status" where
  "parseStatus v = (case map_of ENTITLEMENT_STATUSES v of None \<Rightarrow> REVOKED | Some s \<Rightarrow> s)"

lemma parseState_text [simp]: "parseState (state_text s) = s"
  by (cases s) (simp_all add: parseState_def AVAILABILITY_STATES_def)

lemma parseStatus_text [simp]: "parseStatus (status_text s) = s"
  by (cases s) (simp_all add: parseStatus_def ENTITLEMENT_STATUSES_def)

definition toRecord :: "availability_row \<Rightarrow> availability_record" where
  "toRecord row = \<lparr>cr_id = ar_id row, cr_environment = ar_environment row,
     cr_jurisdictionRef = ar_jurisdictionRef row, cr_capabilityId = ar_capabilityId row,
     cr_state = parseState (ar_state row), cr_reason = ar_reason row,
     cr_actorRef = ar_actorRef row, cr_version = ar_version row\<rparr>"

definition toEntitlement :: "entitlement_row \<Rightarrow> entitlement" where
  "toEntitlement row = \<lparr>en_id = er_id row, en_tenantId = er_tenantId row,
     en_capabilityId = er_capabilityId row, en_status = parseStatus (er_status row),
     en_sourceRef = er_sourceRef row, en_reason = er_reason row, en_actorRef = er_actorRef row,
     en_effectiveFrom = er_effectiveFrom row, en_effectiveTo = er_effectiveTo row,
     en_version = er_version row\<rparr>"

section \<open>The availability repository\<close>

definition availability_order :: "availability_row \<Rightarrow> availability_row \<Rightarrow> int" where
  "availability_order = desc_latest ar_updatedAt ar_id"

definition availability_factsFor ::
  "string \<Rightarrow> string option \<Rightarrow> string \<Rightarrow> availability_row list \<Rightarrow> availability_facts" where
  "availability_factsFor environment scope capabilityId table =
     (let scopes = (case scope of None \<Rightarrow> [None] | Some s \<Rightarrow> [Some s, None]);
          rows = find_many (\<lambda>r. ar_capabilityId r = capabilityId \<and> ar_environment r = environment
                   \<and> list_ex (\<lambda>s. ar_jurisdictionRef r = s) scopes) availability_order table;
          effective = (case List.find (\<lambda>r. ar_jurisdictionRef r \<noteq> None) rows of
                         Some r \<Rightarrow> Some r
                       | None \<Rightarrow> List.find (\<lambda>_. True) rows)
      in case effective of
           Some r \<Rightarrow> AROW (ar_id r) (parseState (ar_state r)) (ar_version r)
         | None \<Rightarrow> NO_ROW (length (filter (\<lambda>r. ar_capabilityId r = capabilityId
                      \<and> ar_environment r \<noteq> environment) table) > 0))"

definition availability_findExact ::
  "string \<Rightarrow> string option \<Rightarrow> string \<Rightarrow> availability_row list \<Rightarrow> availability_record option" where
  "availability_findExact environment scope capabilityId table =
     map_option toRecord (find_first (\<lambda>r. ar_environment r = environment
       \<and> ar_capabilityId r = capabilityId \<and> ar_jurisdictionRef r = scope) availability_order table)"

text \<open>
  The constraints of migration 0076: the primary key, and UNIQUE (environment, jurisdiction_ref,
  capability_id), which in SQL does not compare rows whose jurisdiction_ref is NULL.
\<close>

definition availability_conflicts :: "availability_row \<Rightarrow> availability_row \<Rightarrow> bool" where
  "availability_conflicts a b \<longleftrightarrow>
     ar_id a = ar_id b
     \<or> (ar_environment a = ar_environment b \<and> ar_jurisdictionRef a = ar_jurisdictionRef b
        \<and> ar_jurisdictionRef a \<noteq> None \<and> ar_capabilityId a = ar_capabilityId b)"

definition availability_insert ::
  "availability_record \<Rightarrow> millis \<Rightarrow> availability_row list \<Rightarrow> availability_row list option" where
  "availability_insert r at table = create_row availability_conflicts
     \<lparr>ar_id = cr_id r, ar_environment = cr_environment r, ar_jurisdictionRef = cr_jurisdictionRef r,
      ar_capabilityId = cr_capabilityId r, ar_state = state_text (cr_state r), ar_reason = cr_reason r,
      ar_actorRef = cr_actorRef r, ar_version = cr_version r, ar_updatedAt = at\<rparr> table"

definition availability_updateState ::
  "string \<Rightarrow> int \<Rightarrow> availability_state \<times> string \<times> string \<times> millis
     \<Rightarrow> availability_row list \<Rightarrow> bool \<times> availability_row list" where
  "availability_updateState i expectedVersion change table =
     (let (state, reason, actorRef, at) = change;
          (count, table') = update_many (\<lambda>r. ar_id r = i \<and> ar_version r = expectedVersion)
            (\<lambda>r. r\<lparr>ar_state := state_text state, ar_reason := reason, ar_actorRef := actorRef,
                  ar_version := expectedVersion + 1, ar_updatedAt := at\<rparr>) table
      in (count = 1, table'))"

section \<open>The entitlement repository\<close>

definition entitlement_findByCapability ::
  "string \<Rightarrow> string \<Rightarrow> entitlement_row list \<Rightarrow> entitlement option" where
  "entitlement_findByCapability tenantId capabilityId table =
     map_option toEntitlement (find_first
       (\<lambda>r. er_tenantId r = tenantId \<and> er_capabilityId r = capabilityId) stored_order table)"

definition entitlement_factsFor ::
  "string \<Rightarrow> string \<Rightarrow> entitlement_row list \<Rightarrow> entitlement_facts" where
  "entitlement_factsFor tenantId capabilityId table =
     (case entitlement_findByCapability tenantId capabilityId table of
        None \<Rightarrow> NO_ENTITLEMENT
      | Some e \<Rightarrow> EROW (en_id e) (en_status e) (en_effectiveFrom e) (en_effectiveTo e) (en_version e))"

definition entitlement_conflicts :: "entitlement_row \<Rightarrow> entitlement_row \<Rightarrow> bool" where
  "entitlement_conflicts a b \<longleftrightarrow>
     er_id a = er_id b \<or> (er_tenantId a = er_tenantId b \<and> er_capabilityId a = er_capabilityId b)"

definition entitlement_insert ::
  "entitlement \<Rightarrow> entitlement_row list \<Rightarrow> entitlement_row list option" where
  "entitlement_insert e table = create_row entitlement_conflicts
     \<lparr>er_id = en_id e, er_tenantId = en_tenantId e, er_capabilityId = en_capabilityId e,
      er_status = status_text (en_status e), er_sourceRef = en_sourceRef e, er_reason = en_reason e,
      er_actorRef = en_actorRef e, er_effectiveFrom = en_effectiveFrom e,
      er_effectiveTo = en_effectiveTo e, er_version = en_version e\<rparr> table"

record entitlement_change =
  ch_status :: entitlement_status
  ch_sourceRef :: string
  ch_reason :: string
  ch_actorRef :: string
  ch_effectiveFrom :: millis
  ch_effectiveTo :: "millis option"

definition entitlement_transition ::
  "string \<Rightarrow> string \<Rightarrow> int \<Rightarrow> entitlement_change
     \<Rightarrow> entitlement_row list \<Rightarrow> bool \<times> entitlement_row list" where
  "entitlement_transition tenantId i expectedVersion change table =
     (let (count, table') =
        update_many (\<lambda>r. er_id r = i \<and> er_tenantId r = tenantId \<and> er_version r = expectedVersion)
          (\<lambda>r. r\<lparr>er_status := status_text (ch_status change), er_sourceRef := ch_sourceRef change,
                er_reason := ch_reason change, er_actorRef := ch_actorRef change,
                er_effectiveFrom := ch_effectiveFrom change, er_effectiveTo := ch_effectiveTo change,
                er_version := expectedVersion + 1\<rparr>) table
      in (count = 1, table'))"

section \<open>The audit trail and the world\<close>

datatype ceiling_breach =
    BREACH_NOT_IMPLEMENTED | BREACH_NOT_DEPLOYED string | BREACH_NOT_DECLARED string

datatype audit_reason =
    REASON_TEXT string
  | REASON_BREACH ceiling_breach
  | REASON_GATE gate denial_reason

datatype audit_outcome = AUDIT_SUCCESS | AUDIT_DENIED

record cap_audit_entry =
  ca_occurredAt :: millis
  ca_actorRef :: string
  ca_tenantRef :: "string option"
  ca_action :: string
  ca_resourceType :: string
  ca_resourceId :: string
  ca_outcome :: audit_outcome
  ca_reason :: audit_reason
  ca_before :: "(string \<times> json) list option"
  ca_after :: "(string \<times> json) list option"

record cap_world =
  availability_table :: "availability_row list"
  entitlement_table :: "entitlement_row list"
  cap_trail :: "cap_audit_entry list"

datatype cap_call = CALL_FIND | CALL_INSERT | CALL_UPDATE | CALL_AUDIT

datatype cap_error =
    CAP_AUTHORIZATION_DENIED string
  | CAP_UNKNOWN_CAPABILITY string
  | CAP_ABOVE_CEILING string ceiling_breach
  | CAP_ALREADY_EXISTS string
  | CAP_VERSION_CONFLICT string int
  | CAP_NOT_FOUND string
  | CAP_STORE_FAILURE
  | CAP_RESOLUTION_FAILED
  | CAP_AUDIT_APPEND_FAILED
  | CAP_INVALID_INPUT string

definition cap_record :: "(cap_call \<Rightarrow> bool) \<Rightarrow> cap_audit_entry \<Rightarrow> cap_world
    \<Rightarrow> (cap_error, unit) outcome \<times> cap_world" where
  "cap_record fails entry w =
     (if fails CALL_AUDIT then (Inl CAP_AUDIT_APPEND_FAILED, w)
      else (Inr (), w\<lparr>cap_trail := cap_trail w @ [entry]\<rparr>))"

section \<open>SetCapabilityAvailability\<close>

record cap_principal =
  principalRef :: string
  tenantRef :: "string option"

record set_availability_input =
  sa_principal :: cap_principal
  sa_environment :: string
  sa_jurisdictionRef :: "string option"
  sa_capabilityId :: string
  sa_state :: availability_state
  sa_reason :: string
  sa_expectedVersion :: "int option"
  sa_now :: millis

definition MANAGE_AVAILABILITY :: string where
  "MANAGE_AVAILABILITY = ''capability.availability.manage''"

definition MANAGE_ENTITLEMENT :: string where
  "MANAGE_ENTITLEMENT = ''capability.entitlement.manage''"

definition descriptorFor :: "registry_view \<Rightarrow> string \<Rightarrow> capability_descriptor option" where
  "descriptorFor registry capabilityId =
     (if capabilityId \<notin> set (rv_ids registry) then None else map_of (rv_descriptors registry) capabilityId)"

definition ceilingBreachFor ::
  "capability_descriptor \<Rightarrow> string \<Rightarrow> string option \<Rightarrow> ceiling_breach option" where
  "ceilingBreachFor d environment scope =
     (if cd_implementation d \<noteq> IMPLEMENTED then Some BREACH_NOT_IMPLEMENTED
      else if map_of (cd_deployment d) environment \<noteq> Some DEPLOYED
      then Some (BREACH_NOT_DEPLOYED environment)
      else case scope of
        None \<Rightarrow> None
      | Some s \<Rightarrow> if s \<in> set (declaredJurisdictions d) then None else Some (BREACH_NOT_DECLARED s))"

definition availability_recordChange ::
  "(cap_call \<Rightarrow> bool) \<Rightarrow> set_availability_input \<Rightarrow> availability_record option \<Rightarrow> availability_record
     \<Rightarrow> cap_world \<Rightarrow> (cap_error, unit) outcome \<times> cap_world" where
  "availability_recordChange fails input before after w =
     cap_record fails \<lparr>ca_occurredAt = sa_now input, ca_actorRef = principalRef (sa_principal input),
       ca_tenantRef = tenantRef (sa_principal input), ca_action = ''capability.availability.set'',
       ca_resourceType = ''capability_availability'', ca_resourceId = cr_id after,
       ca_outcome = AUDIT_SUCCESS, ca_reason = REASON_TEXT (sa_reason input),
       ca_before = map_option (\<lambda>b. [(''state'', JString (state_text (cr_state b))),
                                   (''version'', JNumber (Whole (cr_version b)))]) before,
       ca_after = Some [(''capabilityId'', JString (cr_capabilityId after)),
                        (''environment'', JString (cr_environment after)),
                        (''state'', JString (state_text (cr_state after))),
                        (''version'', JNumber (Whole (cr_version after)))]\<rparr> w"

definition breach_entry :: "set_availability_input \<Rightarrow> ceiling_breach \<Rightarrow> cap_audit_entry" where
  "breach_entry input breach =
     \<lparr>ca_occurredAt = sa_now input, ca_actorRef = principalRef (sa_principal input),
      ca_tenantRef = tenantRef (sa_principal input), ca_action = ''capability.availability.set'',
      ca_resourceType = ''capability_availability'',
      ca_resourceId = sa_environment input @ '':''
        @ (case sa_jurisdictionRef input of None \<Rightarrow> ''*'' | Some s \<Rightarrow> s) @ '':'' @ sa_capabilityId input,
      ca_outcome = AUDIT_DENIED, ca_reason = REASON_BREACH breach,
      ca_before = None,
      ca_after = Some [(''requestedState'', JString (state_text (sa_state input))),
                       (''capabilityId'', JString (sa_capabilityId input))]\<rparr>"

definition write_availability ::
  "(cap_call \<Rightarrow> bool) \<Rightarrow> string \<Rightarrow> set_availability_input \<Rightarrow> cap_world
     \<Rightarrow> (cap_error, availability_record) outcome \<times> cap_world" where
  "write_availability fails newId input w =
     (if fails CALL_FIND then (Inl CAP_STORE_FAILURE, w)
      else case availability_findExact (sa_environment input) (sa_jurisdictionRef input)
                  (sa_capabilityId input) (availability_table w) of
        None \<Rightarrow>
          (let row = \<lparr>cr_id = newId, cr_environment = sa_environment input,
                 cr_jurisdictionRef = sa_jurisdictionRef input, cr_capabilityId = sa_capabilityId input,
                 cr_state = sa_state input, cr_reason = sa_reason input,
                 cr_actorRef = principalRef (sa_principal input), cr_version = 1\<rparr>
           in if fails CALL_INSERT then (Inl CAP_STORE_FAILURE, w)
              else case availability_insert row (sa_now input) (availability_table w) of
                None \<Rightarrow> (Inl CAP_STORE_FAILURE, w)
              | Some table' \<Rightarrow>
                  (case availability_recordChange fails input None row
                          (w\<lparr>availability_table := table'\<rparr>) of
                     (Inl e, w') \<Rightarrow> (Inl e, w')
                   | (Inr u, w') \<Rightarrow> (Inr row, w')))
      | Some existing \<Rightarrow>
          (case sa_expectedVersion input of
             None \<Rightarrow> (Inl (CAP_ALREADY_EXISTS (cr_id existing)), w)
           | Some expected \<Rightarrow>
               if fails CALL_UPDATE then (Inl CAP_STORE_FAILURE, w)
               else (case availability_updateState (cr_id existing) expected
                            (sa_state input, sa_reason input, principalRef (sa_principal input), sa_now input)
                            (availability_table w) of
                 (updated, table') \<Rightarrow>
                   if \<not> updated
                   then (Inl (CAP_VERSION_CONFLICT (cr_id existing) expected),
                         w\<lparr>availability_table := table'\<rparr>)
                   else let row = existing\<lparr>cr_state := sa_state input, cr_reason := sa_reason input,
                              cr_actorRef := principalRef (sa_principal input), cr_version := expected + 1\<rparr>
                        in (case availability_recordChange fails input (Some existing) row
                                   (w\<lparr>availability_table := table'\<rparr>) of
                              (Inl e, w') \<Rightarrow> (Inl e, w')
                            | (Inr u, w') \<Rightarrow> (Inr row, w')))))"

definition setCapabilityAvailability ::
  "registry_view \<Rightarrow> (cap_principal \<Rightarrow> string \<Rightarrow> bool) \<Rightarrow> (cap_call \<Rightarrow> bool) \<Rightarrow> string
     \<Rightarrow> set_availability_input \<Rightarrow> cap_world \<Rightarrow> (cap_error, availability_record) outcome \<times> cap_world" where
  "setCapabilityAvailability registry authorize fails newId input w =
     (if \<not> authorize (sa_principal input) MANAGE_AVAILABILITY
      then (Inl (CAP_AUTHORIZATION_DENIED MANAGE_AVAILABILITY), w)
      else if blank (sa_reason input) then (Inl (CAP_INVALID_INPUT ''reason''), w)
      else if \<not> isKararEnvironment (sa_environment input)
      then (Inl (CAP_INVALID_INPUT ''environment''), w)
      else if (case sa_jurisdictionRef input of None \<Rightarrow> False | Some s \<Rightarrow> blank s)
      then (Inl (CAP_INVALID_INPUT ''jurisdictionRef''), w)
      else case descriptorFor registry (sa_capabilityId input) of
        None \<Rightarrow> (Inl (CAP_UNKNOWN_CAPABILITY (sa_capabilityId input)), w)
      | Some d \<Rightarrow>
          (case (if isAllowingState (sa_state input)
                 then ceilingBreachFor d (sa_environment input) (sa_jurisdictionRef input) else None) of
             Some breach \<Rightarrow>
               (case cap_record fails (breach_entry input breach) w of
                  (Inl e, w') \<Rightarrow> (Inl e, w')
                | (Inr u, w') \<Rightarrow> (Inl (CAP_ABOVE_CEILING (sa_capabilityId input) breach), w'))
           | None \<Rightarrow> write_availability fails newId input w))"

section \<open>Grant and revoke an entitlement\<close>

record grant_input =
  gr_principal :: cap_principal
  gr_tenantId :: string
  gr_capabilityId :: string
  gr_sourceRef :: string
  gr_reason :: string
  gr_effectiveFrom :: millis
  gr_effectiveTo :: "millis option"
  gr_now :: millis

definition entitlement_audit ::
  "millis \<Rightarrow> string \<Rightarrow> string \<Rightarrow> string \<Rightarrow> entitlement option \<Rightarrow> (string \<times> json) list \<Rightarrow> entitlement
     \<Rightarrow> cap_audit_entry" where
  "entitlement_audit at actor action reason before after e =
     \<lparr>ca_occurredAt = at, ca_actorRef = actor, ca_tenantRef = Some (en_tenantId e), ca_action = action,
      ca_resourceType = ''tenant_capability_entitlement'', ca_resourceId = en_id e,
      ca_outcome = AUDIT_SUCCESS, ca_reason = REASON_TEXT reason,
      ca_before = map_option (\<lambda>b. [(''status'', JString (status_text (en_status b))),
                                  (''version'', JNumber (Whole (en_version b)))]) before,
      ca_after = Some after\<rparr>"

definition grant_recordChange ::
  "(cap_call \<Rightarrow> bool) \<Rightarrow> grant_input \<Rightarrow> entitlement option \<Rightarrow> entitlement \<Rightarrow> cap_world
     \<Rightarrow> (cap_error, unit) outcome \<times> cap_world" where
  "grant_recordChange fails input before e w =
     cap_record fails (entitlement_audit (gr_now input) (principalRef (gr_principal input))
       ''capability.entitlement.grant'' (gr_reason input) before
       [(''capabilityId'', JString (en_capabilityId e)), (''status'', JString (status_text (en_status e))),
        (''sourceRef'', JString (en_sourceRef e)), (''version'', JNumber (Whole (en_version e)))] e) w"

definition apply_change :: "entitlement_change \<Rightarrow> entitlement \<Rightarrow> entitlement" where
  "apply_change c e = e\<lparr>en_status := ch_status c, en_sourceRef := ch_sourceRef c,
     en_reason := ch_reason c, en_actorRef := ch_actorRef c,
     en_effectiveFrom := ch_effectiveFrom c, en_effectiveTo := ch_effectiveTo c,
     en_version := en_version e + 1\<rparr>"

definition write_grant ::
  "(cap_call \<Rightarrow> bool) \<Rightarrow> string \<Rightarrow> grant_input \<Rightarrow> cap_world
     \<Rightarrow> (cap_error, entitlement) outcome \<times> cap_world" where
  "write_grant fails newId input w =
     (let change = \<lparr>ch_status = ACTIVE, ch_sourceRef = gr_sourceRef input, ch_reason = gr_reason input,
            ch_actorRef = principalRef (gr_principal input), ch_effectiveFrom = gr_effectiveFrom input,
            ch_effectiveTo = gr_effectiveTo input\<rparr>
      in if fails CALL_FIND then (Inl CAP_STORE_FAILURE, w)
         else case entitlement_findByCapability (gr_tenantId input) (gr_capabilityId input)
                     (entitlement_table w) of
           None \<Rightarrow>
             (let e = \<lparr>en_id = newId, en_tenantId = gr_tenantId input, en_capabilityId = gr_capabilityId input,
                    en_status = ch_status change, en_sourceRef = ch_sourceRef change,
                    en_reason = ch_reason change, en_actorRef = ch_actorRef change,
                    en_effectiveFrom = ch_effectiveFrom change, en_effectiveTo = ch_effectiveTo change,
                    en_version = 1\<rparr>
              in if fails CALL_INSERT then (Inl CAP_STORE_FAILURE, w)
                 else case entitlement_insert e (entitlement_table w) of
                   None \<Rightarrow> (Inl CAP_STORE_FAILURE, w)
                 | Some table' \<Rightarrow>
                     (case grant_recordChange fails input None e (w\<lparr>entitlement_table := table'\<rparr>) of
                        (Inl err, w') \<Rightarrow> (Inl err, w')
                      | (Inr u, w') \<Rightarrow> (Inr e, w')))
         | Some existing \<Rightarrow>
             if fails CALL_UPDATE then (Inl CAP_STORE_FAILURE, w)
             else (case entitlement_transition (gr_tenantId input) (en_id existing) (en_version existing)
                          change (entitlement_table w) of
               (updated, table') \<Rightarrow>
                 if \<not> updated
                 then (Inl (CAP_VERSION_CONFLICT (en_id existing) (en_version existing)),
                       w\<lparr>entitlement_table := table'\<rparr>)
                 else let e = apply_change change existing
                      in (case grant_recordChange fails input (Some existing) e
                                 (w\<lparr>entitlement_table := table'\<rparr>) of
                            (Inl err, w') \<Rightarrow> (Inl err, w')
                          | (Inr u, w') \<Rightarrow> (Inr e, w'))))"

definition grantTenantCapabilityEntitlement ::
  "registry_view \<Rightarrow> (cap_principal \<Rightarrow> string \<Rightarrow> bool) \<Rightarrow> (cap_call \<Rightarrow> bool) \<Rightarrow> string
     \<Rightarrow> grant_input \<Rightarrow> cap_world \<Rightarrow> (cap_error, entitlement) outcome \<times> cap_world" where
  "grantTenantCapabilityEntitlement registry authorize fails newId input w =
     (if \<not> authorize (gr_principal input) MANAGE_ENTITLEMENT
      then (Inl (CAP_AUTHORIZATION_DENIED MANAGE_ENTITLEMENT), w)
      else if blank (gr_sourceRef input) then (Inl (CAP_INVALID_INPUT ''sourceRef''), w)
      else if blank (gr_reason input) then (Inl (CAP_INVALID_INPUT ''reason''), w)
      else if (case gr_effectiveTo input of None \<Rightarrow> False | Some t \<Rightarrow> t \<le> gr_effectiveFrom input)
      then (Inl (CAP_INVALID_INPUT ''effectiveTo''), w)
      else if gr_capabilityId input \<notin> set (rv_ids registry)
      then (Inl (CAP_UNKNOWN_CAPABILITY (gr_capabilityId input)), w)
      else write_grant fails newId input w)"

record revoke_input =
  rk_principal :: cap_principal
  rk_tenantId :: string
  rk_capabilityId :: string
  rk_reason :: string
  rk_now :: millis

definition revoke_change :: "revoke_input \<Rightarrow> entitlement \<Rightarrow> entitlement_change" where
  "revoke_change input existing =
     (let alreadyEnded = (case en_effectiveTo existing of None \<Rightarrow> False | Some t \<Rightarrow> t \<le> rk_now input)
      in \<lparr>ch_status = REVOKED, ch_sourceRef = en_sourceRef existing, ch_reason = rk_reason input,
          ch_actorRef = principalRef (rk_principal input), ch_effectiveFrom = en_effectiveFrom existing,
          ch_effectiveTo =
            (if alreadyEnded then en_effectiveTo existing
             else Some (max (rk_now input) (en_effectiveFrom existing)))\<rparr>)"

definition revokeTenantCapabilityEntitlement ::
  "registry_view \<Rightarrow> (cap_principal \<Rightarrow> string \<Rightarrow> bool) \<Rightarrow> (cap_call \<Rightarrow> bool)
     \<Rightarrow> revoke_input \<Rightarrow> cap_world \<Rightarrow> (cap_error, entitlement) outcome \<times> cap_world" where
  "revokeTenantCapabilityEntitlement registry authorize fails input w =
     (if \<not> authorize (rk_principal input) MANAGE_ENTITLEMENT
      then (Inl (CAP_AUTHORIZATION_DENIED MANAGE_ENTITLEMENT), w)
      else if blank (rk_reason input) then (Inl (CAP_INVALID_INPUT ''reason''), w)
      else if rk_capabilityId input \<notin> set (rv_ids registry)
      then (Inl (CAP_UNKNOWN_CAPABILITY (rk_capabilityId input)), w)
      else if fails CALL_FIND then (Inl CAP_STORE_FAILURE, w)
      else case entitlement_findByCapability (rk_tenantId input) (rk_capabilityId input)
                  (entitlement_table w) of
        None \<Rightarrow> (Inl (CAP_NOT_FOUND (rk_capabilityId input)), w)
      | Some existing \<Rightarrow>
          if fails CALL_UPDATE then (Inl CAP_STORE_FAILURE, w)
          else (case entitlement_transition (rk_tenantId input) (en_id existing) (en_version existing)
                       (revoke_change input existing) (entitlement_table w) of
            (updated, table') \<Rightarrow>
              if \<not> updated
              then (Inl (CAP_VERSION_CONFLICT (en_id existing) (en_version existing)),
                    w\<lparr>entitlement_table := table'\<rparr>)
              else let e = apply_change (revoke_change input existing) existing
                   in (case cap_record fails (entitlement_audit (rk_now input)
                              (principalRef (rk_principal input)) ''capability.entitlement.revoke''
                              (rk_reason input) (Some existing)
                              [(''capabilityId'', JString (en_capabilityId e)),
                               (''status'', JString (status_text (en_status e))),
                               (''version'', JNumber (Whole (en_version e)))] e)
                              (w\<lparr>entitlement_table := table'\<rparr>) of
                         (Inl err, w') \<Rightarrow> (Inl err, w')
                       | (Inr u, w') \<Rightarrow> (Inr e, w'))))"

section \<open>The repositories are optimistic row stores\<close>

definition availability_wf :: "availability_row list \<Rightarrow> bool" where
  "availability_wf t \<longleftrightarrow> distinct (map ar_id t)"

definition availability_version :: "string \<Rightarrow> availability_row list \<Rightarrow> int option" where
  "availability_version i t = map_option ar_version (List.find (\<lambda>r. ar_id r = i) t)"

definition entitlement_wf :: "entitlement_row list \<Rightarrow> bool" where
  "entitlement_wf t \<longleftrightarrow> distinct (map er_id t)
     \<and> distinct (map (\<lambda>r. (er_tenantId r, er_capabilityId r)) t)"

definition entitlement_version :: "string \<times> string \<Rightarrow> entitlement_row list \<Rightarrow> int option" where
  "entitlement_version = (\<lambda>(tenant, i) t.
     map_option er_version (List.find (\<lambda>r. er_id r = i \<and> er_tenantId r = tenant) t))"

lemma find_update_many:
  assumes "distinct (map key t)" "\<And>r. q r \<longleftrightarrow> key r = k \<and> e r" "\<And>r. p r \<longleftrightarrow> q r \<and> ver r = v"
    and "\<And>r. key (f r) = key r" "\<And>r. e (f r) = e r" "\<And>r. ver (f r) = v + 1"
  shows "fst (update_many p f t) = (if map_option ver (List.find q t) = Some v then 1 else 0)"
    "fst (update_many p f t) = 1 \<Longrightarrow>
       map_option ver (List.find q (snd (update_many p f t))) = Some (v + (1::int))"
proof -
  have none: "filter p xs = []" "List.find q xs = None" if "k \<notin> key ` set xs" for xs
    using that assms(2,3) by (auto simp: filter_empty_conv find_None_iff)
  show "fst (update_many p f t) = (if map_option ver (List.find q t) = Some v then 1 else 0)"
    using assms(1)
  proof (induction t)
    case (Cons x xs)
    show ?case
    proof (cases "key x = k \<and> e x")
      case True
      then have "k \<notin> key ` set xs" using Cons.prems by auto
      then show ?thesis using True none [of xs] assms(2) [of x] assms(3) [of x]
        by (simp add: update_many_def)
    next
      case False
      then have "\<not> q x" "\<not> p x" using assms(2) [of x] assms(3) [of x] by blast+
      then show ?thesis using Cons by (simp add: update_many_def)
    qed
  qed (simp add: update_many_def)
  show "map_option ver (List.find q (snd (update_many p f t))) = Some (v + 1)"
    if "fst (update_many p f t) = 1"
    using that assms(1)
  proof (induction t)
    case (Cons x xs)
    show ?case
    proof (cases "p x")
      case True
      then show ?thesis using assms(2-6) by (auto simp: update_many_def)
    next
      case False
      then have f1: "fst (update_many p f xs) = 1" using Cons.prems by (auto simp: update_many_def)
      have "\<not> q x"
      proof
        assume "q x"
        then have "k \<notin> key ` set xs" using assms(2) Cons.prems by auto
        then show False using f1 none(1) [of xs] by (simp add: update_many_def)
      qed
      then show ?thesis using Cons.IH [OF f1] Cons.prems False by (simp add: update_many_def)
    qed
  qed (simp add: update_many_def)
qed

lemma availability_update_spec:
  assumes "availability_wf t"
  shows "fst (availability_updateState i v c t) \<longleftrightarrow> availability_version i t = Some v"
    "fst (availability_updateState i v c t) \<Longrightarrow>
       availability_version i (snd (availability_updateState i v c t)) = Some (v + 1)"
    "\<not> fst (availability_updateState i v c t) \<Longrightarrow> snd (availability_updateState i v c t) = t"
    "availability_wf (snd (availability_updateState i v c t))"
proof -
  obtain state reason actor at where c: "c = (state, reason, actor, at)" by (cases c)
  let ?p = "\<lambda>r. ar_id r = i \<and> ar_version r = v"
  let ?f = "\<lambda>r. r\<lparr>ar_state := state_text state, ar_reason := reason, ar_actorRef := actor,
                  ar_version := v + 1, ar_updatedAt := at\<rparr>"
  have u: "availability_updateState i v c t = (fst (update_many ?p ?f t) = 1, snd (update_many ?p ?f t))"
    by (simp add: availability_updateState_def c split_beta Let_def)
  note spec = find_update_many [where key = ar_id and k = i and e = "\<lambda>_. True" and ver = ar_version
      and q = "\<lambda>r. ar_id r = i" and p = ?p and f = ?f and t = t and v = v]
  have d: "distinct (map ar_id t)" using assms by (simp add: availability_wf_def)
  show "fst (availability_updateState i v c t) \<longleftrightarrow> availability_version i t = Some v"
    using spec(1) [OF d] by (simp add: u availability_version_def)
  show "fst (availability_updateState i v c t) \<Longrightarrow>
       availability_version i (snd (availability_updateState i v c t)) = Some (v + 1)"
    using spec(2) [OF d] by (simp add: u availability_version_def)
  show "\<not> fst (availability_updateState i v c t) \<Longrightarrow> snd (availability_updateState i v c t) = t"
    using spec(1) [OF d] by (auto simp: u intro!: update_many_none split: if_splits)
  have "map ar_id (snd (update_many ?p ?f t)) = map ar_id t" by (rule update_many_keys) simp
  then show "availability_wf (snd (availability_updateState i v c t))"
    using d by (simp add: u availability_wf_def)
qed

interpretation availability_store: versioned_store
  availability_version availability_updateState availability_wf
  by unfold_locales (use availability_update_spec in blast)+

lemma entitlement_update_spec:
  assumes "entitlement_wf t"
  shows "fst (entitlement_transition tenant i v c t) \<longleftrightarrow> entitlement_version (tenant, i) t = Some v"
    "fst (entitlement_transition tenant i v c t) \<Longrightarrow>
       entitlement_version (tenant, i) (snd (entitlement_transition tenant i v c t)) = Some (v + 1)"
    "\<not> fst (entitlement_transition tenant i v c t) \<Longrightarrow> snd (entitlement_transition tenant i v c t) = t"
    "entitlement_wf (snd (entitlement_transition tenant i v c t))"
proof -
  let ?p = "\<lambda>r. er_id r = i \<and> er_tenantId r = tenant \<and> er_version r = v"
  let ?f = "\<lambda>r. r\<lparr>er_status := status_text (ch_status c), er_sourceRef := ch_sourceRef c,
                er_reason := ch_reason c, er_actorRef := ch_actorRef c,
                er_effectiveFrom := ch_effectiveFrom c, er_effectiveTo := ch_effectiveTo c,
                er_version := v + 1\<rparr>"
  have u: "entitlement_transition tenant i v c t
      = (fst (update_many ?p ?f t) = 1, snd (update_many ?p ?f t))"
    by (simp add: entitlement_transition_def split_beta)
  note spec = find_update_many [where key = er_id and k = i and e = "\<lambda>r. er_tenantId r = tenant"
      and ver = er_version and q = "\<lambda>r. er_id r = i \<and> er_tenantId r = tenant" and p = ?p and f = ?f
      and t = t and v = v]
  have d: "distinct (map er_id t)" using assms by (simp add: entitlement_wf_def)
  show "fst (entitlement_transition tenant i v c t) \<longleftrightarrow> entitlement_version (tenant, i) t = Some v"
    using spec(1) [OF d] by (simp add: u entitlement_version_def)
  show "fst (entitlement_transition tenant i v c t) \<Longrightarrow>
       entitlement_version (tenant, i) (snd (entitlement_transition tenant i v c t)) = Some (v + 1)"
    using spec(2) [OF d] by (simp add: u entitlement_version_def)
  show "\<not> fst (entitlement_transition tenant i v c t) \<Longrightarrow> snd (entitlement_transition tenant i v c t) = t"
    using spec(1) [OF d] by (auto simp: u intro!: update_many_none split: if_splits)
  have "map er_id (snd (update_many ?p ?f t)) = map er_id t" by (rule update_many_keys) simp
  moreover have "map (\<lambda>r. (er_tenantId r, er_capabilityId r)) (snd (update_many ?p ?f t))
      = map (\<lambda>r. (er_tenantId r, er_capabilityId r)) t" by (rule update_many_keys) simp
  ultimately show "entitlement_wf (snd (entitlement_transition tenant i v c t))"
    using assms by (simp add: u entitlement_wf_def)
qed

definition entitlement_write ::
  "string \<times> string \<Rightarrow> int \<Rightarrow> entitlement_change \<Rightarrow> entitlement_row list \<Rightarrow> bool \<times> entitlement_row list" where
  "entitlement_write = (\<lambda>(tenant, i). entitlement_transition tenant i)"

interpretation entitlement_store: versioned_store entitlement_version entitlement_write entitlement_wf
proof unfold_locales
  fix s :: "entitlement_row list" and ti v c
  assume w: "entitlement_wf s"
  show "fst (entitlement_write ti v c s) \<longleftrightarrow> entitlement_version ti s = Some v"
    "fst (entitlement_write ti v c s) \<Longrightarrow>
       entitlement_version ti (snd (entitlement_write ti v c s)) = Some (v + 1)"
    "\<not> fst (entitlement_write ti v c s) \<Longrightarrow> snd (entitlement_write ti v c s) = s"
    "entitlement_wf (snd (entitlement_write ti v c s))"
    using entitlement_update_spec [OF w] by (cases ti; simp add: entitlement_write_def)+
qed

section \<open>Lemmas on the use cases\<close>

lemma cap_record_cases:
  "cap_record fails entry w =
     (if fails CALL_AUDIT then (Inl CAP_AUDIT_APPEND_FAILED, w)
      else (Inr (), w\<lparr>cap_trail := cap_trail w @ [entry]\<rparr>))"
  by (simp add: cap_record_def)

lemma ceilingBreachFor_None:
  "ceilingBreachFor d environment scope = None \<longleftrightarrow>
     cd_implementation d = IMPLEMENTED \<and> map_of (cd_deployment d) environment = Some DEPLOYED
     \<and> (\<forall>s. scope = Some s \<longrightarrow> s \<in> set (declaredJurisdictions d))"
  by (auto simp: ceilingBreachFor_def split: option.splits)

lemma write_availability_Inr:
  assumes "write_availability fails newId input w = (Inr r, w')"
  shows "cr_state r = sa_state input \<and> \<not> fails CALL_AUDIT
    \<and> entitlement_table w' = entitlement_table w
    \<and> (\<exists>entry. cap_trail w' = cap_trail w @ [entry] \<and> ca_outcome entry = AUDIT_SUCCESS
        \<and> ca_resourceId entry = cr_id r \<and> ca_actorRef entry = principalRef (sa_principal input))"
  using assms
  by (auto simp: write_availability_def availability_recordChange_def cap_record_cases Let_def
      split: if_splits option.splits prod.splits sum.splits)

lemma write_availability_Inl:
  assumes "write_availability fails newId input w = (Inl e, w')" "availability_wf (availability_table w)"
  shows "cap_trail w' = cap_trail w \<and> entitlement_table w' = entitlement_table w
    \<and> (if fails CALL_AUDIT \<and> e = CAP_AUDIT_APPEND_FAILED then True
       else availability_table w' = availability_table w)"
proof -
  have same: "t' = availability_table w"
    if "availability_updateState i v c (availability_table w) = (False, t')" for i v c t'
    using availability_store.refuses [OF assms(2), of i v c] that by simp
  show ?thesis
    using assms(1) same
    by (auto simp: write_availability_def availability_recordChange_def cap_record_cases Let_def
        split: if_splits option.splits prod.splits sum.splits)
qed

lemma setCapabilityAvailability_shape:
  "setCapabilityAvailability registry authorize fails newId input w = write_availability fails newId input w
   \<or> (\<exists>e w'. setCapabilityAvailability registry authorize fails newId input w = (Inl e, w')
        \<and> availability_table w' = availability_table w)"
  by (simp add: setCapabilityAvailability_def cap_record_cases split: option.split)

lemma findExact_row:
  assumes "availability_findExact env sc cap t = Some r"
  obtains x where "x \<in> set t" "ar_environment x = env" "ar_capabilityId x = cap"
    "ar_jurisdictionRef x = sc" "r = toRecord x"
  using assms unfolding availability_findExact_def
  by (auto dest!: find_first_Some)

definition one_row_per_triple :: "availability_row list \<Rightarrow> bool" where
  "one_row_per_triple t \<longleftrightarrow>
     distinct (map (\<lambda>r. (ar_environment r, ar_jurisdictionRef r, ar_capabilityId r)) t)"

lemma updateState_back:
  "availability_updateState i v c t = (ok, t') \<Longrightarrow> z \<in> set t' \<Longrightarrow>
     \<exists>x \<in> set t. ar_id x = ar_id z \<and> ar_environment x = ar_environment z
       \<and> ar_jurisdictionRef x = ar_jurisdictionRef z \<and> ar_capabilityId x = ar_capabilityId z"
  by (cases c) (force simp: availability_updateState_def update_many_def)

lemma updateState_forth:
  assumes "availability_updateState i v c t = (ok, t')" "x \<in> set t"
  shows "\<exists>z \<in> set t'. ar_id z = ar_id x \<and> ar_environment z = ar_environment x
       \<and> ar_jurisdictionRef z = ar_jurisdictionRef x \<and> ar_capabilityId z = ar_capabilityId x"
proof -
  obtain state reason actor at where c: "c = (state, reason, actor, at)" by (cases c)
  let ?g = "\<lambda>r. if ar_id r = i \<and> ar_version r = v
     then r\<lparr>ar_state := state_text state, ar_reason := reason, ar_actorRef := actor,
            ar_version := v + 1, ar_updatedAt := at\<rparr> else r"
  have "t' = map ?g t" using assms(1) by (simp add: c availability_updateState_def update_many_def)
  then have "?g x \<in> set t'" using assms(2) by simp
  then show ?thesis by (rule rev_bexI) simp
qed

lemma availability_version_find:
  "availability_wf t \<Longrightarrow> x \<in> set t \<Longrightarrow> availability_version (ar_id x) t = Some (ar_version x)"
  by (simp add: availability_wf_def availability_version_def find_distinct_key)

lemma findByCapability_row:
  assumes "entitlement_findByCapability tn cap t = Some e"
  obtains x where "x \<in> set t" "er_tenantId x = tn" "er_capabilityId x = cap" "e = toEntitlement x"
  using assms unfolding entitlement_findByCapability_def
  by (auto dest!: find_first_Some)

lemma findByCapability_key:
  "entitlement_wf t \<Longrightarrow> x \<in> set t \<Longrightarrow>
     entitlement_findByCapability (er_tenantId x) (er_capabilityId x) t = Some (toEntitlement x)"
proof -
  assume w: "entitlement_wf t" and x: "x \<in> set t"
  have "distinct (map (\<lambda>r. (er_tenantId r, er_capabilityId r)) t)"
    using w by (simp add: entitlement_wf_def)
  from find_distinct_key [OF this x] show ?thesis
    by (simp add: entitlement_findByCapability_def find_first_stored)
qed

lemma findByCapability_absent:
  "entitlement_findByCapability tn cap t = None \<longleftrightarrow>
     (\<forall>x \<in> set t. \<not> (er_tenantId x = tn \<and> er_capabilityId x = cap))"
  by (auto simp: entitlement_findByCapability_def find_first_None)

lemma transition_find:
  assumes w: "entitlement_wf t" and f: "entitlement_findByCapability tn cap t = Some ex"
    and u: "entitlement_transition tn (en_id ex) (en_version ex) c t = (True, t')"
  shows "entitlement_findByCapability tn cap t' = Some (apply_change c ex)"
    "(tn', cap') \<noteq> (tn, cap) \<Longrightarrow>
       entitlement_findByCapability tn' cap' t' = entitlement_findByCapability tn' cap' t"
    "entitlement_wf t'"
proof -
  obtain x where x: "x \<in> set t" "er_tenantId x = tn" "er_capabilityId x = cap" "ex = toEntitlement x"
    using f by (rule findByCapability_row)
  let ?p = "\<lambda>r. er_id r = en_id ex \<and> er_tenantId r = tn \<and> er_version r = en_version ex"
  let ?f = "\<lambda>r. r\<lparr>er_status := status_text (ch_status c), er_sourceRef := ch_sourceRef c,
                er_reason := ch_reason c, er_actorRef := ch_actorRef c,
                er_effectiveFrom := ch_effectiveFrom c, er_effectiveTo := ch_effectiveTo c,
                er_version := en_version ex + 1\<rparr>"
  have t': "t' = map (\<lambda>r. if ?p r then ?f r else r) t"
    using u by (simp add: entitlement_transition_def update_many_def)
  show w': "entitlement_wf t'"
    using entitlement_update_spec(4) [OF w, of tn "en_id ex" "en_version ex" c] u by simp
  have px: "?p x" using x by (simp add: toEntitlement_def)
  then have "?f x \<in> set t'" using x(1) unfolding t' by force
  from findByCapability_key [OF w' this]
  show "entitlement_findByCapability tn cap t' = Some (apply_change c ex)"
    using x by (simp add: toEntitlement_def apply_change_def)
  have only: "y = x" if "y \<in> set t" "?p y" for y
  proof -
    have "inj_on er_id (set t)" using w by (simp add: entitlement_wf_def distinct_map)
    moreover have "er_id y = er_id x" using that(2) x(4) by (simp add: toEntitlement_def)
    ultimately show ?thesis using that(1) x(1) by (meson inj_onD)
  qed
  show "entitlement_findByCapability tn' cap' t' = entitlement_findByCapability tn' cap' t"
    if other: "(tn', cap') \<noteq> (tn, cap)"
  proof (cases "entitlement_findByCapability tn' cap' t")
    case None
    then have "entitlement_findByCapability tn' cap' t' = None"
      unfolding t' findByCapability_absent by auto
    then show ?thesis using None by simp
  next
    case (Some e)
    then obtain y where y: "y \<in> set t" "er_tenantId y = tn'" "er_capabilityId y = cap'" "e = toEntitlement y"
      by (rule findByCapability_row)
    have "\<not> ?p y" using only [OF y(1)] y x other by auto
    then have "y \<in> set t'" using y(1) unfolding t' by force
    from findByCapability_key [OF w' this] show ?thesis using y Some by simp
  qed
qed

lemma insert_find:
  assumes w: "entitlement_wf t" and i: "entitlement_insert e t = Some t'"
  shows "entitlement_findByCapability (en_tenantId e) (en_capabilityId e) t' = Some e"
    "(tn', cap') \<noteq> (en_tenantId e, en_capabilityId e) \<Longrightarrow>
       entitlement_findByCapability tn' cap' t' = entitlement_findByCapability tn' cap' t"
    "entitlement_wf t'"
proof -
  let ?row = "\<lparr>er_id = en_id e, er_tenantId = en_tenantId e, er_capabilityId = en_capabilityId e,
      er_status = status_text (en_status e), er_sourceRef = en_sourceRef e, er_reason = en_reason e,
      er_actorRef = en_actorRef e, er_effectiveFrom = en_effectiveFrom e,
      er_effectiveTo = en_effectiveTo e, er_version = en_version e\<rparr>"
  have t': "t' = t @ [?row]" and fresh: "\<forall>x \<in> set t. \<not> entitlement_conflicts ?row x"
    using i by (auto simp: entitlement_insert_def create_row_def list_ex_iff split: if_splits)
  show w': "entitlement_wf t'"
    using w fresh unfolding t' by (auto simp: entitlement_wf_def entitlement_conflicts_def)
  have "?row \<in> set t'" by (simp add: t')
  from findByCapability_key [OF w' this]
  show "entitlement_findByCapability (en_tenantId e) (en_capabilityId e) t' = Some e"
    by (simp add: toEntitlement_def)
  show "entitlement_findByCapability tn' cap' t' = entitlement_findByCapability tn' cap' t"
    if "(tn', cap') \<noteq> (en_tenantId e, en_capabilityId e)"
    using that unfolding t' entitlement_findByCapability_def find_first_stored
    by (induction t) auto
qed

lemma write_grant_cases:
  assumes "write_grant fails newId input w = (Inr e, w')"
  obtains (fresh) t' where "entitlement_insert e (entitlement_table w) = Some t'"
      "entitlement_table w' = t'" "en_tenantId e = gr_tenantId input" "en_capabilityId e = gr_capabilityId input"
      "en_status e = ACTIVE" "en_effectiveFrom e = gr_effectiveFrom input" "en_effectiveTo e = gr_effectiveTo input"
    | (again) ex c t' where
      "entitlement_findByCapability (gr_tenantId input) (gr_capabilityId input) (entitlement_table w) = Some ex"
      "entitlement_transition (gr_tenantId input) (en_id ex) (en_version ex) c (entitlement_table w) = (True, t')"
      "entitlement_table w' = t'" "e = apply_change c ex"
      "ch_status c = ACTIVE" "ch_effectiveFrom c = gr_effectiveFrom input" "ch_effectiveTo c = gr_effectiveTo input"
proof (cases "entitlement_findByCapability (gr_tenantId input) (gr_capabilityId input) (entitlement_table w)")
  case None
  then show ?thesis
    using assms fresh
    by (simp add: write_grant_def grant_recordChange_def cap_record_cases Let_def
        split: if_splits option.splits prod.splits sum.splits) fastforce
next
  case (Some ex)
  let ?c = "\<lparr>ch_status = ACTIVE, ch_sourceRef = gr_sourceRef input, ch_reason = gr_reason input,
            ch_actorRef = principalRef (gr_principal input), ch_effectiveFrom = gr_effectiveFrom input,
            ch_effectiveTo = gr_effectiveTo input\<rparr>"
  obtain ok t' where u: "entitlement_transition (gr_tenantId input) (en_id ex) (en_version ex) ?c
      (entitlement_table w) = (ok, t')" by fastforce
  have ok: "ok" and e: "e = apply_change ?c ex" and t: "entitlement_table w' = t'"
    using assms Some u
    by (auto simp: write_grant_def grant_recordChange_def cap_record_cases Let_def split: if_splits)
  show ?thesis
    using again [OF Some, of ?c t'] u ok e t by simp
qed

lemma write_grant_Inr:
  assumes "entitlement_wf (entitlement_table w)" "write_grant fails newId input w = (Inr e, w')"
  shows "entitlement_findByCapability (gr_tenantId input) (gr_capabilityId input) (entitlement_table w') = Some e
    \<and> en_status e = ACTIVE \<and> en_effectiveFrom e = gr_effectiveFrom input
    \<and> en_effectiveTo e = gr_effectiveTo input
    \<and> (\<forall>tn' cap'. (tn', cap') \<noteq> (gr_tenantId input, gr_capabilityId input) \<longrightarrow>
       entitlement_findByCapability tn' cap' (entitlement_table w')
         = entitlement_findByCapability tn' cap' (entitlement_table w))
    \<and> entitlement_wf (entitlement_table w')"
  using assms(2)
proof (cases rule: write_grant_cases)
  case (fresh t')
  then show ?thesis using insert_find [OF assms(1) fresh(1)] by simp
next
  case (again ex c t')
  then show ?thesis
    using transition_find [OF assms(1) again(1,2)] by (simp add: apply_change_def)
qed

section \<open>Properties\<close>

text \<open>
  configuration never claims more than the code ceiling.  When an availability write succeeds,
  the principal held the permission, the capability has a descriptor, and an allowing state was set
  only for an implemented capability, deployed in that environment and declared for that
  jurisdiction; the returned record carries the requested state, exactly one SUCCESS audit entry
  naming it was appended, and the entitlements are untouched.
\<close>

theorem availability_write_respects_ceiling:
  assumes "setCapabilityAvailability registry authorize fails newId input w = (Inr r, w')"
  shows "authorize (sa_principal input) ''capability.availability.manage''
    \<and> sa_environment input \<in> set KARAR_ENVIRONMENTS
    \<and> (\<exists>d. sa_capabilityId input \<in> set (rv_ids registry)
        \<and> map_of (rv_descriptors registry) (sa_capabilityId input) = Some d
        \<and> (sa_state input \<in> {AVAILABLE, BETA} \<longrightarrow>
             cd_implementation d = IMPLEMENTED
             \<and> map_of (cd_deployment d) (sa_environment input) = Some DEPLOYED
             \<and> (\<forall>s. sa_jurisdictionRef input = Some s \<longrightarrow> s \<in> set (declaredJurisdictions d))))
    \<and> cr_state r = sa_state input
    \<and> entitlement_table w' = entitlement_table w
    \<and> (\<exists>entry. cap_trail w' = cap_trail w @ [entry] \<and> ca_outcome entry = AUDIT_SUCCESS
        \<and> ca_resourceId entry = cr_id r)"
proof -
  obtain d where d: "descriptorFor registry (sa_capabilityId input) = Some d"
    "authorize (sa_principal input) MANAGE_AVAILABILITY" "isKararEnvironment (sa_environment input)"
    "(if isAllowingState (sa_state input)
      then ceilingBreachFor d (sa_environment input) (sa_jurisdictionRef input) else None) = None"
    "write_availability fails newId input w = (Inr r, w')"
    using assms
    by (auto simp: setCapabilityAvailability_def split: if_splits option.splits prod.splits sum.splits)
  have "sa_capabilityId input \<in> set (rv_ids registry)"
    "map_of (rv_descriptors registry) (sa_capabilityId input) = Some d"
    using d(1) by (auto simp: descriptorFor_def split: if_splits)
  moreover have "sa_state input \<in> {AVAILABLE, BETA} \<longrightarrow>
             cd_implementation d = IMPLEMENTED
             \<and> map_of (cd_deployment d) (sa_environment input) = Some DEPLOYED
             \<and> (\<forall>s. sa_jurisdictionRef input = Some s \<longrightarrow> s \<in> set (declaredJurisdictions d))"
    using d(4) by (auto simp: isAllowingState_iff ceilingBreachFor_None split: if_splits)
  ultimately show ?thesis
    using d(2,3) write_availability_Inr [OF d(5)]
    by (auto simp: MANAGE_AVAILABILITY_def isKararEnvironment_def)
qed

definition goals_descriptor :: capability_descriptor where
  "goals_descriptor = (descriptor ''GOALS'')\<lparr>cd_implementation := IMPLEMENTED,
     cd_deployment := [(''dev'', DEPLOYED)], declaredJurisdictions := [''qa'']\<rparr>"

definition goals_registry :: registry_view where
  "goals_registry = \<lparr>rv_ids = [''GOALS''], rv_descriptors = [(''GOALS'', goals_descriptor)]\<rparr>"

definition operator_principal :: cap_principal where
  "operator_principal = \<lparr>principalRef = ''op'', tenantRef = None\<rparr>"

definition goals_row :: availability_row where
  "goals_row = \<lparr>ar_id = ''r1'', ar_environment = ''dev'', ar_jurisdictionRef = Some ''qa'',
     ar_capabilityId = ''GOALS'', ar_state = ''DISABLED'', ar_reason = ''seed'', ar_actorRef = ''op'',
     ar_version = 4, ar_updatedAt = 10\<rparr>"

definition goals_world :: cap_world where
  "goals_world = \<lparr>availability_table = [goals_row], entitlement_table = [], cap_trail = []\<rparr>"

definition open_goals :: set_availability_input where
  "open_goals = \<lparr>sa_principal = operator_principal, sa_environment = ''dev'',
     sa_jurisdictionRef = Some ''qa'', sa_capabilityId = ''GOALS'', sa_state = BETA,
     sa_reason = ''launch'', sa_expectedVersion = Some 4, sa_now = 20\<rparr>"

definition opened_goals :: "(cap_error, availability_record) outcome \<times> cap_world" where
  "opened_goals = setCapabilityAvailability goals_registry (\<lambda>p a. True) (\<lambda>c. False) ''r2'' open_goals goals_world"

lemma opened_goals_Inr: "\<exists>r w'. opened_goals = (Inr r, w') \<and> cr_state r = BETA \<and> cr_version r = 5"
proof -
  have "result_map (fst opened_goals) (\<lambda>r. (cr_state r, cr_version r)) = Inr (BETA, 5)"
    by code_simp
  from result_pair_Inr [OF this] show ?thesis by auto
qed

theorem availability_write_respects_ceiling_witness:
  "\<exists>r w'. setCapabilityAvailability goals_registry (\<lambda>p a. True) (\<lambda>c. False) ''r2'' open_goals goals_world
       = (Inr r, w') \<and> cr_state r = BETA \<and> (\<exists>entry. cap_trail w' = [entry])"
proof -
  obtain r w' where "setCapabilityAvailability goals_registry (\<lambda>p a. True) (\<lambda>c. False) ''r2''
      open_goals goals_world = (Inr r, w')"
    using opened_goals_Inr unfolding opened_goals_def by blast
  from this availability_write_respects_ceiling [OF this] show ?thesis
    by (auto simp: open_goals_def goals_world_def)
qed

text \<open>
  a refused availability write leaves both tables as they were, whatever failed; an entry is
  appended to the trail only for an ABOVE_CEILING refusal, with outcome DENIED; and the one error
  that may follow a stored change is AUDIT_APPEND_FAILED, returned only when the append itself
  failed.
\<close>

theorem refused_availability_write_is_clean:
  assumes "setCapabilityAvailability registry authorize fails newId input w = (Inl e, w')"
    and "availability_wf (availability_table w)"
  shows "entitlement_table w' = entitlement_table w
    \<and> (e = CAP_AUDIT_APPEND_FAILED \<longrightarrow> fails CALL_AUDIT \<and> cap_trail w' = cap_trail w)
    \<and> (e \<noteq> CAP_AUDIT_APPEND_FAILED \<longrightarrow> availability_table w' = availability_table w
        \<and> (case e of
             CAP_ABOVE_CEILING c b \<Rightarrow>
               (\<exists>entry. cap_trail w' = cap_trail w @ [entry] \<and> ca_outcome entry = AUDIT_DENIED
                 \<and> ca_reason entry = REASON_BREACH b)
           | _ \<Rightarrow> cap_trail w' = cap_trail w))"
proof (cases "\<exists>d. write_availability fails newId input w = (Inl e, w')")
  case True
  then have wr: "write_availability fails newId input w = (Inl e, w')" by simp
  moreover have "e = CAP_AUDIT_APPEND_FAILED \<longrightarrow> fails CALL_AUDIT" "\<And>c b. e \<noteq> CAP_ABOVE_CEILING c b"
    using wr
    by (auto simp: write_availability_def availability_recordChange_def cap_record_cases Let_def
        split: if_splits option.splits prod.splits sum.splits)
  ultimately show ?thesis
    using write_availability_Inl [OF wr assms(2)] by (auto split: cap_error.split)
next
  case False
  then show ?thesis
    using assms(1)
    by (auto simp: setCapabilityAvailability_def cap_record_cases breach_entry_def
        split: if_splits option.splits)
qed

definition shipped_view :: registry_view where
  "shipped_view = \<lparr>rv_ids = CAPABILITY_IDS, rv_descriptors = CAPABILITY_REGISTRY\<rparr>"

theorem refused_availability_write_is_clean_witness:
  "availability_table (snd (setCapabilityAvailability shipped_view (\<lambda>p a. True) (\<lambda>c. False) ''r2''
      open_goals goals_world)) = [goals_row]
   \<and> length (cap_trail (snd (setCapabilityAvailability shipped_view (\<lambda>p a. True) (\<lambda>c. False) ''r2''
      open_goals goals_world))) = 1"
proof -
  let ?out = "setCapabilityAvailability shipped_view (\<lambda>p a. True) (\<lambda>c. False) ''r2'' open_goals goals_world"
  have o: "fst ?out = Inl (CAP_ABOVE_CEILING ''GOALS'' BREACH_NOT_IMPLEMENTED)" by code_simp
  then have r: "?out = (Inl (CAP_ABOVE_CEILING ''GOALS'' BREACH_NOT_IMPLEMENTED), snd ?out)"
    by (metis prod.collapse)
  have w: "availability_wf (availability_table goals_world)"
    by (simp add: availability_wf_def goals_world_def)
  show ?thesis
    using refused_availability_write_is_clean [OF r w] by (auto simp: goals_world_def)
qed

text \<open>
  no lost update.  When a row exists for the triple and a write naming version v succeeds, every
  later write for the same triple that still names v is refused without changing the table,
  whoever makes it and whatever it asks for.
\<close>

theorem availability_update_is_not_lost:
  assumes "setCapabilityAvailability registry authorize fails newId input w = (Inr r, w')"
    and "availability_wf (availability_table w)" "one_row_per_triple (availability_table w)"
    and "availability_findExact (sa_environment input) (sa_jurisdictionRef input)
           (sa_capabilityId input) (availability_table w) = Some before"
    and "sa_expectedVersion input = Some v" "sa_expectedVersion later = Some v"
    and "sa_environment later = sa_environment input"
    and "sa_jurisdictionRef later = sa_jurisdictionRef input"
    and "sa_capabilityId later = sa_capabilityId input"
  shows "cr_version before = v \<and> cr_version r = v + 1
    \<and> (\<exists>e w''. setCapabilityAvailability registry' authorize' fails' newId' later w' = (Inl e, w'')
        \<and> availability_table w'' = availability_table w')"
proof -
  let ?t = "availability_table w"
  let ?c = "(sa_state input, sa_reason input, principalRef (sa_principal input), sa_now input)"
  have wr: "write_availability fails newId input w = (Inr r, w')"
    using assms(1)
    by (auto simp: setCapabilityAvailability_def split: if_splits option.splits prod.splits sum.splits)
  obtain ok t' where u: "availability_updateState (cr_id before) v ?c ?t = (ok, t')" by fastforce
  have ok: "ok" and r: "cr_version r = v + 1" and t': "availability_table w' = t'"
    using wr assms(4,5) u
    by (auto simp: write_availability_def availability_recordChange_def cap_record_cases Let_def
        split: if_splits)
  obtain x where x: "x \<in> set ?t" "ar_environment x = sa_environment input"
    "ar_capabilityId x = sa_capabilityId input" "ar_jurisdictionRef x = sa_jurisdictionRef input"
    "before = toRecord x"
    using assms(4) by (rule findExact_row)
  have "availability_version (cr_id before) ?t = Some v"
    using availability_store.accepts [OF assms(2), of "cr_id before" v ?c] u ok by simp
  then have v: "cr_version before = v"
    using availability_version_find [OF assms(2) x(1)] x(5) by (simp add: toRecord_def)
  have w'wf: "availability_wf t'"
    using availability_store.keeps [OF assms(2), of "cr_id before" v ?c] u by simp
  have again: "availability_updateState (cr_id before) v d t' = (False, t')" for d
    using availability_store.second_writer_loses [OF assms(2)] u ok by simp
  have same_id: "cr_id y = cr_id before"
    if f: "availability_findExact (sa_environment input) (sa_jurisdictionRef input)
        (sa_capabilityId input) t' = Some y" for y
  proof -
    obtain z where z: "z \<in> set t'" "ar_environment z = sa_environment input"
      "ar_capabilityId z = sa_capabilityId input" "ar_jurisdictionRef z = sa_jurisdictionRef input"
      "y = toRecord z"
      using f by (rule findExact_row)
    obtain z0 where z0: "z0 \<in> set ?t" "ar_id z0 = ar_id z" "ar_environment z0 = ar_environment z"
      "ar_jurisdictionRef z0 = ar_jurisdictionRef z" "ar_capabilityId z0 = ar_capabilityId z"
      using updateState_back [OF u z(1)] by blast
    have "inj_on (\<lambda>r. (ar_environment r, ar_jurisdictionRef r, ar_capabilityId r)) (set ?t)"
      using assms(3) by (simp add: one_row_per_triple_def distinct_map)
    then have "z0 = x" using z0 z x by (auto dest!: inj_onD [where x = z0 and y = x])
    then show ?thesis using z0(2) z(5) x(5) by (simp add: toRecord_def)
  qed
  have present: "availability_findExact (sa_environment input) (sa_jurisdictionRef input)
        (sa_capabilityId input) t' \<noteq> None"
  proof (rule notI)
    obtain z where "z \<in> set t'" "ar_environment z = ar_environment x"
      "ar_jurisdictionRef z = ar_jurisdictionRef x" "ar_capabilityId z = ar_capabilityId x"
      using updateState_forth [OF u x(1)] by blast
    moreover assume "availability_findExact (sa_environment input) (sa_jurisdictionRef input)
        (sa_capabilityId input) t' = None"
    then have "\<forall>r \<in> set t'. \<not> (ar_environment r = sa_environment input
        \<and> ar_capabilityId r = sa_capabilityId input \<and> ar_jurisdictionRef r = sa_jurisdictionRef input)"
      by (simp add: availability_findExact_def find_first_None)
    ultimately show False using x by simp
  qed
  obtain y where y: "availability_findExact (sa_environment later) (sa_jurisdictionRef later)
      (sa_capabilityId later) (availability_table w') = Some y" "cr_id y = cr_id before"
  proof -
    obtain y where "availability_findExact (sa_environment input) (sa_jurisdictionRef input)
        (sa_capabilityId input) t' = Some y"
      using present unfolding not_None_eq by blast
    with same_id [OF this] show ?thesis by (intro that [of y]) (simp_all add: assms(7-9) t')
  qed
  have "\<exists>e w''. write_availability fails' newId' later w' = (Inl e, w'')
        \<and> availability_table w'' = availability_table w'"
    by (simp add: write_availability_def y [unfolded t'] assms(6) again t')
  then have "\<exists>e w''. setCapabilityAvailability registry' authorize' fails' newId' later w' = (Inl e, w'')
        \<and> availability_table w'' = availability_table w'"
    using setCapabilityAvailability_shape [of registry' authorize' fails' newId' later w'] by auto
  then show ?thesis using v r by blast
qed

theorem availability_update_is_not_lost_witness:
  "\<exists>r w'. setCapabilityAvailability goals_registry (\<lambda>p a. True) (\<lambda>c. False) ''r2'' open_goals goals_world
       = (Inr r, w')
     \<and> (\<exists>e w''. setCapabilityAvailability goals_registry (\<lambda>p a. True) (\<lambda>c. False) ''r3''
           (open_goals\<lparr>sa_state := DISABLED\<rparr>) w' = (Inl e, w'')
         \<and> availability_table w'' = availability_table w')"
proof -
  obtain r w' where h: "setCapabilityAvailability goals_registry (\<lambda>p a. True) (\<lambda>c. False) ''r2''
      open_goals goals_world = (Inr r, w')"
    using opened_goals_Inr unfolding opened_goals_def by blast
  have f: "availability_findExact (sa_environment open_goals) (sa_jurisdictionRef open_goals)
      (sa_capabilityId open_goals) (availability_table goals_world) = Some (toRecord goals_row)"
    by code_simp
  show ?thesis
    using availability_update_is_not_lost [OF h _ _ f, of 4 "open_goals\<lparr>sa_state := DISABLED\<rparr>"] h
    by (simp add: availability_wf_def one_row_per_triple_def goals_world_def open_goals_def)
qed

lemma factsFor_Some:
  "entitlement_findByCapability tn cap t = Some e \<Longrightarrow> entitlement_factsFor tn cap t
     = EROW (en_id e) (en_status e) (en_effectiveFrom e) (en_effectiveTo e) (en_version e)"
  by (simp add: entitlement_factsFor_def)

lemma factsFor_cong:
  "entitlement_findByCapability tn cap t' = entitlement_findByCapability tn cap t \<Longrightarrow>
     entitlement_factsFor tn cap t' = entitlement_factsFor tn cap t"
  by (simp add: entitlement_factsFor_def)

lemma revoke_Inr:
  assumes "revokeTenantCapabilityEntitlement registry authorize fails input w = (Inr e, w')"
  obtains ex t' where
    "entitlement_findByCapability (rk_tenantId input) (rk_capabilityId input) (entitlement_table w) = Some ex"
    "entitlement_transition (rk_tenantId input) (en_id ex) (en_version ex) (revoke_change input ex)
       (entitlement_table w) = (True, t')"
    "entitlement_table w' = t'" "e = apply_change (revoke_change input ex) ex"
    "authorize (rk_principal input) MANAGE_ENTITLEMENT"
proof -
  obtain ex where ex: "entitlement_findByCapability (rk_tenantId input) (rk_capabilityId input)
      (entitlement_table w) = Some ex"
    using assms by (auto simp: revokeTenantCapabilityEntitlement_def split: if_splits option.splits)
  obtain ok t' where u: "entitlement_transition (rk_tenantId input) (en_id ex) (en_version ex)
      (revoke_change input ex) (entitlement_table w) = (ok, t')" by fastforce
  show ?thesis
    using assms ex u that [OF ex, of t']
    by (auto simp: revokeTenantCapabilityEntitlement_def cap_record_cases Let_def split: if_splits)
qed

lemma grant_Inr:
  "grantTenantCapabilityEntitlement registry authorize fails newId input w = (Inr e, w') \<Longrightarrow>
     authorize (gr_principal input) MANAGE_ENTITLEMENT
     \<and> write_grant fails newId input w = (Inr e, w')"
  by (auto simp: grantTenantCapabilityEntitlement_def split: if_splits option.splits)

text \<open>
  a granted entitlement opens exactly its window, for its own tenant and capability only.
  After a successful grant, whether the row was new or had been revoked or had lapsed, gate five's facts satisfy
  at an instant exactly when it lies in the requested window; no other tenant's or
  capability's facts change; and the table keeps its constraints.
\<close>

theorem grant_opens_exactly_its_window:
  assumes "grantTenantCapabilityEntitlement registry authorize fails newId input w = (Inr e, w')"
    and "entitlement_wf (entitlement_table w)"
  shows "authorize (gr_principal input) ''capability.entitlement.manage''
    \<and> entitlement_wf (entitlement_table w')
    \<and> (\<exists>rid s f t v. entitlement_factsFor (gr_tenantId input) (gr_capabilityId input) (entitlement_table w')
          = EROW rid s f t v
        \<and> (\<forall>at. entitlementSatisfiesAt s f t at \<longleftrightarrow>
              gr_effectiveFrom input \<le> at
              \<and> (case gr_effectiveTo input of None \<Rightarrow> True | Some end \<Rightarrow> at < end)))
    \<and> (\<forall>tn cap. (tn, cap) \<noteq> (gr_tenantId input, gr_capabilityId input) \<longrightarrow>
          entitlement_factsFor tn cap (entitlement_table w')
            = entitlement_factsFor tn cap (entitlement_table w))"
proof -
  have a: "authorize (gr_principal input) MANAGE_ENTITLEMENT"
    and wr: "write_grant fails newId input w = (Inr e, w')"
    using grant_Inr [OF assms(1)] by simp_all
  note g = write_grant_Inr [OF assms(2) wr]
  have "entitlement_factsFor (gr_tenantId input) (gr_capabilityId input) (entitlement_table w')
      = EROW (en_id e) ACTIVE (gr_effectiveFrom input) (gr_effectiveTo input) (en_version e)"
    using g factsFor_Some [of _ _ _ e] by metis
  moreover have "entitlementSatisfiesAt ACTIVE (gr_effectiveFrom input) (gr_effectiveTo input) at \<longleftrightarrow>
      gr_effectiveFrom input \<le> at
      \<and> (case gr_effectiveTo input of None \<Rightarrow> True | Some end \<Rightarrow> at < end)" for at
    by (simp add: entitlementSatisfiesAt_def)
  moreover have "entitlement_factsFor tn cap (entitlement_table w')
      = entitlement_factsFor tn cap (entitlement_table w)"
    if "(tn, cap) \<noteq> (gr_tenantId input, gr_capabilityId input)" for tn cap
    by (rule factsFor_cong) (use g that in blast)
  ultimately show ?thesis using a g unfolding MANAGE_ENTITLEMENT_def by blast
qed

definition grant_goals :: grant_input where
  "grant_goals = \<lparr>gr_principal = operator_principal, gr_tenantId = ''t1'', gr_capabilityId = ''GOALS'',
     gr_sourceRef = ''manual'', gr_reason = ''pilot'', gr_effectiveFrom = 5, gr_effectiveTo = Some 9,
     gr_now = 4\<rparr>"

definition granted_goals :: "(cap_error, entitlement) outcome \<times> cap_world" where
  "granted_goals = grantTenantCapabilityEntitlement goals_registry (\<lambda>p a. True) (\<lambda>c. False) ''e1''
     grant_goals goals_world"

lemma granted_goals_Inr: "\<exists>e w'. granted_goals = (Inr e, w') \<and> en_status e = ACTIVE"
proof -
  have "result_map (fst granted_goals) en_status = Inr ACTIVE" by code_simp
  from result_pair_Inr [OF this] show ?thesis by auto
qed

theorem grant_opens_exactly_its_window_witness:
  "\<exists>rid s f t v. entitlement_factsFor ''t1'' ''GOALS'' (entitlement_table (snd granted_goals)) = EROW rid s f t v
     \<and> entitlementSatisfiesAt s f t 5 \<and> \<not> entitlementSatisfiesAt s f t 9"
proof -
  obtain e w' where g: "granted_goals = (Inr e, w')" using granted_goals_Inr by blast
  have w: "entitlement_wf (entitlement_table goals_world)"
    by (simp add: entitlement_wf_def goals_world_def)
  from grant_opens_exactly_its_window [OF g [unfolded granted_goals_def] w]
  obtain rid s f t v where f: "entitlement_factsFor (gr_tenantId grant_goals) (gr_capabilityId grant_goals)
      (entitlement_table w') = EROW rid s f t v"
    and sat: "\<forall>at. entitlementSatisfiesAt s f t at \<longleftrightarrow> gr_effectiveFrom grant_goals \<le> at
      \<and> (case gr_effectiveTo grant_goals of None \<Rightarrow> True | Some end \<Rightarrow> at < end)"
    by blast
  have "entitlementSatisfiesAt s f t 5" "\<not> entitlementSatisfiesAt s f t 9"
    unfolding sat [rule_format] by (simp_all add: grant_goals_def)
  moreover have "gr_tenantId grant_goals = ''t1''" "gr_capabilityId grant_goals = ''GOALS''"
    by (simp_all add: grant_goals_def)
  ultimately show ?thesis using f g by (metis snd_conv)
qed

text \<open>
  revocation is final until a new grant.  After a successful revoke the tenant's entitlement
  satisfies gate five at no instant at all, past or future; its window is closed no later than the
  revocation instant (or is empty, for a grant that had not started) and never extended; and no other
  tenant's or capability's facts change.
\<close>

theorem revoke_closes_the_window:
  assumes "revokeTenantCapabilityEntitlement registry authorize fails input w = (Inr e, w')"
    and "entitlement_wf (entitlement_table w)"
  shows "authorize (rk_principal input) ''capability.entitlement.manage''
    \<and> entitlement_wf (entitlement_table w')
    \<and> (\<exists>rid s f t v. entitlement_factsFor (rk_tenantId input) (rk_capabilityId input) (entitlement_table w')
          = EROW rid s f (Some t) v
        \<and> (\<forall>at. \<not> entitlementSatisfiesAt s f (Some t) at)
        \<and> t \<le> max (rk_now input) f
        \<and> (\<forall>rid' s' f' t' v'. entitlement_factsFor (rk_tenantId input) (rk_capabilityId input)
              (entitlement_table w) = EROW rid' s' f' (Some t') v' \<longrightarrow> f' \<le> t' \<longrightarrow> t \<le> t'))
    \<and> (\<forall>tn cap. (tn, cap) \<noteq> (rk_tenantId input, rk_capabilityId input) \<longrightarrow>
          entitlement_factsFor tn cap (entitlement_table w')
            = entitlement_factsFor tn cap (entitlement_table w))"
proof -
  obtain ex t' where r:
    "entitlement_findByCapability (rk_tenantId input) (rk_capabilityId input) (entitlement_table w) = Some ex"
    "entitlement_transition (rk_tenantId input) (en_id ex) (en_version ex) (revoke_change input ex)
       (entitlement_table w) = (True, t')"
    "entitlement_table w' = t'" "e = apply_change (revoke_change input ex) ex"
    "authorize (rk_principal input) MANAGE_ENTITLEMENT"
    using assms(1) by (rule revoke_Inr)
  let ?c = "revoke_change input ex"
  note find' = transition_find [OF assms(2) r(1,2), folded r(3)]
  have c: "ch_status ?c = REVOKED" "ch_effectiveFrom ?c = en_effectiveFrom ex"
    by (simp_all add: revoke_change_def Let_def)
  obtain t where t: "ch_effectiveTo ?c = Some t" "t \<le> max (rk_now input) (en_effectiveFrom ex)"
    "\<And>t'. en_effectiveTo ex = Some t' \<Longrightarrow> en_effectiveFrom ex \<le> t' \<Longrightarrow> t \<le> t'"
  proof (cases "en_effectiveTo ex")
    case None
    then show ?thesis
      by (intro that [of "max (rk_now input) (en_effectiveFrom ex)"]) (simp_all add: revoke_change_def)
  next
    case (Some a)
    show ?thesis
    proof (cases "a \<le> rk_now input")
      case True
      then show ?thesis using Some by (intro that [of a]) (simp_all add: revoke_change_def)
    next
      case False
      then show ?thesis using Some
        by (intro that [of "max (rk_now input) (en_effectiveFrom ex)"]) (simp_all add: revoke_change_def)
    qed
  qed
  have now: "entitlement_factsFor (rk_tenantId input) (rk_capabilityId input) (entitlement_table w')
      = EROW (en_id ex) REVOKED (en_effectiveFrom ex) (Some t) (en_version ex + 1)"
    using factsFor_Some [OF find'(1)] c t by (simp add: apply_change_def)
  have before: "entitlement_factsFor (rk_tenantId input) (rk_capabilityId input) (entitlement_table w)
      = EROW (en_id ex) (en_status ex) (en_effectiveFrom ex) (en_effectiveTo ex) (en_version ex)"
    by (rule factsFor_Some [OF r(1)])
  have others: "entitlement_factsFor tn cap (entitlement_table w')
      = entitlement_factsFor tn cap (entitlement_table w)"
    if "(tn, cap) \<noteq> (rk_tenantId input, rk_capabilityId input)" for tn cap
    by (rule factsFor_cong) (use find'(2) that in blast)
  show ?thesis
    unfolding now before
    using r(5) find'(3) t others by (simp add: MANAGE_ENTITLEMENT_def entitlementSatisfiesAt_def)
qed

definition revoke_goals :: revoke_input where
  "revoke_goals = \<lparr>rk_principal = operator_principal, rk_tenantId = ''t1'', rk_capabilityId = ''GOALS'',
     rk_reason = ''ended'', rk_now = 7\<rparr>"

definition revoked_goals :: "(cap_error, entitlement) outcome \<times> cap_world" where
  "revoked_goals = revokeTenantCapabilityEntitlement goals_registry (\<lambda>p a. True) (\<lambda>c. False) revoke_goals
     (snd granted_goals)"

theorem revoke_closes_the_window_witness:
  "\<exists>rid s f t v. entitlement_factsFor ''t1'' ''GOALS'' (entitlement_table (snd revoked_goals)) = EROW rid s f (Some t) v
     \<and> \<not> entitlementSatisfiesAt s f (Some t) 6"
proof -
  have "result_map (fst revoked_goals) en_status = Inr REVOKED" by code_simp
  from result_pair_Inr [OF this] obtain e w' where g: "revoked_goals = (Inr e, w')" by auto
  have ids: "map er_id (entitlement_table (snd granted_goals)) = [''e1'']" by code_simp
  have w: "entitlement_wf (entitlement_table (snd granted_goals))"
  proof -
    have "map (\<lambda>r. (er_tenantId r, er_capabilityId r)) (entitlement_table (snd granted_goals))
        = [(''t1'', ''GOALS'')]" by code_simp
    then show ?thesis using ids by (simp add: entitlement_wf_def)
  qed
  from revoke_closes_the_window [OF g [unfolded revoked_goals_def] w]
  obtain rid s f t v where f: "entitlement_factsFor (rk_tenantId revoke_goals) (rk_capabilityId revoke_goals)
      (entitlement_table w') = EROW rid s f (Some t) v"
    and sat: "\<forall>at. \<not> entitlementSatisfiesAt s f (Some t) at"
    by blast
  moreover have "rk_tenantId revoke_goals = ''t1''" "rk_capabilityId revoke_goals = ''GOALS''"
    by (simp_all add: revoke_goals_def)
  ultimately show ?thesis using g by (metis snd_conv)
qed

end
