(* ===== verification/Capability_Resolver.thy ===== *)
theory Capability_Resolver
  imports Capability_Store
begin

text \<open>
  The availability resolver and its client face: \<open>ResolveCapabilityAvailability\<close>
  (\<open>application/use-cases/resolve-capability-availability.ts\<close>) and \<open>ResolveClientCapabilityView\<close>
  (\<open>client-capability-view.ts\<close>).

  The constructor's ports are the record \<open>resolver_ports\<close> of functions, as the code injects them; a
  port that throws answers None (the audit port: False).  The environment is an argument of its own, never a
  field of the input, as in the code.
\<close>

section \<open>Ports and snapshot\<close>

record resolver_ports =
  p_ceiling :: "string \<Rightarrow> string option \<Rightarrow> string \<Rightarrow> millis \<Rightarrow> ceiling_facts option"
  p_availability :: "string \<Rightarrow> string option \<Rightarrow> string \<Rightarrow> availability_facts option"
  p_entitlement :: "string \<Rightarrow> string \<Rightarrow> string \<Rightarrow> entitlement_facts option"
  p_consent :: "string \<Rightarrow> string \<Rightarrow> string \<Rightarrow> string \<Rightarrow> millis \<Rightarrow> consent_facts option"
  p_licences :: "string \<Rightarrow> string option \<Rightarrow> string \<Rightarrow> millis \<Rightarrow> licensing_facts option"
  p_provider :: "string \<Rightarrow> string \<Rightarrow> provider_status option"
  p_audit :: "cap_audit_entry \<Rightarrow> bool"

record resolution_subject =
  rs_tenantId :: string
  rs_userId :: "string option"

record resolve_request =
  ri_subject :: resolution_subject
  ri_now :: millis
  ri_capabilityIds :: "string list option"

record resolution_set =
  rset_environment :: string
  rset_resolvedAt :: millis
  rset_resolutions :: "resolution list"

text \<open>The only shipped provider source (\<open>no-providers-configured-source.ts\<close>).\<close>

definition noProvidersConfigured :: "string \<Rightarrow> string \<Rightarrow> provider_status option" where
  "noProvidersConfigured providerKind environment = Some NOT_CONFIGURED"

fun provider_statuses ::
  "resolver_ports \<Rightarrow> string \<Rightarrow> string list \<Rightarrow> (string \<times> provider_status) list option" where
  "provider_statuses ports environment [] = Some []"
| "provider_statuses ports environment (kind # kinds) =
     (case p_provider ports kind environment of
        None \<Rightarrow> None
      | Some s \<Rightarrow> map_option (\<lambda>rest. (kind, s) # rest) (provider_statuses ports environment kinds))"

definition cleared_of :: "ceiling_facts \<Rightarrow> string \<Rightarrow> cleared_facts option" where
  "cleared_of ceiling i =
     (case ceiling of
        RESOLVED_CEILING s a v cs \<Rightarrow> List.find (\<lambda>c. cf_capabilityId c = i) cs
      | _ \<Rightarrow> None)"

definition entitlement_snapshot ::
  "resolver_ports \<Rightarrow> resolution_subject \<Rightarrow> string \<Rightarrow> entitlement_facts option" where
  "entitlement_snapshot ports subject i =
     (case rs_userId subject of
        None \<Rightarrow> Some NO_ENTITLEMENT
      | Some user \<Rightarrow> p_entitlement ports (rs_tenantId subject) user i)"

definition consent_snapshot ::
  "resolver_ports \<Rightarrow> resolution_subject \<Rightarrow> millis \<Rightarrow> string option \<Rightarrow> cleared_facts option
     \<Rightarrow> consent_facts option" where
  "consent_snapshot ports subject now scope cl =
     (case (cl, scope, rs_userId subject) of
        (Some c, Some s, Some user) \<Rightarrow>
          (case processingBasis c of
             CONSENT_BASIS purposeRef \<Rightarrow> p_consent ports (rs_tenantId subject) user purposeRef s now
           | _ \<Rightarrow> Some CONSENT_NOT_EVALUATED)
      | _ \<Rightarrow> Some CONSENT_NOT_EVALUATED)"

definition licence_snapshot ::
  "resolver_ports \<Rightarrow> resolution_subject \<Rightarrow> millis \<Rightarrow> string option \<Rightarrow> cleared_facts option
     \<Rightarrow> licensing_facts option" where
  "licence_snapshot ports subject now scope cl =
     (case (cl, scope) of
        (Some c, Some s) \<Rightarrow>
          if requiredLicenceTypeRefs c \<noteq> []
          then p_licences ports (rs_tenantId subject) (rs_userId subject) s now
          else Some LICENSING_NOT_EVALUATED
      | _ \<Rightarrow> Some LICENSING_NOT_EVALUATED)"

definition provider_snapshot ::
  "resolver_ports \<Rightarrow> string \<Rightarrow> cleared_facts option \<Rightarrow> provider_facts option" where
  "provider_snapshot ports environment cl =
     (case cl of
        Some c \<Rightarrow>
          if requiredProviderKinds c \<noteq> []
          then map_option STATUSES (provider_statuses ports environment (requiredProviderKinds c))
          else Some PROVIDERS_NOT_EVALUATED
      | None \<Rightarrow> Some PROVIDERS_NOT_EVALUATED)"

definition resolved_scope :: "ceiling_facts \<Rightarrow> string option" where
  "resolved_scope ceiling = (case ceiling of RESOLVED_CEILING s a v cs \<Rightarrow> Some s | _ \<Rightarrow> None)"

definition snapshotFor ::
  "resolver_ports \<Rightarrow> string \<Rightarrow> string \<Rightarrow> capability_descriptor \<Rightarrow> ceiling_facts
     \<Rightarrow> resolution_subject \<Rightarrow> millis \<Rightarrow> gate_inputs option" where
  "snapshotFor ports environment i d ceiling subject now =
     (let scope = resolved_scope ceiling;
          cl = cleared_of ceiling i
      in case p_availability ports environment scope i of
           None \<Rightarrow> None
         | Some availability \<Rightarrow>
         (case entitlement_snapshot ports subject i of
           None \<Rightarrow> None
         | Some entitlement \<Rightarrow>
         (case consent_snapshot ports subject now scope cl of
           None \<Rightarrow> None
         | Some consent \<Rightarrow>
         (case licence_snapshot ports subject now scope cl of
           None \<Rightarrow> None
         | Some licensing \<Rightarrow>
         (case provider_snapshot ports environment cl of
           None \<Rightarrow> None
         | Some providers \<Rightarrow>
             Some \<lparr>gi_capabilityId = i, gi_environment = environment,
               gi_descriptor = descriptorFactsFor d environment, gi_ceiling = ceiling,
               gi_availability = availability, gi_entitlement = entitlement, gi_consent = consent,
               gi_licensing = licensing, gi_providers = providers\<rparr>)))))"

section \<open>The audited refusal\<close>

definition CEILING_GATES :: "gate list" where
  "CEILING_GATES = [G_DESCRIPTOR, G_ENVIRONMENT, G_JURISDICTION, G_AVAILABILITY]"

definition row_allows :: "gate_inputs \<Rightarrow> bool" where
  "row_allows inputs =
     (case gi_availability inputs of AROW i s v \<Rightarrow> isAllowingState s | NO_ROW b \<Rightarrow> False)"

definition entitlement_satisfied :: "gate_inputs \<Rightarrow> millis \<Rightarrow> bool" where
  "entitlement_satisfied inputs now =
     (case gi_entitlement inputs of
        EROW i s f t v \<Rightarrow> entitlementSatisfiesAt s f t now | NO_ENTITLEMENT \<Rightarrow> False)"

definition above_ceiling_entry ::
  "gate_inputs \<Rightarrow> resolution_subject \<Rightarrow> millis \<Rightarrow> string \<Rightarrow> gate \<Rightarrow> denial_reason \<Rightarrow> cap_audit_entry" where
  "above_ceiling_entry inputs subject now c g reason =
     \<lparr>ca_occurredAt = now,
      ca_actorRef = (case rs_userId subject of None \<Rightarrow> ''system:resolver'' | Some u \<Rightarrow> u),
      ca_tenantRef = Some (rs_tenantId subject),
      ca_action = ''capability.resolution.denied_above_ceiling'', ca_resourceType = ''capability'',
      ca_resourceId = c, ca_outcome = AUDIT_DENIED, ca_reason = REASON_GATE g reason,
      ca_before = None,
      ca_after = Some
        [(''gate'', JString (gate_text g)),
         (''denialReason'', JString (denial_text reason)),
         (''availabilityState'', case gi_availability inputs of
            AROW i s v \<Rightarrow> JString (state_text s) | NO_ROW b \<Rightarrow> JNull),
         (''entitlementStatus'', case gi_entitlement inputs of
            EROW i s f t v \<Rightarrow> JString (status_text s) | NO_ENTITLEMENT \<Rightarrow> JNull)]\<rparr>"

definition auditAboveCeilingDenial ::
  "resolver_ports \<Rightarrow> resolution \<Rightarrow> gate_inputs \<Rightarrow> resolution_subject \<Rightarrow> millis
     \<Rightarrow> cap_audit_entry list \<Rightarrow> (cap_error, unit) outcome \<times> cap_audit_entry list" where
  "auditAboveCeilingDenial ports resolution inputs subject now trail =
     (case resolution of
        ALLOWED c s p \<Rightarrow> (Inr (), trail)
      | DENIED c g reason p \<Rightarrow>
          if g \<notin> set CEILING_GATES then (Inr (), trail)
          else let rowBeyondDescriptorGates =
                     row_allows inputs \<and> g \<noteq> G_AVAILABILITY \<and> g \<noteq> G_ENVIRONMENT
               in if \<not> rowBeyondDescriptorGates \<and> \<not> entitlement_satisfied inputs now
                  then (Inr (), trail)
                  else let entry = above_ceiling_entry inputs subject now c g reason
                       in if p_audit ports entry then (Inr (), trail @ [entry])
                          else (Inl CAP_AUDIT_APPEND_FAILED, trail))"

section \<open>The resolver\<close>

fun resolve_loop ::
  "resolver_ports \<Rightarrow> registry_view \<Rightarrow> string \<Rightarrow> ceiling_facts \<Rightarrow> resolution_subject \<Rightarrow> millis
     \<Rightarrow> string list \<Rightarrow> cap_audit_entry list
     \<Rightarrow> (cap_error, resolution list) outcome \<times> cap_audit_entry list" where
  "resolve_loop ports registry environment ceiling subject now [] trail = (Inr [], trail)"
| "resolve_loop ports registry environment ceiling subject now (i # ids) trail =
     (case map_of (rv_descriptors registry) i of
        None \<Rightarrow> (Inl (CAP_UNKNOWN_CAPABILITY i), trail)
      | Some d \<Rightarrow>
          (case snapshotFor ports environment i d ceiling subject now of
             None \<Rightarrow> (Inl CAP_RESOLUTION_FAILED, trail)
           | Some inputs \<Rightarrow>
               let resolution = resolveCapabilityGates inputs now
               in (case auditAboveCeilingDenial ports resolution inputs subject now trail of
                     (Inl e, trail') \<Rightarrow> (Inl e, trail')
                   | (Inr u, trail') \<Rightarrow>
                       (case resolve_loop ports registry environment ceiling subject now ids trail' of
                          (Inl e, trail'') \<Rightarrow> (Inl e, trail'')
                        | (Inr rs, trail'') \<Rightarrow> (Inr (resolution # rs), trail'')))))"

definition resolveCapabilityAvailability ::
  "resolver_ports \<Rightarrow> registry_view \<Rightarrow> string \<Rightarrow> resolve_request \<Rightarrow> cap_audit_entry list
     \<Rightarrow> (cap_error, resolution_set) outcome \<times> cap_audit_entry list" where
  "resolveCapabilityAvailability ports registry environment input trail =
     (let ids = (case ri_capabilityIds input of None \<Rightarrow> rv_ids registry | Some is \<Rightarrow> is)
      in case List.find (\<lambda>i. i \<notin> set (rv_ids registry)) ids of
           Some i \<Rightarrow> (Inl (CAP_UNKNOWN_CAPABILITY i), trail)
         | None \<Rightarrow>
             (case p_ceiling ports (rs_tenantId (ri_subject input)) (rs_userId (ri_subject input))
                     environment (ri_now input) of
                None \<Rightarrow> (Inl CAP_RESOLUTION_FAILED, trail)
              | Some ceiling \<Rightarrow>
                  (case resolve_loop ports registry environment ceiling (ri_subject input) (ri_now input)
                          ids trail of
                     (Inl e, trail') \<Rightarrow> (Inl e, trail')
                   | (Inr rs, trail') \<Rightarrow>
                       (Inr \<lparr>rset_environment = environment, rset_resolvedAt = ri_now input,
                             rset_resolutions = rs\<rparr>, trail'))))"

record client_capability_view =
  cv_environment :: string
  cv_resolvedAt :: millis
  cv_capabilities :: "client_entry list"

definition exposure_of :: "registry_view \<Rightarrow> string \<Rightarrow> exposure_facts" where
  "exposure_of registry i =
     (case map_of (rv_descriptors registry) i of
        None \<Rightarrow> \<lparr>ef_hidden = True, ef_providerPendingExplainable = False\<rparr>
      | Some d \<Rightarrow> clientExposureFactsFor d)"

definition resolveClientCapabilityView ::
  "resolver_ports \<Rightarrow> registry_view \<Rightarrow> string \<Rightarrow> resolution_subject \<Rightarrow> millis \<Rightarrow> cap_audit_entry list
     \<Rightarrow> (cap_error, client_capability_view) outcome \<times> cap_audit_entry list" where
  "resolveClientCapabilityView ports registry environment subject now trail =
     (case resolveCapabilityAvailability ports registry environment
             \<lparr>ri_subject = subject, ri_now = now, ri_capabilityIds = None\<rparr> trail of
        (Inl e, trail') \<Rightarrow> (Inl e, trail')
      | (Inr rset, trail') \<Rightarrow>
          (Inr \<lparr>cv_environment = rset_environment rset, cv_resolvedAt = rset_resolvedAt rset,
                cv_capabilities = toClientView (rset_resolutions rset) (exposure_of registry)\<rparr>, trail'))"

section \<open>Lemmas\<close>

definition snapshot_of ::
  "resolver_ports \<Rightarrow> registry_view \<Rightarrow> string \<Rightarrow> ceiling_facts \<Rightarrow> resolution_subject \<Rightarrow> millis
     \<Rightarrow> string \<Rightarrow> gate_inputs option" where
  "snapshot_of ports registry environment ceiling subject now i =
     (case map_of (rv_descriptors registry) i of
        None \<Rightarrow> None
      | Some d \<Rightarrow> snapshotFor ports environment i d ceiling subject now)"

definition above_ceiling :: "gate_inputs \<Rightarrow> millis \<Rightarrow> bool" where
  "above_ceiling inputs now \<longleftrightarrow>
     (case gate_of (resolveCapabilityGates inputs now) of
        None \<Rightarrow> False
      | Some g \<Rightarrow> g \<in> {G_DESCRIPTOR, G_ENVIRONMENT, G_JURISDICTION, G_AVAILABILITY}
          \<and> (g \<in> {G_DESCRIPTOR, G_JURISDICTION} \<and> row_allows inputs \<or> entitlement_satisfied inputs now))"

definition attempt_entries ::
  "resolution_subject \<Rightarrow> millis \<Rightarrow> gate_inputs \<Rightarrow> cap_audit_entry list" where
  "attempt_entries subject now inputs =
     (if above_ceiling inputs now
      then case resolveCapabilityGates inputs now of
             DENIED c g r p \<Rightarrow> [above_ceiling_entry inputs subject now c g r]
           | ALLOWED c s p \<Rightarrow> []
      else [])"

lemma snapshot_fields:
  assumes "snapshotFor ports environment i d ceiling subject now = Some inputs"
  shows "gi_capabilityId inputs = i \<and> gi_environment inputs = environment \<and> gi_ceiling inputs = ceiling
    \<and> gi_descriptor inputs = descriptorFactsFor d environment
    \<and> p_availability ports environment (resolved_scope ceiling) i = Some (gi_availability inputs)
    \<and> entitlement_snapshot ports subject i = Some (gi_entitlement inputs)"
  using assms by (auto simp: snapshotFor_def Let_def split: option.splits)

lemma snapshot_port_fields:
  assumes "snapshotFor ports environment i d ceiling subject now = Some inputs"
  shows "consent_snapshot ports subject now (resolved_scope ceiling) (cleared_of ceiling i) = Some (gi_consent inputs)
    \<and> licence_snapshot ports subject now (resolved_scope ceiling) (cleared_of ceiling i) = Some (gi_licensing inputs)
    \<and> provider_snapshot ports environment (cleared_of ceiling i) = Some (gi_providers inputs)"
  using assms by (auto simp: snapshotFor_def Let_def split: option.splits)

text \<open>The statuses asked of the providers are what their port answered.\<close>

lemma provider_statuses_Some:
  "provider_statuses ports environment kinds = Some ss \<Longrightarrow> map_of ss k = Some v \<Longrightarrow> p_provider ports k environment = Some v"
  by (induction kinds arbitrary: ss) (auto split: option.splits if_splits)

lemma audit_step:
  "auditAboveCeilingDenial ports (resolveCapabilityGates inputs now) inputs subject now trail
     = (if list_all (p_audit ports) (attempt_entries subject now inputs)
        then (Inr (), trail @ attempt_entries subject now inputs)
        else (Inl CAP_AUDIT_APPEND_FAILED, trail))"
proof (cases "resolveCapabilityGates inputs now")
  case (ALLOWED c s p)
  then show ?thesis by (simp add: auditAboveCeilingDenial_def attempt_entries_def above_ceiling_def)
next
  case (DENIED c g r p)
  then show ?thesis
    by (cases g) (auto simp: auditAboveCeilingDenial_def attempt_entries_def above_ceiling_def
        CEILING_GATES_def Let_def)
qed

lemma resolve_loop_Inr:
  "resolve_loop ports registry environment ceiling subject now ids trail = (Inr rs, trail') \<Longrightarrow>
     \<exists>ins. map (snapshot_of ports registry environment ceiling subject now) ids = map Some ins
       \<and> rs = map (\<lambda>i. resolveCapabilityGates i now) ins
       \<and> trail' = trail @ concat (map (attempt_entries subject now) ins)
       \<and> list_all (p_audit ports) (concat (map (attempt_entries subject now) ins))"
proof (induction ids arbitrary: trail rs)
  case (Cons i ids)
  obtain d where d: "map_of (rv_descriptors registry) i = Some d"
    using Cons.prems by (auto split: option.splits)
  obtain inputs where inputs: "snapshotFor ports environment i d ceiling subject now = Some inputs"
    using Cons.prems d by (auto split: option.splits)
  have ok: "list_all (p_audit ports) (attempt_entries subject now inputs)"
    using Cons.prems d inputs by (auto simp: audit_step split: if_splits)
  obtain rs0 where r: "resolve_loop ports registry environment ceiling subject now ids
      (trail @ attempt_entries subject now inputs) = (Inr rs0, trail')"
    and rs: "rs = resolveCapabilityGates inputs now # rs0"
    using Cons.prems d inputs ok by (auto simp: audit_step split: prod.splits sum.splits)
  from Cons.IH [OF r] obtain ins where
    "map (snapshot_of ports registry environment ceiling subject now) ids = map Some ins"
    "rs0 = map (\<lambda>i. resolveCapabilityGates i now) ins"
    "trail' = (trail @ attempt_entries subject now inputs) @ concat (map (attempt_entries subject now) ins)"
    "list_all (p_audit ports) (concat (map (attempt_entries subject now) ins))" by blast
  moreover have "snapshot_of ports registry environment ceiling subject now i = Some inputs"
    using d inputs by (simp add: snapshot_of_def)
  ultimately show ?case
    using ok rs by (intro exI [of _ "inputs # ins"]) simp
qed simp

lemma resolver_Inr:
  assumes "resolveCapabilityAvailability ports registry environment input trail = (Inr rset, trail')"
  obtains ceiling ins where
    "p_ceiling ports (rs_tenantId (ri_subject input)) (rs_userId (ri_subject input)) environment
       (ri_now input) = Some ceiling"
    "map (snapshot_of ports registry environment ceiling (ri_subject input) (ri_now input))
       (case ri_capabilityIds input of None \<Rightarrow> rv_ids registry | Some is \<Rightarrow> is) = map Some ins"
    "rset_resolutions rset = map (\<lambda>i. resolveCapabilityGates i (ri_now input)) ins"
    "trail' = trail @ concat (map (attempt_entries (ri_subject input) (ri_now input)) ins)"
    "set (case ri_capabilityIds input of None \<Rightarrow> rv_ids registry | Some is \<Rightarrow> is) \<subseteq> set (rv_ids registry)"
    "rset_environment rset = environment" "rset_resolvedAt rset = ri_now input"
proof -
  let ?ids = "case ri_capabilityIds input of None \<Rightarrow> rv_ids registry | Some is \<Rightarrow> is"
  have f: "List.find (\<lambda>i. i \<notin> set (rv_ids registry)) ?ids = None"
    using assms by (auto simp: resolveCapabilityAvailability_def Let_def split: option.splits)
  obtain ceiling rs where c: "p_ceiling ports (rs_tenantId (ri_subject input)) (rs_userId (ri_subject input))
      environment (ri_now input) = Some ceiling"
    and l: "resolve_loop ports registry environment ceiling (ri_subject input) (ri_now input) ?ids trail
      = (Inr rs, trail')"
    and r: "rset = \<lparr>rset_environment = environment, rset_resolvedAt = ri_now input, rset_resolutions = rs\<rparr>"
    using assms f
    by (auto simp: resolveCapabilityAvailability_def Let_def split: option.splits prod.splits sum.splits)
  have "set ?ids \<subseteq> set (rv_ids registry)" using f by (auto simp: find_None_iff)
  then show ?thesis using resolve_loop_Inr [OF l] c r that by fastforce
qed

lemma after_ceiling_allowed:
  assumes "after_ceiling cl i at = ALLOWED c s p" "gi_availability i = AROW rid s' v"
  shows "s' = s"
proof (cases "gi_entitlement i")
  case NO_ENTITLEMENT
  then show ?thesis using assms by (simp add: after_ceiling_def split: if_splits)
next
  case (EROW eid st f t ev)
  show ?thesis
    using assms
    by (cases "consentGate (processingBasis cl) (gi_consent i)";
        cases "licenceGate (requiredLicenceTypeRefs cl) (gi_licensing i) at";
        cases "providerGate (requiredProviderKinds cl) (gi_providers i)")
      (simp_all add: after_ceiling_def EROW split: if_splits)
qed

lemma snapshot_of_id:
  "snapshot_of ports registry environment ceiling subject now i = Some x \<Longrightarrow> gi_capabilityId x = i"
  by (auto simp: snapshot_of_def split: option.splits dest: snapshot_fields)

lemma snapshots_ids:
  "map (snapshot_of ports registry environment ceiling subject now) ids = map Some ins \<Longrightarrow>
     map gi_capabilityId ins = ids"
proof (induction ids arbitrary: ins)
  case (Cons i ids)
  then obtain x xs where "ins = x # xs" by (cases ins) auto
  then show ?case using Cons by (auto dest: snapshot_of_id)
qed simp

lemma snapshots_member:
  "map (snapshot_of ports registry environment ceiling subject now) ids = map Some ins \<Longrightarrow> x \<in> set ins \<Longrightarrow>
     snapshot_of ports registry environment ceiling subject now (gi_capabilityId x) = Some x"
proof (induction ids arbitrary: ins)
  case (Cons i ids)
  then obtain y ys where "ins = y # ys" by (cases ins) auto
  then show ?case using Cons by (auto dest: snapshot_of_id)
qed simp

section \<open>Properties\<close>

text \<open>Past every gate, the last three ports answered what their gates ask for.\<close>

lemma allowed_port_answers:
  assumes "snapshotFor ports environment c d (RESOLVED_CEILING scope verified version cs) subject now = Some x"
    "\<And>g. gate_passes x now g" "rs_userId subject = Some user" "findCleared x = Some cl"
  shows "case processingBasis cl of
      DECLARED_BASIS b \<Rightarrow> True
    | UNRESOLVED_BASIS \<Rightarrow> False
    | CONSENT_BASIS purpose \<Rightarrow> p_consent ports (rs_tenantId subject) user purpose scope now = Some (CONSENT_STATUS CS_ACTIVE True)"
    "requiredLicenceTypeRefs cl = []
      \<or> (\<exists>entity ls. p_licences ports (rs_tenantId subject) (Some user) scope now = Some (ENTITY entity True ls)
           \<and> (\<forall>ref \<in> set (requiredLicenceTypeRefs cl). \<exists>l \<in> set ls. licenceTypeRef l = ref \<and> lf_status l = EVIDENCED
                \<and> (\<exists>from. effectiveDate l = Some from \<and> from \<le> now) \<and> (\<forall>until. expiryDate l = Some until \<longrightarrow> now < until)))"
    "\<forall>kind \<in> set (requiredProviderKinds cl). p_provider ports kind environment = Some CONNECTED"
proof -
  have cl: "cleared_of (RESOLVED_CEILING scope verified version cs) c = Some cl"
    using snapshot_fields [OF assms(1)] assms(4) by (simp add: findCleared_def cleared_of_def)
  note ports = snapshot_port_fields [OF assms(1), unfolded cl resolved_scope_def ceiling_facts.case]
  show "case processingBasis cl of
      DECLARED_BASIS b \<Rightarrow> True
    | UNRESOLVED_BASIS \<Rightarrow> False
    | CONSENT_BASIS purpose \<Rightarrow> p_consent ports (rs_tenantId subject) user purpose scope now = Some (CONSENT_STATUS CS_ACTIVE True)"
    using assms(2) [of G_CONSENT] ports assms(3,4) by (auto simp: consent_snapshot_def split: processing_basis.splits)
  have lic: "licence_satisfies now l \<Longrightarrow> lf_status l = EVIDENCED \<and> (\<exists>from. effectiveDate l = Some from \<and> from \<le> now)
      \<and> (\<forall>until. expiryDate l = Some until \<longrightarrow> now < until)" for l
    by (auto simp: licence_satisfies_def split: option.splits)
  show "requiredLicenceTypeRefs cl = []
      \<or> (\<exists>entity ls. p_licences ports (rs_tenantId subject) (Some user) scope now = Some (ENTITY entity True ls)
           \<and> (\<forall>ref \<in> set (requiredLicenceTypeRefs cl). \<exists>l \<in> set ls. licenceTypeRef l = ref \<and> lf_status l = EVIDENCED
                \<and> (\<exists>from. effectiveDate l = Some from \<and> from \<le> now) \<and> (\<forall>until. expiryDate l = Some until \<longrightarrow> now < until)))"
  proof (cases "requiredLicenceTypeRefs cl = []")
    case False
    then obtain entity ls where e: "gi_licensing x = ENTITY entity True ls"
      "\<forall>t \<in> set (requiredLicenceTypeRefs cl). \<exists>l \<in> set ls. licenceTypeRef l = t \<and> licence_satisfies now l"
      using assms(2) [of G_LICENCE] assms(4) by auto
    then have "p_licences ports (rs_tenantId subject) (Some user) scope now = Some (ENTITY entity True ls)"
      using ports False assms(3) by (simp add: licence_snapshot_def)
    then show ?thesis using e(2) lic by blast
  qed simp
  show "\<forall>kind \<in> set (requiredProviderKinds cl). p_provider ports kind environment = Some CONNECTED"
    using assms(2) [of G_PROVIDER] ports assms(4) provider_statuses_Some
    by (auto simp: provider_snapshot_def split: if_splits)
qed

lemma gates_passed:
  assumes "resolveCapabilityGates x now = ALLOWED c s p"
  shows "gate_passes x now g"
proof -
  have "List.find (\<lambda>g. \<not> gate_passes x now g) GATES = None"
    using gates_refine [of x now] assms by simp
  moreover have "g \<in> set GATES" by (cases g) (simp_all add: GATES_def)
  ultimately show ?thesis unfolding find_None_iff by blast
qed

text \<open>An allowed snapshot: every fact it was taken from.\<close>

lemma allowed_facts:
  assumes "map_of (rv_descriptors registry) c = Some d" "snapshotFor ports environment c d ceiling subject now = Some x"
    "resolveCapabilityGates x now = ALLOWED c s p" "p_ceiling ports (rs_tenantId subject) (rs_userId subject) environment now = Some ceiling"
  shows "\<exists>user d scope verified version cs cl rid v eid st f t ev.
        rs_userId subject = Some user
        \<and> map_of (rv_descriptors registry) c = Some d
        \<and> cd_implementation d = IMPLEMENTED
        \<and> map_of (cd_deployment d) environment = Some DEPLOYED
        \<and> p_ceiling ports (rs_tenantId subject) (Some user) environment (now)
            = Some (RESOLVED_CEILING scope verified version cs)
        \<and> scope \<in> set (declaredJurisdictions d)
        \<and> cl \<in> set cs \<and> cf_capabilityId cl = c
        \<and> (requiresVerifiedAssignment cl \<longrightarrow> verified)
        \<and> p_availability ports environment (Some scope) c = Some (AROW rid s v) \<and> s \<in> {AVAILABLE, BETA}
        \<and> p_entitlement ports (rs_tenantId subject) user c = Some (EROW eid st f t ev)
        \<and> st = ACTIVE \<and> f \<le> now \<and> (\<forall>until. t = Some until \<longrightarrow> now < until)
        \<and> (case processingBasis cl of
             DECLARED_BASIS b \<Rightarrow> True
           | UNRESOLVED_BASIS \<Rightarrow> False
           | CONSENT_BASIS purpose \<Rightarrow>
               p_consent ports (rs_tenantId subject) user purpose scope (now) = Some (CONSENT_STATUS CS_ACTIVE True))
        \<and> (requiredLicenceTypeRefs cl = []
           \<or> (\<exists>entity ls. p_licences ports (rs_tenantId subject) (Some user) scope (now) = Some (ENTITY entity True ls)
                \<and> (\<forall>ref \<in> set (requiredLicenceTypeRefs cl). \<exists>l \<in> set ls. licenceTypeRef l = ref \<and> lf_status l = EVIDENCED
                     \<and> (\<exists>from. effectiveDate l = Some from \<and> from \<le> now)
                     \<and> (\<forall>until. expiryDate l = Some until \<longrightarrow> now < until))))
        \<and> (\<forall>kind \<in> set (requiredProviderKinds cl). p_provider ports kind environment = Some CONNECTED)
        \<and> rp_environment p = environment \<and> rp_packVersionRef p = Some version"
proof -
  note gates = gates_passed [OF assms(3)]
  have p: "p = provenanceOf x now"
    using resolve_pins [of x now] assms(3) by simp
  note fields = snapshot_fields [OF assms(2)]
  obtain scope verified version cs where ceil: "ceiling = RESOLVED_CEILING scope verified version cs"
    using gates [of G_JURISDICTION] fields by (cases ceiling) auto
  obtain cl where cl: "findCleared x = Some cl"
    "scope \<in> set (declaredJurisdictions d)" "requiresVerifiedAssignment cl \<longrightarrow> verified"
    using gates [of G_JURISDICTION] fields ceil
    by (auto simp: descriptorFactsFor_def split: option.splits)
  have clm: "cl \<in> set cs" "cf_capabilityId cl = c"
    using cl(1) fields ceil by (auto simp: findCleared_def dest: find_Some_set)
  obtain rid s' v where av: "gi_availability x = AROW rid s' v" "s' = AVAILABLE \<or> s' = BETA"
    using gates [of G_AVAILABILITY] by (auto split: availability_facts.splits)
  obtain cl' where "resolveCapabilityGates x now = after_ceiling cl' x now"
    using gates by (blast elim: resolve_past_ceiling)
  then have s: "s' = s"
    using assms(3) av after_ceiling_allowed by metis
  obtain eid st f t ev where en: "gi_entitlement x = EROW eid st f t ev"
    "st = ACTIVE \<and> f \<le> now \<and> (\<forall>until. t = Some until \<longrightarrow> now < until)"
    using gates [of G_ENTITLEMENT] by (auto split: entitlement_facts.splits)
  obtain user where u: "rs_userId subject = Some user"
    using fields en by (cases "rs_userId subject") (auto simp: entitlement_snapshot_def)
  note answers = allowed_port_answers [OF assms(2) [unfolded ceil] gates u cl(1)]
  have dd: "cd_implementation d = IMPLEMENTED" "map_of (cd_deployment d) environment = Some DEPLOYED"
    using gates [of G_DESCRIPTOR] fields by (simp_all add: descriptorFactsFor_def)
  have port: "p_entitlement ports (rs_tenantId subject) user c = Some (EROW eid st f t ev)"
    using fields en(1) u by (simp add: entitlement_snapshot_def)
  have row: "p_availability ports environment (Some scope) c = Some (AROW rid s v)"
    using fields av(1) ceil s by (simp add: resolved_scope_def)
  have prov: "rp_environment p = environment" "rp_packVersionRef p = Some version"
    using fields ceil by (simp_all add: p provenanceOf_def)
  show ?thesis
    by (rule exI [of _ user], rule exI [of _ d], rule exI [of _ scope], rule exI [of _ verified], rule exI [of _ version],
        rule exI [of _ cs], rule exI [of _ cl], rule exI [of _ rid], rule exI [of _ v], rule exI [of _ eid],
        rule exI [of _ st], rule exI [of _ f], rule exI [of _ t], rule exI [of _ ev],
        intro conjI answers, use u assms(1) dd assms(4) ceil cl clm row av(2) s port en(2) prov in simp_all)
qed

text \<open>
  C31: the resolver is deny-by-default from end to end.  A successful resolution answers exactly the
  ids asked (or the whole registry), each registered, in order; and an allowed capability means that
  an authenticated user was the subject, the descriptor is implemented and deployed in the
  server's own environment, the availability port returned a row in an allowing state, the
  entitlement port returned this principal's row, active and within its window, and the ceiling port returned a
  resolved ceiling that clears the capability in a jurisdiction the descriptor declares.  Where the clearance rests on
  consent, the consent port answered that this user's consent for the purpose stands and its document is available; every
  required licence type has an evidenced licence in force of a permitted entity, from the licence port; every required
  provider is connected, from the provider port.
\<close>

theorem resolver_allows_only_with_every_fact:
  assumes "resolveCapabilityAvailability ports registry environment input trail = (Inr rset, trail')"
  shows "map res_capability (rset_resolutions rset)
      = (case ri_capabilityIds input of None \<Rightarrow> rv_ids registry | Some is \<Rightarrow> is)
    \<and> set (map res_capability (rset_resolutions rset)) \<subseteq> set (rv_ids registry)
    \<and> (\<forall>c s p. ALLOWED c s p \<in> set (rset_resolutions rset) \<longrightarrow>
        (\<exists>user d scope verified version cs cl rid v eid st f t ev.
           rs_userId (ri_subject input) = Some user
           \<and> map_of (rv_descriptors registry) c = Some d
           \<and> cd_implementation d = IMPLEMENTED
           \<and> map_of (cd_deployment d) environment = Some DEPLOYED
           \<and> p_ceiling ports (rs_tenantId (ri_subject input)) (Some user) environment (ri_now input)
               = Some (RESOLVED_CEILING scope verified version cs)
           \<and> scope \<in> set (declaredJurisdictions d)
           \<and> cl \<in> set cs \<and> cf_capabilityId cl = c
           \<and> (requiresVerifiedAssignment cl \<longrightarrow> verified)
           \<and> p_availability ports environment (Some scope) c = Some (AROW rid s v) \<and> s \<in> {AVAILABLE, BETA}
           \<and> p_entitlement ports (rs_tenantId (ri_subject input)) user c = Some (EROW eid st f t ev)
           \<and> st = ACTIVE \<and> f \<le> ri_now input \<and> (\<forall>until. t = Some until \<longrightarrow> ri_now input < until)
           \<and> (case processingBasis cl of
                DECLARED_BASIS b \<Rightarrow> True
              | UNRESOLVED_BASIS \<Rightarrow> False
              | CONSENT_BASIS purpose \<Rightarrow>
                  p_consent ports (rs_tenantId (ri_subject input)) user purpose scope (ri_now input) = Some (CONSENT_STATUS CS_ACTIVE True))
           \<and> (requiredLicenceTypeRefs cl = []
              \<or> (\<exists>entity ls. p_licences ports (rs_tenantId (ri_subject input)) (Some user) scope (ri_now input) = Some (ENTITY entity True ls)
                   \<and> (\<forall>ref \<in> set (requiredLicenceTypeRefs cl). \<exists>l \<in> set ls. licenceTypeRef l = ref \<and> lf_status l = EVIDENCED
                        \<and> (\<exists>from. effectiveDate l = Some from \<and> from \<le> ri_now input)
                        \<and> (\<forall>until. expiryDate l = Some until \<longrightarrow> ri_now input < until))))
           \<and> (\<forall>kind \<in> set (requiredProviderKinds cl). p_provider ports kind environment = Some CONNECTED)
           \<and> rp_environment p = environment \<and> rp_packVersionRef p = Some version))"
proof -
  let ?ids = "case ri_capabilityIds input of None \<Rightarrow> rv_ids registry | Some is \<Rightarrow> is"
  obtain ceiling ins where r:
    "p_ceiling ports (rs_tenantId (ri_subject input)) (rs_userId (ri_subject input)) environment
       (ri_now input) = Some ceiling"
    "map (snapshot_of ports registry environment ceiling (ri_subject input) (ri_now input)) ?ids = map Some ins"
    "rset_resolutions rset = map (\<lambda>i. resolveCapabilityGates i (ri_now input)) ins"
    "set ?ids \<subseteq> set (rv_ids registry)"
    using assms by (rule resolver_Inr)
  have ids: "map res_capability (rset_resolutions rset) = ?ids"
    using snapshots_ids [OF r(2)] by (simp add: r(3) comp_def)
  have allowed: "\<exists>x d. map_of (rv_descriptors registry) c = Some d
      \<and> snapshotFor ports environment c d ceiling (ri_subject input) (ri_now input) = Some x
      \<and> resolveCapabilityGates x (ri_now input) = ALLOWED c s p" if a: "ALLOWED c s p \<in> set (rset_resolutions rset)" for c s p
  proof -
    obtain x where x: "x \<in> set ins" "resolveCapabilityGates x (ri_now input) = ALLOWED c s p" using a r(3) by auto
    have "c = gi_capabilityId x" using resolve_pins [of x "ri_now input"] x(2) by simp
    then show ?thesis using snapshots_member [OF r(2) x(1)] x(2) by (auto simp: snapshot_of_def split: option.splits)
  qed
  have sub: "set (map res_capability (rset_resolutions rset)) \<subseteq> set (rv_ids registry)"
    unfolding ids by (rule r(4))
  show ?thesis
    by (intro conjI allI impI) (rule ids, rule sub, drule allowed, elim exE conjE, rule allowed_facts [OF _ _ _ r(1)])
qed

definition open_ports :: resolver_ports where
  "open_ports = \<lparr>
     p_ceiling = (\<lambda>tn u env at. Some (RESOLVED_CEILING ''qa'' True ''qa/v1''
       [\<lparr>cf_capabilityId = ''GOALS'', cf_resolutionStrategyRef = ''AT_EVALUATION'',
         requiresVerifiedAssignment = True, processingBasis = CONSENT_BASIS ''goals'',
         requiredLicenceTypeRefs = [], requiredProviderKinds = []\<rparr>])),
     p_availability = (\<lambda>env sc c. Some (AROW ''r1'' BETA 5)),
     p_entitlement = (\<lambda>tn u c. Some (EROW ''e1'' ACTIVE 0 None 1)),
     p_consent = (\<lambda>tn u pr sc at. Some (CONSENT_STATUS CS_ACTIVE True)),
     p_licences = (\<lambda>tn u sc at. None),
     p_provider = noProvidersConfigured,
     p_audit = (\<lambda>entry. True)\<rparr>"

definition goals_request :: resolve_request where
  "goals_request = \<lparr>ri_subject = \<lparr>rs_tenantId = ''t1'', rs_userId = Some ''u1''\<rparr>, ri_now = 3,
     ri_capabilityIds = None\<rparr>"

definition goals_resolved :: "(cap_error, resolution_set) outcome \<times> cap_audit_entry list" where
  "goals_resolved = resolveCapabilityAvailability open_ports goals_registry ''dev'' goals_request []"

theorem resolver_allows_only_with_every_fact_witness:
  "\<exists>rset trail' c s p d. goals_resolved = (Inr rset, trail')
     \<and> ALLOWED c s p \<in> set (rset_resolutions rset)
     \<and> map_of (rv_descriptors goals_registry) c = Some d \<and> cd_implementation d = IMPLEMENTED"
proof -
  have "result_map (fst goals_resolved) (\<lambda>r. map gate_of (rset_resolutions r)) = Inr [None]"
    by code_simp
  from result_pair_Inr [OF this] obtain rset trail' where
    g: "goals_resolved = (Inr rset, trail')" "map gate_of (rset_resolutions rset) = [None]" by auto
  then obtain c s p where m: "ALLOWED c s p \<in> set (rset_resolutions rset)"
    by (cases "rset_resolutions rset"; cases "hd (rset_resolutions rset)") auto
  from resolver_allows_only_with_every_fact [OF g(1) [unfolded goals_resolved_def]] m
  obtain d where "map_of (rv_descriptors goals_registry) c = Some d" "cd_implementation d = IMPLEMENTED"
    by blast
  then show ?thesis using g(1) m by blast
qed

text \<open>
  refused expansions are accountable.  In a successful resolution the trail grows by exactly one
  DENIED entry, in order, for each capability that was denied at a ceiling gate while a grant-like
  row existed (an allowing availability row behind a descriptor or jurisdiction denial, or a
  satisfying entitlement behind any of the four), each naming the capability, the gate and the reason; nothing else is
  recorded, and the audit port accepted every entry.
\<close>

theorem refused_expansions_are_audited:
  assumes "resolveCapabilityAvailability ports registry environment input trail = (Inr rset, trail')"
  shows "\<exists>ins. rset_resolutions rset = map (\<lambda>i. resolveCapabilityGates i (ri_now input)) ins
    \<and> trail' = trail @ concat (map (attempt_entries (ri_subject input) (ri_now input)) ins)
    \<and> (\<forall>i \<in> set ins. attempt_entries (ri_subject input) (ri_now input) i \<noteq> [] \<longleftrightarrow>
         (\<exists>c g r p. resolveCapabilityGates i (ri_now input) = DENIED c g r p
            \<and> g \<in> {G_DESCRIPTOR, G_ENVIRONMENT, G_JURISDICTION, G_AVAILABILITY}
            \<and> ((g = G_DESCRIPTOR \<or> g = G_JURISDICTION) \<and> row_allows i
               \<or> entitlement_satisfied i (ri_now input))))
    \<and> (\<forall>entry \<in> set (drop (length trail) trail').
         ca_outcome entry = AUDIT_DENIED \<and> ca_tenantRef entry = Some (rs_tenantId (ri_subject input))
         \<and> (\<exists>g r p. DENIED (ca_resourceId entry) g r p \<in> set (rset_resolutions rset)
              \<and> ca_reason entry = REASON_GATE g r))"
proof -
  obtain ceiling ins where r:
    "rset_resolutions rset = map (\<lambda>i. resolveCapabilityGates i (ri_now input)) ins"
    "trail' = trail @ concat (map (attempt_entries (ri_subject input) (ri_now input)) ins)"
    using assms by (rule resolver_Inr)
  have some: "attempt_entries subject now i \<noteq> [] \<longleftrightarrow>
         (\<exists>c g r p. resolveCapabilityGates i now = DENIED c g r p
            \<and> g \<in> {G_DESCRIPTOR, G_ENVIRONMENT, G_JURISDICTION, G_AVAILABILITY}
            \<and> ((g = G_DESCRIPTOR \<or> g = G_JURISDICTION) \<and> row_allows i
               \<or> entitlement_satisfied i now))" for subject now i
    by (cases "resolveCapabilityGates i now") (auto simp: attempt_entries_def above_ceiling_def)
  have entry: "ca_outcome e = AUDIT_DENIED \<and> ca_tenantRef e = Some (rs_tenantId subject)
        \<and> (\<exists>g r p. DENIED (ca_resourceId e) g r p = resolveCapabilityGates i now
              \<and> ca_reason e = REASON_GATE g r)"
    if "e \<in> set (attempt_entries subject now i)" for e subject now i
  proof (cases "resolveCapabilityGates i now")
    case (DENIED c g r p)
    then have "e = above_ceiling_entry i subject now c g r"
      using that by (cases "above_ceiling i now") (simp_all add: attempt_entries_def)
    then have "ca_outcome e = AUDIT_DENIED" "ca_tenantRef e = Some (rs_tenantId subject)"
      "ca_resourceId e = c" "ca_reason e = REASON_GATE g r"
      by (simp_all add: above_ceiling_entry_def)
    then show ?thesis using DENIED by metis
  next
    case (ALLOWED c s p)
    then show ?thesis
      using that by (cases "above_ceiling i now") (simp_all add: attempt_entries_def)
  qed
  have "\<forall>e \<in> set (drop (length trail) trail').
         ca_outcome e = AUDIT_DENIED \<and> ca_tenantRef e = Some (rs_tenantId (ri_subject input))
         \<and> (\<exists>g r p. DENIED (ca_resourceId e) g r p \<in> set (rset_resolutions rset)
              \<and> ca_reason e = REASON_GATE g r)"
  proof
    fix e assume "e \<in> set (drop (length trail) trail')"
    then obtain i where i: "i \<in> set ins" "e \<in> set (attempt_entries (ri_subject input) (ri_now input) i)"
      by (auto simp: r(2))
    have "resolveCapabilityGates i (ri_now input) \<in> set (rset_resolutions rset)" using i(1) r(1) by simp
    then show "ca_outcome e = AUDIT_DENIED \<and> ca_tenantRef e = Some (rs_tenantId (ri_subject input))
         \<and> (\<exists>g r p. DENIED (ca_resourceId e) g r p \<in> set (rset_resolutions rset)
              \<and> ca_reason e = REASON_GATE g r)"
      using entry [OF i(2)] by metis
  qed
  then show ?thesis using r some by blast
qed

theorem refused_expansions_are_audited_witness:
  "\<exists>rset trail'. resolveCapabilityAvailability open_ports shipped_view ''dev'' goals_request [] = (Inr rset, trail')
     \<and> (\<forall>entry \<in> set trail'. ca_outcome entry = AUDIT_DENIED) \<and> length trail' = 7"
proof -
  let ?out = "resolveCapabilityAvailability open_ports shipped_view ''dev'' goals_request []"
  have "result_map (fst ?out) (\<lambda>r. length (rset_resolutions r)) = Inr 7" by code_simp
  from result_pair_Inr [OF this] obtain rset trail' where o: "?out = (Inr rset, trail')" by auto
  have "length (snd ?out) = 7" by code_simp
  then have "length trail' = 7" using o by simp
  then show ?thesis using o refused_expansions_are_audited [OF o] by auto
qed

text \<open>
  what the shipped registry lets a client see.  Nothing in the production registry is
  implemented, so for any policy, rows, entitlements, consents, licences and providers every
  resolution the resolver returns over it is a denial at the descriptor gate with NOT_IMPLEMENTED, and the
  client view, when it succeeds, is empty and carries the server's environment.
\<close>

theorem shipped_client_view_is_empty:
  assumes "resolveClientCapabilityView ports \<lparr>rv_ids = CAPABILITY_IDS, rv_descriptors = CAPABILITY_REGISTRY\<rparr>
      environment subject now trail = (Inr v, trail')"
  shows "cv_capabilities v = [] \<and> cv_environment v = environment \<and> cv_resolvedAt v = now
    \<and> (\<exists>rset. resolveCapabilityAvailability ports
          \<lparr>rv_ids = CAPABILITY_IDS, rv_descriptors = CAPABILITY_REGISTRY\<rparr> environment
          \<lparr>ri_subject = subject, ri_now = now, ri_capabilityIds = None\<rparr> trail = (Inr rset, trail')
        \<and> map res_capability (rset_resolutions rset) = CAPABILITY_IDS
        \<and> (\<forall>r \<in> set (rset_resolutions rset). res_gate r = G_DESCRIPTOR \<and> res_reason r = DR_NOT_IMPLEMENTED
             \<and> gate_of r \<noteq> None))"
proof -
  let ?reg = "\<lparr>rv_ids = CAPABILITY_IDS, rv_descriptors = CAPABILITY_REGISTRY\<rparr>"
  let ?in = "\<lparr>ri_subject = subject, ri_now = now, ri_capabilityIds = None\<rparr>"
  obtain rset where res: "resolveCapabilityAvailability ports ?reg environment ?in trail = (Inr rset, trail')"
    and v: "v = \<lparr>cv_environment = rset_environment rset, cv_resolvedAt = rset_resolvedAt rset,
                cv_capabilities = toClientView (rset_resolutions rset) (exposure_of ?reg)\<rparr>"
    using assms by (auto simp: resolveClientCapabilityView_def split: prod.splits sum.splits)
  obtain ceiling ins where r:
    "map (snapshot_of ports ?reg environment ceiling subject now) CAPABILITY_IDS = map Some ins"
    "rset_resolutions rset = map (\<lambda>i. resolveCapabilityGates i now) ins"
    "rset_environment rset = environment" "rset_resolvedAt rset = now"
    using resolver_Inr [OF res] by (metis option.simps(4) resolution_subject.cases resolve_request.select_convs registry_view.select_convs)
  have denied: "resolveCapabilityGates x now
      = DENIED (gi_capabilityId x) G_DESCRIPTOR DR_NOT_IMPLEMENTED (provenanceOf x now)"
    if x: "x \<in> set ins" for x
  proof -
    obtain d where "map_of CAPABILITY_REGISTRY (gi_capabilityId x) = Some d"
      "snapshotFor ports environment (gi_capabilityId x) d ceiling subject now = Some x"
      using snapshots_member [OF r(1) x] by (auto simp: snapshot_of_def split: option.splits)
    then show ?thesis
      using production_facts_denied [of x d environment] snapshot_fields by blast
  qed
  have "e \<notin> set (toClientView (rset_resolutions rset) (exposure_of ?reg))" for e
    using denied by (auto simp: toClientView_member clientReasonFor_Some CLIENT_SURFACEABLE_REASONS_def r(2))
  then have "cv_capabilities v = []" using v by (metis all_not_in_conv set_empty client_capability_view.select_convs(3))
  moreover have "map res_capability (rset_resolutions rset) = CAPABILITY_IDS"
    using snapshots_ids [OF r(1)] by (simp add: r(2) comp_def)
  ultimately show ?thesis using res v r denied by auto
qed

theorem shipped_client_view_is_empty_witness:
  "\<exists>v trail'. resolveClientCapabilityView open_ports
      \<lparr>rv_ids = CAPABILITY_IDS, rv_descriptors = CAPABILITY_REGISTRY\<rparr> ''production''
      \<lparr>rs_tenantId = ''t1'', rs_userId = Some ''u1''\<rparr> 3 [] = (Inr v, trail') \<and> cv_capabilities v = []"
proof -
  let ?out = "resolveClientCapabilityView open_ports
      \<lparr>rv_ids = CAPABILITY_IDS, rv_descriptors = CAPABILITY_REGISTRY\<rparr> ''production''
      \<lparr>rs_tenantId = ''t1'', rs_userId = Some ''u1''\<rparr> 3 []"
  have "result_map (fst ?out) cv_resolvedAt = Inr 3" by code_simp
  from result_pair_Inr [OF this] obtain v trail' where o: "?out = (Inr v, trail')" by auto
  then show ?thesis using shipped_client_view_is_empty [OF o] by blast
qed

end
