(* ===== verification/Effects.thy ===== *)
theory Effects
  imports Table_Store
begin

text \<open>
  Use cases that await many calls in a row: a computation is a function of the world returning an
  outcome and the new world.  \<open>thenE\<close> is the sequence of two awaited calls; a thrown error or an early
  error return is \<open>Inl\<close> and skips the rest, keeping what was written before it, as an
  exception between two transactions does.  \<open>callE\<close> is one call to a port that may be down.
\<close>

type_synonym ('w, 'e, 'a) effect = "'w \<Rightarrow> ('e, 'a) outcome \<times> 'w"

definition returnE :: "'a \<Rightarrow> ('w, 'e, 'a) effect" where
  "returnE x = (\<lambda>w. (Inr x, w))"

definition throwE :: "'e \<Rightarrow> ('w, 'e, 'a) effect" where
  "throwE e = (\<lambda>w. (Inl e, w))"

definition thenE :: "('w, 'e, 'a) effect \<Rightarrow> ('a \<Rightarrow> ('w, 'e, 'b) effect) \<Rightarrow> ('w, 'e, 'b) effect" where
  "thenE m k = (\<lambda>w. case m w of (Inl e, w') \<Rightarrow> (Inl e, w') | (Inr x, w') \<Rightarrow> k x w')"

definition readE :: "('w \<Rightarrow> 'a) \<Rightarrow> ('w, 'e, 'a) effect" where
  "readE f = (\<lambda>w. (Inr (f w), w))"

definition updateE :: "('w \<Rightarrow> 'a \<times> 'w) \<Rightarrow> ('w, 'e, 'a) effect" where
  "updateE f = (\<lambda>w. case f w of (x, w') \<Rightarrow> (Inr x, w'))"

definition callE :: "bool \<Rightarrow> 'e \<Rightarrow> ('w, 'e, 'a) effect \<Rightarrow> ('w, 'e, 'a) effect" where
  "callE down e m = (if down then throwE e else m)"

text \<open>\<open>withTransaction\<close> (\<open>packages/platform/src/db/adapter.ts\<close>): a throw rolls everything back.\<close>

definition withTransaction :: "('w, 'e, 'a) effect \<Rightarrow> ('w, 'e, 'a) effect" where
  "withTransaction f = (\<lambda>w. case f w of (Inr x, w') \<Rightarrow> (Inr x, w') | (Inl e, w') \<Rightarrow> (Inl e, w))"

lemma thenE_Inr:
  "thenE m k w = (Inr y, w'') \<longleftrightarrow> (\<exists>x w'. m w = (Inr x, w') \<and> k x w' = (Inr y, w''))"
  by (auto simp: thenE_def split: prod.splits sum.splits)

lemma thenE_Inl:
  "thenE m k w = (Inl e, w'') \<longleftrightarrow>
     m w = (Inl e, w'') \<or> (\<exists>x w'. m w = (Inr x, w') \<and> k x w' = (Inl e, w''))"
  by (auto simp: thenE_def split: prod.splits sum.splits)

lemma returnE_eq [simp]: "returnE x w = (Inr x, w)"
  by (simp add: returnE_def)

lemma throwE_eq [simp]: "throwE e w = (Inl e, w)"
  by (simp add: throwE_def)

lemma readE_eq [simp]: "readE f w = (Inr (f w), w)"
  by (simp add: readE_def)

lemma updateE_eq [simp]: "updateE f w = (Inr (fst (f w)), snd (f w))"
  by (simp add: updateE_def split_beta)

lemma callE_eq: "callE down e m w = (if down then (Inl e, w) else m w)"
  by (simp add: callE_def)

lemma callE_Inr: "callE down e m w = (Inr x, w') \<longleftrightarrow> \<not> down \<and> m w = (Inr x, w')"
  by (simp add: callE_def)

lemma if_thenE_Inr:
  "(if b then m else k) w = (Inr x, w') \<longleftrightarrow> (if b then m w = (Inr x, w') else k w = (Inr x, w'))"
  by simp

lemmas effect_success = thenE_Inr callE_Inr

text \<open>
  A relation every step of a computation keeps is kept by the computation, whatever it returns.
\<close>

definition always :: "('w \<Rightarrow> 'w \<Rightarrow> bool) \<Rightarrow> ('w, 'e, 'a) effect \<Rightarrow> bool" where
  "always R m \<longleftrightarrow> (\<forall>w. R w (snd (m w)))"

locale step_relation =
  fixes R :: "'w \<Rightarrow> 'w \<Rightarrow> bool"
  assumes step_refl: "R w w" and step_trans: "R a b \<Longrightarrow> R b c \<Longrightarrow> R a c"
begin

lemma always_return: "always R (returnE x)"
  by (simp add: always_def step_refl)

lemma always_throw: "always R (throwE e)"
  by (simp add: always_def step_refl)

lemma always_read: "always R (readE f)"
  by (simp add: always_def step_refl)

lemma always_then:
  assumes "always R m" "\<And>x. always R (k x)"
  shows "always R (thenE m k)"
  unfolding always_def
proof
  fix w
  obtain r w1 where m: "m w = (r, w1)" by (cases "m w")
  have a: "R w w1" using assms(1) m unfolding always_def by (metis snd_conv)
  show "R w (snd (thenE m k w))"
  proof (cases r)
    case (Inl e) then show ?thesis using a m by (simp add: thenE_def)
  next
    case (Inr x)
    have "R w1 (snd (k x w1))" using assms(2) unfolding always_def by blast
    then show ?thesis using a m Inr step_trans by (auto simp: thenE_def)
  qed
qed

lemma always_call: "always R m \<Longrightarrow> always R (callE down e m)"
  by (simp add: callE_def always_throw)

lemma always_if: "always R m \<Longrightarrow> always R k \<Longrightarrow> always R (if b then m else k)"
  by simp

lemma always_option:
  "always R m \<Longrightarrow> (\<And>x. always R (k x)) \<Longrightarrow> always R (case o' of None \<Rightarrow> m | Some x \<Rightarrow> k x)"
  by (cases o') simp_all

lemmas always_intros = always_return always_throw always_read always_then always_call always_if always_option

end

end
