(* ===== verification/Identity_Store.thy ===== *)
theory Identity_Store
  imports Effects Wire_Format
begin

text \<open>
  The stored side of the identity module: the domain records (\<open>modules/identity/domain\<close>), the tables
  and the adapters under \<open>infrastructure/persistence\<close>.

  Each repository method is one transaction: it either takes its whole effect or, when a constraint
  is violated, none.  The methods that run under \<open>withAccount\<close> see and touch only rows of that account,
  as the row-level-security policies of migration 0031 state.  \<open>null\<close> columns are \<open>None\<close>.
\<close>

section \<open>Domain records\<close>

datatype account_status = ACCOUNT_ACTIVE | ACCOUNT_DISABLED

record identity_account =
  ac_id :: string
  ac_email :: string
  ac_emailVerifiedAt :: "millis option"
  ac_status :: account_status
  ac_disabledReason :: "string option"
  ac_mfaRequired :: bool
  ac_tokenVersion :: int
  ac_createdAt :: millis
  ac_updatedAt :: millis

record password_credential =
  pc_accountId :: string
  pc_passwordHash :: string
  pc_paramsVersion :: int
  pc_updatedAt :: millis

record one_time_code =
  oc_id :: string
  oc_accountId :: string
  oc_codeHash :: string
  oc_expiresAt :: millis
  oc_attempts :: int
  oc_maxAttempts :: int
  oc_consumedAt :: "millis option"
  oc_createdAt :: millis

datatype revocation_reason =
    RR_LOGOUT | RR_REVOKED_BY_OWNER | RR_REVOKED_OTHER_SESSIONS | RR_PASSWORD_CHANGED
  | RR_PASSWORD_RESET | RR_REFRESH_REUSE_DETECTED | RR_ACCOUNT_DISABLED | RR_GLOBAL_REVOCATION
  | RR_TENANT_SWITCH

record session =
  se_id :: string
  se_accountId :: string
  se_createdAt :: millis
  se_lastSeenAt :: millis
  se_absoluteExpiresAt :: millis
  se_idleExpiresAt :: "millis option"
  se_revokedAt :: "millis option"
  se_revokedReason :: "revocation_reason option"
  se_ipDigest :: "string option"
  se_userAgentSummary :: "string option"
  se_tenantBinding :: "string option"

record token_family =
  fa_id :: string
  fa_sessionId :: string
  fa_accountId :: string
  fa_createdAt :: millis
  fa_revokedAt :: "millis option"
  fa_revokedReason :: "revocation_reason option"

record refresh_token =
  rt_id :: string
  rt_familyId :: string
  rt_tokenHash :: string
  rt_createdAt :: millis
  rt_expiresAt :: millis
  rt_usedAt :: "millis option"
  rt_supersededBy :: "string option"

record mfa_enrolment =
  me_accountId :: string
  me_secretCiphertext :: string
  me_keyVersion :: string
  me_createdAt :: millis
  me_confirmedAt :: "millis option"
  me_disabledAt :: "millis option"

record recovery_code =
  rc_id :: string
  rc_accountId :: string
  rc_codeHash :: string
  rc_createdAt :: millis
  rc_usedAt :: "millis option"

definition isSessionLive :: "session \<Rightarrow> millis \<Rightarrow> bool" where
  "isSessionLive s now =
     (if se_revokedAt s \<noteq> None then False
      else if se_absoluteExpiresAt s \<le> now then False
      else if (case se_idleExpiresAt s of None \<Rightarrow> False | Some t \<Rightarrow> t \<le> now) then False
      else True)"

definition isMfaActive :: "mfa_enrolment option \<Rightarrow> bool" where
  "isMfaActive e = (case e of None \<Rightarrow> False
     | Some m \<Rightarrow> me_confirmedAt m \<noteq> None \<and> me_disabledAt m = None)"

datatype security_event_type =
    REGISTRATION_DUPLICATE | VERIFICATION_EMAIL_SENT | VERIFICATION_FAILED | EMAIL_VERIFIED
  | LOGIN_SUCCEEDED | LOGIN_FAILED | LOGIN_LOCKED | ACCOUNT_DISABLED_LOGIN_ATTEMPT
  | MFA_CHALLENGE_ISSUED | MFA_CHALLENGE_FAILED | MFA_COMPLETED | MFA_ENROLLED | MFA_CONFIRMED
  | MFA_DISABLED | RECOVERY_CODE_USED | RECOVERY_CODE_FAILED | RECOVERY_LOCKED
  | REFRESH_REUSE_DETECTED | SESSION_REVOKED | SESSIONS_REVOKED_BULK | SESSION_TENANT_BOUND
  | SESSION_TENANT_REBOUND | PASSWORD_RESET_REQUESTED | PASSWORD_RESET_FAILED
  | PASSWORD_RESET_COMPLETED | PASSWORD_CHANGED | ACCOUNT_DISABLED_EVENT | ACCOUNT_ENABLED

record security_event =
  ev_accountId :: "string option"
  ev_type :: security_event_type
  ev_occurredAt :: millis
  ev_ipDigest :: "string option"
  ev_metadata :: "(string \<times> json) list option"

record identity_audit =
  ia_action :: string
  ia_actorRef :: "string option"
  ia_resourceType :: string
  ia_resourceId :: string
  ia_metadata :: "(string \<times> json) list option"
  ia_occurredAt :: millis

datatype notification =
    VERIFICATION_CODE string string millis
  | PASSWORD_RESET_TOKEN string string millis
  | SECURITY_NOTICE string string

record identity_world =
  w_accounts :: "identity_account list"
  w_credentials :: "password_credential list"
  w_verifications :: "one_time_code list"
  w_resets :: "(one_time_code \<times> string option) list"
  w_sessions :: "session list"
  w_families :: "token_family list"
  w_tokens :: "refresh_token list"
  w_enrolments :: "mfa_enrolment list"
  w_recovery :: "recovery_code list"
  w_ledger :: "security_event list"
  w_audit :: "identity_audit list"
  w_outbox :: "notification list"
  w_next :: nat

datatype identity_error =
    INVALID_CREDENTIALS
  | INVALID_TOKEN
  | REUSE_DETECTED
  | UNAUTHENTICATED
  | SESSION_NOT_FOUND
  | ALREADY_BOUND string
  | BIND_CONFLICT
  | NOT_BOUND
  | ACCOUNT_NOT_ACTIVE
  | REBIND_CONFLICT
  | ACCOUNT_NOT_FOUND
  | ACCOUNT_VANISHED
  | INVALID_EMAIL
  | INVALID_PASSWORD nat nat
  | INVALID_CURRENT_PASSWORD
  | INVALID_CODE
  | INVALID_CHALLENGE
  | ALREADY_ENROLLED
  | NO_PENDING_ENROLMENT
  | NOT_ENROLLED
  | RATE_LIMITED
  | DEPENDENCY_UNAVAILABLE
  | METADATA_VIOLATION
  | STORE_REJECTED
  | CALL_FAILED

type_synonym 'a identity_effect = "(identity_world, identity_error, 'a) effect"

section \<open>Sessions, families and refresh tokens\<close>

record session_bundle =
  sb_session :: session
  sb_family :: token_family
  sb_firstToken :: refresh_token

definition insert_bundle :: "session_bundle \<Rightarrow> identity_world \<Rightarrow> identity_world option" where
  "insert_bundle b w =
     (case create_row (\<lambda>x y. se_id x = se_id y)
             ((sb_session b)\<lparr>se_revokedAt := None, se_revokedReason := None\<rparr>) (w_sessions w) of
        None \<Rightarrow> None
      | Some ss \<Rightarrow>
          (case create_row (\<lambda>x y. fa_id x = fa_id y)
                  ((sb_family b)\<lparr>fa_revokedAt := None, fa_revokedReason := None\<rparr>) (w_families w) of
             None \<Rightarrow> None
           | Some fs \<Rightarrow>
               (case create_row (\<lambda>x y. rt_id x = rt_id y \<or> rt_tokenHash x = rt_tokenHash y)
                       ((sb_firstToken b)\<lparr>rt_usedAt := None, rt_supersededBy := None\<rparr>) (w_tokens w) of
                  None \<Rightarrow> None
                | Some ts \<Rightarrow> Some (w\<lparr>w_sessions := ss, w_families := fs, w_tokens := ts\<rparr>))))"

definition sessions_createSession :: "session_bundle \<Rightarrow> unit identity_effect" where
  "sessions_createSession b = (\<lambda>w.
     case insert_bundle b w of None \<Rightarrow> (Inl STORE_REJECTED, w) | Some w' \<Rightarrow> (Inr (), w'))"

definition sessions_findSession :: "string \<Rightarrow> string \<Rightarrow> identity_world \<Rightarrow> session option" where
  "sessions_findSession account sid w =
     find_first (\<lambda>s. se_id s = sid \<and> se_accountId s = account) stored_order (w_sessions w)"

definition sessions_listSessions :: "string \<Rightarrow> identity_world \<Rightarrow> session list" where
  "sessions_listSessions account w =
     find_many (\<lambda>s. se_accountId s = account)
       (\<lambda>a b. if se_createdAt a > se_createdAt b then -1
              else if se_createdAt a < se_createdAt b then 1 else 0) (w_sessions w)"

definition sessions_touchSession ::
  "string \<Rightarrow> string \<Rightarrow> millis \<Rightarrow> millis option \<Rightarrow> unit identity_effect" where
  "sessions_touchSession account sid now idle = updateE (\<lambda>w. ((),
     w\<lparr>w_sessions := snd (update_many
         (\<lambda>s. se_accountId s = account \<and> se_id s = sid \<and> se_revokedAt s = None)
         (\<lambda>s. s\<lparr>se_lastSeenAt := now, se_idleExpiresAt := idle\<rparr>) (w_sessions w))\<rparr>))"

definition revoke_family_rows ::
  "string \<Rightarrow> string list \<Rightarrow> revocation_reason \<Rightarrow> millis \<Rightarrow> token_family list \<Rightarrow> token_family list" where
  "revoke_family_rows account sids reason now fs = snd (update_many
     (\<lambda>f. fa_accountId f = account \<and> fa_sessionId f \<in> set sids \<and> fa_revokedAt f = None)
     (\<lambda>f. f\<lparr>fa_revokedAt := Some now, fa_revokedReason := Some reason\<rparr>) fs)"

definition revoke_session_rows ::
  "(session \<Rightarrow> bool) \<Rightarrow> revocation_reason \<Rightarrow> millis \<Rightarrow> session list \<Rightarrow> nat \<times> session list" where
  "revoke_session_rows p reason now =
     update_many p (\<lambda>s. s\<lparr>se_revokedAt := Some now, se_revokedReason := Some reason\<rparr>)"

definition sessions_revokeSession ::
  "string \<Rightarrow> string \<Rightarrow> revocation_reason \<Rightarrow> millis \<Rightarrow> bool identity_effect" where
  "sessions_revokeSession account sid reason now = updateE (\<lambda>w.
     let (count, ss) = revoke_session_rows
           (\<lambda>s. se_id s = sid \<and> se_accountId s = account \<and> se_revokedAt s = None) reason now (w_sessions w)
     in if count = 0 then (False, w)
        else (True, w\<lparr>w_sessions := ss,
                      w_families := revoke_family_rows account [sid] reason now (w_families w)\<rparr>))"

definition sessions_revokeAllSessions ::
  "string \<Rightarrow> revocation_reason \<Rightarrow> millis \<Rightarrow> string option \<Rightarrow> nat identity_effect" where
  "sessions_revokeAllSessions account reason now except = updateE (\<lambda>w.
     let ids = map se_id (filter (\<lambda>s. se_accountId s = account \<and> se_revokedAt s = None
                   \<and> (case except of None \<Rightarrow> True | Some e \<Rightarrow> se_id s \<noteq> e)) (w_sessions w))
     in if ids = [] then (0, w)
        else (length ids,
              w\<lparr>w_sessions := snd (revoke_session_rows
                    (\<lambda>s. se_accountId s = account \<and> se_id s \<in> set ids) reason now (w_sessions w)),
                w_families := revoke_family_rows account ids reason now (w_families w)\<rparr>))"

definition sessions_setTenantBinding :: "string \<Rightarrow> string \<Rightarrow> string \<Rightarrow> bool identity_effect" where
  "sessions_setTenantBinding account sid tenant = updateE (\<lambda>w.
     let (count, ss) = update_many
           (\<lambda>s. se_id s = sid \<and> se_accountId s = account \<and> se_revokedAt s = None \<and> se_tenantBinding s = None)
           (\<lambda>s. s\<lparr>se_tenantBinding := Some tenant\<rparr>) (w_sessions w)
     in (count = 1, w\<lparr>w_sessions := ss\<rparr>))"

text \<open>\<open>rebindSession\<close> is one transaction: a rejected insert undoes the revocation too.\<close>

definition sessions_rebindSession ::
  "string \<Rightarrow> string \<Rightarrow> revocation_reason \<Rightarrow> session_bundle \<Rightarrow> millis \<Rightarrow> bool identity_effect" where
  "sessions_rebindSession account oldSid reason b now = (\<lambda>w.
     let (count, ss) = revoke_session_rows
           (\<lambda>s. se_id s = oldSid \<and> se_accountId s = account \<and> se_revokedAt s = None) reason now (w_sessions w)
     in if count = 0 then (Inr False, w)
        else case insert_bundle b (w\<lparr>w_sessions := ss,
                     w_families := revoke_family_rows account [oldSid] reason now (w_families w)\<rparr>) of
               None \<Rightarrow> (Inl STORE_REJECTED, w)
             | Some w' \<Rightarrow> (Inr True, w'))"

definition sessions_findByTokenHash ::
  "string \<Rightarrow> identity_world \<Rightarrow> (refresh_token \<times> token_family \<times> session) option" where
  "sessions_findByTokenHash h w =
     (case find_first (\<lambda>t. rt_tokenHash t = h) stored_order (w_tokens w) of
        None \<Rightarrow> None
      | Some t \<Rightarrow>
          (case find_first (\<lambda>f. fa_id f = rt_familyId t) stored_order (w_families w) of
             None \<Rightarrow> None
           | Some f \<Rightarrow> map_option (\<lambda>s. (t, f, s)) (sessions_findSession (fa_accountId f) (fa_sessionId f) w)))"

text \<open>The token rows an account sees: those of its own families.\<close>

definition owns_token :: "string \<Rightarrow> identity_world \<Rightarrow> refresh_token \<Rightarrow> bool" where
  "owns_token account w t \<longleftrightarrow> (\<exists>f \<in> set (w_families w). fa_id f = rt_familyId t \<and> fa_accountId f = account)"

definition sessions_rotateToken ::
  "string \<Rightarrow> string \<Rightarrow> refresh_token \<Rightarrow> millis \<Rightarrow> bool identity_effect" where
  "sessions_rotateToken account presentedId successor now = (\<lambda>w.
     let (count, ts) = update_many
           (\<lambda>t. rt_id t = presentedId \<and> rt_usedAt t = None \<and> owns_token account w t)
           (\<lambda>t. t\<lparr>rt_usedAt := Some now\<rparr>) (w_tokens w)
     in if count = 0 then (Inr False, w)
        else case create_row (\<lambda>x y. rt_id x = rt_id y \<or> rt_tokenHash x = rt_tokenHash y)
                    (successor\<lparr>rt_usedAt := None, rt_supersededBy := None\<rparr>) ts of
               None \<Rightarrow> (Inl STORE_REJECTED, w)
             | Some ts' \<Rightarrow> (Inr True, w\<lparr>w_tokens := snd (update_many (\<lambda>t. rt_id t = presentedId)
                   (\<lambda>t. t\<lparr>rt_supersededBy := Some (rt_id successor)\<rparr>) ts')\<rparr>))"

definition sessions_revokeFamilyAndSession ::
  "string \<Rightarrow> string \<Rightarrow> string \<Rightarrow> revocation_reason \<Rightarrow> millis \<Rightarrow> unit identity_effect" where
  "sessions_revokeFamilyAndSession account familyId sid reason now = updateE (\<lambda>w. ((),
     w\<lparr>w_families := snd (update_many
           (\<lambda>f. fa_accountId f = account \<and> fa_id f = familyId \<and> fa_revokedAt f = None)
           (\<lambda>f. f\<lparr>fa_revokedAt := Some now, fa_revokedReason := Some reason\<rparr>) (w_families w)),
       w_sessions := snd (revoke_session_rows
           (\<lambda>s. se_accountId s = account \<and> se_id s = sid \<and> se_revokedAt s = None) reason now
           (w_sessions w))\<rparr>))"

section \<open>Accounts and credentials\<close>

text \<open>\<open>update\<close> with a \<open>where\<close> on a key raises when no row matches; \<open>js_lower\<close> is \<open>toLowerCase\<close> on the 8-bit characters.\<close>

definition update_one :: "('r \<Rightarrow> bool) \<Rightarrow> ('r \<Rightarrow> 'r) \<Rightarrow> 'r list \<Rightarrow> 'r list option" where
  "update_one p f t = (if list_ex p t then Some (snd (update_many p f t)) else None)"

definition lower_char :: "char \<Rightarrow> char" where
  "lower_char c = (let n = (of_char c :: nat) in
     if (65 \<le> n \<and> n \<le> 90) \<or> (192 \<le> n \<and> n \<le> 222 \<and> n \<noteq> 215) then char_of (n + 32) else c)"

definition js_lower :: "string \<Rightarrow> string" where
  "js_lower = map lower_char"

record new_account =
  na_id :: string
  na_email :: string
  na_passwordHash :: string
  na_paramsVersion :: int

definition fresh_account :: "new_account \<Rightarrow> millis \<Rightarrow> identity_account" where
  "fresh_account a now =
     \<lparr>ac_id = na_id a, ac_email = na_email a, ac_emailVerifiedAt = None, ac_status = ACCOUNT_ACTIVE,
      ac_disabledReason = None, ac_mfaRequired = False, ac_tokenVersion = 1,
      ac_createdAt = now, ac_updatedAt = now\<rparr>"

text \<open>\<open>True\<close> is \<open>'created'\<close>, \<open>False\<close> is \<open>'duplicate_email'\<close>: any unique violation of the transaction.\<close>

definition accounts_createWithCredential :: "new_account \<Rightarrow> millis \<Rightarrow> bool identity_effect" where
  "accounts_createWithCredential a now = updateE (\<lambda>w.
     case create_row (\<lambda>x y. ac_id x = ac_id y \<or> js_lower (ac_email x) = js_lower (ac_email y))
            (fresh_account a now) (w_accounts w) of
       None \<Rightarrow> (False, w)
     | Some as \<Rightarrow>
         (case create_row (\<lambda>x y. pc_accountId x = pc_accountId y)
                 \<lparr>pc_accountId = na_id a, pc_passwordHash = na_passwordHash a,
                  pc_paramsVersion = na_paramsVersion a, pc_updatedAt = now\<rparr> (w_credentials w) of
            None \<Rightarrow> (False, w)
          | Some cs \<Rightarrow> (True, w\<lparr>w_accounts := as, w_credentials := cs\<rparr>)))"

definition accounts_findByEmail :: "string \<Rightarrow> identity_world \<Rightarrow> identity_account option" where
  "accounts_findByEmail email w = find_first (\<lambda>a. ac_email a = email) stored_order (w_accounts w)"

definition accounts_findById :: "string \<Rightarrow> identity_world \<Rightarrow> identity_account option" where
  "accounts_findById account w = find_first (\<lambda>a. ac_id a = account) stored_order (w_accounts w)"

definition accounts_markEmailVerified :: "string \<Rightarrow> millis \<Rightarrow> unit identity_effect" where
  "accounts_markEmailVerified account now = updateE (\<lambda>w. ((),
     w\<lparr>w_accounts := snd (update_many (\<lambda>a. ac_id a = account \<and> ac_emailVerifiedAt a = None)
         (\<lambda>a. a\<lparr>ac_emailVerifiedAt := Some now, ac_updatedAt := now\<rparr>) (w_accounts w))\<rparr>))"

definition accounts_setStatus ::
  "string \<Rightarrow> account_status \<Rightarrow> string option \<Rightarrow> bool \<Rightarrow> millis \<Rightarrow> unit identity_effect" where
  "accounts_setStatus account status reason bump now = (\<lambda>w.
     case update_one (\<lambda>a. ac_id a = account)
            (\<lambda>a. a\<lparr>ac_status := status, ac_disabledReason := reason, ac_updatedAt := now,
                  ac_tokenVersion := ac_tokenVersion a + (if bump then 1 else 0)\<rparr>) (w_accounts w) of
       None \<Rightarrow> (Inl STORE_REJECTED, w)
     | Some as \<Rightarrow> (Inr (), w\<lparr>w_accounts := as\<rparr>))"

definition upsert_credential :: "password_credential \<Rightarrow> password_credential list \<Rightarrow> password_credential list" where
  "upsert_credential c cs =
     (case update_one (\<lambda>x. pc_accountId x = pc_accountId c) (\<lambda>x. c) cs of
        Some cs' \<Rightarrow> cs'
      | None \<Rightarrow> cs @ [c])"

definition accounts_replacePassword :: "string \<Rightarrow> string \<times> int \<Rightarrow> millis \<Rightarrow> unit identity_effect" where
  "accounts_replacePassword account h now = (\<lambda>w.
     case update_one (\<lambda>a. ac_id a = account)
            (\<lambda>a. a\<lparr>ac_tokenVersion := ac_tokenVersion a + 1, ac_updatedAt := now\<rparr>) (w_accounts w) of
       None \<Rightarrow> (Inl STORE_REJECTED, w)
     | Some as \<Rightarrow> (Inr (), w\<lparr>w_credentials := upsert_credential
           \<lparr>pc_accountId = account, pc_passwordHash = fst h, pc_paramsVersion = snd h, pc_updatedAt = now\<rparr>
           (w_credentials w), w_accounts := as\<rparr>))"

definition accounts_getCredential :: "string \<Rightarrow> identity_world \<Rightarrow> (string \<times> int) option" where
  "accounts_getCredential account w = map_option (\<lambda>c. (pc_passwordHash c, pc_paramsVersion c))
     (find_first (\<lambda>c. pc_accountId c = account) stored_order (w_credentials w))"

section \<open>Verification codes and reset requests\<close>

definition newest_code :: "one_time_code \<Rightarrow> one_time_code \<Rightarrow> int" where
  "newest_code a b = (if oc_createdAt a > oc_createdAt b then -1
                      else if oc_createdAt a < oc_createdAt b then 1 else 0)"

definition verifications_create :: "one_time_code \<Rightarrow> unit identity_effect" where
  "verifications_create c = (\<lambda>w.
     case create_row (\<lambda>x y. oc_id x = oc_id y) c (w_verifications w) of
       None \<Rightarrow> (Inl STORE_REJECTED, w)
     | Some cs \<Rightarrow> (Inr (), w\<lparr>w_verifications := cs\<rparr>))"

definition verifications_latestActive :: "string \<Rightarrow> millis \<Rightarrow> identity_world \<Rightarrow> one_time_code option" where
  "verifications_latestActive account now w =
     find_first (\<lambda>c. oc_accountId c = account \<and> oc_consumedAt c = None \<and> now < oc_expiresAt c)
       newest_code (w_verifications w)"

definition verifications_latestCreatedAt :: "string \<Rightarrow> identity_world \<Rightarrow> millis option" where
  "verifications_latestCreatedAt account w =
     map_option oc_createdAt (find_first (\<lambda>c. oc_accountId c = account) newest_code (w_verifications w))"

definition verifications_recordFailedAttempt :: "string \<Rightarrow> unit identity_effect" where
  "verifications_recordFailedAttempt cid = (\<lambda>w.
     case update_one (\<lambda>c. oc_id c = cid) (\<lambda>c. c\<lparr>oc_attempts := oc_attempts c + 1\<rparr>) (w_verifications w) of
       None \<Rightarrow> (Inl STORE_REJECTED, w)
     | Some cs \<Rightarrow> (Inr (), w\<lparr>w_verifications := cs\<rparr>))"

definition verifications_consume :: "string \<Rightarrow> millis \<Rightarrow> unit identity_effect" where
  "verifications_consume cid now = (\<lambda>w.
     case update_one (\<lambda>c. oc_id c = cid) (\<lambda>c. c\<lparr>oc_consumedAt := Some now\<rparr>) (w_verifications w) of
       None \<Rightarrow> (Inl STORE_REJECTED, w)
     | Some cs \<Rightarrow> (Inr (), w\<lparr>w_verifications := cs\<rparr>))"

definition resets_create :: "one_time_code \<Rightarrow> string option \<Rightarrow> unit identity_effect" where
  "resets_create c ip = (\<lambda>w.
     case create_row (\<lambda>x y. oc_id (fst x) = oc_id (fst y) \<or> oc_codeHash (fst x) = oc_codeHash (fst y))
            (c, ip) (w_resets w) of
       None \<Rightarrow> (Inl STORE_REJECTED, w)
     | Some rs \<Rightarrow> (Inr (), w\<lparr>w_resets := rs\<rparr>))"

definition resets_findByCodeHash :: "string \<Rightarrow> identity_world \<Rightarrow> one_time_code option" where
  "resets_findByCodeHash h w = map_option fst (find_first (\<lambda>r. oc_codeHash (fst r) = h) stored_order (w_resets w))"

definition resets_latestCreatedAt :: "string \<Rightarrow> identity_world \<Rightarrow> millis option" where
  "resets_latestCreatedAt account w = map_option (\<lambda>r. oc_createdAt (fst r))
     (find_first (\<lambda>r. oc_accountId (fst r) = account) (\<lambda>a b. newest_code (fst a) (fst b)) (w_resets w))"

definition resets_recordFailedAttempt :: "string \<Rightarrow> unit identity_effect" where
  "resets_recordFailedAttempt cid = (\<lambda>w.
     case update_one (\<lambda>r. oc_id (fst r) = cid)
            (\<lambda>r. ((fst r)\<lparr>oc_attempts := oc_attempts (fst r) + 1\<rparr>, snd r)) (w_resets w) of
       None \<Rightarrow> (Inl STORE_REJECTED, w)
     | Some rs \<Rightarrow> (Inr (), w\<lparr>w_resets := rs\<rparr>))"

definition resets_consume :: "string \<Rightarrow> string \<Rightarrow> millis \<Rightarrow> unit identity_effect" where
  "resets_consume cid account now = (\<lambda>w.
     case update_one (\<lambda>r. oc_id (fst r) = cid \<and> oc_accountId (fst r) = account)
            (\<lambda>r. ((fst r)\<lparr>oc_consumedAt := Some now\<rparr>, snd r)) (w_resets w) of
       None \<Rightarrow> (Inl STORE_REJECTED, w)
     | Some rs \<Rightarrow> (Inr (), w\<lparr>w_resets := rs\<rparr>))"

section \<open>MFA enrolments and recovery codes\<close>

definition mfa_getEnrolment :: "string \<Rightarrow> identity_world \<Rightarrow> mfa_enrolment option" where
  "mfa_getEnrolment account w = find_first (\<lambda>e. me_accountId e = account) stored_order (w_enrolments w)"

definition mfa_saveEnrolment :: "mfa_enrolment \<Rightarrow> unit identity_effect" where
  "mfa_saveEnrolment e = updateE (\<lambda>w. ((),
     w\<lparr>w_enrolments := (case update_one (\<lambda>x. me_accountId x = me_accountId e) (\<lambda>x. e) (w_enrolments w) of
           Some es \<Rightarrow> es | None \<Rightarrow> w_enrolments w @ [e]),
       w_recovery := filter (\<lambda>c. rc_accountId c \<noteq> me_accountId e) (w_recovery w)\<rparr>))"

definition mfa_confirmEnrolment :: "string \<Rightarrow> millis \<Rightarrow> unit identity_effect" where
  "mfa_confirmEnrolment account now = (\<lambda>w.
     case update_one (\<lambda>e. me_accountId e = account)
            (\<lambda>e. e\<lparr>me_confirmedAt := Some now, me_disabledAt := None\<rparr>) (w_enrolments w) of
       None \<Rightarrow> (Inl STORE_REJECTED, w)
     | Some es \<Rightarrow> (Inr (), w\<lparr>w_enrolments := es\<rparr>))"

definition mfa_disableEnrolment :: "string \<Rightarrow> millis \<Rightarrow> unit identity_effect" where
  "mfa_disableEnrolment account now = (\<lambda>w.
     case update_one (\<lambda>e. me_accountId e = account) (\<lambda>e. e\<lparr>me_disabledAt := Some now\<rparr>) (w_enrolments w) of
       None \<Rightarrow> (Inl STORE_REJECTED, w)
     | Some es \<Rightarrow> (Inr (), w\<lparr>w_enrolments := es,
                           w_recovery := filter (\<lambda>c. rc_accountId c \<noteq> account) (w_recovery w)\<rparr>))"

definition code_conflict :: "recovery_code \<Rightarrow> recovery_code \<Rightarrow> bool" where
  "code_conflict x y \<longleftrightarrow> rc_id x = rc_id y \<or> (rc_accountId x = rc_accountId y \<and> rc_codeHash x = rc_codeHash y)"

fun create_codes :: "recovery_code list \<Rightarrow> recovery_code list \<Rightarrow> recovery_code list option" where
  "create_codes [] t = Some t"
| "create_codes (c # cs) t =
     (case create_row code_conflict c t of None \<Rightarrow> None | Some t' \<Rightarrow> create_codes cs t')"

definition mfa_replaceRecoveryCodes ::
  "string \<Rightarrow> (string \<times> string \<times> millis) list \<Rightarrow> unit identity_effect" where
  "mfa_replaceRecoveryCodes account codes = (\<lambda>w.
     case create_codes
            (map (\<lambda>(i, h, at). \<lparr>rc_id = i, rc_accountId = account, rc_codeHash = h, rc_createdAt = at,
                               rc_usedAt = None\<rparr>) codes)
            (filter (\<lambda>c. rc_accountId c \<noteq> account) (w_recovery w)) of
       None \<Rightarrow> (Inl STORE_REJECTED, w)
     | Some cs \<Rightarrow> (Inr (), w\<lparr>w_recovery := cs\<rparr>))"

definition mfa_consumeRecoveryCode :: "string \<Rightarrow> string \<Rightarrow> millis \<Rightarrow> bool identity_effect" where
  "mfa_consumeRecoveryCode account h now = updateE (\<lambda>w.
     let (count, cs) = update_many
           (\<lambda>c. rc_accountId c = account \<and> rc_codeHash c = h \<and> rc_usedAt c = None)
           (\<lambda>c. c\<lparr>rc_usedAt := Some now\<rparr>) (w_recovery w)
     in (count = 1, w\<lparr>w_recovery := cs\<rparr>))"

definition mfa_countUnusedRecoveryCodes :: "string \<Rightarrow> identity_world \<Rightarrow> nat" where
  "mfa_countUnusedRecoveryCodes account w =
     length (filter (\<lambda>c. rc_accountId c = account \<and> rc_usedAt c = None) (w_recovery w))"

section \<open>The security ledger\<close>

definition ledger_record :: "security_event \<Rightarrow> unit identity_effect" where
  "ledger_record e = updateE (\<lambda>w. ((), w\<lparr>w_ledger := w_ledger w @ [e]\<rparr>))"

definition ledger_countSince ::
  "string \<Rightarrow> security_event_type list \<Rightarrow> string option \<Rightarrow> millis \<Rightarrow> identity_world \<Rightarrow> nat" where
  "ledger_countSince account kinds ip since w = length (filter
     (\<lambda>e. ev_accountId e = Some account \<and> ev_type e \<in> set kinds \<and> since < ev_occurredAt e
        \<and> (case ip of None \<Rightarrow> True | Some d \<Rightarrow> ev_ipDigest e = Some d)) (w_ledger w))"

end
