(* ===== verification/Identity_Transactions.thy ===== *)
theory Identity_Transactions
  imports Identity_Store
begin

text \<open>
  The identity tables as a transition system.  A step of \<open>identity_transaction\<close> is one repository
  call with any arguments, or one draw from the secret source, one audit entry, one notification.
  Concurrent requests interleave at exactly these points, so what holds along
  \<open>identity_transaction\<^sup>*\<^sup>*\<close> holds whatever else runs between two calls of a use case.

  \<open>identity_wf\<close> is what the primary keys and unique indexes of migrations 0030 to 0033 promise.
  \<open>history_extends\<close> says what no transaction undoes: rows stay, revoked sessions and families and used
  tokens are frozen, tenant bindings are never overwritten, token versions only grow, consumed reset
  requests stay consumed, and the ledger and the audit trail only grow at the end.
\<close>

section \<open>Tables that only grow\<close>

definition grows :: "('r \<Rightarrow> 'r \<Rightarrow> bool) \<Rightarrow> 'r list \<Rightarrow> 'r list \<Rightarrow> bool" where
  "grows ev xs ys \<longleftrightarrow> length xs \<le> length ys \<and> list_all2 ev xs (take (length xs) ys)"

lemma grows_refl [simp]: "(\<And>x. ev x x) \<Longrightarrow> grows ev xs xs"
  by (simp add: grows_def list_all2_same)

lemma grows_append: "(\<And>x. ev x x) \<Longrightarrow> grows ev xs (xs @ zs)"
  by (simp add: grows_def list_all2_same)

lemma grows_update:
  assumes "\<And>x. x \<in> set xs \<Longrightarrow> p x \<Longrightarrow> ev x (f x)" "\<And>x. ev x x"
  shows "grows ev xs (snd (update_many p f xs))"
  using assms by (auto simp: grows_def update_many_def list_all2_map2 list_all2_same)

lemma grows_trans:
  assumes tr: "\<And>a b c. ev a b \<Longrightarrow> ev b c \<Longrightarrow> ev a c" and 1: "grows ev xs ys" and 2: "grows ev ys zs"
  shows "grows ev xs zs"
proof -
  have l: "length xs \<le> length ys" "length ys \<le> length zs" using 1 2 by (auto simp: grows_def)
  have "list_all2 ev (take (length xs) ys) (take (length xs) (take (length ys) zs))"
    using 2 unfolding grows_def by (blast intro: list_all2_takeI)
  then have "list_all2 ev (take (length xs) ys) (take (length xs) zs)"
    using l by (simp add: min_absorb1)
  moreover have "list_all2 ev xs (take (length xs) ys)" using 1 by (simp add: grows_def)
  ultimately have "list_all2 ev xs (take (length xs) zs)" 
    using list_all2_trans [of ev ev ev xs "take (length xs) ys" "take (length xs) zs"] tr by blast
  then show ?thesis using l by (simp add: grows_def)
qed

lemma grows_member:
  assumes "grows ev xs ys" "x \<in> set xs"
  obtains y where "y \<in> set ys" "ev x y"
proof -
  obtain i where i: "i < length xs" "x = xs ! i" using assms(2) by (metis in_set_conv_nth)
  have l: "length xs \<le> length ys" and a: "list_all2 ev xs (take (length xs) ys)"
    using assms(1) by (auto simp: grows_def)
  have "ev x (ys ! i)" using list_all2_nthD [OF a i(1)] i by simp
  moreover have "ys ! i \<in> set ys" using i l by simp
  ultimately show ?thesis using that by blast
qed

lemma distinct_same_key: "distinct (map key xs) \<Longrightarrow> x \<in> set xs \<Longrightarrow> y \<in> set xs \<Longrightarrow> key x = key y \<Longrightarrow> x = y"
  by (meson distinct_map inj_on_def)

lemma create_row_Some:
  "create_row conflicts r t = Some t' \<longleftrightarrow> (\<forall>x \<in> set t. \<not> conflicts r x) \<and> t' = t @ [r]"
  by (auto simp: create_row_def list_ex_iff)

lemma update_one_Some:
  "update_one p f t = Some t' \<longleftrightarrow> (\<exists>x \<in> set t. p x) \<and> t' = snd (update_many p f t)"
  by (auto simp: update_one_def list_ex_iff)

lemma distinct_update_key:
  "(\<And>r. p r \<Longrightarrow> key (f r) = key r) \<Longrightarrow> distinct (map key (snd (update_many p f t))) = distinct (map key t)"
proof -
  assume "\<And>r. p r \<Longrightarrow> key (f r) = key r"
  then have "map key (snd (update_many p f t)) = map key t" by (auto simp: update_many_def)
  then show ?thesis by simp
qed

lemma find_first_key:
  assumes "distinct (map key t)" "x \<in> set t" "key x = k"
  shows "find_first (\<lambda>r. key r = k) order t = Some x"
  using assms distinct_same_key [OF assms(1)] by (intro find_first_unique) auto

section \<open>What the keys promise\<close>

definition identity_wf :: "identity_world \<Rightarrow> bool" where
  "identity_wf w \<longleftrightarrow>
     distinct (map se_id (w_sessions w)) \<and> distinct (map fa_id (w_families w))
     \<and> distinct (map rt_id (w_tokens w)) \<and> distinct (map rt_tokenHash (w_tokens w))
     \<and> distinct (map ac_id (w_accounts w)) \<and> distinct (map (\<lambda>a. js_lower (ac_email a)) (w_accounts w))
     \<and> distinct (map pc_accountId (w_credentials w))
     \<and> distinct (map (\<lambda>r. oc_id (fst r)) (w_resets w)) \<and> distinct (map (\<lambda>r. oc_codeHash (fst r)) (w_resets w))"

section \<open>What no transaction undoes\<close>

definition session_evolves :: "session \<Rightarrow> session \<Rightarrow> bool" where
  "session_evolves s t \<longleftrightarrow> se_id t = se_id s \<and> se_accountId t = se_accountId s
     \<and> se_createdAt t = se_createdAt s \<and> se_absoluteExpiresAt t = se_absoluteExpiresAt s
     \<and> (se_revokedAt s \<noteq> None \<longrightarrow> t = s) \<and> (se_tenantBinding s \<noteq> None \<longrightarrow> se_tenantBinding t = se_tenantBinding s)"

definition family_evolves :: "token_family \<Rightarrow> token_family \<Rightarrow> bool" where
  "family_evolves f g \<longleftrightarrow> fa_id g = fa_id f \<and> fa_sessionId g = fa_sessionId f \<and> fa_accountId g = fa_accountId f
     \<and> (fa_revokedAt f \<noteq> None \<longrightarrow> g = f)"

definition token_evolves :: "refresh_token \<Rightarrow> refresh_token \<Rightarrow> bool" where
  "token_evolves t u \<longleftrightarrow> rt_id u = rt_id t \<and> rt_familyId u = rt_familyId t \<and> rt_tokenHash u = rt_tokenHash t
     \<and> rt_expiresAt u = rt_expiresAt t \<and> (rt_usedAt t \<noteq> None \<longrightarrow> u = t)"

definition account_evolves :: "identity_account \<Rightarrow> identity_account \<Rightarrow> bool" where
  "account_evolves a b \<longleftrightarrow> ac_id b = ac_id a \<and> ac_email b = ac_email a \<and> ac_createdAt b = ac_createdAt a
     \<and> ac_tokenVersion a \<le> ac_tokenVersion b \<and> (ac_emailVerifiedAt a \<noteq> None \<longrightarrow> ac_emailVerifiedAt b = ac_emailVerifiedAt a)"

definition reset_evolves :: "one_time_code \<times> string option \<Rightarrow> one_time_code \<times> string option \<Rightarrow> bool" where
  "reset_evolves r q \<longleftrightarrow> snd q = snd r \<and> oc_id (fst q) = oc_id (fst r) \<and> oc_codeHash (fst q) = oc_codeHash (fst r)
     \<and> oc_accountId (fst q) = oc_accountId (fst r) \<and> oc_expiresAt (fst q) = oc_expiresAt (fst r)
     \<and> oc_attempts (fst r) \<le> oc_attempts (fst q)
     \<and> (oc_consumedAt (fst r) \<noteq> None \<longrightarrow> oc_consumedAt (fst q) \<noteq> None)"

lemmas evolves_defs = session_evolves_def family_evolves_def token_evolves_def account_evolves_def reset_evolves_def

lemma evolves_refl [simp]:
  "session_evolves s s" "family_evolves f f" "token_evolves t t" "account_evolves a a" "reset_evolves r r"
  by (simp_all add: evolves_defs)

lemma session_evolves_trans: "session_evolves a b \<Longrightarrow> session_evolves b c \<Longrightarrow> session_evolves a c"
  unfolding session_evolves_def by metis
lemma family_evolves_trans: "family_evolves a b \<Longrightarrow> family_evolves b c \<Longrightarrow> family_evolves a c"
  unfolding family_evolves_def by metis
lemma token_evolves_trans: "token_evolves a b \<Longrightarrow> token_evolves b c \<Longrightarrow> token_evolves a c"
  unfolding token_evolves_def by metis
lemma account_evolves_trans: "account_evolves a b \<Longrightarrow> account_evolves b c \<Longrightarrow> account_evolves a c"
  unfolding account_evolves_def by (metis order_trans)
lemma reset_evolves_trans: "reset_evolves a b \<Longrightarrow> reset_evolves b c \<Longrightarrow> reset_evolves a c"
  unfolding reset_evolves_def by (metis order_trans)

definition history_extends :: "identity_world \<Rightarrow> identity_world \<Rightarrow> bool" where
  "history_extends w w' \<longleftrightarrow>
     grows session_evolves (w_sessions w) (w_sessions w') \<and> grows family_evolves (w_families w) (w_families w')
     \<and> grows token_evolves (w_tokens w) (w_tokens w') \<and> grows account_evolves (w_accounts w) (w_accounts w')
     \<and> grows reset_evolves (w_resets w) (w_resets w') \<and> grows (=) (w_ledger w) (w_ledger w')
     \<and> grows (=) (w_audit w) (w_audit w')"

lemma history_refl [simp]: "history_extends w w"
  by (simp add: history_extends_def)

lemma history_trans: "history_extends a b \<Longrightarrow> history_extends b c \<Longrightarrow> history_extends a c"
  unfolding history_extends_def
  by (intro conjI; elim conjE; (rule grows_trans [of session_evolves, OF session_evolves_trans] grows_trans [of family_evolves, OF family_evolves_trans]
      grows_trans [of token_evolves, OF token_evolves_trans] grows_trans [of account_evolves, OF account_evolves_trans]
      grows_trans [of reset_evolves, OF reset_evolves_trans] grows_trans [of "(=)", OF trans]); assumption)

section \<open>The transactions\<close>

definition take_next :: "(nat \<Rightarrow> 'a) \<Rightarrow> 'a identity_effect" where
  "take_next f = updateE (\<lambda>w. (f (w_next w), w\<lparr>w_next := Suc (w_next w)\<rparr>))"

definition append_audit :: "identity_audit \<Rightarrow> unit identity_effect" where
  "append_audit e = updateE (\<lambda>w. ((), w\<lparr>w_audit := w_audit w @ [e]\<rparr>))"

definition send_notification :: "notification \<Rightarrow> unit identity_effect" where
  "send_notification n = updateE (\<lambda>w. ((), w\<lparr>w_outbox := w_outbox w @ [n]\<rparr>))"

inductive identity_transaction :: "identity_world \<Rightarrow> identity_world \<Rightarrow> bool" where
  tx_createSession: "identity_transaction w (snd (sessions_createSession b w))"
| tx_touch: "identity_transaction w (snd (sessions_touchSession account sid now idle w))"
| tx_revoke: "identity_transaction w (snd (sessions_revokeSession account sid reason now w))"
| tx_revokeAll: "identity_transaction w (snd (sessions_revokeAllSessions account reason now except w))"
| tx_bind: "identity_transaction w (snd (sessions_setTenantBinding account sid tenant w))"
| tx_rebind: "identity_transaction w (snd (sessions_rebindSession account sid reason b now w))"
| tx_rotate: "identity_transaction w (snd (sessions_rotateToken account tid successor now w))"
| tx_reuse: "identity_transaction w (snd (sessions_revokeFamilyAndSession account fid sid reason now w))"
| tx_register: "identity_transaction w (snd (accounts_createWithCredential na now w))"
| tx_verified: "identity_transaction w (snd (accounts_markEmailVerified account now w))"
| tx_status: "identity_transaction w (snd (accounts_setStatus account status why bump now w))"
| tx_password: "identity_transaction w (snd (accounts_replacePassword account h now w))"
| tx_code: "identity_transaction w (snd (verifications_create c w))"
| tx_code_failed: "identity_transaction w (snd (verifications_recordFailedAttempt cid w))"
| tx_code_used: "identity_transaction w (snd (verifications_consume cid now w))"
| tx_reset: "identity_transaction w (snd (resets_create c ip w))"
| tx_reset_failed: "identity_transaction w (snd (resets_recordFailedAttempt cid w))"
| tx_reset_used: "identity_transaction w (snd (resets_consume cid account now w))"
| tx_enrol: "identity_transaction w (snd (mfa_saveEnrolment e w))"
| tx_confirm: "identity_transaction w (snd (mfa_confirmEnrolment account now w))"
| tx_disable: "identity_transaction w (snd (mfa_disableEnrolment account now w))"
| tx_codes: "identity_transaction w (snd (mfa_replaceRecoveryCodes account codes w))"
| tx_recovery: "identity_transaction w (snd (mfa_consumeRecoveryCode account h now w))"
| tx_ledger: "identity_transaction w (snd (ledger_record ev w))"
| tx_audit: "identity_transaction w (snd (append_audit au w))"
| tx_notify: "identity_transaction w (snd (send_notification n w))"
| tx_draw: "identity_transaction w (w\<lparr>w_next := Suc (w_next w)\<rparr>)"

section \<open>Every transaction keeps the keys and the history\<close>

definition keeps_history :: "identity_world \<Rightarrow> identity_world \<Rightarrow> bool" where
  "keeps_history w w' \<longleftrightarrow> (identity_wf w \<longrightarrow> identity_wf w' \<and> history_extends w w')"

lemma keeps_same [simp]: "keeps_history w w"
  by (simp add: keeps_history_def)

lemma insert_bundle_keeps:
  assumes "insert_bundle b w = Some w'" "identity_wf w"
  shows "identity_wf w' \<and> history_extends w w'"
  using assms
  by (auto simp: insert_bundle_def create_row_Some identity_wf_def history_extends_def grows_append split: option.splits)

lemma keeps_create: "keeps_history w (snd (sessions_createSession b w))"
  using insert_bundle_keeps by (auto simp: sessions_createSession_def keeps_history_def split: option.splits)

lemma revoke_rows_grow:
  "(\<And>s. s \<in> set ss \<Longrightarrow> p s \<Longrightarrow> se_revokedAt s = None) \<Longrightarrow>
     grows session_evolves ss (snd (revoke_session_rows p reason now ss))"
  unfolding revoke_session_rows_def by (rule grows_update) (auto simp: session_evolves_def)

lemma revoke_rows_keys:
  "map se_id (snd (revoke_session_rows p reason now ss)) = map se_id ss"
  unfolding revoke_session_rows_def by (rule update_many_keys) simp

lemma family_rows_grow: "grows family_evolves fs (revoke_family_rows account sids reason now fs)"
  unfolding revoke_family_rows_def by (rule grows_update) (auto simp: family_evolves_def)

lemma family_rows_keys: "map fa_id (revoke_family_rows account sids reason now fs) = map fa_id fs"
  unfolding revoke_family_rows_def by (rule update_many_keys) simp

lemmas revocation_rows = revoke_rows_grow revoke_rows_keys family_rows_grow family_rows_keys

lemma keeps_touch: "keeps_history w (snd (sessions_touchSession account sid now idle w))"
proof -
  have "grows session_evolves (w_sessions w) (w_sessions (snd (sessions_touchSession account sid now idle w)))"
    by (auto simp: sessions_touchSession_def intro!: grows_update) (auto simp: session_evolves_def)
  then show ?thesis
    by (auto simp: keeps_history_def identity_wf_def history_extends_def sessions_touchSession_def distinct_update_key)
qed

lemma keeps_revoke: "keeps_history w (snd (sessions_revokeSession account sid reason now w))"
proof -
  let ?p = "\<lambda>s. se_id s = sid \<and> se_accountId s = account \<and> se_revokedAt s = None"
  obtain n ss where r: "revoke_session_rows ?p reason now (w_sessions w) = (n, ss)"
    by (cases "revoke_session_rows ?p reason now (w_sessions w)")
  have g: "grows session_evolves (w_sessions w) ss" "map se_id ss = map se_id (w_sessions w)"
    using revoke_rows_grow [of "w_sessions w" ?p reason now] revoke_rows_keys [of ?p reason now "w_sessions w"] r by auto
  show ?thesis
    by (auto simp: sessions_revokeSession_def r keeps_history_def identity_wf_def history_extends_def g
        family_rows_grow family_rows_keys)
qed

lemma keeps_revokeAll: "keeps_history w (snd (sessions_revokeAllSessions account reason now except w))"
proof (cases "identity_wf w")
  case True
  define live where "live = filter (\<lambda>s. se_accountId s = account \<and> se_revokedAt s = None
     \<and> (case except of None \<Rightarrow> True | Some e \<Rightarrow> se_id s \<noteq> e)) (w_sessions w)"
  let ?p = "\<lambda>s. se_accountId s = account \<and> se_id s \<in> set (map se_id live)"
  have d: "distinct (map se_id (w_sessions w))" using True by (simp add: identity_wf_def)
  have "se_revokedAt s = None" if mem: "s \<in> set (w_sessions w)" and hit: "?p s" for s
  proof -
    obtain t where t: "t \<in> set live" "se_id t = se_id s" using hit by auto
    then have "t \<in> set (w_sessions w)" "se_revokedAt t = None" by (auto simp: live_def)
    then show ?thesis using distinct_same_key [OF d _ mem t(2)] by simp
  qed
  then have g: "grows session_evolves (w_sessions w) (snd (revoke_session_rows ?p reason now (w_sessions w)))"
    by (rule revoke_rows_grow)
  show ?thesis using g
    by (auto simp: sessions_revokeAllSessions_def Let_def live_def [symmetric] keeps_history_def identity_wf_def
        history_extends_def family_rows_grow family_rows_keys revoke_rows_keys)
qed (simp add: keeps_history_def)

lemma keeps_bind: "keeps_history w (snd (sessions_setTenantBinding account sid tenant w))"
proof -
  have "grows session_evolves (w_sessions w) (w_sessions (snd (sessions_setTenantBinding account sid tenant w)))"
    by (auto simp: sessions_setTenantBinding_def split_beta intro!: grows_update) (auto simp: session_evolves_def)
  then show ?thesis
    by (auto simp: keeps_history_def identity_wf_def history_extends_def sessions_setTenantBinding_def
        split_beta distinct_update_key)
qed

lemma keeps_rebind: "keeps_history w (snd (sessions_rebindSession account sid reason b now w))"
proof -
  let ?p = "\<lambda>s. se_id s = sid \<and> se_accountId s = account \<and> se_revokedAt s = None"
  obtain n ss where r: "revoke_session_rows ?p reason now (w_sessions w) = (n, ss)"
    by (cases "revoke_session_rows ?p reason now (w_sessions w)")
  have g: "grows session_evolves (w_sessions w) ss" "map se_id ss = map se_id (w_sessions w)"
    using revoke_rows_grow [of "w_sessions w" ?p reason now] revoke_rows_keys [of ?p reason now "w_sessions w"] r by auto
  let ?w1 = "w\<lparr>w_sessions := ss, w_families := revoke_family_rows account [sid] reason now (w_families w)\<rparr>"
  have 1: "identity_wf ?w1 \<and> history_extends w ?w1" if "identity_wf w"
    using that by (simp add: identity_wf_def history_extends_def g family_rows_grow family_rows_keys)
  show ?thesis
  proof (cases "n = 0")
    case True then show ?thesis by (simp add: sessions_rebindSession_def r)
  next
    case False
    show ?thesis
    proof (cases "insert_bundle b ?w1")
      case None then show ?thesis using False by (simp add: sessions_rebindSession_def r)
    next
      case (Some w')
      then show ?thesis using False 1 insert_bundle_keeps [OF Some] history_trans
        by (auto simp: sessions_rebindSession_def r keeps_history_def)
    qed
  qed
qed

lemma keeps_reuse: "keeps_history w (snd (sessions_revokeFamilyAndSession account fid sid reason now w))"
proof -
  let ?w' = "snd (sessions_revokeFamilyAndSession account fid sid reason now w)"
  have "grows family_evolves (w_families w) (w_families ?w')"
    by (auto simp: sessions_revokeFamilyAndSession_def intro!: grows_update) (auto simp: family_evolves_def)
  moreover have "grows session_evolves (w_sessions w) (w_sessions ?w')"
    by (auto simp: sessions_revokeFamilyAndSession_def intro: revoke_rows_grow)
  ultimately show ?thesis
    by (auto simp: keeps_history_def identity_wf_def history_extends_def sessions_revokeFamilyAndSession_def
        distinct_update_key revoke_rows_keys)
qed

lemma keeps_rotate: "keeps_history w (snd (sessions_rotateToken account tid successor now w))"
proof (cases "identity_wf w")
  case True
  let ?p = "\<lambda>t. rt_id t = tid \<and> rt_usedAt t = None \<and> owns_token account w t"
  let ?use = "\<lambda>t::refresh_token. t\<lparr>rt_usedAt := Some now\<rparr>"
  let ?mark = "\<lambda>t::refresh_token. t\<lparr>rt_supersededBy := Some (rt_id successor)\<rparr>"
  let ?new = "successor\<lparr>rt_usedAt := None, rt_supersededBy := None\<rparr>"
  define ts where "ts = snd (update_many ?p ?use (w_tokens w))"
  have d: "distinct (map rt_id (w_tokens w))" "distinct (map rt_tokenHash (w_tokens w))"
    using True by (simp_all add: identity_wf_def)
  have k: "map rt_id ts = map rt_id (w_tokens w)" "map rt_tokenHash ts = map rt_tokenHash (w_tokens w)"
    unfolding ts_def by (rule update_many_keys, simp)+
  then have ki: "rt_id ` set ts = rt_id ` set (w_tokens w)" "rt_tokenHash ` set ts = rt_tokenHash ` set (w_tokens w)"
    by (metis set_map)+
  show ?thesis
  proof (cases "filter ?p (w_tokens w) = []")
    case True then show ?thesis by (simp add: sessions_rotateToken_def update_many_def)
  next
    case claimed: False
    then obtain x where x: "x \<in> set (w_tokens w)" "?p x" by (auto simp: filter_empty_conv)
    show ?thesis
    proof (cases "create_row (\<lambda>x y. rt_id x = rt_id y \<or> rt_tokenHash x = rt_tokenHash y) ?new ts")
      case None
      then show ?thesis using claimed by (simp add: sessions_rotateToken_def update_many_def ts_def)
    next
      case (Some ts')
      then have ts': "ts' = ts @ [?new]" and fresh: "rt_id successor \<notin> rt_id ` set ts"
        "rt_tokenHash successor \<notin> rt_tokenHash ` set ts" by (auto simp: create_row_Some)
      define us where "us = snd (update_many (\<lambda>t. rt_id t = tid) ?mark ts')"
      have w': "snd (sessions_rotateToken account tid successor now w) = w\<lparr>w_tokens := us\<rparr>"
        using claimed Some by (simp add: sessions_rotateToken_def update_many_def ts_def us_def)
      have keys: "map rt_id us = map rt_id ts @ [rt_id successor]"
        "map rt_tokenHash us = map rt_tokenHash ts @ [rt_tokenHash successor]"
        by (auto simp: us_def ts' update_many_def)
      have only: "rt_usedAt t = None" if mem: "t \<in> set (w_tokens w)" and i: "rt_id t = tid" for t
        using distinct_same_key [OF d(1) x(1) mem] x(2) i by auto
      have "us = map (\<lambda>t. if rt_id t = tid then ?mark (if ?p t then ?use t else t) else t) (w_tokens w)
              @ [if rt_id successor = tid then ?mark ?new else ?new]"
        by (auto simp: us_def ts' ts_def update_many_def)
      then have "grows token_evolves (w_tokens w) us"
        using only by (auto simp: grows_def list_all2_map2 list_all2_same token_evolves_def)
      then show ?thesis
        using d fresh ki by (auto simp: w' keeps_history_def identity_wf_def history_extends_def keys k)
    qed
  qed
qed (simp add: keeps_history_def)

lemma keeps_register: "keeps_history w (snd (accounts_createWithCredential na now w))"
  by (auto simp: accounts_createWithCredential_def create_row_Some keeps_history_def identity_wf_def
      history_extends_def grows_append split: option.splits)

lemma keeps_account_update:
  assumes "\<And>a. a \<in> set (w_accounts w) \<Longrightarrow> p a \<Longrightarrow> account_evolves a (f a)"
  shows "keeps_history w (w\<lparr>w_accounts := snd (update_many p f (w_accounts w))\<rparr>)"
proof -
  have k: "map key (snd (update_many p f (w_accounts w))) = map key (w_accounts w)"
    if "\<And>a b. account_evolves a b \<Longrightarrow> key b = key a" for key :: "identity_account \<Rightarrow> string"
    using assms that by (auto simp: update_many_def)
  have "map ac_id (snd (update_many p f (w_accounts w))) = map ac_id (w_accounts w)"
    "map (\<lambda>a. js_lower (ac_email a)) (snd (update_many p f (w_accounts w))) = map (\<lambda>a. js_lower (ac_email a)) (w_accounts w)"
    by (rule k, simp add: account_evolves_def)+
  then show ?thesis
    using assms by (auto simp: keeps_history_def identity_wf_def history_extends_def intro: grows_update)
qed

lemma keeps_verified: "keeps_history w (snd (accounts_markEmailVerified account now w))"
  unfolding accounts_markEmailVerified_def updateE_eq snd_conv
  by (rule keeps_account_update) (simp add: account_evolves_def)

lemma keeps_status: "keeps_history w (snd (accounts_setStatus account status why bump now w))"
  unfolding accounts_setStatus_def
  by (auto simp: update_one_Some split: option.split intro!: keeps_account_update) (simp_all add: account_evolves_def)

lemma upsert_keys:
  "distinct (map pc_accountId cs) \<Longrightarrow> distinct (map pc_accountId (upsert_credential c cs))"
proof (cases "\<exists>x \<in> set cs. pc_accountId x = pc_accountId c")
  case True
  have "map pc_accountId (map (\<lambda>x. if pc_accountId x = pc_accountId c then c else x) cs) = map pc_accountId cs"
    by (induction cs) auto
  then show "distinct (map pc_accountId cs) \<Longrightarrow> ?thesis"
    using True by (simp add: upsert_credential_def update_one_def update_many_def list_ex_iff del: map_map)
next
  case False
  then show "distinct (map pc_accountId cs) \<Longrightarrow> ?thesis"
    by (auto simp: upsert_credential_def update_one_def list_ex_iff)
qed

lemma keeps_password: "keeps_history w (snd (accounts_replacePassword account h now w))"
proof (cases "update_one (\<lambda>a. ac_id a = account)
            (\<lambda>a. a\<lparr>ac_tokenVersion := ac_tokenVersion a + 1, ac_updatedAt := now\<rparr>) (w_accounts w)")
  case None then show ?thesis by (simp add: accounts_replacePassword_def)
next
  case (Some as)
  have "keeps_history w (w\<lparr>w_accounts := as\<rparr>)"
    using Some keeps_account_update [of w "\<lambda>a. ac_id a = account"
        "\<lambda>a. a\<lparr>ac_tokenVersion := ac_tokenVersion a + 1, ac_updatedAt := now\<rparr>"]
    by (simp add: update_one_Some account_evolves_def)
  then show ?thesis
    using Some upsert_keys by (auto simp: accounts_replacePassword_def keeps_history_def identity_wf_def history_extends_def)
qed

lemma keeps_reset_update:
  assumes "\<And>r. p r \<Longrightarrow> reset_evolves r (f r)"
  shows "keeps_history w (w\<lparr>w_resets := snd (update_many p f (w_resets w))\<rparr>)"
proof -
  have "map (\<lambda>r. oc_id (fst r)) (snd (update_many p f (w_resets w))) = map (\<lambda>r. oc_id (fst r)) (w_resets w)"
    "map (\<lambda>r. oc_codeHash (fst r)) (snd (update_many p f (w_resets w))) = map (\<lambda>r. oc_codeHash (fst r)) (w_resets w)"
    using assms by (auto simp: update_many_def reset_evolves_def)
  then show ?thesis
    using assms by (auto simp: keeps_history_def identity_wf_def history_extends_def intro: grows_update)
qed

lemma keeps_reset_create: "keeps_history w (snd (resets_create c ip w))"
  by (auto simp: resets_create_def create_row_Some keeps_history_def identity_wf_def
      history_extends_def grows_append split: option.splits)

lemma keeps_reset_failed: "keeps_history w (snd (resets_recordFailedAttempt cid w))"
  unfolding resets_recordFailedAttempt_def
  by (auto simp: update_one_Some split: option.split intro!: keeps_reset_update) (auto simp: reset_evolves_def)

lemma keeps_reset_used: "keeps_history w (snd (resets_consume cid account now w))"
  unfolding resets_consume_def
  by (auto simp: update_one_Some split: option.split intro!: keeps_reset_update) (auto simp: reset_evolves_def)

lemma keeps_codes:
  "keeps_history w (snd (verifications_create c w))"
  "keeps_history w (snd (verifications_recordFailedAttempt cid w))"
  "keeps_history w (snd (verifications_consume cid now w))"
  "keeps_history w (snd (mfa_saveEnrolment e w))"
  "keeps_history w (snd (mfa_confirmEnrolment account now w))"
  "keeps_history w (snd (mfa_disableEnrolment account now w))"
  "keeps_history w (snd (mfa_replaceRecoveryCodes account codes w))"
  "keeps_history w (snd (mfa_consumeRecoveryCode account h now w))"
  by (auto simp: verifications_create_def verifications_recordFailedAttempt_def verifications_consume_def
      mfa_saveEnrolment_def mfa_confirmEnrolment_def mfa_disableEnrolment_def mfa_replaceRecoveryCodes_def
      mfa_consumeRecoveryCode_def split_beta Let_def keeps_history_def identity_wf_def history_extends_def
      split: option.split)

lemma keeps_logs:
  "keeps_history w (snd (ledger_record ev w))"
  "keeps_history w (snd (append_audit au w))"
  "keeps_history w (snd (send_notification n w))"
  "keeps_history w (w\<lparr>w_next := Suc (w_next w)\<rparr>)"
  by (simp_all add: ledger_record_def append_audit_def send_notification_def keeps_history_def
      identity_wf_def history_extends_def grows_append)

lemmas keeps_transactions = keeps_create keeps_touch keeps_revoke keeps_revokeAll keeps_bind keeps_rebind
  keeps_rotate keeps_reuse keeps_register keeps_verified keeps_status keeps_password keeps_reset_create
  keeps_reset_failed keeps_reset_used keeps_codes keeps_logs

lemma transaction_keeps: "identity_transaction w w' \<Longrightarrow> keeps_history w w'"
  by (induction rule: identity_transaction.induct) (rule keeps_transactions)+

lemma transactions_keep: "identity_transaction\<^sup>*\<^sup>* w w' \<Longrightarrow> keeps_history w w'"
proof (induction rule: rtranclp_induct)
  case (step y z)
  then show ?case using transaction_keeps [OF step(2)] history_trans by (auto simp: keeps_history_def)
qed simp

lemma transactions_wf: "identity_transaction\<^sup>*\<^sup>* w w' \<Longrightarrow> identity_wf w \<Longrightarrow> identity_wf w'"
  using transactions_keep by (simp add: keeps_history_def)

lemma transactions_history: "identity_transaction\<^sup>*\<^sup>* w w' \<Longrightarrow> identity_wf w \<Longrightarrow> history_extends w w'"
  using transactions_keep by (simp add: keeps_history_def)

interpretation tx: step_relation "identity_transaction\<^sup>*\<^sup>*"
  by unfold_locales auto

lemma always_tx:
  "(\<And>w. identity_transaction w (snd (m w))) \<Longrightarrow> always identity_transaction\<^sup>*\<^sup>* m"
  by (auto simp: always_def intro: r_into_rtranclp)

lemma always_draw: "always identity_transaction\<^sup>*\<^sup>* (take_next f)"
  using tx_draw by (auto simp: always_def take_next_def intro: r_into_rtranclp)

lemmas transaction_effects = always_draw
  always_tx [OF tx_createSession] always_tx [OF tx_touch] always_tx [OF tx_revoke] always_tx [OF tx_revokeAll]
  always_tx [OF tx_bind] always_tx [OF tx_rebind] always_tx [OF tx_rotate] always_tx [OF tx_reuse]
  always_tx [OF tx_register] always_tx [OF tx_verified] always_tx [OF tx_status] always_tx [OF tx_password]
  always_tx [OF tx_code] always_tx [OF tx_code_failed] always_tx [OF tx_code_used] always_tx [OF tx_reset]
  always_tx [OF tx_reset_failed] always_tx [OF tx_reset_used] always_tx [OF tx_enrol] always_tx [OF tx_confirm]
  always_tx [OF tx_disable] always_tx [OF tx_codes] always_tx [OF tx_recovery] always_tx [OF tx_ledger]
  always_tx [OF tx_audit] always_tx [OF tx_notify]

section \<open>Rows later\<close>

text \<open>What a row read in one world looks like in any later world.\<close>

lemma session_later:
  assumes tx: "identity_transaction\<^sup>*\<^sup>* w w'" and wf: "identity_wf w" and s: "s \<in> set (w_sessions w)"
    and found: "sessions_findSession account (se_id s) w' = Some t"
  shows "session_evolves s t"
proof -
  have h: "grows session_evolves (w_sessions w) (w_sessions w')" and w': "identity_wf w'"
    using transactions_history [OF tx wf] transactions_wf [OF tx wf] by (auto simp: history_extends_def)
  obtain u where u: "u \<in> set (w_sessions w')" "session_evolves s u" using grows_member [OF h s] .
  have t: "t \<in> set (w_sessions w')" "se_id t = se_id s"
    using find_first_Some found unfolding sessions_findSession_def by fast+
  have "distinct (map se_id (w_sessions w'))" using w' by (simp add: identity_wf_def)
  then have "t = u" using distinct_same_key t u by (metis session_evolves_def)
  then show ?thesis using u by simp
qed

lemma account_later:
  assumes tx: "identity_transaction\<^sup>*\<^sup>* w w'" and wf: "identity_wf w" and a: "accounts_findById account w = Some a"
  obtains b where "accounts_findById account w' = Some b" "account_evolves a b"
proof -
  have h: "grows account_evolves (w_accounts w) (w_accounts w')" and w': "identity_wf w'"
    using transactions_history [OF tx wf] transactions_wf [OF tx wf] by (auto simp: history_extends_def)
  have a1: "a \<in> set (w_accounts w)" "ac_id a = account"
    using find_first_Some a unfolding accounts_findById_def by fast+
  obtain b where b: "b \<in> set (w_accounts w')" "account_evolves a b" using grows_member [OF h a1(1)] .
  have "distinct (map ac_id (w_accounts w'))" using w' by (simp add: identity_wf_def)
  then have "accounts_findById account w' = Some b"
    unfolding accounts_findById_def using b a1(2) by (intro find_first_key) (auto simp: account_evolves_def)
  then show ?thesis using b(2) that by blast
qed

lemma token_later:
  assumes tx: "identity_transaction\<^sup>*\<^sup>* w w'" and wf: "identity_wf w" and t: "t \<in> set (w_tokens w)"
  obtains u where "find_first (\<lambda>x. rt_tokenHash x = rt_tokenHash t) stored_order (w_tokens w') = Some u" "token_evolves t u"
proof -
  have h: "grows token_evolves (w_tokens w) (w_tokens w')" and w': "identity_wf w'"
    using transactions_history [OF tx wf] transactions_wf [OF tx wf] by (auto simp: history_extends_def)
  obtain u where u: "u \<in> set (w_tokens w')" "token_evolves t u" using grows_member [OF h t] .
  have "distinct (map rt_tokenHash (w_tokens w'))" using w' by (simp add: identity_wf_def)
  then have "find_first (\<lambda>x. rt_tokenHash x = rt_tokenHash t) stored_order (w_tokens w') = Some u"
    using u by (intro find_first_key) (auto simp: token_evolves_def)
  then show ?thesis using u(2) that by blast
qed

lemma family_later:
  assumes tx: "identity_transaction\<^sup>*\<^sup>* w w'" and wf: "identity_wf w" and f: "f \<in> set (w_families w)"
  obtains g where "find_first (\<lambda>x. fa_id x = fa_id f) stored_order (w_families w') = Some g" "family_evolves f g"
proof -
  have h: "grows family_evolves (w_families w) (w_families w')" and w': "identity_wf w'"
    using transactions_history [OF tx wf] transactions_wf [OF tx wf] by (auto simp: history_extends_def)
  obtain g where g: "g \<in> set (w_families w')" "family_evolves f g" using grows_member [OF h f] .
  have "distinct (map fa_id (w_families w'))" using w' by (simp add: identity_wf_def)
  then have "find_first (\<lambda>x. fa_id x = fa_id f) stored_order (w_families w') = Some g"
    using g by (intro find_first_key) (auto simp: family_evolves_def)
  then show ?thesis using g(2) that by blast
qed

lemma reset_later:
  assumes tx: "identity_transaction\<^sup>*\<^sup>* w w'" and wf: "identity_wf w" and r: "r \<in> set (w_resets w)"
  obtains q where "resets_findByCodeHash (oc_codeHash (fst r)) w' = Some (fst q)" "reset_evolves r q"
proof -
  have h: "grows reset_evolves (w_resets w) (w_resets w')" and w': "identity_wf w'"
    using transactions_history [OF tx wf] transactions_wf [OF tx wf] by (auto simp: history_extends_def)
  obtain q where q: "q \<in> set (w_resets w')" "reset_evolves r q" using grows_member [OF h r] .
  have "distinct (map (\<lambda>r. oc_codeHash (fst r)) (w_resets w'))" using w' by (simp add: identity_wf_def)
  then have "find_first (\<lambda>x. oc_codeHash (fst x) = oc_codeHash (fst r)) stored_order (w_resets w') = Some q"
    using q by (intro find_first_key) (auto simp: reset_evolves_def)
  then show ?thesis using q(2) that by (simp add: resets_findByCodeHash_def)
qed

end
