(* ===== verification/Identity_Sessions.thy ===== *)
theory Identity_Sessions
  imports Identity_Transactions
begin

text \<open>
  The session side of the identity module: the dependency bundle (\<open>application/identity-deps.ts\<close>), the
  issuer, and the use cases that refresh, list, revoke, bind, rebind and authenticate a session.

  The dependency bundle is a parameter of every use case: the hasher, the signer, the cipher, the TOTP
  service and the digests are functions, the secret source a supply indexed by \<open>w_next\<close>, and
  \<open>d_down\<close> says which call raises in which state, so a theorem holds whichever calls fail.
  \<open>d_limit\<close> is the rate limiter's answer.  One execution reads one clock instant.
\<close>

section \<open>Policy and dependencies\<close>

record identity_policy =
  ip_accessTokenTtlMs :: int
  ip_challengeTokenTtlMs :: int
  ip_refreshTokenTtlMs :: int
  ip_sessionAbsoluteTtlMs :: int
  ip_sessionIdleTtlMs :: "int option"
  ip_verificationCodeTtlMs :: int
  ip_verificationMaxAttempts :: int
  ip_verificationResendCooldownMs :: int
  ip_resetTokenTtlMs :: int
  ip_resetMaxAttempts :: int
  ip_resetRequestCooldownMs :: int
  ip_lockoutThreshold :: nat
  ip_lockoutWindowMs :: int
  ip_recoveryLockThreshold :: nat
  ip_recoveryLockWindowMs :: int
  ip_passwordMinLength :: nat
  ip_passwordMaxLength :: nat

definition MINUTE_MS :: int where "MINUTE_MS = 60000"
definition DAY_MS :: int where "DAY_MS = 24 * 60 * MINUTE_MS"

definition DEFAULT_IDENTITY_POLICY :: identity_policy where
  "DEFAULT_IDENTITY_POLICY =
     \<lparr>ip_accessTokenTtlMs = 10 * MINUTE_MS, ip_challengeTokenTtlMs = 5 * MINUTE_MS,
      ip_refreshTokenTtlMs = 14 * DAY_MS, ip_sessionAbsoluteTtlMs = 90 * DAY_MS,
      ip_sessionIdleTtlMs = None, ip_verificationCodeTtlMs = 30 * MINUTE_MS,
      ip_verificationMaxAttempts = 5, ip_verificationResendCooldownMs = 60 * 1000,
      ip_resetTokenTtlMs = 30 * MINUTE_MS, ip_resetMaxAttempts = 5, ip_resetRequestCooldownMs = 60 * 1000,
      ip_lockoutThreshold = 10, ip_lockoutWindowMs = 15 * MINUTE_MS,
      ip_recoveryLockThreshold = 5, ip_recoveryLockWindowMs = 15 * MINUTE_MS,
      ip_passwordMinLength = 8, ip_passwordMaxLength = 512\<rparr>"

record access_claims =
  cm_accountId :: string
  cm_sessionId :: string
  cm_tokenVersion :: int

record client_context =
  cl_ipDigest :: "string option"
  cl_userAgentSummary :: "string option"

datatype identity_call =
    CALL_ACCOUNTS | CALL_VERIFICATIONS | CALL_RESETS | CALL_SESSIONS | CALL_MFA | CALL_LEDGER
  | CALL_HASHER | CALL_SIGNER | CALL_TOTP | CALL_CIPHER | CALL_NOTIFICATIONS | CALL_AUDIT

datatype identity_limit =
    LIMIT_LOGIN_ACCOUNT | LIMIT_LOGIN_IP | LIMIT_VERIFICATION_SEND | LIMIT_RESET_SEND
  | LIMIT_MFA_VERIFY | LIMIT_REFRESH

record identity_deps =
  d_policy :: identity_policy
  d_down :: "identity_call \<Rightarrow> identity_world \<Rightarrow> bool"
  d_limit :: "identity_limit \<Rightarrow> string \<Rightarrow> identity_world \<Rightarrow> identity_error option"
  d_hash :: "nat \<Rightarrow> string \<Rightarrow> string \<times> int"
  d_verify :: "string \<Rightarrow> string \<Rightarrow> bool"
  d_needsRehash :: "int \<Rightarrow> bool"
  d_signAccess :: "access_claims \<Rightarrow> millis \<Rightarrow> string \<times> millis"
  d_verifyAccess :: "string \<Rightarrow> millis \<Rightarrow> access_claims option"
  d_signChallenge :: "string \<Rightarrow> millis \<Rightarrow> string \<times> millis"
  d_verifyChallenge :: "string \<Rightarrow> millis \<Rightarrow> string option"
  d_verificationCodeDigest :: "string \<Rightarrow> string"
  d_resetTokenDigest :: "string \<Rightarrow> string"
  d_refreshTokenDigest :: "string \<Rightarrow> string"
  d_recoveryCodeDigest :: "string \<Rightarrow> string"
  d_emailKey :: "string \<Rightarrow> string"
  d_idKey :: "string \<Rightarrow> string"
  d_id :: "nat \<Rightarrow> string"
  d_refreshToken :: "nat \<Rightarrow> string"
  d_resetToken :: "nat \<Rightarrow> string"
  d_verificationCode :: "nat \<Rightarrow> string"
  d_recoveryCode :: "nat \<Rightarrow> string"
  d_totpSecret :: "nat \<Rightarrow> string"
  d_totpVerify :: "string \<Rightarrow> string \<Rightarrow> millis \<Rightarrow> bool"
  d_otpauthUrl :: "string \<Rightarrow> string \<Rightarrow> string"
  d_encrypt :: "nat \<Rightarrow> string \<Rightarrow> string \<times> string"
  d_decrypt :: "string \<Rightarrow> string \<Rightarrow> string"

definition await :: "identity_deps \<Rightarrow> identity_call \<Rightarrow> 'a identity_effect \<Rightarrow> 'a identity_effect" where
  "await d c m = (\<lambda>w. callE (d_down d c w) CALL_FAILED m w)"

definition assertWithinLimit :: "identity_deps \<Rightarrow> identity_limit \<Rightarrow> string \<Rightarrow> unit identity_effect" where
  "assertWithinLimit d p key = (\<lambda>w. case d_limit d p key w of None \<Rightarrow> (Inr (), w) | Some e \<Rightarrow> (Inl e, w))"

section \<open>Ledger and audit helpers\<close>

fun contains_text :: "string \<Rightarrow> string \<Rightarrow> bool" where
  "contains_text p [] = (p = [])"
| "contains_text p (x # xs) = (take (length p) (x # xs) = p \<or> contains_text p xs)"

definition FORBIDDEN_EXACT_KEYS :: "string list" where
  "FORBIDDEN_EXACT_KEYS = [''code'', ''token'', ''hash'', ''secret'', ''password'', ''email'']"

definition FORBIDDEN_KEY_PARTS :: "string list" where
  "FORBIDDEN_KEY_PARTS = [''password'', ''passphrase'', ''secret'', ''authorization'', ''apikey'', ''api_key'', ''email'']"

definition MAX_METADATA_VALUE_LENGTH :: nat where "MAX_METADATA_VALUE_LENGTH = 200"

definition metadata_entry_ok :: "string \<times> json \<Rightarrow> bool" where
  "metadata_entry_ok e = (case e of (key, value) \<Rightarrow>
     \<not> (js_lower key \<in> set FORBIDDEN_EXACT_KEYS
        \<or> list_ex (\<lambda>p. contains_text p (js_lower key)) FORBIDDEN_KEY_PARTS)
     \<and> (case value of JString s \<Rightarrow> length s \<le> MAX_METADATA_VALUE_LENGTH | _ \<Rightarrow> True))"

definition guardSecurityMetadata ::
  "(string \<times> json) list option \<Rightarrow> (identity_error, (string \<times> json) list option) outcome" where
  "guardSecurityMetadata m = (case m of None \<Rightarrow> Inr None
     | Some es \<Rightarrow> if list_all metadata_entry_ok es then Inr (Some es) else Inl METADATA_VIOLATION)"

definition recordSecurity ::
  "identity_deps \<Rightarrow> millis \<Rightarrow> string option \<Rightarrow> security_event_type \<Rightarrow> string option
     \<Rightarrow> (string \<times> json) list option \<Rightarrow> unit identity_effect" where
  "recordSecurity d now account kind ip meta = (case guardSecurityMetadata meta of
     Inl e \<Rightarrow> throwE e
   | Inr m \<Rightarrow> (\<lambda>w. callE (d_down d CALL_LEDGER w) DEPENDENCY_UNAVAILABLE
       (ledger_record \<lparr>ev_accountId = account, ev_type = kind, ev_occurredAt = now,
                       ev_ipDigest = ip, ev_metadata = m\<rparr>) w))"

definition auditOrFail ::
  "identity_deps \<Rightarrow> millis \<Rightarrow> string \<Rightarrow> string option \<Rightarrow> string \<Rightarrow> string
     \<Rightarrow> (string \<times> json) list option \<Rightarrow> unit identity_effect" where
  "auditOrFail d now action account rtype rid meta = (\<lambda>w. callE (d_down d CALL_AUDIT w) DEPENDENCY_UNAVAILABLE
     (append_audit \<lparr>ia_action = action, ia_actorRef = map_option (\<lambda>a. ''user:'' @ a) account,
        ia_resourceType = rtype, ia_resourceId = rid, ia_metadata = meta, ia_occurredAt = now\<rparr>) w)"

text \<open>A delivery that fails is a value the use cases do not look at; it sends nothing.\<close>

definition notify :: "identity_deps \<Rightarrow> notification \<Rightarrow> unit identity_effect" where
  "notify d n = (\<lambda>w. if d_down d CALL_NOTIFICATIONS w then (Inr (), w) else send_notification n w)"

definition notice :: "identity_deps \<Rightarrow> string \<Rightarrow> string \<Rightarrow> unit identity_effect" where
  "notice d account kind = thenE (await d CALL_ACCOUNTS (readE (accounts_findById account))) (\<lambda>a.
     case a of None \<Rightarrow> returnE ()
     | Some acct \<Rightarrow> notify d (SECURITY_NOTICE (ac_email acct) kind))"

section \<open>The session issuer\<close>

record issued_session =
  is_sessionId :: string
  is_accessToken :: string
  is_accessTokenExpiresAt :: millis
  is_refreshToken :: string
  is_refreshTokenExpiresAt :: millis
  is_absoluteExpiresAt :: millis

definition refreshExpiry :: "identity_policy \<Rightarrow> millis \<Rightarrow> millis \<Rightarrow> millis" where
  "refreshExpiry p now ceiling = min (now + ip_refreshTokenTtlMs p) ceiling"

definition idle_expiry :: "identity_policy \<Rightarrow> millis \<Rightarrow> millis option" where
  "idle_expiry p now = map_option (\<lambda>ttl. now + ttl) (ip_sessionIdleTtlMs p)"

definition minted_bundle ::
  "identity_deps \<Rightarrow> millis \<Rightarrow> identity_account \<Rightarrow> client_context \<Rightarrow> string option
     \<Rightarrow> string \<Rightarrow> string \<Rightarrow> string \<Rightarrow> string \<Rightarrow> session_bundle" where
  "minted_bundle d now account client binding sid fid raw tid =
     (let ceiling = now + ip_sessionAbsoluteTtlMs (d_policy d) in
      \<lparr>sb_session = \<lparr>se_id = sid, se_accountId = ac_id account, se_createdAt = now, se_lastSeenAt = now,
          se_absoluteExpiresAt = ceiling, se_idleExpiresAt = idle_expiry (d_policy d) now,
          se_revokedAt = None, se_revokedReason = None, se_ipDigest = cl_ipDigest client,
          se_userAgentSummary = cl_userAgentSummary client, se_tenantBinding = binding\<rparr>,
       sb_family = \<lparr>fa_id = fid, fa_sessionId = sid, fa_accountId = ac_id account, fa_createdAt = now,
          fa_revokedAt = None, fa_revokedReason = None\<rparr>,
       sb_firstToken = \<lparr>rt_id = tid, rt_familyId = fid, rt_tokenHash = d_refreshTokenDigest d raw,
          rt_createdAt = now, rt_expiresAt = refreshExpiry (d_policy d) now ceiling,
          rt_usedAt = None, rt_supersededBy = None\<rparr>\<rparr>)"

definition mint ::
  "identity_deps \<Rightarrow> millis \<Rightarrow> identity_account \<Rightarrow> client_context \<Rightarrow> string option
     \<Rightarrow> (session_bundle \<times> string) identity_effect" where
  "mint d now account client binding =
     thenE (take_next (d_id d)) (\<lambda>sid.
     thenE (take_next (d_id d)) (\<lambda>fid.
     thenE (take_next (d_refreshToken d)) (\<lambda>raw.
     thenE (take_next (d_id d)) (\<lambda>tid.
       returnE (minted_bundle d now account client binding sid fid raw tid, raw)))))"

definition accessTokenFor ::
  "identity_deps \<Rightarrow> millis \<Rightarrow> string \<Rightarrow> string \<Rightarrow> int \<Rightarrow> (string \<times> millis) identity_effect" where
  "accessTokenFor d now account sid version = await d CALL_SIGNER (returnE (d_signAccess d
     \<lparr>cm_accountId = account, cm_sessionId = sid, cm_tokenVersion = version\<rparr> now))"

definition issuedFrom ::
  "identity_deps \<Rightarrow> millis \<Rightarrow> session_bundle \<times> string \<Rightarrow> int \<Rightarrow> issued_session identity_effect" where
  "issuedFrom d now minted version =
     (let s = sb_session (fst minted) in
      thenE (accessTokenFor d now (se_accountId s) (se_id s) version) (\<lambda>access.
        returnE \<lparr>is_sessionId = se_id s, is_accessToken = fst access, is_accessTokenExpiresAt = snd access,
                 is_refreshToken = snd minted, is_refreshTokenExpiresAt = rt_expiresAt (sb_firstToken (fst minted)),
                 is_absoluteExpiresAt = se_absoluteExpiresAt s\<rparr>))"

definition issue ::
  "identity_deps \<Rightarrow> millis \<Rightarrow> identity_account \<Rightarrow> client_context \<Rightarrow> issued_session identity_effect" where
  "issue d now account client =
     thenE (mint d now account client None) (\<lambda>minted.
     thenE (await d CALL_SESSIONS (sessions_createSession (fst minted))) (\<lambda>u.
       issuedFrom d now minted (ac_tokenVersion account)))"

section \<open>Refreshing\<close>

record refreshed_session =
  rf_accessToken :: string
  rf_accessTokenExpiresAt :: millis
  rf_refreshToken :: string
  rf_refreshTokenExpiresAt :: millis
  rf_sessionId :: string

definition onReuseDetected ::
  "identity_deps \<Rightarrow> millis \<Rightarrow> string \<Rightarrow> string \<Rightarrow> string \<Rightarrow> client_context \<Rightarrow> unit identity_effect" where
  "onReuseDetected d now account fid sid client =
     thenE (await d CALL_SESSIONS (sessions_revokeFamilyAndSession account fid sid RR_REFRESH_REUSE_DETECTED now)) (\<lambda>u.
     thenE (recordSecurity d now (Some account) REFRESH_REUSE_DETECTED (cl_ipDigest client)
              (Some [(''familyId'', JString fid), (''sessionId'', JString sid)])) (\<lambda>u.
       notice d account ''refresh_reuse_detected''))"

definition rotate_presented ::
  "identity_deps \<Rightarrow> millis \<Rightarrow> refresh_token \<Rightarrow> token_family \<Rightarrow> session \<Rightarrow> identity_account
     \<Rightarrow> client_context \<Rightarrow> refreshed_session identity_effect" where
  "rotate_presented d now t f s acct client =
     thenE (take_next (d_refreshToken d)) (\<lambda>raw.
     thenE (take_next (d_id d)) (\<lambda>tid.
     let successor = \<lparr>rt_id = tid, rt_familyId = fa_id f, rt_tokenHash = d_refreshTokenDigest d raw,
           rt_createdAt = now, rt_expiresAt = refreshExpiry (d_policy d) now (se_absoluteExpiresAt s),
           rt_usedAt = None, rt_supersededBy = None\<rparr> in
     thenE (await d CALL_SESSIONS (sessions_rotateToken (fa_accountId f) (rt_id t) successor now)) (\<lambda>claimed.
     if \<not> claimed then
       thenE (onReuseDetected d now (fa_accountId f) (fa_id f) (se_id s) client) (\<lambda>u. throwE REUSE_DETECTED)
     else
       thenE (await d CALL_SESSIONS (sessions_touchSession (fa_accountId f) (se_id s) now
                (idle_expiry (d_policy d) now))) (\<lambda>u.
       thenE (accessTokenFor d now (fa_accountId f) (se_id s) (ac_tokenVersion acct)) (\<lambda>access.
         returnE \<lparr>rf_accessToken = fst access, rf_accessTokenExpiresAt = snd access, rf_refreshToken = raw,
                  rf_refreshTokenExpiresAt = rt_expiresAt successor, rf_sessionId = se_id s\<rparr>)))))"

definition refresh_found ::
  "identity_deps \<Rightarrow> millis \<Rightarrow> client_context \<Rightarrow> refresh_token \<Rightarrow> token_family \<Rightarrow> session
     \<Rightarrow> refreshed_session identity_effect" where
  "refresh_found d now client t f s =
     (if rt_usedAt t \<noteq> None \<or> rt_supersededBy t \<noteq> None then
        thenE (onReuseDetected d now (fa_accountId f) (fa_id f) (se_id s) client) (\<lambda>u. throwE REUSE_DETECTED)
      else if fa_revokedAt f \<noteq> None then throwE INVALID_TOKEN
      else if rt_expiresAt t \<le> now then throwE INVALID_TOKEN
      else if \<not> isSessionLive s now then throwE INVALID_TOKEN
      else
        thenE (await d CALL_ACCOUNTS (readE (accounts_findById (fa_accountId f)))) (\<lambda>a.
        case a of None \<Rightarrow> throwE INVALID_TOKEN
        | Some acct \<Rightarrow>
            if ac_status acct \<noteq> ACCOUNT_ACTIVE then throwE INVALID_TOKEN
            else rotate_presented d now t f s acct client))"

definition refreshSession ::
  "identity_deps \<Rightarrow> millis \<Rightarrow> string \<Rightarrow> client_context \<Rightarrow> refreshed_session identity_effect" where
  "refreshSession d now presented client =
     (let h = d_refreshTokenDigest d presented in
      thenE (assertWithinLimit d LIMIT_REFRESH (d_idKey d h)) (\<lambda>u.
      thenE (await d CALL_SESSIONS (readE (sessions_findByTokenHash h))) (\<lambda>found.
      case found of None \<Rightarrow> throwE INVALID_TOKEN
      | Some (t, f, s) \<Rightarrow> refresh_found d now client t f s)))"

section \<open>Authenticating a request\<close>

record principal =
  pr_accountId :: string
  pr_sessionId :: string
  pr_tenantBinding :: "string option"
  pr_email :: string
  pr_emailVerified :: bool
  pr_mfaRequired :: bool

definition authenticateRequest :: "identity_deps \<Rightarrow> millis \<Rightarrow> string \<Rightarrow> principal identity_effect" where
  "authenticateRequest d now accessToken =
     thenE (await d CALL_SIGNER (returnE (d_verifyAccess d accessToken now))) (\<lambda>verified.
     case verified of None \<Rightarrow> throwE UNAUTHENTICATED
     | Some c \<Rightarrow>
         thenE (await d CALL_ACCOUNTS (readE (accounts_findById (cm_accountId c)))) (\<lambda>a.
         case a of None \<Rightarrow> throwE UNAUTHENTICATED
         | Some acct \<Rightarrow>
             if ac_status acct \<noteq> ACCOUNT_ACTIVE then throwE UNAUTHENTICATED
             else if ac_tokenVersion acct \<noteq> cm_tokenVersion c then throwE UNAUTHENTICATED
             else
               thenE (await d CALL_SESSIONS (readE (sessions_findSession (cm_accountId c) (cm_sessionId c)))) (\<lambda>x.
               case x of None \<Rightarrow> throwE UNAUTHENTICATED
               | Some s \<Rightarrow>
                   if \<not> isSessionLive s now then throwE UNAUTHENTICATED
                   else
                     thenE (await d CALL_SESSIONS (sessions_touchSession (cm_accountId c) (se_id s) now
                              (idle_expiry (d_policy d) now))) (\<lambda>u.
                       returnE \<lparr>pr_accountId = cm_accountId c, pr_sessionId = se_id s,
                         pr_tenantBinding = se_tenantBinding s, pr_email = ac_email acct,
                         pr_emailVerified = (ac_emailVerifiedAt acct \<noteq> None),
                         pr_mfaRequired = ac_mfaRequired acct\<rparr>))))"

section \<open>Listing and revoking\<close>

record session_view =
  sv_sessionId :: string
  sv_createdAt :: millis
  sv_lastSeenAt :: millis
  sv_absoluteExpiresAt :: millis
  sv_current :: bool
  sv_userAgentSummary :: "string option"
  sv_ipDigest :: "string option"

definition view_of_session :: "string \<Rightarrow> session \<Rightarrow> session_view" where
  "view_of_session current s =
     \<lparr>sv_sessionId = se_id s, sv_createdAt = se_createdAt s, sv_lastSeenAt = se_lastSeenAt s,
      sv_absoluteExpiresAt = se_absoluteExpiresAt s, sv_current = (se_id s = current),
      sv_userAgentSummary = se_userAgentSummary s, sv_ipDigest = se_ipDigest s\<rparr>"

definition listSessions ::
  "identity_deps \<Rightarrow> millis \<Rightarrow> string \<Rightarrow> string \<Rightarrow> session_view list identity_effect" where
  "listSessions d now account current =
     thenE (await d CALL_SESSIONS (readE (sessions_listSessions account))) (\<lambda>ss.
       returnE (map (view_of_session current) (filter (\<lambda>s. isSessionLive s now) ss)))"

definition revokeSession ::
  "identity_deps \<Rightarrow> millis \<Rightarrow> string \<Rightarrow> string \<Rightarrow> client_context \<Rightarrow> unit identity_effect" where
  "revokeSession d now account sid client =
     thenE (await d CALL_SESSIONS (sessions_revokeSession account sid RR_REVOKED_BY_OWNER now)) (\<lambda>revoked.
     if \<not> revoked then throwE SESSION_NOT_FOUND
     else
       thenE (recordSecurity d now (Some account) SESSION_REVOKED (cl_ipDigest client)
                (Some [(''sessionId'', JString sid), (''reason'', JString ''revoked_by_owner'')])) (\<lambda>u.
         auditOrFail d now ''identity.session.revoked'' (Some account) ''identity_session'' sid None))"

definition revokeOtherSessions ::
  "identity_deps \<Rightarrow> millis \<Rightarrow> string \<Rightarrow> string \<Rightarrow> client_context \<Rightarrow> nat identity_effect" where
  "revokeOtherSessions d now account current client =
     thenE (await d CALL_SESSIONS (sessions_revokeAllSessions account RR_REVOKED_OTHER_SESSIONS now (Some current))) (\<lambda>n.
     thenE (recordSecurity d now (Some account) SESSIONS_REVOKED_BULK (cl_ipDigest client)
              (Some [(''reason'', JString ''revoked_other_sessions''), (''revokedCount'', JNumber (Whole (int n)))])) (\<lambda>u.
     thenE (auditOrFail d now ''identity.sessions.revoked_others'' (Some account) ''identity_account'' account
              (Some [(''revokedCount'', JNumber (Whole (int n)))])) (\<lambda>u. returnE n)))"

definition logout ::
  "identity_deps \<Rightarrow> millis \<Rightarrow> string \<Rightarrow> string \<Rightarrow> client_context \<Rightarrow> unit identity_effect" where
  "logout d now account sid client =
     thenE (await d CALL_SESSIONS (sessions_revokeSession account sid RR_LOGOUT now)) (\<lambda>revoked.
     if revoked then recordSecurity d now (Some account) SESSION_REVOKED (cl_ipDigest client)
         (Some [(''sessionId'', JString sid), (''reason'', JString ''logout'')])
     else returnE ())"

section \<open>Binding a session to a tenant\<close>

definition bindSessionTenant ::
  "identity_deps \<Rightarrow> millis \<Rightarrow> string \<Rightarrow> string \<Rightarrow> string \<Rightarrow> client_context \<Rightarrow> (string \<times> string) identity_effect" where
  "bindSessionTenant d now account sid tenant client =
     thenE (await d CALL_SESSIONS (readE (sessions_findSession account sid))) (\<lambda>found.
     case found of None \<Rightarrow> throwE SESSION_NOT_FOUND
     | Some s \<Rightarrow>
         if \<not> isSessionLive s now then throwE SESSION_NOT_FOUND
         else (case se_tenantBinding s of Some t \<Rightarrow> throwE (ALREADY_BOUND t)
         | None \<Rightarrow>
             thenE (await d CALL_SESSIONS (sessions_setTenantBinding account sid tenant)) (\<lambda>claimed.
             if \<not> claimed then throwE BIND_CONFLICT
             else
               thenE (recordSecurity d now (Some account) SESSION_TENANT_BOUND (cl_ipDigest client)
                        (Some [(''sessionId'', JString sid), (''tenantId'', JString tenant)])) (\<lambda>u.
               thenE (auditOrFail d now ''identity.session.tenant_bound'' (Some account) ''identity_session'' sid
                        (Some [(''tenantId'', JString tenant)])) (\<lambda>u.
                 returnE (sid, tenant))))))"

record tenant_rebound =
  tr_session :: issued_session
  tr_previousBinding :: string
  tr_newBinding :: "string option"

definition json_of_binding :: "string option \<Rightarrow> json" where
  "json_of_binding b = (case b of None \<Rightarrow> JNull | Some t \<Rightarrow> JString t)"

definition rebind_recorded ::
  "identity_deps \<Rightarrow> millis \<Rightarrow> identity_account \<Rightarrow> string \<Rightarrow> string \<Rightarrow> string option \<Rightarrow> client_context
     \<Rightarrow> session_bundle \<times> string \<Rightarrow> bool \<Rightarrow> tenant_rebound identity_effect" where
  "rebind_recorded d now acct oldSid previous binding client minted rebound =
     (let newSid = se_id (sb_session (fst minted)); account = ac_id acct in
      if \<not> rebound then throwE REBIND_CONFLICT
      else
        thenE (recordSecurity d now (Some account) SESSION_TENANT_REBOUND (cl_ipDigest client)
                 (Some [(''oldSessionId'', JString oldSid), (''newSessionId'', JString newSid),
                        (''oldTenantId'', JString previous), (''newTenantId'', json_of_binding binding)])) (\<lambda>u.
        thenE (auditOrFail d now ''identity.session.tenant_rebound'' (Some account) ''identity_session'' newSid
                 (Some [(''oldSessionId'', JString oldSid), (''oldTenantId'', JString previous),
                        (''newTenantId'', json_of_binding binding)])) (\<lambda>u.
        thenE (issuedFrom d now minted (ac_tokenVersion acct)) (\<lambda>issued.
          returnE \<lparr>tr_session = issued, tr_previousBinding = previous, tr_newBinding = binding\<rparr>))))"

definition rebind_minted ::
  "identity_deps \<Rightarrow> millis \<Rightarrow> identity_account \<Rightarrow> string \<Rightarrow> string \<Rightarrow> string option \<Rightarrow> client_context
     \<Rightarrow> tenant_rebound identity_effect" where
  "rebind_minted d now acct oldSid previous binding client =
     thenE (mint d now acct client binding) (\<lambda>minted.
     thenE (await d CALL_SESSIONS (sessions_rebindSession (ac_id acct) oldSid RR_TENANT_SWITCH (fst minted) now))
       (rebind_recorded d now acct oldSid previous binding client minted))"

definition rebindSessionTenant ::
  "identity_deps \<Rightarrow> millis \<Rightarrow> string \<Rightarrow> string \<Rightarrow> string option \<Rightarrow> client_context \<Rightarrow> tenant_rebound identity_effect" where
  "rebindSessionTenant d now account sid binding client =
     thenE (await d CALL_ACCOUNTS (readE (accounts_findById account))) (\<lambda>a.
     case a of None \<Rightarrow> throwE ACCOUNT_NOT_ACTIVE
     | Some acct \<Rightarrow>
         if ac_status acct \<noteq> ACCOUNT_ACTIVE then throwE ACCOUNT_NOT_ACTIVE
         else
           thenE (await d CALL_SESSIONS (readE (sessions_findSession account sid))) (\<lambda>found.
           case found of None \<Rightarrow> throwE SESSION_NOT_FOUND
           | Some s \<Rightarrow>
               if \<not> isSessionLive s now then throwE SESSION_NOT_FOUND
               else (case se_tenantBinding s of None \<Rightarrow> throwE NOT_BOUND
               | Some previous \<Rightarrow> rebind_minted d now acct sid previous binding client)))"

section \<open>Every use case is a run of transactions\<close>

text \<open>
  The shared shape of every relation between identity worlds that the calls keep.
\<close>

locale identity_relation = step_relation R for R :: "identity_world \<Rightarrow> identity_world \<Rightarrow> bool"
begin

lemma always_await: "always R m \<Longrightarrow> always R (await d c m)"
  by (auto simp: always_def await_def callE_eq step_refl)

lemma always_limit: "always R (assertWithinLimit d p key)"
  by (auto simp: always_def assertWithinLimit_def step_refl split: option.split)

end

interpretation calls: identity_relation "identity_transaction\<^sup>*\<^sup>*"
  by unfold_locales

lemma always_record: "always identity_transaction\<^sup>*\<^sup>* (recordSecurity d now account kind ip meta)"
  using tx_ledger by (auto simp: always_def recordSecurity_def callE_eq split: sum.split)

lemma always_audit: "always identity_transaction\<^sup>*\<^sup>* (auditOrFail d now action account rtype rid meta)"
  using tx_audit by (auto simp: always_def auditOrFail_def callE_eq)

lemma always_notify: "always identity_transaction\<^sup>*\<^sup>* (notify d n)"
  using tx_notify by (auto simp: always_def notify_def send_notification_def)

lemmas use_case_effects = always_notify tx.always_intros transaction_effects calls.always_await calls.always_limit always_record always_audit

lemma always_notice: "always identity_transaction\<^sup>*\<^sup>* (notice d account kind)"
  unfolding notice_def by (intro use_case_effects)

lemma always_mint: "always identity_transaction\<^sup>*\<^sup>* (mint d now account client binding)"
  unfolding mint_def by (intro use_case_effects)

lemma always_access: "always identity_transaction\<^sup>*\<^sup>* (accessTokenFor d now account sid version)"
  unfolding accessTokenFor_def by (intro use_case_effects)

lemma always_issuedFrom: "always identity_transaction\<^sup>*\<^sup>* (issuedFrom d now minted version)"
  unfolding issuedFrom_def Let_def by (intro use_case_effects always_access)

lemma always_issue: "always identity_transaction\<^sup>*\<^sup>* (issue d now account client)"
  unfolding issue_def by (intro use_case_effects always_mint always_issuedFrom)

lemma always_reuse: "always identity_transaction\<^sup>*\<^sup>* (onReuseDetected d now account fid sid client)"
  unfolding onReuseDetected_def by (intro use_case_effects always_notice)

lemma always_rotate: "always identity_transaction\<^sup>*\<^sup>* (rotate_presented d now t f s acct client)"
  unfolding rotate_presented_def Let_def by (intro use_case_effects always_access always_reuse)

lemma always_found: "always identity_transaction\<^sup>*\<^sup>* (refresh_found d now client t f s)"
  unfolding refresh_found_def by (intro use_case_effects always_reuse always_rotate)

lemma always_refresh: "always identity_transaction\<^sup>*\<^sup>* (refreshSession d now presented client)"
  unfolding refreshSession_def Let_def
  by (intro use_case_effects) (simp add: split_beta always_found)

lemma always_authenticate: "always identity_transaction\<^sup>*\<^sup>* (authenticateRequest d now tok)"
  unfolding authenticateRequest_def by (intro use_case_effects)

lemma always_session_commands:
  "always identity_transaction\<^sup>*\<^sup>* (listSessions d now account current)"
  "always identity_transaction\<^sup>*\<^sup>* (revokeSession d now account sid client)"
  "always identity_transaction\<^sup>*\<^sup>* (revokeOtherSessions d now account current client)"
  "always identity_transaction\<^sup>*\<^sup>* (logout d now account sid client)"
  "always identity_transaction\<^sup>*\<^sup>* (bindSessionTenant d now account sid tenant client)"
  unfolding listSessions_def revokeSession_def revokeOtherSessions_def logout_def bindSessionTenant_def
  by (intro use_case_effects)+

lemma always_rebind: "always identity_transaction\<^sup>*\<^sup>* (rebindSessionTenant d now account sid binding client)"
  unfolding rebindSessionTenant_def rebind_minted_def rebind_recorded_def Let_def
  by (intro use_case_effects always_mint always_issuedFrom)

end
