(* ===== verification/Identity_Credentials.thy ===== *)
theory Identity_Credentials
  imports Identity_Sessions
begin

text \<open>
  The credential side of the identity module: registration and e-mail verification, login with its
  lockout and MFA fork, password recovery and change, the MFA lifecycle, and account administration.
  \<open>normalize('NFC')\<close> is the identity on 8-bit texts; \<open>js_upper\<close> leaves the three 8-bit letters alone whose
  capitals are not 8-bit.
\<close>

section \<open>E-mail addresses\<close>

definition MAX_EMAIL_LENGTH :: nat where "MAX_EMAIL_LENGTH = 254"

definition normalizeEmail :: "string \<Rightarrow> string" where
  "normalizeEmail raw = js_lower (js_trim raw)"

fun split_dots :: "string \<Rightarrow> string list" where
  "split_dots [] = [[]]"
| "split_dots (c # cs) = (if c = CHR ''.'' then [] # split_dots cs
     else (case split_dots cs of [] \<Rightarrow> [[c]] | l # ls \<Rightarrow> (c # l) # ls))"

definition plain_part :: "string \<Rightarrow> bool" where
  "plain_part s \<longleftrightarrow> s \<noteq> [] \<and> list_all (\<lambda>c. \<not> is_ws c \<and> c \<noteq> CHR ''@'') s"

definition email_shape :: "string \<Rightarrow> bool" where
  "email_shape s = (let before = takeWhile (\<lambda>c. c \<noteq> CHR ''@'') s; rest = dropWhile (\<lambda>c. c \<noteq> CHR ''@'') s in
     case rest of [] \<Rightarrow> False
     | c # domain \<Rightarrow> plain_part before \<and> 2 \<le> length (split_dots domain) \<and> list_all plain_part (split_dots domain))"

definition parseEmail :: "string \<Rightarrow> (identity_error, string) outcome" where
  "parseEmail raw = (let normalized = normalizeEmail raw in
     if length normalized = 0 \<or> length normalized > MAX_EMAIL_LENGTH then Inl INVALID_EMAIL
     else if \<not> email_shape normalized then Inl INVALID_EMAIL else Inr normalized)"

definition upper_char :: "char \<Rightarrow> char" where
  "upper_char c = (let n = (of_char c :: nat) in
     if (97 \<le> n \<and> n \<le> 122) \<or> (224 \<le> n \<and> n \<le> 254 \<and> n \<noteq> 247) then char_of (n - 32) else c)"

definition normalize_code :: "string \<Rightarrow> string" where
  "normalize_code raw = map upper_char (js_trim raw)"

section \<open>Registration and verification\<close>

definition check_password :: "identity_deps \<Rightarrow> string \<Rightarrow> unit identity_effect" where
  "check_password d pw =
     (let lo = ip_passwordMinLength (d_policy d); hi = ip_passwordMaxLength (d_policy d) in
      if length pw < lo \<or> length pw > hi then throwE (INVALID_PASSWORD lo hi) else returnE ())"

definition hash_password :: "identity_deps \<Rightarrow> string \<Rightarrow> (string \<times> int) identity_effect" where
  "hash_password d pw = await d CALL_HASHER (take_next (\<lambda>n. d_hash d n pw))"

definition issueVerification ::
  "identity_deps \<Rightarrow> millis \<Rightarrow> string \<Rightarrow> string \<Rightarrow> client_context \<Rightarrow> unit identity_effect" where
  "issueVerification d now account email client =
     thenE (take_next (d_verificationCode d)) (\<lambda>code.
     thenE (take_next (d_id d)) (\<lambda>cid.
     let expiry = now + ip_verificationCodeTtlMs (d_policy d) in
     thenE (await d CALL_VERIFICATIONS (verifications_create
              \<lparr>oc_id = cid, oc_accountId = account, oc_codeHash = d_verificationCodeDigest d code,
               oc_expiresAt = expiry, oc_attempts = 0,
               oc_maxAttempts = ip_verificationMaxAttempts (d_policy d), oc_consumedAt = None, oc_createdAt = now\<rparr>)) (\<lambda>u.
     thenE (notify d (VERIFICATION_CODE email code expiry)) (\<lambda>u.
       recordSecurity d now (Some account) VERIFICATION_EMAIL_SENT (cl_ipDigest client) None))))"

definition register_hashed ::
  "identity_deps \<Rightarrow> millis \<Rightarrow> string \<Rightarrow> string \<times> int \<Rightarrow> client_context \<Rightarrow> unit identity_effect" where
  "register_hashed d now email h client =
     thenE (take_next (d_id d)) (\<lambda>account.
     thenE (await d CALL_ACCOUNTS (accounts_createWithCredential
              \<lparr>na_id = account, na_email = email, na_passwordHash = fst h, na_paramsVersion = snd h\<rparr> now)) (\<lambda>created.
     if \<not> created then recordSecurity d now None REGISTRATION_DUPLICATE (cl_ipDigest client) None
     else
       thenE (issueVerification d now account email client) (\<lambda>u.
         auditOrFail d now ''identity.account.registered'' (Some account) ''identity_account'' account None)))"

definition registerAccount ::
  "identity_deps \<Rightarrow> millis \<Rightarrow> string \<Rightarrow> string \<Rightarrow> client_context \<Rightarrow> unit identity_effect" where
  "registerAccount d now raw pw client = (case parseEmail raw of
     Inl e \<Rightarrow> throwE e
   | Inr email \<Rightarrow>
       thenE (check_password d pw) (\<lambda>u.
       thenE (assertWithinLimit d LIMIT_VERIFICATION_SEND (d_emailKey d email)) (\<lambda>u.
       thenE (hash_password d pw) (\<lambda>h. register_hashed d now email h client))))"

definition verify_presented ::
  "identity_deps \<Rightarrow> millis \<Rightarrow> identity_account \<Rightarrow> one_time_code \<Rightarrow> string \<Rightarrow> client_context \<Rightarrow> unit identity_effect" where
  "verify_presented d now acct active given client =
     (if oc_attempts active \<ge> oc_maxAttempts active then
        thenE (recordSecurity d now (Some (ac_id acct)) VERIFICATION_FAILED (cl_ipDigest client)
                 (Some [(''reason'', JString ''attempt_cap'')])) (\<lambda>u. throwE INVALID_CODE)
      else if d_verificationCodeDigest d (normalize_code given) \<noteq> oc_codeHash active then
        thenE (await d CALL_VERIFICATIONS (verifications_recordFailedAttempt (oc_id active))) (\<lambda>u.
        thenE (recordSecurity d now (Some (ac_id acct)) VERIFICATION_FAILED (cl_ipDigest client)
                 (Some [(''reason'', JString ''mismatch'')])) (\<lambda>u. throwE INVALID_CODE))
      else
        thenE (await d CALL_VERIFICATIONS (verifications_consume (oc_id active) now)) (\<lambda>u.
        thenE (await d CALL_ACCOUNTS (accounts_markEmailVerified (ac_id acct) now)) (\<lambda>u.
        thenE (recordSecurity d now (Some (ac_id acct)) EMAIL_VERIFIED (cl_ipDigest client) None) (\<lambda>u.
          auditOrFail d now ''identity.email.verified'' (Some (ac_id acct)) ''identity_account'' (ac_id acct) None))))"

definition verifyEmail ::
  "identity_deps \<Rightarrow> millis \<Rightarrow> string \<Rightarrow> string \<Rightarrow> client_context \<Rightarrow> unit identity_effect" where
  "verifyEmail d now raw given client =
     thenE (await d CALL_ACCOUNTS (readE (accounts_findByEmail (normalizeEmail raw)))) (\<lambda>a.
     case a of None \<Rightarrow> throwE INVALID_CODE
     | Some acct \<Rightarrow>
         if ac_emailVerifiedAt acct \<noteq> None then returnE ()
         else
           thenE (await d CALL_VERIFICATIONS (readE (verifications_latestActive (ac_id acct) now))) (\<lambda>c.
           case c of None \<Rightarrow> throwE INVALID_CODE
           | Some active \<Rightarrow> verify_presented d now acct active given client))"

definition resendVerification ::
  "identity_deps \<Rightarrow> millis \<Rightarrow> string \<Rightarrow> client_context \<Rightarrow> unit identity_effect" where
  "resendVerification d now raw client =
     (let email = normalizeEmail raw in
      thenE (assertWithinLimit d LIMIT_VERIFICATION_SEND (d_emailKey d email)) (\<lambda>u.
      thenE (await d CALL_ACCOUNTS (readE (accounts_findByEmail email))) (\<lambda>a.
      case a of None \<Rightarrow> returnE ()
      | Some acct \<Rightarrow>
          if ac_emailVerifiedAt acct \<noteq> None \<or> ac_status acct \<noteq> ACCOUNT_ACTIVE then returnE ()
          else
            thenE (await d CALL_VERIFICATIONS (readE (verifications_latestCreatedAt (ac_id acct)))) (\<lambda>latest.
            if (case latest of None \<Rightarrow> False
                | Some t \<Rightarrow> now - t < ip_verificationResendCooldownMs (d_policy d)) then returnE ()
            else issueVerification d now (ac_id acct) (ac_email acct) client))))"

section \<open>Login\<close>

datatype login_success = LOGGED_IN issued_session | MFA_REQUIRED string millis

definition isLockedOut :: "identity_deps \<Rightarrow> millis \<Rightarrow> string \<Rightarrow> string option \<Rightarrow> bool identity_effect" where
  "isLockedOut d now account ip = await d CALL_LEDGER (readE (\<lambda>w.
     ip_lockoutThreshold (d_policy d)
       \<le> ledger_countSince account [LOGIN_FAILED] ip (now - ip_lockoutWindowMs (d_policy d)) w))"

definition login_failure ::
  "identity_deps \<Rightarrow> millis \<Rightarrow> string option \<Rightarrow> string option \<Rightarrow> string \<Rightarrow> login_success identity_effect" where
  "login_failure d now account ip reason =
     thenE (recordSecurity d now account LOGIN_FAILED ip (Some [(''reason'', JString reason)]))
       (\<lambda>u. throwE INVALID_CREDENTIALS)"

definition dummyVerify :: "identity_deps \<Rightarrow> unit identity_effect" where
  "dummyVerify d = await d CALL_HASHER (returnE ())"

definition upgrade_hash :: "identity_deps \<Rightarrow> millis \<Rightarrow> string \<Rightarrow> int \<Rightarrow> string \<Rightarrow> unit identity_effect" where
  "upgrade_hash d now account params pw =
     (if d_needsRehash d params then
        thenE (hash_password d pw) (\<lambda>h. await d CALL_ACCOUNTS (accounts_replacePassword account h now))
      else returnE ())"

definition login_verified ::
  "identity_deps \<Rightarrow> millis \<Rightarrow> identity_account \<Rightarrow> int \<Rightarrow> string \<Rightarrow> client_context \<Rightarrow> login_success identity_effect" where
  "login_verified d now acct params pw client =
     (let account = ac_id acct; ip = cl_ipDigest client in
      if ac_status acct \<noteq> ACCOUNT_ACTIVE then
        thenE (recordSecurity d now (Some account) ACCOUNT_DISABLED_LOGIN_ATTEMPT ip None)
          (\<lambda>u. throwE INVALID_CREDENTIALS)
      else
        thenE (upgrade_hash d now account params pw) (\<lambda>u.
        thenE (await d CALL_MFA (readE (mfa_getEnrolment account))) (\<lambda>enrolment.
        if isMfaActive enrolment then
          thenE (await d CALL_SIGNER (returnE (d_signChallenge d account now))) (\<lambda>challenge.
          thenE (recordSecurity d now (Some account) MFA_CHALLENGE_ISSUED ip None) (\<lambda>u.
            returnE (MFA_REQUIRED (fst challenge) (snd challenge))))
        else
          thenE (issue d now acct client) (\<lambda>issued.
          thenE (recordSecurity d now (Some account) LOGIN_SUCCEEDED ip
                   (Some [(''sessionId'', JString (is_sessionId issued))])) (\<lambda>u.
          thenE (auditOrFail d now ''identity.login.succeeded'' (Some account) ''identity_session''
                   (is_sessionId issued) None) (\<lambda>u.
            returnE (LOGGED_IN issued)))))))"

definition login_account ::
  "identity_deps \<Rightarrow> millis \<Rightarrow> identity_account \<Rightarrow> string \<Rightarrow> client_context \<Rightarrow> login_success identity_effect" where
  "login_account d now acct pw client =
     (let account = ac_id acct; ip = cl_ipDigest client in
      thenE (isLockedOut d now account ip) (\<lambda>locked.
      if locked then
        thenE (recordSecurity d now (Some account) LOGIN_LOCKED ip None) (\<lambda>u. throwE INVALID_CREDENTIALS)
      else
        thenE (await d CALL_ACCOUNTS (readE (accounts_getCredential account))) (\<lambda>cred.
        case cred of
          None \<Rightarrow> thenE (dummyVerify d) (\<lambda>u. login_failure d now (Some account) ip ''no_credential'')
        | Some (h, params) \<Rightarrow>
            thenE (await d CALL_HASHER (returnE (d_verify d h pw))) (\<lambda>verified.
            if \<not> verified then login_failure d now (Some account) ip ''wrong_password''
            else login_verified d now acct params pw client))))"

definition login ::
  "identity_deps \<Rightarrow> millis \<Rightarrow> string \<Rightarrow> string \<Rightarrow> client_context \<Rightarrow> login_success identity_effect" where
  "login d now raw pw client =
     (let email = normalizeEmail raw; ip = cl_ipDigest client in
      thenE (assertWithinLimit d LIMIT_LOGIN_ACCOUNT (d_emailKey d email)) (\<lambda>u.
      thenE (case ip of None \<Rightarrow> returnE () | Some i \<Rightarrow> assertWithinLimit d LIMIT_LOGIN_IP (d_idKey d i)) (\<lambda>u.
      thenE (await d CALL_ACCOUNTS (readE (accounts_findByEmail email))) (\<lambda>a.
      case a of
        None \<Rightarrow> thenE (dummyVerify d) (\<lambda>u. login_failure d now None ip ''unknown_account'')
      | Some acct \<Rightarrow> login_account d now acct pw client))))"

section \<open>Password recovery and change\<close>

definition forgotPassword :: "identity_deps \<Rightarrow> millis \<Rightarrow> string \<Rightarrow> client_context \<Rightarrow> unit identity_effect" where
  "forgotPassword d now raw client =
     (let email = normalizeEmail raw in
      thenE (assertWithinLimit d LIMIT_RESET_SEND (d_emailKey d email)) (\<lambda>u.
      thenE (await d CALL_ACCOUNTS (readE (accounts_findByEmail email))) (\<lambda>a.
      case a of None \<Rightarrow> returnE ()
      | Some acct \<Rightarrow>
          if ac_status acct \<noteq> ACCOUNT_ACTIVE then returnE ()
          else
            thenE (await d CALL_RESETS (readE (resets_latestCreatedAt (ac_id acct)))) (\<lambda>latest.
            if (case latest of None \<Rightarrow> False
                | Some t \<Rightarrow> now - t < ip_resetRequestCooldownMs (d_policy d)) then returnE ()
            else
              thenE (take_next (d_resetToken d)) (\<lambda>tok.
              thenE (take_next (d_id d)) (\<lambda>rid.
              let expiry = now + ip_resetTokenTtlMs (d_policy d) in
              thenE (await d CALL_RESETS (resets_create
                       \<lparr>oc_id = rid, oc_accountId = ac_id acct, oc_codeHash = d_resetTokenDigest d tok,
                        oc_expiresAt = expiry, oc_attempts = 0, oc_maxAttempts = ip_resetMaxAttempts (d_policy d),
                        oc_consumedAt = None, oc_createdAt = now\<rparr> (cl_ipDigest client))) (\<lambda>u.
              thenE (notify d (PASSWORD_RESET_TOKEN (ac_email acct) tok expiry)) (\<lambda>u.
                recordSecurity d now (Some (ac_id acct)) PASSWORD_RESET_REQUESTED (cl_ipDigest client) None))))))))"

definition reset_dead :: "one_time_code \<Rightarrow> millis \<Rightarrow> bool" where
  "reset_dead r now \<longleftrightarrow> oc_consumedAt r \<noteq> None \<or> oc_expiresAt r \<le> now \<or> oc_attempts r \<ge> oc_maxAttempts r"

definition revoke_and_report ::
  "identity_deps \<Rightarrow> millis \<Rightarrow> string \<Rightarrow> revocation_reason \<Rightarrow> string option \<Rightarrow> security_event_type \<Rightarrow> string \<Rightarrow> string
     \<Rightarrow> client_context \<Rightarrow> unit identity_effect" where
  "revoke_and_report d now account reason except event action kind client =
     thenE (await d CALL_SESSIONS (sessions_revokeAllSessions account reason now except)) (\<lambda>n.
     thenE (recordSecurity d now (Some account) event (cl_ipDigest client)
              (Some [(''revokedCount'', JNumber (Whole (int n)))])) (\<lambda>u.
     thenE (auditOrFail d now action (Some account) ''identity_account'' account
              (Some [(''revokedCount'', JNumber (Whole (int n)))])) (\<lambda>u.
       notice d account kind)))"

definition reset_live ::
  "identity_deps \<Rightarrow> millis \<Rightarrow> one_time_code \<Rightarrow> string \<Rightarrow> client_context \<Rightarrow> unit identity_effect" where
  "reset_live d now r pw client =
     thenE (hash_password d pw) (\<lambda>h.
     thenE (await d CALL_RESETS (resets_consume (oc_id r) (oc_accountId r) now)) (\<lambda>u.
     thenE (await d CALL_ACCOUNTS (accounts_replacePassword (oc_accountId r) h now)) (\<lambda>u.
       revoke_and_report d now (oc_accountId r) RR_PASSWORD_RESET None PASSWORD_RESET_COMPLETED
         ''identity.password.reset'' ''password_reset_completed'' client)))"

definition resetPassword ::
  "identity_deps \<Rightarrow> millis \<Rightarrow> string \<Rightarrow> string \<Rightarrow> client_context \<Rightarrow> unit identity_effect" where
  "resetPassword d now tok pw client =
     thenE (check_password d pw) (\<lambda>u.
     thenE (await d CALL_RESETS (readE (resets_findByCodeHash (d_resetTokenDigest d tok)))) (\<lambda>found.
     case found of
       None \<Rightarrow> thenE (recordSecurity d now None PASSWORD_RESET_FAILED (cl_ipDigest client)
                  (Some [(''reason'', JString ''unknown_token'')])) (\<lambda>u. throwE INVALID_TOKEN)
     | Some r \<Rightarrow>
         if reset_dead r now then
           thenE (await d CALL_RESETS (resets_recordFailedAttempt (oc_id r))) (\<lambda>u.
           thenE (recordSecurity d now (Some (oc_accountId r)) PASSWORD_RESET_FAILED (cl_ipDigest client)
                    (Some [(''reason'', JString ''dead_token'')])) (\<lambda>u. throwE INVALID_TOKEN))
         else reset_live d now r pw client))"

definition changePassword ::
  "identity_deps \<Rightarrow> millis \<Rightarrow> string \<Rightarrow> string \<Rightarrow> string \<Rightarrow> string \<Rightarrow> client_context \<Rightarrow> unit identity_effect" where
  "changePassword d now account currentSid current pw client =
     thenE (check_password d pw) (\<lambda>u.
     thenE (await d CALL_ACCOUNTS (readE (accounts_getCredential account))) (\<lambda>cred.
     case cred of None \<Rightarrow> throwE INVALID_CURRENT_PASSWORD
     | Some (h, params) \<Rightarrow>
         thenE (await d CALL_HASHER (returnE (d_verify d h current))) (\<lambda>verified.
         if \<not> verified then
           thenE (recordSecurity d now (Some account) LOGIN_FAILED (cl_ipDigest client)
                    (Some [(''reason'', JString ''change_password_wrong_current'')])) (\<lambda>u. throwE INVALID_CURRENT_PASSWORD)
         else
           thenE (hash_password d pw) (\<lambda>new.
           thenE (await d CALL_ACCOUNTS (accounts_replacePassword account new now)) (\<lambda>u.
             revoke_and_report d now account RR_PASSWORD_CHANGED (Some currentSid) PASSWORD_CHANGED
               ''identity.password.changed'' ''password_changed'' client)))))"

section \<open>Multi-factor authentication\<close>

definition RECOVERY_CODE_COUNT :: nat where "RECOVERY_CODE_COUNT = 10"

definition enrollMfa ::
  "identity_deps \<Rightarrow> millis \<Rightarrow> string \<Rightarrow> client_context \<Rightarrow> (string \<times> string) identity_effect" where
  "enrollMfa d now account client =
     thenE (await d CALL_MFA (readE (mfa_getEnrolment account))) (\<lambda>existing.
     if isMfaActive existing then throwE ALREADY_ENROLLED
     else
       thenE (await d CALL_ACCOUNTS (readE (accounts_findById account))) (\<lambda>a.
       thenE (take_next (d_totpSecret d)) (\<lambda>secret.
       thenE (await d CALL_CIPHER (take_next (\<lambda>n. d_encrypt d n secret))) (\<lambda>sealed.
       thenE (await d CALL_MFA (mfa_saveEnrolment
                \<lparr>me_accountId = account, me_secretCiphertext = fst sealed, me_keyVersion = snd sealed,
                 me_createdAt = now, me_confirmedAt = None, me_disabledAt = None\<rparr>)) (\<lambda>u.
       thenE (recordSecurity d now (Some account) MFA_ENROLLED (cl_ipDigest client) None) (\<lambda>u.
       thenE (auditOrFail d now ''identity.mfa.enrolled'' (Some account) ''identity_account'' account None) (\<lambda>u.
         returnE (secret, d_otpauthUrl d secret (case a of None \<Rightarrow> account | Some acct \<Rightarrow> ac_email acct)))))))))"

fun draw_many :: "nat \<Rightarrow> (nat \<Rightarrow> string) \<Rightarrow> string list identity_effect" where
  "draw_many 0 f = returnE []"
| "draw_many (Suc n) f = thenE (take_next f) (\<lambda>x. thenE (draw_many n f) (\<lambda>xs. returnE (x # xs)))"

definition totp_matches ::
  "identity_deps \<Rightarrow> millis \<Rightarrow> mfa_enrolment \<Rightarrow> string \<Rightarrow> bool identity_effect" where
  "totp_matches d now e given =
     thenE (await d CALL_CIPHER (returnE (d_decrypt d (me_secretCiphertext e) (me_keyVersion e)))) (\<lambda>secret.
       await d CALL_TOTP (returnE (d_totpVerify d given secret now)))"

definition mfa_failure ::
  "identity_deps \<Rightarrow> millis \<Rightarrow> string \<Rightarrow> string \<Rightarrow> client_context \<Rightarrow> 'a identity_effect" where
  "mfa_failure d now account phase client =
     thenE (recordSecurity d now (Some account) MFA_CHALLENGE_FAILED (cl_ipDigest client)
              (Some [(''phase'', JString phase)])) (\<lambda>u. throwE INVALID_CODE)"

definition confirmMfa ::
  "identity_deps \<Rightarrow> millis \<Rightarrow> string \<Rightarrow> string \<Rightarrow> client_context \<Rightarrow> string list identity_effect" where
  "confirmMfa d now account given client =
     thenE (await d CALL_MFA (readE (mfa_getEnrolment account))) (\<lambda>enrolment.
     case enrolment of None \<Rightarrow> throwE NO_PENDING_ENROLMENT
     | Some e \<Rightarrow>
         if me_confirmedAt e \<noteq> None \<or> me_disabledAt e \<noteq> None then throwE NO_PENDING_ENROLMENT
         else
           thenE (totp_matches d now e given) (\<lambda>ok.
           if \<not> ok then mfa_failure d now account ''confirm'' client
           else
             thenE (await d CALL_MFA (mfa_confirmEnrolment account now)) (\<lambda>u.
             thenE (draw_many RECOVERY_CODE_COUNT (d_recoveryCode d)) (\<lambda>codes.
             thenE (draw_many (length codes) (d_id d)) (\<lambda>ids.
             thenE (await d CALL_MFA (mfa_replaceRecoveryCodes account
                      (map2 (\<lambda>i c. (i, d_recoveryCodeDigest d c, now)) ids codes))) (\<lambda>u.
             thenE (recordSecurity d now (Some account) MFA_CONFIRMED (cl_ipDigest client) None) (\<lambda>u.
             thenE (auditOrFail d now ''identity.mfa.confirmed'' (Some account) ''identity_account'' account None) (\<lambda>u.
             thenE (notice d account ''mfa_enrolled'') (\<lambda>u. returnE codes)))))))))"

definition openChallenge :: "identity_deps \<Rightarrow> millis \<Rightarrow> string \<Rightarrow> identity_account identity_effect" where
  "openChallenge d now challenge =
     thenE (await d CALL_SIGNER (returnE (d_verifyChallenge d challenge now))) (\<lambda>claims.
     case claims of None \<Rightarrow> throwE INVALID_CHALLENGE
     | Some account \<Rightarrow>
         thenE (assertWithinLimit d LIMIT_MFA_VERIFY (d_idKey d account)) (\<lambda>u.
         thenE (await d CALL_ACCOUNTS (readE (accounts_findById account))) (\<lambda>a.
         case a of None \<Rightarrow> throwE INVALID_CHALLENGE
         | Some acct \<Rightarrow> if ac_status acct \<noteq> ACCOUNT_ACTIVE then throwE INVALID_CHALLENGE else returnE acct)))"

definition completeLogin ::
  "identity_deps \<Rightarrow> millis \<Rightarrow> string \<Rightarrow> client_context \<Rightarrow> string \<Rightarrow> issued_session identity_effect" where
  "completeLogin d now account client method =
     thenE (await d CALL_ACCOUNTS (readE (accounts_findById account))) (\<lambda>a.
     case a of None \<Rightarrow> throwE ACCOUNT_VANISHED
     | Some acct \<Rightarrow>
         thenE (issue d now acct client) (\<lambda>issued.
         thenE (recordSecurity d now (Some account) MFA_COMPLETED (cl_ipDigest client)
                  (Some [(''method'', JString method), (''sessionId'', JString (is_sessionId issued))])) (\<lambda>u.
         thenE (recordSecurity d now (Some account) LOGIN_SUCCEEDED (cl_ipDigest client)
                  (Some [(''sessionId'', JString (is_sessionId issued)), (''mfa'', JBool True)])) (\<lambda>u.
         thenE (auditOrFail d now ''identity.login.succeeded'' (Some account) ''identity_session''
                  (is_sessionId issued) (Some [(''mfa'', JBool True)])) (\<lambda>u.
           returnE issued)))))"

definition challengeWithTotp ::
  "identity_deps \<Rightarrow> millis \<Rightarrow> string \<Rightarrow> string \<Rightarrow> client_context \<Rightarrow> issued_session identity_effect" where
  "challengeWithTotp d now challenge given client =
     thenE (openChallenge d now challenge) (\<lambda>acct.
     thenE (await d CALL_MFA (readE (mfa_getEnrolment (ac_id acct)))) (\<lambda>enrolment.
     case enrolment of None \<Rightarrow> throwE INVALID_CHALLENGE
     | Some e \<Rightarrow>
         if \<not> isMfaActive (Some e) then throwE INVALID_CHALLENGE
         else
           thenE (totp_matches d now e given) (\<lambda>ok.
           if \<not> ok then mfa_failure d now (ac_id acct) ''challenge'' client
           else completeLogin d now (ac_id acct) client ''totp'')))"

definition recovery_locked :: "identity_deps \<Rightarrow> millis \<Rightarrow> string \<Rightarrow> bool identity_effect" where
  "recovery_locked d now account = await d CALL_LEDGER (readE (\<lambda>w.
     ip_recoveryLockThreshold (d_policy d)
       \<le> ledger_countSince account [RECOVERY_CODE_FAILED] None (now - ip_recoveryLockWindowMs (d_policy d)) w))"

definition challengeWithRecoveryCode ::
  "identity_deps \<Rightarrow> millis \<Rightarrow> string \<Rightarrow> string \<Rightarrow> client_context \<Rightarrow> issued_session identity_effect" where
  "challengeWithRecoveryCode d now challenge given client =
     thenE (openChallenge d now challenge) (\<lambda>acct.
     let account = ac_id acct; ip = cl_ipDigest client in
     thenE (recovery_locked d now account) (\<lambda>locked.
     if locked then
       thenE (recordSecurity d now (Some account) RECOVERY_LOCKED ip None) (\<lambda>u. throwE INVALID_CODE)
     else
       thenE (await d CALL_MFA (mfa_consumeRecoveryCode account (d_recoveryCodeDigest d (normalize_code given)) now)) (\<lambda>consumed.
       if \<not> consumed then
         thenE (recordSecurity d now (Some account) RECOVERY_CODE_FAILED ip None) (\<lambda>u. throwE INVALID_CODE)
       else
         thenE (await d CALL_MFA (readE (mfa_countUnusedRecoveryCodes account))) (\<lambda>remaining.
         thenE (recordSecurity d now (Some account) RECOVERY_CODE_USED ip
                  (Some [(''remaining'', JNumber (Whole (int remaining)))])) (\<lambda>u.
           completeLogin d now account client ''recovery_code'')))))"

definition disableMfa ::
  "identity_deps \<Rightarrow> millis \<Rightarrow> string \<Rightarrow> string \<Rightarrow> client_context \<Rightarrow> unit identity_effect" where
  "disableMfa d now account given client =
     thenE (await d CALL_MFA (readE (mfa_getEnrolment account))) (\<lambda>enrolment.
     case enrolment of None \<Rightarrow> throwE NOT_ENROLLED
     | Some e \<Rightarrow>
         if \<not> isMfaActive (Some e) then throwE NOT_ENROLLED
         else
           thenE (assertWithinLimit d LIMIT_MFA_VERIFY (d_idKey d account)) (\<lambda>u.
           thenE (totp_matches d now e given) (\<lambda>byTotp.
           thenE (if byTotp then returnE True
                  else await d CALL_MFA (mfa_consumeRecoveryCode account
                         (d_recoveryCodeDigest d (normalize_code given)) now)) (\<lambda>proven.
           if \<not> proven then mfa_failure d now account ''disable'' client
           else
             thenE (await d CALL_MFA (mfa_disableEnrolment account now)) (\<lambda>u.
             thenE (recordSecurity d now (Some account) MFA_DISABLED (cl_ipDigest client) None) (\<lambda>u.
             thenE (auditOrFail d now ''identity.mfa.disabled'' (Some account) ''identity_account'' account None) (\<lambda>u.
               notice d account ''mfa_disabled'')))))))"

section \<open>Account administration\<close>

definition disableAccount ::
  "identity_deps \<Rightarrow> millis \<Rightarrow> string \<Rightarrow> string \<Rightarrow> string option \<Rightarrow> client_context \<Rightarrow> nat identity_effect" where
  "disableAccount d now account reason actor client =
     thenE (await d CALL_ACCOUNTS (readE (accounts_findById account))) (\<lambda>a.
     case a of None \<Rightarrow> throwE ACCOUNT_NOT_FOUND
     | Some acct \<Rightarrow>
         thenE (await d CALL_ACCOUNTS (accounts_setStatus account ACCOUNT_DISABLED (Some reason) True now)) (\<lambda>u.
         thenE (await d CALL_SESSIONS (sessions_revokeAllSessions account RR_ACCOUNT_DISABLED now None)) (\<lambda>n.
         thenE (recordSecurity d now (Some account) ACCOUNT_DISABLED_EVENT (cl_ipDigest client)
                  (Some [(''revokedSessions'', JNumber (Whole (int n)))])) (\<lambda>u.
         thenE (auditOrFail d now ''identity.account.disabled'' actor ''identity_account'' account
                  (Some [(''reason'', JString reason), (''revokedSessions'', JNumber (Whole (int n)))])) (\<lambda>u.
         thenE (notify d (SECURITY_NOTICE (ac_email acct) ''account_disabled'')) (\<lambda>u.
           returnE n))))))"

definition enableAccount ::
  "identity_deps \<Rightarrow> millis \<Rightarrow> string \<Rightarrow> string option \<Rightarrow> client_context \<Rightarrow> unit identity_effect" where
  "enableAccount d now account actor client =
     thenE (await d CALL_ACCOUNTS (readE (accounts_findById account))) (\<lambda>a.
     case a of None \<Rightarrow> throwE ACCOUNT_NOT_FOUND
     | Some acct \<Rightarrow>
         thenE (await d CALL_ACCOUNTS (accounts_setStatus account ACCOUNT_ACTIVE None True now)) (\<lambda>u.
         thenE (recordSecurity d now (Some account) ACCOUNT_ENABLED (cl_ipDigest client) None) (\<lambda>u.
           auditOrFail d now ''identity.account.enabled'' actor ''identity_account'' account None)))"

section \<open>Every use case is a run of transactions\<close>

lemma always_hash: "always identity_transaction\<^sup>*\<^sup>* (hash_password d pw)"
  unfolding hash_password_def by (intro use_case_effects)

lemma always_check: "always identity_transaction\<^sup>*\<^sup>* (check_password d pw)"
  unfolding check_password_def Let_def by (intro use_case_effects)

lemma always_issueVerification: "always identity_transaction\<^sup>*\<^sup>* (issueVerification d now account email client)"
  unfolding issueVerification_def Let_def by (intro use_case_effects)

lemma always_register: "always identity_transaction\<^sup>*\<^sup>* (registerAccount d now raw pw client)"
proof (cases "parseEmail raw")
  case (Inl e) then show ?thesis by (simp add: registerAccount_def tx.always_throw)
next
  case (Inr email)
  then show ?thesis unfolding registerAccount_def register_hashed_def Inr sum.case
    by (intro use_case_effects always_check always_hash always_issueVerification)
qed

lemma always_verification:
  "always identity_transaction\<^sup>*\<^sup>* (verifyEmail d now raw given client)"
  "always identity_transaction\<^sup>*\<^sup>* (resendVerification d now raw client)"
  unfolding verifyEmail_def verify_presented_def resendVerification_def Let_def
  by (intro use_case_effects always_issueVerification)+

lemma always_upgrade: "always identity_transaction\<^sup>*\<^sup>* (upgrade_hash d now account params pw)"
  unfolding upgrade_hash_def by (intro use_case_effects always_hash)

lemma always_login_verified: "always identity_transaction\<^sup>*\<^sup>* (login_verified d now acct params pw client)"
  unfolding login_verified_def Let_def by (intro use_case_effects always_upgrade always_issue)

lemma always_login_failure: "always identity_transaction\<^sup>*\<^sup>* (login_failure d now account ip reason)"
  unfolding login_failure_def by (intro use_case_effects)

lemma always_pair: "(\<And>x y. always R (k x y)) \<Longrightarrow> always R (case p of (x, y) \<Rightarrow> k x y)"
  by (cases p) simp

lemma always_login_account: "always identity_transaction\<^sup>*\<^sup>* (login_account d now acct pw client)"
  unfolding login_account_def isLockedOut_def dummyVerify_def Let_def
  by (intro use_case_effects always_pair always_login_failure always_login_verified)

lemma always_login: "always identity_transaction\<^sup>*\<^sup>* (login d now raw pw client)"
  unfolding login_def dummyVerify_def Let_def
  by (intro use_case_effects always_login_failure always_login_account)

lemma always_forgot: "always identity_transaction\<^sup>*\<^sup>* (forgotPassword d now raw client)"
  unfolding forgotPassword_def Let_def by (intro use_case_effects)

lemma always_report:
  "always identity_transaction\<^sup>*\<^sup>* (revoke_and_report d now account reason except event action kind client)"
  unfolding revoke_and_report_def by (intro use_case_effects always_notice)

lemma always_reset: "always identity_transaction\<^sup>*\<^sup>* (resetPassword d now tok pw client)"
  unfolding resetPassword_def reset_live_def
  by (intro use_case_effects always_check always_hash always_report)

lemma always_change: "always identity_transaction\<^sup>*\<^sup>* (changePassword d now account sid current pw client)"
  unfolding changePassword_def
  by (intro use_case_effects always_pair always_check always_hash always_report)

lemma always_draw_many: "always identity_transaction\<^sup>*\<^sup>* (draw_many n f)"
proof (induction n)
  case 0 show ?case unfolding draw_many.simps by (rule tx.always_return)
next
  case (Suc n) then show ?case unfolding draw_many.simps by (intro use_case_effects)
qed

lemma always_totp: "always identity_transaction\<^sup>*\<^sup>* (totp_matches d now e given)"
  unfolding totp_matches_def by (intro use_case_effects)

lemma always_mfa_failure: "always identity_transaction\<^sup>*\<^sup>* (mfa_failure d now account phase client)"
  unfolding mfa_failure_def by (intro use_case_effects)

lemmas mfa_effects = use_case_effects always_draw_many always_totp always_mfa_failure always_notice

lemma always_enrolment:
  "always identity_transaction\<^sup>*\<^sup>* (enrollMfa d now account client)"
  "always identity_transaction\<^sup>*\<^sup>* (confirmMfa d now account given client)"
  "always identity_transaction\<^sup>*\<^sup>* (disableMfa d now account given client)"
  unfolding enrollMfa_def confirmMfa_def disableMfa_def by (intro mfa_effects)+

lemma always_complete: "always identity_transaction\<^sup>*\<^sup>* (completeLogin d now account client how)"
  unfolding completeLogin_def by (intro use_case_effects always_issue)

lemma always_open: "always identity_transaction\<^sup>*\<^sup>* (openChallenge d now challenge)"
  unfolding openChallenge_def by (intro use_case_effects)

lemma always_challenge:
  "always identity_transaction\<^sup>*\<^sup>* (challengeWithTotp d now challenge given client)"
  "always identity_transaction\<^sup>*\<^sup>* (challengeWithRecoveryCode d now challenge given client)"
  unfolding challengeWithTotp_def challengeWithRecoveryCode_def recovery_locked_def Let_def
  by (intro mfa_effects always_open always_complete)+

lemma always_administration:
  "always identity_transaction\<^sup>*\<^sup>* (disableAccount d now account reason actor client)"
  "always identity_transaction\<^sup>*\<^sup>* (enableAccount d now account actor client)"
  unfolding disableAccount_def enableAccount_def by (intro use_case_effects)+

end
