(* ===== verification/Identity_Samples.thy ===== *)
theory Identity_Samples
  imports Identity_Credentials
begin

text \<open>
  A concrete identity store and concrete dependencies, at which the theorems about the identity module are
  instantiated: one active account with a password, one session bound to a tenant with its family and first
  refresh token, and a signer whose tokens spell out their claims.
\<close>

section \<open>A signer that spells out the claims\<close>

definition sample_sign :: "access_claims \<Rightarrow> string" where
  "sample_sign c = (if cm_tokenVersion c < 0 then []
     else replicate (nat (cm_tokenVersion c)) (CHR ''v'') @ CHR ''.'' #
          replicate (length (cm_accountId c)) (CHR ''a'') @ CHR ''.'' # cm_accountId c @ cm_sessionId c)"

definition sample_read :: "string \<Rightarrow> access_claims option" where
  "sample_read tok =
     (let versions = takeWhile (\<lambda>c. c = CHR ''v'') tok; rest = dropWhile (\<lambda>c. c = CHR ''v'') tok in
      if rest = [] then None
      else let lengths = takeWhile (\<lambda>c. c = CHR ''a'') (tl rest); body = tl (dropWhile (\<lambda>c. c = CHR ''a'') (tl rest)) in
        Some \<lparr>cm_accountId = take (length lengths) body, cm_sessionId = drop (length lengths) body,
              cm_tokenVersion = int (length versions)\<rparr>)"

lemma take_drop_replicate:
  "p c = False \<Longrightarrow> p x \<Longrightarrow> takeWhile p (replicate n x @ c # xs) = replicate n x \<and> dropWhile p (replicate n x @ c # xs) = c # xs"
  by (induction n) auto

lemma sample_read_sign: "sample_read (sample_sign c) = Some c2 \<Longrightarrow> c2 = c"
proof -
  assume r: "sample_read (sample_sign c) = Some c2"
  show ?thesis
  proof (cases "cm_tokenVersion c < 0")
    case True then show ?thesis using r by (simp add: sample_sign_def sample_read_def)
  next
    case False
    then show ?thesis using r by (cases c) (simp add: sample_sign_def sample_read_def take_drop_replicate)
  qed
qed

section \<open>The sample\<close>

definition sample_deps :: identity_deps where
  "sample_deps =
     \<lparr>d_policy = DEFAULT_IDENTITY_POLICY, d_down = (\<lambda>c w. False), d_limit = (\<lambda>p k w. None),
      d_hash = (\<lambda>n p. (CHR ''h'' # p, 2)), d_verify = (\<lambda>h p. h = CHR ''h'' # p), d_needsRehash = (\<lambda>v. v < 2),
      d_signAccess = (\<lambda>c t. (sample_sign c, t + 600000)), d_verifyAccess = (\<lambda>tok t. sample_read tok),
      d_signChallenge = (\<lambda>a t. (CHR ''c'' # a, t + 300000)),
      d_verifyChallenge = (\<lambda>tok t. if tok = [] then None else Some (tl tok)),
      d_verificationCodeDigest = (\<lambda>s. CHR ''#'' # s), d_resetTokenDigest = (\<lambda>s. CHR ''#'' # s),
      d_refreshTokenDigest = (\<lambda>s. CHR ''#'' # s), d_recoveryCodeDigest = (\<lambda>s. CHR ''#'' # s),
      d_emailKey = (\<lambda>s. s), d_idKey = (\<lambda>s. s),
      d_id = (\<lambda>n. CHR ''i'' # string_of_nat n), d_refreshToken = (\<lambda>n. CHR ''r'' # string_of_nat n),
      d_resetToken = (\<lambda>n. CHR ''p'' # string_of_nat n), d_verificationCode = (\<lambda>n. CHR ''V'' # string_of_nat n),
      d_recoveryCode = (\<lambda>n. CHR ''R'' # string_of_nat n), d_totpSecret = (\<lambda>n. CHR ''S'' # string_of_nat n),
      d_totpVerify = (\<lambda>given secret t. given = secret), d_otpauthUrl = (\<lambda>s l. l),
      d_encrypt = (\<lambda>n s. (s, ''k1'')), d_decrypt = (\<lambda>s k. s)\<rparr>"

definition sample_client :: client_context where
  "sample_client = \<lparr>cl_ipDigest = Some ''ip'', cl_userAgentSummary = None\<rparr>"

definition sample_session :: session where
  "sample_session =
     \<lparr>se_id = ''s1'', se_accountId = ''u1'', se_createdAt = 0, se_lastSeenAt = 0, se_absoluteExpiresAt = 7776000000,
      se_idleExpiresAt = None, se_revokedAt = None, se_revokedReason = None, se_ipDigest = None,
      se_userAgentSummary = None, se_tenantBinding = Some ''t1''\<rparr>"

definition sample_token :: refresh_token where
  "sample_token =
     \<lparr>rt_id = ''k1'', rt_familyId = ''f1'', rt_tokenHash = ''#tok'', rt_createdAt = 0, rt_expiresAt = 1209600000,
      rt_usedAt = None, rt_supersededBy = None\<rparr>"

definition sample_world :: identity_world where
  "sample_world =
     \<lparr>w_accounts = [\<lparr>ac_id = ''u1'', ac_email = ''a@b.c'', ac_emailVerifiedAt = None, ac_status = ACCOUNT_ACTIVE,
         ac_disabledReason = None, ac_mfaRequired = False, ac_tokenVersion = 1, ac_createdAt = 0, ac_updatedAt = 0\<rparr>],
      w_credentials = [\<lparr>pc_accountId = ''u1'', pc_passwordHash = ''hpassword'', pc_paramsVersion = 1, pc_updatedAt = 0\<rparr>],
      w_verifications = [],
      w_resets = [(\<lparr>oc_id = ''q1'', oc_accountId = ''u1'', oc_codeHash = ''#reset'', oc_expiresAt = 1800000, oc_attempts = 0,
         oc_maxAttempts = 5, oc_consumedAt = None, oc_createdAt = 0\<rparr>, None)],
      w_sessions = [sample_session],
      w_families = [\<lparr>fa_id = ''f1'', fa_sessionId = ''s1'', fa_accountId = ''u1'', fa_createdAt = 0, fa_revokedAt = None,
         fa_revokedReason = None\<rparr>],
      w_tokens = [sample_token], w_enrolments = [], w_recovery = [], w_ledger = [], w_audit = [], w_outbox = [], w_next = 7\<rparr>"

definition sample_access :: string where
  "sample_access = sample_sign \<lparr>cm_accountId = ''u1'', cm_sessionId = ''s1'', cm_tokenVersion = 1\<rparr>"

definition revoked_world :: identity_world where
  "revoked_world = snd (sessions_revokeSession ''u1'' ''s1'' RR_LOGOUT 500 sample_world)"

definition spent_world :: identity_world where
  "spent_world = sample_world\<lparr>w_tokens := [sample_token\<lparr>rt_usedAt := Some 400, rt_supersededBy := Some ''k2''\<rparr>]\<rparr>"

definition enrolled_world :: identity_world where
  "enrolled_world = sample_world\<lparr>w_enrolments := [\<lparr>me_accountId = ''u1'', me_secretCiphertext = ''S'', me_keyVersion = ''k1'',
     me_createdAt = 0, me_confirmedAt = Some 1, me_disabledAt = None\<rparr>]\<rparr>"

definition locked_world :: identity_world where
  "locked_world = sample_world\<lparr>w_ledger := replicate 10 \<lparr>ev_accountId = Some ''u1'', ev_type = LOGIN_FAILED,
     ev_occurredAt = 900, ev_ipDigest = Some ''ip'', ev_metadata = None\<rparr>\<rparr>"

lemma sample_wf: "identity_wf sample_world"
  by (simp add: identity_wf_def sample_world_def sample_session_def sample_token_def)

lemma enrolled_wf: "identity_wf enrolled_world"
  using sample_wf by (simp add: enrolled_world_def identity_wf_def)

lemma spent_wf: "identity_wf spent_world"
  using sample_wf by (simp add: spent_world_def identity_wf_def)

lemma revoked_wf: "identity_wf revoked_world"
  using transaction_keeps [OF tx_revoke] sample_wf unfolding revoked_world_def keeps_history_def by blast

end
