(* ===== verification/Identity_Session_Laws.thy ===== *)
theory Identity_Session_Laws
  imports Identity_Samples
begin

text \<open>
  The properties of the session use cases: what an authenticated request has proved, that a refresh
  token works once, that reuse kills its session, that a revocation is never undone by anything that runs
  later, and that a tenant switch swaps one session for one.
\<close>

section \<open>Successful runs\<close>

lemma run_result:
  assumes "result_map (fst m) f = Inr v"
  obtains r w where "m = (Inr r, w)" "f r = v"
  using result_pair_Inr [OF assms] by blast

lemma await_Inr: "await d c m w = (Inr x, w') \<longleftrightarrow> \<not> d_down d c w \<and> m w = (Inr x, w')"
  by (simp add: await_def callE_eq)

lemma limit_Inr: "assertWithinLimit d p key w = (Inr x, w') \<longleftrightarrow> d_limit d p key w = None \<and> w' = w"
  by (auto simp: assertWithinLimit_def split: option.splits)

lemma thenE_app: "thenE m k w = (case m w of (Inl e, w1) \<Rightarrow> (Inl e, w1) | (Inr x, w1) \<Rightarrow> k x w1)"
  by (simp add: thenE_def)

lemma await_up: "\<not> d_down d c w \<Longrightarrow> await d c m w = m w"
  by (simp add: await_def callE_eq)

lemma limit_up: "d_limit d p key w = None \<Longrightarrow> assertWithinLimit d p key w = (Inr (), w)"
  by (simp add: assertWithinLimit_def)

lemmas runs = thenE_Inr await_Inr limit_Inr

lemma recordSecurity_world:
  "recordSecurity d now account kind ip meta w = (Inr u, w') \<Longrightarrow> \<exists>e. w' = w\<lparr>w_ledger := w_ledger w @ [e]\<rparr>"
  by (auto simp: recordSecurity_def callE_eq ledger_record_def split: sum.splits if_splits)

lemma auditOrFail_world:
  "auditOrFail d now action account rtype rid meta w = (Inr u, w') \<Longrightarrow> \<exists>e. w' = w\<lparr>w_audit := w_audit w @ [e]\<rparr>"
  by (auto simp: auditOrFail_def callE_eq append_audit_def split: if_splits)

lemma findByTokenHash_Some:
  assumes "sessions_findByTokenHash h w = Some (t, f, s)"
  shows "find_first (\<lambda>t. rt_tokenHash t = h) stored_order (w_tokens w) = Some t"
    "find_first (\<lambda>f. fa_id f = rt_familyId t) stored_order (w_families w) = Some f"
    "sessions_findSession (fa_accountId f) (fa_sessionId f) w = Some s"
    "t \<in> set (w_tokens w)" "rt_tokenHash t = h" "f \<in> set (w_families w)" "fa_id f = rt_familyId t"
    "s \<in> set (w_sessions w)" "se_id s = fa_sessionId f" "se_accountId s = fa_accountId f"
proof -
  show 1: "find_first (\<lambda>t. rt_tokenHash t = h) stored_order (w_tokens w) = Some t"
    and 2: "find_first (\<lambda>f. fa_id f = rt_familyId t) stored_order (w_families w) = Some f"
    and 3: "sessions_findSession (fa_accountId f) (fa_sessionId f) w = Some s"
    using assms unfolding sessions_findByTokenHash_def by (auto split: option.splits)
  show "t \<in> set (w_tokens w)" "rt_tokenHash t = h" using find_first_Some [OF 1] by auto
  show "f \<in> set (w_families w)" "fa_id f = rt_familyId t" using find_first_Some [OF 2] by auto
  show "s \<in> set (w_sessions w)" "se_id s = fa_sessionId f" "se_accountId s = fa_accountId f"
    using find_first_Some [OF 3 [unfolded sessions_findSession_def]] by auto
qed

lemma rotate_marks_used:
  assumes "sessions_rotateToken account tid successor now w = (Inr True, w')" "t \<in> set (w_tokens w)"
    "rt_id t = tid" "distinct (map rt_id (w_tokens w))"
  shows "\<exists>u \<in> set (w_tokens w'). rt_tokenHash u = rt_tokenHash t \<and> rt_usedAt u \<noteq> None"
proof -
  let ?p = "\<lambda>t. rt_id t = tid \<and> rt_usedAt t = None \<and> owns_token account w t"
  let ?use = "\<lambda>t::refresh_token. t\<lparr>rt_usedAt := Some now\<rparr>"
  let ?mark = "\<lambda>t::refresh_token. t\<lparr>rt_supersededBy := Some (rt_id successor)\<rparr>"
  have ne: "filter ?p (w_tokens w) \<noteq> []"
    using assms(1) by (auto simp: sessions_rotateToken_def update_many_def split: if_splits)
  then obtain x where "x \<in> set (w_tokens w)" "?p x" by (auto simp: filter_empty_conv)
  then have hit: "?p t" using distinct_same_key [OF assms(4)] assms(2,3) by metis
  obtain ts' where ts': "create_row (\<lambda>x y. rt_id x = rt_id y \<or> rt_tokenHash x = rt_tokenHash y)
      (successor\<lparr>rt_usedAt := None, rt_supersededBy := None\<rparr>) (snd (update_many ?p ?use (w_tokens w))) = Some ts'"
    and w': "w_tokens w' = snd (update_many (\<lambda>t. rt_id t = tid) ?mark ts')"
    using assms(1) ne by (auto simp: sessions_rotateToken_def update_many_def split: if_splits option.splits)
  have "?use t \<in> set (snd (update_many ?p ?use (w_tokens w)))"
    using assms(2) hit by (auto simp: update_many_def image_iff intro!: bexI [of _ t])
  then have "?use t \<in> set ts'" using ts' by (auto simp: create_row_Some)
  then have "?mark (?use t) \<in> set (w_tokens w')"
    using assms(3) by (auto simp: w' update_many_def image_iff intro!: bexI [of _ "?use t"])
  then show ?thesis by (intro bexI [of _ "?mark (?use t)"]) auto
qed

lemma refresh_success:
  assumes "refreshSession d now tok client w = (Inr r, w')" and wf: "identity_wf w"
  obtains t f s acct where
    "sessions_findByTokenHash (d_refreshTokenDigest d tok) w = Some (t, f, s)"
    "rt_usedAt t = None" "rt_supersededBy t = None" "fa_revokedAt f = None" "now < rt_expiresAt t" "isSessionLive s now"
    "accounts_findById (fa_accountId f) w = Some acct" "ac_status acct = ACCOUNT_ACTIVE" "rf_sessionId r = se_id s"
    "\<exists>u \<in> set (w_tokens w'). rt_tokenHash u = rt_tokenHash t \<and> rt_usedAt u \<noteq> None"
proof -
  let ?h = "d_refreshTokenDigest d tok"
  obtain t f s where p: "sessions_findByTokenHash ?h w = Some (t, f, s)"
    and k: "refresh_found d now client t f s w = (Inr r, w')"
    using assms(1) by (auto simp: refreshSession_def Let_def runs split: option.splits)
  have flags: "rt_usedAt t = None" "rt_supersededBy t = None" "fa_revokedAt f = None" "now < rt_expiresAt t" "isSessionLive s now"
    using k by (auto simp: refresh_found_def thenE_Inr split: if_splits)
  obtain acct where a: "accounts_findById (fa_accountId f) w = Some acct" "ac_status acct = ACCOUNT_ACTIVE"
    and rot: "rotate_presented d now t f s acct client w = (Inr r, w')"
    using k flags by (auto simp: refresh_found_def runs split: option.splits if_splits)
  obtain raw tid w1 w2 successor w3 where w1: "take_next (d_refreshToken d) w = (Inr raw, w1)"
    and w2: "take_next (d_id d) w1 = (Inr tid, w2)"
    and cl: "sessions_rotateToken (fa_accountId f) (rt_id t) successor now w2 = (Inr True, w3)"
    and rest: "thenE (await d CALL_SESSIONS (sessions_touchSession (fa_accountId f) (se_id s) now (idle_expiry (d_policy d) now))) (\<lambda>u.
       thenE (accessTokenFor d now (fa_accountId f) (se_id s) (ac_tokenVersion acct)) (\<lambda>access.
         returnE \<lparr>rf_accessToken = fst access, rf_accessTokenExpiresAt = snd access, rf_refreshToken = raw,
                  rf_refreshTokenExpiresAt = rt_expiresAt successor, rf_sessionId = se_id s\<rparr>)) w3 = (Inr r, w')"
    using rot by (auto simp: rotate_presented_def Let_def runs split: if_splits)
  have tk: "w_tokens w2 = w_tokens w" using w1 w2 by (auto simp: take_next_def)
  have fin: "w_tokens w' = w_tokens w3" "rf_sessionId r = se_id s"
    using rest by (auto simp: runs accessTokenFor_def sessions_touchSession_def)
  have tin: "t \<in> set (w_tokens w)" using findByTokenHash_Some(4) p by blast
  have "distinct (map rt_id (w_tokens w2))" using wf tk by (simp add: identity_wf_def)
  then have used: "\<exists>u \<in> set (w_tokens w'). rt_tokenHash u = rt_tokenHash t \<and> rt_usedAt u \<noteq> None"
    using rotate_marks_used [OF cl _ refl] tin tk fin by simp
  show thesis by (rule that [OF _ flags a fin(2) used]) (use p in simp)
qed

lemma authenticate_success:
  assumes "authenticateRequest d now tok w = (Inr p, w')"
  obtains c acct s where "d_verifyAccess d tok now = Some c"
    "accounts_findById (cm_accountId c) w = Some acct" "ac_status acct = ACCOUNT_ACTIVE"
    "ac_tokenVersion acct = cm_tokenVersion c"
    "sessions_findSession (cm_accountId c) (cm_sessionId c) w = Some s" "isSessionLive s now"
    "p = \<lparr>pr_accountId = cm_accountId c, pr_sessionId = se_id s, pr_tenantBinding = se_tenantBinding s,
          pr_email = ac_email acct, pr_emailVerified = (ac_emailVerifiedAt acct \<noteq> None),
          pr_mfaRequired = ac_mfaRequired acct\<rparr>"
  using assms by (auto simp: authenticateRequest_def runs split: option.splits if_splits)

lemma live_not_revoked: "isSessionLive s now \<Longrightarrow> se_revokedAt s = None"
  by (simp add: isSessionLive_def split: if_splits)

lemma findSession_id: "sessions_findSession account sid w = Some s \<Longrightarrow> se_id s = sid \<and> se_accountId s = account \<and> s \<in> set (w_sessions w)"
  using find_first_Some unfolding sessions_findSession_def by fast

lemma dead_session:
  assumes "identity_wf w" "s \<in> set (w_sessions w)" "se_revokedAt s \<noteq> None" "identity_transaction\<^sup>*\<^sup>* w w'"
  shows "authenticateRequest d now tok w' = (Inr p, w1) \<Longrightarrow> pr_sessionId p \<noteq> se_id s"
    and "refreshSession d now raw client w' = (Inr r, w2) \<Longrightarrow> rf_sessionId r \<noteq> se_id s"
proof -
  have dead: "\<not> isSessionLive t now" if "sessions_findSession account (se_id s) w' = Some t" for account t
    using session_later [OF assms(4,1,2) that] assms(3) live_not_revoked unfolding session_evolves_def by metis
  show "authenticateRequest d now tok w' = (Inr p, w1) \<Longrightarrow> pr_sessionId p \<noteq> se_id s"
    using dead findSession_id by (elim authenticate_success) auto
  assume r: "refreshSession d now raw client w' = (Inr r, w2)"
  show "rf_sessionId r \<noteq> se_id s"
    using refresh_success [OF r transactions_wf [OF assms(4,1)]] dead findByTokenHash_Some(3,9) by metis
qed

lemma run_tx: "always identity_transaction\<^sup>*\<^sup>* m \<Longrightarrow> m w = (r, w') \<Longrightarrow> identity_transaction\<^sup>*\<^sup>* w w'"
  unfolding always_def by (metis snd_conv)

lemma reuse_revokes:
  assumes "s \<in> set (w_sessions w)" "sid = se_id s" "account = se_accountId s"
    and "snd (sessions_revokeFamilyAndSession account fid sid reason now w) = w1"
  shows "\<exists>s1 \<in> set (w_sessions w1). se_id s1 = se_id s \<and> se_revokedAt s1 \<noteq> None"
proof (cases "se_revokedAt s")
  case None
  let ?s1 = "s\<lparr>se_revokedAt := Some now, se_revokedReason := Some reason\<rparr>"
  have "?s1 \<in> set (w_sessions w1)"
    using assms None by (auto simp: sessions_revokeFamilyAndSession_def revoke_session_rows_def update_many_def
        image_iff intro!: bexI [of _ s])
  then show ?thesis by (intro bexI [of _ ?s1]) auto
next
  case (Some t)
  then have "s \<in> set (w_sessions w1)"
    using assms by (auto simp: sessions_revokeFamilyAndSession_def revoke_session_rows_def update_many_def
        image_iff intro!: bexI [of _ s])
  then show ?thesis using Some by auto
qed

lemma reuse_run:
  assumes "\<not> d_down d CALL_SESSIONS w" "onReuseDetected d now account fid sid client w = (r, w')"
  shows "identity_transaction\<^sup>*\<^sup>* (snd (sessions_revokeFamilyAndSession account fid sid RR_REFRESH_REUSE_DETECTED now w)) w'"
proof -
  define rest where "rest = thenE (recordSecurity d now (Some account) REFRESH_REUSE_DETECTED (cl_ipDigest client)
              (Some [(''familyId'', JString fid), (''sessionId'', JString sid)])) (\<lambda>u.
       notice d account ''refresh_reuse_detected'')"
  have a: "always identity_transaction\<^sup>*\<^sup>* rest"
    unfolding rest_def by (intro use_case_effects always_notice)
  have "rest (snd (sessions_revokeFamilyAndSession account fid sid RR_REFRESH_REUSE_DETECTED now w)) = (r, w')"
    using assms unfolding onReuseDetected_def rest_def [symmetric]
    by (simp add: thenE_app [of "await d CALL_SESSIONS _"] await_up sessions_revokeFamilyAndSession_def)
  then show ?thesis by (rule run_tx [OF a])
qed

section \<open>What the records after a write leave alone\<close>

definition same_sessions :: "identity_world \<Rightarrow> identity_world \<Rightarrow> bool" where
  "same_sessions w w' \<longleftrightarrow> w_sessions w' = w_sessions w \<and> w_families w' = w_families w \<and> w_tokens w' = w_tokens w"

interpretation quiet: identity_relation same_sessions
  by unfold_locales (auto simp: same_sessions_def)

lemma quiet_take: "always same_sessions (take_next f)"
  by (simp add: always_def take_next_def same_sessions_def)

lemma quiet_record: "always same_sessions (recordSecurity d now account kind ip meta)"
  by (auto simp: always_def recordSecurity_def callE_eq ledger_record_def same_sessions_def split: sum.split)

lemma quiet_audit: "always same_sessions (auditOrFail d now action account rtype rid meta)"
  by (auto simp: always_def auditOrFail_def callE_eq append_audit_def same_sessions_def)

lemma quiet_notify: "always same_sessions (notify d n)"
  by (simp add: always_def notify_def send_notification_def same_sessions_def)

lemmas quiet_effects = quiet.always_intros quiet.always_await quiet.always_limit quiet_take quiet_record quiet_audit quiet_notify

lemma quiet_notice: "always same_sessions (notice d account kind)"
  unfolding notice_def by (intro quiet_effects)

lemma quiet_mint: "always same_sessions (mint d now account client binding)"
  unfolding mint_def by (intro quiet_effects)

lemma quiet_issued: "always same_sessions (issuedFrom d now minted version)"
  unfolding issuedFrom_def accessTokenFor_def Let_def by (intro quiet_effects)

lemma quiet_run: "always same_sessions m \<Longrightarrow> m w = (r, w') \<Longrightarrow> same_sessions w w'"
  unfolding always_def by (metis snd_conv)

definition switched :: "string \<Rightarrow> string \<Rightarrow> millis \<Rightarrow> session_bundle \<Rightarrow> identity_world \<Rightarrow> identity_world \<Rightarrow> bool" where
  "switched account sid now b w w' \<longleftrightarrow>
     w_sessions w' = map (\<lambda>s. if se_id s = sid \<and> se_accountId s = account \<and> se_revokedAt s = None
         then s\<lparr>se_revokedAt := Some now, se_revokedReason := Some RR_TENANT_SWITCH\<rparr> else s) (w_sessions w)
       @ [(sb_session b)\<lparr>se_revokedAt := None, se_revokedReason := None\<rparr>]
     \<and> w_families w' = revoke_family_rows account [sid] RR_TENANT_SWITCH now (w_families w)
       @ [(sb_family b)\<lparr>fa_revokedAt := None, fa_revokedReason := None\<rparr>]
     \<and> w_tokens w' = w_tokens w @ [(sb_firstToken b)\<lparr>rt_usedAt := None, rt_supersededBy := None\<rparr>]
     \<and> (\<exists>s \<in> set (w_sessions w). se_id s = sid \<and> se_accountId s = account \<and> se_revokedAt s = None)
     \<and> se_id (sb_session b) \<notin> se_id ` set (w_sessions w)"

lemma rebind_store:
  assumes "sessions_rebindSession account sid RR_TENANT_SWITCH b now w = (q, w')"
  shows "(q \<noteq> Inr True \<and> w' = w) \<or> (q = Inr True \<and> switched account sid now b w w')"
proof -
  let ?p = "\<lambda>s. se_id s = sid \<and> se_accountId s = account \<and> se_revokedAt s = None"
  let ?f = "\<lambda>s. s\<lparr>se_revokedAt := Some now, se_revokedReason := Some RR_TENANT_SWITCH\<rparr>"
  let ?ss = "map (\<lambda>s. if ?p s then ?f s else s) (w_sessions w)"
  let ?w1 = "w\<lparr>w_sessions := ?ss, w_families := revoke_family_rows account [sid] RR_TENANT_SWITCH now (w_families w)\<rparr>"
  have "map se_id ?ss = map se_id (w_sessions w)" by auto
  then have ids: "se_id ` set ?ss = se_id ` set (w_sessions w)" by (metis set_map)
  show ?thesis
  proof (cases "filter ?p (w_sessions w) = []")
    case True
    then show ?thesis using assms by (auto simp add: sessions_rebindSession_def revoke_session_rows_def update_many_def)
  next
    case False
    then have run: "(case insert_bundle b ?w1 of None \<Rightarrow> (Inl STORE_REJECTED, w) | Some w' \<Rightarrow> (Inr True, w')) = (q, w')"
      using assms by (simp add: sessions_rebindSession_def revoke_session_rows_def update_many_def)
    have hit: "\<exists>s \<in> set (w_sessions w). ?p s" using False by (auto simp: filter_empty_conv)
    show ?thesis
    proof (cases "insert_bundle b ?w1")
      case None then show ?thesis using run by auto
    next
      case (Some w2)
      then have "se_id (sb_session b) \<notin> se_id ` set ?ss"
        by (auto simp: insert_bundle_def create_row_Some split: option.splits)
      then have "switched account sid now b w w2"
        using Some hit unfolding ids switched_def
        by (auto simp: insert_bundle_def create_row_Some split: option.splits)
      then show ?thesis using run Some by simp
    qed
  qed
qed

lemma live_count_switched:
  assumes "switched account sid now b w w'" "identity_wf w" "se_accountId (sb_session b) = account"
  shows "length (filter (\<lambda>s. se_accountId s = account \<and> se_revokedAt s = None) (w_sessions w'))
    = length (filter (\<lambda>s. se_accountId s = account \<and> se_revokedAt s = None) (w_sessions w))"
proof -
  let ?p = "\<lambda>s. se_id s = sid \<and> se_accountId s = account \<and> se_revokedAt s = None"
  let ?f = "\<lambda>s. if ?p s then s\<lparr>se_revokedAt := Some now, se_revokedReason := Some RR_TENANT_SWITCH\<rparr> else s"
  let ?live = "\<lambda>s. se_accountId s = account \<and> se_revokedAt s = None"
  have parts: "length (filter ?live (map ?f ss)) + length (filter ?p ss) = length (filter ?live ss)" for ss
    by (induction ss) auto
  have one: "length (filter ?p (w_sessions w)) = 1"
  proof -
    have d: "distinct (map se_id (w_sessions w))" using assms(2) by (simp add: identity_wf_def)
    have "length (filter ?p (w_sessions w)) \<le> 1"
      using update_many_count [OF d, of ?p sid] by (simp add: update_many_def)
    moreover have "\<exists>s \<in> set (w_sessions w). ?p s" using assms(1) unfolding switched_def by blast
    then have "0 < length (filter ?p (w_sessions w))" unfolding length_greater_0_conv filter_empty_conv by blast
    ultimately show ?thesis by linarith
  qed
  have "length (filter ?live (map ?f (w_sessions w))) + 1 = length (filter ?live (w_sessions w))"
    using parts [of "w_sessions w"] unfolding one .
  then show ?thesis using assms(1,3) by (simp add: switched_def)
qed

definition linked_bundle :: "string \<Rightarrow> string option \<Rightarrow> session_bundle \<Rightarrow> bool" where
  "linked_bundle account binding b \<longleftrightarrow> se_accountId (sb_session b) = account \<and> se_tenantBinding (sb_session b) = binding
     \<and> fa_accountId (sb_family b) = account \<and> fa_sessionId (sb_family b) = se_id (sb_session b)
     \<and> rt_familyId (sb_firstToken b) = fa_id (sb_family b)"

lemma mint_run:
  obtains b raw wm where "mint d now acct client binding w = (Inr (b, raw), wm)"
    "linked_bundle (ac_id acct) binding b" "same_sessions w wm"
proof -
  obtain r wm where m: "mint d now acct client binding w = (r, wm)" by (cases "mint d now acct client binding w")
  then have "\<exists>b raw. r = Inr (b, raw) \<and> linked_bundle (ac_id acct) binding b"
    by (auto simp: mint_def thenE_app take_next_def minted_bundle_def Let_def linked_bundle_def)
  then show ?thesis using that m quiet_run [OF quiet_mint m] by blast
qed

lemma rebind_minted_outcome:
  assumes run: "rebind_minted d now acct sid previous binding client w = (res, w')" and aid: "ac_id acct = account"
  shows "(same_sessions w w' \<and> (\<forall>r. res \<noteq> Inr r))
    \<or> (\<exists>b. switched account sid now b w w' \<and> linked_bundle account binding b
        \<and> (\<forall>r. res = Inr r \<longrightarrow> is_sessionId (tr_session r) = se_id (sb_session b) \<and> tr_newBinding r = binding))"
proof -
  obtain b raw wm where m: "mint d now acct client binding w = (Inr (b, raw), wm)"
    and b: "linked_bundle account binding b" and wm: "same_sessions w wm"
    using mint_run [of d now acct client binding w] aid by blast
  let ?rest = "rebind_recorded d now acct sid previous binding client (b, raw)"
  have qr: "always same_sessions (?rest x)" for x
    unfolding rebind_recorded_def Let_def by (intro quiet_effects quiet_issued)
  have go: "thenE (await d CALL_SESSIONS (sessions_rebindSession account sid RR_TENANT_SWITCH b now)) ?rest wm = (res, w')"
    using run m by (simp add: rebind_minted_def thenE_app [of "mint d now acct client binding"] aid)
  show ?thesis
  proof (cases "d_down d CALL_SESSIONS wm")
    case True
    then show ?thesis using go wm by (auto simp: thenE_app await_def callE_eq)
  next
    case up: False
    obtain q w1 where st: "sessions_rebindSession account sid RR_TENANT_SWITCH b now wm = (q, w1)"
      by (cases "sessions_rebindSession account sid RR_TENANT_SWITCH b now wm")
    show ?thesis
    proof (cases "q = Inr True")
      case q: False
      then have "w1 = wm" using rebind_store [OF st] by blast
      then show ?thesis using go st wm up q by (cases q) (auto simp: thenE_app await_up rebind_recorded_def)
    next
      case q: True
      then have sw: "switched account sid now b wm w1" using rebind_store [OF st] by blast
      have fin: "?rest True w1 = (res, w')" using go st q up by (simp add: thenE_app await_up)
      have "same_sessions w1 w'" by (rule quiet_run [OF qr fin])
      then have sw': "switched account sid now b w w'" using sw wm by (simp add: switched_def same_sessions_def)
      have "is_sessionId (tr_session r) = se_id (sb_session b) \<and> tr_newBinding r = binding" if "res = Inr r" for r
        using fin that by (auto simp: rebind_recorded_def runs issuedFrom_def Let_def accessTokenFor_def)
      then show ?thesis using sw' b by blast
    qed
  qed
qed

section \<open>Theorems\<close>

text \<open>
  An authenticated request was signed for an active account at its current token version and for one
  of its own sessions that is neither revoked nor expired, and the principal repeats that session's tenant binding.
\<close>

theorem authenticated_means_standing:
  assumes "authenticateRequest d now tok w = (Inr p, w')"
  shows "\<exists>c acct s. d_verifyAccess d tok now = Some c \<and> cm_accountId c = pr_accountId p \<and> cm_sessionId c = pr_sessionId p
    \<and> acct \<in> set (w_accounts w) \<and> ac_id acct = pr_accountId p \<and> ac_status acct = ACCOUNT_ACTIVE
    \<and> ac_tokenVersion acct = cm_tokenVersion c \<and> ac_email acct = pr_email p
    \<and> s \<in> set (w_sessions w) \<and> se_id s = pr_sessionId p \<and> se_accountId s = pr_accountId p
    \<and> se_revokedAt s = None \<and> now < se_absoluteExpiresAt s \<and> (\<forall>t. se_idleExpiresAt s = Some t \<longrightarrow> now < t)
    \<and> se_tenantBinding s = pr_tenantBinding p"
proof -
  obtain c acct s where r: "d_verifyAccess d tok now = Some c"
    "accounts_findById (cm_accountId c) w = Some acct" "ac_status acct = ACCOUNT_ACTIVE"
    "ac_tokenVersion acct = cm_tokenVersion c"
    "sessions_findSession (cm_accountId c) (cm_sessionId c) w = Some s" "isSessionLive s now"
    "p = \<lparr>pr_accountId = cm_accountId c, pr_sessionId = se_id s, pr_tenantBinding = se_tenantBinding s,
          pr_email = ac_email acct, pr_emailVerified = (ac_emailVerifiedAt acct \<noteq> None),
          pr_mfaRequired = ac_mfaRequired acct\<rparr>"
    using authenticate_success [OF assms] by metis
  have "acct \<in> set (w_accounts w)" "ac_id acct = cm_accountId c"
    using find_first_Some r(2) unfolding accounts_findById_def by fast+
  moreover have "now < se_absoluteExpiresAt s \<and> (\<forall>t. se_idleExpiresAt s = Some t \<longrightarrow> now < t)"
    using r(6) by (auto simp: isSessionLive_def split: if_splits)
  ultimately show ?thesis
    using r findSession_id [OF r(5)] live_not_revoked [OF r(6)] by (intro exI [of _ c] exI [of _ acct] exI [of _ s]) simp
qed

theorem authenticated_means_standing_witness:
  "\<exists>p w' s. authenticateRequest sample_deps 1000 sample_access sample_world = (Inr p, w') \<and> pr_sessionId p = ''s1''
    \<and> s \<in> set (w_sessions sample_world) \<and> se_id s = ''s1'' \<and> se_revokedAt s = None"
proof -
  have "result_map (fst (authenticateRequest sample_deps 1000 sample_access sample_world)) pr_sessionId = Inr ''s1''"
    by code_simp
  then obtain p w' where r: "authenticateRequest sample_deps 1000 sample_access sample_world = (Inr p, w')" "pr_sessionId p = ''s1''"
    using result_pair_Inr by metis
  then show ?thesis using authenticated_means_standing [OF r(1)] by metis
qed

text \<open>
  C4: A revoked session stays dead: whatever transactions run in any order afterwards, no access token
  authenticates to it and no refresh token continues it.
\<close>

theorem revoked_sessions_stay_dead:
  assumes "identity_wf w" "s \<in> set (w_sessions w)" "se_revokedAt s \<noteq> None" "identity_transaction\<^sup>*\<^sup>* w w'"
  shows "(\<forall>d now tok p x. authenticateRequest d now tok w' = (Inr p, x) \<longrightarrow> pr_sessionId p \<noteq> se_id s)
    \<and> (\<forall>d now raw client r x. refreshSession d now raw client w' = (Inr r, x) \<longrightarrow> rf_sessionId r \<noteq> se_id s)"
  using dead_session [OF assms] by blast

theorem revoked_sessions_stay_dead_witness:
  "\<not> (\<exists>p x. authenticateRequest sample_deps 1000 sample_access revoked_world = (Inr p, x) \<and> pr_sessionId p = ''s1'')
    \<and> \<not> (\<exists>r x. refreshSession sample_deps 1000 ''tok'' sample_client revoked_world = (Inr r, x) \<and> rf_sessionId r = ''s1'')"
proof -
  have "\<exists>s \<in> set (w_sessions revoked_world). se_id s = ''s1'' \<and> se_revokedAt s \<noteq> None" by code_simp
  then obtain s where s: "s \<in> set (w_sessions revoked_world)" "se_revokedAt s \<noteq> None" "se_id s = ''s1''" by blast
  show ?thesis using revoked_sessions_stay_dead [OF revoked_wf s(1,2) rtranclp.rtrancl_refl] unfolding s(3) by blast
qed

text \<open>
  A refresh token works once: after a successful refresh the presented token never refreshes again,
  whatever ran in between.
\<close>

theorem refresh_token_works_once:
  assumes "identity_wf w" "refreshSession d now tok client w = (Inr r, w')" "identity_transaction\<^sup>*\<^sup>* w' w''"
  shows "refreshSession d later tok other w'' \<noteq> (Inr r2, w3)"
proof
  assume again: "refreshSession d later tok other w'' = (Inr r2, w3)"
  have wf1: "identity_wf w'"
    using transactions_wf [of w w'] always_refresh [of d now tok client] assms(1,2) unfolding always_def by (metis snd_conv)
  have wf2: "identity_wf w''" by (rule transactions_wf [OF assms(3) wf1])
  obtain t f s where t: "sessions_findByTokenHash (d_refreshTokenDigest d tok) w = Some (t, f, s)"
    and u: "\<exists>u \<in> set (w_tokens w'). rt_tokenHash u = rt_tokenHash t \<and> rt_usedAt u \<noteq> None"
    using refresh_success [OF assms(2,1)] by metis
  have h: "rt_tokenHash t = d_refreshTokenDigest d tok" using findByTokenHash_Some(5) [OF t] .
  obtain v where v: "v \<in> set (w_tokens w')" "rt_tokenHash v = d_refreshTokenDigest d tok" "rt_usedAt v \<noteq> None"
    using u h by auto
  obtain v2 where v2: "find_first (\<lambda>x. rt_tokenHash x = rt_tokenHash v) stored_order (w_tokens w'') = Some v2" "token_evolves v v2"
    using token_later [OF assms(3) wf1 v(1)] .
  obtain t2 f2 s2 where t2: "sessions_findByTokenHash (d_refreshTokenDigest d tok) w'' = Some (t2, f2, s2)" "rt_usedAt t2 = None"
    using refresh_success [OF again wf2] by metis
  have "t2 = v2" using findByTokenHash_Some(1) [OF t2(1)] v2(1) v(2) by simp
  then show False using v2(2) v(3) t2(2) by (simp add: token_evolves_def)
qed

theorem refresh_token_works_once_witness:
  "\<exists>r w'. refreshSession sample_deps 1000 ''tok'' sample_client sample_world = (Inr r, w')
    \<and> (\<forall>r2 w3. refreshSession sample_deps 2000 ''tok'' sample_client w' \<noteq> (Inr r2, w3))"
proof -
  have "result_map (fst (refreshSession sample_deps 1000 ''tok'' sample_client sample_world)) rf_sessionId = Inr ''s1''"
    by code_simp
  then obtain r w' where "refreshSession sample_deps 1000 ''tok'' sample_client sample_world = (Inr r, w')"
    using result_pair_Inr by metis
  then show ?thesis using refresh_token_works_once [OF sample_wf _ rtranclp.rtrancl_refl] by blast
qed

text \<open>
  C15: Presenting a spent refresh token kills its session, whichever of the later calls fail: the refresh is refused
  and from then on neither an access token nor any refresh token of that session, the thief's successor included, works.
\<close>

theorem reuse_kills_the_session:
  assumes wf: "identity_wf w"
    and found: "sessions_findByTokenHash (d_refreshTokenDigest d tok) w = Some (t, f, s)"
    and spent: "rt_usedAt t \<noteq> None \<or> rt_supersededBy t \<noteq> None"
    and up: "d_limit d LIMIT_REFRESH (d_idKey d (d_refreshTokenDigest d tok)) w = None" "\<not> d_down d CALL_SESSIONS w"
  shows "\<exists>e w'. refreshSession d now tok client w = (Inl e, w')
    \<and> (\<forall>w''. identity_transaction\<^sup>*\<^sup>* w' w'' \<longrightarrow>
         (\<forall>d now tok p x. authenticateRequest d now tok w'' = (Inr p, x) \<longrightarrow> pr_sessionId p \<noteq> se_id s)
       \<and> (\<forall>d now raw client r x. refreshSession d now raw client w'' = (Inr r, x) \<longrightarrow> rf_sessionId r \<noteq> se_id s))"
proof -
  let ?m = "onReuseDetected d now (fa_accountId f) (fa_id f) (se_id s) client"
  let ?w1 = "snd (sessions_revokeFamilyAndSession (fa_accountId f) (fa_id f) (se_id s) RR_REFRESH_REUSE_DETECTED now w)"
  obtain q w' where run: "?m w = (q, w')" by (cases "?m w")
  have "\<exists>e. refreshSession d now tok client w = (Inl e, w')"
    using found spent up run
    by (cases q) (simp_all add: refreshSession_def Let_def refresh_found_def limit_up await_up thenE_app)
  moreover have t1: "identity_transaction\<^sup>*\<^sup>* ?w1 w'" by (rule reuse_run [OF up(2) run])
  obtain s1 where s1: "s1 \<in> set (w_sessions ?w1)" "se_id s1 = se_id s" "se_revokedAt s1 \<noteq> None"
    using reuse_revokes [OF findByTokenHash_Some(8) [OF found] refl findByTokenHash_Some(10) [OF found, symmetric] refl] by blast
  have wf1: "identity_wf ?w1" using transaction_keeps [OF tx_reuse] wf by (simp add: keeps_history_def)
  have "pr_sessionId p \<noteq> se_id s" if "identity_transaction\<^sup>*\<^sup>* w' w''" "authenticateRequest d2 t2 tok2 w'' = (Inr p, x)"
    for w'' d2 t2 tok2 p x
    using dead_session(1) [OF wf1 s1(1,3) rtranclp_trans [OF t1 that(1)] that(2)] s1(2) by simp
  moreover have "rf_sessionId r \<noteq> se_id s" if "identity_transaction\<^sup>*\<^sup>* w' w''" "refreshSession d2 t2 raw c2 w'' = (Inr r, x)"
    for w'' d2 t2 raw c2 r x
    using dead_session(2) [OF wf1 s1(1,3) rtranclp_trans [OF t1 that(1)] that(2)] s1(2) by simp
  ultimately show ?thesis by blast
qed

theorem reuse_kills_the_session_witness:
  "\<exists>e w'. refreshSession sample_deps 1000 ''tok'' sample_client spent_world = (Inl e, w')
    \<and> \<not> (\<exists>d now tok p x. authenticateRequest d now tok w' = (Inr p, x) \<and> pr_sessionId p = ''s1'')"
proof -
  let ?h = "d_refreshTokenDigest sample_deps ''tok''"
  have "map_option (\<lambda>(t, f, s). (rt_usedAt t, se_id s)) (sessions_findByTokenHash ?h spent_world) = Some (Some 400, ''s1'')"
    by code_simp
  then obtain t f s where found: "sessions_findByTokenHash ?h spent_world = Some (t, f, s)" and t: "rt_usedAt t = Some 400" and s: "se_id s = ''s1''"
    by auto
  have up: "d_limit sample_deps LIMIT_REFRESH (d_idKey sample_deps ?h) spent_world = None" "\<not> d_down sample_deps CALL_SESSIONS spent_world"
    by (simp_all add: sample_deps_def)
  show ?thesis
    using reuse_kills_the_session [OF spent_wf found _ up, where now = 1000 and client = sample_client] t s
    by simp (metis rtranclp.rtrancl_refl)
qed

text \<open>
  A tenant switch is all or nothing whatever fails: either no session, family or token row changes, or
  the old live session is revoked and exactly one replacement of the same account with the new binding appears, so that
  the account has as many live sessions as before.  A reported success is a switch.
\<close>

theorem tenant_switch_is_atomic:
  assumes "identity_wf w" "rebindSessionTenant d now account sid binding client w = (res, w')"
  shows "(same_sessions w w' \<and> (\<forall>r. res \<noteq> Inr r))
    \<or> (\<exists>b. switched account sid now b w w' \<and> linked_bundle account binding b
        \<and> length (filter (\<lambda>s. se_accountId s = account \<and> se_revokedAt s = None) (w_sessions w'))
          = length (filter (\<lambda>s. se_accountId s = account \<and> se_revokedAt s = None) (w_sessions w))
        \<and> (\<forall>r. res = Inr r \<longrightarrow> is_sessionId (tr_session r) = se_id (sb_session b) \<and> tr_newBinding r = binding))"
proof (cases "\<exists>acct previous. accounts_findById account w = Some acct
      \<and> rebind_minted d now acct sid previous binding client w = (res, w')")
  case False
  then show ?thesis using assms(2)
    by (auto simp: rebindSessionTenant_def thenE_app await_def callE_eq same_sessions_def split: option.splits if_splits)
next
  case True
  then obtain acct previous where acct: "accounts_findById account w = Some acct"
    and run: "rebind_minted d now acct sid previous binding client w = (res, w')" by blast
  have "ac_id acct = account" using find_first_Some acct unfolding accounts_findById_def by fast
  from rebind_minted_outcome [OF run this] show ?thesis
    using live_count_switched assms(1) unfolding linked_bundle_def by blast
qed

theorem tenant_switch_is_atomic_witness:
  "\<exists>r w' b. rebindSessionTenant sample_deps 1000 ''u1'' ''s1'' (Some ''t2'') sample_client sample_world = (Inr r, w')
    \<and> switched ''u1'' ''s1'' 1000 b sample_world w' \<and> is_sessionId (tr_session r) = se_id (sb_session b)"
proof -
  have "result_map (fst (rebindSessionTenant sample_deps 1000 ''u1'' ''s1'' (Some ''t2'') sample_client sample_world)) tr_newBinding
      = Inr (Some ''t2'')" by code_simp
  then obtain r w' where r: "rebindSessionTenant sample_deps 1000 ''u1'' ''s1'' (Some ''t2'') sample_client sample_world = (Inr r, w')"
    using result_pair_Inr by metis
  then show ?thesis using tenant_switch_is_atomic [OF sample_wf r] by blast
qed

end
