(* ===== verification/Identity_Credential_Laws.thy ===== *)
theory Identity_Credential_Laws
  imports Identity_Session_Laws
begin

text \<open>
  The properties of the credential use cases: what a login proves, the MFA gate, the lockout, and what a
  password reset and an account disable leave behind.
\<close>

section \<open>Quiet parts\<close>

lemma await_app: "await d c m w = (if d_down d c w then (Inl CALL_FAILED, w) else m w)"
  by (simp add: await_def callE_eq)

lemma quiet_hash: "always same_sessions (hash_password d pw)"
  unfolding hash_password_def by (intro quiet_effects)

lemma quiet_replace: "always same_sessions (accounts_replacePassword account h now)"
  by (auto simp: always_def accounts_replacePassword_def same_sessions_def split: option.split)

lemma quiet_upgrade: "always same_sessions (upgrade_hash d now account params pw)"
  unfolding upgrade_hash_def by (intro quiet_effects quiet_hash quiet_replace)

lemma quiet_failure: "always same_sessions (login_failure d now account ip reason)"
  unfolding login_failure_def by (intro quiet_effects)

lemma upgrade_enrolment: "upgrade_hash d now account params pw w = (Inr u, w') \<Longrightarrow> w_enrolments w' = w_enrolments w"
  by (auto simp: upgrade_hash_def hash_password_def runs take_next_def accounts_replacePassword_def
      split: if_splits option.splits)

lemma login_failure_Inl: "login_failure d now account ip reason w \<noteq> (Inr x, w')"
  by (auto simp: login_failure_def thenE_app split: prod.splits sum.splits)

lemma limited_ip: "(case ip of None \<Rightarrow> returnE () | Some i \<Rightarrow> assertWithinLimit d p (f i)) w = (r, w') \<Longrightarrow> w' = w"
  by (auto simp: assertWithinLimit_def split: option.splits)

lemma login_run:
  assumes "login d now raw pw client w = (res, w')"
  shows "(w' = w \<and> (\<exists>e. res = Inl e))
    \<or> (\<exists>acct. accounts_findByEmail (normalizeEmail raw) w = Some acct \<and> login_account d now acct pw client w = (res, w'))
    \<or> (accounts_findByEmail (normalizeEmail raw) w = None \<and> same_sessions w w' \<and> (\<exists>e. res = Inl e))"
proof -
  let ?ip = "cl_ipDigest client"
  have q: "always same_sessions (thenE (dummyVerify d) (\<lambda>u. login_failure d now None ?ip ''unknown_account''))"
    unfolding dummyVerify_def by (intro quiet_effects quiet_failure)
  have e: "\<exists>e. fst (thenE (dummyVerify d) (\<lambda>u. login_failure d now None ?ip ''unknown_account'') w) = Inl e"
    by (auto simp: thenE_app login_failure_def split: prod.splits sum.splits)
  show ?thesis
  proof (cases "fst (login d now raw pw client w)")
    case (Inl x)
    then show ?thesis
    proof (cases "d_limit d LIMIT_LOGIN_ACCOUNT (d_emailKey d (normalizeEmail raw)) w = None
        \<and> (case ?ip of None \<Rightarrow> True | Some i \<Rightarrow> d_limit d LIMIT_LOGIN_IP (d_idKey d i) w = None) \<and> \<not> d_down d CALL_ACCOUNTS w")
      case False
      then show ?thesis using assms
        by (auto simp: login_def Let_def thenE_app assertWithinLimit_def await_def callE_eq split: option.splits if_splits)
    next
      case True
      then show ?thesis using assms e quiet_run [OF q]
        by (cases "accounts_findByEmail (normalizeEmail raw) w")
          (auto simp: login_def Let_def thenE_app [of "assertWithinLimit _ _ _"] thenE_app [of "case_option _ _ _"]
            thenE_app [of "await d CALL_ACCOUNTS _"] limit_up await_up split: option.splits)
    qed
  next
    case (Inr x)
    then show ?thesis using assms e
      by (cases "accounts_findByEmail (normalizeEmail raw) w") (auto simp: login_def Let_def runs limited_ip login_failure_Inl split: option.splits)
  qed
qed

definition locked_out :: "identity_deps \<Rightarrow> millis \<Rightarrow> string \<Rightarrow> string option \<Rightarrow> identity_world \<Rightarrow> bool" where
  "locked_out d now account ip w \<longleftrightarrow> ip_lockoutThreshold (d_policy d)
     \<le> ledger_countSince account [LOGIN_FAILED] ip (now - ip_lockoutWindowMs (d_policy d)) w"

lemma isLockedOut_run: "isLockedOut d now account ip w
    = (if d_down d CALL_LEDGER w then (Inl CALL_FAILED, w) else (Inr (locked_out d now account ip w), w))"
  by (simp add: isLockedOut_def await_app locked_out_def)

lemma locked_run:
  assumes "thenE (recordSecurity d now account kind ip meta) (\<lambda>u. throwE e) w = (res, w')"
  shows "same_sessions w w' \<and> (\<exists>e. res = Inl e)"
proof -
  have "always same_sessions (thenE (recordSecurity d now account kind ip meta) (\<lambda>u. (throwE e :: 'a identity_effect)))"
    by (intro quiet_effects)
  then have "same_sessions w w'" using assms by (rule quiet_run)
  moreover have "\<exists>e. res = Inl e" using assms by (auto simp: thenE_app split: prod.splits sum.splits)
  ultimately show ?thesis by simp
qed

lemma failure_run: "login_failure d now account ip reason w = (res, w') \<Longrightarrow> same_sessions w w' \<and> (\<exists>e. res = Inl e)"
  unfolding login_failure_def by (rule locked_run)

lemma same_sessions_refl [simp]: "same_sessions w w"
  by (simp add: same_sessions_def)

lemma login_account_run:
  assumes "login_account d now acct pw client w = (res, w')"
  shows "(same_sessions w w' \<and> (\<exists>e. res = Inl e))
    \<or> (\<exists>h params. accounts_getCredential (ac_id acct) w = Some (h, params) \<and> d_verify d h pw
        \<and> \<not> locked_out d now (ac_id acct) (cl_ipDigest client) w
        \<and> login_verified d now acct params pw client w = (res, w'))"
proof (cases "d_down d CALL_LEDGER w \<or> locked_out d now (ac_id acct) (cl_ipDigest client) w \<or> d_down d CALL_ACCOUNTS w
    \<or> d_down d CALL_HASHER w")
  case True
  then show ?thesis
    using assms
    by (auto simp: login_account_def Let_def thenE_app [of "isLockedOut _ _ _ _"] isLockedOut_run
        thenE_app [of "await _ _ _"] await_app dummyVerify_def dest: locked_run failure_run split: option.splits if_splits)
next
  case False
  then show ?thesis
    using assms
    by (auto simp: login_account_def Let_def thenE_app [of "isLockedOut _ _ _ _"] isLockedOut_run
        thenE_app [of "await _ _ _"] await_app dummyVerify_def dest: failure_run split: option.splits if_splits)
qed

lemma upgrade_quiet_run: "upgrade_hash d now account params pw w = (r, w1) \<Longrightarrow> same_sessions w w1"
  by (rule quiet_run [OF quiet_upgrade])

lemma login_verified_mfa:
  assumes "login_verified d now acct params pw client w = (res, w')" "isMfaActive (mfa_getEnrolment (ac_id acct) w)"
  shows "same_sessions w w' \<and> (\<forall>s. res \<noteq> Inr (LOGGED_IN s))"
proof (cases "ac_status acct = ACCOUNT_ACTIVE")
  case False
  then show ?thesis using assms(1) by (auto simp: login_verified_def Let_def dest: locked_run)
next
  case True
  obtain r1 w1 where u: "upgrade_hash d now (ac_id acct) params pw w = (r1, w1)"
    by (cases "upgrade_hash d now (ac_id acct) params pw w")
  have 1: "same_sessions w w1" by (rule upgrade_quiet_run [OF u])
  define challenge where "challenge = thenE (await d CALL_SIGNER (returnE (d_signChallenge d (ac_id acct) now))) (\<lambda>challenge.
          thenE (recordSecurity d now (Some (ac_id acct)) MFA_CHALLENGE_ISSUED (cl_ipDigest client) None) (\<lambda>u.
            returnE (MFA_REQUIRED (fst challenge) (snd challenge))))"
  have q: "always same_sessions challenge" unfolding challenge_def by (intro quiet_effects)
  have c: "fst (challenge x) \<noteq> Inr (LOGGED_IN s)" for x s
    by (auto simp: challenge_def thenE_app split: prod.splits sum.splits)
  show ?thesis
  proof (cases r1)
    case (Inl e)
    then show ?thesis using assms(1) True u 1 by (auto simp: login_verified_def Let_def thenE_app [of "upgrade_hash _ _ _ _ _"])
  next
    case (Inr y)
    then have "w_enrolments w1 = w_enrolments w" using upgrade_enrolment u by blast
    then have "isMfaActive (mfa_getEnrolment (ac_id acct) w1)" using assms(2) by (simp add: mfa_getEnrolment_def)
    then have "(if d_down d CALL_MFA w1 then (Inl CALL_FAILED, w1) else challenge w1) = (res, w')"
      using assms(1) True u Inr
      by (cases "d_down d CALL_MFA w1") (simp_all add: login_verified_def Let_def thenE_app [of "upgrade_hash _ _ _ _ _"] thenE_app [of "await d CALL_MFA _"]
          await_app challenge_def)
    then show ?thesis using 1 quiet_run [OF q, of w1] c [of w1]
      by (cases "challenge w1") (auto simp: same_sessions_def split: if_splits)
  qed
qed

lemma login_verified_session:
  assumes "login_verified d now acct params pw client w = (Inr (LOGGED_IN s), w')"
  shows "ac_status acct = ACCOUNT_ACTIVE \<and> (\<exists>x \<in> set (w_sessions w'). se_id x = is_sessionId s
    \<and> se_accountId x = ac_id acct \<and> se_tenantBinding x = None \<and> se_revokedAt x = None)"
proof -
  have act: "ac_status acct = ACCOUNT_ACTIVE"
    using assms by (auto simp: login_verified_def Let_def thenE_Inr split: if_splits)
  obtain w1 w2 where iss: "issue d now acct client w1 = (Inr s, w2)" and q: "same_sessions w2 w'"
  proof -
    define tail where "tail = (\<lambda>issued. thenE (recordSecurity d now (Some (ac_id acct)) LOGIN_SUCCEEDED (cl_ipDigest client)
                   (Some [(''sessionId'', JString (is_sessionId issued))])) (\<lambda>u.
          thenE (auditOrFail d now ''identity.login.succeeded'' (Some (ac_id acct)) ''identity_session''
                   (is_sessionId issued) None) (\<lambda>u. returnE (LOGGED_IN issued))))"
    have qt: "always same_sessions (tail x)" for x unfolding tail_def by (intro quiet_effects)
    have "\<exists>w1. thenE (issue d now acct client) tail w1 = (Inr (LOGGED_IN s), w')"
      unfolding tail_def using assms act by (auto simp: login_verified_def Let_def runs split: if_splits)
    then obtain w1 x w2 where 1: "issue d now acct client w1 = (Inr x, w2)" "tail x w2 = (Inr (LOGGED_IN s), w')"
      by (auto simp: thenE_Inr)
    have "x = s" using 1(2) by (auto simp: tail_def thenE_Inr)
    then show thesis using that 1 quiet_run [OF qt] by blast
  qed
  obtain b raw wm wc where m: "mint d now acct client None w1 = (Inr (b, raw), wm)"
    and c: "sessions_createSession b wm = (Inr (), wc)" and f: "issuedFrom d now (b, raw) (ac_tokenVersion acct) wc = (Inr s, w2)"
    using iss by (auto simp: issue_def runs)
  have lb: "linked_bundle (ac_id acct) None b" using mint_run [of d now acct client None w1] m by (metis Pair_inject sum.inject(2))
  have "(sb_session b)\<lparr>se_revokedAt := None, se_revokedReason := None\<rparr> \<in> set (w_sessions wc)"
    using c by (auto simp: sessions_createSession_def insert_bundle_def create_row_Some split: option.splits)
  moreover have "same_sessions wc w'" using quiet_run [OF quiet_issued f] q by (simp add: same_sessions_def)
  moreover have "is_sessionId s = se_id (sb_session b)" using f by (auto simp: issuedFrom_def Let_def runs accessTokenFor_def)
  ultimately show ?thesis using act lb
    by (intro conjI bexI [of _ "(sb_session b)\<lparr>se_revokedAt := None, se_revokedReason := None\<rparr>"])
      (auto simp: linked_bundle_def same_sessions_def)
qed

definition locked_event :: "millis \<Rightarrow> identity_account \<Rightarrow> client_context \<Rightarrow> security_event" where
  "locked_event now acct client =
     \<lparr>ev_accountId = Some (ac_id acct), ev_type = LOGIN_LOCKED, ev_occurredAt = now,
      ev_ipDigest = cl_ipDigest client, ev_metadata = None\<rparr>"

lemma locked_account_run:
  assumes "locked_out d now (ac_id acct) (cl_ipDigest client) w" "login_account d now acct pw client w = (res, w')"
  shows "(\<exists>e. res = Inl e) \<and> (w' = w \<or> w' = w\<lparr>w_ledger := w_ledger w @ [locked_event now acct client]\<rparr>)"
  using assms
  by (auto simp: login_account_def Let_def thenE_app isLockedOut_run recordSecurity_def guardSecurityMetadata_def
      callE_eq ledger_record_def locked_event_def split: if_splits)

lemma locked_account_any:
  "locked_out d now (ac_id acct) (cl_ipDigest client) w \<Longrightarrow>
     login_account d now acct pw client w = login_account d now acct other client w"
  by (simp add: login_account_def Let_def thenE_app isLockedOut_run)

section \<open>What a password replacement leaves\<close>

lemma replaced_version:
  assumes "accounts_replacePassword account h now w = (Inr u, w')" "identity_wf w"
  obtains a b where "accounts_findById account w = Some a" "accounts_findById account w' = Some b"
    "ac_tokenVersion b = ac_tokenVersion a + 1" "same_sessions w w'"
proof -
  let ?f = "\<lambda>a::identity_account. a\<lparr>ac_tokenVersion := ac_tokenVersion a + 1, ac_updatedAt := now\<rparr>"
  obtain as where as: "update_one (\<lambda>a. ac_id a = account) ?f (w_accounts w) = Some as"
    and w': "w_accounts w' = as" "same_sessions w w'"
    using assms(1) by (auto simp: accounts_replacePassword_def same_sessions_def split: option.splits)
  obtain a where a: "a \<in> set (w_accounts w)" "ac_id a = account"
    and as2: "as = snd (update_many (\<lambda>a. ac_id a = account) ?f (w_accounts w))" using as by (auto simp: update_one_Some)
  have d: "distinct (map ac_id (w_accounts w))" using assms(2) by (simp add: identity_wf_def)
  have "?f a \<in> set as" using a by (auto simp: as2 update_many_def image_iff intro!: bexI [of _ a])
  moreover have "distinct (map ac_id as)" using d unfolding as2 by (simp add: distinct_update_key)
  ultimately have "accounts_findById account w' = Some (?f a)"
    unfolding accounts_findById_def w' using a(2) by (intro find_first_key) auto
  moreover have "accounts_findById account w = Some a"
    unfolding accounts_findById_def using d a by (intro find_first_key) auto
  ultimately show thesis using that w'(2) by simp
qed

lemma revoked_all:
  assumes "sessions_revokeAllSessions account reason now except w = (r, w')" "s \<in> set (w_sessions w')"
    "se_accountId s = account" "except \<noteq> Some (se_id s)"
  shows "se_revokedAt s \<noteq> None"
proof -
  let ?live = "filter (\<lambda>s. se_accountId s = account \<and> se_revokedAt s = None
      \<and> (case except of None \<Rightarrow> True | Some e \<Rightarrow> se_id s \<noteq> e)) (w_sessions w)"
  show ?thesis
  proof (cases "?live = []")
    case True
    then have "w' = w" using assms(1) by (simp add: sessions_revokeAllSessions_def Let_def)
    then show ?thesis using True assms(2-4) by (auto simp: filter_empty_conv split: option.splits)
  next
    case False
    then have "w_sessions w' = snd (revoke_session_rows (\<lambda>s. se_accountId s = account \<and> se_id s \<in> set (map se_id ?live))
        reason now (w_sessions w))"
      using assms(1) by (auto simp: sessions_revokeAllSessions_def Let_def)
    then obtain x where x: "x \<in> set (w_sessions w)"
      "s = (if se_accountId x = account \<and> se_id x \<in> set (map se_id ?live)
            then x\<lparr>se_revokedAt := Some now, se_revokedReason := Some reason\<rparr> else x)"
      using assms(2) by (auto simp: revoke_session_rows_def update_many_def)
    show ?thesis
    proof
      assume n: "se_revokedAt s = None"
      then have "s = x" and not: "\<not> (se_accountId x = account \<and> se_id x \<in> set (map se_id ?live))"
        using x(2) by (auto split: if_splits)
      have "x \<in> set ?live" using x(1) n assms(3,4) \<open>s = x\<close> by (cases except) auto
      then have "se_id x \<in> set (map se_id ?live)" unfolding set_map by (rule imageI)
      then show False using not \<open>s = x\<close> assms(3) by blast
    qed
  qed
qed

lemma updated_account:
  assumes "update_one (\<lambda>a. ac_id a = account) f (w_accounts w) = Some as" "accounts_findById account w = Some a"
    "identity_wf w" "w_accounts w' = as" "\<And>a. ac_id (f a) = ac_id a"
  shows "accounts_findById account w' = Some (f a)"
proof -
  have as: "as = snd (update_many (\<lambda>a. ac_id a = account) f (w_accounts w))" using assms(1) by (auto simp: update_one_Some)
  have a: "a \<in> set (w_accounts w)" "ac_id a = account"
    using assms(2) find_first_Some unfolding accounts_findById_def by fast+
  have "f a \<in> set as" using a by (auto simp: as update_many_def image_iff intro!: bexI [of _ a])
  moreover have "distinct (map ac_id as)"
    using assms(3) unfolding as by (simp add: distinct_update_key assms(5) identity_wf_def)
  ultimately show ?thesis unfolding accounts_findById_def assms(4) using a(2) assms(5) by (intro find_first_key) auto
qed

lemma status_version:
  assumes "accounts_setStatus account st why True now w = (Inr u, w')" "accounts_findById account w = Some a" "identity_wf w"
  obtains b where "accounts_findById account w' = Some b" "ac_tokenVersion b = ac_tokenVersion a + 1"
proof -
  obtain as where as: "update_one (\<lambda>a. ac_id a = account)
            (\<lambda>a. a\<lparr>ac_status := st, ac_disabledReason := why, ac_updatedAt := now,
                  ac_tokenVersion := ac_tokenVersion a + (if True then 1 else 0)\<rparr>) (w_accounts w) = Some as"
    and w': "w_accounts w' = as"
    using assms(1) by (auto simp: accounts_setStatus_def split: option.splits)
  show thesis using updated_account [OF as assms(2,3) w'] that by simp
qed

lemma upgraded_run:
  assumes v: "login_verified d now acct params pw client w = (Inr (LOGGED_IN s), w')" and "d_needsRehash d params"
    "accounts_findByEmail email w = Some acct" "identity_wf w"
  obtains w1 b sid where "accounts_findById (ac_id acct) w1 = Some b" "ac_tokenVersion b = ac_tokenVersion acct + 1"
    "identity_wf w1" "identity_transaction\<^sup>*\<^sup>* w1 w'"
    "is_accessToken s = fst (d_signAccess d
       \<lparr>cm_accountId = ac_id acct, cm_sessionId = sid, cm_tokenVersion = ac_tokenVersion acct\<rparr> now)"
proof -
  define rest where "rest = thenE (await d CALL_MFA (readE (mfa_getEnrolment (ac_id acct)))) (\<lambda>enrolment.
        if isMfaActive enrolment then
          thenE (await d CALL_SIGNER (returnE (d_signChallenge d (ac_id acct) now))) (\<lambda>challenge.
          thenE (recordSecurity d now (Some (ac_id acct)) MFA_CHALLENGE_ISSUED (cl_ipDigest client) None) (\<lambda>u.
            returnE (MFA_REQUIRED (fst challenge) (snd challenge))))
        else
          thenE (issue d now acct client) (\<lambda>issued.
          thenE (recordSecurity d now (Some (ac_id acct)) LOGIN_SUCCEEDED (cl_ipDigest client)
                   (Some [(''sessionId'', JString (is_sessionId issued))])) (\<lambda>u.
          thenE (auditOrFail d now ''identity.login.succeeded'' (Some (ac_id acct)) ''identity_session''
                   (is_sessionId issued) None) (\<lambda>u.
            returnE (LOGGED_IN issued)))))"
  have ar: "always identity_transaction\<^sup>*\<^sup>* rest" unfolding rest_def by (intro use_case_effects always_issue)
  obtain w1 where u: "upgrade_hash d now (ac_id acct) params pw w = (Inr (), w1)" and r: "rest w1 = (Inr (LOGGED_IN s), w')"
    using v unfolding rest_def by (auto simp: login_verified_def Let_def thenE_Inr split: if_splits)
  obtain w0 where w0: "w0 = w\<lparr>w_next := Suc (w_next w)\<rparr>"
    and rp: "accounts_replacePassword (ac_id acct) (d_hash d (w_next w) pw) now w0 = (Inr (), w1)"
    using u assms(2) by (auto simp: upgrade_hash_def hash_password_def runs take_next_def)
  have wf0: "identity_wf w0" using assms(4) by (simp add: w0 identity_wf_def)
  have wf1: "identity_wf w1" using transaction_keeps [OF tx_password [of w0 "ac_id acct" "d_hash d (w_next w) pw" now]] rp wf0 by (simp add: keeps_history_def)
  obtain a b where ab: "accounts_findById (ac_id acct) w0 = Some a" "accounts_findById (ac_id acct) w1 = Some b"
    "ac_tokenVersion b = ac_tokenVersion a + 1" using replaced_version [OF rp wf0] .
  have "acct \<in> set (w_accounts w)" using assms(3) find_first_Some unfolding accounts_findByEmail_def by fast
  then have "accounts_findById (ac_id acct) w = Some acct"
    unfolding accounts_findById_def using assms(4) by (intro find_first_key) (auto simp: identity_wf_def)
  then have "a = acct" using ab(1) by (simp add: accounts_findById_def w0)
  moreover have "\<exists>sid. is_accessToken s = fst (d_signAccess d
       \<lparr>cm_accountId = ac_id acct, cm_sessionId = sid, cm_tokenVersion = ac_tokenVersion acct\<rparr> now)"
  proof -
    obtain w2 w3 where "issue d now acct client w2 = (Inr s, w3)"
      using r unfolding rest_def by (auto simp: runs split: if_splits)
    then obtain b2 raw wm where m: "mint d now acct client None w2 = (Inr (b2, raw), wm)"
      and "\<exists>wc. issuedFrom d now (b2, raw) (ac_tokenVersion acct) wc = (Inr s, w3)"
      by (auto simp: issue_def runs)
    moreover have "linked_bundle (ac_id acct) None b2"
      using mint_run [of d now acct client None w2] m by (metis Pair_inject sum.inject(2))
    ultimately show ?thesis by (auto simp: issuedFrom_def Let_def accessTokenFor_def runs linked_bundle_def)
  qed
  ultimately show thesis using that ab wf1 run_tx [OF ar r] by blast
qed

lemma stale_version:
  assumes "accounts_findById account w = Some a" "identity_wf w" "identity_transaction\<^sup>*\<^sup>* w w'"
    "d_verifyAccess d tok now = Some c" "cm_accountId c = account" "cm_tokenVersion c < ac_tokenVersion a"
  shows "authenticateRequest d now tok w' \<noteq> (Inr p, x)"
proof
  assume "authenticateRequest d now tok w' = (Inr p, x)"
  then obtain c2 b where "d_verifyAccess d tok now = Some c2" "accounts_findById (cm_accountId c2) w' = Some b"
    "ac_tokenVersion b = cm_tokenVersion c2"
    by (rule authenticate_success) blast
  moreover obtain b2 where "accounts_findById account w' = Some b2" "account_evolves a b2"
    using account_later [OF assms(3,2,1)] .
  ultimately show False using assms(4-6) by (auto simp: account_evolves_def)
qed

lemma report_run:
  assumes "revoke_and_report d now account reason except event action kind client w = (Inr u, w')"
  obtains n w1 where "sessions_revokeAllSessions account reason now except w = (Inr n, w1)" "same_sessions w1 w'"
proof -
  define rest where "rest = (\<lambda>n. thenE (recordSecurity d now (Some account) event (cl_ipDigest client)
              (Some [(''revokedCount'', JNumber (Whole (int n)))])) (\<lambda>u.
     thenE (auditOrFail d now action (Some account) ''identity_account'' account
              (Some [(''revokedCount'', JNumber (Whole (int n)))])) (\<lambda>u.
       notice d account kind)))"
  have q: "always same_sessions (rest n)" for n unfolding rest_def by (intro quiet_effects quiet_notice)
  have "thenE (await d CALL_SESSIONS (sessions_revokeAllSessions account reason now except)) rest w = (Inr u, w')"
    using assms unfolding revoke_and_report_def rest_def .
  then show thesis using that quiet_run [OF q] by (auto simp: runs)
qed

lemma consumed_reset:
  assumes "resets_consume rid account now w = (Inr u, w')" "resets_findByCodeHash h w = Some r" "oc_id r = rid"
    "oc_accountId r = account" "identity_wf w"
  obtains q where "q \<in> set (w_resets w')" "oc_codeHash (fst q) = h" "oc_consumedAt (fst q) \<noteq> None"
    "w_accounts w' = w_accounts w" "same_sessions w w'"
proof -
  obtain p where p: "p \<in> set (w_resets w)" "fst p = r" "oc_codeHash r = h"
    using assms(2) find_first_Some unfolding resets_findByCodeHash_def by (metis (mono_tags, lifting) map_option_eq_Some)
  let ?f = "\<lambda>r. ((fst r)\<lparr>oc_consumedAt := Some now\<rparr>, snd r)"
  have w': "w' = w\<lparr>w_resets := snd (update_many (\<lambda>r. oc_id (fst r) = rid \<and> oc_accountId (fst r) = account) ?f (w_resets w))\<rparr>"
    using assms(1) by (auto simp: resets_consume_def update_one_Some split: option.splits)
  have "?f p \<in> set (w_resets w')"
    using p assms(3,4) by (auto simp: w' update_many_def image_iff intro!: bexI [of _ p])
  then show thesis using that [of "?f p"] p by (simp add: w' same_sessions_def)
qed

lemma consumed_stays_dead:
  assumes "q \<in> set (w_resets w)" "oc_codeHash (fst q) = d_resetTokenDigest d tok" "oc_consumedAt (fst q) \<noteq> None"
    "identity_wf w" "identity_transaction\<^sup>*\<^sup>* w w'"
  shows "resetPassword d now tok pw client w' \<noteq> (Inr u, x)"
proof -
  obtain q2 where "resets_findByCodeHash (d_resetTokenDigest d tok) w' = Some (fst q2)" "reset_evolves q q2"
    using reset_later [OF assms(5,4,1)] assms(2) by metis
  then have f: "resets_findByCodeHash (d_resetTokenDigest d tok) w' = Some (fst q2)" "reset_dead (fst q2) now"
    using assms(3) by (auto simp: reset_evolves_def reset_dead_def)
  show ?thesis
    using f by (auto simp: resetPassword_def runs check_password_def Let_def split: if_splits)
qed

section \<open>Theorems\<close>

text \<open>
  C34: A successful login knew the password: the address names an active account that is not locked out and whose
  stored hash verifies the presented password; when it yields a session, that session is a live, unbound session
  of this very account and no confirmed second factor was enrolled.
\<close>

theorem login_requires_the_password:
  assumes "login d now raw pw client w = (Inr r, w')"
  shows "\<exists>acct h params. accounts_findByEmail (normalizeEmail raw) w = Some acct
    \<and> accounts_getCredential (ac_id acct) w = Some (h, params) \<and> d_verify d h pw
    \<and> ac_status acct = ACCOUNT_ACTIVE \<and> \<not> locked_out d now (ac_id acct) (cl_ipDigest client) w
    \<and> (\<forall>s. r = LOGGED_IN s \<longrightarrow> \<not> isMfaActive (mfa_getEnrolment (ac_id acct) w)
        \<and> (\<exists>x \<in> set (w_sessions w'). se_id x = is_sessionId s \<and> se_accountId x = ac_id acct
             \<and> se_tenantBinding x = None \<and> se_revokedAt x = None))"
proof -
  obtain acct where a: "accounts_findByEmail (normalizeEmail raw) w = Some acct"
    and l: "login_account d now acct pw client w = (Inr r, w')"
    using login_run [OF assms] by auto
  obtain h params where c: "accounts_getCredential (ac_id acct) w = Some (h, params)" "d_verify d h pw"
    "\<not> locked_out d now (ac_id acct) (cl_ipDigest client) w"
    and v: "login_verified d now acct params pw client w = (Inr r, w')"
    using login_account_run [OF l] by auto
  have "ac_status acct = ACCOUNT_ACTIVE" using v by (auto simp: login_verified_def Let_def thenE_Inr split: if_splits)
  moreover have "\<not> isMfaActive (mfa_getEnrolment (ac_id acct) w)" if "r = LOGGED_IN s" for s
    using login_verified_mfa [OF v] that by blast
  ultimately show ?thesis using a c login_verified_session v
    by (intro exI [of _ acct] exI [of _ h] exI [of _ params]) blast
qed

theorem login_requires_the_password_witness:
  "\<exists>r w' acct. login sample_deps 1000 ''A@b.c '' ''password'' sample_client sample_world = (Inr r, w')
    \<and> accounts_findByEmail ''a@b.c'' sample_world = Some acct \<and> ac_status acct = ACCOUNT_ACTIVE"
proof -
  have "result_map (fst (login sample_deps 1000 ''A@b.c '' ''password'' sample_client sample_world)) (\<lambda>r. ()) = Inr ()" by code_simp
  then obtain r w' where r: "login sample_deps 1000 ''A@b.c '' ''password'' sample_client sample_world = (Inr r, w')"
    by (rule run_result)
  have "normalizeEmail ''A@b.c '' = ''a@b.c''" by code_simp
  then show ?thesis using login_requires_the_password [OF r] r by metis
qed

text \<open>
  With an active second factor the password alone opens nothing: whatever password is presented and whatever fails, login
  creates and changes no session, family or token and never answers with a session.
\<close>

theorem mfa_gates_the_password:
  assumes "accounts_findByEmail (normalizeEmail raw) w = Some acct" "isMfaActive (mfa_getEnrolment (ac_id acct) w)"
    "login d now raw pw client w = (res, w')"
  shows "same_sessions w w' \<and> (\<forall>s. res \<noteq> Inr (LOGGED_IN s))"
proof -
  consider "w' = w" "\<exists>e. res = Inl e" | "login_account d now acct pw client w = (res, w')"
    using login_run [OF assms(3)] assms(1) by auto
  then show ?thesis
  proof cases
    case 2
    then show ?thesis using login_account_run [OF 2] login_verified_mfa [OF _ assms(2)] by blast
  qed auto
qed

theorem mfa_gates_the_password_witness:
  "\<exists>res w'. login sample_deps 1000 ''a@b.c'' ''password'' sample_client enrolled_world = (res, w')
    \<and> same_sessions enrolled_world w' \<and> (\<forall>s. res \<noteq> Inr (LOGGED_IN s))"
proof -
  obtain res w' where r: "login sample_deps 1000 ''a@b.c'' ''password'' sample_client enrolled_world = (res, w')"
    by (cases "login sample_deps 1000 ''a@b.c'' ''password'' sample_client enrolled_world")
  have "map_option ac_id (accounts_findByEmail (normalizeEmail ''a@b.c'') enrolled_world) = Some ''u1''" by code_simp
  then obtain acct where a: "accounts_findByEmail (normalizeEmail ''a@b.c'') enrolled_world = Some acct" "ac_id acct = ''u1''" by auto
  have m: "isMfaActive (mfa_getEnrolment ''u1'' enrolled_world)" by code_simp
  show ?thesis using mfa_gates_the_password [OF a(1) _ r] m a(2) r by auto
qed

text \<open>
  Under a lockout the password is irrelevant: the attempt fails, every password gives the very same answer and state, the only trace
  is one \<open>login_locked\<close> entry, and the failure count the lock is derived from does not move, so a lock neither resets nor extends itself.
\<close>

theorem lockout_ignores_the_password:
  assumes "accounts_findByEmail (normalizeEmail raw) w = Some acct"
    "locked_out d now (ac_id acct) (cl_ipDigest client) w" "login d now raw pw client w = (res, w')"
  shows "(\<exists>e. res = Inl e) \<and> (\<forall>other. login d now raw other client w = (res, w'))
    \<and> (w' = w \<or> w' = w\<lparr>w_ledger := w_ledger w @ [locked_event now acct client]\<rparr>)
    \<and> (\<forall>account ip since. ledger_countSince account [LOGIN_FAILED] ip since w' = ledger_countSince account [LOGIN_FAILED] ip since w)"
proof -
  have "login d now raw other client w = login d now raw pw client w" for other
    using assms(1) locked_account_any [OF assms(2)]
    by (auto simp: login_def Let_def thenE_app assertWithinLimit_def await_app split: option.splits)
  moreover have "(\<exists>e. res = Inl e) \<and> (w' = w \<or> w' = w\<lparr>w_ledger := w_ledger w @ [locked_event now acct client]\<rparr>)"
    using login_run [OF assms(3)] assms(1) locked_account_run [OF assms(2)] by auto
  ultimately show ?thesis using assms(3) by (auto simp: ledger_countSince_def locked_event_def)
qed

theorem lockout_ignores_the_password_witness:
  "\<exists>e w'. login sample_deps 1000 ''a@b.c'' ''password'' sample_client locked_world = (Inl e, w')
    \<and> login sample_deps 1000 ''a@b.c'' ''wrong'' sample_client locked_world = (Inl e, w')"
proof -
  obtain res w' where r: "login sample_deps 1000 ''a@b.c'' ''password'' sample_client locked_world = (res, w')"
    by (cases "login sample_deps 1000 ''a@b.c'' ''password'' sample_client locked_world")
  have "map_option ac_id (accounts_findByEmail (normalizeEmail ''a@b.c'') locked_world) = Some ''u1''" by code_simp
  then obtain acct where a: "accounts_findByEmail (normalizeEmail ''a@b.c'') locked_world = Some acct" "ac_id acct = ''u1''" by auto
  have l: "locked_out sample_deps 1000 ''u1'' (cl_ipDigest sample_client) locked_world" by code_simp
  show ?thesis using lockout_ignores_the_password [OF a(1) _ r] l a(2) r by auto
qed

text \<open>
  A completed reset leaves nothing of the old credential: every session of the account is revoked, no access token
  signed under the old token version authenticates ever again, and the reset token itself is spent, whatever runs afterwards.
\<close>

theorem reset_revokes_everything:
  assumes "identity_wf w" "resetPassword d now tok pw client w = (Inr u, w')"
  shows "\<exists>r a. resets_findByCodeHash (d_resetTokenDigest d tok) w = Some r \<and> \<not> reset_dead r now
    \<and> accounts_findById (oc_accountId r) w = Some a
    \<and> (\<forall>s \<in> set (w_sessions w'). se_accountId s = oc_accountId r \<longrightarrow> se_revokedAt s \<noteq> None)
    \<and> (\<forall>w''. identity_transaction\<^sup>*\<^sup>* w' w'' \<longrightarrow>
         (\<forall>d2 t2 raw c p x. d_verifyAccess d2 raw t2 = Some c \<longrightarrow> cm_accountId c = oc_accountId r
            \<longrightarrow> cm_tokenVersion c \<le> ac_tokenVersion a \<longrightarrow> authenticateRequest d2 t2 raw w'' \<noteq> (Inr p, x))
       \<and> (\<forall>t2 pw2 c2 x. resetPassword d t2 tok pw2 c2 w'' \<noteq> (Inr u, x)))"
proof -
  obtain r where r: "resets_findByCodeHash (d_resetTokenDigest d tok) w = Some r" "\<not> reset_dead r now"
    and live: "reset_live d now r pw client w = (Inr u, w')"
    using assms(2) by (auto simp: resetPassword_def runs check_password_def Let_def split: option.splits if_splits)
  obtain h w1 w2 w3 u1 u2 where h: "hash_password d pw w = (Inr h, w1)"
    and c: "resets_consume (oc_id r) (oc_accountId r) now w1 = (Inr u1, w2)"
    and p: "accounts_replacePassword (oc_accountId r) h now w2 = (Inr u2, w3)"
    and rep: "revoke_and_report d now (oc_accountId r) RR_PASSWORD_RESET None PASSWORD_RESET_COMPLETED
         ''identity.password.reset'' ''password_reset_completed'' client w3 = (Inr u, w')"
    using live by (auto simp: reset_live_def runs)
  have w1: "w1 = w\<lparr>w_next := Suc (w_next w)\<rparr>" using h by (auto simp: hash_password_def runs take_next_def)
  have wf1: "identity_wf w1" using assms(1) by (simp add: w1 identity_wf_def)
  have f1: "resets_findByCodeHash (d_resetTokenDigest d tok) w1 = Some r" using r by (simp add: w1 resets_findByCodeHash_def)
  obtain q where q: "q \<in> set (w_resets w2)" "oc_codeHash (fst q) = d_resetTokenDigest d tok" "oc_consumedAt (fst q) \<noteq> None"
    "w_accounts w2 = w_accounts w1" using consumed_reset [OF c f1 refl refl wf1] by metis
  have t2: "identity_transaction\<^sup>*\<^sup>* w1 w2" using run_tx [OF transaction_effects(19)] c
    by (metis tx_reset_used r_into_rtranclp snd_conv)
  have t3: "identity_transaction\<^sup>*\<^sup>* w2 w3" using p by (metis tx_password r_into_rtranclp snd_conv)
  have t': "identity_transaction\<^sup>*\<^sup>* w3 w'" by (rule run_tx [OF always_report rep])
  have wf2: "identity_wf w2" by (rule transactions_wf [OF t2 wf1])
  have wf3: "identity_wf w3" by (rule transactions_wf [OF t3 wf2])
  obtain a b where ab: "accounts_findById (oc_accountId r) w2 = Some a" "accounts_findById (oc_accountId r) w3 = Some b"
    "ac_tokenVersion b = ac_tokenVersion a + 1" using replaced_version [OF p wf2] .
  have a: "accounts_findById (oc_accountId r) w = Some a" using ab(1) q(4) by (simp add: accounts_findById_def w1)
  obtain n w4 where rv: "sessions_revokeAllSessions (oc_accountId r) RR_PASSWORD_RESET now None w3 = (Inr n, w4)"
    "same_sessions w4 w'" using report_run [OF rep] .
  have gone: "se_revokedAt s \<noteq> None" if "s \<in> set (w_sessions w')" "se_accountId s = oc_accountId r" for s
    using revoked_all [OF rv(1)] rv(2) that by (simp add: same_sessions_def)
  have stale: "authenticateRequest d2 x2 raw w'' \<noteq> (Inr pr, x)"
    if "identity_transaction\<^sup>*\<^sup>* w' w''" "d_verifyAccess d2 raw x2 = Some cl" "cm_accountId cl = oc_accountId r"
      "cm_tokenVersion cl \<le> ac_tokenVersion a" for w'' d2 x2 raw cl pr x
    by (rule stale_version [OF ab(2) wf3 rtranclp_trans [OF t' that(1)] that(2,3)]) (use that(4) ab(3) in simp)
  have spent: "resetPassword d x2 tok pw2 c2 w'' \<noteq> (Inr u, x)" if "identity_transaction\<^sup>*\<^sup>* w' w''" for w'' x2 pw2 c2 x
    by (rule consumed_stays_dead [OF q(1-3) wf2]) (use t3 t' that in auto)
  show ?thesis using r a gone stale spent by blast
qed

theorem reset_revokes_everything_witness:
  "\<exists>w'. resetPassword sample_deps 1000 ''reset'' ''new-password'' sample_client sample_world = (Inr (), w')
    \<and> (\<forall>pw2 c2 x. resetPassword sample_deps 2000 ''reset'' pw2 c2 w' \<noteq> (Inr (), x))"
proof -
  have "result_map (fst (resetPassword sample_deps 1000 ''reset'' ''new-password'' sample_client sample_world)) (\<lambda>u. u) = Inr ()"
    by code_simp
  then obtain w' where r: "resetPassword sample_deps 1000 ''reset'' ''new-password'' sample_client sample_world = (Inr (), w')"
    by (rule run_result) simp
  then show ?thesis using reset_revokes_everything [OF sample_wf r] by blast
qed

text \<open>
  Disabling an account is final for everything issued before it: every session of the account is revoked, and even after the
  account is enabled again no earlier session and no token of the old version is accepted.
\<close>

theorem disabling_is_final:
  assumes "identity_wf w" "disableAccount d now account reason actor client w = (Inr n, w')"
  shows "\<exists>a. accounts_findById account w = Some a
    \<and> (\<forall>s \<in> set (w_sessions w'). se_accountId s = account \<longrightarrow> se_revokedAt s \<noteq> None)
    \<and> (\<forall>w''. identity_transaction\<^sup>*\<^sup>* w' w'' \<longrightarrow>
         (\<forall>d2 t raw c p x. authenticateRequest d2 t raw w'' = (Inr p, x) \<longrightarrow> d_verifyAccess d2 raw t = Some c \<longrightarrow>
            cm_accountId c = account \<longrightarrow> ac_tokenVersion a < cm_tokenVersion c
              \<and> (\<forall>s \<in> set (w_sessions w'). se_accountId s = account \<longrightarrow> pr_sessionId p \<noteq> se_id s)))"
proof -
  define rest where "rest = (\<lambda>(acct::identity_account) n.
         thenE (recordSecurity d now (Some account) ACCOUNT_DISABLED_EVENT (cl_ipDigest client)
                  (Some [(''revokedSessions'', JNumber (Whole (int n)))])) (\<lambda>u.
         thenE (auditOrFail d now ''identity.account.disabled'' actor ''identity_account'' account
                  (Some [(''reason'', JString reason), (''revokedSessions'', JNumber (Whole (int n)))])) (\<lambda>u.
         thenE (notify d (SECURITY_NOTICE (ac_email acct) ''account_disabled'')) (\<lambda>u.
           returnE n))))"
  obtain a w1 w2 n2 where a: "accounts_findById account w = Some a"
    and st: "accounts_setStatus account ACCOUNT_DISABLED (Some reason) True now w = (Inr (), w1)"
    and rv: "sessions_revokeAllSessions account RR_ACCOUNT_DISABLED now None w1 = (Inr n2, w2)"
    and fin: "rest a n2 w2 = (Inr n, w')"
    using assms(2) unfolding disableAccount_def rest_def by (auto simp: runs split: option.splits)
  have "always identity_transaction\<^sup>*\<^sup>* (rest a n2)" unfolding rest_def by (intro use_case_effects)
  then have t2: "identity_transaction\<^sup>*\<^sup>* w2 w'" using fin by (rule run_tx)
  have t1: "identity_transaction\<^sup>*\<^sup>* w1 w2" using rv by (metis tx_revokeAll r_into_rtranclp snd_conv)
  have wf1: "identity_wf w1" using transaction_keeps [OF tx_status [of w account ACCOUNT_DISABLED "Some reason" True now]] st assms(1)
    by (simp add: keeps_history_def)
  have "always same_sessions (rest a n2)" unfolding rest_def by (intro quiet_effects)
  then have same: "same_sessions w2 w'" using fin by (rule quiet_run)
  have gone: "se_revokedAt s \<noteq> None" if "s \<in> set (w_sessions w')" "se_accountId s = account" for s
    using revoked_all [OF rv] same that by (simp add: same_sessions_def)
  obtain b where b: "accounts_findById account w1 = Some b" "ac_tokenVersion b = ac_tokenVersion a + 1"
    using status_version [OF st a assms(1)] .
  have late: "ac_tokenVersion a < cm_tokenVersion c \<and> (\<forall>s \<in> set (w_sessions w'). se_accountId s = account \<longrightarrow> pr_sessionId p \<noteq> se_id s)"
    if run: "identity_transaction\<^sup>*\<^sup>* w' w''" and ok: "authenticateRequest d2 t raw w'' = (Inr p, x)"
      and c: "d_verifyAccess d2 raw t = Some c" "cm_accountId c = account" for w'' d2 t raw c p x
  proof -
    have all: "identity_transaction\<^sup>*\<^sup>* w1 w''" using t1 t2 run by simp
    have "\<not> cm_tokenVersion c < ac_tokenVersion b" using stale_version [OF b(1) wf1 all c] ok by blast
    moreover have "pr_sessionId p \<noteq> se_id s" if "s \<in> set (w_sessions w')" "se_accountId s = account" for s
      using dead_session(1) [OF transactions_wf [OF rtranclp_trans [OF t1 t2] wf1] that(1) gone [OF that] run ok] .
    ultimately show ?thesis using b(2) by simp
  qed
  show ?thesis using a gone late by blast
qed

theorem disabling_is_final_witness:
  "\<exists>w'. disableAccount sample_deps 1000 ''u1'' ''abuse'' None sample_client sample_world = (Inr 1, w')
    \<and> \<not> (\<exists>s \<in> set (w_sessions w'). se_accountId s = ''u1'' \<and> se_revokedAt s = None)"
proof -
  have "result_map (fst (disableAccount sample_deps 1000 ''u1'' ''abuse'' None sample_client sample_world)) (\<lambda>n. n) = Inr 1"
    by code_simp
  then obtain w' where r: "disableAccount sample_deps 1000 ''u1'' ''abuse'' None sample_client sample_world = (Inr 1, w')"
    by (rule run_result) simp
  then show ?thesis using disabling_is_final [OF sample_wf r] by blast
qed

text \<open>
  The access token of a login that upgraded the stored hash is dead on arrival: the upgrade advances the token version, the
  token still carries the version read before it, and no later state accepts it.
\<close>

theorem upgraded_login_issues_a_stale_token:
  assumes "identity_wf w" "login d now raw pw client w = (Inr (LOGGED_IN s), w')"
    and old_hash: "\<And>acct h params. accounts_findByEmail (normalizeEmail raw) w = Some acct \<Longrightarrow>
        accounts_getCredential (ac_id acct) w = Some (h, params) \<Longrightarrow> d_needsRehash d params"
    and signer: "\<And>c t t2 c2. d_verifyAccess d (fst (d_signAccess d c t)) t2 = Some c2 \<Longrightarrow> c2 = c"
    and later: "identity_transaction\<^sup>*\<^sup>* w' w''"
  shows "authenticateRequest d t (is_accessToken s) w'' \<noteq> (Inr p, x)"
proof
  assume ok: "authenticateRequest d t (is_accessToken s) w'' = (Inr p, x)"
  obtain acct where acct: "accounts_findByEmail (normalizeEmail raw) w = Some acct"
    and l: "login_account d now acct pw client w = (Inr (LOGGED_IN s), w')"
    using login_run [OF assms(2)] by auto
  obtain h params where c: "accounts_getCredential (ac_id acct) w = Some (h, params)"
    and v: "login_verified d now acct params pw client w = (Inr (LOGGED_IN s), w')"
    using login_account_run [OF l] by auto
  obtain w1 b sid where b: "accounts_findById (ac_id acct) w1 = Some b" "ac_tokenVersion b = ac_tokenVersion acct + 1"
    and wf1: "identity_wf w1" and t1: "identity_transaction\<^sup>*\<^sup>* w1 w'"
    and tok: "is_accessToken s = fst (d_signAccess d
       \<lparr>cm_accountId = ac_id acct, cm_sessionId = sid, cm_tokenVersion = ac_tokenVersion acct\<rparr> now)"
    using upgraded_run [OF v old_hash [OF acct c] acct assms(1)] .
  obtain cl where cl: "d_verifyAccess d (is_accessToken s) t = Some cl" using ok by (rule authenticate_success)
  then have eq: "cl = \<lparr>cm_accountId = ac_id acct, cm_sessionId = sid, cm_tokenVersion = ac_tokenVersion acct\<rparr>"
    using signer tok by metis
  have "authenticateRequest d t (is_accessToken s) w'' \<noteq> (Inr p, x)"
    by (rule stale_version [OF b(1) wf1 rtranclp_trans [OF t1 later] cl]) (simp_all add: eq b(2))
  then show False using ok by simp
qed

theorem upgraded_login_issues_a_stale_token_witness:
  "\<exists>s w'. login sample_deps 1000 ''a@b.c'' ''password'' sample_client sample_world = (Inr (LOGGED_IN s), w')
    \<and> (\<forall>t p x. authenticateRequest sample_deps t (is_accessToken s) w' \<noteq> (Inr p, x))"
proof -
  have "result_map (fst (login sample_deps 1000 ''a@b.c'' ''password'' sample_client sample_world))
      (\<lambda>r. case r of LOGGED_IN s \<Rightarrow> True | _ \<Rightarrow> False) = Inr True" by code_simp
  then obtain r w' where r: "login sample_deps 1000 ''a@b.c'' ''password'' sample_client sample_world = (Inr r, w')"
    and k: "case r of LOGGED_IN s \<Rightarrow> True | _ \<Rightarrow> False" by (rule run_result) simp
  then obtain s where s: "login sample_deps 1000 ''a@b.c'' ''password'' sample_client sample_world = (Inr (LOGGED_IN s), w')"
    by (cases r) auto
  have old: "d_needsRehash sample_deps params" if "accounts_getCredential account sample_world = Some (h, params)" for account h params
    using that by (auto simp: accounts_getCredential_def sample_world_def find_first_def sample_deps_def split: if_splits)
  have sg: "c2 = c" if "d_verifyAccess sample_deps (fst (d_signAccess sample_deps c t)) t2 = Some c2" for c t t2 c2
    using that by (auto simp: sample_deps_def dest: sample_read_sign)
  have "authenticateRequest sample_deps t (is_accessToken s) w' \<noteq> (Inr p, x)" for t p x
    by (rule upgraded_login_issues_a_stale_token [OF sample_wf s _ _ rtranclp.rtrancl_refl]) (blast intro: old, blast intro: sg)
  then show ?thesis using s by blast
qed

end
