(* ===== verification/Rate_Limit.thy ===== *)
theory Rate_Limit
  imports Karar_Prelude "HOL-Library.Multiset"
begin

text \<open>
  Rate limiting (\<open>packages/platform/src/ratelimit\<close>): the pure sliding-window core, the in-process
  limiter with its bounded \<open>Map\<close>, the Lua script of the distributed limiter, and the policy-aware
  service in front of the two.  The store the script runs in is not part of the repository: its four sorted-set
  commands are a record of operations, and \<open>zset_laws\<close> states their documented behaviour over an abstract content.
  Timestamps are integers (milliseconds); metrics are left out.
\<close>

section \<open>The sliding window\<close>

record rate_check =
  rc_policyName :: string
  rc_limit :: int
  rc_windowMs :: int
  rc_subjectKey :: string

datatype rate_decision = ALLOWED_WITHIN int | RETRY_AFTER int

fun decision_allowed :: "rate_decision \<Rightarrow> bool" where
  "decision_allowed (ALLOWED_WITHIN remaining) = True"
| "decision_allowed (RETRY_AFTER ms) = False"

definition slideWindow :: "millis list \<Rightarrow> millis \<Rightarrow> int \<Rightarrow> int \<Rightarrow> rate_decision \<times> millis list" where
  "slideWindow timestamps nowMs limit windowMs =
     (let floor = nowMs - windowMs;
          live = filter (\<lambda>t. floor < t) timestamps
      in if int (length live) < limit
         then (ALLOWED_WITHIN (limit - int (length (live @ [nowMs]))), live @ [nowMs])
         else let oldest = (case live of [] \<Rightarrow> nowMs | t # _ \<Rightarrow> t)
              in (RETRY_AFTER (max 0 (oldest + windowMs - nowMs)), live))"

section \<open>The in-process limiter\<close>

text \<open>The \<open>Map\<close> of entries in its iteration order, the key deleted and appended again on every use.\<close>

record rate_entry =
  en_timestamps :: "millis list"
  en_lastTouched :: millis

type_synonym rate_entries = "(string \<times> rate_entry) list"

definition DEFAULT_MAX_SUBJECTS :: int where
  "DEFAULT_MAX_SUBJECTS = 10000"

fun evictIfNeeded :: "int \<Rightarrow> rate_entries \<Rightarrow> rate_entries" where
  "evictIfNeeded maxSubjects [] = []"
| "evictIfNeeded maxSubjects (e # es) =
     (if maxSubjects < int (length (e # es)) then evictIfNeeded maxSubjects es else e # es)"

definition in_process_enforce ::
  "int \<Rightarrow> rate_check \<Rightarrow> millis \<Rightarrow> rate_entries \<Rightarrow> rate_decision \<times> rate_entries" where
  "in_process_enforce maxSubjects check nowMs entries =
     (let key = rc_policyName check @ '':'' @ rc_subjectKey check;
          entry = (case map_of entries key of Some e \<Rightarrow> e
                   | None \<Rightarrow> \<lparr>en_timestamps = [], en_lastTouched = nowMs\<rparr>);
          (decision, timestamps) =
            slideWindow (en_timestamps entry) nowMs (rc_limit check) (rc_windowMs check)
      in (decision, evictIfNeeded maxSubjects
           (filter (\<lambda>e. fst e \<noteq> key) entries
              @ [(key, entry\<lparr>en_timestamps := timestamps, en_lastTouched := nowMs\<rparr>)])))"

section \<open>The distributed limiter\<close>

record 'z zset_ops =
  zremrangebyscore :: "string \<Rightarrow> int \<Rightarrow> int \<Rightarrow> 'z \<Rightarrow> 'z"
  zcard :: "string \<Rightarrow> 'z \<Rightarrow> int"
  zadd :: "string \<Rightarrow> int \<Rightarrow> string \<Rightarrow> 'z \<Rightarrow> 'z"
  zrange_first :: "string \<Rightarrow> 'z \<Rightarrow> (string \<times> int) option"
  pexpire :: "string \<Rightarrow> int \<Rightarrow> 'z \<Rightarrow> 'z"

definition SLIDING_WINDOW_LUA ::
  "'z zset_ops \<Rightarrow> string \<Rightarrow> int \<Rightarrow> int \<Rightarrow> int \<Rightarrow> string \<Rightarrow> 'z \<Rightarrow> int list \<times> 'z" where
  "SLIDING_WINDOW_LUA ops key now window limit member z =
     (let z1 = zremrangebyscore ops key 0 (now - window) z;
          count = zcard ops key z1
      in if count < limit
         then ([1, limit - count - 1, 0],
               pexpire ops key window (zadd ops key now member z1))
         else let oldest = zrange_first ops key z1;
                  retry = (case oldest of None \<Rightarrow> window
                           | Some (m, score) \<Rightarrow> if score + window - now < 0 then 0 else score + window - now)
              in ([0, 0, retry], z1))"

definition storageKey :: "string \<Rightarrow> string \<Rightarrow> string" where
  "storageKey policyName subjectKey = ''karar:rl:'' @ policyName @ '':'' @ subjectKey"

datatype limiter_failure = RATE_LIMIT_STORE_ERROR | OTHER_FAILURE

text \<open>
  One process: its id and its counter.  \<open>eval\<close> is the client call: \<open>None\<close> when it raises, otherwise the reply of the
  script; a reply shorter than three is a store error too.
\<close>

definition next_counter :: "int \<Rightarrow> int" where
  "next_counter counter = (counter + 1) mod 65535"

definition window_member :: "millis \<Rightarrow> int \<Rightarrow> int \<Rightarrow> string" where
  "window_member nowMs pid counter =
     text_of_bigint nowMs @ '':'' @ text_of_bigint pid @ '':'' @ text_of_bigint counter"

definition redis_enforce ::
  "(string \<Rightarrow> int \<Rightarrow> int \<Rightarrow> int \<Rightarrow> string \<Rightarrow> 'z \<Rightarrow> (int list \<times> 'z) option) \<Rightarrow> int
     \<Rightarrow> rate_check \<Rightarrow> millis \<Rightarrow> int \<times> 'z \<Rightarrow> (limiter_failure, rate_decision) outcome \<times> (int \<times> 'z)" where
  "redis_enforce eval pid check nowMs s =
     (let counter = next_counter (fst s);
          member = window_member nowMs pid counter
      in case eval (storageKey (rc_policyName check) (rc_subjectKey check)) nowMs (rc_windowMs check)
                (rc_limit check) member (snd s) of
           None \<Rightarrow> (Inl RATE_LIMIT_STORE_ERROR, (counter, snd s))
         | Some (raw, z) \<Rightarrow>
             if length raw < 3 then (Inl RATE_LIMIT_STORE_ERROR, (counter, z))
             else if raw ! 0 = 1 then (Inr (ALLOWED_WITHIN (raw ! 1)), (counter, z))
             else (Inr (RETRY_AFTER (raw ! 2)), (counter, z)))"

section \<open>Policies and the service\<close>

datatype store_failure_mode = FAIL_CLOSED | FAIL_OPEN_FALLBACK

record rate_policy =
  po_name :: string
  po_limit :: int
  po_windowMs :: int
  po_onStoreFailure :: store_failure_mode

definition RATE_MINUTE_MS :: int where "RATE_MINUTE_MS = 60000"
definition RATE_HOUR_MS :: int where "RATE_HOUR_MS = 60 * RATE_MINUTE_MS"

definition RATE_LIMIT_POLICIES :: "(string \<times> rate_policy) list" where
  "RATE_LIMIT_POLICIES =
    [(''loginPerAccount'', \<lparr>po_name = ''login_account'', po_limit = 10, po_windowMs = 15 * RATE_MINUTE_MS,
        po_onStoreFailure = FAIL_CLOSED\<rparr>),
     (''loginPerIp'', \<lparr>po_name = ''login_ip'', po_limit = 30, po_windowMs = 15 * RATE_MINUTE_MS,
        po_onStoreFailure = FAIL_CLOSED\<rparr>),
     (''verificationSend'', \<lparr>po_name = ''verification_send'', po_limit = 3, po_windowMs = RATE_HOUR_MS,
        po_onStoreFailure = FAIL_CLOSED\<rparr>),
     (''resetSend'', \<lparr>po_name = ''reset_send'', po_limit = 3, po_windowMs = RATE_HOUR_MS,
        po_onStoreFailure = FAIL_CLOSED\<rparr>),
     (''mfaVerify'', \<lparr>po_name = ''mfa_verify'', po_limit = 10, po_windowMs = 15 * RATE_MINUTE_MS,
        po_onStoreFailure = FAIL_CLOSED\<rparr>),
     (''refresh'', \<lparr>po_name = ''refresh'', po_limit = 60, po_windowMs = 15 * RATE_MINUTE_MS,
        po_onStoreFailure = FAIL_OPEN_FALLBACK\<rparr>),
     (''invitationSend'', \<lparr>po_name = ''invitation_send'', po_limit = 20, po_windowMs = RATE_HOUR_MS,
        po_onStoreFailure = FAIL_CLOSED\<rparr>)]"

datatype limit_error = DEPENDENCY_UNAVAILABLE string | RATE_LIMITED string int | PRIMARY_RAISED

definition service_enforce ::
  "(rate_check \<Rightarrow> millis \<Rightarrow> 'p \<Rightarrow> (limiter_failure, rate_decision) outcome \<times> 'p)
     \<Rightarrow> (rate_check \<Rightarrow> millis \<Rightarrow> 'f \<Rightarrow> rate_decision \<times> 'f)
     \<Rightarrow> rate_policy \<Rightarrow> string \<Rightarrow> millis \<Rightarrow> 'p \<times> 'f \<Rightarrow> (limit_error, rate_decision) outcome \<times> ('p \<times> 'f)" where
  "service_enforce primary fallback policy subjectKey now s =
     (let check = \<lparr>rc_policyName = po_name policy, rc_limit = po_limit policy,
            rc_windowMs = po_windowMs policy, rc_subjectKey = subjectKey\<rparr>
      in case primary check now (fst s) of
           (Inr decision, p) \<Rightarrow> (Inr decision, (p, snd s))
         | (Inl OTHER_FAILURE, p) \<Rightarrow> (Inl PRIMARY_RAISED, (p, snd s))
         | (Inl RATE_LIMIT_STORE_ERROR, p) \<Rightarrow>
             if po_onStoreFailure policy = FAIL_CLOSED
             then (Inl (DEPENDENCY_UNAVAILABLE (po_name policy)), (p, snd s))
             else (case fallback check now (snd s) of (decision, f) \<Rightarrow> (Inr decision, (p, f))))"

definition service_assertWithinLimit ::
  "(rate_check \<Rightarrow> millis \<Rightarrow> 'p \<Rightarrow> (limiter_failure, rate_decision) outcome \<times> 'p)
     \<Rightarrow> (rate_check \<Rightarrow> millis \<Rightarrow> 'f \<Rightarrow> rate_decision \<times> 'f)
     \<Rightarrow> rate_policy \<Rightarrow> string \<Rightarrow> millis \<Rightarrow> 'p \<times> 'f \<Rightarrow> (limit_error, unit) outcome \<times> ('p \<times> 'f)" where
  "service_assertWithinLimit primary fallback policy subjectKey now s =
     (case service_enforce primary fallback policy subjectKey now s of
        (Inl e, s') \<Rightarrow> (Inl e, s')
      | (Inr (ALLOWED_WITHIN remaining), s') \<Rightarrow> (Inr (), s')
      | (Inr (RETRY_AFTER ms), s') \<Rightarrow> (Inl (RATE_LIMITED (po_name policy) (- (- ms div 1000))), s'))"

section \<open>Lemmas: the window\<close>

text \<open>The attempts of one subject in order, and the times at which they were admitted.\<close>

fun admitted_times :: "int \<Rightarrow> int \<Rightarrow> millis list \<Rightarrow> millis list \<Rightarrow> millis list" where
  "admitted_times limit windowMs ts [] = []"
| "admitted_times limit windowMs ts (now # nows) =
     (let (d, ts') = slideWindow ts now limit windowMs
      in (if decision_allowed d then [now] else []) @ admitted_times limit windowMs ts' nows)"

lemma slideWindow_allowed:
  "decision_allowed (fst (slideWindow ts now limit w))
     \<longleftrightarrow> int (length (filter (\<lambda>t. now - w < t) ts)) < limit"
  by (simp add: slideWindow_def Let_def)

lemma slideWindow_history:
  "snd (slideWindow ts now limit w) = filter (\<lambda>t. now - w < t) ts
     @ (if decision_allowed (fst (slideWindow ts now limit w)) then [now] else [])"
  by (simp add: slideWindow_def Let_def)

lemma slideWindow_sorted:
  assumes "sorted ts" "\<forall>t \<in> set ts. t \<le> now"
  shows "sorted (snd (slideWindow ts now limit w))" "\<forall>t \<in> set (snd (slideWindow ts now limit w)). t \<le> now"
  using assms by (auto simp: slideWindow_history sorted_append sorted_wrt_filter)

lemma slideWindow_length:
  assumes "0 \<le> limit" shows "int (length (snd (slideWindow ts now limit w))) \<le> max limit (int (length ts))"
  using assms by (auto simp: slideWindow_def Let_def le_max_iff_disj)

text \<open>
  The admissions still to come, together with the recorded ones, never exceed the limit in any window
  of the clock that ends at or after the present.
\<close>

lemma window_bound:
  assumes "0 < w" "sorted (now0 # nows)" "sorted ts" "\<forall>t \<in> set ts. t \<le> now0"
    and "\<forall>e. int (length (filter (\<lambda>t. e - w < t \<and> t \<le> e) ts)) \<le> limit"
  shows "int (length (filter (\<lambda>t. e - w < t \<and> t \<le> e) (ts @ admitted_times limit w ts nows))) \<le> limit"
  using assms
proof (induction nows arbitrary: ts now0)
  case Nil then show ?case by simp
next
  case (Cons now nows)
  let ?W = "\<lambda>e xs. filter (\<lambda>t. e - w < t \<and> t \<le> e) xs"
  let ?d = "fst (slideWindow ts now limit w)"
  let ?ts' = "snd (slideWindow ts now limit w)"
  let ?new = "if decision_allowed ?d then [now] else []"
  have h: "?ts' = filter (\<lambda>t. now - w < t) ts @ ?new" by (rule slideWindow_history)
  have le: "\<forall>t \<in> set ts. t \<le> now" using Cons.prems(2,4) by force
  have step: "\<forall>e. int (length (?W e ?ts')) \<le> limit"
  proof
    fix e
    show "int (length (?W e ?ts')) \<le> limit"
    proof (cases "decision_allowed ?d \<and> now \<le> e")
      case True
      have a: "int (length (filter (\<lambda>t. now - w < t) ts)) < limit"
        using True by (simp add: slideWindow_allowed)
      have "length (?W e ?ts') \<le> length ?ts'" by (rule length_filter_le)
      then show ?thesis using a True unfolding h by simp
    next
      case False
      have "length (?W e ?ts') \<le> length (?W e ts)"
      proof -
        have "?W e ?ts' = ?W e (filter (\<lambda>t. now - w < t) ts)" using False unfolding h by auto
        also have "\<dots> = filter (\<lambda>t. now - w < t) (?W e ts)" by (simp add: conj_commute)
        finally show ?thesis by (simp only: length_filter_le)
      qed
      then show ?thesis using Cons.prems(5) by (meson le_trans of_nat_le_iff order_trans)
    qed
  qed
  have s: "sorted ?ts'" "\<forall>t \<in> set ?ts'. t \<le> now"
    using slideWindow_sorted [OF Cons.prems(3) le] by auto
  have IH: "int (length (?W e (?ts' @ admitted_times limit w ?ts' nows))) \<le> limit"
    by (rule Cons.IH [OF Cons.prems(1) _ s step]) (use Cons.prems(2) in simp)
  let ?A = "admitted_times limit w ?ts' nows"
  have split: "ts @ admitted_times limit w ts (now # nows) = ts @ ?new @ ?A"
    by (simp add: Let_def split_beta)
  show ?case
  proof (cases "now \<le> e")
    case True
    have "?W e ts = ?W e (filter (\<lambda>t. now - w < t) ts)"
      using True by (auto intro: filter_cong)
    then show ?thesis using IH unfolding split h by simp
  next
    case False
    have later: "\<forall>t \<in> set (admitted_times limit w us ns). now \<le> t" if "sorted (now # ns)" for us ns
      using that
    proof (induction ns arbitrary: us)
      case (Cons n ns)
      have "\<forall>t \<in> set (admitted_times limit w us' ns). now \<le> t" for us'
        by (rule Cons.IH) (use Cons.prems in simp)
      then show ?case using Cons.prems by (auto simp: Let_def split_beta)
    qed simp
    have "?W e (?new @ ?A) = []"
      using later [of nows ?ts'] False Cons.prems(2) by (auto simp: filter_empty_conv)
    then show ?thesis using Cons.prems(5) unfolding split by simp
  qed
qed

text \<open>The log of a subject after its attempts, from nothing.\<close>

fun window_log :: "int \<Rightarrow> int \<Rightarrow> millis list \<Rightarrow> millis list \<Rightarrow> millis list" where
  "window_log limit windowMs ts [] = ts"
| "window_log limit windowMs ts (now # nows) =
     window_log limit windowMs (snd (slideWindow ts now limit windowMs)) nows"

lemma window_log_invariant:
  assumes "sorted (nows @ [now])" "sorted ts" "\<forall>t \<in> set ts. \<forall>n \<in> set (nows @ [now]). t \<le> n"
    and "0 \<le> limit" "int (length ts) \<le> limit"
  shows "sorted (window_log limit w ts nows) \<and> (\<forall>t \<in> set (window_log limit w ts nows). t \<le> now)
    \<and> int (length (window_log limit w ts nows)) \<le> limit"
  using assms
proof (induction nows arbitrary: ts)
  case Nil then show ?case by simp
next
  case (Cons n nows)
  have le: "\<forall>t \<in> set ts. t \<le> n" using Cons.prems(3) by simp
  have s: "sorted (snd (slideWindow ts n limit w))" "\<forall>t \<in> set (snd (slideWindow ts n limit w)). t \<le> n"
    using slideWindow_sorted [OF Cons.prems(2) le] by auto
  have l: "int (length (snd (slideWindow ts n limit w))) \<le> limit"
    using slideWindow_length [OF Cons.prems(4), of ts n w] Cons.prems(5) by linarith
  have "\<forall>t \<in> set (snd (slideWindow ts n limit w)). \<forall>m \<in> set (nows @ [now]). t \<le> m"
    using s(2) Cons.prems(1) by force
  then show ?case using Cons.IH [OF _ s(1) _ Cons.prems(4) l] Cons.prems(1) by simp
qed

lemma slideWindow_retry:
  assumes "sorted ts" "\<forall>t \<in> set ts. t \<le> now" "int (length ts) \<le> limit" "0 < limit" "0 < w"
    and "slideWindow ts now limit w = (RETRY_AFTER r, ts')" "now \<le> later"
  shows "decision_allowed (fst (slideWindow ts' later limit w)) \<longleftrightarrow> now + r \<le> later"
proof -
  let ?live = "filter (\<lambda>t. now - w < t) ts"
  have ge: "limit \<le> int (length ?live)" and ts': "ts' = ?live"
    and r: "r = max 0 ((case ?live of [] \<Rightarrow> now | t # _ \<Rightarrow> t) + w - now)"
    using assms(6) by (auto simp: slideWindow_def Let_def split: if_splits)
  have len: "int (length ?live) = limit"
    using ge assms(3) length_filter_le [of "\<lambda>t. now - w < t" ts] by linarith
  then obtain t0 rest where L: "?live = t0 # rest" using assms(4) by (cases ?live) auto
  have t0: "now - w < t0" proof -
    have "t0 \<in> set ?live" unfolding L by simp
    then show ?thesis by simp
  qed
  then have r: "r = t0 + w - now" using r L by simp
  have so: "sorted (t0 # rest)" using assms(1) L by (metis sorted_wrt_filter)
  have "int (length (filter (\<lambda>t. later - w < t) (t0 # rest))) < limit \<longleftrightarrow> now + r \<le> later"
  proof (cases "later - w < t0")
    case True
    then have "filter (\<lambda>t. later - w < t) (t0 # rest) = t0 # rest" using so by (auto simp: filter_id_conv)
    then show ?thesis using len L r True by simp
  next
    case False
    have "length (filter (\<lambda>t. later - w < t) (t0 # rest)) < length (t0 # rest)"
      using False by (simp add: le_imp_less_Suc)
    then show ?thesis using len L r False by simp
  qed
  then show ?thesis by (simp only: slideWindow_allowed ts' L)
qed

section \<open>Lemmas: the in-process limiter\<close>

lemma evict_suffix: "\<exists>k. evictIfNeeded m es = drop k es"
proof (induction es)
  case (Cons e es)
  then obtain k where "evictIfNeeded m es = drop k es" by blast
  then have "evictIfNeeded m (e # es) = drop (if m < int (length (e # es)) then Suc k else 0) (e # es)" by simp
  then show ?case by blast
qed simp

lemma evict_bound: "0 \<le> m \<Longrightarrow> int (length (evictIfNeeded m es)) \<le> m"
  by (induction es) auto

lemma evict_last: "1 \<le> m \<Longrightarrow> \<exists>us. evictIfNeeded m (es @ [x]) = us @ [x]"
proof (induction es)
  case (Cons e es)
  then show ?case by (cases "m < int (length (e # es @ [x]))") auto
qed simp

text \<open>The timestamps the limiter remembers of a key.\<close>

definition remembered :: "rate_entries \<Rightarrow> string \<Rightarrow> millis list" where
  "remembered entries key = (case map_of entries key of None \<Rightarrow> [] | Some e \<Rightarrow> en_timestamps e)"

lemma map_of_last: "distinct (map fst (us @ [(k, v)])) \<Longrightarrow> map_of (us @ [(k, v)]) k = Some v"
  by (induction us) auto

lemma map_of_drop:
  "distinct (map fst es) \<Longrightarrow> map_of (drop n es) k = map_of es k \<or> map_of (drop n es) k = None"
proof (induction es arbitrary: n)
  case (Cons e es)
  show ?case
  proof (cases n)
    case (Suc m)
    then show ?thesis using Cons.IH [of m] Cons.prems
      by (cases "fst e = k") (auto simp: map_of_eq_None_iff dest: in_set_dropD)
  qed simp
qed simp

lemma map_of_filter_other: "k' \<noteq> k \<Longrightarrow> map_of (filter (\<lambda>e. fst e \<noteq> k) es) k' = map_of es k'"
  by (induction es) auto

lemma in_process_enforce_window:
  fixes check :: rate_check and entries :: rate_entries
  defines "key \<equiv> rc_policyName check @ '':'' @ rc_subjectKey check"
  assumes "in_process_enforce m check now entries = (d, entries')" "1 \<le> m" "distinct (map fst entries)"
  shows "d = fst (slideWindow (remembered entries key) now (rc_limit check) (rc_windowMs check))"
    and "remembered entries' key = snd (slideWindow (remembered entries key) now (rc_limit check) (rc_windowMs check))"
    and "k \<noteq> key \<Longrightarrow> remembered entries' k \<in> {remembered entries k, []}"
    and "distinct (map fst entries')" "int (length entries') \<le> m"
proof -
  obtain e where d: "d = fst (slideWindow (remembered entries key) now (rc_limit check) (rc_windowMs check))"
    and en: "entries' = evictIfNeeded m (filter (\<lambda>e. fst e \<noteq> key) entries @ [(key, e)])"
    and e: "en_timestamps e = snd (slideWindow (remembered entries key) now (rc_limit check) (rc_windowMs check))"
    using assms(2) by (auto simp: in_process_enforce_def Let_def remembered_def key_def split: prod.splits option.splits)
  let ?all = "filter (\<lambda>e. fst e \<noteq> key) entries @ [(key, e)]"
  have dist: "distinct (map fst ?all)" using assms(4) by (auto simp: distinct_map_filter)
  obtain n where n: "entries' = drop n ?all" using evict_suffix en by blast
  obtain us where us: "entries' = us @ [(key, e)]" using evict_last [OF assms(3)] en by blast
  show "d = fst (slideWindow (remembered entries key) now (rc_limit check) (rc_windowMs check))" by (rule d)
  show d': "distinct (map fst entries')" unfolding n drop_map [symmetric] by (rule distinct_drop [OF dist])
  show "remembered entries' key = snd (slideWindow (remembered entries key) now (rc_limit check) (rc_windowMs check))"
    using map_of_last [OF d' [unfolded us]] e unfolding us [symmetric] by (simp add: remembered_def)
  show "int (length entries') \<le> m" unfolding en by (rule evict_bound) (use assms(3) in simp)
  assume k: "k \<noteq> key"
  have "map_of ?all k = map_of entries k"
    using k by (simp add: map_add_def map_of_filter_other split: option.split)
  then have "map_of entries' k = map_of entries k \<or> map_of entries' k = None"
    using map_of_drop [OF dist, of n k] unfolding n by metis
  then show "remembered entries' k \<in> {remembered entries k, []}"
    by (elim disjE) (simp_all add: remembered_def)
qed

section \<open>Lemmas: the distributed limiter\<close>

text \<open>
  The documented behaviour of the sorted-set commands, over an abstract content: the members of a key
  and their scores.  \<open>ZRANGE key 0 0\<close> answers a member with the least score.
\<close>

definition zset_laws :: "'z zset_ops \<Rightarrow> ('z \<Rightarrow> string \<Rightarrow> string \<rightharpoonup> int) \<Rightarrow> bool" where
  "zset_laws ops content \<longleftrightarrow> (\<forall>z k.
     finite (dom (content z k))
     \<and> (\<forall>lo hi. content (zremrangebyscore ops k lo hi z) k
          = (\<lambda>m. case content z k m of None \<Rightarrow> None | Some s \<Rightarrow> if lo \<le> s \<and> s \<le> hi then None else Some s))
     \<and> zcard ops k z = int (card (dom (content z k)))
     \<and> (\<forall>s m. content (zadd ops k s m z) k = (content z k)(m \<mapsto> s))
     \<and> (\<forall>t. 0 < t \<longrightarrow> content (pexpire ops k t z) k = content z k)
     \<and> (zrange_first ops k z = None \<longleftrightarrow> content z k = Map.empty)
     \<and> (\<forall>m s. zrange_first ops k z = Some (m, s) \<longrightarrow>
          content z k m = Some s \<and> (\<forall>m' s'. content z k m' = Some s' \<longrightarrow> s \<le> s')))"

definition scores :: "(string \<rightharpoonup> int) \<Rightarrow> int multiset" where
  "scores c = image_mset (\<lambda>m. the (c m)) (mset_set (dom c))"

definition same_window :: "(string \<rightharpoonup> int) \<Rightarrow> millis list \<Rightarrow> bool" where
  "same_window c ts \<longleftrightarrow> sorted ts \<and> (\<forall>t \<in> set ts. 0 \<le> t) \<and> mset ts = scores c"

lemma scores_size: "size (scores c) = card (dom c)"
  by (simp add: scores_def)

lemma scores_empty: "finite (dom c) \<Longrightarrow> scores c = {#} \<longleftrightarrow> c = Map.empty"
  by (simp add: scores_def mset_set_empty_iff)

lemma scores_add: "finite (dom c) \<Longrightarrow> c m = None \<Longrightarrow> scores (c(m \<mapsto> s)) = add_mset s (scores c)"
  by (auto simp: scores_def domIff intro!: image_mset_cong)

lemma scores_filter:
  assumes "finite (dom c)"
  shows "scores (\<lambda>m. case c m of None \<Rightarrow> None | Some s \<Rightarrow> if P s then None else Some s)
    = filter_mset (\<lambda>s. \<not> P s) (scores c)"
proof -
  let ?c = "\<lambda>m. case c m of None \<Rightarrow> None | Some s \<Rightarrow> if P s then None else Some s"
  have d: "dom ?c = {m \<in> dom c. \<not> P (the (c m))}" by (auto split: option.splits if_splits)
  have "scores ?c = image_mset (\<lambda>m. the (c m)) (mset_set {m \<in> dom c. \<not> P (the (c m))})"
    unfolding scores_def d by (rule image_mset_cong) (use assms in \<open>auto split: option.splits\<close>)
  also have "\<dots> = filter_mset (\<lambda>s. \<not> P s) (scores c)"
    using assms by (simp add: scores_def filter_mset_image_mset filter_mset_mset_set)
  finally show ?thesis .
qed

lemma scores_elem: "finite (dom c) \<Longrightarrow> s \<in># scores c \<longleftrightarrow> (\<exists>m. c m = Some s)"
  by (auto simp: scores_def image_iff dom_def)

lemma lua_refines_slideWindow:
  assumes laws: "zset_laws ops content" and sim: "same_window (content z key) ts"
    and now: "\<forall>t \<in> set ts. t \<le> now" "0 \<le> now" and w: "0 < w" and fresh: "content z key member = None"
  shows "case SLIDING_WINDOW_LUA ops key now w limit member z of (raw, z') \<Rightarrow>
     raw = (case fst (slideWindow ts now limit w) of ALLOWED_WITHIN r \<Rightarrow> [1, r, 0] | RETRY_AFTER r \<Rightarrow> [0, 0, r])
     \<and> same_window (content z' key) (snd (slideWindow ts now limit w))"
proof -
  let ?z1 = "zremrangebyscore ops key 0 (now - w) z"
  let ?live = "filter (\<lambda>t. now - w < t) ts"
  have L: "finite (dom (content x key))" "zcard ops key x = int (card (dom (content x key)))"
    "content (zadd ops key s m x) key = (content x key)(m \<mapsto> s)" "0 < t \<Longrightarrow> content (pexpire ops key t x) key = content x key"
    "zrange_first ops key x = None \<longleftrightarrow> content x key = Map.empty"
    "zrange_first ops key x = Some (m, s) \<Longrightarrow>
       content x key m = Some s \<and> (\<forall>m' s'. content x key m' = Some s' \<longrightarrow> s \<le> s')" for x m s t
    using laws unfolding zset_laws_def by blast+
  have c1: "content ?z1 key
      = (\<lambda>m. case content z key m of None \<Rightarrow> None | Some s \<Rightarrow> if 0 \<le> s \<and> s \<le> now - w then None else Some s)"
    using laws unfolding zset_laws_def by blast
  have "scores (content ?z1 key) = filter_mset (\<lambda>s. \<not> (0 \<le> s \<and> s \<le> now - w)) (mset ts)"
    unfolding c1 scores_filter [OF L(1)] using sim by (simp add: same_window_def)
  also have "\<dots> = mset ?live"
  proof -
    have "filter (\<lambda>s. \<not> (0 \<le> s \<and> s \<le> now - w)) ts = ?live"
      by (rule filter_cong [OF refl]) (use sim in \<open>auto simp: same_window_def\<close>)
    then show ?thesis by (metis mset_filter)
  qed
  finally have s1: "scores (content ?z1 key) = mset ?live" .
  have so: "sorted ?live" and nn: "\<forall>t \<in> set ?live. 0 \<le> t"
    using sim by (auto simp: same_window_def sorted_wrt_filter)
  have card: "zcard ops key ?z1 = int (length ?live)"
    using L(2) scores_size s1 by (metis size_mset)
  show ?thesis
  proof (cases "int (length ?live) < limit")
    case True
    have "content ?z1 key member = None" unfolding c1 using fresh by simp
    then have "scores (content (pexpire ops key w (zadd ops key now member ?z1)) key) = add_mset now (mset ?live)"
      unfolding L(3) L(4) [OF w] by (simp add: scores_add L(1) s1)
    moreover have "sorted (?live @ [now])" using so now(1) by (auto simp: sorted_append)
    ultimately show ?thesis using True nn now(2)
      by (simp add: SLIDING_WINDOW_LUA_def slideWindow_def Let_def card same_window_def)
  next
    case False
    let ?oldest = "case ?live of [] \<Rightarrow> now | t # _ \<Rightarrow> t"
    have "(case zrange_first ops key ?z1 of None \<Rightarrow> w
        | Some (m, score) \<Rightarrow> if score + w - now < 0 then 0 else score + w - now) = max 0 (?oldest + w - now)"
    proof (cases ?live)
      case Nil
      then have "content ?z1 key = Map.empty" using s1 scores_empty [OF L(1)] by auto
      then have "zrange_first ops key ?z1 = None" by (simp add: L(5))
      then show ?thesis using Nil w by simp
    next
      case (Cons t0 rest)
      then have "content ?z1 key \<noteq> Map.empty" using s1 scores_empty [OF L(1), of ?z1] by auto
      then have "zrange_first ops key ?z1 \<noteq> None" by (simp add: L(5))
      then obtain m s where ms: "zrange_first ops key ?z1 = Some (m, s)" by auto
      have "content ?z1 key m = Some s" and least: "\<And>m' s'. content ?z1 key m' = Some s' \<Longrightarrow> s \<le> s'"
        using L(6) [OF ms] by auto
      then have "s \<in># mset ?live" using scores_elem [OF L(1)] s1 by metis
      then have "t0 \<le> s" using so unfolding Cons by auto
      moreover have "t0 \<in># scores (content ?z1 key)" unfolding s1 Cons by simp
      then have "s \<le> t0" using least scores_elem [OF L(1)] by blast
      ultimately show ?thesis using ms Cons by simp
    qed
    then show ?thesis using False so nn s1
      by (simp add: SLIDING_WINDOW_LUA_def slideWindow_def Let_def card same_window_def)
  qed
qed

text \<open>The script as the client runs it while the store is up.\<close>

definition store_up ::
  "'z zset_ops \<Rightarrow> string \<Rightarrow> int \<Rightarrow> int \<Rightarrow> int \<Rightarrow> string \<Rightarrow> 'z \<Rightarrow> (int list \<times> 'z) option" where
  "store_up ops key now w limit member z = Some (SLIDING_WINDOW_LUA ops key now w limit member z)"

lemma redis_enforce_up:
  "redis_enforce (store_up ops) pid check now (c, z) =
     (let (raw, z') = SLIDING_WINDOW_LUA ops (storageKey (rc_policyName check) (rc_subjectKey check)) now
            (rc_windowMs check) (rc_limit check) (window_member now pid (next_counter c)) z
      in (Inr (if raw ! 0 = 1 then ALLOWED_WITHIN (raw ! 1) else RETRY_AFTER (raw ! 2)), (next_counter c, z')))"
  by (auto simp: redis_enforce_def store_up_def SLIDING_WINDOW_LUA_def Let_def)

lemma logged_are_admitted:
  assumes "sorted (nows @ [now])"
  shows "filter (\<lambda>t. now - w < t) (window_log limit w ts nows)
    = filter (\<lambda>t. now - w < t) (ts @ admitted_times limit w ts nows)"
  using assms
proof (induction nows arbitrary: ts)
  case (Cons n nows)
  let ?S = "slideWindow ts n limit w"
  have "n \<le> now" using Cons.prems by simp
  then have "filter (\<lambda>t. now - w < t) (filter (\<lambda>t. n - w < t) ts) = filter (\<lambda>t. now - w < t) ts"
    by (auto intro: filter_cong)
  then show ?case using Cons.IH [of "snd ?S"] Cons.prems
    by (simp add: Let_def split_beta slideWindow_history [of ts n limit w])
qed simp

section \<open>Properties\<close>

text \<open>
  C35: The sliding window is exact.  For attempts in the order of the clock, from an empty log, no window of the given length,
  wherever it ends, holds more than \<open>limit\<close> admissions; and the next attempt is admitted exactly when fewer than
  \<open>limit\<close> admissions lie in the window that ends with it.
\<close>

theorem sliding_window_is_exact:
  assumes "sorted (nows @ [now])" "0 \<le> limit" "0 < w"
  shows "int (length (filter (\<lambda>t. e - w < t \<and> t \<le> e) (admitted_times limit w [] nows))) \<le> limit
    \<and> (decision_allowed (fst (slideWindow (window_log limit w [] nows) now limit w))
        \<longleftrightarrow> int (length (filter (\<lambda>t. now - w < t) (admitted_times limit w [] nows))) < limit)"
proof -
  obtain n0 where n0: "sorted (n0 # nows)"
  proof (cases nows)
    case (Cons n ns) then show thesis using that [of n] assms(1) by (simp add: sorted_append)
  qed (use that in simp)
  show ?thesis
    using window_bound [OF assms(3) n0, of "[]" limit e] logged_are_admitted [OF assms(1), of w limit "[]"] assms(2)
    by (simp add: slideWindow_allowed)
qed

theorem sliding_window_is_exact_witness:
  "int (length (filter (\<lambda>t. 0 < t \<and> t \<le> 10) (admitted_times 2 10 [] [1, 2, 3]))) \<le> 2
    \<and> admitted_times 2 10 [] [1, 2, 3] = [1, 2]"
  using sliding_window_is_exact [of "[1, 2, 3]" 4 2 10 10] by (simp add: slideWindow_def)

text \<open>
  The retry time is honest.  After attempts in the order of the clock, a refusal that names
  \<open>retryAfterMs = r\<close> records nothing that delays its caller, and a later attempt (none in between) is admitted exactly from the
  instant \<open>now + r\<close> on.
\<close>

theorem retry_after_is_exact:
  assumes "sorted (nows @ [now])" "0 < limit" "0 < w"
    and "slideWindow (window_log limit w [] nows) now limit w = (RETRY_AFTER r, ts)" "now \<le> later"
  shows "0 \<le> r \<and> (decision_allowed (fst (slideWindow ts later limit w)) \<longleftrightarrow> now + r \<le> later)"
proof -
  have inv: "sorted (window_log limit w [] nows)" "\<forall>t \<in> set (window_log limit w [] nows). t \<le> now"
    "int (length (window_log limit w [] nows)) \<le> limit"
    using window_log_invariant [OF assms(1), of "[]" limit w] assms(2) by auto
  have "0 \<le> r" using assms(4) by (auto simp: slideWindow_def Let_def split: if_splits)
  then show ?thesis using slideWindow_retry [OF inv assms(2,3,4,5)] by blast
qed

theorem retry_after_is_exact_witness:
  "\<exists>ts. slideWindow (window_log 2 10 [] [1, 2]) 3 2 10 = (RETRY_AFTER 8, ts)
     \<and> decision_allowed (fst (slideWindow ts 11 2 10)) \<and> \<not> decision_allowed (fst (slideWindow ts 10 2 10))"
proof -
  have s: "slideWindow (window_log 2 10 [] [1, 2]) 3 2 10 = (RETRY_AFTER 8, [1, 2])"
    by (simp add: slideWindow_def)
  show ?thesis
    using s retry_after_is_exact [OF _ _ _ s, of 11] retry_after_is_exact [OF _ _ _ s, of 10] by simp
qed

text \<open>
  C36: The distributed limiter is the sliding window.  Whatever store obeys the documented sorted-set commands, while it is
  up, one call of the Redis adapter with a fresh member answers exactly what \<open>slideWindow\<close> answers on the
  sorted log of the scores stored under the subject's key, and leaves exactly the log it leaves.
\<close>

theorem redis_limiter_is_the_sliding_window:
  assumes laws: "zset_laws ops content"
    and sim: "same_window (content z (storageKey (rc_policyName check) (rc_subjectKey check))) ts"
    and "\<forall>t \<in> set ts. t \<le> now" "0 \<le> now" "0 < rc_windowMs check"
    and "content z (storageKey (rc_policyName check) (rc_subjectKey check))
           (window_member now pid (next_counter c)) = None"
  shows "\<exists>z'. redis_enforce (store_up ops) pid check now (c, z)
      = (Inr (fst (slideWindow ts now (rc_limit check) (rc_windowMs check))), (next_counter c, z'))
    \<and> same_window (content z' (storageKey (rc_policyName check) (rc_subjectKey check)))
        (snd (slideWindow ts now (rc_limit check) (rc_windowMs check)))"
proof -
  let ?key = "storageKey (rc_policyName check) (rc_subjectKey check)"
  obtain raw z' where lua: "SLIDING_WINDOW_LUA ops ?key now (rc_windowMs check) (rc_limit check)
      (window_member now pid (next_counter c)) z = (raw, z')" by (metis surj_pair)
  note r = lua_refines_slideWindow [OF laws sim assms(3-6), of "rc_limit check", unfolded lua]
  then show ?thesis
    by (cases "fst (slideWindow ts now (rc_limit check) (rc_windowMs check))")
      (simp_all add: redis_enforce_up lua)
qed

text \<open>A store that obeys the laws: an association list per key.\<close>

definition list_entries :: "(string \<times> int) list \<Rightarrow> (string \<times> int) list" where
  "list_entries xs = map (\<lambda>m. (m, the (map_of xs m))) (remdups (map fst xs))"

definition list_zset :: "(string \<Rightarrow> (string \<times> int) list) zset_ops" where
  "list_zset = \<lparr>
     zremrangebyscore = (\<lambda>k lo hi z. z(k := filter (\<lambda>e. \<not> (lo \<le> snd e \<and> snd e \<le> hi)) (list_entries (z k)))),
     zcard = (\<lambda>k z. int (length (list_entries (z k)))),
     zadd = (\<lambda>k s m z. z(k := (m, s) # z k)),
     zrange_first = (\<lambda>k z. case sort_key snd (list_entries (z k)) of [] \<Rightarrow> None | e # _ \<Rightarrow> Some e),
     pexpire = (\<lambda>k t z. z)\<rparr>"

lemma list_entries_facts:
  "distinct (map fst (list_entries xs))" "map_of (list_entries xs) = map_of xs"
  "length (list_entries xs) = card (dom (map_of xs))" "(m, s) \<in> set (list_entries xs) \<longleftrightarrow> map_of xs m = Some s"
proof -
  show "distinct (map fst (list_entries xs))" by (simp add: list_entries_def comp_def)
  show "map_of (list_entries xs) = map_of xs"
    by (rule ext) (force simp: list_entries_def map_of_map_restrict restrict_map_def map_of_eq_None_iff [symmetric] dest!: weak_map_of_SomeI)
  show "length (list_entries xs) = card (dom (map_of xs))"
    by (simp add: list_entries_def dom_map_of_conv_image_fst length_remdups_card_conv)
  show "(m, s) \<in> set (list_entries xs) \<longleftrightarrow> map_of xs m = Some s"
    by (force simp: list_entries_def dom_map_of_conv_image_fst [symmetric] simp del: dom_map_of_conv_image_fst)
qed

lemma map_of_filter_distinct:
  "distinct (map fst xs) \<Longrightarrow> map_of (filter P xs) m
     = (case map_of xs m of None \<Rightarrow> None | Some s \<Rightarrow> if P (m, s) then Some s else None)"
  by (induction xs) (auto simp: map_of_eq_None_iff split: option.split)

lemma list_zset_laws: "zset_laws list_zset (\<lambda>z k. map_of (z k))"
  unfolding zset_laws_def
proof (intro allI conjI impI)
  fix z :: "string \<Rightarrow> (string \<times> int) list" and k
  show "map_of (zremrangebyscore list_zset k lo hi z k)
      = (\<lambda>m. case map_of (z k) m of None \<Rightarrow> None | Some s \<Rightarrow> if lo \<le> s \<and> s \<le> hi then None else Some s)" for lo hi
    by (rule ext) (auto simp: list_zset_def map_of_filter_distinct list_entries_facts split: option.split)
  show "(zrange_first list_zset k z = None) = (map_of (z k) = Map.empty)"
  proof -
    have "sort_key snd (list_entries (z k)) = [] \<longleftrightarrow> z k = []"
      by (metis length_0_conv length_sort list_entries_def map_is_Nil_conv remdups_eq_nil_iff)
    moreover have "map_of (z k) = Map.empty \<longleftrightarrow> z k = []" by (cases "z k") (auto simp: fun_eq_iff)
    ultimately show ?thesis
      by (cases "sort_key snd (list_entries (z k))") (simp_all add: list_zset_def)
  qed
  fix m s assume "zrange_first list_zset k z = Some (m, s)"
  then obtain rest where r: "sort_key snd (list_entries (z k)) = (m, s) # rest"
    by (auto simp: list_zset_def split: list.splits)
  have "set (sort_key snd (list_entries (z k))) = set (list_entries (z k))" by simp
  then have S: "set ((m, s) # rest) = set (list_entries (z k))" unfolding r .
  show "map_of (z k) m = Some s" using S list_entries_facts(4) by fastforce
  fix m' s' assume "map_of (z k) m' = Some s'"
  then have "(m', s') \<in> set ((m, s) # rest)" using S list_entries_facts(4) by fastforce
  moreover have "sorted (map snd ((m, s) # rest))" using sorted_sort_key [of snd "list_entries (z k)"] unfolding r .
  ultimately show "s \<le> s'" by auto
qed (simp_all add: list_zset_def list_entries_facts finite_dom_map_of)

theorem redis_limiter_is_the_sliding_window_witness:
  "\<exists>z'. redis_enforce (store_up list_zset) 1
       \<lparr>rc_policyName = ''refresh'', rc_limit = 2, rc_windowMs = 10, rc_subjectKey = ''s''\<rparr> 5 (0, \<lambda>k. [])
     = (Inr (ALLOWED_WITHIN 1), (1, z')) \<and> same_window (map_of (z' (storageKey ''refresh'' ''s''))) [5]"
proof -
  have "same_window (map_of []) []" by (simp add: same_window_def scores_def)
  then show ?thesis
    using redis_limiter_is_the_sliding_window [OF list_zset_laws, where z = "\<lambda>k. []" and ts = "[]" and now = 5
        and check = "\<lparr>rc_policyName = ''refresh'', rc_limit = 2, rc_windowMs = 10, rc_subjectKey = ''s''\<rparr>"
        and c = 0 and pid = 1]
    by (simp add: slideWindow_def next_counter_def)
qed

text \<open>
  Members are unique per process only.  Two processes with the same process id (containers commonly share one) whose
  counters agree write the same member in the same millisecond; the second admission is then not recorded,
  and a third attempt passes a limit of two.
\<close>

theorem shared_pid_admits_over_the_limit:
  assumes laws: "zset_laws ops content"
    and empty: "content z (storageKey (rc_policyName check) (rc_subjectKey check)) = Map.empty"
    and two: "rc_limit check = 2" and w: "0 < rc_windowMs check" and now: "0 \<le> now"
  shows "\<exists>d1 z1 d2 z2 d3 z3.
      redis_enforce (store_up ops) pid check now (c, z) = (Inr d1, (next_counter c, z1))
    \<and> redis_enforce (store_up ops) pid check now (c, z1) = (Inr d2, (next_counter c, z2))
    \<and> redis_enforce (store_up ops) pid check now (next_counter c, z2) = (Inr d3, (next_counter (next_counter c), z3))
    \<and> decision_allowed d1 \<and> decision_allowed d2 \<and> decision_allowed d3"
proof -
  let ?k = "storageKey (rc_policyName check) (rc_subjectKey check)"
  let ?m = "window_member now pid (next_counter c)"
  have L: "content (zremrangebyscore ops k lo hi x) k
        = (\<lambda>m. case content x k m of None \<Rightarrow> None | Some s \<Rightarrow> if lo \<le> s \<and> s \<le> hi then None else Some s)"
    "zcard ops k x = int (card (dom (content x k)))"
    "content (zadd ops k s m x) k = (content x k)(m \<mapsto> s)" "0 < t \<Longrightarrow> content (pexpire ops k t x) k = content x k" for k x lo hi s m t
    using laws unfolding zset_laws_def by blast+
  have step: "\<exists>d x'. redis_enforce (store_up ops) pid check now (n, x) = (Inr d, (next_counter n, x'))
      \<and> decision_allowed d \<and> content x' ?k = (content x ?k)(window_member now pid (next_counter n) \<mapsto> now)"
    if d: "\<forall>m s. content x ?k m = Some s \<longrightarrow> s = now" and c: "card (dom (content x ?k)) \<le> 1" for n x
  proof -
    let ?x = "zremrangebyscore ops ?k 0 (now - rc_windowMs check) x"
    have "content ?x ?k = content x ?k" unfolding L(1) using d w by (auto simp: fun_eq_iff split: option.split)
    then show ?thesis using c two by (simp add: redis_enforce_up SLIDING_WINDOW_LUA_def Let_def L(2,3) L(4) [OF w])
  qed
  have one: "(\<forall>m s. content x ?k m = Some s \<longrightarrow> s = now) \<and> card (dom (content x ?k)) \<le> 1"
    if "content x ?k = [?m \<mapsto> now]" for x using that by simp
  obtain d1 z1 where 1: "redis_enforce (store_up ops) pid check now (c, z) = (Inr d1, (next_counter c, z1))"
    "decision_allowed d1" "content z1 ?k = [?m \<mapsto> now]" using step [of z c] empty by auto
  obtain d2 z2 where 2: "redis_enforce (store_up ops) pid check now (c, z1) = (Inr d2, (next_counter c, z2))"
    "decision_allowed d2" "content z2 ?k = [?m \<mapsto> now]" using step [of z1 c] one [OF 1(3)] 1(3) by (metis fun_upd_upd)
  obtain d3 z3 where "redis_enforce (store_up ops) pid check now (next_counter c, z2)
      = (Inr d3, (next_counter (next_counter c), z3))" "decision_allowed d3"
    using step [of z2 "next_counter c"] one [OF 2(3)] by metis
  then show ?thesis using 1 2 by blast
qed

theorem shared_pid_admits_over_the_limit_witness:
  "\<exists>d z1 z2 z3. redis_enforce (store_up list_zset) 1
       \<lparr>rc_policyName = ''p'', rc_limit = 2, rc_windowMs = 10, rc_subjectKey = ''s''\<rparr> 5 (0, \<lambda>k. []) = (Inr d, (1, z1))
     \<and> decision_allowed d"
proof -
  have "next_counter 0 = 1" by (simp add: next_counter_def)
  then show ?thesis
    using shared_pid_admits_over_the_limit [OF list_zset_laws, where z = "\<lambda>k. []" and now = 5 and pid = 1 and c = 0
        and check = "\<lparr>rc_policyName = ''p'', rc_limit = 2, rc_windowMs = 10, rc_subjectKey = ''s''\<rparr>"]
    by auto
qed

text \<open>
  A limiter outage never opens a guessing surface.  When the primary store fails, every declared policy but
  \<open>refresh\<close> refuses the request with DEPENDENCY_UNAVAILABLE and consults no fallback; \<open>refresh\<close> proceeds
  under the fallback's decision.  A failure that is not a store failure is rethrown under every policy.
\<close>

theorem outage_fails_closed:
  assumes "(k, policy) \<in> set RATE_LIMIT_POLICIES"
    and "primary \<lparr>rc_policyName = po_name policy, rc_limit = po_limit policy,
           rc_windowMs = po_windowMs policy, rc_subjectKey = subject\<rparr> now p = (Inl failure, p')"
  shows "service_assertWithinLimit primary fallback policy subject now (p, f) =
     (if failure = OTHER_FAILURE then (Inl PRIMARY_RAISED, (p', f))
      else if k \<noteq> ''refresh'' then (Inl (DEPENDENCY_UNAVAILABLE (po_name policy)), (p', f))
      else (case fallback \<lparr>rc_policyName = ''refresh'', rc_limit = 60, rc_windowMs = 900000, rc_subjectKey = subject\<rparr> now f of
              (ALLOWED_WITHIN n, f') \<Rightarrow> (Inr (), (p', f'))
            | (RETRY_AFTER ms, f') \<Rightarrow> (Inl (RATE_LIMITED ''refresh'' (- (- ms div 1000))), (p', f'))))"
proof -
  have "k \<noteq> ''refresh'' \<and> po_onStoreFailure policy = FAIL_CLOSED
    \<or> k = ''refresh'' \<and> policy = \<lparr>po_name = ''refresh'', po_limit = 60, po_windowMs = 900000, po_onStoreFailure = FAIL_OPEN_FALLBACK\<rparr>"
    using assms(1) by (simp add: RATE_LIMIT_POLICIES_def RATE_MINUTE_MS_def) (elim disjE conjE, simp_all)
  then show ?thesis
    using assms(2)
    by (cases failure) (auto simp: service_assertWithinLimit_def service_enforce_def split: prod.split rate_decision.split)
qed

theorem outage_fails_closed_witness:
  "service_assertWithinLimit (\<lambda>check now p. (Inl RATE_LIMIT_STORE_ERROR, p)) (in_process_enforce 10000)
     \<lparr>po_name = ''login_ip'', po_limit = 30, po_windowMs = 900000, po_onStoreFailure = FAIL_CLOSED\<rparr> ''s'' 7 ((), [])
   = (Inl (DEPENDENCY_UNAVAILABLE ''login_ip''), ((), []))"
  by (subst outage_fails_closed [where k = "''loginPerIp''" and failure = RATE_LIMIT_STORE_ERROR and p' = "()"])
    (simp_all add: RATE_LIMIT_POLICIES_def RATE_MINUTE_MS_def)

end
