(* ===== verification/Job_Queue.thy ===== *)
theory Job_Queue
  imports Effects
begin

text \<open>
  Background jobs (\<open>packages/platform/src/jobs\<close>): the PostgreSQL queue (\<open>postgres-queue.ts\<close>), the handler
  registry (\<open>registry.ts\<close>) and the poller (\<open>poller.ts\<close>).  The table \<open>platform.jobs\<close> is a list of rows; every
  statement is one atomic function on it.  A payload is its JSON text, and its byte length is a parameter.
  The ellipsis of a truncated error (U+2026) is outside the 8-bit characters and stands as its Windows-1252 code.
  Metrics and logs are left out.
\<close>

section \<open>Rows and records\<close>

datatype job_status = JOB_QUEUED | JOB_LEASED | JOB_SUCCEEDED | JOB_FAILED_RETRYABLE | JOB_DEAD

record job_row =
  jb_id :: string
  jb_jobType :: string
  jb_payload :: string
  jb_classification :: string
  jb_idempotencyKey :: "string option"
  jb_status :: job_status
  jb_priority :: int
  jb_availableAt :: millis
  jb_leaseOwner :: "string option"
  jb_leaseExpiresAt :: "millis option"
  jb_attempts :: int
  jb_maxAttempts :: int
  jb_lastError :: "string option"
  jb_correlationId :: "string option"
  jb_causationId :: "string option"
  jb_createdAt :: millis
  jb_updatedAt :: millis

record enqueue_job_input =
  ei_jobType :: string
  ei_payload :: string
  ei_classification :: "string option"
  ei_idempotencyKey :: "string option"
  ei_priority :: "int option"
  ei_delayMs :: "int option"
  ei_maxAttempts :: "int option"
  ei_correlationId :: "string option"
  ei_causationId :: "string option"

record job_record =
  jr_id :: string
  jr_jobType :: string
  jr_payload :: string
  jr_classification :: string
  jr_idempotencyKey :: "string option"
  jr_status :: job_status
  jr_priority :: int
  jr_attempts :: int
  jr_maxAttempts :: int
  jr_correlationId :: "string option"
  jr_causationId :: "string option"

record claimed_job =
  cj_id :: string
  cj_jobType :: string
  cj_payload :: string
  cj_classification :: string
  cj_priority :: int
  cj_attempts :: int
  cj_maxAttempts :: int
  cj_leaseOwner :: string
  cj_correlationId :: "string option"
  cj_causationId :: "string option"

definition toJobRecord :: "job_row \<Rightarrow> job_record" where
  "toJobRecord r = \<lparr>jr_id = jb_id r, jr_jobType = jb_jobType r, jr_payload = jb_payload r,
     jr_classification = jb_classification r, jr_idempotencyKey = jb_idempotencyKey r,
     jr_status = jb_status r, jr_priority = jb_priority r, jr_attempts = jb_attempts r,
     jr_maxAttempts = jb_maxAttempts r, jr_correlationId = jb_correlationId r, jr_causationId = jb_causationId r\<rparr>"

text \<open>\<open>lease_owner as string\<close>: a claimed row always carries its owner.\<close>

definition toClaimed :: "job_row \<Rightarrow> claimed_job" where
  "toClaimed r = \<lparr>cj_id = jb_id r, cj_jobType = jb_jobType r, cj_payload = jb_payload r,
     cj_classification = jb_classification r, cj_priority = jb_priority r, cj_attempts = jb_attempts r,
     cj_maxAttempts = jb_maxAttempts r, cj_leaseOwner = (case jb_leaseOwner r of Some w \<Rightarrow> w | None \<Rightarrow> ''''),
     cj_correlationId = jb_correlationId r, cj_causationId = jb_causationId r\<rparr>"

record queue_options =
  qo_maxPayloadBytes :: "int option"
  qo_maxClaimBatch :: "int option"
  qo_backoffBaseMs :: "int option"
  qo_backoffCapMs :: "int option"
  qo_defaultLeaseTtlMs :: "int option"

record job_queue =
  q_maxPayloadBytes :: int
  q_maxClaimBatch :: int
  q_backoffBaseMs :: int
  q_backoffCapMs :: int
  q_defaultLeaseTtlMs :: int

definition or_default :: "'a option \<Rightarrow> 'a \<Rightarrow> 'a" where
  "or_default o' d = (case o' of None \<Rightarrow> d | Some x \<Rightarrow> x)"

definition new_queue :: "queue_options \<Rightarrow> job_queue" where
  "new_queue options = \<lparr>
     q_maxPayloadBytes = or_default (qo_maxPayloadBytes options) (256 * 1024),
     q_maxClaimBatch = or_default (qo_maxClaimBatch options) 25,
     q_backoffBaseMs = or_default (qo_backoffBaseMs options) 1000,
     q_backoffCapMs = or_default (qo_backoffCapMs options) (5 * 60000),
     q_defaultLeaseTtlMs = or_default (qo_defaultLeaseTtlMs options) 30000\<rparr>"

definition MAX_LAST_ERROR_LENGTH :: nat where "MAX_LAST_ERROR_LENGTH = 2000"

definition STALE_LEASE_ERROR :: string where
  "STALE_LEASE_ERROR = ''lease expired before the worker reported an outcome''"

datatype thrown = ERROR_OBJECT string string | THROWN_VALUE string

definition describeError :: "thrown \<Rightarrow> string" where
  "describeError e =
     (let text = (case e of ERROR_OBJECT n m \<Rightarrow> n @ '': '' @ m | THROWN_VALUE t \<Rightarrow> t)
      in if length text > MAX_LAST_ERROR_LENGTH then take MAX_LAST_ERROR_LENGTH text @ [CHR 0x85] else text)"

section \<open>The queue\<close>

datatype enqueue_error =
    EMPTY_JOB_TYPE
  | JOB_PAYLOAD_TOO_LARGE string int int
  | ENQUEUE_REJECTED
  | ENQUEUE_RACE string

text \<open>
  The constraints of the table an insert can break: the classification and \<open>max_attempts >= 1\<close>, then the primary
  key; a clash on the partial unique index does nothing.
\<close>

definition job_classifications :: "string list" where
  "job_classifications = [''PUBLIC'', ''INTERNAL'', ''CONFIDENTIAL'', ''HIGHLY_SENSITIVE_FINANCIAL'', ''SECRET'', ''SEALED'']"

definition same_idempotency_key :: "job_row \<Rightarrow> job_row \<Rightarrow> bool" where
  "same_idempotency_key r x \<longleftrightarrow> jb_jobType r = jb_jobType x \<and> jb_idempotencyKey r \<noteq> None
     \<and> jb_idempotencyKey r = jb_idempotencyKey x"

definition insert_job :: "job_row \<Rightarrow> job_row list \<Rightarrow> (job_row option \<times> job_row list) option" where
  "insert_job r rows =
     (if jb_classification r \<notin> set job_classifications \<or> jb_maxAttempts r < 1 then None
      else if list_ex (same_idempotency_key r) rows then Some (None, rows)
      else if list_ex (\<lambda>x. jb_id x = jb_id r) rows then None
      else Some (Some r, rows @ [r]))"

definition job_of_input :: "string \<Rightarrow> millis \<Rightarrow> enqueue_job_input \<Rightarrow> job_row" where
  "job_of_input uuid now i = \<lparr>jb_id = uuid, jb_jobType = ei_jobType i, jb_payload = ei_payload i,
     jb_classification = or_default (ei_classification i) ''INTERNAL'', jb_idempotencyKey = ei_idempotencyKey i,
     jb_status = JOB_QUEUED, jb_priority = or_default (ei_priority i) 0,
     jb_availableAt = now + or_default (ei_delayMs i) 0, jb_leaseOwner = None, jb_leaseExpiresAt = None,
     jb_attempts = 0, jb_maxAttempts = or_default (ei_maxAttempts i) 5, jb_lastError = None,
     jb_correlationId = ei_correlationId i, jb_causationId = ei_causationId i,
     jb_createdAt = now, jb_updatedAt = now\<rparr>"

definition enqueueWith ::
  "job_queue \<Rightarrow> (string \<Rightarrow> int) \<Rightarrow> string \<Rightarrow> millis \<Rightarrow> enqueue_job_input \<Rightarrow> job_row list
     \<Rightarrow> (enqueue_error, job_record \<times> bool) outcome \<times> job_row list" where
  "enqueueWith q byteLength uuid now i rows =
     (if blank (ei_jobType i) then (Inl EMPTY_JOB_TYPE, rows)
      else if q_maxPayloadBytes q < byteLength (ei_payload i)
      then (Inl (JOB_PAYLOAD_TOO_LARGE (ei_jobType i) (byteLength (ei_payload i)) (q_maxPayloadBytes q)), rows)
      else (case insert_job (job_of_input uuid now i) rows of
              None \<Rightarrow> (Inl ENQUEUE_REJECTED, rows)
            | Some (Some r, rows') \<Rightarrow> (Inr (toJobRecord r, True), rows')
            | Some (None, rows') \<Rightarrow>
                (case find_first (\<lambda>x. jb_jobType x = ei_jobType i \<and> ei_idempotencyKey i \<noteq> None
                        \<and> jb_idempotencyKey x = ei_idempotencyKey i) stored_order rows' of
                   None \<Rightarrow> (Inl (ENQUEUE_RACE (ei_jobType i)), rows')
                 | Some x \<Rightarrow> (Inr (toJobRecord x, False), rows'))))"

text \<open>
  \<open>claim\<close>: the claimable rows no other transaction has locked (\<open>SKIP LOCKED\<close>), in the order of the statement.
\<close>

definition claim_order :: "job_row \<Rightarrow> job_row \<Rightarrow> int" where
  "claim_order a b =
     (if jb_priority b < jb_priority a then -1 else if jb_priority a < jb_priority b then 1
      else if jb_availableAt a < jb_availableAt b then -1 else if jb_availableAt b < jb_availableAt a then 1
      else if jb_createdAt a < jb_createdAt b then -1 else if jb_createdAt b < jb_createdAt a then 1
      else string_cmp (jb_id a) (jb_id b))"

definition claimable :: "millis \<Rightarrow> job_row \<Rightarrow> bool" where
  "claimable now r \<longleftrightarrow> jb_status r \<in> {JOB_QUEUED, JOB_FAILED_RETRYABLE} \<and> jb_availableAt r \<le> now"

record claim_options =
  co_workerId :: string
  co_batchSize :: "int option"
  co_leaseTtlMs :: "int option"

definition claim_batch :: "job_queue \<Rightarrow> claim_options \<Rightarrow> int" where
  "claim_batch q options = min (max 1 (or_default (co_batchSize options) (q_maxClaimBatch q))) (q_maxClaimBatch q)"

definition claim_picks :: "job_queue \<Rightarrow> (string \<Rightarrow> bool) \<Rightarrow> millis \<Rightarrow> claim_options \<Rightarrow> job_row list \<Rightarrow> job_row list" where
  "claim_picks q locked now options rows =
     take (nat (claim_batch q options)) (find_many (\<lambda>r. claimable now r \<and> \<not> locked (jb_id r)) claim_order rows)"

definition lease_row :: "job_queue \<Rightarrow> millis \<Rightarrow> claim_options \<Rightarrow> job_row \<Rightarrow> job_row" where
  "lease_row q now options r = r\<lparr>jb_status := JOB_LEASED, jb_leaseOwner := Some (co_workerId options),
     jb_leaseExpiresAt := Some (now + or_default (co_leaseTtlMs options) (q_defaultLeaseTtlMs q)),
     jb_attempts := jb_attempts r + 1, jb_updatedAt := now\<rparr>"

definition claim_jobs ::
  "job_queue \<Rightarrow> (string \<Rightarrow> bool) \<Rightarrow> millis \<Rightarrow> claim_options \<Rightarrow> job_row list \<Rightarrow> claimed_job list option \<times> job_row list" where
  "claim_jobs q locked now options rows =
     (if blank (co_workerId options) then (None, rows)
      else
        let ids = map jb_id (claim_picks q locked now options rows);
            picked = (\<lambda>r. jb_id r \<in> set ids)
        in (Some (map (toClaimed \<circ> lease_row q now options) (filter picked rows)),
            map (\<lambda>r. if picked r then lease_row q now options r else r) rows))"

text \<open>The outcome statements all name the job, the lease owner of the handle and the leased status.\<close>

definition holds_lease :: "claimed_job \<Rightarrow> job_row \<Rightarrow> bool" where
  "holds_lease j r \<longleftrightarrow> jb_id r = cj_id j \<and> jb_leaseOwner r = Some (cj_leaseOwner j) \<and> jb_status r = JOB_LEASED"

definition unlease :: "millis \<Rightarrow> job_row \<Rightarrow> job_row" where
  "unlease now r = r\<lparr>jb_leaseOwner := None, jb_leaseExpiresAt := None, jb_updatedAt := now\<rparr>"

datatype job_outcome = COMPLETED | SCHEDULED_RETRY | DEAD_LETTERED | EXTENDED | RELEASED | LOST_LEASE

definition report :: "job_outcome \<Rightarrow> nat \<times> job_row list \<Rightarrow> job_outcome \<times> job_row list" where
  "report ok result = (if fst result = 1 then ok else LOST_LEASE, snd result)"

definition complete_job :: "millis \<Rightarrow> claimed_job \<Rightarrow> job_row list \<Rightarrow> job_outcome \<times> job_row list" where
  "complete_job now j rows = report COMPLETED
     (update_many (holds_lease j) (\<lambda>r. (unlease now r)\<lparr>jb_status := JOB_SUCCEEDED\<rparr>) rows)"

definition deadLetter :: "millis \<Rightarrow> claimed_job \<Rightarrow> thrown \<Rightarrow> job_row list \<Rightarrow> job_outcome \<times> job_row list" where
  "deadLetter now j e rows = report DEAD_LETTERED
     (update_many (holds_lease j)
        (\<lambda>r. (unlease now r)\<lparr>jb_status := JOB_DEAD, jb_lastError := Some (describeError e)\<rparr>) rows)"

definition backoffMs :: "job_queue \<Rightarrow> int \<Rightarrow> int" where
  "backoffMs q attempts = min (q_backoffCapMs q) (q_backoffBaseMs q * 2 ^ nat (attempts - 1))"

definition failRetryable :: "job_queue \<Rightarrow> millis \<Rightarrow> claimed_job \<Rightarrow> thrown \<Rightarrow> job_row list \<Rightarrow> job_outcome \<times> job_row list" where
  "failRetryable q now j e rows =
     (if cj_maxAttempts j \<le> cj_attempts j then deadLetter now j e rows
      else report SCHEDULED_RETRY
        (update_many (holds_lease j)
           (\<lambda>r. (unlease now r)\<lparr>jb_status := JOB_FAILED_RETRYABLE, jb_lastError := Some (describeError e),
              jb_availableAt := now + backoffMs q (cj_attempts j)\<rparr>) rows))"

definition heartbeat :: "job_queue \<Rightarrow> millis \<Rightarrow> claimed_job \<Rightarrow> int option \<Rightarrow> job_row list \<Rightarrow> job_outcome \<times> job_row list" where
  "heartbeat q now j extendMs rows = report EXTENDED
     (update_many (holds_lease j)
        (\<lambda>r. r\<lparr>jb_leaseExpiresAt := Some (now + or_default extendMs (q_defaultLeaseTtlMs q)), jb_updatedAt := now\<rparr>) rows)"

definition release_job :: "millis \<Rightarrow> claimed_job \<Rightarrow> job_row list \<Rightarrow> job_outcome \<times> job_row list" where
  "release_job now j rows = report RELEASED
     (update_many (holds_lease j)
        (\<lambda>r. (unlease now r)\<lparr>jb_status := JOB_QUEUED, jb_attempts := max (jb_attempts r - 1) 0\<rparr>) rows)"

definition lease_expired :: "millis \<Rightarrow> job_row \<Rightarrow> bool" where
  "lease_expired now r \<longleftrightarrow> jb_status r = JOB_LEASED \<and> (case jb_leaseExpiresAt r of None \<Rightarrow> False | Some t \<Rightarrow> t < now)"

definition recover_row :: "millis \<Rightarrow> job_row \<Rightarrow> job_row" where
  "recover_row now r = (unlease now r)\<lparr>
     jb_status := (if jb_maxAttempts r \<le> jb_attempts r then JOB_DEAD else JOB_FAILED_RETRYABLE),
     jb_lastError := Some STALE_LEASE_ERROR, jb_availableAt := now\<rparr>"

definition recoverStaleLeases :: "millis \<Rightarrow> job_row list \<Rightarrow> (nat \<times> nat) \<times> job_row list" where
  "recoverStaleLeases now rows =
     (let touched = map (recover_row now) (filter (lease_expired now) rows);
          dead = length (filter (\<lambda>r. jb_status r = JOB_DEAD) touched)
      in ((length touched - dead, dead), map (\<lambda>r. if lease_expired now r then recover_row now r else r) rows))"

section \<open>The registry and the poller\<close>

text \<open>
  The world of one worker: the table, the clock, and the poller's own fields.  A handler is whatever happens from its call to its
  settling: heartbeats, statements of other workers, the passing of time, a \<open>stop()\<close>; it answers what it threw, if anything.
  \<open>down\<close> says which query raises.
\<close>

record jobs_world =
  jw_rows :: "job_row list"
  jw_now :: millis
  jw_stopping :: bool
  jw_lastStaleSweepAt :: millis
  jw_lastTickAt :: "millis option"

type_synonym job_handler = "claimed_job \<Rightarrow> jobs_world \<Rightarrow> thrown option \<times> jobs_world"
type_synonym handler_registry = "(string \<times> job_handler) list"

datatype registry_error = EMPTY_HANDLER_TYPE | ALREADY_REGISTERED string

definition register_handler ::
  "handler_registry \<Rightarrow> string \<Rightarrow> job_handler \<Rightarrow> (registry_error, handler_registry) outcome" where
  "register_handler registry jobType h =
     (if blank jobType then Inl EMPTY_HANDLER_TYPE
      else if jobType \<in> set (map fst registry) then Inl (ALREADY_REGISTERED jobType)
      else Inr (registry @ [(jobType, h)]))"

definition resolve_handler :: "handler_registry \<Rightarrow> string \<Rightarrow> job_handler option" where
  "resolve_handler registry jobType = map_of registry jobType"

definition registeredTypes :: "handler_registry \<Rightarrow> string list" where
  "registeredTypes registry = js_sort string_cmp (map fst registry)"

datatype job_call = QUERY_RECOVER | QUERY_CLAIM | QUERY_OUTCOME
datatype jobs_error = QUERY_RAISED | CLAIM_REFUSED

type_synonym 'a jobs_effect = "(jobs_world, jobs_error, 'a) effect"

record job_poller =
  pl_queue :: job_queue
  pl_registry :: handler_registry
  pl_workerId :: string
  pl_batchSize :: int
  pl_leaseTtlMs :: "int option"
  pl_staleRecoveryIntervalMs :: int
  pl_locked :: "string \<Rightarrow> bool"
  pl_down :: "job_call \<Rightarrow> jobs_world \<Rightarrow> bool"

definition job_query ::
  "job_poller \<Rightarrow> job_call \<Rightarrow> (millis \<Rightarrow> job_row list \<Rightarrow> 'a \<times> job_row list) \<Rightarrow> 'a jobs_effect" where
  "job_query p call f = (\<lambda>w.
     if pl_down p call w then (Inl QUERY_RAISED, w)
     else (case f (jw_now w) (jw_rows w) of (x, rows) \<Rightarrow> (Inr x, w\<lparr>jw_rows := rows\<rparr>)))"

definition executeOne :: "job_poller \<Rightarrow> claimed_job \<Rightarrow> job_outcome jobs_effect" where
  "executeOne p j =
     (case resolve_handler (pl_registry p) (cj_jobType j) of
        None \<Rightarrow> job_query p QUERY_OUTCOME (\<lambda>now. failRetryable (pl_queue p) now j
          (ERROR_OBJECT ''Error'' (''No handler registered for job type '' @ [CHR 0x27] @ cj_jobType j @ [CHR 0x27])))
      | Some h \<Rightarrow>
          thenE (updateE (h j)) (\<lambda>threw.
          case threw of
            Some e \<Rightarrow> job_query p QUERY_OUTCOME (\<lambda>now. failRetryable (pl_queue p) now j e)
          | None \<Rightarrow> job_query p QUERY_OUTCOME (\<lambda>now. complete_job now j)))"

record run_report =
  rn_claimed :: nat
  rn_completed :: nat
  rn_retried :: nat
  rn_deadLettered :: nat
  rn_released :: nat
  rn_staleRecovered :: nat

definition tally :: "job_outcome \<Rightarrow> run_report \<Rightarrow> run_report" where
  "tally out r = (case out of
     COMPLETED \<Rightarrow> r\<lparr>rn_completed := rn_completed r + 1\<rparr>
   | SCHEDULED_RETRY \<Rightarrow> r\<lparr>rn_retried := rn_retried r + 1\<rparr>
   | DEAD_LETTERED \<Rightarrow> r\<lparr>rn_deadLettered := rn_deadLettered r + 1\<rparr>
   | RELEASED \<Rightarrow> r\<lparr>rn_released := rn_released r + 1\<rparr>
   | _ \<Rightarrow> r)"

fun run_batch :: "job_poller \<Rightarrow> claimed_job list \<Rightarrow> run_report \<Rightarrow> run_report jobs_effect" where
  "run_batch p [] r = returnE r"
| "run_batch p (j # js) r =
     thenE (readE jw_stopping) (\<lambda>stopping.
     thenE (if stopping then job_query p QUERY_OUTCOME (\<lambda>now. release_job now j) else executeOne p j) (\<lambda>out.
       run_batch p js (tally out r)))"

definition sweep_stale :: "job_poller \<Rightarrow> nat jobs_effect" where
  "sweep_stale p = (\<lambda>w.
     if jw_now w - jw_lastStaleSweepAt w \<ge> pl_staleRecoveryIntervalMs p
     then thenE (job_query p QUERY_RECOVER recoverStaleLeases) (\<lambda>sweep. returnE (fst sweep))
            (w\<lparr>jw_lastStaleSweepAt := jw_now w\<rparr>)
     else (Inr 0, w))"

definition poll_claim :: "job_poller \<Rightarrow> claimed_job list jobs_effect" where
  "poll_claim p =
     thenE (job_query p QUERY_CLAIM (\<lambda>now. claim_jobs (pl_queue p) (pl_locked p) now
              \<lparr>co_workerId = pl_workerId p, co_batchSize = Some (pl_batchSize p), co_leaseTtlMs = pl_leaseTtlMs p\<rparr>))
       (\<lambda>c. case c of None \<Rightarrow> throwE CLAIM_REFUSED | Some js \<Rightarrow> returnE js)"

definition runOnce :: "job_poller \<Rightarrow> run_report jobs_effect" where
  "runOnce p =
     thenE (sweep_stale p) (\<lambda>staleRecovered.
     thenE (poll_claim p) (\<lambda>claimed.
     thenE (run_batch p claimed \<lparr>rn_claimed = length claimed, rn_completed = 0, rn_retried = 0,
              rn_deadLettered = 0, rn_released = 0, rn_staleRecovered = staleRecovered\<rparr>) (\<lambda>r.
     thenE (updateE (\<lambda>w. ((), w\<lparr>jw_lastTickAt := Some (jw_now w)\<rparr>))) (\<lambda>u.
       returnE r))))"

end
