(* ===== verification/Job_Laws.thy ===== *)
theory Job_Laws
  imports Job_Queue
begin

text \<open>
  What the job queue guarantees.  \<open>queue_step\<close> is one statement of some worker, with the handles the workers
  hold: a handle is given out by \<open>claim\<close>, dropped with the outcome (or by a crash), and a worker
  claims only when it holds none, as the poller does.  \<open>queue_wf\<close> is the invariant of the table and the
  handles.  The lemmas show that every step keeps it; the properties bound the attempts, show that the queue
  drains, that enqueueing is idempotent, that a worker whose lease is gone changes nothing, and that
  a run of the poller leaves nothing leased.
\<close>

section \<open>Steps\<close>

type_synonym queue_state = "job_row list \<times> claimed_job list"

definition drop_handle :: "claimed_job \<Rightarrow> claimed_job list \<Rightarrow> claimed_job list" where
  "drop_handle j H = filter (\<lambda>h. h \<noteq> j) H"

inductive queue_work :: "job_queue \<Rightarrow> queue_state \<Rightarrow> queue_state \<Rightarrow> bool" for q where
  qw_claim: "claim_jobs q locked now options rows = (Some js, rows') \<Longrightarrow>
     \<forall>h \<in> set H. cj_leaseOwner h \<noteq> co_workerId options \<Longrightarrow> queue_work q (rows, H) (rows', H @ js)"
| qw_complete: "j \<in> set H \<Longrightarrow> queue_work q (rows, H) (snd (complete_job now j rows), drop_handle j H)"
| qw_fail: "j \<in> set H \<Longrightarrow> queue_work q (rows, H) (snd (failRetryable q now j e rows), drop_handle j H)"
| qw_dead: "j \<in> set H \<Longrightarrow> queue_work q (rows, H) (snd (deadLetter now j e rows), drop_handle j H)"
| qw_recover: "queue_work q (rows, H) (snd (recoverStaleLeases now rows), H)"
| qw_heartbeat: "j \<in> set H \<Longrightarrow> queue_work q (rows, H) (snd (heartbeat q now j ext rows), H)"
| qw_crash: "queue_work q (rows, H) (rows, filter P H)"

inductive queue_step :: "job_queue \<Rightarrow> queue_state \<Rightarrow> queue_state \<Rightarrow> bool" for q where
  qs_work: "queue_work q s s' \<Longrightarrow> queue_step q s s'"
| qs_enqueue: "queue_step q (rows, H) (snd (enqueueWith q byteLength uuid now i rows), H)"
| qs_release: "j \<in> set H \<Longrightarrow> queue_step q (rows, H) (snd (release_job now j rows), drop_handle j H)"

section \<open>The invariant\<close>

definition job_row_ok :: "job_row \<Rightarrow> bool" where
  "job_row_ok r \<longleftrightarrow> 0 \<le> jb_attempts r \<and> jb_attempts r \<le> jb_maxAttempts r \<and> 1 \<le> jb_maxAttempts r
     \<and> (jb_status r \<in> {JOB_QUEUED, JOB_FAILED_RETRYABLE} \<longrightarrow> jb_attempts r < jb_maxAttempts r)
     \<and> (jb_status r = JOB_LEASED \<longleftrightarrow> jb_leaseOwner r \<noteq> None \<and> jb_leaseExpiresAt r \<noteq> None)
     \<and> (jb_status r = JOB_LEASED \<longrightarrow> 1 \<le> jb_attempts r)"

definition handle_ok :: "job_row list \<Rightarrow> claimed_job \<Rightarrow> bool" where
  "handle_ok rows j \<longleftrightarrow> (\<forall>r \<in> set rows. holds_lease j r \<longrightarrow>
     cj_attempts j = jb_attempts r \<and> cj_maxAttempts j = jb_maxAttempts r)"

definition queue_wf :: "queue_state \<Rightarrow> bool" where
  "queue_wf s \<longleftrightarrow> distinct (map jb_id (fst s)) \<and> (\<forall>r \<in> set (fst s). job_row_ok r)
     \<and> (\<forall>r \<in> set (fst s). \<forall>x \<in> set (fst s). same_idempotency_key r x \<longrightarrow> jb_id r = jb_id x)
     \<and> (\<forall>j \<in> set (snd s). handle_ok (fst s) j)"

text \<open>A row's identity: what no statement of the queue changes.\<close>

definition same_job :: "job_row \<Rightarrow> job_row \<Rightarrow> bool" where
  "same_job r x \<longleftrightarrow> jb_id x = jb_id r \<and> jb_jobType x = jb_jobType r
     \<and> jb_idempotencyKey x = jb_idempotencyKey r \<and> jb_maxAttempts x = jb_maxAttempts r"

lemma same_job_refl [simp]: "same_job r r"
  by (simp add: same_job_def)

lemma rewritten_wf:
  assumes wf: "queue_wf (rows, H)" and rows': "rows' = map (\<lambda>r. if p r then f r else r) rows" and H: "set H' \<subseteq> set H"
    and f: "\<And>r. r \<in> set rows \<Longrightarrow> p r \<Longrightarrow> same_job r (f r) \<and> job_row_ok (f r)"
    and h: "\<And>r j. r \<in> set rows \<Longrightarrow> p r \<Longrightarrow> j \<in> set H' \<Longrightarrow> holds_lease j (f r) \<Longrightarrow> holds_lease j r \<and> jb_attempts (f r) = jb_attempts r"
  shows "queue_wf (rows', H')"
proof -
  let ?g = "\<lambda>r. if p r then f r else r"
  have g: "same_job r (?g r) \<and> job_row_ok (?g r)" if "r \<in> set rows" for r
    using f [OF that] wf that by (auto simp: queue_wf_def)
  have "map jb_id rows' = map jb_id rows" using g unfolding rows' by (auto simp: same_job_def)
  moreover have "\<forall>r \<in> set rows'. job_row_ok r" using g unfolding rows' set_map by blast
  moreover have "jb_id r = jb_id x" if r: "r \<in> set rows'" and x: "x \<in> set rows'" and "same_idempotency_key r x" for r x
  proof -
    obtain r0 x0 where 0: "r0 \<in> set rows" "r = ?g r0" "x0 \<in> set rows" "x = ?g x0" using r x unfolding rows' by auto
    have "same_job r0 r" "same_job x0 x" using g [OF 0(1)] g [OF 0(3)] 0(2,4) by metis+
    then have "same_idempotency_key r0 x0" "jb_id r = jb_id r0" "jb_id x = jb_id x0"
      using that(3) unfolding same_idempotency_key_def same_job_def by metis+
    then show ?thesis using wf 0(1,3) by (auto simp: queue_wf_def)
  qed
  moreover have "handle_ok rows' j" if j: "j \<in> set H'" for j
    unfolding handle_ok_def
  proof (intro ballI impI)
    fix r assume r: "r \<in> set rows'" and hl: "holds_lease j r"
    obtain r0 where 0: "r0 \<in> set rows" "r = ?g r0" using r unfolding rows' by auto
    have "holds_lease j r0 \<and> jb_attempts r = jb_attempts r0"
      using h [OF 0(1) _ j] hl 0(2) by (cases "p r0") auto
    moreover have "jb_maxAttempts r = jb_maxAttempts r0" using g [OF 0(1)] 0(2) by (simp add: same_job_def)
    ultimately show "cj_attempts j = jb_attempts r \<and> cj_maxAttempts j = jb_maxAttempts r"
      using wf j H 0(1) by (auto simp: queue_wf_def handle_ok_def)
  qed
  ultimately show ?thesis using wf unfolding queue_wf_def by auto
qed

lemma holds_lease_unleased [simp]: "jb_leaseOwner r = None \<Longrightarrow> \<not> holds_lease j r"
  by (simp add: holds_lease_def)

lemma unlease_simps [simp]:
  "jb_id (unlease now r) = jb_id r" "jb_jobType (unlease now r) = jb_jobType r"
  "jb_idempotencyKey (unlease now r) = jb_idempotencyKey r" "jb_attempts (unlease now r) = jb_attempts r"
  "jb_maxAttempts (unlease now r) = jb_maxAttempts r" "jb_leaseOwner (unlease now r) = None"
  "jb_leaseExpiresAt (unlease now r) = None" "jb_status (unlease now r) = jb_status r"
  by (simp_all add: unlease_def)

lemma report_snd [simp]: "snd (report ok (update_many p f rows)) = map (\<lambda>r. if p r then f r else r) rows"
  by (simp add: report_def update_many_def)

lemma held_row:
  assumes "queue_wf (rows, H)" "j \<in> set H" "r \<in> set rows" "holds_lease j r"
  shows "cj_attempts j = jb_attempts r \<and> cj_maxAttempts j = jb_maxAttempts r \<and> job_row_ok r \<and> jb_status r = JOB_LEASED"
  using assms by (auto simp: queue_wf_def handle_ok_def holds_lease_def)

text \<open>An outcome statement that takes the lease away keeps the invariant.\<close>

lemma outcome_wf:
  assumes wf: "queue_wf (rows, H)" and j: "j \<in> set H"
    and f: "\<And>r. r \<in> set rows \<Longrightarrow> holds_lease j r \<Longrightarrow> same_job r (f r) \<and> job_row_ok (f r) \<and> jb_leaseOwner (f r) = None"
  shows "queue_wf (snd (report ok (update_many (holds_lease j) f rows)), drop_handle j H)"
  unfolding report_snd
  by (rule rewritten_wf [OF wf refl]) (use f in \<open>auto simp: drop_handle_def\<close>)

lemma work_wf:
  assumes "queue_work q s s'" "queue_wf s"
  shows "queue_wf s'"
  using assms
proof (cases rule: queue_work.cases)
  case (qw_complete j H rows now)
  have wf: "queue_wf (rows, H)" using assms(2) qw_complete by simp
  show ?thesis unfolding qw_complete complete_job_def
    by (rule outcome_wf [OF wf qw_complete(3)])
      (drule (1) held_row [OF wf qw_complete(3)], auto simp: same_job_def job_row_ok_def)
next
  case (qw_dead j H rows now e)
  have wf: "queue_wf (rows, H)" using assms(2) qw_dead by simp
  show ?thesis unfolding qw_dead deadLetter_def
    by (rule outcome_wf [OF wf qw_dead(3)])
      (drule (1) held_row [OF wf qw_dead(3)], auto simp: same_job_def job_row_ok_def)
next
  case (qw_fail j H rows now e)
  have wf: "queue_wf (rows, H)" using assms(2) qw_fail by simp
  show ?thesis
  proof (cases "cj_maxAttempts j \<le> cj_attempts j")
    case True
    then show ?thesis unfolding qw_fail failRetryable_def deadLetter_def if_P [OF True]
      by - (rule outcome_wf [OF wf qw_fail(3)], drule (1) held_row [OF wf qw_fail(3)], auto simp: same_job_def job_row_ok_def)
  next
    case False
    then show ?thesis unfolding qw_fail failRetryable_def if_not_P [OF False]
      by - (rule outcome_wf [OF wf qw_fail(3)], drule (1) held_row [OF wf qw_fail(3)], auto simp: same_job_def job_row_ok_def)
  qed
next
  case (qw_recover rows H now)
  have wf: "queue_wf (rows, H)" using assms(2) qw_recover by simp
  show ?thesis unfolding qw_recover recoverStaleLeases_def Let_def snd_conv
    by (rule rewritten_wf [OF wf refl subset_refl])
      (use wf in \<open>auto simp: queue_wf_def recover_row_def same_job_def job_row_ok_def\<close>)
next
  case (qw_heartbeat j H rows now ext)
  have wf: "queue_wf (rows, H)" using assms(2) qw_heartbeat by simp
  show ?thesis unfolding qw_heartbeat heartbeat_def report_snd
    by (rule rewritten_wf [OF wf refl subset_refl])
      (use wf in \<open>auto simp: queue_wf_def holds_lease_def same_job_def job_row_ok_def\<close>)
next
  case (qw_crash rows H P)
  then show ?thesis using assms(2) by (auto simp: queue_wf_def)
next
  case (qw_claim locked now options rows js rows' H)
  have wf: "queue_wf (rows, H)" using assms(2) qw_claim by simp
  let ?ids = "map jb_id (claim_picks q locked now options rows)"
  let ?p = "\<lambda>r. jb_id r \<in> set ?ids"
  let ?f = "lease_row q now options"
  have out: "rows' = map (\<lambda>r. if ?p r then ?f r else r) rows" "js = map (toClaimed \<circ> ?f) (filter ?p rows)"
    using qw_claim(3) by (auto simp: claim_jobs_def Let_def split: if_splits)
  have dist: "distinct (map jb_id rows)" using wf by (simp add: queue_wf_def)
  have pick: "claimable now r" if r: "r \<in> set rows" "?p r" for r
  proof -
    obtain x where "x \<in> set (claim_picks q locked now options rows)" and id: "jb_id r = jb_id x" using r(2) by auto
    then have "x \<in> set (find_many (\<lambda>r. claimable now r \<and> \<not> locked (jb_id r)) claim_order rows)"
      unfolding claim_picks_def by (meson in_set_takeD)
    then have x: "x \<in> set rows" "claimable now x" by auto
    then have "r = x" using dist r(1) id by (metis distinct_map inj_onD)
    then show ?thesis using x by simp
  qed
  have ok: "same_job r (?f r) \<and> job_row_ok (?f r)" if "r \<in> set rows" "?p r" for r
    using pick [OF that] wf that(1)
    by (auto simp: queue_wf_def claimable_def lease_row_def same_job_def job_row_ok_def)
  have old: "queue_wf (rows', H)"
  proof (rule rewritten_wf [OF wf out(1) subset_refl ok])
    fix r j assume "r \<in> set rows" "?p r" "j \<in> set H" "holds_lease j (?f r)"
    then show "holds_lease j r \<and> jb_attempts (?f r) = jb_attempts r"
      using qw_claim(4) by (auto simp: holds_lease_def lease_row_def)
  qed
  have "handle_ok rows' j" if "j \<in> set js" for j
  proof -
    obtain r0 where 0: "r0 \<in> set rows" "?p r0" "j = toClaimed (?f r0)" using \<open>j \<in> set js\<close> unfolding out(2) by auto
    have "?f r0 \<in> set rows'" unfolding out(1) using 0 by (auto intro: rev_image_eqI)
    moreover have "distinct (map jb_id rows')" using old by (simp add: queue_wf_def)
    ultimately have "r = ?f r0" if "r \<in> set rows'" "jb_id r = jb_id (?f r0)" for r
      using that by (metis distinct_map inj_onD)
    then show ?thesis using 0(3) by (auto simp: handle_ok_def holds_lease_def toClaimed_def)
  qed
  then show ?thesis using old unfolding qw_claim by (auto simp: queue_wf_def)
qed

lemma appended_wf:
  assumes wf: "queue_wf (rows, H)" and r: "job_row_ok r" "jb_leaseOwner r = None"
    and fresh: "\<forall>x \<in> set rows. \<not> same_idempotency_key r x" "\<forall>x \<in> set rows. jb_id x \<noteq> jb_id r"
  shows "queue_wf (rows @ [r], H)"
proof -
  have sym: "same_idempotency_key x r \<Longrightarrow> same_idempotency_key r x" for x
    by (metis same_idempotency_key_def)
  have "distinct (map jb_id (rows @ [r]))" "\<forall>x \<in> set (rows @ [r]). job_row_ok x"
    using wf r(1) fresh(2) by (auto simp: queue_wf_def)
  moreover have "jb_id x = jb_id y" if "x \<in> set (rows @ [r])" "y \<in> set (rows @ [r])" "same_idempotency_key x y" for x y
  proof -
    have "x \<in> set rows \<and> y \<in> set rows \<or> x = r \<and> y = r" using that fresh(1) sym by fastforce
    then show ?thesis using wf that(3) unfolding queue_wf_def fst_conv by blast
  qed
  moreover have "\<forall>j \<in> set H. handle_ok (rows @ [r]) j"
    using wf r(2) by (auto simp: queue_wf_def handle_ok_def)
  ultimately show ?thesis unfolding queue_wf_def fst_conv snd_conv by blast
qed

lemma insert_job_cases:
  "insert_job r rows = Some (o', rows') \<Longrightarrow>
     rows' = rows \<and> o' = None \<and> list_ex (same_idempotency_key r) rows
   \<or> rows' = rows @ [r] \<and> o' = Some r \<and> 1 \<le> jb_maxAttempts r
     \<and> (\<forall>x \<in> set rows. \<not> same_idempotency_key r x) \<and> (\<forall>x \<in> set rows. jb_id x \<noteq> jb_id r)"
  by (auto simp: insert_job_def list_ex_iff split: if_splits)

lemma enqueue_cases:
  fixes uuid now i defines "r \<equiv> job_of_input uuid now i"
  shows "snd (enqueueWith q byteLength uuid now i rows) = rows
    \<or> snd (enqueueWith q byteLength uuid now i rows) = rows @ [r] \<and> 1 \<le> jb_maxAttempts r
      \<and> (\<forall>x \<in> set rows. \<not> same_idempotency_key r x) \<and> (\<forall>x \<in> set rows. jb_id x \<noteq> jb_id r)"
proof (cases "insert_job r rows")
  case None then show ?thesis by (simp add: enqueueWith_def r_def)
next
  case (Some y)
  obtain o' rows' where y: "y = (o', rows')" by (cases y)
  show ?thesis
    using insert_job_cases [OF Some [unfolded y]] Some y
    by (elim disjE conjE) (simp_all add: enqueueWith_def r_def split: option.split)
qed

lemma step_wf:
  assumes "queue_step q s s'" "queue_wf s"
  shows "queue_wf s'"
  using assms(1)
proof (cases rule: queue_step.cases)
  case qs_work then show ?thesis using work_wf assms(2) by blast
next
  case (qs_release j H rows now)
  have wf: "queue_wf (rows, H)" using assms(2) qs_release by simp
  show ?thesis unfolding qs_release release_job_def
    by (rule outcome_wf [OF wf qs_release(3)])
      (drule (1) held_row [OF wf qs_release(3)], auto simp: same_job_def job_row_ok_def)
next
  case (qs_enqueue rows H byteLength uuid now i)
  have wf: "queue_wf (rows, H)" using assms(2) qs_enqueue by simp
  let ?r = "job_of_input uuid now i"
  consider "snd (enqueueWith q byteLength uuid now i rows) = rows"
    | "snd (enqueueWith q byteLength uuid now i rows) = rows @ [?r]" "1 \<le> jb_maxAttempts ?r"
      "\<forall>x \<in> set rows. \<not> same_idempotency_key ?r x" "\<forall>x \<in> set rows. jb_id x \<noteq> jb_id ?r"
    using enqueue_cases [of q byteLength uuid now i rows] by blast
  then show ?thesis
  proof cases
    case 1 then show ?thesis using wf qs_enqueue by simp
  next
    case 2
    have "job_row_ok ?r" "jb_leaseOwner ?r = None" using 2(2) by (simp_all add: job_row_ok_def job_of_input_def)
    then show ?thesis using appended_wf [OF wf _ _ 2(3,4)] unfolding qs_enqueue 2(1) by simp
  qed
qed

lemma steps_wf: "(queue_step q)\<^sup>*\<^sup>* s s' \<Longrightarrow> queue_wf s \<Longrightarrow> queue_wf s'"
  by (induction rule: rtranclp_induct) (auto intro: step_wf)

lemma empty_wf: "queue_wf ([], H)"
  by (simp add: queue_wf_def handle_ok_def)

lemmas reachable_wf = steps_wf [OF _ empty_wf]

section \<open>The potential of a table\<close>

definition row_potential :: "job_row \<Rightarrow> int" where
  "row_potential r = (case jb_status r of
     JOB_QUEUED \<Rightarrow> 2 * (jb_maxAttempts r - jb_attempts r)
   | JOB_FAILED_RETRYABLE \<Rightarrow> 2 * (jb_maxAttempts r - jb_attempts r)
   | JOB_LEASED \<Rightarrow> 2 * (jb_maxAttempts r - jb_attempts r) + 1
   | JOB_SUCCEEDED \<Rightarrow> 0 | JOB_DEAD \<Rightarrow> 0)"

definition potential :: "job_row list \<Rightarrow> int" where
  "potential rows = sum_list (map row_potential rows)"

definition descends :: "job_row \<Rightarrow> job_row \<Rightarrow> bool" where
  "descends r x \<longleftrightarrow> row_potential x \<le> row_potential r \<and> (jb_status x \<noteq> jb_status r \<longrightarrow> row_potential x < row_potential r)"

lemma descends_refl [simp]: "descends r r"
  by (simp add: descends_def)

lemma potential_descends:
  assumes "list_all2 descends rows rows'"
  shows "potential rows' \<le> potential rows \<and> (map jb_status rows' \<noteq> map jb_status rows \<longrightarrow> potential rows' < potential rows)"
  using assms by (induction rule: list_all2_induct) (auto simp: potential_def descends_def)

lemma potential_nonneg: "\<forall>r \<in> set rows. job_row_ok r \<Longrightarrow> 0 \<le> potential rows"
  by (induction rows) (auto simp: potential_def row_potential_def job_row_ok_def split: job_status.split)

lemma potential_bound: "\<forall>r \<in> set rows. job_row_ok r \<Longrightarrow> potential rows \<le> (\<Sum>r\<leftarrow>rows. 2 * jb_maxAttempts r)"
  by (induction rows) (auto simp: potential_def row_potential_def job_row_ok_def split: job_status.split)

lemma rewritten_descends:
  "(\<And>r. r \<in> set rows \<Longrightarrow> p r \<Longrightarrow> descends r (f r)) \<Longrightarrow> list_all2 descends rows (map (\<lambda>r. if p r then f r else r) rows)"
  by (induction rows) auto

lemma if_cases_descends: "list_all2 R xs ys \<Longrightarrow> list_all2 R xs zs \<Longrightarrow> list_all2 R xs (if b then ys else zs)"
  by simp

definition picked_ids :: "job_queue \<Rightarrow> (string \<Rightarrow> bool) \<Rightarrow> millis \<Rightarrow> claim_options \<Rightarrow> job_row list \<Rightarrow> string set" where
  "picked_ids q locked now options rows = set (map jb_id (claim_picks q locked now options rows))"

lemma claimed_rows:
  fixes q locked now options rows
  defines "ids \<equiv> picked_ids q locked now options rows"
  assumes wf: "queue_wf (rows, H)" and c: "claim_jobs q locked now options rows = (Some js, rows')"
  shows "rows' = map (\<lambda>r. if jb_id r \<in> ids then lease_row q now options r else r) rows"
    and "js = map (toClaimed \<circ> lease_row q now options) (filter (\<lambda>r. jb_id r \<in> ids) rows)"
    and "r \<in> set rows \<Longrightarrow> jb_id r \<in> ids \<longleftrightarrow> r \<in> set (claim_picks q locked now options rows)"
    and "r \<in> set rows \<Longrightarrow> jb_id r \<in> ids \<Longrightarrow> claimable now r \<and> \<not> locked (jb_id r)"
proof -
  let ?P = "claim_picks q locked now options rows"
  show "rows' = map (\<lambda>r. if jb_id r \<in> ids then lease_row q now options r else r) rows"
    "js = map (toClaimed \<circ> lease_row q now options) (filter (\<lambda>r. jb_id r \<in> ids) rows)"
    using c by (auto simp: claim_jobs_def Let_def ids_def picked_ids_def split: if_splits)
  have sub: "set ?P \<subseteq> {r \<in> set rows. claimable now r \<and> \<not> locked (jb_id r)}"
    using set_take_subset by (fastforce simp: claim_picks_def)
  have "inj_on jb_id (set rows)" using wf by (simp add: queue_wf_def distinct_map)
  then show iff: "jb_id r \<in> ids \<longleftrightarrow> r \<in> set ?P" if "r \<in> set rows"
    using that sub by (auto simp: ids_def picked_ids_def dest: inj_onD)
  then show "claimable now r \<and> \<not> locked (jb_id r)" if "r \<in> set rows" "jb_id r \<in> ids"
    using that sub by blast
qed

lemma work_descends:
  assumes "queue_work q s s'" "queue_wf s"
  shows "list_all2 descends (fst s) (fst s')"
  using assms(1)
proof (cases rule: queue_work.cases)
  case (qw_claim locked now options rows js rows' H)
  have wf: "queue_wf (rows, H)" using assms(2) qw_claim by simp
  note c = claimed_rows [OF wf qw_claim(3)]
  show ?thesis unfolding qw_claim fst_conv c(1)
    by (rule rewritten_descends, drule (1) c(4))
      (auto simp: claimable_def lease_row_def descends_def row_potential_def)
next
  case (qw_complete j H rows now)
  have wf: "queue_wf (rows, H)" using assms(2) qw_complete by simp
  show ?thesis unfolding qw_complete complete_job_def fst_conv report_snd
    by (rule rewritten_descends, drule (1) held_row [OF wf qw_complete(3)])
      (auto simp: descends_def row_potential_def job_row_ok_def)
next
  case (qw_dead j H rows now e)
  have wf: "queue_wf (rows, H)" using assms(2) qw_dead by simp
  show ?thesis unfolding qw_dead deadLetter_def fst_conv report_snd
    by (rule rewritten_descends, drule (1) held_row [OF wf qw_dead(3)])
      (auto simp: descends_def row_potential_def job_row_ok_def)
next
  case (qw_fail j H rows now e)
  have wf: "queue_wf (rows, H)" using assms(2) qw_fail by simp
  have "list_all2 descends rows (snd (failRetryable q now j e rows))"
    unfolding failRetryable_def deadLetter_def if_distrib [of snd] report_snd
    by (rule if_cases_descends; rule rewritten_descends, drule (1) held_row [OF wf qw_fail(3)])
      (auto simp: descends_def row_potential_def job_row_ok_def)
  then show ?thesis unfolding qw_fail by simp
next
  case (qw_recover rows H now)
  have wf: "queue_wf (rows, H)" using assms(2) qw_recover by simp
  have "list_all2 descends rows (map (\<lambda>r. if lease_expired now r then recover_row now r else r) rows)"
  proof (rule rewritten_descends)
    fix r assume "r \<in> set rows" "lease_expired now r"
    then show "descends r (recover_row now r)" using wf
      by (auto simp: queue_wf_def lease_expired_def recover_row_def descends_def row_potential_def job_row_ok_def)
  qed
  then show ?thesis unfolding qw_recover recoverStaleLeases_def Let_def by simp
next
  case (qw_heartbeat j H rows now ext)
  show ?thesis unfolding qw_heartbeat heartbeat_def fst_conv report_snd
    by (rule rewritten_descends) (simp add: descends_def row_potential_def split: job_status.split)
next
  case (qw_crash rows H P)
  then show ?thesis by (simp add: list_all2_refl)
qed

inductive effective_run :: "job_queue \<Rightarrow> nat \<Rightarrow> queue_state \<Rightarrow> queue_state \<Rightarrow> bool" for q where
  er_done: "effective_run q 0 s s"
| er_idle: "queue_work q s s' \<Longrightarrow> map jb_status (fst s') = map jb_status (fst s) \<Longrightarrow>
     effective_run q n s' s'' \<Longrightarrow> effective_run q n s s''"
| er_effective: "queue_work q s s' \<Longrightarrow> map jb_status (fst s') \<noteq> map jb_status (fst s) \<Longrightarrow>
     effective_run q n s' s'' \<Longrightarrow> effective_run q (Suc n) s s''"

lemma effective_run_potential:
  "effective_run q n s s' \<Longrightarrow> queue_wf s \<Longrightarrow> int n + potential (fst s') \<le> potential (fst s) \<and> queue_wf s'"
proof (induction rule: effective_run.induct)
  case (er_idle s s' n s'')
  then show ?case using work_wf [OF er_idle(1,5)] potential_descends [OF work_descends [OF er_idle(1,5)]] by auto
next
  case (er_effective s s' n s'')
  then show ?case using work_wf [OF er_effective(1,5)] potential_descends [OF work_descends [OF er_effective(1,5)]] by auto
qed simp

section \<open>The order of a claim\<close>

definition lex_cmp :: "int \<Rightarrow> int \<Rightarrow> int \<Rightarrow> int" where
  "lex_cmp a b k = (if a < b then -1 else if b < a then 1 else k)"

lemma lex_cmp_trans:
  "lex_cmp a b k \<le> 0 \<Longrightarrow> lex_cmp b c k' \<le> 0 \<Longrightarrow> (k \<le> 0 \<Longrightarrow> k' \<le> 0 \<Longrightarrow> k'' \<le> 0) \<Longrightarrow> lex_cmp a c k'' \<le> 0"
  by (auto simp: lex_cmp_def split: if_splits)

lemma lex_cmp_total: "k \<le> 0 \<or> k' \<le> 0 \<Longrightarrow> lex_cmp a b k \<le> 0 \<or> lex_cmp b a k' \<le> 0"
  by (auto simp: lex_cmp_def)

lemma string_cmp_Cons_lex:
  "string_cmp (x # xs) (y # ys) = lex_cmp (int (of_char x)) (int (of_char y)) (string_cmp xs ys)"
  by (simp add: lex_cmp_def)

lemma string_cmp_antisym: "string_cmp b a = - string_cmp a b"
  by (induction a b rule: string_cmp.induct) auto

lemma string_cmp_trans: "string_cmp a b \<le> 0 \<Longrightarrow> string_cmp b c \<le> 0 \<Longrightarrow> string_cmp a c \<le> 0"
proof (induction a arbitrary: b c)
  case Nil then show ?case by (cases c) simp_all
next
  case (Cons x xs)
  obtain y ys where b: "b = y # ys" using Cons.prems(1) by (cases b) auto
  obtain z zs where c: "c = z # zs" using Cons.prems(2) b by (cases c) auto
  show ?case using Cons.prems Cons.IH [of ys zs] unfolding b c string_cmp_Cons_lex
    by (elim lex_cmp_trans [of _ _ "string_cmp xs ys" _ "string_cmp ys zs"]) simp
qed

lemma claim_order_lex:
  "claim_order a b = lex_cmp (- jb_priority a) (- jb_priority b) (lex_cmp (jb_availableAt a) (jb_availableAt b)
     (lex_cmp (jb_createdAt a) (jb_createdAt b) (string_cmp (jb_id a) (jb_id b))))"
  by (simp add: claim_order_def lex_cmp_def)

interpretation claiming: comparator claim_order
proof
  show "claim_order x y \<le> 0 \<or> claim_order y x \<le> 0" for x y
    unfolding claim_order_lex by (intro lex_cmp_total) (simp add: string_cmp_antisym [of "jb_id y" "jb_id x"] linear)
  show "claim_order x y \<le> 0 \<Longrightarrow> claim_order y z \<le> 0 \<Longrightarrow> claim_order x z \<le> 0" for x y z
    unfolding claim_order_lex by (erule (1) lex_cmp_trans)+ (rule string_cmp_trans)
qed

section \<open>Stale handles and jobs that stay\<close>

definition holds_none :: "claimed_job \<Rightarrow> job_row list \<Rightarrow> bool" where
  "holds_none j rows \<longleftrightarrow> (\<forall>r \<in> set rows. \<not> holds_lease j r)"

lemma holds_none_report:
  "holds_none j rows \<Longrightarrow> report ok (update_many (holds_lease j) f rows) = (LOST_LEASE, rows)"
  by (auto simp: holds_none_def report_def update_many_def filter_empty_conv map_idI)

lemma holds_none_map:
  "holds_none j rows \<Longrightarrow> (\<And>r. r \<in> set rows \<Longrightarrow> p r \<Longrightarrow> \<not> holds_lease j (f r)) \<Longrightarrow>
     holds_none j (map (\<lambda>r. if p r then f r else r) rows)"
  by (auto simp: holds_none_def)

lemma holds_none_outcome:
  assumes "holds_none j rows" "\<And>r. holds_lease h r \<Longrightarrow> holds_lease j (f r) \<Longrightarrow> holds_lease j r"
  shows "holds_none j (snd (report ok (update_many (holds_lease h) f rows)))"
  unfolding report_snd by (rule holds_none_map [OF assms(1)]) (use assms in \<open>auto simp: holds_none_def\<close>)

lemma stale_stays_stale:
  assumes "queue_step q s s'" "j \<in> set (snd s)" "holds_none j (fst s)"
  shows "holds_none j (fst s')"
  using assms(1)
proof (cases rule: queue_step.cases)
  case (qs_enqueue rows H byteLength uuid now i)
  then show ?thesis
    using enqueue_cases [of q byteLength uuid now i rows] assms(3)
    by (auto simp: holds_none_def job_of_input_def)
next
  case (qs_release h H rows now)
  then show ?thesis using assms(3) unfolding release_job_def
    by (simp only: fst_conv) (rule holds_none_outcome, assumption, simp)
next
  case qs_work
  then show ?thesis
  proof (cases rule: queue_work.cases)
    case (qw_claim locked now options rows js rows' H)
    have ne: "cj_leaseOwner j \<noteq> co_workerId options" using qw_claim assms(2) by simp
    have "rows' = map (\<lambda>r. if jb_id r \<in> picked_ids q locked now options rows then lease_row q now options r else r) rows"
      using qw_claim(3) by (auto simp: claim_jobs_def Let_def picked_ids_def split: if_splits)
    moreover have "\<not> holds_lease j (lease_row q now options r)" for r
      using ne by (auto simp: holds_lease_def lease_row_def)
    ultimately show ?thesis using assms(3) unfolding qw_claim fst_conv by (simp only: holds_none_map not_False_eq_True)
  next
    case (qw_fail h H rows now e)
    then show ?thesis using assms(3)
      by (auto simp: failRetryable_def deadLetter_def simp del: report_snd intro!: holds_none_outcome)
  next
    case (qw_heartbeat h H rows now ext)
    then show ?thesis using assms(3)
      by (auto simp: heartbeat_def simp del: report_snd intro!: holds_none_outcome) (auto simp: holds_lease_def)
  next
    case (qw_recover rows H now)
    then show ?thesis using assms(3)
      by (auto simp: recoverStaleLeases_def Let_def recover_row_def holds_none_def)
  qed (use assms(3) in \<open>auto simp: complete_job_def deadLetter_def simp del: report_snd intro!: holds_none_outcome\<close>)
qed

text \<open>Rows are never deleted and keep what identifies them.\<close>

definition persists :: "job_row list \<Rightarrow> job_row list \<Rightarrow> bool" where
  "persists rows rows' \<longleftrightarrow> (\<forall>r \<in> set rows. \<exists>x \<in> set rows'. same_job r x)"

lemma persists_map: "(\<And>r. r \<in> set rows \<Longrightarrow> same_job r (g r)) \<Longrightarrow> persists rows (map g rows)"
  by (auto simp: persists_def)

lemma persists_trans: "persists a b \<Longrightarrow> persists b c \<Longrightarrow> persists a c"
  unfolding persists_def same_job_def by metis

lemma persists_outcome:
  "(\<And>r. same_job r (f r)) \<Longrightarrow> persists rows (snd (report ok (update_many p f rows)))"
  unfolding report_snd by (rule persists_map) simp

lemma persists_refl [simp]: "persists rows rows"
  by (auto simp: persists_def intro: same_job_refl)

lemma step_persists:
  assumes "queue_step q s s'" shows "persists (fst s) (fst s')"
  using assms
proof (cases rule: queue_step.cases)
  case (qs_enqueue rows H byteLength uuid now i)
  then show ?thesis
    using enqueue_cases [of q byteLength uuid now i rows] by (auto simp: persists_def intro: same_job_refl)
next
  case (qs_release h H rows now)
  then show ?thesis by (auto simp: release_job_def same_job_def simp del: report_snd intro!: persists_outcome)
next
  case qs_work
  then show ?thesis
  proof (cases rule: queue_work.cases)
    case (qw_claim locked now options rows js rows' H)
    then have "rows' = map (\<lambda>r. if jb_id r \<in> picked_ids q locked now options rows then lease_row q now options r else r) rows"
      by (auto simp: claim_jobs_def Let_def picked_ids_def split: if_splits)
    then show ?thesis unfolding qw_claim by (auto simp: lease_row_def same_job_def intro!: persists_map)
  next
    case (qw_recover rows H now)
    then show ?thesis by (auto simp: recoverStaleLeases_def Let_def recover_row_def same_job_def intro!: persists_map)
  qed (auto simp: complete_job_def deadLetter_def failRetryable_def heartbeat_def same_job_def simp del: report_snd intro!: persists_outcome)
qed

lemma steps_persist: "(queue_step q)\<^sup>*\<^sup>* s s' \<Longrightarrow> persists (fst s) (fst s')"
  by (induction rule: rtranclp_induct) (auto intro: persists_trans step_persists)

end
