(* ===== verification/Job_Properties.thy ===== *)
theory Job_Properties
  imports Job_Laws
begin

text \<open>
  The properties of the job queue and the poller, over the steps and the invariant of \<open>Job_Laws\<close>.
\<close>

section \<open>Samples\<close>

definition sample_queue :: job_queue where
  "sample_queue = new_queue \<lparr>qo_maxPayloadBytes = None, qo_maxClaimBatch = None, qo_backoffBaseMs = None,
     qo_backoffCapMs = None, qo_defaultLeaseTtlMs = None\<rparr>"

definition sample_input :: enqueue_job_input where
  "sample_input = \<lparr>ei_jobType = ''echo'', ei_payload = ''{}'', ei_classification = None, ei_idempotencyKey = Some ''k'',
     ei_priority = None, ei_delayMs = None, ei_maxAttempts = Some 1, ei_correlationId = None, ei_causationId = None\<rparr>"

definition sample_claim :: claim_options where
  "sample_claim = \<lparr>co_workerId = ''w'', co_batchSize = None, co_leaseTtlMs = None\<rparr>"

definition queued_rows :: "job_row list" where
  "queued_rows = [job_of_input ''j1'' 10 sample_input]"

definition leased_rows :: "job_row list" where
  "leased_rows = [lease_row sample_queue 20 sample_claim (job_of_input ''j1'' 10 sample_input)]"

lemma queued_reachable: "(queue_step sample_queue)\<^sup>*\<^sup>* ([], []) (queued_rows, [])"
proof -
  have "snd (enqueueWith sample_queue (\<lambda>t. int (length t)) ''j1'' 10 sample_input []) = queued_rows"
    by code_simp
  then show ?thesis using qs_enqueue [of sample_queue "[]" "[]"] by (metis r_into_rtranclp)
qed

lemma leased_claim:
  "claim_jobs sample_queue (\<lambda>i. False) 20 sample_claim queued_rows = (Some (map toClaimed leased_rows), leased_rows)"
  by code_simp

lemma leased_step: "queue_step sample_queue (queued_rows, []) (leased_rows, map toClaimed leased_rows)"
  using qs_work [OF qw_claim [OF leased_claim, of "[]"]] by simp

lemma leased_reachable: "(queue_step sample_queue)\<^sup>*\<^sup>* ([], []) (leased_rows, map toClaimed leased_rows)"
  using queued_reachable leased_step by (rule rtranclp.rtrancl_into_rtrancl)

lemma sorted_take_drop:
  "sorted_wrt R xs \<Longrightarrow> r \<in> set (take n xs) \<Longrightarrow> x \<in> set (drop n xs) \<Longrightarrow> R r x"
  using sorted_wrt_append [of R "take n xs" "drop n xs"] by simp

section \<open>Properties of the queue\<close>

text \<open>
  C32: The retry budget holds.  In every reachable state no row counts more attempts than its maximum, a claimable row
  has an attempt left, exactly the leased rows carry an owner and an expiry; and a claim hands out only
  rows that were claimable, each counted as an attempt between one and its maximum.
\<close>

theorem attempts_stay_within_budget:
  assumes "(queue_step q)\<^sup>*\<^sup>* ([], []) (rows, H)"
  shows "(\<forall>r \<in> set rows. 0 \<le> jb_attempts r \<and> jb_attempts r \<le> jb_maxAttempts r
        \<and> (jb_status r \<in> {JOB_QUEUED, JOB_FAILED_RETRYABLE} \<longrightarrow> jb_attempts r < jb_maxAttempts r)
        \<and> (jb_status r = JOB_LEASED \<longleftrightarrow> jb_leaseOwner r \<noteq> None \<and> jb_leaseExpiresAt r \<noteq> None))
    \<and> (\<forall>js. fst (claim_jobs q locked now options rows) = Some js \<longrightarrow> (\<forall>j \<in> set js.
          1 \<le> cj_attempts j \<and> cj_attempts j \<le> cj_maxAttempts j \<and> (\<exists>r \<in> set rows. jb_id r = cj_id j \<and> claimable now r)))"
proof -
  have wf: "queue_wf (rows, H)" by (rule reachable_wf [OF assms])
  then have ok: "\<forall>r \<in> set rows. job_row_ok r" by (simp add: queue_wf_def)
  have "1 \<le> cj_attempts j \<and> cj_attempts j \<le> cj_maxAttempts j \<and> (\<exists>r \<in> set rows. jb_id r = cj_id j \<and> claimable now r)"
    if c: "fst (claim_jobs q locked now options rows) = Some js" and j: "j \<in> set js" for js j
  proof -
    obtain rows' where c: "claim_jobs q locked now options rows = (Some js, rows')" using c by (metis prod.collapse)
    obtain r where r: "r \<in> set rows" "jb_id r \<in> picked_ids q locked now options rows" "j = toClaimed (lease_row q now options r)"
      using j unfolding claimed_rows(2) [OF wf c] by auto
    have "claimable now r" "job_row_ok r" using claimed_rows(4) [OF wf c r(1,2)] ok r(1) by simp_all
    moreover have "cj_attempts j = jb_attempts r + 1" "cj_maxAttempts j = jb_maxAttempts r" "cj_id j = jb_id r"
      unfolding r(3) by (simp_all add: toClaimed_def lease_row_def)
    ultimately show ?thesis using r(1) by (auto simp: job_row_ok_def claimable_def)
  qed
  then show ?thesis using ok unfolding job_row_ok_def by blast
qed

theorem attempts_stay_within_budget_witness:
  "map jb_attempts leased_rows = [1] \<and> jb_attempts (hd leased_rows) \<le> jb_maxAttempts (hd leased_rows)"
proof -
  have "map jb_attempts leased_rows = [1]" by code_simp
  moreover have "hd leased_rows \<in> set leased_rows" by (simp add: leased_rows_def)
  ultimately show ?thesis using attempts_stay_within_budget [OF leased_reachable] by blast
qed

text \<open>
  C38: The queue drains.  Without new work and without releases, workers claiming, reporting, crashing, beating and recovering leases in any order
  change the statuses at most \<open>2 * max_attempts\<close> times per row: from a reachable table no run
  has more effective steps than that.
\<close>

theorem queue_drains:
  assumes "(queue_step q)\<^sup>*\<^sup>* ([], []) (rows, H)" "effective_run q n (rows, H) s'"
  shows "int n \<le> (\<Sum>r\<leftarrow>rows. 2 * jb_maxAttempts r)"
proof -
  have wf: "queue_wf (rows, H)" by (rule reachable_wf [OF assms(1)])
  have "int n + potential (fst s') \<le> potential rows" "queue_wf s'"
    using effective_run_potential [OF assms(2) wf] by auto
  then show ?thesis
    using potential_nonneg [of "fst s'"] potential_bound [of rows] wf by (auto simp: queue_wf_def)
qed

theorem queue_drains_witness:
  "effective_run sample_queue 1 (queued_rows, []) (leased_rows, map toClaimed leased_rows)
    \<and> int 1 \<le> (\<Sum>r\<leftarrow>queued_rows. 2 * jb_maxAttempts r)"
proof -
  have "queue_work sample_queue (queued_rows, []) (leased_rows, map toClaimed leased_rows)"
    using qw_claim [OF leased_claim, of "[]"] by simp
  moreover have "map jb_status leased_rows \<noteq> map jb_status queued_rows" by code_simp
  ultimately have "effective_run sample_queue (Suc 0) (queued_rows, []) (leased_rows, map toClaimed leased_rows)"
    by (intro er_effective [OF _ _ er_done]) auto
  then show ?thesis using queue_drains [OF queued_reachable, of 1] by simp
qed

text \<open>
  A claim takes the best.  It takes as many of the claimable, unlocked rows as there are, up to the batch; every row it leaves comes
  no earlier in the order of priority, availability, creation and id than every row it takes; and
  only the rows it takes change.
\<close>

theorem claim_takes_the_best:
  assumes "(queue_step q)\<^sup>*\<^sup>* ([], []) (rows, H)" "claim_jobs q locked now options rows = (Some js, rows')"
  shows "length js = min (nat (claim_batch q options)) (length (filter (\<lambda>r. claimable now r \<and> \<not> locked (jb_id r)) rows))
    \<and> (\<forall>r \<in> set rows. \<forall>x \<in> set rows. claimable now x \<and> \<not> locked (jb_id x) \<and> jb_id x \<notin> set (map cj_id js)
         \<and> jb_id r \<in> set (map cj_id js) \<longrightarrow> claim_order r x \<le> 0)
    \<and> rows' = map (\<lambda>r. if jb_id r \<in> set (map cj_id js) then lease_row q now options r else r) rows"
proof -
  have wf: "queue_wf (rows, H)" by (rule reachable_wf [OF assms(1)])
  note c = claimed_rows [OF wf assms(2)]
  let ?P = "claim_picks q locked now options rows"
  let ?all = "find_many (\<lambda>r. claimable now r \<and> \<not> locked (jb_id r)) claim_order rows"
  have dist: "distinct rows" using wf by (auto simp: queue_wf_def distinct_map)
  have "distinct ?all"
    using dist by (metis distinct_filter find_many_def mset_eq_imp_distinct_iff mset_js_sort)
  then have dP: "distinct ?P" by (simp add: claim_picks_def)
  have subP: "set ?P \<subseteq> set rows" using set_take_subset by (fastforce simp: claim_picks_def)
  have ids: "set (map cj_id js) \<inter> jb_id ` set rows = picked_ids q locked now options rows \<inter> jb_id ` set rows"
    unfolding c(2) by (auto simp: toClaimed_def lease_row_def)
  have mem: "jb_id r \<in> set (map cj_id js) \<longleftrightarrow> r \<in> set ?P" if "r \<in> set rows" for r
    using ids c(3) [OF that] that by blast
  have "length js = length (filter (\<lambda>r. r \<in> set ?P) rows)"
    unfolding c(2) length_map by (rule arg_cong [where f = length], rule filter_cong [OF refl c(3)])
  also have "\<dots> = card (set (filter (\<lambda>r. r \<in> set ?P) rows))"
    by (rule distinct_card [symmetric]) (simp add: dist)
  also have "set (filter (\<lambda>r. r \<in> set ?P) rows) = set ?P" using subP by auto
  finally have "length js = length ?P" using dP by (simp add: distinct_card)
  then have len: "length js = min (nat (claim_batch q options)) (length (filter (\<lambda>r. claimable now r \<and> \<not> locked (jb_id r)) rows))"
    by (simp add: claim_picks_def find_many_def)
  have best: "claim_order r x \<le> 0" if "r \<in> set rows" "x \<in> set rows" "claimable now x" "\<not> locked (jb_id x)"
    "jb_id x \<notin> set (map cj_id js)" "jb_id r \<in> set (map cj_id js)" for r x
  proof -
    have "r \<in> set ?P" "x \<in> set ?all" "x \<notin> set ?P" using mem that by auto
    then have "x \<in> set (drop (nat (claim_batch q options)) ?all)"
      unfolding claim_picks_def by (metis Un_iff append_take_drop_id set_append)
    moreover have "sorted_wrt (\<lambda>a b. claim_order a b \<le> 0) ?all"
      unfolding find_many_def by (rule claiming.sorted_js_sort)
    ultimately show ?thesis
      using \<open>r \<in> set ?P\<close> sorted_take_drop [where R = "\<lambda>a b. claim_order a b \<le> 0"]
      unfolding claim_picks_def by blast
  qed
  have "rows' = map (\<lambda>r. if jb_id r \<in> set (map cj_id js) then lease_row q now options r else r) rows"
    unfolding c(1) using mem c(3) by (intro map_cong) auto
  then show ?thesis using len best by blast
qed

theorem claim_takes_the_best_witness:
  "length (map toClaimed leased_rows) = 1 \<and> length (filter (claimable 20) queued_rows) = 1"
proof -
  have "nat (claim_batch sample_queue sample_claim) = 25" by code_simp
  moreover have "length (filter (claimable 20) queued_rows) = 1" by code_simp
  ultimately show ?thesis
    using claim_takes_the_best [OF queued_reachable leased_claim] by simp
qed

text \<open>
  Enqueueing is idempotent.  Once a job was enqueued (or found) under a key, then after any run of steps, enqueueing
  the same type and key again returns that job, creates nothing, and leaves the table as it is, if
  the second input is acceptable at all.
\<close>

theorem enqueue_is_idempotent:
  assumes "(queue_step q)\<^sup>*\<^sup>* ([], []) (rows, H)"
    and first: "enqueueWith q byteLength uuid now i rows = (Inr (r, created), rows1)" "ei_idempotencyKey i = Some k"
    and later: "(queue_step q)\<^sup>*\<^sup>* (rows1, H) (rows2, H2)"
    and again: "ei_jobType i2 = ei_jobType i" "ei_idempotencyKey i2 = Some k"
      "byteLength (ei_payload i2) \<le> q_maxPayloadBytes q"
      "or_default (ei_classification i2) ''INTERNAL'' \<in> set job_classifications" "1 \<le> or_default (ei_maxAttempts i2) 5"
  shows "\<exists>r2. enqueueWith q byteLength uuid2 now2 i2 rows2 = (Inr (r2, False), rows2) \<and> jr_id r2 = jr_id r"
proof -
  have nb: "\<not> blank (ei_jobType i)" using first(1) by (auto simp: enqueueWith_def split: if_splits)
  have "queue_step q (rows, H) (rows1, H)" using qs_enqueue [of q rows H byteLength uuid now i] first(1) by simp
  then have reach: "(queue_step q)\<^sup>*\<^sup>* ([], []) (rows2, H2)" using assms(1) later by (meson converse_rtranclp_into_rtranclp rtranclp_trans)
  then have wf: "queue_wf (rows2, H2)" by (rule reachable_wf)
  have "\<exists>x \<in> set rows1. jb_id x = jr_id r \<and> jb_jobType x = ei_jobType i \<and> jb_idempotencyKey x = Some k"
  proof (cases "insert_job (job_of_input uuid now i) rows")
    case None then show ?thesis using first(1) by (auto simp: enqueueWith_def split: if_splits)
  next
    case (Some y)
    obtain o' rows' where y: "y = (o', rows')" by (cases y)
    from insert_job_cases [OF Some [unfolded y]] show ?thesis
    proof (elim disjE conjE)
      assume "rows' = rows" "o' = None"
      then have "find_first (\<lambda>x. jb_jobType x = ei_jobType i \<and> jb_idempotencyKey x = Some k) stored_order rows1 \<noteq> None"
        "\<And>x. find_first (\<lambda>x. jb_jobType x = ei_jobType i \<and> jb_idempotencyKey x = Some k) stored_order rows1 = Some x \<Longrightarrow> r = toJobRecord x"
        using first Some y nb by (auto simp: enqueueWith_def split: if_splits option.splits)
      then obtain x where x: "find_first (\<lambda>x. jb_jobType x = ei_jobType i \<and> jb_idempotencyKey x = Some k) stored_order rows1 = Some x" "r = toJobRecord x"
        by blast
      show ?thesis using find_first_Some [OF x(1)] x(2) by (intro bexI [of _ x]) (simp_all add: toJobRecord_def)
    next
      assume "rows' = rows @ [job_of_input uuid now i]" "o' = Some (job_of_input uuid now i)"
      then show ?thesis using first Some y nb
        by (auto simp: enqueueWith_def toJobRecord_def job_of_input_def split: if_splits)
    qed
  qed
  then obtain x0 where "x0 \<in> set rows1" "jb_id x0 = jr_id r" "jb_jobType x0 = ei_jobType i" "jb_idempotencyKey x0 = Some k"
    by blast
  then obtain x where x: "x \<in> set rows2" "jb_id x = jr_id r" "jb_jobType x = ei_jobType i" "jb_idempotencyKey x = Some k"
    using steps_persist [OF later] unfolding persists_def same_job_def fst_conv by metis
  have only: "jb_id z = jb_id x" if "z \<in> set rows2" "jb_jobType z = ei_jobType i" "jb_idempotencyKey z = Some k" for z
  proof -
    have "same_idempotency_key z x" using that x by (simp add: same_idempotency_key_def)
    then show ?thesis using wf that(1) x(1) unfolding queue_wf_def fst_conv by blast
  qed
  let ?q = "\<lambda>z. jb_jobType z = ei_jobType i2 \<and> ei_idempotencyKey i2 \<noteq> None \<and> jb_idempotencyKey z = ei_idempotencyKey i2"
  obtain z where z: "find_first ?q stored_order rows2 = Some z"
    using x again(1,2) by (cases "find_first ?q stored_order rows2") (auto simp: find_first_None)
  have "jb_id z = jb_id x" using find_first_Some [OF z] again(1,2) by (intro only) auto
  moreover have "insert_job (job_of_input uuid2 now2 i2) rows2 = Some (None, rows2)"
  proof -
    have "list_ex (same_idempotency_key (job_of_input uuid2 now2 i2)) rows2"
      unfolding list_ex_iff by (rule bexI [OF _ x(1)]) (simp add: x again same_idempotency_key_def job_of_input_def)
    then show ?thesis using again by (simp add: insert_job_def job_of_input_def)
  qed
  ultimately show ?thesis using nb again(1,3) z x(2) by (auto simp: enqueueWith_def toJobRecord_def)
qed

theorem enqueue_is_idempotent_witness:
  "\<exists>r2. enqueueWith sample_queue (\<lambda>t. int (length t)) ''j2'' 30 sample_input leased_rows = (Inr (r2, False), leased_rows)
     \<and> jr_id r2 = ''j1''"
proof -
  have e: "enqueueWith sample_queue (\<lambda>t. int (length t)) ''j1'' 10 sample_input []
      = (Inr (toJobRecord (hd queued_rows), True), queued_rows)" by code_simp
  have k: "ei_idempotencyKey sample_input = Some ''k''" by (simp add: sample_input_def)
  have leased_run: "(queue_step sample_queue)\<^sup>*\<^sup>* (queued_rows, []) (leased_rows, map toClaimed leased_rows)"
    using leased_step by (rule r_into_rtranclp)
  have "int (length (ei_payload sample_input)) \<le> q_maxPayloadBytes sample_queue"
    "or_default (ei_classification sample_input) ''INTERNAL'' \<in> set job_classifications"
    "1 \<le> or_default (ei_maxAttempts sample_input) 5" "jr_id (toJobRecord (hd queued_rows)) = ''j1''" by code_simp+
  then show ?thesis
    using enqueue_is_idempotent [OF rtranclp.rtrancl_refl e k leased_run refl k, where ?uuid2.0 = "''j2''" and ?now2.0 = 30]
    by simp
qed

text \<open>
  A lost lease is lost for good.  Once no row carries a worker's lease any more, then as long as the worker keeps its
  handle, whatever the other workers do, each of its outcomes, beats and releases answers LOST_LEASE and leaves the table
  as it is.
\<close>

theorem lost_lease_is_inert:
  assumes lost: "\<forall>r \<in> set rows. \<not> holds_lease j r" "j \<in> set H"
    and run: "(\<lambda>s s'. queue_step q s s' \<and> j \<in> set (snd s'))\<^sup>*\<^sup>* (rows, H) (rows', H')"
  shows "complete_job now j rows' = (LOST_LEASE, rows') \<and> failRetryable q now j e rows' = (LOST_LEASE, rows')
    \<and> deadLetter now j e rows' = (LOST_LEASE, rows') \<and> heartbeat q now j ext rows' = (LOST_LEASE, rows')
    \<and> release_job now j rows' = (LOST_LEASE, rows')"
proof -
  have "holds_none j (fst s') \<and> j \<in> set (snd s')"
    if "(\<lambda>s s'. queue_step q s s' \<and> j \<in> set (snd s'))\<^sup>*\<^sup>* (rows, H) s'" for s'
    using that by (induction rule: rtranclp_induct) (use lost stale_stays_stale in \<open>auto simp: holds_none_def\<close>)
  from this [OF run] have "holds_none j rows'" by simp
  then show ?thesis
    by (simp add: complete_job_def failRetryable_def deadLetter_def heartbeat_def release_job_def holds_none_report)
qed

theorem lost_lease_is_inert_witness:
  "complete_job 99999 (toClaimed (hd leased_rows)) (snd (recoverStaleLeases 99998 leased_rows))
    = (LOST_LEASE, snd (recoverStaleLeases 99998 leased_rows))"
proof -
  have "\<forall>r \<in> set (snd (recoverStaleLeases 99998 leased_rows)). \<not> holds_lease (toClaimed (hd leased_rows)) r"
    by code_simp
  then show ?thesis
    using lost_lease_is_inert [where H = "[toClaimed (hd leased_rows)]", OF _ _ rtranclp.rtrancl_refl] by simp
qed

section \<open>Properties of the poller\<close>

definition leased_to :: "string \<Rightarrow> jobs_world \<Rightarrow> string set" where
  "leased_to worker w = {jb_id r | r. r \<in> set (jw_rows w) \<and> jb_status r = JOB_LEASED \<and> jb_leaseOwner r = Some worker}"

definition keeps_leases :: "string \<Rightarrow> 'a jobs_effect \<Rightarrow> bool" where
  "keeps_leases worker m \<longleftrightarrow> (\<forall>w. leased_to worker (snd (m w)) \<subseteq> leased_to worker w)"

definition unleases :: "claimed_job \<Rightarrow> (millis \<Rightarrow> job_row list \<Rightarrow> job_outcome \<times> job_row list) \<Rightarrow> bool" where
  "unleases j g \<longleftrightarrow> (\<forall>now rows. \<forall>r \<in> set (snd (g now rows)).
     jb_leaseOwner r = None \<or> r \<in> set rows \<and> \<not> holds_lease j r)"

lemma outcomes_unlease:
  "unleases j (\<lambda>now. complete_job now j)" "unleases j (\<lambda>now. failRetryable q now j e)" "unleases j (\<lambda>now. release_job now j)"
  by (auto simp: unleases_def complete_job_def failRetryable_def deadLetter_def release_job_def)

lemma query_outcome:
  assumes "job_query p call g w = (Inr out, w')" "unleases j g" "cj_leaseOwner j = worker"
  shows "leased_to worker w' \<subseteq> leased_to worker w - {cj_id j}"
proof -
  have "jw_rows w' = snd (g (jw_now w) (jw_rows w))"
    using assms(1) by (auto simp: job_query_def split: if_splits prod.splits)
  then have "\<forall>r \<in> set (jw_rows w'). jb_leaseOwner r = None \<or> r \<in> set (jw_rows w) \<and> \<not> holds_lease j r"
    using assms(2) by (simp add: unleases_def)
  then show ?thesis using assms(3) by (fastforce simp: leased_to_def holds_lease_def)
qed

lemma executeOne_leases:
  assumes "executeOne p j w = (Inr out, w')" "cj_leaseOwner j = worker"
    and h: "\<forall>h. resolve_handler (pl_registry p) (cj_jobType j) = Some h \<longrightarrow> keeps_leases worker (updateE (h j) :: thrown option jobs_effect)"
  shows "leased_to worker w' \<subseteq> leased_to worker w - {cj_id j}"
proof (cases "resolve_handler (pl_registry p) (cj_jobType j)")
  case None
  then show ?thesis using assms(1,2) query_outcome [OF _ outcomes_unlease(2)] by (simp add: executeOne_def)
next
  case (Some hd)
  obtain threw w1 where run: "hd j w = (threw, w1)" by (cases "hd j w")
  have "keeps_leases worker (updateE (hd j) :: thrown option jobs_effect)" using h Some by blast
  then have k: "leased_to worker w1 \<subseteq> leased_to worker w" using run by (force simp: keeps_leases_def)
  show ?thesis
  proof (cases threw)
    case (Some e)
    have "job_query p QUERY_OUTCOME (\<lambda>now. failRetryable (pl_queue p) now j e) w1 = (Inr out, w')"
      using assms(1) run Some \<open>resolve_handler _ _ = Some hd\<close> by (simp add: executeOne_def thenE_def)
    then show ?thesis using query_outcome [OF _ outcomes_unlease(2) assms(2)] k by blast
  next
    case None
    have "job_query p QUERY_OUTCOME (\<lambda>now. complete_job now j) w1 = (Inr out, w')"
      using assms(1) run None Some by (simp add: executeOne_def thenE_def)
    then have "leased_to worker w' \<subseteq> leased_to worker w1 - {cj_id j}"
      by (rule query_outcome [OF _ outcomes_unlease(1) assms(2)])
    then show ?thesis using k by blast
  qed
qed

definition settled :: "run_report \<Rightarrow> nat" where
  "settled r = rn_completed r + rn_retried r + rn_deadLettered r + rn_released r"

lemma tally_settled: "settled (tally out r) \<le> Suc (settled r)" "rn_claimed (tally out r) = rn_claimed r"
  by (cases out; simp add: tally_def settled_def)+

lemma run_batch_leases:
  assumes "run_batch p js r w = (Inr r', w')" "\<forall>j \<in> set js. cj_leaseOwner j = worker"
    and h: "\<forall>t h. resolve_handler (pl_registry p) t = Some h \<longrightarrow> (\<forall>j. keeps_leases worker (updateE (h j) :: thrown option jobs_effect))"
  shows "leased_to worker w' \<subseteq> leased_to worker w - set (map cj_id js) \<and> settled r' \<le> settled r + length js
    \<and> rn_claimed r' = rn_claimed r"
  using assms(1,2)
proof (induction js arbitrary: r w)
  case Nil then show ?case by simp
next
  case (Cons j js)
  from Cons.prems(1) obtain out w1 where
    s: "(if jw_stopping w then job_query p QUERY_OUTCOME (\<lambda>now. release_job now j) else executeOne p j) w = (Inr out, w1)"
    and rest: "run_batch p js (tally out r) w1 = (Inr r', w')"
    by (auto simp: thenE_Inr)
  have j: "cj_leaseOwner j = worker" using Cons.prems(2) by simp
  have "leased_to worker w1 \<subseteq> leased_to worker w - {cj_id j}"
  proof (cases "jw_stopping w")
    case True
    then show ?thesis using s by (intro query_outcome [OF _ outcomes_unlease(3) j]) simp
  next
    case False
    then show ?thesis using s h by (intro executeOne_leases [OF _ j]) auto
  qed
  then show ?case using Cons.IH [OF rest] Cons.prems(2) tally_settled [of out r] by auto
qed

lemma poll_claim_leases:
  assumes "poll_claim p w = (Inr js, w')"
  shows "leased_to (pl_workerId p) w' \<subseteq> leased_to (pl_workerId p) w \<union> set (map cj_id js)
    \<and> (\<forall>j \<in> set js. cj_leaseOwner j = pl_workerId p)"
proof -
  let ?o = "\<lparr>co_workerId = pl_workerId p, co_batchSize = Some (pl_batchSize p), co_leaseTtlMs = pl_leaseTtlMs p\<rparr>"
  let ?f = "lease_row (pl_queue p) (jw_now w) ?o"
  define P where "P = (\<lambda>r :: job_row. jb_id r \<in> set (map jb_id (claim_picks (pl_queue p) (pl_locked p) (jw_now w) ?o (jw_rows w))))"
  have P: "jw_rows w' = map (\<lambda>r. if P r then ?f r else r) (jw_rows w)" "js = map (toClaimed \<circ> ?f) (filter P (jw_rows w))"
    using assms by (auto simp: P_def poll_claim_def thenE_Inr job_query_def claim_jobs_def Let_def split: if_splits option.splits)
  have "jb_id r \<in> leased_to (pl_workerId p) w \<union> set (map cj_id js)"
    if "r \<in> set (jw_rows w')" "jb_status r = JOB_LEASED" "jb_leaseOwner r = Some (pl_workerId p)" for r
  proof -
    obtain r0 where r0: "r0 \<in> set (jw_rows w)" "r = (if P r0 then ?f r0 else r0)" using \<open>r \<in> set (jw_rows w')\<close> unfolding P(1) by auto
    show ?thesis
    proof (cases "P r0")
      case True
      then have "cj_id (toClaimed (?f r0)) \<in> set (map cj_id js)" unfolding P(2) using r0(1) by auto
      then show ?thesis using r0(2) True by (simp add: toClaimed_def)
    next
      case False then show ?thesis using r0 that(2,3) by (auto simp: leased_to_def)
    qed
  qed
  then show ?thesis unfolding P(2) by (auto simp: leased_to_def toClaimed_def lease_row_def)
qed

text \<open>
  A run leaves nothing leased.  If no row is leased to the worker before a run of the poller, and the handlers (with all
  that happens while they run) lease nothing in its name, then after a run that returns, stopped half way or not,
  no row is leased to the worker, and the report settles at most what was claimed.
\<close>

theorem run_leaves_nothing_leased:
  assumes "leased_to (pl_workerId p) w = {}" "runOnce p w = (Inr r, w')"
    and h: "\<forall>t h. resolve_handler (pl_registry p) t = Some h \<longrightarrow>
        (\<forall>j w. leased_to (pl_workerId p) (snd (h j w)) \<subseteq> leased_to (pl_workerId p) w)"
  shows "leased_to (pl_workerId p) w' = {}
    \<and> rn_completed r + rn_retried r + rn_deadLettered r + rn_released r \<le> rn_claimed r"
proof -
  let ?W = "pl_workerId p"
  obtain n w1 js w2 w3 where 1: "sweep_stale p w = (Inr n, w1)" and 2: "poll_claim p w1 = (Inr js, w2)"
    and 3: "run_batch p js \<lparr>rn_claimed = length js, rn_completed = 0, rn_retried = 0, rn_deadLettered = 0,
        rn_released = 0, rn_staleRecovered = n\<rparr> w2 = (Inr r, w3)" and 4: "w' = w3\<lparr>jw_lastTickAt := Some (jw_now w3)\<rparr>"
    using assms(2) by (auto simp: runOnce_def thenE_Inr)
  have "leased_to ?W w1 = {}"
    using 1 assms(1)
    by (auto simp: sweep_stale_def job_query_def recoverStaleLeases_def Let_def leased_to_def recover_row_def thenE_def
        split: if_splits)
  then have c: "leased_to ?W w2 \<subseteq> set (map cj_id js)" "\<forall>j \<in> set js. cj_leaseOwner j = ?W"
    using poll_claim_leases [OF 2] by auto
  have h': "\<forall>t h. resolve_handler (pl_registry p) t = Some h \<longrightarrow> (\<forall>j. keeps_leases ?W (updateE (h j) :: thrown option jobs_effect))"
    using h by (simp add: keeps_leases_def)
  have "leased_to ?W w3 = {}" "settled r \<le> length js" "rn_claimed r = length js"
    using run_batch_leases [OF 3 c(2) h'] c(1) by (auto simp: settled_def)
  then show ?thesis unfolding 4 by (simp add: leased_to_def settled_def)
qed

definition sample_poller :: job_poller where
  "sample_poller = \<lparr>pl_queue = sample_queue, pl_registry = [(''echo'', \<lambda>j w. (None, w\<lparr>jw_stopping := True\<rparr>))],
     pl_workerId = ''w'', pl_batchSize = 10, pl_leaseTtlMs = None, pl_staleRecoveryIntervalMs = 30000,
     pl_locked = (\<lambda>i. False), pl_down = (\<lambda>c w. False)\<rparr>"

definition sample_jobs :: jobs_world where
  "sample_jobs = \<lparr>jw_rows = queued_rows @ [(job_of_input ''j2'' 11 sample_input)\<lparr>jb_idempotencyKey := None\<rparr>],
     jw_now = 20, jw_stopping = False, jw_lastStaleSweepAt = 0, jw_lastTickAt = None\<rparr>"

theorem run_leaves_nothing_leased_witness:
  "\<exists>r w'. runOnce sample_poller sample_jobs = (Inr r, w') \<and> rn_claimed r = 2 \<and> rn_completed r = 1 \<and> rn_released r = 1
     \<and> leased_to ''w'' w' = {}"
proof -
  have run: "result_map (fst (runOnce sample_poller sample_jobs)) (\<lambda>r. (rn_claimed r, rn_completed r, rn_released r)) = Inr (2, 1, 1)"
    by code_simp
  then obtain r w' where r: "runOnce sample_poller sample_jobs = (Inr r, w')"
    and n: "rn_claimed r = 2" "rn_completed r = 1" "rn_released r = 1"
    by (cases "runOnce sample_poller sample_jobs"; cases "fst (runOnce sample_poller sample_jobs)") auto
  have "snd (h j w) = w\<lparr>jw_stopping := True\<rparr>" if "resolve_handler (pl_registry sample_poller) t = Some h" for t h j w
    using that by (auto simp: sample_poller_def resolve_handler_def split: if_splits)
  then have h: "leased_to v (snd (h j w)) \<subseteq> leased_to v w" if "resolve_handler (pl_registry sample_poller) t = Some h" for t h j w v
    using that by (simp add: leased_to_def)
  have "list_all (\<lambda>r. jb_status r \<noteq> JOB_LEASED) (jw_rows sample_jobs)" by code_simp
  then have "leased_to (pl_workerId sample_poller) sample_jobs = {}" by (auto simp: leased_to_def list_all_iff)
  then have "leased_to (pl_workerId sample_poller) w' = {}"
    using run_leaves_nothing_leased [OF _ r] h by blast
  moreover have "pl_workerId sample_poller = ''w''" by (simp add: sample_poller_def)
  ultimately show ?thesis using r n by auto
qed

text \<open>
  A claimed job is run even when its lease is gone.  The poller claims a batch, then runs the jobs one after another
  without looking at the lease again: when no row carries the worker's lease on the job any more (it expired while earlier jobs of
  the batch ran, and another worker has the job), the handler runs all the same, its effects stand, and only the outcome is refused.
\<close>

theorem stale_claim_still_runs:
  assumes "\<forall>r \<in> set (jw_rows w). \<not> holds_lease j r" "\<not> jw_stopping w"
    and "resolve_handler (pl_registry p) (cj_jobType j) = Some h" "h j w = (threw, w1)"
    and "\<forall>r \<in> set (jw_rows w1). \<not> holds_lease j r" "\<not> pl_down p QUERY_OUTCOME w1"
  shows "run_batch p (j # js) r w = run_batch p js r w1"
proof -
  have "executeOne p j w = (Inr LOST_LEASE, w1)"
    using assms(3-6) holds_none_report [of j "jw_rows w1"]
    by (cases threw)
      (simp_all add: executeOne_def thenE_def job_query_def holds_none_def failRetryable_def deadLetter_def complete_job_def)
  then show ?thesis using assms(2) by (simp add: thenE_def tally_def)
qed

theorem stale_claim_still_runs_witness:
  "run_batch sample_poller [toClaimed (hd leased_rows)] r (sample_jobs\<lparr>jw_rows := []\<rparr>)
    = (Inr r, sample_jobs\<lparr>jw_rows := [], jw_stopping := True\<rparr>)"
proof -
  have "cj_jobType (toClaimed (hd leased_rows)) = ''echo''" by code_simp
  then show ?thesis
    by (subst stale_claim_still_runs [where threw = None and h = "\<lambda>j w. (None, w\<lparr>jw_stopping := True\<rparr>)"])
      (simp_all add: sample_poller_def sample_jobs_def resolve_handler_def)
qed

end
