(* ===== verification/Event_Catalogue.thy ===== *)
theory Event_Catalogue
  imports Karar_Prelude
begin

text \<open>
  The domain event catalogue (\<open>packages/api-contracts/src/events\<close>): the parser of the catalogue document with its
  governance rules, the guards, and the payload validator.  A parsed JSON document is a \<open>json_value\<close>, an object an
  association list with distinct keys; \<open>JSON.parse\<close> and the file read are outside the model.  The problems the parser
  collects keep their place and kind and lose their message text.  The keys every object inherits
  count where the source uses \<open>in\<close> or indexes a record; a field named \<open>__proto__\<close> in a schema is outside the model.
\<close>

section \<open>Documents\<close>

datatype json_value =
    JsNull
  | JsBool bool
  | JsNumber js_number
  | JsString string
  | JsArray "json_value list"
  | JsObject "(string \<times> json_value) list"

definition OBJECT_PROTOTYPE_KEYS :: "string list" where
  "OBJECT_PROTOTYPE_KEYS = [''constructor'', ''__defineGetter__'', ''__defineSetter__'', ''hasOwnProperty'',
     ''__lookupGetter__'', ''__lookupSetter__'', ''isPrototypeOf'', ''propertyIsEnumerable'', ''toString'',
     ''valueOf'', ''__proto__'', ''toLocaleString'']"

definition js_in :: "string \<Rightarrow> (string \<times> 'a) list \<Rightarrow> bool" where
  "js_in field record' \<longleftrightarrow> field \<in> set (map fst record') \<or> field \<in> set OBJECT_PROTOTYPE_KEYS"

fun as_record :: "json_value option \<Rightarrow> (string \<times> json_value) list option" where
  "as_record (Some (JsObject members)) = Some members"
| "as_record _ = None"

fun nonEmptyString :: "json_value option \<Rightarrow> bool" where
  "nonEmptyString (Some (JsString s)) = (\<not> blank s)"
| "nonEmptyString _ = False"

fun text_of :: "json_value option \<Rightarrow> string" where
  "text_of (Some (JsString s)) = s"
| "text_of _ = ''''"

section \<open>Types\<close>

datatype event_classification =
    CLASS_PUBLIC | CLASS_INTERNAL | CLASS_CONFIDENTIAL | CLASS_HIGHLY_SENSITIVE_FINANCIAL | CLASS_SECRET | CLASS_SEALED

definition EVENT_CLASSIFICATIONS :: "(string \<times> event_classification) list" where
  "EVENT_CLASSIFICATIONS =
    [(''PUBLIC'', CLASS_PUBLIC), (''INTERNAL'', CLASS_INTERNAL), (''CONFIDENTIAL'', CLASS_CONFIDENTIAL),
     (''HIGHLY_SENSITIVE_FINANCIAL'', CLASS_HIGHLY_SENSITIVE_FINANCIAL), (''SECRET'', CLASS_SECRET),
     (''SEALED'', CLASS_SEALED)]"

datatype event_payload_rule = IDENTIFIER_ONLY | IDENTIFIERS_AND_STATUS | PAYLOAD_PERMITTED

definition EVENT_PAYLOAD_RULES :: "(string \<times> event_payload_rule) list" where
  "EVENT_PAYLOAD_RULES =
    [(''identifier-only'', IDENTIFIER_ONLY), (''identifiers-and-status'', IDENTIFIERS_AND_STATUS),
     (''payload-permitted'', PAYLOAD_PERMITTED)]"

datatype payload_field_type = FIELD_STRING | FIELD_NUMBER | FIELD_BOOLEAN

definition PAYLOAD_FIELD_TYPES :: "(string \<times> payload_field_type) list" where
  "PAYLOAD_FIELD_TYPES = [(''string'', FIELD_STRING), (''number'', FIELD_NUMBER), (''boolean'', FIELD_BOOLEAN)]"

definition enum_of :: "(string \<times> 'a) list \<Rightarrow> json_value option \<Rightarrow> 'a option" where
  "enum_of table v = (case v of Some (JsString s) \<Rightarrow> map_of table s | _ \<Rightarrow> None)"

record payload_exemption =
  px_owner :: string
  px_reason :: string
  px_reviewer :: string

record payload_schema =
  ps_properties :: "(string \<times> payload_field_type) list"
  ps_required :: "string list"

record catalogue_entry =
  ce_name :: string
  ce_schemaVersion :: int
  ce_ownerModule :: string
  ce_classification :: event_classification
  ce_piiFlag :: bool
  ce_allowedConsumers :: "string list"
  ce_retention :: string
  ce_payloadRule :: event_payload_rule
  ce_payloadExemption :: "payload_exemption option"
  ce_payloadSchema :: payload_schema

type_synonym event_catalogue = "catalogue_entry list"

datatype problem_kind =
    CATALOGUE_SHAPE | SCHEMA_NOT_OBJECT | SCHEMA_TYPE | SCHEMA_OPEN | PROPERTIES_NOT_OBJECT | PROPERTY_SPEC string
  | REQUIRED_NOT_ARRAY | REQUIRED_NOT_STRING | REQUIRED_UNDECLARED string | EXEMPTION_SHAPE | ENTRY_NOT_OBJECT
  | ENTRY_NAME | ENTRY_SCHEMA_VERSION | ENTRY_OWNER | ENTRY_CLASSIFICATION | ENTRY_PII | ENTRY_CONSUMERS
  | ENTRY_CONSUMER_REPEATED | ENTRY_RETENTION | ENTRY_PAYLOAD_RULE | SEALED_BEYOND_STATUS | SEALED_EXEMPTION
  | HSF_WITHOUT_EXEMPTION | POINTLESS_EXEMPTION | DUPLICATE_EVENT string

type_synonym catalogue_problem = "nat option \<times> problem_kind"

section \<open>The parser\<close>

definition take_unit :: "char \<Rightarrow> string \<Rightarrow> string" where
  "take_unit u s = (case dropWhile is_digit s of
     c # rest \<Rightarrow> if takeWhile is_digit s \<noteq> [] \<and> c = u then rest else s
   | [] \<Rightarrow> s)"

definition retention_matches :: "string \<Rightarrow> bool" where
  "retention_matches s = (case s of
     c # r \<Rightarrow> c = CHR ''P'' \<and> r \<noteq> [] \<and>
       (case take_unit (CHR ''D'') (take_unit (CHR ''W'') (take_unit (CHR ''M'') (take_unit (CHR ''Y'') r))) of
          [] \<Rightarrow> True
        | d # t \<Rightarrow> d = CHR ''T'' \<and> t \<noteq> [] \<and>
            take_unit (CHR ''S'') (take_unit (CHR ''M'') (take_unit (CHR ''H'') t)) = [])
   | [] \<Rightarrow> False)"

definition note_if :: "bool \<Rightarrow> catalogue_problem \<Rightarrow> catalogue_problem list \<Rightarrow> catalogue_problem list" where
  "note_if b p problems = (if b then problems @ [p] else problems)"

fun parse_properties ::
  "nat \<Rightarrow> (string \<times> json_value) list \<Rightarrow> (string \<times> payload_field_type) list \<Rightarrow> catalogue_problem list
     \<Rightarrow> (string \<times> payload_field_type) list \<times> catalogue_problem list" where
  "parse_properties i [] acc problems = (acc, problems)"
| "parse_properties i ((field, spec) # rest) acc problems =
     (let spec_fields = as_record (Some spec);
          type = (case spec_fields of None \<Rightarrow> None | Some fs \<Rightarrow> enum_of PAYLOAD_FIELD_TYPES (map_of fs ''type''))
      in case (spec_fields, type) of
           (Some fs, Some t) \<Rightarrow>
             if length fs \<noteq> 1 then parse_properties i rest acc (problems @ [(Some i, PROPERTY_SPEC field)])
             else parse_properties i rest (acc @ [(field, t)]) problems
         | _ \<Rightarrow> parse_properties i rest acc (problems @ [(Some i, PROPERTY_SPEC field)]))"

fun parse_required ::
  "nat \<Rightarrow> (string \<times> payload_field_type) list \<Rightarrow> json_value list \<Rightarrow> string list \<Rightarrow> catalogue_problem list
     \<Rightarrow> string list \<times> catalogue_problem list" where
  "parse_required i properties [] acc problems = (acc, problems)"
| "parse_required i properties (field # rest) acc problems =
     (if \<not> nonEmptyString (Some field)
      then parse_required i properties rest acc (problems @ [(Some i, REQUIRED_NOT_STRING)])
      else let f = text_of (Some field) in
        if \<not> js_in f properties
        then parse_required i properties rest acc (problems @ [(Some i, REQUIRED_UNDECLARED f)])
        else parse_required i properties rest (acc @ [f]) problems)"

definition parsePayloadSchema ::
  "nat \<Rightarrow> json_value option \<Rightarrow> catalogue_problem list \<Rightarrow> payload_schema \<times> catalogue_problem list" where
  "parsePayloadSchema i raw problems = (case as_record raw of
     None \<Rightarrow> (\<lparr>ps_properties = [], ps_required = []\<rparr>, problems @ [(Some i, SCHEMA_NOT_OBJECT)])
   | Some members \<Rightarrow>
       let problems1 = note_if (map_of members ''type'' \<noteq> Some (JsString ''object'')) (Some i, SCHEMA_TYPE) problems;
           problems2 = note_if (map_of members ''additionalProperties'' \<noteq> Some (JsBool False)) (Some i, SCHEMA_OPEN) problems1;
           (properties, problems3) = (case as_record (map_of members ''properties'') of
              None \<Rightarrow> ([], problems2 @ [(Some i, PROPERTIES_NOT_OBJECT)])
            | Some ps \<Rightarrow> parse_properties i ps [] problems2);
           (required, problems4) = (case map_of members ''required'' of
              Some (JsArray rs) \<Rightarrow> parse_required i properties rs [] problems3
            | _ \<Rightarrow> ([], problems3 @ [(Some i, REQUIRED_NOT_ARRAY)]))
       in (\<lparr>ps_properties = properties, ps_required = required\<rparr>, problems4))"

definition parseExemption ::
  "nat \<Rightarrow> json_value option \<Rightarrow> catalogue_problem list \<Rightarrow> payload_exemption option \<times> catalogue_problem list" where
  "parseExemption i raw problems =
     (if raw = None \<or> raw = Some JsNull then (None, problems)
      else case as_record raw of
        None \<Rightarrow> (None, problems @ [(Some i, EXEMPTION_SHAPE)])
      | Some members \<Rightarrow>
          if \<not> nonEmptyString (map_of members ''owner'') \<or> \<not> nonEmptyString (map_of members ''reason'')
             \<or> \<not> nonEmptyString (map_of members ''reviewer'')
          then (None, problems @ [(Some i, EXEMPTION_SHAPE)])
          else (Some \<lparr>px_owner = text_of (map_of members ''owner''), px_reason = text_of (map_of members ''reason''),
                      px_reviewer = text_of (map_of members ''reviewer'')\<rparr>, problems))"

definition consumer_problems :: "nat \<Rightarrow> json_value option \<Rightarrow> catalogue_problem list \<Rightarrow> catalogue_problem list" where
  "consumer_problems i raw problems = (case raw of
     Some (JsArray cs) \<Rightarrow>
       if cs = [] \<or> \<not> list_all (\<lambda>c. nonEmptyString (Some c)) cs then problems @ [(Some i, ENTRY_CONSUMERS)]
       else if length (remdups (map (\<lambda>c. text_of (Some c)) cs)) \<noteq> length cs
       then problems @ [(Some i, ENTRY_CONSUMER_REPEATED)] else problems
   | _ \<Rightarrow> problems @ [(Some i, ENTRY_CONSUMERS)])"

definition governance_problems ::
  "nat \<Rightarrow> event_classification option \<Rightarrow> event_payload_rule option \<Rightarrow> payload_exemption option
     \<Rightarrow> catalogue_problem list \<Rightarrow> catalogue_problem list" where
  "governance_problems i classification payloadRule exemption problems =
     (if classification = Some CLASS_SEALED then
        note_if (exemption \<noteq> None) (Some i, SEALED_EXEMPTION)
          (note_if (payloadRule \<noteq> Some IDENTIFIER_ONLY \<and> payloadRule \<noteq> Some IDENTIFIERS_AND_STATUS)
             (Some i, SEALED_BEYOND_STATUS) problems)
      else if classification = Some CLASS_HIGHLY_SENSITIVE_FINANCIAL then
        note_if (payloadRule \<noteq> Some IDENTIFIER_ONLY \<and> exemption = None) (Some i, HSF_WITHOUT_EXEMPTION) problems
      else note_if (exemption \<noteq> None) (Some i, POINTLESS_EXEMPTION) problems)"

definition schema_version_of :: "json_value option \<Rightarrow> int option" where
  "schema_version_of raw = (case raw of Some (JsNumber (Whole n)) \<Rightarrow> if n < 1 then None else Some n | _ \<Rightarrow> None)"

definition parseEntry ::
  "nat \<Rightarrow> json_value \<Rightarrow> catalogue_problem list \<Rightarrow> catalogue_entry option \<times> catalogue_problem list" where
  "parseEntry i raw problems = (case as_record (Some raw) of
     None \<Rightarrow> (None, problems @ [(Some i, ENTRY_NOT_OBJECT)])
   | Some members \<Rightarrow>
     let get = map_of members; name' = text_of (get ''name'') in
     if \<not> nonEmptyString (get ''name'') \<or> list_ex is_ws name'
     then (None, problems @ [(Some i, ENTRY_NAME)])
     else
       let version = schema_version_of (get ''schemaVersion'');
           classification = enum_of EVENT_CLASSIFICATIONS (get ''classification'');
           pii = (case get ''piiFlag'' of Some (JsBool b) \<Rightarrow> Some b | _ \<Rightarrow> None);
           payloadRule = enum_of EVENT_PAYLOAD_RULES (get ''payloadRule'');
           p1 = note_if (version = None) (Some i, ENTRY_SCHEMA_VERSION) problems;
           p2 = note_if (\<not> nonEmptyString (get ''ownerModule'')) (Some i, ENTRY_OWNER) p1;
           p3 = note_if (classification = None) (Some i, ENTRY_CLASSIFICATION) p2;
           p4 = note_if (pii = None) (Some i, ENTRY_PII) p3;
           p5 = consumer_problems i (get ''allowedConsumers'') p4;
           p6 = note_if (\<not> nonEmptyString (get ''retention'') \<or> \<not> retention_matches (text_of (get ''retention'')))
                  (Some i, ENTRY_RETENTION) p5;
           p7 = note_if (payloadRule = None) (Some i, ENTRY_PAYLOAD_RULE) p6;
           (exemption, p8) = parseExemption i (get ''payloadExemption'') p7;
           (schema, p9) = parsePayloadSchema i (get ''payloadSchema'') p8;
           p10 = governance_problems i classification payloadRule exemption p9
       in if p10 \<noteq> [] then (None, p10)
          else (Some \<lparr>ce_name = name', ce_schemaVersion = (case version of Some n \<Rightarrow> n | None \<Rightarrow> 0),
                 ce_ownerModule = text_of (get ''ownerModule''),
                 ce_classification = (case classification of Some c \<Rightarrow> c | None \<Rightarrow> CLASS_SECRET),
                 ce_piiFlag = (case pii of Some b \<Rightarrow> b | None \<Rightarrow> True),
                 ce_allowedConsumers = (case get ''allowedConsumers'' of
                    Some (JsArray cs) \<Rightarrow> map (\<lambda>c. text_of (Some c)) cs | _ \<Rightarrow> []),
                 ce_retention = text_of (get ''retention''),
                 ce_payloadRule = (case payloadRule of Some r \<Rightarrow> r | None \<Rightarrow> IDENTIFIER_ONLY),
                 ce_payloadExemption = exemption, ce_payloadSchema = schema\<rparr>, p10))"

fun parse_events ::
  "nat \<Rightarrow> json_value list \<Rightarrow> catalogue_entry list \<Rightarrow> catalogue_problem list \<Rightarrow> catalogue_entry list \<times> catalogue_problem list" where
  "parse_events i [] entries problems = (entries, problems)"
| "parse_events i (raw # rest) entries problems =
     (case parseEntry i raw problems of
        (None, problems') \<Rightarrow> parse_events (Suc i) rest entries problems'
      | (Some e, problems') \<Rightarrow>
          if ce_name e \<in> set (map ce_name entries)
          then parse_events (Suc i) rest entries (problems' @ [(Some i, DUPLICATE_EVENT (ce_name e))])
          else parse_events (Suc i) rest (entries @ [e]) problems')"

datatype catalogue_error =
    INVALID_CATALOGUE "catalogue_problem list"
  | UNKNOWN_EVENT string
  | CONSUMER_NOT_ALLOWED string string
  | PAYLOAD_SCHEMA_VIOLATION string

definition parseEventCatalogue :: "json_value \<Rightarrow> (catalogue_error, event_catalogue) outcome" where
  "parseEventCatalogue raw =
     (let (entries, problems) = (case as_record (Some raw) of
            Some members \<Rightarrow> (case map_of members ''events'' of
                Some (JsArray es) \<Rightarrow> parse_events 0 es [] []
              | _ \<Rightarrow> ([], [(None, CATALOGUE_SHAPE)]))
          | None \<Rightarrow> ([], [(None, CATALOGUE_SHAPE)]))
      in if problems \<noteq> [] then Inl (INVALID_CATALOGUE problems) else Inr entries)"

section \<open>Guards\<close>

definition getEventEntry :: "event_catalogue \<Rightarrow> string \<Rightarrow> (catalogue_error, catalogue_entry) outcome" where
  "getEventEntry catalogue eventName = (case List.find (\<lambda>e. ce_name e = eventName) catalogue of
     None \<Rightarrow> Inl (UNKNOWN_EVENT eventName) | Some e \<Rightarrow> Inr e)"

definition assertConsumerAllowed ::
  "event_catalogue \<Rightarrow> string \<Rightarrow> string \<Rightarrow> (catalogue_error, catalogue_entry) outcome" where
  "assertConsumerAllowed catalogue eventName consumerName =
     result_andThen (getEventEntry catalogue eventName) (\<lambda>e.
       if consumerName \<notin> set (ce_allowedConsumers e) then Inl (CONSUMER_NOT_ALLOWED eventName consumerName) else Inr e)"

datatype payload_violation = PAYLOAD_NOT_OBJECT | MISSING_FIELD string | UNEXPECTED_FIELD string | FIELD_TYPE string

fun js_typeof :: "json_value \<Rightarrow> payload_field_type option" where
  "js_typeof (JsString s) = Some FIELD_STRING"
| "js_typeof (JsNumber n) = Some FIELD_NUMBER"
| "js_typeof (JsBool b) = Some FIELD_BOOLEAN"
| "js_typeof _ = None"

text \<open>\<open>schema.properties[field]\<close> finds an inherited key too; its value has no \<open>type\<close>, so no value matches it.\<close>

definition field_violations :: "payload_schema \<Rightarrow> string \<times> json_value \<Rightarrow> payload_violation list" where
  "field_violations schema fv =
     (case map_of (ps_properties schema) (fst fv) of
        None \<Rightarrow> if fst fv \<in> set OBJECT_PROTOTYPE_KEYS then [FIELD_TYPE (fst fv)] else [UNEXPECTED_FIELD (fst fv)]
      | Some t \<Rightarrow> if js_typeof (snd fv) \<noteq> Some t then [FIELD_TYPE (fst fv)] else [])"

definition validatePayloadAgainstSchema :: "payload_schema \<Rightarrow> json_value \<Rightarrow> payload_violation list" where
  "validatePayloadAgainstSchema schema payload = (case as_record (Some payload) of
     None \<Rightarrow> [PAYLOAD_NOT_OBJECT]
   | Some members \<Rightarrow>
       map MISSING_FIELD (filter (\<lambda>f. \<not> js_in f members) (ps_required schema))
         @ concat (map (field_violations schema) members))"

definition assertPayloadMatchesSchema :: "catalogue_entry \<Rightarrow> json_value \<Rightarrow> (catalogue_error, unit) outcome" where
  "assertPayloadMatchesSchema e payload =
     (if validatePayloadAgainstSchema (ce_payloadSchema e) payload \<noteq> []
      then Inl (PAYLOAD_SCHEMA_VIOLATION (ce_name e)) else Inr ())"

section \<open>Lemmas\<close>

lemma note_if_empty [simp]: "note_if b p problems = [] \<longleftrightarrow> \<not> b \<and> problems = []"
  by (simp add: note_if_def)

lemma parse_properties_empty: "snd (parse_properties i ps acc problems) = [] \<Longrightarrow> problems = []"
proof (induction ps arbitrary: acc problems)
  case (Cons p ps)
  obtain field spec where p: "p = (field, spec)" by (cases p)
  show ?case
  proof (cases "as_record (Some spec)")
    case None then show ?thesis using Cons.prems Cons.IH by (auto simp: p Let_def)
  next
    case (Some fs)
    then show ?thesis using Cons.prems Cons.IH
      by (cases "enum_of PAYLOAD_FIELD_TYPES (map_of fs ''type'')") (auto simp: p Let_def split: if_splits)
  qed
qed simp

lemma parse_required_facts:
  "parse_required i properties rs acc problems = (required, []) \<Longrightarrow>
     problems = [] \<and> set required \<subseteq> set acc \<union> (set (map fst properties) \<union> set OBJECT_PROTOTYPE_KEYS)"
proof (induction i properties rs acc problems rule: parse_required.induct)
  case (2 i properties field rest acc problems)
  show ?case using 2 by (auto simp: Let_def js_in_def split: if_splits)
qed simp

lemma parse_properties_case:
  assumes "(case x of None \<Rightarrow> ([], p @ [q]) | Some ps \<Rightarrow> parse_properties i ps [] p) = (properties, [])"
  shows "p = []"
proof (cases x)
  case None then show ?thesis using assms by simp
next
  case (Some ps)
  then have "snd (parse_properties i ps [] p) = []" using assms by simp
  then show ?thesis by (rule parse_properties_empty)
qed

lemma parse_required_case:
  assumes "(case x of Some (JsArray rs) \<Rightarrow> parse_required i properties rs [] p | _ \<Rightarrow> ([], p @ [q])) = (required, [])"
  shows "p = [] \<and> set required \<subseteq> set (map fst properties) \<union> set OBJECT_PROTOTYPE_KEYS"
proof -
  obtain rs where "x = Some (JsArray rs)" using assms by (cases x; cases "the x") simp_all
  then have "parse_required i properties rs [] p = (required, [])" using assms by simp
  from parse_required_facts [OF this] show ?thesis by simp
qed

lemma parsePayloadSchema_facts:
  assumes "parsePayloadSchema i raw problems = (schema, [])"
  shows "problems = [] \<and> set (ps_required schema) \<subseteq> set (map fst (ps_properties schema)) \<union> set OBJECT_PROTOTYPE_KEYS"
proof -
  obtain members where m: "as_record raw = Some members"
    using assms by (cases "as_record raw") (auto simp: parsePayloadSchema_def)
  let ?p1 = "note_if (map_of members ''type'' \<noteq> Some (JsString ''object'')) (Some i, SCHEMA_TYPE) problems"
  let ?p2 = "note_if (map_of members ''additionalProperties'' \<noteq> Some (JsBool False)) (Some i, SCHEMA_OPEN) ?p1"
  obtain properties p3 where props: "(case as_record (map_of members ''properties'') of
      None \<Rightarrow> ([], ?p2 @ [(Some i, PROPERTIES_NOT_OBJECT)]) | Some ps \<Rightarrow> parse_properties i ps [] ?p2) = (properties, p3)"
    by (metis surj_pair)
  obtain required p4 where reqs: "(case map_of members ''required'' of
      Some (JsArray rs) \<Rightarrow> parse_required i properties rs [] p3 | _ \<Rightarrow> ([], p3 @ [(Some i, REQUIRED_NOT_ARRAY)])) = (required, p4)"
    by (metis surj_pair)
  have s: "schema = \<lparr>ps_properties = properties, ps_required = required\<rparr>" "p4 = []"
    using assms unfolding parsePayloadSchema_def m option.case Let_def props prod.case reqs by simp_all
  note p3 = parse_required_case [OF reqs [unfolded s(2)]]
  have "?p2 = []" by (rule parse_properties_case [OF props [unfolded p3 [THEN conjunct1]]])
  then show ?thesis using p3 s(1) by simp
qed

lemma nonEmptyString_text: "nonEmptyString v \<Longrightarrow> \<not> blank (text_of v)"
  by (cases v rule: nonEmptyString.cases) auto

definition complete_exemption :: "payload_exemption \<Rightarrow> bool" where
  "complete_exemption x \<longleftrightarrow> \<not> blank (px_owner x) \<and> \<not> blank (px_reason x) \<and> \<not> blank (px_reviewer x)"

lemma parseExemption_facts:
  assumes "parseExemption i raw problems = (x, [])"
  shows "problems = []" "\<forall>y. x = Some y \<longrightarrow> complete_exemption y"
  using assms by (auto simp: parseExemption_def complete_exemption_def nonEmptyString_text split: if_splits option.splits)

definition governed :: "catalogue_entry \<Rightarrow> bool" where
  "governed e \<longleftrightarrow> \<not> blank (ce_name e) \<and> \<not> list_ex is_ws (ce_name e) \<and> 1 \<le> ce_schemaVersion e
     \<and> \<not> blank (ce_ownerModule e) \<and> ce_allowedConsumers e \<noteq> [] \<and> distinct (ce_allowedConsumers e)
     \<and> retention_matches (ce_retention e)
     \<and> set (ps_required (ce_payloadSchema e)) \<subseteq> set (map fst (ps_properties (ce_payloadSchema e))) \<union> set OBJECT_PROTOTYPE_KEYS
     \<and> (ce_classification e = CLASS_SEALED \<longrightarrow> ce_payloadRule e \<noteq> PAYLOAD_PERMITTED)
     \<and> (ce_classification e = CLASS_HIGHLY_SENSITIVE_FINANCIAL \<longrightarrow>
          ce_payloadRule e = IDENTIFIER_ONLY \<or> ce_payloadExemption e \<noteq> None)
     \<and> (ce_classification e \<noteq> CLASS_HIGHLY_SENSITIVE_FINANCIAL \<longrightarrow> ce_payloadExemption e = None)
     \<and> (\<forall>x. ce_payloadExemption e = Some x \<longrightarrow> complete_exemption x)"

lemma governance_problems_empty:
  "governance_problems i c r x problems = [] \<longleftrightarrow> problems = []
     \<and> (c = Some CLASS_SEALED \<longrightarrow> x = None \<and> r \<in> {Some IDENTIFIER_ONLY, Some IDENTIFIERS_AND_STATUS})
     \<and> (c = Some CLASS_HIGHLY_SENSITIVE_FINANCIAL \<longrightarrow> r = Some IDENTIFIER_ONLY \<or> x \<noteq> None)
     \<and> (c \<noteq> Some CLASS_SEALED \<and> c \<noteq> Some CLASS_HIGHLY_SENSITIVE_FINANCIAL \<longrightarrow> x = None)"
  by (auto simp: governance_problems_def)

lemma consumer_problems_empty:
  assumes "consumer_problems i raw problems = []"
  shows "problems = [] \<and> (\<exists>cs. raw = Some (JsArray cs) \<and> cs \<noteq> [] \<and> distinct (map (\<lambda>c. text_of (Some c)) cs))"
proof -
  obtain cs where cs: "raw = Some (JsArray cs)"
    using assms by (cases raw; cases "the raw") (simp_all add: consumer_problems_def)
  have "cs \<noteq> []" "length (remdups (map (\<lambda>c. text_of (Some c)) cs)) = length (map (\<lambda>c. text_of (Some c)) cs)" "problems = []"
    using assms unfolding cs by (simp_all add: consumer_problems_def split: if_splits)
  then show ?thesis using cs by (metis length_remdups_eq remdups_id_iff_distinct)
qed

lemma parseEntry_None: "parseEntry i raw problems = (None, problems') \<Longrightarrow> problems' \<noteq> []"
  by (auto simp: parseEntry_def Let_def split: option.splits if_splits prod.splits)

lemma parseEntry_Some:
  assumes "parseEntry i raw problems = (Some e, problems')"
  shows "governed e \<and> problems = [] \<and> problems' = []"
proof -
  obtain members where m: "as_record (Some raw) = Some members"
    using assms by (cases "as_record (Some raw)") (simp_all add: parseEntry_def)
  let ?g = "map_of members"
  let ?v = "schema_version_of (?g ''schemaVersion'')"
  let ?c = "enum_of EVENT_CLASSIFICATIONS (?g ''classification'')"
  let ?pii = "case ?g ''piiFlag'' of Some (JsBool b) \<Rightarrow> Some b | _ \<Rightarrow> None"
  let ?r = "enum_of EVENT_PAYLOAD_RULES (?g ''payloadRule'')"
  let ?p4 = "note_if (?pii = None) (Some i, ENTRY_PII) (note_if (?c = None) (Some i, ENTRY_CLASSIFICATION)
     (note_if (\<not> nonEmptyString (?g ''ownerModule'')) (Some i, ENTRY_OWNER)
       (note_if (?v = None) (Some i, ENTRY_SCHEMA_VERSION) problems)))"
  let ?p5 = "consumer_problems i (?g ''allowedConsumers'') ?p4"
  let ?p7 = "note_if (?r = None) (Some i, ENTRY_PAYLOAD_RULE)
     (note_if (\<not> nonEmptyString (?g ''retention'') \<or> \<not> retention_matches (text_of (?g ''retention''))) (Some i, ENTRY_RETENTION) ?p5)"
  have name': "nonEmptyString (?g ''name'')" "\<not> list_ex is_ws (text_of (?g ''name''))"
    using assms by (simp_all add: parseEntry_def m Let_def split: if_splits)
  obtain x p8 where x: "parseExemption i (?g ''payloadExemption'') ?p7 = (x, p8)" by (metis surj_pair)
  obtain sc p9 where sc: "parsePayloadSchema i (?g ''payloadSchema'') p8 = (sc, p9)" by (metis surj_pair)
  have p10: "governance_problems i ?c ?r x p9 = []" and e: "problems' = []"
    "e = \<lparr>ce_name = text_of (?g ''name''), ce_schemaVersion = (case ?v of Some n \<Rightarrow> n | None \<Rightarrow> 0),
       ce_ownerModule = text_of (?g ''ownerModule''), ce_classification = (case ?c of Some c \<Rightarrow> c | None \<Rightarrow> CLASS_SECRET),
       ce_piiFlag = (case ?pii of Some b \<Rightarrow> b | None \<Rightarrow> True),
       ce_allowedConsumers = (case ?g ''allowedConsumers'' of Some (JsArray cs) \<Rightarrow> map (\<lambda>c. text_of (Some c)) cs | _ \<Rightarrow> []),
       ce_retention = text_of (?g ''retention''), ce_payloadRule = (case ?r of Some r \<Rightarrow> r | None \<Rightarrow> IDENTIFIER_ONLY),
       ce_payloadExemption = x, ce_payloadSchema = sc\<rparr>"
    using assms name' unfolding parseEntry_def m option.case Let_def x sc prod.case by (simp_all split: if_splits)
  note gov = p10 [unfolded governance_problems_empty]
  have p9: "p9 = []" using gov by blast
  note scf = parsePayloadSchema_facts [OF sc [unfolded p9]]
  have p8: "p8 = []" using scf by blast
  note xf = parseExemption_facts [OF x [unfolded p8]]
  have r: "?r \<noteq> None" and ret: "retention_matches (text_of (?g ''retention''))" and p5: "?p5 = []"
    using xf(1) by simp_all
  note cf = consumer_problems_empty [OF p5]
  have p4: "?pii \<noteq> None" "?c \<noteq> None" "nonEmptyString (?g ''ownerModule'')" "?v \<noteq> None" "problems = []" using cf by simp_all
  obtain cs where cs: "?g ''allowedConsumers'' = Some (JsArray cs)" "cs \<noteq> []" "distinct (map (\<lambda>c. text_of (Some c)) cs)" using cf by blast
  obtain n where n: "?v = Some n" "1 \<le> n"
    using p4(4) by (auto simp: schema_version_of_def split: option.splits json_value.splits js_number.splits if_splits)
  obtain c r' where c: "?c = Some c" "?r = Some r'" using p4(2) r by blast
  have "governed e"
    unfolding governed_def e(2)
    using name' nonEmptyString_text [OF name'(1)] nonEmptyString_text [OF p4(3)] n cs ret scf xf(2) gov c by auto
  then show ?thesis using p4(5) e(1) by simp
qed

lemma parse_events_facts:
  assumes "parse_events i raws entries problems = (result, [])"
  shows "problems = [] \<and> (list_all governed entries \<longrightarrow> list_all governed result)
    \<and> (distinct (map ce_name entries) \<longrightarrow> distinct (map ce_name result)) \<and> length result = length entries + length raws"
  using assms
proof (induction raws arbitrary: i entries problems)
  case (Cons raw raws)
  obtain o' problems' where p: "parseEntry i raw problems = (o', problems')" by (metis surj_pair)
  show ?case
  proof (cases o')
    case None
    have "parse_events (Suc i) raws entries problems' = (result, [])" using Cons.prems p None by simp
    then show ?thesis using Cons.IH parseEntry_None [OF p [unfolded None]] by blast
  next
    case (Some e)
    note f = parseEntry_Some [OF p [unfolded Some]]
    have ne: "ce_name e \<notin> set (map ce_name entries)"
    proof
      assume d: "ce_name e \<in> set (map ce_name entries)"
      then have "parse_events (Suc i) raws entries (problems' @ [(Some i, DUPLICATE_EVENT (ce_name e))]) = (result, [])"
        using Cons.prems p Some by simp
      then show False using Cons.IH by blast
    qed
    then have "parse_events (Suc i) raws (entries @ [e]) problems' = (result, [])" using Cons.prems p Some by simp
    from Cons.IH [OF this] show ?thesis using f ne by simp
  qed
qed simp

section \<open>Properties\<close>

text \<open>
  C37: A catalogue that parses is governed.  Every entry of the document becomes an entry, names are unique, and each entry
  keeps the governance rules: SEALED carries neither a free payload nor an exemption, a HIGHLY_SENSITIVE_FINANCIAL payload
  beyond identifiers has a complete exemption, no other class has one, versions are positive, and consumers are listed once.
\<close>

theorem parsed_catalogue_is_governed:
  assumes "parseEventCatalogue raw = Inr catalogue"
  shows "distinct (map ce_name catalogue) \<and> (\<forall>e \<in> set catalogue. governed e)
    \<and> (\<exists>members es. raw = JsObject members \<and> map_of members ''events'' = Some (JsArray es) \<and> length es = length catalogue)"
proof -
  obtain members where m: "raw = JsObject members"
    using assms by (cases raw) (simp_all add: parseEventCatalogue_def)
  obtain es where es: "map_of members ''events'' = Some (JsArray es)"
    using assms unfolding m
    by (cases "map_of members ''events''"; cases "the (map_of members ''events'')") (simp_all add: parseEventCatalogue_def)
  have "parse_events 0 es [] [] = (catalogue, [])"
    using assms unfolding m by (auto simp: parseEventCatalogue_def es split: prod.splits if_splits)
  from parse_events_facts [OF this] show ?thesis using m es by (simp add: list_all_iff)
qed

definition shipped_catalogue :: json_value where
  "shipped_catalogue = JsObject [(''events'', JsArray [JsObject
     [(''name'', JsString ''platform.diagnostic.ping''), (''schemaVersion'', JsNumber (Whole 1)),
      (''ownerModule'', JsString ''platform''), (''classification'', JsString ''INTERNAL''), (''piiFlag'', JsBool False),
      (''allowedConsumers'', JsArray [JsString ''platform-tests'', JsString ''worker-diagnostics'']),
      (''retention'', JsString ''P7D''), (''payloadRule'', JsString ''payload-permitted''), (''payloadExemption'', JsNull),
      (''payloadSchema'', JsObject [(''type'', JsString ''object''),
         (''properties'', JsObject [(''pingId'', JsObject [(''type'', JsString ''string'')]),
            (''note'', JsObject [(''type'', JsString ''string'')])]),
         (''required'', JsArray [JsString ''pingId'']), (''additionalProperties'', JsBool False)])]])]"

theorem parsed_catalogue_is_governed_witness:
  "\<exists>e. parseEventCatalogue shipped_catalogue = Inr [e] \<and> governed e \<and> ce_name e = ''platform.diagnostic.ping''"
proof -
  have "result_map (parseEventCatalogue shipped_catalogue) (map ce_name) = Inr [''platform.diagnostic.ping'']" by code_simp
  then obtain e where e: "parseEventCatalogue shipped_catalogue = Inr [e]" "ce_name e = ''platform.diagnostic.ping''"
    by (cases "parseEventCatalogue shipped_catalogue") auto
  then show ?thesis using parsed_catalogue_is_governed [OF e(1)] by simp
qed

end
