(* ===== verification/Event_Bus.thy ===== *)
theory Event_Bus
  imports Event_Catalogue "HOL-Library.AList"
begin

text \<open>
  Data classification (\<open>packages/platform/src/classification\<close>), the event envelope
  (\<open>events/envelope.ts\<close>) and the in-memory bus (\<open>events/bus.ts\<close>).  Instants are milliseconds rather than ISO texts,
  \<open>randomUUID\<close> is two fresh texts given to \<open>makeEnvelope\<close>; a handler is a function of the envelope and the
  world that answers what it threw, if anything.  Error message texts are dropped.
\<close>

section \<open>Classification\<close>

definition REDACTED_SEALED :: string where "REDACTED_SEALED = ''[sealed]''"
definition REDACTED_SECRET :: string where "REDACTED_SECRET = ''[redacted:secret]''"
definition REDACTED_HSF :: string where "REDACTED_HSF = ''[redacted:hsf]''"

definition isLoggable :: "event_classification \<Rightarrow> bool" where
  "isLoggable c \<longleftrightarrow> c \<noteq> CLASS_SECRET \<and> c \<noteq> CLASS_SEALED"

fun redactionFor :: "event_classification \<Rightarrow> string option" where
  "redactionFor CLASS_SEALED = Some REDACTED_SEALED"
| "redactionFor CLASS_SECRET = Some REDACTED_SECRET"
| "redactionFor CLASS_HIGHLY_SENSITIVE_FINANCIAL = Some REDACTED_HSF"
| "redactionFor _ = None"

definition redact :: "json_value \<Rightarrow> event_classification \<Rightarrow> json_value" where
  "redact v c = (case redactionFor c of Some t \<Rightarrow> JsString t | None \<Rightarrow> v)"

definition ends_with :: "string \<Rightarrow> string \<Rightarrow> bool" where
  "ends_with s suffix \<longleftrightarrow> length suffix \<le> length s \<and> drop (length s - length suffix) s = suffix"

definition isIdField :: "string \<Rightarrow> bool" where
  "isIdField field \<longleftrightarrow> field = ''id'' \<or> ends_with field ''Id'' \<or> ends_with field ''_id''"

definition isOccurredAtField :: "string \<Rightarrow> bool" where
  "isOccurredAtField field \<longleftrightarrow> field = ''occurredAt'' \<or> field = ''occurred_at''"

datatype event_error =
    CATALOGUE_ERROR catalogue_error
  | EVENT_PAYLOAD_VIOLATION event_classification "string list"
  | EMPTY_ENVELOPE_FIELD string

definition assertEventPayloadAllowed ::
  "event_classification \<Rightarrow> string list \<Rightarrow> payload_exemption option \<Rightarrow> (event_error, unit) outcome" where
  "assertEventPayloadAllowed c names exemption =
     (if c = CLASS_SECRET then Inl (EVENT_PAYLOAD_VIOLATION CLASS_SECRET names)
      else if c = CLASS_SEALED then
        (let offending = filter (\<lambda>f. \<not> (isIdField f \<or> f = ''status'' \<or> isOccurredAtField f)) names
         in if offending \<noteq> [] then Inl (EVENT_PAYLOAD_VIOLATION CLASS_SEALED offending) else Inr ())
      else if c = CLASS_HIGHLY_SENSITIVE_FINANCIAL then
        (let offending = filter (\<lambda>f. \<not> (isIdField f \<or> isOccurredAtField f)) names
         in if offending = [] then Inr ()
            else if (case exemption of None \<Rightarrow> False | Some x \<Rightarrow>
                 \<not> blank (px_owner x) \<and> \<not> blank (px_reason x) \<and> \<not> blank (px_reviewer x)) then Inr ()
            else Inl (EVENT_PAYLOAD_VIOLATION CLASS_HIGHLY_SENSITIVE_FINANCIAL offending))
      else Inr ())"

section \<open>The envelope\<close>

record pending_envelope =
  ev_eventId :: string
  ev_eventName :: string
  ev_schemaVersion :: int
  ev_occurredAt :: millis
  ev_correlationId :: string
  ev_causationId :: "string option"
  ev_tenantId :: "string option"
  ev_producer :: string
  ev_classification :: event_classification
  ev_payload :: "(string \<times> json_value) list"

record event_envelope = pending_envelope +
  ev_recordedAt :: millis

record make_envelope_input =
  mi_name :: string
  mi_payload :: "(string \<times> json_value) list"
  mi_correlationId :: "string option"
  mi_causationId :: "string option"
  mi_tenantId :: "string option"
  mi_producer :: string

definition assertNonEmpty :: "string \<Rightarrow> string option \<Rightarrow> (event_error, unit) outcome" where
  "assertNonEmpty field v = (case v of
     None \<Rightarrow> Inr () | Some s \<Rightarrow> if blank s then Inl (EMPTY_ENVELOPE_FIELD field) else Inr ())"

definition makeEnvelope ::
  "event_catalogue \<Rightarrow> make_envelope_input \<Rightarrow> string \<Rightarrow> string \<Rightarrow> millis \<Rightarrow> (event_error, pending_envelope) outcome" where
  "makeEnvelope catalogue i freshId freshCorrelation now =
     result_andThen (result_mapErr (getEventEntry catalogue (mi_name i)) CATALOGUE_ERROR) (\<lambda>entry.
     result_andThen (result_mapErr (assertPayloadMatchesSchema entry (JsObject (mi_payload i))) CATALOGUE_ERROR) (\<lambda>u.
     result_andThen (assertEventPayloadAllowed (ce_classification entry) (map fst (mi_payload i)) (ce_payloadExemption entry)) (\<lambda>u.
     result_andThen (assertNonEmpty ''producer'' (Some (mi_producer i))) (\<lambda>u.
     result_andThen (assertNonEmpty ''correlationId'' (mi_correlationId i)) (\<lambda>u.
     result_andThen (assertNonEmpty ''causationId'' (mi_causationId i)) (\<lambda>u.
     result_andThen (assertNonEmpty ''tenantId'' (mi_tenantId i)) (\<lambda>u.
       Inr \<lparr>ev_eventId = freshId, ev_eventName = ce_name entry, ev_schemaVersion = ce_schemaVersion entry,
            ev_occurredAt = now,
            ev_correlationId = (case mi_correlationId i of Some c \<Rightarrow> c | None \<Rightarrow> freshCorrelation),
            ev_causationId = mi_causationId i, ev_tenantId = mi_tenantId i, ev_producer = mi_producer i,
            ev_classification = ce_classification entry, ev_payload = mi_payload i\<rparr>)))))))"

definition recordEnvelope :: "pending_envelope \<Rightarrow> millis \<Rightarrow> event_envelope" where
  "recordEnvelope pending recordedAt = pending_envelope.extend pending (event_envelope.fields recordedAt)"

section \<open>The bus\<close>

type_synonym 'w event_handler = "event_envelope \<Rightarrow> 'w \<Rightarrow> string option \<times> 'w"

record 'w subscription =
  su_consumerName :: string
  su_handler :: "'w event_handler"

record consumer_failure =
  cf_consumerName :: string
  cf_eventId :: string
  cf_eventName :: string
  cf_error :: string

type_synonym 'w event_bus = "(string \<times> 'w subscription list) list"

definition bus_subscriptions :: "'w event_bus \<Rightarrow> string \<Rightarrow> 'w subscription list" where
  "bus_subscriptions bus eventName = (case map_of bus eventName of None \<Rightarrow> [] | Some s \<Rightarrow> s)"

definition subscribe ::
  "event_catalogue \<Rightarrow> string \<Rightarrow> string \<Rightarrow> 'w event_handler \<Rightarrow> 'w event_bus \<Rightarrow> (catalogue_error, 'w event_bus) outcome" where
  "subscribe catalogue consumerName eventName h bus =
     result_andThen (assertConsumerAllowed catalogue eventName consumerName) (\<lambda>entry.
       Inr (AList.update eventName (bus_subscriptions bus eventName @ [\<lparr>su_consumerName = consumerName, su_handler = h\<rparr>]) bus))"

fun deliver ::
  "event_envelope \<Rightarrow> 'w subscription list \<Rightarrow> 'w \<Rightarrow> consumer_failure list \<times> 'w" where
  "deliver env [] w = ([], w)"
| "deliver env (s # rest) w =
     (let (threw, w1) = su_handler s env w;
          (failures, w2) = deliver env rest w1
      in ((case threw of None \<Rightarrow> [] | Some e \<Rightarrow>
             [\<lparr>cf_consumerName = su_consumerName s, cf_eventId = ev_eventId env, cf_eventName = ev_eventName env, cf_error = e\<rparr>])
          @ failures, w2))"

definition bus_publish ::
  "event_catalogue \<Rightarrow> 'w event_bus \<Rightarrow> event_envelope \<Rightarrow> 'w \<Rightarrow> (catalogue_error, consumer_failure list) outcome \<times> 'w" where
  "bus_publish catalogue bus env w = (case getEventEntry catalogue (ev_eventName env) of
     Inl e \<Rightarrow> (Inl e, w)
   | Inr entry \<Rightarrow> (case deliver env (bus_subscriptions bus (ev_eventName env)) w of (failures, w') \<Rightarrow> (Inr failures, w')))"

section \<open>Lemmas\<close>

lemma getEventEntry_Inr: "getEventEntry catalogue n = Inr e \<Longrightarrow> e \<in> set catalogue \<and> ce_name e = n"
  by (auto simp: getEventEntry_def dest: find_Some_set split: option.splits)

lemma field_violations_empty:
  "field_violations schema fv = [] \<longleftrightarrow> (\<exists>t. map_of (ps_properties schema) (fst fv) = Some t \<and> js_typeof (snd fv) = Some t)"
  by (auto simp: field_violations_def split: option.split)

lemma payload_conforms:
  "validatePayloadAgainstSchema schema (JsObject members) = [] \<longleftrightarrow>
     (\<forall>f \<in> set (ps_required schema). js_in f members)
     \<and> (\<forall>(f, v) \<in> set members. \<exists>t. map_of (ps_properties schema) f = Some t \<and> js_typeof v = Some t)"
  by (auto simp: validatePayloadAgainstSchema_def filter_empty_conv field_violations_empty)

definition payload_governed :: "event_classification \<Rightarrow> string list \<Rightarrow> payload_exemption option \<Rightarrow> bool" where
  "payload_governed c names exemption \<longleftrightarrow> c \<noteq> CLASS_SECRET
     \<and> (c = CLASS_SEALED \<longrightarrow> (\<forall>f \<in> set names. isIdField f \<or> f = ''status'' \<or> isOccurredAtField f))
     \<and> (c = CLASS_HIGHLY_SENSITIVE_FINANCIAL \<longrightarrow>
          (\<forall>f \<in> set names. isIdField f \<or> isOccurredAtField f) \<or> (\<exists>x. exemption = Some x \<and> complete_exemption x))"

lemma assertEventPayloadAllowed_iff:
  "assertEventPayloadAllowed c names exemption = Inr u \<longleftrightarrow> payload_governed c names exemption"
  by (cases c; cases exemption)
    (auto simp: assertEventPayloadAllowed_def payload_governed_def complete_exemption_def Let_def filter_empty_conv)

text \<open>The subscriptions a bus can hold: only those of allowed consumers.\<close>

inductive bus_built :: "event_catalogue \<Rightarrow> 'w event_bus \<Rightarrow> bool" for catalogue where
  bus_empty: "bus_built catalogue []"
| bus_subscribe: "bus_built catalogue bus \<Longrightarrow> subscribe catalogue consumer n h bus = Inr bus' \<Longrightarrow> bus_built catalogue bus'"

lemma bus_built_allowed:
  "bus_built catalogue bus \<Longrightarrow> s \<in> set (bus_subscriptions bus n) \<Longrightarrow>
     \<exists>e \<in> set catalogue. ce_name e = n \<and> su_consumerName s \<in> set (ce_allowedConsumers e)"
proof (induction rule: bus_built.induct)
  case bus_empty then show ?case by (simp add: bus_subscriptions_def)
next
  case (bus_subscribe bus consumer m h bus')
  obtain e where e: "getEventEntry catalogue m = Inr e" "consumer \<in> set (ce_allowedConsumers e)"
    and bus': "bus' = AList.update m (bus_subscriptions bus m @ [\<lparr>su_consumerName = consumer, su_handler = h\<rparr>]) bus"
    using bus_subscribe(2) by (auto simp: subscribe_def assertConsumerAllowed_def result_simps split: if_splits)
  show ?case
  proof (cases "n = m \<and> su_consumerName s = consumer")
    case True then show ?thesis using e getEventEntry_Inr [OF e(1)] by auto
  next
    case False
    then have "s \<in> set (bus_subscriptions bus n)"
      using bus_subscribe(4) unfolding bus' by (auto simp: bus_subscriptions_def update_conv' split: if_splits option.splits)
    then show ?thesis by (rule bus_subscribe(3))
  qed
qed

lemma deliver_all: "snd (deliver env ss w) = fold (\<lambda>s w. snd (su_handler s env w)) ss w"
  by (induction ss arbitrary: w) (auto simp: Let_def split_beta)

section \<open>Properties\<close>

text \<open>
  No envelope escapes governance.  When an envelope is built, its name is catalogued, it carries the entry's version and
  classification, every payload field is declared with its type, and the classification allows the fields:
  SECRET is impossible, SEALED carries identifiers and status only, whatever exemption is declared, and a
  HIGHLY_SENSITIVE_FINANCIAL payload is identifiers only unless the entry's exemption is complete.
\<close>

theorem envelopes_are_governed:
  assumes "makeEnvelope catalogue i freshId freshCorrelation now = Inr env"
  shows "\<exists>e \<in> set catalogue. ce_name e = mi_name i \<and> ev_eventName env = mi_name i
    \<and> ev_schemaVersion env = ce_schemaVersion e \<and> ev_classification env = ce_classification e \<and> ev_payload env = mi_payload i
    \<and> (\<forall>(f, v) \<in> set (mi_payload i). \<exists>t. map_of (ps_properties (ce_payloadSchema e)) f = Some t \<and> js_typeof v = Some t)
    \<and> ce_classification e \<noteq> CLASS_SECRET
    \<and> (ce_classification e = CLASS_SEALED \<longrightarrow> (\<forall>f \<in> set (map fst (mi_payload i)). isIdField f \<or> f = ''status'' \<or> isOccurredAtField f))
    \<and> (ce_classification e = CLASS_HIGHLY_SENSITIVE_FINANCIAL \<longrightarrow>
         (\<forall>f \<in> set (map fst (mi_payload i)). isIdField f \<or> isOccurredAtField f)
         \<or> (\<exists>x. ce_payloadExemption e = Some x \<and> complete_exemption x))"
proof -
  obtain e where g: "getEventEntry catalogue (mi_name i) = Inr e"
    and c: "assertPayloadMatchesSchema e (JsObject (mi_payload i)) = Inr ()"
    and a: "assertEventPayloadAllowed (ce_classification e) (map fst (mi_payload i)) (ce_payloadExemption e) = Inr ()"
    and env: "ev_eventName env = ce_name e" "ev_schemaVersion env = ce_schemaVersion e" "ev_classification env = ce_classification e" "ev_payload env = mi_payload i"
    using assms unfolding makeEnvelope_def
    by (cases "getEventEntry catalogue (mi_name i)"; cases "assertPayloadMatchesSchema (projr (getEventEntry catalogue (mi_name i))) (JsObject (mi_payload i))")
      (auto simp: result_simps)
  have "validatePayloadAgainstSchema (ce_payloadSchema e) (JsObject (mi_payload i)) = []"
    using c by (simp add: assertPayloadMatchesSchema_def split: if_splits)
  then show ?thesis
    using getEventEntry_Inr [OF g] env a unfolding assertEventPayloadAllowed_iff payload_governed_def payload_conforms
    by (intro bexI [of _ e]) simp_all
qed

definition ping_catalogue :: event_catalogue where
  "ping_catalogue = (case parseEventCatalogue shipped_catalogue of Inr c \<Rightarrow> c | Inl e \<Rightarrow> [])"

definition ping_input :: make_envelope_input where
  "ping_input = \<lparr>mi_name = ''platform.diagnostic.ping'', mi_payload = [(''pingId'', JsString ''p1'')], mi_correlationId = None,
     mi_causationId = None, mi_tenantId = None, mi_producer = ''karar-worker''\<rparr>"

theorem envelopes_are_governed_witness:
  "\<exists>env e. makeEnvelope ping_catalogue ping_input ''e1'' ''c1'' 5 = Inr env \<and> e \<in> set ping_catalogue
     \<and> ev_classification env = ce_classification e \<and> ce_classification e \<noteq> CLASS_SECRET"
proof -
  have "result_map (makeEnvelope ping_catalogue ping_input ''e1'' ''c1'' 5) ev_eventId = Inr ''e1''" by code_simp
  then obtain env where "makeEnvelope ping_catalogue ping_input ''e1'' ''c1'' 5 = Inr env"
    by (cases "makeEnvelope ping_catalogue ping_input ''e1'' ''c1'' 5") auto
  from this envelopes_are_governed [OF this] show ?thesis by blast
qed

text \<open>
  The bus isolates consumers and admits only the allowed.  Publishing a catalogued envelope runs every handler subscribed to its event,
  in order, each exactly once whatever the others throw; every handler run belongs to a consumer the entry allows;
  an uncatalogued envelope reaches nobody.
\<close>

theorem bus_delivers_to_allowed_consumers:
  assumes "bus_built catalogue bus"
  shows "(\<forall>s \<in> set (bus_subscriptions bus (ev_eventName env)).
        \<exists>e \<in> set catalogue. ce_name e = ev_eventName env \<and> su_consumerName s \<in> set (ce_allowedConsumers e))
    \<and> (case bus_publish catalogue bus env w of
         (Inl e, w') \<Rightarrow> ev_eventName env \<notin> set (map ce_name catalogue) \<and> w' = w
       | (Inr failures, w') \<Rightarrow> ev_eventName env \<in> set (map ce_name catalogue)
           \<and> w' = fold (\<lambda>s w. snd (su_handler s env w)) (bus_subscriptions bus (ev_eventName env)) w)"
proof -
  have "(case bus_publish catalogue bus env w of
         (Inl e, w') \<Rightarrow> ev_eventName env \<notin> set (map ce_name catalogue) \<and> w' = w
       | (Inr failures, w') \<Rightarrow> ev_eventName env \<in> set (map ce_name catalogue)
           \<and> w' = fold (\<lambda>s w. snd (su_handler s env w)) (bus_subscriptions bus (ev_eventName env)) w)"
  proof (cases "getEventEntry catalogue (ev_eventName env)")
    case (Inl x)
    then have "ev_eventName env \<notin> set (map ce_name catalogue)"
      by (auto simp: getEventEntry_def find_None_iff_all split: option.splits)
    then show ?thesis using Inl by (simp add: bus_publish_def)
  next
    case (Inr e)
    then show ?thesis using getEventEntry_Inr [OF Inr] deliver_all [of env "bus_subscriptions bus (ev_eventName env)" w]
      by (auto simp: bus_publish_def split: prod.split intro: rev_image_eqI)
  qed
  then show ?thesis using bus_built_allowed [OF assms] by blast
qed

definition ping_bus :: "nat event_bus" where
  "ping_bus = (case subscribe ping_catalogue ''platform-tests'' ''platform.diagnostic.ping'' (\<lambda>env w. (Some ''boom'', Suc w)) [] of
     Inr b \<Rightarrow> b | Inl e \<Rightarrow> [])"

theorem bus_delivers_to_allowed_consumers_witness:
  "\<exists>failures. bus_publish ping_catalogue ping_bus (recordEnvelope
       \<lparr>ev_eventId = ''e1'', ev_eventName = ''platform.diagnostic.ping'', ev_schemaVersion = 1, ev_occurredAt = 1,
        ev_correlationId = ''c'', ev_causationId = None, ev_tenantId = None, ev_producer = ''w'',
        ev_classification = CLASS_INTERNAL, ev_payload = []\<rparr> 2) 0 = (Inr failures, 1)"
proof -
  let ?e = "recordEnvelope
       \<lparr>ev_eventId = ''e1'', ev_eventName = ''platform.diagnostic.ping'', ev_schemaVersion = 1, ev_occurredAt = 1,
        ev_correlationId = ''c'', ev_causationId = None, ev_tenantId = None, ev_producer = ''w'',
        ev_classification = CLASS_INTERNAL, ev_payload = []\<rparr> 2"
  let ?s = "subscribe ping_catalogue ''platform-tests'' ''platform.diagnostic.ping'' (\<lambda>env w. (Some ''boom'', Suc w)) []"
  have n: "ev_eventName ?e = ''platform.diagnostic.ping''" by code_simp
  have sub: "result_isOk ?s" and known: "''platform.diagnostic.ping'' \<in> set (map ce_name ping_catalogue)"
    and fin: "fold (\<lambda>s w. snd (su_handler s ?e w)) (bus_subscriptions ping_bus ''platform.diagnostic.ping'') 0 = 1" by code_simp+
  have "?s = Inr ping_bus" using sub by (cases ?s) (simp_all add: ping_bus_def)
  then have b: "bus_built ping_catalogue ping_bus" by (rule bus_subscribe [OF bus_empty])
  show ?thesis
  proof (cases "bus_publish ping_catalogue ping_bus ?e 0")
    case (Pair r w')
    then show ?thesis using bus_delivers_to_allowed_consumers [OF b, of ?e 0] known fin unfolding n
      by (cases r) simp_all
  qed
qed

end
