(* ===== verification/Outbox.thy ===== *)
theory Outbox
  imports Job_Queue Event_Bus
begin

text \<open>
  The transactional outbox (\<open>packages/platform/src/outbox\<close>): enqueueing in the caller's transaction, the relay, and the
  consumers' idempotency receipts, with \<open>withTransaction\<close> of \<open>db/adapter.ts\<close>.  The table
  \<open>platform.outbox_events\<close> is a list of rows; an update that would break its CHECK constraints raises.  The publisher is a function of
  the envelope and the world: everything that happens while it runs.  The lag gauge, metrics and logs are left out.
\<close>

section \<open>Rows\<close>

record outbox_row =
  ob_id :: string
  ob_envelope :: event_envelope
  ob_createdAt :: millis
  ob_availableAt :: millis
  ob_claimedBy :: "string option"
  ob_claimExpiresAt :: "millis option"
  ob_attempts :: int
  ob_maxAttempts :: int
  ob_publishedAt :: "millis option"
  ob_deadLetteredAt :: "millis option"
  ob_lastError :: "string option"

definition outbox_checks :: "outbox_row \<Rightarrow> bool" where
  "outbox_checks r \<longleftrightarrow> (ob_publishedAt r = None \<or> ob_deadLetteredAt r = None)
     \<and> (ob_claimedBy r = None \<longleftrightarrow> ob_claimExpiresAt r = None) \<and> 0 \<le> ob_attempts r \<and> 1 \<le> ob_maxAttempts r"

text \<open>An UPDATE: all matching rows, or none when one of them would break a constraint.\<close>

definition outbox_update ::
  "(outbox_row \<Rightarrow> bool) \<Rightarrow> (outbox_row \<Rightarrow> outbox_row) \<Rightarrow> outbox_row list \<Rightarrow> outbox_row list option" where
  "outbox_update p f rows =
     (if list_ex (\<lambda>r. p r \<and> \<not> outbox_checks (f r)) rows then None else Some (snd (update_many p f rows)))"

definition enqueueInTransaction ::
  "pending_envelope \<Rightarrow> millis \<Rightarrow> outbox_row list \<Rightarrow> (event_envelope \<times> outbox_row list) option" where
  "enqueueInTransaction pending now rows =
     (let envelope = recordEnvelope pending now;
          row = \<lparr>ob_id = ev_eventId envelope, ob_envelope = envelope, ob_createdAt = now, ob_availableAt = now,
                 ob_claimedBy = None, ob_claimExpiresAt = None, ob_attempts = 0, ob_maxAttempts = 8,
                 ob_publishedAt = None, ob_deadLetteredAt = None, ob_lastError = None\<rparr>
      in if ev_schemaVersion envelope < 1 then None
         else map_option (\<lambda>rows'. (envelope, rows')) (create_row (\<lambda>a b. ob_id a = ob_id b) row rows))"

section \<open>The relay\<close>

record 'w outbox_world =
  ow_rows :: "outbox_row list"
  ow_now :: millis
  ow_stopping :: bool
  ow_lastTickAt :: "millis option"
  ow_outside :: 'w

datatype relay_query = RELAY_CLAIM | RELAY_MARK | RELAY_RELEASE
datatype relay_error = STATEMENT_RAISED

type_synonym ('w, 'a) relay_effect = "('w outbox_world, relay_error, 'a) effect"

record 'w relay_options =
  ro_relayId :: string
  ro_publisher :: "event_envelope \<Rightarrow> 'w outbox_world \<Rightarrow> thrown option \<times> 'w outbox_world"
  ro_batchSize :: "int option"
  ro_claimTtlMs :: "int option"
  ro_backoffBaseMs :: "int option"
  ro_backoffCapMs :: "int option"

record 'w outbox_relay =
  rl_relayId :: string
  rl_publisher :: "event_envelope \<Rightarrow> 'w outbox_world \<Rightarrow> thrown option \<times> 'w outbox_world"
  rl_batchSize :: int
  rl_claimTtlMs :: int
  rl_backoffBaseMs :: int
  rl_backoffCapMs :: int
  rl_locked :: "string \<Rightarrow> bool"
  rl_down :: "relay_query \<Rightarrow> 'w outbox_world \<Rightarrow> bool"

definition MAX_BATCH_SIZE :: int where "MAX_BATCH_SIZE = 100"

definition new_relay ::
  "'w relay_options \<Rightarrow> (string \<Rightarrow> bool) \<Rightarrow> (relay_query \<Rightarrow> 'w outbox_world \<Rightarrow> bool) \<Rightarrow> 'w outbox_relay option" where
  "new_relay options locked down =
     (if blank (ro_relayId options) then None
      else Some \<lparr>rl_relayId = ro_relayId options, rl_publisher = ro_publisher options,
        rl_batchSize = min (max 1 (or_default (ro_batchSize options) 25)) MAX_BATCH_SIZE,
        rl_claimTtlMs = or_default (ro_claimTtlMs options) 30000,
        rl_backoffBaseMs = or_default (ro_backoffBaseMs options) 1000,
        rl_backoffCapMs = or_default (ro_backoffCapMs options) 60000,
        rl_locked = locked, rl_down = down\<rparr>)"

text \<open>A handle of the relay: the row as the claim returned it.\<close>

record claimed_event =
  cv_id :: string
  cv_envelope :: event_envelope
  cv_attempts :: int
  cv_maxAttempts :: int

definition relay_statement ::
  "'w outbox_relay \<Rightarrow> relay_query \<Rightarrow> (millis \<Rightarrow> outbox_row list \<Rightarrow> ('a \<times> outbox_row list) option) \<Rightarrow> ('w, 'a) relay_effect" where
  "relay_statement rl call f = (\<lambda>w.
     if rl_down rl call w then (Inl STATEMENT_RAISED, w)
     else (case f (ow_now w) (ow_rows w) of
             None \<Rightarrow> (Inl STATEMENT_RAISED, w)
           | Some (x, rows) \<Rightarrow> (Inr x, w\<lparr>ow_rows := rows\<rparr>)))"

definition event_claimable :: "millis \<Rightarrow> outbox_row \<Rightarrow> bool" where
  "event_claimable now r \<longleftrightarrow> ob_publishedAt r = None \<and> ob_deadLetteredAt r = None \<and> ob_availableAt r \<le> now
     \<and> (ob_claimedBy r = None \<or> (case ob_claimExpiresAt r of None \<Rightarrow> False | Some t \<Rightarrow> t < now))"

definition event_order :: "outbox_row \<Rightarrow> outbox_row \<Rightarrow> int" where
  "event_order a b = (if ob_createdAt a < ob_createdAt b then -1 else if ob_createdAt b < ob_createdAt a then 1
     else string_cmp (ob_id a) (ob_id b))"

definition claim_rows ::
  "string \<Rightarrow> int \<Rightarrow> int \<Rightarrow> (string \<Rightarrow> bool) \<Rightarrow> millis \<Rightarrow> outbox_row list \<Rightarrow> claimed_event list \<times> outbox_row list" where
  "claim_rows relayId ttl batch locked now rows =
     (let ids = map ob_id (take (nat batch)
                  (find_many (\<lambda>r. event_claimable now r \<and> \<not> locked (ob_id r)) event_order rows));
          picked = (\<lambda>r. ob_id r \<in> set ids)
      in (map (\<lambda>r. \<lparr>cv_id = ob_id r, cv_envelope = ob_envelope r, cv_attempts = ob_attempts r,
                 cv_maxAttempts = ob_maxAttempts r\<rparr>) (filter picked rows),
          map (\<lambda>r. if picked r then r\<lparr>ob_claimedBy := Some relayId, ob_claimExpiresAt := Some (now + ttl)\<rparr> else r) rows))"

definition claimBatch :: "'w outbox_relay \<Rightarrow> ('w, claimed_event list) relay_effect" where
  "claimBatch rl = relay_statement rl RELAY_CLAIM (\<lambda>now rows.
     Some (claim_rows (rl_relayId rl) (rl_claimTtlMs rl) (rl_batchSize rl) (rl_locked rl) now rows))"

definition unclaim :: "outbox_row \<Rightarrow> outbox_row" where
  "unclaim r = r\<lparr>ob_claimedBy := None, ob_claimExpiresAt := None\<rparr>"

definition mark_published :: "claimed_event \<Rightarrow> millis \<Rightarrow> outbox_row list \<Rightarrow> outbox_row list option" where
  "mark_published c now = outbox_update (\<lambda>r. ob_id r = cv_id c \<and> ob_publishedAt r = None)
     (\<lambda>r. (unclaim r)\<lparr>ob_publishedAt := Some now\<rparr>)"

datatype relay_outcome = PUBLISHED | FAILED | EVENT_DEAD_LETTERED

definition mark_failed ::
  "int \<Rightarrow> int \<Rightarrow> claimed_event \<Rightarrow> thrown \<Rightarrow> millis \<Rightarrow> outbox_row list \<Rightarrow> (relay_outcome \<times> outbox_row list) option" where
  "mark_failed base cap c e now rows =
     (let attemptsAfter = cv_attempts c + 1; lastError = describeError e
      in if cv_maxAttempts c \<le> attemptsAfter
         then map_option (Pair EVENT_DEAD_LETTERED) (outbox_update (\<lambda>r. ob_id r = cv_id c)
                (\<lambda>r. (unclaim r)\<lparr>ob_attempts := attemptsAfter, ob_lastError := Some lastError,
                   ob_deadLetteredAt := Some now\<rparr>) rows)
         else map_option (Pair FAILED) (outbox_update (\<lambda>r. ob_id r = cv_id c)
                (\<lambda>r. (unclaim r)\<lparr>ob_attempts := attemptsAfter, ob_lastError := Some lastError,
                   ob_availableAt := now + min cap (base * 2 ^ nat (attemptsAfter - 1))\<rparr>) rows))"

definition markFailed :: "'w outbox_relay \<Rightarrow> claimed_event \<Rightarrow> thrown \<Rightarrow> ('w, relay_outcome) relay_effect" where
  "markFailed rl c e = relay_statement rl RELAY_MARK (mark_failed (rl_backoffBaseMs rl) (rl_backoffCapMs rl) c e)"

definition publishOne :: "'w outbox_relay \<Rightarrow> claimed_event \<Rightarrow> ('w, relay_outcome) relay_effect" where
  "publishOne rl c =
     thenE (updateE (rl_publisher rl (cv_envelope c))) (\<lambda>threw.
     case threw of
       Some e \<Rightarrow> markFailed rl c e
     | None \<Rightarrow> relay_statement rl RELAY_MARK (\<lambda>now rows. map_option (Pair PUBLISHED) (mark_published c now rows)))"

definition release_claims :: "string \<Rightarrow> outbox_row list \<Rightarrow> outbox_row list option" where
  "release_claims relayId = outbox_update (\<lambda>r. ob_claimedBy r = Some relayId \<and> ob_publishedAt r = None
     \<and> ob_deadLetteredAt r = None) unclaim"

definition releaseOwnClaims :: "'w outbox_relay \<Rightarrow> ('w, unit) relay_effect" where
  "releaseOwnClaims rl = relay_statement rl RELAY_RELEASE (\<lambda>now rows. map_option (Pair ()) (release_claims (rl_relayId rl) rows))"

record relay_report =
  rr_claimed :: nat
  rr_published :: nat
  rr_failed :: nat
  rr_deadLettered :: nat

definition count_outcome :: "relay_outcome \<Rightarrow> relay_report \<Rightarrow> relay_report" where
  "count_outcome out r = (case out of
     PUBLISHED \<Rightarrow> r\<lparr>rr_published := rr_published r + 1\<rparr>
   | FAILED \<Rightarrow> r\<lparr>rr_failed := rr_failed r + 1\<rparr>
   | EVENT_DEAD_LETTERED \<Rightarrow> r\<lparr>rr_deadLettered := rr_deadLettered r + 1\<rparr>)"

fun relay_batch :: "'w outbox_relay \<Rightarrow> claimed_event list \<Rightarrow> relay_report \<Rightarrow> ('w, relay_report) relay_effect" where
  "relay_batch rl [] r = returnE r"
| "relay_batch rl (c # cs) r =
     thenE (publishOne rl c) (\<lambda>out.
     thenE (readE ow_stopping) (\<lambda>stopping.
       if stopping \<and> cs \<noteq> []
       then thenE (releaseOwnClaims rl) (\<lambda>u. returnE (count_outcome out r))
       else relay_batch rl cs (count_outcome out r)))"

definition relay_runOnce :: "'w outbox_relay \<Rightarrow> ('w, relay_report) relay_effect" where
  "relay_runOnce rl =
     thenE (claimBatch rl) (\<lambda>cs.
     thenE (relay_batch rl cs \<lparr>rr_claimed = length cs, rr_published = 0, rr_failed = 0, rr_deadLettered = 0\<rparr>) (\<lambda>r.
     thenE (updateE (\<lambda>w. ((), w\<lparr>ow_lastTickAt := Some (ow_now w)\<rparr>))) (\<lambda>u.
       returnE r)))"

section \<open>Transactions and receipts\<close>

text \<open>The receipts of the consumers, beside the state their effects change.\<close>

record 's consumer_world =
  cw_receipts :: "(string \<times> string) list"
  cw_state :: 's

datatype 'a idempotent_outcome = EXECUTED 'a | NOT_EXECUTED

definition withIdempotency ::
  "string \<Rightarrow> string \<Rightarrow> ('s consumer_world, 'e, 'a) effect \<Rightarrow> ('s consumer_world, 'e, 'a idempotent_outcome) effect" where
  "withIdempotency consumerName eventId f = (\<lambda>w.
     if (consumerName, eventId) \<in> set (cw_receipts w) then (Inr NOT_EXECUTED, w)
     else thenE f (\<lambda>x. returnE (EXECUTED x)) (w\<lparr>cw_receipts := (consumerName, eventId) # cw_receipts w\<rparr>))"

end
