(* ===== verification/Outbox_Laws.thy ===== *)
theory Outbox_Laws
  imports Outbox
begin

text \<open>
  What the outbox guarantees.  \<open>outbox_step\<close> is one statement of some relay or producer, with any handle, stale ones
  included; \<open>outbox_wf\<close> is the table's invariant.  The properties: terminal events stay terminal and none is lost, claims exclude
  each other until they expire, what one publish attempt does on every branch, the stale failure that takes
  an event away from another relay, and the exactly-once effect of a receipt.
\<close>

section \<open>Steps and the invariant\<close>

inductive outbox_step :: "outbox_row list \<Rightarrow> outbox_row list \<Rightarrow> bool" where
  os_enqueue: "enqueueInTransaction pending now rows = Some (env, rows') \<Longrightarrow> outbox_step rows rows'"
| os_claim: "outbox_step rows (snd (claim_rows relayId ttl batch locked now rows))"
| os_published: "mark_published c now rows = Some rows' \<Longrightarrow> outbox_step rows rows'"
| os_failed: "mark_failed base cap c e now rows = Some (out, rows') \<Longrightarrow> outbox_step rows rows'"
| os_released: "release_claims relayId rows = Some rows' \<Longrightarrow> outbox_step rows rows'"

definition outbox_wf :: "outbox_row list \<Rightarrow> bool" where
  "outbox_wf rows \<longleftrightarrow> distinct (map ob_id rows) \<and> (\<forall>r \<in> set rows. outbox_checks r)"

text \<open>How a row may develop.\<close>

definition develops :: "outbox_row \<Rightarrow> outbox_row \<Rightarrow> bool" where
  "develops r x \<longleftrightarrow> ob_id x = ob_id r \<and> ob_envelope x = ob_envelope r
     \<and> (ob_publishedAt r \<noteq> None \<longrightarrow> ob_publishedAt x = ob_publishedAt r)
     \<and> (ob_deadLetteredAt r \<noteq> None \<longrightarrow> ob_deadLetteredAt x \<noteq> None)"

lemma develops_refl [simp]: "develops r r"
  by (simp add: develops_def)

lemma develops_trans: "develops a b \<Longrightarrow> develops b c \<Longrightarrow> develops a c"
  unfolding develops_def by metis

definition outbox_keeps :: "outbox_row list \<Rightarrow> outbox_row list \<Rightarrow> bool" where
  "outbox_keeps rows rows' \<longleftrightarrow> (outbox_wf rows \<longrightarrow> outbox_wf rows') \<and> (\<forall>r \<in> set rows. \<exists>x \<in> set rows'. develops r x)"

lemma outbox_keeps_refl: "outbox_keeps rows rows"
  unfolding outbox_keeps_def using develops_refl by blast

lemma outbox_keeps_trans: "outbox_keeps a b \<Longrightarrow> outbox_keeps b c \<Longrightarrow> outbox_keeps a c"
  unfolding outbox_keeps_def using develops_trans by metis

interpretation outbox: step_relation outbox_keeps
  by unfold_locales (rule outbox_keeps_refl, rule outbox_keeps_trans)

lemma keeps_map:
  assumes "\<And>r. r \<in> set rows \<Longrightarrow> outbox_checks r \<Longrightarrow> outbox_checks (g r)" "\<And>r. r \<in> set rows \<Longrightarrow> develops r (g r)"
  shows "outbox_keeps rows (map g rows)"
proof -
  have "map ob_id (map g rows) = map ob_id rows" using assms(2) by (simp add: develops_def)
  moreover have "\<forall>x \<in> set (map g rows). outbox_checks x" if "\<forall>r \<in> set rows. outbox_checks r" using assms(1) that by auto
  ultimately have "outbox_wf rows \<longrightarrow> outbox_wf (map g rows)" unfolding outbox_wf_def by metis
  then show ?thesis using assms(2) by (auto simp: outbox_keeps_def)
qed

lemma outbox_update_Some:
  "outbox_update p f rows = Some rows' \<longleftrightarrow>
     (\<forall>r \<in> set rows. p r \<longrightarrow> outbox_checks (f r)) \<and> rows' = map (\<lambda>r. if p r then f r else r) rows"
  by (auto simp: outbox_update_def list_ex_iff update_many_def)

lemma outbox_update_keeps:
  assumes "outbox_update p f rows = Some rows'" "\<And>r. p r \<Longrightarrow> develops r (f r)"
  shows "outbox_keeps rows rows'"
proof -
  have "outbox_keeps rows (map (\<lambda>r. if p r then f r else r) rows)"
    by (rule keeps_map) (use assms in \<open>auto simp: outbox_update_Some\<close>)
  then show ?thesis using assms(1) by (simp add: outbox_update_Some)
qed

definition picked_events :: "int \<Rightarrow> (string \<Rightarrow> bool) \<Rightarrow> millis \<Rightarrow> outbox_row list \<Rightarrow> string set" where
  "picked_events batch locked now rows = set (map ob_id (take (nat batch)
     (find_many (\<lambda>r. event_claimable now r \<and> \<not> locked (ob_id r)) event_order rows)))"

lemma claim_rows_snd:
  "snd (claim_rows relayId ttl batch locked now rows) = map (\<lambda>r.
     if ob_id r \<in> picked_events batch locked now rows
     then r\<lparr>ob_claimedBy := Some relayId, ob_claimExpiresAt := Some (now + ttl)\<rparr> else r) rows"
  by (simp add: claim_rows_def Let_def picked_events_def)

lemma picked_sub: "i \<in> picked_events batch locked now rows \<Longrightarrow> \<exists>x \<in> set rows. ob_id x = i \<and> event_claimable now x"
  unfolding picked_events_def using in_set_takeD by fastforce

lemma claim_rows_ids: "set (map cv_id (fst (claim_rows relayId ttl batch locked now rows))) = picked_events batch locked now rows"
proof -
  have "map cv_id (fst (claim_rows relayId ttl batch locked now rows))
      = filter (\<lambda>i. i \<in> picked_events batch locked now rows) (map ob_id rows)"
    by (simp add: claim_rows_def Let_def picked_events_def filter_map comp_def)
  then have "set (map cv_id (fst (claim_rows relayId ttl batch locked now rows)))
      = set (filter (\<lambda>i. i \<in> picked_events batch locked now rows) (map ob_id rows))"
    by (rule arg_cong)
  also have "\<dots> = picked_events batch locked now rows"
  proof (rule set_eqI)
    fix i show "i \<in> set (filter (\<lambda>i. i \<in> picked_events batch locked now rows) (map ob_id rows)) \<longleftrightarrow> i \<in> picked_events batch locked now rows"
      using picked_sub [of i] by force
  qed
  finally show ?thesis .
qed

lemma enqueue_appends:
  assumes "enqueueInTransaction pending now rows = Some (env, rows')"
  obtains row where "rows' = rows @ [row]" "\<forall>r \<in> set rows. ob_id r \<noteq> ob_id row" "outbox_checks row"
proof -
  let ?e = "recordEnvelope pending now"
  let ?row = "\<lparr>ob_id = ev_eventId ?e, ob_envelope = ?e, ob_createdAt = now, ob_availableAt = now, ob_claimedBy = None,
     ob_claimExpiresAt = None, ob_attempts = 0, ob_maxAttempts = 8, ob_publishedAt = None, ob_deadLetteredAt = None, ob_lastError = None\<rparr>"
  have c: "create_row (\<lambda>a b. ob_id a = ob_id b) ?row rows = Some rows'"
    using assms by (auto simp: enqueueInTransaction_def Let_def split: if_splits)
  then have "\<not> list_ex (\<lambda>x. ob_id ?row = ob_id x) rows" "rows' = rows @ [?row]"
    by (simp_all add: create_row_def split: if_splits)
  then show thesis by (intro that [of ?row]) (auto simp: list_ex_iff outbox_checks_def)
qed

lemma outbox_step_keeps: "outbox_step rows rows' \<Longrightarrow> outbox_keeps rows rows'"
proof (induction rule: outbox_step.induct)
  case (os_enqueue pending now rows env rows')
  then obtain row where "rows' = rows @ [row]" "\<forall>r \<in> set rows. ob_id r \<noteq> ob_id row" "outbox_checks row"
    by (rule enqueue_appends)
  then show ?case by (auto simp: outbox_keeps_def outbox_wf_def intro: develops_refl)
next
  case (os_claim rows relayId ttl batch locked now)
  show ?case unfolding claim_rows_snd by (rule keeps_map) (auto simp: outbox_checks_def develops_def)
next
  case (os_published c now rows rows')
  then show ?case unfolding mark_published_def
    by (rule outbox_update_keeps) (simp add: develops_def unclaim_def)
next
  case (os_failed base cap c e now rows out rows')
  then show ?case unfolding mark_failed_def Let_def
    by (auto split: if_splits elim!: outbox_update_keeps simp: develops_def unclaim_def)
next
  case (os_released relayId rows rows')
  then show ?case unfolding release_claims_def
    by (rule outbox_update_keeps) (simp add: develops_def unclaim_def)
qed

lemma outbox_steps_keep: "outbox_step\<^sup>*\<^sup>* rows rows' \<Longrightarrow> outbox_keeps rows rows'"
  by (induction rule: rtranclp_induct) (auto intro: outbox_keeps_refl outbox_keeps_trans outbox_step_keeps)

lemma outbox_reachable_wf: "outbox_step\<^sup>*\<^sup>* [] rows \<Longrightarrow> outbox_wf rows"
  using outbox_steps_keep [of "[]" rows] by (simp add: outbox_keeps_def outbox_wf_def)

section \<open>Claims of other relays\<close>

text \<open>
  A statement of the others while a relay holds claims on \<open>ids\<close>: claims no later than the deadline, marks of other events,
  releases of other relays.
\<close>

inductive foreign_step :: "string \<Rightarrow> millis \<Rightarrow> string set \<Rightarrow> outbox_row list \<Rightarrow> outbox_row list \<Rightarrow> bool"
  for relayId deadline ids where
  fs_enqueue: "enqueueInTransaction pending now rows = Some (env, rows') \<Longrightarrow> foreign_step relayId deadline ids rows rows'"
| fs_claim: "now \<le> deadline \<Longrightarrow> foreign_step relayId deadline ids rows (snd (claim_rows other ttl batch locked now rows))"
| fs_published: "cv_id c \<notin> ids \<Longrightarrow> mark_published c now rows = Some rows' \<Longrightarrow> foreign_step relayId deadline ids rows rows'"
| fs_failed: "cv_id c \<notin> ids \<Longrightarrow> mark_failed base cap c e now rows = Some (out, rows') \<Longrightarrow> foreign_step relayId deadline ids rows rows'"
| fs_released: "other \<noteq> relayId \<Longrightarrow> release_claims other rows = Some rows' \<Longrightarrow> foreign_step relayId deadline ids rows rows'"

definition claims_held :: "string \<Rightarrow> millis \<Rightarrow> string set \<Rightarrow> outbox_row list \<Rightarrow> bool" where
  "claims_held relayId deadline ids rows \<longleftrightarrow> ids \<subseteq> set (map ob_id rows)
     \<and> (\<forall>r \<in> set rows. ob_id r \<in> ids \<longrightarrow> ob_claimedBy r = Some relayId \<and> ob_claimExpiresAt r = Some deadline)"

lemma held_not_claimable:
  assumes "claims_held relayId deadline ids rows" "now \<le> deadline"
  shows "set (map cv_id (fst (claim_rows other ttl batch locked now rows))) \<inter> ids = {}"
proof -
  have "False" if i: "i \<in> set (map cv_id (fst (claim_rows other ttl batch locked now rows)))" "i \<in> ids" for i
  proof -
    obtain x where "x \<in> set rows" "ob_id x = i" "event_claimable now x"
      using picked_sub i(1) unfolding claim_rows_ids by blast
    then show False using assms i(2) by (auto simp: claims_held_def event_claimable_def)
  qed
  then show ?thesis by blast
qed

lemma claims_held_map:
  assumes "claims_held relayId deadline ids rows" "\<And>r. ob_id (g r) = ob_id r" "\<And>r. r \<in> set rows \<Longrightarrow> ob_id r \<in> ids \<Longrightarrow> g r = r"
  shows "claims_held relayId deadline ids (map g rows)"
  using assms by (auto simp: claims_held_def)

lemma foreign_step_holds:
  assumes "foreign_step relayId deadline ids rows rows'" "claims_held relayId deadline ids rows"
  shows "claims_held relayId deadline ids rows'"
  using assms(1)
proof (cases rule: foreign_step.cases)
  case (fs_enqueue pending now env)
  then obtain row where "rows' = rows @ [row]" "\<forall>r \<in> set rows. ob_id r \<noteq> ob_id row" by (rule enqueue_appends)
  moreover have "ob_id row \<notin> ids" using assms(2) \<open>\<forall>r \<in> set rows. ob_id r \<noteq> ob_id row\<close>
    unfolding claims_held_def by (metis image_iff list.set_map subsetD)
  ultimately show ?thesis using assms(2) by (auto simp: claims_held_def)
next
  case (fs_claim now other ttl batch locked)
  have "set (map cv_id (fst (claim_rows other ttl batch locked now rows))) \<inter> ids = {}"
    by (rule held_not_claimable [OF assms(2) fs_claim(2)])
  then show ?thesis unfolding fs_claim(1) claim_rows_snd claim_rows_ids
    by (intro claims_held_map [OF assms(2)]) auto
next
  case (fs_published c now)
  then show ?thesis using assms(2) unfolding mark_published_def outbox_update_Some
    by (auto simp: unclaim_def intro!: claims_held_map)
next
  case (fs_failed c base cap e now out)
  then show ?thesis using assms(2)
    by (auto simp: mark_failed_def Let_def outbox_update_Some unclaim_def split: if_splits intro!: claims_held_map)
next
  case (fs_released other)
  have "rows' = map (\<lambda>r. if ob_claimedBy r = Some other \<and> ob_publishedAt r = None \<and> ob_deadLetteredAt r = None
       then unclaim r else r) rows"
    using fs_released(2) unfolding release_claims_def outbox_update_Some by simp
  moreover have "claims_held relayId deadline ids (map (\<lambda>r. if ob_claimedBy r = Some other \<and> ob_publishedAt r = None
       \<and> ob_deadLetteredAt r = None then unclaim r else r) rows)"
    by (rule claims_held_map [OF assms(2)]) (use assms(2) fs_released(1) in \<open>auto simp: claims_held_def unclaim_def\<close>)
  ultimately show ?thesis by simp
qed

lemma foreign_steps_hold:
  "(foreign_step relayId deadline ids)\<^sup>*\<^sup>* rows rows' \<Longrightarrow> claims_held relayId deadline ids rows \<Longrightarrow>
     claims_held relayId deadline ids rows'"
  by (induction rule: rtranclp_induct) (auto intro: foreign_step_holds)

section \<open>Receipts\<close>

definition consume ::
  "string \<Rightarrow> string \<Rightarrow> ('s consumer_world, 'e, 'a) effect \<Rightarrow> ('s consumer_world, 'e, 'a idempotent_outcome) effect" where
  "consume consumerName eventId f = withTransaction (withIdempotency consumerName eventId f)"

text \<open>The consumers' own effects never delete a receipt.\<close>

definition keeps_receipts :: "('s consumer_world, 'e, 'a) effect \<Rightarrow> bool" where
  "keeps_receipts f \<longleftrightarrow> always (\<lambda>w w'. set (cw_receipts w) \<subseteq> set (cw_receipts w')) f"

inductive consumed :: "'s consumer_world \<Rightarrow> 's consumer_world \<Rightarrow> bool" where
  consumed_refl: "consumed w w"
| consumed_step: "keeps_receipts (f :: ('s consumer_world, string, unit) effect) \<Longrightarrow> consumed (snd (consume c e f w)) w' \<Longrightarrow> consumed w w'"

lemma consume_receipts: "keeps_receipts f \<Longrightarrow> set (cw_receipts w) \<subseteq> set (cw_receipts (snd (consume c e f w)))"
proof -
  assume k: "keeps_receipts f"
  have "set (cw_receipts (w\<lparr>cw_receipts := (c, e) # cw_receipts w\<rparr>)) \<subseteq> set (cw_receipts (snd (f (w\<lparr>cw_receipts := (c, e) # cw_receipts w\<rparr>))))"
    using k unfolding keeps_receipts_def always_def by blast
  then show ?thesis
    by (auto simp: consume_def withTransaction_def withIdempotency_def thenE_def split: prod.splits sum.splits)
qed

lemma consumed_receipts: "consumed w w' \<Longrightarrow> set (cw_receipts w) \<subseteq> set (cw_receipts w')"
  by (induction rule: consumed.induct) (use consume_receipts in blast)+

section \<open>Properties\<close>

text \<open>
  C33: Nothing enqueued is lost and terminal states are final.  Whatever relays and producers do, with stale handles or not, every event stays in the
  table with its envelope; a published event stays published at its instant and is never dead-lettered, a dead-lettered one stays dead and is
  never published; and no two rows share an id.
\<close>

theorem outbox_loses_nothing:
  assumes "outbox_step\<^sup>*\<^sup>* [] rows" "r \<in> set rows" "outbox_step\<^sup>*\<^sup>* rows rows'"
  shows "\<exists>x \<in> set rows'. ob_id x = ob_id r \<and> ob_envelope x = ob_envelope r
    \<and> (\<forall>y \<in> set rows'. ob_id y = ob_id r \<longrightarrow> y = x)
    \<and> (ob_publishedAt r \<noteq> None \<longrightarrow> ob_publishedAt x = ob_publishedAt r \<and> ob_deadLetteredAt x = None)
    \<and> (ob_deadLetteredAt r \<noteq> None \<longrightarrow> ob_deadLetteredAt x \<noteq> None \<and> ob_publishedAt x = None)"
proof -
  have k: "outbox_keeps rows rows'" by (rule outbox_steps_keep [OF assms(3)])
  have wf': "outbox_wf rows'" using outbox_reachable_wf [OF assms(1)] k by (simp add: outbox_keeps_def)
  obtain x where x: "x \<in> set rows'" "develops r x" using k assms(2) by (auto simp: outbox_keeps_def)
  have dist: "inj_on ob_id (set rows')" using wf' by (simp add: outbox_wf_def distinct_map)
  have idx: "ob_id x = ob_id r" using x(2) by (simp add: develops_def)
  have "\<forall>y \<in> set rows'. ob_id y = ob_id r \<longrightarrow> y = x" using inj_onD [OF dist _ _ x(1)] idx by metis
  moreover have "ob_publishedAt x = None \<or> ob_deadLetteredAt x = None" using wf' x(1) by (simp add: outbox_wf_def outbox_checks_def)
  ultimately show ?thesis using x(2) by (intro bexI [OF _ x(1)]) (auto simp: develops_def)
qed

definition sample_pending :: pending_envelope where
  "sample_pending = \<lparr>ev_eventId = ''e1'', ev_eventName = ''platform.diagnostic.ping'', ev_schemaVersion = 1, ev_occurredAt = 1,
     ev_correlationId = ''c'', ev_causationId = None, ev_tenantId = None, ev_producer = ''w'',
     ev_classification = CLASS_INTERNAL, ev_payload = []\<rparr>"

definition sample_outbox :: "outbox_row list" where
  "sample_outbox = (case enqueueInTransaction sample_pending 5 [] of Some (env, rows) \<Rightarrow> rows | None \<Rightarrow> [])"

lemma sample_outbox_enqueued: "enqueueInTransaction sample_pending 5 [] = Some (recordEnvelope sample_pending 5, sample_outbox)"
  by code_simp

lemma sample_outbox_reachable: "outbox_step\<^sup>*\<^sup>* [] sample_outbox"
  using os_enqueue [OF sample_outbox_enqueued] by (rule r_into_rtranclp)

theorem outbox_loses_nothing_witness:
  "\<exists>x \<in> set (snd (claim_rows ''A'' 30 10 (\<lambda>i. False) 9 sample_outbox)). ob_id x = ''e1''"
proof -
  obtain r where r: "r \<in> set sample_outbox" "ob_id r = ''e1''"
  proof -
    have "map ob_id sample_outbox = [''e1'']" by code_simp
    then obtain z where "sample_outbox = [z]" "ob_id z = ''e1''" by auto
    then show thesis using that by (metis list.set_intros(1))
  qed
  have run: "outbox_step\<^sup>*\<^sup>* sample_outbox (snd (claim_rows ''A'' 30 10 (\<lambda>i. False) 9 sample_outbox))"
    by (rule r_into_rtranclp) (rule os_claim)
  show ?thesis using outbox_loses_nothing [OF sample_outbox_reachable r(1) run] r(2) by auto
qed

text \<open>
  Claims exclude each other.  From its claim until its expiry, whatever the others do (enqueue, claim, mark other events,
  release their own claims), no relay's claim returns an event of the batch.
\<close>

theorem claims_are_exclusive:
  assumes "claim_rows relayId ttl batch locked now rows = (cs, rows1)"
    and "(foreign_step relayId (now + ttl) (set (map cv_id cs)))\<^sup>*\<^sup>* rows1 rows2" "later \<le> now + ttl"
  shows "set (map cv_id (fst (claim_rows other ttl' batch' locked' later rows2))) \<inter> set (map cv_id cs) = {}"
proof -
  have ids: "set (map cv_id cs) = picked_events batch locked now rows"
    using claim_rows_ids [of relayId ttl batch locked now rows] unfolding assms(1) by simp
  have rows1: "rows1 = map (\<lambda>r. if ob_id r \<in> set (map cv_id cs)
      then r\<lparr>ob_claimedBy := Some relayId, ob_claimExpiresAt := Some (now + ttl)\<rparr> else r) rows"
    using claim_rows_snd [of relayId ttl batch locked now rows] unfolding assms(1) ids by simp
  have "set (map cv_id cs) \<subseteq> ob_id ` set rows" unfolding ids using picked_sub by blast
  then have "claims_held relayId (now + ttl) (set (map cv_id cs)) rows1"
    unfolding claims_held_def rows1 by (auto simp: image_iff subset_iff)
  from held_not_claimable [OF foreign_steps_hold [OF assms(2) this] assms(3)] show ?thesis .
qed

theorem claims_are_exclusive_witness:
  "map cv_id (fst (claim_rows ''A'' 30 10 (\<lambda>i. False) 9 sample_outbox)) = [''e1'']
    \<and> ''e1'' \<notin> set (map cv_id (fst (claim_rows ''B'' 30 10 (\<lambda>i. False) 39 (snd (claim_rows ''A'' 30 10 (\<lambda>i. False) 9 sample_outbox)))))"
proof -
  have "map cv_id (fst (claim_rows ''A'' 30 10 (\<lambda>i. False) 9 sample_outbox)) = [''e1'']" by code_simp
  then show ?thesis
    using claims_are_exclusive [where relayId = "''A''" and ttl = 30 and now = 9 and later = 39 and batch = 10 and locked = "\<lambda>i. False"
        and rows = sample_outbox and other = "''B''" and ttl' = 30 and batch' = 10 and locked' = "\<lambda>i. False",
        OF prod.collapse [symmetric] rtranclp.rtrancl_refl]
    by simp
qed

text \<open>
  A stale failure takes an event away from its owner.  A failure mark names the event only, not the claim.  A relay whose claim
  expired while it was publishing, reporting a failure with the attempts it read, resets the attempts of an event that other
  relays have failed more often since and removes the claim of the relay that is publishing it now, so that a third relay can claim it.
\<close>

theorem stale_failure_rewinds:
  assumes "outbox_wf rows" "r \<in> set rows" "ob_id r = cv_id c"
    and owner: "ob_claimedBy r = Some other" "ob_publishedAt r = None" "ob_deadLetteredAt r = None"
    and stale: "cv_attempts c + 1 < ob_attempts r" "0 \<le> cv_attempts c" "cv_maxAttempts c = ob_maxAttempts r" "ob_attempts r < ob_maxAttempts r"
    and later: "now + cap \<le> later"
  shows "\<exists>rows' x. mark_failed base cap c e now rows = Some (FAILED, rows') \<and> x \<in> set rows' \<and> ob_id x = ob_id r
    \<and> ob_attempts x < ob_attempts r \<and> ob_claimedBy x = None \<and> event_claimable later x"
proof -
  let ?f = "\<lambda>r. (unclaim r)\<lparr>ob_attempts := cv_attempts c + 1, ob_lastError := Some (describeError e),
     ob_availableAt := now + min cap (base * 2 ^ nat (cv_attempts c))\<rparr>"
  let ?rows' = "map (\<lambda>x. if ob_id x = cv_id c then ?f x else x) rows"
  have "\<forall>x \<in> set rows. ob_id x = cv_id c \<longrightarrow> outbox_checks (?f x)"
    using assms(1) stale(2) by (auto simp: outbox_wf_def outbox_checks_def unclaim_def)
  then have "mark_failed base cap c e now rows = Some (FAILED, ?rows')"
    using stale by (simp add: mark_failed_def Let_def outbox_update_Some)
  moreover have "?f r \<in> set ?rows'" using assms(2,3) by (auto intro: rev_image_eqI)
  moreover have "event_claimable later (?f r)" using owner later by (simp add: event_claimable_def unclaim_def min_le_iff_disj)
  ultimately show ?thesis using stale(1) assms(3) by (intro exI [of _ ?rows'] exI [of _ "?f r"]) (simp add: unclaim_def)
qed

definition busy_row :: outbox_row where
  "busy_row = (hd sample_outbox)\<lparr>ob_claimedBy := Some ''B'', ob_claimExpiresAt := Some 100, ob_attempts := 5\<rparr>"

theorem stale_failure_rewinds_witness:
  "\<exists>rows' x. mark_failed 1000 60000 \<lparr>cv_id = ''e1'', cv_envelope = recordEnvelope sample_pending 5, cv_attempts = 0, cv_maxAttempts = 8\<rparr>
       (THROWN_VALUE ''timeout'') 50 [busy_row] = Some (FAILED, rows') \<and> x \<in> set rows' \<and> ob_attempts x < 5 \<and> ob_claimedBy x = None"
proof -
  have f: "ob_id busy_row = ''e1''" "ob_claimedBy busy_row = Some ''B''" "ob_publishedAt busy_row = None" "ob_deadLetteredAt busy_row = None"
    "ob_attempts busy_row = 5" "ob_maxAttempts busy_row = 8" "outbox_checks busy_row" by code_simp+
  have "outbox_wf [busy_row]" using f(7) by (simp add: outbox_wf_def)
  from stale_failure_rewinds [OF this, of busy_row "\<lparr>cv_id = ''e1'', cv_envelope = recordEnvelope sample_pending 5, cv_attempts = 0, cv_maxAttempts = 8\<rparr>"
      "''B''" 50 60000 60050 1000 "THROWN_VALUE ''timeout''"] f
  show ?thesis by auto
qed

text \<open>
  A consumed event is consumed once.  A consumption that fails leaves no trace, receipt included, so that the next delivery tries again;
  after one that succeeded, however many deliveries follow, a redelivery to the same consumer executes nothing and changes nothing.
\<close>

theorem consumption_is_once:
  assumes "keeps_receipts f"
  shows "case consume c e f w of
      (Inl err, w') \<Rightarrow> w' = w
    | (Inr out, w') \<Rightarrow> (c, e) \<in> set (cw_receipts w')
        \<and> (out = NOT_EXECUTED \<longleftrightarrow> (c, e) \<in> set (cw_receipts w)) \<and> (out = NOT_EXECUTED \<longrightarrow> w' = w)
        \<and> (\<forall>w2. consumed w' w2 \<longrightarrow> consume c e g w2 = (Inr NOT_EXECUTED, w2))"
proof (cases "consume c e f w")
  case (Pair r w')
  show ?thesis
  proof (cases r)
    case (Inl err)
    then show ?thesis using Pair by (auto simp: consume_def withTransaction_def split: prod.splits sum.splits)
  next
    case (Inr out)
    have run: "withIdempotency c e f w = (Inr out, w')"
      using Pair Inr by (auto simp: consume_def withTransaction_def split: prod.splits sum.splits)
    have k: "(c, e) \<in> set (cw_receipts w')"
    proof (cases "(c, e) \<in> set (cw_receipts w)")
      case True then show ?thesis using run by (simp add: withIdempotency_def)
    next
      case False
      let ?w = "w\<lparr>cw_receipts := (c, e) # cw_receipts w\<rparr>"
      obtain x where "f ?w = (Inr x, w')" using run False by (auto simp: withIdempotency_def thenE_Inr)
      then have "set (cw_receipts ?w) \<subseteq> set (cw_receipts w')"
        using assms unfolding keeps_receipts_def always_def by (metis snd_conv)
      then show ?thesis by simp
    qed
    have "consume c e g w2 = (Inr NOT_EXECUTED, w2)" if "consumed w' w2" for w2
      using consumed_receipts [OF that] k by (auto simp: consume_def withTransaction_def withIdempotency_def)
    moreover have "(out = NOT_EXECUTED \<longleftrightarrow> (c, e) \<in> set (cw_receipts w)) \<and> (out = NOT_EXECUTED \<longrightarrow> w' = w)"
      using run by (auto simp: withIdempotency_def thenE_Inr split: if_splits)
    ultimately show ?thesis using Pair Inr k by simp
  qed
qed

definition count_up :: "(nat consumer_world, string, unit) effect" where
  "count_up = updateE (\<lambda>w. ((), w\<lparr>cw_state := Suc (cw_state w)\<rparr>))"

theorem consumption_is_once_witness:
  "\<exists>w'. consume ''c'' ''e'' count_up \<lparr>cw_receipts = [], cw_state = 0\<rparr> = (Inr (EXECUTED ()), w') \<and> cw_state w' = 1
     \<and> consume ''c'' ''e'' count_up w' = (Inr NOT_EXECUTED, w')"
proof -
  have k: "keeps_receipts count_up" by (simp add: keeps_receipts_def always_def count_up_def)
  let ?w' = "\<lparr>cw_receipts = [(''c'', ''e'')], cw_state = Suc 0\<rparr>"
  have r: "consume ''c'' ''e'' count_up \<lparr>cw_receipts = [], cw_state = 0\<rparr> = (Inr (EXECUTED ()), ?w')"
    by (simp add: consume_def withTransaction_def withIdempotency_def count_up_def thenE_def)
  have "consume ''c'' ''e'' count_up ?w' = (Inr NOT_EXECUTED, ?w')"
    using consumption_is_once [OF k, where c = "''c''" and e = "''e''" and w = "\<lparr>cw_receipts = [], cw_state = 0\<rparr>" and g = count_up] consumed_refl [of ?w']
    unfolding r by simp
  then show ?thesis using r by auto
qed

end
