(* ===== verification/Uuid_Ids.thy ===== *)
theory Uuid_Ids
  imports Table_Store "HOL-Library.Word"
begin

text \<open>
  Identifiers: the shape test of \<open>packages/shared-kernel/src/internal/uuid.ts\<close> behind \<open>UserId\<close> and \<open>TenantId\<close>,
  and the UUID v7 minting every module carries as its own \<open>uuidv7\<close> (the one of the audit module,
  \<open>modules/audit/infrastructure/persistence/uuidv7-audit-event-id-source.ts\<close>, is followed; bytes are 8-bit words).
  The random bytes and the clock are arguments.
\<close>

unbundle bit_operations_syntax

section \<open>Shape\<close>

definition is_hex :: "char \<Rightarrow> bool" where
  "is_hex c = (let n = (of_char c :: nat) in (48 \<le> n \<and> n \<le> 57) \<or> (97 \<le> n \<and> n \<le> 102) \<or> (65 \<le> n \<and> n \<le> 70))"

text \<open>The positions of \<open>UUID_SHAPE\<close>: \<open>True\<close> for a dash, \<open>False\<close> for a hexadecimal digit of either case.\<close>

definition UUID_SHAPE :: "bool list" where
  "UUID_SHAPE = replicate 8 False @ [True] @ replicate 4 False @ [True] @ replicate 4 False @ [True]
     @ replicate 4 False @ [True] @ replicate 12 False"

definition shape_char :: "bool \<Rightarrow> char \<Rightarrow> bool" where
  "shape_char dash c = (if dash then c = CHR ''-'' else is_hex c)"

definition isUuid :: "string \<Rightarrow> bool" where
  "isUuid value \<longleftrightarrow> list_all2 shape_char UUID_SHAPE value"

definition userId_parse :: "string \<Rightarrow> (string, string) outcome" where
  "userId_parse value = (if isUuid value then Inr value else Inl value)"

definition tenantId_parse :: "string \<Rightarrow> (string, string) outcome" where
  "tenantId_parse value = (if isUuid value then Inr value else Inl value)"

text \<open>A value of a \<open>uuid\<close> column is printed with lower-case digits.\<close>

definition pg_uuid :: "string \<Rightarrow> string" where
  "pg_uuid = map (\<lambda>c. let n = (of_char c :: nat) in if 65 \<le> n \<and> n \<le> 70 then char_of (n + 32) else c)"

section \<open>Minting\<close>

definition hex_digit :: "nat \<Rightarrow> char" where
  "hex_digit n = (if n < 10 then char_of (48 + n) else char_of (87 + n))"

fun to_hex :: "nat \<Rightarrow> string" where
  "to_hex n = (if n < 16 then [hex_digit n] else to_hex (n div 16) @ [hex_digit (n mod 16)])"

declare to_hex.simps [simp del]

definition byte_hex :: "8 word \<Rightarrow> string" where
  "byte_hex b = pad_start 2 (CHR ''0'') (to_hex (unat b))"

definition time_bytes :: "int \<Rightarrow> 8 word list" where
  "time_bytes ms = map (\<lambda>i. word_of_int (drop_bit (8 * (5 - i)) ms AND 0xff)) [0..<6]"

definition stamp_bytes :: "8 word list \<Rightarrow> 8 word list" where
  "stamp_bytes bytes = bytes[6 := (bytes ! 6 AND 0x0f) OR 0x70, 8 := (bytes ! 8 AND 0x3f) OR 0x80]"

definition hex_groups :: "string \<Rightarrow> string" where
  "hex_groups hex = take 8 hex @ ''-'' @ take 4 (drop 8 hex) @ ''-'' @ take 4 (drop 12 hex) @ ''-''
     @ take 4 (drop 16 hex) @ ''-'' @ drop 20 hex"

text \<open>\<open>None\<close>: fewer than ten random bytes, where the source throws.\<close>

definition uuidv7 :: "int \<Rightarrow> 8 word list \<Rightarrow> string option" where
  "uuidv7 now random =
     (if length random < 10 then None
      else Some (hex_groups (concat (map byte_hex (stamp_bytes (time_bytes now @ take 10 random))))))"

section \<open>Lemmas\<close>

lemma pg_uuid_idem [simp]: "pg_uuid (pg_uuid s) = pg_uuid s"
  by (auto simp: pg_uuid_def Let_def)

lemma zero_char: "char_of (48 :: nat) = CHR ''0''"
  by code_simp

lemma hex_digit_code: "n < 16 \<Longrightarrow> (of_char (hex_digit n) :: nat) = (if n < 10 then 48 + n else 87 + n)"
  by (auto simp: hex_digit_def)

lemma is_hex_digit [simp]: "n < 16 \<Longrightarrow> is_hex (hex_digit n)"
  by (auto simp: is_hex_def hex_digit_code Let_def)

lemma byte_hex_digits: "byte_hex b = [hex_digit (unat b div 16), hex_digit (unat b mod 16)]"
proof -
  have b: "unat b < 256" using unsigned_less [of b] by simp
  show ?thesis
  proof (cases "unat b < 16")
    case True
    then show ?thesis by (simp add: byte_hex_def pad_start_def to_hex.simps [of "unat b"] hex_digit_def zero_char)
  next
    case False
    have "unat b div 16 < 16" using b by simp
    then show ?thesis using False
      by (simp add: byte_hex_def pad_start_def to_hex.simps [of "unat b"] to_hex.simps [of "unat b div 16"])
  qed
qed

lemma byte_bound: "unat (b :: 8 word) div 16 < 16"
proof -
  have "unat b < 256" using unsigned_less [of b] by simp
  then show ?thesis by simp
qed

text \<open>The last \<open>k\<close> hexadecimal digits of a number, most significant first.\<close>

fun hex_digits :: "nat \<Rightarrow> int \<Rightarrow> string" where
  "hex_digits 0 n = []"
| "hex_digits (Suc k) n = hex_digits k (n div 16) @ [hex_digit (nat (n mod 16))]"

lemma length_hex_digits [simp]: "length (hex_digits k n) = k"
  by (induction k arbitrary: n) simp_all

lemma string_cmp_append:
  "length xs = length ys \<Longrightarrow>
     string_cmp (xs @ us) (ys @ vs) = (if string_cmp xs ys = 0 then string_cmp us vs else string_cmp xs ys)"
  by (induction xs ys rule: list_induct2) auto

lemma hex_digit_less: "m < n \<Longrightarrow> n < 16 \<Longrightarrow> string_cmp [hex_digit m] [hex_digit n] = -1"
  by (simp add: hex_digit_code)

lemma hex_digits_less:
  "0 \<le> a \<Longrightarrow> a < b \<Longrightarrow> b < 16 ^ k \<Longrightarrow> string_cmp (hex_digits k a) (hex_digits k b) = -1"
proof (induction k arbitrary: a b)
  case (Suc k)
  have bound: "b div 16 < 16 ^ k" using Suc.prems by (simp add: div_less_iff_less_mult)
  consider "a div 16 < b div 16" | "a div 16 = b div 16" "a mod 16 < b mod 16"
    using Suc.prems(2) by (smt (verit) mult_div_mod_eq zdiv_mono1)
  then show ?case
  proof cases
    case 1
    then show ?thesis using Suc.IH [OF _ 1 bound] Suc.prems(1) by (simp add: string_cmp_append)
  next
    case 2
    have "nat (a mod 16) < nat (b mod 16)" "nat (b mod 16) < 16" using 2 by auto
    from hex_digit_less [OF this] 2(1) show ?thesis by (simp add: string_cmp_append)
  qed
qed simp

lemma hex_digits_add: "hex_digits (j + k) n = hex_digits j (n div 16 ^ k) @ hex_digits k n"
proof (induction k arbitrary: n)
  case (Suc k)
  have "n div 16 div 16 ^ k = n div 16 ^ Suc k" by (simp add: zdiv_zmult2_eq)
  then show ?case using Suc by simp
qed simp

lemma time_byte: "byte_hex (word_of_int (drop_bit m n AND 0xff)) = hex_digits 2 (n div 2 ^ m)"
proof -
  let ?x = "n div 2 ^ m"
  have u: "unat (word_of_int (drop_bit m n AND 0xff) :: 8 word) = nat (?x mod 256)"
  proof -
    have "drop_bit m n AND 0xff = ?x mod 256"
      using take_bit_eq_mask [of 8 "drop_bit m n"] by (simp add: mask_eq_exp_minus_1 drop_bit_eq_div take_bit_eq_mod)
    then show ?thesis by (simp add: unsigned_of_int take_bit_eq_mod flip: nat_take_bit_eq)
  qed
  have a: "nat (?x mod 256) div 16 = nat (?x div 16 mod 16)"
  proof -
    have "?x mod 256 div 16 = ?x div 16 mod 16" using zmod_zmult2_eq [of 16 ?x 16] by simp
    moreover have "nat (?x mod 256 div 16) = nat (?x mod 256) div 16" by (simp add: nat_div_distrib)
    ultimately show ?thesis by metis
  qed
  have b: "nat (?x mod 256) mod 16 = nat (?x mod 16)"
  proof -
    have "?x mod 256 mod 16 = ?x mod 16" by (rule mod_mod_cancel) simp
    moreover have "nat (?x mod 256 mod 16) = nat (?x mod 256) mod 16" by (simp add: nat_mod_distrib)
    ultimately show ?thesis by metis
  qed
  have two: "hex_digits 2 y = [hex_digit (nat (y div 16 mod 16)), hex_digit (nat (y mod 16))]" for y
    by (simp add: numeral_2_eq_2)
  show ?thesis by (simp only: byte_hex_digits u a b two)
qed

lemma hex_time: "concat (map byte_hex (time_bytes n)) = hex_digits 12 n"
proof -
  have "concat (map byte_hex (time_bytes n)) =
    hex_digits 2 (n div 16 ^ 10) @ hex_digits 2 (n div 16 ^ 8) @ hex_digits 2 (n div 16 ^ 6)
      @ hex_digits 2 (n div 16 ^ 4) @ hex_digits 2 (n div 16 ^ 2) @ hex_digits 2 n"
    using time_byte [of 40 n] time_byte [of 32 n] time_byte [of 24 n] time_byte [of 16 n]
      time_byte [of 8 n] time_byte [of 0 n]
    by (simp add: time_bytes_def upt_rec)
  also have "\<dots> = hex_digits (2 + (2 + (2 + (2 + (2 + 2))))) n"
    by (simp only: hex_digits_add [of 2] zdiv_zmult2_eq [symmetric] power_add [symmetric]) simp
  finally show ?thesis by simp
qed

lemma word_or_plus:
  fixes b :: "8 word"
  shows "unat ((b AND 0x0f) OR 0x70) = unat b mod 16 + 112" "unat ((b AND 0x3f) OR 0x80) = unat b mod 64 + 128"
proof -
  have d: "m OR n = m + n" if "m AND n = 0" for m n :: nat
    using that disjunctive_add [of m n] by (simp add: bit_eq_iff bit_and_iff)
  have a: "m mod 16 AND 112 = 0" for m :: nat
  proof -
    have "m mod 16 AND 112 = (m AND mask 4) AND 112" by (simp add: take_bit_eq_mod flip: take_bit_eq_mask)
    also have "\<dots> = m AND (15 AND 112)" by (simp add: and.assoc mask_eq_exp_minus_1)
    finally show ?thesis by simp
  qed
  have b: "m mod 64 AND 128 = 0" for m :: nat
  proof -
    have "m mod 64 AND 128 = (m AND mask 6) AND 128" by (simp add: take_bit_eq_mod flip: take_bit_eq_mask)
    also have "\<dots> = m AND (63 AND 128)" by (simp add: and.assoc mask_eq_exp_minus_1)
    finally show ?thesis by simp
  qed
  have m: "n AND 15 = n mod 16" "n AND 63 = n mod 64" for n :: nat
    using take_bit_eq_mask [of 4 n] take_bit_eq_mask [of 6 n]
    by (simp_all add: take_bit_eq_mod mask_eq_exp_minus_1)
  show "unat ((b AND 0x0f) OR 0x70) = unat b mod 16 + 112"
    by (simp add: unsigned_or_eq unsigned_and_eq m d [OF a])
  show "unat ((b AND 0x3f) OR 0x80) = unat b mod 64 + 128"
    by (simp add: unsigned_or_eq unsigned_and_eq m d [OF b])
qed

lemma uuid_of_hex:
  assumes "length h = 32" "list_all is_hex h"
  shows "isUuid (hex_groups h)"
proof -
  have r: "list_all2 shape_char (replicate n False) xs" if "length xs = n" "list_all is_hex xs" for n xs
    using that by (induction xs arbitrary: n) (auto simp: shape_char_def)
  have dash: "list_all2 shape_char [True] ''-''" by (simp add: shape_char_def)
  have part: "list_all is_hex (take m (drop k h))" for m k
    using assms(2) by (metis append_take_drop_id list_all_append)
  have p0: "list_all is_hex (take 8 h)" using part [of 8 0] by simp
  have p20: "list_all is_hex (drop 20 h)" using part [of 12 20] assms(1) by simp
  show ?thesis unfolding isUuid_def hex_groups_def UUID_SHAPE_def
    using assms(1) p0 p20 part
    by (intro list_all2_appendI r dash) simp_all
qed

definition v7_tail :: "8 word list \<Rightarrow> string" where
  "v7_tail rs = concat (map byte_hex (((rs ! 0 AND 0x0f) OR 0x70) # rs ! 1 # ((rs ! 2 AND 0x3f) OR 0x80) # drop 3 rs))"

lemma byte_hex_hex: "list_all is_hex (byte_hex b)"
  by (simp add: byte_hex_digits byte_bound)

lemma v7_tail_facts:
  assumes "length rs = 10"
  shows "length (v7_tail rs) = 20" "list_all is_hex (v7_tail rs)"
    "v7_tail rs ! 0 = CHR ''7''" "v7_tail rs ! 4 = hex_digit (8 + unat (rs ! 2) mod 64 div 16)"
proof -
  have "length (concat (map byte_hex bs)) = 2 * length bs" "list_all is_hex (concat (map byte_hex bs))" for bs
    by (induction bs) (simp_all add: byte_hex_digits byte_hex_hex byte_bound)
  then show "length (v7_tail rs) = 20" "list_all is_hex (v7_tail rs)"
    using assms by (simp_all add: v7_tail_def del: concat.simps list.map)
  have "(unat (rs ! 0) mod 16 + 112) div 16 = 7" by simp
  then have a: "byte_hex ((rs ! 0 AND 0x0f) OR 0x70) = [hex_digit 7, hex_digit ((unat (rs ! 0) mod 16 + 112) mod 16)]"
    by (simp only: byte_hex_digits word_or_plus)
  have "(unat (rs ! 2) mod 64 + 128) div 16 = 8 + unat (rs ! 2) mod 64 div 16" by simp
  then have b: "byte_hex ((rs ! 2 AND 0x3f) OR 0x80)
      = [hex_digit (8 + unat (rs ! 2) mod 64 div 16), hex_digit ((unat (rs ! 2) mod 64 + 128) mod 16)]"
    by (simp only: byte_hex_digits word_or_plus)
  have "hex_digit 7 = CHR ''7''" by code_simp
  then show "v7_tail rs ! 0 = CHR ''7''"
    by (simp add: v7_tail_def a)
  show "v7_tail rs ! 4 = hex_digit (8 + unat (rs ! 2) mod 64 div 16)"
    by (simp add: v7_tail_def a b byte_hex_digits [of "rs ! Suc 0"])
qed

lemma variant_char: "hex_digit (8 + n mod 64 div 16) \<in> {CHR ''8'', CHR ''9'', CHR ''a'', CHR ''b''}"
proof -
  have "n mod 64 div 16 < 4" by simp
  then have "n mod 64 div 16 \<in> {0, 1, 2, 3}" by auto
  moreover have "hex_digit 8 = CHR ''8''" "hex_digit 9 = CHR ''9''" "hex_digit 10 = CHR ''a''" "hex_digit 11 = CHR ''b''"
    by code_simp+
  ultimately show ?thesis by auto
qed

lemma uuidv7_text:
  assumes "10 \<le> length random"
  shows "uuidv7 now random = Some (hex_groups (hex_digits 12 now @ v7_tail (take 10 random)))"
proof -
  define rs where "rs = take 10 random"
  have len: "length rs = 10" using assms by (simp add: rs_def)
  have t: "length (time_bytes now) = 6" by (simp add: time_bytes_def)
  have split: "rs = rs ! 0 # rs ! 1 # rs ! 2 # drop 3 rs"
    using len Cons_nth_drop_Suc [of 0 rs] Cons_nth_drop_Suc [of 1 rs] Cons_nth_drop_Suc [of 2 rs]
    by (simp add: numeral_2_eq_2 numeral_3_eq_3)
  have "stamp_bytes (time_bytes now @ rs)
      = time_bytes now @ rs[0 := (rs ! 0 AND 0x0f) OR 0x70, 2 := (rs ! 2 AND 0x3f) OR 0x80]"
    using t by (simp add: stamp_bytes_def list_update_append nth_append)
  also have "rs[0 := (rs ! 0 AND 0x0f) OR 0x70, 2 := (rs ! 2 AND 0x3f) OR 0x80]
      = ((rs ! 0 AND 0x0f) OR 0x70) # rs ! 1 # ((rs ! 2 AND 0x3f) OR 0x80) # drop 3 rs"
    by (subst (1) split) (simp add: numeral_2_eq_2)
  finally show ?thesis using assms hex_time [of now]
    by (simp add: uuidv7_def rs_def [symmetric] v7_tail_def)
qed

lemma time_prefix:
  assumes "length d = 12" "length e = 12" "string_cmp d e = -1"
  shows "string_cmp (hex_groups (d @ u)) (hex_groups (e @ v)) = -1"
proof -
  have "string_cmp (take 8 d @ drop 8 d) (take 8 e @ drop 8 e) = -1" using assms(3) by simp
  then show ?thesis using assms(1,2)
    by (auto simp: hex_groups_def string_cmp_append split: if_splits simp del: append_take_drop_id)
qed

lemma minted_shape:
  assumes "length random = 10"
  shows "isUuid (hex_groups (hex_digits 12 now @ v7_tail random))"
proof -
  have "list_all is_hex (hex_digits k n)" for k n
    by (induction k arbitrary: n) (simp_all add: nat_less_iff)
  then show ?thesis by (intro uuid_of_hex) (simp_all add: v7_tail_facts [OF assms])
qed

section \<open>Properties\<close>

text \<open>
  Every minted id has the UUID shape, carries version 7 and the RFC variant, and ids minted at a later
  millisecond sort after all ids minted before, whatever the random bytes.
\<close>

theorem uuidv7_ids_are_ordered:
  assumes "10 \<le> length r" "10 \<le> length q" "0 \<le> a" "a < b" "b < 2 ^ 48"
  shows "\<exists>s t. uuidv7 a r = Some s \<and> uuidv7 b q = Some t \<and> isUuid s \<and> isUuid t
    \<and> s ! 14 = CHR ''7'' \<and> s ! 19 \<in> {CHR ''8'', CHR ''9'', CHR ''a'', CHR ''b''} \<and> string_cmp s t = -1"
proof -
  let ?r = "take 10 r" and ?q = "take 10 q"
  have len: "length ?r = 10" "length ?q = 10" using assms by auto
  have "string_cmp (hex_digits 12 a) (hex_digits 12 b) = -1" using hex_digits_less [of a b 12] assms by simp
  then have "string_cmp (hex_groups (hex_digits 12 a @ v7_tail ?r)) (hex_groups (hex_digits 12 b @ v7_tail ?q)) = -1"
    by (intro time_prefix) simp_all
  moreover have "hex_groups (hex_digits 12 a @ v7_tail ?r) ! 14 = CHR ''7''"
    "hex_groups (hex_digits 12 a @ v7_tail ?r) ! 19 = hex_digit (8 + unat (?r ! 2) mod 64 div 16)"
    using v7_tail_facts [OF len(1)] by (simp_all add: hex_groups_def nth_append)
  ultimately show ?thesis
    using uuidv7_text [OF assms(1)] uuidv7_text [OF assms(2)] minted_shape [OF len(1)] minted_shape [OF len(2)]
      variant_char [of "unat (?r ! 2)"]
    by metis
qed

theorem uuidv7_ids_are_ordered_witness:
  "\<exists>s t. uuidv7 1700000000000 (replicate 10 255) = Some s \<and> uuidv7 1700000000001 (replicate 16 0) = Some t
    \<and> string_cmp s t = -1"
  using uuidv7_ids_are_ordered [of "replicate 10 255" "replicate 16 0" 1700000000000 1700000000001] by auto

end
