(* ===== verification/Principal_Context.thy ===== *)
theory Principal_Context
  imports Effects Uuid_Ids
begin

text \<open>
  The principal context (\<open>packages/platform/src/db/principal-context.ts\<close>): the validation that fails closed, and
  the transaction that binds the caller into transaction-local settings for row-level security.  A pooled connection
  keeps session settings between callers; \<open>set_config (..., true)\<close> writes local settings, which a transaction drops at its end
  and which shadow the session's.  The two branches of \<open>withPrincipalContext\<close> (raw adapter, Prisma) run the same statements.
\<close>

section \<open>Validation\<close>

datatype context_key = TenantIdKey | UserIdKey | SessionIdKey | RequestIdKey

fun guc_name :: "context_key \<Rightarrow> string" where
  "guc_name TenantIdKey = ''app.tenant_id''"
| "guc_name UserIdKey = ''app.user_id''"
| "guc_name SessionIdKey = ''app.session_id''"
| "guc_name RequestIdKey = ''app.request_id''"

definition CONTEXT_KEYS :: "context_key list" where
  "CONTEXT_KEYS = [TenantIdKey, UserIdKey, SessionIdKey, RequestIdKey]"

record principal_context =
  pc_tenantId :: "string option"
  pc_userId :: "string option"
  pc_sessionId :: "string option"
  pc_requestId :: "string option"

fun context_value :: "context_key \<Rightarrow> principal_context \<Rightarrow> string option" where
  "context_value TenantIdKey c = pc_tenantId c"
| "context_value UserIdKey c = pc_userId c"
| "context_value SessionIdKey c = pc_sessionId c"
| "context_value RequestIdKey c = pc_requestId c"

definition DEFAULT_REQUIRED_CONTEXT :: "context_key list" where
  "DEFAULT_REQUIRED_CONTEXT = [TenantIdKey, UserIdKey]"

datatype context_error =
    MISSING_REQUIRED_CONTEXT "context_key list" | INVALID_CONTEXT_VALUE "context_key list"

definition MAX_OPAQUE_VALUE_LENGTH :: nat where
  "MAX_OPAQUE_VALUE_LENGTH = 512"

record bound_values =
  bv_tenantId :: string
  bv_userId :: string
  bv_sessionId :: string
  bv_requestId :: string

fun bound_value :: "context_key \<Rightarrow> bound_values \<Rightarrow> string" where
  "bound_value TenantIdKey v = bv_tenantId v"
| "bound_value UserIdKey v = bv_userId v"
| "bound_value SessionIdKey v = bv_sessionId v"
| "bound_value RequestIdKey v = bv_requestId v"

definition or_empty :: "string option \<Rightarrow> string" where
  "or_empty v = (case v of None \<Rightarrow> [] | Some s \<Rightarrow> s)"

definition missing_keys :: "principal_context \<Rightarrow> context_key list \<Rightarrow> context_key list" where
  "missing_keys context require = filter (\<lambda>key. or_empty (context_value key context) = []) require"

definition opaque_ok :: "string \<Rightarrow> bool" where
  "opaque_ok v \<longleftrightarrow> length v \<le> MAX_OPAQUE_VALUE_LENGTH \<and> CHR 0x00 \<notin> set v"

definition invalid_keys :: "principal_context \<Rightarrow> context_key list" where
  "invalid_keys context =
     filter (\<lambda>key. case context_value key context of
         None \<Rightarrow> False
       | Some v \<Rightarrow> if key = TenantIdKey \<or> key = UserIdKey then \<not> isUuid v else \<not> opaque_ok v) CONTEXT_KEYS"

definition validateContext ::
  "principal_context \<Rightarrow> context_key list \<Rightarrow> (context_error, bound_values) outcome" where
  "validateContext context require =
     (if missing_keys context require \<noteq> [] then Inl (MISSING_REQUIRED_CONTEXT (missing_keys context require))
      else if invalid_keys context \<noteq> [] then Inl (INVALID_CONTEXT_VALUE (invalid_keys context))
      else Inr \<lparr>bv_tenantId = or_empty (pc_tenantId context), bv_userId = or_empty (pc_userId context),
                bv_sessionId = or_empty (pc_sessionId context), bv_requestId = or_empty (pc_requestId context)\<rparr>)"

section \<open>Connections\<close>

record 'db connection =
  cn_session :: "(string \<times> string) list"
  cn_local :: "(string \<times> string) list"
  cn_db :: 'db

definition current_setting :: "string \<Rightarrow> 'db connection \<Rightarrow> string option" where
  "current_setting name c = (case map_of (cn_local c) name of Some v \<Rightarrow> Some v | None \<Rightarrow> map_of (cn_session c) name)"

definition set_config_local :: "string \<Rightarrow> string \<Rightarrow> 'db connection \<Rightarrow> 'db connection" where
  "set_config_local name v c = c\<lparr>cn_local := (name, v) # cn_local c\<rparr>"

text \<open>\<open>NULLIF (current_setting (name, true), '')\<close>, as the row-level policies read a setting.\<close>

definition nullif_empty :: "string option \<Rightarrow> string option" where
  "nullif_empty v = (case v of None \<Rightarrow> None | Some s \<Rightarrow> if s = [] then None else Some s)"

definition set_principal :: "bound_values \<Rightarrow> 'db connection \<Rightarrow> 'db connection" where
  "set_principal v c = fold (\<lambda>key. set_config_local (guc_name key) (bound_value key v)) CONTEXT_KEYS c"

text \<open>A transaction: the local settings die with it, whether it commits or rolls back.\<close>

definition db_transaction :: "('db connection, 'e, 'a) effect \<Rightarrow> ('db connection, 'e, 'a) effect" where
  "db_transaction f = (\<lambda>c. case withTransaction f (c\<lparr>cn_local := []\<rparr>) of (r, c') \<Rightarrow> (r, c'\<lparr>cn_local := []\<rparr>))"

definition withPrincipalContext ::
  "(context_error \<Rightarrow> 'e) \<Rightarrow> principal_context \<Rightarrow> context_key list \<Rightarrow> ('db connection, 'e, 'a) effect
     \<Rightarrow> ('db connection, 'e, 'a) effect" where
  "withPrincipalContext raise context require fn =
     (case validateContext context require of
        Inl e \<Rightarrow> throwE (raise e)
      | Inr v \<Rightarrow> db_transaction (thenE (updateE (\<lambda>c. ((), set_principal v c))) (\<lambda>_. fn)))"

definition withTenant ::
  "(context_error \<Rightarrow> 'e) \<Rightarrow> string \<Rightarrow> string \<Rightarrow> ('db connection, 'e, 'a) effect \<Rightarrow> ('db connection, 'e, 'a) effect" where
  "withTenant raise tenantId userId fn =
     withPrincipalContext raise
       \<lparr>pc_tenantId = Some tenantId, pc_userId = Some userId, pc_sessionId = None, pc_requestId = None\<rparr>
       [TenantIdKey, UserIdKey] fn"

section \<open>Lemmas\<close>

lemma guc_name_inject: "guc_name a = guc_name b \<longleftrightarrow> a = b"
  by (cases a; cases b) simp_all

lemma current_setting_bound: "current_setting (guc_name key) (set_principal v c) = Some (bound_value key v)"
  by (cases key) (simp_all add: set_principal_def CONTEXT_KEYS_def set_config_local_def current_setting_def)

lemma set_principal_simps [simp]:
  "cn_session (set_principal v c) = cn_session c" "cn_db (set_principal v c) = cn_db c"
  by (simp_all add: set_principal_def CONTEXT_KEYS_def set_config_local_def)

text \<open>What a body under row-level security may depend on, and change: the database and the four settings.\<close>

definition sees_only_principal :: "('db connection, 'e, 'a) effect \<Rightarrow> bool" where
  "sees_only_principal fn \<longleftrightarrow>
     (\<forall>a b. cn_db a = cn_db b \<and> (\<forall>key. current_setting (guc_name key) a = current_setting (guc_name key) b)
        \<longrightarrow> fst (fn a) = fst (fn b) \<and> cn_db (snd (fn a)) = cn_db (snd (fn b)))"

lemma validateContext_Inr:
  assumes "validateContext context require = Inr v"
  shows "missing_keys context require = []" "invalid_keys context = []"
    "\<And>key. bound_value key v = or_empty (context_value key context)"
proof -
  show "missing_keys context require = []" "invalid_keys context = []"
    using assms by (auto simp: validateContext_def split: if_splits)
  fix key show "bound_value key v = or_empty (context_value key context)"
    using assms by (cases key) (auto simp: validateContext_def split: if_splits)
qed

lemma valid_context:
  assumes "invalid_keys context = []"
  shows "pc_tenantId context = Some t \<Longrightarrow> isUuid t" "pc_userId context = Some u \<Longrightarrow> isUuid u"
  using assms by (auto simp: invalid_keys_def CONTEXT_KEYS_def split: if_splits)

section \<open>Properties\<close>

text \<open>
  C28: A context that lacks a required key or carries a malformed value runs nothing; otherwise the body sees exactly
  the bound principal, whatever settings earlier callers left on the pooled connection, and what it answers and
  writes is what it would on a fresh one.  A throw leaves the database as it was, and no setting survives the call.
\<close>

theorem principal_context_is_exact:
  fixes fn :: "('db connection, 'e, 'a) effect"
  assumes "sees_only_principal fn" "cn_db c = cn_db fresh"
  shows "case validateContext ctx require of
      Inl e \<Rightarrow> withPrincipalContext raise ctx require fn c = (Inl (raise e), c)
    | Inr v \<Rightarrow>
        (\<forall>key. current_setting (guc_name key) (set_principal v c) = Some (or_empty (context_value key ctx)))
        \<and> fst (withPrincipalContext raise ctx require fn c) = fst (withPrincipalContext raise ctx require fn fresh)
        \<and> cn_db (snd (withPrincipalContext raise ctx require fn c))
          = cn_db (snd (withPrincipalContext raise ctx require fn fresh))
        \<and> cn_local (snd (withPrincipalContext raise ctx require fn c)) = []
        \<and> (\<forall>e. fst (withPrincipalContext raise ctx require fn c) = Inl e
            \<longrightarrow> snd (withPrincipalContext raise ctx require fn c) = c\<lparr>cn_local := []\<rparr>)"
proof (cases "validateContext ctx require")
  case (Inl e)
  then show ?thesis by (simp add: withPrincipalContext_def)
next
  case (Inr v)
  let ?a = "set_principal v (c\<lparr>cn_local := []\<rparr>)" and ?b = "set_principal v (fresh\<lparr>cn_local := []\<rparr>)"
  have same: "fst (fn ?a) = fst (fn ?b)" "cn_db (snd (fn ?a)) = cn_db (snd (fn ?b))"
    using assms unfolding sees_only_principal_def by (auto simp: current_setting_bound)
  have run: "withPrincipalContext raise ctx require fn x =
      (case fn (set_principal v (x\<lparr>cn_local := []\<rparr>)) of
         (Inr y, x') \<Rightarrow> (Inr y, x'\<lparr>cn_local := []\<rparr>) | (Inl e, x') \<Rightarrow> (Inl e, x\<lparr>cn_local := []\<rparr>))" for x
    by (simp add: withPrincipalContext_def Inr db_transaction_def withTransaction_def thenE_def
        split: prod.splits sum.splits)
  show ?thesis using same assms(2)
    by (auto simp: Inr run current_setting_bound validateContext_Inr(3) [OF Inr] split: prod.splits sum.splits)
qed

definition read_principal :: "(string list connection, string, string option) effect" where
  "read_principal = readE (\<lambda>c. nullif_empty (current_setting ''app.tenant_id'' c))"

definition stale_connection :: "string list connection" where
  "stale_connection = \<lparr>cn_session = [(''app.tenant_id'', ''11111111-1111-4111-8111-111111111111'')], cn_local = [], cn_db = []\<rparr>"

definition platform_context :: principal_context where
  "platform_context = \<lparr>pc_tenantId = None, pc_userId = Some ''22222222-2222-4222-8222-222222222222'',
     pc_sessionId = None, pc_requestId = None\<rparr>"

theorem principal_context_is_exact_witness:
  "sees_only_principal read_principal
   \<and> fst (withPrincipalContext (\<lambda>e. ''refused'') platform_context [UserIdKey] read_principal stale_connection)
     = fst (withPrincipalContext (\<lambda>e. ''refused'') platform_context [UserIdKey] read_principal (stale_connection\<lparr>cn_session := []\<rparr>))
   \<and> fst (withPrincipalContext (\<lambda>e. ''refused'') platform_context [UserIdKey] read_principal stale_connection) = Inr None"
proof -
  have s: "sees_only_principal read_principal"
    unfolding sees_only_principal_def read_principal_def by (simp add: guc_name.simps [symmetric] del: guc_name.simps)
  have v: "\<exists>v. validateContext platform_context [UserIdKey] = Inr v"
  proof -
    have "result_isOk (validateContext platform_context [UserIdKey])" by code_simp
    then show ?thesis by (cases "validateContext platform_context [UserIdKey]") auto
  qed
  have r: "fst (withPrincipalContext (\<lambda>e. ''refused'') platform_context [UserIdKey] read_principal stale_connection) = Inr None"
    by code_simp
  from principal_context_is_exact [OF s, where c = stale_connection and fresh = "stale_connection\<lparr>cn_session := []\<rparr>"
      and ctx = platform_context and require = "[UserIdKey]" and raise = "\<lambda>e. ''refused''"] v r s
  show ?thesis by auto
qed

end
