(* ===== verification/Audit_Trail.thy ===== *)
theory Audit_Trail
  imports Uuid_Ids Event_Bus
begin

text \<open>
  The audit module: the metadata guard (\<open>modules/audit/application/audit-metadata-guard.ts\<close>), \<open>RecordAuditEvent\<close>, the
  PostgreSQL writer with its error mapping (\<open>packages/platform/src/db/errors.ts\<close>), and the
  \<open>RecordAuditEventAuditTrail\<close> through which the other modules record.  A caller's metadata is a list of key and JSON value;
  a thrown error is the left summand.  The byte length of a serialized object is the argument \<open>json_bytes\<close>; what the driver
  raises on the INSERT is an argument of the writer.
\<close>

section \<open>The metadata guard\<close>

definition is_lower_or_digit :: "char \<Rightarrow> bool" where
  "is_lower_or_digit c = (let n = (of_char c :: nat) in (97 \<le> n \<and> n \<le> 122) \<or> is_digit c)"

definition is_upper_ascii :: "char \<Rightarrow> bool" where
  "is_upper_ascii c = (let n = (of_char c :: nat) in 65 \<le> n \<and> n \<le> 90)"

text \<open>The replacement \<open>/([a-z0-9])([A-Z])/g\<close>: its matches cannot overlap.\<close>

fun split_camel :: "string \<Rightarrow> string" where
  "split_camel (a # b # s) =
     (if is_lower_or_digit a \<and> is_upper_ascii b then a # CHR ''_'' # split_camel (b # s) else a # split_camel (b # s))"
| "split_camel s = s"

definition ascii_lower :: "char \<Rightarrow> char" where
  "ascii_lower c = (let n = (of_char c :: nat) in
     if (65 \<le> n \<and> n \<le> 90) \<or> (192 \<le> n \<and> n \<le> 222 \<and> n \<noteq> 215) then char_of (n + 32) else c)"

definition normalizeKey :: "string \<Rightarrow> string" where
  "normalizeKey key = map ascii_lower (map (\<lambda>c. if c = CHR ''-'' then CHR ''_'' else c) (split_camel key))"

text \<open>\<open>(?:^|_)(?:words)(?:_|$)\<close>: a word at the start or after an underscore, up to an underscore or the end.\<close>

definition word_here :: "string list \<Rightarrow> string \<Rightarrow> bool" where
  "word_here words s \<longleftrightarrow> list_ex (\<lambda>w. take (length w) s = w
     \<and> (drop (length w) s = [] \<or> hd (drop (length w) s) = CHR ''_'')) words"

fun word_after :: "string list \<Rightarrow> string \<Rightarrow> bool" where
  "word_after words [] = False"
| "word_after words (c # s) = ((c = CHR ''_'' \<and> word_here words s) \<or> word_after words s)"

definition matches_word :: "string list \<Rightarrow> string \<Rightarrow> bool" where
  "matches_word words s \<longleftrightarrow> word_here words s \<or> word_after words s"

definition SECRET_KEY_WORDS :: "string list" where
  "SECRET_KEY_WORDS = [''password'', ''passwd'', ''secret'', ''token'', ''api_key'', ''apikey'', ''private_key'',
     ''privatekey'', ''credential'', ''credentials'', ''authorization'', ''bearer'', ''jwt'', ''signing_key'',
     ''signingkey'']"

definition FINANCIAL_KEY_WORDS :: "string list" where
  "FINANCIAL_KEY_WORDS = [''iban'', ''account_number'', ''accountnumber'', ''card_number'', ''cardnumber'', ''pan'',
     ''amount'', ''amounts'', ''balance'', ''balances'', ''minor_units'', ''minorunits'']"

definition secret_key :: "string \<Rightarrow> bool" where
  "secret_key key \<longleftrightarrow> matches_word SECRET_KEY_WORDS (normalizeKey key)"

definition financial_key :: "string \<Rightarrow> bool" where
  "financial_key key \<longleftrightarrow> matches_word FINANCIAL_KEY_WORDS (normalizeKey key)"

definition identifier_key :: "string \<Rightarrow> bool" where
  "identifier_key key = (let k = normalizeKey key in
     k = ''id'' \<or> ends_with k ''_id'' \<or> ends_with k ''_ref'' \<or> k = ''status'' \<or> k = ''state'' \<or> ends_with k ''_at'')"

definition MAX_METADATA_BYTES :: nat where
  "MAX_METADATA_BYTES = 4096"

type_synonym metadata = "(string \<times> json_value) list"

datatype metadata_violation =
    SECRET_KEY string | SEALED_VALUE string | SECRET_VALUE string | NESTED_VALUE string
  | FINANCIAL_VALUE string | METADATA_TOO_LARGE nat

definition isClassifiedValue :: "json_value \<Rightarrow> bool" where
  "isClassifiedValue v = (case as_record (Some v) of
     None \<Rightarrow> False | Some members \<Rightarrow> js_in ''classification'' members \<and> js_in ''value'' members)"

fun isScalar :: "json_value \<Rightarrow> bool" where
  "isScalar (JsArray xs) = False"
| "isScalar (JsObject ms) = False"
| "isScalar _ = True"

definition member :: "string \<Rightarrow> json_value \<Rightarrow> json_value" where
  "member key v = (case as_record (Some v) of None \<Rightarrow> JsNull
     | Some members \<Rightarrow> (case map_of members key of None \<Rightarrow> JsNull | Some x \<Rightarrow> x))"

text \<open>Storing under \<open>__proto__\<close> creates no property.\<close>

definition put_sanitized :: "string \<Rightarrow> json_value \<Rightarrow> metadata \<Rightarrow> metadata" where
  "put_sanitized key v acc = (if key = ''__proto__'' then acc else acc @ [(key, v)])"

definition sanitize_entry :: "string \<Rightarrow> json_value \<Rightarrow> (metadata_violation, json_value) outcome" where
  "sanitize_entry key raw =
     (let classification = (if isClassifiedValue raw then Some (member ''classification'' raw) else None);
          v = (if isClassifiedValue raw then member ''value'' raw else raw)
      in if secret_key key then Inl (SECRET_KEY key)
         else if classification = Some (JsString ''SEALED'') then Inl (SEALED_VALUE key)
         else if classification = Some (JsString ''SECRET'') then Inl (SECRET_VALUE key)
         else if \<not> isScalar v then Inl (NESTED_VALUE key)
         else if classification = Some (JsString ''HIGHLY_SENSITIVE_FINANCIAL'') then
           Inr (if identifier_key key then v else JsString REDACTED_HSF)
         else if financial_key key \<and> \<not> identifier_key key then Inl (FINANCIAL_VALUE key)
         else Inr v)"

fun sanitize_entries :: "metadata \<Rightarrow> metadata \<Rightarrow> (metadata_violation, metadata) outcome" where
  "sanitize_entries [] acc = Inr acc"
| "sanitize_entries ((key, raw) # rest) acc =
     (case sanitize_entry key raw of
        Inl e \<Rightarrow> Inl e
      | Inr v \<Rightarrow> sanitize_entries rest (put_sanitized key v acc))"

definition guard_apply ::
  "(metadata \<Rightarrow> nat) \<Rightarrow> metadata option \<Rightarrow> (metadata_violation, metadata option) outcome" where
  "guard_apply json_bytes metadata =
     (case metadata of
        None \<Rightarrow> Inr None
      | Some entries \<Rightarrow>
          (case sanitize_entries entries [] of
             Inl e \<Rightarrow> Inl e
           | Inr sanitized \<Rightarrow>
               if json_bytes sanitized > MAX_METADATA_BYTES then Inl (METADATA_TOO_LARGE (json_bytes sanitized))
               else Inr (Some sanitized)))"

section \<open>Recording\<close>

definition AUDIT_OUTCOMES :: "string list" where
  "AUDIT_OUTCOMES = [''SUCCESS'', ''DENIED'', ''FAILURE'']"

record audit_event =
  av_auditEventId :: string
  av_occurredAt :: js_number
  av_environment :: string
  av_actorRef :: "string option"
  av_tenantRef :: "string option"
  av_action :: string
  av_resourceType :: string
  av_resourceId :: string
  av_reason :: "string option"
  av_requestId :: "string option"
  av_traceId :: "string option"
  av_correlationId :: "string option"
  av_beforeMetadata :: "metadata option"
  av_afterMetadata :: "metadata option"
  av_outcome :: string

text \<open>\<open>RecordAuditEventInput\<close> is an event without an id, whose metadata has not passed the guard.  A \<open>Date\<close> is a number of
  milliseconds, \<open>NotWhole\<close> for an invalid one.\<close>

record audit_input =
  ai_occurredAt :: js_number
  ai_environment :: string
  ai_actorRef :: "string option"
  ai_tenantRef :: "string option"
  ai_action :: string
  ai_resourceType :: string
  ai_resourceId :: string
  ai_reason :: "string option"
  ai_requestId :: "string option"
  ai_traceId :: "string option"
  ai_correlationId :: "string option"
  ai_beforeMetadata :: "metadata option"
  ai_afterMetadata :: "metadata option"
  ai_outcome :: string

datatype audit_defect =
    INVALID_AUDIT_OUTCOME string | INVALID_AUDIT_INSTANT | EMPTY_AUDIT_FIELD string
  | METADATA_VIOLATION metadata_violation

definition requireNonEmpty :: "string \<Rightarrow> string \<Rightarrow> (audit_defect, string) outcome" where
  "requireNonEmpty field v = (if blank v then Inl (EMPTY_AUDIT_FIELD field) else Inr v)"

definition guarded :: "(metadata \<Rightarrow> nat) \<Rightarrow> metadata option \<Rightarrow> (audit_defect, metadata option) outcome" where
  "guarded json_bytes m = result_mapErr (guard_apply json_bytes m) METADATA_VIOLATION"

definition make_audit_event ::
  "(metadata \<Rightarrow> nat) \<Rightarrow> string \<Rightarrow> audit_input \<Rightarrow> (audit_defect, audit_event) outcome" where
  "make_audit_event json_bytes nextId i =
     (if ai_outcome i \<notin> set AUDIT_OUTCOMES then Inl (INVALID_AUDIT_OUTCOME (ai_outcome i))
      else if ai_occurredAt i = NotWhole then Inl INVALID_AUDIT_INSTANT
      else result_andThen (requireNonEmpty ''environment'' (ai_environment i)) (\<lambda>environment.
        result_andThen (requireNonEmpty ''action'' (ai_action i)) (\<lambda>action.
        result_andThen (requireNonEmpty ''resourceType'' (ai_resourceType i)) (\<lambda>resourceType.
        result_andThen (requireNonEmpty ''resourceId'' (ai_resourceId i)) (\<lambda>resourceId.
        result_andThen (guarded json_bytes (ai_beforeMetadata i)) (\<lambda>before.
        result_andThen (guarded json_bytes (ai_afterMetadata i)) (\<lambda>after.
          Inr \<lparr>av_auditEventId = nextId, av_occurredAt = ai_occurredAt i, av_environment = environment,
               av_actorRef = ai_actorRef i, av_tenantRef = ai_tenantRef i, av_action = action,
               av_resourceType = resourceType, av_resourceId = resourceId, av_reason = ai_reason i,
               av_requestId = ai_requestId i, av_traceId = ai_traceId i, av_correlationId = ai_correlationId i,
               av_beforeMetadata = before, av_afterMetadata = after, av_outcome = ai_outcome i\<rparr>)))))))"

section \<open>The writer\<close>

text \<open>What the driver raised: an error already mapped, or one with its \<open>code\<close>, if any, and message.\<close>

datatype pg_code = UNIQUE_VIOLATION | SERIALIZATION_FAILURE | INSUFFICIENT_PRIVILEGE | CONNECTION_FAILURE | PG_UNKNOWN

datatype driver_error = MAPPED pg_code | RAISED "string option" string

definition NODE_NETWORK_ERRNOS :: "string list" where
  "NODE_NETWORK_ERRNOS = [''ECONNREFUSED'', ''ECONNRESET'', ''ENOTFOUND'', ''ETIMEDOUT'', ''EHOSTUNREACH'', ''EPIPE'']"

definition CONNECTION_SQLSTATES :: "string list" where
  "CONNECTION_SQLSTATES = [''57P01'', ''57P02'', ''57P03'']"

definition isSqlState :: "string \<Rightarrow> bool" where
  "isSqlState c \<longleftrightarrow> length c = 5 \<and> list_all (\<lambda>x. is_digit x \<or> is_upper_ascii x) c"

fun contains :: "string \<Rightarrow> string \<Rightarrow> bool" where
  "contains needle [] = (needle = [])"
| "contains needle (c # s) = (take (length needle) (c # s) = needle \<or> contains needle s)"

definition connection_lost :: "string \<Rightarrow> bool" where
  "connection_lost message = (let m = map ascii_lower message in
     contains ''connection terminated'' m \<or> contains ''connection ended'' m)"

definition mapPgError :: "driver_error \<Rightarrow> pg_code" where
  "mapPgError e = (case e of
     MAPPED c \<Rightarrow> c
   | RAISED rawCode message \<Rightarrow>
       if (case rawCode of None \<Rightarrow> False | Some c \<Rightarrow> c \<in> set NODE_NETWORK_ERRNOS) then CONNECTION_FAILURE
       else if (case rawCode of None \<Rightarrow> False | Some c \<Rightarrow> isSqlState c) then
         (let c = the rawCode in
          if c = ''23505'' then UNIQUE_VIOLATION
          else if c = ''40001'' then SERIALIZATION_FAILURE
          else if c = ''42501'' then INSUFFICIENT_PRIVILEGE
          else if take 2 c = ''08'' \<or> c \<in> set CONNECTION_SQLSTATES then CONNECTION_FAILURE
          else PG_UNKNOWN)
       else if connection_lost message then CONNECTION_FAILURE
       else PG_UNKNOWN)"

datatype write_error_kind = WRITE_UNAVAILABLE | WRITE_DENIED | WRITE_UNKNOWN

definition toWriteError :: "driver_error \<Rightarrow> write_error_kind" where
  "toWriteError e = (case mapPgError e of
     CONNECTION_FAILURE \<Rightarrow> WRITE_UNAVAILABLE
   | INSUFFICIENT_PRIVILEGE \<Rightarrow> WRITE_DENIED
   | _ \<Rightarrow> WRITE_UNKNOWN)"

text \<open>The INSERT: \<open>audit.audit_events\<close> takes rows at its end, under the primary key; nothing updates or deletes them.\<close>

definition writer_record ::
  "driver_error option \<Rightarrow> audit_event \<Rightarrow> audit_event list \<Rightarrow> (write_error_kind, audit_event) outcome \<times> audit_event list" where
  "writer_record raised event events =
     (case raised of
        Some e \<Rightarrow> (Inl (toWriteError e), events)
      | None \<Rightarrow>
          (case create_row (\<lambda>a b. av_auditEventId a = av_auditEventId b) event events of
             None \<Rightarrow> (Inl (toWriteError (RAISED (Some ''23505'') [])), events)
           | Some events' \<Rightarrow> (Inr event, events')))"

record audit_deps =
  au_environment :: string
  au_jsonBytes :: "metadata \<Rightarrow> nat"
  au_nextId :: string
  au_raised :: "driver_error option"

definition recordAuditEvent ::
  "audit_deps \<Rightarrow> audit_input \<Rightarrow> audit_event list
     \<Rightarrow> (audit_defect, (write_error_kind, audit_event) outcome) outcome \<times> audit_event list" where
  "recordAuditEvent d i events =
     (case make_audit_event (au_jsonBytes d) (au_nextId d) i of
        Inl defect \<Rightarrow> (Inl defect, events)
      | Inr event \<Rightarrow> (case writer_record (au_raised d) event events of (r, events') \<Rightarrow> (Inr r, events')))"

section \<open>The trail of the other modules\<close>

record trail_entry =
  te_occurredAt :: millis
  te_actorRef :: string
  te_tenantRef :: "string option"
  te_action :: string
  te_resourceType :: string
  te_resourceId :: string
  te_reason :: "string option"
  te_requestId :: "string option"
  te_before :: "(string \<times> string) list option"
  te_after :: "(string \<times> string) list option"
  te_outcome :: string

datatype trail_failure = AUDIT_UNAVAILABLE | AUDIT_REFUSED | AUDIT_UNKNOWN

definition scalars :: "(string \<times> string) list \<Rightarrow> metadata" where
  "scalars = map (\<lambda>(k, v). (k, JsString v))"

definition trail_input :: "string \<Rightarrow> trail_entry \<Rightarrow> audit_input" where
  "trail_input environment e =
     \<lparr>ai_occurredAt = Whole (te_occurredAt e), ai_environment = environment, ai_actorRef = Some (te_actorRef e),
      ai_tenantRef = te_tenantRef e, ai_action = te_action e, ai_resourceType = te_resourceType e,
      ai_resourceId = te_resourceId e, ai_reason = te_reason e, ai_requestId = te_requestId e, ai_traceId = None,
      ai_correlationId = None, ai_beforeMetadata = map_option scalars (te_before e),
      ai_afterMetadata = map_option scalars (te_after e), ai_outcome = te_outcome e\<rparr>"

definition trail_record ::
  "audit_deps \<Rightarrow> trail_entry \<Rightarrow> audit_event list
     \<Rightarrow> (audit_defect, (trail_failure, unit) outcome) outcome \<times> audit_event list" where
  "trail_record d e events =
     (case recordAuditEvent d (trail_input (au_environment d) e) events of
        (Inl defect, events') \<Rightarrow> (Inl defect, events')
      | (Inr (Inr event), events') \<Rightarrow> (Inr (Inr ()), events')
      | (Inr (Inl WRITE_UNAVAILABLE), events') \<Rightarrow> (Inr (Inl AUDIT_UNAVAILABLE), events')
      | (Inr (Inl WRITE_DENIED), events') \<Rightarrow> (Inr (Inl AUDIT_REFUSED), events')
      | (Inr (Inl WRITE_UNKNOWN), events') \<Rightarrow> (Inr (Inl AUDIT_UNKNOWN), events'))"

section \<open>Lemmas\<close>

definition clean_entry :: "string \<Rightarrow> json_value \<Rightarrow> json_value \<Rightarrow> bool" where
  "clean_entry key raw v \<longleftrightarrow> \<not> secret_key key \<and> isScalar v
     \<and> (if isClassifiedValue raw
        then member ''classification'' raw \<noteq> JsString ''SECRET'' \<and> member ''classification'' raw \<noteq> JsString ''SEALED''
          \<and> (v = member ''value'' raw \<or> v = JsString REDACTED_HSF)
        else v = raw)
     \<and> (v = JsString REDACTED_HSF \<or> identifier_key key
        \<or> \<not> financial_key key \<and> member ''classification'' raw \<noteq> JsString ''HIGHLY_SENSITIVE_FINANCIAL'')"

lemma sanitize_entry_clean:
  assumes "sanitize_entry key raw = Inr v"
  shows "clean_entry key raw v"
proof (cases "isClassifiedValue raw")
  case True
  then show ?thesis using assms
    by (auto simp: sanitize_entry_def clean_entry_def Let_def split: if_splits)
next
  case False
  have "member ''classification'' raw = JsNull" if "isScalar raw"
    using that by (cases raw) (simp_all add: member_def)
  then show ?thesis using assms False
    by (auto simp: sanitize_entry_def clean_entry_def Let_def split: if_splits)
qed

text \<open>The stored form of a metadata object: entry by entry, except an entry named \<open>__proto__\<close>.\<close>

definition clean_form :: "metadata \<Rightarrow> metadata \<Rightarrow> bool" where
  "clean_form entries md \<longleftrightarrow>
     list_all2 (\<lambda>(key, raw) (key', v). key' = key \<and> clean_entry key raw v)
       (filter (\<lambda>(key, raw). key \<noteq> ''__proto__'') entries) md
     \<and> (\<forall>(key, raw) \<in> set entries. \<exists>v. clean_entry key raw v)"

lemma sanitize_entries_clean:
  assumes "sanitize_entries entries acc = Inr md"
  shows "\<exists>out. md = acc @ out \<and> clean_form entries out"
  using assms
proof (induction entries arbitrary: acc)
  case Nil
  then show ?case by (simp add: clean_form_def)
next
  case (Cons entry rest)
  obtain key raw where e: "entry = (key, raw)" by (cases entry)
  obtain v where v: "sanitize_entry key raw = Inr v"
    using Cons.prems e by (auto split: sum.splits)
  have c: "clean_entry key raw v" using sanitize_entry_clean [OF v] .
  obtain out where out: "md = put_sanitized key v acc @ out" "clean_form rest out"
    using Cons.IH [of "put_sanitized key v acc"] Cons.prems e v by auto
  show ?case
  proof (cases "key = ''__proto__''")
    case True
    then show ?thesis using out c e by (intro exI [of _ out]) (auto simp: put_sanitized_def clean_form_def)
  next
    case False
    then show ?thesis using out c e
      by (intro exI [of _ "(key, v) # out"]) (auto simp: put_sanitized_def clean_form_def)
  qed
qed

definition stored_clean :: "(metadata \<Rightarrow> nat) \<Rightarrow> metadata option \<Rightarrow> metadata option \<Rightarrow> bool" where
  "stored_clean json_bytes given stored = (case (given, stored) of
     (None, None) \<Rightarrow> True
   | (Some entries, Some md) \<Rightarrow> clean_form entries md \<and> json_bytes md \<le> MAX_METADATA_BYTES
   | _ \<Rightarrow> False)"

lemma guarded_clean: "guarded json_bytes given = Inr stored \<Longrightarrow> stored_clean json_bytes given stored"
  using sanitize_entries_clean [of _ "[]"]
  by (fastforce simp: guarded_def guard_apply_def stored_clean_def result_map_eq_Inr
      split: option.splits sum.splits if_splits)

lemma make_audit_event_clean:
  assumes "make_audit_event jb n i = Inr e"
  shows "stored_clean jb (ai_beforeMetadata i) (av_beforeMetadata e)"
    "stored_clean jb (ai_afterMetadata i) (av_afterMetadata e)"
    "av_outcome e \<in> set AUDIT_OUTCOMES" "\<exists>t. av_occurredAt e = Whole t" "\<not> blank (av_environment e)"
    "\<not> blank (av_action e)" "\<not> blank (av_resourceType e)" "\<not> blank (av_resourceId e)"
    "av_reason e = ai_reason i" "av_actorRef e = ai_actorRef i" "av_action e = ai_action i"
    "av_resourceId e = ai_resourceId i" "av_outcome e = ai_outcome i"
  using assms
  by (auto simp: make_audit_event_def requireNonEmpty_def result_andThen_eq_Inr guarded_clean
      split: if_splits) (metis js_number.exhaust)

section \<open>Properties\<close>

text \<open>
  C29: An audit record is appended exactly when the answer is a success; what is stored of each metadata object is its
  entries one by one: no secret-named key, no SECRET or SEALED value, nothing nested, financial detail only
  redacted or under an identifier, and no more than the size limit.  Nothing stored before changes.
\<close>

theorem audit_stores_only_clean_metadata:
  assumes "recordAuditEvent d i events = (r, events')"
  shows "(\<exists>e. r = Inr (Inr e) \<and> events' = events @ [e] \<and> av_outcome e \<in> set AUDIT_OUTCOMES
      \<and> \<not> blank (av_action e) \<and> \<not> blank (av_resourceType e) \<and> \<not> blank (av_resourceId e)
      \<and> stored_clean (au_jsonBytes d) (ai_beforeMetadata i) (av_beforeMetadata e)
      \<and> stored_clean (au_jsonBytes d) (ai_afterMetadata i) (av_afterMetadata e))
    \<or> events' = events \<and> ((\<exists>defect. r = Inl defect) \<or> (\<exists>kind. r = Inr (Inl kind)))"
proof (cases "make_audit_event (au_jsonBytes d) (au_nextId d) i")
  case (Inl defect)
  then show ?thesis using assms by (auto simp: recordAuditEvent_def)
next
  case (Inr e)
  note made = make_audit_event_clean [OF Inr]
  show ?thesis using assms made(1-3,6-8) Inr
    by (auto simp: recordAuditEvent_def writer_record_def create_row_def split: option.splits if_splits prod.splits)
qed

definition sample_audit :: audit_input where
  "sample_audit = \<lparr>ai_occurredAt = Whole 0, ai_environment = ''local'', ai_actorRef = Some ''user:1'', ai_tenantRef = None,
     ai_action = ''transfer.read'', ai_resourceType = ''transfer'', ai_resourceId = ''t1'', ai_reason = None,
     ai_requestId = None, ai_traceId = None, ai_correlationId = None, ai_beforeMetadata = None,
     ai_afterMetadata = Some [(''amountMinor'', JsObject [(''classification'', JsString ''HIGHLY_SENSITIVE_FINANCIAL''),
        (''value'', JsNumber (Whole 500))]), (''accountRef'', JsString ''a1'')], ai_outcome = ''SUCCESS''\<rparr>"

definition sample_audit_deps :: audit_deps where
  "sample_audit_deps = \<lparr>au_environment = ''local'', au_jsonBytes = length, au_nextId = ''e1'', au_raised = None\<rparr>"

theorem audit_stores_only_clean_metadata_witness:
  "\<exists>e. recordAuditEvent sample_audit_deps sample_audit [] = (Inr (Inr e), [e])
     \<and> av_afterMetadata e = Some [(''amountMinor'', JsString REDACTED_HSF), (''accountRef'', JsString ''a1'')]
     \<and> stored_clean length (ai_afterMetadata sample_audit) (av_afterMetadata e)"
proof -
  let ?run = "recordAuditEvent sample_audit_deps sample_audit []"
  have run: "(case ?run of (Inr (Inr e), es) \<Rightarrow> es = [e] \<and> av_afterMetadata e
      = Some [(''amountMinor'', JsString REDACTED_HSF), (''accountRef'', JsString ''a1'')] | _ \<Rightarrow> False)"
    by code_simp
  obtain r es where r: "?run = (r, es)" by (cases ?run)
  from audit_stores_only_clean_metadata [OF r] run r show ?thesis
    by (auto simp: sample_audit_deps_def split: sum.splits)
qed

end
