(* ===== verification/Authorization.thy ===== *)
theory Authorization
  imports Audit_Trail Principal_Context
begin

text \<open>
  The authorization module: the permission and role catalogue with its validator (\<open>domain/catalogue.ts\<close>), role
  assignments (\<open>domain/role-assignment.ts\<close>), the repository on the table of migration 0052 with its row-level policies,
  constraints and guard trigger, \<open>RbacPolicyService\<close>, its two facades and the permission guard, and the use cases \<open>AssignRole\<close> and
  \<open>RevokeRole\<close>.  Descriptions and message texts are dropped.  A \<open>uuid\<close> column holds the lower-case text; a comparison with a parameter
  lowers the parameter.  The clock gives one instant per execution.
\<close>

section \<open>The catalogue\<close>

record permission_definition =
  pd_name :: string
  pd_capability :: string

definition PERMISSION_CATALOGUE :: "permission_definition list" where
  "PERMISSION_CATALOGUE = map (\<lambda>(n, c). \<lparr>pd_name = n, pd_capability = c\<rparr>)
    [(''identity.session.revoke'', ''identity''), (''identity.mfa.reset'', ''identity''),
     (''users.profile.read'', ''users''), (''users.status.update'', ''users''),
     (''tenancy.member.read'', ''tenancy''), (''tenancy.invitation.create'', ''tenancy''),
     (''tenancy.invitation.revoke'', ''tenancy''), (''entity.entity.manage'', ''entity''),
     (''entity.migration.approve'', ''entity''), (''consent.document.publish'', ''consent''),
     (''consent.status.read'', ''consent''), (''controlplane.killswitch.operate'', ''controlplane''),
     (''authorization.role.assign'', ''authorization''), (''authorization.role.revoke'', ''authorization'')]"

datatype role_scope = SCOPE_PLATFORM | SCOPE_TENANT | SCOPE_BOTH

definition ROLE_CATALOGUE :: "(string \<times> role_scope) list" where
  "ROLE_CATALOGUE = [(''USER'', SCOPE_PLATFORM), (''TENANT_MEMBER'', SCOPE_TENANT), (''TENANT_ADMIN'', SCOPE_TENANT),
     (''SUPPORT'', SCOPE_PLATFORM), (''OPERATOR'', SCOPE_PLATFORM), (''SECURITY'', SCOPE_PLATFORM),
     (''PLATFORM_ADMIN'', SCOPE_PLATFORM), (''DISCLOSURE_APPROVER'', SCOPE_PLATFORM)]"

definition ROLE_PERMISSION_GRANTS :: "(string \<times> string list) list" where
  "ROLE_PERMISSION_GRANTS =
    [(''USER'', []), (''TENANT_MEMBER'', []),
     (''TENANT_ADMIN'', [''tenancy.member.read'', ''tenancy.invitation.create'', ''tenancy.invitation.revoke'']),
     (''SUPPORT'', [''users.profile.read'', ''consent.status.read'']),
     (''OPERATOR'', [''controlplane.killswitch.operate'']),
     (''SECURITY'', []),
     (''PLATFORM_ADMIN'', [''authorization.role.assign'', ''authorization.role.revoke'', ''entity.entity.manage'',
        ''entity.migration.approve'', ''identity.session.revoke'', ''identity.mfa.reset'', ''users.status.update'',
        ''consent.document.publish'']),
     (''DISCLOSURE_APPROVER'', [])]"

definition isPermissionName :: "string \<Rightarrow> bool" where
  "isPermissionName v = list_ex (\<lambda>p. pd_name p = v) PERMISSION_CATALOGUE"

definition isRoleId :: "string \<Rightarrow> bool" where
  "isRoleId v = list_ex (\<lambda>(r, s). r = v) ROLE_CATALOGUE"

text \<open>\<open>None\<close>: the role is not in the catalogue, where the source throws.\<close>

definition roleDefinition :: "string \<Rightarrow> role_scope option" where
  "roleDefinition i = map_of ROLE_CATALOGUE i"

definition permissionsGrantedTo :: "string \<Rightarrow> string list" where
  "permissionsGrantedTo role = (case map_of ROLE_PERMISSION_GRANTS role of None \<Rightarrow> [] | Some ps \<Rightarrow> ps)"

fun roleScopeAdmitsBinding :: "role_scope \<Rightarrow> bool \<Rightarrow> bool" where
  "roleScopeAdmitsBinding SCOPE_PLATFORM tenantBound = (\<not> tenantBound)"
| "roleScopeAdmitsBinding SCOPE_TENANT tenantBound = tenantBound"
| "roleScopeAdmitsBinding SCOPE_BOTH tenantBound = True"

datatype catalogue_violation =
    WILDCARD string | GRAMMAR string | FOREIGN_PREFIX string | DUPLICATE_PERMISSION string
  | ROLE_GRAMMAR string | DUPLICATE_ROLE string | UNKNOWN_ROLE string | UNKNOWN_GRANT string string

text \<open>\<open>PERMISSION_NAME_GRAMMAR\<close>: three dot-separated segments, each a lower-case letter followed by lower-case letters and
  underscores.\<close>

fun split_on :: "char \<Rightarrow> string \<Rightarrow> string list" where
  "split_on d [] = [[]]"
| "split_on d (c # s) = (if c = d then [] # split_on d s else
     (case split_on d s of [] \<Rightarrow> [[c]] | x # xs \<Rightarrow> (c # x) # xs))"

definition ascii_in :: "nat \<Rightarrow> nat \<Rightarrow> char \<Rightarrow> bool" where
  "ascii_in lo hi c = (let n = (of_char c :: nat) in lo \<le> n \<and> n \<le> hi)"

definition segment_ok :: "nat \<Rightarrow> nat \<Rightarrow> string \<Rightarrow> bool" where
  "segment_ok lo hi s = (case s of [] \<Rightarrow> False | c # cs \<Rightarrow> ascii_in lo hi c \<and> list_all (\<lambda>x. ascii_in lo hi x \<or> x = CHR ''_'') cs)"

definition permission_name_grammar :: "string \<Rightarrow> bool" where
  "permission_name_grammar name = (let segments = split_on (CHR ''.'') name in
     length segments = 3 \<and> list_all (segment_ok 97 122) segments)"

fun validate_permissions :: "permission_definition list \<Rightarrow> string list \<Rightarrow> (catalogue_violation, string list) outcome" where
  "validate_permissions [] seen = Inr seen"
| "validate_permissions (p # ps) seen =
     (if CHR ''*'' \<in> set (pd_name p) then Inl (WILDCARD (pd_name p))
      else if \<not> permission_name_grammar (pd_name p) then Inl (GRAMMAR (pd_name p))
      else if pd_capability p \<noteq> hd (split_on (CHR ''.'') (pd_name p)) then Inl (FOREIGN_PREFIX (pd_name p))
      else if pd_name p \<in> set seen then Inl (DUPLICATE_PERMISSION (pd_name p))
      else validate_permissions ps (pd_name p # seen))"

fun validate_roles :: "(string \<times> role_scope) list \<Rightarrow> string list \<Rightarrow> (catalogue_violation, string list) outcome" where
  "validate_roles [] seen = Inr seen"
| "validate_roles ((r, s) # rs) seen =
     (if \<not> segment_ok 65 90 r then Inl (ROLE_GRAMMAR r)
      else if r \<in> set seen then Inl (DUPLICATE_ROLE r)
      else validate_roles rs (r # seen))"

fun validate_grants ::
  "string list \<Rightarrow> string list \<Rightarrow> (string \<times> string list) list \<Rightarrow> (catalogue_violation, unit) outcome" where
  "validate_grants perms roles [] = Inr ()"
| "validate_grants perms roles ((r, gs) # rest) =
     (if r \<notin> set roles then Inl (UNKNOWN_ROLE r)
      else case List.find (\<lambda>g. g \<notin> set perms) gs of
        Some g \<Rightarrow> Inl (UNKNOWN_GRANT r g)
      | None \<Rightarrow> validate_grants perms roles rest)"

definition validate_catalogue_of ::
  "permission_definition list \<Rightarrow> (string \<times> role_scope) list \<Rightarrow> (string \<times> string list) list
     \<Rightarrow> (catalogue_violation, unit) outcome" where
  "validate_catalogue_of perms roles grants =
     result_andThen (validate_permissions perms []) (\<lambda>seenPermissions.
     result_andThen (validate_roles roles []) (\<lambda>seenRoles.
       validate_grants seenPermissions seenRoles grants))"

definition validateCatalogue :: "(catalogue_violation, unit) outcome" where
  "validateCatalogue = validate_catalogue_of PERMISSION_CATALOGUE ROLE_CATALOGUE ROLE_PERMISSION_GRANTS"

section \<open>Assignments and actors\<close>

text \<open>One record for the row and the domain read shape; the status is the stored text.\<close>

definition ASSIGNMENT_STATUSES :: "string list" where
  "ASSIGNMENT_STATUSES = [''ACTIVE'', ''REVOKED'']"

record role_assignment =
  ra_id :: string
  ra_userId :: string
  ra_roleId :: string
  ra_tenantId :: "string option"
  ra_status :: string
  ra_grantedBy :: string
  ra_reason :: string
  ra_effectiveFrom :: millis
  ra_effectiveTo :: "millis option"
  ra_revokedAt :: "millis option"
  ra_revokedBy :: "string option"
  ra_createdAt :: millis

definition assignmentActiveAt :: "role_assignment \<Rightarrow> millis \<Rightarrow> bool" where
  "assignmentActiveAt a at \<longleftrightarrow> ra_status a = ''ACTIVE'' \<and> ra_revokedAt a = None \<and> ra_effectiveFrom a \<le> at
     \<and> (case ra_effectiveTo a of None \<Rightarrow> True | Some t \<Rightarrow> t > at)"

definition assignmentAppliesTo :: "role_assignment \<Rightarrow> string option \<Rightarrow> bool" where
  "assignmentAppliesTo a actorTenantId = (case ra_tenantId a of
     None \<Rightarrow> True
   | Some t \<Rightarrow> actorTenantId = Some t)"

record policy_actor =
  pa_userId :: string
  pa_tenantId :: "string option"
  pa_sessionId :: "string option"
  pa_requestId :: "string option"

text \<open>\<open>None\<close> is a null or undefined actor; a string that is no UUID stands for any value the branded types do not admit.\<close>

definition requirePolicyActor :: "policy_actor option \<Rightarrow> policy_actor option" where
  "requirePolicyActor actor = (case actor of
     None \<Rightarrow> None
   | Some a \<Rightarrow>
       if \<not> isUuid (pa_userId a) \<or> (case pa_tenantId a of None \<Rightarrow> False | Some t \<Rightarrow> \<not> isUuid t) then None
       else Some a)"

section \<open>The repository\<close>

definition toRoleAssignment :: "role_assignment \<Rightarrow> role_assignment option" where
  "toRoleAssignment row =
     (if \<not> isRoleId (ra_roleId row) \<or> ra_status row \<notin> set ASSIGNMENT_STATUSES \<or> \<not> isUuid (ra_userId row)
       \<or> (case ra_tenantId row of None \<Rightarrow> False | Some t \<Rightarrow> \<not> isUuid t) \<or> \<not> isUuid (ra_grantedBy row)
       \<or> (case ra_revokedBy row of None \<Rightarrow> False | Some u \<Rightarrow> \<not> isUuid u) then None
      else Some row)"

fun map_rows :: "('r \<Rightarrow> 'a option) \<Rightarrow> 'r list \<Rightarrow> 'a list option" where
  "map_rows f [] = Some []"
| "map_rows f (r # rs) = (case f r of None \<Rightarrow> None
     | Some a \<Rightarrow> (case map_rows f rs of None \<Rightarrow> None | Some as \<Rightarrow> Some (a # as)))"

definition bound_user :: "bound_values \<Rightarrow> string option" where
  "bound_user v = map_option pg_uuid (nullif_empty (Some (bv_userId v)))"

definition bound_tenant :: "bound_values \<Rightarrow> string option" where
  "bound_tenant v = map_option pg_uuid (nullif_empty (Some (bv_tenantId v)))"

text \<open>\<open>role_assignments_visibility_select\<close>: the bound tenant's rows, and the bound user's platform rows.\<close>

definition assignment_visible :: "bound_values \<Rightarrow> role_assignment \<Rightarrow> bool" where
  "assignment_visible v r \<longleftrightarrow> (case ra_tenantId r of
     Some t \<Rightarrow> bound_tenant v = Some t
   | None \<Rightarrow> bound_user v = Some (ra_userId r))"

definition by_createdAt :: "role_assignment \<Rightarrow> role_assignment \<Rightarrow> int" where
  "by_createdAt a b = ra_createdAt a - ra_createdAt b"

definition actor_context :: "policy_actor \<Rightarrow> principal_context" where
  "actor_context a = \<lparr>pc_tenantId = pa_tenantId a, pc_userId = Some (pa_userId a),
     pc_sessionId = pa_sessionId a, pc_requestId = pa_requestId a\<rparr>"

text \<open>\<open>None\<close>: the context or a row is refused, or the store is down, and the call throws.\<close>

definition listOwnActive ::
  "bool \<Rightarrow> policy_actor \<Rightarrow> millis \<Rightarrow> role_assignment list \<Rightarrow> role_assignment list option" where
  "listOwnActive down actor at rows =
     (case validateContext (actor_context actor) [UserIdKey] of
        Inl e \<Rightarrow> None
      | Inr v \<Rightarrow>
          if down then None
          else map_rows toRoleAssignment (find_many
            (\<lambda>r. assignment_visible v r \<and> ra_userId r = pg_uuid (pa_userId actor) \<and> ra_status r = ''ACTIVE''
               \<and> ra_revokedAt r = None \<and> ra_effectiveFrom r \<le> at
               \<and> (case ra_effectiveTo r of None \<Rightarrow> True | Some t \<Rightarrow> t > at)) by_createdAt rows))"

record assignment_grant =
  ag_userId :: string
  ag_roleId :: string
  ag_tenantId :: "string option"
  ag_grantedBy :: string
  ag_reason :: string
  ag_effectiveFrom :: millis

record assignment_revocation =
  rq_userId :: string
  rq_roleId :: string
  rq_tenantId :: "string option"
  rq_revokedBy :: string
  rq_revokedReason :: string
  rq_revokedAt :: millis

record write_context =
  wc_sessionId :: "string option"
  wc_requestId :: "string option"

definition target_context :: "string \<Rightarrow> string option \<Rightarrow> write_context \<Rightarrow> principal_context" where
  "target_context user tenant c = \<lparr>pc_tenantId = tenant, pc_userId = Some user,
     pc_sessionId = wc_sessionId c, pc_requestId = wc_requestId c\<rparr>"

text \<open>The table's CHECK and foreign-key constraints, the primary key and the partial unique index.\<close>

definition assignment_checks :: "role_assignment \<Rightarrow> bool" where
  "assignment_checks r \<longleftrightarrow> isRoleId (ra_roleId r) \<and> ra_status r \<in> set ASSIGNMENT_STATUSES \<and> ra_reason r \<noteq> []
     \<and> (case ra_effectiveTo r of None \<Rightarrow> True | Some t \<Rightarrow> t > ra_effectiveFrom r)
     \<and> (ra_status r = ''REVOKED'') = (ra_revokedAt r \<noteq> None) \<and> (ra_revokedAt r = None) = (ra_revokedBy r = None)"

definition assignment_conflicts :: "role_assignment \<Rightarrow> role_assignment \<Rightarrow> bool" where
  "assignment_conflicts a b \<longleftrightarrow> ra_id a = ra_id b
     \<or> ra_status a = ''ACTIVE'' \<and> ra_status b = ''ACTIVE'' \<and> ra_userId a = ra_userId b
       \<and> ra_roleId a = ra_roleId b \<and> ra_tenantId a = ra_tenantId b"

definition insert_allowed :: "bound_values \<Rightarrow> role_assignment \<Rightarrow> bool" where
  "insert_allowed v r \<longleftrightarrow> bound_user v = Some (ra_userId r)
     \<and> (ra_tenantId r = None \<or> ra_tenantId r = bound_tenant v)"

datatype store_raise = CONFLICT_RAISED | STORE_RAISED

definition create_assignment ::
  "bool \<Rightarrow> string \<Rightarrow> assignment_grant \<Rightarrow> write_context \<Rightarrow> millis \<Rightarrow> role_assignment list
     \<Rightarrow> (store_raise, role_assignment \<times> role_assignment list) outcome" where
  "create_assignment down newId g c createdAt rows =
     (case validateContext (target_context (ag_userId g) (ag_tenantId g) c) [UserIdKey] of
        Inl e \<Rightarrow> Inl STORE_RAISED
      | Inr v \<Rightarrow>
          (let r = \<lparr>ra_id = newId, ra_userId = pg_uuid (ag_userId g), ra_roleId = ag_roleId g,
                 ra_tenantId = map_option pg_uuid (ag_tenantId g), ra_status = ''ACTIVE'',
                 ra_grantedBy = pg_uuid (ag_grantedBy g), ra_reason = ag_reason g,
                 ra_effectiveFrom = ag_effectiveFrom g, ra_effectiveTo = None, ra_revokedAt = None,
                 ra_revokedBy = None, ra_createdAt = createdAt\<rparr>
           in if down \<or> \<not> insert_allowed v r \<or> \<not> assignment_visible v r \<or> \<not> assignment_checks r then Inl STORE_RAISED
              else case create_row assignment_conflicts r rows of
                None \<Rightarrow> Inl CONFLICT_RAISED
              | Some rows' \<Rightarrow> (case toRoleAssignment r of None \<Rightarrow> Inl STORE_RAISED | Some a \<Rightarrow> Inr (a, rows'))))"

text \<open>The guard trigger on UPDATE: only the revocation transition, every other column as granted.\<close>

definition guard_permits :: "role_assignment \<Rightarrow> role_assignment \<Rightarrow> bool" where
  "guard_permits old new \<longleftrightarrow> ra_status old \<noteq> ''REVOKED'' \<and> ra_status new = ''REVOKED''
     \<and> ra_revokedAt new \<noteq> None \<and> ra_revokedBy new \<noteq> None \<and> ra_effectiveTo new \<noteq> None
     \<and> new = old\<lparr>ra_status := ra_status new, ra_revokedAt := ra_revokedAt new,
                 ra_revokedBy := ra_revokedBy new, ra_effectiveTo := ra_effectiveTo new\<rparr>"

definition revoked_row :: "assignment_revocation \<Rightarrow> role_assignment \<Rightarrow> role_assignment" where
  "revoked_row q r = r\<lparr>ra_status := ''REVOKED'', ra_revokedAt := Some (rq_revokedAt q),
     ra_revokedBy := Some (pg_uuid (rq_revokedBy q)), ra_effectiveTo := Some (rq_revokedAt q)\<rparr>"

text \<open>The find, the conditional update and the read-back are one transaction.\<close>

definition revokeActive ::
  "bool \<Rightarrow> assignment_revocation \<Rightarrow> write_context \<Rightarrow> role_assignment list
     \<Rightarrow> (store_raise, role_assignment option \<times> role_assignment list) outcome" where
  "revokeActive down q c rows =
     (case validateContext (target_context (rq_userId q) (rq_tenantId q) c) [UserIdKey] of
        Inl e \<Rightarrow> Inl STORE_RAISED
      | Inr v \<Rightarrow>
          if down then Inl STORE_RAISED
          else case find_first (\<lambda>r. assignment_visible v r \<and> ra_userId r = pg_uuid (rq_userId q)
                 \<and> ra_roleId r = rq_roleId q \<and> ra_tenantId r = map_option pg_uuid (rq_tenantId q)
                 \<and> ra_status r = ''ACTIVE'') stored_order rows of
            None \<Rightarrow> Inr (None, rows)
          | Some active \<Rightarrow>
              (let hit = (\<lambda>r. assignment_visible v r \<and> bound_user v = Some (ra_userId r)
                     \<and> ra_id r = ra_id active \<and> ra_status r = ''ACTIVE'')
               in if list_ex (\<lambda>r. hit r \<and> \<not> (guard_permits r (revoked_row q r) \<and> assignment_checks (revoked_row q r))) rows
                  then Inl STORE_RAISED
                  else let (count, rows') = update_many hit (revoked_row q) rows
                       in if count = 0 then Inr (None, rows')
                          else case find_first (\<lambda>r. assignment_visible v r \<and> ra_id r = ra_id active) stored_order rows' of
                            None \<Rightarrow> Inr (None, rows')
                          | Some r \<Rightarrow> (case toRoleAssignment r of
                              None \<Rightarrow> Inl STORE_RAISED
                            | Some a \<Rightarrow> Inr (Some a, rows'))))"

section \<open>The policy service\<close>

datatype policy_denial =
    DENY_INVALID_ACTOR | DENY_UNKNOWN_PERMISSION | DENY_NO_APPLICABLE_ASSIGNMENT | DENY_PERMISSION_NOT_HELD
  | DENY_STORE_UNAVAILABLE

fun policy_denial_text :: "policy_denial \<Rightarrow> string" where
  "policy_denial_text DENY_INVALID_ACTOR = ''invalid_actor''"
| "policy_denial_text DENY_UNKNOWN_PERMISSION = ''unknown_permission''"
| "policy_denial_text DENY_NO_APPLICABLE_ASSIGNMENT = ''no_applicable_assignment''"
| "policy_denial_text DENY_PERMISSION_NOT_HELD = ''permission_not_held''"
| "policy_denial_text DENY_STORE_UNAVAILABLE = ''assignment_store_unavailable''"

datatype authz_decision = POLICY_ALLOWED string | POLICY_DENIED policy_denial

definition rbac_authorize ::
  "bool \<Rightarrow> millis \<Rightarrow> role_assignment list \<Rightarrow> policy_actor option \<Rightarrow> string \<Rightarrow> authz_decision" where
  "rbac_authorize down now rows actor permission =
     (case requirePolicyActor actor of
        None \<Rightarrow> POLICY_DENIED DENY_INVALID_ACTOR
      | Some caller \<Rightarrow>
          if \<not> isPermissionName permission then POLICY_DENIED DENY_UNKNOWN_PERMISSION
          else case listOwnActive down caller now rows of
            None \<Rightarrow> POLICY_DENIED DENY_STORE_UNAVAILABLE
          | Some resolved \<Rightarrow>
              (let applicable = filter (\<lambda>a. assignmentActiveAt a now \<and> assignmentAppliesTo a (pa_tenantId caller)) resolved
               in if applicable = [] then POLICY_DENIED DENY_NO_APPLICABLE_ASSIGNMENT
                  else case List.find (\<lambda>a. permission \<in> set (permissionsGrantedTo (ra_roleId a))) applicable of
                    Some a \<Rightarrow> POLICY_ALLOWED (ra_roleId a)
                  | None \<Rightarrow> POLICY_DENIED DENY_PERMISSION_NOT_HELD))"

definition applicableRoles ::
  "bool \<Rightarrow> millis \<Rightarrow> role_assignment list \<Rightarrow> policy_actor option \<Rightarrow> string list option" where
  "applicableRoles down now rows actor =
     (case requirePolicyActor actor of
        None \<Rightarrow> Some []
      | Some caller \<Rightarrow>
          (case listOwnActive down caller now rows of
             None \<Rightarrow> None
           | Some resolved \<Rightarrow> Some (map ra_roleId
               (filter (\<lambda>a. assignmentActiveAt a now \<and> assignmentAppliesTo a (pa_tenantId caller)) resolved))))"

section \<open>Facades\<close>

text \<open>\<open>authorize\<close> of \<open>application/authorize.ts\<close>: the decision as an outcome.\<close>

definition authorize_outcome :: "authz_decision \<Rightarrow> (policy_denial, unit) outcome" where
  "authorize_outcome decision = (case decision of POLICY_ALLOWED r \<Rightarrow> Inr () | POLICY_DENIED reason \<Rightarrow> Inl reason)"

record policy_principal_ref =
  pp_principalRef :: string
  pp_tenantRef :: "string option"

datatype ref_denial = UNRECOGNIZABLE_PRINCIPAL | UNRECOGNIZABLE_TENANT | REF_DENIED policy_denial

definition principalRef_authorize ::
  "(policy_actor option \<Rightarrow> string \<Rightarrow> authz_decision) \<Rightarrow> policy_principal_ref option \<Rightarrow> string
     \<Rightarrow> (ref_denial, unit) outcome" where
  "principalRef_authorize policy who permission =
     (let principalRef = (case who of None \<Rightarrow> [] | Some p \<Rightarrow> pp_principalRef p);
          tenantRef = (case who of None \<Rightarrow> None | Some p \<Rightarrow> pp_tenantRef p)
      in if \<not> isUuid principalRef then Inl UNRECOGNIZABLE_PRINCIPAL
         else if (case tenantRef of None \<Rightarrow> False | Some t \<Rightarrow> \<not> isUuid t) then Inl UNRECOGNIZABLE_TENANT
         else case policy (Some \<lparr>pa_userId = principalRef, pa_tenantId = tenantRef, pa_sessionId = None, pa_requestId = None\<rparr>)
                permission of
           POLICY_ALLOWED r \<Rightarrow> Inr ()
         | POLICY_DENIED reason \<Rightarrow> Inl (REF_DENIED reason))"

text \<open>The per-request memo: its key is the serialized user, tenant, permission and resource.\<close>

type_synonym memo_index = "string \<times> string \<times> string \<times> (string \<times> string) list option"
type_synonym policy_memo = "(memo_index \<times> authz_decision) list"

definition memo_key :: "policy_actor option \<Rightarrow> string \<Rightarrow> (string \<times> string) list option \<Rightarrow> memo_index" where
  "memo_key actor permission resource =
     (case actor of None \<Rightarrow> [] | Some a \<Rightarrow> pa_userId a,
      case actor of None \<Rightarrow> [] | Some a \<Rightarrow> or_empty (pa_tenantId a), permission, resource)"

definition requestScoped_authorize ::
  "(policy_actor option \<Rightarrow> string \<Rightarrow> authz_decision) \<Rightarrow> policy_actor option \<Rightarrow> string \<Rightarrow> (string \<times> string) list option
     \<Rightarrow> policy_memo \<Rightarrow> authz_decision \<times> policy_memo" where
  "requestScoped_authorize inner actor permission resource memo =
     (let key = memo_key actor permission resource
      in case map_of memo key of
           Some d \<Rightarrow> (d, memo)
         | None \<Rightarrow> let d = inner actor permission in (d, (key, d) # memo))"

datatype permission_guard_outcome = GUARD_UNAUTHORIZED | GUARD_FORBIDDEN policy_denial | GUARD_PASSED

definition permissionGuard_canActivate ::
  "(policy_actor option \<Rightarrow> string \<Rightarrow> authz_decision) \<Rightarrow> string \<Rightarrow> policy_actor option \<Rightarrow> permission_guard_outcome" where
  "permissionGuard_canActivate policy permission actor =
     (case actor of
        None \<Rightarrow> GUARD_UNAUTHORIZED
      | Some a \<Rightarrow> (case policy (Some a) permission of
          POLICY_ALLOWED r \<Rightarrow> GUARD_PASSED
        | POLICY_DENIED reason \<Rightarrow> GUARD_FORBIDDEN reason))"

section \<open>AssignRole and RevokeRole\<close>

record authz_world =
  aw_rows :: "role_assignment list"
  aw_audit :: "audit_event list"

datatype authz_call = LIST_FOR_DECISION | LIST_FOR_DELEGATION | WRITE_ASSIGNMENT

record authz_deps =
  az_down :: "authz_call \<Rightarrow> bool"
  az_now :: millis
  az_newId :: string
  az_audit :: audit_deps

datatype assignment_field = INPUT_USER | INPUT_REASON | INPUT_TENANT

datatype authz_error =
    INVALID_ACTOR
  | INVALID_ASSIGNMENT_INPUT assignment_field
  | ROLE_NOT_FOUND string
  | ROLE_SCOPE_MISMATCH string
  | NOT_AUTHORIZED string policy_denial
  | DELEGATION_DENIED
  | ALREADY_ASSIGNED
  | ASSIGNMENT_NOT_FOUND
  | AUTHZ_STORE_FAILURE

type_synonym 'a authz_effect = "(authz_world, authz_error, 'a) effect"

record role_input =
  ri_userId :: string
  ri_roleId :: string
  ri_tenantId :: "string option"
  ri_reason :: string

text \<open>The checks both use cases make before they authorize; the answer is the target tenant.\<close>

definition check_role_input :: "role_input \<Rightarrow> (authz_error, string option) outcome" where
  "check_role_input input =
     (if \<not> isUuid (ri_userId input) then Inl (INVALID_ASSIGNMENT_INPUT INPUT_USER)
      else if blank (ri_reason input) then Inl (INVALID_ASSIGNMENT_INPUT INPUT_REASON)
      else if \<not> isRoleId (ri_roleId input) then Inl (ROLE_NOT_FOUND (ri_roleId input))
      else case ri_tenantId input of
        None \<Rightarrow> Inr None
      | Some t \<Rightarrow> if isUuid t then Inr (Some t) else Inl (INVALID_ASSIGNMENT_INPUT INPUT_TENANT))"

definition scope_text :: "string option \<Rightarrow> string" where
  "scope_text tenant = (case tenant of None \<Rightarrow> ''PLATFORM'' | Some t \<Rightarrow> t)"

definition role_entry ::
  "authz_deps \<Rightarrow> policy_actor \<Rightarrow> string \<Rightarrow> string \<Rightarrow> string \<Rightarrow> string \<Rightarrow> string \<Rightarrow> string \<Rightarrow> trail_entry" where
  "role_entry d actor result action resourceId reason roleId scope =
     \<lparr>te_occurredAt = az_now d, te_actorRef = ''user:'' @ pa_userId actor,
      te_tenantRef = map_option (\<lambda>t. ''tenant:'' @ t) (pa_tenantId actor), te_action = action,
      te_resourceType = ''role_assignment'', te_resourceId = resourceId, te_reason = Some reason,
      te_requestId = pa_requestId actor, te_before = None,
      te_after = Some [(''role_id'', roleId), (''scope'', scope)], te_outcome = result\<rparr>"

text \<open>\<open>recordAudit\<close>: a failed append is a value; a defect throws inside the \<open>try\<close>.\<close>

definition record_role_audit :: "authz_deps \<Rightarrow> trail_entry \<Rightarrow> trail_failure option authz_effect" where
  "record_role_audit d e = (\<lambda>w. case trail_record (az_audit d) e (aw_audit w) of
      (Inl defect, es) \<Rightarrow> (Inl AUTHZ_STORE_FAILURE, w\<lparr>aw_audit := es\<rparr>)
    | (Inr (Inl failure), es) \<Rightarrow> (Inr (Some failure), w\<lparr>aw_audit := es\<rparr>)
    | (Inr (Inr u), es) \<Rightarrow> (Inr None, w\<lparr>aw_audit := es\<rparr>))"

definition actor_write_context :: "policy_actor \<Rightarrow> write_context" where
  "actor_write_context a = \<lparr>wc_sessionId = pa_sessionId a, wc_requestId = pa_requestId a\<rparr>"

definition PLATFORM_ADMIN_ROLE :: string where
  "PLATFORM_ADMIN_ROLE = ''PLATFORM_ADMIN''"

definition delegation_check :: "authz_deps \<Rightarrow> role_input \<Rightarrow> policy_actor \<Rightarrow> unit authz_effect" where
  "delegation_check d input actor = (\<lambda>w.
     if ri_roleId input \<noteq> PLATFORM_ADMIN_ROLE then (Inr (), w)
     else case applicableRoles (az_down d LIST_FOR_DELEGATION) (az_now d) (aw_rows w) (Some actor) of
       None \<Rightarrow> (Inl AUTHZ_STORE_FAILURE, w)
     | Some roles \<Rightarrow>
         if PLATFORM_ADMIN_ROLE \<in> set roles then (Inr (), w)
         else thenE (record_role_audit d (role_entry d actor ''DENIED'' ''authorization.role.grant''
                (ri_userId input @ '':'' @ ri_roleId input) ''delegation_denied'' (ri_roleId input) ''PLATFORM''))
              (\<lambda>_. throwE DELEGATION_DENIED) w)"

definition create_effect :: "authz_deps \<Rightarrow> role_input \<Rightarrow> string option \<Rightarrow> policy_actor \<Rightarrow> role_assignment authz_effect" where
  "create_effect d input tenant actor = (\<lambda>w.
     case create_assignment (az_down d WRITE_ASSIGNMENT) (az_newId d)
            \<lparr>ag_userId = ri_userId input, ag_roleId = ri_roleId input, ag_tenantId = tenant,
             ag_grantedBy = pa_userId actor, ag_reason = js_trim (ri_reason input), ag_effectiveFrom = az_now d\<rparr>
            (actor_write_context actor) (az_now d) (aw_rows w) of
       Inl CONFLICT_RAISED \<Rightarrow> (Inl ALREADY_ASSIGNED, w)
     | Inl STORE_RAISED \<Rightarrow> (Inl AUTHZ_STORE_FAILURE, w)
     | Inr (a, rows) \<Rightarrow> (Inr a, w\<lparr>aw_rows := rows\<rparr>))"

definition assign_authorized ::
  "authz_deps \<Rightarrow> role_input \<Rightarrow> string option \<Rightarrow> policy_actor \<Rightarrow> (role_assignment \<times> trail_failure option) authz_effect" where
  "assign_authorized d input tenant actor =
     thenE (readE (\<lambda>w. rbac_authorize (az_down d LIST_FOR_DECISION) (az_now d) (aw_rows w) (Some actor)
              ''authorization.role.assign''))
       (\<lambda>decision. case decision of
          POLICY_DENIED reason \<Rightarrow>
            thenE (record_role_audit d (role_entry d actor ''DENIED'' ''authorization.role.grant''
                     (ri_userId input @ '':'' @ ri_roleId input) (policy_denial_text reason) (ri_roleId input) (scope_text tenant)))
              (\<lambda>_. throwE (NOT_AUTHORIZED ''authorization.role.assign'' reason))
        | POLICY_ALLOWED r \<Rightarrow>
            thenE (delegation_check d input actor) (\<lambda>_.
            thenE (create_effect d input tenant actor) (\<lambda>assignment.
            thenE (record_role_audit d (role_entry d actor ''SUCCESS'' ''authorization.role.granted''
                     (ra_id assignment) (js_trim (ri_reason input)) (ri_roleId input) (scope_text tenant)))
              (\<lambda>failure. returnE (assignment, failure)))))"

definition assignRole ::
  "authz_deps \<Rightarrow> role_input \<Rightarrow> policy_actor option \<Rightarrow> (role_assignment \<times> trail_failure option) authz_effect" where
  "assignRole d input actor =
     (case requirePolicyActor actor of
        None \<Rightarrow> throwE INVALID_ACTOR
      | Some caller \<Rightarrow>
          (case check_role_input input of
             Inl e \<Rightarrow> throwE e
           | Inr tenant \<Rightarrow>
               (case roleDefinition (ri_roleId input) of
                  None \<Rightarrow> throwE (ROLE_NOT_FOUND (ri_roleId input))
                | Some scope \<Rightarrow>
                    if \<not> roleScopeAdmitsBinding scope (tenant \<noteq> None) then throwE (ROLE_SCOPE_MISMATCH (ri_roleId input))
                    else assign_authorized d input tenant caller)))"

definition revoke_effect ::
  "authz_deps \<Rightarrow> role_input \<Rightarrow> string option \<Rightarrow> policy_actor \<Rightarrow> role_assignment authz_effect" where
  "revoke_effect d input tenant actor = (\<lambda>w.
     case revokeActive (az_down d WRITE_ASSIGNMENT)
            \<lparr>rq_userId = ri_userId input, rq_roleId = ri_roleId input, rq_tenantId = tenant,
             rq_revokedBy = pa_userId actor, rq_revokedReason = js_trim (ri_reason input), rq_revokedAt = az_now d\<rparr>
            (actor_write_context actor) (aw_rows w) of
       Inl e \<Rightarrow> (Inl AUTHZ_STORE_FAILURE, w)
     | Inr (None, rows) \<Rightarrow> (Inl ASSIGNMENT_NOT_FOUND, w\<lparr>aw_rows := rows\<rparr>)
     | Inr (Some a, rows) \<Rightarrow> (Inr a, w\<lparr>aw_rows := rows\<rparr>))"

definition revokeRole ::
  "authz_deps \<Rightarrow> role_input \<Rightarrow> policy_actor option \<Rightarrow> (role_assignment \<times> trail_failure option) authz_effect" where
  "revokeRole d input actor =
     (case requirePolicyActor actor of
        None \<Rightarrow> throwE INVALID_ACTOR
      | Some caller \<Rightarrow>
          (case check_role_input input of
             Inl e \<Rightarrow> throwE e
           | Inr tenant \<Rightarrow>
               thenE (readE (\<lambda>w. rbac_authorize (az_down d LIST_FOR_DECISION) (az_now d) (aw_rows w) (Some caller)
                        ''authorization.role.revoke''))
                 (\<lambda>decision. case decision of
                    POLICY_DENIED reason \<Rightarrow>
                      thenE (record_role_audit d (role_entry d caller ''DENIED'' ''authorization.role.revoke''
                               (ri_userId input @ '':'' @ ri_roleId input) (policy_denial_text reason) (ri_roleId input) (scope_text tenant)))
                        (\<lambda>_. throwE (NOT_AUTHORIZED ''authorization.role.revoke'' reason))
                  | POLICY_ALLOWED r \<Rightarrow>
                      thenE (revoke_effect d input tenant caller) (\<lambda>assignment.
                      thenE (record_role_audit d (role_entry d caller ''SUCCESS'' ''authorization.role.revoked''
                               (ra_id assignment) (js_trim (ri_reason input)) (ri_roleId input) (scope_text tenant)))
                        (\<lambda>failure. returnE (assignment, failure))))))"

end
