(* ===== verification/Authorization_Laws.thy ===== *)
theory Authorization_Laws
  imports Authorization
begin

text \<open>
  What the authorization module promises: a decision is exactly an in-force grant, every authority comes from a platform
  administrator in force, evidence is never rewritten, a revocation holds at once, and the validated
  catalogue is a closed world.
\<close>

section \<open>Well-formed tables\<close>

definition canonical_uuid :: "string \<Rightarrow> bool" where
  "canonical_uuid s \<longleftrightarrow> isUuid s \<and> pg_uuid s = s"

definition assignment_row_ok :: "role_assignment \<Rightarrow> bool" where
  "assignment_row_ok r \<longleftrightarrow> assignment_checks r \<and> canonical_uuid (ra_userId r) \<and> canonical_uuid (ra_grantedBy r)
     \<and> (case ra_tenantId r of None \<Rightarrow> True | Some t \<Rightarrow> canonical_uuid t)
     \<and> (case ra_revokedBy r of None \<Rightarrow> True | Some u \<Rightarrow> canonical_uuid u)"

definition assignments_wf :: "role_assignment list \<Rightarrow> bool" where
  "assignments_wf rows \<longleftrightarrow> list_all assignment_row_ok rows
     \<and> sorted_wrt (\<lambda>a b. \<not> assignment_conflicts a b) rows"

lemma canonical_pg_uuid: "isUuid s \<Longrightarrow> canonical_uuid (pg_uuid s)"
proof -
  assume s: "isUuid s"
  have "shape_char d c \<Longrightarrow> shape_char d (let n = (of_char c :: nat) in if 65 \<le> n \<and> n \<le> 70 then char_of (n + 32) else c)" for d c
    by (auto simp: shape_char_def is_hex_def Let_def split: if_splits)
  then have "isUuid (pg_uuid s)"
    using s unfolding isUuid_def pg_uuid_def list_all2_map2 by (rule list_all2_mono [rotated])
  then show ?thesis by (simp add: canonical_uuid_def)
qed

lemma conflicts_sym: "assignment_conflicts a b = assignment_conflicts b a"
  by (auto simp: assignment_conflicts_def)

lemma row_ok_maps: "assignment_row_ok r \<Longrightarrow> toRoleAssignment r = Some r"
  by (auto simp: assignment_row_ok_def assignment_checks_def toRoleAssignment_def canonical_uuid_def split: option.splits)

lemma map_rows_all: "(\<And>r. r \<in> set rs \<Longrightarrow> f r = Some r) \<Longrightarrow> map_rows f rs = Some rs"
  by (induction rs) auto

lemma map_rows_set: "map_rows f rs = Some as \<Longrightarrow> (\<And>r a. f r = Some a \<Longrightarrow> a = r) \<Longrightarrow> as = rs"
  by (induction rs arbitrary: as) (auto split: option.splits)

lemma toRoleAssignment_Some: "toRoleAssignment r = Some a \<Longrightarrow> a = r"
  by (auto simp: toRoleAssignment_def split: if_splits)

lemma toRoleAssignment_cases: "toRoleAssignment r = None \<or> toRoleAssignment r = Some r"
  by (simp add: toRoleAssignment_def)

lemma sorted_wrt_unique:
  assumes "sorted_wrt (\<lambda>a b. \<not> c a b) xs" "\<And>a b. c a b = c b a" "x \<in> set xs" "y \<in> set xs" "c x y"
  shows "x = y"
  using assms by (induction xs) auto

lemma listOwnActive_Some:
  assumes "listOwnActive down a now rows = Some resolved"
  shows "\<not> down" "result_isOk (validateContext (actor_context a) [UserIdKey])"
    "set resolved = {r \<in> set rows. ra_userId r = pg_uuid (pa_userId a) \<and> ra_status r = ''ACTIVE'' \<and> ra_revokedAt r = None
       \<and> ra_effectiveFrom r \<le> now \<and> (case ra_effectiveTo r of None \<Rightarrow> True | Some t \<Rightarrow> t > now)
       \<and> (ra_tenantId r = None \<or> (\<exists>t. pa_tenantId a = Some t \<and> t \<noteq> [] \<and> ra_tenantId r = Some (pg_uuid t)))}"
proof -
  obtain v where v: "validateContext (actor_context a) [UserIdKey] = Inr v"
    using assms by (auto simp: listOwnActive_def split: sum.splits)
  then show "\<not> down" "result_isOk (validateContext (actor_context a) [UserIdKey])"
    using assms by (auto simp: listOwnActive_def split: if_splits)
  have b: "bv_userId v = pa_userId a" "bv_tenantId v = or_empty (pa_tenantId a)"
    using validateContext_Inr(3) [OF v, of UserIdKey] validateContext_Inr(3) [OF v, of TenantIdKey]
    by (simp_all add: actor_context_def or_empty_def)
  have u: "pa_userId a \<noteq> []" using validateContext_Inr(1) [OF v]
    by (simp add: missing_keys_def actor_context_def or_empty_def split: if_splits)
  have r: "resolved = find_many (\<lambda>r. assignment_visible v r \<and> ra_userId r = pg_uuid (pa_userId a) \<and> ra_status r = ''ACTIVE''
      \<and> ra_revokedAt r = None \<and> ra_effectiveFrom r \<le> now
      \<and> (case ra_effectiveTo r of None \<Rightarrow> True | Some t \<Rightarrow> t > now)) by_createdAt rows"
    using assms v by (auto simp: listOwnActive_def split: if_splits intro: map_rows_set toRoleAssignment_Some)
  show "set resolved = {r \<in> set rows. ra_userId r = pg_uuid (pa_userId a) \<and> ra_status r = ''ACTIVE'' \<and> ra_revokedAt r = None
       \<and> ra_effectiveFrom r \<le> now \<and> (case ra_effectiveTo r of None \<Rightarrow> True | Some t \<Rightarrow> t > now)
       \<and> (ra_tenantId r = None \<or> (\<exists>t. pa_tenantId a = Some t \<and> t \<noteq> [] \<and> ra_tenantId r = Some (pg_uuid t)))}"
  proof -
    have vis: "assignment_visible v r \<longleftrightarrow> (ra_tenantId r = None \<and> ra_userId r = pg_uuid (pa_userId a))
        \<or> (\<exists>t. pa_tenantId a = Some t \<and> t \<noteq> [] \<and> ra_tenantId r = Some (pg_uuid t))" for r
    proof (cases "ra_tenantId r")
      case None
      then show ?thesis using u b(1) by (auto simp: assignment_visible_def bound_user_def nullif_empty_def)
    next
      case (Some t)
      then show ?thesis using b(2)
        by (cases "pa_tenantId a") (auto simp: assignment_visible_def bound_tenant_def nullif_empty_def or_empty_def)
    qed
    show ?thesis unfolding r find_many_set vis by blast
  qed
qed

lemma listOwnActive_up:
  assumes "list_all assignment_row_ok rows" "result_isOk (validateContext (actor_context a) [UserIdKey])"
  shows "listOwnActive False a now rows \<noteq> None"
proof -
  obtain v where v: "validateContext (actor_context a) [UserIdKey] = Inr v"
    using assms(2) by (cases "validateContext (actor_context a) [UserIdKey]") auto
  have "toRoleAssignment r = Some r" if "r \<in> set (find_many p by_createdAt rows)" for p r
    using that assms(1) row_ok_maps by (auto simp: list_all_iff)
  then have "map_rows toRoleAssignment (find_many p by_createdAt rows) = Some (find_many p by_createdAt rows)" for p
    by (rule map_rows_all)
  then show ?thesis using v by (simp add: listOwnActive_def)
qed

section \<open>Decisions\<close>

text \<open>The in-force grants of an actor in its context.\<close>

definition holds_grant :: "role_assignment list \<Rightarrow> policy_actor \<Rightarrow> millis \<Rightarrow> string \<Rightarrow> role_assignment \<Rightarrow> bool" where
  "holds_grant rows a now permission r \<longleftrightarrow> r \<in> set rows \<and> ra_userId r = pg_uuid (pa_userId a) \<and> assignmentActiveAt r now
     \<and> (ra_tenantId r = None \<or> ra_tenantId r = pa_tenantId a) \<and> permission \<in> set (permissionsGrantedTo (ra_roleId r))"

lemma rbac_allowed:
  "rbac_authorize down now rows actor permission = POLICY_ALLOWED role \<longleftrightarrow>
     (\<exists>a resolved r. requirePolicyActor actor = Some a \<and> isPermissionName permission
        \<and> listOwnActive down a now rows = Some resolved
        \<and> List.find (\<lambda>x. permission \<in> set (permissionsGrantedTo (ra_roleId x)))
            (filter (\<lambda>x. assignmentActiveAt x now \<and> assignmentAppliesTo x (pa_tenantId a)) resolved) = Some r
        \<and> role = ra_roleId r)"
  by (auto simp: rbac_authorize_def Let_def split: option.splits)

lemma find_is_Some: "(\<exists>x. List.find p xs = Some x) \<longleftrightarrow> (\<exists>x \<in> set xs. p x)"
  by (induction xs) auto

lemma allowed_grant:
  assumes "rbac_authorize down now rows actor permission = POLICY_ALLOWED role"
  shows "\<exists>a r. requirePolicyActor actor = Some a \<and> holds_grant rows a now permission r \<and> role = ra_roleId r"
proof -
  obtain a resolved r where a: "requirePolicyActor actor = Some a" "listOwnActive down a now rows = Some resolved"
    and f: "List.find (\<lambda>x. permission \<in> set (permissionsGrantedTo (ra_roleId x)))
            (filter (\<lambda>x. assignmentActiveAt x now \<and> assignmentAppliesTo x (pa_tenantId a)) resolved) = Some r"
      "role = ra_roleId r"
    using assms unfolding rbac_allowed by blast
  from find_Some_set [OF f(1)] have "holds_grant rows a now permission r"
    unfolding holds_grant_def listOwnActive_Some(3) [OF a(2)] set_filter mem_Collect_eq
    by (auto simp: assignmentAppliesTo_def split: option.splits)
  then show ?thesis using a(1) f(2) by blast
qed

lemma grant_allowed:
  assumes "list_all assignment_row_ok rows" "requirePolicyActor actor = Some a" "isPermissionName permission"
    "result_isOk (validateContext (actor_context a) [UserIdKey])" "holds_grant rows a now permission r"
  shows "\<exists>role. rbac_authorize False now rows actor permission = POLICY_ALLOWED role"
proof -
  obtain resolved where l: "listOwnActive False a now rows = Some resolved"
    using listOwnActive_up [OF assms(1,4)] by auto
  have ok: "assignment_row_ok r" using assms(1,5) by (auto simp: holds_grant_def list_all_iff)
  have "r \<in> set resolved" "assignmentAppliesTo r (pa_tenantId a)"
    using assms(5) ok unfolding holds_grant_def listOwnActive_Some(3) [OF l]
    by (auto simp: assignmentActiveAt_def assignmentAppliesTo_def assignment_row_ok_def canonical_uuid_def isUuid_def
        UUID_SHAPE_def split: option.splits)
  then have "\<exists>x. List.find (\<lambda>x. permission \<in> set (permissionsGrantedTo (ra_roleId x)))
        (filter (\<lambda>x. assignmentActiveAt x now \<and> assignmentAppliesTo x (pa_tenantId a)) resolved) = Some x"
    unfolding find_is_Some using assms(5) by (auto simp: holds_grant_def)
  then show ?thesis unfolding rbac_allowed using assms(2,3) l by blast
qed

section \<open>Steps\<close>

text \<open>Every state change of the module is an assignment or a revocation, by whomever and with whatever outcome.\<close>

inductive authz_step :: "authz_world \<Rightarrow> authz_world \<Rightarrow> bool" where
  step_assign: "authz_step w (snd (assignRole d input actor w))"
| step_revoke: "authz_step w (snd (revokeRole d input actor w))"

inductive authz_run :: "authz_world \<Rightarrow> authz_world \<Rightarrow> bool" where
  run_done: "authz_run w w"
| run_step: "authz_step w v \<Longrightarrow> authz_run v u \<Longrightarrow> authz_run w u"

lemma audit_keeps_rows: "aw_rows (snd (record_role_audit d e w)) = aw_rows w"
  by (simp add: record_role_audit_def split: prod.splits sum.splits)

lemma audit_outcome: "record_role_audit d e w = (r, w') \<Longrightarrow> aw_rows w' = aw_rows w"
  using audit_keeps_rows [of d e w] by simp

lemma delegation_rows: "delegation_check d input actor w = (r, w') \<Longrightarrow> aw_rows w' = aw_rows w"
  by (auto simp: delegation_check_def thenE_def split: if_splits option.splits prod.splits sum.splits dest!: audit_outcome)

text \<open>What an assignment writes: nothing, or one row granted by a caller whom an in-force grant allows to assign.\<close>

definition new_assignment :: "authz_deps \<Rightarrow> role_input \<Rightarrow> string option \<Rightarrow> policy_actor \<Rightarrow> role_assignment" where
  "new_assignment d input tenant actor =
     \<lparr>ra_id = az_newId d, ra_userId = pg_uuid (ri_userId input), ra_roleId = ri_roleId input,
      ra_tenantId = map_option pg_uuid tenant, ra_status = ''ACTIVE'', ra_grantedBy = pg_uuid (pa_userId actor),
      ra_reason = js_trim (ri_reason input), ra_effectiveFrom = az_now d, ra_effectiveTo = None, ra_revokedAt = None,
      ra_revokedBy = None, ra_createdAt = az_now d\<rparr>"

lemma create_assignment_Inr:
  assumes "create_assignment down i g c t rows = Inr (a, rows')"
  shows "rows' = rows @ [a]" "\<not> list_ex (assignment_conflicts a) rows" "toRoleAssignment a = Some a" "assignment_checks a"
  using assms
  by (auto simp: create_assignment_def create_row_def Let_def split: sum.splits if_splits option.splits
      dest: toRoleAssignment_Some)

lemma create_effect_rows:
  assumes "create_effect d input tenant actor w = (r, w')"
  shows "aw_rows w' = aw_rows w \<and> (\<exists>e. r = Inl e)
    \<or> (let a = new_assignment d input tenant actor in r = Inr a \<and> aw_rows w' = aw_rows w @ [a]
        \<and> \<not> list_ex (assignment_conflicts a) (aw_rows w) \<and> toRoleAssignment a = Some a \<and> assignment_checks a)"
proof -
  have "a = new_assignment d input tenant actor"
    if "create_assignment down (az_newId d)
            \<lparr>ag_userId = ri_userId input, ag_roleId = ri_roleId input, ag_tenantId = tenant,
             ag_grantedBy = pa_userId actor, ag_reason = js_trim (ri_reason input), ag_effectiveFrom = az_now d\<rparr>
            c (az_now d) rows = Inr (a, rows')" for a rows' rows c down
    using that
    by (auto simp: create_assignment_def new_assignment_def Let_def split: sum.splits if_splits option.splits
        dest: toRoleAssignment_Some)
  then show ?thesis using assms
    by (auto simp: create_effect_def Let_def split: sum.splits store_raise.splits prod.splits dest: create_assignment_Inr)
qed

lemma requirePolicyActor_Some: "requirePolicyActor actor = Some a \<Longrightarrow> actor = Some a \<and> isUuid (pa_userId a) \<and> requirePolicyActor (Some a) = Some a"
  by (auto simp: requirePolicyActor_def split: option.splits if_splits)

lemma check_role_input_Inr:
  "check_role_input input = Inr tenant \<Longrightarrow> isUuid (ri_userId input) \<and> isRoleId (ri_roleId input)
     \<and> tenant = ri_tenantId input \<and> (case tenant of None \<Rightarrow> True | Some t \<Rightarrow> isUuid t) \<and> \<not> blank (ri_reason input)"
  by (cases "ri_tenantId input") (auto simp: check_role_input_def split: if_splits dest!: sym [of "Some _"])

lemma assign_rows:
  assumes "assignRole d input actor w = (r, w')"
  shows "aw_rows w' = aw_rows w
    \<or> (\<exists>a tenant g. requirePolicyActor actor = Some a \<and> check_role_input input = Inr tenant
        \<and> holds_grant (aw_rows w) a (az_now d) ''authorization.role.assign'' g
        \<and> (let n = new_assignment d input tenant a in aw_rows w' = aw_rows w @ [n]
            \<and> \<not> list_ex (assignment_conflicts n) (aw_rows w) \<and> toRoleAssignment n = Some n \<and> assignment_checks n))"
proof (cases "requirePolicyActor actor")
  case None
  then show ?thesis using assms by (simp add: assignRole_def)
next
  case (Some a)
  note actor = requirePolicyActor_Some [OF Some]
  show ?thesis
  proof (cases "check_role_input input")
    case (Inl e)
    then show ?thesis using assms Some by (simp add: assignRole_def)
  next
    case (Inr tenant)
    consider "aw_rows w' = aw_rows w" | "assign_authorized d input tenant a w = (r, w')"
      using assms Some Inr by (auto simp: assignRole_def split: option.splits if_splits)
    then show ?thesis
    proof cases
      case 2
      let ?decision = "rbac_authorize (az_down d LIST_FOR_DECISION) (az_now d) (aw_rows w) (Some a) ''authorization.role.assign''"
      show ?thesis
      proof (cases ?decision)
        case (POLICY_DENIED reason)
        then show ?thesis using 2
          by (auto simp: assign_authorized_def thenE_def split: prod.splits sum.splits dest!: audit_outcome)
      next
        case (POLICY_ALLOWED role)
        obtain g where g: "holds_grant (aw_rows w) a (az_now d) ''authorization.role.assign'' g"
          using allowed_grant [OF POLICY_ALLOWED] actor by auto
        obtain u w1 where d: "delegation_check d input a w = (u, w1)" by (cases "delegation_check d input a w")
        obtain v w2 where c: "create_effect d input tenant a w1 = (v, w2)" by (cases "create_effect d input tenant a w1")
        have w1: "aw_rows w1 = aw_rows w" using delegation_rows [OF d] .
        have "aw_rows w' = aw_rows w \<or> aw_rows w' = aw_rows w2"
          using 2 POLICY_ALLOWED d c w1
          by (auto simp: assign_authorized_def thenE_def split: prod.splits sum.splits dest!: audit_outcome)
        then show ?thesis using create_effect_rows [OF c] w1 g Some Inr by (auto simp: Let_def)
      qed
    qed simp
  qed
qed

definition revocation_of :: "authz_deps \<Rightarrow> role_input \<Rightarrow> string option \<Rightarrow> policy_actor \<Rightarrow> assignment_revocation" where
  "revocation_of d input tenant a =
     \<lparr>rq_userId = ri_userId input, rq_roleId = ri_roleId input, rq_tenantId = tenant, rq_revokedBy = pa_userId a,
      rq_revokedReason = js_trim (ri_reason input), rq_revokedAt = az_now d\<rparr>"

lemma revokeActive_Inr:
  assumes "revokeActive down q c rows = Inr (o', rows')" "sorted_wrt (\<lambda>a b. \<not> assignment_conflicts a b) rows"
  shows "o' = None \<and> rows' = rows
    \<or> (\<exists>old. old \<in> set rows \<and> ra_userId old = pg_uuid (rq_userId q) \<and> ra_roleId old = rq_roleId q
        \<and> ra_tenantId old = map_option pg_uuid (rq_tenantId q) \<and> ra_status old = ''ACTIVE''
        \<and> assignment_checks (revoked_row q old) \<and> o' = Some (revoked_row q old)
        \<and> rows' = map (\<lambda>r. if r = old then revoked_row q r else r) rows)"
proof -
  obtain v where v: "validateContext (target_context (rq_userId q) (rq_tenantId q) c) [UserIdKey] = Inr v"
    using assms(1) by (auto simp: revokeActive_def split: sum.splits)
  have down: "\<not> down" using assms(1) v by (auto simp: revokeActive_def split: if_splits)
  define p where "p = (\<lambda>r. assignment_visible v r \<and> ra_userId r = pg_uuid (rq_userId q)
                 \<and> ra_roleId r = rq_roleId q \<and> ra_tenantId r = map_option pg_uuid (rq_tenantId q)
                 \<and> ra_status r = ''ACTIVE'')"
  show ?thesis
  proof (cases "find_first p stored_order rows")
    case None
    then show ?thesis using assms(1) v down by (simp add: revokeActive_def p_def)
  next
    case (Some old)
    have old: "old \<in> set rows" "p old" using find_first_Some [OF Some] by auto
    have id: "r = old" if "r \<in> set rows" "ra_id r = ra_id old" for r
      using sorted_wrt_unique [OF assms(2) _ that(1) old(1)] that(2) conflicts_sym
      by (simp add: assignment_conflicts_def)
    define hit where "hit = (\<lambda>r. assignment_visible v r \<and> bound_user v = Some (ra_userId r)
                     \<and> ra_id r = ra_id old \<and> ra_status r = ''ACTIVE'')"
    have hits: "hit r \<longleftrightarrow> r = old \<and> hit old" if "r \<in> set rows" for r
      using id [OF that] by (auto simp: hit_def)
    have upd: "snd (update_many hit (revoked_row q) rows)
        = (if hit old then map (\<lambda>r. if r = old then revoked_row q r else r) rows else rows)"
    proof -
      have "(if hit r then revoked_row q r else r) = (if hit old then (if r = old then revoked_row q r else r) else r)"
        if "r \<in> set rows" for r
        using hits [OF that] by metis
      then have "map (\<lambda>r. if hit r then revoked_row q r else r) rows
          = map (\<lambda>r. if hit old then (if r = old then revoked_row q r else r) else r) rows"
        by (intro map_cong) auto
      then show ?thesis by (cases "hit old") (simp_all add: update_many_def)
    qed
    have cnt: "fst (update_many hit (revoked_row q) rows) = 0 \<longleftrightarrow> \<not> hit old"
      by (simp add: update_many_def filter_empty_conv) (use hits old(1) in blast)
    have new: "ra_id (revoked_row q old) = ra_id old" by (simp add: revoked_row_def)
    have body: "(if list_ex (\<lambda>r. hit r \<and> \<not> (guard_permits r (revoked_row q r) \<and> assignment_checks (revoked_row q r))) rows
        then Inl STORE_RAISED
        else let (count, rows') = update_many hit (revoked_row q) rows
             in if count = 0 then Inr (None, rows')
                else case find_first (\<lambda>r. assignment_visible v r \<and> ra_id r = ra_id old) stored_order rows' of
                  None \<Rightarrow> Inr (None, rows')
                | Some r \<Rightarrow> (case toRoleAssignment r of None \<Rightarrow> Inl STORE_RAISED | Some a \<Rightarrow> Inr (Some a, rows')))
        = Inr (o', rows')"
    proof -
      have "revokeActive down q c rows
        = (if list_ex (\<lambda>r. hit r \<and> \<not> (guard_permits r (revoked_row q r) \<and> assignment_checks (revoked_row q r))) rows
        then Inl STORE_RAISED
        else let (count, rows') = update_many hit (revoked_row q) rows
             in if count = 0 then Inr (None, rows')
                else case find_first (\<lambda>r. assignment_visible v r \<and> ra_id r = ra_id old) stored_order rows' of
                  None \<Rightarrow> Inr (None, rows')
                | Some r \<Rightarrow> (case toRoleAssignment r of None \<Rightarrow> Inl STORE_RAISED | Some a \<Rightarrow> Inr (Some a, rows')))"
        using Some unfolding revokeActive_def p_def hit_def by (simp add: v down)
      then show ?thesis using assms(1) by simp
    qed
    show ?thesis
    proof (cases "hit old")
      case False
      then show ?thesis using body upd cnt by (auto simp: split_beta Let_def split: if_splits)
    next
      case True
      let ?new = "map (\<lambda>r. if r = old then revoked_row q r else r) rows"
      have checks: "assignment_checks (revoked_row q old)" using body True old(1) by (auto simp: list_ex_iff split: if_splits)
      have vis: "assignment_visible v (revoked_row q old)"
        using True by (auto simp: hit_def assignment_visible_def revoked_row_def split: option.splits)
      have "find_first (\<lambda>r. assignment_visible v r \<and> ra_id r = ra_id old) stored_order ?new = Some (revoked_row q old)"
        by (rule find_first_unique) (use old(1) vis new id in \<open>auto split: if_splits\<close>)
      then have "o' = Some (revoked_row q old) \<and> rows' = ?new"
        using body upd cnt True toRoleAssignment_cases [of "revoked_row q old"]
        by (auto simp: split_beta Let_def split: if_splits)
      then show ?thesis using old checks by (auto simp: p_def)
    qed
  qed
qed

lemma revoke_rows:
  assumes "revokeRole d input actor w = (r, w')" "sorted_wrt (\<lambda>a b. \<not> assignment_conflicts a b) (aw_rows w)"
  shows "aw_rows w' = aw_rows w \<and> (\<exists>e. r = Inl e)
    \<or> (\<exists>a tenant g old. requirePolicyActor actor = Some a \<and> check_role_input input = Inr tenant
        \<and> holds_grant (aw_rows w) a (az_now d) ''authorization.role.revoke'' g
        \<and> old \<in> set (aw_rows w) \<and> ra_userId old = pg_uuid (ri_userId input) \<and> ra_roleId old = ri_roleId input
        \<and> ra_tenantId old = map_option pg_uuid tenant \<and> ra_status old = ''ACTIVE''
        \<and> (let new = revoked_row (revocation_of d input tenant a) old in assignment_checks new
            \<and> aw_rows w' = map (\<lambda>x. if x = old then revoked_row (revocation_of d input tenant a) x else x) (aw_rows w)))"
proof (cases "requirePolicyActor actor")
  case None
  then show ?thesis using assms by (auto simp: revokeRole_def)
next
  case (Some a)
  note actor = requirePolicyActor_Some [OF Some]
  show ?thesis
  proof (cases "check_role_input input")
    case (Inl e)
    then show ?thesis using assms Some by (auto simp: revokeRole_def)
  next
    case (Inr tenant)
    let ?decision = "rbac_authorize (az_down d LIST_FOR_DECISION) (az_now d) (aw_rows w) (Some a) ''authorization.role.revoke''"
    show ?thesis
    proof (cases ?decision)
      case (POLICY_DENIED reason)
      then show ?thesis using assms(1) Some Inr
        by (auto simp: revokeRole_def thenE_def split: prod.splits sum.splits dest!: audit_outcome)
    next
      case (POLICY_ALLOWED role)
      obtain g where g: "holds_grant (aw_rows w) a (az_now d) ''authorization.role.revoke'' g"
        using allowed_grant [OF POLICY_ALLOWED] actor by auto
      let ?q = "revocation_of d input tenant a"
      show ?thesis
      proof (cases "revokeActive (az_down d WRITE_ASSIGNMENT) ?q (actor_write_context a) (aw_rows w)")
        case (Inl e)
        then show ?thesis using assms(1) Some Inr POLICY_ALLOWED
          by (auto simp: revokeRole_def thenE_def revoke_effect_def revocation_of_def)
      next
        case Inr': (Inr res)
        obtain o' rows' where res: "res = (o', rows')" by (cases res)
        have ran: "aw_rows w' = rows'" "o' = None \<Longrightarrow> \<exists>e. r = Inl e"
          using assms(1) Some Inr POLICY_ALLOWED Inr' res
          by (auto simp: revokeRole_def thenE_def revoke_effect_def revocation_of_def
              split: option.splits prod.splits sum.splits dest!: audit_outcome)
        from revokeActive_Inr [OF Inr' [unfolded res] assms(2)] show ?thesis
        proof (elim disjE exE conjE)
          assume "o' = None" "rows' = aw_rows w"
          then show ?thesis using ran by blast
        next
          fix old assume o: "old \<in> set (aw_rows w)" "ra_userId old = pg_uuid (rq_userId ?q)" "ra_roleId old = rq_roleId ?q"
            "ra_tenantId old = map_option pg_uuid (rq_tenantId ?q)" "ra_status old = ''ACTIVE''"
            "assignment_checks (revoked_row ?q old)"
            "rows' = map (\<lambda>r. if r = old then revoked_row ?q r else r) (aw_rows w)"
          have "rq_userId ?q = ri_userId input" "rq_roleId ?q = ri_roleId input" "rq_tenantId ?q = tenant"
            by (simp_all add: revocation_of_def)
          then show ?thesis using o ran(1) g Some Inr by (intro disjI2) (auto simp: Let_def)
        qed
      qed
    qed
  qed
qed

section \<open>Invariants\<close>

lemma admin_only:
  assumes "p \<in> {''authorization.role.assign'', ''authorization.role.revoke''}" "p \<in> set (permissionsGrantedTo role)"
  shows "role = PLATFORM_ADMIN_ROLE"
  using assms by (auto simp: permissionsGrantedTo_def ROLE_PERMISSION_GRANTS_def PLATFORM_ADMIN_ROLE_def split: if_splits)

text \<open>A platform administrator in force: the caller holds the role in its context at that instant.\<close>

definition admin_in_force :: "role_assignment list \<Rightarrow> policy_actor \<Rightarrow> millis \<Rightarrow> bool" where
  "admin_in_force rows a now \<longleftrightarrow> (\<exists>r \<in> set rows. ra_userId r = pg_uuid (pa_userId a) \<and> ra_roleId r = PLATFORM_ADMIN_ROLE
     \<and> assignmentActiveAt r now \<and> (ra_tenantId r = None \<or> ra_tenantId r = pa_tenantId a))"

lemma grant_admin:
  assumes "holds_grant rows a now p g" "p \<in> {''authorization.role.assign'', ''authorization.role.revoke''}"
  shows "admin_in_force rows a now"
  using assms admin_only [OF assms(2)] unfolding holds_grant_def admin_in_force_def by blast

text \<open>How a row may change: not at all, or from ACTIVE to REVOKED with its evidence.\<close>

definition row_evolves :: "role_assignment \<Rightarrow> role_assignment \<Rightarrow> bool" where
  "row_evolves r r' \<longleftrightarrow> r' = r \<or> ra_status r = ''ACTIVE'' \<and> ra_status r' = ''REVOKED'' \<and> ra_revokedAt r' \<noteq> None
     \<and> r' = r\<lparr>ra_status := ''REVOKED'', ra_revokedAt := ra_revokedAt r', ra_revokedBy := ra_revokedBy r',
             ra_effectiveTo := ra_revokedAt r'\<rparr>"

lemma row_evolves_keeps:
  assumes "row_evolves r r'"
  shows "ra_id r' = ra_id r" "ra_userId r' = ra_userId r" "ra_roleId r' = ra_roleId r" "ra_tenantId r' = ra_tenantId r"
proof -
  have "r' = r \<or> r' = r\<lparr>ra_status := ''REVOKED'', ra_revokedAt := ra_revokedAt r', ra_revokedBy := ra_revokedBy r',
             ra_effectiveTo := ra_revokedAt r'\<rparr>"
    using assms by (auto simp: row_evolves_def)
  then obtain s t b e where "r' = r \<or> r' = r\<lparr>ra_status := s, ra_revokedAt := t, ra_revokedBy := b, ra_effectiveTo := e\<rparr>"
    by blast
  then show "ra_id r' = ra_id r" "ra_userId r' = ra_userId r" "ra_roleId r' = ra_roleId r" "ra_tenantId r' = ra_tenantId r"
    by auto
qed

lemma row_evolves_trans: "row_evolves a b \<Longrightarrow> row_evolves b c \<Longrightarrow> row_evolves a c"
  unfolding row_evolves_def by (elim disjE) auto

text \<open>What one step may do to the table, and under whose authority.\<close>

definition assignments_extend :: "role_assignment list \<Rightarrow> role_assignment list \<Rightarrow> bool" where
  "assignments_extend rows rows' \<longleftrightarrow> rows' = rows
     \<or> (\<exists>n a. rows' = rows @ [n] \<and> admin_in_force rows a (ra_effectiveFrom n) \<and> ra_grantedBy n = pg_uuid (pa_userId a)
          \<and> ra_status n = ''ACTIVE'' \<and> assignment_row_ok n \<and> \<not> list_ex (assignment_conflicts n) rows)
     \<or> (\<exists>old new a t. old \<in> set rows \<and> row_evolves old new \<and> ra_revokedAt new = Some t \<and> admin_in_force rows a t
          \<and> ra_revokedBy new = Some (pg_uuid (pa_userId a)) \<and> assignment_row_ok new
          \<and> rows' = map (\<lambda>x. if x = old then new else x) rows)"

lemma step_extends:
  assumes "authz_step w w'" "assignments_wf (aw_rows w)"
  shows "assignments_extend (aw_rows w) (aw_rows w')"
  using assms
proof cases
  case (step_assign d input actor)
  obtain r v where r: "assignRole d input actor w = (r, v)" by (cases "assignRole d input actor w")
  have v: "w' = v" using step_assign r by simp
  from assign_rows [OF r] show ?thesis
  proof (elim disjE exE conjE)
    assume "aw_rows v = aw_rows w"
    then show ?thesis by (simp add: v assignments_extend_def)
  next
    fix a tenant g
    let ?n = "new_assignment d input tenant a"
    assume a: "requirePolicyActor actor = Some a" "check_role_input input = Inr tenant"
      "holds_grant (aw_rows w) a (az_now d) ''authorization.role.assign'' g"
      and n: "let n = ?n in aw_rows v = aw_rows w @ [n] \<and> \<not> list_ex (assignment_conflicts n) (aw_rows w)
        \<and> toRoleAssignment n = Some n \<and> assignment_checks n"
    have "admin_in_force (aw_rows w) a (az_now d)" using grant_admin [OF a(3)] by simp
    moreover have "assignment_row_ok ?n"
    proof -
      have "isUuid (ri_userId input)" "isUuid (pa_userId a)"
        using requirePolicyActor_Some [OF a(1)] check_role_input_Inr [OF a(2)] by blast+
      moreover have "isUuid t" if "tenant = Some t" for t
        using check_role_input_Inr [OF a(2)] that by (simp split: option.splits)
      ultimately have "canonical_uuid (ra_userId ?n)" "canonical_uuid (ra_grantedBy ?n)" "ra_revokedBy ?n = None"
        "case ra_tenantId ?n of None \<Rightarrow> True | Some t \<Rightarrow> canonical_uuid t"
        by (simp_all add: new_assignment_def canonical_pg_uuid split: option.split)
      then show ?thesis using n by (simp add: assignment_row_ok_def Let_def)
    qed
    ultimately show ?thesis using n
      unfolding assignments_extend_def v
      by (intro disjI2 disjI1 exI [of _ ?n] exI [of _ a]) (auto simp: Let_def new_assignment_def)
  qed
next
  case (step_revoke d input actor)
  obtain r v where r: "revokeRole d input actor w = (r, v)" by (cases "revokeRole d input actor w")
  have v: "w' = v" using step_revoke r by simp
  have sw: "sorted_wrt (\<lambda>a b. \<not> assignment_conflicts a b) (aw_rows w)" using assms(2) by (simp add: assignments_wf_def)
  from revoke_rows [OF r sw] show ?thesis
  proof (elim disjE exE conjE)
    assume "aw_rows v = aw_rows w"
    then show ?thesis by (simp add: v assignments_extend_def)
  next
    fix a tenant g old
    let ?new = "revoked_row (revocation_of d input tenant a) old"
    assume a: "requirePolicyActor actor = Some a"
      "holds_grant (aw_rows w) a (az_now d) ''authorization.role.revoke'' g"
      and o: "old \<in> set (aw_rows w)" "ra_status old = ''ACTIVE''"
      and n: "let new = ?new in assignment_checks new
        \<and> aw_rows v = map (\<lambda>x. if x = old then revoked_row (revocation_of d input tenant a) x else x) (aw_rows w)"
    have e: "map (\<lambda>x. if x = old then revoked_row (revocation_of d input tenant a) x else x) (aw_rows w)
        = map (\<lambda>x. if x = old then ?new else x) (aw_rows w)" by (intro map_cong) auto
    have "admin_in_force (aw_rows w) a (az_now d)" using grant_admin [OF a(2)] by simp
    moreover have "assignment_row_ok old" using assms(2) o(1) by (simp add: assignments_wf_def list_all_iff)
    then have "assignment_row_ok ?new" using n requirePolicyActor_Some [OF a(1)]
      by (auto simp: assignment_row_ok_def Let_def revoked_row_def revocation_of_def canonical_pg_uuid)
    moreover have "row_evolves old ?new" using o(2) by (simp add: row_evolves_def revoked_row_def)
    moreover have "ra_revokedAt ?new = Some (az_now d)" "ra_revokedBy ?new = Some (pg_uuid (pa_userId a))"
      by (simp_all add: revoked_row_def revocation_of_def)
    ultimately show ?thesis using n o(1) e
      unfolding assignments_extend_def v
      by (intro disjI2 exI [of _ old] exI [of _ ?new] exI [of _ a] exI [of _ "az_now d"] conjI) (simp_all add: Let_def)
  qed
qed

lemma extend_wf:
  assumes "assignments_extend rows rows'" "assignments_wf rows"
  shows "assignments_wf rows'" "\<forall>r \<in> set rows. \<exists>r' \<in> set rows'. row_evolves r r'"
proof -
  have refl: "row_evolves r r" for r by (simp add: row_evolves_def)
  consider "rows' = rows"
    | n where "rows' = rows @ [n]" "assignment_row_ok n" "\<not> list_ex (assignment_conflicts n) rows"
    | old new where "old \<in> set rows" "row_evolves old new" "assignment_row_ok new" "ra_status new = ''REVOKED'' \<or> new = old"
        "rows' = map (\<lambda>x. if x = old then new else x) rows"
    using assms(1) unfolding assignments_extend_def row_evolves_def by blast
  then have "assignments_wf rows' \<and> (\<forall>r \<in> set rows. \<exists>r' \<in> set rows'. row_evolves r r')"
  proof cases
    case 1
    then show ?thesis using assms(2) refl by blast
  next
    case 2
    then have "\<not> assignment_conflicts r n" if "r \<in> set rows" for r
      using that conflicts_sym by (auto simp: list_ex_iff)
    then show ?thesis using 2 assms(2) refl by (auto simp: assignments_wf_def sorted_wrt_append)
  next
    case 3
    let ?f = "\<lambda>x. if x = old then new else x"
    have c: "assignment_conflicts (?f a) (?f b) \<longrightarrow> assignment_conflicts a b" for a b
      using 3(4) row_evolves_keeps [OF 3(2)] by (auto simp: assignment_conflicts_def)
    have "sorted_wrt (\<lambda>a b. \<not> assignment_conflicts (?f a) (?f b)) rows"
    proof (rule sorted_wrt_mono_rel)
      show "sorted_wrt (\<lambda>a b. \<not> assignment_conflicts a b) rows" using assms(2) by (simp add: assignments_wf_def)
    qed (use c in blast)
    then have "assignments_wf rows'"
      using assms(2) 3(3) by (auto simp: 3(5) assignments_wf_def list_all_iff sorted_wrt_map)
    moreover have "\<forall>r \<in> set rows. \<exists>r' \<in> set rows'. row_evolves r r'"
    proof
      fix r assume r: "r \<in> set rows"
      have "row_evolves r (?f r)" using 3(2) refl by simp
      then show "\<exists>r' \<in> set rows'. row_evolves r r'" using r unfolding 3(5) set_map by (rule_tac bexI [OF _ imageI])
    qed
    ultimately show ?thesis by blast
  qed
  then show "assignments_wf rows'" "\<forall>r \<in> set rows. \<exists>r' \<in> set rows'. row_evolves r r'" by blast+
qed

lemma run_wf: "authz_run w w' \<Longrightarrow> assignments_wf (aw_rows w) \<Longrightarrow> assignments_wf (aw_rows w')"
  by (induction rule: authz_run.induct) (auto dest: step_extends extend_wf(1))

lemma run_evolves:
  "authz_run w w' \<Longrightarrow> assignments_wf (aw_rows w) \<Longrightarrow> r \<in> set (aw_rows w) \<Longrightarrow> \<exists>r' \<in> set (aw_rows w'). row_evolves r r'"
proof (induction arbitrary: r rule: authz_run.induct)
  case (run_done w)
  then show ?case by (auto simp: row_evolves_def)
next
  case (run_step w v u)
  have wf: "assignments_wf (aw_rows v)" using run_step by (blast dest: step_extends extend_wf(1))
  obtain s where s: "s \<in> set (aw_rows v)" "row_evolves r s"
    using extend_wf(2) [OF step_extends [OF run_step.hyps(1) run_step.prems(1)] run_step.prems(1)] run_step.prems(2) by blast
  then show ?case using run_step.IH [OF wf s(1)] row_evolves_trans by blast
qed

section \<open>Properties\<close>

definition uuid_a :: string where "uuid_a = ''0a000000-0000-7000-8000-000000000001''"
definition uuid_b :: string where "uuid_b = ''0b000000-0000-7000-8000-000000000002''"
definition uuid_t :: string where "uuid_t = ''0c000000-0000-7000-8000-000000000003''"

definition admin_row :: role_assignment where
  "admin_row = \<lparr>ra_id = ''g1'', ra_userId = uuid_a, ra_roleId = ''PLATFORM_ADMIN'', ra_tenantId = None,
     ra_status = ''ACTIVE'', ra_grantedBy = uuid_a, ra_reason = ''seed'', ra_effectiveFrom = 0, ra_effectiveTo = None,
     ra_revokedAt = None, ra_revokedBy = None, ra_createdAt = 0\<rparr>"

definition admin_actor :: policy_actor where
  "admin_actor = \<lparr>pa_userId = uuid_a, pa_tenantId = None, pa_sessionId = None, pa_requestId = None\<rparr>"

definition admin_world :: authz_world where
  "admin_world = \<lparr>aw_rows = [admin_row], aw_audit = []\<rparr>"

definition sample_authz :: authz_deps where
  "sample_authz = \<lparr>az_down = (\<lambda>c. False), az_now = 10, az_newId = ''g2'', az_audit = sample_audit_deps\<rparr>"

definition operator_input :: role_input where
  "operator_input = \<lparr>ri_userId = uuid_a, ri_roleId = ''OPERATOR'', ri_tenantId = None, ri_reason = ''on call''\<rparr>"

lemma admin_world_wf: "assignments_wf (aw_rows admin_world)"
proof -
  have "assignment_row_ok admin_row" by code_simp
  then show ?thesis by (simp add: admin_world_def assignments_wf_def)
qed

text \<open>
  C27: \<open>RbacPolicyService.authorize\<close> allows exactly when the actor is valid, the permission is in the catalogue, the store
  answers, and an assignment of that user in force at that instant, platform-wide or bound to the
  actor's own tenant, carries a role that grants it.
\<close>

theorem authorization_is_exactly_a_grant:
  assumes "assignments_wf rows"
  shows "(\<exists>role. rbac_authorize down now rows actor permission = POLICY_ALLOWED role) \<longleftrightarrow>
    \<not> down \<and> isPermissionName permission \<and> (\<exists>a. actor = Some a \<and> requirePolicyActor actor = Some a
       \<and> result_isOk (validateContext (actor_context a) [UserIdKey])
       \<and> (\<exists>r \<in> set rows. ra_userId r = pg_uuid (pa_userId a) \<and> assignmentActiveAt r now
            \<and> (ra_tenantId r = None \<or> ra_tenantId r = pa_tenantId a)
            \<and> permission \<in> set (permissionsGrantedTo (ra_roleId r))))"
  (is "?l \<longleftrightarrow> ?r")
proof
  assume ?l
  then obtain role where role: "rbac_authorize down now rows actor permission = POLICY_ALLOWED role" by blast
  obtain a r where a: "requirePolicyActor actor = Some a" "holds_grant rows a now permission r"
    using allowed_grant [OF role] by blast
  obtain resolved where l: "listOwnActive down a now rows = Some resolved" "isPermissionName permission"
    using role a(1) unfolding rbac_allowed by auto
  show ?r using a requirePolicyActor_Some [OF a(1)] l(2) listOwnActive_Some(1,2) [OF l(1)]
    unfolding holds_grant_def by blast
next
  assume r: ?r
  then obtain a g where a: "requirePolicyActor actor = Some a" "result_isOk (validateContext (actor_context a) [UserIdKey])"
    "holds_grant rows a now permission g" "isPermissionName permission" "\<not> down"
    unfolding holds_grant_def by blast
  have "list_all assignment_row_ok rows" using assms by (simp add: assignments_wf_def)
  from grant_allowed [OF this a(1,4,2,3)] a(5) show ?l by simp
qed

theorem authorization_is_exactly_a_grant_witness:
  "(\<exists>role. rbac_authorize False 10 (aw_rows admin_world) (Some admin_actor) ''authorization.role.assign'' = POLICY_ALLOWED role)
   \<and> \<not> (\<exists>role. rbac_authorize False 10 (aw_rows admin_world) (Some admin_actor) ''users.profile.read'' = POLICY_ALLOWED role)"
proof -
  have ok: "requirePolicyActor (Some admin_actor) = Some admin_actor"
    "result_isOk (validateContext (actor_context admin_actor) [UserIdKey])"
    "isPermissionName ''authorization.role.assign''" "pg_uuid (pa_userId admin_actor) = ra_userId admin_row"
    "assignmentActiveAt admin_row 10" "''authorization.role.assign'' \<in> set (permissionsGrantedTo (ra_roleId admin_row))"
    "''users.profile.read'' \<notin> set (permissionsGrantedTo (ra_roleId admin_row))" "ra_tenantId admin_row = None"
    by code_simp+
  have rows: "aw_rows admin_world = [admin_row]" by (simp add: admin_world_def)
  show ?thesis
    using authorization_is_exactly_a_grant [OF admin_world_wf, of False 10 "Some admin_actor" "''authorization.role.assign''"]
      authorization_is_exactly_a_grant [OF admin_world_wf, of False 10 "Some admin_actor" "''users.profile.read''"] ok rows
    by auto
qed

text \<open>
  C26: Authority has a root: every row a step adds or revokes names as grantor or revoker a user who held PLATFORM_ADMIN in
  force at that instant, so that without an active PLATFORM_ADMIN no run of assignments and revocations, by whatever
  actors and with whatever failures, changes the table at all.
\<close>

theorem authority_has_a_root:
  assumes "assignments_wf (aw_rows w)"
  shows "(authz_step w w' \<longrightarrow> assignments_extend (aw_rows w) (aw_rows w'))
    \<and> (authz_run w w' \<and> (\<forall>r \<in> set (aw_rows w). ra_roleId r = PLATFORM_ADMIN_ROLE \<longrightarrow> ra_status r \<noteq> ''ACTIVE'')
        \<longrightarrow> aw_rows w' = aw_rows w)"
proof -
  have frozen: "aw_rows y = aw_rows x"
    if "authz_step x y" "assignments_wf (aw_rows x)"
      "\<forall>r \<in> set (aw_rows x). ra_roleId r = PLATFORM_ADMIN_ROLE \<longrightarrow> ra_status r \<noteq> ''ACTIVE''" for x y
  proof -
    have "\<not> admin_in_force (aw_rows x) a t" for a t
      using that(3) by (auto simp: admin_in_force_def assignmentActiveAt_def)
    then show ?thesis using step_extends [OF that(1,2)] by (auto simp: assignments_extend_def)
  qed
  have "aw_rows y = aw_rows x"
    if "authz_run x y" "assignments_wf (aw_rows x)"
      "\<forall>r \<in> set (aw_rows x). ra_roleId r = PLATFORM_ADMIN_ROLE \<longrightarrow> ra_status r \<noteq> ''ACTIVE''" for x y
    using that
  proof (induction rule: authz_run.induct)
    case (run_step w v u)
    then show ?case using frozen [OF run_step.hyps(1) run_step.prems] by simp
  qed simp
  then show ?thesis using step_extends assms by blast
qed

theorem authority_has_a_root_witness:
  "aw_rows (snd (assignRole sample_authz operator_input (Some admin_actor) (admin_world\<lparr>aw_rows := []\<rparr>))) = []
   \<and> assignments_extend [admin_row] (aw_rows (snd (assignRole sample_authz operator_input (Some admin_actor) admin_world)))
   \<and> length (aw_rows (snd (assignRole sample_authz operator_input (Some admin_actor) admin_world))) = 2"
proof -
  have e: "assignments_wf (aw_rows (admin_world\<lparr>aw_rows := []\<rparr>))" by (simp add: assignments_wf_def)
  have two: "length (aw_rows (snd (assignRole sample_authz operator_input (Some admin_actor) admin_world))) = 2" by code_simp
  have s: "authz_step x (snd (assignRole sample_authz operator_input (Some admin_actor) x))" for x
    by (rule authz_step.intros)
  have "authz_run x (snd (assignRole sample_authz operator_input (Some admin_actor) x))" for x
    using s authz_run.intros by blast
  then show ?thesis
    using authority_has_a_root [OF e] authority_has_a_root [OF admin_world_wf] s two
    by (fastforce simp: admin_world_def)
qed

text \<open>
  Assignments are evidence: over any run every row stays, unchanged or revoked once with its instant and revoker and
  every granted column as it was, and at most one row per user, role and scope is active.
\<close>

theorem assignments_are_evidence:
  assumes "authz_run w w'" "assignments_wf (aw_rows w)"
  shows "(\<forall>r \<in> set (aw_rows w). \<exists>r' \<in> set (aw_rows w'). row_evolves r r') \<and> assignments_wf (aw_rows w')
    \<and> (\<forall>r \<in> set (aw_rows w'). \<forall>s \<in> set (aw_rows w'). ra_status r = ''ACTIVE'' \<and> ra_status s = ''ACTIVE''
         \<and> ra_userId r = ra_userId s \<and> ra_roleId r = ra_roleId s \<and> ra_tenantId r = ra_tenantId s \<longrightarrow> r = s)"
proof -
  have wf: "assignments_wf (aw_rows w')" using run_wf [OF assms] .
  then have "sorted_wrt (\<lambda>a b. \<not> assignment_conflicts a b) (aw_rows w')" by (simp add: assignments_wf_def)
  from sorted_wrt_unique [OF this] have "\<forall>r \<in> set (aw_rows w'). \<forall>s \<in> set (aw_rows w'). ra_status r = ''ACTIVE'' \<and> ra_status s = ''ACTIVE''
         \<and> ra_userId r = ra_userId s \<and> ra_roleId r = ra_roleId s \<and> ra_tenantId r = ra_tenantId s \<longrightarrow> r = s"
    using conflicts_sym by (simp add: assignment_conflicts_def)
  then show ?thesis using wf run_evolves [OF assms] by blast
qed

theorem assignments_are_evidence_witness:
  "\<exists>r \<in> set (aw_rows (snd (assignRole sample_authz operator_input (Some admin_actor) admin_world))). row_evolves admin_row r"
proof -
  have "authz_run admin_world (snd (assignRole sample_authz operator_input (Some admin_actor) admin_world))"
    using authz_step.intros authz_run.intros by blast
  from assignments_are_evidence [OF this admin_world_wf] show ?thesis
    by (simp add: admin_world_def)
qed

text \<open>
  A revocation holds at once: after a successful \<open>RevokeRole\<close> the user's decisions, at any instant and in any
  session, no longer rest on the assignment: a permission that no other of the user's assignments grants is denied.
\<close>

theorem revocation_is_immediate:
  assumes "assignments_wf (aw_rows w)" "revokeRole d input actor w = (Inr x, w')"
    and target: "pg_uuid (pa_userId b) = pg_uuid (ri_userId input)"
    and others: "\<forall>r \<in> set (aw_rows w'). ra_userId r = pg_uuid (ri_userId input)
      \<and> permission \<in> set (permissionsGrantedTo (ra_roleId r)) \<longrightarrow>
        ra_roleId r = ri_roleId input \<and> ra_tenantId r = map_option pg_uuid (ri_tenantId input)"
  shows "\<exists>denial. rbac_authorize down now (aw_rows w') (Some b) permission = POLICY_DENIED denial"
proof (cases "rbac_authorize down now (aw_rows w') (Some b) permission")
  case (POLICY_ALLOWED role)
  obtain g where g: "holds_grant (aw_rows w') b now permission g"
    using allowed_grant [OF POLICY_ALLOWED] requirePolicyActor_Some by blast
  have sw: "sorted_wrt (\<lambda>a b. \<not> assignment_conflicts a b) (aw_rows w)" using assms(1) by (simp add: assignments_wf_def)
  have gone: "ra_status r \<noteq> ''ACTIVE''"
    if r: "r \<in> set (aw_rows w')" "ra_userId r = pg_uuid (ri_userId input)" "ra_roleId r = ri_roleId input"
      "ra_tenantId r = map_option pg_uuid (ri_tenantId input)" for r
    using revoke_rows [OF assms(2) sw]
  proof (elim disjE exE conjE)
    fix e assume "Inr x = Inl e" then show ?thesis by simp
  next
    fix a tenant h old
    let ?q = "revocation_of d input tenant a"
    assume c: "check_role_input input = Inr tenant" and o: "old \<in> set (aw_rows w)" "ra_userId old = pg_uuid (ri_userId input)"
        "ra_roleId old = ri_roleId input" "ra_tenantId old = map_option pg_uuid tenant" "ra_status old = ''ACTIVE''"
      and n: "let new = revoked_row ?q old in assignment_checks new
        \<and> aw_rows w' = map (\<lambda>x. if x = old then revoked_row ?q x else x) (aw_rows w)"
    have tenant: "tenant = ri_tenantId input" using check_role_input_Inr [OF c] by blast
    obtain y where y: "y \<in> set (aw_rows w)" "r = (if y = old then revoked_row ?q y else y)"
      using n r(1) by (auto simp: Let_def)
    show "ra_status r \<noteq> ''ACTIVE''"
    proof
      assume act: "ra_status r = ''ACTIVE''"
      have ne: "y \<noteq> old" using act y(2) by (auto simp: revoked_row_def)
      then have "assignment_conflicts y old"
        using act y(2) r(2-4) o(2-5) tenant by (simp add: assignment_conflicts_def)
      then show False using sorted_wrt_unique [OF sw conflicts_sym y(1) o(1)] ne by blast
    qed
  qed
  have "ra_status g = ''ACTIVE''" "g \<in> set (aw_rows w')" "ra_userId g = pg_uuid (ri_userId input)"
    "permission \<in> set (permissionsGrantedTo (ra_roleId g))"
    using g target by (simp_all add: holds_grant_def assignmentActiveAt_def)
  then show ?thesis using gone others by blast
qed simp

definition operator_row :: role_assignment where
  "operator_row = admin_row\<lparr>ra_id := ''g9'', ra_userId := uuid_b, ra_roleId := ''OPERATOR''\<rparr>"

definition staff_world :: authz_world where
  "staff_world = \<lparr>aw_rows = [admin_row, operator_row], aw_audit = []\<rparr>"

definition operator_actor :: policy_actor where
  "operator_actor = admin_actor\<lparr>pa_userId := uuid_b\<rparr>"

definition revoke_operator_input :: role_input where
  "revoke_operator_input = \<lparr>ri_userId = uuid_b, ri_roleId = ''OPERATOR'', ri_tenantId = None, ri_reason = ''left''\<rparr>"

theorem revocation_is_immediate_witness:
  "(let w' = snd (revokeRole sample_authz revoke_operator_input (Some admin_actor) staff_world)
    in \<exists>denial. rbac_authorize False 10 (aw_rows w') (Some operator_actor) ''controlplane.killswitch.operate'' = POLICY_DENIED denial)
   \<and> rbac_authorize False 10 (aw_rows staff_world) (Some operator_actor) ''controlplane.killswitch.operate'' = POLICY_ALLOWED ''OPERATOR''"
proof -
  let ?run = "revokeRole sample_authz revoke_operator_input (Some admin_actor) staff_world"
  have before: "rbac_authorize False 10 (aw_rows staff_world) (Some operator_actor) ''controlplane.killswitch.operate''
      = POLICY_ALLOWED ''OPERATOR''" by code_simp
  have "assignment_row_ok admin_row" "assignment_row_ok operator_row" "\<not> assignment_conflicts admin_row operator_row"
    by code_simp+
  then have wf: "assignments_wf (aw_rows staff_world)" by (simp add: staff_world_def assignments_wf_def)
  have ok: "result_isOk (fst ?run)" by code_simp
  obtain x w' where run: "?run = (Inr x, w')" using ok by (cases ?run; cases "fst ?run") auto
  have ids: "pg_uuid (pa_userId operator_actor) = pg_uuid (ri_userId revoke_operator_input)" by code_simp
  have "list_all (\<lambda>r. ra_userId r = pg_uuid (ri_userId revoke_operator_input) \<longrightarrow>
      ra_roleId r = ri_roleId revoke_operator_input \<and> ra_tenantId r = map_option pg_uuid (ri_tenantId revoke_operator_input)) (aw_rows (snd ?run))"
    by code_simp
  then have others: "\<forall>r \<in> set (aw_rows w'). ra_userId r = pg_uuid (ri_userId revoke_operator_input)
      \<and> ''controlplane.killswitch.operate'' \<in> set (permissionsGrantedTo (ra_roleId r)) \<longrightarrow>
        ra_roleId r = ri_roleId revoke_operator_input \<and> ra_tenantId r = map_option pg_uuid (ri_tenantId revoke_operator_input)"
    by (simp add: run list_all_iff)
  show ?thesis using revocation_is_immediate [OF wf run ids others, of False 10] before by (simp add: run)
qed

section \<open>The catalogue\<close>

lemma validate_permissions_Inr:
  "validate_permissions ps seen = Inr out \<Longrightarrow> set out = set (map pd_name ps) \<union> set seen
     \<and> distinct (map pd_name ps) \<and> set (map pd_name ps) \<inter> set seen = {}
     \<and> (\<forall>p \<in> set ps. CHR ''*'' \<notin> set (pd_name p) \<and> permission_name_grammar (pd_name p)
          \<and> pd_capability p = hd (split_on (CHR ''.'') (pd_name p)))"
proof (induction ps arbitrary: seen)
  case (Cons p ps)
  then show ?case using Cons.IH [of "pd_name p # seen"] by (simp split: if_splits)
qed simp

lemma validate_roles_Inr:
  "validate_roles rs seen = Inr out \<Longrightarrow> set out = set (map fst rs) \<union> set seen
     \<and> distinct (map fst rs) \<and> set (map fst rs) \<inter> set seen = {}"
proof (induction rs arbitrary: seen)
  case (Cons r rs)
  then show ?case using Cons.IH [of "fst r # seen"] by (cases r) (simp split: if_splits)
qed simp

lemma validate_grants_Inr:
  "validate_grants perms roles gs = Inr u \<Longrightarrow> (\<forall>(r, ps) \<in> set gs. r \<in> set roles \<and> set ps \<subseteq> set perms)"
proof (induction gs)
  case (Cons g gs)
  then show ?case
    by (cases g) (auto simp: find_None_iff split: if_splits option.splits)
qed simp

text \<open>
  A catalogue that passes \<open>validateCatalogue\<close> is a closed world: permission and role names are distinct, no permission
  has a wildcard, each has the three-segment form under its own capability, and every grant is of a listed
  permission to a listed role.  The shipped catalogue passes.
\<close>

theorem validated_catalogue_is_closed:
  "validateCatalogue = Inr ()
   \<and> (validate_catalogue_of perms roles grants = Inr () \<longrightarrow>
      distinct (map pd_name perms) \<and> distinct (map fst roles)
      \<and> (\<forall>p \<in> set perms. CHR ''*'' \<notin> set (pd_name p) \<and> permission_name_grammar (pd_name p)
           \<and> pd_capability p = hd (split_on (CHR ''.'') (pd_name p)))
      \<and> (\<forall>(r, ps) \<in> set grants. r \<in> set (map fst roles) \<and> set ps \<subseteq> set (map pd_name perms)))"
proof (intro conjI impI)
  show "validateCatalogue = Inr ()" by code_simp
next
  assume "validate_catalogue_of perms roles grants = Inr ()"
  then obtain ps rs where v: "validate_permissions perms [] = Inr ps" "validate_roles roles [] = Inr rs"
    "validate_grants ps rs grants = Inr ()"
    by (auto simp: validate_catalogue_of_def result_andThen_eq_Inr)
  note facts = validate_permissions_Inr [OF v(1)] validate_roles_Inr [OF v(2)] validate_grants_Inr [OF v(3)]
  show "distinct (map pd_name perms)" "distinct (map fst roles)"
    "\<forall>p \<in> set perms. CHR ''*'' \<notin> set (pd_name p) \<and> permission_name_grammar (pd_name p)
           \<and> pd_capability p = hd (split_on (CHR ''.'') (pd_name p))"
    using facts by blast+
  show "\<forall>(r, ps) \<in> set grants. r \<in> set (map fst roles) \<and> set ps \<subseteq> set (map pd_name perms)"
    using facts by simp
qed

theorem validated_catalogue_is_closed_witness:
  "distinct (map pd_name PERMISSION_CATALOGUE)"
proof -
  have v: "validate_catalogue_of PERMISSION_CATALOGUE ROLE_CATALOGUE ROLE_PERMISSION_GRANTS = Inr ()" by code_simp
  from validated_catalogue_is_closed [of PERMISSION_CATALOGUE ROLE_CATALOGUE ROLE_PERMISSION_GRANTS] v show ?thesis by blast
qed

section \<open>Limits of the rules\<close>

text \<open>
  The delegation rule does not keep administrators within their own authority: a platform administrator who may not
  operate kill switches can assign OPERATOR to itself, and may then.
\<close>

theorem administrators_can_escalate:
  "let rows = aw_rows admin_world; w = snd (assignRole sample_authz operator_input (Some admin_actor) admin_world)
   in rbac_authorize False 10 rows (Some admin_actor) ''controlplane.killswitch.operate'' = POLICY_DENIED DENY_PERMISSION_NOT_HELD
    \<and> rbac_authorize False 10 (aw_rows w) (Some admin_actor) ''controlplane.killswitch.operate'' = POLICY_ALLOWED ''OPERATOR''"
  by code_simp

end
