(* ===== verification/Kill_Switch.thy ===== *)
theory Kill_Switch
  imports Authorization
begin

text \<open>
  The control plane (\<open>modules/control-plane\<close>): the kill-switch registry and its evaluation, the store on the tables of
  migration 0053 (constraints, the version trigger and the history trigger), the fail-closed read path, the guard, and
  \<open>OperateKillSwitch\<close>.  The policy service is the argument \<open>policy\<close>; \<open>iso\<close> prints an instant.  A \<open>Date\<close> in the input is a
  number of milliseconds, \<open>NotWhole\<close> for an invalid one.
\<close>

section \<open>The registry\<close>

definition KILL_SWITCH_IDS :: "string list" where
  "KILL_SWITCH_IDS = [''NEW_REGISTRATIONS'', ''PASSWORD_LOGIN'', ''SESSION_REFRESH'', ''TENANT_INVITATIONS'']"

definition KILL_SWITCH_STATES :: "string list" where
  "KILL_SWITCH_STATES = [''ACTIVE_RESTRICTION'', ''INACTIVE'']"

record kill_switch =
  ks_id :: string
  ks_state :: string
  ks_scope :: string
  ks_reason :: string
  ks_actor :: string
  ks_version :: int
  ks_effectiveFrom :: millis
  ks_expiresAt :: "millis option"
  ks_updatedAt :: millis

definition isKillSwitchId :: "string \<Rightarrow> bool" where
  "isKillSwitchId v \<longleftrightarrow> v \<in> set KILL_SWITCH_IDS"

datatype kill_switch_evaluation = UNRESTRICTED | RESTRICTED string string

definition evaluateKillSwitch :: "kill_switch option \<Rightarrow> millis \<Rightarrow> kill_switch_evaluation" where
  "evaluateKillSwitch killSwitch at = (case killSwitch of
     None \<Rightarrow> UNRESTRICTED
   | Some k \<Rightarrow>
       if ks_state k = ''INACTIVE'' then UNRESTRICTED
       else if (case ks_expiresAt k of None \<Rightarrow> False | Some e \<Rightarrow> e \<le> at) then UNRESTRICTED
       else RESTRICTED (ks_id k) (ks_reason k))"

section \<open>The store\<close>

record switch_history =
  sh_switchId :: string
  sh_state :: string
  sh_reason :: string
  sh_actor :: string
  sh_version :: int
  sh_effectiveFrom :: millis
  sh_expiresAt :: "millis option"

record switch_world =
  kw_switches :: "kill_switch list"
  kw_history :: "switch_history list"
  kw_audit :: "audit_event list"

definition toKillSwitch :: "kill_switch \<Rightarrow> kill_switch option" where
  "toKillSwitch row =
     (if \<not> isKillSwitchId (ks_id row) \<or> ks_state row \<notin> set KILL_SWITCH_STATES \<or> ks_scope row \<noteq> ''GLOBAL'' then None
      else Some row)"

datatype switch_fault = SWITCH_CONFLICT | SWITCH_UNREGISTERED | SWITCH_STORE_ERROR

definition store_read :: "bool \<Rightarrow> string \<Rightarrow> kill_switch list \<Rightarrow> (switch_fault, kill_switch option) outcome" where
  "store_read down i rows =
     (if down then Inl SWITCH_STORE_ERROR
      else case find_first (\<lambda>r. ks_id r = i) stored_order rows of
        None \<Rightarrow> Inr None
      | Some row \<Rightarrow> (case toKillSwitch row of None \<Rightarrow> Inl SWITCH_STORE_ERROR | Some k \<Rightarrow> Inr (Some k)))"

record switch_operation =
  so_id :: string
  so_state :: string
  so_reason :: string
  so_actor :: string
  so_expectedVersion :: int
  so_effectiveFrom :: millis
  so_expiresAt :: "js_number option"

definition MAX_INTEGER :: int where
  "MAX_INTEGER = 2147483647"

text \<open>The CHECK constraints, with the range of the \<open>integer\<close> column.\<close>

definition switch_checks :: "kill_switch \<Rightarrow> bool" where
  "switch_checks k \<longleftrightarrow> isKillSwitchId (ks_id k) \<and> ks_state k \<in> set KILL_SWITCH_STATES \<and> ks_scope k = ''GLOBAL''
     \<and> ks_reason k \<noteq> [] \<and> ks_actor k \<noteq> [] \<and> 1 \<le> ks_version k \<and> ks_version k \<le> MAX_INTEGER
     \<and> (ks_state k = ''ACTIVE_RESTRICTION'' \<or> ks_expiresAt k = None)
     \<and> (case ks_expiresAt k of None \<Rightarrow> True | Some e \<Rightarrow> e > ks_effectiveFrom k)"

text \<open>\<open>kill_switches_append_history\<close>.\<close>

definition history_of :: "kill_switch \<Rightarrow> switch_history" where
  "history_of k = \<lparr>sh_switchId = ks_id k, sh_state = ks_state k, sh_reason = ks_reason k, sh_actor = ks_actor k,
     sh_version = ks_version k, sh_effectiveFrom = ks_effectiveFrom k, sh_expiresAt = ks_expiresAt k\<rparr>"

definition date_value :: "js_number option \<Rightarrow> millis option" where
  "date_value d = (case d of Some (Whole t) \<Rightarrow> Some t | _ \<Rightarrow> None)"

definition operated :: "switch_operation \<Rightarrow> millis \<Rightarrow> kill_switch \<Rightarrow> kill_switch" where
  "operated q now k = k\<lparr>ks_state := so_state q, ks_reason := so_reason q, ks_actor := so_actor q,
     ks_version := so_expectedVersion q + 1, ks_effectiveFrom := so_effectiveFrom q,
     ks_expiresAt := date_value (so_expiresAt q), ks_updatedAt := now\<rparr>"

text \<open>
  The transaction of \<open>operate\<close>: the conditional update under the guard trigger (the version grows by one) and the
  constraints, one history row per updated row under its unique constraint, and the read-back.  The client refuses an invalid
  date before any statement.
\<close>

definition store_operate ::
  "bool \<Rightarrow> millis \<Rightarrow> switch_operation \<Rightarrow> switch_world \<Rightarrow> (switch_fault, kill_switch) outcome \<times> switch_world" where
  "store_operate down now q w =
     (if down \<or> so_expiresAt q = Some NotWhole then (Inl SWITCH_STORE_ERROR, w)
      else
        let hit = (\<lambda>k. ks_id k = so_id q \<and> ks_version k = so_expectedVersion q);
            news = map (operated q now) (filter hit (kw_switches w))
        in if list_ex (\<lambda>k. \<not> switch_checks k) news
             \<or> list_ex (\<lambda>k. list_ex (\<lambda>h. sh_switchId h = ks_id k \<and> sh_version h = ks_version k) (kw_history w)) news
           then (Inl SWITCH_STORE_ERROR, w)
           else let (count, rows) = update_many hit (operated q now) (kw_switches w)
                in if count = 0 then
                     (if find_first (\<lambda>k. ks_id k = so_id q) stored_order (kw_switches w) = None
                      then (Inl SWITCH_UNREGISTERED, w) else (Inl SWITCH_CONFLICT, w))
                   else case find_first (\<lambda>k. ks_id k = so_id q) stored_order rows of
                     None \<Rightarrow> (Inl SWITCH_STORE_ERROR, w)
                   | Some row \<Rightarrow>
                       (case toKillSwitch row of
                          None \<Rightarrow> (Inl SWITCH_STORE_ERROR, w)
                        | Some k \<Rightarrow> (Inr k, w\<lparr>kw_switches := rows, kw_history := kw_history w @ map history_of news\<rparr>)))"

section \<open>The read path\<close>

datatype operation_denied = OPERATION_RESTRICTED string string | DEPENDENCY_UNAVAILABLE string

definition assertOperationAllowed ::
  "bool \<Rightarrow> millis \<Rightarrow> kill_switch list \<Rightarrow> string \<Rightarrow> (operation_denied, unit) outcome" where
  "assertOperationAllowed down now rows switchId =
     (case store_read down switchId rows of
        Inl e \<Rightarrow> Inl (DEPENDENCY_UNAVAILABLE switchId)
      | Inr current \<Rightarrow>
          (case evaluateKillSwitch current now of
             RESTRICTED i reason \<Rightarrow> Inl (OPERATION_RESTRICTED switchId reason)
           | UNRESTRICTED \<Rightarrow> Inr ()))"

text \<open>\<open>KillSwitchGuard.canActivate\<close>: a denial is a 503 with its code.\<close>

definition killSwitchGuard_canActivate :: "(operation_denied, unit) outcome \<Rightarrow> (string \<times> string, bool) outcome" where
  "killSwitchGuard_canActivate allowed = (case allowed of
     Inl (DEPENDENCY_UNAVAILABLE i) \<Rightarrow> Inl (''DEPENDENCY_UNAVAILABLE'', i)
   | Inl (OPERATION_RESTRICTED i reason) \<Rightarrow> Inl (''OPERATION_RESTRICTED'', i)
   | Inr u \<Rightarrow> Inr True)"

section \<open>OperateKillSwitch\<close>

datatype switch_error =
    SWITCH_INVALID_ACTOR | SWITCH_INVALID_INPUT string | SWITCH_NOT_AUTHORIZED policy_denial
  | SWITCH_VERSION_CONFLICT | SWITCH_STORE_FAILURE

type_synonym 'a switch_effect = "(switch_world, switch_error, 'a) effect"

datatype switch_call = READ_SWITCH | OPERATE_SWITCH

record switch_deps =
  sd_down :: "switch_call \<Rightarrow> bool"
  sd_now :: millis
  sd_policy :: "policy_actor option \<Rightarrow> string \<Rightarrow> authz_decision"
  sd_audit :: audit_deps
  sd_iso :: "millis \<Rightarrow> string"

record operate_input =
  oi_switchId :: string
  oi_action :: string
  oi_reason :: string
  oi_expiresAt :: "js_number option"

definition OPERATE_KILL_SWITCH :: string where
  "OPERATE_KILL_SWITCH = ''controlplane.killswitch.operate''"

definition check_operate_input :: "operate_input \<Rightarrow> millis \<Rightarrow> (switch_error, js_number option) outcome" where
  "check_operate_input i occurredAt =
     (if \<not> isKillSwitchId (oi_switchId i) then Inl (SWITCH_INVALID_INPUT ''switchId'')
      else if oi_action i \<noteq> ''ACTIVATE'' \<and> oi_action i \<noteq> ''DEACTIVATE'' then Inl (SWITCH_INVALID_INPUT ''action'')
      else if blank (oi_reason i) then Inl (SWITCH_INVALID_INPUT ''reason'')
      else case oi_expiresAt i of
        None \<Rightarrow> Inr None
      | Some t \<Rightarrow>
          if oi_action i \<noteq> ''ACTIVATE'' then Inl (SWITCH_INVALID_INPUT ''expiresAt'')
          else if (case t of Whole e \<Rightarrow> e \<le> occurredAt | NotWhole \<Rightarrow> False) then Inl (SWITCH_INVALID_INPUT ''expiresAt'')
          else Inr (Some t))"

definition switch_entry ::
  "switch_deps \<Rightarrow> policy_actor \<Rightarrow> string \<Rightarrow> operate_input \<Rightarrow> string \<Rightarrow> kill_switch option \<Rightarrow> trail_entry" where
  "switch_entry d actor result i reason done' =
     \<lparr>te_occurredAt = sd_now d, te_actorRef = ''user:'' @ pa_userId actor, te_tenantRef = None,
      te_action = (if result = ''SUCCESS''
         then (if oi_action i = ''ACTIVATE'' then ''controlplane.killswitch.activated'' else ''controlplane.killswitch.deactivated'')
         else ''controlplane.killswitch.operate''),
      te_resourceType = ''kill_switch'', te_resourceId = oi_switchId i, te_reason = Some reason,
      te_requestId = pa_requestId actor, te_before = None,
      te_after = Some ((''operation'', oi_action i) # (case done' of None \<Rightarrow> [] | Some k \<Rightarrow>
         (''version'', text_of_bigint (ks_version k))
         # (case ks_expiresAt k of None \<Rightarrow> [] | Some e \<Rightarrow> [(''expires_at'', sd_iso d e)]))),
      te_outcome = result\<rparr>"

definition record_switch_audit :: "switch_deps \<Rightarrow> trail_entry \<Rightarrow> trail_failure option switch_effect" where
  "record_switch_audit d e = (\<lambda>w. case trail_record (sd_audit d) e (kw_audit w) of
      (Inl defect, es) \<Rightarrow> (Inl SWITCH_STORE_FAILURE, w\<lparr>kw_audit := es\<rparr>)
    | (Inr (Inl failure), es) \<Rightarrow> (Inr (Some failure), w\<lparr>kw_audit := es\<rparr>)
    | (Inr (Inr u), es) \<Rightarrow> (Inr None, w\<lparr>kw_audit := es\<rparr>))"

fun switch_failure :: "switch_fault \<Rightarrow> switch_error" where
  "switch_failure SWITCH_CONFLICT = SWITCH_VERSION_CONFLICT"
| "switch_failure SWITCH_UNREGISTERED = SWITCH_STORE_FAILURE"
| "switch_failure SWITCH_STORE_ERROR = SWITCH_STORE_FAILURE"

definition read_for_operation :: "switch_deps \<Rightarrow> string \<Rightarrow> kill_switch switch_effect" where
  "read_for_operation d i = (\<lambda>w. case store_read (sd_down d READ_SWITCH) i (kw_switches w) of
      Inl e \<Rightarrow> (Inl (switch_failure e), w)
    | Inr None \<Rightarrow> (Inl SWITCH_STORE_FAILURE, w)
    | Inr (Some k) \<Rightarrow> (Inr k, w))"

text \<open>The write names the version that was read; other transactions may run between the two, see \<open>store_operate\<close>.\<close>

definition operate_read ::
  "switch_deps \<Rightarrow> operate_input \<Rightarrow> js_number option \<Rightarrow> policy_actor \<Rightarrow> kill_switch \<Rightarrow> kill_switch switch_effect" where
  "operate_read d i expiresAt actor current = (\<lambda>w. case store_operate (sd_down d OPERATE_SWITCH) (sd_now d)
      \<lparr>so_id = oi_switchId i, so_state = (if oi_action i = ''ACTIVATE'' then ''ACTIVE_RESTRICTION'' else ''INACTIVE''),
       so_reason = js_trim (oi_reason i), so_actor = ''user:'' @ pa_userId actor, so_expectedVersion = ks_version current,
       so_effectiveFrom = sd_now d, so_expiresAt = (if oi_action i = ''ACTIVATE'' then expiresAt else None)\<rparr> w of
      (Inl e, w') \<Rightarrow> (Inl (switch_failure e), w')
    | (Inr k, w') \<Rightarrow> (Inr k, w'))"

definition operateKillSwitch ::
  "switch_deps \<Rightarrow> operate_input \<Rightarrow> policy_actor option \<Rightarrow> (kill_switch \<times> trail_failure option) switch_effect" where
  "operateKillSwitch d i actor =
     (case actor of
        None \<Rightarrow> throwE SWITCH_INVALID_ACTOR
      | Some a \<Rightarrow>
          if \<not> isUuid (pa_userId a) then throwE SWITCH_INVALID_ACTOR
          else case check_operate_input i (sd_now d) of
            Inl e \<Rightarrow> throwE e
          | Inr expiresAt \<Rightarrow>
              (case sd_policy d (Some a) OPERATE_KILL_SWITCH of
                 POLICY_DENIED reason \<Rightarrow>
                   thenE (record_switch_audit d (switch_entry d a ''DENIED'' i (policy_denial_text reason) None))
                     (\<lambda>_. throwE (SWITCH_NOT_AUTHORIZED reason))
               | POLICY_ALLOWED role \<Rightarrow>
                   thenE (read_for_operation d (oi_switchId i)) (\<lambda>current.
                   thenE (operate_read d i expiresAt a current) (\<lambda>k.
                   thenE (record_switch_audit d (switch_entry d a ''SUCCESS'' i (js_trim (oi_reason i)) (Some k)))
                     (\<lambda>failure. returnE (k, failure))))))"

end
