(* ===== verification/Kill_Switch_Laws.thy ===== *)
theory Kill_Switch_Laws
  imports Kill_Switch Authorization_Laws
begin

text \<open>
  What the control plane promises: the ledger of a switch is complete and in step with its row, no two operators overwrite
  each other, the read path answers exactly what was recorded and fails closed, and only an operator in force
  changes anything.
\<close>

section \<open>Well-formed stores\<close>

definition entries_of :: "string \<Rightarrow> switch_history list \<Rightarrow> switch_history list" where
  "entries_of i H = filter (\<lambda>h. sh_switchId h = i) H"

text \<open>The ledger of a row: one entry per version from 1 to the current one, in order, the last of them the row's state.\<close>

definition ledger :: "switch_history list \<Rightarrow> kill_switch \<Rightarrow> bool" where
  "ledger H k \<longleftrightarrow> map sh_version (entries_of (ks_id k) H) = [1..ks_version k]
     \<and> last (entries_of (ks_id k) H) = history_of k"

definition switches_wf :: "switch_world \<Rightarrow> bool" where
  "switches_wf w \<longleftrightarrow> distinct (map ks_id (kw_switches w)) \<and> list_all switch_checks (kw_switches w)
     \<and> list_all (ledger (kw_history w)) (kw_switches w)"

lemma switch_unique:
  assumes "distinct (map ks_id rows)" "k \<in> set rows" "l \<in> set rows" "ks_id k = ks_id l"
  shows "k = l"
  using assms by (auto simp: distinct_map dest: inj_onD)

lemma distinct_set_single:
  assumes "distinct xs" "set xs = {a}"
  shows "xs = [a]"
proof (cases xs)
  case (Cons y ys)
  then have "y = a" "set ys \<subseteq> {a}" "a \<notin> set ys" using assms by auto
  then show ?thesis using Cons by (cases ys) auto
qed (use assms in simp)

lemma checks_map: "switch_checks k \<Longrightarrow> toKillSwitch k = Some k"
  by (simp add: switch_checks_def toKillSwitch_def)

lemma toKillSwitch_Some: "toKillSwitch k = Some l \<Longrightarrow> l = k"
  by (auto simp: toKillSwitch_def split: if_splits)

text \<open>What an accepted write does: exactly the row read at the expected version moves, and its ledger grows by one entry.\<close>

lemma store_operate_Inr:
  assumes "store_operate down now q w = (Inr k, w')" "distinct (map ks_id (kw_switches w))"
  shows "\<exists>old \<in> set (kw_switches w). ks_id old = so_id q \<and> ks_version old = so_expectedVersion q
    \<and> k = operated q now old \<and> switch_checks k \<and> so_expiresAt q \<noteq> Some NotWhole
    \<and> kw_switches w' = map (\<lambda>x. if x = old then operated q now x else x) (kw_switches w)
    \<and> kw_history w' = kw_history w @ [history_of k] \<and> kw_audit w' = kw_audit w"
proof -
  define hit where "hit = (\<lambda>k :: kill_switch. ks_id k = so_id q \<and> ks_version k = so_expectedVersion q)"
  define news where "news = map (operated q now) (filter hit (kw_switches w))"
  have guards: "\<not> down" "so_expiresAt q \<noteq> Some NotWhole" "list_all switch_checks news"
    using assms(1) by (auto simp: store_operate_def Let_def news_def hit_def list_all_iff list_ex_iff split: if_splits)
  have some: "filter hit (kw_switches w) \<noteq> []"
    using assms(1) by (auto simp: store_operate_def Let_def update_many_def hit_def split: if_splits)
  then obtain old where old: "old \<in> set (kw_switches w)" "hit old" by (auto simp: filter_empty_conv)
  have only: "x = old" if "x \<in> set (kw_switches w)" "hit x" for x
    using switch_unique [OF assms(2) that(1) old(1)] that(2) old(2) by (simp add: hit_def)
  have filt: "filter hit (kw_switches w) = [old]"
  proof -
    have "distinct (filter hit (kw_switches w))" using assms(2) by (simp add: distinct_map)
    moreover have "x \<in> set (filter hit (kw_switches w)) \<longleftrightarrow> x \<in> {old}" for x
      using only [of x] old by (cases "x = old") auto
    then have "set (filter hit (kw_switches w)) = {old}" by blast
    ultimately show ?thesis by (rule distinct_set_single)
  qed
  have news: "news = [operated q now old]" by (simp add: news_def filt)
  have rows: "snd (update_many hit (operated q now) (kw_switches w))
      = map (\<lambda>x. if x = old then operated q now x else x) (kw_switches w)"
    unfolding update_many_def snd_conv by (rule map_cong [OF refl]) (use only old(2) in metis)
  have run: "k = the (toKillSwitch (the (find_first (\<lambda>k. ks_id k = so_id q) stored_order (kw_switches w'))))"
    "kw_switches w' = snd (update_many hit (operated q now) (kw_switches w))"
    "kw_history w' = kw_history w @ map history_of news" "kw_audit w' = kw_audit w"
    "find_first (\<lambda>k. ks_id k = so_id q) stored_order (kw_switches w') \<noteq> None"
    "toKillSwitch (the (find_first (\<lambda>k. ks_id k = so_id q) stored_order (kw_switches w'))) \<noteq> None"
    using assms(1) unfolding store_operate_def Let_def hit_def [symmetric] news_def [symmetric]
    by (auto simp: split_beta split: if_splits option.splits)
  have new: "operated q now old \<in> set (kw_switches w')" using old(1) by (auto simp: run(2) rows)
  have "find_first (\<lambda>k. ks_id k = so_id q) stored_order (kw_switches w') = Some (operated q now old)"
  proof (rule find_first_unique [OF new])
    show "ks_id (operated q now old) = so_id q" using old(2) by (simp add: operated_def hit_def)
    fix x assume x: "x \<in> set (kw_switches w')" "ks_id x = so_id q"
    then obtain y where y: "y \<in> set (kw_switches w)" "x = (if y = old then operated q now y else y)"
      by (auto simp: run(2) rows)
    have "ks_id y = ks_id old" using x(2) y(2) old(2) by (auto simp: operated_def hit_def split: if_splits)
    then show "x = operated q now old" using switch_unique [OF assms(2) y(1) old(1)] y(2) by simp
  qed
  then have "k = operated q now old" using run(1,6) toKillSwitch_Some by fastforce
  then show ?thesis using old run(2-4) rows news guards
    by (intro bexI [OF _ old(1)]) (simp add: hit_def)
qed

lemma store_operate_Inl: "store_operate down now q w = (Inl e, w') \<Longrightarrow> w' = w"
  by (auto simp: store_operate_def Let_def split: if_splits prod.splits option.splits)

lemma store_operate_wf:
  assumes "store_operate down now q w = (r, w')" "switches_wf w"
  shows "switches_wf w'"
proof (cases r)
  case (Inl e)
  then show ?thesis using store_operate_Inl [of down now q w e w'] assms by simp
next
  case (Inr k)
  have d: "distinct (map ks_id (kw_switches w))" using assms(2) by (simp add: switches_wf_def)
  obtain old where o: "old \<in> set (kw_switches w)" "ks_version old = so_expectedVersion q" "k = operated q now old" "switch_checks k"
    and rows: "kw_switches w' = map (\<lambda>x. if x = old then operated q now x else x) (kw_switches w)"
    and hist: "kw_history w' = kw_history w @ [history_of k]"
    using store_operate_Inr [OF assms(1) [unfolded Inr] d] by blast
  have ids: "map ks_id (kw_switches w') = map ks_id (kw_switches w)" by (simp add: rows operated_def)
  have keep: "ledger (kw_history w') x" if "x \<in> set (kw_switches w)" "x \<noteq> old" for x
  proof -
    have "ks_id x \<noteq> ks_id old" using switch_unique [OF d that(1) o(1)] that(2) by blast
    then have "entries_of (ks_id x) (kw_history w') = entries_of (ks_id x) (kw_history w)"
      by (simp add: entries_of_def hist history_of_def o(3) operated_def)
    then show ?thesis using assms(2) that(1) by (simp add: switches_wf_def list_all_iff ledger_def)
  qed
  have move: "ledger (kw_history w') k"
  proof -
    have l: "ledger (kw_history w) old" "switch_checks old" using assms(2) o(1) by (simp_all add: switches_wf_def list_all_iff)
    have e: "entries_of (ks_id k) (kw_history w') = entries_of (ks_id old) (kw_history w) @ [history_of k]"
      by (simp add: entries_of_def hist history_of_def o(3) operated_def)
    have v: "ks_version k = ks_version old + 1" using o(2,3) by (simp add: operated_def)
    have "1 \<le> ks_version old" using l(2) by (simp add: switch_checks_def)
    then have "[1..ks_version k] = [1..ks_version old] @ [ks_version k]" using v upto_rec2 [of 1 "ks_version k"] by simp
    then show ?thesis using l(1) by (simp add: ledger_def e history_of_def)
  qed
  have "switch_checks x \<and> ledger (kw_history w') x" if "x \<in> set (kw_switches w')" for x
    using that assms(2) keep move o(3,4) by (auto simp: rows switches_wf_def list_all_iff)
  then show ?thesis using assms(2) ids unfolding switches_wf_def list_all_iff by metis
qed

section \<open>Steps\<close>

lemma record_switch_keeps:
  "record_switch_audit d e w = (r, w') \<Longrightarrow> kw_switches w' = kw_switches w \<and> kw_history w' = kw_history w"
  by (auto simp: record_switch_audit_def split: prod.splits sum.splits)

lemma wf_cong: "kw_switches w = kw_switches v \<Longrightarrow> kw_history w = kw_history v \<Longrightarrow> switches_wf w = switches_wf v"
  by (simp add: switches_wf_def)

text \<open>The table and the ledger after the use case: as before, or as one accepted write of the store left them.\<close>

definition operation_of :: "switch_deps \<Rightarrow> operate_input \<Rightarrow> js_number option \<Rightarrow> policy_actor \<Rightarrow> kill_switch \<Rightarrow> switch_operation" where
  "operation_of d i expiresAt a current =
     \<lparr>so_id = oi_switchId i, so_state = (if oi_action i = ''ACTIVATE'' then ''ACTIVE_RESTRICTION'' else ''INACTIVE''),
      so_reason = js_trim (oi_reason i), so_actor = ''user:'' @ pa_userId a, so_expectedVersion = ks_version current,
      so_effectiveFrom = sd_now d, so_expiresAt = (if oi_action i = ''ACTIVATE'' then expiresAt else None)\<rparr>"

lemma read_for_operation_state: "read_for_operation d i w = (r, w') \<Longrightarrow> w' = w"
  by (auto simp: read_for_operation_def split: sum.splits option.splits)

lemma operate_shape:
  assumes "operateKillSwitch d i actor w = (r, w')"
  shows "kw_switches w' = kw_switches w \<and> kw_history w' = kw_history w \<and> (\<exists>e. r = Inl e)
    \<or> (\<exists>a expiresAt current role k v. actor = Some a \<and> isUuid (pa_userId a) \<and> check_operate_input i (sd_now d) = Inr expiresAt
        \<and> sd_policy d (Some a) OPERATE_KILL_SWITCH = POLICY_ALLOWED role
        \<and> store_operate (sd_down d OPERATE_SWITCH) (sd_now d) (operation_of d i expiresAt a current) w = (Inr k, v)
        \<and> kw_switches w' = kw_switches v \<and> kw_history w' = kw_history v
        \<and> (\<forall>y. r = Inr y \<longrightarrow> fst y = k))"
proof (cases "\<exists>a expiresAt role. actor = Some a \<and> isUuid (pa_userId a) \<and> check_operate_input i (sd_now d) = Inr expiresAt
    \<and> sd_policy d (Some a) OPERATE_KILL_SWITCH = POLICY_ALLOWED role")
  case False
  then show ?thesis using assms
    by (auto simp: operateKillSwitch_def thenE_def split: option.splits if_splits sum.splits prod.splits authz_decision.splits
        dest: record_switch_keeps)
next
  case True
  then obtain a expiresAt role where a: "actor = Some a" "isUuid (pa_userId a)" "check_operate_input i (sd_now d) = Inr expiresAt"
    "sd_policy d (Some a) OPERATE_KILL_SWITCH = POLICY_ALLOWED role" by blast
  obtain s w1 where rd: "read_for_operation d (oi_switchId i) w = (s, w1)" by (cases "read_for_operation d (oi_switchId i) w")
  have w1: "w1 = w" using read_for_operation_state [OF rd] .
  show ?thesis
  proof (cases s)
    case (Inl e)
    then show ?thesis using assms a rd w1 by (auto simp: operateKillSwitch_def thenE_def)
  next
    case (Inr current)
    let ?q = "operation_of d i expiresAt a current"
    obtain t v where st: "store_operate (sd_down d OPERATE_SWITCH) (sd_now d) ?q w = (t, v)"
      by (cases "store_operate (sd_down d OPERATE_SWITCH) (sd_now d) ?q w")
    show ?thesis
    proof (cases t)
      case t: (Inl e)
      have "v = w" using store_operate_Inl st t by blast
      then show ?thesis using assms a rd w1 Inr st t
        by (auto simp: operateKillSwitch_def thenE_def operate_read_def operation_of_def)
    next
      case t: (Inr k)
      obtain u w2 where rec: "record_switch_audit d (switch_entry d a ''SUCCESS'' i (js_trim (oi_reason i)) (Some k)) v = (u, w2)"
        by (cases "record_switch_audit d (switch_entry d a ''SUCCESS'' i (js_trim (oi_reason i)) (Some k)) v")
      have "w' = w2" "\<forall>y. r = Inr y \<longrightarrow> fst y = k"
        using assms a rd w1 Inr st t rec
        by (auto simp: operateKillSwitch_def thenE_def operate_read_def operation_of_def split: sum.splits)
      then show ?thesis using a st t record_switch_keeps [OF rec] by blast
    qed
  qed
qed

text \<open>Steps: whole executions of the use case, and single writes of the store, so that other operators may act between the read
  and the write of an execution.\<close>

inductive switch_step :: "switch_world \<Rightarrow> switch_world \<Rightarrow> bool" where
  switch_write: "switch_step w (snd (store_operate down now q w))"
| switch_execute: "switch_step w (snd (operateKillSwitch d i actor w))"

lemma step_switches_wf:
  assumes "switch_step w w'" "switches_wf w"
  shows "switches_wf w' \<and> (\<exists>more. kw_history w' = kw_history w @ more)"
  using assms
proof cases
  case (switch_write down now q)
  obtain r v where r: "store_operate down now q w = (r, v)" by (cases "store_operate down now q w")
  have d: "distinct (map ks_id (kw_switches w))" using assms(2) by (simp add: switches_wf_def)
  have "\<exists>more. kw_history v = kw_history w @ more"
  proof (cases r)
    case (Inl e) then show ?thesis using store_operate_Inl [of down now q w e v] r by simp
  next
    case (Inr k) then show ?thesis using store_operate_Inr [OF r [unfolded Inr] d] by blast
  qed
  then show ?thesis using store_operate_wf [OF r assms(2)] switch_write r by simp
next
  case (switch_execute d i actor)
  obtain r v where r: "operateKillSwitch d i actor w = (r, v)" by (cases "operateKillSwitch d i actor w")
  have dist: "distinct (map ks_id (kw_switches w))" using assms(2) by (simp add: switches_wf_def)
  from operate_shape [OF r] show ?thesis
  proof (elim disjE exE conjE)
    assume "kw_switches v = kw_switches w" "kw_history v = kw_history w"
    then show ?thesis using switch_execute r wf_cong assms(2) by (metis append_Nil2 snd_conv)
  next
    fix a expiresAt current k u
    assume s: "store_operate (sd_down d OPERATE_SWITCH) (sd_now d) (operation_of d i expiresAt a current) w = (Inr k, u)"
      and e: "kw_switches v = kw_switches u" "kw_history v = kw_history u"
    show ?thesis using store_operate_wf [OF s assms(2)] store_operate_Inr [OF s dist] e wf_cong switch_execute r
      by (metis snd_conv)
  qed
qed

lemma steps_switches_wf:
  "switch_step\<^sup>*\<^sup>* w w' \<Longrightarrow> switches_wf w \<Longrightarrow> switches_wf w' \<and> (\<exists>more. kw_history w' = kw_history w @ more)"
proof (induction rule: rtranclp_induct)
  case (step y z)
  then show ?case using step_switches_wf [OF step.hyps(2)] by (metis append.assoc)
qed auto

section \<open>Properties\<close>

definition seeded_switches :: switch_world where
  "seeded_switches = \<lparr>kw_switches = map (\<lambda>i. \<lparr>ks_id = i, ks_state = ''INACTIVE'', ks_scope = ''GLOBAL'', ks_reason = ''seeded'',
       ks_actor = ''migration'', ks_version = 1, ks_effectiveFrom = 0, ks_expiresAt = None, ks_updatedAt = 0\<rparr>) KILL_SWITCH_IDS,
     kw_history = map (\<lambda>i. \<lparr>sh_switchId = i, sh_state = ''INACTIVE'', sh_reason = ''seeded'', sh_actor = ''migration'',
       sh_version = 1, sh_effectiveFrom = 0, sh_expiresAt = None\<rparr>) KILL_SWITCH_IDS, kw_audit = []\<rparr>"

lemma seeded_wf: "switches_wf seeded_switches"
proof -
  have "distinct (map ks_id (kw_switches seeded_switches)) \<and> list_all switch_checks (kw_switches seeded_switches)" by code_simp
  moreover have "list_all (ledger (kw_history seeded_switches)) (kw_switches seeded_switches)" by code_simp
  ultimately show ?thesis by (simp add: switches_wf_def)
qed

definition operator_deps :: switch_deps where
  "operator_deps = \<lparr>sd_down = (\<lambda>c. False), sd_now = 10,
     sd_policy = rbac_authorize False 10 (aw_rows staff_world), sd_audit = sample_audit_deps, sd_iso = (\<lambda>t. ''t'')\<rparr>"

definition stop_logins :: operate_input where
  "stop_logins = \<lparr>oi_switchId = ''PASSWORD_LOGIN'', oi_action = ''ACTIVATE'', oi_reason = '' incident '', oi_expiresAt = Some (Whole 20)\<rparr>"

text \<open>
  However operators interleave, the store stays well-formed: each switch's ledger holds exactly one entry for every
  version from 1 to the current one, in order, ending in the row's state, and no entry is ever changed or removed.
  Of two operators who read the same version at most one write applies; the other is told of the conflict and changes nothing.
\<close>

theorem kill_switch_ledger_is_complete:
  assumes "switches_wf w"
  shows "(switch_step\<^sup>*\<^sup>* w w' \<longrightarrow> switches_wf w' \<and> (\<exists>more. kw_history w' = kw_history w @ more))
    \<and> (store_operate False t p w = (Inr k, v) \<and> so_id q = so_id p \<and> so_expectedVersion q = so_expectedVersion p
        \<and> so_expiresAt q \<noteq> Some NotWhole
        \<longrightarrow> store_operate False u q v = (Inl SWITCH_CONFLICT, v))"
proof (intro conjI impI)
  assume "switch_step\<^sup>*\<^sup>* w w'"
  then show "switches_wf w'" "\<exists>more. kw_history w' = kw_history w @ more"
    using steps_switches_wf assms by blast+
next
  assume a: "store_operate False t p w = (Inr k, v) \<and> so_id q = so_id p \<and> so_expectedVersion q = so_expectedVersion p
        \<and> so_expiresAt q \<noteq> Some NotWhole"
  have d: "distinct (map ks_id (kw_switches w))" using assms by (simp add: switches_wf_def)
  have run: "store_operate False t p w = (Inr k, v)" using a by blast
  obtain old where o: "old \<in> set (kw_switches w)" "ks_id old = so_id p" "ks_version old = so_expectedVersion p" "k = operated p t old"
    "kw_switches v = map (\<lambda>x. if x = old then operated p t x else x) (kw_switches w)"
    using store_operate_Inr [OF run d] by blast
  have none: "\<not> (ks_id x = so_id q \<and> ks_version x = so_expectedVersion q)" if m: "x \<in> set (kw_switches v)" for x
  proof
    assume x: "ks_id x = so_id q \<and> ks_version x = so_expectedVersion q"
    obtain y where y: "y \<in> set (kw_switches w)" "x = (if y = old then operated p t y else y)" using m o(5) by auto
    have "ks_id y = ks_id old" using x y(2) o(2) a by (auto simp: operated_def split: if_splits)
    then have "y = old" using switch_unique [OF d y(1) o(1)] by blast
    then show False using x y(2) a by (simp add: operated_def)
  qed
  have "k \<in> set (kw_switches v)" "ks_id k = so_id q" using o a by (auto simp: operated_def)
  then have found: "find_first (\<lambda>k. ks_id k = so_id q) stored_order (kw_switches v) \<noteq> None"
    unfolding find_first_None by blast
  have f: "filter (\<lambda>k. ks_id k = so_id q \<and> ks_version k = so_expectedVersion q) (kw_switches v) = []"
    using none by (simp add: filter_empty_conv)
  show "store_operate False u q v = (Inl SWITCH_CONFLICT, v)"
  proof -
    have "so_expiresAt q \<noteq> Some NotWhole" using a by blast
    then show ?thesis using found by (simp add: store_operate_def Let_def f update_many_def)
  qed
qed

theorem kill_switch_ledger_is_complete_witness:
  "switches_wf (snd (operateKillSwitch operator_deps stop_logins (Some operator_actor) seeded_switches))
   \<and> length (kw_history (snd (operateKillSwitch operator_deps stop_logins (Some operator_actor) seeded_switches))) = 5"
proof -
  have "switch_step\<^sup>*\<^sup>* seeded_switches (snd (operateKillSwitch operator_deps stop_logins (Some operator_actor) seeded_switches))"
    by (rule r_into_rtranclp) (rule switch_execute)
  moreover have "length (kw_history (snd (operateKillSwitch operator_deps stop_logins (Some operator_actor) seeded_switches))) = 5"
    by code_simp
  ultimately show ?thesis using kill_switch_ledger_is_complete [OF seeded_wf] by blast
qed

text \<open>
  C30: A kill switch restricts exactly as it was last operated, and nothing else: after an accepted operation the check of that switch
  denies precisely while an activation has not expired, the checks of the other switches answer as before, an
  unreadable store denies, and whoever operated it held an assignment in force granting the permission, which only OPERATOR does.
\<close>

theorem kill_switch_restricts_exactly:
  assumes "switches_wf w" "operateKillSwitch d i actor w = (Inr (k, failure), w')"
    and policy: "sd_policy d = rbac_authorize down (sd_now d) rows"
  shows "assertOperationAllowed False t (kw_switches w') (oi_switchId i)
      = (if oi_action i = ''ACTIVATE'' \<and> (case oi_expiresAt i of Some (Whole e) \<Rightarrow> t < e | _ \<Rightarrow> True)
         then Inl (OPERATION_RESTRICTED (oi_switchId i) (js_trim (oi_reason i))) else Inr ())
    \<and> (\<forall>j. j \<noteq> oi_switchId i \<longrightarrow>
         assertOperationAllowed False t (kw_switches w') j = assertOperationAllowed False t (kw_switches w) j)
    \<and> (\<forall>j. assertOperationAllowed True t (kw_switches w') j = Inl (DEPENDENCY_UNAVAILABLE j))
    \<and> (\<exists>a r. actor = Some a \<and> holds_grant rows a (sd_now d) OPERATE_KILL_SWITCH r \<and> ra_roleId r = ''OPERATOR'')"
proof -
  have d: "distinct (map ks_id (kw_switches w))" using assms(1) by (simp add: switches_wf_def)
  obtain a expiresAt current role v where a: "actor = Some a" "check_operate_input i (sd_now d) = Inr expiresAt"
    "sd_policy d (Some a) OPERATE_KILL_SWITCH = POLICY_ALLOWED role"
    and st: "store_operate (sd_down d OPERATE_SWITCH) (sd_now d) (operation_of d i expiresAt a current) w = (Inr k, v)"
    and v: "kw_switches w' = kw_switches v"
    using operate_shape [OF assms(2)] by auto
  let ?q = "operation_of d i expiresAt a current"
  obtain old where o: "old \<in> set (kw_switches w)" "ks_id old = oi_switchId i" "k = operated ?q (sd_now d) old" "switch_checks k"
    "so_expiresAt ?q \<noteq> Some NotWhole"
    and rows': "kw_switches v = map (\<lambda>x. if x = old then operated ?q (sd_now d) x else x) (kw_switches w)"
    using store_operate_Inr [OF st d] by (auto simp: operation_of_def)
  have same: "x = old" if "x \<in> set (kw_switches w)" "ks_id x = oi_switchId i" for x
    using switch_unique [OF d that(1) o(1)] that(2) o(2) by simp
  have fk: "find_first (\<lambda>r. ks_id r = oi_switchId i) stored_order (kw_switches w') = Some k"
  proof (rule find_first_unique)
    show "k \<in> set (kw_switches w')" using o(1,3) by (auto simp: v rows')
    show "ks_id k = oi_switchId i" using o(2,3) by (simp add: operated_def)
    fix x assume x: "x \<in> set (kw_switches w')" "ks_id x = oi_switchId i"
    then obtain y where y: "y \<in> set (kw_switches w)" "x = (if y = old then operated ?q (sd_now d) y else y)"
      by (auto simp: v rows')
    have "ks_id y = oi_switchId i" using x(2) y(2) by (auto simp: operated_def split: if_splits)
    then show "x = k" using same [OF y(1)] y(2) o(3) by simp
  qed
  have inputs: "expiresAt = oi_expiresAt i" "oi_action i = ''ACTIVATE'' \<or> oi_action i = ''DEACTIVATE'' \<and> oi_expiresAt i = None"
    using a(2) by (auto simp: check_operate_input_def split: if_splits option.splits)
  have vals: "ks_state k = (if oi_action i = ''ACTIVATE'' then ''ACTIVE_RESTRICTION'' else ''INACTIVE'')"
    "ks_reason k = js_trim (oi_reason i)"
    "ks_expiresAt k = date_value (if oi_action i = ''ACTIVATE'' then oi_expiresAt i else None)"
    "oi_action i = ''ACTIVATE'' \<longrightarrow> oi_expiresAt i \<noteq> Some NotWhole"
    using o(3,5) inputs by (auto simp: operated_def operation_of_def)
  have this_switch: "assertOperationAllowed False t (kw_switches w') (oi_switchId i)
      = (if oi_action i = ''ACTIVATE'' \<and> (case oi_expiresAt i of Some (Whole e) \<Rightarrow> t < e | _ \<Rightarrow> True)
         then Inl (OPERATION_RESTRICTED (oi_switchId i) (js_trim (oi_reason i))) else Inr ())"
    using vals inputs(2)
    by (auto simp: assertOperationAllowed_def store_read_def fk checks_map [OF o(4)] evaluateKillSwitch_def date_value_def
        split: option.splits js_number.splits)
  have others: "find_first (\<lambda>r. ks_id r = j) stored_order (kw_switches w') = find_first (\<lambda>r. ks_id r = j) stored_order (kw_switches w)"
    if j: "j \<noteq> oi_switchId i" for j
  proof -
    have "filter (\<lambda>r. ks_id r = j) (map (\<lambda>x. if x = old then operated ?q (sd_now d) x else x) xs) = filter (\<lambda>r. ks_id r = j) xs" for xs
      using j o(2) by (induction xs) (auto simp: operated_def)
    then show ?thesis by (simp add: find_first_def v rows')
  qed
  obtain b r where b: "requirePolicyActor (Some a) = Some b" "holds_grant rows b (sd_now d) OPERATE_KILL_SWITCH r"
    using allowed_grant [OF a(3) [unfolded policy]] by blast
  have r: "holds_grant rows a (sd_now d) OPERATE_KILL_SWITCH r" using requirePolicyActor_Some [OF b(1)] b(2) by blast
  have "ra_roleId r = ''OPERATOR''"
    using r by (auto simp: holds_grant_def OPERATE_KILL_SWITCH_def permissionsGrantedTo_def ROLE_PERMISSION_GRANTS_def split: if_splits)
  then show ?thesis using this_switch others r a(1)
    by (auto simp: assertOperationAllowed_def store_read_def)
qed

theorem kill_switch_restricts_exactly_witness:
  "(let w' = snd (operateKillSwitch operator_deps stop_logins (Some operator_actor) seeded_switches)
    in assertOperationAllowed False 15 (kw_switches w') ''PASSWORD_LOGIN'' = Inl (OPERATION_RESTRICTED ''PASSWORD_LOGIN'' ''incident'')
     \<and> assertOperationAllowed False 20 (kw_switches w') ''PASSWORD_LOGIN'' = Inr ())"
proof -
  let ?run = "operateKillSwitch operator_deps stop_logins (Some operator_actor) seeded_switches"
  have ok: "result_isOk (fst ?run)" by code_simp
  obtain k f w' where run: "?run = (Inr (k, f), w')" using ok by (cases ?run; cases "fst ?run") auto
  have policy: "sd_policy operator_deps = rbac_authorize False (sd_now operator_deps) (aw_rows staff_world)"
    by (simp add: operator_deps_def)
  have "js_trim '' incident '' = ''incident''" by code_simp
  then have "assertOperationAllowed False 15 (kw_switches w') ''PASSWORD_LOGIN'' = Inl (OPERATION_RESTRICTED ''PASSWORD_LOGIN'' ''incident'')"
    "assertOperationAllowed False 20 (kw_switches w') ''PASSWORD_LOGIN'' = Inr ()"
    using kill_switch_restricts_exactly [OF seeded_wf run policy, of 15] kill_switch_restricts_exactly [OF seeded_wf run policy, of 20]
    by (simp_all add: stop_logins_def)
  then show ?thesis by (simp add: run)
qed

end
