(* ===== verification/Tenancy_Store.thy ===== *)
theory Tenancy_Store
  imports Kill_Switch Identity_Sessions
begin

text \<open>
  Tenancy (\<open>modules/tenancy\<close>), the lower half: the domain types and rules of \<open>domain/tenancy.ts\<close>, the row-level policies and
  constraints of migrations 0041 to 0044, 0080 and 0081, and the three Prisma repositories.  A repository call returns
  \<open>None\<close> when it throws: the context is refused, the store is down, a policy or constraint rejects the
  statement, or a row does not map.  A write returns the new rows with its answer.
\<close>

section \<open>Domain\<close>

definition TENANT_TYPES :: "string list" where
  "TENANT_TYPES = [''FIRST_PARTY'', ''WHITE_LABEL'', ''INTERNAL'']"

definition TENANT_STATUSES :: "string list" where
  "TENANT_STATUSES = [''ACTIVE'', ''SUSPENDED'', ''CLOSED'']"

definition MEMBERSHIP_STATES :: "string list" where
  "MEMBERSHIP_STATES = [''INVITED'', ''ACTIVE'', ''SUSPENDED'', ''REMOVED'']"

record tenant =
  tn_id :: string
  tn_type :: string
  tn_name :: string
  tn_status :: string
  tn_defaultOperatingEntityId :: "string option"
  tn_createdAt :: millis
  tn_updatedAt :: millis

record tenant_membership =
  tm_id :: string
  tm_tenantId :: string
  tm_userId :: string
  tm_roleHint :: string
  tm_state :: string
  tm_effectiveFrom :: millis
  tm_effectiveTo :: "millis option"
  tm_createdAt :: millis
  tm_updatedAt :: millis

record tenant_invitation =
  ti_id :: string
  ti_tenantId :: string
  ti_email :: string
  ti_roleHint :: string
  ti_expiresAt :: millis
  ti_redeemedAt :: "millis option"
  ti_redeemedBy :: "string option"
  ti_revokedAt :: "millis option"
  ti_attempts :: int
  ti_maxAttempts :: int
  ti_createdBy :: string
  ti_createdAt :: millis
  ti_updatedAt :: millis

text \<open>The row also holds the hash of the token, which the domain object leaves out.\<close>

record invitation_row = tenant_invitation +
  ir_tokenHash :: string

definition normalizeInvitationEmail :: "string \<Rightarrow> string" where
  "normalizeInvitationEmail raw = js_lower (js_trim raw)"

definition email_char :: "char \<Rightarrow> bool" where
  "email_char c \<longleftrightarrow> \<not> is_ws c \<and> c \<noteq> CHR ''@''"

definition run_of :: "(char \<Rightarrow> bool) \<Rightarrow> nat \<Rightarrow> nat \<Rightarrow> string \<Rightarrow> bool" where
  "run_of ok lo hi s \<longleftrightarrow> lo \<le> length s \<and> length s \<le> hi \<and> list_all ok s"

text \<open>\<open>EMAIL_SHAPE\<close>: a local part, an at sign, and a domain with a dot between two parts that may hold dots themselves.\<close>

definition EMAIL_SHAPE :: "string \<Rightarrow> bool" where
  "EMAIL_SHAPE s \<longleftrightarrow>
     (let local' = takeWhile (\<lambda>c. c \<noteq> CHR ''@'') s; rest = dropWhile (\<lambda>c. c \<noteq> CHR ''@'') s; dom' = tl rest
      in run_of email_char 1 64 local' \<and> rest \<noteq> []
         \<and> list_ex (\<lambda>k. dom' ! k = CHR ''.'' \<and> run_of email_char 1 255 (take k dom') \<and> run_of email_char 2 24 (drop (k + 1) dom'))
             [0..<length dom'])"

definition isValidInvitationEmail :: "string \<Rightarrow> bool" where
  "isValidInvitationEmail normalized \<longleftrightarrow> length normalized \<le> 320 \<and> EMAIL_SHAPE normalized"

definition isValidRoleHint :: "string \<Rightarrow> bool" where
  "isValidRoleHint v \<longleftrightarrow> v \<noteq> [] \<and> is_upper_ascii (hd v) \<and> run_of (\<lambda>c. is_upper_ascii c \<or> c = CHR ''_'') 0 39 (tl v)"

datatype redemption_denial =
  REDEEM_REVOKED | REDEEM_ALREADY_REDEEMED | REDEEM_EXPIRED | REDEEM_ATTEMPTS_EXHAUSTED | REDEEM_EMAIL_MISMATCH

fun redemption_denial_text :: "redemption_denial \<Rightarrow> string" where
  "redemption_denial_text REDEEM_REVOKED = ''revoked''"
| "redemption_denial_text REDEEM_ALREADY_REDEEMED = ''already_redeemed''"
| "redemption_denial_text REDEEM_EXPIRED = ''expired''"
| "redemption_denial_text REDEEM_ATTEMPTS_EXHAUSTED = ''attempts_exhausted''"
| "redemption_denial_text REDEEM_EMAIL_MISMATCH = ''email_mismatch''"

definition evaluateRedeemability ::
  "tenant_invitation \<Rightarrow> millis \<Rightarrow> string option \<Rightarrow> (redemption_denial, unit) outcome" where
  "evaluateRedeemability i at redeemerEmail =
     (if ti_revokedAt i \<noteq> None then Inl REDEEM_REVOKED
      else if ti_redeemedAt i \<noteq> None then Inl REDEEM_ALREADY_REDEEMED
      else if ti_expiresAt i \<le> at then Inl REDEEM_EXPIRED
      else if ti_attempts i \<ge> ti_maxAttempts i then Inl REDEEM_ATTEMPTS_EXHAUSTED
      else if (case redeemerEmail of None \<Rightarrow> True | Some e \<Rightarrow> normalizeInvitationEmail e \<noteq> ti_email i)
        then Inl REDEEM_EMAIL_MISMATCH
      else Inr ())"

definition membershipActiveAt :: "tenant_membership \<Rightarrow> millis \<Rightarrow> bool" where
  "membershipActiveAt m at \<longleftrightarrow>
     (if tm_state m \<noteq> ''ACTIVE'' then False
      else if tm_effectiveFrom m > at then False
      else if (case tm_effectiveTo m of None \<Rightarrow> False | Some t \<Rightarrow> t \<le> at) then False
      else True)"

section \<open>Rows and policies\<close>

definition toTenant :: "tenant \<Rightarrow> tenant option" where
  "toTenant row = (if \<not> isUuid (tn_id row) \<or> tn_type row \<notin> set TENANT_TYPES \<or> tn_status row \<notin> set TENANT_STATUSES
     then None else Some row)"

definition toMembership :: "tenant_membership \<Rightarrow> tenant_membership option" where
  "toMembership row = (if \<not> isUuid (tm_tenantId row) \<or> \<not> isUuid (tm_userId row) \<or> tm_state row \<notin> set MEMBERSHIP_STATES
     then None else Some row)"

definition toInvitation :: "invitation_row \<Rightarrow> tenant_invitation option" where
  "toInvitation row = (if \<not> isUuid (ti_tenantId row) \<or> \<not> isUuid (ti_createdBy row)
       \<or> (case ti_redeemedBy row of None \<Rightarrow> False | Some u \<Rightarrow> \<not> isUuid u)
     then None else Some (tenant_invitation.truncate row))"

record tenancy_world =
  tw_tenants :: "tenant list"
  tw_members :: "tenant_membership list"
  tw_invitations :: "invitation_row list"
  tw_audit :: "audit_event list"

definition tenant_visible :: "bound_values \<Rightarrow> tenant_membership list \<Rightarrow> tenant \<Rightarrow> bool" where
  "tenant_visible v members t \<longleftrightarrow> bound_tenant v = Some (tn_id t)
     \<or> list_ex (\<lambda>m. tm_tenantId m = tn_id t \<and> bound_user v = Some (tm_userId m) \<and> tm_state m = ''ACTIVE'') members"

definition member_visible :: "bound_values \<Rightarrow> tenant_membership \<Rightarrow> bool" where
  "member_visible v m \<longleftrightarrow> bound_tenant v = Some (tm_tenantId m) \<or> bound_user v = Some (tm_userId m)"

definition member_insert_allowed :: "bound_values \<Rightarrow> tenant_membership \<Rightarrow> bool" where
  "member_insert_allowed v m \<longleftrightarrow> bound_tenant v = Some (tm_tenantId m) \<and> bound_user v = Some (tm_userId m)"

text \<open>\<open>hash\<close> is the setting \<open>app.invitation_token_hash\<close>, empty outside the redeemer's context.\<close>

definition invitation_visible :: "bound_values \<Rightarrow> string \<Rightarrow> invitation_row \<Rightarrow> bool" where
  "invitation_visible v hash i \<longleftrightarrow> bound_tenant v = Some (ti_tenantId i) \<or> nullif_empty (Some hash) = Some (ir_tokenHash i)"

definition invitation_insert_allowed :: "bound_values \<Rightarrow> invitation_row \<Rightarrow> bool" where
  "invitation_insert_allowed v i \<longleftrightarrow> bound_tenant v = Some (ti_tenantId i) \<and> bound_user v = Some (ti_createdBy i)"

definition member_checks :: "tenant list \<Rightarrow> tenant_membership \<Rightarrow> bool" where
  "member_checks tenants m \<longleftrightarrow> list_ex (\<lambda>t. tn_id t = tm_tenantId m) tenants \<and> tm_state m \<in> set MEMBERSHIP_STATES"

definition member_conflicts :: "tenant_membership \<Rightarrow> tenant_membership \<Rightarrow> bool" where
  "member_conflicts a b \<longleftrightarrow> tm_id a = tm_id b \<or> tm_tenantId a = tm_tenantId b \<and> tm_userId a = tm_userId b"

text \<open>A text column admits no NUL character; the counters are of type \<open>integer\<close>.\<close>

definition invitation_checks :: "tenant list \<Rightarrow> invitation_row \<Rightarrow> bool" where
  "invitation_checks tenants i \<longleftrightarrow> list_ex (\<lambda>t. tn_id t = ti_tenantId i) tenants \<and> CHR 0x00 \<notin> set (ti_email i)
     \<and> 0 \<le> ti_attempts i \<and> ti_attempts i \<le> MAX_INTEGER \<and> 0 < ti_maxAttempts i \<and> ti_maxAttempts i \<le> MAX_INTEGER"

definition invitation_conflicts :: "invitation_row \<Rightarrow> invitation_row \<Rightarrow> bool" where
  "invitation_conflicts a b \<longleftrightarrow> ti_id a = ti_id b \<or> ir_tokenHash a = ir_tokenHash b"

section \<open>Contexts\<close>

definition in_context ::
  "principal_context \<Rightarrow> context_key list \<Rightarrow> bool \<Rightarrow> (bound_values \<Rightarrow> 'a option) \<Rightarrow> 'a option" where
  "in_context c require down body = (case validateContext c require of
     Inl e \<Rightarrow> None
   | Inr v \<Rightarrow> if down then None else body v)"

definition tenant_keys :: "context_key list" where
  "tenant_keys = [TenantIdKey, UserIdKey]"

text \<open>The self and redeemer contexts bind no tenant, whatever the actor carries.\<close>

definition self_context :: "policy_actor \<Rightarrow> principal_context" where
  "self_context a = (actor_context a)\<lparr>pc_tenantId := None\<rparr>"

definition mapped_row :: "('r \<Rightarrow> 'a option) \<Rightarrow> 'r option \<Rightarrow> 'a option option" where
  "mapped_row f r = (case r of None \<Rightarrow> Some None | Some row \<Rightarrow> map_option Some (f row))"

definition own_tenant :: "policy_actor \<Rightarrow> string" where
  "own_tenant a = pg_uuid (or_empty (pa_tenantId a))"

definition own_user :: "policy_actor \<Rightarrow> string" where
  "own_user a = pg_uuid (pa_userId a)"

section \<open>PrismaTenantRepository\<close>

definition tenants_findOwn :: "bool \<Rightarrow> policy_actor \<Rightarrow> tenancy_world \<Rightarrow> tenant option option" where
  "tenants_findOwn down a w = in_context (actor_context a) tenant_keys down (\<lambda>v.
     mapped_row toTenant (find_first (\<lambda>t. tenant_visible v (tw_members w) t \<and> tn_id t = own_tenant a) stored_order (tw_tenants w)))"

definition tenants_findForMember :: "bool \<Rightarrow> policy_actor \<Rightarrow> string \<Rightarrow> tenancy_world \<Rightarrow> tenant option option" where
  "tenants_findForMember down a tenantId w = in_context (self_context a) [UserIdKey] down (\<lambda>v.
     mapped_row toTenant (find_first (\<lambda>t. tenant_visible v (tw_members w) t \<and> tn_id t = pg_uuid tenantId) stored_order (tw_tenants w)))"

section \<open>PrismaMembershipRepository\<close>

definition members_findOwn :: "bool \<Rightarrow> policy_actor \<Rightarrow> tenancy_world \<Rightarrow> tenant_membership option option" where
  "members_findOwn down a w = in_context (actor_context a) tenant_keys down (\<lambda>v.
     mapped_row toMembership (find_first (\<lambda>m. member_visible v m \<and> tm_tenantId m = own_tenant a \<and> tm_userId m = own_user a)
       stored_order (tw_members w)))"

definition oldest_member :: "tenant_membership \<Rightarrow> tenant_membership \<Rightarrow> int" where
  "oldest_member a b = tm_createdAt a - tm_createdAt b"

definition members_listForTenant :: "bool \<Rightarrow> policy_actor \<Rightarrow> tenancy_world \<Rightarrow> tenant_membership list option" where
  "members_listForTenant down a w = in_context (actor_context a) tenant_keys down (\<lambda>v.
     map_rows toMembership (find_many (\<lambda>m. member_visible v m \<and> tm_tenantId m = own_tenant a) oldest_member (tw_members w)))"

definition members_listOwnAcrossTenants :: "bool \<Rightarrow> policy_actor \<Rightarrow> tenancy_world \<Rightarrow> tenant_membership list option" where
  "members_listOwnAcrossTenants down a w = in_context (self_context a) [UserIdKey] down (\<lambda>v.
     map_rows toMembership (find_many (\<lambda>m. member_visible v m \<and> tm_userId m = own_user a) oldest_member (tw_members w)))"

definition members_findOwnInTenant ::
  "bool \<Rightarrow> policy_actor \<Rightarrow> string \<Rightarrow> tenancy_world \<Rightarrow> tenant_membership option option" where
  "members_findOwnInTenant down a tenantId w = in_context (self_context a) [UserIdKey] down (\<lambda>v.
     mapped_row toMembership (find_first (\<lambda>m. member_visible v m \<and> tm_tenantId m = pg_uuid tenantId \<and> tm_userId m = own_user a)
       stored_order (tw_members w)))"

definition new_member :: "string \<Rightarrow> string \<Rightarrow> string \<Rightarrow> string \<Rightarrow> millis \<Rightarrow> tenant_membership" where
  "new_member newId tenantId userId roleHint at =
     \<lparr>tm_id = pg_uuid newId, tm_tenantId = pg_uuid tenantId, tm_userId = pg_uuid userId, tm_roleHint = roleHint, tm_state = ''ACTIVE'',
      tm_effectiveFrom = at, tm_effectiveTo = None, tm_createdAt = at, tm_updatedAt = at\<rparr>"

definition insert_member :: "bound_values \<Rightarrow> tenant list \<Rightarrow> tenant_membership \<Rightarrow> tenant_membership list \<Rightarrow> tenant_membership list option" where
  "insert_member v tenants m rows =
     (if member_insert_allowed v m \<and> member_checks tenants m then create_row member_conflicts m rows else None)"

datatype enrolment = CREATED tenant_membership | ALREADY_A_MEMBER tenant_membership

text \<open>
  \<open>createOwnMembership\<close>.  \<open>raced\<close> are the rows other transactions commit between the look-up and the insert.  A unique
  violation aborts the PostgreSQL transaction, so that the read the handler then issues is refused and the call
  throws; the answer \<open>already_member\<close> comes from the look-up alone.
\<close>

definition members_createOwn ::
  "bool \<Rightarrow> string \<Rightarrow> tenant_membership list \<Rightarrow> policy_actor \<Rightarrow> string \<Rightarrow> string \<Rightarrow> millis \<Rightarrow> tenancy_world
     \<Rightarrow> enrolment option \<times> tenancy_world" where
  "members_createOwn down newId raced a tenantId roleHint at w =
     (case validateContext (actor_context (a\<lparr>pa_tenantId := Some tenantId\<rparr>)) tenant_keys of
        Inl e \<Rightarrow> (None, w)
      | Inr v \<Rightarrow>
          if down then (None, w)
          else case find_first (\<lambda>m. member_visible v m \<and> tm_tenantId m = pg_uuid tenantId \<and> tm_userId m = own_user a)
                 stored_order (tw_members w) of
            Some row \<Rightarrow> (map_option ALREADY_A_MEMBER (toMembership row), w)
          | None \<Rightarrow>
              let w1 = w\<lparr>tw_members := tw_members w @ raced\<rparr>; m = new_member newId tenantId (pa_userId a) roleHint at
              in case insert_member v (tw_tenants w1) m (tw_members w1) of
                   None \<Rightarrow> (None, w1)
                 | Some rows \<Rightarrow> (case toMembership m of
                     None \<Rightarrow> (None, w1)
                   | Some c \<Rightarrow> (Some (CREATED c), w1\<lparr>tw_members := rows\<rparr>)))"

section \<open>PrismaInvitationRepository\<close>

record create_invitation_record =
  cr_email :: string
  cr_tokenHash :: string
  cr_roleHint :: string
  cr_expiresAt :: millis
  cr_maxAttempts :: int
  cr_occurredAt :: millis

definition new_invitation :: "string \<Rightarrow> policy_actor \<Rightarrow> create_invitation_record \<Rightarrow> invitation_row" where
  "new_invitation newId a c =
     \<lparr>ti_id = pg_uuid newId, ti_tenantId = own_tenant a, ti_email = cr_email c, ti_roleHint = cr_roleHint c,
      ti_expiresAt = cr_expiresAt c, ti_redeemedAt = None, ti_redeemedBy = None, ti_revokedAt = None, ti_attempts = 0,
      ti_maxAttempts = cr_maxAttempts c, ti_createdBy = own_user a, ti_createdAt = cr_occurredAt c,
      ti_updatedAt = cr_occurredAt c, ir_tokenHash = cr_tokenHash c\<rparr>"

definition invitations_createForTenant ::
  "bool \<Rightarrow> string \<Rightarrow> policy_actor \<Rightarrow> create_invitation_record \<Rightarrow> tenancy_world
     \<Rightarrow> (tenant_invitation \<times> invitation_row list) option" where
  "invitations_createForTenant down newId a c w = in_context (actor_context a) tenant_keys down (\<lambda>v.
     let i = new_invitation newId a c
     in if \<not> invitation_insert_allowed v i \<or> \<not> invitation_visible v [] i \<or> \<not> invitation_checks (tw_tenants w) i then None
        else case create_row invitation_conflicts i (tw_invitations w) of
          None \<Rightarrow> None
        | Some rows \<Rightarrow> map_option (\<lambda>created. (created, rows)) (toInvitation i))"

text \<open>An identifier that is not in UUID form is refused by the client before any statement.\<close>

definition invitations_revoke ::
  "bool \<Rightarrow> policy_actor \<Rightarrow> string \<Rightarrow> millis \<Rightarrow> tenancy_world \<Rightarrow> (tenant_invitation option \<times> invitation_row list) option" where
  "invitations_revoke down a invitationId at w = in_context (actor_context a) tenant_keys down (\<lambda>v.
     if \<not> isUuid invitationId then None
     else let own = (\<lambda>i. invitation_visible v [] i \<and> ti_id i = pg_uuid invitationId \<and> ti_tenantId i = own_tenant a);
              (count, rows) = update_many (\<lambda>i. own i \<and> ti_revokedAt i = None \<and> ti_redeemedAt i = None)
                (\<lambda>i. i\<lparr>ti_revokedAt := Some at, ti_updatedAt := at\<rparr>) (tw_invitations w)
          in if count = 0 then Some (None, rows)
             else map_option (\<lambda>r. (r, rows)) (mapped_row toInvitation (find_first own stored_order rows)))"

definition invitations_findByTokenHash :: "bool \<Rightarrow> policy_actor \<Rightarrow> string \<Rightarrow> tenancy_world \<Rightarrow> tenant_invitation option option" where
  "invitations_findByTokenHash down redeemer hash w = in_context (self_context redeemer) [UserIdKey] down (\<lambda>v.
     mapped_row toInvitation (find_first (\<lambda>i. invitation_visible v hash i \<and> ir_tokenHash i = hash) stored_order (tw_invitations w)))"

definition counted :: "millis \<Rightarrow> invitation_row \<Rightarrow> invitation_row" where
  "counted at i = i\<lparr>ti_attempts := ti_attempts i + 1, ti_updatedAt := at\<rparr>"

definition invitations_recordFailedAttempt ::
  "bool \<Rightarrow> policy_actor \<Rightarrow> string \<Rightarrow> millis \<Rightarrow> tenancy_world \<Rightarrow> (bool \<times> invitation_row list) option" where
  "invitations_recordFailedAttempt down redeemer hash at w = in_context (self_context redeemer) [UserIdKey] down (\<lambda>v.
     let hit = (\<lambda>i. invitation_visible v hash i \<and> ir_tokenHash i = hash)
     in if list_ex (\<lambda>i. hit i \<and> \<not> invitation_checks (tw_tenants w) (counted at i)) (tw_invitations w) then None
        else let (count, rows) = update_many hit (counted at) (tw_invitations w) in Some (count > 0, rows))"

text \<open>The role the connection runs as, and what \<open>verifyNarrowPrivilege\<close> reads back.\<close>

record db_role =
  dr_name :: string
  dr_bypassRls :: bool
  dr_superuser :: bool

record privilege_evidence =
  pv_tenantGuc :: string
  pv_userGuc :: string
  pv_roleName :: string
  pv_bypassRls :: bool
  pv_superuser :: bool

definition verifyNarrowPrivilege :: "db_role \<Rightarrow> bound_values \<Rightarrow> string \<Rightarrow> string \<Rightarrow> privilege_evidence option" where
  "verifyNarrowPrivilege role v expectedTenant expectedUser =
     (let e = \<lparr>pv_tenantGuc = bv_tenantId v, pv_userGuc = bv_userId v, pv_roleName = dr_name role,
               pv_bypassRls = dr_bypassRls role, pv_superuser = dr_superuser role\<rparr>
      in if pv_tenantGuc e \<noteq> expectedTenant \<or> pv_userGuc e \<noteq> expectedUser \<or> pv_bypassRls e \<or> pv_superuser e then None
         else Some e)"

datatype redemption = REDEEMED tenant_membership privilege_evidence | REDEEMER_IS_MEMBER | LOST_RACE

definition redemption_context :: "policy_actor \<Rightarrow> tenant_invitation \<Rightarrow> principal_context" where
  "redemption_context a i = (actor_context a)\<lparr>pc_tenantId := Some (ti_tenantId i)\<rparr>"

definition redeemed_row :: "policy_actor \<Rightarrow> millis \<Rightarrow> invitation_row \<Rightarrow> invitation_row" where
  "redeemed_row a at i = i\<lparr>ti_redeemedAt := Some at, ti_redeemedBy := Some (own_user a), ti_updatedAt := at\<rparr>"

definition redeemable_row :: "bound_values \<Rightarrow> tenant_invitation \<Rightarrow> millis \<Rightarrow> invitation_row \<Rightarrow> bool" where
  "redeemable_row v i at r \<longleftrightarrow> invitation_visible v [] r \<and> ti_id r = pg_uuid (ti_id i) \<and> ti_tenantId r = pg_uuid (ti_tenantId i)
     \<and> ti_redeemedAt r = None \<and> ti_revokedAt r = None \<and> ti_expiresAt r > at"

text \<open>\<open>redeem\<close>, one transaction: the look-up, the conditional update that is the gate, and the membership.\<close>

definition invitations_redeem ::
  "bool \<Rightarrow> db_role \<Rightarrow> string \<Rightarrow> policy_actor \<Rightarrow> tenant_invitation \<Rightarrow> millis \<Rightarrow> tenancy_world
     \<Rightarrow> (redemption \<times> tenancy_world) option" where
  "invitations_redeem down role newId a i at w = in_context (redemption_context a i) tenant_keys down (\<lambda>v.
     case verifyNarrowPrivilege role v (ti_tenantId i) (pa_userId a) of
       None \<Rightarrow> None
     | Some evidence \<Rightarrow>
         if find_first (\<lambda>m. member_visible v m \<and> tm_tenantId m = pg_uuid (ti_tenantId i) \<and> tm_userId m = own_user a)
              stored_order (tw_members w) \<noteq> None
         then Some (REDEEMER_IS_MEMBER, w)
         else let (count, invitations) = update_many (redeemable_row v i at) (redeemed_row a at) (tw_invitations w);
                  m = new_member newId (ti_tenantId i) (pa_userId a) (ti_roleHint i) at
              in if count = 0 then Some (LOST_RACE, w)
                 else case insert_member v (tw_tenants w) m (tw_members w) of
                   None \<Rightarrow> None
                 | Some members \<Rightarrow> (case toMembership m of
                     None \<Rightarrow> None
                   | Some c \<Rightarrow> Some (REDEEMED c evidence, w\<lparr>tw_invitations := invitations, tw_members := members\<rparr>)))"

definition invitations_findRedeemedBy :: "bool \<Rightarrow> policy_actor \<Rightarrow> string \<Rightarrow> tenancy_world \<Rightarrow> string option option" where
  "invitations_findRedeemedBy down a invitationId w = in_context (actor_context a) tenant_keys down (\<lambda>v.
     if \<not> isUuid invitationId then None
     else case find_first (\<lambda>i. invitation_visible v [] i \<and> ti_id i = pg_uuid invitationId \<and> ti_tenantId i = own_tenant a)
            stored_order (tw_invitations w) of
       None \<Rightarrow> Some None
     | Some row \<Rightarrow> (case ti_redeemedBy row of
         None \<Rightarrow> Some None
       | Some u \<Rightarrow> if isUuid u then Some (Some u) else None))"

end
