(* ===== verification/Tenancy.thy ===== *)
theory Tenancy
  imports Tenancy_Store
begin

text \<open>
  The use cases of \<open>modules/tenancy/application\<close> but the tenant switch: reading the own tenant, its members and the own
  memberships, resolving the tenant context, invitations from creation to redemption, and first-party enrolment.
  An actor is a \<open>policy_actor\<close>; the self and redeemer operations do not look at its tenant.  The environment of one
  execution is a \<open>tenancy_deps\<close>: which calls throw, the clock, the policy service, the audit service, the token source,
  minted identifiers, the verified addresses (\<open>None\<close>: the look-up throws), and what other transactions
  insert during an enrolment.
\<close>

section \<open>Principals\<close>

definition requirePrincipal :: "policy_actor option \<Rightarrow> policy_actor option" where
  "requirePrincipal actor = (case actor of
     None \<Rightarrow> None
   | Some a \<Rightarrow> if (case pa_tenantId a of None \<Rightarrow> True | Some t \<Rightarrow> \<not> isUuid t) \<or> \<not> isUuid (pa_userId a) then None else Some a)"

definition requireAuthenticated :: "policy_actor option \<Rightarrow> policy_actor option" where
  "requireAuthenticated actor = (case actor of
     None \<Rightarrow> None
   | Some a \<Rightarrow> if \<not> isUuid (pa_userId a) then None else Some a)"

definition requireSessionActor :: "policy_actor option \<Rightarrow> (policy_actor \<times> string) option" where
  "requireSessionActor actor = (case requireAuthenticated actor of
     None \<Rightarrow> None
   | Some a \<Rightarrow> (case pa_sessionId a of None \<Rightarrow> None | Some s \<Rightarrow> if s = [] then None else Some (a, s)))"

definition requireRedeemer :: "policy_actor option \<Rightarrow> policy_actor option" where
  "requireRedeemer actor = (case actor of
     None \<Rightarrow> None
   | Some a \<Rightarrow> if \<not> isUuid (pa_userId a) then None else Some a)"

section \<open>Environment\<close>

datatype tenancy_error =
    MISSING_PRINCIPAL_CONTEXT | NOT_AUTHORIZED string policy_denial | TENANT_NOT_FOUND | MEMBERSHIP_NOT_FOUND
  | INVITATION_NOT_FOUND | INVITATION_NOT_REDEEMABLE redemption_denial | ALREADY_MEMBER | INVALID_INVITATION_INPUT
  | TENANCY_STORE_FAILURE | BINDING_FAILED | MEMBERSHIP_REVOKED_CONCURRENTLY | FIRST_PARTY_TENANT_UNAVAILABLE

type_synonym 'a tenancy_effect = "(tenancy_world, tenancy_error, 'a) effect"

datatype tenancy_call =
    TENANT_FIND_OWN | TENANT_FIND_FOR_MEMBER | MEMBER_FIND_OWN | MEMBER_FIND_IN_TENANT | MEMBER_LIST | MEMBER_LIST_OWN
  | MEMBER_CREATE_OWN | INVITATION_CREATE | INVITATION_REVOKE | INVITATION_FIND | INVITATION_COUNT | INVITATION_REDEEM

record tenancy_deps =
  yd_down :: "tenancy_call \<Rightarrow> bool"
  yd_now :: millis
  yd_policy :: "policy_actor option \<Rightarrow> string \<Rightarrow> authz_decision"
  yd_audit :: audit_deps
  yd_hashOf :: "string \<Rightarrow> string"
  yd_rawToken :: string
  yd_newId :: string
  yd_verifiedEmailOf :: "string \<Rightarrow> string option option"
  yd_role :: db_role
  yd_raced :: "tenant_membership list"
  yd_firstPartyTenantId :: string
  yd_iso :: "millis \<Rightarrow> string"

text \<open>A call that reads, and one that writes: a throw is the use case's store failure.\<close>

definition tenancy_read :: "(tenancy_world \<Rightarrow> 'a option) \<Rightarrow> 'a tenancy_effect" where
  "tenancy_read f = (\<lambda>w. case f w of None \<Rightarrow> (Inl TENANCY_STORE_FAILURE, w) | Some x \<Rightarrow> (Inr x, w))"

definition tenancy_write :: "(tenancy_world \<Rightarrow> ('a \<times> tenancy_world) option) \<Rightarrow> 'a tenancy_effect" where
  "tenancy_write f = (\<lambda>w. case f w of None \<Rightarrow> (Inl TENANCY_STORE_FAILURE, w) | Some (x, w') \<Rightarrow> (Inr x, w'))"

definition invitations_written ::
  "(tenancy_world \<Rightarrow> ('a \<times> invitation_row list) option) \<Rightarrow> tenancy_world \<Rightarrow> ('a \<times> tenancy_world) option" where
  "invitations_written f w = map_option (\<lambda>(x, rows). (x, w\<lparr>tw_invitations := rows\<rparr>)) (f w)"

definition tenancy_audit :: "tenancy_deps \<Rightarrow> trail_entry \<Rightarrow> trail_failure option tenancy_effect" where
  "tenancy_audit d e = (\<lambda>w. case trail_record (yd_audit d) e (tw_audit w) of
      (Inl defect, es) \<Rightarrow> (Inl TENANCY_STORE_FAILURE, w\<lparr>tw_audit := es\<rparr>)
    | (Inr (Inl failure), es) \<Rightarrow> (Inr (Some failure), w\<lparr>tw_audit := es\<rparr>)
    | (Inr (Inr u), es) \<Rightarrow> (Inr None, w\<lparr>tw_audit := es\<rparr>))"

definition tenancy_entry ::
  "tenancy_deps \<Rightarrow> policy_actor \<Rightarrow> string \<Rightarrow> string \<Rightarrow> string \<Rightarrow> string \<Rightarrow> string option
     \<Rightarrow> (string \<times> string) list option \<Rightarrow> string \<Rightarrow> trail_entry" where
  "tenancy_entry d a tenantId action type' i reason after result =
     \<lparr>te_occurredAt = yd_now d, te_actorRef = ''user:'' @ pa_userId a, te_tenantRef = Some (''tenant:'' @ tenantId),
      te_action = action, te_resourceType = type', te_resourceId = i, te_reason = reason,
      te_requestId = pa_requestId a, te_before = None, te_after = after, te_outcome = result\<rparr>"

definition tenancy_subject :: "policy_actor \<Rightarrow> policy_actor" where
  "tenancy_subject a = \<lparr>pa_userId = pa_userId a, pa_tenantId = pa_tenantId a, pa_sessionId = None, pa_requestId = None\<rparr>"

section \<open>Reading\<close>

definition getOwnTenant :: "tenancy_deps \<Rightarrow> policy_actor option \<Rightarrow> (tenant \<times> tenant_membership) tenancy_effect" where
  "getOwnTenant d actor = (case requirePrincipal actor of
     None \<Rightarrow> throwE MISSING_PRINCIPAL_CONTEXT
   | Some a \<Rightarrow>
       thenE (tenancy_read (tenants_findOwn (yd_down d TENANT_FIND_OWN) a)) (\<lambda>t.
       case t of None \<Rightarrow> throwE TENANT_NOT_FOUND
       | Some tenant \<Rightarrow>
           thenE (tenancy_read (members_findOwn (yd_down d MEMBER_FIND_OWN) a)) (\<lambda>m.
           case m of None \<Rightarrow> throwE MEMBERSHIP_NOT_FOUND
           | Some membership \<Rightarrow> returnE (tenant, membership))))"

text \<open>The two gates of the member operations: an own row in state ACTIVE, and the permission.\<close>

definition member_gate :: "tenancy_deps \<Rightarrow> policy_actor \<Rightarrow> string \<Rightarrow> unit tenancy_effect" where
  "member_gate d a permission =
     thenE (tenancy_read (members_findOwn (yd_down d MEMBER_FIND_OWN) a)) (\<lambda>own.
     case own of None \<Rightarrow> throwE MEMBERSHIP_NOT_FOUND
     | Some m \<Rightarrow>
         if tm_state m \<noteq> ''ACTIVE'' then throwE MEMBERSHIP_NOT_FOUND
         else (case yd_policy d (Some (tenancy_subject a)) permission of
             POLICY_DENIED reason \<Rightarrow> throwE (NOT_AUTHORIZED permission reason)
           | POLICY_ALLOWED r \<Rightarrow> returnE ()))"

definition listMembers :: "tenancy_deps \<Rightarrow> policy_actor option \<Rightarrow> tenant_membership list tenancy_effect" where
  "listMembers d actor = (case requirePrincipal actor of
     None \<Rightarrow> throwE MISSING_PRINCIPAL_CONTEXT
   | Some a \<Rightarrow> thenE (member_gate d a ''tenancy.member.read'')
       (\<lambda>u. tenancy_read (members_listForTenant (yd_down d MEMBER_LIST) a)))"

definition listOwnMemberships :: "tenancy_deps \<Rightarrow> policy_actor option \<Rightarrow> tenant_membership list tenancy_effect" where
  "listOwnMemberships d actor = (case requireAuthenticated actor of
     None \<Rightarrow> throwE MISSING_PRINCIPAL_CONTEXT
   | Some a \<Rightarrow> thenE (tenancy_read (members_listOwnAcrossTenants (yd_down d MEMBER_LIST_OWN) a))
       (\<lambda>rows. returnE (filter (\<lambda>m. membershipActiveAt m (yd_now d)) rows)))"

section \<open>The tenant context\<close>

record tenant_choice =
  tc_tenantId :: string
  tc_name :: string
  tc_roleHint :: string

datatype tenant_context = UNBOUND | AUTO_BIND string tenant_choice | TENANT_SELECTION_REQUIRED "tenant_choice list"

fun tenant_choices :: "tenancy_deps \<Rightarrow> policy_actor \<Rightarrow> tenant_membership list \<Rightarrow> (string \<times> tenant_choice) list tenancy_effect" where
  "tenant_choices d a [] = returnE []"
| "tenant_choices d a (m # ms) =
     thenE (tenancy_read (tenants_findForMember (yd_down d TENANT_FIND_FOR_MEMBER) a (tm_tenantId m))) (\<lambda>t.
     thenE (tenant_choices d a ms) (\<lambda>rest. returnE (case t of
         None \<Rightarrow> rest
       | Some tenant \<Rightarrow>
           if tn_status tenant \<noteq> ''ACTIVE'' then rest
           else (tm_tenantId m, \<lparr>tc_tenantId = tm_tenantId m, tc_name = tn_name tenant, tc_roleHint = tm_roleHint m\<rparr>) # rest)))"

definition resolved_context :: "(string \<times> tenant_choice) list \<Rightarrow> tenant_context" where
  "resolved_context choices = (case choices of
     [] \<Rightarrow> UNBOUND
   | [first] \<Rightarrow> AUTO_BIND (fst first) (snd first)
   | _ \<Rightarrow> TENANT_SELECTION_REQUIRED (map snd choices))"

definition resolveTenantContext :: "tenancy_deps \<Rightarrow> policy_actor option \<Rightarrow> tenant_context tenancy_effect" where
  "resolveTenantContext d actor = (case requireAuthenticated actor of
     None \<Rightarrow> throwE MISSING_PRINCIPAL_CONTEXT
   | Some a \<Rightarrow>
       thenE (tenancy_read (members_listOwnAcrossTenants (yd_down d MEMBER_LIST_OWN) a)) (\<lambda>own.
       thenE (tenant_choices d a (filter (\<lambda>m. membershipActiveAt m (yd_now d)) own)) (\<lambda>choices.
         returnE (resolved_context choices))))"

section \<open>Invitations\<close>

record create_invitation_input =
  ci_email :: string
  ci_roleHint :: "string option"
  ci_expiresInHours :: "js_number option"

definition DEFAULT_EXPIRES_IN_HOURS :: int where
  "DEFAULT_EXPIRES_IN_HOURS = 72"

definition MAX_EXPIRES_IN_HOURS :: int where
  "MAX_EXPIRES_IN_HOURS = 24 * 30"

definition DEFAULT_MAX_ATTEMPTS :: int where
  "DEFAULT_MAX_ATTEMPTS = 5"

definition HOUR_MS :: int where
  "HOUR_MS = 3600000"

text \<open>The checked input: address, role hint and hours.\<close>

definition check_invitation_input :: "create_invitation_input \<Rightarrow> (tenancy_error, string \<times> string \<times> int) outcome" where
  "check_invitation_input i =
     (let email = normalizeInvitationEmail (ci_email i);
          roleHint = (case ci_roleHint i of None \<Rightarrow> ''MEMBER'' | Some r \<Rightarrow> r);
          hours = (case ci_expiresInHours i of None \<Rightarrow> Whole DEFAULT_EXPIRES_IN_HOURS | Some n \<Rightarrow> n)
      in if \<not> isValidInvitationEmail email then Inl INVALID_INVITATION_INPUT
         else if \<not> isValidRoleHint roleHint then Inl INVALID_INVITATION_INPUT
         else case hours of
           NotWhole \<Rightarrow> Inl INVALID_INVITATION_INPUT
         | Whole h \<Rightarrow> if h < 1 \<or> h > MAX_EXPIRES_IN_HOURS then Inl INVALID_INVITATION_INPUT else Inr (email, roleHint, h))"

definition createInvitation ::
  "tenancy_deps \<Rightarrow> create_invitation_input \<Rightarrow> policy_actor option
     \<Rightarrow> (tenant_invitation \<times> string \<times> trail_failure option) tenancy_effect" where
  "createInvitation d i actor = (case requirePrincipal actor of
     None \<Rightarrow> throwE MISSING_PRINCIPAL_CONTEXT
   | Some a \<Rightarrow> (case check_invitation_input i of
       Inl e \<Rightarrow> throwE e
     | Inr (email, roleHint, hours) \<Rightarrow>
         thenE (member_gate d a ''tenancy.invitation.create'') (\<lambda>u.
         thenE (tenancy_write (invitations_written (invitations_createForTenant (yd_down d INVITATION_CREATE) (yd_newId d) a
             \<lparr>cr_email = email, cr_tokenHash = yd_hashOf d (yd_rawToken d), cr_roleHint = roleHint,
              cr_expiresAt = yd_now d + hours * HOUR_MS, cr_maxAttempts = DEFAULT_MAX_ATTEMPTS, cr_occurredAt = yd_now d\<rparr>)))
           (\<lambda>invitation.
         thenE (tenancy_audit d (tenancy_entry d a (or_empty (pa_tenantId a)) ''tenancy.invitation.created'' ''tenant_invitation''
             (ti_id invitation) None (Some [(''roleHint'', roleHint), (''expiresAt'', yd_iso d (ti_expiresAt invitation))]) ''SUCCESS''))
           (\<lambda>failure. returnE (invitation, yd_rawToken d, failure))))))"

definition revokeInvitation ::
  "tenancy_deps \<Rightarrow> string \<Rightarrow> policy_actor option \<Rightarrow> (tenant_invitation \<times> trail_failure option) tenancy_effect" where
  "revokeInvitation d invitationId actor = (case requirePrincipal actor of
     None \<Rightarrow> throwE MISSING_PRINCIPAL_CONTEXT
   | Some a \<Rightarrow>
       thenE (member_gate d a ''tenancy.invitation.revoke'') (\<lambda>u.
       thenE (tenancy_write (invitations_written (invitations_revoke (yd_down d INVITATION_REVOKE) a invitationId (yd_now d)))) (\<lambda>r.
       case r of None \<Rightarrow> throwE INVITATION_NOT_FOUND
       | Some revoked \<Rightarrow>
           thenE (tenancy_audit d (tenancy_entry d a (or_empty (pa_tenantId a)) ''tenancy.invitation.revoked'' ''tenant_invitation''
               (ti_id revoked) None None ''SUCCESS'')) (\<lambda>failure. returnE (revoked, failure)))))"

definition TOKEN_SHAPE :: "string \<Rightarrow> bool" where
  "TOKEN_SHAPE s \<longleftrightarrow> run_of (\<lambda>c. is_upper_ascii c \<or> is_lower_or_digit c \<or> c = CHR ''_'' \<or> c = CHR ''-'') 20 128 s"

record invitation_redeemed =
  rd_tenantId :: string
  rd_membership :: tenant_membership
  rd_evidence :: privilege_evidence
  rd_auditFailure :: "trail_failure option"

definition redemption_entry ::
  "tenancy_deps \<Rightarrow> policy_actor \<Rightarrow> tenant_invitation \<Rightarrow> string option \<Rightarrow> (string \<times> string) list option \<Rightarrow> string \<Rightarrow> trail_entry" where
  "redemption_entry d a i = tenancy_entry d a (ti_tenantId i) ''tenancy.invitation.redeem'' ''tenant_invitation'' (ti_id i)"

text \<open>A refusal counts an attempt only when the address is the reason; it is audited either way.\<close>

definition refuse_redemption ::
  "tenancy_deps \<Rightarrow> policy_actor \<Rightarrow> string \<Rightarrow> tenant_invitation \<Rightarrow> redemption_denial \<Rightarrow> invitation_redeemed tenancy_effect" where
  "refuse_redemption d a hash i reason =
     thenE (if reason = REDEEM_EMAIL_MISMATCH
            then thenE (tenancy_write (invitations_written
                   (invitations_recordFailedAttempt (yd_down d INVITATION_COUNT) a hash (yd_now d)))) (\<lambda>counted. returnE ())
            else returnE ()) (\<lambda>u.
     thenE (tenancy_audit d (redemption_entry d a i (Some (redemption_denial_text reason)) None ''DENIED'')) (\<lambda>failure.
       throwE (INVITATION_NOT_REDEEMABLE reason)))"

definition redeem_open :: "tenancy_deps \<Rightarrow> policy_actor \<Rightarrow> tenant_invitation \<Rightarrow> invitation_redeemed tenancy_effect" where
  "redeem_open d a i =
     thenE (tenancy_write (invitations_redeem (yd_down d INVITATION_REDEEM) (yd_role d) (yd_newId d) a i (yd_now d))) (\<lambda>result.
     case result of
       REDEEMER_IS_MEMBER \<Rightarrow> throwE ALREADY_MEMBER
     | LOST_RACE \<Rightarrow> throwE (INVITATION_NOT_REDEEMABLE REDEEM_ALREADY_REDEEMED)
     | REDEEMED m evidence \<Rightarrow>
         thenE (tenancy_audit d (redemption_entry d a i None (Some [(''membershipId'', tm_id m)]) ''SUCCESS'')) (\<lambda>failure.
           returnE \<lparr>rd_tenantId = ti_tenantId i, rd_membership = m, rd_evidence = evidence, rd_auditFailure = failure\<rparr>))"

definition redeemInvitation :: "tenancy_deps \<Rightarrow> string \<Rightarrow> policy_actor option \<Rightarrow> invitation_redeemed tenancy_effect" where
  "redeemInvitation d token actor = (case requireRedeemer actor of
     None \<Rightarrow> throwE MISSING_PRINCIPAL_CONTEXT
   | Some a \<Rightarrow>
       if \<not> TOKEN_SHAPE token then throwE INVITATION_NOT_FOUND
       else let hash = yd_hashOf d token in
         thenE (tenancy_read (invitations_findByTokenHash (yd_down d INVITATION_FIND) a hash)) (\<lambda>found.
         case found of None \<Rightarrow> throwE INVITATION_NOT_FOUND
         | Some i \<Rightarrow>
             thenE (tenancy_read (\<lambda>w. yd_verifiedEmailOf d (pa_userId a))) (\<lambda>email.
             case evaluateRedeemability i (yd_now d) email of
               Inl reason \<Rightarrow> refuse_redemption d a hash i reason
             | Inr u \<Rightarrow> redeem_open d a i)))"

text \<open>The verified address as the composition root reads it from the identity store.\<close>

definition verifiedEmailOf :: "bool \<Rightarrow> identity_world \<Rightarrow> string \<Rightarrow> string option option" where
  "verifiedEmailOf down iw userId =
     (if down then None
      else Some (case accounts_findById userId iw of
        None \<Rightarrow> None
      | Some account \<Rightarrow> if ac_emailVerifiedAt account \<noteq> None then Some (ac_email account) else None))"

section \<open>First-party enrolment\<close>

definition FIRST_PARTY_MEMBER_ROLE_HINT :: string where
  "FIRST_PARTY_MEMBER_ROLE_HINT = ''MEMBER''"

definition first_party_actor :: "tenancy_deps \<Rightarrow> policy_actor \<Rightarrow> policy_actor" where
  "first_party_actor d a = \<lparr>pa_userId = pa_userId a, pa_tenantId = Some (yd_firstPartyTenantId d), pa_sessionId = None, pa_requestId = None\<rparr>"

definition grantFirstPartyMembership :: "tenancy_deps \<Rightarrow> policy_actor option \<Rightarrow> enrolment tenancy_effect" where
  "grantFirstPartyMembership d actor = (case requireAuthenticated actor of
     None \<Rightarrow> throwE MISSING_PRINCIPAL_CONTEXT
   | Some a \<Rightarrow>
       thenE (tenancy_read (tenants_findOwn (yd_down d TENANT_FIND_OWN) (first_party_actor d a))) (\<lambda>t.
       if (case t of None \<Rightarrow> True | Some tenant \<Rightarrow> tn_status tenant \<noteq> ''ACTIVE'' \<or> tn_type tenant \<noteq> ''FIRST_PARTY'')
       then throwE FIRST_PARTY_TENANT_UNAVAILABLE
       else
         thenE (\<lambda>w. case members_createOwn (yd_down d MEMBER_CREATE_OWN) (yd_newId d) (yd_raced d) a (yd_firstPartyTenantId d)
                   FIRST_PARTY_MEMBER_ROLE_HINT (yd_now d) w of
                 (None, w') \<Rightarrow> (Inl TENANCY_STORE_FAILURE, w') | (Some r, w') \<Rightarrow> (Inr r, w')) (\<lambda>result.
         case result of
           ALREADY_A_MEMBER m \<Rightarrow> returnE result
         | CREATED m \<Rightarrow>
             thenE (tenancy_audit d (tenancy_entry d a (yd_firstPartyTenantId d) ''tenancy.membership.first_party_granted''
                 ''tenant_membership'' (tm_id m) None (Some [(''roleHint'', FIRST_PARTY_MEMBER_ROLE_HINT)]) ''SUCCESS''))
               (\<lambda>failure. returnE result))))"

end
