(* ===== verification/Tenancy_Laws.thy ===== *)
theory Tenancy_Laws
  imports Tenancy
begin

text \<open>
  Tenancy as a transition system: every transaction of the module is a step, every use case a run of steps, and
  interleaved callers are runs of their steps in any order.  The invariant says that memberships are unique per tenant
  and user, and that a redeemed invitation is in force for exactly one member; the history relation says what no later step
  may change.
\<close>

section \<open>Steps\<close>

inductive tenancy_step :: "tenancy_world \<Rightarrow> tenancy_world \<Rightarrow> bool" where
  step_create: "invitations_createForTenant down newId a c w = Some (i, rows) \<Longrightarrow> tenancy_step w (w\<lparr>tw_invitations := rows\<rparr>)"
| step_revoke: "invitations_revoke down a i at w = Some (r, rows) \<Longrightarrow> tenancy_step w (w\<lparr>tw_invitations := rows\<rparr>)"
| step_count: "invitations_recordFailedAttempt down a hash at w = Some (b, rows) \<Longrightarrow> tenancy_step w (w\<lparr>tw_invitations := rows\<rparr>)"
| step_redeem: "invitations_redeem down role newId a i at w = Some (r, w') \<Longrightarrow> tenancy_step w w'"
| step_enrol: "members_createOwn down newId [] a t h at w = (r, w') \<Longrightarrow> tenancy_step w w'"
| step_audit: "tenancy_step w (w\<lparr>tw_audit := es\<rparr>)"

abbreviation tenancy_run :: "tenancy_world \<Rightarrow> tenancy_world \<Rightarrow> bool" where
  "tenancy_run \<equiv> tenancy_step\<^sup>*\<^sup>*"

interpretation tenancy_runs: step_relation tenancy_run
  by unfold_locales auto

lemma always_tenancy_read: "always tenancy_run (tenancy_read f)"
  by (auto simp: always_def tenancy_read_def split: option.splits)

lemma always_tenancy_audit: "always tenancy_run (tenancy_audit d e)"
  unfolding always_def tenancy_audit_def
  by (auto split: prod.splits sum.splits option.splits intro: step_audit)

lemma always_invitation_writes:
  "always tenancy_run (tenancy_write (invitations_written (invitations_createForTenant down newId a c)))"
  "always tenancy_run (tenancy_write (invitations_written (invitations_revoke down a i at)))"
  "always tenancy_run (tenancy_write (invitations_written (invitations_recordFailedAttempt down a hash at)))"
  by (auto simp: always_def tenancy_write_def invitations_written_def split: option.splits
      intro: step_create step_revoke step_count)

lemma always_redeem: "always tenancy_run (tenancy_write (invitations_redeem down role newId a i at))"
  by (auto simp: always_def tenancy_write_def split: option.splits intro: step_redeem)

lemma always_enrol:
  "always tenancy_run (\<lambda>w. case members_createOwn down newId [] a t h at w of
     (None, w') \<Rightarrow> (Inl TENANCY_STORE_FAILURE, w') | (Some r, w') \<Rightarrow> (Inr r, w'))"
  by (auto simp: always_def split: prod.splits option.splits intro: step_enrol)

lemmas always_tenancy = tenancy_runs.always_intros always_tenancy_read always_tenancy_audit always_invitation_writes
  always_redeem always_enrol

lemma always_member_gate: "always tenancy_run (member_gate d a permission)"
  unfolding member_gate_def
  by (intro always_tenancy) (auto intro!: always_tenancy split: authz_decision.split)

lemma always_createInvitation: "always tenancy_run (createInvitation d i actor)"
  unfolding createInvitation_def
  by (auto intro!: always_tenancy always_member_gate split: option.split sum.split)

lemma always_revokeInvitation: "always tenancy_run (revokeInvitation d i actor)"
  unfolding revokeInvitation_def
  by (auto intro!: always_tenancy always_member_gate split: option.split)

lemma always_refuse: "always tenancy_run (refuse_redemption d a hash i reason)"
  unfolding refuse_redemption_def by (intro always_tenancy)

lemma always_redeem_open: "always tenancy_run (redeem_open d a i)"
  unfolding redeem_open_def by (auto intro!: always_tenancy split: redemption.split)

lemma always_redeemInvitation: "always tenancy_run (redeemInvitation d token actor)"
  unfolding redeemInvitation_def Let_def
  by (auto intro!: always_tenancy always_refuse always_redeem_open split: option.split sum.split)

lemma always_grantFirstParty: "yd_raced d = [] \<Longrightarrow> always tenancy_run (grantFirstPartyMembership d actor)"
  unfolding grantFirstPartyMembership_def
  by (auto intro!: always_tenancy split: option.split enrolment.split)

section \<open>The invariant and the history\<close>

definition invitation_sound :: "tenant_membership list \<Rightarrow> invitation_row \<Rightarrow> bool" where
  "invitation_sound members i \<longleftrightarrow> pg_uuid (ti_id i) = ti_id i \<and> pg_uuid (ti_tenantId i) = ti_tenantId i
     \<and> (case ti_redeemedAt i of
        None \<Rightarrow> ti_redeemedBy i = None
      | Some t \<Rightarrow> ti_revokedAt i = None \<and> t < ti_expiresAt i
          \<and> (\<exists>m \<in> set members. tm_tenantId m = ti_tenantId i \<and> ti_redeemedBy i = Some (tm_userId m)))"

definition tenancy_wf :: "tenancy_world \<Rightarrow> bool" where
  "tenancy_wf w \<longleftrightarrow> distinct (map (\<lambda>m. (tm_tenantId m, tm_userId m)) (tw_members w)) \<and> distinct (map ti_id (tw_invitations w))
     \<and> distinct (map ir_tokenHash (tw_invitations w)) \<and> (\<forall>i \<in> set (tw_invitations w). invitation_sound (tw_members w) i)"

text \<open>What was fixed when the invitation was created.\<close>

definition invitation_terms :: "invitation_row \<Rightarrow> (string \<times> string \<times> string \<times> string \<times> string \<times> string) \<times> millis \<times> int \<times> millis" where
  "invitation_terms i = ((ti_id i, ti_tenantId i, ti_email i, ti_roleHint i, ti_createdBy i, ir_tokenHash i),
     ti_expiresAt i, ti_maxAttempts i, ti_createdAt i)"

definition follows :: "invitation_row \<Rightarrow> invitation_row \<Rightarrow> bool" where
  "follows i j \<longleftrightarrow> invitation_terms j = invitation_terms i
     \<and> ti_attempts i \<le> ti_attempts j
     \<and> (ti_redeemedAt i \<noteq> None \<longrightarrow> ti_redeemedAt j = ti_redeemedAt i \<and> ti_redeemedBy j = ti_redeemedBy i)
     \<and> (ti_revokedAt i \<noteq> None \<longrightarrow> ti_revokedAt j = ti_revokedAt i)"

definition tenancy_extends :: "tenancy_world \<Rightarrow> tenancy_world \<Rightarrow> bool" where
  "tenancy_extends w w' \<longleftrightarrow> tw_tenants w' = tw_tenants w \<and> (\<exists>ms. tw_members w' = tw_members w @ ms)
     \<and> (\<exists>changed new. tw_invitations w' = changed @ new \<and> list_all2 follows (tw_invitations w) changed)"

lemma follows_refl [simp]: "follows i i"
  by (simp add: follows_def)

lemma follows_fields:
  assumes "follows i j"
  shows "ti_id j = ti_id i" "ti_tenantId j = ti_tenantId i" "ti_email j = ti_email i" "ti_roleHint j = ti_roleHint i"
    "ti_expiresAt j = ti_expiresAt i" "ti_maxAttempts j = ti_maxAttempts i" "ti_createdBy j = ti_createdBy i"
    "ti_createdAt j = ti_createdAt i" "ir_tokenHash j = ir_tokenHash i"
  using assms unfolding follows_def invitation_terms_def by simp_all

lemma follows_trans: "follows i j \<Longrightarrow> follows j k \<Longrightarrow> follows i k"
  unfolding follows_def by auto

lemma list_all2_follows_trans: "list_all2 follows xs ys \<Longrightarrow> list_all2 follows ys zs \<Longrightarrow> list_all2 follows xs zs"
  using list_all2_trans [of follows follows follows] follows_trans by blast

lemma list_all2_follows_refl [simp]: "list_all2 follows xs xs"
  by (simp add: list_all2_refl)

lemma extends_refl [simp]: "tenancy_extends w w"
  unfolding tenancy_extends_def by (metis append_Nil2 list_all2_follows_refl)

lemma extends_trans:
  assumes "tenancy_extends u v" "tenancy_extends v w"
  shows "tenancy_extends u w"
proof -
  obtain ms ns where m: "tw_members v = tw_members u @ ms" "tw_members w = tw_members v @ ns"
    using assms unfolding tenancy_extends_def by blast
  obtain c1 n1 c2 n2 where c: "tw_invitations v = c1 @ n1" "list_all2 follows (tw_invitations u) c1"
    "tw_invitations w = c2 @ n2" "list_all2 follows (tw_invitations v) c2"
    using assms unfolding tenancy_extends_def by blast
  have "list_all2 follows (c1 @ n1) c2" using c(4) unfolding c(1) .
  then obtain d1 d2 where d: "c2 = d1 @ d2" "list_all2 follows c1 d1" unfolding list_all2_append1 by blast
  have "tw_invitations w = d1 @ (d2 @ n2)" "list_all2 follows (tw_invitations u) d1"
    using c d list_all2_follows_trans by auto
  moreover have "tw_tenants w = tw_tenants u" using assms unfolding tenancy_extends_def by simp
  ultimately show ?thesis using m unfolding tenancy_extends_def by auto
qed

section \<open>What the transactions do\<close>

lemma in_context_Some:
  "in_context c require down body = Some x \<longleftrightarrow> (\<exists>v. validateContext c require = Inr v \<and> \<not> down \<and> body v = Some x)"
  by (auto simp: in_context_def split: sum.splits)

lemma bound_of_context:
  assumes "validateContext c require = Inr v" "invalid_keys c = []"
  shows "pc_tenantId c = Some t \<Longrightarrow> bound_tenant v = Some (pg_uuid t)" "pc_userId c = Some u \<Longrightarrow> bound_user v = Some (pg_uuid u)"
    "pc_tenantId c = None \<Longrightarrow> bound_tenant v = None"
proof -
  have b: "bv_tenantId v = or_empty (pc_tenantId c)" "bv_userId v = or_empty (pc_userId c)"
    using validateContext_Inr(3) [OF assms(1), of TenantIdKey] validateContext_Inr(3) [OF assms(1), of UserIdKey] by simp_all
  have ne: "isUuid s \<Longrightarrow> s \<noteq> []" for s by (auto simp: isUuid_def UUID_SHAPE_def)
  show "pc_tenantId c = Some t \<Longrightarrow> bound_tenant v = Some (pg_uuid t)"
    using b valid_context(1) [OF assms(2)] ne by (auto simp: bound_tenant_def or_empty_def nullif_empty_def)
  show "pc_userId c = Some u \<Longrightarrow> bound_user v = Some (pg_uuid u)"
    using b valid_context(2) [OF assms(2)] ne by (auto simp: bound_user_def or_empty_def nullif_empty_def)
  show "pc_tenantId c = None \<Longrightarrow> bound_tenant v = None"
    using b by (simp add: bound_tenant_def or_empty_def nullif_empty_def)
qed

lemma create_row_iff: "create_row conflicts r t = Some t' \<longleftrightarrow> t' = t @ [r] \<and> (\<forall>x \<in> set t. \<not> conflicts r x)"
  by (auto simp: create_row_def list_ex_iff)

lemma update_follows:
  "(\<And>i. i \<in> set rows \<Longrightarrow> p i \<Longrightarrow> follows i (f i)) \<Longrightarrow> list_all2 follows rows (snd (update_many p f rows))"
  by (induction rows) (auto simp: update_many_def)

lemma follows_keys:
  "list_all2 follows xs ys \<Longrightarrow> map ti_id ys = map ti_id xs \<and> map ir_tokenHash ys = map ir_tokenHash xs"
  by (induction rule: list_all2_induct) (auto dest: follows_fields)

lemma redeem_outcome:
  assumes "invitations_redeem down role newId a i at w = Some (r, w')"
  shows "w' = w \<and> (r = REDEEMER_IS_MEMBER \<or> r = LOST_RACE)
    \<or> (\<exists>v m e. r = REDEEMED m e \<and> validateContext (redemption_context a i) tenant_keys = Inr v
        \<and> m = new_member newId (ti_tenantId i) (pa_userId a) (ti_roleHint i) at
        \<and> (\<forall>x \<in> set (tw_members w). \<not> member_conflicts m x) \<and> (\<exists>x \<in> set (tw_invitations w). redeemable_row v i at x)
        \<and> \<not> dr_bypassRls role \<and> \<not> dr_superuser role
        \<and> w' = w\<lparr>tw_invitations := snd (update_many (redeemable_row v i at) (redeemed_row a at) (tw_invitations w)),
                  tw_members := tw_members w @ [m]\<rparr>)"
proof -
  let ?m = "new_member newId (ti_tenantId i) (pa_userId a) (ti_roleHint i) at"
  obtain v where v: "validateContext (redemption_context a i) tenant_keys = Inr v"
    and body: "(case verifyNarrowPrivilege role v (ti_tenantId i) (pa_userId a) of
       None \<Rightarrow> None
     | Some evidence \<Rightarrow>
         if find_first (\<lambda>m. member_visible v m \<and> tm_tenantId m = pg_uuid (ti_tenantId i) \<and> tm_userId m = own_user a)
              stored_order (tw_members w) \<noteq> None
         then Some (REDEEMER_IS_MEMBER, w)
         else let (count, invitations) = update_many (redeemable_row v i at) (redeemed_row a at) (tw_invitations w); m = ?m
              in if count = 0 then Some (LOST_RACE, w)
                 else case insert_member v (tw_tenants w) m (tw_members w) of
                   None \<Rightarrow> None
                 | Some members \<Rightarrow> (case toMembership m of
                     None \<Rightarrow> None
                   | Some c \<Rightarrow> Some (REDEEMED c evidence, w\<lparr>tw_invitations := invitations, tw_members := members\<rparr>))) = Some (r, w')"
    using assms unfolding invitations_redeem_def in_context_Some by blast
  have map: "c = m" if "toMembership m = Some c" for c m using that by (auto simp: toMembership_def split: if_splits)
  show ?thesis using body v
    by (auto simp: verifyNarrowPrivilege_def Let_def insert_member_def create_row_iff update_many_def filter_empty_conv
        split: option.splits if_splits dest!: map)
qed

lemma pair_case_Some: "(case x of (n, t) \<Rightarrow> g n t) = Some y \<longleftrightarrow> g (fst x) (snd x) = Some y"
  by (simp add: split_beta)

lemma revoke_invitation_rows:
  assumes "invitations_revoke down a i at w = Some (r, rows)"
  shows "\<exists>p. (\<forall>x. p x \<longrightarrow> ti_redeemedAt x = None \<and> ti_revokedAt x = None \<and> ti_tenantId x = own_tenant a)
       \<and> rows = snd (update_many p (\<lambda>i. i\<lparr>ti_revokedAt := Some at, ti_updatedAt := at\<rparr>) (tw_invitations w))"
proof -
  obtain v where v: "(if \<not> isUuid i then None
     else let own = (\<lambda>x. invitation_visible v [] x \<and> ti_id x = pg_uuid i \<and> ti_tenantId x = own_tenant a);
              (count, rows) = update_many (\<lambda>x. own x \<and> ti_revokedAt x = None \<and> ti_redeemedAt x = None)
                (\<lambda>i. i\<lparr>ti_revokedAt := Some at, ti_updatedAt := at\<rparr>) (tw_invitations w)
          in if count = 0 then Some (None, rows)
             else map_option (\<lambda>r. (r, rows)) (mapped_row toInvitation (find_first own stored_order rows))) = Some (r, rows)"
    using assms unfolding invitations_revoke_def in_context_Some by blast
  define P where "P = (\<lambda>x. (invitation_visible v [] x \<and> ti_id x = pg_uuid i \<and> ti_tenantId x = own_tenant a)
      \<and> ti_revokedAt x = None \<and> ti_redeemedAt x = None)"
  define U where "U = update_many P (\<lambda>i. i\<lparr>ti_revokedAt := Some at, ti_updatedAt := at\<rparr>) (tw_invitations w)"
  obtain c t where U: "U = (c, t)" by (cases U)
  have "(if c = 0 then Some (None, t) else map_option (\<lambda>r. (r, t)) (mapped_row toInvitation
      (find_first (\<lambda>x. invitation_visible v [] x \<and> ti_id x = pg_uuid i \<and> ti_tenantId x = own_tenant a) stored_order t))) = Some (r, rows)"
    using v unfolding Let_def P_def [symmetric] U_def [symmetric] U by (simp split: if_splits) (elim conjE, hypsubst, assumption)
  then have "rows = snd U" unfolding U map_option_eq_Some by (simp split: if_splits)
  moreover have "\<forall>x. P x \<longrightarrow> ti_redeemedAt x = None \<and> ti_revokedAt x = None \<and> ti_tenantId x = own_tenant a" unfolding P_def by blast
  ultimately show ?thesis unfolding U_def by (intro exI [of _ P] conjI)
qed

lemma count_rows:
  assumes "invitations_recordFailedAttempt down a hash at w = Some (b, rows)"
  shows "\<exists>v. validateContext (self_context a) [UserIdKey] = Inr v
    \<and> rows = snd (update_many (\<lambda>i. invitation_visible v hash i \<and> ir_tokenHash i = hash) (counted at) (tw_invitations w))"
proof -
  obtain v where v: "validateContext (self_context a) [UserIdKey] = Inr v" "(let hit = (\<lambda>i. invitation_visible v hash i \<and> ir_tokenHash i = hash)
     in if list_ex (\<lambda>i. hit i \<and> \<not> invitation_checks (tw_tenants w) (counted at i)) (tw_invitations w) then None
        else let (count, rows) = update_many hit (counted at) (tw_invitations w) in Some (count > 0, rows)) = Some (b, rows)"
    using assms unfolding invitations_recordFailedAttempt_def in_context_Some by blast
  have "rows = snd (update_many (\<lambda>i. invitation_visible v hash i \<and> ir_tokenHash i = hash) (counted at) (tw_invitations w))"
    using v(2) by (auto simp: Let_def pair_case_Some split: if_splits)
  then show ?thesis using v(1) by blast
qed

lemma create_rows:
  "invitations_createForTenant down newId a c w = Some (i, rows) \<Longrightarrow>
     rows = tw_invitations w @ [new_invitation newId a c]
     \<and> (\<forall>x \<in> set (tw_invitations w). \<not> invitation_conflicts (new_invitation newId a c) x)"
  unfolding invitations_createForTenant_def in_context_Some Let_def
  by (auto simp: create_row_iff split: if_splits option.splits)

lemma enrol_outcome:
  "members_createOwn down newId raced a t h at w = (r, w') \<Longrightarrow>
     w' = w \<or> w' = w\<lparr>tw_members := tw_members w @ raced\<rparr>
     \<or> (let m = new_member newId t (pa_userId a) h at in r = Some (CREATED m) \<and> w' = w\<lparr>tw_members := tw_members w @ raced @ [m]\<rparr>
         \<and> (\<forall>x \<in> set (tw_members w @ raced). \<not> member_conflicts m x))"
  unfolding members_createOwn_def Let_def
  by (auto simp: insert_member_def create_row_iff toMembership_def split: sum.splits if_splits option.splits)

section \<open>Every step keeps the invariant and the history\<close>

lemma extendsI:
  "tw_tenants w' = tw_tenants w \<Longrightarrow> tw_members w' = tw_members w @ ms \<Longrightarrow> tw_invitations w' = changed @ new
     \<Longrightarrow> list_all2 follows (tw_invitations w) changed \<Longrightarrow> tenancy_extends w w'"
  unfolding tenancy_extends_def by blast

lemma extends_rows: "list_all2 follows (tw_invitations w) rows \<Longrightarrow> tenancy_extends w (w\<lparr>tw_invitations := rows\<rparr>)"
  by (rule extendsI [of _ _ "[]" _ "[]"]) simp_all

lemma extends_members: "tenancy_extends w (w\<lparr>tw_members := tw_members w @ ms\<rparr>)"
  by (rule extendsI [of _ _ ms "tw_invitations w" "[]"]) simp_all

lemma tenancy_step_extends: "tenancy_step w w' \<Longrightarrow> tenancy_extends w w'"
proof (induction rule: tenancy_step.induct)
  case (step_create down newId a c w i rows)
  then show ?case using create_rows [OF step_create]
    by (intro extendsI [of _ _ "[]" "tw_invitations w" "[new_invitation newId a c]"]) simp_all
next
  case (step_revoke down a i at w r rows)
  obtain p where p: "\<forall>x. p x \<longrightarrow> ti_redeemedAt x = None \<and> ti_revokedAt x = None"
    "rows = snd (update_many p (\<lambda>i. i\<lparr>ti_revokedAt := Some at, ti_updatedAt := at\<rparr>) (tw_invitations w))"
    using revoke_invitation_rows [OF step_revoke] by blast
  have "list_all2 follows (tw_invitations w) rows"
    unfolding p(2) by (rule update_follows) (use p(1) in \<open>auto simp: follows_def invitation_terms_def\<close>)
  then show ?case by (rule extends_rows)
next
  case (step_count down a hash at w b rows)
  obtain v where v: "rows = snd (update_many (\<lambda>i. invitation_visible v hash i \<and> ir_tokenHash i = hash) (counted at) (tw_invitations w))"
    using count_rows [OF step_count] by blast
  have "list_all2 follows (tw_invitations w) rows"
    unfolding v by (rule update_follows) (simp add: follows_def invitation_terms_def counted_def)
  then show ?case by (rule extends_rows)
next
  case (step_redeem down role newId a i at w r w')
  consider "w' = w" | v m where
      "w' = w\<lparr>tw_invitations := snd (update_many (redeemable_row v i at) (redeemed_row a at) (tw_invitations w)),
              tw_members := tw_members w @ [m]\<rparr>"
    using redeem_outcome [OF step_redeem] by blast
  then show ?case
  proof cases
    case 2
    have "list_all2 follows (tw_invitations w) (snd (update_many (redeemable_row v i at) (redeemed_row a at) (tw_invitations w)))"
      by (rule update_follows) (auto simp: follows_def invitation_terms_def redeemed_row_def redeemable_row_def)
    then show ?thesis unfolding 2 by (intro extendsI [of _ _ "[m]" _ "[]"]) simp_all
  qed simp
next
  case (step_enrol down newId a t h at w r w')
  consider "w' = w" | m where "w' = w\<lparr>tw_members := tw_members w @ [m]\<rparr>"
    using enrol_outcome [OF step_enrol] by (auto simp: Let_def)
  then show ?case by cases (simp_all add: extends_members)
next
  case (step_audit w es)
  show ?case by (rule extendsI [of _ _ "[]" "tw_invitations w" "[]"]) simp_all
qed

lemma run_extends: "tenancy_run w w' \<Longrightarrow> tenancy_extends w w'"
proof (induction rule: rtranclp_induct)
  case (step y z)
  show ?case by (rule extends_trans [OF step.IH tenancy_step_extends [OF step.hyps(2)]])
qed simp

lemma sound_more: "invitation_sound ms i \<Longrightarrow> invitation_sound (ms @ ns) i"
  by (auto simp: invitation_sound_def split: option.splits)

lemma wf_invitations:
  assumes "tenancy_wf w" "list_all2 follows (tw_invitations w) rows" "\<And>i. i \<in> set rows \<Longrightarrow> invitation_sound (tw_members w) i"
  shows "tenancy_wf (w\<lparr>tw_invitations := rows\<rparr>)"
  using assms follows_keys [OF assms(2)] by (simp add: tenancy_wf_def)

lemma update_all:
  assumes "\<And>x. x \<in> set rows \<Longrightarrow> \<not> p x \<Longrightarrow> Q x" "\<And>x. x \<in> set rows \<Longrightarrow> p x \<Longrightarrow> Q (f x)" "y \<in> set (snd (update_many p f rows))"
  shows "Q y"
  using assms by (auto simp: update_many_def split: if_splits)

lemma new_pair:
  assumes "distinct (map (\<lambda>m. (tm_tenantId m, tm_userId m)) ms)" "\<forall>x \<in> set ms. \<not> member_conflicts m x"
  shows "distinct (map (\<lambda>m. (tm_tenantId m, tm_userId m)) (ms @ [m]))"
  using assms by (auto simp: member_conflicts_def)

lemma tenancy_step_wf: "tenancy_step w w' \<Longrightarrow> tenancy_wf w \<Longrightarrow> tenancy_wf w'"
proof (induction rule: tenancy_step.induct)
  case (step_create down newId a c w i rows)
  have r: "rows = tw_invitations w @ [new_invitation newId a c]"
    "\<forall>x \<in> set (tw_invitations w). \<not> invitation_conflicts (new_invitation newId a c) x"
    using create_rows [OF step_create.hyps] by auto
  have "invitation_sound ms (new_invitation newId a c)" for ms by (simp add: invitation_sound_def new_invitation_def own_tenant_def)
  then show ?case using step_create.prems r by (auto simp: tenancy_wf_def invitation_conflicts_def)
next
  case (step_revoke down a i at w r rows)
  obtain p where p: "\<forall>x. p x \<longrightarrow> ti_redeemedAt x = None \<and> ti_revokedAt x = None"
    and rows: "rows = snd (update_many p (\<lambda>i. i\<lparr>ti_revokedAt := Some at, ti_updatedAt := at\<rparr>) (tw_invitations w))"
    using revoke_invitation_rows [OF step_revoke.hyps] by blast
  have f: "list_all2 follows (tw_invitations w) rows"
    unfolding rows by (rule update_follows) (use p in \<open>auto simp: follows_def invitation_terms_def\<close>)
  have old: "\<And>x. x \<in> set (tw_invitations w) \<Longrightarrow> invitation_sound (tw_members w) x" using step_revoke.prems by (simp add: tenancy_wf_def)
  have "invitation_sound (tw_members w) y" if "y \<in> set rows" for y
  proof (rule update_all [OF _ _ that [unfolded rows]])
    fix x assume x: "x \<in> set (tw_invitations w)"
    show "invitation_sound (tw_members w) x" using old x .
    assume "p x"
    then have "ti_redeemedAt x = None" using p by blast
    then show "invitation_sound (tw_members w) (x\<lparr>ti_revokedAt := Some at, ti_updatedAt := at\<rparr>)"
      using old [OF x] by (simp add: invitation_sound_def)
  qed
  then show ?case using wf_invitations [OF step_revoke.prems f] by blast
next
  case (step_count down a hash at w b rows)
  obtain v where rows: "rows = snd (update_many (\<lambda>i. invitation_visible v hash i \<and> ir_tokenHash i = hash) (counted at) (tw_invitations w))"
    using count_rows [OF step_count.hyps] by blast
  have f: "list_all2 follows (tw_invitations w) rows"
    unfolding rows by (rule update_follows) (simp add: follows_def invitation_terms_def counted_def)
  have old: "\<And>x. x \<in> set (tw_invitations w) \<Longrightarrow> invitation_sound (tw_members w) x" using step_count.prems by (simp add: tenancy_wf_def)
  have c: "invitation_sound ms (counted at x) = invitation_sound ms x" for ms x by (simp add: invitation_sound_def counted_def split: option.split)
  have "invitation_sound (tw_members w) y" if "y \<in> set rows" for y
    using update_all [OF _ _ that [unfolded rows], of "invitation_sound (tw_members w)"] old c by blast
  then show ?case using wf_invitations [OF step_count.prems f] by blast
next
  case (step_redeem down role newId a i at w r w')
  consider "w' = w" | v m where "validateContext (redemption_context a i) tenant_keys = Inr v"
      "m = new_member newId (ti_tenantId i) (pa_userId a) (ti_roleHint i) at" "\<forall>x \<in> set (tw_members w). \<not> member_conflicts m x"
      "w' = w\<lparr>tw_invitations := snd (update_many (redeemable_row v i at) (redeemed_row a at) (tw_invitations w)),
              tw_members := tw_members w @ [m]\<rparr>"
    using redeem_outcome [OF step_redeem.hyps] by blast
  then show ?case
  proof cases
    case 1 then show ?thesis using step_redeem.prems by simp
  next
    case 2
    let ?rows = "snd (update_many (redeemable_row v i at) (redeemed_row a at) (tw_invitations w))"
    have f: "list_all2 follows (tw_invitations w) ?rows"
      by (rule update_follows) (auto simp: follows_def invitation_terms_def redeemed_row_def redeemable_row_def)
    have old: "invitation_sound (tw_members w @ [m]) x" if "x \<in> set (tw_invitations w)" for x
      using step_redeem.prems that sound_more by (auto simp: tenancy_wf_def)
    have new: "invitation_sound (tw_members w @ [m]) (redeemed_row a at x)" if "redeemable_row v i at x" for x
      using that 2(2) by (simp add: invitation_sound_def redeemed_row_def redeemable_row_def new_member_def own_user_def)
    have s: "\<forall>y \<in> set ?rows. invitation_sound (tw_members w @ [m]) y"
      using update_all [of "tw_invitations w" "redeemable_row v i at" "invitation_sound (tw_members w @ [m])"] old new by blast
    show ?thesis unfolding 2(4)
      using step_redeem.prems s follows_keys [OF f] new_pair [OF _ 2(3)] by (simp add: tenancy_wf_def)
  qed
next
  case (step_enrol down newId a t h at w r w')
  then show ?case using enrol_outcome [OF step_enrol.hyps] new_pair sound_more by (auto simp: tenancy_wf_def Let_def)
next
  case (step_audit w es)
  then show ?case by (simp add: tenancy_wf_def)
qed

lemma tenancy_run_wf: "tenancy_run w w' \<Longrightarrow> tenancy_wf w \<Longrightarrow> tenancy_wf w'"
  by (induction rule: rtranclp_induct) (auto intro: tenancy_step_wf)

section \<open>Redemption\<close>

lemma row_unique:
  assumes "tenancy_wf w" "x \<in> set (tw_invitations w)" "y \<in> set (tw_invitations w)"
  shows "ti_id x = ti_id y \<Longrightarrow> x = y" "ir_tokenHash x = ir_tokenHash y \<Longrightarrow> x = y"
  using assms unfolding tenancy_wf_def by (auto simp: distinct_map dest: inj_onD)

lemma later_row:
  assumes "tenancy_wf w" "tenancy_run w v" "x \<in> set (tw_invitations w)" "y \<in> set (tw_invitations v)" "ir_tokenHash y = ir_tokenHash x"
  shows "follows x y"
proof -
  obtain changed new where c: "tw_invitations v = changed @ new" "list_all2 follows (tw_invitations w) changed"
    using run_extends [OF assms(2)] unfolding tenancy_extends_def by blast
  obtain z where z: "z \<in> set changed" "follows x z"
    using c(2) assms(3) by (metis (no_types, lifting) in_set_conv_nth list_all2_conv_all_nth)
  have "z = y"
    using row_unique(2) [OF tenancy_run_wf [OF assms(2,1)], of z y] z c(1) assms(4,5) follows_fields(9) [OF z(2)] by auto
  then show ?thesis using z(2) by simp
qed

lemma find_token:
  assumes "invitations_findByTokenHash down a hash w = Some (Some i)"
  shows "\<exists>x \<in> set (tw_invitations w). ir_tokenHash x = hash \<and> i = tenant_invitation.truncate x"
  using assms unfolding invitations_findByTokenHash_def in_context_Some
  by (auto simp: mapped_row_def toInvitation_def split: option.splits if_splits dest!: find_first_Some)

lemma truncate_fields [simp]:
  "ti_id (tenant_invitation.truncate x) = ti_id x" "ti_tenantId (tenant_invitation.truncate x) = ti_tenantId x"
  "ti_email (tenant_invitation.truncate x) = ti_email x" "ti_roleHint (tenant_invitation.truncate x) = ti_roleHint x"
  "ti_expiresAt (tenant_invitation.truncate x) = ti_expiresAt x" "ti_redeemedAt (tenant_invitation.truncate x) = ti_redeemedAt x"
  "ti_revokedAt (tenant_invitation.truncate x) = ti_revokedAt x" "ti_attempts (tenant_invitation.truncate x) = ti_attempts x"
  "ti_maxAttempts (tenant_invitation.truncate x) = ti_maxAttempts x"
  by (simp_all add: tenant_invitation.defs)

lemma evaluate_Inr:
  "evaluateRedeemability i at email = Inr u \<longleftrightarrow> ti_revokedAt i = None \<and> ti_redeemedAt i = None \<and> at < ti_expiresAt i
     \<and> ti_attempts i < ti_maxAttempts i \<and> (\<exists>e. email = Some e \<and> normalizeInvitationEmail e = ti_email i)"
  by (auto simp: evaluateRedeemability_def split: option.splits)

lemma tenancy_read_eq: "tenancy_read f w = (r, w') \<longleftrightarrow> w' = w \<and> r = (case f w of None \<Rightarrow> Inl TENANCY_STORE_FAILURE | Some x \<Rightarrow> Inr x)"
  by (auto simp: tenancy_read_def split: option.splits)

lemma tenancy_audit_keeps:
  "tenancy_audit d e w = (r, w') \<Longrightarrow> tw_tenants w' = tw_tenants w \<and> tw_members w' = tw_members w \<and> tw_invitations w' = tw_invitations w"
  by (auto simp: tenancy_audit_def split: prod.splits sum.splits)

lemma refuse_fails: "refuse_redemption d a hash i reason w \<noteq> (Inr r, w')"
  unfolding refuse_redemption_def by (auto simp: thenE_Inr)

lemma redeem_success:
  assumes "redeemInvitation d token actor w = (Inr r, w')"
  shows "\<exists>a x e m ev w1. actor = Some a \<and> x \<in> set (tw_invitations w) \<and> ir_tokenHash x = yd_hashOf d token
     \<and> yd_verifiedEmailOf d (pa_userId a) = Some (Some e)
     \<and> evaluateRedeemability (tenant_invitation.truncate x) (yd_now d) (Some e) = Inr ()
     \<and> invitations_redeem (yd_down d INVITATION_REDEEM) (yd_role d) (yd_newId d) a (tenant_invitation.truncate x) (yd_now d) w
         = Some (REDEEMED m ev, w1) \<and> rd_membership r = m \<and> rd_tenantId r = ti_tenantId x
     \<and> tw_tenants w' = tw_tenants w1 \<and> tw_members w' = tw_members w1 \<and> tw_invitations w' = tw_invitations w1"
proof -
  obtain a where a: "actor = Some a" "requireRedeemer actor = Some a"
    using assms by (auto simp: redeemInvitation_def requireRedeemer_def split: option.splits if_splits)
  let ?hash = "yd_hashOf d token"
  obtain i where i: "invitations_findByTokenHash (yd_down d INVITATION_FIND) a ?hash w = Some (Some i)"
    and rest: "thenE (tenancy_read (\<lambda>w. yd_verifiedEmailOf d (pa_userId a))) (\<lambda>email.
             case evaluateRedeemability i (yd_now d) email of
               Inl reason \<Rightarrow> refuse_redemption d a ?hash i reason
             | Inr u \<Rightarrow> redeem_open d a i) w = (Inr r, w')"
    using assms a(2) by (auto simp: redeemInvitation_def Let_def thenE_Inr tenancy_read_eq split: option.splits if_splits)
  obtain email where email: "yd_verifiedEmailOf d (pa_userId a) = Some email"
    and open': "evaluateRedeemability i (yd_now d) email = Inr ()" "redeem_open d a i w = (Inr r, w')"
    using rest refuse_fails by (auto simp: thenE_Inr tenancy_read_eq split: option.splits sum.splits)
  obtain e where e: "email = Some e" using open'(1) unfolding evaluate_Inr by blast
  obtain x where x: "x \<in> set (tw_invitations w)" "ir_tokenHash x = ?hash" "i = tenant_invitation.truncate x"
    using find_token [OF i] by blast
  obtain res w1 where q: "invitations_redeem (yd_down d INVITATION_REDEEM) (yd_role d) (yd_newId d) a i (yd_now d) w = Some (res, w1)"
    and fin: "(case res of
       REDEEMER_IS_MEMBER \<Rightarrow> throwE ALREADY_MEMBER
     | LOST_RACE \<Rightarrow> throwE (INVITATION_NOT_REDEEMABLE REDEEM_ALREADY_REDEEMED)
     | REDEEMED m evidence \<Rightarrow>
         thenE (tenancy_audit d (redemption_entry d a i None (Some [(''membershipId'', tm_id m)]) ''SUCCESS'')) (\<lambda>failure.
           returnE \<lparr>rd_tenantId = ti_tenantId i, rd_membership = m, rd_evidence = evidence, rd_auditFailure = failure\<rparr>)) w1 = (Inr r, w')"
    using open'(2) by (auto simp: redeem_open_def thenE_Inr tenancy_write_def split: option.splits)
  obtain m ev where m: "res = REDEEMED m ev" using fin by (cases res) simp_all
  obtain failure where f: "tenancy_audit d (redemption_entry d a i None (Some [(''membershipId'', tm_id m)]) ''SUCCESS'') w1 = (Inr failure, w')"
    "r = \<lparr>rd_tenantId = ti_tenantId i, rd_membership = m, rd_evidence = ev, rd_auditFailure = failure\<rparr>"
    using fin unfolding m by (auto simp: thenE_Inr)
  show ?thesis using a(1) x email open'(1) e q m f(2) tenancy_audit_keeps [OF f(1)] by auto
qed

section \<open>What an actor sees\<close>

lemma actor_bound:
  assumes "validateContext (actor_context a) tenant_keys = Inr v"
  shows "bound_tenant v = Some (own_tenant a)" "bound_user v = Some (own_user a)"
proof -
  have m: "missing_keys (actor_context a) tenant_keys = []" and i: "invalid_keys (actor_context a) = []"
    using validateContext_Inr [OF assms] by blast+
  obtain t where t: "pa_tenantId a = Some t"
    using m by (cases "pa_tenantId a") (auto simp: missing_keys_def tenant_keys_def actor_context_def or_empty_def)
  show "bound_tenant v = Some (own_tenant a)"
    using bound_of_context(1) [OF assms i, of t] t by (simp add: own_tenant_def actor_context_def or_empty_def)
  show "bound_user v = Some (own_user a)"
    using bound_of_context(2) [OF assms i, of "pa_userId a"] by (simp add: own_user_def actor_context_def)
qed

lemma self_bound:
  assumes "validateContext (self_context a) [UserIdKey] = Inr v"
  shows "bound_tenant v = None" "bound_user v = Some (own_user a)"
proof -
  have i: "invalid_keys (self_context a) = []" using validateContext_Inr [OF assms] by blast
  show "bound_tenant v = None" using bound_of_context(3) [OF assms i] by (simp add: self_context_def)
  show "bound_user v = Some (own_user a)"
    using bound_of_context(2) [OF assms i, of "pa_userId a"] by (simp add: own_user_def self_context_def actor_context_def)
qed

lemma in_context_cong:
  "(\<And>v. validateContext c require = Inr v \<Longrightarrow> f v = g v) \<Longrightarrow> in_context c require down f = in_context c require down g"
  by (auto simp: in_context_def split: sum.splits)

lemma find_many_within: "(\<And>x. p x \<Longrightarrow> q x) \<Longrightarrow> find_many p order (filter q t) = find_many p order t"
proof -
  assume "\<And>x. p x \<Longrightarrow> q x"
  then have "filter p (filter q t) = filter p t" by (induction t) auto
  then show ?thesis by (simp add: find_many_def)
qed

lemma find_first_within: "(\<And>x. p x \<Longrightarrow> q x) \<Longrightarrow> find_first p order (filter q t) = find_first p order t"
  using find_many_within [of p q order t] by (simp add: find_first_def)

definition tenant_view :: "string \<Rightarrow> tenancy_world \<Rightarrow> tenant list \<times> tenant_membership list \<times> invitation_row list" where
  "tenant_view t w = (filter (\<lambda>r. tn_id r = t) (tw_tenants w), filter (\<lambda>r. tm_tenantId r = t) (tw_members w),
     filter (\<lambda>r. ti_tenantId r = t) (tw_invitations w))"

lemma tenants_findOwn_eq:
  "tenants_findOwn down a w = in_context (actor_context a) tenant_keys down (\<lambda>v.
     mapped_row toTenant (find_first (\<lambda>t. tn_id t = own_tenant a) stored_order (fst (tenant_view (own_tenant a) w))))"
  unfolding tenants_findOwn_def
proof (rule in_context_cong)
  fix v assume v: "validateContext (actor_context a) tenant_keys = Inr v"
  have p: "(\<lambda>t. tenant_visible v (tw_members w) t \<and> tn_id t = own_tenant a) = (\<lambda>t. tn_id t = own_tenant a)"
    using actor_bound [OF v] by (auto simp: tenant_visible_def fun_eq_iff)
  show "mapped_row toTenant (find_first (\<lambda>t. tenant_visible v (tw_members w) t \<and> tn_id t = own_tenant a) stored_order (tw_tenants w))
    = mapped_row toTenant (find_first (\<lambda>t. tn_id t = own_tenant a) stored_order (fst (tenant_view (own_tenant a) w)))" unfolding p by (simp add: tenant_view_def find_first_within)
qed

lemma members_findOwn_eq:
  "members_findOwn down a w = in_context (actor_context a) tenant_keys down (\<lambda>v.
     mapped_row toMembership (find_first (\<lambda>m. tm_tenantId m = own_tenant a \<and> tm_userId m = own_user a) stored_order
       (fst (snd (tenant_view (own_tenant a) w)))))"
  unfolding members_findOwn_def
proof (rule in_context_cong)
  fix v assume v: "validateContext (actor_context a) tenant_keys = Inr v"
  have p: "(\<lambda>m. member_visible v m \<and> tm_tenantId m = own_tenant a \<and> tm_userId m = own_user a) = (\<lambda>m. tm_tenantId m = own_tenant a \<and> tm_userId m = own_user a)"
    using actor_bound [OF v] by (auto simp: member_visible_def fun_eq_iff)
  show "mapped_row toMembership (find_first (\<lambda>m. member_visible v m \<and> tm_tenantId m = own_tenant a \<and> tm_userId m = own_user a) stored_order (tw_members w))
    = mapped_row toMembership (find_first (\<lambda>m. tm_tenantId m = own_tenant a \<and> tm_userId m = own_user a) stored_order (fst (snd (tenant_view (own_tenant a) w))))" unfolding p tenant_view_def fst_conv snd_conv by (subst find_first_within) auto
qed

lemma members_listForTenant_eq:
  "members_listForTenant down a w = in_context (actor_context a) tenant_keys down (\<lambda>v.
     map_rows toMembership (find_many (\<lambda>m. tm_tenantId m = own_tenant a) oldest_member (fst (snd (tenant_view (own_tenant a) w)))))"
  unfolding members_listForTenant_def
proof (rule in_context_cong)
  fix v assume v: "validateContext (actor_context a) tenant_keys = Inr v"
  have p: "(\<lambda>m. member_visible v m \<and> tm_tenantId m = own_tenant a) = (\<lambda>m. tm_tenantId m = own_tenant a)"
    using actor_bound [OF v] by (auto simp: member_visible_def fun_eq_iff)
  show "map_rows toMembership (find_many (\<lambda>m. member_visible v m \<and> tm_tenantId m = own_tenant a) oldest_member (tw_members w))
    = map_rows toMembership (find_many (\<lambda>m. tm_tenantId m = own_tenant a) oldest_member (fst (snd (tenant_view (own_tenant a) w))))" unfolding p by (simp add: tenant_view_def find_many_within)
qed

lemma membership_rows: "map_rows toMembership rows = Some ms \<Longrightarrow> ms = rows"
  by (induction rows arbitrary: ms) (auto simp: toMembership_def split: option.splits if_splits)

lemma update_elsewhere:
  assumes "\<And>x. p x \<Longrightarrow> \<not> q x \<and> \<not> q (f x)"
  shows "filter q (snd (update_many p f t)) = filter q t"
  using assms by (induction t) (auto simp: update_many_def)

lemma then_read:
  "thenE (tenancy_read f) k w = (case f w of None \<Rightarrow> (Inl TENANCY_STORE_FAILURE, w) | Some x \<Rightarrow> k x w)"
  by (simp add: thenE_def tenancy_read_def split: option.split)

definition gate_answer ::
  "tenancy_deps \<Rightarrow> policy_actor \<Rightarrow> string \<Rightarrow> tenant_membership option option \<Rightarrow> (tenancy_error, unit) outcome" where
  "gate_answer d a permission own = (case own of
     None \<Rightarrow> Inl TENANCY_STORE_FAILURE
   | Some None \<Rightarrow> Inl MEMBERSHIP_NOT_FOUND
   | Some (Some m) \<Rightarrow> if tm_state m \<noteq> ''ACTIVE'' then Inl MEMBERSHIP_NOT_FOUND
       else (case yd_policy d (Some (tenancy_subject a)) permission of
           POLICY_DENIED reason \<Rightarrow> Inl (NOT_AUTHORIZED permission reason) | POLICY_ALLOWED r \<Rightarrow> Inr ()))"

lemma member_gate_eq:
  "member_gate d a permission w = (gate_answer d a permission (members_findOwn (yd_down d MEMBER_FIND_OWN) a w), w)"
  unfolding member_gate_def then_read gate_answer_def
  by (simp split: option.split authz_decision.split)

lemma then_gate:
  "thenE (member_gate d a permission) k w =
     (case gate_answer d a permission (members_findOwn (yd_down d MEMBER_FIND_OWN) a w) of Inl e \<Rightarrow> (Inl e, w) | Inr u \<Rightarrow> k u w)"
  unfolding thenE_def member_gate_eq by (simp split: sum.split)

lemma audit_view: "tenant_view t (snd (tenancy_audit d e w)) = tenant_view t w"
  using tenancy_audit_keeps [of d e w] by (cases "tenancy_audit d e w") (simp add: tenant_view_def)

lemma then_audit_view:
  assumes "\<And>failure u. tenant_view t (snd (k failure u)) = tenant_view t u"
  shows "tenant_view t (snd (thenE (tenancy_audit d e) k w)) = tenant_view t w"
  using audit_view [of t d e w] assms by (auto simp: thenE_def split: prod.splits sum.splits)

lemma create_elsewhere:
  assumes "invitations_createForTenant down newId a c w = Some (i, rows)" "t \<noteq> own_tenant a"
  shows "tenant_view t (w\<lparr>tw_invitations := rows\<rparr>) = tenant_view t w"
  using create_rows [OF assms(1)] assms(2) by (simp add: tenant_view_def new_invitation_def)

lemma revoke_elsewhere:
  assumes "invitations_revoke down a i at w = Some (r, rows)" "t \<noteq> own_tenant a"
  shows "tenant_view t (w\<lparr>tw_invitations := rows\<rparr>) = tenant_view t w"
proof -
  obtain p where p: "\<forall>x. p x \<longrightarrow> ti_redeemedAt x = None \<and> ti_revokedAt x = None \<and> ti_tenantId x = own_tenant a"
    and rows: "rows = snd (update_many p (\<lambda>i. i\<lparr>ti_revokedAt := Some at, ti_updatedAt := at\<rparr>) (tw_invitations w))"
    using revoke_invitation_rows [OF assms(1)] by blast
  have "filter (\<lambda>r. ti_tenantId r = t) rows = filter (\<lambda>r. ti_tenantId r = t) (tw_invitations w)"
    unfolding rows by (rule update_elsewhere) (use p assms(2) in auto)
  then show ?thesis by (simp add: tenant_view_def)
qed

lemma requirePrincipal_Some: "requirePrincipal (Some a) = None \<or> requirePrincipal (Some a) = Some a"
  by (simp add: requirePrincipal_def)

lemma then_write_view:
  assumes "\<And>x w'. f w = Some (x, w') \<Longrightarrow> tenant_view t w' = tenant_view t w"
    "\<And>x u. tenant_view t (snd (k x u)) = tenant_view t u"
  shows "tenant_view t (snd (thenE (tenancy_write f) k w)) = tenant_view t w"
  using assms(1) assms(2) by (cases "f w") (auto simp: thenE_def tenancy_write_def)

lemma then_gate_view:
  "(\<And>u. tenant_view t (snd (k u w)) = tenant_view t w) \<Longrightarrow> tenant_view t (snd (thenE (member_gate d a permission) k w)) = tenant_view t w"
  by (simp add: then_gate split: sum.split)

end
