(* ===== verification/Tenancy_Properties.thy ===== *)
theory Tenancy_Properties
  imports Tenancy_Laws Authorization_Laws
begin

text \<open>
  What tenancy promises: an invitation admits the address it was sent to, once; a member operation sees its own tenant only;
  the tenant context offers exactly the usable memberships; wrong addresses use an invitation up.
\<close>

section \<open>A sample tenant\<close>

definition uuid_u :: string where "uuid_u = ''0d000000-0000-7000-8000-000000000004''"

definition acme :: tenant where
  "acme = \<lparr>tn_id = uuid_t, tn_type = ''WHITE_LABEL'', tn_name = ''Acme'', tn_status = ''ACTIVE'',
     tn_defaultOperatingEntityId = None, tn_createdAt = 0, tn_updatedAt = 0\<rparr>"

definition acme_owner :: tenant_membership where
  "acme_owner = new_member uuid_a uuid_t uuid_a ''MEMBER'' 0"

definition acme_invitation :: invitation_row where
  "acme_invitation = \<lparr>ti_id = uuid_b, ti_tenantId = uuid_t, ti_email = ''b@x.io'', ti_roleHint = ''AUDITOR'', ti_expiresAt = 100,
     ti_redeemedAt = None, ti_redeemedBy = None, ti_revokedAt = None, ti_attempts = 0, ti_maxAttempts = 5,
     ti_createdBy = uuid_a, ti_createdAt = 0, ti_updatedAt = 0, ir_tokenHash = ''#aaaaaaaaaaaaaaaaaaaa''\<rparr>"

definition acme_world :: tenancy_world where
  "acme_world = \<lparr>tw_tenants = [acme], tw_members = [acme_owner], tw_invitations = [acme_invitation], tw_audit = []\<rparr>"

definition sample_tenancy :: tenancy_deps where
  "sample_tenancy = \<lparr>yd_down = (\<lambda>c. False), yd_now = 10, yd_policy = (\<lambda>a p. POLICY_ALLOWED ''TENANT_ADMIN''),
     yd_audit = sample_audit_deps, yd_hashOf = (\<lambda>s. CHR ''#'' # s), yd_rawToken = ''cccccccccccccccccccc'', yd_newId = uuid_u,
     yd_verifiedEmailOf = (\<lambda>u. Some (if u = uuid_b then Some ''B@x.io'' else Some ''eve@x.io'')),
     yd_role = \<lparr>dr_name = ''karar_app'', dr_bypassRls = False, dr_superuser = False\<rparr>, yd_raced = [],
     yd_firstPartyTenantId = uuid_t, yd_iso = (\<lambda>t. ''at'')\<rparr>"

definition invitee :: policy_actor where
  "invitee = \<lparr>pa_userId = uuid_b, pa_tenantId = None, pa_sessionId = None, pa_requestId = None\<rparr>"

definition acme_token :: string where "acme_token = ''aaaaaaaaaaaaaaaaaaaa''"

lemma acme_wf: "tenancy_wf acme_world"
proof -
  have "pg_uuid uuid_b = uuid_b" "pg_uuid uuid_t = uuid_t" by code_simp+
  then show ?thesis by (simp add: tenancy_wf_def acme_world_def invitation_sound_def acme_invitation_def)
qed

section \<open>Properties\<close>

text \<open>
  A redemption succeeds only for an authenticated user whose verified address is the invitation's, while it is neither
  revoked, redeemed nor expired and attempts are left; it then adds exactly one membership, the redeemer's, in the
  invitation's tenant under its role hint, and closes that invitation.  After it, whatever other transactions
  follow, no presentation of the same token by anyone succeeds again.
\<close>

theorem invitation_admits_its_invitee_once:
  assumes "tenancy_wf w" "redeemInvitation d token actor w = (Inr r, w')"
  shows "(\<exists>a x e. actor = Some a \<and> x \<in> set (tw_invitations w) \<and> ir_tokenHash x = yd_hashOf d token
       \<and> ti_revokedAt x = None \<and> ti_redeemedAt x = None \<and> yd_now d < ti_expiresAt x \<and> ti_attempts x < ti_maxAttempts x
       \<and> yd_verifiedEmailOf d (pa_userId a) = Some (Some e) \<and> normalizeInvitationEmail e = ti_email x
       \<and> rd_membership r = new_member (yd_newId d) (ti_tenantId x) (pa_userId a) (ti_roleHint x) (yd_now d)
       \<and> tw_members w' = tw_members w @ [rd_membership r]
       \<and> tw_invitations w' = map (\<lambda>y. if y = x then redeemed_row a (yd_now d) y else y) (tw_invitations w))
     \<and> (tenancy_run w' v \<and> yd_hashOf e t = yd_hashOf d token \<longrightarrow> (\<nexists>q v'. redeemInvitation e t b v = (Inr q, v')))"
proof -
  obtain a x em m ev w1 where s: "actor = Some a" "x \<in> set (tw_invitations w)" "ir_tokenHash x = yd_hashOf d token"
    "yd_verifiedEmailOf d (pa_userId a) = Some (Some em)"
    "evaluateRedeemability (tenant_invitation.truncate x) (yd_now d) (Some em) = Inr ()"
    and run: "invitations_redeem (yd_down d INVITATION_REDEEM) (yd_role d) (yd_newId d) a (tenant_invitation.truncate x) (yd_now d) w
         = Some (REDEEMED m ev, w1)" and r: "rd_membership r = m"
    and w': "tw_tenants w' = tw_tenants w1" "tw_members w' = tw_members w1" "tw_invitations w' = tw_invitations w1"
    using redeem_success [OF assms(2)] by blast
  let ?i = "tenant_invitation.truncate x"
  obtain vv where o: "m = new_member (yd_newId d) (ti_tenantId x) (pa_userId a) (ti_roleHint x) (yd_now d)"
    "\<exists>y \<in> set (tw_invitations w). redeemable_row vv ?i (yd_now d) y"
    "w1 = w\<lparr>tw_invitations := snd (update_many (redeemable_row vv ?i (yd_now d)) (redeemed_row a (yd_now d)) (tw_invitations w)),
            tw_members := tw_members w @ [m]\<rparr>"
    using redeem_outcome [OF run] by auto
  have canon: "pg_uuid (ti_id x) = ti_id x" using assms(1) s(2) by (auto simp: tenancy_wf_def invitation_sound_def)
  have only: "y = x" if "y \<in> set (tw_invitations w)" "redeemable_row vv ?i (yd_now d) y" for y
    using row_unique(1) [OF assms(1) that(1) s(2)] that(2) canon by (simp add: redeemable_row_def)
  have hit: "redeemable_row vv ?i (yd_now d) x" using o(2) only by blast
  have rows: "tw_invitations w1 = map (\<lambda>y. if y = x then redeemed_row a (yd_now d) y else y) (tw_invitations w)"
    unfolding o(3) update_many_def using only hit by auto
  let ?x = "redeemed_row a (yd_now d) x"
  have x': "?x \<in> set (tw_invitations w')" unfolding w'(3) rows using s(2) by force
  have run': "tenancy_run w w'" using always_redeemInvitation [of d token actor] assms(2) unfolding always_def by (metis snd_conv)
  have later: "\<not> redeemInvitation e t b v = (Inr q, v')" if v: "tenancy_run w' v" "yd_hashOf e t = yd_hashOf d token" for q v'
  proof
    assume "redeemInvitation e t b v = (Inr q, v')"
    then obtain y em' where y: "y \<in> set (tw_invitations v)" "ir_tokenHash y = yd_hashOf e t"
      "evaluateRedeemability (tenant_invitation.truncate y) (yd_now e) (Some em') = Inr ()"
      using redeem_success by blast
    have "follows ?x y" using later_row [OF tenancy_run_wf [OF run' assms(1)] v(1) x' y(1)] y(2) s(3) v(2) by (simp add: redeemed_row_def)
    then show False using y(3) unfolding evaluate_Inr by (simp add: follows_def redeemed_row_def)
  qed
  show ?thesis using s o(1) rows w' r o(3) later unfolding evaluate_Inr by auto
qed

theorem invitation_admits_its_invitee_once_witness:
  "\<exists>r w'. redeemInvitation sample_tenancy acme_token (Some invitee) acme_world = (Inr r, w')
     \<and> tw_members w' = [acme_owner, new_member uuid_u uuid_t uuid_b ''AUDITOR'' 10]
     \<and> \<not> (\<exists>q v'. redeemInvitation sample_tenancy acme_token (Some invitee) w' = (Inr q, v'))"
proof -
  have "result_isOk (fst (redeemInvitation sample_tenancy acme_token (Some invitee) acme_world))" by code_simp
  then obtain r w' where r: "redeemInvitation sample_tenancy acme_token (Some invitee) acme_world = (Inr r, w')"
    by (cases "redeemInvitation sample_tenancy acme_token (Some invitee) acme_world"; cases "fst (redeemInvitation sample_tenancy acme_token (Some invitee) acme_world)") auto
  have "tw_members (snd (redeemInvitation sample_tenancy acme_token (Some invitee) acme_world))
      = [acme_owner, new_member uuid_u uuid_t uuid_b ''AUDITOR'' 10]" by code_simp
  then show ?thesis
    using invitation_admits_its_invitee_once [OF acme_wf r, of w' sample_tenancy acme_token "Some invitee"] r by simp
qed

text \<open>
  What a tenant-bound caller reads is a function of its own tenant's rows: two databases that agree on them give the same
  tenant, membership and member list, the list is exactly the tenant's members, and it is shown only to a caller
  with an ACTIVE row and the permission.  Creating or revoking an invitation leaves every other tenant's rows as they were.
\<close>

theorem members_see_their_tenant_only:
  assumes "tenant_view (own_tenant a) w = tenant_view (own_tenant a) v"
  shows "fst (getOwnTenant d (Some a) w) = fst (getOwnTenant d (Some a) v)
    \<and> fst (listMembers d (Some a) w) = fst (listMembers d (Some a) v)
    \<and> (\<forall>ms. fst (listMembers d (Some a) w) = Inr ms \<longrightarrow>
         set ms = {m \<in> set (tw_members w). tm_tenantId m = own_tenant a}
         \<and> (\<exists>m \<in> set ms. tm_userId m = own_user a \<and> tm_state m = ''ACTIVE'')
         \<and> (\<exists>role. yd_policy d (Some (tenancy_subject a)) ''tenancy.member.read'' = POLICY_ALLOWED role))
    \<and> (\<forall>t. t \<noteq> own_tenant a \<longrightarrow> tenant_view t (snd (createInvitation d i (Some a) w)) = tenant_view t w
         \<and> tenant_view t (snd (revokeInvitation d j (Some a) w)) = tenant_view t w)"
proof -
  have eqs: "tenants_findOwn down a w = tenants_findOwn down a v" "members_findOwn down a w = members_findOwn down a v"
    "members_listForTenant down a w = members_listForTenant down a v" for down
    unfolding tenants_findOwn_eq members_findOwn_eq members_listForTenant_eq assms by simp_all
  have one: "fst (getOwnTenant d (Some a) w) = fst (getOwnTenant d (Some a) v)"
    using requirePrincipal_Some [of a] unfolding getOwnTenant_def by (auto simp: then_read eqs split: option.split)
  have two: "fst (listMembers d (Some a) w) = fst (listMembers d (Some a) v)"
    using requirePrincipal_Some [of a] unfolding listMembers_def by (auto simp: then_gate tenancy_read_def eqs split: option.split sum.split)
  have three: "set ms = {m \<in> set (tw_members w). tm_tenantId m = own_tenant a}
         \<and> (\<exists>m \<in> set ms. tm_userId m = own_user a \<and> tm_state m = ''ACTIVE'')
         \<and> (\<exists>role. yd_policy d (Some (tenancy_subject a)) ''tenancy.member.read'' = POLICY_ALLOWED role)"
    if "fst (listMembers d (Some a) w) = Inr ms" for ms
  proof -
    have g: "gate_answer d a ''tenancy.member.read'' (members_findOwn (yd_down d MEMBER_FIND_OWN) a w) = Inr ()"
      and l: "members_listForTenant (yd_down d MEMBER_LIST) a w = Some ms"
      using that requirePrincipal_Some [of a] by (auto simp: listMembers_def then_gate tenancy_read_def split: option.splits sum.splits)
    have ms: "set ms = {m \<in> set (tw_members w). tm_tenantId m = own_tenant a}"
      using l membership_rows unfolding members_listForTenant_eq in_context_Some by (fastforce simp: tenant_view_def)
    obtain m where m: "members_findOwn (yd_down d MEMBER_FIND_OWN) a w = Some (Some m)" "tm_state m = ''ACTIVE''"
      and role: "\<exists>role. yd_policy d (Some (tenancy_subject a)) ''tenancy.member.read'' = POLICY_ALLOWED role"
      using g by (auto simp: gate_answer_def split: option.splits if_splits authz_decision.splits)
    have "m \<in> set (tw_members w)" "tm_tenantId m = own_tenant a" "tm_userId m = own_user a"
      using m(1) unfolding members_findOwn_def in_context_Some
      by (auto simp: mapped_row_def toMembership_def split: option.splits if_splits dest!: find_first_Some)
    then show ?thesis using ms m(2) role by blast
  qed
  have four: "tenant_view t (snd (createInvitation d i (Some a) w)) = tenant_view t w" if "t \<noteq> own_tenant a" for t
  proof -
    have v: "tenant_view t (snd (thenE (tenancy_audit d e) (\<lambda>failure. returnE (g failure)) u)) = tenant_view t u" for e g u
      by (rule then_audit_view) simp
    show ?thesis using requirePrincipal_Some [of a] create_elsewhere [OF _ that] unfolding createInvitation_def
      by (auto simp: invitations_written_def v split: sum.split intro!: then_gate_view then_write_view)
  qed
  have five: "tenant_view t (snd (revokeInvitation d j (Some a) w)) = tenant_view t w" if "t \<noteq> own_tenant a" for t
  proof -
    have v: "tenant_view t (snd (thenE (tenancy_audit d e) (\<lambda>failure. returnE (g failure)) u)) = tenant_view t u" for e g u
      by (rule then_audit_view) simp
    show ?thesis using requirePrincipal_Some [of a] revoke_elsewhere [OF _ that] unfolding revokeInvitation_def
      by (auto simp: invitations_written_def v split: option.split intro!: then_gate_view then_write_view)
  qed
  show ?thesis using one two three four five by blast
qed

definition owner_actor :: policy_actor where
  "owner_actor = invitee\<lparr>pa_userId := uuid_a, pa_tenantId := Some uuid_t\<rparr>"

definition crowded_world :: tenancy_world where
  "crowded_world = acme_world\<lparr>tw_members := [new_member uuid_u uuid_u uuid_a ''MEMBER'' 0, acme_owner]\<rparr>"

theorem members_see_their_tenant_only_witness:
  "fst (listMembers sample_tenancy (Some owner_actor) crowded_world) = Inr [acme_owner]
   \<and> fst (getOwnTenant sample_tenancy (Some owner_actor) crowded_world) = Inr (acme, acme_owner)"
proof -
  have v: "tenant_view (own_tenant owner_actor) acme_world = tenant_view (own_tenant owner_actor) crowded_world" by code_simp
  have "fst (listMembers sample_tenancy (Some owner_actor) acme_world) = Inr [acme_owner]"
    "fst (getOwnTenant sample_tenancy (Some owner_actor) acme_world) = Inr (acme, acme_owner)" by code_simp+
  then show ?thesis using members_see_their_tenant_only [OF v, of sample_tenancy] by simp
qed

section \<open>The tenant context\<close>

text \<open>A membership the caller may bind: its own, active now, in a tenant that is ACTIVE.\<close>

definition usable :: "tenancy_world \<Rightarrow> millis \<Rightarrow> policy_actor \<Rightarrow> tenant_membership \<Rightarrow> bool" where
  "usable w now a m \<longleftrightarrow> m \<in> set (tw_members w) \<and> tm_userId m = own_user a \<and> membershipActiveAt m now
     \<and> (\<exists>t \<in> set (tw_tenants w). tn_id t = tm_tenantId m \<and> tn_status t = ''ACTIVE'')"

definition offered :: "tenant_context \<Rightarrow> tenant_choice list" where
  "offered c = (case c of UNBOUND \<Rightarrow> [] | AUTO_BIND t choice \<Rightarrow> [choice] | TENANT_SELECTION_REQUIRED choices \<Rightarrow> choices)"

definition canonical_tenants :: "tenancy_world \<Rightarrow> bool" where
  "canonical_tenants w \<longleftrightarrow> distinct (map tn_id (tw_tenants w)) \<and> (\<forall>t \<in> set (tw_tenants w). pg_uuid (tn_id t) = tn_id t)
     \<and> (\<forall>m \<in> set (tw_members w). pg_uuid (tm_tenantId m) = tm_tenantId m)"

definition choice_of :: "tenancy_world \<Rightarrow> tenant_membership \<Rightarrow> tenant_choice" where
  "choice_of w m = \<lparr>tc_tenantId = tm_tenantId m,
     tc_name = (case find_first (\<lambda>t. tn_id t = tm_tenantId m) stored_order (tw_tenants w) of None \<Rightarrow> [] | Some t \<Rightarrow> tn_name t),
     tc_roleHint = tm_roleHint m\<rparr>"

lemma find_for_member:
  assumes "canonical_tenants w" "m \<in> set (tw_members w)" "tm_userId m = own_user a" "membershipActiveAt m now"
    "tenants_findForMember down a (tm_tenantId m) w = Some q"
  shows "q = find_first (\<lambda>t. tn_id t = tm_tenantId m) stored_order (tw_tenants w)"
proof -
  have c: "pg_uuid (tm_tenantId m) = tm_tenantId m" using assms(1,2) by (simp add: canonical_tenants_def)
  obtain v where v: "validateContext (self_context a) [UserIdKey] = Inr v"
    and body: "mapped_row toTenant (find_first (\<lambda>t. tenant_visible v (tw_members w) t \<and> tn_id t = pg_uuid (tm_tenantId m)) stored_order (tw_tenants w)) = Some q"
    using assms(5) unfolding tenants_findForMember_def in_context_Some by blast
  have "tenant_visible v (tw_members w) t" if "tn_id t = tm_tenantId m" for t
    using assms(2-4) that self_bound(2) [OF v] by (auto simp: tenant_visible_def list_ex_iff membershipActiveAt_def split: if_splits)
  then have p: "(\<lambda>t. tenant_visible v (tw_members w) t \<and> tn_id t = pg_uuid (tm_tenantId m)) = (\<lambda>t. tn_id t = tm_tenantId m)"
    using c by (auto simp: fun_eq_iff)
  show ?thesis using body unfolding p by (auto simp: mapped_row_def toTenant_def split: option.splits if_splits)
qed

lemma choices_exact:
  assumes "canonical_tenants w" "\<And>m. m \<in> set ms \<Longrightarrow> m \<in> set (tw_members w) \<and> tm_userId m = own_user a \<and> membershipActiveAt m now"
    "tenant_choices d a ms w = (Inr cs, w')"
  shows "w' = w \<and> map snd cs = map (choice_of w) (filter (usable w now a) ms) \<and> list_all (\<lambda>c. fst c = tc_tenantId (snd c)) cs"
  using assms(2,3)
proof (induction ms arbitrary: cs)
  case Nil then show ?case by simp
next
  case (Cons m ms)
  obtain q rest where q: "tenants_findForMember (yd_down d TENANT_FIND_FOR_MEMBER) a (tm_tenantId m) w = Some q"
    and rest: "tenant_choices d a ms w = (Inr rest, w')"
    and cs: "cs = (case q of None \<Rightarrow> rest | Some t \<Rightarrow> if tn_status t \<noteq> ''ACTIVE'' then rest
       else (tm_tenantId m, \<lparr>tc_tenantId = tm_tenantId m, tc_name = tn_name t, tc_roleHint = tm_roleHint m\<rparr>) # rest)"
    using Cons.prems(2) by (auto simp: then_read thenE_Inr split: option.splits)
  have m: "m \<in> set (tw_members w)" "tm_userId m = own_user a" "membershipActiveAt m now" using Cons.prems(1) [of m] by simp_all
  have f: "q = find_first (\<lambda>t. tn_id t = tm_tenantId m) stored_order (tw_tenants w)"
    using find_for_member [OF assms(1) m q] .
  have u: "usable w now a m \<longleftrightarrow> (\<exists>t. q = Some t \<and> tn_status t = ''ACTIVE'')"
  proof
    assume "usable w now a m"
    then obtain t where t: "t \<in> set (tw_tenants w)" "tn_id t = tm_tenantId m" "tn_status t = ''ACTIVE''" unfolding usable_def by blast
    have "y = t" if "y \<in> set (tw_tenants w)" "tn_id y = tm_tenantId m" for y
    proof -
      have "inj_on tn_id (set (tw_tenants w))" using assms(1) by (simp add: canonical_tenants_def distinct_map)
      then show ?thesis using that t(1,2) by (metis inj_onD)
    qed
    then have "q = Some t" unfolding f by (rule find_first_unique [of t _ "\<lambda>t. tn_id t = tm_tenantId m", OF t(1) t(2)])
    then show "\<exists>t. q = Some t \<and> tn_status t = ''ACTIVE''" using t(3) by blast
  next
    assume "\<exists>t. q = Some t \<and> tn_status t = ''ACTIVE''"
    then show "usable w now a m" using m unfolding f usable_def by (auto dest!: find_first_Some)
  qed
  have "w' = w \<and> map snd rest = map (choice_of w) (filter (usable w now a) ms) \<and> list_all (\<lambda>c. fst c = tc_tenantId (snd c)) rest"
    using Cons.IH [OF _ rest] Cons.prems(1) by simp
  moreover have "choice_of w m = \<lparr>tc_tenantId = tm_tenantId m, tc_name = tn_name t, tc_roleHint = tm_roleHint m\<rparr>" if "q = Some t" for t
    using that by (simp add: choice_of_def f)
  ultimately show ?case using u unfolding cs by (auto split: option.splits)
qed

text \<open>
  The tenant context offers exactly the caller's usable memberships, oldest first: nothing is bound when there is none,
  the one is bound when there is one, and a choice is asked for otherwise.  A membership of another user,
  suspended, out of its window or in a tenant that is not ACTIVE is never offered, and resolving changes nothing.
\<close>

theorem tenant_context_offers_the_usable:
  assumes "canonical_tenants w" "resolveTenantContext d (Some a) w = (Inr c, w')"
  shows "w' = w
    \<and> offered c = map (choice_of w) (filter (usable w (yd_now d) a) (find_many (\<lambda>m. tm_userId m = own_user a) oldest_member (tw_members w)))
    \<and> (c = UNBOUND \<longleftrightarrow> \<not> (\<exists>m. usable w (yd_now d) a m))
    \<and> ((\<exists>t choice. c = AUTO_BIND t choice) \<longleftrightarrow> length (offered c) = 1)
    \<and> (\<forall>t choice. c = AUTO_BIND t choice \<longrightarrow> t = tc_tenantId choice)"
proof -
  let ?own = "find_many (\<lambda>m. tm_userId m = own_user a) oldest_member (tw_members w)"
  have req: "requireAuthenticated (Some a) = Some a" using assms(2) by (simp add: resolveTenantContext_def requireAuthenticated_def split: if_splits)
  obtain own cs where own: "members_listOwnAcrossTenants (yd_down d MEMBER_LIST_OWN) a w = Some own"
    and cs: "tenant_choices d a (filter (\<lambda>m. membershipActiveAt m (yd_now d)) own) w = (Inr cs, w')" and c: "c = resolved_context cs"
    using assms(2) by (auto simp: resolveTenantContext_def req then_read thenE_Inr split: option.splits)
  obtain v where v: "validateContext (self_context a) [UserIdKey] = Inr v"
    and rows: "map_rows toMembership (find_many (\<lambda>m. member_visible v m \<and> tm_userId m = own_user a) oldest_member (tw_members w)) = Some own"
    using own unfolding members_listOwnAcrossTenants_def in_context_Some by blast
  have "(\<lambda>m. member_visible v m \<and> tm_userId m = own_user a) = (\<lambda>m. tm_userId m = own_user a)"
    using self_bound(2) [OF v] by (auto simp: member_visible_def fun_eq_iff)
  then have o: "own = ?own" using membership_rows rows by simp
  have mem: "m \<in> set (tw_members w) \<and> tm_userId m = own_user a \<and> membershipActiveAt m (yd_now d)"
    if "m \<in> set (filter (\<lambda>m. membershipActiveAt m (yd_now d)) own)" for m
    using that unfolding o by simp
  have ex: "w' = w" "map snd cs = map (choice_of w) (filter (usable w (yd_now d) a) (filter (\<lambda>m. membershipActiveAt m (yd_now d)) own))"
    "list_all (\<lambda>c. fst c = tc_tenantId (snd c)) cs"
    using choices_exact [OF assms(1) mem cs] by blast+
  have u: "filter (usable w (yd_now d) a) (filter (\<lambda>m. membershipActiveAt m (yd_now d)) own) = filter (usable w (yd_now d) a) own"
    by (induction own) (auto simp: usable_def)
  have off: "offered c = map snd cs" unfolding c resolved_context_def offered_def by (auto split: list.split)
  have none: "cs = [] \<longleftrightarrow> \<not> (\<exists>m. usable w (yd_now d) a m)"
  proof -
    have "map snd cs = map (choice_of w) (filter (usable w (yd_now d) a) ?own)" using ex(2) u o by simp
    then have "cs = [] \<longleftrightarrow> filter (usable w (yd_now d) a) ?own = []" by (cases cs; cases "filter (usable w (yd_now d) a) ?own") simp_all
    also have "\<dots> \<longleftrightarrow> \<not> (\<exists>m. usable w (yd_now d) a m)" by (auto simp: filter_empty_conv usable_def)
    finally show ?thesis .
  qed
  have unb: "c = UNBOUND \<longleftrightarrow> cs = []" unfolding c resolved_context_def by (auto split: list.split)
  have one: "(\<exists>t choice. c = AUTO_BIND t choice) \<longleftrightarrow> length (offered c) = 1"
    unfolding off unfolding c resolved_context_def by (auto split: list.split)
  have ids: "\<forall>t choice. c = AUTO_BIND t choice \<longrightarrow> t = tc_tenantId choice"
    using ex(3) unfolding c resolved_context_def by (auto split: list.splits)
  show ?thesis using ex(1,2) u o off none unb one ids by simp
qed

theorem tenant_context_offers_the_usable_witness:
  "\<exists>c. resolveTenantContext sample_tenancy (Some owner_actor) acme_world = (Inr c, acme_world) \<and> length (offered c) = 1
     \<and> c = AUTO_BIND (tc_tenantId (choice_of acme_world acme_owner)) (choice_of acme_world acme_owner)"
proof -
  have can: "canonical_tenants acme_world"
  proof -
    have "pg_uuid uuid_t = uuid_t" by code_simp
    then show ?thesis by (simp add: canonical_tenants_def acme_world_def acme_def acme_owner_def new_member_def)
  qed
  have c: "fst (resolveTenantContext sample_tenancy (Some owner_actor) acme_world)
      = Inr (AUTO_BIND (tc_tenantId (choice_of acme_world acme_owner)) (choice_of acme_world acme_owner))" by code_simp
  then obtain w' where w': "resolveTenantContext sample_tenancy (Some owner_actor) acme_world
      = (Inr (AUTO_BIND (tc_tenantId (choice_of acme_world acme_owner)) (choice_of acme_world acme_owner)), w')"
    by (cases "resolveTenantContext sample_tenancy (Some owner_actor) acme_world") simp
  show ?thesis using tenant_context_offers_the_usable [OF can w'] w' by auto
qed

end
