(* ===== verification/Tenant_Switch.thy ===== *)
theory Tenant_Switch
  imports Tenancy
begin

text \<open>
  \<open>SwitchTenant\<close> with the ports it drives bound as \<open>apps/api/src/composition/phase3-modules.ts\<close> binds them: tenancy verifies
  the target, identity replaces the session.  The two modules share no transaction, so the world is a pair, and between
  the replacement and the second verification other transactions of tenancy may commit (\<open>meanwhile\<close>).  The two halves
  have environments of their own: the clock moves, and a call may fail the second time only.
\<close>

record binding_world =
  bw_tenancy :: tenancy_world
  bw_identity :: identity_world

type_synonym 'a binding_effect = "(binding_world, tenancy_error, 'a) effect"

definition on_tenancy :: "'a tenancy_effect \<Rightarrow> 'a binding_effect" where
  "on_tenancy m = (\<lambda>w. case m (bw_tenancy w) of (r, t) \<Rightarrow> (r, w\<lparr>bw_tenancy := t\<rparr>))"

text \<open>What the session ports return as an error result; every other failure of theirs is a throw, which the use case catches.\<close>

fun is_session_denial :: "identity_error \<Rightarrow> bool" where
  "is_session_denial SESSION_NOT_FOUND = True"
| "is_session_denial NOT_BOUND = True"
| "is_session_denial ACCOUNT_NOT_ACTIVE = True"
| "is_session_denial REBIND_CONFLICT = True"
| "is_session_denial (ALREADY_BOUND t) = True"
| "is_session_denial BIND_CONFLICT = True"
| "is_session_denial e = False"

definition session_port :: "'a identity_effect \<Rightarrow> (identity_error + 'a) binding_effect" where
  "session_port m = (\<lambda>w. case m (bw_identity w) of (r, i) \<Rightarrow>
     (case r of
        Inr x \<Rightarrow> (Inr (Inr x), w\<lparr>bw_identity := i\<rparr>)
      | Inl e \<Rightarrow> if is_session_denial e then (Inr (Inl e), w\<lparr>bw_identity := i\<rparr>)
                else (Inl TENANCY_STORE_FAILURE, w\<lparr>bw_identity := i\<rparr>)))"

text \<open>The own ACTIVE membership row, and the ACTIVE tenant behind it.\<close>

definition verifyTarget :: "tenancy_deps \<Rightarrow> policy_actor \<Rightarrow> string \<Rightarrow> bool tenancy_effect" where
  "verifyTarget d a target =
     thenE (tenancy_read (members_findOwnInTenant (yd_down d MEMBER_FIND_IN_TENANT) a target)) (\<lambda>m.
     if (case m of None \<Rightarrow> True | Some membership \<Rightarrow> \<not> membershipActiveAt membership (yd_now d)) then returnE False
     else thenE (tenancy_read (tenants_findForMember (yd_down d TENANT_FIND_FOR_MEMBER) a target)) (\<lambda>t.
       returnE (case t of None \<Rightarrow> False | Some tenant \<Rightarrow> tn_status tenant = ''ACTIVE'')))"

record switch_env =
  sx_before :: tenancy_deps
  sx_after :: tenancy_deps
  sx_identity :: identity_deps
  sx_now :: millis
  sx_meanwhile :: "tenancy_world \<Rightarrow> tenancy_world"
  sx_client :: client_context

record tenant_switched =
  ts_session :: issued_session
  ts_previousTenantId :: string
  ts_tenantId :: string

definition tenant_switch_entry :: "tenancy_deps \<Rightarrow> policy_actor \<Rightarrow> string \<Rightarrow> string option \<Rightarrow> string \<Rightarrow> trail_entry" where
  "tenant_switch_entry d a target reason result =
     tenancy_entry d a target ''tenancy.tenant.switch'' ''tenant_membership'' target reason None result"

definition revoke_replacement :: "switch_env \<Rightarrow> policy_actor \<Rightarrow> tenant_rebound \<Rightarrow> (identity_error + unit) binding_effect" where
  "revoke_replacement x a r =
     session_port (revokeSession (sx_identity x) (sx_now x) (pa_userId a) (is_sessionId (tr_session r)) (sx_client x))"

text \<open>The second verification failed: the replacement goes, and the denial is recorded.\<close>

definition switch_denied :: "switch_env \<Rightarrow> policy_actor \<Rightarrow> string \<Rightarrow> tenant_rebound \<Rightarrow> tenant_switched binding_effect" where
  "switch_denied x a target r =
     thenE (revoke_replacement x a r) (\<lambda>ignored.
     thenE (on_tenancy (tenancy_audit (sx_after x)
         (tenant_switch_entry (sx_after x) a target (Some ''membership_revoked_concurrently'') ''DENIED''))) (\<lambda>failure.
       throwE (if failure \<noteq> None then TENANCY_STORE_FAILURE else MEMBERSHIP_REVOKED_CONCURRENTLY)))"

definition switch_recorded :: "switch_env \<Rightarrow> policy_actor \<Rightarrow> string \<Rightarrow> tenant_rebound \<Rightarrow> tenant_switched binding_effect" where
  "switch_recorded x a target r =
     thenE (on_tenancy (tenancy_audit (sx_after x)
         ((tenant_switch_entry (sx_after x) a target None ''SUCCESS'')
            \<lparr>te_before := Some [(''tenantId'', tr_previousBinding r)], te_after := Some [(''tenantId'', target)]\<rparr>))) (\<lambda>failure.
     if failure \<noteq> None then thenE (revoke_replacement x a r) (\<lambda>ignored. throwE TENANCY_STORE_FAILURE)
     else returnE \<lparr>ts_session = tr_session r, ts_previousTenantId = tr_previousBinding r, ts_tenantId = target\<rparr>)"

definition switch_rebound :: "switch_env \<Rightarrow> policy_actor \<Rightarrow> string \<Rightarrow> tenant_rebound \<Rightarrow> tenant_switched binding_effect" where
  "switch_rebound x a target r =
     thenE (on_tenancy (updateE (\<lambda>w. ((), sx_meanwhile x w)))) (\<lambda>u.
     thenE (on_tenancy (verifyTarget (sx_after x) a target)) (\<lambda>stillMember.
       if \<not> stillMember then switch_denied x a target r else switch_recorded x a target r))"

definition switchTenant :: "switch_env \<Rightarrow> string \<Rightarrow> policy_actor option \<Rightarrow> tenant_switched binding_effect" where
  "switchTenant x target actor = (case requireSessionActor actor of
     None \<Rightarrow> throwE MISSING_PRINCIPAL_CONTEXT
   | Some (a, sid) \<Rightarrow>
       if \<not> isUuid target then throwE MEMBERSHIP_NOT_FOUND
       else
         thenE (on_tenancy (verifyTarget (sx_before x) a target)) (\<lambda>verified.
         if \<not> verified then throwE MEMBERSHIP_NOT_FOUND
         else
           thenE (session_port (rebindSessionTenant (sx_identity x) (sx_now x) (pa_userId a) sid (Some target) (sx_client x)))
             (\<lambda>rebound. case rebound of
                Inl e \<Rightarrow> throwE BINDING_FAILED
              | Inr r \<Rightarrow> switch_rebound x a target r)))"

end
