(* ===== verification/Tenant_Switch_Laws.thy ===== *)
theory Tenant_Switch_Laws
  imports Tenant_Switch Tenancy_Properties Identity_Session_Laws
begin

text \<open>
  The tenant switch over the models of both modules: what a reported switch rests on, what each refusal leaves behind, and
  the one failure that is not undone.
\<close>

section \<open>The session ports\<close>

definition only_throws :: "'a identity_effect \<Rightarrow> bool" where
  "only_throws m \<longleftrightarrow> (\<forall>w e w'. m w = (Inl e, w') \<longrightarrow> \<not> is_session_denial e)"

lemma only_throws_then: "only_throws m \<Longrightarrow> (\<And>x. only_throws (k x)) \<Longrightarrow> only_throws (thenE m k)"
  unfolding only_throws_def thenE_Inl by blast

lemma only_throws_return: "only_throws (returnE x)"
  by (simp add: only_throws_def)

lemma only_throws_await: "only_throws m \<Longrightarrow> only_throws (await d c m)"
  by (auto simp: only_throws_def await_def callE_eq split: if_splits)

lemma only_throws_record: "only_throws (recordSecurity d now account kind ip meta)"
proof -
  have "guardSecurityMetadata m = Inl e \<Longrightarrow> e = METADATA_VIOLATION" for m e
    by (auto simp: guardSecurityMetadata_def split: option.splits if_splits)
  then have g: "guardSecurityMetadata m = Inl e \<Longrightarrow> \<not> is_session_denial e" for m e by fastforce
  show ?thesis unfolding only_throws_def recordSecurity_def
    by (auto simp: callE_eq ledger_record_def dest: g split: sum.splits if_splits)
qed

lemma only_throws_audit: "only_throws (auditOrFail d now action account rtype rid meta)"
  by (auto simp: only_throws_def auditOrFail_def callE_eq append_audit_def split: if_splits)

lemma only_throws_issued: "only_throws (issuedFrom d now minted version)"
  unfolding issuedFrom_def accessTokenFor_def Let_def
  by (intro only_throws_then only_throws_await only_throws_return)

lemma rebound_outcome:
  assumes run: "rebind_minted d now acct sid previous binding client w = (res, w')" and aid: "ac_id acct = account"
  shows "(same_sessions w w' \<and> (\<forall>r. res \<noteq> Inr r))
    \<or> (\<exists>b. switched account sid now b w w' \<and> linked_bundle account binding b
        \<and> (\<forall>r. res = Inr r \<longrightarrow> is_sessionId (tr_session r) = se_id (sb_session b))
        \<and> (\<forall>e. res = Inl e \<longrightarrow> \<not> is_session_denial e))"
proof -
  obtain b raw wm where m: "mint d now acct client binding w = (Inr (b, raw), wm)"
    and wm: "same_sessions w wm"
    using mint_run [of d now acct client binding w] by blast
  let ?rest = "rebind_recorded d now acct sid previous binding client (b, raw)"
  have "only_throws (?rest True)"
    unfolding rebind_recorded_def Let_def
    by (simp add: only_throws_then only_throws_record only_throws_audit only_throws_issued only_throws_return)
  then have t: "?rest True w1 = (Inl e, w') \<Longrightarrow> \<not> is_session_denial e" for w1 e unfolding only_throws_def by blast
  have go: "thenE (await d CALL_SESSIONS (sessions_rebindSession account sid RR_TENANT_SWITCH b now)) ?rest wm = (res, w')"
    using run m by (simp add: rebind_minted_def thenE_app [of "mint d now acct client binding"] aid)
  have denied: "same_sessions w w' \<or> \<not> is_session_denial e" if err: "res = Inl e" for e
  proof -
    consider "await d CALL_SESSIONS (sessions_rebindSession account sid RR_TENANT_SWITCH b now) wm = (Inl e, w')"
      | q w1 where "await d CALL_SESSIONS (sessions_rebindSession account sid RR_TENANT_SWITCH b now) wm = (Inr q, w1)" "?rest q w1 = (Inl e, w')"
      using go [unfolded err thenE_Inl] by blast
    then show ?thesis
    proof cases
      case 1
      then have "w' = wm" using rebind_store [of account sid b now wm "Inl e" w'] by (auto simp: await_def callE_eq split: if_splits)
      then show ?thesis using wm by simp
    next
      case 2
      show ?thesis
      proof (cases q)
        case True then show ?thesis using t [of w1 e] 2(2) by simp
      next
        case False
        then have "w1 = wm" using 2(1) rebind_store [of account sid b now wm "Inr q" w1] by (auto simp: await_def callE_eq split: if_splits)
        moreover have "w' = w1" using 2(2) False by (simp add: rebind_recorded_def Let_def)
        ultimately show ?thesis using wm by simp
      qed
    qed
  qed
  show ?thesis using rebind_minted_outcome [OF run aid] denied by (cases res) blast+
qed

definition live_ids :: "identity_world \<Rightarrow> string set" where
  "live_ids i = {se_id s | s. s \<in> set (w_sessions i) \<and> se_revokedAt s = None}"

lemma rebind_port:
  assumes "rebindSessionTenant d now account sid binding client i = (res, i')"
  shows "(same_sessions i i' \<and> (\<forall>r. res \<noteq> Inr r))
    \<or> (\<exists>b. switched account sid now b i i' \<and> linked_bundle account binding b
        \<and> (\<forall>r. res = Inr r \<longrightarrow> is_sessionId (tr_session r) = se_id (sb_session b))
        \<and> (\<forall>e. res = Inl e \<longrightarrow> \<not> is_session_denial e))"
proof (cases "\<exists>acct previous. accounts_findById account i = Some acct
      \<and> rebind_minted d now acct sid previous binding client i = (res, i')")
  case False
  then show ?thesis using assms
    by (auto simp: rebindSessionTenant_def thenE_app await_def callE_eq same_sessions_def split: option.splits if_splits)
next
  case True
  then obtain acct previous where acct: "accounts_findById account i = Some acct"
    and run: "rebind_minted d now acct sid previous binding client i = (res, i')" by blast
  have "ac_id acct = account" using find_first_Some acct unfolding accounts_findById_def by fast
  from rebound_outcome [OF run this] show ?thesis .
qed

lemma switched_live:
  assumes "switched account sid now b i i'"
  shows "live_ids i' \<subseteq> insert (se_id (sb_session b)) (live_ids i)"
  using assms unfolding switched_def live_ids_def by (auto split: if_splits)

lemma revoke_port:
  assumes "revokeSession d now account sid client i = (res, i')" "\<forall>e. res = Inl e \<longrightarrow> is_session_denial e"
    "\<And>s. s \<in> set (w_sessions i) \<Longrightarrow> se_id s = sid \<Longrightarrow> se_accountId s = account"
  shows "live_ids i' \<subseteq> live_ids i - {sid}"
proof -
  let ?p = "\<lambda>s. se_id s = sid \<and> se_accountId s = account \<and> se_revokedAt s = None"
  obtain revoked i1 where r: "sessions_revokeSession account sid RR_REVOKED_BY_OWNER now i = (Inr revoked, i1)"
    by (auto simp: sessions_revokeSession_def)
  have up: "\<not> d_down d CALL_SESSIONS i"
    using assms(1,2) by (auto simp: revokeSession_def thenE_app await_def callE_eq)
  have i1: "w_sessions i1 = map (\<lambda>s. if ?p s then s\<lparr>se_revokedAt := Some now, se_revokedReason := Some RR_REVOKED_BY_OWNER\<rparr> else s) (w_sessions i)"
  proof (cases "filter ?p (w_sessions i) = []")
    case True
    then have "i1 = i" using r by (auto simp: sessions_revokeSession_def Let_def revoke_session_rows_def update_many_def split: if_splits)
    have n: "\<not> ?p s" if "s \<in> set (w_sessions i)" for s using True that unfolding filter_empty_conv by blast
    have "map (\<lambda>s. if ?p s then s\<lparr>se_revokedAt := Some now, se_revokedReason := Some RR_REVOKED_BY_OWNER\<rparr> else s) (w_sessions i) = w_sessions i"
      by (rule map_idI, rule if_not_P, rule n)
    then show ?thesis using \<open>i1 = i\<close> by simp
  next
    case False
    then show ?thesis using r
      by (auto simp: sessions_revokeSession_def Let_def revoke_session_rows_def update_many_def split: if_splits)
  qed
  have "same_sessions i1 i'"
  proof (cases revoked)
    case False
    then show ?thesis using assms(1) r up by (simp add: revokeSession_def thenE_app await_def callE_eq same_sessions_def)
  next
    case True
    let ?m = "thenE (recordSecurity d now (Some account) SESSION_REVOKED (cl_ipDigest client)
                (Some [(''sessionId'', JString sid), (''reason'', JString ''revoked_by_owner'')])) (\<lambda>u.
         auditOrFail d now ''identity.session.revoked'' (Some account) ''identity_session'' sid None)"
    have q: "always same_sessions ?m" by (intro quiet_effects)
    have "?m i1 = (res, i')"
      using assms(1) unfolding revokeSession_def thenE_app [of "await d CALL_SESSIONS (sessions_revokeSession account sid RR_REVOKED_BY_OWNER now)"]
        await_up [of d CALL_SESSIONS i, OF up] r by (simp only: prod.case sum.case True if_False not_True_eq_False)
    then show ?thesis by (rule quiet_run [OF q])
  qed
  then have rows: "w_sessions i' = w_sessions i1" by (simp add: same_sessions_def)
  show ?thesis
  proof
    fix j assume "j \<in> live_ids i'"
    then obtain s where s: "s \<in> set (w_sessions i1)" "se_id s = j" "se_revokedAt s = None" unfolding live_ids_def rows by blast
    then obtain y where y: "y \<in> set (w_sessions i)" "\<not> ?p y" "s = y" unfolding i1 by (auto split: if_splits)
    then have "j \<noteq> sid" using s assms(3) [OF y(1)] by blast
    then show "j \<in> live_ids i - {sid}" using s y unfolding live_ids_def by blast
  qed
qed

section \<open>Tenancy's half\<close>

lemma verifyTarget_keeps: "verifyTarget d a target w = (r, w') \<Longrightarrow> w' = w"
  unfolding verifyTarget_def then_read by (auto simp: then_read split: option.splits if_splits)

lemma verifyTarget_usable:
  assumes "verifyTarget d a target w = (Inr True, w')"
  shows "\<exists>m. usable w (yd_now d) a m \<and> tm_tenantId m = pg_uuid target"
proof -
  obtain m where m: "members_findOwnInTenant (yd_down d MEMBER_FIND_IN_TENANT) a target w = Some (Some m)" "membershipActiveAt m (yd_now d)"
    and t: "\<exists>t. tenants_findForMember (yd_down d TENANT_FIND_FOR_MEMBER) a target w = Some (Some t) \<and> tn_status t = ''ACTIVE''"
    using assms unfolding verifyTarget_def then_read by (auto simp: then_read split: option.splits if_splits)
  have mm: "m \<in> set (tw_members w)" "tm_tenantId m = pg_uuid target" "tm_userId m = own_user a"
    using m(1) unfolding members_findOwnInTenant_def in_context_Some
    by (auto simp: mapped_row_def toMembership_def split: option.splits if_splits dest!: find_first_Some)
  obtain t where tt: "t \<in> set (tw_tenants w)" "tn_id t = pg_uuid target" "tn_status t = ''ACTIVE''"
    using t unfolding tenants_findForMember_def in_context_Some
    by (auto simp: mapped_row_def toTenant_def split: option.splits if_splits dest!: find_first_Some)
  show ?thesis using m(2) mm tt unfolding usable_def by metis
qed

lemma event_fields:
  "make_audit_event jb i inp = Inr ev \<Longrightarrow> av_action ev = ai_action inp \<and> av_outcome ev = ai_outcome inp"
  by (auto simp: make_audit_event_def requireNonEmpty_def result_andThen_eq_Inr split: if_splits)

lemma trail_success:
  assumes "trail_record d e es = (Inr (Inr u), es')"
  shows "\<exists>ev. es' = es @ [ev] \<and> av_action ev = te_action e \<and> av_outcome ev = te_outcome e"
proof -
  obtain ev x where ev: "make_audit_event (au_jsonBytes d) (au_nextId d) (trail_input (au_environment d) e) = Inr ev"
    and w: "writer_record (au_raised d) ev es = (Inr x, es')"
    using assms by (auto simp: trail_record_def recordAuditEvent_def split: sum.splits prod.splits write_error_kind.splits)
  have "es' = es @ [ev]" using w by (auto simp: writer_record_def create_row_iff split: option.splits)
  then show ?thesis using event_fields [OF ev] by (simp add: trail_input_def)
qed

lemma tenancy_audit_event:
  "tenancy_audit d e w = (Inr None, w') \<Longrightarrow> \<exists>ev. tw_audit w' = tw_audit w @ [ev] \<and> av_action ev = te_action e \<and> av_outcome ev = te_outcome e"
  unfolding tenancy_audit_def using trail_success
  by (auto split: prod.splits sum.splits)

lemma on_tenancy_eq: "on_tenancy m w = (r, w') \<longleftrightarrow> (\<exists>t. m (bw_tenancy w) = (r, t) \<and> w' = w\<lparr>bw_tenancy := t\<rparr>)"
  by (auto simp: on_tenancy_def split: prod.splits)

lemma session_port_Inr:
  "session_port m w = (Inr q, w') \<longleftrightarrow> (\<exists>i r. m (bw_identity w) = (r, i) \<and> w' = w\<lparr>bw_identity := i\<rparr>
     \<and> (case r of Inr x \<Rightarrow> q = Inr x | Inl e \<Rightarrow> is_session_denial e \<and> q = Inl e))"
  by (auto simp: session_port_def split: prod.splits sum.splits if_splits)

lemma session_port_Inl: "session_port m w = (Inl e, w') \<Longrightarrow> e = TENANCY_STORE_FAILURE"
  by (auto simp: session_port_def split: prod.splits sum.splits if_splits)

lemma tenancy_audit_Inl: "tenancy_audit d e w = (Inl x, w') \<Longrightarrow> x = TENANCY_STORE_FAILURE"
  by (auto simp: tenancy_audit_def split: prod.splits sum.splits)

lemma verifyTarget_Inl: "verifyTarget d a target w = (Inl x, w') \<Longrightarrow> x = TENANCY_STORE_FAILURE"
  unfolding verifyTarget_def then_read by (auto simp: then_read split: option.splits if_splits)

lemma replacement_revoked:
  assumes "revoke_replacement x a r w = (Inr q, w')"
    "\<And>s. s \<in> set (w_sessions (bw_identity w)) \<Longrightarrow> se_id s = is_sessionId (tr_session r) \<Longrightarrow> se_accountId s = pa_userId a"
  shows "bw_tenancy w' = bw_tenancy w \<and> live_ids (bw_identity w') \<subseteq> live_ids (bw_identity w) - {is_sessionId (tr_session r)}"
proof -
  obtain i res where i: "revokeSession (sx_identity x) (sx_now x) (pa_userId a) (is_sessionId (tr_session r)) (sx_client x) (bw_identity w) = (res, i)"
    "w' = w\<lparr>bw_identity := i\<rparr>" "case res of Inr x \<Rightarrow> q = Inr x | Inl e \<Rightarrow> is_session_denial e \<and> q = Inl e"
    using assms(1) unfolding revoke_replacement_def session_port_Inr by blast
  have den: "\<forall>e. res = Inl e \<longrightarrow> is_session_denial e" using i(3) by (cases res) simp_all
  have l: "live_ids i \<subseteq> live_ids (bw_identity w) - {is_sessionId (tr_session r)}"
    by (rule revoke_port [OF i(1) den assms(2)])
  show ?thesis using l unfolding i(2) by simp
qed

lemma replacement_owner:
  assumes "switched account sid now b i i'" "linked_bundle account binding b" "s \<in> set (w_sessions i')" "se_id s = se_id (sb_session b)"
  shows "se_accountId s = account"
proof -
  let ?f = "\<lambda>s. if se_id s = sid \<and> se_accountId s = account \<and> se_revokedAt s = None
         then s\<lparr>se_revokedAt := Some now, se_revokedReason := Some RR_TENANT_SWITCH\<rparr> else s"
  have id: "se_id (?f x) = se_id x" for x by simp
  have ids: "se_id ` set (map ?f (w_sessions i)) = se_id ` set (w_sessions i)" unfolding set_map image_image id ..
  have f: "se_id (sb_session b) \<notin> se_id ` set (w_sessions i)" using assms(1) unfolding switched_def by blast
  have n: "s \<notin> set (map ?f (w_sessions i))"
  proof
    assume "s \<in> set (map ?f (w_sessions i))"
    then have "se_id s \<in> se_id ` set (map ?f (w_sessions i))" by (rule imageI)
    then show False using f unfolding ids assms(4) by contradiction
  qed
  have e: "w_sessions i' = map ?f (w_sessions i) @ [(sb_session b)\<lparr>se_revokedAt := None, se_revokedReason := None\<rparr>]"
    using assms(1) unfolding switched_def by blast
  have "s \<in> set [(sb_session b)\<lparr>se_revokedAt := None, se_revokedReason := None\<rparr>]"
    using assms(3) n unfolding e set_append by blast
  then have "s = (sb_session b)\<lparr>se_revokedAt := None, se_revokedReason := None\<rparr>" by simp
  then show ?thesis using assms(2) by (simp add: linked_bundle_def)
qed

lemma switched_fresh: "switched account sid now b i i' \<Longrightarrow> se_id (sb_session b) \<notin> live_ids i"
  unfolding switched_def live_ids_def by auto

section \<open>Properties\<close>

lemma then_step: "m w = (r, w1) \<Longrightarrow> thenE m k w = (case r of Inl e \<Rightarrow> (Inl e, w1) | Inr x \<Rightarrow> k x w1)"
  by (simp add: thenE_def split: sum.split)

lemma switch_shape:
  assumes "switchTenant x target (Some a) w = (res, w')"
  shows "(w' = w \<and> (\<forall>r. res \<noteq> Inr r) \<and> res \<noteq> Inl MEMBERSHIP_REVOKED_CONCURRENTLY)
    \<or> (\<exists>sid t rb i. pa_sessionId a = Some sid \<and> verifyTarget (sx_before x) a target (bw_tenancy w) = (Inr True, t)
        \<and> rebindSessionTenant (sx_identity x) (sx_now x) (pa_userId a) sid (Some target) (sx_client x) (bw_identity w) = (rb, i)
        \<and> (case rb of
             Inl e \<Rightarrow> w' = w\<lparr>bw_identity := i\<rparr> \<and> res = Inl (if is_session_denial e then BINDING_FAILED else TENANCY_STORE_FAILURE)
           | Inr r \<Rightarrow> switch_rebound x a target r (w\<lparr>bw_identity := i\<rparr>) = (res, w')))"
proof (cases "requireSessionActor (Some a)")
  case None then show ?thesis using assms by (auto simp: switchTenant_def)
next
  case (Some y)
  then obtain sid where y: "y = (a, sid)" "pa_sessionId a = Some sid"
    by (auto simp: requireSessionActor_def requireAuthenticated_def split: option.splits if_splits)
  show ?thesis
  proof (cases "isUuid target")
    case False then show ?thesis using assms Some y by (auto simp: switchTenant_def)
  next
    case True
    obtain v t where v: "verifyTarget (sx_before x) a target (bw_tenancy w) = (v, t)" by (cases "verifyTarget (sx_before x) a target (bw_tenancy w)")
    have t: "t = bw_tenancy w" using verifyTarget_keeps [OF v] .
    obtain rb i where rb: "rebindSessionTenant (sx_identity x) (sx_now x) (pa_userId a) sid (Some target) (sx_client x) (bw_identity w) = (rb, i)"
      by (cases "rebindSessionTenant (sx_identity x) (sx_now x) (pa_userId a) sid (Some target) (sx_client x) (bw_identity w)")
    have run: "(case v of Inl e \<Rightarrow> (Inl e, w) | Inr ok \<Rightarrow> (if \<not> ok then throwE MEMBERSHIP_NOT_FOUND
         else thenE (session_port (rebindSessionTenant (sx_identity x) (sx_now x) (pa_userId a) sid (Some target) (sx_client x)))
             (\<lambda>rebound. case rebound of Inl e \<Rightarrow> throwE BINDING_FAILED | Inr r \<Rightarrow> switch_rebound x a target r)) w) = (res, w')"
    proof -
      have o: "on_tenancy (verifyTarget (sx_before x) a target) w = (v, w)" using v t by (simp add: on_tenancy_def)
      show ?thesis using assms Some True unfolding switchTenant_def y by (simp add: then_step [of "on_tenancy _", OF o] split: sum.splits)
    qed
    show ?thesis
    proof (cases "v = Inr True")
      case False
      then show ?thesis using run verifyTarget_Inl [of "sx_before x" a target "bw_tenancy w"] v by (cases v) auto
    next
      case ok: True
      have "(case rb of
             Inl e \<Rightarrow> w' = w\<lparr>bw_identity := i\<rparr> \<and> res = Inl (if is_session_denial e then BINDING_FAILED else TENANCY_STORE_FAILURE)
           | Inr r \<Rightarrow> switch_rebound x a target r (w\<lparr>bw_identity := i\<rparr>) = (res, w'))"
      proof (cases rb)
        case (Inl e)
        have o: "session_port (rebindSessionTenant (sx_identity x) (sx_now x) (pa_userId a) sid (Some target) (sx_client x)) w
            = (if is_session_denial e then Inr (Inl e) else Inl TENANCY_STORE_FAILURE, w\<lparr>bw_identity := i\<rparr>)"
          using rb Inl by (simp add: session_port_def)
        show ?thesis using run ok Inl by (auto simp: then_step [of "session_port _", OF o] split: if_splits)
      next
        case (Inr r)
        have o: "session_port (rebindSessionTenant (sx_identity x) (sx_now x) (pa_userId a) sid (Some target) (sx_client x)) w
            = (Inr (Inr r), w\<lparr>bw_identity := i\<rparr>)"
          using rb Inr by (simp add: session_port_def)
        show ?thesis using run ok Inr by (simp add: then_step [of "session_port _", OF o])
      qed
      then show ?thesis using y(2) v ok rb by blast
    qed
  qed
qed

lemma rebound_shape:
  assumes "switch_rebound x a target r w = (res, w')"
    "\<forall>s \<in> set (w_sessions (bw_identity w)). se_id s = is_sessionId (tr_session r) \<longrightarrow> se_accountId s = pa_userId a"
  shows "res = Inl TENANCY_STORE_FAILURE
    \<or> (res = Inl MEMBERSHIP_REVOKED_CONCURRENTLY \<and> live_ids (bw_identity w') \<subseteq> live_ids (bw_identity w) - {is_sessionId (tr_session r)}
        \<and> (\<exists>ev. tw_audit (bw_tenancy w') = tw_audit (sx_meanwhile x (bw_tenancy w)) @ [ev]
            \<and> av_action ev = ''tenancy.tenant.switch'' \<and> av_outcome ev = ''DENIED''))
    \<or> (\<exists>s. res = Inr s \<and> ts_session s = tr_session r \<and> ts_tenantId s = target \<and> bw_identity w' = bw_identity w
        \<and> verifyTarget (sx_after x) a target (sx_meanwhile x (bw_tenancy w)) = (Inr True, sx_meanwhile x (bw_tenancy w))
        \<and> (\<exists>ev. tw_audit (bw_tenancy w') = tw_audit (sx_meanwhile x (bw_tenancy w)) @ [ev]
            \<and> av_action ev = ''tenancy.tenant.switch'' \<and> av_outcome ev = ''SUCCESS''))"
proof -
  let ?w1 = "w\<lparr>bw_tenancy := sx_meanwhile x (bw_tenancy w)\<rparr>"
  obtain v t where v: "verifyTarget (sx_after x) a target (bw_tenancy ?w1) = (v, t)" by (cases "verifyTarget (sx_after x) a target (bw_tenancy ?w1)")
  have t: "t = bw_tenancy ?w1" using verifyTarget_keeps [OF v] .
  have run: "(case v of Inl e \<Rightarrow> (Inl e, ?w1) | Inr ok \<Rightarrow> (if \<not> ok then switch_denied x a target r else switch_recorded x a target r) ?w1) = (res, w')"
  proof -
    have m: "on_tenancy (updateE (\<lambda>w. ((), sx_meanwhile x w))) w = (Inr (), ?w1)" by (simp add: on_tenancy_def)
    have o: "on_tenancy (verifyTarget (sx_after x) a target) ?w1 = (v, ?w1)" using v t by (simp add: on_tenancy_def)
    show ?thesis using assms(1) unfolding switch_rebound_def
      by (simp add: then_step [of "on_tenancy (updateE _)", OF m] then_step [of "on_tenancy (verifyTarget _ _ _)", OF o] split: sum.splits)
  qed
  consider e where "v = Inl e" | "v = Inr False" | "v = Inr True" by (cases v) auto
  then show ?thesis
  proof cases
    case 1 then show ?thesis using run verifyTarget_Inl v by fastforce
  next
    case 2
    have d: "switch_denied x a target r ?w1 = (res, w')" using run 2 by simp
    consider e where "revoke_replacement x a r ?w1 = (Inl e, w')" "res = Inl e"
      | q w2 where "revoke_replacement x a r ?w1 = (Inr q, w2)"
        "thenE (on_tenancy (tenancy_audit (sx_after x)
         (tenant_switch_entry (sx_after x) a target (Some ''membership_revoked_concurrently'') ''DENIED''))) (\<lambda>failure.
       throwE (if failure \<noteq> None then TENANCY_STORE_FAILURE else MEMBERSHIP_REVOKED_CONCURRENTLY)) w2 = (res, w')"
      using d unfolding switch_denied_def by (cases "revoke_replacement x a r ?w1"; cases "fst (revoke_replacement x a r ?w1)") (auto simp: thenE_def)
    then show ?thesis
    proof cases
      case 1 then show ?thesis using session_port_Inl unfolding revoke_replacement_def by blast
    next
      case 2
      have own: "\<And>s. s \<in> set (w_sessions (bw_identity ?w1)) \<Longrightarrow> se_id s = is_sessionId (tr_session r) \<Longrightarrow> se_accountId s = pa_userId a"
        using assms(2) by simp
      have rv: "bw_tenancy w2 = bw_tenancy ?w1" "live_ids (bw_identity w2) \<subseteq> live_ids (bw_identity ?w1) - {is_sessionId (tr_session r)}"
        using replacement_revoked [OF 2(1) own] by blast+
      obtain ar at where au: "tenancy_audit (sx_after x) (tenant_switch_entry (sx_after x) a target (Some ''membership_revoked_concurrently'') ''DENIED'') (bw_tenancy w2) = (ar, at)"
        by (cases "tenancy_audit (sx_after x) (tenant_switch_entry (sx_after x) a target (Some ''membership_revoked_concurrently'') ''DENIED'') (bw_tenancy w2)")
      have o: "on_tenancy (tenancy_audit (sx_after x) (tenant_switch_entry (sx_after x) a target (Some ''membership_revoked_concurrently'') ''DENIED'')) w2
          = (ar, w2\<lparr>bw_tenancy := at\<rparr>)" using au by (simp add: on_tenancy_def)
      show ?thesis
      proof (cases ar)
        case (Inl e)
        then show ?thesis using 2(2) tenancy_audit_Inl [OF au [unfolded Inl]] by (simp add: then_step [of "on_tenancy _", OF o])
      next
        case (Inr f)
        then have fin: "res = Inl (if f \<noteq> None then TENANCY_STORE_FAILURE else MEMBERSHIP_REVOKED_CONCURRENTLY)" "w' = w2\<lparr>bw_tenancy := at\<rparr>"
          using 2(2) by (simp_all add: then_step [of "on_tenancy _", OF o])
        show ?thesis
        proof (cases f)
          case None
          have "\<exists>ev. tw_audit at = tw_audit (bw_tenancy w2) @ [ev] \<and> av_action ev = ''tenancy.tenant.switch'' \<and> av_outcome ev = ''DENIED''"
            using tenancy_audit_event [OF au [unfolded Inr None]] by (simp add: tenant_switch_entry_def tenancy_entry_def)
          then show ?thesis using fin rv None by simp
        qed (use fin in simp)
      qed
    qed
  next
    case 3
    let ?e = "(tenant_switch_entry (sx_after x) a target None ''SUCCESS'')
            \<lparr>te_before := Some [(''tenantId'', tr_previousBinding r)], te_after := Some [(''tenantId'', target)]\<rparr>"
    obtain ar at where au: "tenancy_audit (sx_after x) ?e (bw_tenancy ?w1) = (ar, at)" by (cases "tenancy_audit (sx_after x) ?e (bw_tenancy ?w1)")
    have o: "on_tenancy (tenancy_audit (sx_after x) ?e) ?w1 = (ar, ?w1\<lparr>bw_tenancy := at\<rparr>)" using au by (simp add: on_tenancy_def)
    have d: "switch_recorded x a target r ?w1 = (res, w')" using run 3 by simp
    show ?thesis
    proof (cases ar)
      case (Inl e)
      then show ?thesis using d tenancy_audit_Inl [OF au [unfolded Inl]] unfolding switch_recorded_def by (simp add: then_step [of "on_tenancy _", OF o])
    next
      case (Inr f)
      show ?thesis
      proof (cases f)
        case None
        then have fin: "res = Inr \<lparr>ts_session = tr_session r, ts_previousTenantId = tr_previousBinding r, ts_tenantId = target\<rparr>"
          "w' = ?w1\<lparr>bw_tenancy := at\<rparr>"
          using d Inr unfolding switch_recorded_def by (simp_all add: then_step [of "on_tenancy _", OF o])
        have "\<exists>ev. tw_audit at = tw_audit (bw_tenancy ?w1) @ [ev] \<and> av_action ev = ''tenancy.tenant.switch'' \<and> av_outcome ev = ''SUCCESS''"
          using tenancy_audit_event [OF au [unfolded Inr None]] by (simp add: tenant_switch_entry_def tenancy_entry_def)
        then show ?thesis using fin v 3 t by simp
      next
        case (Some y)
        then have "thenE (revoke_replacement x a r) (\<lambda>ignored. throwE TENANCY_STORE_FAILURE) (?w1\<lparr>bw_tenancy := at\<rparr>) = (res, w')"
          using d Inr unfolding switch_recorded_def by (simp add: then_step [of "on_tenancy _", OF o])
        then show ?thesis using session_port_Inl unfolding revoke_replacement_def
          by (auto simp: thenE_def split: prod.splits sum.splits)
      qed
    qed
  qed
qed

text \<open>
  A reported switch rests on the caller's own usable membership of the target, verified before the session was replaced and again
  after whatever else committed meanwhile; it is one atomic replacement bound to the target and it is recorded.  Every refusal
  but a store failure leaves no session live that was not live before, and a membership lost during the switch is recorded as a denial.
\<close>

theorem tenant_switch_rests_on_membership:
  assumes "switchTenant x target (Some a) w = (res, w')"
  shows "(\<forall>s. res = Inr s \<longrightarrow>
      (\<exists>m. usable (bw_tenancy w) (yd_now (sx_before x)) a m \<and> tm_tenantId m = pg_uuid target)
      \<and> (\<exists>m. usable (sx_meanwhile x (bw_tenancy w)) (yd_now (sx_after x)) a m \<and> tm_tenantId m = pg_uuid target)
      \<and> (\<exists>sid b. pa_sessionId a = Some sid \<and> switched (pa_userId a) sid (sx_now x) b (bw_identity w) (bw_identity w')
           \<and> linked_bundle (pa_userId a) (Some target) b \<and> is_sessionId (ts_session s) = se_id (sb_session b))
      \<and> (\<exists>ev. tw_audit (bw_tenancy w') = tw_audit (sx_meanwhile x (bw_tenancy w)) @ [ev]
           \<and> av_action ev = ''tenancy.tenant.switch'' \<and> av_outcome ev = ''SUCCESS''))
    \<and> (\<forall>e. res = Inl e \<and> e \<noteq> TENANCY_STORE_FAILURE \<longrightarrow> live_ids (bw_identity w') \<subseteq> live_ids (bw_identity w))
    \<and> (res = Inl MEMBERSHIP_REVOKED_CONCURRENTLY \<longrightarrow>
         (\<exists>ev. tw_audit (bw_tenancy w') = tw_audit (sx_meanwhile x (bw_tenancy w)) @ [ev]
            \<and> av_action ev = ''tenancy.tenant.switch'' \<and> av_outcome ev = ''DENIED''))"
proof (cases "w' = w \<and> (\<forall>r. res \<noteq> Inr r) \<and> res \<noteq> Inl MEMBERSHIP_REVOKED_CONCURRENTLY")
  case True then show ?thesis by auto
next
  case False
  then obtain sid t rb i where sid: "pa_sessionId a = Some sid"
    and v: "verifyTarget (sx_before x) a target (bw_tenancy w) = (Inr True, t)"
    and rb: "rebindSessionTenant (sx_identity x) (sx_now x) (pa_userId a) sid (Some target) (sx_client x) (bw_identity w) = (rb, i)"
    and rest: "case rb of
             Inl e \<Rightarrow> w' = w\<lparr>bw_identity := i\<rparr> \<and> res = Inl (if is_session_denial e then BINDING_FAILED else TENANCY_STORE_FAILURE)
           | Inr r \<Rightarrow> switch_rebound x a target r (w\<lparr>bw_identity := i\<rparr>) = (res, w')"
    using switch_shape [OF assms] by blast
  show ?thesis
  proof (cases rb)
    case (Inl e)
    have "live_ids i \<subseteq> live_ids (bw_identity w)" if "is_session_denial e"
      using rebind_port [OF rb] Inl that by (auto simp: same_sessions_def live_ids_def)
    then show ?thesis using rest Inl by auto
  next
    case (Inr r)
    obtain b where b: "switched (pa_userId a) sid (sx_now x) b (bw_identity w) i" "linked_bundle (pa_userId a) (Some target) b"
      "is_sessionId (tr_session r) = se_id (sb_session b)"
      using rebind_port [OF rb] Inr by blast
    have own: "\<forall>s \<in> set (w_sessions (bw_identity (w\<lparr>bw_identity := i\<rparr>))).
        se_id s = is_sessionId (tr_session r) \<longrightarrow> se_accountId s = pa_userId a"
      using replacement_owner [OF b(1,2)] b(3) by simp
    have run: "switch_rebound x a target r (w\<lparr>bw_identity := i\<rparr>) = (res, w')" using rest Inr by simp
    have live: "live_ids i - {is_sessionId (tr_session r)} \<subseteq> live_ids (bw_identity w)" using switched_live [OF b(1)] b(3) by auto
    from rebound_shape [OF run own] show ?thesis
    proof (elim disjE)
      assume "res = Inl TENANCY_STORE_FAILURE" then show ?thesis by simp
    next
      assume "res = Inl MEMBERSHIP_REVOKED_CONCURRENTLY \<and> live_ids (bw_identity w') \<subseteq> live_ids (bw_identity (w\<lparr>bw_identity := i\<rparr>)) - {is_sessionId (tr_session r)}
        \<and> (\<exists>ev. tw_audit (bw_tenancy w') = tw_audit (sx_meanwhile x (bw_tenancy (w\<lparr>bw_identity := i\<rparr>))) @ [ev]
            \<and> av_action ev = ''tenancy.tenant.switch'' \<and> av_outcome ev = ''DENIED'')"
      then show ?thesis using live by auto
    next
      assume "\<exists>s. res = Inr s \<and> ts_session s = tr_session r \<and> ts_tenantId s = target \<and> bw_identity w' = bw_identity (w\<lparr>bw_identity := i\<rparr>)
        \<and> verifyTarget (sx_after x) a target (sx_meanwhile x (bw_tenancy (w\<lparr>bw_identity := i\<rparr>))) = (Inr True, sx_meanwhile x (bw_tenancy (w\<lparr>bw_identity := i\<rparr>)))
        \<and> (\<exists>ev. tw_audit (bw_tenancy w') = tw_audit (sx_meanwhile x (bw_tenancy (w\<lparr>bw_identity := i\<rparr>))) @ [ev]
            \<and> av_action ev = ''tenancy.tenant.switch'' \<and> av_outcome ev = ''SUCCESS'')"
      then obtain s where s: "res = Inr s" "ts_session s = tr_session r" "bw_identity w' = i"
        "verifyTarget (sx_after x) a target (sx_meanwhile x (bw_tenancy w)) = (Inr True, sx_meanwhile x (bw_tenancy w))"
        "\<exists>ev. tw_audit (bw_tenancy w') = tw_audit (sx_meanwhile x (bw_tenancy w)) @ [ev]
            \<and> av_action ev = ''tenancy.tenant.switch'' \<and> av_outcome ev = ''SUCCESS''"
        by auto
      show ?thesis using s verifyTarget_usable [OF v] verifyTarget_usable [OF s(4)] sid b by auto
    qed
  qed
qed

definition bound_session :: session where
  "bound_session = sample_session\<lparr>se_accountId := uuid_b, se_tenantBinding := Some uuid_u\<rparr>"

definition sample_binding :: binding_world where
  "sample_binding = \<lparr>bw_tenancy = acme_world\<lparr>tw_members := [acme_owner, new_member uuid_u uuid_t uuid_b ''MEMBER'' 0]\<rparr>,
     bw_identity = sample_world\<lparr>w_accounts := map (\<lambda>x. x\<lparr>ac_id := uuid_b\<rparr>) (w_accounts sample_world),
       w_sessions := [bound_session], w_families := [], w_tokens := []\<rparr>\<rparr>"

definition switch_sample :: switch_env where
  "switch_sample = \<lparr>sx_before = sample_tenancy, sx_after = sample_tenancy, sx_identity = sample_deps, sx_now = 1000,
     sx_meanwhile = (\<lambda>t. t), sx_client = sample_client\<rparr>"

definition switcher :: policy_actor where
  "switcher = invitee\<lparr>pa_sessionId := Some ''s1''\<rparr>"

theorem tenant_switch_rests_on_membership_witness:
  "\<exists>s w'. switchTenant switch_sample uuid_t (Some switcher) sample_binding = (Inr s, w')
     \<and> (\<exists>b. switched uuid_b ''s1'' 1000 b (bw_identity sample_binding) (bw_identity w') \<and> linked_bundle uuid_b (Some uuid_t) b)"
proof -
  have "result_isOk (fst (switchTenant switch_sample uuid_t (Some switcher) sample_binding))" by code_simp
  then obtain s w' where s: "switchTenant switch_sample uuid_t (Some switcher) sample_binding = (Inr s, w')"
    by (cases "switchTenant switch_sample uuid_t (Some switcher) sample_binding"; cases "fst (switchTenant switch_sample uuid_t (Some switcher) sample_binding)") auto
  have "pa_userId switcher = uuid_b" "pa_sessionId switcher = Some ''s1''" "sx_now switch_sample = 1000" by code_simp+
  then show ?thesis using tenant_switch_rests_on_membership [OF s] s by auto
qed

text \<open>
  The compensation does not cover every failure: when the second verification itself cannot read the store, the call reports a
  store failure while the replacement session stays live and bound to the target, and no switch is recorded.
\<close>

theorem failed_reverification_leaves_the_binding:
  assumes "requireSessionActor (Some a) = Some (a, sid)" "isUuid target"
    "verifyTarget (sx_before x) a target (bw_tenancy w) = (Inr True, t)"
    "rebindSessionTenant (sx_identity x) (sx_now x) (pa_userId a) sid (Some target) (sx_client x) (bw_identity w) = (Inr r, i)"
    "yd_down (sx_after x) MEMBER_FIND_IN_TENANT"
  shows "switchTenant x target (Some a) w = (Inl TENANCY_STORE_FAILURE, \<lparr>bw_tenancy = sx_meanwhile x (bw_tenancy w), bw_identity = i\<rparr>)
    \<and> (\<exists>s \<in> set (w_sessions i). se_id s = is_sessionId (tr_session r) \<and> se_revokedAt s = None \<and> se_tenantBinding s = Some target)"
proof -
  let ?w1 = "w\<lparr>bw_identity := i\<rparr>"
  have t: "t = bw_tenancy w" using verifyTarget_keeps [OF assms(3)] .
  have o: "on_tenancy (verifyTarget (sx_before x) a target) w = (Inr True, w)" using assms(3) t by (simp add: on_tenancy_def)
  have p: "session_port (rebindSessionTenant (sx_identity x) (sx_now x) (pa_userId a) sid (Some target) (sx_client x)) w = (Inr (Inr r), ?w1)"
    using assms(4) by (simp add: session_port_def)
  have m: "on_tenancy (updateE (\<lambda>w. ((), sx_meanwhile x w))) ?w1 = (Inr (), ?w1\<lparr>bw_tenancy := sx_meanwhile x (bw_tenancy w)\<rparr>)"
    by (simp add: on_tenancy_def)
  have "members_findOwnInTenant True a target u = None" for u
    by (simp add: members_findOwnInTenant_def in_context_def split: sum.split)
  then have "verifyTarget (sx_after x) a target u = (Inl TENANCY_STORE_FAILURE, u)" for u
    using assms(5) by (simp add: verifyTarget_def then_read)
  then have v: "on_tenancy (verifyTarget (sx_after x) a target) u = (Inl TENANCY_STORE_FAILURE, u)" for u by (simp add: on_tenancy_def)
  have run: "switchTenant x target (Some a) w = (Inl TENANCY_STORE_FAILURE, ?w1\<lparr>bw_tenancy := sx_meanwhile x (bw_tenancy w)\<rparr>)"
    using assms(1,2) unfolding switchTenant_def
    by (simp add: then_step [of "on_tenancy _", OF o] then_step [of "session_port _", OF p] switch_rebound_def
        then_step [of "on_tenancy _", OF m] then_step [of "on_tenancy _", OF v])
  obtain b where b: "switched (pa_userId a) sid (sx_now x) b (bw_identity w) i" "linked_bundle (pa_userId a) (Some target) b"
      "is_sessionId (tr_session r) = se_id (sb_session b)"
    using rebind_port [OF assms(4)] by blast
  have "(sb_session b)\<lparr>se_revokedAt := None, se_revokedReason := None\<rparr> \<in> set (w_sessions i)" using b(1) unfolding switched_def by simp
  then have "\<exists>s \<in> set (w_sessions i). se_id s = is_sessionId (tr_session r) \<and> se_revokedAt s = None \<and> se_tenantBinding s = Some target"
    by (rule bexI [rotated]) (use b(2,3) in \<open>simp add: linked_bundle_def\<close>)
  then show ?thesis using run by simp
qed

theorem failed_reverification_leaves_the_binding_witness:
  "let env = switch_sample\<lparr>sx_after := sample_tenancy\<lparr>yd_down := (\<lambda>c. c = MEMBER_FIND_IN_TENANT)\<rparr>\<rparr>
   in fst (switchTenant env uuid_t (Some switcher) sample_binding) = Inl TENANCY_STORE_FAILURE
      \<and> (\<exists>s \<in> set (w_sessions (bw_identity (snd (switchTenant env uuid_t (Some switcher) sample_binding)))).
           se_revokedAt s = None \<and> se_tenantBinding s = Some uuid_t)"
proof -
  let ?env = "switch_sample\<lparr>sx_after := sample_tenancy\<lparr>yd_down := (\<lambda>c. c = MEMBER_FIND_IN_TENANT)\<rparr>\<rparr>"
  have r: "requireSessionActor (Some switcher) = Some (switcher, ''s1'')" "isUuid uuid_t" by code_simp+
  have "fst (verifyTarget (sx_before ?env) switcher uuid_t (bw_tenancy sample_binding)) = Inr True" by code_simp
  then obtain t where t: "verifyTarget (sx_before ?env) switcher uuid_t (bw_tenancy sample_binding) = (Inr True, t)"
    by (cases "verifyTarget (sx_before ?env) switcher uuid_t (bw_tenancy sample_binding)") simp
  let ?run = "rebindSessionTenant (sx_identity ?env) (sx_now ?env) (pa_userId switcher) ''s1'' (Some uuid_t) (sx_client ?env) (bw_identity sample_binding)"
  have "result_isOk (fst ?run)" by code_simp
  then obtain q i where q: "?run = (Inr q, i)" by (cases ?run; cases "fst ?run") auto
  have d: "yd_down (sx_after ?env) MEMBER_FIND_IN_TENANT" by simp
  show ?thesis unfolding Let_def using failed_reverification_leaves_the_binding [OF r t q d] by auto
qed

end
