(* ===== verification/Governed_Store.thy ===== *)
theory Governed_Store
  imports Authorization
begin

text \<open>
  What the modules \<open>operating-entity\<close> and \<open>consent\<close> share.  Their use cases have one shape: check the input (a
  bad value is thrown), ask the policy service for the principal, read and write through a repository whose exceptions become
  \<open>STORE_FAILURE\<close>, and append one audit record whose failure is reported as \<open>AUDIT_APPEND_FAILED\<close>
  although the change stands.  The two modules' \<open>errors.ts\<close>, \<open>refs.ts\<close>, \<open>policy-service.ts\<close> and
  \<open>audit-trail.ts\<close> are textually the same; here they are one set of effects over worlds that extend
  \<open>governed_world\<close>, whose one field is the audit table all modules append to.  Dates of the inputs are valid
  instants, as the callers' parsers leave them.
\<close>

section \<open>Errors and environment\<close>

datatype 'r governed_error =
    INVALID_INPUT string
  | AUTHORIZATION_DENIED string ref_denial
  | NOT_FOUND_RECORD string string
  | STORE_FAILURE
  | AUDIT_THROWN audit_defect
  | AUDIT_APPEND_FAILED write_error_kind
  | REFUSED 'r

record governed_world =
  gw_audit :: "audit_event list"

type_synonym ('w, 'r, 'a) governed_effect = "('w governed_world_scheme, 'r governed_error, 'a) effect"

text \<open>
  The environment of one execution: the policy service, the audit service, the next minted identifier, the instant
  \<open>input.now\<close>, the database's own clock, the ISO form of a date, and which repository calls throw, by method name and
  the identifier they are given.
\<close>

record governed_deps =
  gd_policy :: "policy_actor option \<Rightarrow> string \<Rightarrow> authz_decision"
  gd_audit :: audit_deps
  gd_nextId :: string
  gd_now :: millis
  gd_dbNow :: millis
  gd_iso :: "millis \<Rightarrow> string"
  gd_down :: "string \<Rightarrow> string \<Rightarrow> bool"

section \<open>Columns\<close>

text \<open>
  A \<open>uuid\<close> column compares in canonical form and the client refuses an identifier that is not in UUID form; a text column
  admits no NUL character and, where the schema says so, no empty text.
\<close>

definition pg_text :: "string \<Rightarrow> bool" where
  "pg_text s \<longleftrightarrow> CHR 0x00 \<notin> set s"

definition filled_text :: "string \<Rightarrow> bool" where
  "filled_text s \<longleftrightarrow> s \<noteq> [] \<and> pg_text s"

definition optional_text :: "string option \<Rightarrow> bool" where
  "optional_text v \<longleftrightarrow> (case v of None \<Rightarrow> True | Some s \<Rightarrow> pg_text s)"

definition optional_uuid :: "string option \<Rightarrow> bool" where
  "optional_uuid v \<longleftrightarrow> (case v of None \<Rightarrow> True | Some s \<Rightarrow> isUuid s)"

text \<open>\<open>findUnique\<close> by the primary key, and \<open>update\<close> of one row: no such row, or a rejected row, is an exception.\<close>

definition find_by_id :: "('r \<Rightarrow> string) \<Rightarrow> string \<Rightarrow> 'r list \<Rightarrow> 'r option option" where
  "find_by_id key i rows = (if isUuid i then Some (List.find (\<lambda>r. key r = pg_uuid i) rows) else None)"

definition update_by_id :: "('r \<Rightarrow> string) \<Rightarrow> ('r \<Rightarrow> 'r \<Rightarrow> bool) \<Rightarrow> string \<Rightarrow> ('r \<Rightarrow> 'r) \<Rightarrow> 'r list \<Rightarrow> 'r list option" where
  "update_by_id key guard i f rows =
     (case find_by_id key i rows of
        Some (Some r) \<Rightarrow> if guard r (f r) then Some (map (\<lambda>x. if key x = pg_uuid i then f x else x) rows) else None
      | _ \<Rightarrow> None)"

section \<open>Effects\<close>

definition require_text :: "string \<Rightarrow> string \<Rightarrow> ('w, 'r, unit) governed_effect" where
  "require_text field v = (if blank v then throwE (INVALID_INPUT field) else returnE ())"

definition require_optional :: "string \<Rightarrow> string option \<Rightarrow> ('w, 'r, unit) governed_effect" where
  "require_optional field v = (case v of None \<Rightarrow> returnE () | Some s \<Rightarrow> require_text field s)"

definition require_that :: "string \<Rightarrow> bool \<Rightarrow> ('w, 'r, unit) governed_effect" where
  "require_that field b = (if b then returnE () else throwE (INVALID_INPUT field))"

definition permit :: "governed_deps \<Rightarrow> policy_principal_ref \<Rightarrow> string \<Rightarrow> ('w, 'r, unit) governed_effect" where
  "permit d who permission = (case principalRef_authorize (gd_policy d) (Some who) permission of
     Inl reason \<Rightarrow> throwE (AUTHORIZATION_DENIED permission reason)
   | Inr u \<Rightarrow> returnE ())"

definition governed_read ::
  "governed_deps \<Rightarrow> string \<Rightarrow> string \<Rightarrow> ('w governed_world_scheme \<Rightarrow> 'a option) \<Rightarrow> ('w, 'r, 'a) governed_effect" where
  "governed_read d call i f = (\<lambda>w. if gd_down d call i then (Inl STORE_FAILURE, w)
     else case f w of None \<Rightarrow> (Inl STORE_FAILURE, w) | Some x \<Rightarrow> (Inr x, w))"

definition governed_write ::
  "governed_deps \<Rightarrow> string \<Rightarrow> string \<Rightarrow> ('w governed_world_scheme \<Rightarrow> ('a \<times> 'w governed_world_scheme) option)
     \<Rightarrow> ('w, 'r, 'a) governed_effect" where
  "governed_write d call i f = (\<lambda>w. if gd_down d call i then (Inl STORE_FAILURE, w)
     else case f w of None \<Rightarrow> (Inl STORE_FAILURE, w) | Some (x, w') \<Rightarrow> (Inr x, w'))"

definition found :: "string \<Rightarrow> string \<Rightarrow> 'a option \<Rightarrow> ('w, 'r, 'a) governed_effect" where
  "found resource i r = (case r of None \<Rightarrow> throwE (NOT_FOUND_RECORD resource i) | Some x \<Rightarrow> returnE x)"

definition refuse_if :: "'r option \<Rightarrow> ('w, 'r, unit) governed_effect" where
  "refuse_if r = (case r of None \<Rightarrow> returnE () | Some e \<Rightarrow> throwE (REFUSED e))"

text \<open>The audit trail: one record per change, always with the outcome \<open>SUCCESS\<close>.\<close>

record governed_entry =
  ge_actorRef :: string
  ge_tenantRef :: "string option"
  ge_action :: string
  ge_resourceType :: string
  ge_resourceId :: string
  ge_reason :: "string option"
  ge_before :: "metadata option"
  ge_after :: "metadata option"

definition governed_input :: "governed_deps \<Rightarrow> governed_entry \<Rightarrow> audit_input" where
  "governed_input d e =
     \<lparr>ai_occurredAt = Whole (gd_now d), ai_environment = au_environment (gd_audit d), ai_actorRef = Some (ge_actorRef e),
      ai_tenantRef = ge_tenantRef e, ai_action = ge_action e, ai_resourceType = ge_resourceType e,
      ai_resourceId = ge_resourceId e, ai_reason = ge_reason e, ai_requestId = None, ai_traceId = None,
      ai_correlationId = None, ai_beforeMetadata = ge_before e, ai_afterMetadata = ge_after e, ai_outcome = ''SUCCESS''\<rparr>"

definition audited :: "governed_deps \<Rightarrow> governed_entry \<Rightarrow> ('w, 'r, unit) governed_effect" where
  "audited d e = (\<lambda>w. case recordAuditEvent (gd_audit d) (governed_input d e) (gw_audit w) of
     (Inl defect, es) \<Rightarrow> (Inl (AUDIT_THROWN defect), w\<lparr>gw_audit := es\<rparr>)
   | (Inr (Inl kind), es) \<Rightarrow> (Inl (AUDIT_APPEND_FAILED kind), w\<lparr>gw_audit := es\<rparr>)
   | (Inr (Inr event), es) \<Rightarrow> (Inr (), w\<lparr>gw_audit := es\<rparr>))"

definition optional_value :: "string option \<Rightarrow> json_value" where
  "optional_value v = (case v of None \<Rightarrow> JsNull | Some s \<Rightarrow> JsString s)"

text \<open>\<open>ids.join (',')\<close>.\<close>

fun joined :: "string list \<Rightarrow> string" where
  "joined [] = []"
| "joined [x] = x"
| "joined (x # xs) = x @ '','' @ joined xs"

definition joined_or_null :: "string list \<Rightarrow> json_value" where
  "joined_or_null xs = (if joined xs = [] then JsNull else JsString (joined xs))"

section \<open>Lemmas\<close>

named_theorems governed_success \<open>when an effect of the shared shape succeeds\<close>

lemma require_text_Inr [governed_success]: "require_text f v w = (Inr x, w') \<longleftrightarrow> \<not> blank v \<and> w' = w"
  by (auto simp: require_text_def)

lemma require_optional_Inr [governed_success]:
  "require_optional f v w = (Inr x, w') \<longleftrightarrow> (case v of None \<Rightarrow> True | Some s \<Rightarrow> \<not> blank s) \<and> w' = w"
  by (auto simp: require_optional_def governed_success split: option.splits)

lemma require_that_Inr [governed_success]: "require_that f b w = (Inr x, w') \<longleftrightarrow> b \<and> w' = w"
  by (auto simp: require_that_def)

lemma permit_Inr [governed_success]:
  "permit d who p w = (Inr x, w') \<longleftrightarrow> principalRef_authorize (gd_policy d) (Some who) p = Inr () \<and> w' = w"
  by (auto simp: permit_def split: sum.splits)

lemma governed_read_Inr [governed_success]:
  "governed_read d c i f w = (Inr x, w') \<longleftrightarrow> \<not> gd_down d c i \<and> f w = Some x \<and> w' = w"
  by (auto simp: governed_read_def split: option.splits)

lemma governed_write_Inr [governed_success]:
  "governed_write d c i f w = (Inr x, w') \<longleftrightarrow> \<not> gd_down d c i \<and> f w = Some (x, w')"
  by (auto simp: governed_write_def split: option.splits prod.splits)

lemma found_Inr [governed_success]: "found res i r w = (Inr x, w') \<longleftrightarrow> r = Some x \<and> w' = w"
  by (auto simp: found_def split: option.splits)

lemma refuse_if_Inr [governed_success]: "refuse_if r w = (Inr x, w') \<longleftrightarrow> r = None \<and> w' = w"
  by (auto simp: refuse_if_def split: option.splits)

text \<open>An audit append leaves everything but the audit table, which it may only lengthen.\<close>

lemma audited_world: "\<exists>es. snd (audited d e w) = w\<lparr>gw_audit := gw_audit w @ es\<rparr>"
proof -
  have "\<exists>es. snd (recordAuditEvent (gd_audit d) (governed_input d e) (gw_audit w)) = gw_audit w @ es"
    by (auto simp: recordAuditEvent_def writer_record_def create_row_def split: sum.splits option.splits if_splits)
  then show ?thesis
    by (auto simp: audited_def split: sum.splits prod.splits)
qed

lemma audited_Inr: "audited d e w = (Inr x, w') \<Longrightarrow> \<exists>es. w' = w\<lparr>gw_audit := gw_audit w @ es\<rparr>"
  by (metis audited_world snd_conv)

lemma read_keeps [simp]: "snd (governed_read d c i f w) = w"
  by (auto simp: governed_read_def split: option.splits)

lemma checks_keep [simp]:
  "snd (require_text f v w) = w" "snd (require_optional f o' w) = w" "snd (require_that f b w) = w" "snd (permit d who p w) = w"
  "snd (found res i r w) = w" "snd (refuse_if e w) = w"
  by (auto simp: require_text_def require_optional_def require_that_def permit_def found_def refuse_if_def
      split: option.splits sum.splits)

lemma find_by_id_Some: "find_by_id key i rows = Some (Some r) \<Longrightarrow> isUuid i \<and> r \<in> set rows \<and> key r = pg_uuid i"
  by (auto simp: find_by_id_def find_Some_iff split: if_splits)

lemma update_by_id_Some:
  assumes "update_by_id key guard i f rows = Some rows'"
  obtains r where "find_by_id key i rows = Some (Some r)" "guard r (f r)"
    "rows' = map (\<lambda>x. if key x = pg_uuid i then f x else x) rows"
  using assms by (auto simp: update_by_id_def split: option.splits if_splits)

lemma update_by_id_keys:
  "update_by_id key guard i f rows = Some rows' \<Longrightarrow> (\<And>r. key (f r) = key r) \<Longrightarrow> map key rows' = map key rows"
  by (erule update_by_id_Some) simp


section \<open>Tables of evidence\<close>

text \<open>
  A table that no statement deletes from: rows are added at its end under a primary key, and an update changes a row only as
  its constraints and its trigger let it.  \<open>R\<close> relates an older state of a row to a later one.
\<close>

definition keyed :: "('r \<Rightarrow> string) \<Rightarrow> 'r list \<Rightarrow> bool" where
  "keyed key rows \<longleftrightarrow> distinct (map key rows) \<and> (\<forall>r \<in> set rows. pg_uuid (key r) = key r)"

definition table_history :: "('r \<Rightarrow> string) \<Rightarrow> ('r \<Rightarrow> 'r \<Rightarrow> bool) \<Rightarrow> 'r list \<Rightarrow> 'r list \<Rightarrow> bool" where
  "table_history key R old new \<longleftrightarrow> (keyed key old \<longrightarrow> keyed key new \<and> (\<exists>changed more. new = changed @ more \<and> list_all2 R old changed))"

locale evidence_table =
  fixes key :: "'r \<Rightarrow> string" and R :: "'r \<Rightarrow> 'r \<Rightarrow> bool"
  assumes row_refl: "R r r"
    and row_trans: "R r s \<Longrightarrow> R s t \<Longrightarrow> R r t"
    and row_key: "R r s \<Longrightarrow> key s = key r"
begin

lemma table_refl: "table_history key R rows rows"
  unfolding table_history_def
  by (metis append_Nil2 list.rel_refl row_refl)

lemma table_trans:
  assumes "table_history key R a b" "table_history key R b c"
  shows "table_history key R a c"
  unfolding table_history_def
proof (intro impI conjI)
  assume d: "keyed key a"
  then obtain ch more where b: "keyed key b" "b = ch @ more" "list_all2 R a ch"
    using assms(1) unfolding table_history_def by blast
  then obtain ch' more' where c: "keyed key c" "c = ch' @ more'" "list_all2 R b ch'"
    using assms(2) unfolding table_history_def by blast
  show "keyed key c" by (rule c(1))
  obtain x y where xy: "ch' = x @ y" "list_all2 R ch x"
    using c(3) unfolding b(2) list_all2_append1 by blast
  have "list_all2 R a x" using list_all2_trans [of R R R a ch x] row_trans b(3) xy(2) by blast
  then show "\<exists>changed more. c = changed @ more \<and> list_all2 R a changed" using c(2) xy(1) by auto
qed

lemma table_create:
  assumes "create_row conflicts r rows = Some rows'" "\<And>a b. key a = key b \<Longrightarrow> conflicts a b"
    "pg_uuid (key r) = key r"
  shows "table_history key R rows rows'"
proof -
  have "rows' = rows @ [r]" "\<forall>x \<in> set rows. key r \<noteq> key x"
    using assms(1,2) unfolding create_row_def by (auto simp: list_ex_iff split: if_splits)
  moreover have "list_all2 R rows rows" by (simp add: list.rel_refl row_refl)
  ultimately show ?thesis using assms(3) unfolding table_history_def keyed_def by force
qed

text \<open>An update of the row that was read.\<close>

lemma table_update_found:
  assumes "find_by_id key i rows = Some (Some m)" "update_by_id key guard i f rows = Some rows'" "guard m (f m) \<Longrightarrow> R m (f m)"
  shows "table_history key R rows rows'"
  unfolding table_history_def
proof (intro impI conjI)
  assume k: "keyed key rows"
  then have d: "distinct (map key rows)" by (simp add: keyed_def)
  have g: "R m (f m)" and rows': "rows' = map (\<lambda>x. if key x = pg_uuid i then f x else x) rows"
    using assms by (auto simp: update_by_id_def split: if_splits)
  have "R x (if key x = pg_uuid i then f x else x)" if "x \<in> set rows" for x
  proof (cases "key x = pg_uuid i")
    case True
    then have "x = m" using find_by_id_Some [OF assms(1)] d that by (metis inj_on_eq_iff distinct_map)
    then show ?thesis using True g by simp
  qed (simp add: row_refl)
  then have all: "list_all2 R rows rows'" unfolding rows' by (simp add: list_all2_map2 list.rel_refl_strong)
  have "map key rows' = map key rows"
  proof (rule nth_equalityI)
    show "length (map key rows') = length (map key rows)" using list_all2_lengthD [OF all] by simp
    fix k assume "k < length (map key rows')"
    then have "R (rows ! k) (rows' ! k)" "k < length rows" "k < length rows'" using all by (auto simp: list_all2_conv_all_nth)
    then show "map key rows' ! k = map key rows ! k" using row_key by auto
  qed
  then show "keyed key rows'" using k unfolding keyed_def by (metis (no_types, lifting) imageE image_eqI list.set_map)
  show "\<exists>changed more. rows' = changed @ more \<and> list_all2 R rows changed" using all by (metis append_Nil2)
qed

lemma table_update:
  assumes "update_by_id key guard i f rows = Some rows'" "\<And>r. r \<in> set rows \<Longrightarrow> guard r (f r) \<Longrightarrow> R r (f r)"
  shows "table_history key R rows rows'"
proof -
  obtain m where m: "find_by_id key i rows = Some (Some m)" by (rule update_by_id_Some [OF assms(1)])
  have "m \<in> set rows" using find_by_id_Some [OF m] by simp
  then show ?thesis using table_update_found [OF m assms(1)] assms(2) by blast
qed

lemma table_row:
  assumes "table_history key R old new" "keyed key old" "r \<in> set old"
  shows "\<exists>r' \<in> set new. R r r'"
proof -
  obtain ch more where "new = ch @ more" "list_all2 R old ch"
    using assms(1,2) unfolding table_history_def by blast
  moreover obtain k where "k < length old" "r = old ! k" using assms(3) by (auto simp: in_set_conv_nth)
  ultimately have "R r (ch ! k)" "ch ! k \<in> set new" by (auto simp: list_all2_conv_all_nth)
  then show ?thesis by blast
qed

end

end
