(* ===== verification/Operating_Entity_Store.thy ===== *)
theory Operating_Entity_Store
  imports Governed_Store
begin

text \<open>
  Operating entities (\<open>modules/operating-entity\<close>), the lower half: the domain types, the constraints and guard triggers of
  migrations 0060 to 0063 and 0086, and the Prisma repositories.  A repository call returns \<open>None\<close> when it throws.
\<close>

section \<open>Domain\<close>

definition OPERATING_ENTITY_STATUSES :: "string list" where
  "OPERATING_ENTITY_STATUSES = [''ACTIVE'', ''SUSPENDED'', ''RETIRED'']"

definition ENTITY_LICENCE_STATUSES :: "string list" where
  "ENTITY_LICENCE_STATUSES = [''CLAIMED_UNVERIFIED'', ''EVIDENCED'', ''EXPIRED'', ''REVOKED'']"

definition DATA_PROTECTION_ROLES :: "string list" where
  "DATA_PROTECTION_ROLES = [''CONTROLLER'', ''JOINT_CONTROLLER'', ''PROCESSOR'']"

definition ASSIGNMENT_SCOPES :: "string list" where
  "ASSIGNMENT_SCOPES = [''TENANT_DEFAULT'', ''USER_CONTRACTING'']"

record operating_entity =
  oe_id :: string
  oe_legalName :: string
  oe_registrationNumber :: string
  oe_registeredJurisdictionRef :: string
  oe_contractingCapacity :: bool
  oe_dataProtectionContact :: string
  oe_status :: string
  oe_createdAt :: millis
  oe_updatedAt :: millis

record jurisdiction_permission =
  jp_id :: string
  jp_entityId :: string
  jp_jurisdictionRef :: string
  jp_permittedFrom :: millis
  jp_permittedTo :: "millis option"
  jp_basisReference :: string

definition isPermittedInJurisdiction :: "jurisdiction_permission list \<Rightarrow> string \<Rightarrow> millis \<Rightarrow> bool" where
  "isPermittedInJurisdiction permissions ref at \<longleftrightarrow>
     list_ex (\<lambda>p. jp_jurisdictionRef p = ref \<and> jp_permittedFrom p \<le> at
       \<and> (case jp_permittedTo p of None \<Rightarrow> True | Some t \<Rightarrow> t > at)) permissions"

record entity_licence =
  el_id :: string
  el_entityId :: string
  el_licenceTypeRef :: string
  el_status :: string
  el_sourceProvenance :: string
  el_effectiveDate :: "millis option"
  el_expiryDate :: "millis option"
  el_reviewOwner :: string
  el_evidenceReference :: "string option"

definition licenceStatusRequiresEvidence :: "string \<Rightarrow> bool" where
  "licenceStatusRequiresEvidence status \<longleftrightarrow> status = ''EVIDENCED''"

record protection_role =
  pr_id :: string
  pr_operatingEntityId :: string
  pr_tenantId :: "string option"
  pr_purposeRef :: string
  pr_jurisdictionRef :: string
  pr_role :: string
  pr_effectiveFrom :: millis
  pr_effectiveTo :: "millis option"
  pr_contractReference :: "string option"
  pr_createdBy :: string
  pr_createdAt :: millis
  pr_policyPackVersion :: "string option"
  pr_policyPackPinState :: string

record entity_assignment =
  ea_id :: string
  ea_scope :: string
  ea_tenantId :: "string option"
  ea_userId :: "string option"
  ea_entityId :: string
  ea_effectiveFrom :: millis
  ea_effectiveTo :: "millis option"
  ea_createdBy :: string
  ea_createdAt :: millis

definition window_covers :: "millis \<Rightarrow> millis option \<Rightarrow> millis \<Rightarrow> bool" where
  "window_covers from to at \<longleftrightarrow> from \<le> at \<and> (case to of None \<Rightarrow> True | Some t \<Rightarrow> t > at)"

definition roleAssignmentActiveAt :: "protection_role \<Rightarrow> millis \<Rightarrow> bool" where
  "roleAssignmentActiveAt a at \<longleftrightarrow> window_covers (pr_effectiveFrom a) (pr_effectiveTo a) at"

definition entityAssignmentActiveAt :: "entity_assignment \<Rightarrow> millis \<Rightarrow> bool" where
  "entityAssignmentActiveAt a at \<longleftrightarrow> window_covers (ea_effectiveFrom a) (ea_effectiveTo a) at"

datatype migration_status = PROPOSED | RECONSENT_EVALUATED | AWAITING_ACCEPTANCE | MIGRATED | BLOCKED

record entity_migration =
  em_id :: string
  em_scope :: string
  em_subjectRef :: string
  em_fromEntity :: string
  em_toEntity :: string
  em_status :: migration_status
  em_reason :: string
  em_reconsentEvaluationId :: "string option"
  em_proposedBy :: string
  em_proposedAt :: millis
  em_completedAt :: "millis option"

fun migration_transitions :: "migration_status \<Rightarrow> migration_status list" where
  "migration_transitions PROPOSED = [RECONSENT_EVALUATED]"
| "migration_transitions RECONSENT_EVALUATED = [AWAITING_ACCEPTANCE, MIGRATED]"
| "migration_transitions AWAITING_ACCEPTANCE = [MIGRATED, BLOCKED]"
| "migration_transitions MIGRATED = []"
| "migration_transitions BLOCKED = []"

definition migrationTransitionAllowed :: "migration_status \<Rightarrow> migration_status \<Rightarrow> bool" where
  "migrationTransitionAllowed from to \<longleftrightarrow> List.member (migration_transitions from) to"

definition isTerminalMigrationStatus :: "migration_status \<Rightarrow> bool" where
  "isTerminalMigrationStatus s \<longleftrightarrow> s = MIGRATED \<or> s = BLOCKED"

fun migration_status_text :: "migration_status \<Rightarrow> string" where
  "migration_status_text PROPOSED = ''PROPOSED''"
| "migration_status_text RECONSENT_EVALUATED = ''RECONSENT_EVALUATED''"
| "migration_status_text AWAITING_ACCEPTANCE = ''AWAITING_ACCEPTANCE''"
| "migration_status_text MIGRATED = ''MIGRATED''"
| "migration_status_text BLOCKED = ''BLOCKED''"

section \<open>Tables\<close>

record entity_world = governed_world +
  ew_entities :: "operating_entity list"
  ew_permissions :: "jurisdiction_permission list"
  ew_licences :: "entity_licence list"
  ew_roles :: "protection_role list"
  ew_assignments :: "entity_assignment list"
  ew_migrations :: "entity_migration list"

definition known_entity :: "'w entity_world_scheme \<Rightarrow> string \<Rightarrow> bool" where
  "known_entity w i \<longleftrightarrow> list_ex (\<lambda>e. oe_id e = i) (ew_entities w)"

definition ends_after :: "millis \<Rightarrow> millis option \<Rightarrow> bool" where
  "ends_after from to \<longleftrightarrow> (case to of None \<Rightarrow> True | Some t \<Rightarrow> t > from)"

definition entity_checks :: "operating_entity \<Rightarrow> bool" where
  "entity_checks e \<longleftrightarrow> list_all filled_text [oe_legalName e, oe_registrationNumber e, oe_registeredJurisdictionRef e, oe_dataProtectionContact e]
     \<and> oe_status e \<in> set OPERATING_ENTITY_STATUSES"

definition entity_conflicts :: "operating_entity \<Rightarrow> operating_entity \<Rightarrow> bool" where
  "entity_conflicts a b \<longleftrightarrow> oe_id a = oe_id b
     \<or> oe_registeredJurisdictionRef a = oe_registeredJurisdictionRef b \<and> oe_registrationNumber a = oe_registrationNumber b"

definition permission_checks :: "jurisdiction_permission \<Rightarrow> bool" where
  "permission_checks p \<longleftrightarrow> filled_text (jp_jurisdictionRef p) \<and> filled_text (jp_basisReference p)
     \<and> ends_after (jp_permittedFrom p) (jp_permittedTo p)"

text \<open>The columns of type \<open>date\<close> keep the day.\<close>

definition pg_date :: "millis \<Rightarrow> millis" where
  "pg_date t = t - t mod 86400000"

definition licence_checks :: "entity_licence \<Rightarrow> bool" where
  "licence_checks l \<longleftrightarrow> list_all filled_text [el_licenceTypeRef l, el_sourceProvenance l, el_reviewOwner l]
     \<and> optional_text (el_evidenceReference l) \<and> el_status l \<in> set ENTITY_LICENCE_STATUSES
     \<and> (el_status l \<noteq> ''EVIDENCED'' \<or> el_evidenceReference l \<noteq> None)
     \<and> (case (el_effectiveDate l, el_expiryDate l) of (Some f, Some t) \<Rightarrow> t \<ge> f | _ \<Rightarrow> True)"

text \<open>A role decision pins a policy pack; \<open>PRE_POLICY_PACK\<close> is for rows created before the cutoff, 2026-08-16.\<close>

definition PIN_CUTOFF :: millis where
  "PIN_CUTOFF = 1786838400000"

definition role_checks :: "protection_role \<Rightarrow> bool" where
  "role_checks r \<longleftrightarrow> list_all filled_text [pr_purposeRef r, pr_jurisdictionRef r, pr_createdBy r]
     \<and> optional_text (pr_contractReference r) \<and> pr_role r \<in> set DATA_PROTECTION_ROLES
     \<and> ends_after (pr_effectiveFrom r) (pr_effectiveTo r)
     \<and> pr_policyPackPinState r \<in> {''PINNED'', ''PRE_POLICY_PACK''}
     \<and> (pr_policyPackPinState r = ''PINNED'' \<longleftrightarrow> pr_policyPackVersion r \<noteq> None)
     \<and> (case pr_policyPackVersion r of None \<Rightarrow> True | Some v \<Rightarrow> filled_text v)
     \<and> (pr_createdAt r < PIN_CUTOFF \<or> pr_policyPackPinState r = ''PINNED'')"

text \<open>The trigger: an open row may gain its end, once, and nothing else of it changes.\<close>

definition role_guard :: "protection_role \<Rightarrow> protection_role \<Rightarrow> bool" where
  "role_guard old new \<longleftrightarrow> pr_effectiveTo old = None \<and> pr_effectiveTo new \<noteq> None
     \<and> new\<lparr>pr_effectiveTo := None\<rparr> = old"

definition binding_checks :: "entity_assignment \<Rightarrow> bool" where
  "binding_checks a \<longleftrightarrow> filled_text (ea_createdBy a) \<and> ends_after (ea_effectiveFrom a) (ea_effectiveTo a)
     \<and> (ea_scope a = ''TENANT_DEFAULT'' \<and> ea_tenantId a \<noteq> None \<and> ea_userId a = None
        \<or> ea_scope a = ''USER_CONTRACTING'' \<and> ea_userId a \<noteq> None)"

definition assignment_guard :: "entity_assignment \<Rightarrow> entity_assignment \<Rightarrow> bool" where
  "assignment_guard old new \<longleftrightarrow> ea_effectiveTo old = None \<and> ea_effectiveTo new \<noteq> None
     \<and> new\<lparr>ea_effectiveTo := None\<rparr> = old"

definition migration_checks :: "entity_migration \<Rightarrow> bool" where
  "migration_checks m \<longleftrightarrow> em_scope m \<in> set ASSIGNMENT_SCOPES
     \<and> list_all filled_text [em_subjectRef m, em_reason m, em_proposedBy m] \<and> em_fromEntity m \<noteq> em_toEntity m
     \<and> (isTerminalMigrationStatus (em_status m) \<longleftrightarrow> em_completedAt m \<noteq> None)
     \<and> (em_status m = PROPOSED \<or> em_reconsentEvaluationId m \<noteq> None)"

definition migration_guard :: "entity_migration \<Rightarrow> entity_migration \<Rightarrow> bool" where
  "migration_guard old new \<longleftrightarrow> \<not> isTerminalMigrationStatus (em_status old)
     \<and> new\<lparr>em_status := em_status old, em_reconsentEvaluationId := em_reconsentEvaluationId old, em_completedAt := em_completedAt old\<rparr> = old
     \<and> (em_reconsentEvaluationId old = None \<or> em_reconsentEvaluationId new = em_reconsentEvaluationId old)"

definition same_id :: "('r \<Rightarrow> string) \<Rightarrow> 'r \<Rightarrow> 'r \<Rightarrow> bool" where
  "same_id key a b \<longleftrightarrow> key a = key b"

section \<open>PrismaOperatingEntityRepository\<close>

definition entities_insert :: "operating_entity \<Rightarrow> 'w entity_world_scheme \<Rightarrow> (unit \<times> 'w entity_world_scheme) option" where
  "entities_insert e w =
     (let row = e\<lparr>oe_id := pg_uuid (oe_id e)\<rparr>
      in if \<not> isUuid (oe_id e) \<or> \<not> entity_checks row then None
         else map_option (\<lambda>rows. ((), w\<lparr>ew_entities := rows\<rparr>)) (create_row entity_conflicts row (ew_entities w)))"

definition entities_findById :: "string \<Rightarrow> 'w entity_world_scheme \<Rightarrow> operating_entity option option" where
  "entities_findById i w = find_by_id oe_id i (ew_entities w)"

definition entities_updateStatus ::
  "string \<Rightarrow> string \<Rightarrow> millis \<Rightarrow> 'w entity_world_scheme \<Rightarrow> (unit \<times> 'w entity_world_scheme) option" where
  "entities_updateStatus i status at w =
     map_option (\<lambda>rows. ((), w\<lparr>ew_entities := rows\<rparr>))
       (update_by_id oe_id (\<lambda>old new. entity_checks new) i (\<lambda>e. e\<lparr>oe_status := status, oe_updatedAt := at\<rparr>) (ew_entities w))"

definition entities_insertJurisdictionPermission ::
  "jurisdiction_permission \<Rightarrow> 'w entity_world_scheme \<Rightarrow> (unit \<times> 'w entity_world_scheme) option" where
  "entities_insertJurisdictionPermission p w =
     (let row = p\<lparr>jp_id := pg_uuid (jp_id p), jp_entityId := pg_uuid (jp_entityId p)\<rparr>
      in if \<not> isUuid (jp_id p) \<or> \<not> isUuid (jp_entityId p) \<or> \<not> known_entity w (jp_entityId row) \<or> \<not> permission_checks row then None
         else map_option (\<lambda>rows. ((), w\<lparr>ew_permissions := rows\<rparr>)) (create_row (same_id jp_id) row (ew_permissions w)))"

definition entities_listJurisdictionPermissions ::
  "string \<Rightarrow> 'w entity_world_scheme \<Rightarrow> jurisdiction_permission list option" where
  "entities_listJurisdictionPermissions entityId w =
     (if isUuid entityId then Some (find_many (\<lambda>p. jp_entityId p = pg_uuid entityId)
        (\<lambda>a b. jp_permittedFrom a - jp_permittedFrom b) (ew_permissions w)) else None)"

definition entities_endJurisdictionPermission ::
  "string \<Rightarrow> millis \<Rightarrow> 'w entity_world_scheme \<Rightarrow> (unit \<times> 'w entity_world_scheme) option" where
  "entities_endJurisdictionPermission i to w =
     map_option (\<lambda>rows. ((), w\<lparr>ew_permissions := rows\<rparr>))
       (update_by_id jp_id (\<lambda>old new. permission_checks new) i (\<lambda>p. p\<lparr>jp_permittedTo := Some to\<rparr>) (ew_permissions w))"

text \<open>The safe projection of an entity.\<close>

record entity_summary =
  os_id :: string
  os_legalName :: string
  os_registeredJurisdictionRef :: string
  os_dataProtectionContact :: string

definition summaries_findById :: "string \<Rightarrow> 'w entity_world_scheme \<Rightarrow> entity_summary option option" where
  "summaries_findById i w = map_option (map_option (\<lambda>e.
     \<lparr>os_id = oe_id e, os_legalName = oe_legalName e, os_registeredJurisdictionRef = oe_registeredJurisdictionRef e,
      os_dataProtectionContact = oe_dataProtectionContact e\<rparr>)) (find_by_id oe_id i (ew_entities w))"

section \<open>PrismaEntityLicenceRepository\<close>

definition licences_insert :: "entity_licence \<Rightarrow> 'w entity_world_scheme \<Rightarrow> (unit \<times> 'w entity_world_scheme) option" where
  "licences_insert l w =
     (let row = l\<lparr>el_id := pg_uuid (el_id l), el_entityId := pg_uuid (el_entityId l),
                  el_effectiveDate := map_option pg_date (el_effectiveDate l), el_expiryDate := map_option pg_date (el_expiryDate l)\<rparr>
      in if \<not> isUuid (el_id l) \<or> \<not> isUuid (el_entityId l) \<or> \<not> known_entity w (el_entityId row) \<or> \<not> licence_checks row then None
         else map_option (\<lambda>rows. ((), w\<lparr>ew_licences := rows\<rparr>)) (create_row (same_id el_id) row (ew_licences w)))"

definition licences_findById :: "string \<Rightarrow> 'w entity_world_scheme \<Rightarrow> entity_licence option option" where
  "licences_findById i w = find_by_id el_id i (ew_licences w)"

definition licences_updateStatus ::
  "string \<Rightarrow> string \<Rightarrow> string option \<Rightarrow> 'w entity_world_scheme \<Rightarrow> (unit \<times> 'w entity_world_scheme) option" where
  "licences_updateStatus i status evidence w =
     map_option (\<lambda>rows. ((), w\<lparr>ew_licences := rows\<rparr>))
       (update_by_id el_id (\<lambda>old new. licence_checks new) i
          (\<lambda>l. l\<lparr>el_status := status, el_evidenceReference := evidence\<rparr>) (ew_licences w))"

section \<open>PrismaRoleAssignmentRepository\<close>

definition roles_insert :: "protection_role \<Rightarrow> 'w entity_world_scheme \<Rightarrow> (unit \<times> 'w entity_world_scheme) option" where
  "roles_insert r w =
     (let row = r\<lparr>pr_id := pg_uuid (pr_id r), pr_operatingEntityId := pg_uuid (pr_operatingEntityId r),
                  pr_tenantId := map_option pg_uuid (pr_tenantId r)\<rparr>
      in if \<not> isUuid (pr_id r) \<or> \<not> isUuid (pr_operatingEntityId r) \<or> \<not> optional_uuid (pr_tenantId r)
            \<or> \<not> known_entity w (pr_operatingEntityId row) \<or> \<not> role_checks row then None
         else map_option (\<lambda>rows. ((), w\<lparr>ew_roles := rows\<rparr>)) (create_row (same_id pr_id) row (ew_roles w)))"

definition roles_findById :: "string \<Rightarrow> 'w entity_world_scheme \<Rightarrow> protection_role option option" where
  "roles_findById i w = find_by_id pr_id i (ew_roles w)"

definition roles_end :: "string \<Rightarrow> millis \<Rightarrow> 'w entity_world_scheme \<Rightarrow> (unit \<times> 'w entity_world_scheme) option" where
  "roles_end i to w =
     map_option (\<lambda>rows. ((), w\<lparr>ew_roles := rows\<rparr>))
       (update_by_id pr_id (\<lambda>old new. role_checks new \<and> role_guard old new) i (\<lambda>r. r\<lparr>pr_effectiveTo := Some to\<rparr>) (ew_roles w))"

record role_query =
  rq_operatingEntityId :: "string option"
  rq_tenantId :: "string option option"
  rq_purposeRef :: "string option"
  rq_jurisdictionRef :: "string option"
  rq_activeAt :: "millis option"

definition wanted :: "'a option \<Rightarrow> 'a \<Rightarrow> bool" where
  "wanted q x \<longleftrightarrow> (case q of None \<Rightarrow> True | Some v \<Rightarrow> x = v)"

definition roles_query :: "role_query \<Rightarrow> 'w entity_world_scheme \<Rightarrow> protection_role list option" where
  "roles_query q w =
     (if \<not> optional_uuid (rq_operatingEntityId q) \<or> (case rq_tenantId q of None \<Rightarrow> False | Some t \<Rightarrow> \<not> optional_uuid t) then None
      else Some (find_many (\<lambda>r. wanted (map_option pg_uuid (rq_operatingEntityId q)) (pr_operatingEntityId r)
             \<and> wanted (map_option (map_option pg_uuid) (rq_tenantId q)) (pr_tenantId r)
             \<and> wanted (rq_purposeRef q) (pr_purposeRef r) \<and> wanted (rq_jurisdictionRef q) (pr_jurisdictionRef r)
             \<and> (case rq_activeAt q of None \<Rightarrow> True | Some at \<Rightarrow> window_covers (pr_effectiveFrom r) (pr_effectiveTo r) at))
             (\<lambda>a b. pr_effectiveFrom a - pr_effectiveFrom b) (ew_roles w)))"

section \<open>PrismaEntityAssignmentRepository\<close>

definition assignments_insert :: "entity_assignment \<Rightarrow> 'w entity_world_scheme \<Rightarrow> (unit \<times> 'w entity_world_scheme) option" where
  "assignments_insert a w =
     (let row = a\<lparr>ea_id := pg_uuid (ea_id a), ea_tenantId := map_option pg_uuid (ea_tenantId a),
                  ea_userId := map_option pg_uuid (ea_userId a), ea_entityId := pg_uuid (ea_entityId a)\<rparr>
      in if \<not> isUuid (ea_id a) \<or> \<not> optional_uuid (ea_tenantId a) \<or> \<not> optional_uuid (ea_userId a) \<or> \<not> isUuid (ea_entityId a)
            \<or> \<not> known_entity w (ea_entityId row) \<or> \<not> binding_checks row then None
         else map_option (\<lambda>rows. ((), w\<lparr>ew_assignments := rows\<rparr>)) (create_row (same_id ea_id) row (ew_assignments w)))"

definition assignments_end :: "string \<Rightarrow> millis \<Rightarrow> 'w entity_world_scheme \<Rightarrow> (unit \<times> 'w entity_world_scheme) option" where
  "assignments_end i to w =
     map_option (\<lambda>rows. ((), w\<lparr>ew_assignments := rows\<rparr>))
       (update_by_id ea_id (\<lambda>old new. binding_checks new \<and> assignment_guard old new) i
          (\<lambda>a. a\<lparr>ea_effectiveTo := Some to\<rparr>) (ew_assignments w))"

text \<open>A subject filter names a tenant, a user, or both; an absent key does not constrain.\<close>

definition of_subject :: "string option \<Rightarrow> string option \<Rightarrow> entity_assignment \<Rightarrow> bool" where
  "of_subject tenantId userId a \<longleftrightarrow>
     (case tenantId of None \<Rightarrow> True | Some t \<Rightarrow> ea_tenantId a = Some (pg_uuid t))
     \<and> (case userId of None \<Rightarrow> True | Some u \<Rightarrow> ea_userId a = Some (pg_uuid u))"

definition assignments_findOpen ::
  "string \<Rightarrow> string option \<Rightarrow> string option \<Rightarrow> 'w entity_world_scheme \<Rightarrow> entity_assignment list option" where
  "assignments_findOpen scope tenantId userId w =
     (if optional_uuid tenantId \<and> optional_uuid userId
      then Some (filter (\<lambda>a. ea_scope a = scope \<and> ea_effectiveTo a = None \<and> of_subject tenantId userId a) (ew_assignments w))
      else None)"

definition assignments_findActiveAt ::
  "string \<Rightarrow> string option \<Rightarrow> string option \<Rightarrow> millis \<Rightarrow> 'w entity_world_scheme \<Rightarrow> entity_assignment list option" where
  "assignments_findActiveAt scope tenantId userId at w =
     (if optional_uuid tenantId \<and> optional_uuid userId
      then Some (filter (\<lambda>a. ea_scope a = scope \<and> window_covers (ea_effectiveFrom a) (ea_effectiveTo a) at
                    \<and> of_subject tenantId userId a) (ew_assignments w))
      else None)"

section \<open>PrismaEntityMigrationRepository\<close>

definition migrations_insert :: "entity_migration \<Rightarrow> 'w entity_world_scheme \<Rightarrow> (unit \<times> 'w entity_world_scheme) option" where
  "migrations_insert m w =
     (let row = m\<lparr>em_id := pg_uuid (em_id m), em_fromEntity := pg_uuid (em_fromEntity m), em_toEntity := pg_uuid (em_toEntity m)\<rparr>
      in if \<not> isUuid (em_id m) \<or> \<not> isUuid (em_fromEntity m) \<or> \<not> isUuid (em_toEntity m) \<or> \<not> known_entity w (em_fromEntity row)
            \<or> \<not> known_entity w (em_toEntity row) \<or> \<not> migration_checks row then None
         else map_option (\<lambda>rows. ((), w\<lparr>ew_migrations := rows\<rparr>)) (create_row (same_id em_id) row (ew_migrations w)))"

definition migrations_findById :: "string \<Rightarrow> 'w entity_world_scheme \<Rightarrow> entity_migration option option" where
  "migrations_findById i w = find_by_id em_id i (ew_migrations w)"

definition advanced_migration :: "migration_status \<Rightarrow> string option \<Rightarrow> millis option \<Rightarrow> entity_migration \<Rightarrow> entity_migration" where
  "advanced_migration to evaluation completedAt m =
     m\<lparr>em_status := to,
       em_reconsentEvaluationId := (case evaluation of None \<Rightarrow> em_reconsentEvaluationId m | Some e \<Rightarrow> Some (pg_uuid e)),
       em_completedAt := (case completedAt of None \<Rightarrow> em_completedAt m | Some t \<Rightarrow> Some t)\<rparr>"

definition migrations_advance ::
  "string \<Rightarrow> migration_status \<Rightarrow> string option \<Rightarrow> millis option \<Rightarrow> 'w entity_world_scheme \<Rightarrow> (unit \<times> 'w entity_world_scheme) option" where
  "migrations_advance i to evaluation completedAt w =
     (if \<not> optional_uuid evaluation then None
      else map_option (\<lambda>rows. ((), w\<lparr>ew_migrations := rows\<rparr>))
        (update_by_id em_id (\<lambda>old new. migration_checks new \<and> migration_guard old new) i
           (advanced_migration to evaluation completedAt) (ew_migrations w)))"

end
