(* ===== verification/Operating_Entity.thy ===== *)
theory Operating_Entity
  imports Operating_Entity_Store
begin

text \<open>
  The use cases of \<open>modules/operating-entity/application\<close>: the entity register, jurisdiction permissions, licence records,
  data-protection roles, the bindings of tenants and users to entities with their resolution, and the migration of a binding.
  Each statement of the repositories is a transaction of its own; a failure keeps what was written before it.
\<close>

datatype entity_refusal =
    INVALID_TRANSITION migration_status migration_status | EVIDENCE_REQUIRED string | NO_EFFECTIVE_ENTITY

type_synonym ('w, 'a) entity_effect = "('w entity_world_scheme, entity_refusal governed_error, 'a) effect"

definition MANAGE_ENTITY :: string where
  "MANAGE_ENTITY = ''entity.entity.manage''"

definition APPROVE_MIGRATION :: string where
  "APPROVE_MIGRATION = ''entity.migration.approve''"

definition entity_entry ::
  "policy_principal_ref \<Rightarrow> string option \<Rightarrow> string \<Rightarrow> string \<Rightarrow> string \<Rightarrow> string option \<Rightarrow> metadata option \<Rightarrow> metadata option
     \<Rightarrow> governed_entry" where
  "entity_entry who tenantRef action type' i reason before after =
     \<lparr>ge_actorRef = pp_principalRef who, ge_tenantRef = tenantRef, ge_action = action, ge_resourceType = type',
      ge_resourceId = i, ge_reason = reason, ge_before = before, ge_after = after\<rparr>"

section \<open>The register\<close>

record create_entity_input =
  cn_legalName :: string
  cn_registrationNumber :: string
  cn_registeredJurisdictionRef :: string
  cn_contractingCapacity :: bool
  cn_dataProtectionContact :: string

definition new_entity :: "governed_deps \<Rightarrow> create_entity_input \<Rightarrow> operating_entity" where
  "new_entity d i =
     \<lparr>oe_id = gd_nextId d, oe_legalName = cn_legalName i, oe_registrationNumber = cn_registrationNumber i,
      oe_registeredJurisdictionRef = cn_registeredJurisdictionRef i, oe_contractingCapacity = cn_contractingCapacity i,
      oe_dataProtectionContact = cn_dataProtectionContact i, oe_status = ''ACTIVE'', oe_createdAt = gd_now d, oe_updatedAt = gd_now d\<rparr>"

definition createOperatingEntity ::
  "governed_deps \<Rightarrow> policy_principal_ref \<Rightarrow> create_entity_input \<Rightarrow> ('w, operating_entity) entity_effect" where
  "createOperatingEntity d who i =
     thenE (permit d who MANAGE_ENTITY) (\<lambda>u.
     thenE (require_text ''legalName'' (cn_legalName i)) (\<lambda>u.
     thenE (require_text ''registrationNumber'' (cn_registrationNumber i)) (\<lambda>u.
     thenE (require_text ''JurisdictionRef'' (cn_registeredJurisdictionRef i)) (\<lambda>u.
     thenE (require_text ''dataProtectionContact'' (cn_dataProtectionContact i)) (\<lambda>u.
     let e = new_entity d i in
     thenE (governed_write d ''entities.insert'' (oe_id e) (entities_insert e)) (\<lambda>u.
     thenE (audited d (entity_entry who None ''entity.entity.created'' ''operating_entity'' (oe_id e) None None
         (Some [(''legalName'', JsString (oe_legalName e)), (''status'', JsString (oe_status e))]))) (\<lambda>u.
       returnE e)))))))"

definition getOperatingEntity :: "governed_deps \<Rightarrow> policy_principal_ref \<Rightarrow> string \<Rightarrow> ('w, operating_entity) entity_effect" where
  "getOperatingEntity d who entityId =
     thenE (permit d who MANAGE_ENTITY) (\<lambda>u.
     thenE (governed_read d ''entities.findById'' entityId (entities_findById entityId)) (\<lambda>e.
       found ''operating_entity'' entityId e))"

definition updateOperatingEntityStatus ::
  "governed_deps \<Rightarrow> policy_principal_ref \<Rightarrow> string \<Rightarrow> string \<Rightarrow> string \<Rightarrow> ('w, operating_entity) entity_effect" where
  "updateOperatingEntityStatus d who entityId status reason =
     thenE (require_that ''status'' (status \<in> set OPERATING_ENTITY_STATUSES)) (\<lambda>u.
     thenE (require_text ''reason'' reason) (\<lambda>u.
     thenE (permit d who MANAGE_ENTITY) (\<lambda>u.
     thenE (governed_read d ''entities.findById'' entityId (entities_findById entityId)) (\<lambda>r.
     thenE (found ''operating_entity'' entityId r) (\<lambda>before.
     thenE (governed_write d ''entities.updateStatus'' entityId (entities_updateStatus entityId status (gd_now d))) (\<lambda>u.
     thenE (audited d (entity_entry who None ''entity.entity.status_changed'' ''operating_entity'' entityId (Some reason)
         (Some [(''status'', JsString (oe_status before))]) (Some [(''status'', JsString status)]))) (\<lambda>u.
       returnE (before\<lparr>oe_status := status, oe_updatedAt := gd_now d\<rparr>))))))))"

section \<open>Jurisdiction permissions\<close>

definition grantJurisdictionPermission ::
  "governed_deps \<Rightarrow> policy_principal_ref \<Rightarrow> string \<Rightarrow> string \<Rightarrow> millis \<Rightarrow> string \<Rightarrow> ('w, jurisdiction_permission) entity_effect" where
  "grantJurisdictionPermission d who entityId jurisdictionRef permittedFrom basisReference =
     thenE (permit d who MANAGE_ENTITY) (\<lambda>u.
     thenE (governed_read d ''entities.findById'' entityId (entities_findById entityId)) (\<lambda>r.
     thenE (found ''operating_entity'' entityId r) (\<lambda>e.
     thenE (require_text ''JurisdictionRef'' jurisdictionRef) (\<lambda>u.
     thenE (require_text ''basisReference'' basisReference) (\<lambda>u.
     let p = \<lparr>jp_id = gd_nextId d, jp_entityId = entityId, jp_jurisdictionRef = jurisdictionRef,
              jp_permittedFrom = permittedFrom, jp_permittedTo = None, jp_basisReference = basisReference\<rparr> in
     thenE (governed_write d ''entities.insertJurisdictionPermission'' (jp_id p) (entities_insertJurisdictionPermission p)) (\<lambda>u.
     thenE (audited d (entity_entry who None ''entity.jurisdiction_permission.granted'' ''entity_jurisdiction_permission'' (jp_id p) None None
         (Some [(''entityId'', JsString entityId), (''jurisdictionRef'', JsString jurisdictionRef),
                (''basisReference'', JsString basisReference)]))) (\<lambda>u.
       returnE p)))))))"

definition endJurisdictionPermission ::
  "governed_deps \<Rightarrow> policy_principal_ref \<Rightarrow> string \<Rightarrow> millis \<Rightarrow> string \<Rightarrow> ('w, unit) entity_effect" where
  "endJurisdictionPermission d who permissionId permittedTo reason =
     thenE (require_text ''reason'' reason) (\<lambda>u.
     thenE (permit d who MANAGE_ENTITY) (\<lambda>u.
     thenE (governed_write d ''entities.endJurisdictionPermission'' permissionId
         (entities_endJurisdictionPermission permissionId permittedTo)) (\<lambda>u.
       audited d (entity_entry who None ''entity.jurisdiction_permission.ended'' ''entity_jurisdiction_permission'' permissionId
         (Some reason) None (Some [(''permittedTo'', JsString (gd_iso d permittedTo))])))))"

section \<open>Licence records\<close>

record licence_input =
  li_entityId :: string
  li_licenceTypeRef :: string
  li_status :: string
  li_sourceProvenance :: string
  li_reviewOwner :: string
  li_effectiveDate :: "millis option"
  li_expiryDate :: "millis option"
  li_evidenceReference :: "string option"

definition evidence_refusal :: "string \<Rightarrow> string option \<Rightarrow> entity_refusal option" where
  "evidence_refusal status evidence = (if licenceStatusRequiresEvidence status \<and> evidence = None then Some (EVIDENCE_REQUIRED status) else None)"

definition recordEntityLicence ::
  "governed_deps \<Rightarrow> policy_principal_ref \<Rightarrow> licence_input \<Rightarrow> ('w, entity_licence) entity_effect" where
  "recordEntityLicence d who i =
     thenE (require_that ''status'' (li_status i \<in> set ENTITY_LICENCE_STATUSES)) (\<lambda>u.
     thenE (permit d who MANAGE_ENTITY) (\<lambda>u.
     thenE (refuse_if (evidence_refusal (li_status i) (li_evidenceReference i))) (\<lambda>u.
     thenE (governed_read d ''entities.findById'' (li_entityId i) (entities_findById (li_entityId i))) (\<lambda>r.
     thenE (found ''operating_entity'' (li_entityId i) r) (\<lambda>e.
     thenE (require_text ''licenceTypeRef'' (li_licenceTypeRef i)) (\<lambda>u.
     thenE (require_text ''sourceProvenance'' (li_sourceProvenance i)) (\<lambda>u.
     thenE (require_text ''reviewOwner'' (li_reviewOwner i)) (\<lambda>u.
     let l = \<lparr>el_id = gd_nextId d, el_entityId = li_entityId i, el_licenceTypeRef = li_licenceTypeRef i, el_status = li_status i,
              el_sourceProvenance = li_sourceProvenance i, el_effectiveDate = li_effectiveDate i, el_expiryDate = li_expiryDate i,
              el_reviewOwner = li_reviewOwner i, el_evidenceReference = li_evidenceReference i\<rparr> in
     thenE (governed_write d ''licences.insert'' (el_id l) (licences_insert l)) (\<lambda>u.
     thenE (audited d (entity_entry who None ''entity.licence.recorded'' ''entity_licence'' (el_id l) None None
         (Some [(''entityId'', JsString (el_entityId l)), (''licenceTypeRef'', JsString (el_licenceTypeRef l)),
                (''status'', JsString (el_status l)), (''sourceProvenance'', JsString (el_sourceProvenance l))]))) (\<lambda>u.
       returnE l))))))))))"

definition updateEntityLicenceStatus ::
  "governed_deps \<Rightarrow> policy_principal_ref \<Rightarrow> string \<Rightarrow> string \<Rightarrow> string option \<Rightarrow> string \<Rightarrow> ('w, unit) entity_effect" where
  "updateEntityLicenceStatus d who licenceId status evidence reason =
     thenE (require_that ''status'' (status \<in> set ENTITY_LICENCE_STATUSES)) (\<lambda>u.
     thenE (require_text ''reason'' reason) (\<lambda>u.
     thenE (permit d who MANAGE_ENTITY) (\<lambda>u.
     thenE (governed_read d ''licences.findById'' licenceId (licences_findById licenceId)) (\<lambda>r.
     thenE (found ''entity_licence'' licenceId r) (\<lambda>before.
     let kept = (case evidence of None \<Rightarrow> el_evidenceReference before | Some e \<Rightarrow> Some e) in
     thenE (refuse_if (evidence_refusal status kept)) (\<lambda>u.
     thenE (governed_write d ''licences.updateStatus'' licenceId (licences_updateStatus licenceId status kept)) (\<lambda>u.
       audited d (entity_entry who None ''entity.licence.status_changed'' ''entity_licence'' licenceId (Some reason)
         (Some [(''status'', JsString (el_status before))]) (Some [(''status'', JsString status)])))))))))"

section \<open>Data-protection roles\<close>

record protection_role_input =
  rn_operatingEntityId :: string
  rn_tenantId :: "string option"
  rn_purposeRef :: string
  rn_jurisdictionRef :: string
  rn_role :: string
  rn_effectiveFrom :: millis
  rn_contractReference :: "string option"
  rn_policyPackVersion :: string

definition new_role :: "governed_deps \<Rightarrow> policy_principal_ref \<Rightarrow> protection_role_input \<Rightarrow> protection_role" where
  "new_role d who i =
     \<lparr>pr_id = gd_nextId d, pr_operatingEntityId = rn_operatingEntityId i, pr_tenantId = rn_tenantId i,
      pr_purposeRef = rn_purposeRef i, pr_jurisdictionRef = rn_jurisdictionRef i, pr_role = rn_role i,
      pr_effectiveFrom = rn_effectiveFrom i, pr_effectiveTo = None, pr_contractReference = rn_contractReference i,
      pr_createdBy = pp_principalRef who, pr_createdAt = gd_now d, pr_policyPackVersion = Some (rn_policyPackVersion i),
      pr_policyPackPinState = ''PINNED''\<rparr>"

definition createRoleAssignment ::
  "governed_deps \<Rightarrow> policy_principal_ref \<Rightarrow> protection_role_input \<Rightarrow> ('w, protection_role) entity_effect" where
  "createRoleAssignment d who i =
     thenE (require_that ''role'' (rn_role i \<in> set DATA_PROTECTION_ROLES)) (\<lambda>u.
     thenE (permit d who MANAGE_ENTITY) (\<lambda>u.
     thenE (governed_read d ''entities.findById'' (rn_operatingEntityId i) (entities_findById (rn_operatingEntityId i))) (\<lambda>r.
     thenE (found ''operating_entity'' (rn_operatingEntityId i) r) (\<lambda>e.
     thenE (require_text ''PurposeRef'' (rn_purposeRef i)) (\<lambda>u.
     thenE (require_text ''JurisdictionRef'' (rn_jurisdictionRef i)) (\<lambda>u.
     thenE (require_text ''principalRef'' (pp_principalRef who)) (\<lambda>u.
     thenE (require_text ''policyPackVersion'' (rn_policyPackVersion i)) (\<lambda>u.
     let a = new_role d who i in
     thenE (governed_write d ''roles.insert'' (pr_id a) (roles_insert a)) (\<lambda>u.
     thenE (audited d (entity_entry who None ''entity.role_assignment.created'' ''data_protection_role_assignment'' (pr_id a) None None
         (Some [(''operatingEntityId'', JsString (pr_operatingEntityId a)), (''tenantId'', optional_value (pr_tenantId a)),
                (''purposeRef'', JsString (pr_purposeRef a)), (''jurisdictionRef'', JsString (pr_jurisdictionRef a)),
                (''role'', JsString (pr_role a)), (''policyPackVersion'', optional_value (pr_policyPackVersion a))]))) (\<lambda>u.
       returnE a))))))))))"

definition endRoleAssignment ::
  "governed_deps \<Rightarrow> policy_principal_ref \<Rightarrow> string \<Rightarrow> millis \<Rightarrow> string \<Rightarrow> ('w, unit) entity_effect" where
  "endRoleAssignment d who assignmentId effectiveTo reason =
     thenE (require_text ''reason'' reason) (\<lambda>u.
     thenE (permit d who MANAGE_ENTITY) (\<lambda>u.
     thenE (governed_read d ''roles.findById'' assignmentId (roles_findById assignmentId)) (\<lambda>r.
     thenE (found ''data_protection_role_assignment'' assignmentId r) (\<lambda>before.
     thenE (governed_write d ''roles.end'' assignmentId (roles_end assignmentId effectiveTo)) (\<lambda>u.
       audited d (entity_entry who None ''entity.role_assignment.ended'' ''data_protection_role_assignment'' assignmentId (Some reason)
         (Some [(''role'', JsString (pr_role before)), (''effectiveTo'', JsNull)])
         (Some [(''role'', JsString (pr_role before)), (''effectiveTo'', JsString (gd_iso d effectiveTo))])))))))"

definition queryRoleAssignments ::
  "governed_deps \<Rightarrow> policy_principal_ref \<Rightarrow> role_query \<Rightarrow> ('w, protection_role list) entity_effect" where
  "queryRoleAssignments d who q =
     thenE (permit d who MANAGE_ENTITY) (\<lambda>u. governed_read d ''roles.query'' [] (roles_query q))"

section \<open>Bindings\<close>

record assignment_input =
  an_scope :: string
  an_tenantId :: "string option"
  an_userId :: "string option"
  an_entityId :: string
  an_effectiveFrom :: millis

definition new_binding :: "governed_deps \<Rightarrow> policy_principal_ref \<Rightarrow> assignment_input \<Rightarrow> entity_assignment" where
  "new_binding d who i =
     \<lparr>ea_id = gd_nextId d, ea_scope = an_scope i, ea_tenantId = an_tenantId i, ea_userId = an_userId i, ea_entityId = an_entityId i,
      ea_effectiveFrom = an_effectiveFrom i, ea_effectiveTo = None, ea_createdBy = pp_principalRef who, ea_createdAt = gd_now d\<rparr>"

fun end_all :: "governed_deps \<Rightarrow> millis \<Rightarrow> entity_assignment list \<Rightarrow> ('w, unit) entity_effect" where
  "end_all d at [] = returnE ()"
| "end_all d at (a # as) =
     thenE (governed_write d ''assignments.end'' (ea_id a) (assignments_end (ea_id a) at)) (\<lambda>u. end_all d at as)"

definition set_assignment :: "governed_deps \<Rightarrow> policy_principal_ref \<Rightarrow> assignment_input \<Rightarrow> ('w, entity_assignment) entity_effect" where
  "set_assignment d who i =
     thenE (permit d who MANAGE_ENTITY) (\<lambda>u.
     thenE (governed_read d ''entities.findById'' (an_entityId i) (entities_findById (an_entityId i))) (\<lambda>r.
     thenE (found ''operating_entity'' (an_entityId i) r) (\<lambda>e.
     let a = new_binding d who i in
     thenE (governed_read d ''assignments.findOpen'' (an_scope i) (assignments_findOpen (an_scope i) (an_tenantId i) (an_userId i))) (\<lambda>open'.
     thenE (end_all d (an_effectiveFrom i) open') (\<lambda>u.
     thenE (governed_write d ''assignments.insert'' (ea_id a) (assignments_insert a)) (\<lambda>u.
     thenE (audited d (entity_entry who (an_tenantId i) ''entity.assignment.set'' ''operating_entity_assignment'' (ea_id a) None
         (Some [(''endedAssignments'', joined_or_null (map ea_id open'))])
         (Some [(''scope'', JsString (an_scope i)), (''entityId'', JsString (an_entityId i)), (''userId'', optional_value (an_userId i)),
                (''effectiveFrom'', JsString (gd_iso d (an_effectiveFrom i)))]))) (\<lambda>u.
       returnE a)))))))"

definition setTenantDefaultEntity ::
  "governed_deps \<Rightarrow> policy_principal_ref \<Rightarrow> string \<Rightarrow> string \<Rightarrow> millis \<Rightarrow> ('w, entity_assignment) entity_effect" where
  "setTenantDefaultEntity d who tenantId entityId from =
     set_assignment d who \<lparr>an_scope = ''TENANT_DEFAULT'', an_tenantId = Some tenantId, an_userId = None, an_entityId = entityId,
       an_effectiveFrom = from\<rparr>"

definition setUserContractingEntity ::
  "governed_deps \<Rightarrow> policy_principal_ref \<Rightarrow> string \<Rightarrow> string option \<Rightarrow> string \<Rightarrow> millis \<Rightarrow> ('w, entity_assignment) entity_effect" where
  "setUserContractingEntity d who userId tenantId entityId from =
     set_assignment d who \<lparr>an_scope = ''USER_CONTRACTING'', an_tenantId = tenantId, an_userId = Some userId, an_entityId = entityId,
       an_effectiveFrom = from\<rparr>"

text \<open>\<open>newest\<close>: the first of the rows with the greatest start.\<close>

definition newest :: "entity_assignment list \<Rightarrow> entity_assignment option" where
  "newest as = fold (\<lambda>a latest. case latest of
       None \<Rightarrow> Some a
     | Some l \<Rightarrow> if ea_effectiveFrom a > ea_effectiveFrom l then Some a else latest) as None"

record effective_entity =
  ee_entityId :: string
  ee_scope :: string
  ee_assignmentId :: string

definition effective_of :: "string \<Rightarrow> entity_assignment \<Rightarrow> effective_entity" where
  "effective_of scope a = \<lparr>ee_entityId = ea_entityId a, ee_scope = scope, ee_assignmentId = ea_id a\<rparr>"

definition resolveEffectiveOperatingEntity ::
  "governed_deps \<Rightarrow> string \<Rightarrow> string option \<Rightarrow> millis \<Rightarrow> ('w, effective_entity) entity_effect" where
  "resolveEffectiveOperatingEntity d tenantId userId at =
     (let of_tenant = thenE (governed_read d ''assignments.findActiveAt'' ''TENANT_DEFAULT''
            (assignments_findActiveAt ''TENANT_DEFAULT'' (Some tenantId) None at)) (\<lambda>as.
            case newest as of None \<Rightarrow> throwE (REFUSED NO_EFFECTIVE_ENTITY) | Some a \<Rightarrow> returnE (effective_of ''TENANT_DEFAULT'' a))
      in case userId of
        None \<Rightarrow> of_tenant
      | Some u \<Rightarrow>
          thenE (governed_read d ''assignments.findActiveAt'' ''USER_CONTRACTING''
            (assignments_findActiveAt ''USER_CONTRACTING'' None (Some u) at)) (\<lambda>as.
            case newest as of None \<Rightarrow> of_tenant | Some a \<Rightarrow> returnE (effective_of ''USER_CONTRACTING'' a)))"

definition getEffectiveOperatingEntitySummary ::
  "governed_deps \<Rightarrow> string \<Rightarrow> string option \<Rightarrow> millis \<Rightarrow> ('w, entity_summary) entity_effect" where
  "getEffectiveOperatingEntitySummary d tenantId userId at =
     thenE (resolveEffectiveOperatingEntity d tenantId userId at) (\<lambda>e.
     thenE (governed_read d ''summaries.findSummaryById'' (ee_entityId e) (summaries_findById (ee_entityId e))) (\<lambda>s.
       found ''operating_entity'' (ee_entityId e) s))"

section \<open>Migration of a binding\<close>

record migration_input =
  mi_scope :: string
  mi_subjectRef :: string
  mi_fromEntity :: string
  mi_toEntity :: string
  mi_reason :: string

definition new_migration :: "governed_deps \<Rightarrow> policy_principal_ref \<Rightarrow> migration_input \<Rightarrow> entity_migration" where
  "new_migration d who i =
     \<lparr>em_id = gd_nextId d, em_scope = mi_scope i, em_subjectRef = mi_subjectRef i, em_fromEntity = mi_fromEntity i,
      em_toEntity = mi_toEntity i, em_status = PROPOSED, em_reason = mi_reason i, em_reconsentEvaluationId = None,
      em_proposedBy = pp_principalRef who, em_proposedAt = gd_now d, em_completedAt = None\<rparr>"

definition proposeEntityMigration ::
  "governed_deps \<Rightarrow> policy_principal_ref \<Rightarrow> migration_input \<Rightarrow> ('w, entity_migration) entity_effect" where
  "proposeEntityMigration d who i =
     thenE (require_that ''toEntity'' (mi_fromEntity i \<noteq> mi_toEntity i)) (\<lambda>u.
     thenE (permit d who APPROVE_MIGRATION) (\<lambda>u.
     thenE (governed_read d ''entities.findById'' (mi_fromEntity i) (entities_findById (mi_fromEntity i))) (\<lambda>r.
     thenE (found ''operating_entity'' (mi_fromEntity i) r) (\<lambda>e.
     thenE (governed_read d ''entities.findById'' (mi_toEntity i) (entities_findById (mi_toEntity i))) (\<lambda>r.
     thenE (found ''operating_entity'' (mi_toEntity i) r) (\<lambda>e.
     thenE (require_text ''subjectRef'' (mi_subjectRef i)) (\<lambda>u.
     thenE (require_text ''reason'' (mi_reason i)) (\<lambda>u.
     let m = new_migration d who i in
     thenE (governed_write d ''migrations.insert'' (em_id m) (migrations_insert m)) (\<lambda>u.
     thenE (audited d (entity_entry who None ''entity.migration.proposed'' ''entity_migration'' (em_id m) (Some (em_reason m)) None
         (Some [(''scope'', JsString (em_scope m)), (''subjectRef'', JsString (em_subjectRef m)),
                (''fromEntity'', JsString (em_fromEntity m)), (''toEntity'', JsString (em_toEntity m)),
                (''status'', JsString (migration_status_text (em_status m)))]))) (\<lambda>u.
       returnE m))))))))))"

definition transition_refusal :: "entity_migration \<Rightarrow> migration_status \<Rightarrow> entity_refusal option" where
  "transition_refusal m to = (if migrationTransitionAllowed (em_status m) to then None else Some (INVALID_TRANSITION (em_status m) to))"

definition recordMigrationReconsentEvaluation ::
  "governed_deps \<Rightarrow> policy_principal_ref \<Rightarrow> string \<Rightarrow> string \<Rightarrow> ('w, unit) entity_effect" where
  "recordMigrationReconsentEvaluation d who migrationId evaluationId =
     thenE (require_text ''reconsentEvaluationId'' evaluationId) (\<lambda>u.
     thenE (permit d who APPROVE_MIGRATION) (\<lambda>u.
     thenE (governed_read d ''migrations.findById'' migrationId (migrations_findById migrationId)) (\<lambda>r.
     thenE (found ''entity_migration'' migrationId r) (\<lambda>m.
     thenE (refuse_if (transition_refusal m RECONSENT_EVALUATED)) (\<lambda>u.
     thenE (governed_write d ''migrations.advance'' migrationId (migrations_advance migrationId RECONSENT_EVALUATED (Some evaluationId) None)) (\<lambda>u.
       audited d (entity_entry who None ''entity.migration.reconsent_evaluated'' ''entity_migration'' migrationId None
         (Some [(''status'', JsString (migration_status_text (em_status m)))])
         (Some [(''status'', JsString ''RECONSENT_EVALUATED''), (''reconsentEvaluationId'', JsString evaluationId)]))))))))"

definition advance_action :: "migration_status \<Rightarrow> string" where
  "advance_action to = (if to = MIGRATED then ''entity.migration.completed''
     else if to = BLOCKED then ''entity.migration.blocked'' else ''entity.migration.awaiting_acceptance'')"

definition advanceEntityMigration ::
  "governed_deps \<Rightarrow> policy_principal_ref \<Rightarrow> string \<Rightarrow> migration_status \<Rightarrow> string \<Rightarrow> ('w, unit) entity_effect" where
  "advanceEntityMigration d who migrationId to reason =
     thenE (require_text ''reason'' reason) (\<lambda>u.
     thenE (permit d who APPROVE_MIGRATION) (\<lambda>u.
     thenE (governed_read d ''migrations.findById'' migrationId (migrations_findById migrationId)) (\<lambda>r.
     thenE (found ''entity_migration'' migrationId r) (\<lambda>m.
     thenE (refuse_if (transition_refusal m to)) (\<lambda>u.
     thenE (governed_write d ''migrations.advance'' migrationId
         (migrations_advance migrationId to None (if to = MIGRATED \<or> to = BLOCKED then Some (gd_now d) else None))) (\<lambda>u.
       audited d (entity_entry who None (advance_action to) ''entity_migration'' migrationId (Some reason)
         (Some [(''status'', JsString (migration_status_text (em_status m)))])
         (Some [(''status'', JsString (migration_status_text to))]))))))))"

end
