(* ===== verification/Operating_Entity_Laws.thy ===== *)
theory Operating_Entity_Laws
  imports Operating_Entity
begin

text \<open>
  What the operating-entity module promises: its tables are evidence (rows are never removed, an end is written once, a
  migration follows its state machine and is frozen at its end), a principal's entity is the newest binding in force, the
  user's own before the tenant's, and a new binding takes effect exactly from its instant.
\<close>

section \<open>Histories\<close>

definition role_history :: "protection_role \<Rightarrow> protection_role \<Rightarrow> bool" where
  "role_history old new \<longleftrightarrow> new = old \<or> role_guard old new"

definition assignment_history :: "entity_assignment \<Rightarrow> entity_assignment \<Rightarrow> bool" where
  "assignment_history old new \<longleftrightarrow> new = old \<or> assignment_guard old new"

definition migration_path :: "migration_status \<Rightarrow> migration_status \<Rightarrow> bool" where
  "migration_path = migrationTransitionAllowed\<^sup>*\<^sup>*"

definition migration_history :: "entity_migration \<Rightarrow> entity_migration \<Rightarrow> bool" where
  "migration_history old new \<longleftrightarrow> migration_path (em_status old) (em_status new)
     \<and> new\<lparr>em_status := em_status old, em_reconsentEvaluationId := em_reconsentEvaluationId old, em_completedAt := em_completedAt old\<rparr> = old
     \<and> (em_reconsentEvaluationId old = None \<or> em_reconsentEvaluationId new = em_reconsentEvaluationId old)
     \<and> (isTerminalMigrationStatus (em_status old) \<longrightarrow> new = old) \<and> (new = old \<or> migration_checks new)"

definition entity_row_history :: "operating_entity \<Rightarrow> operating_entity \<Rightarrow> bool" where
  "entity_row_history old new \<longleftrightarrow> new\<lparr>oe_status := oe_status old, oe_updatedAt := oe_updatedAt old\<rparr> = old"

definition permission_history :: "jurisdiction_permission \<Rightarrow> jurisdiction_permission \<Rightarrow> bool" where
  "permission_history old new \<longleftrightarrow> new\<lparr>jp_permittedTo := jp_permittedTo old\<rparr> = old"

definition licence_history :: "entity_licence \<Rightarrow> entity_licence \<Rightarrow> bool" where
  "licence_history old new \<longleftrightarrow> new\<lparr>el_status := el_status old, el_evidenceReference := el_evidenceReference old\<rparr> = old"

interpretation roles_table: evidence_table pr_id role_history
proof
  fix r s t
  show "role_history r r" by (simp add: role_history_def)
  show "role_history r s \<Longrightarrow> role_history s t \<Longrightarrow> role_history r t" by (auto simp: role_history_def role_guard_def)
  show "role_history r s \<Longrightarrow> pr_id s = pr_id r" by (auto simp: role_history_def role_guard_def)
qed

interpretation assignments_table: evidence_table ea_id assignment_history
proof
  fix r s t
  show "assignment_history r r" by (simp add: assignment_history_def)
  show "assignment_history r s \<Longrightarrow> assignment_history s t \<Longrightarrow> assignment_history r t"
    by (auto simp: assignment_history_def assignment_guard_def)
  show "assignment_history r s \<Longrightarrow> ea_id s = ea_id r" by (auto simp: assignment_history_def assignment_guard_def)
qed

lemma migration_path_refl [simp]: "migration_path s s"
  by (simp add: migration_path_def)

interpretation migrations_table: evidence_table em_id migration_history
proof
  fix r s t
  show "migration_history r r" by (simp add: migration_history_def)
  show "migration_history r t" if rs: "migration_history r s" and st: "migration_history s t"
    unfolding migration_history_def
  proof (intro conjI impI)
    show "migration_path (em_status r) (em_status t)"
      using rs st unfolding migration_history_def migration_path_def by (metis rtranclp_trans)
    show "t\<lparr>em_status := em_status r, em_reconsentEvaluationId := em_reconsentEvaluationId r, em_completedAt := em_completedAt r\<rparr> = r"
      using rs st unfolding migration_history_def
      by (cases r; cases s; cases t) simp
    show "em_reconsentEvaluationId r = None \<or> em_reconsentEvaluationId t = em_reconsentEvaluationId r"
      using rs st unfolding migration_history_def by auto
    show "t = r" if "isTerminalMigrationStatus (em_status r)"
      using rs st that unfolding migration_history_def by auto
    show "t = r \<or> migration_checks t"
      using rs st unfolding migration_history_def by auto
  qed
  show "migration_history r s \<Longrightarrow> em_id s = em_id r"
    unfolding migration_history_def by (cases r; cases s) simp
qed

interpretation entities_table: evidence_table oe_id entity_row_history
proof
  fix r s t
  show "entity_row_history r r" by (simp add: entity_row_history_def)
  show "entity_row_history r s \<Longrightarrow> entity_row_history s t \<Longrightarrow> entity_row_history r t"
    unfolding entity_row_history_def by (cases r; cases s; cases t) simp
  show "entity_row_history r s \<Longrightarrow> oe_id s = oe_id r" unfolding entity_row_history_def by (cases r; cases s) simp
qed

interpretation permissions_table: evidence_table jp_id permission_history
proof
  fix r s t
  show "permission_history r r" by (simp add: permission_history_def)
  show "permission_history r s \<Longrightarrow> permission_history s t \<Longrightarrow> permission_history r t"
    unfolding permission_history_def by (cases r; cases s; cases t) simp
  show "permission_history r s \<Longrightarrow> jp_id s = jp_id r" unfolding permission_history_def by (cases r; cases s) simp
qed

interpretation licences_table: evidence_table el_id licence_history
proof
  fix r s t
  show "licence_history r r" by (simp add: licence_history_def)
  show "licence_history r s \<Longrightarrow> licence_history s t \<Longrightarrow> licence_history r t"
    unfolding licence_history_def by (cases r; cases s; cases t) simp
  show "licence_history r s \<Longrightarrow> el_id s = el_id r" unfolding licence_history_def by (cases r; cases s) simp
qed

section \<open>Every use case keeps the histories\<close>

definition entity_keeps :: "'w entity_world_scheme \<Rightarrow> 'w entity_world_scheme \<Rightarrow> bool" where
  "entity_keeps w w' \<longleftrightarrow> table_history oe_id entity_row_history (ew_entities w) (ew_entities w')
     \<and> table_history jp_id permission_history (ew_permissions w) (ew_permissions w')
     \<and> table_history el_id licence_history (ew_licences w) (ew_licences w')
     \<and> table_history pr_id role_history (ew_roles w) (ew_roles w')
     \<and> table_history ea_id assignment_history (ew_assignments w) (ew_assignments w')
     \<and> table_history em_id migration_history (ew_migrations w) (ew_migrations w')"

lemmas histories_refl = entities_table.table_refl permissions_table.table_refl licences_table.table_refl
  roles_table.table_refl assignments_table.table_refl migrations_table.table_refl

lemma entity_keeps_refl [simp]: "entity_keeps w w"
  by (simp add: entity_keeps_def histories_refl)

lemma entity_keeps_trans: "entity_keeps a b \<Longrightarrow> entity_keeps b c \<Longrightarrow> entity_keeps a c"
  unfolding entity_keeps_def
  using entities_table.table_trans permissions_table.table_trans licences_table.table_trans
    roles_table.table_trans assignments_table.table_trans migrations_table.table_trans by meson

interpretation entity_runs: step_relation entity_keeps
  by unfold_locales (auto intro: entity_keeps_trans)

lemma always_checks:
  "always entity_keeps (require_text f v)" "always entity_keeps (require_that f b)" "always entity_keeps (permit d who p)"
  "always entity_keeps (found res i r)" "always entity_keeps (refuse_if e)" "always entity_keeps (governed_read d c i g)"
  by (simp_all add: always_def)

lemma always_audited: "always entity_keeps (audited d e :: ('w, unit) entity_effect)"
  unfolding always_def
proof
  fix w :: "'w entity_world_scheme"
  obtain es where "snd ((audited d e :: ('w, unit) entity_effect) w) = w\<lparr>gw_audit := gw_audit w @ es\<rparr>"
    using audited_world by blast
  then show "entity_keeps w (snd ((audited d e :: ('w, unit) entity_effect) w))" by (simp add: entity_keeps_def histories_refl)
qed

lemma always_write:
  assumes "\<And>w x w'. f w = Some (x, w') \<Longrightarrow> entity_keeps w w'"
  shows "always entity_keeps (governed_write d c i f)"
  using assms by (auto simp: always_def governed_write_def split: option.splits)

lemma inserts_keep:
  "entities_insert e w = Some (u, w') \<Longrightarrow> entity_keeps w w'"
  "entities_insertJurisdictionPermission p w = Some (u, w') \<Longrightarrow> entity_keeps w w'"
  "licences_insert l w = Some (u, w') \<Longrightarrow> entity_keeps w w'"
  "roles_insert r w = Some (u, w') \<Longrightarrow> entity_keeps w w'"
  "assignments_insert a w = Some (u, w') \<Longrightarrow> entity_keeps w w'"
  "migrations_insert m w = Some (u, w') \<Longrightarrow> entity_keeps w w'"
  by (auto simp: entities_insert_def entities_insertJurisdictionPermission_def licences_insert_def roles_insert_def
      assignments_insert_def migrations_insert_def Let_def entity_keeps_def histories_refl same_id_def entity_conflicts_def
      entities_table.table_create permissions_table.table_create licences_table.table_create
      roles_table.table_create assignments_table.table_create migrations_table.table_create split: if_splits)

lemma updates_keep:
  "entities_updateStatus i s at w = Some (u, w') \<Longrightarrow> entity_keeps w w'"
  "entities_endJurisdictionPermission i at w = Some (u, w') \<Longrightarrow> entity_keeps w w'"
  "licences_updateStatus i s ev w = Some (u, w') \<Longrightarrow> entity_keeps w w'"
  "roles_end i at w = Some (u, w') \<Longrightarrow> entity_keeps w w'"
  "assignments_end i at w = Some (u, w') \<Longrightarrow> entity_keeps w w'"
  by (auto simp: entities_updateStatus_def entities_endJurisdictionPermission_def licences_updateStatus_def roles_end_def
      assignments_end_def entity_keeps_def histories_refl entity_row_history_def permission_history_def licence_history_def
      role_history_def assignment_history_def
      elim!: entities_table.table_update permissions_table.table_update licences_table.table_update
      roles_table.table_update assignments_table.table_update)


text \<open>
  The two use cases that advance a migration read it first: only an allowed transition is written, and it is written to the
  row that was read.
\<close>

lemma advance_keeps:
  assumes "migrations_findById i w = Some (Some m)" "migrationTransitionAllowed (em_status m) to"
    "migrations_advance i to evaluation completedAt w = Some (u, w')"
  shows "entity_keeps w w'"
proof -
  let ?f = "advanced_migration to evaluation completedAt"
  let ?g = "\<lambda>old new. migration_checks new \<and> migration_guard old new"
  obtain rows where up: "update_by_id em_id ?g i ?f (ew_migrations w) = Some rows" and w': "w' = w\<lparr>ew_migrations := rows\<rparr>"
    using assms(3) by (auto simp: migrations_advance_def split: if_splits)
  have "migration_path (em_status m) to" using assms(2) unfolding migration_path_def by auto
  then have "migration_history m (?f m)" if "?g m (?f m)"
    using that by (auto simp: migration_history_def migration_guard_def advanced_migration_def)
  then have "table_history em_id migration_history (ew_migrations w) rows"
    using migrations_table.table_update_found [OF assms(1) [unfolded migrations_findById_def] up] by blast
  then show ?thesis unfolding w' by (simp add: entity_keeps_def histories_refl)
qed

lemma always_advance:
  assumes "\<And>m. always entity_keeps (k m)"
  shows "always entity_keeps (thenE (governed_read d c i (migrations_findById i)) (\<lambda>r. thenE (found res i r) (\<lambda>m.
    thenE (refuse_if (transition_refusal m to)) (\<lambda>u. thenE (governed_write d c' i (migrations_advance i to ev at)) (\<lambda>u. k m)))))"
  unfolding always_def
proof
  fix w
  let ?e = "thenE (governed_read d c i (migrations_findById i)) (\<lambda>r. thenE (found res i r) (\<lambda>m.
    thenE (refuse_if (transition_refusal m to)) (\<lambda>u. thenE (governed_write d c' i (migrations_advance i to ev at)) (\<lambda>u. k m))))"
  show "entity_keeps w (snd (?e w))"
  proof (cases "migrations_findById i w")
    case None then show ?thesis by (simp add: thenE_def governed_read_def)
  next
    case (Some r)
    show ?thesis
    proof (cases r)
      case None then show ?thesis using Some by (simp add: thenE_def governed_read_def found_def)
    next
      case r: (Some m)
      have adv: "entity_keeps w (snd (k m w'))" if "migrationTransitionAllowed (em_status m) to"
        "migrations_advance i to ev at w = Some (u, w')" for u w'
      proof -
        have "entity_keeps w' (snd (k m w'))" using assms unfolding always_def by blast
        then show ?thesis using advance_keeps [OF Some [unfolded r] that] entity_keeps_trans by blast
      qed
      show ?thesis using Some r adv
        by (auto simp: thenE_def governed_read_def found_def refuse_if_def transition_refusal_def governed_write_def split: option.splits)
    qed
  qed
qed

lemmas entity_always = always_checks always_audited entity_runs.always_intros
lemmas entity_writes = always_write inserts_keep updates_keep

lemma always_end_all: "always entity_keeps (end_all d at as)"
  by (induction as) (simp_all only: end_all.simps, (intro entity_always always_write; (erule updates_keep)?)+)

lemma always_entities:
  "always entity_keeps (createOperatingEntity d who ci)" "always entity_keeps (getOperatingEntity d who i)"
  "always entity_keeps (updateOperatingEntityStatus d who i s reason)"
  "always entity_keeps (grantJurisdictionPermission d who i j from basis)"
  "always entity_keeps (endJurisdictionPermission d who i to reason)"
  "always entity_keeps (recordEntityLicence d who li)" "always entity_keeps (updateEntityLicenceStatus d who i s ev reason)"
  unfolding createOperatingEntity_def getOperatingEntity_def updateOperatingEntityStatus_def grantJurisdictionPermission_def
    endJurisdictionPermission_def recordEntityLicence_def updateEntityLicenceStatus_def Let_def
  by (intro entity_always always_write; (erule inserts_keep updates_keep)?)+

lemma always_roles:
  "always entity_keeps (createRoleAssignment d who ri)" "always entity_keeps (endRoleAssignment d who i to reason)"
  "always entity_keeps (queryRoleAssignments d who q)"
  unfolding createRoleAssignment_def endRoleAssignment_def queryRoleAssignments_def Let_def
  by (intro entity_always always_write; (erule inserts_keep updates_keep)?)+

lemma always_bindings:
  "always entity_keeps (set_assignment d who ai)" "always entity_keeps (resolveEffectiveOperatingEntity d t u at)"
  unfolding set_assignment_def resolveEffectiveOperatingEntity_def Let_def
  by (intro entity_always always_end_all always_write; (erule inserts_keep updates_keep)?)+

lemma always_summary: "always entity_keeps (getEffectiveOperatingEntitySummary d t u at)"
  unfolding getEffectiveOperatingEntitySummary_def by (intro entity_always always_bindings)

lemma always_migrations:
  "always entity_keeps (proposeEntityMigration d who mi)"
  "always entity_keeps (recordMigrationReconsentEvaluation d who i ev)"
  "always entity_keeps (advanceEntityMigration d who i to reason)"
  unfolding proposeEntityMigration_def recordMigrationReconsentEvaluation_def advanceEntityMigration_def Let_def
  by (intro entity_always always_advance always_write; (erule inserts_keep)?)+

end
