(* ===== verification/Operating_Entity_Properties.thy ===== *)
theory Operating_Entity_Properties
  imports Operating_Entity_Laws Authorization_Laws
begin

text \<open>
  The properties of the operating-entity module, over runs of its use cases in any order and with any inputs, failures included.
\<close>

section \<open>Runs\<close>

inductive entity_step :: "'w entity_world_scheme \<Rightarrow> 'w entity_world_scheme \<Rightarrow> bool" where
  "entity_step w (snd (createOperatingEntity d who ci w))"
| "entity_step w (snd (updateOperatingEntityStatus d who i s reason w))"
| "entity_step w (snd (grantJurisdictionPermission d who i j from basis w))"
| "entity_step w (snd (endJurisdictionPermission d who i to reason w))"
| "entity_step w (snd (recordEntityLicence d who li w))"
| "entity_step w (snd (updateEntityLicenceStatus d who i s ev reason w))"
| "entity_step w (snd (createRoleAssignment d who ri w))"
| "entity_step w (snd (endRoleAssignment d who i to reason w))"
| "entity_step w (snd (setTenantDefaultEntity d who tid i from w))"
| "entity_step w (snd (setUserContractingEntity d who uid t i from w))"
| "entity_step w (snd (proposeEntityMigration d who mi w))"
| "entity_step w (snd (recordMigrationReconsentEvaluation d who i ev w))"
| "entity_step w (snd (advanceEntityMigration d who i to' reason w))"

abbreviation entity_run :: "'w entity_world_scheme \<Rightarrow> 'w entity_world_scheme \<Rightarrow> bool" where
  "entity_run \<equiv> entity_step\<^sup>*\<^sup>*"

lemma always_snd: "always R m \<Longrightarrow> R w (snd (m w))"
  by (simp add: always_def)

lemmas use_cases_keep = always_entities [THEN always_snd] always_roles [THEN always_snd] always_bindings [THEN always_snd]
  always_migrations [THEN always_snd]

lemma entity_step_keeps: "entity_step w w' \<Longrightarrow> entity_keeps w w'"
  by (induction rule: entity_step.induct) (simp_all only: setTenantDefaultEntity_def setUserContractingEntity_def use_cases_keep)

lemma entity_run_keeps: "entity_run w w' \<Longrightarrow> entity_keeps w w'"
  by (induction rule: rtranclp_induct) (auto intro: entity_keeps_trans entity_step_keeps)

definition entity_wf :: "'w entity_world_scheme \<Rightarrow> bool" where
  "entity_wf w \<longleftrightarrow> keyed oe_id (ew_entities w) \<and> keyed pr_id (ew_roles w) \<and> keyed ea_id (ew_assignments w) \<and> keyed em_id (ew_migrations w)"

lemma entity_run_wf: "entity_run w w' \<Longrightarrow> entity_wf w \<Longrightarrow> entity_wf w'"
  using entity_run_keeps [of w w'] by (auto simp: entity_wf_def entity_keeps_def table_history_def)

definition empty_entities :: entity_world where
  "empty_entities = \<lparr>gw_audit = [], ew_entities = [], ew_permissions = [], ew_licences = [], ew_roles = [], ew_assignments = [], ew_migrations = []\<rparr>"

lemma empty_entities_wf: "entity_wf empty_entities"
  by (simp add: entity_wf_def empty_entities_def keyed_def)

section \<open>The newest binding\<close>

lemma newest_fold:
  "fold (\<lambda>a latest. case latest of None \<Rightarrow> Some a | Some l \<Rightarrow> if ea_effectiveFrom a > ea_effectiveFrom l then Some a else latest) as (Some l)
     = Some m \<Longrightarrow> (m = l \<or> m \<in> set as) \<and> ea_effectiveFrom l \<le> ea_effectiveFrom m \<and> (\<forall>a \<in> set as. ea_effectiveFrom a \<le> ea_effectiveFrom m)"
  by (induction as arbitrary: l) (fastforce split: if_splits)+

lemma newest_fold_Some:
  "\<exists>m. fold (\<lambda>a latest. case latest of None \<Rightarrow> Some a | Some l \<Rightarrow> if ea_effectiveFrom a > ea_effectiveFrom l then Some a else latest) as (Some l) = Some m"
  by (induction as arbitrary: l) auto

lemma newest_Some: "newest as = Some m \<Longrightarrow> m \<in> set as \<and> (\<forall>a \<in> set as. ea_effectiveFrom a \<le> ea_effectiveFrom m)"
  unfolding newest_def by (cases as) (use newest_fold in fastforce)+

lemma newest_None: "newest as = None \<longleftrightarrow> as = []"
proof (cases as)
  case (Cons a bs)
  then show ?thesis using newest_fold_Some [of bs a] by (auto simp: newest_def)
qed (simp add: newest_def)

definition binding_at :: "string \<Rightarrow> string option \<Rightarrow> string option \<Rightarrow> millis \<Rightarrow> entity_assignment \<Rightarrow> bool" where
  "binding_at scope t u at a \<longleftrightarrow> ea_scope a = scope \<and> entityAssignmentActiveAt a at \<and> of_subject t u a"

lemma findActiveAt_eq:
  "optional_uuid t \<Longrightarrow> optional_uuid u \<Longrightarrow> assignments_findActiveAt scope t u at w = Some (filter (binding_at scope t u at) (ew_assignments w))"
  by (auto simp: assignments_findActiveAt_def binding_at_def entityAssignmentActiveAt_def intro!: filter_cong)

lemma resolve_user:
  assumes "isUuid t" "isUuid u" "\<not> gd_down d ''assignments.findActiveAt'' ''USER_CONTRACTING''"
    "\<not> gd_down d ''assignments.findActiveAt'' ''TENANT_DEFAULT''"
  shows "resolveEffectiveOperatingEntity d t (Some u) at w =
    (case newest (filter (binding_at ''USER_CONTRACTING'' None (Some u) at) (ew_assignments w)) of
       Some a \<Rightarrow> (Inr (effective_of ''USER_CONTRACTING'' a), w)
     | None \<Rightarrow> (case newest (filter (binding_at ''TENANT_DEFAULT'' (Some t) None at) (ew_assignments w)) of
         Some a \<Rightarrow> (Inr (effective_of ''TENANT_DEFAULT'' a), w)
       | None \<Rightarrow> (Inl (REFUSED NO_EFFECTIVE_ENTITY), w)))"
  using assms by (auto simp: resolveEffectiveOperatingEntity_def thenE_def governed_read_def findActiveAt_eq optional_uuid_def split: option.split)

lemma resolve_tenant:
  assumes "isUuid t" "\<not> gd_down d ''assignments.findActiveAt'' ''TENANT_DEFAULT''"
  shows "resolveEffectiveOperatingEntity d t None at w =
    (case newest (filter (binding_at ''TENANT_DEFAULT'' (Some t) None at) (ew_assignments w)) of
       Some a \<Rightarrow> (Inr (effective_of ''TENANT_DEFAULT'' a), w) | None \<Rightarrow> (Inl (REFUSED NO_EFFECTIVE_ENTITY), w))"
  using assms by (auto simp: resolveEffectiveOperatingEntity_def thenE_def governed_read_def findActiveAt_eq optional_uuid_def split: option.split)


section \<open>Setting a binding\<close>

definition ended_at :: "millis \<Rightarrow> entity_assignment \<Rightarrow> entity_assignment" where
  "ended_at at a = a\<lparr>ea_effectiveTo := Some at\<rparr>"

lemma assignments_end_rows:
  assumes "assignments_end (ea_id a) at w = Some (x, w')" "keyed ea_id (ew_assignments w)" "a \<in> set (ew_assignments w)"
  shows "ea_effectiveTo a = None \<and> ea_effectiveFrom a < at \<and>
    w' = w\<lparr>ew_assignments := map (\<lambda>b. if ea_id b = ea_id a then ended_at at b else b) (ew_assignments w)\<rparr>"
proof -
  have k: "pg_uuid (ea_id a) = ea_id a" "distinct (map ea_id (ew_assignments w))" using assms(2,3) by (auto simp: keyed_def)
  obtain rows where up: "update_by_id ea_id (\<lambda>old new. binding_checks new \<and> assignment_guard old new) (ea_id a)
      (\<lambda>a. a\<lparr>ea_effectiveTo := Some at\<rparr>) (ew_assignments w) = Some rows" and w': "w' = w\<lparr>ew_assignments := rows\<rparr>"
    using assms(1) by (auto simp: assignments_end_def)
  obtain r where r: "find_by_id ea_id (ea_id a) (ew_assignments w) = Some (Some r)"
    "binding_checks (r\<lparr>ea_effectiveTo := Some at\<rparr>)" "assignment_guard r (r\<lparr>ea_effectiveTo := Some at\<rparr>)"
    "rows = map (\<lambda>b. if ea_id b = pg_uuid (ea_id a) then b\<lparr>ea_effectiveTo := Some at\<rparr> else b) (ew_assignments w)"
    by (rule update_by_id_Some [OF up]) blast
  have "r = a" using find_by_id_Some [OF r(1)] k assms(3) by (metis inj_on_eq_iff distinct_map)
  then show ?thesis using r k w' by (simp add: binding_checks_def assignment_guard_def ends_after_def ended_at_def)
qed

lemma end_all_rows:
  assumes "end_all d at as w = (Inr x, w')" "keyed ea_id (ew_assignments w)" "set as \<subseteq> set (ew_assignments w)" "distinct (map ea_id as)"
  shows "w' = w\<lparr>ew_assignments := map (\<lambda>b. if ea_id b \<in> ea_id ` set as then ended_at at b else b) (ew_assignments w)\<rparr>
    \<and> (\<forall>a \<in> set as. ea_effectiveTo a = None \<and> ea_effectiveFrom a < at)"
  using assms
proof (induction as arbitrary: w)
  case Nil then show ?case by simp
next
  case (Cons a as)
  obtain y w1 where s: "assignments_end (ea_id a) at w = Some (y, w1)" and rest: "end_all d at as w1 = (Inr x, w')"
    using Cons.prems(1) by (auto simp: thenE_Inr governed_write_Inr)
  have a: "ea_effectiveTo a = None" "ea_effectiveFrom a < at"
    "w1 = w\<lparr>ew_assignments := map (\<lambda>b. if ea_id b = ea_id a then ended_at at b else b) (ew_assignments w)\<rparr>"
    using assignments_end_rows [OF s Cons.prems(2)] Cons.prems(3) by auto
  have k: "keyed ea_id (ew_assignments w1)" using Cons.prems(2) unfolding a(3) by (auto simp: keyed_def ended_at_def comp_def if_distrib cong: if_cong)
  have sub: "set as \<subseteq> set (ew_assignments w1)"
  proof
    fix b assume b: "b \<in> set as"
    have "ea_id a \<notin> ea_id ` set as" using Cons.prems(4) by simp
    then have "ea_id b \<noteq> ea_id a" using b by (metis imageI)
    then show "b \<in> set (ew_assignments w1)" using Cons.prems(3) b unfolding a(3) by force
  qed
  have "w' = w1\<lparr>ew_assignments := map (\<lambda>b. if ea_id b \<in> ea_id ` set as then ended_at at b else b) (ew_assignments w1)\<rparr>"
    "\<forall>a \<in> set as. ea_effectiveTo a = None \<and> ea_effectiveFrom a < at"
    using Cons.IH [OF rest k sub] Cons.prems(4) by auto
  moreover have "ea_id b \<in> ea_id ` set as \<Longrightarrow> ea_id b \<noteq> ea_id a" for b using Cons.prems(4) by auto
  ultimately show ?case using a by (auto simp: ended_at_def)
qed

lemma newest_map:
  assumes "\<And>a. ea_effectiveFrom (f a) = ea_effectiveFrom a"
  shows "newest (map f as) = map_option f (newest as)"
proof -
  let ?s = "\<lambda>a latest. case latest of None \<Rightarrow> Some a | Some l \<Rightarrow> if ea_effectiveFrom a > ea_effectiveFrom l then Some a else latest"
  have "fold ?s (map f as) (map_option f l) = map_option f (fold ?s as l)" for l
  proof (induction as arbitrary: l)
    case (Cons a as)
    have "?s (f a) (map_option f l) = map_option f (?s a l)" by (cases l) (simp_all add: assms)
    then show ?case using Cons.IH [of "?s a l"] by simp
  qed simp
  from this [of None] show ?thesis by (simp add: newest_def)
qed


text \<open>The rows of one subject in one scope, whatever the instant.\<close>

definition binds :: "string \<Rightarrow> string option \<Rightarrow> string option \<Rightarrow> entity_assignment \<Rightarrow> bool" where
  "binds scope t u a \<longleftrightarrow> ea_scope a = scope \<and> of_subject t u a"

definition stored_assignment :: "entity_assignment \<Rightarrow> entity_assignment" where
  "stored_assignment a = a\<lparr>ea_id := pg_uuid (ea_id a), ea_tenantId := map_option pg_uuid (ea_tenantId a),
     ea_userId := map_option pg_uuid (ea_userId a), ea_entityId := pg_uuid (ea_entityId a)\<rparr>"

lemma set_assignment_rows:
  assumes "set_assignment d who i w = (Inr a, w')" "keyed ea_id (ew_assignments w)"
  shows "a = new_binding d who i"
    "ew_assignments w' = map (\<lambda>b. if binds (an_scope i) (an_tenantId i) (an_userId i) b \<and> ea_effectiveTo b = None
       then ended_at (an_effectiveFrom i) b else b) (ew_assignments w) @ [stored_assignment a]"
    "\<And>b. b \<in> set (ew_assignments w) \<Longrightarrow> binds (an_scope i) (an_tenantId i) (an_userId i) b \<Longrightarrow> ea_effectiveTo b = None
       \<Longrightarrow> ea_effectiveFrom b < an_effectiveFrom i"
proof -
  let ?open = "filter (\<lambda>b. ea_scope b = an_scope i \<and> ea_effectiveTo b = None \<and> of_subject (an_tenantId i) (an_userId i) b) (ew_assignments w)"
  obtain w1 w2 where steps: "end_all d (an_effectiveFrom i) ?open w = (Inr (), w1)"
    "assignments_insert (new_binding d who i) w1 = Some ((), w2)" "a = new_binding d who i" "ew_assignments w' = ew_assignments w2"
    using assms(1) by (auto simp: set_assignment_def Let_def thenE_Inr governed_success assignments_findOpen_def
        split: if_splits dest!: audited_Inr)
  have dist: "distinct (map ea_id ?open)" using assms(2) by (auto simp: keyed_def distinct_map inj_on_def)
  have ended: "w1 = w\<lparr>ew_assignments := map (\<lambda>b. if ea_id b \<in> ea_id ` set ?open then ended_at (an_effectiveFrom i) b else b) (ew_assignments w)\<rparr>"
    "\<forall>b \<in> set ?open. ea_effectiveTo b = None \<and> ea_effectiveFrom b < an_effectiveFrom i"
    using end_all_rows [OF steps(1) assms(2) _ dist] by auto
  have same: "ea_id b \<in> ea_id ` set ?open \<longleftrightarrow> b \<in> set ?open" if "b \<in> set (ew_assignments w)" for b
    using assms(2) that by (auto simp: keyed_def distinct_map inj_on_def)
  have "ew_assignments w2 = ew_assignments w1 @ [stored_assignment a]"
    using steps(2,3) by (auto simp: assignments_insert_def Let_def stored_assignment_def create_row_def split: if_splits)
  then show "ew_assignments w' = map (\<lambda>b. if binds (an_scope i) (an_tenantId i) (an_userId i) b \<and> ea_effectiveTo b = None
       then ended_at (an_effectiveFrom i) b else b) (ew_assignments w) @ [stored_assignment a]"
    using steps(4) ended(1) same by (auto simp: binds_def)
  show "a = new_binding d who i" by (rule steps(3))
  show "ea_effectiveFrom b < an_effectiveFrom i" if "b \<in> set (ew_assignments w)"
    "binds (an_scope i) (an_tenantId i) (an_userId i) b" "ea_effectiveTo b = None" for b
    using ended(2) that by (auto simp: binds_def)
qed


section \<open>Properties\<close>

text \<open>
  Binding a tenant to an operating entity takes effect exactly from its instant: when the new binding starts after every
  binding the tenant already has, then from that instant on the tenant resolves to the new entity, and at every earlier
  instant it resolves to what it did before, so that no past resolution is rewritten.
\<close>

theorem rebinding_takes_effect_from_its_instant:
  assumes "setTenantDefaultEntity d who t i from w = (Inr a, w')" "keyed ea_id (ew_assignments w)" "isUuid t"
    "\<not> gd_down d' ''assignments.findActiveAt'' ''TENANT_DEFAULT''"
    "list_all (\<lambda>b. binds ''TENANT_DEFAULT'' (Some t) None b \<longrightarrow> ea_effectiveFrom b < from) (ew_assignments w)"
  shows "if at < from
    then fst (resolveEffectiveOperatingEntity d' t None at w') = fst (resolveEffectiveOperatingEntity d' t None at w)
    else fst (resolveEffectiveOperatingEntity d' t None at w') =
      Inr \<lparr>ee_entityId = pg_uuid i, ee_scope = ''TENANT_DEFAULT'', ee_assignmentId = pg_uuid (ea_id a)\<rparr>"
proof -
  let ?p = "binding_at ''TENANT_DEFAULT'' (Some t) None at"
  let ?g = "\<lambda>b. if binds ''TENANT_DEFAULT'' (Some t) None b \<and> ea_effectiveTo b = None then ended_at from b else b"
  note rows = set_assignment_rows [OF assms(1) [unfolded setTenantDefaultEntity_def] assms(2), simplified]
  have a: "ea_effectiveFrom (stored_assignment a) = from" "binds ''TENANT_DEFAULT'' (Some t) None (stored_assignment a)"
    "effective_of ''TENANT_DEFAULT'' (stored_assignment a) =
       \<lparr>ee_entityId = pg_uuid i, ee_scope = ''TENANT_DEFAULT'', ee_assignmentId = pg_uuid (ea_id a)\<rparr>"
    "ea_effectiveTo (stored_assignment a) = None"
    using rows(1) by (simp_all add: new_binding_def stored_assignment_def binds_def of_subject_def effective_of_def)
  have from_g: "ea_effectiveFrom (?g b) = ea_effectiveFrom b" for b by (simp add: ended_at_def)
  have rows2: "ew_assignments w' = map ?g (ew_assignments w) @ [stored_assignment a]" using rows(2) by simp
  show ?thesis
  proof (cases "at < from")
    case True
    have same: "?p (?g b) \<longleftrightarrow> ?p b" for b
      using True by (auto simp: binding_at_def binds_def ended_at_def entityAssignmentActiveAt_def window_covers_def of_subject_def)
    moreover have "\<not> ?p (stored_assignment a)"
      using True a(1) by (simp add: binding_at_def entityAssignmentActiveAt_def window_covers_def)
    ultimately have "filter ?p (ew_assignments w') = map ?g (filter (\<lambda>b. ?p (?g b)) (ew_assignments w))"
      by (simp only: rows2 filter_append filter_map comp_def filter.simps if_False append_Nil2)
    then have "filter ?p (ew_assignments w') = map ?g (filter ?p (ew_assignments w))" by (simp only: same)
    then have "newest (filter ?p (ew_assignments w')) = map_option ?g (newest (filter ?p (ew_assignments w)))"
      using newest_map [OF from_g] by simp
    moreover have "effective_of s (?g b) = effective_of s b" for s b by (simp add: effective_of_def ended_at_def)
    ultimately show ?thesis using True assms(3,4) by (simp add: resolve_tenant split: option.split)
  next
    case False
    let ?live = "filter ?p (ew_assignments w')"
    have "?p (stored_assignment a)"
      using False a(1,2,4) by (simp add: binding_at_def binds_def entityAssignmentActiveAt_def window_covers_def)
    then have new: "stored_assignment a \<in> set ?live" by (simp add: rows2)
    then have "?live \<noteq> []" by force
    then obtain m where m: "newest ?live = Some m" unfolding newest_None [symmetric] by blast
    have "m \<in> set ?live" "from \<le> ea_effectiveFrom m" using newest_Some [OF m] new a(1) by auto
    moreover have "ea_effectiveFrom b < from" if mem: "b \<in> ?g ` set (ew_assignments w)" and live: "?p b" for b
    proof -
      obtain c where c: "c \<in> set (ew_assignments w)" "b = ?g c" using mem by blast
      have "binds ''TENANT_DEFAULT'' (Some t) None c"
        using live c(2) by (auto simp: binding_at_def binds_def ended_at_def of_subject_def split: if_splits)
      then show ?thesis using c assms(5) from_g [of c] by (auto simp: list_all_iff)
    qed
    moreover have "m \<in> ?g ` set (ew_assignments w) \<or> m = stored_assignment a" "?p m" if "m \<in> set ?live"
      using that by (simp_all only: rows2 set_filter set_append set_map list.set mem_Collect_eq) blast
    ultimately have "m = stored_assignment a" by (meson linorder_not_less)
    then show ?thesis using False m a(3) assms(3,4) by (simp add: resolve_tenant)
  qed
qed

text \<open>
  A principal's operating entity is decided by the bindings in force at the instant: the newest binding of the user, else the
  newest default of the tenant; it fails closed exactly when neither exists.
\<close>

theorem effective_entity_is_the_newest_binding:
  assumes "isUuid t" "isUuid u" "\<not> gd_down d ''assignments.findActiveAt'' ''USER_CONTRACTING''"
    "\<not> gd_down d ''assignments.findActiveAt'' ''TENANT_DEFAULT''"
  shows "case fst (resolveEffectiveOperatingEntity d t (Some u) at w) of
    Inl e \<Rightarrow> e = REFUSED NO_EFFECTIVE_ENTITY
      \<and> (\<nexists>b. b \<in> set (ew_assignments w) \<and> (binding_at ''USER_CONTRACTING'' None (Some u) at b \<or> binding_at ''TENANT_DEFAULT'' (Some t) None at b))
  | Inr r \<Rightarrow> (\<exists>a. a \<in> set (ew_assignments w) \<and> r = effective_of (ea_scope a) a \<and>
      (binding_at ''USER_CONTRACTING'' None (Some u) at a
         \<and> (\<nexists>b. b \<in> set (ew_assignments w) \<and> binding_at ''USER_CONTRACTING'' None (Some u) at b \<and> ea_effectiveFrom a < ea_effectiveFrom b)
       \<or> binding_at ''TENANT_DEFAULT'' (Some t) None at a
         \<and> (\<nexists>b. b \<in> set (ew_assignments w) \<and> binding_at ''USER_CONTRACTING'' None (Some u) at b)
         \<and> (\<nexists>b. b \<in> set (ew_assignments w) \<and> binding_at ''TENANT_DEFAULT'' (Some t) None at b \<and> ea_effectiveFrom a < ea_effectiveFrom b)))"
proof -
  let ?u = "filter (binding_at ''USER_CONTRACTING'' None (Some u) at) (ew_assignments w)"
  let ?t = "filter (binding_at ''TENANT_DEFAULT'' (Some t) None at) (ew_assignments w)"
  have scope: "binding_at s x y at a \<Longrightarrow> ea_scope a = s" for s x y a by (simp add: binding_at_def)
  show ?thesis
  proof (cases "newest ?u")
    case (Some a)
    have "a \<in> set ?u" "\<forall>b \<in> set ?u. ea_effectiveFrom b \<le> ea_effectiveFrom a" using newest_Some [OF Some] by blast+
    then show ?thesis using Some scope by (simp add: resolve_user [OF assms]) (metis linorder_not_less)
  next
    case None
    then have none: "\<nexists>b. b \<in> set (ew_assignments w) \<and> binding_at ''USER_CONTRACTING'' None (Some u) at b"
      by (auto simp: newest_None filter_empty_conv)
    show ?thesis
    proof (cases "newest ?t")
      case (Some a)
      have "a \<in> set ?t" "\<forall>b \<in> set ?t. ea_effectiveFrom b \<le> ea_effectiveFrom a" using newest_Some [OF Some] by blast+
      then show ?thesis using Some None none scope by (simp add: resolve_user [OF assms]) (metis linorder_not_less)
    next
      case empty: None
      then have "\<nexists>b. b \<in> set (ew_assignments w) \<and> binding_at ''TENANT_DEFAULT'' (Some t) None at b"
        by (auto simp: newest_None filter_empty_conv)
      then show ?thesis using None none empty by (auto simp: resolve_user [OF assms])
    qed
  qed
qed

text \<open>
  The module's tables are evidence.  Over any run of its use cases, failures included, every data-protection role and every
  binding is still there, unchanged or with its end set once; every migration is still there with its subject, entities
  and reason, its status moved along the allowed transitions only and only with a recorded re-consent evaluation, the
  recorded evaluation never replaced, and a migration that is migrated or blocked is frozen.
\<close>

theorem entity_records_are_evidence:
  assumes "entity_wf w" "entity_run w w'" "r \<in> set (ew_roles w)" "a \<in> set (ew_assignments w)" "m \<in> set (ew_migrations w)"
  shows "(\<exists>r' \<in> set (ew_roles w'). r' = r \<or> pr_effectiveTo r = None \<and> (\<exists>t. r' = r\<lparr>pr_effectiveTo := Some t\<rparr>))
    \<and> (\<exists>a' \<in> set (ew_assignments w'). a' = a \<or> ea_effectiveTo a = None \<and> (\<exists>t. a' = a\<lparr>ea_effectiveTo := Some t\<rparr>))
    \<and> (\<exists>m' \<in> set (ew_migrations w'). m' = m \<or> \<not> isTerminalMigrationStatus (em_status m) \<and> migration_path (em_status m) (em_status m')
         \<and> (em_status m' = PROPOSED \<or> em_reconsentEvaluationId m' \<noteq> None)
         \<and> (em_reconsentEvaluationId m = None \<or> em_reconsentEvaluationId m' = em_reconsentEvaluationId m)
         \<and> (\<exists>s e c. m' = m\<lparr>em_status := s, em_reconsentEvaluationId := e, em_completedAt := c\<rparr>))"
proof -
  have h: "entity_keeps w w'" by (rule entity_run_keeps [OF assms(2)])
  obtain r' where r': "r' \<in> set (ew_roles w')" "role_history r r'"
    using roles_table.table_row [of "ew_roles w" "ew_roles w'" r] h assms(1,3) by (auto simp: entity_keeps_def entity_wf_def)
  obtain a' where a': "a' \<in> set (ew_assignments w')" "assignment_history a a'"
    using assignments_table.table_row [of "ew_assignments w" "ew_assignments w'" a] h assms(1,4)
    by (auto simp: entity_keeps_def entity_wf_def)
  obtain m' where m': "m' \<in> set (ew_migrations w')" "migration_history m m'"
    using migrations_table.table_row [of "ew_migrations w" "ew_migrations w'" m] h assms(1,5)
    by (auto simp: entity_keeps_def entity_wf_def)
  have "r' = r \<or> pr_effectiveTo r = None \<and> (\<exists>t. r' = r\<lparr>pr_effectiveTo := Some t\<rparr>)"
    using r'(2) by (cases r; cases r') (auto simp: role_history_def role_guard_def)
  moreover have "a' = a \<or> ea_effectiveTo a = None \<and> (\<exists>t. a' = a\<lparr>ea_effectiveTo := Some t\<rparr>)"
    using a'(2) by (cases a; cases a') (auto simp: assignment_history_def assignment_guard_def)
  moreover have "\<exists>s e c. m' = m\<lparr>em_status := s, em_reconsentEvaluationId := e, em_completedAt := c\<rparr>"
    using m'(2) by (cases m; cases m') (auto simp: migration_history_def)
  ultimately show ?thesis using r'(1) a'(1) m' unfolding migration_history_def migration_checks_def by blast
qed


section \<open>Samples\<close>

definition open_deps :: governed_deps where
  "open_deps = \<lparr>gd_policy = (\<lambda>a p. POLICY_ALLOWED ''PLATFORM_ADMIN''), gd_audit = sample_audit_deps, gd_nextId = uuid_b, gd_now = 50,
     gd_dbNow = 50, gd_iso = (\<lambda>t. ''at''), gd_down = (\<lambda>c i. False)\<rparr>"

definition operator_ref :: policy_principal_ref where
  "operator_ref = \<lparr>pp_principalRef = uuid_a, pp_tenantRef = None\<rparr>"

definition other_entity_id :: string where
  "other_entity_id = ''0e000000-0000-7000-8000-000000000005''"

definition bank :: operating_entity where
  "bank = \<lparr>oe_id = uuid_a, oe_legalName = ''Bank A'', oe_registrationNumber = ''1'', oe_registeredJurisdictionRef = ''BH'',
     oe_contractingCapacity = True, oe_dataProtectionContact = ''dpo'', oe_status = ''ACTIVE'', oe_createdAt = 0, oe_updatedAt = 0\<rparr>"

definition bound_to_bank :: entity_assignment where
  "bound_to_bank = \<lparr>ea_id = uuid_a, ea_scope = ''TENANT_DEFAULT'', ea_tenantId = Some uuid_t, ea_userId = None, ea_entityId = uuid_a,
     ea_effectiveFrom = 0, ea_effectiveTo = None, ea_createdBy = uuid_a, ea_createdAt = 0\<rparr>"

definition bank_role :: protection_role where
  "bank_role = \<lparr>pr_id = uuid_a, pr_operatingEntityId = uuid_a, pr_tenantId = None, pr_purposeRef = ''p'', pr_jurisdictionRef = ''BH'',
     pr_role = ''CONTROLLER'', pr_effectiveFrom = 0, pr_effectiveTo = None, pr_contractReference = None, pr_createdBy = uuid_a,
     pr_createdAt = 0, pr_policyPackVersion = Some ''1'', pr_policyPackPinState = ''PINNED''\<rparr>"

definition moving_tenant :: entity_migration where
  "moving_tenant = \<lparr>em_id = uuid_a, em_scope = ''TENANT_DEFAULT'', em_subjectRef = uuid_t, em_fromEntity = uuid_a, em_toEntity = other_entity_id,
     em_status = PROPOSED, em_reason = ''r'', em_reconsentEvaluationId = None, em_proposedBy = uuid_a, em_proposedAt = 0,
     em_completedAt = None\<rparr>"

definition banks_world :: entity_world where
  "banks_world = \<lparr>gw_audit = [], ew_entities = [bank, bank\<lparr>oe_id := other_entity_id, oe_registrationNumber := ''2''\<rparr>],
     ew_permissions = [], ew_licences = [], ew_roles = [bank_role], ew_assignments = [bound_to_bank], ew_migrations = [moving_tenant]\<rparr>"

lemma canonical_samples: "pg_uuid uuid_a = uuid_a" "pg_uuid other_entity_id = other_entity_id" "uuid_a \<noteq> other_entity_id"
  by code_simp+

lemma banks_wf: "entity_wf banks_world"
  by (simp add: entity_wf_def banks_world_def keyed_def bank_def bank_role_def bound_to_bank_def moving_tenant_def canonical_samples)

theorem rebinding_takes_effect_from_its_instant_witness:
  "\<exists>a w'. setTenantDefaultEntity open_deps operator_ref uuid_t other_entity_id 100 banks_world = (Inr a, w')
     \<and> fst (resolveEffectiveOperatingEntity open_deps uuid_t None 99 w') = Inr (effective_of ''TENANT_DEFAULT'' bound_to_bank)
     \<and> fst (resolveEffectiveOperatingEntity open_deps uuid_t None 100 w') =
         Inr \<lparr>ee_entityId = other_entity_id, ee_scope = ''TENANT_DEFAULT'', ee_assignmentId = pg_uuid (ea_id a)\<rparr>"
proof -
  let ?set = "setTenantDefaultEntity open_deps operator_ref uuid_t other_entity_id 100 banks_world"
  have "case fst ?set of Inr a \<Rightarrow> True | Inl e \<Rightarrow> False" by code_simp
  then obtain a w' where set: "?set = (Inr a, w')" by (cases ?set) (auto split: sum.splits)
  have k: "keyed ea_id (ew_assignments banks_world)" using banks_wf by (simp add: entity_wf_def)
  have u: "isUuid uuid_t" "\<not> gd_down open_deps ''assignments.findActiveAt'' ''TENANT_DEFAULT''"
    "list_all (\<lambda>b. binds ''TENANT_DEFAULT'' (Some uuid_t) None b \<longrightarrow> ea_effectiveFrom b < 100) (ew_assignments banks_world)"
    "fst (resolveEffectiveOperatingEntity open_deps uuid_t None 99 banks_world) = Inr (effective_of ''TENANT_DEFAULT'' bound_to_bank)"
    by code_simp+
  show ?thesis
    using rebinding_takes_effect_from_its_instant [OF set k u(1-3), where at = 99] rebinding_takes_effect_from_its_instant [OF set k u(1-3), where at = 100]
      set u(4) canonical_samples by auto
qed

theorem effective_entity_is_the_newest_binding_witness:
  "case fst (resolveEffectiveOperatingEntity open_deps uuid_t (Some uuid_a) 5 banks_world) of
    Inl e \<Rightarrow> False | Inr r \<Rightarrow> (\<exists>a. a \<in> set (ew_assignments banks_world) \<and> r = effective_of (ea_scope a) a)"
proof -
  have u: "isUuid uuid_t" "isUuid uuid_a" "\<not> gd_down open_deps ''assignments.findActiveAt'' ''USER_CONTRACTING''"
    "\<not> gd_down open_deps ''assignments.findActiveAt'' ''TENANT_DEFAULT''" by code_simp+
  have "case fst (resolveEffectiveOperatingEntity open_deps uuid_t (Some uuid_a) 5 banks_world) of Inl e \<Rightarrow> False | Inr r \<Rightarrow> True" by code_simp
  then show ?thesis using effective_entity_is_the_newest_binding [OF u, where at = 5 and w = banks_world] by (auto split: sum.splits)
qed

theorem entity_records_are_evidence_witness:
  "\<exists>r'. r' \<in> set (ew_roles (snd (endRoleAssignment open_deps operator_ref uuid_a 70 ''over'' banks_world)))
     \<and> r' = bank_role\<lparr>pr_effectiveTo := Some 70\<rparr>
     \<and> (r' = bank_role \<or> pr_effectiveTo bank_role = None \<and> (\<exists>t. r' = bank_role\<lparr>pr_effectiveTo := Some t\<rparr>))"
proof -
  let ?w = "snd (endRoleAssignment open_deps operator_ref uuid_a 70 ''over'' banks_world)"
  have run: "entity_run banks_world ?w" by (intro r_into_rtranclp entity_step.intros)
  have mem: "bank_role \<in> set (ew_roles banks_world)" "bound_to_bank \<in> set (ew_assignments banks_world)"
    "moving_tenant \<in> set (ew_migrations banks_world)" by (simp_all add: banks_world_def)
  have "ew_roles ?w = [bank_role\<lparr>pr_effectiveTo := Some 70\<rparr>]" by code_simp
  then show ?thesis using entity_records_are_evidence [OF banks_wf run mem] by auto
qed

text \<open>Ending the old binding and inserting the new one are separate transactions: a failure between them leaves the tenant unbound.\<close>

lemma failed_rebinding_unbinds:
  "let d = open_deps\<lparr>gd_down := (\<lambda>c i. c = ''assignments.insert'')\<rparr>;
       (r, w') = setTenantDefaultEntity d operator_ref uuid_t other_entity_id 100 banks_world
   in r = Inl STORE_FAILURE \<and> fst (resolveEffectiveOperatingEntity open_deps uuid_t None 100 w') = Inl (REFUSED NO_EFFECTIVE_ENTITY)"
  by code_simp

text \<open>A licence may be recorded as evidenced with the empty text for its evidence.\<close>

lemma empty_evidence_is_accepted:
  "case fst (recordEntityLicence open_deps operator_ref
      \<lparr>li_entityId = uuid_a, li_licenceTypeRef = ''t'', li_status = ''EVIDENCED'', li_sourceProvenance = ''s'', li_reviewOwner = ''o'',
       li_effectiveDate = None, li_expiryDate = None, li_evidenceReference = Some []\<rparr> banks_world) of
     Inl e \<Rightarrow> False | Inr l \<Rightarrow> el_status l = ''EVIDENCED'' \<and> el_evidenceReference l = Some []"
  by code_simp

text \<open>A contracting binding made in the context of one tenant decides the user's entity in every tenant.\<close>

lemma contracting_binding_crosses_tenants:
  "let (r, w') = setUserContractingEntity open_deps operator_ref uuid_a (Some uuid_b) other_entity_id 10 banks_world
   in map_option ee_entityId (case fst (resolveEffectiveOperatingEntity open_deps uuid_t (Some uuid_a) 20 w') of Inr e \<Rightarrow> Some e | Inl x \<Rightarrow> None)
        = Some other_entity_id"
  by code_simp

end
