(* ===== verification/Consent_Store.thy ===== *)
theory Consent_Store
  imports Operating_Entity Tenancy_Store
begin

text \<open>
  Consent (\<open>modules/consent\<close>), the lower half: the domain types and rules, the constraints, triggers and row-level policy of
  migrations 0064, 0065 and 0086, the Prisma repositories and the content sources.  The tables extend those of the operating
  entities, whose resolution the module calls.  A repository call returns \<open>None\<close> when it throws.
\<close>

section \<open>Domain\<close>

datatype version_classification = MATERIAL_REACCEPTANCE_REQUIRED | NOTICE_REQUIRED | NO_USER_ACTION_REQUIRED

fun classification_text :: "version_classification \<Rightarrow> string" where
  "classification_text MATERIAL_REACCEPTANCE_REQUIRED = ''MATERIAL_REACCEPTANCE_REQUIRED''"
| "classification_text NOTICE_REQUIRED = ''NOTICE_REQUIRED''"
| "classification_text NO_USER_ACTION_REQUIRED = ''NO_USER_ACTION_REQUIRED''"

definition VERSION_CLASSIFICATIONS :: "version_classification list" where
  "VERSION_CLASSIFICATIONS = [MATERIAL_REACCEPTANCE_REQUIRED, NOTICE_REQUIRED, NO_USER_ACTION_REQUIRED]"

definition classification_of :: "string \<Rightarrow> version_classification option" where
  "classification_of s = List.find (\<lambda>c. classification_text c = s) VERSION_CLASSIFICATIONS"

record legal_document =
  ld_id :: string
  ld_entityId :: string
  ld_jurisdictionRef :: string
  ld_purposeRefs :: "string list"
  ld_kind :: string
  ld_createdAt :: millis

record legal_version =
  lv_id :: string
  lv_documentId :: string
  lv_version :: string
  lv_contentHash :: string
  lv_storageRef :: string
  lv_classification :: "version_classification option"
  lv_author :: string
  lv_reviewer :: "string option"
  lv_reason :: "string option"
  lv_effectiveAt :: "millis option"
  lv_publishedAt :: "millis option"
  lv_priorVersionId :: "string option"
  lv_createdAt :: millis

definition isPublished :: "legal_version \<Rightarrow> bool" where
  "isPublished v \<longleftrightarrow> lv_publishedAt v \<noteq> None"

datatype publish_refusal = UNCLASSIFIED | ALREADY_PUBLISHED

definition versionMayPublish :: "legal_version \<Rightarrow> publish_refusal option" where
  "versionMayPublish v =
     (if lv_publishedAt v \<noteq> None then Some ALREADY_PUBLISHED
      else if lv_classification v = None then Some UNCLASSIFIED
      else None)"

definition documentCoversPurpose :: "legal_document \<Rightarrow> string \<Rightarrow> bool" where
  "documentCoversPurpose doc purpose \<longleftrightarrow> List.member (ld_purposeRefs doc) purpose"

datatype grant_status = GRANT_ACTIVE | GRANT_WITHDRAWN | GRANT_SUPERSEDED

fun grant_status_text :: "grant_status \<Rightarrow> string" where
  "grant_status_text GRANT_ACTIVE = ''ACTIVE''"
| "grant_status_text GRANT_WITHDRAWN = ''WITHDRAWN''"
| "grant_status_text GRANT_SUPERSEDED = ''SUPERSEDED''"

datatype pack_pin_state = PACK_PINNED | PRE_POLICY_PACK

datatype selection_pin_state = SELECTION_PINNED | NOT_APPLICABLE | PRE_SUBJECT_POLICY_SELECTION

fun selection_pin_text :: "selection_pin_state \<Rightarrow> string" where
  "selection_pin_text SELECTION_PINNED = ''PINNED''"
| "selection_pin_text NOT_APPLICABLE = ''NOT_APPLICABLE''"
| "selection_pin_text PRE_SUBJECT_POLICY_SELECTION = ''PRE_SUBJECT_POLICY_SELECTION''"

record policy_pin =
  pn_policyPackVersion :: string
  pn_subjectPolicySelectionVersion :: "string option"

record consent_grant =
  cg_id :: string
  cg_userId :: string
  cg_tenantId :: string
  cg_operatingEntityId :: string
  cg_jurisdictionRef :: string
  cg_purposeRef :: string
  cg_consentVersion :: string
  cg_legalDocumentVersionId :: string
  cg_grantedAt :: millis
  cg_withdrawnAt :: "millis option"
  cg_status :: grant_status
  cg_evidenceReference :: string
  cg_policyPackVersion :: "string option"
  cg_policyPackPinState :: pack_pin_state
  cg_subjectPolicySelectionVersion :: "string option"
  cg_subjectPolicySelectionPinState :: selection_pin_state

text \<open>The row also has its creation instant, which the database sets.\<close>

record grant_row = consent_grant +
  gr_createdAt :: millis

record reconsent_evaluation =
  rc_id :: string
  rc_legalDocumentVersionId :: string
  rc_purposeRef :: string
  rc_evaluation :: version_classification
  rc_evaluatedBy :: string
  rc_evaluatedAt :: millis
  rc_affectedQueryNotes :: string

record basis_reference =
  bs_id :: string
  bs_purposeRef :: string
  bs_jurisdictionRef :: string
  bs_basisRef :: string

section \<open>Consent status\<close>

datatype consent_standing = CONSENT_ACTIVE | CONSENT_WITHDRAWN | RECONSENT_REQUIRED | NO_GRANT

record consent_view =
  cv_state :: consent_standing
  cv_noticeRequired :: bool
  cv_grantId :: "string option"
  cv_grantedVersion :: "string option"
  cv_effectiveVersionId :: "string option"
  cv_effectiveVersion :: "string option"

definition effective_is_newer :: "millis option \<Rightarrow> legal_version \<Rightarrow> bool" where
  "effective_is_newer granted v = (case (granted, lv_effectiveAt v) of (Some g, Some e) \<Rightarrow> e > g | _ \<Rightarrow> True)"

definition resolveConsentStatus :: "consent_grant option \<Rightarrow> millis option \<Rightarrow> legal_version option \<Rightarrow> consent_view" where
  "resolveConsentStatus grant grantedEffectiveAt effective =
     (let base = \<lparr>cv_state = NO_GRANT, cv_noticeRequired = False, cv_grantId = map_option cg_id grant,
                  cv_grantedVersion = map_option cg_consentVersion grant, cv_effectiveVersionId = map_option lv_id effective,
                  cv_effectiveVersion = map_option lv_version effective\<rparr>
      in case grant of
        None \<Rightarrow> base
      | Some g \<Rightarrow>
          if cg_status g = GRANT_WITHDRAWN then base\<lparr>cv_state := CONSENT_WITHDRAWN\<rparr>
          else if cg_status g \<noteq> GRANT_ACTIVE then base
          else (case effective of
              None \<Rightarrow> base\<lparr>cv_state := CONSENT_ACTIVE\<rparr>
            | Some v \<Rightarrow>
                if lv_id v = cg_legalDocumentVersionId g then base\<lparr>cv_state := CONSENT_ACTIVE\<rparr>
                else if \<not> effective_is_newer grantedEffectiveAt v then base\<lparr>cv_state := CONSENT_ACTIVE\<rparr>
                else (case lv_classification v of
                    Some NOTICE_REQUIRED \<Rightarrow> base\<lparr>cv_state := CONSENT_ACTIVE, cv_noticeRequired := True\<rparr>
                  | Some NO_USER_ACTION_REQUIRED \<Rightarrow> base\<lparr>cv_state := CONSENT_ACTIVE\<rparr>
                  | _ \<Rightarrow> base\<lparr>cv_state := RECONSENT_REQUIRED\<rparr>)))"

definition statusPermitsProcessing :: "consent_standing \<Rightarrow> bool" where
  "statusPermitsProcessing s \<longleftrightarrow> s = CONSENT_ACTIVE"

section \<open>Tables\<close>

record consent_world = entity_world +
  cw_documents :: "legal_document list"
  cw_versions :: "legal_version list"
  cw_grants :: "grant_row list"
  cw_evaluations :: "reconsent_evaluation list"
  cw_bases :: "basis_reference list"

definition document_checks :: "legal_document \<Rightarrow> bool" where
  "document_checks d \<longleftrightarrow> filled_text (ld_jurisdictionRef d) \<and> filled_text (ld_kind d) \<and> ld_purposeRefs d \<noteq> []
     \<and> list_all pg_text (ld_purposeRefs d)"

definition document_conflicts :: "legal_document \<Rightarrow> legal_document \<Rightarrow> bool" where
  "document_conflicts a b \<longleftrightarrow> ld_id a = ld_id b
     \<or> ld_entityId a = ld_entityId b \<and> ld_jurisdictionRef a = ld_jurisdictionRef b \<and> ld_kind a = ld_kind b"

definition version_checks :: "legal_version \<Rightarrow> bool" where
  "version_checks v \<longleftrightarrow> list_all filled_text [lv_version v, lv_contentHash v, lv_storageRef v, lv_author v]
     \<and> optional_text (lv_reviewer v) \<and> optional_text (lv_reason v)
     \<and> (lv_classification v = None \<or> lv_reviewer v \<noteq> None \<and> lv_reason v \<noteq> None)
     \<and> (lv_effectiveAt v = None \<or> lv_classification v \<noteq> None)
     \<and> (lv_publishedAt v = None \<or> lv_classification v \<noteq> None \<and> lv_effectiveAt v \<noteq> None)"

definition version_conflicts :: "legal_version \<Rightarrow> legal_version \<Rightarrow> bool" where
  "version_conflicts a b \<longleftrightarrow> lv_id a = lv_id b \<or> lv_documentId a = lv_documentId b \<and> lv_version a = lv_version b"

text \<open>The trigger: a published row is frozen, and no row changes what it identifies and contains.\<close>

definition version_guard :: "legal_version \<Rightarrow> legal_version \<Rightarrow> bool" where
  "version_guard old new \<longleftrightarrow> lv_publishedAt old = None
     \<and> new\<lparr>lv_classification := lv_classification old, lv_reviewer := lv_reviewer old, lv_reason := lv_reason old,
           lv_effectiveAt := lv_effectiveAt old, lv_publishedAt := lv_publishedAt old\<rparr> = old"

definition grant_checks :: "grant_row \<Rightarrow> bool" where
  "grant_checks g \<longleftrightarrow> list_all filled_text [cg_jurisdictionRef g, cg_purposeRef g, cg_consentVersion g, cg_evidenceReference g]
     \<and> (cg_status g = GRANT_WITHDRAWN \<longleftrightarrow> cg_withdrawnAt g \<noteq> None)
     \<and> (case cg_withdrawnAt g of None \<Rightarrow> True | Some t \<Rightarrow> t \<ge> cg_grantedAt g)
     \<and> (cg_policyPackPinState g = PACK_PINNED \<longleftrightarrow> cg_policyPackVersion g \<noteq> None)
     \<and> (case cg_policyPackVersion g of None \<Rightarrow> True | Some v \<Rightarrow> filled_text v)
     \<and> (cg_subjectPolicySelectionPinState g = SELECTION_PINNED \<longleftrightarrow> cg_subjectPolicySelectionVersion g \<noteq> None)
     \<and> (case cg_subjectPolicySelectionVersion g of None \<Rightarrow> True | Some v \<Rightarrow> filled_text v)
     \<and> (gr_createdAt g < PIN_CUTOFF \<or> cg_policyPackPinState g = PACK_PINNED
          \<and> cg_subjectPolicySelectionPinState g \<noteq> PRE_SUBJECT_POLICY_SELECTION)"

text \<open>The trigger: an active grant may be withdrawn, with its instant, or superseded; nothing else changes.\<close>

definition grant_guard :: "grant_row \<Rightarrow> grant_row \<Rightarrow> bool" where
  "grant_guard old new \<longleftrightarrow> new\<lparr>cg_status := cg_status old, cg_withdrawnAt := cg_withdrawnAt old\<rparr> = old
     \<and> cg_status old = GRANT_ACTIVE
     \<and> (cg_status new = GRANT_WITHDRAWN \<and> cg_withdrawnAt old = None \<and> cg_withdrawnAt new \<noteq> None
        \<or> cg_status new = GRANT_SUPERSEDED \<and> cg_withdrawnAt new = None)"

text \<open>The policy \<open>consent_grants_subject\<close>, for reading and for writing.\<close>

definition grant_visible :: "bound_values \<Rightarrow> grant_row \<Rightarrow> bool" where
  "grant_visible v g \<longleftrightarrow> bound_tenant v = Some (cg_tenantId g) \<and> bound_user v = Some (cg_userId g)"

definition evaluation_checks :: "reconsent_evaluation \<Rightarrow> bool" where
  "evaluation_checks e \<longleftrightarrow> list_all filled_text [rc_purposeRef e, rc_evaluatedBy e, rc_affectedQueryNotes e]"

definition evaluation_conflicts :: "reconsent_evaluation \<Rightarrow> reconsent_evaluation \<Rightarrow> bool" where
  "evaluation_conflicts a b \<longleftrightarrow> rc_id a = rc_id b
     \<or> rc_legalDocumentVersionId a = rc_legalDocumentVersionId b \<and> rc_purposeRef a = rc_purposeRef b"

definition basis_checks :: "basis_reference \<Rightarrow> bool" where
  "basis_checks b \<longleftrightarrow> list_all filled_text [bs_purposeRef b, bs_jurisdictionRef b, bs_basisRef b]"

definition known_version :: "'w consent_world_scheme \<Rightarrow> string \<Rightarrow> bool" where
  "known_version w i \<longleftrightarrow> list_ex (\<lambda>v. lv_id v = i) (cw_versions w)"

section \<open>PrismaLegalDocumentRepository\<close>

definition documents_insert :: "legal_document \<Rightarrow> 'w consent_world_scheme \<Rightarrow> (unit \<times> 'w consent_world_scheme) option" where
  "documents_insert d w =
     (let row = d\<lparr>ld_id := pg_uuid (ld_id d), ld_entityId := pg_uuid (ld_entityId d)\<rparr>
      in if \<not> isUuid (ld_id d) \<or> \<not> isUuid (ld_entityId d) \<or> \<not> document_checks row then None
         else map_option (\<lambda>rows. ((), w\<lparr>cw_documents := rows\<rparr>)) (create_row document_conflicts row (cw_documents w)))"

definition documents_findById :: "string \<Rightarrow> 'w consent_world_scheme \<Rightarrow> legal_document option option" where
  "documents_findById i w = find_by_id ld_id i (cw_documents w)"

definition oldest_document :: "legal_document \<Rightarrow> legal_document \<Rightarrow> int" where
  "oldest_document a b = ld_createdAt a - ld_createdAt b"

definition documents_list :: "string \<Rightarrow> string option \<Rightarrow> 'w consent_world_scheme \<Rightarrow> legal_document list option" where
  "documents_list entityId jurisdictionRef w =
     (if isUuid entityId then Some (find_many (\<lambda>d. ld_entityId d = pg_uuid entityId \<and> wanted jurisdictionRef (ld_jurisdictionRef d))
        oldest_document (cw_documents w)) else None)"

definition documents_covering ::
  "string \<Rightarrow> string \<Rightarrow> string option \<Rightarrow> 'w consent_world_scheme \<Rightarrow> legal_document list option" where
  "documents_covering entityId purpose jurisdictionRef w =
     (if isUuid entityId then Some (find_many (\<lambda>d. ld_entityId d = pg_uuid entityId \<and> documentCoversPurpose d purpose
          \<and> wanted jurisdictionRef (ld_jurisdictionRef d)) oldest_document (cw_documents w)) else None)"

definition versions_insert :: "legal_version \<Rightarrow> 'w consent_world_scheme \<Rightarrow> (unit \<times> 'w consent_world_scheme) option" where
  "versions_insert v w =
     (let row = v\<lparr>lv_id := pg_uuid (lv_id v), lv_documentId := pg_uuid (lv_documentId v),
                  lv_priorVersionId := map_option pg_uuid (lv_priorVersionId v)\<rparr>
      in if \<not> isUuid (lv_id v) \<or> \<not> isUuid (lv_documentId v) \<or> \<not> optional_uuid (lv_priorVersionId v)
            \<or> \<not> list_ex (\<lambda>d. ld_id d = lv_documentId row) (cw_documents w)
            \<or> (case lv_priorVersionId row of None \<Rightarrow> False | Some p \<Rightarrow> \<not> known_version w p) \<or> \<not> version_checks row then None
         else map_option (\<lambda>rows. ((), w\<lparr>cw_versions := rows\<rparr>)) (create_row version_conflicts row (cw_versions w)))"

definition versions_findById :: "string \<Rightarrow> 'w consent_world_scheme \<Rightarrow> legal_version option option" where
  "versions_findById i w = find_by_id lv_id i (cw_versions w)"

definition versions_update ::
  "string \<Rightarrow> (legal_version \<Rightarrow> legal_version) \<Rightarrow> 'w consent_world_scheme \<Rightarrow> (unit \<times> 'w consent_world_scheme) option" where
  "versions_update i f w = map_option (\<lambda>rows. ((), w\<lparr>cw_versions := rows\<rparr>))
     (update_by_id lv_id (\<lambda>old new. version_checks new \<and> version_guard old new) i f (cw_versions w))"

definition versions_classify ::
  "string \<Rightarrow> version_classification \<Rightarrow> string \<Rightarrow> string \<Rightarrow> 'w consent_world_scheme \<Rightarrow> (unit \<times> 'w consent_world_scheme) option" where
  "versions_classify i c reviewer reason =
     versions_update i (\<lambda>v. v\<lparr>lv_classification := Some c, lv_reviewer := Some reviewer, lv_reason := Some reason\<rparr>)"

definition versions_publish ::
  "string \<Rightarrow> millis \<Rightarrow> millis \<Rightarrow> 'w consent_world_scheme \<Rightarrow> (unit \<times> 'w consent_world_scheme) option" where
  "versions_publish i effectiveAt publishedAt =
     versions_update i (\<lambda>v. v\<lparr>lv_effectiveAt := Some effectiveAt, lv_publishedAt := Some publishedAt\<rparr>)"

text \<open>\<open>orderBy\<close> two instants, both descending.\<close>

definition later_first :: "('r \<Rightarrow> millis) \<Rightarrow> ('r \<Rightarrow> millis) \<Rightarrow> 'r \<Rightarrow> 'r \<Rightarrow> int" where
  "later_first f g a b = (if f a \<noteq> f b then f b - f a else g b - g a)"

definition instant_of :: "millis option \<Rightarrow> millis" where
  "instant_of t = (case t of None \<Rightarrow> 0 | Some x \<Rightarrow> x)"

definition in_force :: "string \<Rightarrow> millis \<Rightarrow> legal_version \<Rightarrow> bool" where
  "in_force documentId at v \<longleftrightarrow> lv_documentId v = pg_uuid documentId \<and> lv_publishedAt v \<noteq> None
     \<and> (case lv_effectiveAt v of None \<Rightarrow> False | Some e \<Rightarrow> e \<le> at)"

definition versions_currentEffective :: "string \<Rightarrow> millis \<Rightarrow> 'w consent_world_scheme \<Rightarrow> legal_version option option" where
  "versions_currentEffective documentId at w =
     (if isUuid documentId then Some (find_first (in_force documentId at)
        (later_first (\<lambda>v. instant_of (lv_effectiveAt v)) (\<lambda>v. instant_of (lv_publishedAt v))) (cw_versions w)) else None)"

section \<open>PrismaConsentGrantRepository\<close>

record consent_principal =
  cp_userId :: string
  cp_tenantId :: string

definition in_subject :: "consent_principal \<Rightarrow> (bound_values \<Rightarrow> 'a option) \<Rightarrow> 'a option" where
  "in_subject p = in_context \<lparr>pc_tenantId = Some (cp_tenantId p), pc_userId = Some (cp_userId p), pc_sessionId = None, pc_requestId = None\<rparr>
     DEFAULT_REQUIRED_CONTEXT False"

definition own_grant :: "consent_principal \<Rightarrow> grant_row \<Rightarrow> bool" where
  "own_grant p g \<longleftrightarrow> cg_userId g = pg_uuid (cp_userId p) \<and> cg_tenantId g = pg_uuid (cp_tenantId p)"

definition same_triple :: "string \<Rightarrow> string \<Rightarrow> string \<Rightarrow> grant_row \<Rightarrow> bool" where
  "same_triple entityId purpose jurisdiction g \<longleftrightarrow> cg_operatingEntityId g = pg_uuid entityId \<and> cg_purposeRef g = purpose
     \<and> cg_jurisdictionRef g = jurisdiction"

definition stored_grant :: "millis \<Rightarrow> consent_grant \<Rightarrow> grant_row" where
  "stored_grant at g = consent_grant.extend (g\<lparr>cg_id := pg_uuid (cg_id g), cg_userId := pg_uuid (cg_userId g), cg_tenantId := pg_uuid (cg_tenantId g),
     cg_operatingEntityId := pg_uuid (cg_operatingEntityId g), cg_legalDocumentVersionId := pg_uuid (cg_legalDocumentVersionId g)\<rparr>)
     (grant_row.fields at)"

definition superseded :: "grant_row \<Rightarrow> grant_row" where
  "superseded g = g\<lparr>cg_status := GRANT_SUPERSEDED\<rparr>"

text \<open>
  \<open>recordAcceptance\<close>, one transaction: the subject's active grants for the triple are read, marked superseded by identifier,
  and the new grant is inserted.  \<open>raced\<close> are the rows other transactions commit after the read.
\<close>

definition grants_recordAcceptance ::
  "millis \<Rightarrow> grant_row list \<Rightarrow> consent_principal \<Rightarrow> consent_grant \<Rightarrow> 'w consent_world_scheme \<Rightarrow> (string list \<times> 'w consent_world_scheme) option" where
  "grants_recordAcceptance dbNow raced p g w = in_subject p (\<lambda>v.
     if \<not> isUuid (cg_operatingEntityId g) then None
     else let prior = filter (\<lambda>r. grant_visible v r \<and> own_grant p r \<and> cg_status r = GRANT_ACTIVE
                  \<and> same_triple (cg_operatingEntityId g) (cg_purposeRef g) (cg_jurisdictionRef g) r) (cw_grants w);
              ids = map cg_id prior;
              rows = map (\<lambda>r. if grant_visible v r \<and> cg_id r \<in> set ids then superseded r else r) (cw_grants w @ raced);
              new = stored_grant dbNow g
          in if list_ex (\<lambda>r. grant_visible v r \<and> cg_id r \<in> set ids \<and> \<not> (grant_checks (superseded r) \<and> grant_guard r (superseded r)))
                  (cw_grants w @ raced) then None
             else if list_ex (\<lambda>i. \<not> isUuid i) [cg_id g, cg_userId g, cg_tenantId g, cg_legalDocumentVersionId g] then None
             else if \<not> grant_visible v new \<or> \<not> grant_checks new \<or> \<not> known_version w (cg_legalDocumentVersionId new) then None
             else map_option (\<lambda>rows. (ids, w\<lparr>cw_grants := rows\<rparr>)) (create_row (same_id cg_id) new rows))"

definition toGrant :: "grant_row \<Rightarrow> consent_grant" where
  "toGrant r = consent_grant.truncate r"

definition grants_findById :: "consent_principal \<Rightarrow> string \<Rightarrow> 'w consent_world_scheme \<Rightarrow> consent_grant option option" where
  "grants_findById p i w = in_subject p (\<lambda>v. map_option (map_option toGrant) (find_by_id cg_id i (filter (grant_visible v) (cw_grants w))))"

definition resolution_row :: "consent_principal \<Rightarrow> string \<Rightarrow> string \<Rightarrow> string \<Rightarrow> grant_row \<Rightarrow> bool" where
  "resolution_row p entityId purpose jurisdiction g \<longleftrightarrow> own_grant p g \<and> same_triple entityId purpose jurisdiction g
     \<and> (cg_status g = GRANT_ACTIVE \<or> cg_status g = GRANT_WITHDRAWN)"

definition grants_latestResolution ::
  "consent_principal \<Rightarrow> string \<Rightarrow> string \<Rightarrow> string \<Rightarrow> 'w consent_world_scheme \<Rightarrow> consent_grant option option" where
  "grants_latestResolution p entityId purpose jurisdiction w = in_subject p (\<lambda>v.
     if isUuid entityId then Some (map_option toGrant (find_first (\<lambda>g. grant_visible v g \<and> resolution_row p entityId purpose jurisdiction g)
       (later_first cg_grantedAt gr_createdAt) (cw_grants w))) else None)"

definition grants_list :: "consent_principal \<Rightarrow> 'w consent_world_scheme \<Rightarrow> consent_grant list option" where
  "grants_list p w = in_subject p (\<lambda>v. Some (map toGrant
     (find_many (\<lambda>g. grant_visible v g \<and> own_grant p g) (\<lambda>a b. cg_grantedAt a - cg_grantedAt b) (cw_grants w))))"

definition withdrawn_at :: "millis \<Rightarrow> grant_row \<Rightarrow> grant_row" where
  "withdrawn_at at g = g\<lparr>cg_status := GRANT_WITHDRAWN, cg_withdrawnAt := Some at\<rparr>"

definition grants_withdraw ::
  "consent_principal \<Rightarrow> string \<Rightarrow> millis \<Rightarrow> 'w consent_world_scheme \<Rightarrow> (unit \<times> 'w consent_world_scheme) option" where
  "grants_withdraw p i at w = in_subject p (\<lambda>v. map_option (\<lambda>rows. ((), w\<lparr>cw_grants := rows\<rparr>))
     (update_by_id cg_id (\<lambda>old new. grant_visible v old \<and> grant_checks new \<and> grant_guard old new) i (withdrawn_at at) (cw_grants w)))"

section \<open>PrismaReconsentEvaluationRepository, PrismaProcessingBasisRepository\<close>

definition evaluations_insert ::
  "reconsent_evaluation \<Rightarrow> 'w consent_world_scheme \<Rightarrow> (unit \<times> 'w consent_world_scheme) option" where
  "evaluations_insert e w =
     (let row = e\<lparr>rc_id := pg_uuid (rc_id e), rc_legalDocumentVersionId := pg_uuid (rc_legalDocumentVersionId e)\<rparr>
      in if \<not> isUuid (rc_id e) \<or> \<not> isUuid (rc_legalDocumentVersionId e) \<or> \<not> known_version w (rc_legalDocumentVersionId row)
            \<or> \<not> evaluation_checks row then None
         else map_option (\<lambda>rows. ((), w\<lparr>cw_evaluations := rows\<rparr>)) (create_row evaluation_conflicts row (cw_evaluations w)))"

definition same_basis :: "basis_reference \<Rightarrow> basis_reference \<Rightarrow> bool" where
  "same_basis a b \<longleftrightarrow> bs_purposeRef a = bs_purposeRef b \<and> bs_jurisdictionRef a = bs_jurisdictionRef b"

text \<open>The upsert keeps the row, and its identifier, when the pair is already declared.\<close>

definition bases_declare :: "basis_reference \<Rightarrow> 'w consent_world_scheme \<Rightarrow> (unit \<times> 'w consent_world_scheme) option" where
  "bases_declare b w =
     (let row = b\<lparr>bs_id := pg_uuid (bs_id b)\<rparr>
      in if \<not> isUuid (bs_id b) \<or> \<not> basis_checks row then None
         else if list_ex (same_basis row) (cw_bases w)
           then Some ((), w\<lparr>cw_bases := map (\<lambda>x. if same_basis row x then x\<lparr>bs_basisRef := bs_basisRef b\<rparr> else x) (cw_bases w)\<rparr>)
         else map_option (\<lambda>rows. ((), w\<lparr>cw_bases := rows\<rparr>)) (create_row (same_id bs_id) row (cw_bases w)))"

definition bases_find :: "string \<Rightarrow> string \<Rightarrow> 'w consent_world_scheme \<Rightarrow> basis_reference option" where
  "bases_find purpose jurisdiction w =
     List.find (\<lambda>b. bs_purposeRef b = purpose \<and> bs_jurisdictionRef b = jurisdiction) (cw_bases w)"

section \<open>Content sources\<close>

datatype content_format = TEXT_PLAIN | TEXT_MARKDOWN

record document_content =
  dc_language :: string
  dc_format :: content_format
  dc_content :: string

text \<open>What the composition chose: no source, or one version's content by its storage reference, which is never empty.\<close>

datatype content_source = NO_CONTENT_SOURCE | STATIC_CONTENT string document_content

definition static_content_source :: "string \<Rightarrow> document_content \<Rightarrow> content_source option" where
  "static_content_source storageRef content = (if storageRef = [] then None else Some (STATIC_CONTENT storageRef content))"

fun source_fetch :: "content_source \<Rightarrow> legal_version \<Rightarrow> document_content option" where
  "source_fetch NO_CONTENT_SOURCE v = None"
| "source_fetch (STATIC_CONTENT storageRef content) v = (if lv_storageRef v = storageRef then Some content else None)"

definition LOCAL_CONTENT_ENVIRONMENTS :: "string list" where
  "LOCAL_CONTENT_ENVIRONMENTS = [''local'', ''test'']"

definition isLocalContentEnvironment :: "string option \<Rightarrow> bool" where
  "isLocalContentEnvironment environment = (case environment of None \<Rightarrow> False | Some e \<Rightarrow> e \<in> set LOCAL_CONTENT_ENVIRONMENTS)"

text \<open>
  \<open>legalDocumentContentSourceFor\<close>.  \<open>fixtures\<close> is the optional local fixture package: \<open>None\<close> when it is not installed, else what its
  \<open>localSeedContentSpec\<close> answers, itself \<open>None\<close> when that is not a displayable content with a storage reference (an exception).
\<close>

definition legalDocumentContentSourceFor ::
  "(string option \<Rightarrow> (string \<times> document_content) option) option \<Rightarrow> string option \<Rightarrow> content_source option" where
  "legalDocumentContentSourceFor fixtures environment =
     (if \<not> isLocalContentEnvironment environment then Some NO_CONTENT_SOURCE
      else case fixtures of
        None \<Rightarrow> Some NO_CONTENT_SOURCE
      | Some spec \<Rightarrow> (case spec environment of
          None \<Rightarrow> None
        | Some (storageRef, content) \<Rightarrow>
            if storageRef = [] \<or> dc_language content = [] \<or> dc_content content = [] then None
            else static_content_source storageRef content))"

end
