(* ===== verification/Consent.thy ===== *)
theory Consent
  imports Consent_Store
begin

text \<open>
  The use cases of \<open>modules/consent/application\<close>: the subject's own acceptance, withdrawal, status and documents, the gate
  \<open>AssertConsentFor\<close>, the content of a document, the lifecycle of documents and versions, re-consent evaluations and
  processing bases.  The entity of a subject comes from the operating-entity module through its adapter.
\<close>

datatype content_absence = NO_EFFECTIVE_VERSION | NOT_RETRIEVABLE | LANGUAGE_NOT_STATED

datatype consent_refusal =
    UNCLASSIFIED_PUBLICATION_BLOCKED string
  | VERSION_IMMUTABLE string
  | EVALUATION_MISMATCH string version_classification version_classification
  | VERSION_NOT_PUBLISHED string
  | PURPOSE_NOT_COVERED string string
  | DOCUMENT_NOT_APPLICABLE string string string
  | SUBJECT_HAS_NO_ENTITY
  | GRANT_NOT_ACTIVE string grant_status
  | AMBIGUOUS_JURISDICTION string "string list"
  | DOCUMENT_CONTENT_UNAVAILABLE string content_absence
  | DOCUMENT_CONTENT_INTEGRITY_MISMATCH string string
  | CONSENT_REQUIRED consent_standing string "string option"

type_synonym ('w, 'a) consent_effect = "('w consent_world_scheme, consent_refusal governed_error, 'a) effect"

section \<open>The operating-entity directory\<close>

definition directory_resolve :: "governed_deps \<Rightarrow> consent_principal \<Rightarrow> ('w, string) consent_effect" where
  "directory_resolve d p = (\<lambda>w.
     case resolveEffectiveOperatingEntity d (cp_tenantId p) (Some (cp_userId p)) (gd_now d) w of
       (Inr e, w') \<Rightarrow> (Inr (ee_entityId e), w')
     | (Inl (REFUSED NO_EFFECTIVE_ENTITY), w') \<Rightarrow> (Inl (REFUSED SUBJECT_HAS_NO_ENTITY), w')
     | (Inl e, w') \<Rightarrow> (Inl STORE_FAILURE, w'))"

section \<open>Acceptance and withdrawal\<close>

record acceptance_input =
  ac_legalDocumentVersionId :: string
  ac_purposeRef :: string
  ac_evidenceReference :: string
  ac_policyPin :: policy_pin

definition find_version_document ::
  "governed_deps \<Rightarrow> string \<Rightarrow> ('w, (legal_version \<times> legal_document) option) consent_effect" where
  "find_version_document d i =
     thenE (governed_read d ''documents.findVersionById'' i (versions_findById i)) (\<lambda>v.
     case v of None \<Rightarrow> returnE None
     | Some version \<Rightarrow>
         thenE (governed_read d ''documents.findDocumentById'' (lv_documentId version) (documents_findById (lv_documentId version))) (\<lambda>doc.
           returnE (map_option (Pair version) doc)))"

definition acceptance_refusal :: "legal_version \<Rightarrow> legal_document \<Rightarrow> string \<Rightarrow> consent_refusal option" where
  "acceptance_refusal version doc purpose =
     (if lv_publishedAt version = None then Some (VERSION_NOT_PUBLISHED (lv_id version))
      else if \<not> documentCoversPurpose doc purpose then Some (PURPOSE_NOT_COVERED (ld_id doc) purpose)
      else None)"

definition applicability_refusal :: "legal_document \<Rightarrow> string \<Rightarrow> consent_refusal option" where
  "applicability_refusal doc entityId =
     (if entityId \<noteq> ld_entityId doc then Some (DOCUMENT_NOT_APPLICABLE (ld_id doc) (ld_entityId doc) entityId) else None)"

definition new_grant ::
  "governed_deps \<Rightarrow> consent_principal \<Rightarrow> acceptance_input \<Rightarrow> legal_version \<Rightarrow> legal_document \<Rightarrow> consent_grant" where
  "new_grant d p i version doc =
     \<lparr>cg_id = gd_nextId d, cg_userId = cp_userId p, cg_tenantId = cp_tenantId p, cg_operatingEntityId = ld_entityId doc,
      cg_jurisdictionRef = ld_jurisdictionRef doc, cg_purposeRef = ac_purposeRef i, cg_consentVersion = lv_version version,
      cg_legalDocumentVersionId = lv_id version, cg_grantedAt = gd_now d, cg_withdrawnAt = None, cg_status = GRANT_ACTIVE,
      cg_evidenceReference = ac_evidenceReference i, cg_policyPackVersion = Some (pn_policyPackVersion (ac_policyPin i)),
      cg_policyPackPinState = PACK_PINNED, cg_subjectPolicySelectionVersion = pn_subjectPolicySelectionVersion (ac_policyPin i),
      cg_subjectPolicySelectionPinState =
        (if pn_subjectPolicySelectionVersion (ac_policyPin i) = None then NOT_APPLICABLE else SELECTION_PINNED)\<rparr>"

definition consent_entry ::
  "string \<Rightarrow> string option \<Rightarrow> string \<Rightarrow> string \<Rightarrow> string \<Rightarrow> string option \<Rightarrow> metadata option \<Rightarrow> metadata option \<Rightarrow> governed_entry" where
  "consent_entry actorRef tenantRef action type' i reason before after =
     \<lparr>ge_actorRef = actorRef, ge_tenantRef = tenantRef, ge_action = action, ge_resourceType = type', ge_resourceId = i,
      ge_reason = reason, ge_before = before, ge_after = after\<rparr>"

definition grant_metadata :: "consent_grant \<Rightarrow> metadata" where
  "grant_metadata g =
     [(''operatingEntityId'', JsString (cg_operatingEntityId g)), (''purposeRef'', JsString (cg_purposeRef g)),
      (''jurisdictionRef'', JsString (cg_jurisdictionRef g)), (''consentVersion'', JsString (cg_consentVersion g)),
      (''legalDocumentVersionId'', JsString (cg_legalDocumentVersionId g)),
      (''policyPackVersion'', optional_value (cg_policyPackVersion g)),
      (''subjectPolicySelectionVersion'', optional_value (cg_subjectPolicySelectionVersion g)),
      (''subjectPolicySelectionPinState'', JsString (selection_pin_text (cg_subjectPolicySelectionPinState g)))]"

definition recordOwnAcceptance ::
  "governed_deps \<Rightarrow> grant_row list \<Rightarrow> consent_principal \<Rightarrow> acceptance_input \<Rightarrow> ('w, consent_grant) consent_effect" where
  "recordOwnAcceptance d raced p i =
     thenE (require_text ''PurposeRef'' (ac_purposeRef i)) (\<lambda>u.
     thenE (require_text ''evidenceReference'' (ac_evidenceReference i)) (\<lambda>u.
     thenE (require_text ''policyPackVersion'' (pn_policyPackVersion (ac_policyPin i))) (\<lambda>u.
     thenE (require_optional ''subjectPolicySelectionVersion'' (pn_subjectPolicySelectionVersion (ac_policyPin i))) (\<lambda>u.
     thenE (find_version_document d (ac_legalDocumentVersionId i)) (\<lambda>r.
     thenE (found ''legal_document_version'' (ac_legalDocumentVersionId i) r) (\<lambda>vd.
     thenE (refuse_if (acceptance_refusal (fst vd) (snd vd) (ac_purposeRef i))) (\<lambda>u.
     thenE (directory_resolve d p) (\<lambda>entityId.
     thenE (refuse_if (applicability_refusal (snd vd) entityId)) (\<lambda>u.
     let g = new_grant d p i (fst vd) (snd vd) in
     thenE (governed_write d ''grants.recordAcceptance'' (cg_id g) (grants_recordAcceptance (gd_dbNow d) raced p g)) (\<lambda>ids.
     thenE (audited d (consent_entry (cp_userId p) (Some (cp_tenantId p)) ''consent.grant.recorded'' ''consent_grant'' (cg_id g) None
         (Some [(''supersededGrantIds'', joined_or_null ids)]) (Some (grant_metadata g)))) (\<lambda>u.
       returnE g)))))))))))"

definition withdrawal_refusal :: "consent_grant \<Rightarrow> consent_refusal option" where
  "withdrawal_refusal g = (if cg_status g \<noteq> GRANT_ACTIVE then Some (GRANT_NOT_ACTIVE (cg_id g) (cg_status g)) else None)"

definition withdrawOwnConsent :: "governed_deps \<Rightarrow> consent_principal \<Rightarrow> string \<Rightarrow> ('w, consent_grant) consent_effect" where
  "withdrawOwnConsent d p grantId =
     thenE (governed_read d ''grants.findById'' grantId (grants_findById p grantId)) (\<lambda>r.
     thenE (found ''consent_grant'' grantId r) (\<lambda>g.
     thenE (refuse_if (withdrawal_refusal g)) (\<lambda>u.
     thenE (governed_write d ''grants.withdraw'' grantId (grants_withdraw p grantId (gd_now d))) (\<lambda>u.
     thenE (audited d (consent_entry (cp_userId p) (Some (cp_tenantId p)) ''consent.grant.withdrawn'' ''consent_grant'' (cg_id g) None
         (Some [(''status'', JsString ''ACTIVE'')])
         (Some [(''status'', JsString ''WITHDRAWN''), (''withdrawnAt'', JsString (gd_iso d (gd_now d))),
                (''purposeRef'', JsString (cg_purposeRef g))]))) (\<lambda>u.
       returnE (g\<lparr>cg_status := GRANT_WITHDRAWN, cg_withdrawnAt := Some (gd_now d)\<rparr>))))))"

section \<open>Status and the gate\<close>

record own_status = consent_view +
  ow_purposeRef :: string
  ow_jurisdictionRef :: "string option"
  ow_operatingEntityId :: string
  ow_documentId :: "string option"

definition own_status_of :: "consent_view \<Rightarrow> string \<Rightarrow> string option \<Rightarrow> string \<Rightarrow> string option \<Rightarrow> own_status" where
  "own_status_of v purpose jurisdiction entityId documentId =
     consent_view.extend v (own_status.fields purpose jurisdiction entityId documentId)"

text \<open>A blank jurisdiction throws inside the \<open>try\<close> and is reported as a store failure.\<close>

definition scope_check :: "string option \<Rightarrow> ('w, unit) consent_effect" where
  "scope_check jurisdictionRef = (case jurisdictionRef of None \<Rightarrow> returnE () | Some j \<Rightarrow> if blank j then throwE STORE_FAILURE else returnE ())"

definition document_status ::
  "governed_deps \<Rightarrow> consent_principal \<Rightarrow> string \<Rightarrow> string \<Rightarrow> legal_document \<Rightarrow> ('w, own_status) consent_effect" where
  "document_status d p purpose entityId doc =
     thenE (governed_read d ''documents.currentEffectiveVersion'' (ld_id doc) (versions_currentEffective (ld_id doc) (gd_now d))) (\<lambda>effective.
     thenE (governed_read d ''grants.latestResolutionGrant'' purpose
         (grants_latestResolution p entityId purpose (ld_jurisdictionRef doc))) (\<lambda>grant.
     thenE (case grant of None \<Rightarrow> returnE None
         | Some g \<Rightarrow> governed_read d ''documents.findVersionById'' (cg_legalDocumentVersionId g) (versions_findById (cg_legalDocumentVersionId g))) (\<lambda>granted.
       returnE (own_status_of
         (resolveConsentStatus grant (case granted of None \<Rightarrow> None | Some v \<Rightarrow> lv_effectiveAt v) effective)
         purpose (Some (ld_jurisdictionRef doc)) entityId (Some (ld_id doc))))))"

definition getOwnConsentStatus ::
  "governed_deps \<Rightarrow> consent_principal \<Rightarrow> string \<Rightarrow> string option \<Rightarrow> ('w, own_status) consent_effect" where
  "getOwnConsentStatus d p purpose jurisdictionRef =
     thenE (require_text ''PurposeRef'' purpose) (\<lambda>u.
     thenE (directory_resolve d p) (\<lambda>entityId.
     thenE (scope_check jurisdictionRef) (\<lambda>u.
     thenE (governed_read d ''documents.findDocumentsCoveringPurpose'' purpose (documents_covering entityId purpose jurisdictionRef)) (\<lambda>candidates.
     case candidates of
       [] \<Rightarrow> returnE (own_status_of (resolveConsentStatus None None None) purpose jurisdictionRef entityId None)
     | [doc] \<Rightarrow> document_status d p purpose entityId doc
     | _ \<Rightarrow> throwE (REFUSED (AMBIGUOUS_JURISDICTION purpose (map ld_jurisdictionRef candidates)))))))"

definition assertConsentFor :: "governed_deps \<Rightarrow> consent_principal \<Rightarrow> string \<Rightarrow> string option \<Rightarrow> ('w, unit) consent_effect" where
  "assertConsentFor d p purpose jurisdictionRef =
     thenE (getOwnConsentStatus d p purpose jurisdictionRef) (\<lambda>s.
       if statusPermitsProcessing (cv_state s) then returnE ()
       else throwE (REFUSED (CONSENT_REQUIRED (cv_state s) purpose (ow_jurisdictionRef s))))"

fun effective_versions ::
  "governed_deps \<Rightarrow> legal_document list \<Rightarrow> ('w, (legal_document \<times> legal_version option) list) consent_effect" where
  "effective_versions d [] = returnE []"
| "effective_versions d (doc # docs) =
     thenE (governed_read d ''documents.currentEffectiveVersion'' (ld_id doc) (versions_currentEffective (ld_id doc) (gd_now d))) (\<lambda>v.
     thenE (effective_versions d docs) (\<lambda>rest. returnE ((doc, v) # rest)))"

definition listApplicableDocuments ::
  "governed_deps \<Rightarrow> consent_principal \<Rightarrow> string option \<Rightarrow> ('w, (legal_document \<times> legal_version option) list) consent_effect" where
  "listApplicableDocuments d p jurisdictionRef =
     thenE (directory_resolve d p) (\<lambda>entityId.
     thenE (scope_check jurisdictionRef) (\<lambda>u.
     thenE (governed_read d ''documents.listDocuments'' entityId (documents_list entityId jurisdictionRef)) (\<lambda>docs.
       effective_versions d docs)))"

section \<open>Content\<close>

record content_view =
  ct_documentId :: string
  ct_versionId :: string
  ct_version :: string
  ct_contentHash :: string
  ct_effectiveAt :: "string option"
  ct_language :: string
  ct_format :: content_format
  ct_content :: string

text \<open>
  \<open>GetLegalDocumentContent\<close>: the caller names a document, never a version.  \<open>digest\<close> is SHA-256 in hexadecimal; a source that
  throws is a fault of the call \<open>source.fetch\<close>.
\<close>

definition serve_content ::
  "governed_deps \<Rightarrow> (string \<Rightarrow> string) \<Rightarrow> legal_document \<Rightarrow> legal_version \<Rightarrow> document_content option \<Rightarrow> ('w, content_view) consent_effect" where
  "serve_content d digest doc v content = (case content of
     None \<Rightarrow> throwE (REFUSED (DOCUMENT_CONTENT_UNAVAILABLE (ld_id doc) NOT_RETRIEVABLE))
   | Some c \<Rightarrow>
       if blank (dc_language c) then throwE (REFUSED (DOCUMENT_CONTENT_UNAVAILABLE (ld_id doc) LANGUAGE_NOT_STATED))
       else if js_lower (digest (dc_content c)) \<noteq> js_lower (lv_contentHash v)
         then throwE (REFUSED (DOCUMENT_CONTENT_INTEGRITY_MISMATCH (ld_id doc) (lv_id v)))
       else returnE \<lparr>ct_documentId = ld_id doc, ct_versionId = lv_id v, ct_version = lv_version v, ct_contentHash = lv_contentHash v,
              ct_effectiveAt = map_option (gd_iso d) (lv_effectiveAt v), ct_language = dc_language c, ct_format = dc_format c,
              ct_content = dc_content c\<rparr>)"

definition getLegalDocumentContent ::
  "governed_deps \<Rightarrow> content_source \<Rightarrow> (string \<Rightarrow> string) \<Rightarrow> consent_principal \<Rightarrow> string \<Rightarrow> ('w, content_view) consent_effect" where
  "getLegalDocumentContent d source digest p documentId =
     thenE (directory_resolve d p) (\<lambda>entityId.
     thenE (governed_read d ''documents.findDocumentById'' documentId (documents_findById documentId)) (\<lambda>r.
     thenE (case r of None \<Rightarrow> returnE None
         | Some doc \<Rightarrow> governed_read d ''documents.currentEffectiveVersion'' (ld_id doc) (versions_currentEffective (ld_id doc) (gd_now d))) (\<lambda>version.
     thenE (found ''legal_document'' documentId (case r of None \<Rightarrow> None | Some doc \<Rightarrow> if ld_entityId doc \<noteq> entityId then None else Some doc)) (\<lambda>doc.
     case version of
       None \<Rightarrow> throwE (REFUSED (DOCUMENT_CONTENT_UNAVAILABLE (ld_id doc) NO_EFFECTIVE_VERSION))
     | Some v \<Rightarrow>
         thenE (governed_read d ''source.fetch'' (lv_id v) (\<lambda>w. Some (source_fetch source v))) (\<lambda>content.
           serve_content d digest doc v content)))))"

section \<open>Documents and versions\<close>

definition PUBLISH_DOCUMENT :: string where
  "PUBLISH_DOCUMENT = ''consent.document.publish''"

definition operator_entry ::
  "policy_principal_ref \<Rightarrow> string \<Rightarrow> string \<Rightarrow> string \<Rightarrow> string option \<Rightarrow> metadata option \<Rightarrow> metadata option \<Rightarrow> governed_entry" where
  "operator_entry who = consent_entry (pp_principalRef who) None"

record document_input =
  di_entityId :: string
  di_jurisdictionRef :: string
  di_purposeRefs :: "string list"
  di_kind :: string

fun require_texts :: "string \<Rightarrow> string list \<Rightarrow> ('w, 'r, unit) governed_effect" where
  "require_texts field [] = returnE ()"
| "require_texts field (x # xs) = thenE (require_text field x) (\<lambda>u. require_texts field xs)"

definition createLegalDocument ::
  "governed_deps \<Rightarrow> policy_principal_ref \<Rightarrow> document_input \<Rightarrow> ('w, legal_document) consent_effect" where
  "createLegalDocument d who i =
     thenE (require_that ''purposeRefs'' (di_purposeRefs i \<noteq> [])) (\<lambda>u.
     thenE (permit d who PUBLISH_DOCUMENT) (\<lambda>u.
     thenE (require_text ''OperatingEntityRef'' (di_entityId i)) (\<lambda>u.
     thenE (require_text ''JurisdictionRef'' (di_jurisdictionRef i)) (\<lambda>u.
     thenE (require_texts ''PurposeRef'' (di_purposeRefs i)) (\<lambda>u.
     thenE (require_text ''kind'' (di_kind i)) (\<lambda>u.
     let doc = \<lparr>ld_id = gd_nextId d, ld_entityId = di_entityId i, ld_jurisdictionRef = di_jurisdictionRef i,
                ld_purposeRefs = di_purposeRefs i, ld_kind = di_kind i, ld_createdAt = gd_now d\<rparr> in
     thenE (governed_write d ''documents.insertDocument'' (ld_id doc) (documents_insert doc)) (\<lambda>u.
     thenE (audited d (operator_entry who ''consent.document.created'' ''legal_document'' (ld_id doc) None None
         (Some [(''entityId'', JsString (ld_entityId doc)), (''jurisdictionRef'', JsString (ld_jurisdictionRef doc)),
                (''kind'', JsString (ld_kind doc)), (''purposeRefs'', JsString (joined (ld_purposeRefs doc)))]))) (\<lambda>u.
       returnE doc))))))))"

record draft_input =
  df_documentId :: string
  df_version :: string
  df_contentHash :: string
  df_storageRef :: string
  df_author :: string
  df_priorVersionId :: "string option"

definition new_version :: "governed_deps \<Rightarrow> draft_input \<Rightarrow> legal_version" where
  "new_version d i =
     \<lparr>lv_id = gd_nextId d, lv_documentId = df_documentId i, lv_version = df_version i, lv_contentHash = df_contentHash i,
      lv_storageRef = df_storageRef i, lv_classification = None, lv_author = df_author i, lv_reviewer = None, lv_reason = None,
      lv_effectiveAt = None, lv_publishedAt = None, lv_priorVersionId = df_priorVersionId i, lv_createdAt = gd_now d\<rparr>"

definition draftDocumentVersion ::
  "governed_deps \<Rightarrow> policy_principal_ref \<Rightarrow> draft_input \<Rightarrow> ('w, legal_version) consent_effect" where
  "draftDocumentVersion d who i =
     thenE (permit d who PUBLISH_DOCUMENT) (\<lambda>u.
     thenE (governed_read d ''documents.findDocumentById'' (df_documentId i) (documents_findById (df_documentId i))) (\<lambda>r.
     thenE (found ''legal_document'' (df_documentId i) r) (\<lambda>doc.
     thenE (require_text ''version'' (df_version i)) (\<lambda>u.
     thenE (require_text ''contentHash'' (df_contentHash i)) (\<lambda>u.
     thenE (require_text ''storageRef'' (df_storageRef i)) (\<lambda>u.
     thenE (require_text ''author'' (df_author i)) (\<lambda>u.
     let v = new_version d i in
     thenE (governed_write d ''documents.insertVersion'' (lv_id v) (versions_insert v)) (\<lambda>u.
     thenE (audited d (operator_entry who ''consent.document_version.drafted'' ''legal_document_version'' (lv_id v) None None
         (Some [(''documentId'', JsString (lv_documentId v)), (''version'', JsString (lv_version v)),
                (''contentHash'', JsString (lv_contentHash v))]))) (\<lambda>u.
       returnE v)))))))))"

definition classification_value :: "version_classification option \<Rightarrow> json_value" where
  "classification_value c = optional_value (map_option classification_text c)"

definition classifyDocumentVersion ::
  "governed_deps \<Rightarrow> policy_principal_ref \<Rightarrow> string \<Rightarrow> string \<Rightarrow> string \<Rightarrow> string \<Rightarrow> ('w, unit) consent_effect" where
  "classifyDocumentVersion d who versionId classification reviewer reason = (case classification_of classification of
     None \<Rightarrow> throwE (INVALID_INPUT ''classification'')
   | Some c \<Rightarrow>
       thenE (require_text ''reviewer'' reviewer) (\<lambda>u.
       thenE (require_text ''reason'' reason) (\<lambda>u.
       thenE (permit d who PUBLISH_DOCUMENT) (\<lambda>u.
       thenE (governed_read d ''documents.findVersionById'' versionId (versions_findById versionId)) (\<lambda>r.
       thenE (found ''legal_document_version'' versionId r) (\<lambda>v.
       thenE (refuse_if (if lv_publishedAt v \<noteq> None then Some (VERSION_IMMUTABLE (lv_id v)) else None)) (\<lambda>u.
       thenE (governed_write d ''documents.classifyVersion'' versionId (versions_classify versionId c reviewer reason)) (\<lambda>u.
         audited d (operator_entry who ''consent.document_version.classified'' ''legal_document_version'' versionId (Some reason)
           (Some [(''classification'', classification_value (lv_classification v))])
           (Some [(''classification'', JsString classification), (''reviewer'', JsString reviewer)]))))))))))"

definition publication_refusal :: "legal_version \<Rightarrow> consent_refusal option" where
  "publication_refusal v = (case versionMayPublish v of
     None \<Rightarrow> None
   | Some UNCLASSIFIED \<Rightarrow> Some (UNCLASSIFIED_PUBLICATION_BLOCKED (lv_id v))
   | Some ALREADY_PUBLISHED \<Rightarrow> Some (VERSION_IMMUTABLE (lv_id v)))"

definition publishDocumentVersion ::
  "governed_deps \<Rightarrow> policy_principal_ref \<Rightarrow> string \<Rightarrow> millis option \<Rightarrow> ('w, legal_version) consent_effect" where
  "publishDocumentVersion d who versionId effectiveAt =
     thenE (permit d who PUBLISH_DOCUMENT) (\<lambda>u.
     thenE (governed_read d ''documents.findVersionById'' versionId (versions_findById versionId)) (\<lambda>r.
     thenE (found ''legal_document_version'' versionId r) (\<lambda>v.
     thenE (refuse_if (publication_refusal v)) (\<lambda>u.
     let from = (case effectiveAt of None \<Rightarrow> gd_now d | Some t \<Rightarrow> t) in
     thenE (governed_write d ''documents.publishVersion'' versionId (versions_publish versionId from (gd_now d))) (\<lambda>u.
     thenE (audited d (operator_entry who ''consent.document_version.published'' ''legal_document_version'' versionId None
         (Some [(''publishedAt'', JsNull)])
         (Some [(''classification'', classification_value (lv_classification v)), (''effectiveAt'', JsString (gd_iso d from)),
                (''publishedAt'', JsString (gd_iso d (gd_now d)))]))) (\<lambda>u.
       returnE (v\<lparr>lv_effectiveAt := Some from, lv_publishedAt := Some (gd_now d)\<rparr>)))))))"

section \<open>Re-consent evaluations and processing bases\<close>

definition evaluation_refusal :: "legal_version \<Rightarrow> version_classification \<Rightarrow> consent_refusal option" where
  "evaluation_refusal v e = (case lv_classification v of
     None \<Rightarrow> Some (UNCLASSIFIED_PUBLICATION_BLOCKED (lv_id v))
   | Some c \<Rightarrow> if c \<noteq> e then Some (EVALUATION_MISMATCH (lv_id v) c e) else None)"

definition recordReconsentEvaluation ::
  "governed_deps \<Rightarrow> policy_principal_ref \<Rightarrow> string \<Rightarrow> string \<Rightarrow> string \<Rightarrow> string \<Rightarrow> ('w, reconsent_evaluation) consent_effect" where
  "recordReconsentEvaluation d who versionId purpose evaluation notes = (case classification_of evaluation of
     None \<Rightarrow> throwE (INVALID_INPUT ''evaluation'')
   | Some e \<Rightarrow>
       thenE (permit d who PUBLISH_DOCUMENT) (\<lambda>u.
       thenE (governed_read d ''documents.findVersionById'' versionId (versions_findById versionId)) (\<lambda>r.
       thenE (found ''legal_document_version'' versionId r) (\<lambda>v.
       thenE (refuse_if (evaluation_refusal v e)) (\<lambda>u.
       thenE (require_text ''PurposeRef'' purpose) (\<lambda>u.
       thenE (require_text ''affectedQueryNotes'' notes) (\<lambda>u.
       let row = \<lparr>rc_id = gd_nextId d, rc_legalDocumentVersionId = lv_id v, rc_purposeRef = purpose, rc_evaluation = e,
                  rc_evaluatedBy = pp_principalRef who, rc_evaluatedAt = gd_now d, rc_affectedQueryNotes = notes\<rparr> in
       thenE (governed_write d ''evaluations.insert'' (rc_id row) (evaluations_insert row)) (\<lambda>u.
       thenE (audited d (operator_entry who ''consent.reconsent.evaluated'' ''reconsent_evaluation'' (rc_id row) None None
           (Some [(''legalDocumentVersionId'', JsString (lv_id v)), (''purposeRef'', JsString purpose),
                  (''evaluation'', JsString evaluation)]))) (\<lambda>u.
         returnE row)))))))))"

definition declareProcessingBasisReference ::
  "governed_deps \<Rightarrow> policy_principal_ref \<Rightarrow> string \<Rightarrow> string \<Rightarrow> string \<Rightarrow> ('w, basis_reference) consent_effect" where
  "declareProcessingBasisReference d who purpose jurisdiction basisRef =
     thenE (permit d who PUBLISH_DOCUMENT) (\<lambda>u.
     thenE (require_text ''PurposeRef'' purpose) (\<lambda>u.
     thenE (require_text ''JurisdictionRef'' jurisdiction) (\<lambda>u.
     thenE (require_text ''basisRef'' basisRef) (\<lambda>u.
     let b = \<lparr>bs_id = gd_nextId d, bs_purposeRef = purpose, bs_jurisdictionRef = jurisdiction, bs_basisRef = basisRef\<rparr> in
     thenE (governed_write d ''bases.declare'' (bs_id b) (bases_declare b)) (\<lambda>u.
     thenE (audited d (operator_entry who ''consent.processing_basis.declared'' ''processing_basis_reference'' (bs_id b) None None
         (Some [(''purposeRef'', JsString purpose), (''jurisdictionRef'', JsString jurisdiction), (''basisRef'', JsString basisRef)]))) (\<lambda>u.
       returnE b))))))"

end
