(* ===== verification/Consent_Laws.thy ===== *)
theory Consent_Laws
  imports Consent Operating_Entity_Properties Tenancy_Laws
begin

text \<open>
  What the consent tables keep: documents, versions, grants and evaluations are evidence; every grant pins a published
  version of a document of its entity and jurisdiction that covers its purpose, and a subject has at most one active grant
  for an entity, a purpose and a jurisdiction.
\<close>

section \<open>Histories\<close>

definition version_history :: "legal_version \<Rightarrow> legal_version \<Rightarrow> bool" where
  "version_history old new \<longleftrightarrow>
     new\<lparr>lv_classification := lv_classification old, lv_reviewer := lv_reviewer old, lv_reason := lv_reason old,
         lv_effectiveAt := lv_effectiveAt old, lv_publishedAt := lv_publishedAt old\<rparr> = old
     \<and> (lv_publishedAt old \<noteq> None \<longrightarrow> new = old) \<and> (new = old \<or> version_checks new)"

definition grant_history :: "grant_row \<Rightarrow> grant_row \<Rightarrow> bool" where
  "grant_history old new \<longleftrightarrow> new = old \<or> grant_guard old new"

interpretation versions_table: evidence_table lv_id version_history
proof
  fix r s t
  show "version_history r r" by (simp add: version_history_def)
  show "version_history r t" if "version_history r s" "version_history s t"
    using that unfolding version_history_def by (cases r; cases s; cases t) auto
  show "version_history r s \<Longrightarrow> lv_id s = lv_id r" unfolding version_history_def by (cases r; cases s) simp
qed

interpretation grants_table: evidence_table cg_id grant_history
proof
  fix r s t
  show "grant_history r r" by (simp add: grant_history_def)
  show "grant_history r s \<Longrightarrow> grant_history s t \<Longrightarrow> grant_history r t" unfolding grant_history_def grant_guard_def by auto
  show "grant_history r s \<Longrightarrow> cg_id s = cg_id r" unfolding grant_history_def grant_guard_def by (cases r; cases s) auto
qed

interpretation documents_table: evidence_table ld_id "(=)"
  by unfold_locales auto

interpretation evaluations_table: evidence_table rc_id "(=)"
  by unfold_locales auto

definition consent_keeps :: "'w consent_world_scheme \<Rightarrow> 'w consent_world_scheme \<Rightarrow> bool" where
  "consent_keeps w w' \<longleftrightarrow> table_history ld_id (=) (cw_documents w) (cw_documents w')
     \<and> table_history lv_id version_history (cw_versions w) (cw_versions w')
     \<and> table_history cg_id grant_history (cw_grants w) (cw_grants w')
     \<and> table_history rc_id (=) (cw_evaluations w) (cw_evaluations w')"

lemmas consent_refl = documents_table.table_refl versions_table.table_refl grants_table.table_refl evaluations_table.table_refl

lemma consent_keeps_refl [simp]: "consent_keeps w w"
  by (simp add: consent_keeps_def consent_refl entity_world.truncate_def)

lemma consent_keeps_trans: "consent_keeps a b \<Longrightarrow> consent_keeps b c \<Longrightarrow> consent_keeps a c"
  unfolding consent_keeps_def
  using documents_table.table_trans versions_table.table_trans grants_table.table_trans evaluations_table.table_trans
  by (auto simp: entity_world.truncate_def)

section \<open>Soundness of the grants\<close>

text \<open>What a grant pins.\<close>

definition grant_pins :: "'w consent_world_scheme \<Rightarrow> grant_row \<Rightarrow> legal_version \<Rightarrow> legal_document \<Rightarrow> bool" where
  "grant_pins w g v doc \<longleftrightarrow> v \<in> set (cw_versions w) \<and> doc \<in> set (cw_documents w)
     \<and> cg_legalDocumentVersionId g = lv_id v \<and> cg_consentVersion g = lv_version v \<and> lv_publishedAt v \<noteq> None \<and> lv_classification v \<noteq> None
     \<and> lv_documentId v = ld_id doc \<and> cg_operatingEntityId g = ld_entityId doc \<and> cg_jurisdictionRef g = ld_jurisdictionRef doc
     \<and> documentCoversPurpose doc (cg_purposeRef g)"

definition rivals :: "grant_row \<Rightarrow> grant_row \<Rightarrow> bool" where
  "rivals a b \<longleftrightarrow> cg_status a = GRANT_ACTIVE \<and> cg_status b = GRANT_ACTIVE \<and> cg_userId a = cg_userId b \<and> cg_tenantId a = cg_tenantId b
     \<and> cg_operatingEntityId a = cg_operatingEntityId b \<and> cg_purposeRef a = cg_purposeRef b \<and> cg_jurisdictionRef a = cg_jurisdictionRef b"

definition consent_wf :: "'w consent_world_scheme \<Rightarrow> bool" where
  "consent_wf w \<longleftrightarrow> keyed ld_id (cw_documents w) \<and> keyed lv_id (cw_versions w) \<and> keyed cg_id (cw_grants w)
     \<and> keyed rc_id (cw_evaluations w)
     \<and> (\<forall>doc \<in> set (cw_documents w). pg_uuid (ld_entityId doc) = ld_entityId doc)
     \<and> (\<forall>v \<in> set (cw_versions w). version_checks v \<and> pg_uuid (lv_documentId v) = lv_documentId v)
     \<and> (\<forall>g \<in> set (cw_grants w). \<exists>v doc. grant_pins w g v doc)
     \<and> (\<forall>a \<in> set (cw_grants w). \<forall>b \<in> set (cw_grants w). rivals a b \<longrightarrow> a = b)"

lemma find_by_id_own: "keyed key rows \<Longrightarrow> r \<in> set rows \<Longrightarrow> isUuid (key r) \<Longrightarrow> find_by_id key (key r) rows = Some (Some r)"
  using find_distinct_key [of key rows r] by (auto simp: find_by_id_def keyed_def)


section \<open>Every use case keeps the tables and their soundness\<close>

definition consent_sound :: "'w consent_world_scheme \<Rightarrow> 'w consent_world_scheme \<Rightarrow> bool" where
  "consent_sound w w' \<longleftrightarrow> consent_keeps w w' \<and> (consent_wf w \<longrightarrow> consent_wf w')"

interpretation consent_runs: step_relation consent_sound
  by unfold_locales (auto simp: consent_sound_def intro: consent_keeps_trans)

text \<open>Only the audit table changes.\<close>

lemma audit_sound [simp]: "consent_sound w (w\<lparr>gw_audit := es\<rparr>)"
  by (simp add: consent_sound_def consent_keeps_def consent_refl consent_wf_def grant_pins_def entity_world.truncate_def)

lemma consent_sound_refl [simp]: "consent_sound w w"
  by (rule consent_runs.step_refl)

lemma consent_checks:
  "always consent_sound (require_text f v)" "always consent_sound (require_optional f o')" "always consent_sound (require_that f b)"
  "always consent_sound (permit d who p)" "always consent_sound (found res i r)" "always consent_sound (refuse_if e)"
  "always consent_sound (governed_read d c i g)"
  by (simp_all add: always_def)

lemma consent_texts: "always consent_sound (require_texts f xs)"
  by (induction xs) (simp_all only: require_texts.simps, (intro consent_runs.always_intros consent_checks)+)

lemma consent_audited: "always consent_sound (audited d e :: ('w, unit) consent_effect)"
  unfolding always_def
proof
  fix w :: "'w consent_world_scheme"
  obtain es where "snd ((audited d e :: ('w, unit) consent_effect) w) = w\<lparr>gw_audit := gw_audit w @ es\<rparr>"
    using audited_world by blast
  then show "consent_sound w (snd ((audited d e :: ('w, unit) consent_effect) w))" by simp
qed

lemma consent_write:
  assumes "\<And>w x w'. f w = Some (x, w') \<Longrightarrow> consent_sound w w'"
  shows "always consent_sound (governed_write d c i f)"
  using assms by (auto simp: always_def governed_write_def split: option.splits)

lemmas consent_always = consent_checks consent_texts consent_audited consent_runs.always_intros

text \<open>The inserts of documents, versions and evaluations, and the declaration of a basis.\<close>

lemma keyed_append: "keyed key (rows @ [r]) \<longleftrightarrow> keyed key rows \<and> key r \<notin> key ` set rows \<and> pg_uuid (key r) = key r"
  by (auto simp: keyed_def)

lemma truncate_tables [simp]:
  "entity_world.truncate (w\<lparr>cw_documents := a\<rparr>) = entity_world.truncate w" "entity_world.truncate (w\<lparr>cw_versions := b\<rparr>) = entity_world.truncate w"
  "entity_world.truncate (w\<lparr>cw_grants := c\<rparr>) = entity_world.truncate w" "entity_world.truncate (w\<lparr>cw_evaluations := e\<rparr>) = entity_world.truncate w"
  "entity_world.truncate (w\<lparr>cw_bases := f\<rparr>) = entity_world.truncate w" "(entity_world.truncate w)\<lparr>gw_audit := gw_audit w\<rparr> = entity_world.truncate w"
  by (simp_all add: entity_world.truncate_def)

lemma documents_insert_sound: "documents_insert d w = Some (u, w') \<Longrightarrow> consent_sound w w'"
proof -
  assume a: "documents_insert d w = Some (u, w')"
  let ?row = "d\<lparr>ld_id := pg_uuid (ld_id d), ld_entityId := pg_uuid (ld_entityId d)\<rparr>"
  have c: "create_row document_conflicts ?row (cw_documents w) = Some (cw_documents w')"
    "w' = w\<lparr>cw_documents := cw_documents w @ [?row]\<rparr>"
    using a by (auto simp: documents_insert_def Let_def create_row_iff split: if_splits)
  have "table_history ld_id (=) (cw_documents w) (cw_documents w')"
    by (rule documents_table.table_create [OF c(1)]) (auto simp: document_conflicts_def)
  then have k: "consent_keeps w w'" using c(2) by (simp add: consent_keeps_def consent_refl)
  have "keyed ld_id (cw_documents w) \<Longrightarrow> keyed ld_id (cw_documents w')" using k by (simp add: consent_keeps_def table_history_def)
  moreover have "grant_pins w g v doc \<Longrightarrow> grant_pins w' g v doc" for g v doc using c(2) by (simp add: grant_pins_def)
  ultimately show ?thesis using k unfolding consent_sound_def consent_wf_def c(2) by (simp add: Ball_def) blast
qed

lemma versions_insert_sound: "versions_insert v w = Some (u, w') \<Longrightarrow> consent_sound w w'"
proof -
  assume a: "versions_insert v w = Some (u, w')"
  let ?row = "v\<lparr>lv_id := pg_uuid (lv_id v), lv_documentId := pg_uuid (lv_documentId v), lv_priorVersionId := map_option pg_uuid (lv_priorVersionId v)\<rparr>"
  have c: "create_row version_conflicts ?row (cw_versions w) = Some (cw_versions w')" "version_checks ?row"
    "w' = w\<lparr>cw_versions := cw_versions w @ [?row]\<rparr>"
    using a by (auto simp: versions_insert_def Let_def create_row_iff split: if_splits)
  have "table_history lv_id version_history (cw_versions w) (cw_versions w')"
    by (rule versions_table.table_create [OF c(1)]) (auto simp: version_conflicts_def)
  then have k: "consent_keeps w w'" using c(3) by (simp add: consent_keeps_def consent_refl)
  have "keyed lv_id (cw_versions w) \<Longrightarrow> keyed lv_id (cw_versions w')" using k by (simp add: consent_keeps_def table_history_def)
  moreover have "grant_pins w g v doc \<Longrightarrow> grant_pins w' g v doc" for g v doc using c(3) by (simp add: grant_pins_def)
  ultimately show ?thesis using k c(2) unfolding consent_sound_def consent_wf_def c(3) by (simp add: Ball_def) blast
qed

lemma pins_other [simp]:
  "grant_pins (w\<lparr>cw_evaluations := e\<rparr>) = grant_pins w" "grant_pins (w\<lparr>cw_bases := b\<rparr>) = grant_pins w"
  "grant_pins (w\<lparr>cw_grants := g\<rparr>) = grant_pins w" "grant_pins (w\<lparr>gw_audit := a\<rparr>) = grant_pins w"
  by (simp_all add: grant_pins_def fun_eq_iff)

lemma evaluations_insert_sound: "evaluations_insert e w = Some (u, w') \<Longrightarrow> consent_sound w w'"
proof -
  assume a: "evaluations_insert e w = Some (u, w')"
  let ?row = "e\<lparr>rc_id := pg_uuid (rc_id e), rc_legalDocumentVersionId := pg_uuid (rc_legalDocumentVersionId e)\<rparr>"
  have c: "create_row evaluation_conflicts ?row (cw_evaluations w) = Some (cw_evaluations w')"
    "w' = w\<lparr>cw_evaluations := cw_evaluations w @ [?row]\<rparr>"
    using a by (auto simp: evaluations_insert_def Let_def create_row_iff split: if_splits)
  have "table_history rc_id (=) (cw_evaluations w) (cw_evaluations w')"
    by (rule evaluations_table.table_create [OF c(1)]) (auto simp: evaluation_conflicts_def)
  then have k: "consent_keeps w w'" using c(2) by (simp add: consent_keeps_def consent_refl)
  have "keyed rc_id (cw_evaluations w) \<Longrightarrow> keyed rc_id (cw_evaluations w')" using k by (simp add: consent_keeps_def table_history_def)
  then show ?thesis using k unfolding consent_sound_def consent_wf_def c(2) by simp
qed

lemma bases_declare_sound: "bases_declare b w = Some (u, w') \<Longrightarrow> consent_sound w w'"
proof -
  assume "bases_declare b w = Some (u, w')"
  then obtain rows where "w' = w\<lparr>cw_bases := rows\<rparr>" by (auto simp: bases_declare_def Let_def split: if_splits)
  then show ?thesis by (simp add: consent_sound_def consent_keeps_def consent_refl consent_wf_def grant_pins_def)
qed


section \<open>Versions: only an unpublished one changes\<close>

lemma versions_update_sound:
  assumes "versions_update i f w = Some (u, w')"
  shows "consent_sound w w'"
proof -
  let ?g = "\<lambda>old new. version_checks new \<and> version_guard old new"
  obtain rows where up: "update_by_id lv_id ?g i f (cw_versions w) = Some rows" and w': "w' = w\<lparr>cw_versions := rows\<rparr>"
    using assms by (auto simp: versions_update_def)
  have "table_history lv_id version_history (cw_versions w) rows"
    by (rule versions_table.table_update [OF up]) (auto simp: version_history_def version_guard_def)
  then have k: "consent_keeps w w'" unfolding w' by (simp add: consent_keeps_def consent_refl)
  have "consent_wf w'" if wf: "consent_wf w"
  proof -
    obtain m where m: "find_by_id lv_id i (cw_versions w) = Some (Some m)" "?g m (f m)"
      "rows = map (\<lambda>x. if lv_id x = pg_uuid i then f x else x) (cw_versions w)" by (rule update_by_id_Some [OF up])
    have mem: "m \<in> set (cw_versions w)" "lv_id m = pg_uuid i" using find_by_id_Some [OF m(1)] by simp_all
    have kd: "keyed lv_id (cw_versions w)" "keyed lv_id rows"
      using wf k unfolding consent_wf_def consent_keeps_def table_history_def w' by simp_all
    have only: "x = m" if "x \<in> set (cw_versions w)" "lv_id x = pg_uuid i" for x
      using kd(1) that mem unfolding keyed_def distinct_map inj_on_def by metis
    have doc: "lv_documentId (f m) = lv_documentId m" "lv_publishedAt m = None"
      using m(2) by (auto simp: version_guard_def) (cases "f m"; cases m; simp)
    have "v \<in> set rows" if "v \<in> set (cw_versions w)" "lv_publishedAt v \<noteq> None" for v
      using that only doc(2) unfolding m(3) by force
    then have pins: "grant_pins w g v doc \<Longrightarrow> grant_pins w' g v doc" for g v doc unfolding w' by (simp add: grant_pins_def)
    have rows: "version_checks v \<and> pg_uuid (lv_documentId v) = lv_documentId v" if new: "v \<in> set rows" for v
    proof -
      obtain x where x: "x \<in> set (cw_versions w)" "v = (if lv_id x = pg_uuid i then f x else x)"
        using new unfolding m(3) set_map by blast
      show ?thesis
      proof (cases "lv_id x = pg_uuid i")
        case True
        then show ?thesis using only [OF x(1)] x m(2) doc(1) mem wf unfolding consent_wf_def by simp
      next
        case False then show ?thesis using x wf unfolding consent_wf_def by simp
      qed
    qed
    have g: "\<exists>v doc. grant_pins w' g v doc" if "g \<in> set (cw_grants w)" for g
      using wf that pins unfolding consent_wf_def by blast
    show ?thesis using wf kd(2) rows g unfolding consent_wf_def w' by simp
  qed
  then show ?thesis using k by (simp add: consent_sound_def)
qed

section \<open>Grants\<close>

text \<open>Rows that are old ones, or old ones closed, keep their pins and gain no rival.\<close>

lemma closed_rows:
  assumes "consent_wf w" "\<forall>r' \<in> set rows. r' \<in> set (cw_grants w) \<or> (\<exists>r \<in> set (cw_grants w). grant_guard r r')"
  shows "\<forall>g \<in> set rows. \<exists>v doc. grant_pins w g v doc" "\<forall>a \<in> set rows. \<forall>b \<in> set rows. rivals a b \<longrightarrow> a = b"
    "\<forall>a \<in> set rows. cg_status a = GRANT_ACTIVE \<longrightarrow> a \<in> set (cw_grants w)"
proof -
  have same: "grant_pins w s = grant_pins w r" if "grant_guard r s" for r s
    using that by (cases r; cases s) (simp add: grant_guard_def grant_pins_def fun_eq_iff)
  show "\<forall>g \<in> set rows. \<exists>v doc. grant_pins w g v doc"
    using assms same unfolding consent_wf_def by metis
  show active: "\<forall>a \<in> set rows. cg_status a = GRANT_ACTIVE \<longrightarrow> a \<in> set (cw_grants w)"
    using assms(2) by (auto simp: grant_guard_def)
  show "\<forall>a \<in> set rows. \<forall>b \<in> set rows. rivals a b \<longrightarrow> a = b"
    using assms(1) active unfolding consent_wf_def rivals_def by blast
qed

lemma grants_withdraw_rows:
  assumes "grants_withdraw p i at w = Some (u, w')"
  obtains m v where "validateContext \<lparr>pc_tenantId = Some (cp_tenantId p), pc_userId = Some (cp_userId p), pc_sessionId = None, pc_requestId = None\<rparr>
      DEFAULT_REQUIRED_CONTEXT = Inr v"
    "find_by_id cg_id i (cw_grants w) = Some (Some m)" "grant_visible v m" "grant_guard m (withdrawn_at at m)"
    "update_by_id cg_id (\<lambda>old new. grant_visible v old \<and> grant_checks new \<and> grant_guard old new) i (withdrawn_at at) (cw_grants w) = Some (cw_grants w')"
    "w' = w\<lparr>cw_grants := map (\<lambda>x. if cg_id x = pg_uuid i then withdrawn_at at x else x) (cw_grants w)\<rparr>"
proof -
  obtain v rows where v: "validateContext \<lparr>pc_tenantId = Some (cp_tenantId p), pc_userId = Some (cp_userId p), pc_sessionId = None, pc_requestId = None\<rparr>
      DEFAULT_REQUIRED_CONTEXT = Inr v"
    and up: "update_by_id cg_id (\<lambda>old new. grant_visible v old \<and> grant_checks new \<and> grant_guard old new) i (withdrawn_at at) (cw_grants w) = Some rows"
    and w': "w' = w\<lparr>cw_grants := rows\<rparr>"
    using assms unfolding grants_withdraw_def in_subject_def in_context_Some by auto
  obtain m where "find_by_id cg_id i (cw_grants w) = Some (Some m)"
    "grant_visible v m \<and> grant_checks (withdrawn_at at m) \<and> grant_guard m (withdrawn_at at m)"
    "rows = map (\<lambda>x. if cg_id x = pg_uuid i then withdrawn_at at x else x) (cw_grants w)" by (rule update_by_id_Some [OF up])
  then show ?thesis using that [of v m] v up w' by simp
qed

lemma grants_withdraw_sound:
  assumes "grants_withdraw p i at w = Some (u, w')"
  shows "consent_sound w w'"
proof (rule grants_withdraw_rows [OF assms])
  fix m v
  assume m: "find_by_id cg_id i (cw_grants w) = Some (Some m)" "grant_guard m (withdrawn_at at m)"
    and up: "update_by_id cg_id (\<lambda>old new. grant_visible v old \<and> grant_checks new \<and> grant_guard old new) i (withdrawn_at at) (cw_grants w) = Some (cw_grants w')"
    and w': "w' = w\<lparr>cw_grants := map (\<lambda>x. if cg_id x = pg_uuid i then withdrawn_at at x else x) (cw_grants w)\<rparr>"
  have "table_history cg_id grant_history (cw_grants w) (cw_grants w')"
    by (rule grants_table.table_update [OF up]) (auto simp: grant_history_def)
  then have k: "consent_keeps w w'" using w' by (simp add: consent_keeps_def consent_refl)
  have "consent_wf w'" if wf: "consent_wf w"
  proof -
    have kd: "keyed cg_id (cw_grants w)" "keyed cg_id (cw_grants w')"
      using wf k unfolding consent_wf_def consent_keeps_def table_history_def by simp_all
    have mem: "m \<in> set (cw_grants w)" "cg_id m = pg_uuid i" using find_by_id_Some [OF m(1)] by simp_all
    have "x = m" if "x \<in> set (cw_grants w)" "cg_id x = pg_uuid i" for x
      using kd(1) that mem unfolding keyed_def distinct_map inj_on_def by metis
    then have rows: "\<forall>r' \<in> set (cw_grants w'). r' \<in> set (cw_grants w) \<or> (\<exists>r \<in> set (cw_grants w). grant_guard r r')"
      using m(2) unfolding w' by auto
    show ?thesis using wf kd(2) closed_rows(1,2) [OF wf rows] unfolding consent_wf_def by (simp add: w')
  qed
  then show ?thesis using k by (simp add: consent_sound_def)
qed


lemma stored_grant_fields [simp]:
  "cg_id (stored_grant at g) = pg_uuid (cg_id g)" "cg_userId (stored_grant at g) = pg_uuid (cg_userId g)"
  "cg_tenantId (stored_grant at g) = pg_uuid (cg_tenantId g)" "cg_operatingEntityId (stored_grant at g) = pg_uuid (cg_operatingEntityId g)"
  "cg_legalDocumentVersionId (stored_grant at g) = pg_uuid (cg_legalDocumentVersionId g)" "cg_purposeRef (stored_grant at g) = cg_purposeRef g"
  "cg_jurisdictionRef (stored_grant at g) = cg_jurisdictionRef g" "cg_status (stored_grant at g) = cg_status g"
  "cg_consentVersion (stored_grant at g) = cg_consentVersion g" "cg_grantedAt (stored_grant at g) = cg_grantedAt g"
  "gr_createdAt (stored_grant at g) = at"
  by (simp_all add: stored_grant_def consent_grant.extend_def grant_row.fields_def)

definition outgoing :: "consent_principal \<Rightarrow> consent_grant \<Rightarrow> grant_row \<Rightarrow> bool" where
  "outgoing p g r \<longleftrightarrow> own_grant p r \<and> cg_status r = GRANT_ACTIVE
     \<and> same_triple (cg_operatingEntityId g) (cg_purposeRef g) (cg_jurisdictionRef g) r"

abbreviation subject_context :: "consent_principal \<Rightarrow> principal_context" where
  "subject_context p \<equiv> \<lparr>pc_tenantId = Some (cp_tenantId p), pc_userId = Some (cp_userId p), pc_sessionId = None, pc_requestId = None\<rparr>"

lemma subject_bound:
  assumes "validateContext (subject_context p) DEFAULT_REQUIRED_CONTEXT = Inr v"
  shows "grant_visible v g \<longleftrightarrow> own_grant p g"
proof -
  have "invalid_keys (subject_context p) = []" using validateContext_Inr [OF assms] by blast
  then have "bound_tenant v = Some (pg_uuid (cp_tenantId p))" "bound_user v = Some (pg_uuid (cp_userId p))"
    using bound_of_context(1,2) [OF assms] by simp_all
  then show ?thesis by (auto simp: grant_visible_def own_grant_def)
qed

lemma in_subject_Some:
  "in_subject p body = Some x \<longleftrightarrow> (\<exists>v. validateContext (subject_context p) DEFAULT_REQUIRED_CONTEXT = Inr v \<and> body v = Some x)"
  by (simp add: in_subject_def in_context_Some)

lemma acceptance_rows:
  assumes "grants_recordAcceptance at [] p g w = Some (ids, w')" "keyed cg_id (cw_grants w)"
  shows "w' = w\<lparr>cw_grants := map (\<lambda>r. if outgoing p g r then superseded r else r) (cw_grants w) @ [stored_grant at g]\<rparr>"
    "\<forall>r \<in> set (cw_grants w). outgoing p g r \<longrightarrow> grant_guard r (superseded r)" "own_grant p (stored_grant at g)"
    "known_version w (pg_uuid (cg_legalDocumentVersionId g))" "pg_uuid (cg_id g) \<notin> cg_id ` set (cw_grants w)"
proof -
  obtain v where v: "validateContext (subject_context p) DEFAULT_REQUIRED_CONTEXT = Inr v"
    using assms(1) unfolding grants_recordAcceptance_def in_subject_Some by blast
  define out where "out = map cg_id (filter (outgoing p g) (cw_grants w))"
  let ?rows = "map (\<lambda>r. if own_grant p r \<and> cg_id r \<in> set out then superseded r else r) (cw_grants w)"
  have og: "outgoing p g = (\<lambda>r. own_grant p r \<and> cg_status r = GRANT_ACTIVE
      \<and> same_triple (cg_operatingEntityId g) (cg_purposeRef g) (cg_jurisdictionRef g) r)"
    by (simp add: outgoing_def fun_eq_iff)
  have body: "\<not> list_ex (\<lambda>r. own_grant p r \<and> cg_id r \<in> set out \<and> \<not> (grant_checks (superseded r) \<and> grant_guard r (superseded r))) (cw_grants w)"
    "own_grant p (stored_grant at g)" "known_version w (pg_uuid (cg_legalDocumentVersionId g))"
    "create_row (same_id cg_id) (stored_grant at g) ?rows = Some (cw_grants w')"
    "w' = w\<lparr>cw_grants := ?rows @ [stored_grant at g]\<rparr>"
    using assms(1) unfolding grants_recordAcceptance_def in_subject_Some out_def og
    by (auto simp: v Let_def subject_bound [OF v] create_row_iff split: if_splits)
  have out: "own_grant p r \<and> cg_id r \<in> set out \<longleftrightarrow> outgoing p g r" if r: "r \<in> set (cw_grants w)" for r
  proof
    show "outgoing p g r \<Longrightarrow> own_grant p r \<and> cg_id r \<in> set out" using r by (auto simp: outgoing_def out_def)
    assume "own_grant p r \<and> cg_id r \<in> set out"
    then obtain s where "s \<in> set (cw_grants w)" "outgoing p g s" "cg_id s = cg_id r" by (auto simp: out_def)
    then show "outgoing p g r" using assms(2) r unfolding keyed_def distinct_map inj_on_def by metis
  qed
  have rows: "?rows = map (\<lambda>r. if outgoing p g r then superseded r else r) (cw_grants w)"
    by (rule map_cong) (simp_all add: out)
  show "w' = w\<lparr>cw_grants := map (\<lambda>r. if outgoing p g r then superseded r else r) (cw_grants w) @ [stored_grant at g]\<rparr>"
    using body(5) unfolding rows .
  show "\<forall>r \<in> set (cw_grants w). outgoing p g r \<longrightarrow> grant_guard r (superseded r)"
    using body(1) out by (auto simp: list_ex_iff)
  show "own_grant p (stored_grant at g)" "known_version w (pg_uuid (cg_legalDocumentVersionId g))" by (rule body)+
  have "map cg_id ?rows = map cg_id (cw_grants w)" by (simp add: superseded_def)
  then have "cg_id ` set ?rows = cg_id ` set (cw_grants w)" by (metis list.set_map)
  then show "pg_uuid (cg_id g) \<notin> cg_id ` set (cw_grants w)"
    using body(4) unfolding create_row_iff same_id_def by (metis (no_types, lifting) imageE stored_grant_fields(1))
qed


lemma acceptance_touches_grants: "grants_recordAcceptance at raced p g w = Some (ids, w') \<Longrightarrow> \<exists>rows. w' = w\<lparr>cw_grants := rows\<rparr>"
  unfolding grants_recordAcceptance_def in_subject_Some by (auto simp: Let_def split: if_splits)

lemma acceptance_keeps:
  assumes "grants_recordAcceptance at [] p g w = Some (ids, w')"
  shows "consent_keeps w w'"
proof -
  obtain rows where w': "w' = w\<lparr>cw_grants := rows\<rparr>" using acceptance_touches_grants [OF assms] by blast
  have "table_history cg_id grant_history (cw_grants w) rows" unfolding table_history_def
  proof (intro impI conjI)
    assume k: "keyed cg_id (cw_grants w)"
    note a = acceptance_rows [OF assms k]
    have rows: "rows = map (\<lambda>r. if outgoing p g r then superseded r else r) (cw_grants w) @ [stored_grant at g]"
      using arg_cong [OF a(1), where f = cw_grants] w' by simp
    have ids: "map cg_id (map (\<lambda>r. if outgoing p g r then superseded r else r) (cw_grants w)) = map cg_id (cw_grants w)"
      by (simp add: superseded_def)
    show "keyed cg_id rows" unfolding rows keyed_append
      using k a(5) ids unfolding keyed_def by (metis (no_types, lifting) imageE image_eqI list.set_map pg_uuid_idem stored_grant_fields(1))
    have "list_all2 grant_history (cw_grants w) (map (\<lambda>r. if outgoing p g r then superseded r else r) (cw_grants w))"
      using a(2) by (auto simp: list_all2_map2 grant_history_def intro!: list.rel_refl_strong)
    then show "\<exists>changed more. rows = changed @ more \<and> list_all2 grant_history (cw_grants w) changed" unfolding rows by blast
  qed
  then show ?thesis unfolding w' by (simp add: consent_keeps_def consent_refl)
qed

lemma pins_one: "grant_pins w g v doc \<Longrightarrow> cg_legalDocumentVersionId g = lv_id v"
  by (simp add: grant_pins_def)

text \<open>An acceptance of a published version under a document that covers the purpose keeps the grants sound.\<close>

lemma acceptance_sound:
  assumes acc: "grants_recordAcceptance (gd_dbNow d) [] p (new_grant d p i version doc) w = Some (ids, w')"
    and mem: "version \<in> set (cw_versions w)" "doc \<in> set (cw_documents w)" "ld_id doc = pg_uuid (lv_documentId version)"
    and ok: "acceptance_refusal version doc (ac_purposeRef i) = None"
  shows "consent_sound w w'"
proof -
  let ?g = "new_grant d p i version doc" and ?f = "\<lambda>r. if outgoing p (new_grant d p i version doc) r then superseded r else r"
  have "consent_wf w'" if wf: "consent_wf w"
  proof -
    have kd: "keyed cg_id (cw_grants w)" "keyed cg_id (cw_grants w')"
      using wf acceptance_keeps [OF acc] unfolding consent_wf_def consent_keeps_def table_history_def by simp_all
    note a = acceptance_rows [OF acc kd(1)]
    have canon: "pg_uuid (ld_entityId doc) = ld_entityId doc" "pg_uuid (lv_id version) = lv_id version" "version_checks version"
      "pg_uuid (lv_documentId version) = lv_documentId version"
      using wf mem unfolding consent_wf_def keyed_def by auto
    have "lv_publishedAt version \<noteq> None" "documentCoversPurpose doc (ac_purposeRef i)"
      using ok by (auto simp: acceptance_refusal_def split: if_splits)
    then have pin: "grant_pins w (stored_grant (gd_dbNow d) ?g) version doc"
      using mem canon unfolding grant_pins_def by (auto simp: new_grant_def version_checks_def)
    have rows: "\<forall>r' \<in> set (map ?f (cw_grants w)). r' \<in> set (cw_grants w) \<or> (\<exists>r \<in> set (cw_grants w). grant_guard r r')"
      using a(2) by auto
    note closed = closed_rows [OF wf rows]
    have no_rival: "\<not> rivals r (stored_grant (gd_dbNow d) ?g) \<and> \<not> rivals (stored_grant (gd_dbNow d) ?g) r" if r: "r \<in> set (map ?f (cw_grants w))" for r
    proof -
      obtain q where q: "q \<in> set (cw_grants w)" "r = ?f q" using r unfolding set_map by blast
      show ?thesis
      proof (cases "outgoing p ?g q")
        case True then show ?thesis using q by (simp add: rivals_def superseded_def)
      next
        case False
        then show ?thesis using q a(3) by (auto simp: rivals_def outgoing_def own_grant_def same_triple_def)
      qed
    qed
    define old where "old = set (map ?f (cw_grants w))"
    have new: "set (cw_grants w') = insert (stored_grant (gd_dbNow d) ?g) old" unfolding old_def by (simp add: a(1))
    have "grant_pins w' = grant_pins w" by (simp add: a(1))
    then have "\<forall>g \<in> set (cw_grants w'). \<exists>v doc. grant_pins w' g v doc"
      using closed(1) pin unfolding new old_def [symmetric] by (metis insertE)
    moreover have "\<forall>x \<in> set (cw_grants w'). \<forall>y \<in> set (cw_grants w'). rivals x y \<longrightarrow> x = y"
    proof (intro ballI impI)
      fix x y assume xy: "x \<in> set (cw_grants w')" "y \<in> set (cw_grants w')" "rivals x y"
      then consider "x \<in> old" "y \<in> old" | "x = stored_grant (gd_dbNow d) ?g" "y = stored_grant (gd_dbNow d) ?g"
        | "x \<in> old" "y = stored_grant (gd_dbNow d) ?g" | "x = stored_grant (gd_dbNow d) ?g" "y \<in> old" unfolding new by blast
      then show "x = y"
      proof cases
        case 1 then show ?thesis using closed(2) xy(3) unfolding old_def by blast
      next
        case 3 then show ?thesis using no_rival xy(3) unfolding old_def by blast
      next
        case 4 then show ?thesis using no_rival xy(3) unfolding old_def by blast
      qed simp
    qed
    moreover have "cw_documents w' = cw_documents w" "cw_versions w' = cw_versions w" "cw_evaluations w' = cw_evaluations w"
      by (simp_all add: a(1))
    ultimately show ?thesis using wf kd(2) unfolding consent_wf_def by simp
  qed
  then show ?thesis using acceptance_keeps [OF acc] by (simp add: consent_sound_def)
qed


section \<open>The use cases\<close>

lemma resolve_keeps: "snd (resolveEffectiveOperatingEntity d t u at w) = w"
  by (auto simp: resolveEffectiveOperatingEntity_def Let_def thenE_def governed_read_def split: option.splits prod.splits sum.splits)

lemma directory_keeps [simp]: "snd (directory_resolve d p w) = w"
proof -
  have "snd (directory_resolve d p w) = snd (resolveEffectiveOperatingEntity d (cp_tenantId p) (Some (cp_userId p)) (gd_now d) w)"
    unfolding directory_resolve_def by (simp split: prod.split sum.split governed_error.split entity_refusal.split)
  then show ?thesis by (simp add: resolve_keeps)
qed

lemma then_sound:
  assumes "snd (m w) = w" "\<And>x. m w = (Inr x, w) \<Longrightarrow> consent_sound w (snd (k x w))"
  shows "consent_sound w (snd (thenE m k w))"
proof -
  obtain r where r: "m w = (r, w)" using assms(1) by (metis prod.collapse)
  show ?thesis by (cases r) (use assms(2) r in \<open>simp_all add: thenE_def\<close>)
qed

lemma then_write_sound:
  assumes "\<And>x w'. f w = Some (x, w') \<Longrightarrow> consent_sound w w'" "\<And>x. always consent_sound (k x)"
  shows "consent_sound w (snd (thenE (governed_write d c i f) k w))"
proof (cases "gd_down d c i \<or> f w = None")
  case True then show ?thesis by (auto simp: thenE_def governed_write_def)
next
  case False
  then obtain x w1 where x: "\<not> gd_down d c i" "f w = Some (x, w1)" by (cases "f w") auto
  have "consent_sound w w1" "consent_sound w1 (snd (k x w1))" using assms x(2) by (auto simp: always_def)
  then have "consent_sound w (snd (k x w1))" by (rule consent_runs.step_trans)
  then show ?thesis using x by (simp add: thenE_def governed_write_def)
qed

lemma look_up_keeps [simp]: "snd (find_version_document d i w) = w"
proof -
  have "w' = w" if "find_version_document d i w = (r, w')" for r w'
    using that by (auto simp: find_version_document_def thenE_def governed_read_def split: option.splits if_splits sum.splits)
  then show ?thesis by (metis prod.collapse)
qed

lemma look_up_Some:
  assumes "find_version_document d i w = (Inr (Some (v, doc)), w')"
  shows "v \<in> set (cw_versions w)" "lv_id v = pg_uuid i" "doc \<in> set (cw_documents w)" "ld_id doc = pg_uuid (lv_documentId v)" "isUuid i"
  using assms by (auto simp: find_version_document_def thenE_Inr governed_success versions_findById_def documents_findById_def
      dest!: find_by_id_Some split: option.splits)

lemmas then_steps =
  then_sound [where m = "require_text f v" for f v, OF checks_keep(1)]
  then_sound [where m = "require_optional f v" for f v, OF checks_keep(2)]
  then_sound [where m = "permit d who q" for d who q, OF checks_keep(4)]
  then_sound [where m = "found res i r" for res i r, OF checks_keep(5)]
  then_sound [where m = "refuse_if e" for e, OF checks_keep(6)]
  then_sound [where m = "governed_read d c i g" for d c i g, OF read_keeps]
  then_sound [where m = "directory_resolve d p" for d p, OF directory_keeps]
  then_sound [where m = "find_version_document d i" for d i, OF look_up_keeps]

lemma acceptance_use_case_sound: "consent_sound w (snd (recordOwnAcceptance d [] p i w))"
  unfolding recordOwnAcceptance_def Let_def
proof ((rule then_steps)+, rule then_write_sound)
  fix a b c e r vd f entity g ids w1
  assume "find_version_document d (ac_legalDocumentVersionId i) w = (Inr r, w)"
    "found ''legal_document_version'' (ac_legalDocumentVersionId i) r w = (Inr vd, w)"
    "refuse_if (acceptance_refusal (fst vd) (snd vd) (ac_purposeRef i)) w = (Inr f, w)"
  then have l: "find_version_document d (ac_legalDocumentVersionId i) w = (Inr (Some (fst vd, snd vd)), w)"
    "acceptance_refusal (fst vd) (snd vd) (ac_purposeRef i) = None"
    by (simp_all add: found_Inr refuse_if_Inr)
  show "grants_recordAcceptance (gd_dbNow d) [] p (new_grant d p i (fst vd) (snd vd)) w = Some (ids, w1) \<Longrightarrow> consent_sound w w1"
    using acceptance_sound look_up_Some [OF l(1)] l(2) by blast
qed (intro consent_always)


lemma always_directory: "always consent_sound (directory_resolve d p)"
  by (simp add: always_def)

lemmas consent_writes = documents_insert_sound versions_insert_sound evaluations_insert_sound bases_declare_sound
  versions_update_sound grants_withdraw_sound

lemma always_own:
  "always consent_sound (withdrawOwnConsent d p i)"
  "always consent_sound (effective_versions d docs)" "always consent_sound (listApplicableDocuments d p j)"
  "always consent_sound (document_status d p purpose e doc)"
proof -
  show eff: "always consent_sound (effective_versions d docs)" for docs
    by (induction docs) (simp_all only: effective_versions.simps, (intro consent_always)+)
  show "always consent_sound (withdrawOwnConsent d p i)" unfolding withdrawOwnConsent_def
    by (intro consent_always consent_write; (erule consent_writes)?)+
  show "always consent_sound (listApplicableDocuments d p j)" unfolding listApplicableDocuments_def scope_check_def
    by (intro consent_always always_directory eff)+
  show "always consent_sound (document_status d p purpose e doc)" unfolding document_status_def
    by (intro consent_always)+
qed

lemma always_operator:
  "always consent_sound (createLegalDocument d who di)" "always consent_sound (draftDocumentVersion d who dr)"
  "always consent_sound (declareProcessingBasisReference d who a b c)"
  unfolding createLegalDocument_def draftDocumentVersion_def declareProcessingBasisReference_def Let_def
  by (intro consent_always consent_write; (erule consent_writes)?)+

lemma always_publication:
  "always consent_sound (classifyDocumentVersion d who v cl rv rs)" "always consent_sound (publishDocumentVersion d who v t)"
  "always consent_sound (recordReconsentEvaluation d who v a b c)"
  unfolding classifyDocumentVersion_def publishDocumentVersion_def recordReconsentEvaluation_def Let_def
    versions_classify_def versions_publish_def
  by (intro consent_always consent_write; (erule consent_writes)?)+

text \<open>
  A step of the module.  The label is the subject whose acceptance the step is, if any; acceptances of one subject do not
  overlap (\<open>raced\<close> is empty).  Between two steps the other modules may change their own tables, of which the world has the
  audit table and those of the operating entities, in any way.
\<close>

inductive consent_step :: "consent_principal option \<Rightarrow> 'w consent_world_scheme \<Rightarrow> 'w consent_world_scheme \<Rightarrow> bool" where
  accept_step: "consent_step (Some p) w (snd (recordOwnAcceptance d [] p i w))"
| withdraw_step: "consent_step None w (snd (withdrawOwnConsent d p g w))"
| create_step: "consent_step None w (snd (createLegalDocument d who di w))"
| draft_step: "consent_step None w (snd (draftDocumentVersion d who dr w))"
| classify_step: "consent_step None w (snd (classifyDocumentVersion d who v c reviewer reason w))"
| publish_step: "consent_step None w (snd (publishDocumentVersion d who v t w))"
| evaluate_step: "consent_step None w (snd (recordReconsentEvaluation d who v purpose e notes w))"
| other_step: "consent_step None w (w\<lparr>gw_audit := a, ew_entities := en, ew_permissions := pe, ew_licences := li, ew_roles := ro,
    ew_assignments := asg, ew_migrations := mi\<rparr>)"
| declare_step: "consent_step None w (snd (declareProcessingBasisReference d who purpose j basis w))"

inductive_cases accept_cases: "consent_step (Some p) w w'"

lemma other_sound: "consent_sound w (w\<lparr>gw_audit := a, ew_entities := en, ew_permissions := pe, ew_licences := li, ew_roles := ro,
    ew_assignments := asg, ew_migrations := mi\<rparr>)"
  by (simp add: consent_sound_def consent_keeps_def consent_refl consent_wf_def grant_pins_def)

lemma consent_step_sound: "consent_step l w w' \<Longrightarrow> consent_sound w w'"
  by (induction rule: consent_step.induct)
    (simp_all only: other_sound acceptance_use_case_sound always_own [THEN always_snd] always_operator [THEN always_snd] always_publication [THEN always_snd])

text \<open>A run in which the subjects of \<open>silent\<close> accept nothing.\<close>

inductive consent_run :: "(consent_principal \<Rightarrow> bool) \<Rightarrow> 'w consent_world_scheme \<Rightarrow> 'w consent_world_scheme \<Rightarrow> bool" for silent where
  run_done: "consent_run silent w w"
| run_step: "consent_run silent w w1 \<Longrightarrow> consent_step l w1 w2 \<Longrightarrow> pred_option (\<lambda>p. \<not> silent p) l \<Longrightarrow> consent_run silent w w2"

lemma consent_run_sound: "consent_run silent w w' \<Longrightarrow> consent_sound w w'"
  by (induction rule: consent_run.induct) (auto intro: consent_runs.step_trans consent_step_sound)

end
