(* ===== verification/Consent_Properties.thy ===== *)
theory Consent_Properties
  imports Consent_Laws
begin

text \<open>
  The properties of consent: the records are evidence, the gate opens only on an active grant, acceptance opens it and
  withdrawal closes it, a subject's consent is its own, and what a subject is shown is what was published.
\<close>

section \<open>The newest row\<close>

interpretation later: comparator "later_first f g" for f g
  by unfold_locales (auto simp: later_first_def split: if_splits)

lemma latest_Some:
  assumes "find_first p (later_first f g) t = Some r"
  shows "r \<in> set t" "p r" "\<forall>x \<in> set t. p x \<longrightarrow> f x < f r \<or> f x = f r \<and> g x \<le> g r"
proof -
  show "r \<in> set t" "p r" using find_first_Some [OF assms] by simp_all
  obtain rest where m: "find_many p (later_first f g) t = r # rest" using assms by (auto simp: find_first_def split: list.splits)
  have "sorted_wrt (\<lambda>a b. later_first f g a b \<le> 0) (r # rest)" using later.sorted_js_sort [of f g "filter p t"] m by (simp add: find_many_def)
  moreover have "{x \<in> set t. p x} = set (r # rest)" using m find_many_set [of p "later_first f g" t] by simp
  ultimately have least: "later_first f g r x \<le> 0" if "x \<in> set t" "p x" "x \<noteq> r" for x using that by auto
  show "\<forall>x \<in> set t. p x \<longrightarrow> f x < f r \<or> f x = f r \<and> g x \<le> g r"
  proof (intro ballI impI)
    fix x assume "x \<in> set t" "p x"
    then show "f x < f r \<or> f x = f r \<and> g x \<le> g r"
      using least [of x] by (cases "x = r") (auto simp: later_first_def split: if_splits)
  qed
qed

lemma latest_is:
  assumes "r \<in> set t" "p r" "\<And>x. x \<in> set t \<Longrightarrow> p x \<Longrightarrow> x \<noteq> r \<Longrightarrow> f x < f r"
  shows "find_first p (later_first f g) t = Some r"
proof (cases "find_first p (later_first f g) t")
  case None then show ?thesis using assms unfolding find_first_None by blast
next
  case (Some x)
  then show ?thesis using latest_Some [OF Some] assms by force
qed

section \<open>What the gate reads\<close>

lemma directory_Inr: "directory_resolve d p w = (Inr e, w') \<longleftrightarrow>
    w' = w \<and> (\<exists>r. fst (resolveEffectiveOperatingEntity d (cp_tenantId p) (Some (cp_userId p)) (gd_now d) w) = Inr r \<and> e = ee_entityId r)"
  unfolding directory_resolve_def
  using resolve_keeps [of d "cp_tenantId p" "Some (cp_userId p)" "gd_now d" w]
  by (cases "resolveEffectiveOperatingEntity d (cp_tenantId p) (Some (cp_userId p)) (gd_now d) w")
    (auto split: sum.splits governed_error.splits entity_refusal.splits)

definition covering_document :: "string \<Rightarrow> string \<Rightarrow> string option \<Rightarrow> legal_document \<Rightarrow> bool" where
  "covering_document e purpose j doc \<longleftrightarrow> ld_entityId doc = pg_uuid e \<and> documentCoversPurpose doc purpose \<and> wanted j (ld_jurisdictionRef doc)"

lemma covering_one:
  assumes "documents_covering e purpose j w = Some [doc]"
  shows "filter (covering_document e purpose j) (cw_documents w) = [doc]"
proof -
  have "find_many (covering_document e purpose j) oldest_document (cw_documents w) = [doc]"
    using assms by (auto simp: documents_covering_def covering_document_def [abs_def] split: if_splits)
  then have "mset (filter (covering_document e purpose j) (cw_documents w)) = {#doc#}" unfolding find_many_def by (metis mset_js_sort mset_single_iff)
  then show ?thesis by (metis mset_single_iff_right)
qed


lemma toGrant_fields [simp]:
  "cg_id (toGrant r) = cg_id r" "cg_status (toGrant r) = cg_status r" "cg_legalDocumentVersionId (toGrant r) = cg_legalDocumentVersionId r"
  "cg_consentVersion (toGrant r) = cg_consentVersion r" "cg_purposeRef (toGrant r) = cg_purposeRef r"
  "cg_jurisdictionRef (toGrant r) = cg_jurisdictionRef r" "cg_operatingEntityId (toGrant r) = cg_operatingEntityId r"
  by (simp_all add: toGrant_def consent_grant.truncate_def)

lemma own_state [simp]: "cv_state (own_status_of v a b c e) = cv_state v"
  by (simp add: own_status_of_def consent_view.extend_def)

lemma standing_active:
  "cv_state (resolveConsentStatus grant ge eff) = CONSENT_ACTIVE \<longleftrightarrow> (\<exists>g. grant = Some g \<and> cg_status g = GRANT_ACTIVE \<and>
     (case eff of None \<Rightarrow> True | Some v \<Rightarrow> lv_id v = cg_legalDocumentVersionId g \<or> \<not> effective_is_newer ge v
        \<or> lv_classification v = Some NOTICE_REQUIRED \<or> lv_classification v = Some NO_USER_ACTION_REQUIRED))"
  by (auto simp: resolveConsentStatus_def Let_def split: option.splits version_classification.splits if_splits)

lemma latest_resolution:
  assumes "grants_latestResolution p e purpose jur w = Some (Some g)"
  obtains r where "r \<in> set (cw_grants w)" "g = toGrant r" "resolution_row p e purpose jur r"
    "\<And>x. x \<in> set (cw_grants w) \<Longrightarrow> resolution_row p e purpose jur x \<Longrightarrow> cg_grantedAt x \<le> cg_grantedAt r"
proof -
  obtain v r where v: "validateContext (subject_context p) DEFAULT_REQUIRED_CONTEXT = Inr v"
    and r: "find_first (\<lambda>g. grant_visible v g \<and> resolution_row p e purpose jur g) (later_first cg_grantedAt gr_createdAt) (cw_grants w) = Some r"
      "g = toGrant r"
    using assms unfolding grants_latestResolution_def in_subject_Some by (auto split: if_splits)
  note l = latest_Some [OF r(1)]
  have "grant_visible v x" if "resolution_row p e purpose jur x" for x
    using that by (simp add: subject_bound [OF v] resolution_row_def)
  then show ?thesis using that [of r] l r(2) by (metis (no_types, lifting) order.strict_iff_order order_refl)
qed

lemma status_Inr:
  assumes "getOwnConsentStatus d p purpose j w = (Inr s, w')"
  obtains e where "w' = w" "\<not> blank purpose" "directory_resolve d p w = (Inr e, w)" "cv_state s = NO_GRANT"
  | e doc eff grant granted where "w' = w" "\<not> blank purpose" "directory_resolve d p w = (Inr e, w)"
    "documents_covering e purpose j w = Some [doc]" "versions_currentEffective (ld_id doc) (gd_now d) w = Some eff"
    "grants_latestResolution p e purpose (ld_jurisdictionRef doc) w = Some grant"
    "case grant of None \<Rightarrow> granted = None | Some g \<Rightarrow> versions_findById (cg_legalDocumentVersionId g) w = Some granted"
    "cv_state s = cv_state (resolveConsentStatus grant (case granted of None \<Rightarrow> None | Some v \<Rightarrow> lv_effectiveAt v) eff)"
proof -
  obtain e docs where e: "\<not> blank purpose" "directory_resolve d p w = (Inr e, w)" "documents_covering e purpose j w = Some docs"
    and body: "(case docs of [] \<Rightarrow> returnE (own_status_of (resolveConsentStatus None None None) purpose j e None)
       | [doc] \<Rightarrow> document_status d p purpose e doc
       | _ \<Rightarrow> throwE (REFUSED (AMBIGUOUS_JURISDICTION purpose (map ld_jurisdictionRef docs)))) w = (Inr s, w')"
    using assms unfolding getOwnConsentStatus_def scope_check_def
    by (auto simp: thenE_Inr governed_success directory_Inr split: option.splits if_splits)
  show ?thesis
  proof (cases docs)
    case Nil
    then show ?thesis using that(1) e body by (auto simp: resolveConsentStatus_def)
  next
    case (Cons doc rest)
    then have one: "rest = []" using body by (cases rest) auto
    then obtain eff grant granted where "w' = w" "versions_currentEffective (ld_id doc) (gd_now d) w = Some eff"
      "grants_latestResolution p e purpose (ld_jurisdictionRef doc) w = Some grant"
      "case grant of None \<Rightarrow> granted = None | Some g \<Rightarrow> versions_findById (cg_legalDocumentVersionId g) w = Some granted"
      "s = own_status_of (resolveConsentStatus grant (case granted of None \<Rightarrow> None | Some v \<Rightarrow> lv_effectiveAt v) eff)
         purpose (Some (ld_jurisdictionRef doc)) e (Some (ld_id doc))"
      using body Cons by (fastforce simp: document_status_def thenE_Inr governed_success split: option.splits)
    then show ?thesis using that(2) e Cons one by simp
  qed
qed


lemma gate_Inr:
  assumes "assertConsentFor d p purpose j w = (Inr (), w')"
  shows "w' = w \<and> (\<exists>s. getOwnConsentStatus d p purpose j w = (Inr s, w) \<and> cv_state s = CONSENT_ACTIVE)"
proof -
  obtain s where s: "getOwnConsentStatus d p purpose j w = (Inr s, w')" "cv_state s = CONSENT_ACTIVE"
    using assms by (auto simp: assertConsentFor_def thenE_Inr statusPermitsProcessing_def split: if_splits)
  have "w' = w" by (rule status_Inr [OF s(1)])
  then show ?thesis using s by blast
qed

definition rests_on :: "consent_principal \<Rightarrow> string \<Rightarrow> string \<Rightarrow> string \<Rightarrow> 'w consent_world_scheme \<Rightarrow> grant_row \<Rightarrow> bool" where
  "rests_on p e purpose jurisdiction w g \<longleftrightarrow> g \<in> set (cw_grants w) \<and> own_grant p g \<and> same_triple e purpose jurisdiction g \<and> cg_status g = GRANT_ACTIVE
     \<and> (\<nexists>x. x \<in> set (cw_grants w) \<and> resolution_row p e purpose jurisdiction x \<and> cg_grantedAt g < cg_grantedAt x)"

text \<open>The version in force when it does not call for a new acceptance.\<close>

definition needs_no_acceptance :: "'w consent_world_scheme \<Rightarrow> grant_row \<Rightarrow> legal_version \<Rightarrow> bool" where
  "needs_no_acceptance w g v \<longleftrightarrow> lv_id v = cg_legalDocumentVersionId g
     \<or> (\<exists>u e t. u \<in> set (cw_versions w) \<and> lv_id u = pg_uuid (cg_legalDocumentVersionId g) \<and> lv_effectiveAt u = Some t
          \<and> lv_effectiveAt v = Some e \<and> e \<le> t)
     \<or> lv_classification v = Some NOTICE_REQUIRED \<or> lv_classification v = Some NO_USER_ACTION_REQUIRED"

definition newest_in_force :: "'w consent_world_scheme \<Rightarrow> string \<Rightarrow> millis \<Rightarrow> legal_version \<Rightarrow> bool" where
  "newest_in_force w i at v \<longleftrightarrow> v \<in> set (cw_versions w) \<and> in_force i at v
     \<and> (\<nexists>x. x \<in> set (cw_versions w) \<and> in_force i at x \<and> instant_of (lv_effectiveAt v) < instant_of (lv_effectiveAt x))"

lemma current_effective:
  assumes "versions_currentEffective i at w = Some eff"
  shows "case eff of None \<Rightarrow> (\<nexists>v. v \<in> set (cw_versions w) \<and> in_force i at v) | Some v \<Rightarrow> newest_in_force w i at v"
proof (cases eff)
  case None
  then show ?thesis using assms by (auto simp: versions_currentEffective_def find_first_None split: if_splits)
next
  case (Some v)
  then have "find_first (in_force i at) (later_first (\<lambda>v. instant_of (lv_effectiveAt v)) (\<lambda>v. instant_of (lv_publishedAt v))) (cw_versions w) = Some v"
    using assms by (auto simp: versions_currentEffective_def split: if_splits)
  note l = latest_Some [OF this]
  have "\<nexists>x. x \<in> set (cw_versions w) \<and> in_force i at x \<and> instant_of (lv_effectiveAt v) < instant_of (lv_effectiveAt x)"
    using l(3) by force
  then show ?thesis using l(1,2) Some by (simp add: newest_in_force_def)
qed

lemma gate_success:
  assumes "assertConsentFor d p purpose j w = (Inr (), w')"
  obtains e doc g where "w' = w" "directory_resolve d p w = (Inr e, w)" "filter (covering_document e purpose j) (cw_documents w) = [doc]"
    "rests_on p e purpose (ld_jurisdictionRef doc) w g"
    "(\<nexists>v. v \<in> set (cw_versions w) \<and> in_force (ld_id doc) (gd_now d) v)
       \<or> (\<exists>v. newest_in_force w (ld_id doc) (gd_now d) v \<and> needs_no_acceptance w g v)"
proof -
  obtain s where w': "w' = w" and s: "getOwnConsentStatus d p purpose j w = (Inr s, w)" "cv_state s = CONSENT_ACTIVE"
    using gate_Inr [OF assms] by blast
  show ?thesis
  proof (rule status_Inr [OF s(1)])
    fix e assume "cv_state s = NO_GRANT" then show ?thesis using s(2) by simp
  next
    fix e doc eff grant granted
    assume dir: "directory_resolve d p w = (Inr e, w)" and cov: "documents_covering e purpose j w = Some [doc]"
      and eff: "versions_currentEffective (ld_id doc) (gd_now d) w = Some eff"
      and lat: "grants_latestResolution p e purpose (ld_jurisdictionRef doc) w = Some grant"
      and ver: "case grant of None \<Rightarrow> granted = None | Some g \<Rightarrow> versions_findById (cg_legalDocumentVersionId g) w = Some granted"
      and st: "cv_state s = cv_state (resolveConsentStatus grant (case granted of None \<Rightarrow> None | Some v \<Rightarrow> lv_effectiveAt v) eff)"
    obtain cg where g: "grant = Some cg" "cg_status cg = GRANT_ACTIVE"
      "case eff of None \<Rightarrow> True | Some v \<Rightarrow> lv_id v = cg_legalDocumentVersionId cg
         \<or> \<not> effective_is_newer (case granted of None \<Rightarrow> None | Some v \<Rightarrow> lv_effectiveAt v) v
         \<or> lv_classification v = Some NOTICE_REQUIRED \<or> lv_classification v = Some NO_USER_ACTION_REQUIRED"
      using s(2) unfolding st standing_active by blast
    obtain r where r: "r \<in> set (cw_grants w)" "cg = toGrant r" "resolution_row p e purpose (ld_jurisdictionRef doc) r"
      "\<And>x. x \<in> set (cw_grants w) \<Longrightarrow> resolution_row p e purpose (ld_jurisdictionRef doc) x \<Longrightarrow> cg_grantedAt x \<le> cg_grantedAt r"
      by (rule latest_resolution [OF lat [unfolded g(1)]]) blast
    have rest: "rests_on p e purpose (ld_jurisdictionRef doc) w r"
      using r g(2) by (auto simp: rests_on_def resolution_row_def not_less)
    have "needs_no_acceptance w r v" if v: "eff = Some v" for v
    proof -
      have "\<exists>u e t. u \<in> set (cw_versions w) \<and> lv_id u = pg_uuid (cg_legalDocumentVersionId r) \<and> lv_effectiveAt u = Some t
          \<and> lv_effectiveAt v = Some e \<and> e \<le> t"
        if older: "\<not> effective_is_newer (case granted of None \<Rightarrow> None | Some v \<Rightarrow> lv_effectiveAt v) v"
      proof -
        obtain u e t where u: "granted = Some u" "lv_effectiveAt u = Some t" "lv_effectiveAt v = Some e" "e \<le> t"
          using older by (auto simp: effective_is_newer_def split: option.splits)
        have f: "find_by_id lv_id (cg_legalDocumentVersionId r) (cw_versions w) = Some (Some u)"
          using ver g(1) r(2) u(1) by (simp add: versions_findById_def)
        show ?thesis using find_by_id_Some [OF f] u(2-4) by blast
      qed
      then show ?thesis using g(3) v r(2) unfolding needs_no_acceptance_def by auto
    qed
    then have "(\<nexists>v. v \<in> set (cw_versions w) \<and> in_force (ld_id doc) (gd_now d) v)
       \<or> (\<exists>v. newest_in_force w (ld_id doc) (gd_now d) v \<and> needs_no_acceptance w r v)"
      using current_effective [OF eff] by (cases eff) auto
    then show ?thesis using that w' dir covering_one [OF cov] rest by blast
  qed
qed

section \<open>Properties of the gate\<close>

text \<open>
  C5: The consent gate changes nothing and opens only on consent that stands: the caller's operating entity is resolved, exactly
  one of its documents covers the purpose and the jurisdiction asked for, the caller's newest grant for them that is
  active or withdrawn is an active one, and the document's newest version in force, if it has one, is the accepted version, is
  not newer than it, or was classified as needing no acceptance.
\<close>

theorem consent_gate_opens_only_on_standing_consent:
  assumes "assertConsentFor d p purpose j w = (Inr (), w')"
  shows "w' = w \<and> (\<exists>r doc g.
    fst (resolveEffectiveOperatingEntity d (cp_tenantId p) (Some (cp_userId p)) (gd_now d) w) = Inr r
    \<and> filter (covering_document (ee_entityId r) purpose j) (cw_documents w) = [doc]
    \<and> rests_on p (ee_entityId r) purpose (ld_jurisdictionRef doc) w g
    \<and> ((\<nexists>v. v \<in> set (cw_versions w) \<and> in_force (ld_id doc) (gd_now d) v)
       \<or> (\<exists>v. newest_in_force w (ld_id doc) (gd_now d) v \<and> needs_no_acceptance w g v)))"
  by (rule gate_success [OF assms]) (auto simp: directory_Inr)


section \<open>Active grants come from acceptances\<close>

definition actives_from :: "(grant_row \<Rightarrow> bool) \<Rightarrow> 'w consent_world_scheme \<Rightarrow> 'w consent_world_scheme \<Rightarrow> bool" where
  "actives_from new w w' \<longleftrightarrow> (\<forall>g \<in> set (cw_grants w'). cg_status g = GRANT_ACTIVE \<longrightarrow> g \<in> set (cw_grants w) \<or> new g)"

interpretation actives: step_relation "actives_from new" for new
  by unfold_locales (auto simp: actives_from_def)

lemma actives_audit [simp]: "actives_from new w (w\<lparr>gw_audit := es\<rparr>)"
  by (simp add: actives_from_def)

lemma actives_checks:
  "always (actives_from new) (require_text f v)" "always (actives_from new) (require_optional f o')" "always (actives_from new) (require_that f b)"
  "always (actives_from new) (permit d who p)" "always (actives_from new) (found res i r)" "always (actives_from new) (refuse_if e)"
  "always (actives_from new) (governed_read d c i g)" "always (actives_from new) (directory_resolve d q)"
  "always (actives_from new) (find_version_document d i)"
  by (simp_all add: always_def actives.step_refl)

lemma actives_texts: "always (actives_from new) (require_texts f xs)"
  by (induction xs) (simp_all only: require_texts.simps, (intro actives.always_intros actives_checks)+)

lemma actives_audited: "always (actives_from new) (audited d e :: ('w, unit) consent_effect)"
  unfolding always_def
proof
  fix w :: "'w consent_world_scheme"
  obtain es where "snd ((audited d e :: ('w, unit) consent_effect) w) = w\<lparr>gw_audit := gw_audit w @ es\<rparr>"
    using audited_world by blast
  then show "actives_from new w (snd ((audited d e :: ('w, unit) consent_effect) w))" by simp
qed

lemma actives_write:
  assumes "\<And>w x w'. f w = Some (x, w') \<Longrightarrow> actives_from new w w'"
  shows "always (actives_from new) (governed_write d c i f)"
  using assms by (auto simp: always_def governed_write_def actives.step_refl split: option.splits)

lemma actives_writes:
  "documents_insert doc w = Some (u, w') \<Longrightarrow> actives_from new w w'" "versions_insert v w = Some (u, w') \<Longrightarrow> actives_from new w w'"
  "evaluations_insert e w = Some (u, w') \<Longrightarrow> actives_from new w w'" "bases_declare b w = Some (u, w') \<Longrightarrow> actives_from new w w'"
  "versions_update i f w = Some (u, w') \<Longrightarrow> actives_from new w w'" "grants_withdraw p i at w = Some (u, w') \<Longrightarrow> actives_from new w w'"
proof -
  show "documents_insert doc w = Some (u, w') \<Longrightarrow> actives_from new w w'" "versions_insert v w = Some (u, w') \<Longrightarrow> actives_from new w w'"
    "evaluations_insert e w = Some (u, w') \<Longrightarrow> actives_from new w w'" "bases_declare b w = Some (u, w') \<Longrightarrow> actives_from new w w'"
    "versions_update i f w = Some (u, w') \<Longrightarrow> actives_from new w w'"
    by (auto simp: documents_insert_def versions_insert_def evaluations_insert_def bases_declare_def versions_update_def Let_def
        actives_from_def split: if_splits)
  show "actives_from new w w'" if "grants_withdraw p i at w = Some (u, w')"
    by (rule grants_withdraw_rows [OF that]) (auto simp: actives_from_def withdrawn_at_def)
qed

lemma actives_acceptance:
  assumes "grants_recordAcceptance at [] p g w = Some (ids, w')"
  shows "actives_from (own_grant p) w w'"
  using assms unfolding grants_recordAcceptance_def in_subject_Some
  by (auto simp: Let_def actives_from_def create_row_iff subject_bound superseded_def split: if_splits)

lemmas actives_always = actives_checks actives_texts actives_audited actives.always_intros

lemma actives_accept: "always (actives_from (own_grant p)) (recordOwnAcceptance d [] p i)"
  unfolding recordOwnAcceptance_def Let_def by (intro actives_always actives_write; (erule actives_acceptance)?)+

lemma actives_withdraw: "always (actives_from new) (withdrawOwnConsent d p i)"
  unfolding withdrawOwnConsent_def by (intro actives_always actives_write; (erule actives_writes)?)+

lemma actives_operator:
  "always (actives_from new) (createLegalDocument d who di)" "always (actives_from new) (draftDocumentVersion d who dr)"
  "always (actives_from new) (declareProcessingBasisReference d who a b c)"
  unfolding createLegalDocument_def draftDocumentVersion_def declareProcessingBasisReference_def Let_def
  by (intro actives_always actives_write; (erule actives_writes)?)+

lemma actives_publication:
  "always (actives_from new) (classifyDocumentVersion d who v cl rv rs)" "always (actives_from new) (publishDocumentVersion d who v t)"
  "always (actives_from new) (recordReconsentEvaluation d who v a b c)"
  unfolding classifyDocumentVersion_def publishDocumentVersion_def recordReconsentEvaluation_def Let_def
    versions_classify_def versions_publish_def
  by (intro actives_always actives_write; (erule actives_writes)?)+

lemma actives_step: "consent_step l w w' \<Longrightarrow> actives_from (\<lambda>g. \<exists>p. l = Some p \<and> own_grant p g) w w'"
proof (induction rule: consent_step.induct)
  case (accept_step p w d i)
  then show ?case using actives_accept [of p d i, THEN always_snd, of w] by simp
next
  case other_step then show ?case by (simp add: actives_from_def)
qed (simp_all only: actives_withdraw [THEN always_snd] actives_operator [THEN always_snd] actives_publication [THEN always_snd])


section \<open>Withdrawal\<close>

definition same_subject :: "consent_principal \<Rightarrow> consent_principal \<Rightarrow> bool" where
  "same_subject p q \<longleftrightarrow> pg_uuid (cp_userId q) = pg_uuid (cp_userId p) \<and> pg_uuid (cp_tenantId q) = pg_uuid (cp_tenantId p)"

lemma silent_run_actives:
  assumes "consent_run (same_subject p) w w'" "g \<in> set (cw_grants w')" "cg_status g = GRANT_ACTIVE" "own_grant p g"
  shows "g \<in> set (cw_grants w)"
  using assms
proof (induction rule: consent_run.induct)
  case (run_step w w1 l w2)
  have "\<not> (\<exists>q. l = Some q \<and> own_grant q g)"
    using run_step.hyps(3) run_step.prems(3) by (auto simp: same_subject_def own_grant_def)
  then have "g \<in> set (cw_grants w1)" using actives_step [OF run_step.hyps(2)] run_step.prems(1,2) unfolding actives_from_def by blast
  then show ?case using run_step.IH run_step.prems(2,3) by blast
qed

lemma withdrawal_success:
  assumes "withdrawOwnConsent d p i w = (Inr g, w')" "consent_wf w"
  obtains r where "r \<in> set (cw_grants w)" "own_grant p r" "cg_status r = GRANT_ACTIVE" "cg_id r = pg_uuid i"
    "g = (toGrant r)\<lparr>cg_status := GRANT_WITHDRAWN, cg_withdrawnAt := Some (gd_now d)\<rparr>"
    "cw_grants w' = map (\<lambda>x. if cg_id x = pg_uuid i then withdrawn_at (gd_now d) x else x) (cw_grants w)"
proof -
  obtain c w1 where c: "grants_findById p i w = Some (Some c)" "cg_status c = GRANT_ACTIVE"
      "g = c\<lparr>cg_status := GRANT_WITHDRAWN, cg_withdrawnAt := Some (gd_now d)\<rparr>"
    and wr: "grants_withdraw p i (gd_now d) w = Some ((), w1)" and w': "cw_grants w' = cw_grants w1"
    using assms(1) by (auto simp: withdrawOwnConsent_def thenE_Inr governed_success withdrawal_refusal_def split: if_splits dest!: audited_Inr)
  obtain v r where v: "validateContext (subject_context p) DEFAULT_REQUIRED_CONTEXT = Inr v"
    and r: "find_by_id cg_id i (filter (grant_visible v) (cw_grants w)) = Some (Some r)" "c = toGrant r"
    using c(1) unfolding grants_findById_def in_subject_Some by auto
  have mem: "r \<in> set (cw_grants w)" "own_grant p r" "cg_id r = pg_uuid i"
    using find_by_id_Some [OF r(1)] subject_bound [OF v] by auto
  show ?thesis
  proof (rule grants_withdraw_rows [OF wr])
    assume "w1 = w\<lparr>cw_grants := map (\<lambda>x. if cg_id x = pg_uuid i then withdrawn_at (gd_now d) x else x) (cw_grants w)\<rparr>"
    then show ?thesis using that [OF mem(1,2) _ mem(3)] c(2,3) r(2) w' by simp
  qed
qed

text \<open>
  C6: A withdrawal stays in force: from a sound state, after a subject has withdrawn a grant, whatever the operators publish or
  classify, whatever other subjects accept or withdraw and however the operating-entity tables change, the gate stays
  closed to that subject for the entity, the purpose and the jurisdiction of the grant, until the subject itself accepts again.
\<close>

theorem withdrawal_closes_the_gate:
  assumes "consent_wf w" "withdrawOwnConsent d p i w = (Inr g, w1)" "consent_run (same_subject p) w1 w2"
    "directory_resolve d' p w2 = (Inr e, w2)" "pg_uuid e = cg_operatingEntityId g"
  shows "fst (assertConsentFor d' p (cg_purposeRef g) (Some (cg_jurisdictionRef g)) w2) \<noteq> Inr ()"
proof
  assume "fst (assertConsentFor d' p (cg_purposeRef g) (Some (cg_jurisdictionRef g)) w2) = Inr ()"
  then obtain w3 where gate: "assertConsentFor d' p (cg_purposeRef g) (Some (cg_jurisdictionRef g)) w2 = (Inr (), w3)"
    by (metis prod.collapse)
  obtain r where r: "r \<in> set (cw_grants w)" "own_grant p r" "cg_status r = GRANT_ACTIVE" "cg_id r = pg_uuid i"
    "g = (toGrant r)\<lparr>cg_status := GRANT_WITHDRAWN, cg_withdrawnAt := Some (gd_now d)\<rparr>"
    "cw_grants w1 = map (\<lambda>x. if cg_id x = pg_uuid i then withdrawn_at (gd_now d) x else x) (cw_grants w)"
    by (rule withdrawal_success [OF assms(2,1)])
  obtain doc x where x: "rests_on p e (cg_purposeRef g) (ld_jurisdictionRef doc) w2 x"
    and doc: "filter (covering_document e (cg_purposeRef g) (Some (cg_jurisdictionRef g))) (cw_documents w2) = [doc]"
    by (rule gate_success [OF gate]) (use assms(4) in auto)
  have "doc \<in> set (filter (covering_document e (cg_purposeRef g) (Some (cg_jurisdictionRef g))) (cw_documents w2))" unfolding doc by simp
  then have jur: "ld_jurisdictionRef doc = cg_jurisdictionRef g" by (simp add: covering_document_def wanted_def)
  have "x \<in> set (cw_grants w1)" using silent_run_actives [OF assms(3)] x by (simp add: rests_on_def)
  then have old: "x \<in> set (cw_grants w)" "cg_id x \<noteq> pg_uuid i" using x unfolding r(6) by (auto simp: rests_on_def withdrawn_at_def)
  have "rivals x r" using x r(2,3,5) jur assms(5) by (simp add: rests_on_def rivals_def own_grant_def same_triple_def)
  then have "x = r" using assms(1) old(1) r(1) unfolding consent_wf_def by blast
  then show False using old(2) r(4) by simp
qed


section \<open>Evidence\<close>

text \<open>
  Consent is evidence.  Over any run of the module's use cases, failures included, every grant stays, unchanged or closed once as
  withdrawn or superseded with everything else as recorded; every version stays, its content hash, text and author for ever
  and the whole row from its publication on; no version is published without a classification; every grant
  pins a published version of a document of its entity and jurisdiction that covers its purpose; and no subject ever has two
  active grants for one entity, purpose and jurisdiction.
\<close>

theorem consent_records_are_evidence:
  assumes "consent_wf w" "consent_run silent w w'" "g \<in> set (cw_grants w)" "v \<in> set (cw_versions w)"
  shows "(\<exists>g' \<in> set (cw_grants w'). g' = g \<or> cg_status g = GRANT_ACTIVE
        \<and> (g' = g\<lparr>cg_status := GRANT_SUPERSEDED, cg_withdrawnAt := None\<rparr> \<or> (\<exists>t. g' = g\<lparr>cg_status := GRANT_WITHDRAWN, cg_withdrawnAt := Some t\<rparr>)))
    \<and> (\<exists>v' \<in> set (cw_versions w'). v' = v \<or> lv_publishedAt v = None
        \<and> (\<exists>c r s e t. v' = v\<lparr>lv_classification := c, lv_reviewer := r, lv_reason := s, lv_effectiveAt := e, lv_publishedAt := t\<rparr>))
    \<and> list_all (\<lambda>v'. lv_publishedAt v' = None \<or> lv_classification v' \<noteq> None) (cw_versions w')
    \<and> list_all (\<lambda>g'. \<exists>v' doc. grant_pins w' g' v' doc) (cw_grants w')
    \<and> list_all (\<lambda>a. list_all (\<lambda>b. rivals a b \<longrightarrow> a = b) (cw_grants w')) (cw_grants w')"
proof -
  have keeps: "consent_keeps w w'" and wf: "consent_wf w'" using consent_run_sound [OF assms(2)] assms(1) by (auto simp: consent_sound_def)
  obtain g' where g': "g' \<in> set (cw_grants w')" "grant_history g g'"
    using grants_table.table_row [of "cw_grants w" "cw_grants w'" g] keeps assms(1,3) by (auto simp: consent_keeps_def consent_wf_def)
  obtain v' where v': "v' \<in> set (cw_versions w')" "version_history v v'"
    using versions_table.table_row [of "cw_versions w" "cw_versions w'" v] keeps assms(1,4) by (auto simp: consent_keeps_def consent_wf_def)
  have "g' = g \<or> cg_status g = GRANT_ACTIVE
        \<and> (g' = g\<lparr>cg_status := GRANT_SUPERSEDED, cg_withdrawnAt := None\<rparr> \<or> (\<exists>t. g' = g\<lparr>cg_status := GRANT_WITHDRAWN, cg_withdrawnAt := Some t\<rparr>))"
    using g'(2) by (cases g; cases g') (auto simp: grant_history_def grant_guard_def)
  moreover have "v' = v \<or> lv_publishedAt v = None
        \<and> (\<exists>c r s e t. v' = v\<lparr>lv_classification := c, lv_reviewer := r, lv_reason := s, lv_effectiveAt := e, lv_publishedAt := t\<rparr>)"
    using v'(2) by (cases v; cases v') (auto simp: version_history_def)
  moreover have "list_all (\<lambda>v'. lv_publishedAt v' = None \<or> lv_classification v' \<noteq> None) (cw_versions w')"
    using wf by (auto simp: consent_wf_def list_all_iff version_checks_def)
  moreover have "list_all (\<lambda>g'. \<exists>v' doc. grant_pins w' g' v' doc) (cw_grants w')"
    using wf by (simp add: consent_wf_def list_all_iff)
  moreover have "list_all (\<lambda>a. list_all (\<lambda>b. rivals a b \<longrightarrow> a = b) (cw_grants w')) (cw_grants w')"
    using wf by (simp add: consent_wf_def list_all_iff)
  ultimately show ?thesis using g'(1) v'(1) by blast
qed

section \<open>Content\<close>

text \<open>
  What a subject is shown is what was published: content is served only for a document of the caller's own operating entity,
  from its newest version in force, in a stated language and with the hash the publication pinned, and serving it changes nothing.
\<close>

theorem served_content_is_the_published_version:
  assumes "getLegalDocumentContent d source digest p i w = (Inr c, w')"
  shows "w' = w \<and> (\<exists>r doc v content.
    fst (resolveEffectiveOperatingEntity d (cp_tenantId p) (Some (cp_userId p)) (gd_now d) w) = Inr r
    \<and> doc \<in> set (cw_documents w) \<and> ld_id doc = pg_uuid i \<and> ld_entityId doc = ee_entityId r
    \<and> newest_in_force w (ld_id doc) (gd_now d) v \<and> source_fetch source v = Some content
    \<and> \<not> blank (dc_language content) \<and> js_lower (digest (dc_content content)) = js_lower (lv_contentHash v)
    \<and> c = \<lparr>ct_documentId = ld_id doc, ct_versionId = lv_id v, ct_version = lv_version v, ct_contentHash = lv_contentHash v,
         ct_effectiveAt = map_option (gd_iso d) (lv_effectiveAt v), ct_language = dc_language content, ct_format = dc_format content,
         ct_content = dc_content content\<rparr>)"
proof -
  obtain e found_doc version doc where r: "directory_resolve d p w = (Inr e, w)" "documents_findById i w = Some (Some doc)"
    "ld_entityId doc = e" "versions_currentEffective (ld_id doc) (gd_now d) w = Some version"
    and rest: "(case version of None \<Rightarrow> throwE (REFUSED (DOCUMENT_CONTENT_UNAVAILABLE (ld_id doc) NO_EFFECTIVE_VERSION))
       | Some v \<Rightarrow> thenE (governed_read d ''source.fetch'' (lv_id v) (\<lambda>w. Some (source_fetch source v))) (serve_content d digest doc v)) w = (Inr c, w')"
    using assms unfolding getLegalDocumentContent_def
    by (auto simp: thenE_Inr governed_success directory_Inr split: option.splits if_splits)
  obtain v content where v: "version = Some v" "source_fetch source v = Some content" "serve_content d digest doc v (Some content) w = (Inr c, w')"
    using rest by (auto simp: thenE_Inr governed_success serve_content_def split: option.splits)
  have s: "\<not> blank (dc_language content)" "js_lower (digest (dc_content content)) = js_lower (lv_contentHash v)" "w' = w"
    "c = \<lparr>ct_documentId = ld_id doc, ct_versionId = lv_id v, ct_version = lv_version v, ct_contentHash = lv_contentHash v,
         ct_effectiveAt = map_option (gd_iso d) (lv_effectiveAt v), ct_language = dc_language content, ct_format = dc_format content,
         ct_content = dc_content content\<rparr>"
    using v(3) by (auto simp: serve_content_def split: if_splits)
  have "newest_in_force w (ld_id doc) (gd_now d) v" using current_effective [OF r(4)] v(1) by simp
  moreover have "doc \<in> set (cw_documents w)" "ld_id doc = pg_uuid i" using find_by_id_Some r(2) unfolding documents_findById_def by fastforce+
  moreover obtain q where "fst (resolveEffectiveOperatingEntity d (cp_tenantId p) (Some (cp_userId p)) (gd_now d) w) = Inr q" "e = ee_entityId q"
    using r(1) by (auto simp: directory_Inr)
  ultimately show ?thesis using r(3) s v(2) by blast
qed


section \<open>Acceptance\<close>

lemma pair_kept: "snd (m w) = w \<Longrightarrow> m w = (Inr x, w') \<longleftrightarrow> w' = w \<and> fst (m w) = Inr x"
  by (metis prod.collapse prod.inject)

lemmas look_up_Inr = pair_kept [where m = "find_version_document d i" for d i, OF look_up_keeps]
lemmas directory_fst = pair_kept [where m = "directory_resolve d p" for d p, OF directory_keeps]

lemma acceptance_success:
  assumes "recordOwnAcceptance d [] p i w = (Inr g, w')"
  obtains v doc ids w1 where "find_version_document d (ac_legalDocumentVersionId i) w = (Inr (Some (v, doc)), w)"
    "acceptance_refusal v doc (ac_purposeRef i) = None" "directory_resolve d p w = (Inr (ld_entityId doc), w)" "\<not> blank (ac_purposeRef i)"
    "g = new_grant d p i v doc" "grants_recordAcceptance (gd_dbNow d) [] p g w = Some (ids, w1)" "\<exists>es. w' = w1\<lparr>gw_audit := es\<rparr>"
proof -
  obtain v doc e ids w1 where a: "fst (find_version_document d (ac_legalDocumentVersionId i) w) = Inr (Some (v, doc))"
    "acceptance_refusal v doc (ac_purposeRef i) = None" "fst (directory_resolve d p w) = Inr e" "applicability_refusal doc e = None"
    "\<not> blank (ac_purposeRef i)" "g = new_grant d p i v doc" "grants_recordAcceptance (gd_dbNow d) [] p g w = Some (ids, w1)"
    "\<exists>es. w' = w1\<lparr>gw_audit := es\<rparr>"
    using assms unfolding recordOwnAcceptance_def Let_def
    by (auto simp: thenE_Inr governed_success look_up_Inr directory_fst dest!: audited_Inr) blast
  have "e = ld_entityId doc" using a(4) by (auto simp: applicability_refusal_def split: if_splits)
  then show ?thesis
    using that [OF _ a(2) _ a(5-7)] a(1,3,8) by (auto simp: look_up_Inr directory_fst)
qed


text \<open>
  C7: Accepting the version in force opens the gate: once a subject's acceptance of a document's newest version in force has
  succeeded, the gate is open to that subject for the purpose and the jurisdiction, as long as the document is the only
  one of the subject's entity that covers them and no withdrawal of the subject carries the same or a later instant.
\<close>

theorem acceptance_opens_the_gate:
  assumes "consent_wf w" "recordOwnAcceptance d [] p i w = (Inr g, w1)" "\<forall>c k. \<not> gd_down d' c k"
    and dir: "directory_resolve d' p w1 = (Inr e, w1)" and entity: "isUuid e" "pg_uuid e = pg_uuid (cg_operatingEntityId g)"
    and one: "documents_covering e (cg_purposeRef g) (Some (cg_jurisdictionRef g)) w1 = Some [doc]" "\<not> blank (cg_jurisdictionRef g)"
    and current: "versions_currentEffective (ld_id doc) (gd_now d') w1 = Some (Some v)" "lv_id v = cg_legalDocumentVersionId g"
    and newest: "list_all (\<lambda>x. own_grant p x \<and> cg_status x = GRANT_WITHDRAWN \<longrightarrow> cg_grantedAt x < cg_grantedAt g) (cw_grants w)"
  shows "assertConsentFor d' p (cg_purposeRef g) (Some (cg_jurisdictionRef g)) w1 = (Inr (), w1)"
proof -
  obtain ver doc0 ids w2 where look: "find_version_document d (ac_legalDocumentVersionId i) w = (Inr (Some (ver, doc0)), w)"
    and g: "g = new_grant d p i ver doc0" and acc: "grants_recordAcceptance (gd_dbNow d) [] p g w = Some (ids, w2)"
    and w1: "\<exists>es. w1 = w2\<lparr>gw_audit := es\<rparr>" and filled: "\<not> blank (ac_purposeRef i)"
    by (rule acceptance_success [OF assms(2)])
  have k: "keyed cg_id (cw_grants w)" "keyed lv_id (cw_versions w)" using assms(1) by (simp_all add: consent_wf_def)
  note a = acceptance_rows [OF acc k(1)]
  let ?new = "stored_grant (gd_dbNow d) g" and ?jur = "cg_jurisdictionRef g" and ?p = "cg_purposeRef g"
  have rows: "cw_grants w1 = map (\<lambda>r. if outgoing p g r then superseded r else r) (cw_grants w) @ [?new]"
    "cw_versions w1 = cw_versions w" using w1 a(1) by auto
  have fields: "cg_status g = GRANT_ACTIVE" "cg_legalDocumentVersionId g = lv_id ver" "?p = ac_purposeRef i" using g by (simp_all add: new_grant_def)
  have new: "resolution_row p e ?p ?jur ?new" using a(3) entity(2) fields(1) by (simp add: resolution_row_def same_triple_def)
  have before: "cg_grantedAt x < cg_grantedAt ?new"
    if x: "x \<in> set (cw_grants w1)" "resolution_row p e ?p ?jur x" "x \<noteq> ?new" for x
  proof -
    obtain q where q: "q \<in> set (cw_grants w)" "x = (if outgoing p g q then superseded q else q)" using x(1,3) unfolding rows(1) by auto
    have "\<not> outgoing p g q" using x(2) q(2) by (auto simp: resolution_row_def superseded_def)
    then have "own_grant p q" "cg_status q = GRANT_WITHDRAWN" "x = q"
      using x(2) q(2) entity(2) by (auto simp: resolution_row_def outgoing_def same_triple_def)
    then show ?thesis using newest q(1) by (simp add: list_all_iff)
  qed
  obtain b where b: "validateContext (subject_context p) DEFAULT_REQUIRED_CONTEXT = Inr b"
    using acc unfolding grants_recordAcceptance_def in_subject_Some by blast
  have "find_first (\<lambda>x. grant_visible b x \<and> resolution_row p e ?p ?jur x) (later_first cg_grantedAt gr_createdAt) (cw_grants w1) = Some ?new"
    by (rule latest_is) (use before new a(3) subject_bound [OF b] in \<open>auto simp: rows(1)\<close>)
  then have latest: "grants_latestResolution p e ?p ?jur w1 = Some (Some (toGrant ?new))"
    using entity(1) b unfolding grants_latestResolution_def in_subject_Some by simp
  have doc: "ld_jurisdictionRef doc = ?jur"
    using covering_one [OF one(1)] by (auto simp: filter_eq_Cons_iff covering_document_def wanted_def)
  have ver: "ver \<in> set (cw_versions w)" "lv_id ver = pg_uuid (ac_legalDocumentVersionId i)" "isUuid (ac_legalDocumentVersionId i)"
    using look_up_Some [OF look] by auto
  then have canon: "pg_uuid (lv_id ver) = lv_id ver" "isUuid (lv_id ver)" using canonical_pg_uuid by (auto simp: canonical_uuid_def)
  have "versions_findById (cg_legalDocumentVersionId ?new) w1 = Some (Some ver)"
    using find_by_id_own [OF k(2) ver(1) canon(2)] canon(1) by (simp add: versions_findById_def rows(2) fields(2))
  moreover have "cv_state (resolveConsentStatus (Some (toGrant ?new)) t (Some v)) = CONSENT_ACTIVE" for t
    unfolding standing_active using current(2) canon(1) fields by simp
  ultimately show ?thesis using filled assms(3) dir one(1,2) current(1) latest doc fields(3)
    by (simp add: assertConsentFor_def getOwnConsentStatus_def document_status_def scope_check_def require_text_def governed_read_def
        thenE_def statusPermitsProcessing_def)
qed

section \<open>Isolation\<close>

text \<open>What subject \<open>p\<close> may see of the tables.\<close>

definition subject_view :: "consent_principal \<Rightarrow> 'w consent_world_scheme \<Rightarrow> 'w consent_world_scheme" where
  "subject_view p w = w\<lparr>cw_grants := filter (own_grant p) (cw_grants w)\<rparr>"


text \<open>A reading that is blind to the grants of other subjects: it changes nothing and answers the same from the subject's view.\<close>

definition blind :: "consent_principal \<Rightarrow> ('w, 'a) consent_effect \<Rightarrow> bool" where
  "blind p m \<longleftrightarrow> (\<forall>w. snd (m w) = w \<and> fst (m (subject_view p w)) = fst (m w))"

lemma blindD: "blind p m \<Longrightarrow> fst (m (subject_view p w)) = fst (m w)"
  by (simp add: blind_def)

lemma blind_then: "blind p m \<Longrightarrow> (\<And>x. blind p (k x)) \<Longrightarrow> blind p (thenE m k)"
  unfolding blind_def thenE_def by (auto split: prod.splits sum.splits) (metis fst_conv snd_conv Inl_inject Inr_inject Inl_Inr_False)+

lemma blind_read: "(\<And>w. f (subject_view p w) = f w) \<Longrightarrow> blind p (governed_read d c i f)"
  by (auto simp: blind_def governed_read_def split: option.splits)

lemma blind_checks: "blind p (returnE x)" "blind p (throwE e)" "blind p (require_text f v)"
  by (auto simp: blind_def require_text_def)

lemma view_fields [simp]:
  "cw_documents (subject_view p w) = cw_documents w" "cw_versions (subject_view p w) = cw_versions w"
  "ew_assignments (subject_view p w) = ew_assignments w" "cw_grants (subject_view p w) = filter (own_grant p) (cw_grants w)"
  by (simp_all add: subject_view_def)

lemma blind_directory: "blind p (directory_resolve d q)"
proof -
  have "fst (resolveEffectiveOperatingEntity d t u at (subject_view p w)) = fst (resolveEffectiveOperatingEntity d t u at w)" for t u at and w :: "'a consent_world_scheme"
    by (auto simp: resolveEffectiveOperatingEntity_def Let_def thenE_def governed_read_def assignments_findActiveAt_def split: option.splits)
  moreover have "fst (directory_resolve d q w) = (case fst (resolveEffectiveOperatingEntity d (cp_tenantId q) (Some (cp_userId q)) (gd_now d) w) of
      Inr e \<Rightarrow> Inr (ee_entityId e) | Inl (REFUSED NO_EFFECTIVE_ENTITY) \<Rightarrow> Inl (REFUSED SUBJECT_HAS_NO_ENTITY) | Inl e \<Rightarrow> Inl STORE_FAILURE)"
    for w :: "'a consent_world_scheme"
    unfolding directory_resolve_def by (auto split: prod.splits sum.splits governed_error.splits entity_refusal.splits)
  ultimately show ?thesis by (simp add: blind_def)
qed

lemma blind_latest: "grants_latestResolution p e purpose j (subject_view p w) = grants_latestResolution p e purpose j w"
proof -
  have "find_first (\<lambda>g. grant_visible v g \<and> resolution_row p e purpose j g) order (filter (own_grant p) (cw_grants w))
      = find_first (\<lambda>g. grant_visible v g \<and> resolution_row p e purpose j g) order (cw_grants w)" for v order
    by (rule find_first_within) (simp add: resolution_row_def)
  then show ?thesis unfolding grants_latestResolution_def in_subject_def by (intro in_context_cong) simp
qed

lemma blind_status: "blind p (getOwnConsentStatus d p purpose j)"
proof -
  have doc: "blind p (document_status d p purpose e doc)" for e doc
    unfolding document_status_def
    by (intro blind_then blind_read blind_checks; (simp add: versions_currentEffective_def blind_latest)?)
      (auto intro!: blind_read blind_checks simp: versions_findById_def split: option.split)
  show ?thesis unfolding getOwnConsentStatus_def scope_check_def
    by (intro blind_then blind_read blind_checks blind_directory)
      (auto simp: documents_covering_def intro!: doc blind_checks split: option.split list.split)
qed

definition leaves_others :: "consent_principal \<Rightarrow> 'w consent_world_scheme \<Rightarrow> 'w consent_world_scheme \<Rightarrow> bool" where
  "leaves_others p w w' \<longleftrightarrow> (keyed cg_id (cw_grants w) \<longrightarrow> keyed cg_id (cw_grants w')
     \<and> filter (\<lambda>g. \<not> own_grant p g) (cw_grants w') = filter (\<lambda>g. \<not> own_grant p g) (cw_grants w))"

interpretation isolation: step_relation "leaves_others p" for p
  by unfold_locales (auto simp: leaves_others_def)

lemma isolation_checks:
  "always (leaves_others q) (require_text f v)" "always (leaves_others q) (require_optional f o')" "always (leaves_others q) (found res i r)"
  "always (leaves_others q) (refuse_if e)" "always (leaves_others q) (governed_read d c i g)" "always (leaves_others q) (directory_resolve d p)"
  "always (leaves_others q) (find_version_document d i)"
  by (simp_all add: always_def isolation.step_refl)

lemma isolation_audited: "always (leaves_others q) (audited d e :: ('w, unit) consent_effect)"
  unfolding always_def
proof
  fix w :: "'w consent_world_scheme"
  obtain es where "snd ((audited d e :: ('w, unit) consent_effect) w) = w\<lparr>gw_audit := gw_audit w @ es\<rparr>"
    using audited_world by blast
  then show "leaves_others q w (snd ((audited d e :: ('w, unit) consent_effect) w))" by (simp add: leaves_others_def)
qed

lemma isolation_write:
  assumes "\<And>w x w'. f w = Some (x, w') \<Longrightarrow> leaves_others q w w'"
  shows "always (leaves_others q) (governed_write d c i f)"
  using assms by (auto simp: always_def governed_write_def isolation.step_refl split: option.splits)


lemma filter_fixed:
  "\<forall>g \<in> set gs. (q g \<longrightarrow> q (f g)) \<and> (\<not> q g \<longrightarrow> f g = g) \<Longrightarrow> filter (\<lambda>g. \<not> q g) (map f gs) = filter (\<lambda>g. \<not> q g) gs"
  by (induction gs) auto

lemma isolation_grants:
  "grants_recordAcceptance at [] p g w = Some (ids, w') \<Longrightarrow> leaves_others p w w'"
  "grants_withdraw p i at w = Some (u, w') \<Longrightarrow> leaves_others p w w'"
proof -
  assume acc: "grants_recordAcceptance at [] p g w = Some (ids, w')"
  show "leaves_others p w w'" unfolding leaves_others_def
  proof (intro impI conjI)
    assume k: "keyed cg_id (cw_grants w)"
    show "keyed cg_id (cw_grants w')" using acceptance_keeps [OF acc] k by (simp add: consent_keeps_def table_history_def)
    have "filter (\<lambda>x. \<not> own_grant p x) (map (\<lambda>r. if outgoing p g r then superseded r else r) (cw_grants w)) = filter (\<lambda>x. \<not> own_grant p x) (cw_grants w)"
      by (rule filter_fixed) (auto simp: outgoing_def own_grant_def superseded_def)
    then show "filter (\<lambda>x. \<not> own_grant p x) (cw_grants w') = filter (\<lambda>x. \<not> own_grant p x) (cw_grants w)"
      using acceptance_rows(3) [OF acc k] unfolding acceptance_rows(1) [OF acc k] by simp
  qed
next
  assume wd: "grants_withdraw p i at w = Some (u, w')"
  show "leaves_others p w w'"
  proof (rule grants_withdraw_rows [OF wd], unfold leaves_others_def, intro impI conjI)
    fix m v
    assume v: "validateContext (subject_context p) DEFAULT_REQUIRED_CONTEXT = Inr v"
      and m: "find_by_id cg_id i (cw_grants w) = Some (Some m)" "grant_visible v m" and k: "keyed cg_id (cw_grants w)"
      and w': "w' = w\<lparr>cw_grants := map (\<lambda>x. if cg_id x = pg_uuid i then withdrawn_at at x else x) (cw_grants w)\<rparr>"
    show "keyed cg_id (cw_grants w')" using grants_withdraw_sound [OF wd] k by (simp add: consent_sound_def consent_keeps_def table_history_def)
    have "own_grant p x" if "x \<in> set (cw_grants w)" "cg_id x = pg_uuid i" for x
      using find_by_id_Some [OF m(1)] k that m(2) subject_bound [OF v] unfolding keyed_def distinct_map inj_on_def by metis
    then have "filter (\<lambda>x. \<not> own_grant p x) (map (\<lambda>x. if cg_id x = pg_uuid i then withdrawn_at at x else x) (cw_grants w))
        = filter (\<lambda>x. \<not> own_grant p x) (cw_grants w)"
      by (intro filter_fixed) (auto simp: own_grant_def withdrawn_at_def)
    then show "filter (\<lambda>x. \<not> own_grant p x) (cw_grants w') = filter (\<lambda>x. \<not> own_grant p x) (cw_grants w)" unfolding w' by simp
  qed
qed

lemma isolation_use_cases:
  "always (leaves_others p) (recordOwnAcceptance d [] p i)" "always (leaves_others p) (withdrawOwnConsent d p c)"
  unfolding recordOwnAcceptance_def withdrawOwnConsent_def Let_def
  by (intro isolation_checks isolation_audited isolation.always_intros isolation_write; (erule isolation_grants)?)+

text \<open>
  C8: A subject's consent is its own: what a subject's status and gate answer depends on the grants of that subject in that tenant only,
  and neither its acceptances nor its withdrawals, successful or not, touch a grant of anyone else.
\<close>

theorem consent_is_isolated_by_subject:
  assumes "keyed cg_id (cw_grants w)"
  shows "fst (getOwnConsentStatus d p purpose j (subject_view p w)) = fst (getOwnConsentStatus d p purpose j w)
    \<and> fst (assertConsentFor d p purpose j (subject_view p w)) = fst (assertConsentFor d p purpose j w)
    \<and> filter (\<lambda>g. \<not> own_grant p g) (cw_grants (snd (recordOwnAcceptance d [] p i w))) = filter (\<lambda>g. \<not> own_grant p g) (cw_grants w)
    \<and> filter (\<lambda>g. \<not> own_grant p g) (cw_grants (snd (withdrawOwnConsent d p c w))) = filter (\<lambda>g. \<not> own_grant p g) (cw_grants w)"
proof -
  have "fst (assertConsentFor d p purpose j (subject_view p w)) = fst (assertConsentFor d p purpose j w)"
    unfolding assertConsentFor_def by (rule blindD, intro blind_then blind_status, split if_split, intro conjI impI blind_checks)
  moreover have "leaves_others p w (snd (recordOwnAcceptance d [] p i w))" "leaves_others p w (snd (withdrawOwnConsent d p c w))"
    by (rule isolation_use_cases [THEN always_snd])+
  ultimately show ?thesis using blindD [OF blind_status [of p d purpose j], of w] assms by (simp add: leaves_others_def)
qed

section \<open>Samples\<close>

definition version_one :: string where
  "version_one = ''0e000000-0000-7000-8000-000000000011''"

definition version_two :: string where
  "version_two = ''0e000000-0000-7000-8000-000000000012''"

definition version_three :: string where
  "version_three = ''0e000000-0000-7000-8000-000000000013''"

definition terms :: legal_document where
  "terms = \<lparr>ld_id = uuid_b, ld_entityId = uuid_a, ld_jurisdictionRef = ''BH'', ld_purposeRefs = [''p''], ld_kind = ''terms'', ld_createdAt = 0\<rparr>"

definition terms_version :: "string \<Rightarrow> string \<Rightarrow> version_classification \<Rightarrow> millis \<Rightarrow> legal_version" where
  "terms_version i n c at = \<lparr>lv_id = i, lv_documentId = uuid_b, lv_version = n, lv_contentHash = ''AA'', lv_storageRef = ''s'',
     lv_classification = Some c, lv_author = ''a'', lv_reviewer = Some ''r'', lv_reason = Some ''x'', lv_effectiveAt = Some at,
     lv_publishedAt = Some 9, lv_priorVersionId = None, lv_createdAt = 5\<rparr>"

definition shop :: "legal_version list \<Rightarrow> consent_world" where
  "shop vs = \<lparr>gw_audit = [], ew_entities = [bank], ew_permissions = [], ew_licences = [], ew_roles = [], ew_assignments = [bound_to_bank],
     ew_migrations = [], cw_documents = [terms], cw_versions = vs, cw_grants = [], cw_evaluations = [], cw_bases = []\<rparr>"

definition one_version :: "legal_version list" where
  "one_version = [terms_version version_one ''1'' MATERIAL_REACCEPTANCE_REQUIRED 10]"

definition subject_a :: consent_principal where
  "subject_a = \<lparr>cp_userId = uuid_a, cp_tenantId = uuid_t\<rparr>"

definition accepting :: "string \<Rightarrow> acceptance_input" where
  "accepting i = \<lparr>ac_legalDocumentVersionId = i, ac_purposeRef = ''p'', ac_evidenceReference = ''e'',
     ac_policyPin = \<lparr>pn_policyPackVersion = ''1'', pn_subjectPolicySelectionVersion = None\<rparr>\<rparr>"

definition granted :: grant_row where
  "granted = \<lparr>cg_id = uuid_b, cg_userId = uuid_a, cg_tenantId = uuid_t, cg_operatingEntityId = uuid_a, cg_jurisdictionRef = ''BH'',
     cg_purposeRef = ''p'', cg_consentVersion = ''1'', cg_legalDocumentVersionId = version_one, cg_grantedAt = 50, cg_withdrawnAt = None,
     cg_status = GRANT_ACTIVE, cg_evidenceReference = ''e'', cg_policyPackVersion = Some ''1'', cg_policyPackPinState = PACK_PINNED,
     cg_subjectPolicySelectionVersion = None, cg_subjectPolicySelectionPinState = NOT_APPLICABLE, gr_createdAt = 50\<rparr>"

definition consented :: "legal_version list \<Rightarrow> consent_world" where
  "consented vs = (shop vs)\<lparr>cw_grants := [granted]\<rparr>"

lemma sample_ids: "pg_uuid uuid_a = uuid_a" "pg_uuid uuid_b = uuid_b" "pg_uuid uuid_t = uuid_t" "pg_uuid version_one = version_one"
  "isUuid uuid_a" "isUuid uuid_b" "isUuid uuid_t" "isUuid version_one"
  by code_simp+

lemma shop_wf: "consent_wf (shop one_version)"
  by (simp add: consent_wf_def shop_def one_version_def keyed_def terms_def terms_version_def sample_ids version_checks_def
      filled_text_def pg_text_def optional_text_def)

lemma consented_wf: "consent_wf (consented one_version)"
proof -
  have "grant_pins (consented one_version) granted (hd one_version) terms"
    by (simp add: grant_pins_def consented_def shop_def one_version_def terms_def terms_version_def granted_def documentCoversPurpose_def)
  moreover have "grant_pins (consented one_version) = grant_pins (shop one_version)" by (simp add: consented_def)
  ultimately show ?thesis
    using shop_wf by (auto simp: consent_wf_def consented_def shop_def keyed_def granted_def sample_ids)
qed

lemma sample_directory:
  assumes "ew_assignments w = [bound_to_bank]" "0 \<le> gd_now d" "\<forall>c k. \<not> gd_down d c k"
  shows "directory_resolve d subject_a w = (Inr uuid_a, w)"
proof -
  have "resolveEffectiveOperatingEntity d uuid_t (Some uuid_a) (gd_now d) w = (Inr (effective_of ''TENANT_DEFAULT'' bound_to_bank), w)"
    using assms sample_ids by (simp add: resolve_user binding_at_def of_subject_def bound_to_bank_def entityAssignmentActiveAt_def window_covers_def newest_def)
  then show ?thesis by (simp add: directory_resolve_def subject_a_def effective_of_def bound_to_bank_def)
qed

text \<open>What the gate answers in the consented shop.\<close>

lemma sample_gate:
  assumes "versions_currentEffective uuid_b (gd_now d) (shop vs) = Some (Some v)" "0 \<le> gd_now d" "\<forall>c k. \<not> gd_down d c k"
    "versions_findById version_one (shop vs) = Some (Some u)"
  shows "assertConsentFor d subject_a ''p'' (Some ''BH'') ((consented vs)\<lparr>gw_audit := a\<rparr>) =
    (let s = cv_state (resolveConsentStatus (Some (toGrant granted)) (lv_effectiveAt u) (Some v))
     in (if s = CONSENT_ACTIVE then Inr () else Inl (REFUSED (CONSENT_REQUIRED s ''p'' (Some ''BH''))), (consented vs)\<lparr>gw_audit := a\<rparr>))"
proof -
  let ?w = "(consented vs)\<lparr>gw_audit := a\<rparr>"
  have dir: "directory_resolve d subject_a ?w = (Inr uuid_a, ?w)"
    by (rule sample_directory) (simp_all add: consented_def shop_def assms)
  have "\<not> blank ''p''" "\<not> blank ''BH''" "documents_covering uuid_a ''p'' (Some ''BH'') (shop vs) = Some [terms]"
    by (code_simp, code_simp) (simp add: documents_covering_def sample_ids shop_def find_many_def terms_def documentCoversPurpose_def wanted_def)
  moreover have "documents_covering uuid_a ''p'' (Some ''BH'') ?w = documents_covering uuid_a ''p'' (Some ''BH'') (shop vs)"
    "versions_currentEffective (ld_id terms) (gd_now d) ?w = versions_currentEffective uuid_b (gd_now d) (shop vs)"
    "versions_findById version_one ?w = versions_findById version_one (shop vs)"
    by (simp_all add: documents_covering_def versions_currentEffective_def versions_findById_def consented_def terms_def)
  moreover have "grants_latestResolution subject_a uuid_a ''p'' ''BH'' ?w = grants_latestResolution subject_a uuid_a ''p'' ''BH'' (consented [])"
    by (simp add: grants_latestResolution_def consented_def sample_ids)
  moreover have "grants_latestResolution subject_a uuid_a ''p'' ''BH'' (consented []) = Some (Some (toGrant granted))" by code_simp
  moreover have "ld_jurisdictionRef terms = ''BH''" "cg_legalDocumentVersionId granted = version_one" by (simp_all add: terms_def granted_def)
  ultimately show ?thesis using assms dir
    by (simp add: assertConsentFor_def getOwnConsentStatus_def document_status_def scope_check_def require_text_def governed_read_def
        thenE_def statusPermitsProcessing_def Let_def own_status_of_def consent_view.extend_def own_status.fields_def)
qed


lemma consented_opens: "assertConsentFor open_deps subject_a ''p'' (Some ''BH'') (consented one_version) = (Inr (), consented one_version)"
proof -
  have "versions_currentEffective uuid_b (gd_now open_deps) (shop one_version) = Some (Some (hd one_version))"
    "versions_findById version_one (shop one_version) = Some (Some (hd one_version))" by code_simp+
  moreover have "0 \<le> gd_now open_deps" "\<forall>c k. \<not> gd_down open_deps c k" by (simp_all add: open_deps_def)
  moreover have "cv_state (resolveConsentStatus (Some (toGrant granted)) (lv_effectiveAt (hd one_version)) (Some (hd one_version))) = CONSENT_ACTIVE"
    by code_simp
  ultimately show ?thesis using sample_gate [of open_deps one_version "hd one_version" "hd one_version" "[]"]
    by (simp add: consented_def shop_def)
qed

theorem consent_gate_opens_only_on_standing_consent_witness:
  "\<exists>r doc g. fst (resolveEffectiveOperatingEntity open_deps uuid_t (Some uuid_a) 50 (consented one_version)) = Inr r
    \<and> filter (covering_document (ee_entityId r) ''p'' (Some ''BH'')) (cw_documents (consented one_version)) = [doc]
    \<and> rests_on subject_a (ee_entityId r) ''p'' (ld_jurisdictionRef doc) (consented one_version) g"
proof -
  have "cp_tenantId subject_a = uuid_t" "cp_userId subject_a = uuid_a" "gd_now open_deps = 50" by (simp_all add: subject_a_def open_deps_def)
  then show ?thesis using consent_gate_opens_only_on_standing_consent [OF consented_opens] by auto
qed

theorem withdrawal_closes_the_gate_witness:
  "\<exists>g w1. withdrawOwnConsent open_deps subject_a uuid_b (consented one_version) = (Inr g, w1)
    \<and> fst (assertConsentFor open_deps subject_a ''p'' (Some ''BH'') (consented one_version)) = Inr ()
    \<and> fst (assertConsentFor open_deps subject_a ''p'' (Some ''BH'') w1) \<noteq> Inr ()"
proof -
  let ?r = "withdrawOwnConsent open_deps subject_a uuid_b (consented one_version)"
  have "case ?r of (Inr g, w1) \<Rightarrow> (cg_purposeRef g, cg_jurisdictionRef g, cg_operatingEntityId g, ew_assignments w1) = (''p'', ''BH'', uuid_a, [bound_to_bank])
      | (Inl e, w1) \<Rightarrow> False" by code_simp
  then obtain g w1 where r: "?r = (Inr g, w1)" and g: "cg_purposeRef g = ''p''" "cg_jurisdictionRef g = ''BH''" "cg_operatingEntityId g = uuid_a"
    "ew_assignments w1 = [bound_to_bank]"
    by (cases ?r) (auto split: sum.splits)
  have dir: "directory_resolve open_deps subject_a w1 = (Inr uuid_a, w1)"
    by (rule sample_directory) (simp_all add: g(4) open_deps_def)
  have "fst (assertConsentFor open_deps subject_a (cg_purposeRef g) (Some (cg_jurisdictionRef g)) w1) \<noteq> Inr ()"
    by (rule withdrawal_closes_the_gate [OF consented_wf r run_done dir]) (simp add: g(3) sample_ids)
  then show ?thesis using r consented_opens g by simp
qed

theorem consent_records_are_evidence_witness:
  "\<exists>g. cw_grants (consented one_version) = [g] \<and> list_all (\<lambda>g'. \<exists>v' doc. grant_pins (consented one_version) g' v' doc) (cw_grants (consented one_version))
    \<and> list_all (\<lambda>a. list_all (\<lambda>b. rivals a b \<longrightarrow> a = b) (cw_grants (consented one_version))) (cw_grants (consented one_version))"
proof -
  have "granted \<in> set (cw_grants (consented one_version))" "hd one_version \<in> set (cw_versions (consented one_version))"
    "cw_grants (consented one_version) = [granted]"
    by (simp_all add: consented_def shop_def one_version_def)
  then show ?thesis using consent_records_are_evidence [OF consented_wf run_done, of granted "hd one_version"] by blast
qed

theorem served_content_is_the_published_version_witness:
  "\<exists>c v. getLegalDocumentContent open_deps (STATIC_CONTENT ''s'' \<lparr>dc_language = ''en'', dc_format = TEXT_PLAIN, dc_content = ''t''\<rparr>) (\<lambda>t. ''aa'')
      subject_a uuid_b (shop one_version) = (Inr c, shop one_version)
    \<and> newest_in_force (shop one_version) uuid_b 50 v \<and> ct_contentHash c = lv_contentHash v"
proof -
  let ?r = "getLegalDocumentContent open_deps (STATIC_CONTENT ''s'' \<lparr>dc_language = ''en'', dc_format = TEXT_PLAIN, dc_content = ''t''\<rparr>) (\<lambda>t. ''aa'')
      subject_a uuid_b (shop one_version)"
  have "case fst ?r of Inr c \<Rightarrow> True | Inl e \<Rightarrow> False" by code_simp
  then obtain c w' where r: "?r = (Inr c, w')" by (cases ?r) (auto split: sum.splits)
  have "gd_now open_deps = 50" by (simp add: open_deps_def)
  then show ?thesis using served_content_is_the_published_version [OF r] r sample_ids by auto
qed

theorem acceptance_opens_the_gate_witness:
  "\<exists>g w1. recordOwnAcceptance open_deps [] subject_a (accepting version_one) (shop one_version) = (Inr g, w1)
    \<and> assertConsentFor open_deps subject_a (cg_purposeRef g) (Some (cg_jurisdictionRef g)) w1 = (Inr (), w1)"
proof -
  let ?r = "recordOwnAcceptance open_deps [] subject_a (accepting version_one) (shop one_version)"
  have "case ?r of (Inr g, w1) \<Rightarrow> g = toGrant granted \<and> ew_assignments w1 = [bound_to_bank] \<and> cw_documents w1 = [terms] \<and> cw_versions w1 = one_version
      | (Inl e, w1) \<Rightarrow> False" by code_simp
  then obtain w1 where r: "?r = (Inr (toGrant granted), w1)"
    and w1: "ew_assignments w1 = [bound_to_bank]" "cw_documents w1 = [terms]" "cw_versions w1 = one_version"
    by (cases ?r) (auto split: sum.splits)
  have g: "cg_purposeRef granted = ''p''" "cg_jurisdictionRef granted = ''BH''" "cg_operatingEntityId granted = uuid_a" "cg_legalDocumentVersionId granted = version_one"
    by (simp_all add: granted_def)
  have down: "\<forall>c k. \<not> gd_down open_deps c k" "0 \<le> gd_now open_deps" by (simp_all add: open_deps_def)
  have dir: "directory_resolve open_deps subject_a w1 = (Inr uuid_a, w1)" by (rule sample_directory [OF w1(1) down(2,1)])
  have "\<not> blank ''BH''" "versions_currentEffective (ld_id terms) (gd_now open_deps) (shop one_version) = Some (Some (hd one_version))"
    "lv_id (hd one_version) = version_one" by code_simp+
  moreover have "documents_covering uuid_a ''p'' (Some ''BH'') w1 = Some [terms]"
    by (simp add: documents_covering_def sample_ids w1 find_many_def terms_def documentCoversPurpose_def wanted_def)
  moreover have "versions_currentEffective (ld_id terms) t w1 = versions_currentEffective (ld_id terms) t (shop one_version)" for t
    by (simp add: versions_currentEffective_def w1 shop_def)
  moreover have "cw_grants (shop one_version) = []" by (simp add: shop_def)
  ultimately show ?thesis
    using acceptance_opens_the_gate [OF shop_wf r down(1) dir, where doc = terms and v = "hd one_version"] r g sample_ids by simp
qed

theorem consent_is_isolated_by_subject_witness:
  "fst (assertConsentFor open_deps subject_a ''p'' (Some ''BH'') (subject_view subject_a (consented one_version)))
     = fst (assertConsentFor open_deps subject_a ''p'' (Some ''BH'') (consented one_version))"
proof -
  have "keyed cg_id (cw_grants (consented one_version))" using consented_wf by (simp add: consent_wf_def)
  then show ?thesis using consent_is_isolated_by_subject by blast
qed


section \<open>What the status does not see\<close>

text \<open>
  Only the newest version in force is compared with the accepted one: a later version that needs no acceptance hides a version
  between the two that was classified as material, and processing goes on although that version was never accepted.
\<close>

definition three_versions :: "legal_version list" where
  "three_versions = [terms_version version_one ''1'' MATERIAL_REACCEPTANCE_REQUIRED 10,
     terms_version version_two ''2'' MATERIAL_REACCEPTANCE_REQUIRED 60, terms_version version_three ''3'' NO_USER_ACTION_REQUIRED 70]"

lemma editorial_version_hides_a_material_one:
  "fst (assertConsentFor (open_deps\<lparr>gd_now := 65\<rparr>) subject_a ''p'' (Some ''BH'') (consented three_versions))
     = Inl (REFUSED (CONSENT_REQUIRED RECONSENT_REQUIRED ''p'' (Some ''BH'')))"
  "fst (assertConsentFor (open_deps\<lparr>gd_now := 75\<rparr>) subject_a ''p'' (Some ''BH'') (consented three_versions)) = Inr ()"
proof -
  have v: "versions_currentEffective uuid_b 65 (shop three_versions) = Some (Some (three_versions ! 1))"
    "versions_currentEffective uuid_b 75 (shop three_versions) = Some (Some (three_versions ! 2))"
    "versions_findById version_one (shop three_versions) = Some (Some (three_versions ! 0))"
    "cv_state (resolveConsentStatus (Some (toGrant granted)) (lv_effectiveAt (three_versions ! 0)) (Some (three_versions ! 1))) = RECONSENT_REQUIRED"
    "cv_state (resolveConsentStatus (Some (toGrant granted)) (lv_effectiveAt (three_versions ! 0)) (Some (three_versions ! 2))) = CONSENT_ACTIVE"
    by code_simp+
  have down: "\<forall>c k. \<not> gd_down (open_deps\<lparr>gd_now := t\<rparr>) c k" for t by (simp add: open_deps_def)
  show "fst (assertConsentFor (open_deps\<lparr>gd_now := 65\<rparr>) subject_a ''p'' (Some ''BH'') (consented three_versions))
     = Inl (REFUSED (CONSENT_REQUIRED RECONSENT_REQUIRED ''p'' (Some ''BH'')))"
    using sample_gate [of "open_deps\<lparr>gd_now := 65\<rparr>" three_versions, OF _ _ down v(3), of "three_versions ! 1" "[]"] v(1,4)
    by (simp add: consented_def shop_def)
  show "fst (assertConsentFor (open_deps\<lparr>gd_now := 75\<rparr>) subject_a ''p'' (Some ''BH'') (consented three_versions)) = Inr ()"
    using sample_gate [of "open_deps\<lparr>gd_now := 75\<rparr>" three_versions, OF _ _ down v(3), of "three_versions ! 2" "[]"] v(2,5)
    by (simp add: consented_def shop_def)
qed

text \<open>Two acceptances of one subject that overlap leave two active grants.\<close>

lemma overlapping_acceptances_leave_rivals:
  "case grants_recordAcceptance 50 [granted] subject_a ((toGrant granted)\<lparr>cg_id := version_two\<rparr>) (shop one_version) of
     None \<Rightarrow> False | Some (ids, w') \<Rightarrow> ids = [] \<and> list_all (\<lambda>g. cg_status g = GRANT_ACTIVE) (cw_grants w')
       \<and> map cg_id (cw_grants w') = [uuid_b, version_two]"
  by code_simp

end
