(* ===== verification/Jurisdiction_Store.thy ===== *)
theory Jurisdiction_Store
  imports Consent_Store Effective_Policy
begin

text \<open>
  The jurisdiction module (\<open>modules/jurisdiction\<close>), the lower half: the domain rules, the constraints, triggers and row-level
  policies of migrations 0070 to 0075, and the Prisma repositories.  The registers of jurisdictions and countries are the
  records of \<open>Policy_Pack\<close>; their rows are seeded by migration and only read.  The world extends that of the consent module.
\<close>

section \<open>Assignments\<close>

definition ASSIGNMENT_SOURCES :: "string list" where
  "ASSIGNMENT_SOURCES = [''USER_DECLARED'', ''PROVIDER_VERIFIED'', ''OPERATOR_ASSIGNED'', ''CONTRACT_DERIVED'']"

definition VERIFICATION_STATUSES :: "string list" where
  "VERIFICATION_STATUSES = [''UNVERIFIED'', ''VERIFIED'']"

record tenant_jurisdiction =
  ja_id :: string
  ja_tenantId :: string
  ja_code :: string
  ja_source :: string
  ja_verification :: string
  ja_effectiveFrom :: millis
  ja_effectiveTo :: "millis option"
  ja_reason :: string
  ja_assignedBy :: string
  ja_createdAt :: millis

record user_jurisdiction = tenant_jurisdiction +
  ja_userId :: string

definition verificationPermittedForSource :: "string \<Rightarrow> string \<Rightarrow> bool" where
  "verificationPermittedForSource source verification =
     (if source = ''USER_DECLARED'' then verification = ''UNVERIFIED''
      else if source = ''PROVIDER_VERIFIED'' then verification = ''VERIFIED''
      else True)"

definition jurisdictionActiveAt :: "'a tenant_jurisdiction_scheme \<Rightarrow> millis \<Rightarrow> bool" where
  "jurisdictionActiveAt a at \<longleftrightarrow> window_covers (ja_effectiveFrom a) (ja_effectiveTo a) at"

definition later_assignment :: "'a tenant_jurisdiction_scheme \<Rightarrow> 'a tenant_jurisdiction_scheme \<Rightarrow> 'a tenant_jurisdiction_scheme" where
  "later_assignment candidate latest = (if ja_effectiveFrom candidate > ja_effectiveFrom latest then candidate else latest)"

definition pickEffectiveAssignment :: "'a tenant_jurisdiction_scheme list \<Rightarrow> millis \<Rightarrow> 'a tenant_jurisdiction_scheme option" where
  "pickEffectiveAssignment as at = (case filter (\<lambda>a. jurisdictionActiveAt a at) as of
     [] \<Rightarrow> None
   | x # xs \<Rightarrow> Some (fold later_assignment xs x))"

datatype 'r jurisdiction_state = NO_JURISDICTION | UNVERIFIED_JURISDICTION 'r | VERIFIED_JURISDICTION 'r

definition effectiveJurisdictionState ::
  "'a tenant_jurisdiction_scheme list \<Rightarrow> millis \<Rightarrow> 'a tenant_jurisdiction_scheme jurisdiction_state" where
  "effectiveJurisdictionState as at = (case pickEffectiveAssignment as at of
     None \<Rightarrow> NO_JURISDICTION
   | Some a \<Rightarrow> if ja_verification a = ''VERIFIED'' then VERIFIED_JURISDICTION a else UNVERIFIED_JURISDICTION a)"

section \<open>The registers\<close>

datatype declarability_refusal = RETIRED_ENTRY | OUTSIDE_EFFECTIVE_WINDOW

definition declarabilityRefusalAt :: "jurisdiction \<Rightarrow> millis \<Rightarrow> declarability_refusal option" where
  "declarabilityRefusalAt r at =
     (if jurisdiction_status r = L_RETIRED then Some RETIRED_ENTRY
      else if (case jurisdiction_from r of None \<Rightarrow> False | Some f \<Rightarrow> f > at) then Some OUTSIDE_EFFECTIVE_WINDOW
      else if (case jurisdiction_to r of None \<Rightarrow> False | Some t \<Rightarrow> t \<le> at) then Some OUTSIDE_EFFECTIVE_WINDOW
      else None)"

definition approvalRecorded :: "jurisdiction \<Rightarrow> bool" where
  "approvalRecorded r \<longleftrightarrow> jurisdiction_status r = L_APPROVED \<and> jurisdiction_review r = REVIEW_COMPLETE"

record jurisdiction_settings_row =
  js_code :: string
  js_disabledCapabilityIds :: "string list"
  js_aiProcessingSuspended :: bool
  js_version :: int
  js_reason :: string
  js_updatedBy :: string

section \<open>The activation ledger\<close>

datatype activation_action = PACK_ACTIVATED | PACK_RETIRED

record pack_activation =
  pka_id :: string
  pka_code :: string
  pka_packVersion :: string
  pka_lifecycle :: lifecycle
  pka_environment :: environment
  pka_action :: activation_action
  pka_occurredAt :: millis
  pka_actor :: string
  pka_reason :: string
  pka_createdAt :: millis

record active_pack =
  ap_packVersion :: string
  ap_lifecycle :: lifecycle
  ap_activatedAt :: millis

definition later_event :: "pack_activation \<Rightarrow> pack_activation \<Rightarrow> pack_activation" where
  "later_event candidate latest = (if pka_occurredAt candidate > pka_occurredAt latest then candidate else latest)"

text \<open>\<open>None\<close> is \<open>{ active: false }\<close>.\<close>

definition deriveActivePack :: "pack_activation list \<Rightarrow> active_pack option" where
  "deriveActivePack events = (case events of
     [] \<Rightarrow> None
   | e # es \<Rightarrow>
       let latest = fold later_event es e
       in if pka_action latest \<noteq> PACK_ACTIVATED then None
          else Some \<lparr>ap_packVersion = pka_packVersion latest, ap_lifecycle = pka_lifecycle latest, ap_activatedAt = pka_occurredAt latest\<rparr>)"

section \<open>Tables\<close>

record jurisdiction_world = consent_world +
  jw_jurisdictions :: "jurisdiction list"
  jw_countries :: "country list"
  jw_settings :: "jurisdiction_settings_row list"
  jw_users :: "user_jurisdiction list"
  jw_tenants :: "tenant_jurisdiction list"
  jw_activations :: "pack_activation list"

definition jurisdiction_checks :: "'a tenant_jurisdiction_scheme \<Rightarrow> bool" where
  "jurisdiction_checks a \<longleftrightarrow> ja_source a \<in> set ASSIGNMENT_SOURCES \<and> ja_verification a \<in> set VERIFICATION_STATUSES
     \<and> filled_text (ja_reason a) \<and> filled_text (ja_assignedBy a) \<and> ends_after (ja_effectiveFrom a) (ja_effectiveTo a)
     \<and> (ja_source a = ''USER_DECLARED'' \<longrightarrow> ja_verification a = ''UNVERIFIED'')
     \<and> (ja_source a = ''PROVIDER_VERIFIED'' \<longrightarrow> ja_verification a = ''VERIFIED'')"

text \<open>The triggers of both tables: an open row may gain its end, once, and nothing else of it changes.\<close>

definition ended_assignment :: "millis \<Rightarrow> 'a tenant_jurisdiction_scheme \<Rightarrow> 'a tenant_jurisdiction_scheme" where
  "ended_assignment at a = a\<lparr>ja_effectiveTo := Some at\<rparr>"

definition jurisdiction_guard :: "'a tenant_jurisdiction_scheme \<Rightarrow> 'a tenant_jurisdiction_scheme \<Rightarrow> bool" where
  "jurisdiction_guard old new \<longleftrightarrow> ja_effectiveTo old = None \<and> new\<lparr>ja_effectiveTo := None\<rparr> = old \<and> ja_effectiveTo new \<noteq> None"

text \<open>The policies \<open>user_jurisdiction_assignments_subject\<close> and \<open>tenant_jurisdiction_assignments_tenant\<close>.\<close>

definition user_assignment_visible :: "bound_values \<Rightarrow> user_jurisdiction \<Rightarrow> bool" where
  "user_assignment_visible v a \<longleftrightarrow> bound_tenant v = Some (ja_tenantId a) \<and> bound_user v = Some (ja_userId a)"

definition tenant_assignment_visible :: "bound_values \<Rightarrow> tenant_jurisdiction \<Rightarrow> bool" where
  "tenant_assignment_visible v a \<longleftrightarrow> bound_tenant v = Some (ja_tenantId a)"

definition activation_checks :: "pack_activation \<Rightarrow> bool" where
  "activation_checks e \<longleftrightarrow> list_all filled_text [pka_packVersion e, pka_actor e, pka_reason e]"

definition activation_conflicts :: "pack_activation \<Rightarrow> pack_activation \<Rightarrow> bool" where
  "activation_conflicts a b \<longleftrightarrow> pka_id a = pka_id b
     \<or> pka_code a = pka_code b \<and> pka_environment a = pka_environment b \<and> pka_occurredAt a = pka_occurredAt b"

definition known_jurisdiction :: "'w jurisdiction_world_scheme \<Rightarrow> string \<Rightarrow> bool" where
  "known_jurisdiction w jur \<longleftrightarrow> list_ex (\<lambda>j. jurisdiction_code j = jur) (jw_jurisdictions w)"

section \<open>PrismaUserJurisdictionAssignmentRepository\<close>

definition own_assignment :: "consent_principal \<Rightarrow> user_jurisdiction \<Rightarrow> bool" where
  "own_assignment p a \<longleftrightarrow> ja_userId a = pg_uuid (cp_userId p) \<and> ja_tenantId a = pg_uuid (cp_tenantId p)"

definition stored_user_assignment :: "user_jurisdiction \<Rightarrow> user_jurisdiction" where
  "stored_user_assignment a = a\<lparr>ja_id := pg_uuid (ja_id a), ja_userId := pg_uuid (ja_userId a), ja_tenantId := pg_uuid (ja_tenantId a)\<rparr>"

definition users_insert ::
  "consent_principal \<Rightarrow> user_jurisdiction \<Rightarrow> 'w jurisdiction_world_scheme \<Rightarrow> (unit \<times> 'w jurisdiction_world_scheme) option" where
  "users_insert p a w = in_subject p (\<lambda>v.
     let row = stored_user_assignment a
     in if \<not> list_all isUuid [ja_id a, ja_userId a, ja_tenantId a] \<or> \<not> user_assignment_visible v row \<or> \<not> jurisdiction_checks row
           \<or> \<not> known_jurisdiction w (ja_code row) then None
        else map_option (\<lambda>rows. ((), w\<lparr>jw_users := rows\<rparr>)) (create_row (same_id ja_id) row (jw_users w)))"

text \<open>
  \<open>endOpen\<close>: the open rows of the principal are read and ended by identifier, in one transaction.
\<close>

definition end_open ::
  "('a tenant_jurisdiction_scheme \<Rightarrow> bool) \<Rightarrow> millis \<Rightarrow> 'a tenant_jurisdiction_scheme list
     \<Rightarrow> (string list \<times> 'a tenant_jurisdiction_scheme list) option" where
  "end_open mine at rows =
     (let ids = map ja_id (filter (\<lambda>a. mine a \<and> ja_effectiveTo a = None) rows);
          hit = (\<lambda>a. mine a \<and> ja_id a \<in> set ids)
      in if list_ex (\<lambda>a. hit a \<and> \<not> (jurisdiction_checks (ended_assignment at a) \<and> jurisdiction_guard a (ended_assignment at a))) rows then None
         else Some (ids, map (\<lambda>a. if hit a then ended_assignment at a else a) rows))"

definition users_endOpen ::
  "consent_principal \<Rightarrow> millis \<Rightarrow> 'w jurisdiction_world_scheme \<Rightarrow> (string list \<times> 'w jurisdiction_world_scheme) option" where
  "users_endOpen p at w = in_subject p (\<lambda>v. map_option (\<lambda>(ids, rows). (ids, w\<lparr>jw_users := rows\<rparr>))
     (end_open (\<lambda>a. user_assignment_visible v a \<and> own_assignment p a) at (jw_users w)))"

definition earliest_first :: "'a tenant_jurisdiction_scheme \<Rightarrow> 'a tenant_jurisdiction_scheme \<Rightarrow> int" where
  "earliest_first a b = ja_effectiveFrom a - ja_effectiveFrom b"

definition users_list :: "consent_principal \<Rightarrow> 'w jurisdiction_world_scheme \<Rightarrow> user_jurisdiction list option" where
  "users_list p w = in_subject p (\<lambda>v. Some (find_many (\<lambda>a. user_assignment_visible v a \<and> own_assignment p a) earliest_first (jw_users w)))"

section \<open>PrismaTenantJurisdictionAssignmentRepository\<close>

definition tenant_row :: "consent_principal \<Rightarrow> tenant_jurisdiction \<Rightarrow> bool" where
  "tenant_row p a \<longleftrightarrow> ja_tenantId a = pg_uuid (cp_tenantId p)"

definition tenants_insert ::
  "consent_principal \<Rightarrow> tenant_jurisdiction \<Rightarrow> 'w jurisdiction_world_scheme \<Rightarrow> (unit \<times> 'w jurisdiction_world_scheme) option" where
  "tenants_insert p a w = in_subject p (\<lambda>v.
     let row = a\<lparr>ja_id := pg_uuid (ja_id a), ja_tenantId := pg_uuid (ja_tenantId a)\<rparr>
     in if \<not> list_all isUuid [ja_id a, ja_tenantId a] \<or> \<not> tenant_assignment_visible v row \<or> \<not> jurisdiction_checks row
           \<or> \<not> known_jurisdiction w (ja_code row) then None
        else map_option (\<lambda>rows. ((), w\<lparr>jw_tenants := rows\<rparr>)) (create_row (same_id ja_id) row (jw_tenants w)))"

definition tenants_endOpen ::
  "consent_principal \<Rightarrow> millis \<Rightarrow> 'w jurisdiction_world_scheme \<Rightarrow> (string list \<times> 'w jurisdiction_world_scheme) option" where
  "tenants_endOpen p at w = in_subject p (\<lambda>v. map_option (\<lambda>(ids, rows). (ids, w\<lparr>jw_tenants := rows\<rparr>))
     (end_open (\<lambda>a. tenant_assignment_visible v a \<and> tenant_row p a) at (jw_tenants w)))"

definition tenants_list :: "consent_principal \<Rightarrow> 'w jurisdiction_world_scheme \<Rightarrow> tenant_jurisdiction list option" where
  "tenants_list p w = in_subject p (\<lambda>v. Some (find_many (\<lambda>a. tenant_assignment_visible v a \<and> tenant_row p a) earliest_first (jw_tenants w)))"

section \<open>The global tables\<close>

definition by_code :: "('r \<Rightarrow> string) \<Rightarrow> 'r \<Rightarrow> 'r \<Rightarrow> int" where
  "by_code f a b = string_cmp (f a) (f b)"

definition directory_findJurisdiction :: "string \<Rightarrow> 'w jurisdiction_world_scheme \<Rightarrow> jurisdiction option option" where
  "directory_findJurisdiction jur w =
     (if pg_text jur then Some (List.find (\<lambda>j. jurisdiction_code j = jur) (jw_jurisdictions w)) else None)"

definition directory_listJurisdictions :: "'w jurisdiction_world_scheme \<Rightarrow> jurisdiction list option" where
  "directory_listJurisdictions w = Some (find_many (\<lambda>j. True) (by_code jurisdiction_code) (jw_jurisdictions w))"

definition directory_listCountries :: "'w jurisdiction_world_scheme \<Rightarrow> country list option" where
  "directory_listCountries w = Some (find_many (\<lambda>c. True) (by_code country_code) (jw_countries w))"

definition settings_find :: "string \<Rightarrow> 'w jurisdiction_world_scheme \<Rightarrow> jurisdiction_settings_row option option" where
  "settings_find jur w = (if pg_text jur then Some (List.find (\<lambda>s. js_code s = jur) (jw_settings w)) else None)"

definition activations_append ::
  "pack_activation \<Rightarrow> 'w jurisdiction_world_scheme \<Rightarrow> (unit \<times> 'w jurisdiction_world_scheme) option" where
  "activations_append e w =
     (let row = e\<lparr>pka_id := pg_uuid (pka_id e)\<rparr>
      in if \<not> isUuid (pka_id e) \<or> \<not> activation_checks row \<or> \<not> known_jurisdiction w (pka_code row) then None
         else map_option (\<lambda>rows. ((), w\<lparr>jw_activations := rows\<rparr>)) (create_row activation_conflicts row (jw_activations w)))"

definition oldest_event :: "pack_activation \<Rightarrow> pack_activation \<Rightarrow> int" where
  "oldest_event a b = pka_occurredAt a - pka_occurredAt b"

definition activations_listFor :: "string \<Rightarrow> environment \<Rightarrow> 'w jurisdiction_world_scheme \<Rightarrow> pack_activation list option" where
  "activations_listFor jur env w =
     (if pg_text jur then Some (find_many (\<lambda>e. pka_code e = jur \<and> pka_environment e = env) oldest_event (jw_activations w)) else None)"

end
