(* ===== verification/Jurisdiction.thy ===== *)
theory Jurisdiction
  imports Jurisdiction_Store
begin

text \<open>
  The use cases of \<open>modules/jurisdiction/application\<close>: the assignments of users and tenants to a jurisdiction, the subject's own
  declaration and the list it chooses from, and the activation of policy packs.  The call of a repository that ends
  rows and the one that inserts the successor are transactions of their own.
\<close>

datatype declaration_denial = JURISDICTION_NOT_DECLARABLE declarability_refusal | VERIFIED_ASSIGNMENT_EXISTS

datatype jurisdiction_refusal =
    UNKNOWN_JURISDICTION string
  | VERIFICATION_SOURCE_MISMATCH string string
  | DECLARATION_NOT_PERMITTED declaration_denial
  | ACTIVATION_DENIED string environment "activation_denial list"
  | PACK_FINDINGS string "pack_finding list"
  | ALREADY_ACTIVE string
  | NOT_ACTIVE string "string option"

type_synonym ('w, 'a) jurisdiction_effect = "('w jurisdiction_world_scheme, jurisdiction_refusal governed_error, 'a) effect"

definition MANAGE_ASSIGNMENT :: string where
  "MANAGE_ASSIGNMENT = ''jurisdiction.assignment.manage''"

definition ACTIVATE_PACK :: string where
  "ACTIVATE_PACK = ''jurisdiction.pack.activate''"

definition jurisdiction_entry ::
  "string \<Rightarrow> string option \<Rightarrow> string \<Rightarrow> string \<Rightarrow> string \<Rightarrow> string \<Rightarrow> metadata \<Rightarrow> governed_entry" where
  "jurisdiction_entry actorRef tenantRef action type' i reason after =
     \<lparr>ge_actorRef = actorRef, ge_tenantRef = tenantRef, ge_action = action, ge_resourceType = type', ge_resourceId = i,
      ge_reason = Some reason, ge_before = None, ge_after = Some after\<rparr>"

definition joined_or_none :: "string list \<Rightarrow> json_value" where
  "joined_or_none ids = JsString (if joined ids = [] then ''none'' else joined ids)"

definition assignment_metadata :: "'a tenant_jurisdiction_scheme \<Rightarrow> string list \<Rightarrow> metadata" where
  "assignment_metadata a endedIds =
     [(''jurisdictionCode'', JsString (ja_code a)), (''source'', JsString (ja_source a)),
      (''verificationStatus'', JsString (ja_verification a)), (''supersededAssignmentIds'', joined_or_none endedIds)]"

definition registered :: "governed_deps \<Rightarrow> string \<Rightarrow> ('w, jurisdiction) jurisdiction_effect" where
  "registered d jur =
     thenE (governed_read d ''directory.findJurisdiction'' jur (directory_findJurisdiction jur)) (\<lambda>r.
       case r of None \<Rightarrow> throwE (REFUSED (UNKNOWN_JURISDICTION jur)) | Some j \<Rightarrow> returnE j)"

definition source_refusal :: "string \<Rightarrow> string \<Rightarrow> jurisdiction_refusal option" where
  "source_refusal source verification =
     (if verificationPermittedForSource source verification then None else Some (VERIFICATION_SOURCE_MISMATCH source verification))"

section \<open>Users\<close>

record assign_input =
  aj_target :: consent_principal
  aj_code :: string
  aj_source :: string
  aj_verification :: string
  aj_effectiveFrom :: millis
  aj_reason :: string

definition tenant_row_for :: "governed_deps \<Rightarrow> policy_principal_ref \<Rightarrow> assign_input \<Rightarrow> string \<Rightarrow> tenant_jurisdiction" where
  "tenant_row_for d who i jur =
     \<lparr>ja_id = gd_nextId d, ja_tenantId = cp_tenantId (aj_target i), ja_code = jur, ja_source = aj_source i,
      ja_verification = aj_verification i, ja_effectiveFrom = aj_effectiveFrom i, ja_effectiveTo = None,
      ja_reason = aj_reason i, ja_assignedBy = pp_principalRef who, ja_createdAt = gd_now d\<rparr>"

definition user_row_for :: "governed_deps \<Rightarrow> policy_principal_ref \<Rightarrow> assign_input \<Rightarrow> string \<Rightarrow> user_jurisdiction" where
  "user_row_for d who i jur = tenant_jurisdiction.extend (tenant_row_for d who i jur) (user_jurisdiction.fields (cp_userId (aj_target i)))"

definition checked_assignment :: "governed_deps \<Rightarrow> policy_principal_ref \<Rightarrow> assign_input \<Rightarrow> ('w, jurisdiction) jurisdiction_effect" where
  "checked_assignment d who i =
     thenE (require_that ''source'' (aj_source i \<in> set ASSIGNMENT_SOURCES)) (\<lambda>u.
     thenE (require_that ''verificationStatus'' (aj_verification i \<in> set VERIFICATION_STATUSES)) (\<lambda>u.
     thenE (permit d who MANAGE_ASSIGNMENT) (\<lambda>u.
     thenE (refuse_if (source_refusal (aj_source i) (aj_verification i))) (\<lambda>u.
     thenE (registered d (aj_code i)) (\<lambda>register.
     thenE (require_text ''reason'' (aj_reason i)) (\<lambda>u.
       returnE register))))))"

definition assignUserJurisdiction ::
  "governed_deps \<Rightarrow> policy_principal_ref \<Rightarrow> assign_input \<Rightarrow> ('w, user_jurisdiction) jurisdiction_effect" where
  "assignUserJurisdiction d who i =
     thenE (checked_assignment d who i) (\<lambda>register.
     let a = user_row_for d who i (jurisdiction_code register) in
     thenE (governed_write d ''assignments.endOpen'' (cp_userId (aj_target i)) (users_endOpen (aj_target i) (aj_effectiveFrom i))) (\<lambda>endedIds.
     thenE (governed_write d ''assignments.insert'' (ja_id a) (users_insert (aj_target i) a)) (\<lambda>u.
     thenE (audited d (jurisdiction_entry (pp_principalRef who) (Some (cp_tenantId (aj_target i))) ''jurisdiction.user_assignment.recorded''
         ''user_jurisdiction_assignment'' (ja_id a) (ja_reason a)
         ((''userId'', JsString (cp_userId (aj_target i))) # assignment_metadata a endedIds))) (\<lambda>u.
       returnE a))))"

text \<open>Ending names no row: all open rows of the principal are ended, and there must be one.\<close>

definition some_ended :: "string \<Rightarrow> string \<Rightarrow> string list \<Rightarrow> ('w, unit) jurisdiction_effect" where
  "some_ended resource i ids = (if ids = [] then throwE (NOT_FOUND_RECORD resource i) else returnE ())"

definition endUserJurisdictionAssignment ::
  "governed_deps \<Rightarrow> policy_principal_ref \<Rightarrow> consent_principal \<Rightarrow> millis \<Rightarrow> string \<Rightarrow> ('w, string list) jurisdiction_effect" where
  "endUserJurisdictionAssignment d who target endsAt reason =
     thenE (permit d who MANAGE_ASSIGNMENT) (\<lambda>u.
     thenE (require_text ''reason'' reason) (\<lambda>u.
     thenE (governed_write d ''assignments.endOpen'' (cp_userId target) (users_endOpen target endsAt)) (\<lambda>ids.
     thenE (some_ended ''user_jurisdiction_assignment'' (''open assignment for user '' @ cp_userId target) ids) (\<lambda>u.
     thenE (audited d (jurisdiction_entry (pp_principalRef who) (Some (cp_tenantId target)) ''jurisdiction.user_assignment.ended''
         ''user_jurisdiction_assignment'' (joined ids) reason
         [(''userId'', JsString (cp_userId target)), (''endsAt'', JsString (gd_iso d endsAt))])) (\<lambda>u.
       returnE ids)))))"

definition getEffectiveUserJurisdiction ::
  "governed_deps \<Rightarrow> consent_principal \<Rightarrow> millis \<Rightarrow> ('w, user_jurisdiction jurisdiction_state) jurisdiction_effect" where
  "getEffectiveUserJurisdiction d p at =
     thenE (governed_read d ''assignments.listForPrincipal'' (cp_userId p) (users_list p)) (\<lambda>rows.
       returnE (effectiveJurisdictionState rows at))"

section \<open>Tenants\<close>

definition assignTenantJurisdiction ::
  "governed_deps \<Rightarrow> policy_principal_ref \<Rightarrow> assign_input \<Rightarrow> ('w, tenant_jurisdiction) jurisdiction_effect" where
  "assignTenantJurisdiction d who i =
     thenE (checked_assignment d who i) (\<lambda>register.
     let a = tenant_row_for d who i (jurisdiction_code register) in
     thenE (governed_write d ''tenantAssignments.endOpen'' (cp_tenantId (aj_target i)) (tenants_endOpen (aj_target i) (aj_effectiveFrom i))) (\<lambda>endedIds.
     thenE (governed_write d ''tenantAssignments.insert'' (ja_id a) (tenants_insert (aj_target i) a)) (\<lambda>u.
     thenE (audited d (jurisdiction_entry (pp_principalRef who) (Some (cp_tenantId (aj_target i))) ''jurisdiction.tenant_assignment.recorded''
         ''tenant_jurisdiction_assignment'' (ja_id a) (ja_reason a) (assignment_metadata a endedIds))) (\<lambda>u.
       returnE a))))"

definition endTenantJurisdictionAssignment ::
  "governed_deps \<Rightarrow> policy_principal_ref \<Rightarrow> consent_principal \<Rightarrow> millis \<Rightarrow> string \<Rightarrow> ('w, string list) jurisdiction_effect" where
  "endTenantJurisdictionAssignment d who target endsAt reason =
     thenE (permit d who MANAGE_ASSIGNMENT) (\<lambda>u.
     thenE (require_text ''reason'' reason) (\<lambda>u.
     thenE (governed_write d ''tenantAssignments.endOpen'' (cp_tenantId target) (tenants_endOpen target endsAt)) (\<lambda>ids.
     thenE (some_ended ''tenant_jurisdiction_assignment'' (''open assignment for tenant '' @ cp_tenantId target) ids) (\<lambda>u.
     thenE (audited d (jurisdiction_entry (pp_principalRef who) (Some (cp_tenantId target)) ''jurisdiction.tenant_assignment.ended''
         ''tenant_jurisdiction_assignment'' (joined ids) reason [(''endsAt'', JsString (gd_iso d endsAt))])) (\<lambda>u.
       returnE ids)))))"

definition getEffectiveTenantJurisdiction ::
  "governed_deps \<Rightarrow> consent_principal \<Rightarrow> millis \<Rightarrow> ('w, tenant_jurisdiction jurisdiction_state) jurisdiction_effect" where
  "getEffectiveTenantJurisdiction d p at =
     thenE (governed_read d ''tenantAssignments.listForTenant'' (cp_tenantId p) (tenants_list p)) (\<lambda>rows.
       returnE (effectiveJurisdictionState rows at))"

section \<open>Self-declaration\<close>

text \<open>The dash of the reason (U+2014) stands as its Windows-1252 code.\<close>

definition DECLARED_REASON :: string where
  "DECLARED_REASON = ''subject self-declaration during onboarding; unverified by construction '' @ [CHR 0x97]
     @ '' verification is a separate provider-sourced assignment''"

definition declared_row :: "governed_deps \<Rightarrow> consent_principal \<Rightarrow> string \<Rightarrow> user_jurisdiction" where
  "declared_row d p jur =
     \<lparr>ja_id = gd_nextId d, ja_tenantId = cp_tenantId p, ja_code = jur, ja_source = ''USER_DECLARED'', ja_verification = ''UNVERIFIED'',
      ja_effectiveFrom = gd_now d, ja_effectiveTo = None, ja_reason = DECLARED_REASON, ja_assignedBy = ''user:'' @ cp_userId p,
      ja_createdAt = gd_now d, ja_userId = cp_userId p\<rparr>"

datatype declaration_step = REFUSE declaration_denial | KEEP user_jurisdiction | RECORD

definition declaration_step_for :: "user_jurisdiction jurisdiction_state \<Rightarrow> jurisdiction \<Rightarrow> declaration_step" where
  "declaration_step_for effective register = (case effective of
     VERIFIED_JURISDICTION a \<Rightarrow> REFUSE VERIFIED_ASSIGNMENT_EXISTS
   | UNVERIFIED_JURISDICTION a \<Rightarrow> if ja_code a = jurisdiction_code register then KEEP a else RECORD
   | NO_JURISDICTION \<Rightarrow> RECORD)"

definition declarability_denial :: "jurisdiction \<Rightarrow> millis \<Rightarrow> jurisdiction_refusal option" where
  "declarability_denial register at =
     map_option (\<lambda>r. DECLARATION_NOT_PERMITTED (JURISDICTION_NOT_DECLARABLE r)) (declarabilityRefusalAt register at)"

text \<open>\<open>meanwhile\<close> is what other callers commit after the subject's rows were read.  The answer says whether a row was recorded.\<close>

definition declareOwnJurisdiction ::
  "governed_deps \<Rightarrow> ('w jurisdiction_world_scheme \<Rightarrow> 'w jurisdiction_world_scheme) \<Rightarrow> consent_principal \<Rightarrow> string
     \<Rightarrow> ('w, user_jurisdiction \<times> bool) jurisdiction_effect" where
  "declareOwnJurisdiction d meanwhile p jur =
     thenE (registered d jur) (\<lambda>register.
     thenE (refuse_if (declarability_denial register (gd_now d))) (\<lambda>u.
     thenE (governed_read d ''assignments.listForPrincipal'' (cp_userId p) (users_list p)) (\<lambda>existing.
     case declaration_step_for (effectiveJurisdictionState existing (gd_now d)) register of
       REFUSE r \<Rightarrow> throwE (REFUSED (DECLARATION_NOT_PERMITTED r))
     | KEEP a \<Rightarrow> returnE (a, False)
     | RECORD \<Rightarrow>
         let a = declared_row d p (jurisdiction_code register) in
         thenE (updateE (\<lambda>w. ((), meanwhile w))) (\<lambda>u.
         thenE (governed_write d ''assignments.endOpen'' (cp_userId p) (users_endOpen p (gd_now d))) (\<lambda>endedIds.
         thenE (governed_write d ''assignments.insert'' (ja_id a) (users_insert p a)) (\<lambda>u.
         thenE (audited d (jurisdiction_entry (ja_assignedBy a) (Some (cp_tenantId p)) ''jurisdiction.user_assignment.self_declared''
             ''user_jurisdiction_assignment'' (ja_id a) (ja_reason a) (assignment_metadata a endedIds))) (\<lambda>u.
           returnE (a, True))))))))"

record declarable_jurisdiction =
  dj_jurisdictionId :: string
  dj_code :: string
  dj_countryCode :: string
  dj_countryDisplayNameKey :: string
  dj_type :: jurisdiction_type
  dj_approvalRecorded :: bool

text \<open>The \<open>Map\<close> of the countries: the last entry of a code wins.\<close>

definition country_of :: "country list \<Rightarrow> string \<Rightarrow> country option" where
  "country_of origins cc = List.find (\<lambda>c. country_code c = cc) (rev origins)"

definition declarable_entry :: "country list \<Rightarrow> millis \<Rightarrow> jurisdiction \<Rightarrow> declarable_jurisdiction option" where
  "declarable_entry origins at entry =
     (if declarabilityRefusalAt entry at \<noteq> None then None
      else case country_of origins (jurisdiction_country entry) of
        None \<Rightarrow> None
      | Some origin \<Rightarrow>
          if country_status origin \<noteq> CountryActive then None
          else Some \<lparr>dj_jurisdictionId = jurisdiction_code entry, dj_code = jurisdiction_code entry, dj_countryCode = country_code origin,
                 dj_countryDisplayNameKey = displayNameKey origin, dj_type = jurisdiction_type entry,
                 dj_approvalRecorded = approvalRecorded entry\<rparr>)"

definition listDeclarableJurisdictions :: "governed_deps \<Rightarrow> ('w, declarable_jurisdiction list) jurisdiction_effect" where
  "listDeclarableJurisdictions d =
     thenE (governed_read d ''directory.listJurisdictions'' [] directory_listJurisdictions) (\<lambda>entries.
     thenE (governed_read d ''directory.listCountries'' [] directory_listCountries) (\<lambda>origins.
       returnE (List.map_filter (declarable_entry origins (gd_now d)) entries)))"

section \<open>Pack activation\<close>

fun lifecycle_name :: "lifecycle \<Rightarrow> string" where
  "lifecycle_name L_DRAFT = ''DRAFT''"
| "lifecycle_name L_PENDING_LEGAL_REVIEW = ''PENDING_LEGAL_REVIEW''"
| "lifecycle_name L_APPROVED = ''APPROVED''"
| "lifecycle_name L_RETIRED = ''RETIRED''"

fun environment_name :: "environment \<Rightarrow> string" where
  "environment_name EnvLocal = ''local''"
| "environment_name EnvDev = ''dev''"
| "environment_name EnvStaging = ''staging''"
| "environment_name EnvProduction = ''production''"

definition activation_event ::
  "governed_deps \<Rightarrow> policy_principal_ref \<Rightarrow> policy_pack \<Rightarrow> environment \<Rightarrow> activation_action \<Rightarrow> string \<Rightarrow> string \<Rightarrow> pack_activation" where
  "activation_event d who pack env action jur reason =
     \<lparr>pka_id = gd_nextId d, pka_code = jur, pka_packVersion = pk_version pack, pka_lifecycle = pk_lifecycle pack, pka_environment = env,
      pka_action = action, pka_occurredAt = gd_now d, pka_actor = pp_principalRef who, pka_reason = reason, pka_createdAt = gd_now d\<rparr>"

definition findings_refusal :: "policy_pack \<Rightarrow> string list option \<Rightarrow> jurisdiction_refusal option" where
  "findings_refusal pack disclosureBearing =
     (let findings = validatePack pack DEFAULT_RESOLUTION_STRATEGIES (case disclosureBearing of None \<Rightarrow> [] | Some ids \<Rightarrow> ids)
      in if findings \<noteq> [] then Some (PACK_FINDINGS (pk_version pack) findings) else None)"

definition lifecycle_refusal :: "policy_pack \<Rightarrow> environment \<Rightarrow> jurisdiction_refusal option" where
  "lifecycle_refusal pack env = (case canActivate pack env of
     ActivationAllowed \<Rightarrow> None
   | ActivationDenied reasons \<Rightarrow> Some (ACTIVATION_DENIED (pk_version pack) env reasons))"

definition current_pack :: "governed_deps \<Rightarrow> string \<Rightarrow> environment \<Rightarrow> ('w, active_pack option) jurisdiction_effect" where
  "current_pack d jur env =
     thenE (governed_read d ''ledger.listFor'' jur (activations_listFor jur env)) (\<lambda>events. returnE (deriveActivePack events))"

definition already_active_refusal :: "policy_pack \<Rightarrow> active_pack option \<Rightarrow> jurisdiction_refusal option" where
  "already_active_refusal pack current = (case current of
     None \<Rightarrow> None
   | Some a \<Rightarrow> if ap_packVersion a = pk_version pack then Some (ALREADY_ACTIVE (pk_version pack)) else None)"

definition activation_metadata :: "pack_activation \<Rightarrow> metadata" where
  "activation_metadata e =
     [(''jurisdictionCode'', JsString (pka_code e)), (''packVersion'', JsString (pka_packVersion e)),
      (''packLifecycleAtActivation'', JsString (lifecycle_name (pka_lifecycle e))),
      (''environment'', JsString (environment_name (pka_environment e)))]"

definition activatePackVersion ::
  "governed_deps \<Rightarrow> policy_principal_ref \<Rightarrow> policy_pack \<Rightarrow> environment \<Rightarrow> string list option \<Rightarrow> string \<Rightarrow> ('w, pack_activation) jurisdiction_effect" where
  "activatePackVersion d who pack env disclosureBearing reason =
     thenE (permit d who ACTIVATE_PACK) (\<lambda>u.
     thenE (refuse_if (findings_refusal pack disclosureBearing)) (\<lambda>u.
     thenE (refuse_if (lifecycle_refusal pack env)) (\<lambda>u.
     thenE (registered d (pk_jurisdiction pack)) (\<lambda>register.
     thenE (current_pack d (jurisdiction_code register) env) (\<lambda>current.
     thenE (refuse_if (already_active_refusal pack current)) (\<lambda>u.
     thenE (require_text ''reason'' reason) (\<lambda>u.
     let e = activation_event d who pack env PACK_ACTIVATED (jurisdiction_code register) reason in
     thenE (governed_write d ''ledger.append'' (pka_id e) (activations_append e)) (\<lambda>u.
     thenE (audited d (jurisdiction_entry (pp_principalRef who) None ''jurisdiction.pack.activated'' ''policy_pack_activation'' (pka_id e) reason
         (activation_metadata e @ [(''supersededVersion'', JsString (case current of None \<Rightarrow> ''none'' | Some a \<Rightarrow> ap_packVersion a))]))) (\<lambda>u.
       returnE e)))))))))"

definition not_active_refusal :: "policy_pack \<Rightarrow> active_pack option \<Rightarrow> jurisdiction_refusal option" where
  "not_active_refusal pack current = (case current of
     None \<Rightarrow> Some (NOT_ACTIVE (pk_version pack) None)
   | Some a \<Rightarrow> if ap_packVersion a \<noteq> pk_version pack then Some (NOT_ACTIVE (pk_version pack) (Some (ap_packVersion a))) else None)"

definition retirePackVersion ::
  "governed_deps \<Rightarrow> policy_principal_ref \<Rightarrow> policy_pack \<Rightarrow> environment \<Rightarrow> string \<Rightarrow> ('w, pack_activation) jurisdiction_effect" where
  "retirePackVersion d who pack env reason =
     thenE (permit d who ACTIVATE_PACK) (\<lambda>u.
     thenE (registered d (pk_jurisdiction pack)) (\<lambda>register.
     thenE (current_pack d (jurisdiction_code register) env) (\<lambda>current.
     thenE (refuse_if (not_active_refusal pack current)) (\<lambda>u.
     thenE (require_text ''reason'' reason) (\<lambda>u.
     let e = activation_event d who pack env PACK_RETIRED (jurisdiction_code register) reason in
     thenE (governed_write d ''ledger.append'' (pka_id e) (activations_append e)) (\<lambda>u.
     thenE (audited d (jurisdiction_entry (pp_principalRef who) None ''jurisdiction.pack.retired'' ''policy_pack_activation'' (pka_id e) reason
         [(''jurisdictionCode'', JsString (pka_code e)), (''packVersion'', JsString (pka_packVersion e)),
          (''environment'', JsString (environment_name env))])) (\<lambda>u.
       returnE e)))))))"

definition getActivePackVersion :: "governed_deps \<Rightarrow> string \<Rightarrow> environment \<Rightarrow> ('w, active_pack option) jurisdiction_effect" where
  "getActivePackVersion d jur env =
     thenE (registered d jur) (\<lambda>register. current_pack d (jurisdiction_code register) env)"

end
