(* ===== verification/Jurisdiction_Laws.thy ===== *)
theory Jurisdiction_Laws
  imports Jurisdiction Consent_Laws
begin

text \<open>
  What the tables of the jurisdiction module keep, and which assignment is in effect.
\<close>

section \<open>Effects of the governed shape\<close>

text \<open>
  A relation on worlds that an audit append keeps is kept by every effect of the shared shape whose repository calls keep it.
\<close>

locale governed_relation = step_relation R
  for R :: "'w governed_world_scheme \<Rightarrow> 'w governed_world_scheme \<Rightarrow> bool" +
  assumes audit_only: "R w (w\<lparr>gw_audit := gw_audit w @ es\<rparr>)"
begin

lemma always_guarded:
  "always R (require_text f v)" "always R (require_optional f o')" "always R (require_that f b)"
  "always R (permit d who p)" "always R (found res i r)" "always R (refuse_if e)" "always R (governed_read d c i g)"
  by (simp_all add: always_def step_refl)

lemma always_appended: "always R (audited d e :: ('w, 'r, unit) governed_effect)"
  unfolding always_def
proof
  fix w :: "'w governed_world_scheme"
  obtain es where "snd ((audited d e :: ('w, 'r, unit) governed_effect) w) = w\<lparr>gw_audit := gw_audit w @ es\<rparr>"
    using audited_world by blast
  then show "R w (snd ((audited d e :: ('w, 'r, unit) governed_effect) w))" using audit_only by simp
qed

lemma always_store:
  assumes "\<And>w x w'. f w = Some (x, w') \<Longrightarrow> R w w'"
  shows "always R (governed_write d c i f)"
  using assms step_refl by (auto simp: always_def governed_write_def split: option.splits)

text \<open>What follows a refusal runs only when there was none.\<close>

lemma always_unless:
  assumes "r = None \<Longrightarrow> always R (k ())"
  shows "always R (thenE (refuse_if r) k)"
  using assms step_refl by (cases r) (auto simp: always_def thenE_def refuse_if_def)

lemmas governed_always = always_guarded always_appended always_intros

end

section \<open>The assignment in effect\<close>

lemma later_fold:
  "fold later_assignment as l = m \<Longrightarrow> m \<in> set (l # as) \<and> ja_effectiveFrom l \<le> ja_effectiveFrom m \<and> (\<forall>a \<in> set as. ja_effectiveFrom a \<le> ja_effectiveFrom m)"
proof (induction as arbitrary: l)
  case (Cons a as)
  show ?case using Cons.IH [of "later_assignment a l"] Cons.prems by (auto simp: later_assignment_def split: if_splits)
qed simp

lemma pick_None: "pickEffectiveAssignment as at = None \<longleftrightarrow> (\<forall>a \<in> set as. \<not> jurisdictionActiveAt a at)"
  by (auto simp: pickEffectiveAssignment_def filter_empty_conv split: list.splits)
    (metis filter_empty_conv list.distinct(1))

lemma pick_Some:
  assumes "pickEffectiveAssignment as at = Some m"
  shows "m \<in> set as" "jurisdictionActiveAt m at" "\<And>a. a \<in> set as \<Longrightarrow> jurisdictionActiveAt a at \<Longrightarrow> ja_effectiveFrom a \<le> ja_effectiveFrom m"
proof -
  obtain x xs where f: "filter (\<lambda>a. jurisdictionActiveAt a at) as = x # xs" "fold later_assignment xs x = m"
    using assms by (auto simp: pickEffectiveAssignment_def split: list.splits)
  have s: "{a \<in> set as. jurisdictionActiveAt a at} = set (x # xs)" using f(1) by (metis set_filter)
  have l: "m \<in> set (x # xs)" "\<forall>a \<in> set (x # xs). ja_effectiveFrom a \<le> ja_effectiveFrom m" using later_fold [OF f(2)] by auto
  show "m \<in> set as" "jurisdictionActiveAt m at" using l(1) s by auto
  show "ja_effectiveFrom a \<le> ja_effectiveFrom m" if "a \<in> set as" "jurisdictionActiveAt a at" for a using l(2) s that by blast
qed

lemma pick_latest:
  assumes "m \<in> set as" "jurisdictionActiveAt m at"
    "\<And>a. a \<in> set as \<Longrightarrow> jurisdictionActiveAt a at \<Longrightarrow> a \<noteq> m \<Longrightarrow> ja_effectiveFrom a < ja_effectiveFrom m"
  shows "pickEffectiveAssignment as at = Some m"
proof (cases "pickEffectiveAssignment as at")
  case None then show ?thesis using assms(1,2) by (simp add: pick_None)
next
  case (Some n)
  then have "n = m" using pick_Some [OF Some] assms by fastforce
  then show ?thesis using Some by simp
qed

section \<open>Rows\<close>

lemma subject_bounds:
  assumes "validateContext (subject_context p) DEFAULT_REQUIRED_CONTEXT = Inr v"
  shows "user_assignment_visible v a \<longleftrightarrow> own_assignment p a" "tenant_assignment_visible v t \<longleftrightarrow> tenant_row p t"
proof -
  have "invalid_keys (subject_context p) = []" using validateContext_Inr [OF assms] by blast
  then have "bound_tenant v = Some (pg_uuid (cp_tenantId p))" "bound_user v = Some (pg_uuid (cp_userId p))"
    using bound_of_context(1,2) [OF assms] by simp_all
  then show "user_assignment_visible v a \<longleftrightarrow> own_assignment p a" "tenant_assignment_visible v t \<longleftrightarrow> tenant_row p t"
    by (auto simp: user_assignment_visible_def own_assignment_def tenant_assignment_visible_def tenant_row_def)
qed

lemma users_list_rows: "users_list p w = Some rows \<Longrightarrow> rows = find_many (own_assignment p) earliest_first (jw_users w)"
  by (auto simp: users_list_def in_subject_Some subject_bounds)

lemma tenants_list_rows: "tenants_list p w = Some rows \<Longrightarrow> rows = find_many (tenant_row p) earliest_first (jw_tenants w)"
  by (auto simp: tenants_list_def in_subject_Some subject_bounds)

text \<open>\<open>endOpen\<close> ends exactly the open rows it may see.\<close>

lemma end_open_rows:
  assumes "end_open mine at rows = Some (ids, rows')" "keyed ja_id rows"
  shows "rows' = map (\<lambda>a. if mine a \<and> ja_effectiveTo a = None then ended_assignment at a else a) rows"
    "ids = map ja_id (filter (\<lambda>a. mine a \<and> ja_effectiveTo a = None) rows)"
    "\<forall>a \<in> set rows. mine a \<and> ja_effectiveTo a = None \<longrightarrow> jurisdiction_checks (ended_assignment at a)"
proof -
  show ids: "ids = map ja_id (filter (\<lambda>a. mine a \<and> ja_effectiveTo a = None) rows)"
    using assms(1) by (auto simp: end_open_def Let_def split: if_splits)
  have hit: "mine a \<and> ja_id a \<in> set ids \<longleftrightarrow> mine a \<and> ja_effectiveTo a = None" if a: "a \<in> set rows" for a
  proof
    assume "mine a \<and> ja_id a \<in> set ids"
    then obtain b where "b \<in> set rows" "mine b" "ja_effectiveTo b = None" "ja_id b = ja_id a" "mine a" unfolding ids by auto
    then show "mine a \<and> ja_effectiveTo a = None" using assms(2) a unfolding keyed_def distinct_map inj_on_def by metis
  qed (use a ids in auto)
  have r: "rows' = map (\<lambda>a. if mine a \<and> ja_id a \<in> set ids then ended_assignment at a else a) rows"
    "\<not> list_ex (\<lambda>a. (mine a \<and> ja_id a \<in> set ids) \<and> \<not> (jurisdiction_checks (ended_assignment at a) \<and> jurisdiction_guard a (ended_assignment at a))) rows"
    using assms(1) ids by (auto simp: end_open_def Let_def split: if_splits)
  show "rows' = map (\<lambda>a. if mine a \<and> ja_effectiveTo a = None then ended_assignment at a else a) rows"
    unfolding r(1) by (rule map_cong) (simp_all add: hit)
  show "\<forall>a \<in> set rows. mine a \<and> ja_effectiveTo a = None \<longrightarrow> jurisdiction_checks (ended_assignment at a)"
    using r(2) hit by (auto simp: list_ex_iff)
qed

lemma users_endOpen_rows:
  assumes "users_endOpen p at w = Some (ids, w')" "keyed ja_id (jw_users w)"
  shows "w' = w\<lparr>jw_users := map (\<lambda>a. if own_assignment p a \<and> ja_effectiveTo a = None then ended_assignment at a else a) (jw_users w)\<rparr>"
    "\<forall>a \<in> set (jw_users w). own_assignment p a \<and> ja_effectiveTo a = None \<longrightarrow> jurisdiction_checks (ended_assignment at a)"
proof -
  obtain v rows where v: "validateContext (subject_context p) DEFAULT_REQUIRED_CONTEXT = Inr v"
    "end_open (\<lambda>a. user_assignment_visible v a \<and> own_assignment p a) at (jw_users w) = Some (ids, rows)" "w' = w\<lparr>jw_users := rows\<rparr>"
    using assms(1) unfolding users_endOpen_def in_subject_Some by auto
  have "end_open (own_assignment p) at (jw_users w) = Some (ids, rows)" using v(2) by (simp add: subject_bounds [OF v(1)])
  note e = end_open_rows [OF this assms(2)]
  show "w' = w\<lparr>jw_users := map (\<lambda>a. if own_assignment p a \<and> ja_effectiveTo a = None then ended_assignment at a else a) (jw_users w)\<rparr>"
    using v(3) e(1) by simp
  show "\<forall>a \<in> set (jw_users w). own_assignment p a \<and> ja_effectiveTo a = None \<longrightarrow> jurisdiction_checks (ended_assignment at a)"
    by (rule e(3))
qed

lemma users_insert_rows:
  assumes "users_insert p a w = Some (u, w')"
  shows "w' = w\<lparr>jw_users := jw_users w @ [stored_user_assignment a]\<rparr>" "own_assignment p (stored_user_assignment a)"
    "jurisdiction_checks (stored_user_assignment a)" "pg_uuid (ja_id a) \<notin> ja_id ` set (jw_users w)"
proof -
  have "create_row (same_id ja_id) (stored_user_assignment a) (jw_users w) = Some (jw_users w')"
    "w' = w\<lparr>jw_users := jw_users w @ [stored_user_assignment a]\<rparr> \<and> own_assignment p (stored_user_assignment a) \<and> jurisdiction_checks (stored_user_assignment a)"
    using assms by (auto simp: users_insert_def in_subject_Some Let_def subject_bounds create_row_iff split: if_splits)
  then show "w' = w\<lparr>jw_users := jw_users w @ [stored_user_assignment a]\<rparr>" "own_assignment p (stored_user_assignment a)"
    "jurisdiction_checks (stored_user_assignment a)" "pg_uuid (ja_id a) \<notin> ja_id ` set (jw_users w)"
    by (auto simp: create_row_iff same_id_def stored_user_assignment_def)
qed

section \<open>Histories\<close>

definition jurisdiction_history :: "'a tenant_jurisdiction_scheme \<Rightarrow> 'a tenant_jurisdiction_scheme \<Rightarrow> bool" where
  "jurisdiction_history old new \<longleftrightarrow> new = old \<or> jurisdiction_guard old new \<and> jurisdiction_checks new"

interpretation jurisdiction_rows: evidence_table ja_id jurisdiction_history
proof
  fix r s t :: "'a tenant_jurisdiction_scheme"
  show "jurisdiction_history r r" by (simp add: jurisdiction_history_def)
  show "jurisdiction_history r s \<Longrightarrow> jurisdiction_history s t \<Longrightarrow> jurisdiction_history r t"
    by (auto simp: jurisdiction_history_def jurisdiction_guard_def)
  show "jurisdiction_history r s \<Longrightarrow> ja_id s = ja_id r" by (auto simp: jurisdiction_history_def jurisdiction_guard_def)
qed

lemma end_open_history:
  assumes "end_open mine at rows = Some (ids, rows')"
  shows "table_history ja_id jurisdiction_history rows rows'"
proof -
  let ?hit = "\<lambda>a. mine a \<and> ja_id a \<in> set ids"
  have r: "rows' = map (\<lambda>a. if ?hit a then ended_assignment at a else a) rows"
    "\<not> list_ex (\<lambda>a. ?hit a \<and> \<not> (jurisdiction_checks (ended_assignment at a) \<and> jurisdiction_guard a (ended_assignment at a))) rows"
    using assms by (auto simp: end_open_def Let_def split: if_splits)
  have all: "list_all2 jurisdiction_history rows rows'" unfolding r(1)
    using r(2) by (auto simp: list_all2_map2 list_ex_iff jurisdiction_history_def intro!: list.rel_refl_strong)
  have ids: "map ja_id rows' = map ja_id rows" unfolding r(1) by (simp add: ended_assignment_def)
  show ?thesis unfolding table_history_def
  proof (intro impI conjI)
    assume "keyed ja_id rows"
    then show "keyed ja_id rows'" using ids unfolding keyed_def by (metis (no_types, lifting) imageE image_eqI list.set_map)
    show "\<exists>changed more. rows' = changed @ more \<and> list_all2 jurisdiction_history rows changed" using all by (metis append_Nil2)
  qed
qed

text \<open>An event that opens a pack to an environment other than \<open>local\<close> names an approved one.\<close>

definition honest_activation :: "pack_activation \<Rightarrow> bool" where
  "honest_activation e \<longleftrightarrow> pka_action e \<noteq> PACK_ACTIVATED \<or> pka_environment e = EnvLocal \<or> pka_lifecycle e = L_APPROVED"

definition jurisdiction_sound :: "'w jurisdiction_world_scheme \<Rightarrow> 'w jurisdiction_world_scheme \<Rightarrow> bool" where
  "jurisdiction_sound w w' \<longleftrightarrow> table_history ja_id jurisdiction_history (jw_users w) (jw_users w')
     \<and> table_history ja_id jurisdiction_history (jw_tenants w) (jw_tenants w')
     \<and> (\<exists>more. jw_activations w' = jw_activations w @ more \<and> list_all honest_activation more)
     \<and> (list_all jurisdiction_checks (jw_users w) \<longrightarrow> list_all jurisdiction_checks (jw_users w'))
     \<and> (list_all jurisdiction_checks (jw_tenants w) \<longrightarrow> list_all jurisdiction_checks (jw_tenants w'))"

lemma jurisdiction_sound_trans: "jurisdiction_sound a b \<Longrightarrow> jurisdiction_sound b c \<Longrightarrow> jurisdiction_sound a c"
  unfolding jurisdiction_sound_def by (auto intro: jurisdiction_rows.table_trans)

interpretation jurisdiction_runs: governed_relation jurisdiction_sound
  by unfold_locales
    (auto intro: jurisdiction_sound_trans, simp_all add: jurisdiction_sound_def jurisdiction_rows.table_refl)

lemmas jurisdiction_always = jurisdiction_runs.governed_always

text \<open>Only a table changes.\<close>

lemma checked_rows:
  assumes "list_all2 jurisdiction_history old new" "list_all jurisdiction_checks old"
  shows "list_all jurisdiction_checks new"
  using assms by (induction rule: list_all2_induct) (auto simp: jurisdiction_history_def)


lemma ended_checked: "end_open mine at rows = Some (ids, rows') \<Longrightarrow> list_all jurisdiction_checks rows \<Longrightarrow> list_all jurisdiction_checks rows'"
  by (auto simp: end_open_def Let_def list_all_iff list_ex_iff split: if_splits)

lemma users_endOpen_sound: "users_endOpen p at w = Some (ids, w') \<Longrightarrow> jurisdiction_sound w w'"
  by (auto simp: users_endOpen_def in_subject_Some jurisdiction_sound_def jurisdiction_rows.table_refl
      intro: end_open_history ended_checked)

lemma tenants_endOpen_sound: "tenants_endOpen p at w = Some (ids, w') \<Longrightarrow> jurisdiction_sound w w'"
  by (auto simp: tenants_endOpen_def in_subject_Some jurisdiction_sound_def jurisdiction_rows.table_refl
      intro: end_open_history ended_checked)

lemma row_created:
  assumes "create_row (same_id ja_id) r rows = Some rows'" "pg_uuid (ja_id r) = ja_id r" "jurisdiction_checks r"
  shows "table_history ja_id jurisdiction_history rows rows'" "list_all jurisdiction_checks rows \<Longrightarrow> list_all jurisdiction_checks rows'"
proof -
  show "table_history ja_id jurisdiction_history rows rows'"
    by (rule jurisdiction_rows.table_create [OF assms(1)]) (simp_all add: same_id_def assms(2))
  show "list_all jurisdiction_checks rows \<Longrightarrow> list_all jurisdiction_checks rows'"
    using assms(1,3) by (simp add: create_row_iff)
qed

lemma users_insert_sound: "users_insert p a w = Some (u, w') \<Longrightarrow> jurisdiction_sound w w'"
  by (auto simp: users_insert_def in_subject_Some Let_def jurisdiction_sound_def jurisdiction_rows.table_refl
      stored_user_assignment_def split: if_splits intro: row_created)

lemma tenants_insert_sound: "tenants_insert p a w = Some (u, w') \<Longrightarrow> jurisdiction_sound w w'"
  by (auto simp: tenants_insert_def in_subject_Some Let_def jurisdiction_sound_def jurisdiction_rows.table_refl
      split: if_splits intro: row_created)

lemma activations_append_sound:
  "activations_append e w = Some (u, w') \<Longrightarrow> honest_activation e \<Longrightarrow> jurisdiction_sound w w'"
  by (auto simp: activations_append_def Let_def jurisdiction_sound_def jurisdiction_rows.table_refl create_row_iff
      honest_activation_def split: if_splits)

lemmas jurisdiction_writes = users_endOpen_sound tenants_endOpen_sound users_insert_sound tenants_insert_sound

lemma always_registered:
  "always jurisdiction_sound (registered d jur)" "always jurisdiction_sound (checked_assignment d who i)"
  "always jurisdiction_sound (some_ended r k ids)" "always jurisdiction_sound (current_pack d jur env)"
  unfolding checked_assignment_def registered_def some_ended_def current_pack_def
  by (intro jurisdiction_always)+

lemma always_assignments:
  "always jurisdiction_sound (assignUserJurisdiction d who i)" "always jurisdiction_sound (endUserJurisdictionAssignment d who t at r)"
  "always jurisdiction_sound (assignTenantJurisdiction d who i)" "always jurisdiction_sound (endTenantJurisdictionAssignment d who t at r)"
  unfolding assignUserJurisdiction_def endUserJurisdictionAssignment_def assignTenantJurisdiction_def endTenantJurisdictionAssignment_def Let_def
  by (intro jurisdiction_always always_registered jurisdiction_runs.always_store; (erule jurisdiction_writes)?)+

lemma always_declaration_step:
  assumes "\<And>r. always R (k r)" "\<And>a. always R (l a)" "always R n"
  shows "always R (case s of REFUSE r \<Rightarrow> k r | KEEP a \<Rightarrow> l a | RECORD \<Rightarrow> n)"
  using assms by (cases s) simp_all

lemma always_declaration:
  assumes "\<And>w. jurisdiction_sound w (meanwhile w)"
  shows "always jurisdiction_sound (declareOwnJurisdiction d meanwhile p jur)"
proof -
  have m: "always jurisdiction_sound (updateE (\<lambda>w. ((), meanwhile w)))" using assms by (simp add: always_def)
  show ?thesis unfolding declareOwnJurisdiction_def Let_def
    by (intro jurisdiction_always always_registered m always_declaration_step jurisdiction_runs.always_store; (erule jurisdiction_writes)?)+
qed

lemma activation_is_honest: "lifecycle_refusal pack env = None \<Longrightarrow> honest_activation (activation_event d who pack env PACK_ACTIVATED jur reason)"
  by (auto simp: lifecycle_refusal_def honest_activation_def activation_event_def canActivate_allowed_iff split: activation_decision.splits)

lemma retirement_is_honest: "honest_activation (activation_event d who pack env PACK_RETIRED jur reason)"
  by (simp add: honest_activation_def activation_event_def)

lemma always_packs:
  "always jurisdiction_sound (activatePackVersion d who pack env ids reason)" "always jurisdiction_sound (retirePackVersion d who pack env reason)"
proof -
  show "always jurisdiction_sound (activatePackVersion d who pack env ids reason)"
    unfolding activatePackVersion_def Let_def
    by (rule jurisdiction_always, intro jurisdiction_always, rule jurisdiction_always, intro jurisdiction_always,
        rule jurisdiction_runs.always_unless,
        (intro jurisdiction_always always_registered jurisdiction_runs.always_store; (erule activations_append_sound)?; (erule activation_is_honest)?)+)
  show "always jurisdiction_sound (retirePackVersion d who pack env reason)"
    unfolding retirePackVersion_def Let_def
    by (intro jurisdiction_always always_registered jurisdiction_runs.always_store; (erule activations_append_sound, rule retirement_is_honest)?)+
qed

text \<open>
  The steps of the module.  A self-declaration may be interleaved with any of them, and between two steps the other modules
  may change their own tables in any way.
\<close>

inductive jurisdiction_step :: "'w jurisdiction_world_scheme \<Rightarrow> 'w jurisdiction_world_scheme \<Rightarrow> bool" where
  assign_user_step: "jurisdiction_step w (snd (assignUserJurisdiction d who i w))"
| end_user_step: "jurisdiction_step w (snd (endUserJurisdictionAssignment d who t at reason w))"
| assign_tenant_step: "jurisdiction_step w (snd (assignTenantJurisdiction d who i w))"
| end_tenant_step: "jurisdiction_step w (snd (endTenantJurisdictionAssignment d who t at reason w))"
| declare_step: "(\<And>v. jurisdiction_sound v (meanwhile v)) \<Longrightarrow> jurisdiction_step w (snd (declareOwnJurisdiction d meanwhile p jur w))"
| activate_step: "jurisdiction_step w (snd (activatePackVersion d who pack env ids reason w))"
| retire_step: "jurisdiction_step w (snd (retirePackVersion d who pack env reason w))"
| foreign_step: "jw_users w' = jw_users w \<Longrightarrow> jw_tenants w' = jw_tenants w \<Longrightarrow> jw_activations w' = jw_activations w \<Longrightarrow> jurisdiction_step w w'"

inductive_cases jurisdiction_step_cases: "jurisdiction_step w w'"

lemma jurisdiction_step_sound: "jurisdiction_step w w' \<Longrightarrow> jurisdiction_sound w w'"
  by (induction rule: jurisdiction_step.induct)
    (simp_all only: always_assignments [THEN always_snd] always_declaration [THEN always_snd] always_packs [THEN always_snd],
     simp_all add: jurisdiction_sound_def jurisdiction_rows.table_refl)

lemma jurisdiction_run_sound: "jurisdiction_step\<^sup>*\<^sup>* w w' \<Longrightarrow> jurisdiction_sound w w'"
  by (induction rule: rtranclp_induct) (auto intro: jurisdiction_runs.step_refl jurisdiction_runs.step_trans jurisdiction_step_sound)

end
