(* ===== verification/Composition_Root.thy ===== *)
theory Composition_Root
  imports Jurisdiction Consent Capability_Resolver
begin

text \<open>
  How \<open>apps/api/src/composition\<close> joins the modules: the one derivation of the governing jurisdiction
  (\<open>effective-jurisdiction.ts\<close>), the capability ceiling (\<open>jurisdiction-ceiling-source.ts\<close>), the provenance a consent grant
  pins (\<open>consent-pin-source.ts\<close>) with the endpoint that asks for it (\<open>consent.controller.ts\<close>), and the readers of the
  bootstrap context (\<open>phase35-modules.ts\<close>).  All of them read one world of tables at the instant \<open>gd_now\<close>.
\<close>

section \<open>The governing jurisdiction\<close>

datatype governing_jurisdiction = GOVERNED_BY_NONE | GOVERNED_UNVERIFIED string | GOVERNED_VERIFIED string

definition governing_of :: "user_jurisdiction jurisdiction_state \<Rightarrow> governing_jurisdiction" where
  "governing_of state = (case state of
     NO_JURISDICTION \<Rightarrow> GOVERNED_BY_NONE
   | UNVERIFIED_JURISDICTION a \<Rightarrow> GOVERNED_UNVERIFIED (ja_code a)
   | VERIFIED_JURISDICTION a \<Rightarrow> GOVERNED_VERIFIED (ja_code a))"

definition subject_rows :: "governed_deps \<Rightarrow> consent_principal \<Rightarrow> ('w, user_jurisdiction list) jurisdiction_effect" where
  "subject_rows d p = governed_read d ''assignments.listForPrincipal'' (cp_userId p) (users_list p)"

definition governingJurisdictionFor ::
  "governed_deps \<Rightarrow> string \<Rightarrow> string option \<Rightarrow> ('w, governing_jurisdiction) jurisdiction_effect" where
  "governingJurisdictionFor d userId tenantId = (case tenantId of
     None \<Rightarrow> returnE GOVERNED_BY_NONE
   | Some t \<Rightarrow> thenE (subject_rows d \<lparr>cp_userId = userId, cp_tenantId = t\<rparr>) (\<lambda>rows.
       returnE (governing_of (effectiveJurisdictionState rows (gd_now d)))))"

section \<open>The capability ceiling\<close>

definition DISCLOSURE_BEARING_IDS :: "string list" where
  "DISCLOSURE_BEARING_IDS = filter (\<lambda>i. case map_of CAPABILITY_REGISTRY i of None \<Rightarrow> False | Some c \<Rightarrow> cd_disclosureBearing c) CAPABILITY_IDS"

definition ceiling_request :: "string \<Rightarrow> millis \<Rightarrow> string \<Rightarrow> environment \<Rightarrow> resolve_input" where
  "ceiling_request scope at version env =
     \<lparr>ri_jurisdiction = scope, ri_requestedAt = at, ri_packs = POLICY_PACKS, ri_selection = EXPLICIT_VERSION version, ri_settings = None,
      ri_environment = env, ri_strategies = None, ri_disclosureBearing = Some DISCLOSURE_BEARING_IDS\<rparr>"

text \<open>\<open>None\<close> is the throw of a \<open>PolicyCeilingUnresolvableError\<close> or of the assignment read.\<close>

definition resolved_ceiling :: "string \<Rightarrow> millis \<Rightarrow> environment \<Rightarrow> active_pack \<Rightarrow> ceiling_facts option" where
  "resolved_ceiling scope at env active = (case resolveEffectivePolicy (ceiling_request scope at (ap_packVersion active) env) of
     Inl e \<Rightarrow> Some (PACK_NOT_APPROVED scope (Some (ap_packVersion active)))
   | Inr policy \<Rightarrow>
       if ep_capabilityCeiling policy \<noteq> [] then None
       else Some (RESOLVED_CEILING scope True (ep_packVersion policy) []))"

definition effectivePolicyFor ::
  "governed_deps \<Rightarrow> environment \<Rightarrow> string \<Rightarrow> string option \<Rightarrow> millis \<Rightarrow> 'w jurisdiction_world_scheme \<Rightarrow> ceiling_facts option" where
  "effectivePolicyFor d env tenantId userId at w = (case userId of
     None \<Rightarrow> None
   | Some u \<Rightarrow>
       (case fst (governingJurisdictionFor d u (Some tenantId) w) of
          Inl e \<Rightarrow> None
        | Inr GOVERNED_BY_NONE \<Rightarrow> Some NO_ASSIGNMENT
        | Inr (GOVERNED_UNVERIFIED scope) \<Rightarrow> Some (UNVERIFIED_ASSIGNMENT scope)
        | Inr (GOVERNED_VERIFIED scope) \<Rightarrow>
            (case fst (getActivePackVersion d scope env w) of
               Inr (Some active) \<Rightarrow> resolved_ceiling scope at env active
             | _ \<Rightarrow> Some (PACK_NOT_APPROVED scope None))))"

text \<open>The resolver with this ceiling; the environment is the one the composition was built for.\<close>

definition with_ceiling :: "governed_deps \<Rightarrow> environment \<Rightarrow> 'w jurisdiction_world_scheme \<Rightarrow> resolver_ports \<Rightarrow> resolver_ports" where
  "with_ceiling d env w others = others\<lparr>p_ceiling := (\<lambda>tenantId userId e at. effectivePolicyFor d env tenantId userId at w)\<rparr>"

section \<open>The provenance of a consent grant\<close>

definition pinned :: "governed_deps \<Rightarrow> environment \<Rightarrow> string \<Rightarrow> 'w jurisdiction_world_scheme \<Rightarrow> policy_pin option" where
  "pinned d env jur w = (case fst (getActivePackVersion d jur env w) of
     Inr (Some active) \<Rightarrow> Some \<lparr>pn_policyPackVersion = ap_packVersion active, pn_subjectPolicySelectionVersion = None\<rparr>
   | _ \<Rightarrow> None)"

definition resolvePin :: "governed_deps \<Rightarrow> environment \<Rightarrow> consent_principal \<Rightarrow> ('w, policy_pin option) jurisdiction_effect" where
  "resolvePin d env p =
     thenE (subject_rows d p) (\<lambda>rows.
       case effectiveJurisdictionState rows (gd_now d) of
         NO_JURISDICTION \<Rightarrow> returnE None
       | UNVERIFIED_JURISDICTION a \<Rightarrow> readE (pinned d env (ja_code a))
       | VERIFIED_JURISDICTION a \<Rightarrow> readE (pinned d env (ja_code a)))"

text \<open>\<open>ConsentController.recordAcceptance\<close>; \<open>source\<close> is \<open>policyPinSource\<close>, which may be left out of the module.\<close>

datatype acceptance_failure =
    MISSING_FIELD string
  | PROVENANCE_UNRESOLVED
  | PIN_THREW
  | ACCEPTANCE_FAILED "consent_refusal governed_error"

record acceptance_body =
  ab_legalDocumentVersionId :: "string option"
  ab_purposeRef :: "string option"

definition requireField :: "string \<Rightarrow> string option \<Rightarrow> ('w, acceptance_failure, string) effect" where
  "requireField name v = (case v of
     None \<Rightarrow> throwE (MISSING_FIELD name)
   | Some s \<Rightarrow> if blank s then throwE (MISSING_FIELD name) else returnE s)"

definition asked_pin ::
  "(consent_principal \<Rightarrow> ('w, policy_pin option) jurisdiction_effect) option \<Rightarrow> consent_principal
     \<Rightarrow> ('w jurisdiction_world_scheme, acceptance_failure, policy_pin) effect" where
  "asked_pin source p = (\<lambda>w. case source of
     None \<Rightarrow> (Inl PROVENANCE_UNRESOLVED, w)
   | Some resolve \<Rightarrow> (case resolve p w of
       (Inl e, w') \<Rightarrow> (Inl PIN_THREW, w')
     | (Inr None, w') \<Rightarrow> (Inl PROVENANCE_UNRESOLVED, w')
     | (Inr (Some pin), w') \<Rightarrow> (Inr pin, w')))"

definition accepted ::
  "('w jurisdiction_world_scheme, consent_refusal governed_error, 'a) effect \<Rightarrow> ('w jurisdiction_world_scheme, acceptance_failure, 'a) effect" where
  "accepted m = (\<lambda>w. case m w of (Inl e, w') \<Rightarrow> (Inl (ACCEPTANCE_FAILED e), w') | (Inr x, w') \<Rightarrow> (Inr x, w'))"

definition evidence_of :: "string option \<Rightarrow> string" where
  "evidence_of requestId = ''request:'' @ (case requestId of None \<Rightarrow> ''unidentified'' | Some i \<Rightarrow> i)"

definition recordAcceptance ::
  "governed_deps \<Rightarrow> grant_row list \<Rightarrow> (consent_principal \<Rightarrow> ('w, policy_pin option) jurisdiction_effect) option \<Rightarrow> consent_principal
     \<Rightarrow> string option \<Rightarrow> acceptance_body \<Rightarrow> ('w jurisdiction_world_scheme, acceptance_failure, consent_grant) effect" where
  "recordAcceptance d raced source p requestId body =
     thenE (requireField ''purposeRef'' (ab_purposeRef body)) (\<lambda>purposeRef.
     thenE (asked_pin source p) (\<lambda>pin.
     thenE (requireField ''legalDocumentVersionId'' (ab_legalDocumentVersionId body)) (\<lambda>versionId.
       accepted (recordOwnAcceptance d raced p
         \<lparr>ac_legalDocumentVersionId = versionId, ac_purposeRef = purposeRef, ac_evidenceReference = evidence_of requestId, ac_policyPin = pin\<rparr>))))"

text \<open>\<open>toHttpError\<close>: the status the client sees.\<close>

fun consent_status_code :: "consent_refusal governed_error \<Rightarrow> nat" where
  "consent_status_code (NOT_FOUND_RECORD resource i) = 404"
| "consent_status_code (REFUSED (VERSION_NOT_PUBLISHED v)) = 400"
| "consent_status_code (REFUSED (PURPOSE_NOT_COVERED v purpose)) = 400"
| "consent_status_code (REFUSED (DOCUMENT_NOT_APPLICABLE v e r)) = 400"
| "consent_status_code (REFUSED (AMBIGUOUS_JURISDICTION purpose refs)) = 400"
| "consent_status_code (REFUSED (GRANT_NOT_ACTIVE g s)) = 409"
| "consent_status_code (REFUSED SUBJECT_HAS_NO_ENTITY) = 409"
| "consent_status_code e = 500"

section \<open>The readers of the bootstrap context\<close>

datatype jurisdiction_resolution = STATE_IS governing_jurisdiction | STATE_UNAVAILABLE bool

definition stateFor :: "governed_deps \<Rightarrow> string \<Rightarrow> string option \<Rightarrow> 'w jurisdiction_world_scheme \<Rightarrow> jurisdiction_resolution" where
  "stateFor d userId tenantId w = (case fst (governingJurisdictionFor d userId tenantId w) of
     Inl e \<Rightarrow> STATE_UNAVAILABLE True
   | Inr g \<Rightarrow> STATE_IS g)"

datatype entity_state = ENTITY_ASSIGNED entity_summary | ENTITY_UNASSIGNED | ENTITY_UNAVAILABLE

definition effectiveFor :: "governed_deps \<Rightarrow> string \<Rightarrow> string option \<Rightarrow> 'w entity_world_scheme \<Rightarrow> entity_state" where
  "effectiveFor d userId tenantId w = (case tenantId of
     None \<Rightarrow> ENTITY_UNASSIGNED
   | Some t \<Rightarrow> (case fst (getEffectiveOperatingEntitySummary d t (Some userId) (gd_now d) w) of
       Inr s \<Rightarrow> ENTITY_ASSIGNED s
     | Inl e \<Rightarrow> if e = REFUSED entity_refusal.NO_EFFECTIVE_ENTITY then ENTITY_UNASSIGNED else ENTITY_UNAVAILABLE))"

datatype pack_resolution = PACK_STATUS string lifecycle | PACK_NONE | PACK_UNAVAILABLE bool

definition pack_status_of :: "governed_deps \<Rightarrow> environment \<Rightarrow> string \<Rightarrow> 'w jurisdiction_world_scheme \<Rightarrow> pack_resolution" where
  "pack_status_of d env scope w = (case fst (getActivePackVersion d scope env w) of
     Inl e \<Rightarrow> PACK_UNAVAILABLE (e = STORE_FAILURE)
   | Inr None \<Rightarrow> PACK_NONE
   | Inr (Some active) \<Rightarrow> PACK_STATUS (ap_packVersion active) (ap_lifecycle active))"

definition statusFor :: "governed_deps \<Rightarrow> environment \<Rightarrow> governing_jurisdiction \<Rightarrow> 'w jurisdiction_world_scheme \<Rightarrow> pack_resolution" where
  "statusFor d env g w = (case g of
     GOVERNED_BY_NONE \<Rightarrow> PACK_NONE
   | GOVERNED_UNVERIFIED scope \<Rightarrow> pack_status_of d env scope w
   | GOVERNED_VERIFIED scope \<Rightarrow> pack_status_of d env scope w)"

record bootstrap_capability =
  bc_id :: string
  bc_status :: string
  bc_requirements :: "string list"

fun toBootstrapCapability :: "client_entry \<Rightarrow> bootstrap_capability" where
  "toBootstrapCapability (CE_AVAILABLE i state) = \<lparr>bc_id = i, bc_status = state_text state, bc_requirements = []\<rparr>"
| "toBootstrapCapability (CE_UNAVAILABLE i reason) = \<lparr>bc_id = i, bc_status = ''UNAVAILABLE'', bc_requirements = [denial_text reason]\<rparr>"

datatype capabilities_resolution = CAPABILITIES_ARE "bootstrap_capability list" | CAPABILITIES_UNAVAILABLE bool

fun unknown_capability :: "cap_error \<Rightarrow> bool" where
  "unknown_capability (CAP_UNKNOWN_CAPABILITY i) = True"
| "unknown_capability e = False"

text \<open>\<open>registry\<close> is the view \<open>productionRegistryView\<close> answers at start-up.\<close>

definition resolveFor ::
  "governed_deps \<Rightarrow> environment \<Rightarrow> registry_view \<Rightarrow> resolver_ports \<Rightarrow> string \<Rightarrow> string option \<Rightarrow> 'w jurisdiction_world_scheme \<Rightarrow> cap_audit_entry list
     \<Rightarrow> capabilities_resolution \<times> cap_audit_entry list" where
  "resolveFor d env registry others userId tenantId w trail = (case tenantId of
     None \<Rightarrow> (CAPABILITIES_ARE [], trail)
   | Some t \<Rightarrow>
       (case resolveClientCapabilityView (with_ceiling d env w others) registry (environment_name env)
               \<lparr>rs_tenantId = t, rs_userId = Some userId\<rparr> (gd_now d) trail of
          (Inl e, trail') \<Rightarrow> (CAPABILITIES_UNAVAILABLE (\<not> unknown_capability e), trail')
        | (Inr shown, trail') \<Rightarrow> (CAPABILITIES_ARE (map toBootstrapCapability (cv_capabilities shown)), trail')))"

end
