(* ===== verification/Jurisdiction_Properties.thy ===== *)
theory Jurisdiction_Properties
  imports Jurisdiction_Laws Consent_Properties Composition_Root
begin

text \<open>
  The promises of the jurisdiction module and of the composition that reads it, each with a concrete instance.
\<close>

section \<open>Self-declaration\<close>

definition recorded_declaration :: "governed_deps \<Rightarrow> consent_principal \<Rightarrow> string \<Rightarrow> user_jurisdiction" where
  "recorded_declaration d p jur = stored_user_assignment (declared_row d p jur)"

lemma registered_Inr: "registered d jur w = (Inr j, w') \<longleftrightarrow>
    \<not> gd_down d ''directory.findJurisdiction'' jur \<and> pg_text jur \<and> List.find (\<lambda>j. jurisdiction_code j = jur) (jw_jurisdictions w) = Some j \<and> w' = w"
  by (auto simp: registered_def thenE_Inr governed_success directory_findJurisdiction_def split: option.splits)

lemma registered_code: "registered d jur w = (Inr j, w') \<Longrightarrow> jurisdiction_code j = jur"
  by (auto simp: registered_Inr find_Some_iff)

text \<open>What a declaration that records a row found and did.\<close>

lemma declaration_recorded:
  assumes "declareOwnJurisdiction d meanwhile p jur w = (Inr (a, True), w')"
  obtains rows ids w1 w2 u where "\<not> gd_down d ''assignments.listForPrincipal'' (cp_userId p)" "users_list p w = Some rows"
    "\<nexists>v. effectiveJurisdictionState rows (gd_now d) = VERIFIED_JURISDICTION v"
    "users_endOpen p (gd_now d) (meanwhile w) = Some (ids, w1)" "users_insert p (declared_row d p jur) w1 = Some (u, w2)"
    "a = declared_row d p jur" "\<exists>es. w' = w2\<lparr>gw_audit := gw_audit w2 @ es\<rparr>"
proof -
  obtain j rows where j: "registered d jur w = (Inr j, w)"
    and rows: "\<not> gd_down d ''assignments.listForPrincipal'' (cp_userId p)" "users_list p w = Some rows"
    and k: "(case declaration_step_for (effectiveJurisdictionState rows (gd_now d)) j of
       REFUSE r \<Rightarrow> throwE (REFUSED (DECLARATION_NOT_PERMITTED r))
     | KEEP a \<Rightarrow> returnE (a, False)
     | RECORD \<Rightarrow>
         let a = declared_row d p (jurisdiction_code j) in
         thenE (updateE (\<lambda>w. ((), meanwhile w))) (\<lambda>u.
         thenE (governed_write d ''assignments.endOpen'' (cp_userId p) (users_endOpen p (gd_now d))) (\<lambda>endedIds.
         thenE (governed_write d ''assignments.insert'' (ja_id a) (users_insert p a)) (\<lambda>u.
         thenE (audited d (jurisdiction_entry (ja_assignedBy a) (Some (cp_tenantId p)) ''jurisdiction.user_assignment.self_declared''
             ''user_jurisdiction_assignment'' (ja_id a) (ja_reason a) (assignment_metadata a endedIds))) (\<lambda>u.
           returnE (a, True)))))) w = (Inr (a, True), w')"
    using assms by (auto simp: declareOwnJurisdiction_def thenE_Inr governed_success registered_Inr)
  have code: "jurisdiction_code j = jur" by (rule registered_code [OF j])
  have step: "declaration_step_for (effectiveJurisdictionState rows (gd_now d)) j = RECORD"
    using k by (auto split: declaration_step.splits)
  have none: "\<nexists>v. effectiveJurisdictionState rows (gd_now d) = VERIFIED_JURISDICTION v"
    using step by (auto simp: declaration_step_for_def)
  show ?thesis
    using that [OF rows none] k step code audited_Inr by (fastforce simp: thenE_Inr governed_success Let_def)
qed

lemma declared_fields [simp]:
  "ja_code (recorded_declaration d p jur) = jur" "ja_effectiveFrom (recorded_declaration d p jur) = gd_now d"
  "ja_effectiveTo (recorded_declaration d p jur) = None" "ja_verification (recorded_declaration d p jur) = ''UNVERIFIED''"
  "ja_source (recorded_declaration d p jur) = ''USER_DECLARED''" "ja_id (recorded_declaration d p jur) = pg_uuid (gd_nextId d)"
  by (simp_all add: recorded_declaration_def stored_user_assignment_def declared_row_def)

lemma effective_reads:
  "fst (getEffectiveUserJurisdiction d p at w) = Inr s \<longleftrightarrow>
     \<not> gd_down d ''assignments.listForPrincipal'' (cp_userId p) \<and> (\<exists>rows. users_list p w = Some rows \<and> s = effectiveJurisdictionState rows at)"
  by (auto simp: getEffectiveUserJurisdiction_def thenE_def governed_read_def split: option.splits)


lemma users_list_again: "users_list p w = Some rows \<Longrightarrow> users_list p w' = Some (find_many (own_assignment p) earliest_first (jw_users w'))"
  by (auto simp: users_list_def in_subject_Some subject_bounds)

lemma active_now [simp]: "jurisdictionActiveAt a at \<longleftrightarrow> ja_effectiveFrom a \<le> at \<and> (case ja_effectiveTo a of None \<Rightarrow> True | Some t \<Rightarrow> t > at)"
  by (auto simp: jurisdictionActiveAt_def window_covers_def split: option.splits)

text \<open>A declaration of what already is in force records nothing.\<close>

lemma declaration_kept:
  assumes "declareOwnJurisdiction d meanwhile p jur w = (Inr (a, False), w')"
  shows "w' = w" "ja_code a = jur" "fst (getEffectiveUserJurisdiction d p (gd_now d) w) = Inr (UNVERIFIED_JURISDICTION a)"
proof -
  obtain j rows where j: "registered d jur w = (Inr j, w)" "\<not> gd_down d ''assignments.listForPrincipal'' (cp_userId p)" "users_list p w = Some rows"
    "w' = w" "declaration_step_for (effectiveJurisdictionState rows (gd_now d)) j = KEEP a"
    using assms by (auto simp: declareOwnJurisdiction_def thenE_Inr governed_success registered_Inr Let_def split: declaration_step.splits) (metis declaration_step.exhaust)
  show "w' = w" by (rule j(4))
  have "effectiveJurisdictionState rows (gd_now d) = UNVERIFIED_JURISDICTION a \<and> ja_code a = jur"
    using j(5) registered_code [OF j(1)] by (auto simp: declaration_step_for_def split: jurisdiction_state.splits if_splits)
  then show "ja_code a = jur" "fst (getEffectiveUserJurisdiction d p (gd_now d) w) = Inr (UNVERIFIED_JURISDICTION a)"
    using j(2,3) by (auto simp: effective_reads)
qed

text \<open>The subject's rows after a recorded declaration.\<close>

lemma declaration_rows:
  assumes "keyed ja_id (jw_users w)" "declareOwnJurisdiction d id p jur w = (Inr (a, True), w')"
  shows "jw_users w' = map (\<lambda>a. if own_assignment p a \<and> ja_effectiveTo a = None then ended_assignment (gd_now d) a else a) (jw_users w)
      @ [recorded_declaration d p jur]" "own_assignment p (recorded_declaration d p jur)"
proof -
  obtain rows ids w1 w2 u where e: "users_endOpen p (gd_now d) w = Some (ids, w1)" "users_insert p (declared_row d p jur) w1 = Some (u, w2)"
    "\<exists>es. w' = w2\<lparr>gw_audit := gw_audit w2 @ es\<rparr>"
    by (rule declaration_recorded [OF assms(2)]) simp
  show "jw_users w' = map (\<lambda>a. if own_assignment p a \<and> ja_effectiveTo a = None then ended_assignment (gd_now d) a else a) (jw_users w)
      @ [recorded_declaration d p jur]" "own_assignment p (recorded_declaration d p jur)"
    using e(3) users_endOpen_rows(1) [OF e(1) assms(1)] users_insert_rows(1,2) [OF e(2)] by (auto simp: recorded_declaration_def)
qed

text \<open>
  C9: A self-declaration can only narrow.  When it succeeds, the subject's jurisdiction in force is afterwards an unverified one with
  the declared code, every verified row is one that was verified before, and the rows of everybody else are as they were.
  It is assumed that no row of the table starts at the very instant of the declaration.
\<close>

theorem self_declaration_never_verifies:
  assumes "keyed ja_id (jw_users w)" "\<forall>r \<in> set (jw_users w). ja_effectiveFrom r \<noteq> gd_now d"
    "declareOwnJurisdiction d id p jur w = (Inr (a, recorded), w')"
  shows "(\<exists>r. fst (getEffectiveUserJurisdiction d p (gd_now d) w') = Inr (UNVERIFIED_JURISDICTION r) \<and> ja_code r = jur)
    \<and> (\<forall>r \<in> set (jw_users w'). ja_verification r = ''VERIFIED'' \<longrightarrow> (\<exists>s \<in> set (jw_users w). ja_id s = ja_id r \<and> ja_verification s = ''VERIFIED''))
    \<and> filter (\<lambda>r. \<not> own_assignment p r) (jw_users w') = filter (\<lambda>r. \<not> own_assignment p r) (jw_users w)"
proof (cases recorded)
  case False
  then show ?thesis using declaration_kept [of d id p jur w a w'] assms(3) by auto
next
  case True
  let ?new = "recorded_declaration d p jur"
  let ?f = "\<lambda>a. if own_assignment p a \<and> ja_effectiveTo a = None then ended_assignment (gd_now d) a else a"
  have dec: "declareOwnJurisdiction d id p jur w = (Inr (a, True), w')" using assms(3) True by simp
  note rows = declaration_rows [OF assms(1) dec]
  obtain old where up: "\<not> gd_down d ''assignments.listForPrincipal'' (cp_userId p)" "users_list p w = Some old"
    by (rule declaration_recorded [OF dec])
  let ?list = "find_many (own_assignment p) earliest_first (jw_users w')"
  have "pickEffectiveAssignment ?list (gd_now d) = Some ?new"
  proof (rule pick_latest)
    show "?new \<in> set ?list" using rows by simp
    show "jurisdictionActiveAt ?new (gd_now d)" by simp
    fix r assume r: "r \<in> set ?list" "jurisdictionActiveAt r (gd_now d)" "r \<noteq> ?new"
    then obtain s where s: "s \<in> set (jw_users w)" "r = ?f s" unfolding find_many_set rows(1) set_append set_map by auto
    then have "ja_effectiveFrom r = ja_effectiveFrom s" by (simp add: ended_assignment_def)
    then show "ja_effectiveFrom r < ja_effectiveFrom ?new" using assms(2) s(1) r(2) by force
  qed
  then have "effectiveJurisdictionState ?list (gd_now d) = UNVERIFIED_JURISDICTION ?new"
    by (simp add: effectiveJurisdictionState_def)
  then have "fst (getEffectiveUserJurisdiction d p (gd_now d) w') = Inr (UNVERIFIED_JURISDICTION ?new)"
    unfolding effective_reads using up(1) users_list_again [OF up(2), of w'] by metis
  moreover have "\<exists>s \<in> set (jw_users w). ja_id s = ja_id r \<and> ja_verification s = ''VERIFIED''"
    if "r \<in> set (jw_users w')" "ja_verification r = ''VERIFIED''" for r
    using that unfolding rows(1) by (auto simp: ended_assignment_def split: if_splits)
  moreover have "filter (\<lambda>r. \<not> own_assignment p r) (map ?f xs) = filter (\<lambda>r. \<not> own_assignment p r) xs" for xs
    by (induction xs) (auto simp: ended_assignment_def own_assignment_def)
  ultimately show ?thesis using rows by auto
qed


text \<open>The failures.\<close>

lemma audited_not_refused: "audited d e w \<noteq> (Inl (REFUSED r), w')" "audited d e w \<noteq> (Inl STORE_FAILURE, w')"
  by (auto simp: audited_def split: sum.splits prod.splits)

lemma registered_keeps: "snd (registered d jur w) = w"
  by (auto simp: registered_def thenE_def governed_read_def split: option.splits prod.splits sum.splits)

lemma registered_world: "registered d jur w = (r, w') \<Longrightarrow> w' = w"
  by (metis registered_keeps snd_conv)

lemma declaration_refused:
  "declareOwnJurisdiction d meanwhile p jur w = (answer, w') \<Longrightarrow> answer = Inl (REFUSED e) \<Longrightarrow> w' = w"
  by (auto simp: declareOwnJurisdiction_def thenE_Inl thenE_Inr governed_success registered_Inr Let_def audited_not_refused
      governed_read_def governed_write_def refuse_if_def dest!: registered_world
      split: option.splits if_splits declaration_step.splits prod.splits)

lemma declaration_when_verified:
  assumes "fst (getEffectiveUserJurisdiction d p (gd_now d) w) = Inr (VERIFIED_JURISDICTION v)"
    "declareOwnJurisdiction d meanwhile p jur w = (answer, w')"
  shows "w' = w" "\<exists>e. answer = Inl e"
proof -
  have "w' = w \<and> (\<exists>e. answer = Inl e)"
  proof (cases answer)
    case (Inl e)
    then show ?thesis using assms
      by (auto simp: declareOwnJurisdiction_def thenE_Inl thenE_Inr governed_success registered_Inr Let_def effective_reads
          governed_read_def governed_write_def refuse_if_def declaration_step_for_def dest!: registered_world
          split: option.splits if_splits declaration_step.splits prod.splits jurisdiction_state.splits)
  next
    case (Inr x)
    obtain rows where rows: "users_list p w = Some rows" "effectiveJurisdictionState rows (gd_now d) = VERIFIED_JURISDICTION v"
      using assms(1) unfolding effective_reads by metis
    have False
    proof (cases "snd x")
      case True
      then have "declareOwnJurisdiction d meanwhile p jur w = (Inr (fst x, True), w')" using Inr assms(2) by (metis prod.collapse)
      then show False by (rule declaration_recorded) (use rows in auto)
    next
      case False
      then have "declareOwnJurisdiction d meanwhile p jur w = (Inr (fst x, False), w')" using Inr assms(2) by (metis prod.collapse)
      then show False using declaration_kept(3) assms(1) by fastforce
    qed
    then show ?thesis ..
  qed
  then show "w' = w" "\<exists>e. answer = Inl e" by blast+
qed

lemma declaration_failed:
  "declareOwnJurisdiction d meanwhile p jur w = (answer, w') \<Longrightarrow> answer = Inl STORE_FAILURE
     \<Longrightarrow> w' = w \<or> w' = meanwhile w \<or> (\<exists>ids. users_endOpen p (gd_now d) (meanwhile w) = Some (ids, w'))"
  by (auto simp: declareOwnJurisdiction_def thenE_Inl thenE_Inr governed_success registered_Inr Let_def audited_not_refused
      governed_read_def governed_write_def refuse_if_def dest!: registered_world
      split: option.splits if_splits declaration_step.splits prod.splits)

text \<open>
  C10: A declaration that is refused, or that repeats what already is in force, changes nothing; a verified jurisdiction in force is
  refused whatever other callers do meanwhile; and unless the audit record was lost, a declaration that failed recorded no row.
\<close>

theorem refused_declarations_change_nothing:
  assumes "declareOwnJurisdiction d meanwhile p jur w = (answer, w')"
  shows "(\<forall>e. answer = Inl (REFUSED e) \<longrightarrow> w' = w)
    \<and> (\<forall>a. answer = Inr (a, False) \<longrightarrow> w' = w \<and> ja_code a = jur)
    \<and> (\<forall>v. fst (getEffectiveUserJurisdiction d p (gd_now d) w) = Inr (VERIFIED_JURISDICTION v) \<longrightarrow> w' = w \<and> (\<exists>e. answer = Inl e))
    \<and> (answer = Inl STORE_FAILURE \<longrightarrow> w' = w \<or> w' = meanwhile w \<or> (\<exists>ids. users_endOpen p (gd_now d) (meanwhile w) = Some (ids, w')))"
proof (intro conjI allI impI)
  show "w' = w" if "answer = Inl (REFUSED e)" for e
    using assms that by (rule declaration_refused)
  show "w' = w" "ja_code a = jur" if "answer = Inr (a, False)" for a
    using declaration_kept [of d meanwhile p jur w a w'] assms that by simp_all
next
  fix v assume "fst (getEffectiveUserJurisdiction d p (gd_now d) w) = Inr (VERIFIED_JURISDICTION v)"
  then show "w' = w" "\<exists>e. answer = Inl e" using declaration_when_verified assms by blast+
next
  assume "answer = Inl STORE_FAILURE"
  then show "w' = w \<or> w' = meanwhile w \<or> (\<exists>ids. users_endOpen p (gd_now d) (meanwhile w) = Some (ids, w'))"
    using declaration_failed assms by blast
qed


section \<open>The list and the write path\<close>

fun refused_by_register :: "(jurisdiction_refusal governed_error, 'a) outcome \<Rightarrow> bool" where
  "refused_by_register (Inl (REFUSED (UNKNOWN_JURISDICTION jur))) = True"
| "refused_by_register (Inl (REFUSED (DECLARATION_NOT_PERMITTED (JURISDICTION_NOT_DECLARABLE r)))) = True"
| "refused_by_register answer = False"

lemma register_refusals:
  "refused_by_register answer \<longleftrightarrow> (\<exists>jur. answer = Inl (REFUSED (UNKNOWN_JURISDICTION jur)))
     \<or> (\<exists>r. answer = Inl (REFUSED (DECLARATION_NOT_PERMITTED (JURISDICTION_NOT_DECLARABLE r))))"
  by (cases answer rule: refused_by_register.cases) auto

lemma declaration_register:
  assumes "\<not> gd_down d ''directory.findJurisdiction'' jur" "pg_text jur"
  shows "refused_by_register (fst (declareOwnJurisdiction d meanwhile p jur w)) \<longleftrightarrow>
    (case List.find (\<lambda>j. jurisdiction_code j = jur) (jw_jurisdictions w) of None \<Rightarrow> True | Some j \<Rightarrow> declarabilityRefusalAt j (gd_now d) \<noteq> None)"
proof (cases "List.find (\<lambda>j. jurisdiction_code j = jur) (jw_jurisdictions w)")
  case None
  then show ?thesis using assms
    by (simp add: declareOwnJurisdiction_def thenE_def registered_def governed_read_def directory_findJurisdiction_def)
next
  case (Some j)
  then have reg: "registered d jur w = (Inr j, w)" using assms by (simp add: registered_Inr)
  show ?thesis
  proof (cases "declarabilityRefusalAt j (gd_now d)")
    case r: (Some r)
    then show ?thesis using reg Some by (simp add: declareOwnJurisdiction_def thenE_def refuse_if_def declarability_denial_def)
  next
    case None
    let ?out = "declareOwnJurisdiction d meanwhile p jur w"
    have "\<not> refused_by_register (fst ?out)"
    proof
      assume "refused_by_register (fst ?out)"
      then obtain e w' where out: "?out = (Inl (REFUSED e), w')" "\<nexists>r. e = DECLARATION_NOT_PERMITTED VERIFIED_ASSIGNMENT_EXISTS"
        unfolding register_refusals by (metis declaration_denial.distinct(1) jurisdiction_refusal.distinct(3) jurisdiction_refusal.inject(3) prod.collapse)
      then show False using reg None
        by (auto simp: declareOwnJurisdiction_def thenE_Inl thenE_Inr governed_success Let_def audited_not_refused
            governed_read_def governed_write_def refuse_if_def declarability_denial_def declaration_step_for_def
            split: option.splits if_splits declaration_step.splits prod.splits jurisdiction_state.splits)
    qed
    then show ?thesis using Some None by simp
  qed
qed

lemma find_key_iff:
  assumes "distinct (map key xs)"
  shows "List.find (\<lambda>x. key x = k) xs = Some c \<longleftrightarrow> c \<in> set xs \<and> key c = k"
proof
  show "List.find (\<lambda>x. key x = k) xs = Some c \<Longrightarrow> c \<in> set xs \<and> key c = k"
    by (metis (mono_tags, lifting) find_Some_iff nth_mem)
  show "c \<in> set xs \<and> key c = k \<Longrightarrow> List.find (\<lambda>x. key x = k) xs = Some c"
    using find_distinct_key [OF assms, of c] by simp
qed

lemma country_of_iff:
  assumes "distinct (map country_code origins)"
  shows "country_of origins cc = Some c \<longleftrightarrow> c \<in> set origins \<and> country_code c = cc"
proof -
  have "distinct (map country_code (rev origins))" using assms by (simp flip: rev_map)
  from find_key_iff [OF this] show ?thesis by (simp add: country_of_def)
qed

lemma map_filter_members: "set (List.map_filter f xs) = {y. \<exists>x \<in> set xs. f x = Some y}"
  by (induction xs) (auto simp: List.map_filter_simps split: option.splits)

lemma listed_iff:
  assumes "distinct (map country_code origins)"
  shows "jur \<in> dj_code ` set (List.map_filter (declarable_entry origins at) entries) \<longleftrightarrow>
    (\<exists>j \<in> set entries. jurisdiction_code j = jur \<and> declarabilityRefusalAt j at = None
       \<and> (\<exists>c \<in> set origins. country_code c = jurisdiction_country j \<and> country_status c = CountryActive))"
proof -
  have "(\<exists>x. declarable_entry origins at j = Some x \<and> dj_code x = jur) \<longleftrightarrow> jurisdiction_code j = jur \<and> declarabilityRefusalAt j at = None
       \<and> (\<exists>c \<in> set origins. country_code c = jurisdiction_country j \<and> country_status c = CountryActive)" for j
  proof (cases "country_of origins (jurisdiction_country j)")
    case None
    then have "\<nexists>c. c \<in> set origins \<and> country_code c = jurisdiction_country j" using country_of_iff [OF assms] by (metis option.distinct(1))
    then show ?thesis using None by (auto simp: declarable_entry_def)
  next
    case (Some c)
    then have "b \<in> set origins \<and> country_code b = jurisdiction_country j \<longleftrightarrow> b = c" for b
      using country_of_iff [OF assms] by (metis option.inject)
    then have "(\<exists>c \<in> set origins. country_code c = jurisdiction_country j \<and> country_status c = CountryActive) \<longleftrightarrow> country_status c = CountryActive" by (metis (full_types))
    then show ?thesis using Some by (auto simp: declarable_entry_def)
  qed
  moreover have "jur \<in> dj_code ` set (List.map_filter (declarable_entry origins at) entries)
      \<longleftrightarrow> (\<exists>j \<in> set entries. \<exists>x. declarable_entry origins at j = Some x \<and> dj_code x = jur)" by (auto simp: map_filter_members)
  ultimately show ?thesis by simp
qed


text \<open>
  C14: The list a subject chooses from agrees with the write path: a jurisdiction is on it exactly when the register would let it be
  declared and its country is active, so nothing that is listed is refused by the register.
\<close>

theorem listed_jurisdictions_are_accepted:
  assumes "distinct (map country_code (jw_countries w))" "distinct (map jurisdiction_code (jw_jurisdictions w))"
    "listDeclarableJurisdictions d w = (Inr listed, w')" "\<not> gd_down d ''directory.findJurisdiction'' jur" "pg_text jur"
  shows "jur \<in> dj_code ` set listed \<longleftrightarrow>
    \<not> refused_by_register (fst (declareOwnJurisdiction d meanwhile p jur w))
    \<and> (\<exists>j \<in> set (jw_jurisdictions w). jurisdiction_code j = jur
         \<and> (\<exists>c \<in> set (jw_countries w). country_code c = jurisdiction_country j \<and> country_status c = CountryActive))"
proof -
  let ?countries = "find_many (\<lambda>c. True) (by_code country_code) (jw_countries w)"
  have listed: "listed = List.map_filter (declarable_entry ?countries (gd_now d)) (find_many (\<lambda>j. True) (by_code jurisdiction_code) (jw_jurisdictions w))"
    using assms(3) by (auto simp: listDeclarableJurisdictions_def thenE_Inr governed_success directory_listJurisdictions_def directory_listCountries_def)
  have "mset (map country_code ?countries) = mset (map country_code (jw_countries w))" by (simp add: find_many_def)
  then have dc: "distinct (map country_code ?countries)" using assms(1) mset_eq_imp_distinct_iff by blast
  note reg = find_key_iff [OF assms(2), of jur]
  show ?thesis
  proof (cases "List.find (\<lambda>j. jurisdiction_code j = jur) (jw_jurisdictions w)")
    case None
    then have "\<nexists>j. j \<in> set (jw_jurisdictions w) \<and> jurisdiction_code j = jur" using reg by (metis option.distinct(1))
    then show ?thesis using None unfolding listed listed_iff [OF dc] by auto
  next
    case (Some j)
    then have "i \<in> set (jw_jurisdictions w) \<and> jurisdiction_code i = jur \<longleftrightarrow> i = j" for i using reg by (metis option.inject)
    then have one: "(\<exists>i \<in> set (jw_jurisdictions w). jurisdiction_code i = jur \<and> Q i) \<longleftrightarrow> Q j" for Q by metis
    show ?thesis unfolding listed listed_iff [OF dc] declaration_register [where meanwhile = meanwhile and p = p and w = w, OF assms(4,5)]
      find_many_set by (simp add: Some one)
  qed
qed

text \<open>The converse does not hold for the write path: it does not ask for the country.\<close>

section \<open>The activation ledger\<close>

lemma later_event_fold:
  "fold later_event es l = m \<Longrightarrow> m \<in> set (l # es) \<and> pka_occurredAt l \<le> pka_occurredAt m \<and> (\<forall>e \<in> set es. pka_occurredAt e \<le> pka_occurredAt m)"
proof (induction es arbitrary: l)
  case (Cons e es)
  show ?case using Cons.IH [of "later_event e l"] Cons.prems by (auto simp: later_event_def split: if_splits)
qed simp

definition active_of :: "pack_activation \<Rightarrow> active_pack option" where
  "active_of e = (if pka_action e \<noteq> PACK_ACTIVATED then None
     else Some \<lparr>ap_packVersion = pka_packVersion e, ap_lifecycle = pka_lifecycle e, ap_activatedAt = pka_occurredAt e\<rparr>)"

lemma derive_latest:
  assumes "e \<in> set events" "\<And>x. x \<in> set events \<Longrightarrow> x \<noteq> e \<Longrightarrow> pka_occurredAt x < pka_occurredAt e"
  shows "deriveActivePack events = active_of e"
proof (cases events)
  case (Cons x xs)
  have "fold later_event xs x \<in> set events" "\<forall>y \<in> set events. pka_occurredAt y \<le> pka_occurredAt (fold later_event xs x)"
    using later_event_fold [of xs x] Cons by auto
  then have "fold later_event xs x = e" using assms by (metis linorder_not_less)
  then show ?thesis using Cons by (simp add: deriveActivePack_def active_of_def)
qed (use assms in simp)

lemma derive_member: "deriveActivePack events = Some a \<Longrightarrow> \<exists>e \<in> set events. active_of e = Some a"
proof (cases events)
  case (Cons x xs)
  then show "deriveActivePack events = Some a \<Longrightarrow> \<exists>e \<in> set events. active_of e = Some a"
    using later_event_fold [of xs x] by (auto simp: deriveActivePack_def active_of_def Let_def split: if_splits)
qed (simp add: deriveActivePack_def)

lemma active_pack_reads:
  "fst (getActivePackVersion d jur env w) = Inr a \<longleftrightarrow>
     (\<exists>j. registered d jur w = (Inr j, w)) \<and> \<not> gd_down d ''ledger.listFor'' jur
     \<and> a = deriveActivePack (find_many (\<lambda>e. pka_code e = jur \<and> pka_environment e = env) oldest_event (jw_activations w))"
proof -
  obtain r where r: "registered d jur w = (r, w)" using registered_world by (metis prod.collapse)
  show ?thesis
  proof (cases r)
    case Inl then show ?thesis using r by (simp add: getActivePackVersion_def thenE_def)
  next
    case (Inr j)
    then have "jurisdiction_code j = jur" "pg_text jur" using r registered_code by (auto simp: registered_Inr)
    then show ?thesis using r Inr
      by (auto simp: getActivePackVersion_def current_pack_def thenE_def governed_read_def activations_listFor_def)
  qed
qed

lemma active_pack_honest:
  assumes "fst (getActivePackVersion d jur env w) = Inr (Some a)" "list_all honest_activation (jw_activations w)"
  shows "env = EnvLocal \<or> ap_lifecycle a = L_APPROVED"
proof -
  have "deriveActivePack (find_many (\<lambda>e. pka_code e = jur \<and> pka_environment e = env) oldest_event (jw_activations w)) = Some a"
    using assms(1) unfolding active_pack_reads by metis
  then obtain e where "e \<in> set (jw_activations w)" "pka_environment e = env" "active_of e = Some a" using derive_member by fastforce
  then show ?thesis using assms(2) by (auto simp: list_all_iff honest_activation_def active_of_def split: if_splits)
qed

text \<open>
  C13: Whatever activations and retirements happen, the ledger only grows, and outside the local environment the pack that is active
  for a jurisdiction was approved when it was activated.
\<close>

theorem no_unapproved_pack_outside_local:
  assumes "jurisdiction_step\<^sup>*\<^sup>* w w'" "list_all honest_activation (jw_activations w)"
  shows "(\<exists>more. jw_activations w' = jw_activations w @ more)
    \<and> (\<forall>d jur env a. fst (getActivePackVersion d jur env w') = Inr (Some a) \<longrightarrow> env = EnvLocal \<or> ap_lifecycle a = L_APPROVED)"
proof -
  obtain more where more: "jw_activations w' = jw_activations w @ more" "list_all honest_activation more"
    using jurisdiction_run_sound [OF assms(1)] unfolding jurisdiction_sound_def by blast
  have "list_all honest_activation (jw_activations w')" using assms(2) more by simp
  then show ?thesis using more(1) active_pack_honest by blast
qed


text \<open>What a successful activation or retirement wrote.\<close>

lemma current_pack_Inr: "current_pack d jur env w = (Inr c, w') \<Longrightarrow> \<not> gd_down d ''ledger.listFor'' jur \<and> w' = w"
  by (auto simp: current_pack_def thenE_Inr governed_success)

lemma registered_own: "registered d jur w = (Inr j, w') \<Longrightarrow> jurisdiction_code j = jur \<and> w' = w"
  by (simp add: registered_code registered_world)

lemma append_rows:
  "activations_append e w = Some (u, w') \<Longrightarrow> jw_activations w' = jw_activations w @ [e\<lparr>pka_id := pg_uuid (pka_id e)\<rparr>] \<and> jw_jurisdictions w' = jw_jurisdictions w"
  by (auto simp: activations_append_def Let_def create_row_iff split: if_splits)

lemma audited_ledger: "audited d e w = (Inr u, w') \<Longrightarrow> jw_activations w' = jw_activations w \<and> jw_jurisdictions w' = jw_jurisdictions w"
  by (auto dest: audited_Inr)

lemma ledger_written:
  assumes "activatePackVersion d who pack env ids reason w = (Inr e, w') \<and> action = PACK_ACTIVATED
    \<or> retirePackVersion d who pack env reason w = (Inr e, w') \<and> action = PACK_RETIRED"
  shows "e = activation_event d who pack env action (pk_jurisdiction pack) reason"
    "jw_activations w' = jw_activations w @ [e\<lparr>pka_id := pg_uuid (pka_id e)\<rparr>]" "jw_jurisdictions w' = jw_jurisdictions w"
    "\<exists>j. registered d (pk_jurisdiction pack) w = (Inr j, w)" "\<not> gd_down d ''ledger.listFor'' (pk_jurisdiction pack)"
proof -
  let ?all = "e = activation_event d who pack env action (pk_jurisdiction pack) reason
    \<and> jw_activations w' = jw_activations w @ [e\<lparr>pka_id := pg_uuid (pka_id e)\<rparr>] \<and> jw_jurisdictions w' = jw_jurisdictions w
    \<and> (\<exists>j. registered d (pk_jurisdiction pack) w = (Inr j, w)) \<and> \<not> gd_down d ''ledger.listFor'' (pk_jurisdiction pack)"
  consider "activatePackVersion d who pack env ids reason w = (Inr e, w')" "action = PACK_ACTIVATED"
    | "retirePackVersion d who pack env reason w = (Inr e, w')" "action = PACK_RETIRED" using assms by blast
  then have ?all
  proof cases
    case 1
    then show ?thesis unfolding activatePackVersion_def
      by (clarsimp simp: thenE_Inr governed_success Let_def)
        (frule registered_code, drule registered_world, drule current_pack_Inr, drule append_rows, drule audited_ledger, auto)
  next
    case 2
    then show ?thesis unfolding retirePackVersion_def
      by (clarsimp simp: thenE_Inr governed_success Let_def)
        (frule registered_code, drule registered_world, drule current_pack_Inr, drule append_rows, drule audited_ledger, auto)
  qed
  then show "e = activation_event d who pack env action (pk_jurisdiction pack) reason"
    "jw_activations w' = jw_activations w @ [e\<lparr>pka_id := pg_uuid (pka_id e)\<rparr>]" "jw_jurisdictions w' = jw_jurisdictions w"
    "\<exists>j. registered d (pk_jurisdiction pack) w = (Inr j, w)" "\<not> gd_down d ''ledger.listFor'' (pk_jurisdiction pack)" by blast+
qed

text \<open>
  An activation takes effect from its instant: the version that was activated is the active one for its jurisdiction and
  environment, with the lifecycle it had; a retirement leaves none active; and every other jurisdiction and environment is as
  it was.
\<close>

theorem activation_takes_effect:
  assumes "activatePackVersion d who pack env ids reason w = (Inr e, w') \<and> action = PACK_ACTIVATED
      \<or> retirePackVersion d who pack env reason w = (Inr e, w') \<and> action = PACK_RETIRED"
    "\<forall>x \<in> set (jw_activations w). pka_code x = pk_jurisdiction pack \<and> pka_environment x = env \<longrightarrow> pka_occurredAt x < gd_now d"
  shows "fst (getActivePackVersion d (pk_jurisdiction pack) env w') = Inr (if action = PACK_ACTIVATED
       then Some \<lparr>ap_packVersion = pk_version pack, ap_lifecycle = pk_lifecycle pack, ap_activatedAt = gd_now d\<rparr> else None)
    \<and> (\<forall>jur env'. jur \<noteq> pk_jurisdiction pack \<or> env' \<noteq> env \<longrightarrow> activations_listFor jur env' w' = activations_listFor jur env' w)"
proof
  note l = ledger_written [OF assms(1)]
  let ?e = "e\<lparr>pka_id := pg_uuid (pka_id e)\<rparr>" and ?p = "\<lambda>x. pka_code x = pk_jurisdiction pack \<and> pka_environment x = env"
  have e: "pka_code ?e = pk_jurisdiction pack" "pka_environment ?e = env" "pka_occurredAt ?e = gd_now d" "pka_action ?e = action"
    "pka_packVersion ?e = pk_version pack" "pka_lifecycle ?e = pk_lifecycle pack"
    by (simp_all add: l(1) activation_event_def)
  have "deriveActivePack (find_many ?p oldest_event (jw_activations w')) = active_of ?e"
  proof (rule derive_latest)
    show "?e \<in> set (find_many ?p oldest_event (jw_activations w'))" using e by (simp add: l(2))
    fix x assume "x \<in> set (find_many ?p oldest_event (jw_activations w'))" "x \<noteq> ?e"
    then show "pka_occurredAt x < pka_occurredAt ?e" using assms(2) e(3) by (auto simp: l(2))
  qed
  moreover have "\<exists>j. registered d (pk_jurisdiction pack) w' = (Inr j, w')" using l(3,4) by (auto simp: registered_Inr)
  ultimately have "fst (getActivePackVersion d (pk_jurisdiction pack) env w') = Inr (active_of ?e)"
    unfolding active_pack_reads using l(5) by simp
  then show "fst (getActivePackVersion d (pk_jurisdiction pack) env w') = Inr (if action = PACK_ACTIVATED
       then Some \<lparr>ap_packVersion = pk_version pack, ap_lifecycle = pk_lifecycle pack, ap_activatedAt = gd_now d\<rparr> else None)"
    using e by (simp add: active_of_def)
  show "\<forall>jur env'. jur \<noteq> pk_jurisdiction pack \<or> env' \<noteq> env \<longrightarrow> activations_listFor jur env' w' = activations_listFor jur env' w"
    using e(1,2) by (auto simp: activations_listFor_def find_many_def l(2))
qed

section \<open>Assignments\<close>

lemma history_end:
  assumes "jurisdiction_history r s"
  shows "s = r \<or> ja_effectiveTo r = None \<and> (\<exists>end. s = r\<lparr>ja_effectiveTo := Some end\<rparr> \<and> end > ja_effectiveFrom r)"
proof (cases "s = r")
  case False
  then obtain e where e: "ja_effectiveTo r = None" "s\<lparr>ja_effectiveTo := None\<rparr> = r" "ja_effectiveTo s = Some e" "jurisdiction_checks s"
    using assms by (auto simp: jurisdiction_history_def jurisdiction_guard_def)
  have "s = r\<lparr>ja_effectiveTo := Some e\<rparr>" using e(2,3) by (cases s) auto
  moreover have "e > ja_effectiveFrom r" using e by (auto simp: jurisdiction_checks_def ends_after_def)
  ultimately show ?thesis using e(1) by blast
qed simp

text \<open>
  Assignments are evidence: whatever the module does, with self-declarations interleaved in any way, no row of a user or a
  tenant is removed or rewritten, an open row gains its end once, and a row that its subject declared stays unverified.
\<close>

theorem jurisdictions_are_evidence:
  assumes "jurisdiction_step\<^sup>*\<^sup>* w w'" "keyed ja_id (jw_users w)" "keyed ja_id (jw_tenants w)"
    "list_all jurisdiction_checks (jw_users w)"
  shows "(\<forall>r \<in> set (jw_users w). r \<in> set (jw_users w')
      \<or> ja_effectiveTo r = None \<and> (\<exists>end. r\<lparr>ja_effectiveTo := Some end\<rparr> \<in> set (jw_users w') \<and> end > ja_effectiveFrom r))
    \<and> (\<forall>r \<in> set (jw_tenants w). r \<in> set (jw_tenants w')
      \<or> ja_effectiveTo r = None \<and> (\<exists>end. r\<lparr>ja_effectiveTo := Some end\<rparr> \<in> set (jw_tenants w') \<and> end > ja_effectiveFrom r))
    \<and> (\<forall>r \<in> set (jw_users w'). ja_source r = ''USER_DECLARED'' \<longrightarrow> ja_verification r = ''UNVERIFIED'')"
proof (intro conjI)
  have s: "table_history ja_id jurisdiction_history (jw_users w) (jw_users w')"
    "table_history ja_id jurisdiction_history (jw_tenants w) (jw_tenants w')" "list_all jurisdiction_checks (jw_users w')"
    using jurisdiction_run_sound [OF assms(1)] assms(4) unfolding jurisdiction_sound_def by blast+
  show "\<forall>r \<in> set (jw_users w). r \<in> set (jw_users w')
      \<or> ja_effectiveTo r = None \<and> (\<exists>end. r\<lparr>ja_effectiveTo := Some end\<rparr> \<in> set (jw_users w') \<and> end > ja_effectiveFrom r)"
    using jurisdiction_rows.table_row [OF s(1) assms(2)] history_end by metis
  show "\<forall>r \<in> set (jw_tenants w). r \<in> set (jw_tenants w')
      \<or> ja_effectiveTo r = None \<and> (\<exists>end. r\<lparr>ja_effectiveTo := Some end\<rparr> \<in> set (jw_tenants w') \<and> end > ja_effectiveFrom r)"
    using jurisdiction_rows.table_row [OF s(2) assms(3)] history_end by metis
  show "\<forall>r \<in> set (jw_users w'). ja_source r = ''USER_DECLARED'' \<longrightarrow> ja_verification r = ''UNVERIFIED''"
    using s(3) by (auto simp: list_all_iff jurisdiction_checks_def)
qed


section \<open>The composition\<close>

lemma composed_ceiling: "effectivePolicyFor d env t u at w = Some (RESOLVED_CEILING scope verified version cs) \<Longrightarrow> cs = []"
  by (auto simp: effectivePolicyFor_def resolved_ceiling_def
      split: option.splits sum.splits governing_jurisdiction.splits if_splits)

lemma jurisdiction_gate_closed:
  assumes "snapshotFor ports environment c d ceiling subject now = Some x" "\<And>s v p cs. ceiling = RESOLVED_CEILING s v p cs \<Longrightarrow> cs = []"
  shows "\<not> gate_passes x at G_JURISDICTION"
  using assms(2) snapshot_fields [OF assms(1)] by (cases ceiling) (auto simp: findCleared_def)

lemma denied_by_ceiling:
  assumes "\<not> gate_passes x at G_JURISDICTION"
  shows "gate_of (resolveCapabilityGates x at) \<in> Some ` {G_DESCRIPTOR, G_ENVIRONMENT, G_JURISDICTION}"
  using assms resolve_descriptor [of x at] resolve_environment [of x at] resolve_jurisdiction [of x at] by fastforce

lemma unverified_reason:
  assumes "gi_ceiling x = UNVERIFIED_ASSIGNMENT s" "gate_of (resolveCapabilityGates x at) = Some G_JURISDICTION"
  shows "res_reason (resolveCapabilityGates x at) = DR_JURISDICTION_UNVERIFIED"
  using assms by (auto simp: resolveCapabilityGates_def Let_def split: if_splits)

text \<open>
  C11: Through the composition no capability is available: every resolution over any registry and any rows, entitlements, consents,
  licences and providers is denied at the jurisdiction gate at the latest, and a subject whose jurisdiction in force is
  only declared is denied there for that reason.
\<close>

theorem composition_opens_nothing:
  assumes "resolveCapabilityAvailability (with_ceiling d env w others) registry (environment_name env) input trail = (Inr rset, trail')"
  shows "\<forall>r \<in> set (rset_resolutions rset). gate_of r \<in> Some ` {G_DESCRIPTOR, G_ENVIRONMENT, G_JURISDICTION}
    \<and> (\<forall>u s. rs_userId (ri_subject input) = Some u
         \<and> fst (governingJurisdictionFor d u (Some (rs_tenantId (ri_subject input))) w) = Inr (GOVERNED_UNVERIFIED s)
         \<and> gate_of r = Some G_JURISDICTION \<longrightarrow> res_reason r = DR_JURISDICTION_UNVERIFIED)"
proof
  fix r assume r: "r \<in> set (rset_resolutions rset)"
  let ?ids = "case ri_capabilityIds input of None \<Rightarrow> rv_ids registry | Some is \<Rightarrow> is"
  let ?ports = "with_ceiling d env w others" and ?e = "environment_name env"
  obtain ceiling ins where c: "p_ceiling ?ports (rs_tenantId (ri_subject input)) (rs_userId (ri_subject input)) ?e (ri_now input) = Some ceiling"
    and s: "map (snapshot_of ?ports registry ?e ceiling (ri_subject input) (ri_now input)) ?ids = map Some ins"
    and res: "rset_resolutions rset = map (\<lambda>i. resolveCapabilityGates i (ri_now input)) ins"
    by (rule resolver_Inr [OF assms])
  have ceiling: "effectivePolicyFor d env (rs_tenantId (ri_subject input)) (rs_userId (ri_subject input)) (ri_now input) w = Some ceiling"
    using c by (simp add: with_ceiling_def)
  obtain x where x: "x \<in> set ins" "r = resolveCapabilityGates x (ri_now input)" using r res by auto
  obtain de where sn: "snapshotFor ?ports ?e (gi_capabilityId x) de ceiling (ri_subject input) (ri_now input) = Some x"
    using snapshots_member [OF s x(1)] by (auto simp: snapshot_of_def split: option.splits)
  have "gate_of r \<in> Some ` {G_DESCRIPTOR, G_ENVIRONMENT, G_JURISDICTION}"
    unfolding x(2) by (rule denied_by_ceiling, rule jurisdiction_gate_closed [OF sn]) (use ceiling composed_ceiling in blast)
  moreover have "res_reason r = DR_JURISDICTION_UNVERIFIED"
    if "rs_userId (ri_subject input) = Some u" "gate_of r = Some G_JURISDICTION"
      "fst (governingJurisdictionFor d u (Some (rs_tenantId (ri_subject input))) w) = Inr (GOVERNED_UNVERIFIED scope)" for u scope
  proof -
    have "ceiling = UNVERIFIED_ASSIGNMENT scope" using ceiling that(1,3) by (simp add: effectivePolicyFor_def)
    then have "gi_ceiling x = UNVERIFIED_ASSIGNMENT scope" using snapshot_fields [OF sn] by simp
    then show ?thesis using unverified_reason that(2) x(2) by blast
  qed
  ultimately show "gate_of r \<in> Some ` {G_DESCRIPTOR, G_ENVIRONMENT, G_JURISDICTION}
    \<and> (\<forall>u s. rs_userId (ri_subject input) = Some u
         \<and> fst (governingJurisdictionFor d u (Some (rs_tenantId (ri_subject input))) w) = Inr (GOVERNED_UNVERIFIED s)
         \<and> gate_of r = Some G_JURISDICTION \<longrightarrow> res_reason r = DR_JURISDICTION_UNVERIFIED)" by blast
qed

text \<open>The scope a ceiling speaks of, and the code of the governing jurisdiction.\<close>

fun ceiling_scope :: "ceiling_facts \<Rightarrow> string option" where
  "ceiling_scope NO_ASSIGNMENT = None"
| "ceiling_scope (UNVERIFIED_ASSIGNMENT s) = Some s"
| "ceiling_scope (PACK_NOT_APPROVED s v) = Some s"
| "ceiling_scope (RESOLVED_CEILING s v p cs) = Some s"

fun governing_code :: "governing_jurisdiction \<Rightarrow> string option" where
  "governing_code GOVERNED_BY_NONE = None"
| "governing_code (GOVERNED_UNVERIFIED s) = Some s"
| "governing_code (GOVERNED_VERIFIED s) = Some s"

lemma governing_reads:
  "fst (governingJurisdictionFor d u (Some t) w) = Inr g \<longleftrightarrow>
     \<not> gd_down d ''assignments.listForPrincipal'' u
     \<and> (\<exists>rows. users_list \<lparr>cp_userId = u, cp_tenantId = t\<rparr> w = Some rows \<and> g = governing_of (effectiveJurisdictionState rows (gd_now d)))"
  by (auto simp: governingJurisdictionFor_def subject_rows_def thenE_def governed_read_def split: option.splits)

lemma resolvePin_up:
  assumes "\<not> gd_down d ''assignments.listForPrincipal'' (cp_userId p)" "users_list p w = Some rows"
  shows "fst (resolvePin d env p w) = Inr (case governing_code (governing_of (effectiveJurisdictionState rows (gd_now d))) of
    None \<Rightarrow> None | Some s \<Rightarrow> pinned d env s w)"
  using assms by (auto simp: resolvePin_def subject_rows_def thenE_def governed_read_def governing_of_def split: jurisdiction_state.splits)

lemma pinned_from:
  assumes "fst (resolvePin d env p w) = Inr (Some pin)"
  shows "\<exists>gov s. fst (governingJurisdictionFor d (cp_userId p) (Some (cp_tenantId p)) w) = Inr gov \<and> governing_code gov = Some s \<and> pinned d env s w = Some pin"
proof -
  obtain rows where up: "\<not> gd_down d ''assignments.listForPrincipal'' (cp_userId p)" "users_list p w = Some rows"
    using assms by (auto simp: resolvePin_def subject_rows_def thenE_def governed_read_def split: option.splits if_splits)
  then have "fst (governingJurisdictionFor d (cp_userId p) (Some (cp_tenantId p)) w) = Inr (governing_of (effectiveJurisdictionState rows (gd_now d)))"
    unfolding governing_reads by (cases p) auto
  then show ?thesis using assms unfolding resolvePin_up [OF up] by (auto split: option.splits)
qed

lemma pinned_status: "(\<exists>l. pack_status_of d env s w = PACK_STATUS v l) \<longleftrightarrow> pinned d env s w = Some \<lparr>pn_policyPackVersion = v, pn_subjectPolicySelectionVersion = None\<rparr>"
  by (auto simp: pack_status_of_def pinned_def split: sum.splits option.splits)

text \<open>
  Whoever asks, the answer rests on one jurisdiction: what the bootstrap context reports, the scope of the capability ceiling
  and the pack pinned into a consent grant all are those of the governing jurisdiction, and the pinned pack is the reported one.
\<close>

theorem consumers_agree_on_the_jurisdiction:
  assumes "fst (governingJurisdictionFor d (cp_userId p) (Some (cp_tenantId p)) w) = Inr g"
  shows "stateFor d (cp_userId p) (Some (cp_tenantId p)) w = STATE_IS g
    \<and> (\<forall>at c. effectivePolicyFor d env (cp_tenantId p) (Some (cp_userId p)) at w = Some c \<longrightarrow> ceiling_scope c = governing_code g)
    \<and> (\<forall>v. fst (resolvePin d env p w) = Inr (Some \<lparr>pn_policyPackVersion = v, pn_subjectPolicySelectionVersion = None\<rparr>)
         \<longleftrightarrow> (\<exists>l. statusFor d env g w = PACK_STATUS v l))"
proof (intro conjI allI impI)
  show "stateFor d (cp_userId p) (Some (cp_tenantId p)) w = STATE_IS g" using assms by (simp add: stateFor_def)
  show "ceiling_scope c = governing_code g" if "effectivePolicyFor d env (cp_tenantId p) (Some (cp_userId p)) at w = Some c" for at c
    using that assms
    by (cases g) (auto simp: effectivePolicyFor_def resolved_ceiling_def split: option.splits sum.splits if_splits)
  fix v
  obtain rows where up: "\<not> gd_down d ''assignments.listForPrincipal'' (cp_userId p)" "users_list p w = Some rows"
    and g: "g = governing_of (effectiveJurisdictionState rows (gd_now d))"
    using assms unfolding governing_reads by (cases p) auto
  have pin: "fst (resolvePin d env p w) = Inr (case governing_code g of None \<Rightarrow> None | Some s \<Rightarrow> pinned d env s w)"
    unfolding g by (rule resolvePin_up [OF up])
  show "fst (resolvePin d env p w) = Inr (Some \<lparr>pn_policyPackVersion = v, pn_subjectPolicySelectionVersion = None\<rparr>)
         \<longleftrightarrow> (\<exists>l. statusFor d env g w = PACK_STATUS v l)"
    unfolding pin by (cases g) (simp_all add: statusFor_def pinned_status)
qed


lemma resolvePin_keeps: "snd (resolvePin d env p w) = w"
  by (auto simp: resolvePin_def subject_rows_def thenE_def governed_read_def split: option.splits jurisdiction_state.splits)

lemma asked_pin_Inr:
  "asked_pin (Some (resolvePin d env)) p w = (Inr pin, w') \<longleftrightarrow> w' = w \<and> fst (resolvePin d env p w) = Inr (Some pin)"
  using resolvePin_keeps [of d env p w] by (auto simp: asked_pin_def split: prod.splits sum.splits option.splits)

lemma asked_pin_keeps: "snd (asked_pin (Some (resolvePin d env)) p w) = w"
  using resolvePin_keeps [of d env p w] by (auto simp: asked_pin_def split: prod.splits sum.splits option.splits)

lemma requireField_keeps: "snd (requireField name v w) = w"
  by (auto simp: requireField_def split: option.splits)

lemma requireField_Inr: "requireField name v w = (Inr s, w') \<Longrightarrow> v = Some s \<and> w' = w"
  by (auto simp: requireField_def split: option.splits if_splits)

lemma accepted_Inr: "accepted m w = (Inr x, w') \<longleftrightarrow> m w = (Inr x, w')"
  by (auto simp: accepted_def split: prod.splits sum.splits)

lemma acceptance_asked:
  assumes "recordAcceptance d raced (Some (resolvePin d env)) p requestId body w = (Inr g, w')"
  obtains pin versionId purposeRef where "fst (resolvePin d env p w) = Inr (Some pin)"
    "recordOwnAcceptance d raced p \<lparr>ac_legalDocumentVersionId = versionId, ac_purposeRef = purposeRef,
        ac_evidenceReference = evidence_of requestId, ac_policyPin = pin\<rparr> w = (Inr g, w')"
  using assms unfolding recordAcceptance_def thenE_Inr asked_pin_Inr accepted_Inr
  by (blast dest: requireField_Inr)

lemma acceptance_unasked:
  assumes "\<nexists>pin. fst (resolvePin d env p w) = Inr (Some pin)"
  shows "snd (recordAcceptance d raced (Some (resolvePin d env)) p requestId body w) = w
    \<and> (\<exists>e. fst (recordAcceptance d raced (Some (resolvePin d env)) p requestId body w) = Inl e)"
proof -
  obtain r where r: "asked_pin (Some (resolvePin d env)) p w = (r, w)" by (metis asked_pin_keeps prod.collapse)
  obtain e where e: "r = Inl e"
    using assms r asked_pin_Inr [of d env p w] by (cases r) auto
  obtain q where q: "requireField ''purposeRef'' (ab_purposeRef body) w = (q, w)" by (metis requireField_keeps prod.collapse)
  show ?thesis using r e q by (cases q) (simp_all add: recordAcceptance_def thenE_def)
qed

lemma acceptance_grant:
  "recordOwnAcceptance d raced p i w = (Inr g, w') \<Longrightarrow> cg_policyPackVersion g = Some (pn_policyPackVersion (ac_policyPin i))
     \<and> cg_policyPackPinState g = PACK_PINNED \<and> cg_evidenceReference g = ac_evidenceReference i \<and> cg_userId g = cp_userId p \<and> cg_tenantId g = cp_tenantId p"
  by (auto simp: recordOwnAcceptance_def thenE_Inr Let_def new_grant_def)

text \<open>
  C12: No consent is recorded without provenance.  A grant the endpoint records pins the pack that is active for the subject's own
  governing jurisdiction, outside the local environment an approved one, and names the request as its evidence; when there is
  no such pack nothing is recorded.
\<close>

theorem consent_pins_the_reported_pack:
  assumes "recordAcceptance d raced (Some (resolvePin d env)) p requestId body w = (answer, w')" "list_all honest_activation (jw_activations w)"
  shows "(\<forall>g. answer = Inr g \<longrightarrow> (\<exists>gov v l. fst (governingJurisdictionFor d (cp_userId p) (Some (cp_tenantId p)) w) = Inr gov
        \<and> statusFor d env gov w = PACK_STATUS v l \<and> (env = EnvLocal \<or> l = L_APPROVED)
        \<and> cg_policyPackVersion g = Some v \<and> cg_policyPackPinState g = PACK_PINNED
        \<and> cg_evidenceReference g = evidence_of requestId \<and> cg_userId g = cp_userId p \<and> cg_tenantId g = cp_tenantId p))
    \<and> ((\<nexists>pin. fst (resolvePin d env p w) = Inr (Some pin)) \<longrightarrow> w' = w \<and> (\<exists>e. answer = Inl e))"
proof (intro conjI allI impI)
  fix g assume "answer = Inr g"
  then have acc: "recordAcceptance d raced (Some (resolvePin d env)) p requestId body w = (Inr g, w')" using assms(1) by simp
  obtain pin versionId purposeRef where pin: "fst (resolvePin d env p w) = Inr (Some pin)"
    and own: "recordOwnAcceptance d raced p \<lparr>ac_legalDocumentVersionId = versionId, ac_purposeRef = purposeRef,
        ac_evidenceReference = evidence_of requestId, ac_policyPin = pin\<rparr> w = (Inr g, w')"
    by (rule acceptance_asked [OF acc])
  obtain gov s v where gov: "fst (governingJurisdictionFor d (cp_userId p) (Some (cp_tenantId p)) w) = Inr gov" "governing_code gov = Some s"
    "pinned d env s w = Some pin" "pn_policyPackVersion pin = v"
    using pinned_from [OF pin] by metis
  obtain a where a: "fst (getActivePackVersion d s env w) = Inr (Some a)" "pn_policyPackVersion pin = ap_packVersion a"
    using gov(3) by (auto simp: pinned_def split: sum.splits option.splits)
  have "statusFor d env gov w = PACK_STATUS (ap_packVersion a) (ap_lifecycle a)"
    using gov(2) a(1) by (cases gov) (simp_all add: statusFor_def pack_status_of_def)
  moreover have "env = EnvLocal \<or> ap_lifecycle a = L_APPROVED" by (rule active_pack_honest [OF a(1) assms(2)])
  ultimately show "\<exists>gov v l. fst (governingJurisdictionFor d (cp_userId p) (Some (cp_tenantId p)) w) = Inr gov
        \<and> statusFor d env gov w = PACK_STATUS v l \<and> (env = EnvLocal \<or> l = L_APPROVED)
        \<and> cg_policyPackVersion g = Some v \<and> cg_policyPackPinState g = PACK_PINNED
        \<and> cg_evidenceReference g = evidence_of requestId \<and> cg_userId g = cp_userId p \<and> cg_tenantId g = cp_tenantId p"
    using gov(1) acceptance_grant [OF own] a(2) by auto
next
  assume "\<nexists>pin. fst (resolvePin d env p w) = Inr (Some pin)"
  then show "w' = w" "\<exists>e. answer = Inl e" using acceptance_unasked assms(1) by (metis fst_conv snd_conv)+
qed


section \<open>Instances\<close>

definition register_entry :: "string \<Rightarrow> string \<Rightarrow> lifecycle \<Rightarrow> jurisdiction" where
  "register_entry jur cc status = \<lparr>jurisdiction_id = jur, jurisdiction_code = jur, jurisdiction_country = cc, jurisdiction_type = NATIONAL,
     jurisdiction_status = status, jurisdiction_review = NOT_SUBMITTED, jurisdiction_from = None, jurisdiction_to = None,
     jurisdiction_provenance = ''x''\<rparr>"

definition origin :: "string \<Rightarrow> country_status \<Rightarrow> country" where
  "origin cc status = \<lparr>country_code = cc, displayNameKey = ''k'', defaultCurrency = ''QAR'', country_status = status\<rparr>"

definition lived :: "string \<Rightarrow> string \<Rightarrow> string \<Rightarrow> string \<Rightarrow> millis \<Rightarrow> user_jurisdiction" where
  "lived i jur source verification at = \<lparr>ja_id = i, ja_tenantId = uuid_t, ja_code = jur, ja_source = source, ja_verification = verification,
     ja_effectiveFrom = at, ja_effectiveTo = None, ja_reason = ''r'', ja_assignedBy = ''a'', ja_createdAt = at, ja_userId = uuid_a\<rparr>"

definition registry_world :: "user_jurisdiction list \<Rightarrow> pack_activation list \<Rightarrow> jurisdiction_world" where
  "registry_world users events = \<lparr>gw_audit = [], ew_entities = [bank], ew_permissions = [], ew_licences = [], ew_roles = [],
     ew_assignments = [bound_to_bank], ew_migrations = [], cw_documents = [terms], cw_versions = one_version, cw_grants = [],
     cw_evaluations = [], cw_bases = [],
     jw_jurisdictions = [register_entry ''QA'' ''QA'' L_DRAFT, register_entry ''BH'' ''BH'' L_DRAFT, register_entry ''XX'' ''QA'' L_RETIRED],
     jw_countries = [origin ''QA'' CountryActive, origin ''BH'' CountryRetired],
     jw_settings = [], jw_users = users, jw_tenants = [], jw_activations = events\<rparr>"

definition declared_bh :: user_jurisdiction where
  "declared_bh = lived uuid_t ''BH'' ''USER_DECLARED'' ''UNVERIFIED'' 10"

definition verified_bh :: user_jurisdiction where
  "verified_bh = lived uuid_t ''BH'' ''PROVIDER_VERIFIED'' ''VERIFIED'' 10"

lemma declared_qa:
  "case declareOwnJurisdiction open_deps id subject_a ''QA'' (registry_world [declared_bh] []) of
     (Inr (a, b), w') \<Rightarrow> b \<and> map ja_id (jw_users w') = [uuid_t, uuid_b] \<and> map ja_effectiveTo (jw_users w') = [Some 50, None] | (Inl e, w') \<Rightarrow> False"
  by code_simp

lemma activated_qa:
  "case activatePackVersion open_deps operator_ref QA_V1 EnvLocal None ''r'' (registry_world [declared_bh] []) of
     (Inr e, w') \<Rightarrow> length (jw_activations w') = 1 | (Inl e, w') \<Rightarrow> False"
  by code_simp


lemma declared_run:
  obtains a w' where "declareOwnJurisdiction open_deps id subject_a ''QA'' (registry_world [declared_bh] []) = (Inr (a, True), w')"
    "map ja_id (jw_users w') = [uuid_t, uuid_b]" "map ja_effectiveTo (jw_users w') = [Some 50, None]"
    "jurisdiction_step\<^sup>*\<^sup>* (registry_world [declared_bh] []) w'"
proof -
  let ?out = "declareOwnJurisdiction open_deps id subject_a ''QA'' (registry_world [declared_bh] [])"
  obtain a w' where r: "?out = (Inr (a, True), w')" "map ja_id (jw_users w') = [uuid_t, uuid_b]" "map ja_effectiveTo (jw_users w') = [Some 50, None]"
    using declared_qa by (auto split: prod.splits sum.splits)
  have "jurisdiction_step (registry_world [declared_bh] []) (snd ?out)"
    by (rule declare_step) (simp add: jurisdiction_runs.step_refl)
  then show ?thesis using that [OF r] r(1) by (simp add: r_into_rtranclp)
qed

lemma activated_run:
  obtains e w' where "activatePackVersion open_deps operator_ref QA_V1 EnvLocal None ''r'' (registry_world [declared_bh] []) = (Inr e, w')"
    "length (jw_activations w') = 1" "jurisdiction_step\<^sup>*\<^sup>* (registry_world [declared_bh] []) w'"
proof -
  let ?out = "activatePackVersion open_deps operator_ref QA_V1 EnvLocal None ''r'' (registry_world [declared_bh] [])"
  obtain e w' where r: "?out = (Inr e, w')" "length (jw_activations w') = 1"
    using activated_qa by (auto split: prod.splits sum.splits)
  have "jurisdiction_step (registry_world [declared_bh] []) (snd ?out)" by (rule activate_step)
  then show ?thesis using that [OF r] r(1) by (simp add: r_into_rtranclp)
qed

lemma sample_rows:
  "keyed ja_id (jw_users (registry_world [declared_bh] []))" "keyed ja_id (jw_tenants (registry_world [declared_bh] []))"
  "list_all jurisdiction_checks (jw_users (registry_world [declared_bh] []))" "declared_bh \<in> set (jw_users (registry_world [declared_bh] []))"
  by (simp_all add: registry_world_def declared_bh_def lived_def keyed_def sample_ids jurisdiction_checks_def ASSIGNMENT_SOURCES_def
      VERIFICATION_STATUSES_def filled_text_def pg_text_def ends_after_def)

theorem self_declaration_never_verifies_witness:
  "\<exists>a w' r. declareOwnJurisdiction open_deps id subject_a ''QA'' (registry_world [declared_bh] []) = (Inr (a, True), w')
     \<and> fst (getEffectiveUserJurisdiction open_deps subject_a 50 w') = Inr (UNVERIFIED_JURISDICTION r) \<and> ja_code r = ''QA''"
proof -
  obtain a w' where r: "declareOwnJurisdiction open_deps id subject_a ''QA'' (registry_world [declared_bh] []) = (Inr (a, True), w')"
    by (rule declared_run)
  have now: "gd_now open_deps = 50" by (simp add: open_deps_def)
  have "\<forall>x \<in> set (jw_users (registry_world [declared_bh] [])). ja_effectiveFrom x \<noteq> gd_now open_deps"
    by (simp add: now registry_world_def declared_bh_def lived_def)
  then show ?thesis using self_declaration_never_verifies [OF sample_rows(1) _ r] r unfolding now by blast
qed

theorem refused_declarations_change_nothing_witness:
  "snd (declareOwnJurisdiction open_deps id subject_a ''QA'' (registry_world [verified_bh] [])) = registry_world [verified_bh] []
     \<and> (\<exists>e. fst (declareOwnJurisdiction open_deps id subject_a ''QA'' (registry_world [verified_bh] [])) = Inl e)"
proof -
  have "fst (getEffectiveUserJurisdiction open_deps subject_a (gd_now open_deps) (registry_world [verified_bh] [])) = Inr (VERIFIED_JURISDICTION verified_bh)"
    by code_simp
  then show ?thesis
    using refused_declarations_change_nothing [of open_deps id subject_a "''QA''" "registry_world [verified_bh] []", OF prod.collapse [symmetric]] by blast
qed

theorem listed_jurisdictions_are_accepted_witness:
  "\<exists>listed w'. listDeclarableJurisdictions open_deps (registry_world [] []) = (Inr listed, w') \<and> map dj_code listed = [''QA'']
     \<and> \<not> refused_by_register (fst (declareOwnJurisdiction open_deps id subject_a ''QA'' (registry_world [] [])))"
proof -
  have "result_map (fst (listDeclarableJurisdictions open_deps (registry_world [] []))) (map dj_code) = Inr [''QA'']" by code_simp
  from result_pair_Inr [OF this] obtain listed w' where
    l: "listDeclarableJurisdictions open_deps (registry_world [] []) = (Inr listed, w')" "map dj_code listed = [''QA'']" by auto
  have d: "distinct (map country_code (jw_countries (registry_world [] [])))" "distinct (map jurisdiction_code (jw_jurisdictions (registry_world [] [])))"
    by (simp_all add: registry_world_def origin_def register_entry_def)
  have q: "''QA'' \<in> dj_code ` set listed" using l(2) by (metis list.set_intros(1) list.set_map)
  have up: "\<not> gd_down open_deps ''directory.findJurisdiction'' ''QA''" "pg_text ''QA''" by (simp_all add: pg_text_def open_deps_def)
  have n: "\<not> refused_by_register (fst (declareOwnJurisdiction open_deps id subject_a ''QA'' (registry_world [] [])))"
    using listed_jurisdictions_are_accepted [OF d l(1) up, where meanwhile = id and p = subject_a] q by metis
  show ?thesis by (rule exI [of _ listed], rule exI [of _ w'], intro conjI l n)
qed

theorem no_unapproved_pack_outside_local_witness:
  "\<exists>w' e. jurisdiction_step\<^sup>*\<^sup>* (registry_world [declared_bh] []) w' \<and> jw_activations w' = jw_activations (registry_world [declared_bh] []) @ [e]"
proof -
  obtain w' where w': "jurisdiction_step\<^sup>*\<^sup>* (registry_world [declared_bh] []) w'" "length (jw_activations w') = 1" by (rule activated_run)
  have "list_all honest_activation (jw_activations (registry_world [declared_bh] []))" by (simp add: registry_world_def)
  then obtain more where "jw_activations w' = jw_activations (registry_world [declared_bh] []) @ more"
    using no_unapproved_pack_outside_local [OF w'(1)] by blast
  then show ?thesis using w' by (auto simp: registry_world_def length_Suc_conv)
qed

theorem activation_takes_effect_witness:
  "\<exists>e w'. activatePackVersion open_deps operator_ref QA_V1 EnvLocal None ''r'' (registry_world [declared_bh] []) = (Inr e, w')
     \<and> fst (getActivePackVersion open_deps (pk_jurisdiction QA_V1) EnvLocal w')
         = Inr (Some \<lparr>ap_packVersion = pk_version QA_V1, ap_lifecycle = pk_lifecycle QA_V1, ap_activatedAt = gd_now open_deps\<rparr>)"
proof -
  obtain e w' where r: "activatePackVersion open_deps operator_ref QA_V1 EnvLocal None ''r'' (registry_world [declared_bh] []) = (Inr e, w')"
    by (rule activated_run)
  have "\<forall>x \<in> set (jw_activations (registry_world [declared_bh] [])). pka_code x = pk_jurisdiction QA_V1 \<and> pka_environment x = EnvLocal
      \<longrightarrow> pka_occurredAt x < gd_now open_deps" by (simp add: registry_world_def)
  then show ?thesis using activation_takes_effect [of open_deps operator_ref QA_V1 EnvLocal None "''r''" _ e w' PACK_ACTIVATED] r by auto
qed

theorem jurisdictions_are_evidence_witness:
  "\<exists>w' end. jurisdiction_step\<^sup>*\<^sup>* (registry_world [declared_bh] []) w' \<and> declared_bh\<lparr>ja_effectiveTo := Some end\<rparr> \<in> set (jw_users w') \<and> end > 10"
proof -
  obtain w' where w': "map ja_id (jw_users w') = [uuid_t, uuid_b]" "map ja_effectiveTo (jw_users w') = [Some 50, None]"
    "jurisdiction_step\<^sup>*\<^sup>* (registry_world [declared_bh] []) w'" by (rule declared_run)
  have "uuid_t \<noteq> uuid_b" by code_simp
  then have "declared_bh \<notin> set (jw_users w')" using w'(1,2) by (auto simp: map_eq_Cons_conv declared_bh_def lived_def)
  then show ?thesis using jurisdictions_are_evidence [OF w'(3) sample_rows(1-3)] sample_rows(4) w'(3)
    by (fastforce simp: declared_bh_def lived_def)
qed


theorem composition_opens_nothing_witness:
  "\<exists>rset trail'. resolveCapabilityAvailability (with_ceiling open_deps EnvDev (registry_world [declared_bh] []) open_ports) goals_registry
       (environment_name EnvDev) \<lparr>ri_subject = \<lparr>rs_tenantId = uuid_t, rs_userId = Some uuid_a\<rparr>, ri_now = 3, ri_capabilityIds = None\<rparr> [] = (Inr rset, trail')
     \<and> map gate_of (rset_resolutions rset) = [Some G_JURISDICTION] \<and> map res_reason (rset_resolutions rset) = [DR_JURISDICTION_UNVERIFIED]"
proof -
  let ?in = "\<lparr>ri_subject = \<lparr>rs_tenantId = uuid_t, rs_userId = Some uuid_a\<rparr>, ri_now = 3, ri_capabilityIds = None\<rparr>"
  let ?out = "resolveCapabilityAvailability (with_ceiling open_deps EnvDev (registry_world [declared_bh] []) open_ports) goals_registry
       (environment_name EnvDev) ?in []"
  have "result_map (fst ?out) (\<lambda>r. map gate_of (rset_resolutions r)) = Inr [Some G_JURISDICTION]" by code_simp
  from result_pair_Inr [OF this] obtain rset trail' where r: "?out = (Inr rset, trail')" "map gate_of (rset_resolutions rset) = [Some G_JURISDICTION]" by auto
  have g: "fst (governingJurisdictionFor open_deps uuid_a (Some uuid_t) (registry_world [declared_bh] [])) = Inr (GOVERNED_UNVERIFIED ''BH'')" by code_simp
  obtain x where x: "rset_resolutions rset = [x]" "gate_of x = Some G_JURISDICTION" using r(2) by (auto simp: map_eq_Cons_conv)
  have "res_reason x = DR_JURISDICTION_UNVERIFIED" using composition_opens_nothing [OF r(1)] x g by auto
  then show ?thesis using r x by auto
qed

theorem consumers_agree_on_the_jurisdiction_witness:
  "stateFor open_deps uuid_a (Some uuid_t) (registry_world [declared_bh] []) = STATE_IS (GOVERNED_UNVERIFIED ''BH'')"
proof -
  have "fst (governingJurisdictionFor open_deps (cp_userId subject_a) (Some (cp_tenantId subject_a)) (registry_world [declared_bh] []))
      = Inr (GOVERNED_UNVERIFIED ''BH'')" by code_simp
  from consumers_agree_on_the_jurisdiction [OF this] show ?thesis by (simp add: subject_a_def)
qed

definition bh_active :: pack_activation where
  "bh_active = \<lparr>pka_id = uuid_a, pka_code = ''BH'', pka_packVersion = ''bh/v1'', pka_lifecycle = L_APPROVED, pka_environment = EnvProduction,
     pka_action = PACK_ACTIVATED, pka_occurredAt = 20, pka_actor = ''a'', pka_reason = ''r'', pka_createdAt = 20\<rparr>"

definition accept_terms :: acceptance_body where
  "accept_terms = \<lparr>ab_legalDocumentVersionId = Some version_one, ab_purposeRef = Some ''p''\<rparr>"

lemma accepted_terms:
  "case recordAcceptance open_deps [] (Some (resolvePin open_deps EnvProduction)) subject_a (Some ''q'') accept_terms
       (registry_world [declared_bh] [bh_active]) of
     (Inr g, w') \<Rightarrow> cg_policyPackVersion g = Some ''bh/v1'' | (Inl e, w') \<Rightarrow> False"
  by code_simp

theorem consent_pins_the_reported_pack_witness:
  "\<exists>g w' gov v. recordAcceptance open_deps [] (Some (resolvePin open_deps EnvProduction)) subject_a (Some ''q'') accept_terms
       (registry_world [declared_bh] [bh_active]) = (Inr g, w')
     \<and> statusFor open_deps EnvProduction gov (registry_world [declared_bh] [bh_active]) = PACK_STATUS v L_APPROVED \<and> cg_policyPackVersion g = Some v"
proof -
  obtain g w' where r: "recordAcceptance open_deps [] (Some (resolvePin open_deps EnvProduction)) subject_a (Some ''q'') accept_terms
       (registry_world [declared_bh] [bh_active]) = (Inr g, w')" using accepted_terms by (auto split: prod.splits sum.splits)
  have "list_all honest_activation (jw_activations (registry_world [declared_bh] [bh_active]))"
    by (simp add: registry_world_def honest_activation_def bh_active_def)
  from consent_pins_the_reported_pack [OF r this] r show ?thesis by blast
qed


section \<open>Where the code does less than its comments say\<close>

text \<open>
  The list of declarable jurisdictions hides those of a retired country, the write path accepts them.
\<close>

lemma hidden_jurisdictions_can_be_declared:
  "case declareOwnJurisdiction open_deps id subject_a ''BH'' (registry_world [] []) of (Inr (a, b), w') \<Rightarrow> b | (Inl e, w') \<Rightarrow> False"
  "result_map (fst (listDeclarableJurisdictions open_deps (registry_world [] []))) (map dj_code) = Inr [''QA'']"
  by code_simp+

text \<open>A verification that commits after the subject's rows were read is ended by the self-declaration.\<close>

lemma declaration_ends_a_concurrent_verification:
  "case declareOwnJurisdiction open_deps (\<lambda>w. w\<lparr>jw_users := [verified_bh]\<rparr>) subject_a ''QA'' (registry_world [] []) of
     (Inr (a, b), w') \<Rightarrow> map ja_effectiveTo (jw_users w') = [Some 50, None] | (Inl e, w') \<Rightarrow> False"
  by code_simp

text \<open>The end of the old row and the insert of the new one are two transactions: when the second fails, the subject has no jurisdiction.\<close>

lemma failed_declaration_leaves_none:
  "case declareOwnJurisdiction (open_deps\<lparr>gd_down := (\<lambda>c i. c = ''assignments.insert'')\<rparr>) id subject_a ''QA'' (registry_world [declared_bh] []) of
     (Inr x, w') \<Rightarrow> False
   | (Inl e, w') \<Rightarrow> e = STORE_FAILURE \<and> fst (getEffectiveUserJurisdiction open_deps subject_a 50 w') = Inr NO_JURISDICTION"
  by code_simp

end
