(* ===== verification/Bootstrap.thy ===== *)
theory Bootstrap
  imports Tenant_Switch Composition_Root
begin

text \<open>
  The bootstrap module (\<open>modules/bootstrap\<close>): the context a client starts from, and the two ways a session comes to be bound to
  a tenant.  Its ports are bound as \<open>apps/api/src/composition\<close> binds them: the tenant context and the switch are those of
  tenancy, the session ports those of identity, the audit trail the platform's (\<open>BootstrapAuditTrail\<close> is the adapter tenancy
  has), and the readers of the context are arguments, which \<open>composed_readers\<close> binds to \<open>Composition_Root\<close>.  Between the bind of
  a session and the second look at the membership other transactions may commit (\<open>sx_meanwhile\<close>).
\<close>

section \<open>Types\<close>

record boot_principal =
  bo_userId :: string
  bo_sessionId :: string
  bo_tenantId :: "string option"
  bo_emailVerified :: bool
  bo_requestId :: "string option"

datatype boot_error =
    BOOT_UNAUTHENTICATED
  | CONTEXT_UNAVAILABLE
  | RESOLUTION_UNAVAILABLE bool
  | INVALID_TENANT_SELECTION
  | MEMBERSHIP_REQUIRED
  | BINDING_CONFLICT
  | BINDING_REVOKED_CONCURRENTLY

text \<open>A use case answers an error or its promise rejects.\<close>

datatype boot_exit = FAILS boot_error | REJECTS

type_synonym 'a boot_effect = "(binding_world, boot_exit, 'a) effect"

datatype binding_state = STATE_UNBOUND | STATE_BOUND tenant_choice | STATE_SELECTION "tenant_choice list"

fun choicesOf :: "tenant_context \<Rightarrow> tenant_choice list" where
  "choicesOf UNBOUND = []"
| "choicesOf (AUTO_BIND t choice) = [choice]"
| "choicesOf (TENANT_SELECTION_REQUIRED choices) = choices"

definition choiceFor :: "tenant_context \<Rightarrow> string \<Rightarrow> tenant_choice option" where
  "choiceFor resolution tenantId = List.find (\<lambda>c. tc_tenantId c = tenantId) (choicesOf resolution)"

definition stateForChoices :: "tenant_choice list \<Rightarrow> binding_state" where
  "stateForChoices choices = (if choices = [] then STATE_UNBOUND else STATE_SELECTION choices)"

record boot_readers =
  bs_stateFor :: "string \<Rightarrow> string option \<Rightarrow> jurisdiction_resolution"
  bs_entityFor :: "string \<Rightarrow> string option \<Rightarrow> entity_state"
  bs_packFor :: "governing_jurisdiction \<Rightarrow> pack_resolution"
  bs_capabilitiesFor :: "string \<Rightarrow> string option \<Rightarrow> capabilities_resolution"

definition composed_readers ::
  "governed_deps \<Rightarrow> environment \<Rightarrow> registry_view \<Rightarrow> resolver_ports \<Rightarrow> cap_audit_entry list \<Rightarrow> 'w jurisdiction_world_scheme \<Rightarrow> boot_readers" where
  "composed_readers d env registry others trail w =
     \<lparr>bs_stateFor = (\<lambda>u t. stateFor d u t w), bs_entityFor = (\<lambda>u t. effectiveFor d u t w), bs_packFor = (\<lambda>g. statusFor d env g w),
      bs_capabilitiesFor = (\<lambda>u t. fst (resolveFor d env registry others u t w trail))\<rparr>"

text \<open>\<open>be_audit\<close> is the environment of the module's own audit records.\<close>

record boot_env =
  be_switch :: switch_env
  be_audit :: tenancy_deps
  be_readers :: boot_readers

record boot_view =
  bv_userId :: string
  bv_emailVerified :: bool
  bv_sessionId :: string
  bv_binding :: binding_state
  bv_jurisdiction :: governing_jurisdiction
  bv_entity :: entity_state
  bv_pack :: "(string \<times> lifecycle) option"
  bv_capabilities :: "bootstrap_capability list"

section \<open>Ports\<close>

definition boot_actor :: "boot_principal \<Rightarrow> policy_actor" where
  "boot_actor p = \<lparr>pa_userId = bo_userId p, pa_tenantId = None, pa_sessionId = Some (bo_sessionId p), pa_requestId = bo_requestId p\<rparr>"

text \<open>A port that answers a \<open>Result\<close>; and a session port, whose other failures are throws.\<close>

definition answered :: "'a binding_effect \<Rightarrow> (tenancy_error + 'a) boot_effect" where
  "answered m = (\<lambda>w. case m w of (r, w') \<Rightarrow> (Inr r, w'))"

definition asked :: "'a binding_effect \<Rightarrow> 'a boot_effect" where
  "asked m = (\<lambda>w. case m w of (Inl e, w') \<Rightarrow> (Inl REJECTS, w') | (Inr x, w') \<Rightarrow> (Inr x, w'))"

definition resolve_context :: "tenancy_deps \<Rightarrow> boot_principal \<Rightarrow> (tenancy_error + tenant_context) boot_effect" where
  "resolve_context d p = answered (on_tenancy (resolveTenantContext d (Some (boot_actor p))))"

definition bind_session :: "switch_env \<Rightarrow> boot_principal \<Rightarrow> string \<Rightarrow> (identity_error + (string \<times> string)) boot_effect" where
  "bind_session x p tenantId =
     asked (session_port (bindSessionTenant (sx_identity x) (sx_now x) (bo_userId p) (bo_sessionId p) tenantId (sx_client x)))"

definition revoke_session :: "switch_env \<Rightarrow> boot_principal \<Rightarrow> string \<Rightarrow> (identity_error + unit) boot_effect" where
  "revoke_session x p sid = asked (session_port (revokeSession (sx_identity x) (sx_now x) (bo_userId p) sid (sx_client x)))"

text \<open>The answer of the audit trail: whether the record was written.\<close>

definition boot_record :: "tenancy_deps \<Rightarrow> trail_entry \<Rightarrow> bool boot_effect" where
  "boot_record d e = thenE (asked (on_tenancy (tenancy_audit d e))) (\<lambda>failure. returnE (failure = None))"

fun binding_denial_text :: "identity_error \<Rightarrow> string" where
  "binding_denial_text SESSION_NOT_FOUND = ''session_not_found''"
| "binding_denial_text (ALREADY_BOUND t) = ''already_bound''"
| "binding_denial_text e = ''bind_conflict''"

definition boot_entry ::
  "tenancy_deps \<Rightarrow> boot_principal \<Rightarrow> string \<Rightarrow> string \<Rightarrow> string option \<Rightarrow> (string \<times> string) list option \<Rightarrow> (string \<times> string) list option
     \<Rightarrow> string \<Rightarrow> trail_entry" where
  "boot_entry d p tenantId action reason before after result =
     \<lparr>te_occurredAt = yd_now d, te_actorRef = ''user:'' @ bo_userId p, te_tenantRef = Some (''tenant:'' @ tenantId), te_action = action,
      te_resourceType = ''identity_session'', te_resourceId = bo_sessionId p, te_reason = reason, te_requestId = bo_requestId p,
      te_before = before, te_after = after, te_outcome = result\<rparr>"

definition meanwhile_step :: "switch_env \<Rightarrow> unit boot_effect" where
  "meanwhile_step x = updateE (\<lambda>w. ((), w\<lparr>bw_tenancy := sx_meanwhile x (bw_tenancy w)\<rparr>))"

text \<open>The second look at the membership; an answer that is an error counts as none.\<close>

definition recheck_choice :: "switch_env \<Rightarrow> boot_principal \<Rightarrow> string \<Rightarrow> tenant_choice option boot_effect" where
  "recheck_choice x p tenantId =
     thenE (resolve_context (sx_after x) p) (\<lambda>r. returnE (case r of Inl e \<Rightarrow> None | Inr resolution \<Rightarrow> choiceFor resolution tenantId))"

section \<open>GetBootstrap\<close>

definition AUTO_BIND_ACTION :: string where
  "AUTO_BIND_ACTION = ''platform.bootstrap.auto_bind''"

definition auto_bind_audited :: "boot_env \<Rightarrow> boot_principal \<Rightarrow> string \<Rightarrow> string option \<Rightarrow> string \<Rightarrow> bool boot_effect" where
  "auto_bind_audited x p tenantId reason result =
     boot_record (be_audit x) (boot_entry (be_audit x) p tenantId AUTO_BIND_ACTION reason None
       (if result = ''SUCCESS'' then Some [(''tenantId'', tenantId)] else None) result)"

definition autoBind :: "boot_env \<Rightarrow> boot_principal \<Rightarrow> string \<Rightarrow> binding_state boot_effect" where
  "autoBind x p tenantId =
     (if \<not> isUuid tenantId then throwE REJECTS
      else
        thenE (bind_session (be_switch x) p tenantId) (\<lambda>bound. case bound of
            Inl e \<Rightarrow>
              thenE (auto_bind_audited x p tenantId (Some (binding_denial_text e)) ''DENIED'') (\<lambda>written.
                if written then returnE STATE_UNBOUND else throwE (FAILS CONTEXT_UNAVAILABLE))
          | Inr b \<Rightarrow>
              thenE (meanwhile_step (be_switch x)) (\<lambda>u.
              thenE (recheck_choice (be_switch x) p tenantId) (\<lambda>choice. case choice of
                  None \<Rightarrow>
                    thenE (revoke_session (be_switch x) p (bo_sessionId p)) (\<lambda>ignored.
                    thenE (auto_bind_audited x p tenantId (Some ''membership_revoked_concurrently'') ''DENIED'') (\<lambda>written.
                      if written then returnE STATE_UNBOUND else throwE (FAILS CONTEXT_UNAVAILABLE)))
                | Some c \<Rightarrow>
                    thenE (auto_bind_audited x p tenantId None ''SUCCESS'') (\<lambda>written.
                      if written then returnE (STATE_BOUND c)
                      else thenE (revoke_session (be_switch x) p (bo_sessionId p)) (\<lambda>ignored. throwE (FAILS CONTEXT_UNAVAILABLE)))))))"

text \<open>The binding the context is assembled under.\<close>

definition current_binding :: "boot_env \<Rightarrow> boot_principal \<Rightarrow> binding_state boot_effect" where
  "current_binding x p =
     thenE (resolve_context (sx_before (be_switch x)) p) (\<lambda>r. case r of
         Inl e \<Rightarrow> throwE (FAILS CONTEXT_UNAVAILABLE)
       | Inr resolution \<Rightarrow> (case bo_tenantId p of
           Some bound \<Rightarrow> returnE (case choiceFor resolution bound of
               Some choice \<Rightarrow> STATE_BOUND choice
             | None \<Rightarrow> stateForChoices (choicesOf resolution))
         | None \<Rightarrow> (case resolution of
             AUTO_BIND tenantId choice \<Rightarrow> autoBind x p tenantId
           | _ \<Rightarrow> returnE (stateForChoices (choicesOf resolution)))))"

definition effective_tenant :: "binding_state \<Rightarrow> string option" where
  "effective_tenant b = (case b of STATE_BOUND choice \<Rightarrow> Some (tc_tenantId choice) | _ \<Rightarrow> None)"

text \<open>The sections of the context; a section that did not answer fails the request, whichever it is.\<close>

definition assembled :: "boot_readers \<Rightarrow> boot_principal \<Rightarrow> binding_state \<Rightarrow> boot_error + boot_view" where
  "assembled readers p binding =
     (let tenantId = effective_tenant binding
      in case bs_stateFor readers (bo_userId p) tenantId of
           STATE_UNAVAILABLE retryable \<Rightarrow> Inl (RESOLUTION_UNAVAILABLE retryable)
         | STATE_IS g \<Rightarrow> (case bs_packFor readers g of
             PACK_UNAVAILABLE retryable \<Rightarrow> Inl (RESOLUTION_UNAVAILABLE retryable)
           | pack \<Rightarrow> (case bs_capabilitiesFor readers (bo_userId p) tenantId of
               CAPABILITIES_UNAVAILABLE retryable \<Rightarrow> Inl (RESOLUTION_UNAVAILABLE retryable)
             | CAPABILITIES_ARE cs \<Rightarrow> Inr
                 \<lparr>bv_userId = bo_userId p, bv_emailVerified = bo_emailVerified p, bv_sessionId = bo_sessionId p, bv_binding = binding,
                  bv_jurisdiction = g, bv_entity = bs_entityFor readers (bo_userId p) tenantId,
                  bv_pack = (case pack of PACK_STATUS v l \<Rightarrow> Some (v, l) | _ \<Rightarrow> None), bv_capabilities = cs\<rparr>)))"

definition caught :: "'a boot_effect \<Rightarrow> 'a boot_effect" where
  "caught m = (\<lambda>w. case m w of (Inl REJECTS, w') \<Rightarrow> (Inl (FAILS CONTEXT_UNAVAILABLE), w') | (r, w') \<Rightarrow> (r, w'))"

definition getBootstrap :: "boot_env \<Rightarrow> boot_principal \<Rightarrow> boot_view boot_effect" where
  "getBootstrap x p =
     caught (thenE (current_binding x p) (\<lambda>binding. case assembled (be_readers x) p binding of
         Inl e \<Rightarrow> throwE (FAILS e)
       | Inr v \<Rightarrow> returnE v))"

section \<open>SetTenantBinding\<close>

datatype set_binding_result = TENANT_BOUND tenant_choice | TENANT_SWITCHED tenant_choice issued_session

definition binding_audited ::
  "boot_env \<Rightarrow> boot_principal \<Rightarrow> string \<Rightarrow> string \<Rightarrow> string option \<Rightarrow> string \<Rightarrow> string \<Rightarrow> bool boot_effect" where
  "binding_audited x p tenantId action previousTenantId reason result =
     boot_record (be_audit x) (boot_entry (be_audit x) p tenantId action (if reason = [] then None else Some reason)
       (if result = ''SUCCESS'' then Some [(''tenantId'', or_empty previousTenantId)] else None)
       (if result = ''SUCCESS'' then Some [(''tenantId'', tenantId)] else None) result)"

definition BOUND_ACTION :: string where
  "BOUND_ACTION = ''platform.tenant_binding.bound''"

definition SWITCHED_ACTION :: string where
  "SWITCHED_ACTION = ''platform.tenant_binding.switched''"

definition firstBind :: "boot_env \<Rightarrow> boot_principal \<Rightarrow> string \<Rightarrow> tenant_choice \<Rightarrow> set_binding_result boot_effect" where
  "firstBind x p target targetChoice =
     (if \<not> isUuid target then throwE (FAILS INVALID_TENANT_SELECTION)
      else thenE (bind_session (be_switch x) p target) (\<lambda>bound. case bound of
         Inl e \<Rightarrow> throwE (FAILS BINDING_CONFLICT)
       | Inr b \<Rightarrow>
           thenE (meanwhile_step (be_switch x)) (\<lambda>u.
           thenE (recheck_choice (be_switch x) p target) (\<lambda>still. case still of
               None \<Rightarrow>
                 thenE (revoke_session (be_switch x) p (bo_sessionId p)) (\<lambda>ignored.
                 thenE (binding_audited x p target BOUND_ACTION None ''membership_revoked_concurrently'' ''DENIED'') (\<lambda>written.
                   throwE (FAILS (if written then BINDING_REVOKED_CONCURRENTLY else CONTEXT_UNAVAILABLE))))
             | Some c \<Rightarrow>
                 thenE (binding_audited x p target BOUND_ACTION None [] ''SUCCESS'') (\<lambda>written.
                   if written then returnE (TENANT_BOUND targetChoice)
                   else thenE (revoke_session (be_switch x) p (bo_sessionId p)) (\<lambda>ignored. throwE (FAILS CONTEXT_UNAVAILABLE)))))))"

fun selection_error :: "tenancy_error \<Rightarrow> boot_error" where
  "selection_error MISSING_PRINCIPAL_CONTEXT = BOOT_UNAUTHENTICATED"
| "selection_error MEMBERSHIP_NOT_FOUND = MEMBERSHIP_REQUIRED"
| "selection_error MEMBERSHIP_REVOKED_CONCURRENTLY = BINDING_REVOKED_CONCURRENTLY"
| "selection_error BINDING_FAILED = BINDING_CONFLICT"
| "selection_error e = CONTEXT_UNAVAILABLE"

definition switch_binding :: "boot_env \<Rightarrow> boot_principal \<Rightarrow> string \<Rightarrow> tenant_choice \<Rightarrow> set_binding_result boot_effect" where
  "switch_binding x p target targetChoice =
     thenE (answered (switchTenant (be_switch x) target (Some (boot_actor p)))) (\<lambda>switched. case switched of
         Inl e \<Rightarrow> throwE (FAILS (selection_error e))
       | Inr s \<Rightarrow>
           thenE (binding_audited x p target SWITCHED_ACTION (Some (ts_previousTenantId s)) [] ''SUCCESS'') (\<lambda>written.
             if written then returnE (TENANT_SWITCHED targetChoice (ts_session s))
             else thenE (revoke_session (be_switch x) p (is_sessionId (ts_session s))) (\<lambda>ignored. throwE (FAILS CONTEXT_UNAVAILABLE))))"

text \<open>
  The body's \<open>tenantId\<close> is \<open>None\<close> unless it is a string.  \<open>execute\<close> returns the promises of \<open>firstBind\<close> and \<open>switch\<close> without
  awaiting them, so that its \<open>catch\<close> does not see their rejections.
\<close>

definition setTenantBinding :: "boot_env \<Rightarrow> string option \<Rightarrow> boot_principal \<Rightarrow> set_binding_result boot_effect" where
  "setTenantBinding x tenantId p = (case tenantId of
     None \<Rightarrow> throwE (FAILS INVALID_TENANT_SELECTION)
   | Some target \<Rightarrow>
       if \<not> isUuid target then throwE (FAILS INVALID_TENANT_SELECTION)
       else
         thenE (caught (resolve_context (sx_before (be_switch x)) p)) (\<lambda>r. case r of
             Inl e \<Rightarrow> throwE (FAILS CONTEXT_UNAVAILABLE)
           | Inr resolution \<Rightarrow> (case choiceFor resolution target of
               None \<Rightarrow> throwE (FAILS MEMBERSHIP_REQUIRED)
             | Some choice \<Rightarrow>
                 if bo_tenantId p = None then firstBind x p target choice else switch_binding x p target choice)))"

section \<open>The answers of the endpoint\<close>

text \<open>The detail of a problem is the message of its error, which is fixed, and is left out.\<close>

record boot_problem =
  bp_status :: nat
  bp_title :: string
  bp_code :: string
  bp_retryable :: "bool option"

definition bootstrapUnavailableProblem :: "bool \<Rightarrow> boot_problem" where
  "bootstrapUnavailableProblem retryable =
     \<lparr>bp_status = 503, bp_title = ''Bootstrap unavailable'', bp_code = ''BOOTSTRAP_UNAVAILABLE'', bp_retryable = Some retryable\<rparr>"

fun problemForBootstrapError :: "boot_error \<Rightarrow> boot_problem" where
  "problemForBootstrapError BOOT_UNAUTHENTICATED =
     \<lparr>bp_status = 401, bp_title = ''Authentication required'', bp_code = ''AUTHENTICATION_REQUIRED'', bp_retryable = None\<rparr>"
| "problemForBootstrapError INVALID_TENANT_SELECTION =
     \<lparr>bp_status = 400, bp_title = ''Invalid tenant selection'', bp_code = ''INVALID_TENANT_SELECTION'', bp_retryable = None\<rparr>"
| "problemForBootstrapError MEMBERSHIP_REQUIRED =
     \<lparr>bp_status = 403, bp_title = ''Membership required'', bp_code = ''MEMBERSHIP_REQUIRED'', bp_retryable = None\<rparr>"
| "problemForBootstrapError BINDING_CONFLICT =
     \<lparr>bp_status = 409, bp_title = ''Binding conflict'', bp_code = ''BINDING_CONFLICT'', bp_retryable = None\<rparr>"
| "problemForBootstrapError BINDING_REVOKED_CONCURRENTLY =
     \<lparr>bp_status = 409, bp_title = ''Membership revoked concurrently'', bp_code = ''MEMBERSHIP_REVOKED_CONCURRENTLY'', bp_retryable = None\<rparr>"
| "problemForBootstrapError CONTEXT_UNAVAILABLE = bootstrapUnavailableProblem True"
| "problemForBootstrapError (RESOLUTION_UNAVAILABLE retryable) = bootstrapUnavailableProblem retryable"

end
