(* ===== verification/Bootstrap_Properties.thy ===== *)
theory Bootstrap_Properties
  imports Bootstrap Tenant_Switch_Laws
begin

text \<open>
  What the bootstrap endpoints promise: a tenant is presented as bound only where the caller has a usable membership in it, a
  context is assembled from sections that answered, and a refused selection makes no session live, but for a switch of tenancy
  whose second verification cannot read the store.
\<close>

section \<open>Ports\<close>

definition bound_to :: "identity_world \<Rightarrow> string \<Rightarrow> string \<Rightarrow> string \<Rightarrow> bool" where
  "bound_to i account sid tenant \<longleftrightarrow>
     (\<exists>s \<in> set (w_sessions i). se_id s = sid \<and> se_accountId s = account \<and> se_revokedAt s = None \<and> se_tenantBinding s = Some tenant)"

definition recorded :: "tenancy_world \<Rightarrow> tenancy_world \<Rightarrow> string \<Rightarrow> string \<Rightarrow> bool" where
  "recorded t t' action result \<longleftrightarrow> (\<exists>ev. tw_audit t' = tw_audit t @ [ev] \<and> av_action ev = action \<and> av_outcome ev = result)"

lemma asked_Inr: "asked m w = (Inr x, w') \<longleftrightarrow> m w = (Inr x, w')"
  by (auto simp: asked_def split: prod.splits sum.splits)

lemma asked_Inl: "asked m w = (Inl e, w') \<Longrightarrow> e = REJECTS"
  by (auto simp: asked_def split: prod.splits sum.splits)

lemma choiceFor_offered: "choiceFor c tenantId = Some choice \<Longrightarrow> choice \<in> set (offered c) \<and> tc_tenantId choice = tenantId"
proof -
  have "choicesOf c = offered c" by (cases c) (simp_all add: offered_def)
  then show "choiceFor c tenantId = Some choice \<Longrightarrow> choice \<in> set (offered c) \<and> tc_tenantId choice = tenantId"
    unfolding choiceFor_def by (auto simp: find_Some_iff)
qed

text \<open>Asking for the context answers, and an answer that is a context only names what the caller may use.\<close>

lemma resolve_context_choice:
  assumes "canonical_tenants (bw_tenancy w)" "resolve_context d p w = (Inr (Inr c), w')"
  shows "w' = w"
    and "choiceFor c tenantId = Some choice
      \<Longrightarrow> tc_tenantId choice = tenantId \<and> (\<exists>m. usable (bw_tenancy w) (yd_now d) (boot_actor p) m \<and> choice = choice_of (bw_tenancy w) m)"
proof -
  obtain t where t: "resolveTenantContext d (Some (boot_actor p)) (bw_tenancy w) = (Inr c, t)" "w' = w\<lparr>bw_tenancy := t\<rparr>"
    using assms(2) by (auto simp: resolve_context_def answered_def on_tenancy_def split: prod.splits)
  note o = tenant_context_offers_the_usable [OF assms(1) t(1)]
  show "w' = w" using o t(2) by simp
  assume "choiceFor c tenantId = Some choice"
  then have "choice \<in> set (offered c)" "tc_tenantId choice = tenantId" using choiceFor_offered by blast+
  moreover have "offered c = map (choice_of (bw_tenancy w)) (filter (usable (bw_tenancy w) (yd_now d) (boot_actor p))
      (find_many (\<lambda>m. tm_userId m = own_user (boot_actor p)) oldest_member (tw_members (bw_tenancy w))))" using o by blast
  ultimately show "tc_tenantId choice = tenantId \<and> (\<exists>m. usable (bw_tenancy w) (yd_now d) (boot_actor p) m \<and> choice = choice_of (bw_tenancy w) m)"
    by auto
qed

lemma recheck_choice_Some:
  assumes "canonical_tenants (bw_tenancy w)" "recheck_choice x p tenantId w = (Inr (Some choice), w')"
  shows "w' = w \<and> tc_tenantId choice = tenantId
    \<and> (\<exists>m. usable (bw_tenancy w) (yd_now (sx_after x)) (boot_actor p) m \<and> choice = choice_of (bw_tenancy w) m)"
proof -
  obtain r w1 where r: "resolve_context (sx_after x) p w = (Inr r, w1)"
    and k: "(case r of Inl e \<Rightarrow> None | Inr c \<Rightarrow> choiceFor c tenantId) = Some choice" "w' = w1"
    using assms(2) by (auto simp: recheck_choice_def thenE_Inr)
  obtain c where c: "r = Inr c" "choiceFor c tenantId = Some choice" using k by (cases r) auto
  show ?thesis using resolve_context_choice [OF assms(1) r [unfolded c(1)]] c(2) k(2) by blast
qed

lemma boot_record_written:
  assumes "boot_record d e w = (Inr True, w')"
  shows "recorded (bw_tenancy w) (bw_tenancy w') (te_action e) (te_outcome e) \<and> bw_identity w' = bw_identity w"
proof -
  obtain f t where f: "tenancy_audit d e (bw_tenancy w) = (Inr None, t)" "w' = w\<lparr>bw_tenancy := t\<rparr>"
    using assms by (auto simp: boot_record_def thenE_Inr asked_Inr on_tenancy_eq)
  show ?thesis using tenancy_audit_event [OF f(1)] f(2) by (simp add: recorded_def)
qed

lemma claimed_session:
  assumes "sessions_setTenantBinding account sid tenant i = (Inr True, i')"
  shows "bound_to i' account sid tenant"
proof -
  let ?p = "\<lambda>s. se_id s = sid \<and> se_accountId s = account \<and> se_revokedAt s = None \<and> se_tenantBinding s = None"
  have n: "filter ?p (w_sessions i) \<noteq> []"
    and i: "w_sessions i' = map (\<lambda>s. if ?p s then s\<lparr>se_tenantBinding := Some tenant\<rparr> else s) (w_sessions i)"
    using assms by (auto simp: sessions_setTenantBinding_def update_many_def Let_def simp del: filter_empty_conv split: prod.splits)
  obtain s where s: "s \<in> set (w_sessions i)" "?p s" using n unfolding filter_empty_conv by blast
  show ?thesis unfolding bound_to_def
  proof
    show "s\<lparr>se_tenantBinding := Some tenant\<rparr> \<in> set (w_sessions i')" unfolding i set_map using s by (intro image_eqI [OF _ s(1)]) simp
  qed (use s(2) in simp)
qed

lemma setting_binding_keeps:
  assumes "sessions_setTenantBinding account sid tenant i = (r, i')"
  shows "map se_id (w_sessions i') = map se_id (w_sessions i)" "live_ids i' = live_ids i"
proof -
  let ?p = "\<lambda>s. se_id s = sid \<and> se_accountId s = account \<and> se_revokedAt s = None \<and> se_tenantBinding s = None"
  have i: "w_sessions i' = map (\<lambda>s. if ?p s then s\<lparr>se_tenantBinding := Some tenant\<rparr> else s) (w_sessions i)"
    using assms by (auto simp: sessions_setTenantBinding_def update_many_def Let_def)
  show "map se_id (w_sessions i') = map se_id (w_sessions i)" unfolding i by simp
  have "(se_id s, se_revokedAt s) \<in> (\<lambda>s. (se_id s, se_revokedAt s)) ` set (w_sessions i') \<longleftrightarrow> True" if "s \<in> set (w_sessions i')" for s
    using that by simp
  have "map (\<lambda>s. (se_id s, se_revokedAt s)) (w_sessions i') = map (\<lambda>s. (se_id s, se_revokedAt s)) (w_sessions i)" unfolding i by simp
  then have e: "(\<lambda>s. (se_id s, se_revokedAt s)) ` set (w_sessions i') = (\<lambda>s. (se_id s, se_revokedAt s)) ` set (w_sessions i)"
    by (metis set_map)
  have l: "live_ids w = {j. (j, None) \<in> (\<lambda>s. (se_id s, se_revokedAt s)) ` set (w_sessions w)}" for w
    unfolding live_ids_def by force
  show "live_ids i' = live_ids i" unfolding l e ..
qed

lemma few_rows: "distinct (map f xs) \<Longrightarrow> length (filter (\<lambda>x. f x = k \<and> P x) xs) \<le> 1"
proof (induction xs)
  case (Cons x xs)
  have "filter (\<lambda>x. f x = k \<and> P x) xs = []" if "f x = k" using Cons.prems that by (simp add: filter_empty_conv) (metis imageI)
  then show ?case using Cons by auto
qed simp

lemma unclaimed_session:
  assumes "sessions_setTenantBinding account sid tenant i = (Inr False, i')" "distinct (map se_id (w_sessions i))"
  shows "w_sessions i' = w_sessions i"
proof -
  let ?p = "\<lambda>s. se_id s = sid \<and> se_accountId s = account \<and> se_revokedAt s = None \<and> se_tenantBinding s = None"
  have c: "length (filter ?p (w_sessions i)) \<noteq> 1"
    and i: "w_sessions i' = map (\<lambda>s. if ?p s then s\<lparr>se_tenantBinding := Some tenant\<rparr> else s) (w_sessions i)"
    using assms(1) by (auto simp: sessions_setTenantBinding_def update_many_def Let_def)
  have "filter ?p (w_sessions i) = []"
    using c few_rows [OF assms(2), of sid "\<lambda>s. se_accountId s = account \<and> se_revokedAt s = None \<and> se_tenantBinding s = None"]
    by (cases "filter ?p (w_sessions i)") auto
  then have n: "\<not> ?p s" if "s \<in> set (w_sessions i)" for s using that unfolding filter_empty_conv by blast
  show ?thesis unfolding i by (rule map_idI, rule if_not_P, rule n)
qed

definition bind_records :: "identity_deps \<Rightarrow> millis \<Rightarrow> string \<Rightarrow> string \<Rightarrow> string \<Rightarrow> client_context \<Rightarrow> (string \<times> string) identity_effect" where
  "bind_records d now account sid tenant client =
     thenE (recordSecurity d now (Some account) SESSION_TENANT_BOUND (cl_ipDigest client)
        (Some [(''sessionId'', JString sid), (''tenantId'', JString tenant)])) (\<lambda>u.
     thenE (auditOrFail d now ''identity.session.tenant_bound'' (Some account) ''identity_session'' sid (Some [(''tenantId'', JString tenant)])) (\<lambda>u.
       returnE (sid, tenant)))"

lemma bind_records_quiet: "bind_records d now account sid tenant client i = (res, i') \<Longrightarrow> same_sessions i i'"
proof -
  have "always same_sessions (bind_records d now account sid tenant client)" unfolding bind_records_def by (intro quiet_effects)
  then show "bind_records d now account sid tenant client i = (res, i') \<Longrightarrow> same_sessions i i'" by (rule quiet_run)
qed

lemma bind_records_throws: "only_throws (bind_records d now account sid tenant client)"
  unfolding bind_records_def by (intro only_throws_then only_throws_record only_throws_audit only_throws_return)

lemma bind_cases:
  assumes "bindSessionTenant d now account sid tenant client i = (res, i')"
  obtains (refused) e where "res = Inl e" "i' = i"
    | (claimed) i1 where "sessions_setTenantBinding account sid tenant i = (Inr True, i1)"
        "bind_records d now account sid tenant client i1 = (res, i')"
    | (unclaimed) "sessions_setTenantBinding account sid tenant i = (Inr False, i')" "res = Inl BIND_CONFLICT"
proof -
  obtain q i1 where q: "sessions_setTenantBinding account sid tenant i = (Inr q, i1)"
    by (auto simp: sessions_setTenantBinding_def)
  show ?thesis
    using assms that q unfolding bindSessionTenant_def bind_records_def [symmetric]
    by (cases q) (auto simp: thenE_app await_def callE_eq split: option.splits if_splits)
qed

lemma bind_outcome:
  assumes "bindSessionTenant d now account sid tenant client i = (res, i')" "distinct (map se_id (w_sessions i))"
  shows "live_ids i' = live_ids i" "map se_id (w_sessions i') = map se_id (w_sessions i)"
    and "res = Inr b \<Longrightarrow> bound_to i' account sid tenant"
    and "res = Inl e \<Longrightarrow> is_session_denial e \<Longrightarrow> w_sessions i' = w_sessions i"
proof -
  have "live_ids i' = live_ids i \<and> map se_id (w_sessions i') = map se_id (w_sessions i)
    \<and> (\<forall>b. res = Inr b \<longrightarrow> bound_to i' account sid tenant) \<and> (\<forall>e. res = Inl e \<and> is_session_denial e \<longrightarrow> w_sessions i' = w_sessions i)"
    using assms(1)
  proof (cases rule: bind_cases)
    case (claimed i1)
    have "same_sessions i1 i'" using bind_records_quiet [OF claimed(2)] .
    then have w: "w_sessions i' = w_sessions i1" by (simp add: same_sessions_def)
    have "\<not> is_session_denial e" if "res = Inl e" for e
      using bind_records_throws claimed(2) that unfolding only_throws_def by blast
    moreover have "live_ids i' = live_ids i" "map se_id (w_sessions i') = map se_id (w_sessions i)"
      using setting_binding_keeps [OF claimed(1)] by (simp_all add: live_ids_def w)
    moreover have "bound_to i' account sid tenant" using claimed_session [OF claimed(1)] by (simp add: bound_to_def w)
    ultimately show ?thesis by blast
  next
    case unclaimed
    then show ?thesis using setting_binding_keeps [OF unclaimed(1)] unclaimed_session [OF unclaimed(1) assms(2)] by simp
  qed simp
  then show "live_ids i' = live_ids i" "map se_id (w_sessions i') = map se_id (w_sessions i)"
    "res = Inr b \<Longrightarrow> bound_to i' account sid tenant"
    "res = Inl e \<Longrightarrow> is_session_denial e \<Longrightarrow> w_sessions i' = w_sessions i" by blast+
qed

lemma bind_session_Inr:
  assumes "bind_session x p tenantId w = (Inr r, w')"
  obtains res i where "bindSessionTenant (sx_identity x) (sx_now x) (bo_userId p) (bo_sessionId p) tenantId (sx_client x) (bw_identity w) = (res, i)"
    "w' = w\<lparr>bw_identity := i\<rparr>" "case res of Inr b \<Rightarrow> r = Inr b | Inl e \<Rightarrow> is_session_denial e \<and> r = Inl e"
  using assms unfolding bind_session_def asked_Inr session_port_Inr by blast

text \<open>What a bind that was answered leaves behind.\<close>

lemma bound_session:
  assumes "bind_session x p tenantId w = (Inr r, w')" "distinct (map se_id (w_sessions (bw_identity w)))"
  shows "bw_tenancy w' = bw_tenancy w" "live_ids (bw_identity w') = live_ids (bw_identity w)"
    and "r = Inl e \<Longrightarrow> w_sessions (bw_identity w') = w_sessions (bw_identity w)"
    and "r = Inr b \<Longrightarrow> bound_to (bw_identity w') (bo_userId p) (bo_sessionId p) tenantId"
    and "r = Inr b \<Longrightarrow> s \<in> set (w_sessions (bw_identity w')) \<Longrightarrow> se_id s = bo_sessionId p \<Longrightarrow> se_accountId s = bo_userId p"
proof -
  obtain res i where i: "bindSessionTenant (sx_identity x) (sx_now x) (bo_userId p) (bo_sessionId p) tenantId (sx_client x) (bw_identity w) = (res, i)"
    "w' = w\<lparr>bw_identity := i\<rparr>" "case res of Inr b \<Rightarrow> r = Inr b | Inl e \<Rightarrow> is_session_denial e \<and> r = Inl e"
    by (rule bind_session_Inr [OF assms(1)])
  note o = bind_outcome [OF i(1) assms(2)]
  show "bw_tenancy w' = bw_tenancy w" "live_ids (bw_identity w') = live_ids (bw_identity w)" using i(2) o(1) by simp_all
  show "r = Inl e \<Longrightarrow> w_sessions (bw_identity w') = w_sessions (bw_identity w)" using i(2,3) o(4) by (cases res) simp_all
  assume r: "r = Inr b"
  then have b: "res = Inr b" using i(3) by (cases res) simp_all
  show bt: "bound_to (bw_identity w') (bo_userId p) (bo_sessionId p) tenantId" using o(3) [OF b] i(2) by simp
  assume s: "s \<in> set (w_sessions (bw_identity w'))" "se_id s = bo_sessionId p"
  have "distinct (map se_id (w_sessions (bw_identity w')))" using o(2) assms(2) i(2) by simp
  then have "inj_on se_id (set (w_sessions (bw_identity w')))" by (simp add: distinct_map)
  then show "se_accountId s = bo_userId p" using bt s unfolding bound_to_def by (metis inj_onD)
qed

lemma revoked_session:
  assumes "revoke_session x p sid w = (Inr q, w')"
    "\<And>s. s \<in> set (w_sessions (bw_identity w)) \<Longrightarrow> se_id s = sid \<Longrightarrow> se_accountId s = bo_userId p"
  shows "live_ids (bw_identity w') \<subseteq> live_ids (bw_identity w) - {sid}"
proof -
  obtain i res where i: "revokeSession (sx_identity x) (sx_now x) (bo_userId p) sid (sx_client x) (bw_identity w) = (res, i)"
    "w' = w\<lparr>bw_identity := i\<rparr>" "case res of Inr y \<Rightarrow> q = Inr y | Inl e \<Rightarrow> is_session_denial e \<and> q = Inl e"
    using assms(1) unfolding revoke_session_def asked_Inr session_port_Inr by blast
  have den: "\<forall>e. res = Inl e \<longrightarrow> is_session_denial e" using i(3) by (cases res) simp_all
  show ?thesis using revoke_port [OF i(1) den assms(2)] i(2) by simp
qed

lemma resolve_context_answers: "resolve_context d p w = (r, w') \<Longrightarrow> (\<exists>q. r = Inr q) \<and> bw_identity w' = bw_identity w"
  by (auto simp: resolve_context_def answered_def on_tenancy_def split: prod.splits)

lemma recheck_answers: "recheck_choice x p t w = (r, w') \<Longrightarrow> (\<exists>q. r = Inr q) \<and> bw_identity w' = bw_identity w"
proof -
  assume a: "recheck_choice x p t w = (r, w')"
  obtain q w1 where q: "resolve_context (sx_after x) p w = (q, w1)" by (cases "resolve_context (sx_after x) p w")
  then obtain y where "q = Inr y" "bw_identity w1 = bw_identity w" using resolve_context_answers by blast
  then show "(\<exists>q. r = Inr q) \<and> bw_identity w' = bw_identity w" using a q by (auto simp: recheck_choice_def then_step [of "resolve_context (sx_after x) p" w, OF q])
qed

lemma boot_record_keeps: "boot_record d e w = (r, w') \<Longrightarrow> bw_identity w' = bw_identity w \<and> (\<forall>x. r = Inl x \<longrightarrow> x = REJECTS)"
  by (auto simp: boot_record_def thenE_def asked_def on_tenancy_def split: prod.splits sum.splits)

lemma boot_record_Inl: "boot_record d e w = (Inl x, w') \<Longrightarrow> x = REJECTS"
  using boot_record_keeps by blast

lemma meanwhile_eq: "meanwhile_step x w = (Inr (), w\<lparr>bw_tenancy := sx_meanwhile x (bw_tenancy w)\<rparr>)"
  by (simp add: meanwhile_step_def)

lemma bind_answers:
  assumes "bind_session x p t w = (r, w1)"
  obtains (threw) "r = Inl REJECTS" | (refused) den where "r = Inr (Inl den)" | (bound) b where "r = Inr (Inr b)"
proof (cases r)
  case (Inl e)
  then show ?thesis using assms asked_Inl threw unfolding bind_session_def by blast
next
  case (Inr q)
  then show ?thesis using refused bound by (cases q) blast+
qed

section \<open>The automatic bind\<close>

lemma autoBind_bound:
  assumes "canonical_tenants (sx_meanwhile (be_switch x) (bw_tenancy w))" "distinct (map se_id (w_sessions (bw_identity w)))"
    "autoBind x p tenantId w = (Inr (STATE_BOUND c), w')"
  shows "let t = sx_meanwhile (be_switch x) (bw_tenancy w) in
      (\<exists>m. usable t (yd_now (sx_after (be_switch x))) (boot_actor p) m \<and> c = choice_of t m)
      \<and> bound_to (bw_identity w') (bo_userId p) (bo_sessionId p) (tc_tenantId c)
      \<and> recorded t (bw_tenancy w') AUTO_BIND_ACTION ''SUCCESS''"
proof -
  let ?t = "sx_meanwhile (be_switch x) (bw_tenancy w)"
  obtain r w1 where r: "bind_session (be_switch x) p tenantId w = (r, w1)" by (cases "bind_session (be_switch x) p tenantId w")
  note step = then_step [of "bind_session (be_switch x) p tenantId" w, OF r]
  have "\<exists>b. r = Inr (Inr b)" using r
    by (cases rule: bind_answers) (use assms(3) in \<open>auto simp: autoBind_def step thenE_Inr split: if_splits\<close>)
  then obtain b where q: "r = Inr (Inr b)" by blast
  have b: "bind_session (be_switch x) p tenantId w = (Inr (Inr b), w1)" using r q by simp
  obtain w3 where c: "recheck_choice (be_switch x) p tenantId (w1\<lparr>bw_tenancy := sx_meanwhile (be_switch x) (bw_tenancy w1)\<rparr>) = (Inr (Some c), w3)"
    and a: "auto_bind_audited x p tenantId None ''SUCCESS'' w3 = (Inr True, w')"
    using assms(3) by (auto simp: autoBind_def step q thenE_Inr meanwhile_eq split: if_splits option.splits)
  note bs = bound_session [OF b assms(2)]
  have t: "sx_meanwhile (be_switch x) (bw_tenancy w1) = ?t" using bs(1) by simp
  have can: "canonical_tenants (bw_tenancy (w1\<lparr>bw_tenancy := ?t\<rparr>))" using assms(1) by simp
  have rc: "w3 = w1\<lparr>bw_tenancy := ?t\<rparr>" "tc_tenantId c = tenantId"
    "\<exists>m. usable ?t (yd_now (sx_after (be_switch x))) (boot_actor p) m \<and> c = choice_of ?t m"
    using recheck_choice_Some [OF can c [unfolded t]] by simp_all
  have au: "recorded (bw_tenancy w3) (bw_tenancy w') AUTO_BIND_ACTION ''SUCCESS''" "bw_identity w' = bw_identity w3"
    using boot_record_written [OF a [unfolded auto_bind_audited_def]] by (simp_all add: boot_entry_def)
  show ?thesis unfolding Let_def using rc au bs(4) by simp
qed

section \<open>The explicit bind\<close>

lemma firstBind_bound:
  assumes "canonical_tenants (sx_meanwhile (be_switch x) (bw_tenancy w))" "distinct (map se_id (w_sessions (bw_identity w)))"
    "firstBind x p target choice w = (Inr r, w')"
  shows "r = TENANT_BOUND choice" "bound_to (bw_identity w') (bo_userId p) (bo_sessionId p) target"
    "recorded (sx_meanwhile (be_switch x) (bw_tenancy w)) (bw_tenancy w') BOUND_ACTION ''SUCCESS''"
    "\<exists>m. usable (sx_meanwhile (be_switch x) (bw_tenancy w)) (yd_now (sx_after (be_switch x))) (boot_actor p) m \<and> tm_tenantId m = target"
proof -
  let ?t = "sx_meanwhile (be_switch x) (bw_tenancy w)"
  obtain r0 w1 where r: "bind_session (be_switch x) p target w = (r0, w1)" by (cases "bind_session (be_switch x) p target w")
  note step = then_step [of "bind_session (be_switch x) p target" w, OF r]
  have "\<exists>b. r0 = Inr (Inr b)" using r
    by (cases rule: bind_answers) (use assms(3) in \<open>auto simp: firstBind_def step thenE_Inr split: if_splits\<close>)
  then obtain b where q0: "r0 = Inr (Inr b)" by blast
  have b: "bind_session (be_switch x) p target w = (Inr (Inr b), w1)" using r q0 by simp
  obtain w3 c where c: "recheck_choice (be_switch x) p target (w1\<lparr>bw_tenancy := sx_meanwhile (be_switch x) (bw_tenancy w1)\<rparr>) = (Inr (Some c), w3)"
    and a: "binding_audited x p target BOUND_ACTION None [] ''SUCCESS'' w3 = (Inr True, w')" and q: "r = TENANT_BOUND choice"
    using assms(3) by (auto simp: firstBind_def step q0 thenE_Inr meanwhile_eq split: if_splits option.splits)
  note bs = bound_session [OF b assms(2)]
  have t: "sx_meanwhile (be_switch x) (bw_tenancy w1) = ?t" using bs(1) by simp
  have can: "canonical_tenants (bw_tenancy (w1\<lparr>bw_tenancy := ?t\<rparr>))" using assms(1) by simp
  have rc: "w3 = w1\<lparr>bw_tenancy := ?t\<rparr>" "tc_tenantId c = target"
    "\<exists>m. usable ?t (yd_now (sx_after (be_switch x))) (boot_actor p) m \<and> c = choice_of ?t m"
    using recheck_choice_Some [OF can c [unfolded t]] by simp_all
  have au: "recorded (bw_tenancy w3) (bw_tenancy w') BOUND_ACTION ''SUCCESS''" "bw_identity w' = bw_identity w3"
    using boot_record_written [OF a [unfolded binding_audited_def]] by (simp_all add: boot_entry_def)
  show "r = TENANT_BOUND choice" using q .
  show "bound_to (bw_identity w') (bo_userId p) (bo_sessionId p) target" using au bs(4) rc(1) by simp
  show "recorded ?t (bw_tenancy w') BOUND_ACTION ''SUCCESS''" using au rc(1) by simp
  show "\<exists>m. usable ?t (yd_now (sx_after (be_switch x))) (boot_actor p) m \<and> tm_tenantId m = target"
    using rc(2,3) by (auto simp: choice_of_def)
qed

lemma firstBind_fails:
  assumes "firstBind x p target choice w = (Inl (FAILS e), w')" "isUuid target"
  shows "(\<exists>den. bind_session (be_switch x) p target w = (Inr (Inl den), w'))
    \<or> (\<exists>b w1 wk q w4. bind_session (be_switch x) p target w = (Inr (Inr b), w1) \<and> bw_identity wk = bw_identity w1
        \<and> revoke_session (be_switch x) p (bo_sessionId p) wk = (Inr q, w4) \<and> bw_identity w' = bw_identity w4)"
proof -
  obtain r w1 where r: "bind_session (be_switch x) p target w = (r, w1)" by (cases "bind_session (be_switch x) p target w")
  note step = then_step [of "bind_session (be_switch x) p target" w, OF r]
  from r show ?thesis
  proof (cases rule: bind_answers)
    case threw then show ?thesis using assms(1) by (simp add: firstBind_def step assms(2))
  next
    case (refused den) then show ?thesis using assms(1) r by (simp add: firstBind_def step assms(2))
  next
    case (bound b)
    let ?w2 = "w1\<lparr>bw_tenancy := sx_meanwhile (be_switch x) (bw_tenancy w1)\<rparr>"
    obtain still w3 where s: "recheck_choice (be_switch x) p target ?w2 = (Inr still, w3)" and w3: "bw_identity w3 = bw_identity w1"
      using recheck_answers [of "be_switch x" p target ?w2] by (cases "recheck_choice (be_switch x) p target ?w2") auto
    have u: "(if \<not> isUuid target then m else n) = n" for m n :: "set_binding_result boot_effect" using assms(2) by simp
    note run = assms(1) [unfolded firstBind_def u step bound sum.case then_step [of "meanwhile_step (be_switch x)" w1, OF meanwhile_eq]
      then_step [of "recheck_choice (be_switch x) p target" ?w2, OF s]]
    show ?thesis
    proof (cases still)
      case None
      obtain q w4 where q: "revoke_session (be_switch x) p (bo_sessionId p) w3 = (Inr q, w4)"
        and rest: "bw_identity w' = bw_identity w4"
        using run None boot_record_keeps unfolding revoke_session_def binding_audited_def
        by (auto simp: thenE_Inl dest!: asked_Inl boot_record_Inl)
      then show ?thesis using r bound w3 by blast
    next
      case (Some c)
      obtain q w4 wk where q: "revoke_session (be_switch x) p (bo_sessionId p) wk = (Inr q, w4)" "bw_identity wk = bw_identity w3"
        and rest: "w' = w4"
        using run Some boot_record_keeps unfolding revoke_session_def binding_audited_def
        by (auto simp: thenE_Inl split: if_splits dest!: asked_Inl boot_record_Inl)
      then show ?thesis using r bound w3 by metis
    qed
  qed
qed

lemma firstBind_refused:
  assumes "firstBind x p target choice w = (Inl (FAILS e), w')" "distinct (map se_id (w_sessions (bw_identity w)))" "isUuid target"
  shows "live_ids (bw_identity w') \<subseteq> live_ids (bw_identity w)
    \<and> (w_sessions (bw_identity w') = w_sessions (bw_identity w) \<or> bo_sessionId p \<notin> live_ids (bw_identity w'))"
  using firstBind_fails [OF assms(1,3)]
proof (elim disjE exE conjE)
  fix den assume "bind_session (be_switch x) p target w = (Inr (Inl den), w')"
  then show ?thesis using bound_session(2,3) assms(2) by blast
next
  fix b w1 wk q w4
  assume b: "bind_session (be_switch x) p target w = (Inr (Inr b), w1)" "bw_identity wk = bw_identity w1"
    and q: "revoke_session (be_switch x) p (bo_sessionId p) wk = (Inr q, w4)" "bw_identity w' = bw_identity w4"
  note bs = bound_session [OF b(1) assms(2)]
  have "live_ids (bw_identity w4) \<subseteq> live_ids (bw_identity wk) - {bo_sessionId p}"
    by (rule revoked_session [OF q(1)]) (use bs(5) b(2) in simp)
  then show ?thesis using bs(2) b(2) q(2) by auto
qed

lemma firstBind_errors:
  assumes "firstBind x p target choice w = (Inl (FAILS e), w')" "isUuid target"
  shows "e \<in> {BINDING_CONFLICT, BINDING_REVOKED_CONCURRENTLY, CONTEXT_UNAVAILABLE}"
proof -
  have rr: "revoke_session y p sid w = (Inl d, w1) \<Longrightarrow> d = REJECTS" for y sid w w1 d unfolding revoke_session_def by (rule asked_Inl)
  have rc: "recheck_choice y p t w \<noteq> (Inl d, w1)" for y t w w1 d using recheck_answers by blast
  have ra: "binding_audited x p t action previous reason result w = (Inl d, w1) \<Longrightarrow> d = REJECTS" for t action previous reason result w w1 d
    unfolding binding_audited_def by (rule boot_record_Inl)
  obtain r w1 where r: "bind_session (be_switch x) p target w = (r, w1)" by (cases "bind_session (be_switch x) p target w")
  note step = then_step [of "bind_session (be_switch x) p target" w, OF r]
  from r show ?thesis
    by (cases rule: bind_answers)
      (use assms in \<open>auto simp: firstBind_def step thenE_Inl meanwhile_eq rc split: if_splits option.splits dest!: rr ra\<close>)
qed

lemma switch_binding_Inr:
  assumes "switch_binding x p target choice w = (Inr r, w')"
  obtains s w1 where "switchTenant (be_switch x) target (Some (boot_actor p)) w = (Inr s, w1)"
    "binding_audited x p target SWITCHED_ACTION (Some (ts_previousTenantId s)) [] ''SUCCESS'' w1 = (Inr True, w')"
    "r = TENANT_SWITCHED choice (ts_session s)"
proof -
  obtain q w1 where q: "switchTenant (be_switch x) target (Some (boot_actor p)) w = (q, w1)"
    by (cases "switchTenant (be_switch x) target (Some (boot_actor p)) w")
  have a: "answered (switchTenant (be_switch x) target (Some (boot_actor p))) w = (Inr q, w1)" using q by (simp add: answered_def)
  note step = then_step [of "answered (switchTenant (be_switch x) target (Some (boot_actor p)))" w, OF a]
  obtain s where s: "q = Inr s" using assms by (cases q) (simp_all add: switch_binding_def step)
  have "binding_audited x p target SWITCHED_ACTION (Some (ts_previousTenantId s)) [] ''SUCCESS'' w1 = (Inr True, w')
      \<and> r = TENANT_SWITCHED choice (ts_session s)"
    using assms by (auto simp: switch_binding_def step s thenE_Inr split: if_splits)
  then show ?thesis using that q s by blast
qed

section \<open>The context\<close>

lemma caught_Inr: "caught m w = (Inr v, w') \<longleftrightarrow> m w = (Inr v, w')"
  by (auto simp: caught_def split: prod.splits sum.splits boot_exit.splits)

lemma caught_not_rejected: "caught m w \<noteq> (Inl REJECTS, w')"
  by (auto simp: caught_def split: prod.splits sum.splits boot_exit.splits)

lemma getBootstrap_Inr:
  "getBootstrap x p w = (Inr v, w') \<longleftrightarrow> (\<exists>b. current_binding x p w = (Inr b, w') \<and> assembled (be_readers x) p b = Inr v)"
proof -
  have k: "(case a of Inl e \<Rightarrow> throwE (FAILS e) | Inr y \<Rightarrow> returnE y) w1 = (Inr v, w') \<longleftrightarrow> w1 = w' \<and> a = Inr v" for a :: "boot_error + boot_view" and w1
    by (cases a) auto
  show ?thesis unfolding getBootstrap_def caught_Inr thenE_Inr k by metis
qed

lemma assembled_binding: "assembled readers p b = Inr v \<Longrightarrow> bv_binding v = b"
  by (auto simp: assembled_def Let_def split: jurisdiction_resolution.splits pack_resolution.splits capabilities_resolution.splits)

lemma autoBind_failures:
  assumes "autoBind x p t w = (Inl (FAILS e), w')"
  shows "e = CONTEXT_UNAVAILABLE"
proof -
  have rb: "bind_session y p t w = (Inl d, w1) \<Longrightarrow> d = REJECTS" for y w w1 d unfolding bind_session_def by (rule asked_Inl)
  have rr: "revoke_session y p sid w = (Inl d, w1) \<Longrightarrow> d = REJECTS" for y sid w w1 d unfolding revoke_session_def by (rule asked_Inl)
  have rc: "recheck_choice y p t w \<noteq> (Inl d, w1)" for y w w1 d using recheck_answers by blast
  have ra: "auto_bind_audited x p t reason result w = (Inl d, w1) \<Longrightarrow> d = REJECTS" for reason result w w1 d
    unfolding auto_bind_audited_def by (rule boot_record_Inl)
  obtain r w1 where r: "bind_session (be_switch x) p t w = (r, w1)" by (cases "bind_session (be_switch x) p t w")
  note step = then_step [of "bind_session (be_switch x) p t" w, OF r]
  from r show ?thesis
    by (cases rule: bind_answers)
      (use assms in \<open>auto simp: autoBind_def step thenE_Inl meanwhile_eq rc split: if_splits option.splits dest!: rr ra\<close>)
qed

lemma binding_failures: "current_binding x p w = (Inl (FAILS e), w') \<Longrightarrow> e = CONTEXT_UNAVAILABLE"
proof -
  assume b: "current_binding x p w = (Inl (FAILS e), w')"
  obtain r w1 where r: "resolve_context (sx_before (be_switch x)) p w = (Inr r, w1)"
    using resolve_context_answers by (metis prod.exhaust)
  show ?thesis using b autoBind_failures
    by (auto simp: current_binding_def then_step [of "resolve_context (sx_before (be_switch x)) p" w, OF r]
        split: sum.splits option.splits tenant_context.splits)
qed

lemma stateForChoices_unbound: "stateForChoices cs \<noteq> STATE_BOUND c"
  by (simp add: stateForChoices_def)

text \<open>
  C16: A context names a bound tenant only where the caller has a usable membership in it.  For a session bound before, that is read at once and
  nothing changes; for a session bound by this call it is read after the bind and whatever else committed meanwhile, the
  session is bound to that tenant in the store, and a SUCCESS record of the bind is the one addition to the trail.
\<close>

theorem bound_context_is_a_membership:
  assumes "canonical_tenants (bw_tenancy w)" "canonical_tenants (sx_meanwhile (be_switch x) (bw_tenancy w))"
    "distinct (map se_id (w_sessions (bw_identity w)))"
    "getBootstrap x p w = (Inr v, w')" "bv_binding v = STATE_BOUND c"
  shows "case bo_tenantId p of
      Some tenantId \<Rightarrow> w' = w \<and> tc_tenantId c = tenantId
        \<and> (\<exists>m. usable (bw_tenancy w) (yd_now (sx_before (be_switch x))) (boot_actor p) m \<and> c = choice_of (bw_tenancy w) m)
    | None \<Rightarrow> let t = sx_meanwhile (be_switch x) (bw_tenancy w) in
        (\<exists>m. usable t (yd_now (sx_after (be_switch x))) (boot_actor p) m \<and> c = choice_of t m)
        \<and> bound_to (bw_identity w') (bo_userId p) (bo_sessionId p) (tc_tenantId c)
        \<and> recorded t (bw_tenancy w') AUTO_BIND_ACTION ''SUCCESS''"
proof -
  have b: "current_binding x p w = (Inr (STATE_BOUND c), w')"
    using assms(4,5) assembled_binding unfolding getBootstrap_Inr by metis
  obtain r w1 where r: "resolve_context (sx_before (be_switch x)) p w = (Inr r, w1)"
    using resolve_context_answers by (metis prod.exhaust)
  note step = then_step [of "resolve_context (sx_before (be_switch x)) p" w, OF r]
  obtain resolution where q: "r = Inr resolution" using b by (cases r) (auto simp: current_binding_def step)
  note rc = resolve_context_choice [OF assms(1) r [unfolded q]]
  note run = b [unfolded current_binding_def step q sum.case rc(1)]
  show ?thesis
  proof (cases "bo_tenantId p")
    case (Some tenantId)
    then have "choiceFor resolution tenantId = Some c \<and> w' = w" using run stateForChoices_unbound by (auto split: option.splits)
    then show ?thesis using rc(2) [of tenantId c] Some by simp
  next
    case None
    then obtain tenantId where "autoBind x p tenantId w = (Inr (STATE_BOUND c), w')"
      using run stateForChoices_unbound by (auto split: tenant_context.splits)
    from autoBind_bound [OF assms(2,3) this] show ?thesis using None by simp
  qed
qed


lemma getBootstrap_binding:
  assumes "current_binding x p w = (Inr b, w')"
  shows "getBootstrap x p w = ((case assembled (be_readers x) p b of Inl e \<Rightarrow> Inl (FAILS e) | Inr v \<Rightarrow> Inr v), w')"
  unfolding getBootstrap_def caught_def then_step [of "current_binding x p" w, OF assms]
  by (simp add: returnE_def throwE_def split: sum.splits)

lemma getBootstrap_no_binding:
  assumes "current_binding x p w = (Inl e, w')"
  shows "getBootstrap x p w = (Inl (FAILS CONTEXT_UNAVAILABLE), w')"
  using binding_failures [of x p w] assms
  unfolding getBootstrap_def caught_def then_step [of "current_binding x p" w, OF assms]
  by (cases e) auto

lemma assembled_failures:
  fixes readers :: boot_readers and b :: binding_state
  defines "t \<equiv> effective_tenant b"
  shows "bs_stateFor readers (bo_userId p) t = STATE_UNAVAILABLE r \<Longrightarrow> assembled readers p b = Inl (RESOLUTION_UNAVAILABLE r)"
    and "bs_stateFor readers (bo_userId p) t = STATE_IS g \<Longrightarrow> bs_packFor readers g = PACK_UNAVAILABLE r
      \<Longrightarrow> assembled readers p b = Inl (RESOLUTION_UNAVAILABLE r)"
    and "bs_stateFor readers (bo_userId p) t = STATE_IS g \<Longrightarrow> \<forall>q. bs_packFor readers g \<noteq> PACK_UNAVAILABLE q
      \<Longrightarrow> bs_capabilitiesFor readers (bo_userId p) t = CAPABILITIES_UNAVAILABLE r
      \<Longrightarrow> assembled readers p b = Inl (RESOLUTION_UNAVAILABLE r)"
  by (auto simp: assembled_def t_def Let_def split: pack_resolution.splits)

lemma assembled_answers:
  fixes readers :: boot_readers and b :: binding_state
  defines "t \<equiv> effective_tenant b"
  assumes "bs_stateFor readers (bo_userId p) t = STATE_IS g" "\<forall>q. bs_packFor readers g \<noteq> PACK_UNAVAILABLE q"
    "bs_capabilitiesFor readers (bo_userId p) t = CAPABILITIES_ARE cs"
  shows "\<exists>v. assembled readers p b = Inr v \<and> bv_binding v = b"
  using assms by (auto simp: assembled_def Let_def split: pack_resolution.splits)

lemma getBootstrap_sections:
  assumes "current_binding x p w = (Inr b, w')"
  shows "let t = effective_tenant b; readers = be_readers x
       in (\<forall>r. bs_stateFor readers (bo_userId p) t = STATE_UNAVAILABLE r \<longrightarrow> getBootstrap x p w = (Inl (FAILS (RESOLUTION_UNAVAILABLE r)), w'))
        \<and> (\<forall>g r. bs_stateFor readers (bo_userId p) t = STATE_IS g \<and> bs_packFor readers g = PACK_UNAVAILABLE r \<longrightarrow>
             getBootstrap x p w = (Inl (FAILS (RESOLUTION_UNAVAILABLE r)), w'))
        \<and> (\<forall>g r. bs_stateFor readers (bo_userId p) t = STATE_IS g \<and> (\<forall>q. bs_packFor readers g \<noteq> PACK_UNAVAILABLE q)
             \<and> bs_capabilitiesFor readers (bo_userId p) t = CAPABILITIES_UNAVAILABLE r \<longrightarrow>
             getBootstrap x p w = (Inl (FAILS (RESOLUTION_UNAVAILABLE r)), w'))
        \<and> (\<forall>g cs. bs_stateFor readers (bo_userId p) t = STATE_IS g \<and> (\<forall>q. bs_packFor readers g \<noteq> PACK_UNAVAILABLE q)
             \<and> bs_capabilitiesFor readers (bo_userId p) t = CAPABILITIES_ARE cs \<longrightarrow>
             (\<exists>v. getBootstrap x p w = (Inr v, w') \<and> bv_binding v = b))"
proof -
  note failed = assembled_failures [of "be_readers x" p b] and answered = assembled_answers [of "be_readers x" p b]
  show ?thesis
    unfolding Let_def getBootstrap_binding [OF assms]
  proof (intro conjI allI impI)
    fix g cs
    assume "bs_stateFor (be_readers x) (bo_userId p) (effective_tenant b) = STATE_IS g \<and> (\<forall>q. bs_packFor (be_readers x) g \<noteq> PACK_UNAVAILABLE q)
      \<and> bs_capabilitiesFor (be_readers x) (bo_userId p) (effective_tenant b) = CAPABILITIES_ARE cs"
    then obtain v where "assembled (be_readers x) p b = Inr v" "bv_binding v = b" using answered [of g cs] by blast
    then show "\<exists>v. (case assembled (be_readers x) p b of Inl e \<Rightarrow> Inl (FAILS e) | Inr v \<Rightarrow> Inr v, w') = (Inr v, w') \<and> bv_binding v = b" by simp
  qed (simp_all add: failed)
qed

text \<open>
  C25: A context is assembled from its sections, read for the caller under the tenant the binding names.  When all of them
  answer, the answer is the context made of those answers; when the jurisdiction, else the pack, else the capabilities did not
  answer, that failure is the answer of the call and of the endpoint's problem, with the retryable flag it came with; when no binding could be
  determined the answer is context_unavailable.  Conversely a context that is answered holds what the sections answered, and an
  unavailable resolution is the answer of one of them.  The call never rejects.
\<close>

theorem context_sections_are_answers:
  shows "(\<forall>v w'. getBootstrap x p w = (Inr v, w') \<longrightarrow>
      (let t = effective_tenant (bv_binding v); readers = be_readers x
       in bs_stateFor readers (bo_userId p) t = STATE_IS (bv_jurisdiction v)
        \<and> bs_packFor readers (bv_jurisdiction v) = (case bv_pack v of None \<Rightarrow> PACK_NONE | Some (version, l) \<Rightarrow> PACK_STATUS version l)
        \<and> bs_capabilitiesFor readers (bo_userId p) t = CAPABILITIES_ARE (bv_capabilities v)
        \<and> bs_entityFor readers (bo_userId p) t = bv_entity v))
    \<and> (\<forall>retryable w'. getBootstrap x p w = (Inl (FAILS (RESOLUTION_UNAVAILABLE retryable)), w') \<longrightarrow>
      (\<exists>b. current_binding x p w = (Inr b, w') \<and>
        (let t = effective_tenant b; readers = be_readers x
         in bs_stateFor readers (bo_userId p) t = STATE_UNAVAILABLE retryable
          \<or> (\<exists>g. bs_stateFor readers (bo_userId p) t = STATE_IS g \<and>
               (bs_packFor readers g = PACK_UNAVAILABLE retryable
                \<or> bs_capabilitiesFor readers (bo_userId p) t = CAPABILITIES_UNAVAILABLE retryable)))))
    \<and> (\<forall>b w'. current_binding x p w = (Inr b, w') \<longrightarrow>
      (let t = effective_tenant b; readers = be_readers x
       in (\<forall>r. bs_stateFor readers (bo_userId p) t = STATE_UNAVAILABLE r \<longrightarrow> getBootstrap x p w = (Inl (FAILS (RESOLUTION_UNAVAILABLE r)), w'))
        \<and> (\<forall>g r. bs_stateFor readers (bo_userId p) t = STATE_IS g \<and> bs_packFor readers g = PACK_UNAVAILABLE r \<longrightarrow>
             getBootstrap x p w = (Inl (FAILS (RESOLUTION_UNAVAILABLE r)), w'))
        \<and> (\<forall>g r. bs_stateFor readers (bo_userId p) t = STATE_IS g \<and> (\<forall>q. bs_packFor readers g \<noteq> PACK_UNAVAILABLE q)
             \<and> bs_capabilitiesFor readers (bo_userId p) t = CAPABILITIES_UNAVAILABLE r \<longrightarrow>
             getBootstrap x p w = (Inl (FAILS (RESOLUTION_UNAVAILABLE r)), w'))
        \<and> (\<forall>g cs. bs_stateFor readers (bo_userId p) t = STATE_IS g \<and> (\<forall>q. bs_packFor readers g \<noteq> PACK_UNAVAILABLE q)
             \<and> bs_capabilitiesFor readers (bo_userId p) t = CAPABILITIES_ARE cs \<longrightarrow>
             (\<exists>v. getBootstrap x p w = (Inr v, w') \<and> bv_binding v = b))))
    \<and> (\<forall>e w'. current_binding x p w = (Inl e, w') \<longrightarrow> getBootstrap x p w = (Inl (FAILS CONTEXT_UNAVAILABLE), w'))
    \<and> (\<forall>r. bp_status (problemForBootstrapError (RESOLUTION_UNAVAILABLE r)) = 503
         \<and> bp_retryable (problemForBootstrapError (RESOLUTION_UNAVAILABLE r)) = Some r)
    \<and> (\<forall>w'. getBootstrap x p w \<noteq> (Inl REJECTS, w'))"
proof (intro conjI allI impI)
  fix v w' assume "getBootstrap x p w = (Inr v, w')"
  then obtain b where a: "assembled (be_readers x) p b = Inr v" unfolding getBootstrap_Inr by blast
  show "let t = effective_tenant (bv_binding v); readers = be_readers x
       in bs_stateFor readers (bo_userId p) t = STATE_IS (bv_jurisdiction v)
        \<and> bs_packFor readers (bv_jurisdiction v) = (case bv_pack v of None \<Rightarrow> PACK_NONE | Some (version, l) \<Rightarrow> PACK_STATUS version l)
        \<and> bs_capabilitiesFor readers (bo_userId p) t = CAPABILITIES_ARE (bv_capabilities v)
        \<and> bs_entityFor readers (bo_userId p) t = bv_entity v"
    using a by (auto simp: assembled_def Let_def split: jurisdiction_resolution.splits pack_resolution.splits capabilities_resolution.splits)
next
  fix retryable w' assume g: "getBootstrap x p w = (Inl (FAILS (RESOLUTION_UNAVAILABLE retryable)), w')"
  obtain r w1 where r: "current_binding x p w = (r, w1)" by (cases "current_binding x p w")
  have "r \<noteq> Inl (FAILS (RESOLUTION_UNAVAILABLE retryable))" using binding_failures r by blast
  then obtain b where b: "r = Inr b" "assembled (be_readers x) p b = Inl (RESOLUTION_UNAVAILABLE retryable)" "w1 = w'"
    using g unfolding getBootstrap_def caught_def then_step [of "current_binding x p" w, OF r]
    by (auto split: sum.splits boot_exit.splits prod.splits)
  show "\<exists>b. current_binding x p w = (Inr b, w') \<and>
        (let t = effective_tenant b; readers = be_readers x
         in bs_stateFor readers (bo_userId p) t = STATE_UNAVAILABLE retryable
          \<or> (\<exists>g. bs_stateFor readers (bo_userId p) t = STATE_IS g \<and>
               (bs_packFor readers g = PACK_UNAVAILABLE retryable
                \<or> bs_capabilitiesFor readers (bo_userId p) t = CAPABILITIES_UNAVAILABLE retryable)))"
    using r b by (auto simp: assembled_def Let_def split: jurisdiction_resolution.splits pack_resolution.splits capabilities_resolution.splits)
next
  fix b w' assume "current_binding x p w = (Inr b, w')"
  then show "let t = effective_tenant b; readers = be_readers x
       in (\<forall>r. bs_stateFor readers (bo_userId p) t = STATE_UNAVAILABLE r \<longrightarrow> getBootstrap x p w = (Inl (FAILS (RESOLUTION_UNAVAILABLE r)), w'))
        \<and> (\<forall>g r. bs_stateFor readers (bo_userId p) t = STATE_IS g \<and> bs_packFor readers g = PACK_UNAVAILABLE r \<longrightarrow>
             getBootstrap x p w = (Inl (FAILS (RESOLUTION_UNAVAILABLE r)), w'))
        \<and> (\<forall>g r. bs_stateFor readers (bo_userId p) t = STATE_IS g \<and> (\<forall>q. bs_packFor readers g \<noteq> PACK_UNAVAILABLE q)
             \<and> bs_capabilitiesFor readers (bo_userId p) t = CAPABILITIES_UNAVAILABLE r \<longrightarrow>
             getBootstrap x p w = (Inl (FAILS (RESOLUTION_UNAVAILABLE r)), w'))
        \<and> (\<forall>g cs. bs_stateFor readers (bo_userId p) t = STATE_IS g \<and> (\<forall>q. bs_packFor readers g \<noteq> PACK_UNAVAILABLE q)
             \<and> bs_capabilitiesFor readers (bo_userId p) t = CAPABILITIES_ARE cs \<longrightarrow>
             (\<exists>v. getBootstrap x p w = (Inr v, w') \<and> bv_binding v = b))"
    by (rule getBootstrap_sections)
next
  fix e w' assume "current_binding x p w = (Inl e, w')"
  then show "getBootstrap x p w = (Inl (FAILS CONTEXT_UNAVAILABLE), w')" by (rule getBootstrap_no_binding)
next
  fix r show "bp_status (problemForBootstrapError (RESOLUTION_UNAVAILABLE r)) = 503"
    "bp_retryable (problemForBootstrapError (RESOLUTION_UNAVAILABLE r)) = Some r" by (simp_all add: bootstrapUnavailableProblem_def)
next
  fix w' show "getBootstrap x p w \<noteq> (Inl REJECTS, w')" unfolding getBootstrap_def by (rule caught_not_rejected)
qed

section \<open>The explicit selection\<close>

lemma selection_run:
  assumes "setTenantBinding x tenantId p w = (res, w')"
  shows "(w_sessions (bw_identity w') = w_sessions (bw_identity w) \<and> (\<forall>r. res \<noteq> Inr r))
    \<or> (\<exists>target resolution choice w1. tenantId = Some target \<and> isUuid target
        \<and> resolve_context (sx_before (be_switch x)) p w = (Inr (Inr resolution), w1) \<and> choiceFor resolution target = Some choice
        \<and> (if bo_tenantId p = None then firstBind x p target choice else switch_binding x p target choice) w1 = (res, w'))"
proof (cases "\<exists>target. tenantId = Some target \<and> isUuid target")
  case False
  then show ?thesis using assms by (auto simp: setTenantBinding_def split: option.splits if_splits)
next
  case True
  then obtain target where t: "tenantId = Some target" "isUuid target" by blast
  obtain q w1 where q: "resolve_context (sx_before (be_switch x)) p w = (Inr q, w1)" and i: "bw_identity w1 = bw_identity w"
    using resolve_context_answers by (metis prod.exhaust)
  have c: "caught (resolve_context (sx_before (be_switch x)) p) w = (Inr q, w1)" using q by (simp add: caught_Inr)
  note run = assms [unfolded setTenantBinding_def t(1) option.case then_step [of "caught (resolve_context (sx_before (be_switch x)) p)" w, OF c]]
  show ?thesis
  proof (cases q)
    case (Inl e)
    then have "res = Inl (FAILS CONTEXT_UNAVAILABLE)" "w' = w1"
      using run t(2) by (simp_all add: then_step [of "caught (resolve_context (sx_before (be_switch x)) p)" w, OF c])
    then show ?thesis using i by simp
  next
    case (Inr resolution)
    then have go: "(case choiceFor resolution target of
               None \<Rightarrow> throwE (FAILS MEMBERSHIP_REQUIRED)
             | Some choice \<Rightarrow>
                 if bo_tenantId p = None then firstBind x p target choice else switch_binding x p target choice) w1 = (res, w')"
      using run t(2) by (simp add: then_step [of "caught (resolve_context (sx_before (be_switch x)) p)" w, OF c])
    show ?thesis
    proof (cases "choiceFor resolution target")
      case None
      then have "res = Inl (FAILS MEMBERSHIP_REQUIRED)" "w' = w1" using go by auto
      then show ?thesis using i by simp
    next
      case (Some choice)
      then have "(if bo_tenantId p = None then firstBind x p target choice else switch_binding x p target choice) w1 = (res, w')" using go by simp
      then show ?thesis using t q Inr Some by blast
    qed
  qed
qed


text \<open>
  C17: A selection that succeeds chose a tenant in which the caller has a usable membership, read before the session was touched and again
  after whatever else committed meanwhile.  An unbound session is bound to it in place, a bound one is replaced by one atomic
  switch to a session of the same account bound to it, and the trail ends with the SUCCESS record of this endpoint.
\<close>

theorem tenant_selection_rests_on_membership:
  assumes "canonical_tenants (bw_tenancy w)" "canonical_tenants (sx_meanwhile (be_switch x) (bw_tenancy w))"
    "distinct (map se_id (w_sessions (bw_identity w)))"
    "setTenantBinding x tenantId p w = (Inr r, w')"
  shows "\<exists>target. tenantId = Some target
    \<and> (\<exists>m. usable (bw_tenancy w) (yd_now (sx_before (be_switch x))) (boot_actor p) m \<and> tm_tenantId m = target)
    \<and> (\<exists>m. usable (sx_meanwhile (be_switch x) (bw_tenancy w)) (yd_now (sx_after (be_switch x))) (boot_actor p) m \<and> tm_tenantId m = target)
    \<and> (case r of
        TENANT_BOUND c \<Rightarrow> bo_tenantId p = None \<and> tc_tenantId c = target
          \<and> bound_to (bw_identity w') (bo_userId p) (bo_sessionId p) target
          \<and> recorded (sx_meanwhile (be_switch x) (bw_tenancy w)) (bw_tenancy w') BOUND_ACTION ''SUCCESS''
      | TENANT_SWITCHED c s \<Rightarrow> bo_tenantId p \<noteq> None \<and> tc_tenantId c = target
          \<and> (\<exists>b. switched (bo_userId p) (bo_sessionId p) (sx_now (be_switch x)) b (bw_identity w) (bw_identity w')
               \<and> linked_bundle (bo_userId p) (Some target) b \<and> is_sessionId s = se_id (sb_session b))
          \<and> (\<exists>t. recorded t (bw_tenancy w') SWITCHED_ACTION ''SUCCESS''))"
proof -
  obtain target resolution choice w1 where t: "tenantId = Some target"
    and q: "resolve_context (sx_before (be_switch x)) p w = (Inr (Inr resolution), w1)" "choiceFor resolution target = Some choice"
    and go: "(if bo_tenantId p = None then firstBind x p target choice else switch_binding x p target choice) w1 = (Inr r, w')"
    using selection_run [OF assms(4)] by blast
  have w1: "w1 = w" by (rule resolve_context_choice(1) [OF assms(1) q(1)])
  obtain m where m: "tc_tenantId choice = target" "usable (bw_tenancy w) (yd_now (sx_before (be_switch x))) (boot_actor p) m"
    "choice = choice_of (bw_tenancy w) m" using resolve_context_choice(2) [OF assms(1) q] by blast
  have mt: "tm_tenantId m = target" using m(1,3) by (simp add: choice_of_def)
  have can: "pg_uuid target = target" using assms(1) m(2) mt unfolding usable_def canonical_tenants_def by blast
  show ?thesis
  proof (cases "bo_tenantId p")
    case None
    then have f: "firstBind x p target choice w = (Inr r, w')" using go w1 by simp
    show ?thesis using firstBind_bound [OF assms(2,3) f] t m mt None by auto
  next
    case (Some previous)
    then have sw: "switch_binding x p target choice w = (Inr r, w')" using go w1 by simp
    obtain s w2 where s: "switchTenant (be_switch x) target (Some (boot_actor p)) w = (Inr s, w2)"
      and a: "binding_audited x p target SWITCHED_ACTION (Some (ts_previousTenantId s)) [] ''SUCCESS'' w2 = (Inr True, w')"
      and r: "r = TENANT_SWITCHED choice (ts_session s)" by (rule switch_binding_Inr [OF sw])
    have au: "recorded (bw_tenancy w2) (bw_tenancy w') SWITCHED_ACTION ''SUCCESS''" "bw_identity w' = bw_identity w2"
      using boot_record_written [OF a [unfolded binding_audited_def]] by (simp_all add: boot_entry_def)
    have ac: "pa_userId (boot_actor p) = bo_userId p" "pa_sessionId (boot_actor p) = Some (bo_sessionId p)" by (simp_all add: boot_actor_def)
    have "\<exists>b. switched (bo_userId p) (bo_sessionId p) (sx_now (be_switch x)) b (bw_identity w) (bw_identity w')
        \<and> linked_bundle (bo_userId p) (Some target) b \<and> is_sessionId (ts_session s) = se_id (sb_session b)"
      "\<exists>m. usable (sx_meanwhile (be_switch x) (bw_tenancy w)) (yd_now (sx_after (be_switch x))) (boot_actor p) m \<and> tm_tenantId m = target"
      using tenant_switch_rests_on_membership [OF s] ac au(2) can by auto
    then show ?thesis using t m mt Some r au(1) by auto
  qed
qed

text \<open>Calls after which no session is live that was not before.\<close>

definition no_birth :: "identity_world \<Rightarrow> identity_world \<Rightarrow> bool" where
  "no_birth i i' \<longleftrightarrow> live_ids i' \<subseteq> live_ids i"

interpretation births: identity_relation no_birth
  by unfold_locales (auto simp: no_birth_def)

definition births_none :: "binding_world \<Rightarrow> binding_world \<Rightarrow> bool" where
  "births_none w w' \<longleftrightarrow> no_birth (bw_identity w) (bw_identity w')"

interpretation binding_births: step_relation births_none
  by unfold_locales (auto simp: births_none_def no_birth_def)

lemma quiet_no_birth: "always same_sessions m \<Longrightarrow> always no_birth m"
  by (simp add: always_def same_sessions_def no_birth_def live_ids_def)

lemma revocation_no_birth: "always no_birth (sessions_revokeSession account sid reason now)"
  by (auto simp: always_def no_birth_def sessions_revokeSession_def revoke_session_rows_def update_many_def live_ids_def Let_def split: if_splits)

lemma revokeSession_no_birth: "always no_birth (revokeSession d now account sid client)"
  unfolding revokeSession_def
  by (intro births.always_intros births.always_await revocation_no_birth quiet_no_birth quiet_record quiet_audit)

lemma tenancy_no_birth: "always births_none (on_tenancy m)"
  by (simp add: always_def births_none_def no_birth_def on_tenancy_def split: prod.splits)

lemma port_no_birth: "always no_birth m \<Longrightarrow> always births_none (session_port m)"
  unfolding always_def births_none_def session_port_def
proof
  fix w assume "\<forall>i. no_birth i (snd (m i))"
  then have "no_birth (bw_identity w) (snd (m (bw_identity w)))" by blast
  then show "no_birth (bw_identity w) (bw_identity (snd (case m (bw_identity w) of (r, i) \<Rightarrow> (case r of
        Inr x \<Rightarrow> (Inr (Inr x), w\<lparr>bw_identity := i\<rparr>)
      | Inl e \<Rightarrow> if is_session_denial e then (Inr (Inl e), w\<lparr>bw_identity := i\<rparr>) else (Inl TENANCY_STORE_FAILURE, w\<lparr>bw_identity := i\<rparr>)))))"
    by (auto split: prod.splits sum.splits)
qed

lemma asked_no_birth: "always births_none m \<Longrightarrow> always births_none (asked m)"
  by (auto simp: always_def asked_def split: prod.splits sum.splits) (metis snd_conv)+

lemmas no_births = binding_births.always_intros tenancy_no_birth port_no_birth asked_no_birth revokeSession_no_birth

lemma switch_rebound_no_birth: "always births_none (switch_rebound x a target r)"
  unfolding switch_rebound_def switch_denied_def switch_recorded_def revoke_replacement_def by (intro no_births)

lemma no_birth_run: "always births_none m \<Longrightarrow> m w = (r, w') \<Longrightarrow> live_ids (bw_identity w') \<subseteq> live_ids (bw_identity w)"
  unfolding always_def births_none_def no_birth_def by (metis snd_conv)

text \<open>A switch, whatever it answers: at most one session is new, in the place of the one that was presented.\<close>

definition replaced_at_most :: "string \<Rightarrow> identity_world \<Rightarrow> identity_world \<Rightarrow> bool" where
  "replaced_at_most sid i i' \<longleftrightarrow> live_ids i' \<subseteq> live_ids i \<or> (\<exists>new. live_ids i' \<subseteq> insert new (live_ids i - {sid}))"

lemma replaced_then_no_birth: "replaced_at_most sid i i' \<Longrightarrow> live_ids i'' \<subseteq> live_ids i' \<Longrightarrow> replaced_at_most sid i i''"
  unfolding replaced_at_most_def by blast

lemma switched_replaces:
  assumes "switched account sid now b i i'" "distinct (map se_id (w_sessions i))"
  shows "live_ids i' \<subseteq> insert (se_id (sb_session b)) (live_ids i - {sid})"
proof
  fix j assume j: "j \<in> live_ids i'"
  obtain s where s: "s \<in> set (w_sessions i)" "se_id s = sid" "se_accountId s = account"
    using assms(1) unfolding switched_def by blast
  have u: "x = s" if "x \<in> set (w_sessions i)" "se_id x = sid" for x
    using assms(2) s(1,2) that unfolding distinct_map by (metis inj_onD)
  have w: "w_sessions i' = map (\<lambda>s. if se_id s = sid \<and> se_accountId s = account \<and> se_revokedAt s = None
         then s\<lparr>se_revokedAt := Some now, se_revokedReason := Some RR_TENANT_SWITCH\<rparr> else s) (w_sessions i)
       @ [(sb_session b)\<lparr>se_revokedAt := None, se_revokedReason := None\<rparr>]"
    using assms(1) unfolding switched_def by blast
  obtain y where y: "y \<in> set (w_sessions i')" "se_id y = j" "se_revokedAt y = None" using j unfolding live_ids_def by blast
  consider "j = se_id (sb_session b)" | z where "z \<in> set (w_sessions i)" "\<not> (se_id z = sid \<and> se_accountId z = account \<and> se_revokedAt z = None)" "y = z"
    using y unfolding w by (auto split: if_splits)
  then show "j \<in> insert (se_id (sb_session b)) (live_ids i - {sid})"
  proof cases
    case (2 z)
    have "j \<noteq> sid" using 2 u [of z] s(3) y by auto
    then show ?thesis using 2 y unfolding live_ids_def by blast
  qed simp
qed

lemma switch_replaces:
  assumes "switchTenant x target (Some a) w = (res, w')" "pa_sessionId a = Some sid" "distinct (map se_id (w_sessions (bw_identity w)))"
  shows "replaced_at_most sid (bw_identity w) (bw_identity w')"
  using switch_shape [OF assms(1)]
proof (elim disjE exE conjE)
  fix sid' t rb i
  assume s: "pa_sessionId a = Some sid'"
    and rb: "rebindSessionTenant (sx_identity x) (sx_now x) (pa_userId a) sid' (Some target) (sx_client x) (bw_identity w) = (rb, i)"
    and rest: "case rb of
             Inl e \<Rightarrow> w' = w\<lparr>bw_identity := i\<rparr> \<and> res = Inl (if is_session_denial e then BINDING_FAILED else TENANCY_STORE_FAILURE)
           | Inr r \<Rightarrow> switch_rebound x a target r (w\<lparr>bw_identity := i\<rparr>) = (res, w')"
  have "sid' = sid" using s assms(2) by simp
  then consider "same_sessions (bw_identity w) i" | b where "switched (pa_userId a) sid (sx_now x) b (bw_identity w) i"
    using rebind_port [OF rb] by blast
  then have "replaced_at_most sid (bw_identity w) i"
  proof cases
    case 1 then show ?thesis by (simp add: replaced_at_most_def same_sessions_def live_ids_def)
  next
    case (2 b) then show ?thesis using switched_replaces [OF _ assms(3)] unfolding replaced_at_most_def by blast
  qed
  moreover have "live_ids (bw_identity w') \<subseteq> live_ids i"
  proof (cases rb)
    case (Inr r) then show ?thesis using no_birth_run [OF switch_rebound_no_birth] rest by fastforce
  qed (use rest in simp)
  ultimately show ?thesis by (rule replaced_then_no_birth)
qed (simp add: replaced_at_most_def)

lemma switch_binding_replaces:
  assumes "switch_binding x p target choice w = (res, w')" "distinct (map se_id (w_sessions (bw_identity w)))"
  shows "replaced_at_most (bo_sessionId p) (bw_identity w) (bw_identity w')"
proof -
  obtain q w1 where q: "switchTenant (be_switch x) target (Some (boot_actor p)) w = (q, w1)"
    by (cases "switchTenant (be_switch x) target (Some (boot_actor p)) w")
  have a: "answered (switchTenant (be_switch x) target (Some (boot_actor p))) w = (Inr q, w1)" using q by (simp add: answered_def)
  have r: "replaced_at_most (bo_sessionId p) (bw_identity w) (bw_identity w1)"
    by (rule switch_replaces [OF q _ assms(2)]) (simp add: boot_actor_def)
  note run = assms(1) [unfolded switch_binding_def then_step [of "answered (switchTenant (be_switch x) target (Some (boot_actor p)))" w, OF a] sum.case]
  have "live_ids (bw_identity w') \<subseteq> live_ids (bw_identity w1)"
  proof (cases q)
    case (Inr s)
    have n: "always births_none (thenE (binding_audited x p target SWITCHED_ACTION (Some (ts_previousTenantId s)) [] ''SUCCESS'') (\<lambda>written.
             if written then returnE (TENANT_SWITCHED choice (ts_session s))
             else thenE (revoke_session (be_switch x) p (is_sessionId (ts_session s))) (\<lambda>ignored. throwE (FAILS CONTEXT_UNAVAILABLE))))"
      unfolding binding_audited_def boot_record_def revoke_session_def by (intro no_births)
    show ?thesis by (rule no_birth_run [OF n]) (use run Inr in simp)
  qed (use run in simp)
  with r show ?thesis by (rule replaced_then_no_birth)
qed

text \<open>The replacement of a bound session that is refused: what the switch of tenancy leaves when it refuses.\<close>

lemma refused_switch:
  assumes "switchTenant x target (Some a) w = (Inl e, w')"
  shows "e \<noteq> TENANCY_STORE_FAILURE \<Longrightarrow> live_ids (bw_identity w') \<subseteq> live_ids (bw_identity w)"
    and "w' = w \<or> e \<in> {BINDING_FAILED, TENANCY_STORE_FAILURE, MEMBERSHIP_REVOKED_CONCURRENTLY}"
proof -
  show "e \<noteq> TENANCY_STORE_FAILURE \<Longrightarrow> live_ids (bw_identity w') \<subseteq> live_ids (bw_identity w)"
    using tenant_switch_rests_on_membership [OF assms] by blast
  show "w' = w \<or> e \<in> {BINDING_FAILED, TENANCY_STORE_FAILURE, MEMBERSHIP_REVOKED_CONCURRENTLY}"
  proof (rule disjCI)
    assume n: "e \<notin> {BINDING_FAILED, TENANCY_STORE_FAILURE, MEMBERSHIP_REVOKED_CONCURRENTLY}"
    show "w' = w"
    proof (rule ccontr)
      assume "w' \<noteq> w"
      then obtain sid t rb i where "pa_sessionId a = Some sid" "verifyTarget (sx_before x) a target (bw_tenancy w) = (Inr True, t)"
        and rb: "rebindSessionTenant (sx_identity x) (sx_now x) (pa_userId a) sid (Some target) (sx_client x) (bw_identity w) = (rb, i)"
        and rest: "case rb of
             Inl f \<Rightarrow> w' = w\<lparr>bw_identity := i\<rparr> \<and> (Inl e :: tenancy_error + tenant_switched) = Inl (if is_session_denial f then BINDING_FAILED else TENANCY_STORE_FAILURE)
           | Inr r \<Rightarrow> switch_rebound x a target r (w\<lparr>bw_identity := i\<rparr>) = (Inl e, w')"
        using switch_shape [OF assms] by blast
      obtain r where r: "rb = Inr r" using rest n by (cases rb) (auto split: if_splits)
      obtain b where b: "switched (pa_userId a) sid (sx_now x) b (bw_identity w) i" "linked_bundle (pa_userId a) (Some target) b"
        "is_sessionId (tr_session r) = se_id (sb_session b)"
        using rebind_port [OF rb] r by blast
      have own: "\<forall>s \<in> set (w_sessions (bw_identity (w\<lparr>bw_identity := i\<rparr>))).
          se_id s = is_sessionId (tr_session r) \<longrightarrow> se_accountId s = pa_userId a"
        using replacement_owner [OF b(1,2)] b(3) by simp
      have "switch_rebound x a target r (w\<lparr>bw_identity := i\<rparr>) = (Inl e, w')" using rest r by simp
      from rebound_shape [OF this own] show False using n by auto
    qed
  qed
qed

lemma switch_binding_refused:
  assumes "switch_binding x p target choice w = (Inl (FAILS e), w')"
  shows "e \<noteq> CONTEXT_UNAVAILABLE \<Longrightarrow> live_ids (bw_identity w') \<subseteq> live_ids (bw_identity w)"
    and "e \<in> {INVALID_TENANT_SELECTION, MEMBERSHIP_REQUIRED} \<Longrightarrow> w_sessions (bw_identity w') = w_sessions (bw_identity w)"
proof -
  obtain q w1 where q: "switchTenant (be_switch x) target (Some (boot_actor p)) w = (q, w1)"
    by (cases "switchTenant (be_switch x) target (Some (boot_actor p)) w")
  have a: "answered (switchTenant (be_switch x) target (Some (boot_actor p))) w = (Inr q, w1)" using q by (simp add: answered_def)
  note run = assms [unfolded switch_binding_def then_step [of "answered (switchTenant (be_switch x) target (Some (boot_actor p)))" w, OF a] sum.case]
  have "e = CONTEXT_UNAVAILABLE \<or> (\<exists>f. q = Inl f \<and> e = selection_error f \<and> w' = w1)"
  proof (cases q)
    case (Inl f) then show ?thesis using run by auto
  next
    case (Inr s)
    have ra: "binding_audited x p t action previous reason result w = (Inl d, w1) \<Longrightarrow> d = REJECTS" for t action previous reason result w w1 d
      unfolding binding_audited_def by (rule boot_record_Inl)
    have rr: "revoke_session y p sid w = (Inl d, w1) \<Longrightarrow> d = REJECTS" for y sid w w1 d unfolding revoke_session_def by (rule asked_Inl)
    show ?thesis using run Inr by (auto simp: thenE_Inl split: if_splits dest!: ra rr)
  qed
  then consider "e = CONTEXT_UNAVAILABLE" | f where "switchTenant (be_switch x) target (Some (boot_actor p)) w = (Inl f, w')" "e = selection_error f"
    using q by blast
  then have "(e \<noteq> CONTEXT_UNAVAILABLE \<longrightarrow> live_ids (bw_identity w') \<subseteq> live_ids (bw_identity w))
      \<and> (e \<in> {INVALID_TENANT_SELECTION, MEMBERSHIP_REQUIRED} \<longrightarrow> w_sessions (bw_identity w') = w_sessions (bw_identity w))"
  proof cases
    case (2 f)
    note r = refused_switch [OF 2(1)]
    have "e \<noteq> CONTEXT_UNAVAILABLE \<Longrightarrow> f \<noteq> TENANCY_STORE_FAILURE" using 2(2) by auto
    moreover have "e \<in> {INVALID_TENANT_SELECTION, MEMBERSHIP_REQUIRED} \<Longrightarrow> w' = w" using r(2) 2(2) by auto
    ultimately show ?thesis using r(1) by blast
  qed simp
  then show "e \<noteq> CONTEXT_UNAVAILABLE \<Longrightarrow> live_ids (bw_identity w') \<subseteq> live_ids (bw_identity w)"
    and "e \<in> {INVALID_TENANT_SELECTION, MEMBERSHIP_REQUIRED} \<Longrightarrow> w_sessions (bw_identity w') = w_sessions (bw_identity w)" by blast+
qed

text \<open>
  C24: A refused selection.  Unless it answers context_unavailable on a session that was bound before, it makes no session live that was
  not; on a session that was unbound it either leaves the sessions as they were or ends the one it had bound, whichever
  error it answers.  A malformed selection, and a tenant the caller may not use, touch no session, bound or not.  The exception is real: a
  bound session is replaced before the second verification, and where that cannot read the store the answer is
  context_unavailable with the replacement live (\<open>failed_reverification_leaves_the_binding\<close>).  Even then at most one session is
  new, and only in the place of the one that was presented, which is live no more.
\<close>

theorem refused_selection_binds_nothing:
  assumes "distinct (map se_id (w_sessions (bw_identity w)))"
    "setTenantBinding x tenantId p w = (Inl (FAILS e), w')"
  shows "(bo_tenantId p = None \<or> e \<noteq> CONTEXT_UNAVAILABLE \<longrightarrow> live_ids (bw_identity w') \<subseteq> live_ids (bw_identity w))
    \<and> (bo_tenantId p = None \<longrightarrow> w_sessions (bw_identity w') = w_sessions (bw_identity w) \<or> bo_sessionId p \<notin> live_ids (bw_identity w'))
    \<and> (e \<in> {INVALID_TENANT_SELECTION, MEMBERSHIP_REQUIRED} \<longrightarrow> w_sessions (bw_identity w') = w_sessions (bw_identity w))
    \<and> (live_ids (bw_identity w') \<subseteq> live_ids (bw_identity w)
        \<or> (\<exists>new. live_ids (bw_identity w') \<subseteq> insert new (live_ids (bw_identity w) - {bo_sessionId p})))"
proof -
  consider (untouched) "w_sessions (bw_identity w') = w_sessions (bw_identity w)"
    | (first) target choice w1 q where "bo_tenantId p = None" "resolve_context (sx_before (be_switch x)) p w = (q, w1)"
      "firstBind x p target choice w1 = (Inl (FAILS e), w')" "isUuid target"
    | (replaced) target choice w1 q where "bo_tenantId p \<noteq> None" "resolve_context (sx_before (be_switch x)) p w = (q, w1)"
      "switch_binding x p target choice w1 = (Inl (FAILS e), w')"
    using selection_run [OF assms(2)] by (cases "bo_tenantId p = None") auto
  then show ?thesis
  proof cases
    case untouched then show ?thesis by (simp add: live_ids_def)
  next
    case first
    have i: "bw_identity w1 = bw_identity w" using resolve_context_answers [OF first(2)] by blast
    have "e \<notin> {INVALID_TENANT_SELECTION, MEMBERSHIP_REQUIRED}" using firstBind_errors [OF first(3,4)] by auto
    then show ?thesis using firstBind_refused [OF first(3) _ first(4)] assms(1) i by auto
  next
    case replaced
    have i: "bw_identity w1 = bw_identity w" using resolve_context_answers [OF replaced(2)] by blast
    have "replaced_at_most (bo_sessionId p) (bw_identity w) (bw_identity w')"
      using switch_binding_replaces [OF replaced(3)] assms(1) i by simp
    then show ?thesis using switch_binding_refused [OF replaced(3)] replaced(1) i unfolding replaced_at_most_def by metis
  qed
qed


section \<open>Instances\<close>

definition unbound_session :: session where
  "unbound_session = sample_session\<lparr>se_accountId := uuid_a, se_tenantBinding := None\<rparr>"

definition boot_world :: binding_world where
  "boot_world = \<lparr>bw_tenancy = acme_world,
     bw_identity = sample_world\<lparr>w_accounts := map (\<lambda>x. x\<lparr>ac_id := uuid_a\<rparr>) (w_accounts sample_world),
       w_sessions := [unbound_session], w_families := [], w_tokens := []\<rparr>\<rparr>"

definition boot_user :: boot_principal where
  "boot_user = \<lparr>bo_userId = uuid_a, bo_sessionId = ''s1'', bo_tenantId = None, bo_emailVerified = True, bo_requestId = Some ''q''\<rparr>"

definition boot_sample :: boot_env where
  "boot_sample = \<lparr>be_switch = switch_sample, be_audit = sample_tenancy,
     be_readers = \<lparr>bs_stateFor = (\<lambda>u t. STATE_IS (case t of None \<Rightarrow> GOVERNED_BY_NONE | Some i \<Rightarrow> GOVERNED_UNVERIFIED ''BH'')),
       bs_entityFor = (\<lambda>u t. ENTITY_UNASSIGNED), bs_packFor = (\<lambda>g. PACK_NONE), bs_capabilitiesFor = (\<lambda>u t. CAPABILITIES_ARE [])\<rparr>\<rparr>"

definition losing_membership :: boot_env where
  "losing_membership = boot_sample\<lparr>be_switch := switch_sample\<lparr>sx_meanwhile := (\<lambda>t. t\<lparr>tw_members := []\<rparr>)\<rparr>\<rparr>"

lemma boot_world_ok:
  "canonical_tenants (bw_tenancy boot_world)" "canonical_tenants (sx_meanwhile (be_switch boot_sample) (bw_tenancy boot_world))"
  "distinct (map se_id (w_sessions (bw_identity boot_world)))"
proof -
  have "pg_uuid uuid_t = uuid_t" by code_simp
  then show "canonical_tenants (bw_tenancy boot_world)" "canonical_tenants (sx_meanwhile (be_switch boot_sample) (bw_tenancy boot_world))"
    by (simp_all add: canonical_tenants_def boot_world_def acme_world_def acme_def acme_owner_def new_member_def boot_sample_def switch_sample_def)
  show "distinct (map se_id (w_sessions (bw_identity boot_world)))" by (simp add: boot_world_def)
qed

lemma boot_user_unbound: "bo_tenantId boot_user = None"
  by (simp add: boot_user_def)

lemma booted:
  "\<exists>v w'. getBootstrap boot_sample boot_user boot_world = (Inr v, w') \<and> bv_binding v = STATE_BOUND (choice_of acme_world acme_owner)"
proof -
  have e: "result_map (fst (getBootstrap boot_sample boot_user boot_world)) bv_binding = Inr (STATE_BOUND (choice_of acme_world acme_owner))"
    by code_simp
  show ?thesis using result_pair_Inr [OF e] by blast
qed

theorem bound_context_is_a_membership_witness:
  "\<exists>v w' c. getBootstrap boot_sample boot_user boot_world = (Inr v, w') \<and> bv_binding v = STATE_BOUND c
     \<and> bound_to (bw_identity w') uuid_a ''s1'' (tc_tenantId c)"
proof -
  obtain v w' c where v: "getBootstrap boot_sample boot_user boot_world = (Inr v, w')" "bv_binding v = STATE_BOUND c" using booted by blast
  have "bound_to (bw_identity w') (bo_userId boot_user) (bo_sessionId boot_user) (tc_tenantId c)"
    using bound_context_is_a_membership [OF boot_world_ok v] by (simp add: boot_user_unbound Let_def)
  then show ?thesis using v by (auto simp: boot_user_def)
qed

theorem context_sections_are_answers_witness:
  "\<exists>v w'. getBootstrap boot_sample boot_user boot_world = (Inr v, w') \<and> bv_jurisdiction v = GOVERNED_UNVERIFIED ''BH''"
proof -
  obtain v w' c where v: "getBootstrap boot_sample boot_user boot_world = (Inr v, w')" "bv_binding v = STATE_BOUND c" using booted by blast
  have "bs_stateFor (be_readers boot_sample) (bo_userId boot_user) (effective_tenant (bv_binding v)) = STATE_IS (bv_jurisdiction v)"
    using context_sections_are_answers [of boot_sample boot_user boot_world] v(1) by (simp add: Let_def)
  then show ?thesis using v by (auto simp: boot_sample_def effective_tenant_def)
qed

theorem tenant_selection_rests_on_membership_witness:
  "\<exists>c w'. setTenantBinding boot_sample (Some uuid_t) boot_user boot_world = (Inr (TENANT_BOUND c), w')
     \<and> bound_to (bw_identity w') uuid_a ''s1'' uuid_t"
proof -
  have e: "result_map (fst (setTenantBinding boot_sample (Some uuid_t) boot_user boot_world))
      (\<lambda>r. case r of TENANT_BOUND c \<Rightarrow> True | _ \<Rightarrow> False) = Inr True" by code_simp
  obtain r w' where r: "setTenantBinding boot_sample (Some uuid_t) boot_user boot_world = (Inr r, w')"
    "case r of TENANT_BOUND c \<Rightarrow> True | _ \<Rightarrow> False" using result_pair_Inr [OF e] by auto
  then obtain c where c: "r = TENANT_BOUND c" by (cases r) auto
  have "bound_to (bw_identity w') (bo_userId boot_user) (bo_sessionId boot_user) uuid_t"
    using tenant_selection_rests_on_membership [OF boot_world_ok r(1)] by (simp add: c)
  then show ?thesis using r(1) c by (auto simp: boot_user_def)
qed

theorem refused_selection_binds_nothing_witness:
  "\<exists>w'. setTenantBinding losing_membership (Some uuid_t) boot_user boot_world = (Inl (FAILS BINDING_REVOKED_CONCURRENTLY), w')
     \<and> live_ids (bw_identity w') = {}"
proof -
  have e: "fst (setTenantBinding losing_membership (Some uuid_t) boot_user boot_world) = Inl (FAILS BINDING_REVOKED_CONCURRENTLY)" by code_simp
  then obtain w' where w': "setTenantBinding losing_membership (Some uuid_t) boot_user boot_world = (Inl (FAILS BINDING_REVOKED_CONCURRENTLY), w')"
    by (cases "setTenantBinding losing_membership (Some uuid_t) boot_user boot_world") simp
  have l: "live_ids (bw_identity boot_world) = {''s1''}"
    by (auto simp: live_ids_def boot_world_def unbound_session_def sample_session_def)
  have "map se_revokedAt (w_sessions (bw_identity (snd (setTenantBinding losing_membership (Some uuid_t) boot_user boot_world)))) = [Some 1000]"
    by code_simp
  then have n: "w_sessions (bw_identity w') \<noteq> w_sessions (bw_identity boot_world)"
    using w' by (auto simp: boot_world_def unbound_session_def sample_session_def)
  show ?thesis using refused_selection_binds_nothing [OF boot_world_ok(3) w'] boot_user_unbound l n w' by (auto simp: boot_user_def)
qed

text \<open>
  The compensation is itself a call that may fail: when the revocation cannot reach the store, the request rejects and the
  session it bound stays live and bound to a tenant the caller has lost, with no record in the trail.
\<close>

definition losing_the_store :: boot_env where
  "losing_the_store = losing_membership\<lparr>be_switch := (be_switch losing_membership)\<lparr>sx_identity := sample_deps\<lparr>d_down :=
     (\<lambda>c w. c = CALL_SESSIONS \<and> list_ex (\<lambda>s. se_tenantBinding s \<noteq> None) (w_sessions w))\<rparr>\<rparr>\<rparr>"

lemma failed_compensation_leaves_the_session_bound:
  "case setTenantBinding losing_the_store (Some uuid_t) boot_user boot_world of (r, w') \<Rightarrow>
     r = Inl REJECTS \<and> tw_members (bw_tenancy w') = [] \<and> tw_audit (bw_tenancy w') = []
     \<and> list_all (\<lambda>s. se_revokedAt s = None \<and> se_tenantBinding s = Some uuid_t) (w_sessions (bw_identity w'))"
  by code_simp

end
