(* ===== verification/Users.thy ===== *)
theory Users
  imports Tenancy
begin

text \<open>
  The users module (\<open>modules/users\<close>): the profile aggregate with its status machine, the two tables of migration 0040 with
  their constraints and row-level policies, \<open>PrismaUserProfileRepository\<close>, the three use cases, and what the HTTP surface makes
  of a body and of an answer.  The actor is a \<open>policy_actor\<close>, and \<open>requirePrincipal\<close> is the check tenancy has.  Between the read
  and the write of a disable request other transactions may commit (\<open>ud_meanwhile\<close>).  A repository call is \<open>None\<close> when it throws.
\<close>

section \<open>Domain\<close>

definition USER_STATUSES :: "string list" where
  "USER_STATUSES = [''ACTIVE'', ''DISABLE_REQUESTED'', ''DISABLED'', ''DELETION_REQUESTED'']"

definition STATUS_TRANSITIONS :: "(string \<times> string list) list" where
  "STATUS_TRANSITIONS =
     [(''ACTIVE'', [''DISABLE_REQUESTED'', ''DELETION_REQUESTED'']),
      (''DISABLE_REQUESTED'', [''DISABLED'', ''ACTIVE'']),
      (''DISABLED'', []),
      (''DELETION_REQUESTED'', [])]"

definition canTransitionUserStatus :: "string \<Rightarrow> string \<Rightarrow> bool" where
  "canTransitionUserStatus from_status to_status \<longleftrightarrow>
     (case map_of STATUS_TRANSITIONS from_status of None \<Rightarrow> False | Some targets \<Rightarrow> to_status \<in> set targets)"

record user_profile =
  up_userId :: string
  up_tenantId :: string
  up_displayName :: string
  up_locale :: string
  up_status :: string
  up_residencyJurisdictionRef :: "string option"
  up_contractingOperatingEntityId :: "string option"
  up_createdAt :: millis
  up_updatedAt :: millis

record status_change =
  sc_id :: string
  sc_userId :: string
  sc_tenantId :: string
  sc_fromStatus :: string
  sc_toStatus :: string
  sc_reason :: "string option"
  sc_actor :: string
  sc_occurredAt :: millis

datatype profile_field = DISPLAY_NAME | LOCALE

datatype field_violation = FIELD_EMPTY profile_field | FIELD_TOO_LONG profile_field | FIELD_HAS_CONTROL profile_field | FIELD_SHAPE profile_field

definition MAX_DISPLAY_NAME_LENGTH :: nat where
  "MAX_DISPLAY_NAME_LENGTH = 120"

definition control_char :: "char \<Rightarrow> bool" where
  "control_char c \<longleftrightarrow> (of_char c :: nat) \<le> 0x1F \<or> (of_char c :: nat) = 0x7F"

definition parseDisplayName :: "string \<Rightarrow> field_violation + string" where
  "parseDisplayName raw =
     (let trimmed = js_trim raw
      in if length trimmed = 0 then Inl (FIELD_EMPTY DISPLAY_NAME)
         else if length trimmed > MAX_DISPLAY_NAME_LENGTH then Inl (FIELD_TOO_LONG DISPLAY_NAME)
         else if list_ex control_char trimmed then Inl (FIELD_HAS_CONTROL DISPLAY_NAME)
         else Inr trimmed)"

definition lower_letter :: "char \<Rightarrow> bool" where
  "lower_letter c \<longleftrightarrow> (of_char c :: nat) \<in> {97..122}"

definition letter_or_digit :: "char \<Rightarrow> bool" where
  "letter_or_digit c \<longleftrightarrow> lower_letter c \<or> is_upper_ascii c \<or> is_digit c"

definition LOCALE_SHAPE :: "string \<Rightarrow> bool" where
  "LOCALE_SHAPE s \<longleftrightarrow> (case split_on CHR ''-'' s of
     [] \<Rightarrow> False
   | primary # rest \<Rightarrow> run_of lower_letter 2 3 primary \<and> length rest \<le> 3 \<and> list_all (run_of letter_or_digit 2 8) rest)"

definition parseLocale :: "string \<Rightarrow> field_violation + string" where
  "parseLocale raw = (let v = js_trim raw in if \<not> LOCALE_SHAPE v then Inl (FIELD_SHAPE LOCALE) else Inr v)"

section \<open>Tables\<close>

record users_world =
  uw_profiles :: "user_profile list"
  uw_history :: "status_change list"
  uw_audit :: "audit_event list"

definition profile_visible :: "bound_values \<Rightarrow> user_profile \<Rightarrow> bool" where
  "profile_visible v r \<longleftrightarrow> bound_tenant v = Some (up_tenantId r)"

text \<open>\<open>user_profiles_self_insert\<close> and \<open>user_profiles_self_update\<close> have one condition.\<close>

definition profile_writable :: "bound_values \<Rightarrow> user_profile \<Rightarrow> bool" where
  "profile_writable v r \<longleftrightarrow> bound_tenant v = Some (up_tenantId r) \<and> bound_user v = Some (up_userId r)"

text \<open>The status check; a text column admits no NUL character.\<close>

definition profile_checks :: "user_profile \<Rightarrow> bool" where
  "profile_checks r \<longleftrightarrow> up_status r \<in> set USER_STATUSES \<and> CHR 0x00 \<notin> set (up_displayName r) \<and> CHR 0x00 \<notin> set (up_locale r)"

definition profile_conflicts :: "user_profile \<Rightarrow> user_profile \<Rightarrow> bool" where
  "profile_conflicts a b \<longleftrightarrow> up_userId a = up_userId b"

definition change_visible :: "bound_values \<Rightarrow> status_change \<Rightarrow> bool" where
  "change_visible v c \<longleftrightarrow> bound_tenant v = Some (sc_tenantId c)"

definition change_insert_allowed :: "bound_values \<Rightarrow> status_change \<Rightarrow> bool" where
  "change_insert_allowed v c \<longleftrightarrow> bound_tenant v = Some (sc_tenantId c) \<and> bound_user v = Some (sc_userId c)"

definition change_checks :: "status_change \<Rightarrow> bool" where
  "change_checks c \<longleftrightarrow> (case sc_reason c of None \<Rightarrow> True | Some r \<Rightarrow> CHR 0x00 \<notin> set r)"

definition change_conflicts :: "status_change \<Rightarrow> status_change \<Rightarrow> bool" where
  "change_conflicts a b \<longleftrightarrow> sc_id a = sc_id b"

definition toProfile :: "user_profile \<Rightarrow> user_profile option" where
  "toProfile r = (if \<not> isUuid (up_userId r) \<or> \<not> isUuid (up_tenantId r) \<or> up_status r \<notin> set USER_STATUSES then None else Some r)"

definition toChange :: "status_change \<Rightarrow> status_change option" where
  "toChange c = (if \<not> isUuid (sc_userId c) \<or> \<not> isUuid (sc_tenantId c) \<or> sc_fromStatus c \<notin> set USER_STATUSES
       \<or> sc_toStatus c \<notin> set USER_STATUSES then None else Some c)"

section \<open>PrismaUserProfileRepository\<close>

definition own_profile :: "policy_actor \<Rightarrow> user_profile \<Rightarrow> bool" where
  "own_profile a r \<longleftrightarrow> up_userId r = own_user a \<and> up_tenantId r = own_tenant a"

definition profiles_findOwn :: "bool \<Rightarrow> policy_actor \<Rightarrow> users_world \<Rightarrow> user_profile option option" where
  "profiles_findOwn down a w = in_context (actor_context a) tenant_keys down (\<lambda>v.
     mapped_row toProfile (find_first (\<lambda>r. profile_visible v r \<and> own_profile a r) stored_order (uw_profiles w)))"

definition new_profile :: "policy_actor \<Rightarrow> string \<Rightarrow> string \<Rightarrow> millis \<Rightarrow> user_profile" where
  "new_profile a displayName locale at =
     \<lparr>up_userId = own_user a, up_tenantId = own_tenant a, up_displayName = displayName, up_locale = locale, up_status = ''ACTIVE'',
      up_residencyJurisdictionRef = None, up_contractingOperatingEntityId = None, up_createdAt = at, up_updatedAt = at\<rparr>"

definition profiles_createOwn ::
  "bool \<Rightarrow> policy_actor \<Rightarrow> string \<Rightarrow> string \<Rightarrow> millis \<Rightarrow> users_world \<Rightarrow> (user_profile \<times> users_world) option" where
  "profiles_createOwn down a displayName locale at w = in_context (actor_context a) tenant_keys down (\<lambda>v.
     let r = new_profile a displayName locale at
     in if \<not> profile_writable v r \<or> \<not> profile_visible v r \<or> \<not> profile_checks r then None
        else case create_row profile_conflicts r (uw_profiles w) of
          None \<Rightarrow> None
        | Some rows \<Rightarrow> map_option (\<lambda>p. (p, w\<lparr>uw_profiles := rows\<rparr>)) (toProfile r))"

record field_changes =
  fc_displayName :: "string option"
  fc_locale :: "string option"
  fc_occurredAt :: millis

definition edited_profile :: "field_changes \<Rightarrow> user_profile \<Rightarrow> user_profile" where
  "edited_profile c r = r\<lparr>up_displayName := (case fc_displayName c of None \<Rightarrow> up_displayName r | Some n \<Rightarrow> n),
     up_locale := (case fc_locale c of None \<Rightarrow> up_locale r | Some l \<Rightarrow> l), up_updatedAt := fc_occurredAt c\<rparr>"

definition profiles_updateOwnFields ::
  "bool \<Rightarrow> policy_actor \<Rightarrow> field_changes \<Rightarrow> users_world \<Rightarrow> (user_profile option \<times> users_world) option" where
  "profiles_updateOwnFields down a c w = in_context (actor_context a) tenant_keys down (\<lambda>v.
     let hit = (\<lambda>r. profile_visible v r \<and> profile_writable v r \<and> own_profile a r)
     in if list_ex (\<lambda>r. hit r \<and> \<not> profile_checks (edited_profile c r)) (uw_profiles w) then None
        else let (count, rows) = update_many hit (edited_profile c) (uw_profiles w)
             in if count = 0 then Some (None, w)
                else map_option (\<lambda>p. (p, w\<lparr>uw_profiles := rows\<rparr>))
                  (mapped_row toProfile (find_first (\<lambda>r. profile_visible v r \<and> own_profile a r) stored_order rows)))"

record status_transition =
  st_expectedFrom :: string
  st_toStatus :: string
  st_reason :: "string option"
  st_occurredAt :: millis

definition moved_profile :: "status_transition \<Rightarrow> user_profile \<Rightarrow> user_profile" where
  "moved_profile t r = r\<lparr>up_status := st_toStatus t, up_updatedAt := st_occurredAt t\<rparr>"

definition new_change :: "string \<Rightarrow> policy_actor \<Rightarrow> status_transition \<Rightarrow> status_change" where
  "new_change newId a t =
     \<lparr>sc_id = pg_uuid newId, sc_userId = own_user a, sc_tenantId = own_tenant a, sc_fromStatus = st_expectedFrom t, sc_toStatus = st_toStatus t,
      sc_reason = st_reason t, sc_actor = ''user:'' @ pa_userId a, sc_occurredAt = st_occurredAt t\<rparr>"

text \<open>One transaction: the conditional update and the row of the history, or nothing.\<close>

definition profiles_transitionOwnStatus ::
  "bool \<Rightarrow> string \<Rightarrow> policy_actor \<Rightarrow> status_transition \<Rightarrow> users_world \<Rightarrow> ((user_profile \<times> status_change) option \<times> users_world) option" where
  "profiles_transitionOwnStatus down newId a t w = in_context (actor_context a) tenant_keys down (\<lambda>v.
     let hit = (\<lambda>r. profile_visible v r \<and> profile_writable v r \<and> own_profile a r \<and> up_status r = st_expectedFrom t)
     in if list_ex (\<lambda>r. hit r \<and> \<not> profile_checks (moved_profile t r)) (uw_profiles w) then None
        else let (count, rows) = update_many hit (moved_profile t) (uw_profiles w); change = new_change newId a t
             in if count = 0 then Some (None, w)
                else if \<not> change_insert_allowed v change \<or> \<not> change_visible v change \<or> \<not> change_checks change then None
                else (case create_row change_conflicts change (uw_history w) of
                    None \<Rightarrow> None
                  | Some changes \<Rightarrow>
                      (case find_first (\<lambda>r. profile_visible v r \<and> own_profile a r) stored_order rows of
                         None \<Rightarrow> None
                       | Some row \<Rightarrow> (case (toProfile row, toChange change) of
                           (Some p, Some c) \<Rightarrow> Some (Some (p, c), w\<lparr>uw_profiles := rows, uw_history := changes\<rparr>)
                         | _ \<Rightarrow> None))))"

definition earliest_change :: "status_change \<Rightarrow> status_change \<Rightarrow> int" where
  "earliest_change a b = sc_occurredAt a - sc_occurredAt b"

definition profiles_listOwnStatusHistory :: "bool \<Rightarrow> policy_actor \<Rightarrow> users_world \<Rightarrow> status_change list option" where
  "profiles_listOwnStatusHistory down a w = in_context (actor_context a) tenant_keys down (\<lambda>v.
     map_rows toChange (find_many (\<lambda>c. change_visible v c \<and> sc_userId c = own_user a \<and> sc_tenantId c = own_tenant a)
       earliest_change (uw_history w)))"

section \<open>Use cases\<close>

text \<open>\<open>AUDIT_THROWS\<close> is no error of the source: the audit call is outside of every \<open>try\<close>, and the promise rejects.\<close>

datatype users_error =
    USERS_NO_PRINCIPAL | PROFILE_NOT_FOUND | INVALID_PROFILE_FIELD field_violation | NO_APPROVED_FIELD_CHANGES
  | INVALID_STATUS_TRANSITION | PROFILE_STORE_FAILURE | AUDIT_THROWS

type_synonym 'a users_effect = "(users_world, users_error, 'a) effect"

datatype users_call = PROFILE_FIND | PROFILE_UPDATE | PROFILE_TRANSITION

record users_deps =
  ud_down :: "users_call \<Rightarrow> bool"
  ud_now :: millis
  ud_newId :: string
  ud_audit :: audit_deps
  ud_meanwhile :: "users_world \<Rightarrow> users_world"

definition stored :: "(users_world \<Rightarrow> ('a \<times> users_world) option) \<Rightarrow> 'a users_effect" where
  "stored f = (\<lambda>w. case f w of None \<Rightarrow> (Inl PROFILE_STORE_FAILURE, w) | Some (x, w') \<Rightarrow> (Inr x, w'))"

definition users_audit :: "users_deps \<Rightarrow> trail_entry \<Rightarrow> trail_failure option users_effect" where
  "users_audit d e = (\<lambda>w. case trail_record (ud_audit d) e (uw_audit w) of
      (Inl defect, es) \<Rightarrow> (Inl AUDIT_THROWS, w\<lparr>uw_audit := es\<rparr>)
    | (Inr (Inl failure), es) \<Rightarrow> (Inr (Some failure), w\<lparr>uw_audit := es\<rparr>)
    | (Inr (Inr u), es) \<Rightarrow> (Inr None, w\<lparr>uw_audit := es\<rparr>))"

definition found_profile :: "users_deps \<Rightarrow> policy_actor \<Rightarrow> user_profile users_effect" where
  "found_profile d a =
     thenE (stored (\<lambda>w. map_option (\<lambda>p. (p, w)) (profiles_findOwn (ud_down d PROFILE_FIND) a w))) (\<lambda>p.
       case p of None \<Rightarrow> throwE PROFILE_NOT_FOUND | Some profile \<Rightarrow> returnE profile)"

definition getOwnProfile :: "users_deps \<Rightarrow> policy_actor option \<Rightarrow> user_profile users_effect" where
  "getOwnProfile d actor = (case requirePrincipal actor of
     None \<Rightarrow> throwE USERS_NO_PRINCIPAL
   | Some a \<Rightarrow> found_profile d a)"

definition parsed_changes :: "millis \<Rightarrow> string option \<Rightarrow> string option \<Rightarrow> users_error + field_changes" where
  "parsed_changes now displayName locale =
     (case (case displayName of None \<Rightarrow> Inr None | Some n \<Rightarrow> map_sum id Some (parseDisplayName n)) of
        Inl violation \<Rightarrow> Inl (INVALID_PROFILE_FIELD violation)
      | Inr name \<Rightarrow>
          (case (case locale of None \<Rightarrow> Inr None | Some l \<Rightarrow> map_sum id Some (parseLocale l)) of
             Inl violation \<Rightarrow> Inl (INVALID_PROFILE_FIELD violation)
           | Inr tag \<Rightarrow>
               if name = None \<and> tag = None then Inl NO_APPROVED_FIELD_CHANGES
               else Inr \<lparr>fc_displayName = name, fc_locale = tag, fc_occurredAt = now\<rparr>))"

definition updateOwnProfile ::
  "users_deps \<Rightarrow> string option \<Rightarrow> string option \<Rightarrow> policy_actor option \<Rightarrow> user_profile users_effect" where
  "updateOwnProfile d displayName locale actor = (case requirePrincipal actor of
     None \<Rightarrow> throwE USERS_NO_PRINCIPAL
   | Some a \<Rightarrow> (case parsed_changes (ud_now d) displayName locale of
       Inl e \<Rightarrow> throwE e
     | Inr changes \<Rightarrow>
         thenE (stored (profiles_updateOwnFields (ud_down d PROFILE_UPDATE) a changes)) (\<lambda>updated.
           case updated of None \<Rightarrow> throwE PROFILE_NOT_FOUND | Some p \<Rightarrow> returnE p)))"

record disable_requested =
  dq_change :: status_change
  dq_auditFailure :: "trail_failure option"

definition MAX_REASON_LENGTH :: nat where
  "MAX_REASON_LENGTH = 500"

definition given_reason :: "string option \<Rightarrow> string option" where
  "given_reason reason = (case reason of
     None \<Rightarrow> None
   | Some r \<Rightarrow> if js_trim r = [] then None else Some (take MAX_REASON_LENGTH (js_trim r)))"

definition disable_entry :: "users_deps \<Rightarrow> policy_actor \<Rightarrow> string option \<Rightarrow> status_change \<Rightarrow> trail_entry" where
  "disable_entry d a reason change =
     \<lparr>te_occurredAt = ud_now d, te_actorRef = ''user:'' @ pa_userId a, te_tenantRef = Some (''tenant:'' @ or_empty (pa_tenantId a)),
      te_action = ''users.account.disable_requested'', te_resourceType = ''user_profile'', te_resourceId = pa_userId a, te_reason = reason,
      te_requestId = pa_requestId a, te_before = Some [(''status'', sc_fromStatus change)], te_after = Some [(''status'', sc_toStatus change)],
      te_outcome = ''SUCCESS''\<rparr>"

definition requestAccountDisable :: "users_deps \<Rightarrow> string option \<Rightarrow> policy_actor option \<Rightarrow> disable_requested users_effect" where
  "requestAccountDisable d reason actor = (case requirePrincipal actor of
     None \<Rightarrow> throwE USERS_NO_PRINCIPAL
   | Some a \<Rightarrow>
       thenE (found_profile d a) (\<lambda>profile.
       if \<not> canTransitionUserStatus (up_status profile) ''DISABLE_REQUESTED'' then throwE INVALID_STATUS_TRANSITION
       else
         thenE (updateE (\<lambda>w. ((), ud_meanwhile d w))) (\<lambda>u.
         thenE (stored (profiles_transitionOwnStatus (ud_down d PROFILE_TRANSITION) (ud_newId d) a
             \<lparr>st_expectedFrom = up_status profile, st_toStatus = ''DISABLE_REQUESTED'', st_reason = given_reason reason, st_occurredAt = ud_now d\<rparr>))
           (\<lambda>moved. case moved of
              None \<Rightarrow> throwE INVALID_STATUS_TRANSITION
            | Some (p, change) \<Rightarrow>
                thenE (users_audit d (disable_entry d a (given_reason reason) change)) (\<lambda>failure.
                  returnE \<lparr>dq_change = change, dq_auditFailure = failure\<rparr>)))))"

section \<open>The HTTP surface\<close>

text \<open>A field of a body that is no text is dropped; \<open>print\<close> prints an instant.\<close>

definition text_field :: "string \<Rightarrow> (string \<times> json) list \<Rightarrow> string option" where
  "text_field key body = (case map_of body key of Some (JString s) \<Rightarrow> Some s | _ \<Rightarrow> None)"

record profile_response =
  pq_userId :: string
  pq_tenantId :: string
  pq_displayName :: string
  pq_locale :: string
  pq_status :: string
  pq_residencyJurisdictionRef :: "string option"
  pq_createdAt :: string
  pq_updatedAt :: string

definition toUserProfileResponse :: "(millis \<Rightarrow> string) \<Rightarrow> user_profile \<Rightarrow> profile_response" where
  "toUserProfileResponse print p =
     \<lparr>pq_userId = up_userId p, pq_tenantId = up_tenantId p, pq_displayName = up_displayName p, pq_locale = up_locale p, pq_status = up_status p,
      pq_residencyJurisdictionRef = up_residencyJurisdictionRef p, pq_createdAt = print (up_createdAt p), pq_updatedAt = print (up_updatedAt p)\<rparr>"

record disable_response =
  dr_status :: string
  dr_requestedAt :: string
  dr_auditRecorded :: bool

definition toDisableRequestedResponse :: "(millis \<Rightarrow> string) \<Rightarrow> status_change \<Rightarrow> bool \<Rightarrow> disable_response" where
  "toDisableRequestedResponse print change auditRecorded =
     \<lparr>dr_status = sc_toStatus change, dr_requestedAt = print (sc_occurredAt change), dr_auditRecorded = auditRecorded\<rparr>"

definition getMe :: "(millis \<Rightarrow> string) \<Rightarrow> users_deps \<Rightarrow> policy_actor option \<Rightarrow> profile_response users_effect" where
  "getMe print d actor = (case actor of
     None \<Rightarrow> throwE USERS_NO_PRINCIPAL
   | Some a \<Rightarrow> thenE (getOwnProfile d actor) (\<lambda>p. returnE (toUserProfileResponse print p)))"

definition patchMe ::
  "(millis \<Rightarrow> string) \<Rightarrow> users_deps \<Rightarrow> (string \<times> json) list \<Rightarrow> policy_actor option \<Rightarrow> profile_response users_effect" where
  "patchMe print d body actor = (case actor of
     None \<Rightarrow> throwE USERS_NO_PRINCIPAL
   | Some a \<Rightarrow> thenE (updateOwnProfile d (text_field ''displayName'' body) (text_field ''locale'' body) actor)
       (\<lambda>p. returnE (toUserProfileResponse print p)))"

definition requestDisable ::
  "(millis \<Rightarrow> string) \<Rightarrow> users_deps \<Rightarrow> (string \<times> json) list \<Rightarrow> policy_actor option \<Rightarrow> disable_response users_effect" where
  "requestDisable print d body actor = (case actor of
     None \<Rightarrow> throwE USERS_NO_PRINCIPAL
   | Some a \<Rightarrow> thenE (requestAccountDisable d (text_field ''reason'' body) actor)
       (\<lambda>q. returnE (toDisableRequestedResponse print (dq_change q) (dq_auditFailure q = None))))"

record users_problem =
  uq_status :: nat
  uq_title :: string
  uq_code :: string

text \<open>\<open>None\<close>: a rejection is no problem of this surface.\<close>

fun problemForUsersError :: "users_error \<Rightarrow> users_problem option" where
  "problemForUsersError USERS_NO_PRINCIPAL = Some \<lparr>uq_status = 401, uq_title = ''Authentication required'', uq_code = ''AUTHENTICATION_REQUIRED''\<rparr>"
| "problemForUsersError PROFILE_NOT_FOUND = Some \<lparr>uq_status = 404, uq_title = ''Profile not found'', uq_code = ''PROFILE_NOT_FOUND''\<rparr>"
| "problemForUsersError (INVALID_PROFILE_FIELD v) = Some \<lparr>uq_status = 400, uq_title = ''Invalid profile field'', uq_code = ''INVALID_PROFILE_FIELD''\<rparr>"
| "problemForUsersError NO_APPROVED_FIELD_CHANGES = Some \<lparr>uq_status = 400, uq_title = ''Nothing to update'', uq_code = ''NO_APPROVED_FIELD_CHANGES''\<rparr>"
| "problemForUsersError INVALID_STATUS_TRANSITION = Some \<lparr>uq_status = 409, uq_title = ''Invalid status transition'', uq_code = ''INVALID_STATUS_TRANSITION''\<rparr>"
| "problemForUsersError PROFILE_STORE_FAILURE = Some \<lparr>uq_status = 503, uq_title = ''Persistence unavailable'', uq_code = ''STORE_UNAVAILABLE''\<rparr>"
| "problemForUsersError AUDIT_THROWS = None"

end
