(* ===== verification/Users_Laws.thy ===== *)
theory Users_Laws
  imports Users Tenant_Switch_Laws
begin

text \<open>
  The profile tables as a transition system: each transaction of the repository is a step, and the status of a profile is
  where its recorded history leads.
\<close>

section \<open>What the transactions do\<close>

lemma find_rows:
  assumes "profiles_findOwn down a w = Some r"
  shows "r = find_first (own_profile a) stored_order (uw_profiles w)"
proof -
  obtain v where v: "validateContext (actor_context a) tenant_keys = Inr v"
    and r: "mapped_row toProfile (find_first (\<lambda>r. profile_visible v r \<and> own_profile a r) stored_order (uw_profiles w)) = Some r"
    using assms unfolding profiles_findOwn_def in_context_Some by blast
  have "(\<lambda>r. profile_visible v r \<and> own_profile a r) = own_profile a"
    using actor_bound [OF v] by (auto simp: profile_visible_def own_profile_def fun_eq_iff)
  then show ?thesis using r by (auto simp: mapped_row_def toProfile_def split: option.splits if_splits)
qed

lemma create_rows_profile:
  assumes "profiles_createOwn down a n l at w = Some (p, w')"
  shows "p = new_profile a n l at" "w' = w\<lparr>uw_profiles := uw_profiles w @ [p]\<rparr>" "up_userId p \<notin> up_userId ` set (uw_profiles w)"
  using assms unfolding profiles_createOwn_def in_context_Some
  by (auto simp: Let_def create_row_iff profile_conflicts_def toProfile_def split: option.splits if_splits)

lemma edit_rows:
  assumes "profiles_updateOwnFields down a c w = Some (r, w')"
  shows "r = None \<and> w' = w
    \<or> (\<exists>p. r = Some p \<and> w' = w\<lparr>uw_profiles := map (\<lambda>x. if own_profile a x then edited_profile c x else x) (uw_profiles w)\<rparr>
        \<and> p \<in> set (uw_profiles w') \<and> own_profile a p)"
proof -
  obtain v where v: "validateContext (actor_context a) tenant_keys = Inr v"
    and body: "(let hit = (\<lambda>r. profile_visible v r \<and> profile_writable v r \<and> own_profile a r)
     in if list_ex (\<lambda>r. hit r \<and> \<not> profile_checks (edited_profile c r)) (uw_profiles w) then None
        else let (count, rows) = update_many hit (edited_profile c) (uw_profiles w)
             in if count = 0 then Some (None, w)
                else map_option (\<lambda>p. (p, w\<lparr>uw_profiles := rows\<rparr>))
                  (mapped_row toProfile (find_first (\<lambda>r. profile_visible v r \<and> own_profile a r) stored_order rows))) = Some (r, w')"
    using assms unfolding profiles_updateOwnFields_def in_context_Some by blast
  have h: "(\<lambda>r. profile_visible v r \<and> profile_writable v r \<and> own_profile a r) = own_profile a"
    "(\<lambda>r. profile_visible v r \<and> own_profile a r) = own_profile a"
    using actor_bound [OF v] by (auto simp: profile_visible_def profile_writable_def own_profile_def fun_eq_iff)
  show ?thesis
  proof (cases "filter (own_profile a) (uw_profiles w) = []")
    case True
    then show ?thesis using body unfolding h Let_def by (auto simp: update_many_def split: if_splits)
  next
    case False
    let ?rows = "map (\<lambda>x. if own_profile a x then edited_profile c x else x) (uw_profiles w)"
    have m: "map_option (\<lambda>p. (p, w\<lparr>uw_profiles := ?rows\<rparr>)) (mapped_row toProfile (find_first (own_profile a) stored_order ?rows)) = Some (r, w')"
      using body False unfolding h Let_def by (auto simp: update_many_def split: if_splits)
    have "find_first (own_profile a) stored_order ?rows \<noteq> None"
    proof -
      obtain x where x: "x \<in> set (uw_profiles w)" "own_profile a x" using False unfolding filter_empty_conv by blast
      then have "edited_profile c x \<in> set ?rows" "own_profile a (edited_profile c x)" by (force simp: own_profile_def edited_profile_def)+
      then show ?thesis unfolding find_first_None by blast
    qed
    then obtain p where p: "find_first (own_profile a) stored_order ?rows = Some p" by blast
    have "r = Some p" "w' = w\<lparr>uw_profiles := ?rows\<rparr>"
      using m unfolding p by (auto simp: mapped_row_def toProfile_def split: if_splits)
    then show ?thesis using find_first_Some [OF p] by auto
  qed
qed

lemma transition_rows:
  assumes "profiles_transitionOwnStatus down i a t w = Some (r, w')"
  shows "r = None \<and> w' = w \<and> (\<forall>x \<in> set (uw_profiles w). \<not> (own_profile a x \<and> up_status x = st_expectedFrom t))
    \<or> (\<exists>p. r = Some (p, new_change i a t)
        \<and> w' = w\<lparr>uw_profiles := map (\<lambda>x. if own_profile a x \<and> up_status x = st_expectedFrom t then moved_profile t x else x) (uw_profiles w),
                 uw_history := uw_history w @ [new_change i a t]\<rparr>
        \<and> (\<exists>x \<in> set (uw_profiles w). own_profile a x \<and> up_status x = st_expectedFrom t)
        \<and> profiles_findOwn False a w' = Some (Some p))"
proof -
  let ?m = "\<lambda>x. own_profile a x \<and> up_status x = st_expectedFrom t"
  obtain v where v: "validateContext (actor_context a) tenant_keys = Inr v"
    and body: "(let hit = (\<lambda>r. profile_visible v r \<and> profile_writable v r \<and> own_profile a r \<and> up_status r = st_expectedFrom t)
     in if list_ex (\<lambda>r. hit r \<and> \<not> profile_checks (moved_profile t r)) (uw_profiles w) then None
        else let (count, rows) = update_many hit (moved_profile t) (uw_profiles w); change = new_change i a t
             in if count = 0 then Some (None, w)
                else if \<not> change_insert_allowed v change \<or> \<not> change_visible v change \<or> \<not> change_checks change then None
                else (case create_row change_conflicts change (uw_history w) of
                    None \<Rightarrow> None
                  | Some changes \<Rightarrow>
                      (case find_first (\<lambda>r. profile_visible v r \<and> own_profile a r) stored_order rows of
                         None \<Rightarrow> None
                       | Some row \<Rightarrow> (case (toProfile row, toChange change) of
                           (Some p, Some c) \<Rightarrow> Some (Some (p, c), w\<lparr>uw_profiles := rows, uw_history := changes\<rparr>)
                         | _ \<Rightarrow> None)))) = Some (r, w')"
    using assms unfolding profiles_transitionOwnStatus_def in_context_Some by blast
  have h: "(\<lambda>r. profile_visible v r \<and> profile_writable v r \<and> own_profile a r \<and> up_status r = st_expectedFrom t) = ?m"
    using actor_bound [OF v] by (auto simp: profile_visible_def profile_writable_def own_profile_def fun_eq_iff)
  have c: "toChange x = Some c \<Longrightarrow> c = x" for x c by (simp add: toChange_def split: if_splits)
  show ?thesis
  proof (cases "filter ?m (uw_profiles w) = []")
    case True
    then have "r = None \<and> w' = w" using body unfolding h Let_def by (auto simp: update_many_def split: if_splits)
    then show ?thesis using True unfolding filter_empty_conv by blast
  next
    case False
    have e: "\<exists>x \<in> set (uw_profiles w). ?m x" using False unfolding filter_empty_conv by blast
    have n: "length (filter ?m (uw_profiles w)) \<noteq> 0" using False by simp
    from body n obtain p row where p: "r = Some (p, new_change i a t)"
        "w' = w\<lparr>uw_profiles := map (\<lambda>x. if ?m x then moved_profile t x else x) (uw_profiles w),
                 uw_history := uw_history w @ [new_change i a t]\<rparr>"
        "find_first (\<lambda>r. profile_visible v r \<and> own_profile a r) stored_order (uw_profiles w') = Some row" "toProfile row = Some p"
      unfolding h Let_def by (auto simp: update_many_def create_row_iff split: if_splits option.splits dest!: c)
    have "profiles_findOwn False a w' = Some (Some p)"
      using v p(3,4) by (simp add: profiles_findOwn_def in_context_def mapped_row_def)
    then have "\<exists>p. r = Some (p, new_change i a t)
        \<and> w' = w\<lparr>uw_profiles := map (\<lambda>x. if ?m x then moved_profile t x else x) (uw_profiles w),
                 uw_history := uw_history w @ [new_change i a t]\<rparr> \<and> profiles_findOwn False a w' = Some (Some p)"
      using p(1,2) by blast
    then show ?thesis using e by blast
  qed
qed


section \<open>Runs\<close>

inductive users_step :: "users_world \<Rightarrow> users_world \<Rightarrow> bool" where
  step_create_profile: "profiles_createOwn down a n l at w = Some (p, w') \<Longrightarrow> users_step w w'"
| step_edit: "profiles_updateOwnFields down a c w = Some (r, w') \<Longrightarrow> users_step w w'"
| step_transition: "canTransitionUserStatus (st_expectedFrom t) (st_toStatus t) \<Longrightarrow> profiles_transitionOwnStatus down i a t w = Some (r, w')
    \<Longrightarrow> users_step w w'"
| step_users_audit: "users_step w (w\<lparr>uw_audit := es\<rparr>)"

abbreviation users_run :: "users_world \<Rightarrow> users_world \<Rightarrow> bool" where
  "users_run \<equiv> users_step\<^sup>*\<^sup>*"

interpretation users_runs: step_relation users_run
  by unfold_locales auto

lemma always_found_profile: "always users_run (found_profile d a)"
  unfolding found_profile_def
  by (intro users_runs.always_then users_runs.always_option users_runs.always_throw users_runs.always_return)
    (auto simp: always_def stored_def split: option.splits)

lemma always_users_audit: "always users_run (users_audit d e)"
  unfolding always_def users_audit_def by (auto split: prod.splits sum.splits intro: step_users_audit)

lemma always_edit: "always users_run (stored (profiles_updateOwnFields down a c))"
  by (auto simp: always_def stored_def split: option.splits intro: step_edit)

lemma always_transition:
  "canTransitionUserStatus (st_expectedFrom t) (st_toStatus t) \<Longrightarrow> always users_run (stored (profiles_transitionOwnStatus down i a t))"
  by (auto simp: always_def stored_def split: option.splits intro: step_transition)

lemma always_meanwhile: "(\<And>w. users_run w (f w)) \<Longrightarrow> always users_run (updateE (\<lambda>w. ((), f w)))"
  by (simp add: always_def)

lemmas always_users = users_runs.always_intros always_found_profile always_users_audit always_edit always_transition always_meanwhile

lemma always_getOwnProfile: "always users_run (getOwnProfile d actor)"
  unfolding getOwnProfile_def by (intro always_users)

lemma always_updateOwnProfile: "always users_run (updateOwnProfile d n l actor)"
  unfolding updateOwnProfile_def by (auto intro!: always_users split: option.split sum.split)

lemma always_requestAccountDisable:
  assumes "\<And>w. users_run w (ud_meanwhile d w)"
  shows "always users_run (requestAccountDisable d reason actor)"
  unfolding requestAccountDisable_def
proof (intro users_runs.always_option users_runs.always_throw users_runs.always_then always_found_profile)
  fix a profile
  have "always users_run (stored (profiles_transitionOwnStatus (ud_down d PROFILE_TRANSITION) (ud_newId d) a
      \<lparr>st_expectedFrom = up_status profile, st_toStatus = ''DISABLE_REQUESTED'', st_reason = given_reason reason, st_occurredAt = ud_now d\<rparr>))"
    if "canTransitionUserStatus (up_status profile) ''DISABLE_REQUESTED''" using that by (intro always_transition) simp
  then show "always users_run (if \<not> canTransitionUserStatus (up_status profile) ''DISABLE_REQUESTED'' then throwE INVALID_STATUS_TRANSITION
       else
         thenE (updateE (\<lambda>w. ((), ud_meanwhile d w))) (\<lambda>u.
         thenE (stored (profiles_transitionOwnStatus (ud_down d PROFILE_TRANSITION) (ud_newId d) a
             \<lparr>st_expectedFrom = up_status profile, st_toStatus = ''DISABLE_REQUESTED'', st_reason = given_reason reason, st_occurredAt = ud_now d\<rparr>))
           (\<lambda>moved. case moved of
              None \<Rightarrow> throwE INVALID_STATUS_TRANSITION
            | Some (p, change) \<Rightarrow>
                thenE (users_audit d (disable_entry d a (given_reason reason) change)) (\<lambda>failure.
                  returnE \<lparr>dq_change = change, dq_auditFailure = failure\<rparr>))))"
    using assms by (auto intro!: always_users_audit always_meanwhile users_runs.always_then users_runs.always_throw users_runs.always_return
        split: option.split)
qed

section \<open>The status follows the history\<close>

fun reached :: "string \<Rightarrow> status_change list \<Rightarrow> string" where
  "reached s [] = s"
| "reached s (c # cs) = reached (sc_toStatus c) cs"

fun chained :: "string \<Rightarrow> status_change list \<Rightarrow> bool" where
  "chained s [] = True"
| "chained s (c # cs) \<longleftrightarrow> sc_fromStatus c = s \<and> canTransitionUserStatus s (sc_toStatus c) \<and> chained (sc_toStatus c) cs"

lemma reached_append [simp]: "reached s (cs @ [c]) = sc_toStatus c"
  by (induction cs arbitrary: s) simp_all

lemma chained_append [simp]:
  "chained s (cs @ [c]) \<longleftrightarrow> chained s cs \<and> sc_fromStatus c = reached s cs \<and> canTransitionUserStatus (reached s cs) (sc_toStatus c)"
  by (induction cs arbitrary: s) auto

definition changes_of :: "string \<Rightarrow> users_world \<Rightarrow> status_change list" where
  "changes_of u w = filter (\<lambda>c. sc_userId c = u) (uw_history w)"

text \<open>One profile per user, every change belongs to a profile and its tenant, and the changes of a profile lead to its status.\<close>

definition users_wf :: "users_world \<Rightarrow> bool" where
  "users_wf w \<longleftrightarrow> distinct (map up_userId (uw_profiles w))
     \<and> (\<forall>c \<in> set (uw_history w). \<exists>r \<in> set (uw_profiles w). up_userId r = sc_userId c \<and> up_tenantId r = sc_tenantId c)
     \<and> (\<forall>r \<in> set (uw_profiles w). chained ''ACTIVE'' (changes_of (up_userId r) w)
          \<and> up_status r = reached ''ACTIVE'' (changes_of (up_userId r) w))"

lemma same_keys_wf:
  assumes "users_wf w" "\<And>x. up_userId (f x) = up_userId x \<and> up_tenantId (f x) = up_tenantId x \<and> up_status (f x) = up_status x"
  shows "users_wf (w\<lparr>uw_profiles := map f (uw_profiles w)\<rparr>)"
proof -
  have m: "map up_userId (map f (uw_profiles w)) = map up_userId (uw_profiles w)" using assms(2) by simp
  show ?thesis using assms(1) unfolding users_wf_def changes_of_def
    by (simp add: m [unfolded map_map] assms(2) comp_def)
qed

lemma users_step_wf: "users_step w w' \<Longrightarrow> users_wf w \<Longrightarrow> users_wf w'"
proof (induction rule: users_step.induct)
  case (step_create_profile down a n l at w p w')
  note c = create_rows_profile [OF step_create_profile(1)]
  have h: "changes_of (up_userId p) w = []"
  proof -
    have "sc_userId x \<noteq> up_userId p" if "x \<in> set (uw_history w)" for x
      using step_create_profile(2) c(3) that unfolding users_wf_def by (metis image_eqI)
    then show ?thesis by (simp add: changes_of_def filter_empty_conv)
  qed
  have s: "up_status p = ''ACTIVE''" using c(1) by (simp add: new_profile_def)
  have hw: "changes_of u w' = changes_of u w" for u by (simp add: changes_of_def c(2))
  show ?case using step_create_profile(2) c(3) h s unfolding users_wf_def hw by (simp add: c(2))
next
  case (step_edit down a c w r w')
  have k: "users_wf (w\<lparr>uw_profiles := map (\<lambda>x. if own_profile a x then edited_profile c x else x) (uw_profiles w)\<rparr>)"
    by (rule same_keys_wf [OF step_edit(2)]) (simp add: edited_profile_def)
  show ?case using edit_rows [OF step_edit(1)] k step_edit(2) by blast
next
  case (step_transition t down i a w r w')
  let ?m = "\<lambda>x. own_profile a x \<and> up_status x = st_expectedFrom t"
  from transition_rows [OF step_transition(2)] show ?case
  proof (elim disjE conjE exE bexE)
    assume "w' = w" then show ?thesis using step_transition(3) by simp
  next
    fix p x
    assume w': "w' = w\<lparr>uw_profiles := map (\<lambda>x. if ?m x then moved_profile t x else x) (uw_profiles w),
        uw_history := uw_history w @ [new_change i a t]\<rparr>" and x: "x \<in> set (uw_profiles w)" "own_profile a x" "up_status x = st_expectedFrom t"
    have d: "inj_on up_userId (set (uw_profiles w))" and u: "distinct (map up_userId (uw_profiles w))"
      using step_transition(3) by (simp_all add: users_wf_def distinct_map)
    have xs: "up_userId x = own_user a" "up_tenantId x = own_tenant a" using x(2) by (simp_all add: own_profile_def)
    have rows: "map (\<lambda>x. if ?m x then moved_profile t x else x) (uw_profiles w) = map (\<lambda>y. if y = x then moved_profile t y else y) (uw_profiles w)"
    proof (rule map_cong [OF refl])
      fix y assume "y \<in> set (uw_profiles w)"
      then have "?m y \<longleftrightarrow> y = x" using x d by (auto simp: own_profile_def inj_on_def)
      then show "(if ?m y then moved_profile t y else y) = (if y = x then moved_profile t y else y)" by simp
    qed
    have h: "changes_of v w' = (if v = own_user a then changes_of v w @ [new_change i a t] else changes_of v w)" for v
      unfolding w' by (simp add: changes_of_def new_change_def)
    have keys: "up_userId (moved_profile t y) = up_userId y" "up_tenantId (moved_profile t y) = up_tenantId y" "up_status (moved_profile t y) = st_toStatus t" for y
      by (simp_all add: moved_profile_def)
    have chx: "chained ''ACTIVE'' (changes_of (own_user a) w)" "reached ''ACTIVE'' (changes_of (own_user a) w) = st_expectedFrom t"
      using step_transition(3) x(1,3) xs(1) unfolding users_wf_def by metis+
    have wp: "set (uw_profiles w') = (\<lambda>y. if y = x then moved_profile t y else y) ` set (uw_profiles w)" by (simp add: w' rows)
    show ?thesis unfolding users_wf_def
    proof (intro conjI ballI)
      have "up_userId (if y = x then moved_profile t y else y) = up_userId y" for y by (simp add: keys)
      then have "map up_userId (uw_profiles w') = map up_userId (uw_profiles w)" by (simp add: w' rows)
      then show "distinct (map up_userId (uw_profiles w'))" using u by simp
    next
      fix c assume "c \<in> set (uw_history w')"
      then consider "c \<in> set (uw_history w)" | "c = new_change i a t" by (auto simp: w')
      then show "\<exists>r \<in> set (uw_profiles w'). up_userId r = sc_userId c \<and> up_tenantId r = sc_tenantId c"
      proof cases
        case 1
        then obtain y where "y \<in> set (uw_profiles w)" "up_userId y = sc_userId c" "up_tenantId y = sc_tenantId c"
          using step_transition(3) unfolding users_wf_def by blast
        then show ?thesis unfolding wp by (intro bexI [of _ "if y = x then moved_profile t y else y"]) (auto simp: keys)
      next
        case 2
        then show ?thesis unfolding wp using x(1) xs
          by (intro bexI [of _ "moved_profile t x"] image_eqI [of _ _ x]) (auto simp: keys new_change_def)
      qed
    next
      fix z assume "z \<in> set (uw_profiles w')"
      then obtain y where y: "y \<in> set (uw_profiles w)" "z = (if y = x then moved_profile t y else y)" unfolding wp by blast
      have old: "chained ''ACTIVE'' (changes_of (up_userId y) w)" "up_status y = reached ''ACTIVE'' (changes_of (up_userId y) w)"
        using step_transition(3) y(1) unfolding users_wf_def by blast+
      have other: "up_userId y \<noteq> own_user a" if "y \<noteq> x" using d x(1) y(1) xs(1) that by (metis inj_onD)
      have nc: "sc_fromStatus (new_change i a t) = st_expectedFrom t" "sc_toStatus (new_change i a t) = st_toStatus t"
        by (simp_all add: new_change_def)
      show "chained ''ACTIVE'' (changes_of (up_userId z) w')"
        using chx old(1) y(2) xs(1) other step_transition(1) by (cases "y = x") (simp_all add: h keys nc)
      show "up_status z = reached ''ACTIVE'' (changes_of (up_userId z) w')"
        using old(2) y(2) xs(1) other by (cases "y = x") (simp_all add: h keys nc)
    qed
  qed
next
  case (step_users_audit w es)
  then show ?case by (simp add: users_wf_def changes_of_def)
qed

lemma users_run_wf: "users_run w w' \<Longrightarrow> users_wf w \<Longrightarrow> users_wf w'"
  by (induction rule: rtranclp_induct) (auto intro: users_step_wf)

lemma users_step_grows: "users_step w w' \<Longrightarrow> \<exists>cs. uw_history w' = uw_history w @ cs"
proof (induction rule: users_step.induct)
  case (step_create_profile down a n l at w p w')
  then show ?case using create_rows_profile(2) by fastforce
next
  case (step_edit down a c w r w')
  then show ?case using edit_rows by fastforce
next
  case (step_transition t down i a w r w')
  then show ?case using transition_rows by fastforce
qed simp

lemma users_run_grows: "users_run w w' \<Longrightarrow> \<exists>cs. uw_history w' = uw_history w @ cs"
proof (induction rule: rtranclp_induct)
  case (step y z)
  then show ?case using users_step_grows [OF step(2)] by auto
qed simp

definition no_users :: users_world where
  "no_users = \<lparr>uw_profiles = [], uw_history = [], uw_audit = []\<rparr>"

text \<open>
  C22: In every state that creations, edits and allowed transitions reach, in whatever order, the recorded changes of an account form a
  chain of allowed transitions from ACTIVE to its current status: no status moves without its evidence, and no later
  step rewrites or removes a change.
\<close>

theorem account_status_follows_its_history:
  assumes "users_run no_users w" "users_run w w'"
  shows "(\<exists>cs. uw_history w' = uw_history w @ cs)
    \<and> distinct (map up_userId (uw_profiles w'))
    \<and> (\<forall>r \<in> set (uw_profiles w'). chained ''ACTIVE'' (changes_of (up_userId r) w')
         \<and> up_status r = reached ''ACTIVE'' (changes_of (up_userId r) w'))"
proof -
  have "users_wf no_users" by (simp add: users_wf_def no_users_def)
  then have "users_wf w'" using assms by (blast intro: users_run_wf)
  then show ?thesis using users_run_grows [OF assms(2)] by (simp add: users_wf_def)
qed

section \<open>The use cases\<close>

lemma found_profile_eq:
  "found_profile d a w = (case profiles_findOwn (ud_down d PROFILE_FIND) a w of
     None \<Rightarrow> (Inl PROFILE_STORE_FAILURE, w) | Some None \<Rightarrow> (Inl PROFILE_NOT_FOUND, w) | Some (Some p) \<Rightarrow> (Inr p, w))"
  by (simp add: found_profile_def thenE_def stored_def split: option.split)

lemma users_audit_outcome:
  assumes "users_audit d e w = (r, w')"
  shows "uw_profiles w' = uw_profiles w \<and> uw_history w' = uw_history w \<and> (\<forall>x. r = Inl x \<longrightarrow> x = AUDIT_THROWS)
    \<and> (r = Inr None \<longrightarrow> (\<exists>ev. uw_audit w' = uw_audit w @ [ev] \<and> av_action ev = te_action e \<and> av_outcome ev = te_outcome e))"
  using assms trail_success unfolding users_audit_def by (fastforce split: prod.splits sum.splits)

lemma find_same_rows: "uw_profiles w' = uw_profiles w \<Longrightarrow> profiles_findOwn down a w' = profiles_findOwn down a w"
  by (simp add: profiles_findOwn_def)

lemma find_up: "profiles_findOwn down a w = Some r \<Longrightarrow> profiles_findOwn False a w = Some r \<and> \<not> down"
  unfolding profiles_findOwn_def in_context_Some by blast

lemma active_only: "canTransitionUserStatus s ''DISABLE_REQUESTED'' \<longleftrightarrow> s = ''ACTIVE''"
  by (auto simp: canTransitionUserStatus_def STATUS_TRANSITIONS_def split: if_splits)

text \<open>
  C23: A disable request succeeds only for an account that is ACTIVE when it is read and still ACTIVE when it is written, whatever committed between;
  it then moves that one account, adds exactly its own change to the history, and a repeated request is refused.  A refusal
  writes nothing.
\<close>

theorem disable_request_is_recorded_once:
  assumes "requestAccountDisable d reason (Some a) w = (res, w')" "distinct (map up_userId (uw_profiles (ud_meanwhile d w)))"
  shows "(\<forall>q. res = Inr q \<longrightarrow>
      (let m = ud_meanwhile d w in
        (\<exists>p \<in> set (uw_profiles w). own_profile a p \<and> up_status p = ''ACTIVE'')
        \<and> (\<exists>p \<in> set (uw_profiles m). own_profile a p \<and> up_status p = ''ACTIVE'')
        \<and> sc_fromStatus (dq_change q) = ''ACTIVE'' \<and> sc_toStatus (dq_change q) = ''DISABLE_REQUESTED''
        \<and> uw_history w' = uw_history m @ [dq_change q]
        \<and> filter (\<lambda>p. \<not> own_profile a p) (uw_profiles w') = filter (\<lambda>p. \<not> own_profile a p) (uw_profiles m)
        \<and> (dq_auditFailure q = None \<longrightarrow> (\<exists>ev. uw_audit w' = uw_audit m @ [ev] \<and> av_action ev = ''users.account.disable_requested''))
        \<and> (\<forall>d' reason'. \<not> ud_down d' PROFILE_FIND \<longrightarrow> requestAccountDisable d' reason' (Some a) w' = (Inl INVALID_STATUS_TRANSITION, w'))))
    \<and> (\<forall>e. res = Inl e \<and> e \<noteq> AUDIT_THROWS \<longrightarrow> w' = w \<or> w' = ud_meanwhile d w)"
proof (cases "\<exists>p. requirePrincipal (Some a) = Some a \<and> profiles_findOwn (ud_down d PROFILE_FIND) a w = Some (Some p) \<and> up_status p = ''ACTIVE''")
  case False
  then have "w' = w \<and> (\<exists>e. res = Inl e)" using assms(1)
    by (auto simp: requestAccountDisable_def requirePrincipal_def thenE_def found_profile_eq active_only split: option.splits if_splits)
  then show ?thesis by auto
next
  case True
  let ?m = "ud_meanwhile d w"
  obtain p where req: "requirePrincipal (Some a) = Some a" and f: "profiles_findOwn (ud_down d PROFILE_FIND) a w = Some (Some p)"
    and act: "up_status p = ''ACTIVE''" using True by blast
  have before: "p \<in> set (uw_profiles w) \<and> own_profile a p" using find_rows [OF f] find_first_Some by metis
  let ?t = "\<lparr>st_expectedFrom = ''ACTIVE'', st_toStatus = ''DISABLE_REQUESTED'', st_reason = given_reason reason, st_occurredAt = ud_now d\<rparr>"
  let ?move = "profiles_transitionOwnStatus (ud_down d PROFILE_TRANSITION) (ud_newId d) a ?t ?m"
  have fp: "found_profile d a w = (Inr p, w)" by (simp add: found_profile_eq f)
  have mw: "updateE (\<lambda>w. ((), ud_meanwhile d w)) w = (Inr (), ?m)" by simp
  have run: "thenE (stored (profiles_transitionOwnStatus (ud_down d PROFILE_TRANSITION) (ud_newId d) a ?t)) (\<lambda>moved. case moved of
              None \<Rightarrow> throwE INVALID_STATUS_TRANSITION
            | Some (p, change) \<Rightarrow>
                thenE (users_audit d (disable_entry d a (given_reason reason) change)) (\<lambda>failure.
                  returnE \<lparr>dq_change = change, dq_auditFailure = failure\<rparr>)) ?m = (res, w')"
    using assms(1) unfolding requestAccountDisable_def req
    by (simp add: then_step [of "found_profile d a" w, OF fp] active_only act then_step [of "updateE _" w, OF mw])
  show ?thesis
  proof (cases ?move)
    case None then show ?thesis using run by (auto simp: thenE_def stored_def)
  next
    case (Some y)
    then obtain r w1 where mv: "?move = Some (r, w1)" by (cases y) simp
    show ?thesis
    proof (cases r)
      case None
      then have "w1 = ?m" using transition_rows [OF mv] by blast
      then show ?thesis using run mv None by (auto simp: thenE_def stored_def)
    next
      case (Some rc)
      let ?c = "new_change (ud_newId d) a ?t"
      let ?hit = "\<lambda>x. own_profile a x \<and> up_status x = ''ACTIVE''"
      obtain p1 x where r: "r = Some (p1, ?c)"
        and w1: "w1 = ?m\<lparr>uw_profiles := map (\<lambda>x. if ?hit x then moved_profile ?t x else x) (uw_profiles ?m), uw_history := uw_history ?m @ [?c]\<rparr>"
        and x: "x \<in> set (uw_profiles ?m)" "?hit x" and f1: "profiles_findOwn False a w1 = Some (Some p1)"
        using transition_rows [OF mv] Some by auto
      have au: "thenE (users_audit d (disable_entry d a (given_reason reason) ?c)) (\<lambda>failure.
                  returnE \<lparr>dq_change = ?c, dq_auditFailure = failure\<rparr>) w1 = (res, w')"
      proof -
        have st: "stored (profiles_transitionOwnStatus (ud_down d PROFILE_TRANSITION) (ud_newId d) a ?t) ?m = (Inr r, w1)" using mv by (simp add: stored_def)
        show ?thesis using run unfolding then_step [of "stored _" ?m, OF st] by (simp add: r)
      qed
      obtain ar w2 where ar: "users_audit d (disable_entry d a (given_reason reason) ?c) w1 = (ar, w2)"
        by (cases "users_audit d (disable_entry d a (given_reason reason) ?c) w1")
      note out = users_audit_outcome [OF ar]
      show ?thesis
      proof (cases ar)
        case (Inl e) then show ?thesis using au out by (auto simp: thenE_def ar)
      next
        case (Inr failure)
        then have fin: "res = Inr \<lparr>dq_change = ?c, dq_auditFailure = failure\<rparr>" "w' = w2" using au by (simp_all add: thenE_def ar)
        have fw: "profiles_findOwn False a w' = Some (Some p1)" using find_same_rows [of w' w1] out fin(2) f1 by simp
        have p1: "p1 \<in> set (uw_profiles w') \<and> own_profile a p1" using find_rows [OF fw] find_first_Some by metis
        have one: "y = x" if "y \<in> set (uw_profiles ?m)" "own_profile a y" for y
        proof (rule inj_onD [of up_userId "set (uw_profiles ?m)"])
          show "inj_on up_userId (set (uw_profiles ?m))" using assms(2) by (simp add: distinct_map)
          show "up_userId y = up_userId x" using that(2) x(2) by (simp add: own_profile_def)
        qed (use that x in simp_all)
        have "up_status p1 = ''DISABLE_REQUESTED''"
        proof -
          obtain y where y: "y \<in> set (uw_profiles ?m)" "p1 = (if ?hit y then moved_profile ?t y else y)"
            using p1 out fin(2) w1 by auto
          then have "own_profile a y" using p1 by (auto simp: own_profile_def moved_profile_def split: if_splits)
          then show ?thesis using y one x(2) by (auto simp: moved_profile_def)
        qed
        then have again: "requestAccountDisable d' reason' (Some a) w' = (Inl INVALID_STATUS_TRANSITION, w')" if "\<not> ud_down d' PROFILE_FIND" for d' reason'
          using fw that unfolding requestAccountDisable_def req by (simp add: thenE_def found_profile_eq active_only)
        have others: "filter (\<lambda>p. \<not> own_profile a p) (uw_profiles w') = filter (\<lambda>p. \<not> own_profile a p) (uw_profiles ?m)"
        proof -
          have "filter (\<lambda>p. \<not> own_profile a p) (map (\<lambda>x. if ?hit x then moved_profile ?t x else x) rows) = filter (\<lambda>p. \<not> own_profile a p) rows" for rows
            by (induction rows) (auto simp: own_profile_def moved_profile_def)
          then show ?thesis using out fin(2) w1 by simp
        qed
        have ev: "\<exists>ev. uw_audit w' = uw_audit ?m @ [ev] \<and> av_action ev = ''users.account.disable_requested''" if "failure = None"
          using out Inr that fin(2) w1 by (auto simp: disable_entry_def)
        have hist: "uw_history w' = uw_history ?m @ [?c]" "sc_fromStatus ?c = ''ACTIVE''" "sc_toStatus ?c = ''DISABLE_REQUESTED''"
          using out fin(2) w1 by (simp_all add: new_change_def)
        show ?thesis unfolding fin(1) using before act x hist others ev again by (auto simp: Let_def)
      qed
    qed
  qed
qed

text \<open>
  Editing a profile reaches its own row alone and two of its columns, and what it stores there is trimmed, within bounds and
  stable under a second parse.
\<close>

lemma trimmed_again: "js_trim (js_trim s) = js_trim s"
proof -
  define u where "u = dropWhile is_ws s"
  have t: "js_trim s = rev (dropWhile is_ws (rev u))" by (simp add: js_trim_def u_def)
  have "rev u = takeWhile is_ws (rev u) @ dropWhile is_ws (rev u)" by simp
  then have "u = js_trim s @ rev (takeWhile is_ws (rev u))" unfolding t by (metis rev_append rev_rev_ident)
  then have h: "\<not> is_ws (hd (js_trim s))" if "js_trim s \<noteq> []"
    using that hd_dropWhile [of is_ws s] unfolding u_def by (metis append_is_Nil_conv hd_append2)
  have d: "dropWhile is_ws (js_trim s) = js_trim s" using h by (cases "js_trim s") auto
  show ?thesis unfolding js_trim_def [of "js_trim s"] d by (simp add: t)
qed

lemma parsed_fields:
  "parseDisplayName raw = Inr n \<Longrightarrow> parseDisplayName n = Inr n \<and> 0 < length n \<and> length n \<le> 120 \<and> \<not> list_ex control_char n"
  "parseLocale raw = Inr l \<Longrightarrow> parseLocale l = Inr l \<and> LOCALE_SHAPE l"
  by (auto simp: parseDisplayName_def parseLocale_def Let_def trimmed_again MAX_DISPLAY_NAME_LENGTH_def split: if_splits)

theorem edits_reach_the_approved_fields_of_the_own_profile:
  assumes "updateOwnProfile d displayName locale (Some a) w = (Inr p, w')"
  shows "\<exists>c. uw_profiles w' = map (\<lambda>r. if own_profile a r then edited_profile c r else r) (uw_profiles w)
    \<and> uw_history w' = uw_history w \<and> uw_audit w' = uw_audit w \<and> p \<in> set (uw_profiles w') \<and> own_profile a p
    \<and> (case fc_displayName c of None \<Rightarrow> displayName = None | Some n \<Rightarrow> parseDisplayName n = Inr n \<and> 0 < length n \<and> length n \<le> 120)
    \<and> (case fc_locale c of None \<Rightarrow> locale = None | Some l \<Rightarrow> LOCALE_SHAPE l)"
proof -
  obtain c where c: "parsed_changes (ud_now d) displayName locale = Inr c"
    and run: "thenE (stored (profiles_updateOwnFields (ud_down d PROFILE_UPDATE) a c)) (\<lambda>updated.
           case updated of None \<Rightarrow> throwE PROFILE_NOT_FOUND | Some p \<Rightarrow> returnE p) w = (Inr p, w')"
    using assms by (auto simp: updateOwnProfile_def requirePrincipal_def split: option.splits if_splits sum.splits)
  obtain u where u: "profiles_updateOwnFields (ud_down d PROFILE_UPDATE) a c w = Some (Some p, w')"
    using run by (auto simp: thenE_Inr stored_def split: option.splits)
  have f: "(case fc_displayName c of None \<Rightarrow> displayName = None | Some n \<Rightarrow> \<exists>raw. parseDisplayName raw = Inr n)
      \<and> (case fc_locale c of None \<Rightarrow> locale = None | Some l \<Rightarrow> \<exists>raw. parseLocale raw = Inr l)"
  proof -
    have m: "map_sum id Some r = Inr x \<longleftrightarrow> (\<exists>y. r = Inr y \<and> x = Some y)" for r :: "field_violation + string" and x by (cases r) auto
    show ?thesis using c by (auto simp: parsed_changes_def m split: option.splits sum.splits if_splits)
  qed
  have "(case fc_displayName c of None \<Rightarrow> displayName = None | Some n \<Rightarrow> parseDisplayName n = Inr n \<and> 0 < length n \<and> length n \<le> 120)
    \<and> (case fc_locale c of None \<Rightarrow> locale = None | Some l \<Rightarrow> LOCALE_SHAPE l)"
    using f parsed_fields by (auto split: option.splits)
  then show ?thesis using edit_rows [OF u] by (intro exI [of _ c]) auto
qed

section \<open>Instances\<close>

definition dana :: user_profile where
  "dana = new_profile owner_actor ''Dana'' ''ar-QA'' 5"

definition dana_world :: users_world where
  "dana_world = \<lparr>uw_profiles = [dana], uw_history = [], uw_audit = []\<rparr>"

definition users_sample :: users_deps where
  "users_sample = \<lparr>ud_down = (\<lambda>c. False), ud_now = 10, ud_newId = uuid_u, ud_audit = sample_audit_deps, ud_meanwhile = (\<lambda>w. w)\<rparr>"

theorem account_status_follows_its_history_witness:
  "\<exists>w. users_run no_users w \<and> uw_profiles w = [dana] \<and> up_status dana = reached ''ACTIVE'' (changes_of (up_userId dana) w)"
proof -
  have "profiles_createOwn False owner_actor ''Dana'' ''ar-QA'' 5 no_users = Some (dana, dana_world)" by code_simp
  then have s: "users_run no_users dana_world" by (blast intro: users_step.step_create_profile)
  then show ?thesis using account_status_follows_its_history [OF s rtranclp.rtrancl_refl] by (auto simp: dana_world_def)
qed

theorem disable_request_is_recorded_once_witness:
  "\<exists>q w'. requestAccountDisable users_sample (Some '' bye '') (Some owner_actor) dana_world = (Inr q, w')
     \<and> uw_history w' = [dq_change q]
     \<and> requestAccountDisable users_sample None (Some owner_actor) w' = (Inl INVALID_STATUS_TRANSITION, w')"
proof -
  have "result_isOk (fst (requestAccountDisable users_sample (Some '' bye '') (Some owner_actor) dana_world))" by code_simp
  then obtain q w' where q: "requestAccountDisable users_sample (Some '' bye '') (Some owner_actor) dana_world = (Inr q, w')"
    by (cases "requestAccountDisable users_sample (Some '' bye '') (Some owner_actor) dana_world";
        cases "fst (requestAccountDisable users_sample (Some '' bye '') (Some owner_actor) dana_world)") auto
  have d: "distinct (map up_userId (uw_profiles (ud_meanwhile users_sample dana_world)))" by (simp add: users_sample_def dana_world_def)
  show ?thesis using disable_request_is_recorded_once [OF q d] q by (auto simp: Let_def users_sample_def dana_world_def)
qed

theorem edits_reach_the_approved_fields_of_the_own_profile_witness:
  "\<exists>p w'. updateOwnProfile users_sample (Some '' Dana B '') None (Some owner_actor) dana_world = (Inr p, w') \<and> own_profile owner_actor p"
proof -
  have "result_isOk (fst (updateOwnProfile users_sample (Some '' Dana B '') None (Some owner_actor) dana_world))" by code_simp
  then obtain p w' where p: "updateOwnProfile users_sample (Some '' Dana B '') None (Some owner_actor) dana_world = (Inr p, w')"
    by (cases "updateOwnProfile users_sample (Some '' Dana B '') None (Some owner_actor) dana_world";
        cases "fst (updateOwnProfile users_sample (Some '' Dana B '') None (Some owner_actor) dana_world)") auto
  then show ?thesis using edits_reach_the_approved_fields_of_the_own_profile [OF p] by blast
qed

text \<open>
  The profile is keyed by the user alone although it is read by user and tenant: a user with a profile in one tenant has none,
  and can be given none, in another.
\<close>

lemma one_profile_across_tenants:
  "fst (getOwnProfile users_sample (Some (owner_actor\<lparr>pa_tenantId := Some uuid_u\<rparr>)) dana_world) = Inl PROFILE_NOT_FOUND
   \<and> profiles_createOwn False (owner_actor\<lparr>pa_tenantId := Some uuid_u\<rparr>) ''Dana'' ''ar-QA'' 6 dana_world = None"
  by code_simp

end
