(* ===== verification/Subject_Policy.thy ===== *)
theory Subject_Policy
  imports Consent_Store Capability_Registry
begin

text \<open>
  Subject policy (\<open>modules/subject-policy\<close>): a subject elects one of the profile options its jurisdiction's pack permits, and
  the election is an immutable dated row with pinned versions.  The domain (\<open>selection.ts\<close>, \<open>option-set.ts\<close>), the table of
  migration 0083 with its constraints, trigger and row-level policy, the Prisma repository, and the four use cases, over the
  effects of \<open>Governed_Store\<close>; the principal and its context are those of the consent module, which has the same text.
  The option source is a port without an implementation in the repository: a parameter, whose answer may differ between the
  two times a recording asks it, and \<open>None\<close> when it throws.
\<close>

section \<open>Selections\<close>

datatype selection_status = SELECTION_ACTIVE | SELECTION_SUPERSEDED | SELECTION_EXPIRED | SELECTION_WITHDRAWN

record selection =
  sel_id :: string
  sel_userId :: string
  sel_tenantId :: string
  sel_capabilityId :: string
  sel_profileRef :: string
  sel_profileVersion :: string
  sel_jurisdictionRef :: string
  sel_policyPackVersion :: string
  sel_effectiveFrom :: millis
  sel_effectiveTo :: "millis option"
  sel_status :: selection_status
  sel_source :: string
  sel_recordedBy :: string
  sel_profileSnapshotHash :: "string option"
  sel_withdrawnAt :: "millis option"

datatype selection_at = EFFECTIVE_SELECTION selection | EXPIRED_SELECTION string millis | NO_SELECTION_AT

definition wasWithdrawnBy :: "selection \<Rightarrow> millis \<Rightarrow> bool" where
  "wasWithdrawnBy row at \<longleftrightarrow> (case sel_withdrawnAt row of None \<Rightarrow> False | Some t \<Rightarrow> t \<le> at)"

definition windowCovers :: "selection \<Rightarrow> millis \<Rightarrow> bool" where
  "windowCovers row at \<longleftrightarrow> (if sel_effectiveFrom row > at then False
     else case sel_effectiveTo row of None \<Rightarrow> True | Some t \<Rightarrow> at < t)"

text \<open>\<open>>\<close> on texts.\<close>

definition text_after :: "string \<Rightarrow> string \<Rightarrow> bool" where
  "text_after a b \<longleftrightarrow> string_cmp a b > 0"

definition later_selection :: "selection \<Rightarrow> selection \<Rightarrow> selection" where
  "later_selection row winner =
     (if sel_effectiveFrom row > sel_effectiveFrom winner
        \<or> sel_effectiveFrom row = sel_effectiveFrom winner \<and> text_after (sel_id row) (sel_id winner)
      then row else winner)"

definition had_expired :: "millis \<Rightarrow> selection \<Rightarrow> bool" where
  "had_expired at row \<longleftrightarrow> (case sel_effectiveTo row of None \<Rightarrow> False | Some t \<Rightarrow> \<not> sel_effectiveFrom row > at \<and> \<not> t > at \<and> \<not> wasWithdrawnBy row at)"

definition end_of :: "selection \<Rightarrow> millis" where
  "end_of row = (case sel_effectiveTo row of None \<Rightarrow> 0 | Some t \<Rightarrow> t)"

definition later_expired :: "selection \<Rightarrow> selection option \<Rightarrow> selection option" where
  "later_expired row expired = (case expired of
     None \<Rightarrow> Some row
   | Some e \<Rightarrow> if end_of row > end_of e \<or> end_of row = end_of e \<and> text_after (sel_id row) (sel_id e) then Some row else Some e)"

definition resolveSelectionAt :: "selection list \<Rightarrow> millis \<Rightarrow> selection_at" where
  "resolveSelectionAt rows at =
     (case filter (\<lambda>row. windowCovers row at \<and> \<not> wasWithdrawnBy row at) rows of
        c # cs \<Rightarrow> EFFECTIVE_SELECTION (fold later_selection (c # cs) c)
      | [] \<Rightarrow> (case fold later_expired (filter (had_expired at) rows) None of
          Some e \<Rightarrow> EXPIRED_SELECTION (sel_id e) (end_of e)
        | None \<Rightarrow> NO_SELECTION_AT))"

section \<open>Option sets\<close>

record permitted_option =
  po_profileRef :: string
  po_profileVersions :: "string list"

record option_set =
  os_capabilityId :: string
  os_jurisdictionRef :: string
  os_policyPackVersion :: string
  os_permittedOptions :: "permitted_option list"

definition optionPermitted :: "option_set \<Rightarrow> string \<Rightarrow> string \<Rightarrow> bool" where
  "optionPermitted s profileRef profileVersion \<longleftrightarrow>
     list_ex (\<lambda>option. po_profileRef option = profileRef \<and> profileVersion \<in> set (po_profileVersions option)) (os_permittedOptions s)"

datatype option_resolution = OPTION_SET option_set | NO_SUBJECT_POLICY | OPTIONS_UNRESOLVED string

type_synonym option_source = "string \<Rightarrow> string \<Rightarrow> millis \<Rightarrow> option_resolution option"

section \<open>The table\<close>

record selection_row = selection +
  srow_createdAt :: millis

record selection_world = governed_world +
  sw_selections :: "selection_row list"

definition selection_visible :: "bound_values \<Rightarrow> selection_row \<Rightarrow> bool" where
  "selection_visible v r \<longleftrightarrow> bound_tenant v = Some (sel_tenantId r) \<and> bound_user v = Some (sel_userId r)"

definition selection_checks :: "selection_row \<Rightarrow> bool" where
  "selection_checks r \<longleftrightarrow> filled_text (sel_capabilityId r) \<and> filled_text (sel_profileRef r) \<and> filled_text (sel_profileVersion r)
     \<and> filled_text (sel_jurisdictionRef r) \<and> filled_text (sel_policyPackVersion r) \<and> filled_text (sel_source r)
     \<and> (case sel_profileSnapshotHash r of None \<Rightarrow> True | Some h \<Rightarrow> filled_text h)
     \<and> (sel_status r = SELECTION_WITHDRAWN \<longleftrightarrow> sel_withdrawnAt r \<noteq> None)
     \<and> (case sel_withdrawnAt r of None \<Rightarrow> True | Some t \<Rightarrow> t \<ge> sel_effectiveFrom r)
     \<and> (case sel_effectiveTo r of None \<Rightarrow> True | Some t \<Rightarrow> t > sel_effectiveFrom r)"

text \<open>The trigger: the content is frozen, and the marker leaves ACTIVE once.\<close>

definition frozen_selection :: "selection_row \<Rightarrow> selection_row" where
  "frozen_selection r = r\<lparr>sel_status := SELECTION_ACTIVE, sel_withdrawnAt := None\<rparr>"

definition selection_guard :: "selection_row \<Rightarrow> selection_row \<Rightarrow> bool" where
  "selection_guard old new \<longleftrightarrow> frozen_selection new = frozen_selection old
     \<and> (sel_status old = SELECTION_ACTIVE \<and> sel_status new = SELECTION_WITHDRAWN \<and> sel_withdrawnAt old = None \<and> sel_withdrawnAt new \<noteq> None
        \<or> sel_status old = SELECTION_ACTIVE \<and> sel_status new \<in> {SELECTION_SUPERSEDED, SELECTION_EXPIRED} \<and> sel_withdrawnAt new = None)"

section \<open>PrismaSubjectPolicySelectionRepository\<close>

definition own_selection :: "consent_principal \<Rightarrow> string \<Rightarrow> selection_row \<Rightarrow> bool" where
  "own_selection p capabilityId r \<longleftrightarrow> sel_userId r = pg_uuid (cp_userId p) \<and> sel_tenantId r = pg_uuid (cp_tenantId p)
     \<and> sel_capabilityId r = capabilityId"

definition stored_selection :: "millis \<Rightarrow> selection \<Rightarrow> selection_row" where
  "stored_selection at s = selection.extend (s\<lparr>sel_id := pg_uuid (sel_id s), sel_userId := pg_uuid (sel_userId s),
     sel_tenantId := pg_uuid (sel_tenantId s), sel_recordedBy := pg_uuid (sel_recordedBy s)\<rparr>) (selection_row.fields at)"

definition shadowed :: "selection_row \<Rightarrow> selection_row" where
  "shadowed r = r\<lparr>sel_status := SELECTION_SUPERSEDED\<rparr>"

text \<open>
  \<open>recordSelection\<close>, one transaction: the active selections are read, marked superseded by identifier, and the new one is
  inserted.  \<open>raced\<close> are the rows other transactions commit after the read.
\<close>

definition selections_record ::
  "millis \<Rightarrow> selection_row list \<Rightarrow> consent_principal \<Rightarrow> selection \<Rightarrow> 'w selection_world_scheme \<Rightarrow> (string list \<times> 'w selection_world_scheme) option" where
  "selections_record dbNow raced p s w = in_subject p (\<lambda>v.
     let ids = map sel_id (filter (\<lambda>r. selection_visible v r \<and> own_selection p (sel_capabilityId s) r \<and> sel_status r = SELECTION_ACTIVE) (sw_selections w));
         hit = (\<lambda>r. selection_visible v r \<and> sel_id r \<in> set ids);
         rows = sw_selections w @ raced;
         new = stored_selection dbNow s
     in if list_ex (\<lambda>r. hit r \<and> \<not> (selection_checks (shadowed r) \<and> selection_guard r (shadowed r))) rows then None
        else if list_ex (\<lambda>i. \<not> isUuid i) [sel_id s, sel_userId s, sel_tenantId s, sel_recordedBy s] then None
        else if \<not> selection_visible v new \<or> \<not> selection_checks new then None
        else map_option (\<lambda>rows. (ids, w\<lparr>sw_selections := rows\<rparr>))
          (create_row (same_id sel_id) new (map (\<lambda>r. if hit r then shadowed r else r) rows)))"

definition toSelection :: "selection_row \<Rightarrow> selection" where
  "toSelection r = selection.truncate r"

definition selections_findById :: "consent_principal \<Rightarrow> string \<Rightarrow> 'w selection_world_scheme \<Rightarrow> selection option option" where
  "selections_findById p i w = in_subject p (\<lambda>v.
     map_option (map_option toSelection) (find_by_id sel_id i (filter (selection_visible v) (sw_selections w))))"

definition oldest_selection :: "selection_row \<Rightarrow> selection_row \<Rightarrow> int" where
  "oldest_selection a b = (if sel_effectiveFrom a \<noteq> sel_effectiveFrom b then sel_effectiveFrom a - sel_effectiveFrom b
     else srow_createdAt a - srow_createdAt b)"

definition selections_list :: "consent_principal \<Rightarrow> string \<Rightarrow> 'w selection_world_scheme \<Rightarrow> selection list option" where
  "selections_list p capabilityId w = in_subject p (\<lambda>v.
     Some (map toSelection (find_many (\<lambda>r. selection_visible v r \<and> own_selection p capabilityId r) oldest_selection (sw_selections w))))"

definition ended_selection :: "millis \<Rightarrow> selection_row \<Rightarrow> selection_row" where
  "ended_selection at r = r\<lparr>sel_status := SELECTION_WITHDRAWN, sel_withdrawnAt := Some at\<rparr>"

definition selections_withdraw ::
  "consent_principal \<Rightarrow> string \<Rightarrow> millis \<Rightarrow> 'w selection_world_scheme \<Rightarrow> (unit \<times> 'w selection_world_scheme) option" where
  "selections_withdraw p i at w = in_subject p (\<lambda>v. map_option (\<lambda>rows. ((), w\<lparr>sw_selections := rows\<rparr>))
     (update_by_id sel_id (\<lambda>old new. selection_visible v old \<and> selection_checks new \<and> selection_guard old new) i (ended_selection at)
        (sw_selections w)))"

section \<open>Errors\<close>

datatype pin_detection = AT_RESOLUTION | AT_PIN

text \<open>\<open>OPTION_SOURCE_THREW\<close>: the port is asked outside of a \<open>try\<close>, and the promise rejects.\<close>

datatype selection_refusal =
    CAPABILITY_UNKNOWN string
  | NO_SUBJECT_POLICY_DECLARED string
  | OPTION_SET_UNRESOLVED string string
  | OPTION_NOT_PERMITTED string string string
  | PACK_VERSION_MISMATCH string string string pin_detection
  | SELECTION_NOT_ACTIVE string selection_status
  | OPTION_SOURCE_THREW

type_synonym ('w, 'a) selection_effect = "('w selection_world_scheme, selection_refusal governed_error, 'a) effect"

definition known_capability :: "string \<Rightarrow> ('w, unit) selection_effect" where
  "known_capability capabilityId = (if isCapabilityId capabilityId then returnE () else throwE (REFUSED (CAPABILITY_UNKNOWN capabilityId)))"

section \<open>RecordSubjectPolicySelection\<close>

record record_selection_input =
  ri_capability :: string
  ri_scope :: string
  ri_expectedPackVersion :: string
  ri_profileRef :: string
  ri_profileVersion :: string
  ri_effectiveTo :: "millis option"
  ri_snapshotHash :: "string option"

definition declared_options :: "string \<Rightarrow> option_resolution option \<Rightarrow> ('w, option_set) selection_effect" where
  "declared_options capabilityId answer = (case answer of
     None \<Rightarrow> throwE (REFUSED OPTION_SOURCE_THREW)
   | Some NO_SUBJECT_POLICY \<Rightarrow> throwE (REFUSED (NO_SUBJECT_POLICY_DECLARED capabilityId))
   | Some (OPTIONS_UNRESOLVED reason) \<Rightarrow> throwE (REFUSED (OPTION_SET_UNRESOLVED capabilityId reason))
   | Some (OPTION_SET s) \<Rightarrow> returnE s)"

definition SELECTION_SOURCE_SUBJECT_ELECTION :: string where
  "SELECTION_SOURCE_SUBJECT_ELECTION = ''subject-election''"

definition new_selection :: "governed_deps \<Rightarrow> consent_principal \<Rightarrow> record_selection_input \<Rightarrow> option_set \<Rightarrow> selection" where
  "new_selection d p i s =
     \<lparr>sel_id = gd_nextId d, sel_userId = cp_userId p, sel_tenantId = cp_tenantId p, sel_capabilityId = ri_capability i,
      sel_profileRef = ri_profileRef i, sel_profileVersion = ri_profileVersion i, sel_jurisdictionRef = ri_scope i,
      sel_policyPackVersion = os_policyPackVersion s, sel_effectiveFrom = gd_now d, sel_effectiveTo = ri_effectiveTo i,
      sel_status = SELECTION_ACTIVE, sel_source = SELECTION_SOURCE_SUBJECT_ELECTION, sel_recordedBy = cp_userId p,
      sel_profileSnapshotHash = ri_snapshotHash i, sel_withdrawnAt = None\<rparr>"

definition selection_entry :: "consent_principal \<Rightarrow> string \<Rightarrow> string \<Rightarrow> metadata \<Rightarrow> metadata \<Rightarrow> governed_entry" where
  "selection_entry p action i before after =
     \<lparr>ge_actorRef = cp_userId p, ge_tenantRef = Some (cp_tenantId p), ge_action = action, ge_resourceType = ''subject_policy_selection'',
      ge_resourceId = i, ge_reason = None, ge_before = Some before, ge_after = Some after\<rparr>"

definition recorded_entry :: "governed_deps \<Rightarrow> consent_principal \<Rightarrow> selection \<Rightarrow> string list \<Rightarrow> governed_entry" where
  "recorded_entry d p s superseded_ids = selection_entry p ''subjectpolicy.selection.recorded'' (sel_id s)
     [(''supersededSelectionIds'', joined_or_null superseded_ids)]
     [(''capabilityId'', JsString (sel_capabilityId s)), (''jurisdictionRef'', JsString (sel_jurisdictionRef s)),
      (''policyPackVersion'', JsString (sel_policyPackVersion s)), (''profileVersion'', JsString (sel_profileVersion s)),
      (''effectiveFrom'', JsString (gd_iso d (sel_effectiveFrom s))), (''status'', JsString ''ACTIVE'')]"

definition checked_selection :: "governed_deps \<Rightarrow> record_selection_input \<Rightarrow> ('w, unit) selection_effect" where
  "checked_selection d i =
     thenE (require_text ''JurisdictionRef'' (ri_scope i)) (\<lambda>u.
     thenE (require_text ''ProfileRef'' (ri_profileRef i)) (\<lambda>u.
     thenE (require_text ''profileVersion'' (ri_profileVersion i)) (\<lambda>u.
     thenE (require_text ''expectedPolicyPackVersion'' (ri_expectedPackVersion i)) (\<lambda>u.
     thenE (require_optional ''profileSnapshotHash'' (ri_snapshotHash i)) (\<lambda>u.
       require_that ''effectiveTo'' (case ri_effectiveTo i of None \<Rightarrow> True | Some t \<Rightarrow> t > gd_now d))))))"

text \<open>The option the pack permits, under the version the caller elected under.\<close>

definition validated_option :: "governed_deps \<Rightarrow> option_source \<Rightarrow> record_selection_input \<Rightarrow> ('w, option_set) selection_effect" where
  "validated_option d source i =
     thenE (declared_options (ri_capability i) (source (ri_capability i) (ri_scope i) (gd_now d))) (\<lambda>s.
     thenE (require_that ''optionSet'' (os_capabilityId s = ri_capability i \<and> os_jurisdictionRef s = ri_scope i)) (\<lambda>u.
     thenE (refuse_if (if os_policyPackVersion s \<noteq> ri_expectedPackVersion i
         then Some (PACK_VERSION_MISMATCH (ri_capability i) (ri_expectedPackVersion i) (os_policyPackVersion s) AT_RESOLUTION) else None)) (\<lambda>u.
     thenE (refuse_if (if \<not> optionPermitted s (ri_profileRef i) (ri_profileVersion i)
         then Some (OPTION_NOT_PERMITTED (ri_capability i) (ri_profileRef i) (ri_profileVersion i)) else None)) (\<lambda>u.
       returnE s))))"

definition pin_rechecked ::
  "governed_deps \<Rightarrow> option_source \<Rightarrow> record_selection_input \<Rightarrow> option_set \<Rightarrow> ('w, unit) selection_effect" where
  "pin_rechecked d again i s =
     thenE (declared_options (ri_capability i) (again (ri_capability i) (ri_scope i) (gd_now d))) (\<lambda>r.
       refuse_if (if os_policyPackVersion r \<noteq> os_policyPackVersion s
         then Some (PACK_VERSION_MISMATCH (ri_capability i) (ri_expectedPackVersion i) (os_policyPackVersion r) AT_PIN) else None))"

text \<open>\<open>source\<close> and \<open>again\<close> are what the port answers the first and the second time.\<close>

definition recordSelection ::
  "governed_deps \<Rightarrow> option_source \<Rightarrow> option_source \<Rightarrow> selection_row list \<Rightarrow> consent_principal \<Rightarrow> record_selection_input \<Rightarrow> ('w, selection) selection_effect" where
  "recordSelection d source again raced p i =
     thenE (checked_selection d i) (\<lambda>u.
     thenE (known_capability (ri_capability i)) (\<lambda>u.
     thenE (validated_option d source i) (\<lambda>s.
     thenE (pin_rechecked d again i s) (\<lambda>u.
     thenE (governed_write d ''selections.recordSelection'' (gd_nextId d) (selections_record (gd_dbNow d) raced p (new_selection d p i s))) (\<lambda>ids.
     thenE (audited d (recorded_entry d p (new_selection d p i s) ids)) (\<lambda>u.
       returnE (new_selection d p i s)))))))"

section \<open>WithdrawOwnSelection\<close>

definition withdrawOwnSelection :: "governed_deps \<Rightarrow> consent_principal \<Rightarrow> string \<Rightarrow> ('w, selection) selection_effect" where
  "withdrawOwnSelection d p selectionId =
     thenE (governed_read d ''selections.findById'' selectionId (selections_findById p selectionId)) (\<lambda>r.
     thenE (found ''subject_policy_selection'' selectionId r) (\<lambda>s.
     thenE (refuse_if (if sel_status s \<noteq> SELECTION_ACTIVE then Some (SELECTION_NOT_ACTIVE (sel_id s) (sel_status s)) else None)) (\<lambda>u.
     thenE (governed_write d ''selections.withdraw'' selectionId (selections_withdraw p selectionId (gd_now d))) (\<lambda>u.
     thenE (audited d (selection_entry p ''subjectpolicy.selection.withdrawn'' (sel_id s) [(''status'', JsString ''ACTIVE'')]
         [(''status'', JsString ''WITHDRAWN''), (''withdrawnAt'', JsString (gd_iso d (gd_now d))), (''capabilityId'', JsString (sel_capabilityId s))])) (\<lambda>u.
       returnE (s\<lparr>sel_status := SELECTION_WITHDRAWN, sel_withdrawnAt := Some (gd_now d)\<rparr>))))))"

section \<open>Reading\<close>

datatype own_selection_view =
  SELECTION_VIEW selection | SELECTION_EXPIRED_VIEW string millis | NO_SELECTION_VIEW | NO_SELECTION_APPLICABLE_VIEW

definition getOwnSelection ::
  "governed_deps \<Rightarrow> option_source \<Rightarrow> consent_principal \<Rightarrow> string \<Rightarrow> string \<Rightarrow> millis \<Rightarrow> ('w, own_selection_view) selection_effect" where
  "getOwnSelection d source p capabilityId scope at =
     thenE (require_text ''JurisdictionRef'' scope) (\<lambda>u.
     thenE (known_capability capabilityId) (\<lambda>u.
     thenE (governed_read d ''selections.listSelections'' capabilityId (selections_list p capabilityId)) (\<lambda>rows.
       case resolveSelectionAt rows at of
         EFFECTIVE_SELECTION s \<Rightarrow> returnE (SELECTION_VIEW s)
       | EXPIRED_SELECTION i t \<Rightarrow> returnE (SELECTION_EXPIRED_VIEW i t)
       | NO_SELECTION_AT \<Rightarrow> (case source capabilityId scope at of
           None \<Rightarrow> throwE STORE_FAILURE
         | Some NO_SUBJECT_POLICY \<Rightarrow> returnE NO_SELECTION_APPLICABLE_VIEW
         | Some (OPTIONS_UNRESOLVED reason) \<Rightarrow> throwE (REFUSED (OPTION_SET_UNRESOLVED capabilityId reason))
         | Some (OPTION_SET s) \<Rightarrow> returnE NO_SELECTION_VIEW))))"

record pinned_versions =
  pu_selectionId :: string
  pu_capabilityId :: string
  pu_jurisdictionRef :: string
  pu_policyPackVersion :: string
  pu_profileRef :: string
  pu_profileVersion :: string
  pu_effectiveFrom :: millis

datatype version_resolution = PINNED_VERSIONS pinned_versions | NOT_APPLICABLE_EXPIRED | NOT_APPLICABLE_NONE

definition version_of :: "selection_at \<Rightarrow> version_resolution" where
  "version_of r = (case r of
     EFFECTIVE_SELECTION s \<Rightarrow> PINNED_VERSIONS
       \<lparr>pu_selectionId = sel_id s, pu_capabilityId = sel_capabilityId s, pu_jurisdictionRef = sel_jurisdictionRef s,
        pu_policyPackVersion = sel_policyPackVersion s, pu_profileRef = sel_profileRef s, pu_profileVersion = sel_profileVersion s,
        pu_effectiveFrom = sel_effectiveFrom s\<rparr>
   | EXPIRED_SELECTION i t \<Rightarrow> NOT_APPLICABLE_EXPIRED
   | NO_SELECTION_AT \<Rightarrow> NOT_APPLICABLE_NONE)"

definition getSelectionVersionForResolution ::
  "governed_deps \<Rightarrow> consent_principal \<Rightarrow> string \<Rightarrow> millis \<Rightarrow> ('w, version_resolution) selection_effect" where
  "getSelectionVersionForResolution d p capabilityId at =
     thenE (known_capability capabilityId) (\<lambda>u.
     thenE (governed_read d ''selections.listSelections'' capabilityId (selections_list p capabilityId)) (\<lambda>rows.
       returnE (version_of (resolveSelectionAt rows at))))"

end
