(* ===== verification/Subject_Policy_Laws.thy ===== *)
theory Subject_Policy_Laws
  imports Subject_Policy Jurisdiction_Laws Job_Laws
begin

text \<open>
  Elections as dated evidence: which row is in effect at an instant, what a recording pins, and that no later recording or
  withdrawal changes the answer for an earlier instant.
\<close>

section \<open>The selection in effect\<close>

lemma string_cmp_zero: "string_cmp a b = 0 \<longleftrightarrow> a = b"
  by (induction a b rule: string_cmp.induct) auto

definition pins_of :: "selection \<Rightarrow> pinned_versions" where
  "pins_of s = \<lparr>pu_selectionId = sel_id s, pu_capabilityId = sel_capabilityId s, pu_jurisdictionRef = sel_jurisdictionRef s,
     pu_policyPackVersion = sel_policyPackVersion s, pu_profileRef = sel_profileRef s, pu_profileVersion = sel_profileVersion s,
     pu_effectiveFrom = sel_effectiveFrom s\<rparr>"

text \<open>The order of the elections: by their start, then by their identifier.\<close>

definition no_later :: "selection \<Rightarrow> selection \<Rightarrow> bool" where
  "no_later a b \<longleftrightarrow> sel_effectiveFrom a < sel_effectiveFrom b
     \<or> sel_effectiveFrom a = sel_effectiveFrom b \<and> string_cmp (sel_id a) (sel_id b) \<le> 0"

lemma no_later_refl [simp]: "no_later a a"
  by (simp add: no_later_def)

lemma no_later_trans: "no_later a b \<Longrightarrow> no_later b c \<Longrightarrow> no_later a c"
  unfolding no_later_def using string_cmp_trans by fastforce

lemma later_selection_bounds: "no_later a (later_selection a b)" "no_later b (later_selection a b)" "later_selection a b \<in> {a, b}"
  using string_cmp_antisym [of "sel_id a" "sel_id b"] by (auto simp: later_selection_def no_later_def text_after_def)

lemma fold_later:
  "fold later_selection cs w \<in> set (w # cs) \<and> (\<forall>x \<in> set (w # cs). no_later x (fold later_selection cs w))"
proof (induction cs arbitrary: w)
  case (Cons c cs)
  let ?w = "later_selection c w"
  have i: "fold later_selection cs ?w \<in> set (?w # cs)" "\<And>x. x \<in> set (?w # cs) \<Longrightarrow> no_later x (fold later_selection cs ?w)"
    using Cons.IH [of ?w] by blast+
  have "no_later c (fold later_selection cs ?w)" "no_later w (fold later_selection cs ?w)"
    using later_selection_bounds(1,2) [where a = c and b = w] i(2) [of ?w] no_later_trans by auto
  then show ?case using i later_selection_bounds(3) [where a = c and b = w] by auto
qed simp

definition in_effect :: "millis \<Rightarrow> selection \<Rightarrow> bool" where
  "in_effect at s \<longleftrightarrow> windowCovers s at \<and> \<not> wasWithdrawnBy s at"

lemma effective_iff:
  assumes "distinct (map sel_id rows)"
  shows "resolveSelectionAt rows at = EFFECTIVE_SELECTION s
    \<longleftrightarrow> s \<in> set rows \<and> in_effect at s \<and> (\<forall>x \<in> set rows. in_effect at x \<longrightarrow> no_later x s)"
proof (cases "filter (in_effect at) rows")
  case Nil
  have "resolveSelectionAt rows at \<noteq> EFFECTIVE_SELECTION s"
    using Nil unfolding resolveSelectionAt_def in_effect_def [symmetric] by (simp split: option.split)
  then show ?thesis using Nil unfolding filter_empty_conv by blast
next
  case (Cons c cs)
  let ?w = "fold later_selection (c # cs) c"
  have r: "resolveSelectionAt rows at = EFFECTIVE_SELECTION ?w"
    using Cons unfolding resolveSelectionAt_def in_effect_def [symmetric] by simp
  have st: "set (c # c # cs) = {x \<in> set rows. in_effect at x}" using Cons by (metis list.set_intros(1) insert_absorb list.simps(15) set_filter)
  have w: "?w \<in> set rows" "in_effect at ?w" "\<And>x. x \<in> set rows \<Longrightarrow> in_effect at x \<Longrightarrow> no_later x ?w"
    using fold_later [of "c # cs" c] unfolding st by blast+
  have "s = ?w" if "s \<in> set rows" "in_effect at s" "\<forall>x \<in> set rows. in_effect at x \<longrightarrow> no_later x s"
  proof -
    have "no_later s ?w" "no_later ?w s" using that w by blast+
    then have "string_cmp (sel_id s) (sel_id ?w) = 0" using string_cmp_antisym [of "sel_id s" "sel_id ?w"] unfolding no_later_def by auto
    then have "sel_id s = sel_id ?w" by (simp add: string_cmp_zero)
    then show ?thesis using assms that(1) w(1) by (meson inj_onD distinct_map)
  qed
  then show ?thesis using r w by auto
qed

lemma fold_expired: "fold later_expired es o' = None \<longleftrightarrow> es = [] \<and> o' = None"
proof (induction es arbitrary: o')
  case (Cons e es)
  have "later_expired e o' \<noteq> None" by (simp add: later_expired_def split: option.split)
  then show ?case using Cons by simp
qed simp

lemma ended_iff:
  "resolveSelectionAt rows at = NO_SELECTION_AT \<longleftrightarrow> (\<forall>x \<in> set rows. \<not> in_effect at x \<and> \<not> had_expired at x)"
proof (cases "filter (in_effect at) rows")
  case Nil
  then have n: "\<forall>x \<in> set rows. \<not> in_effect at x" unfolding filter_empty_conv .
  have "resolveSelectionAt rows at = NO_SELECTION_AT \<longleftrightarrow> fold later_expired (filter (had_expired at) rows) None = None"
    using Nil unfolding resolveSelectionAt_def in_effect_def [symmetric] by (simp split: option.split)
  also have "\<dots> \<longleftrightarrow> (\<forall>x \<in> set rows. \<not> had_expired at x)" unfolding fold_expired filter_empty_conv by simp
  finally show ?thesis using n by blast
next
  case (Cons c cs)
  then have "c \<in> set (filter (in_effect at) rows)" by simp
  then have "c \<in> set rows" "in_effect at c" by simp_all
  moreover have "resolveSelectionAt rows at \<noteq> NO_SELECTION_AT" using Cons unfolding resolveSelectionAt_def in_effect_def [symmetric] by simp
  ultimately show ?thesis by blast
qed


section \<open>Histories\<close>

text \<open>From the instant \<open>t\<close> on: content is frozen, and a withdrawal is dated \<open>t\<close> or later.\<close>

definition selection_history :: "millis \<Rightarrow> selection_row \<Rightarrow> selection_row \<Rightarrow> bool" where
  "selection_history t old new \<longleftrightarrow> frozen_selection new = frozen_selection old
     \<and> (sel_withdrawnAt new = sel_withdrawnAt old \<or> sel_withdrawnAt old = None \<and> (\<exists>u \<ge> t. sel_withdrawnAt new = Some u))"

lemma frozen_fields:
  "frozen_selection new = frozen_selection old \<Longrightarrow> sel_id new = sel_id old \<and> sel_userId new = sel_userId old \<and> sel_tenantId new = sel_tenantId old
     \<and> sel_capabilityId new = sel_capabilityId old \<and> sel_profileRef new = sel_profileRef old \<and> sel_profileVersion new = sel_profileVersion old
     \<and> sel_jurisdictionRef new = sel_jurisdictionRef old \<and> sel_policyPackVersion new = sel_policyPackVersion old
     \<and> sel_effectiveFrom new = sel_effectiveFrom old \<and> sel_effectiveTo new = sel_effectiveTo old"
  by (cases new; cases old) (simp add: frozen_selection_def)

interpretation selection_rows: evidence_table sel_id "selection_history t"
proof
  fix r s u
  show "selection_history t r r" by (simp add: selection_history_def)
  show "selection_history t r s \<Longrightarrow> selection_history t s u \<Longrightarrow> selection_history t r u" unfolding selection_history_def by auto
  show "selection_history t r s \<Longrightarrow> sel_id s = sel_id r" unfolding selection_history_def using frozen_fields by blast
qed

definition selections_since :: "millis \<Rightarrow> selection_row list \<Rightarrow> selection_row list \<Rightarrow> bool" where
  "selections_since t old new \<longleftrightarrow> (keyed sel_id old \<longrightarrow> keyed sel_id new
     \<and> (\<exists>changed more. new = changed @ more \<and> list_all2 (selection_history t) old changed \<and> (\<forall>r \<in> set more. t \<le> sel_effectiveFrom r)))"

lemma since_refl: "selections_since t rows rows"
  unfolding selections_since_def
  by (metis append_Nil2 empty_iff list.rel_refl list.set(1) selection_rows.row_refl)

lemma since_trans:
  assumes "selections_since t a b" "selections_since t b c"
  shows "selections_since t a c"
  unfolding selections_since_def
proof (intro impI conjI)
  assume d: "keyed sel_id a"
  then obtain ch more where b: "keyed sel_id b" "b = ch @ more" "list_all2 (selection_history t) a ch" "\<forall>r \<in> set more. t \<le> sel_effectiveFrom r"
    using assms(1) unfolding selections_since_def by blast
  then obtain ch' more' where c: "keyed sel_id c" "c = ch' @ more'" "list_all2 (selection_history t) b ch'" "\<forall>r \<in> set more'. t \<le> sel_effectiveFrom r"
    using assms(2) unfolding selections_since_def by blast
  show "keyed sel_id c" by (rule c(1))
  obtain x y where xy: "ch' = x @ y" "list_all2 (selection_history t) ch x" "list_all2 (selection_history t) more y"
    using c(3) unfolding b(2) list_all2_append1 by blast
  have "list_all2 (selection_history t) a x"
    using list_all2_trans [of "selection_history t" "selection_history t" "selection_history t" a ch x] selection_rows.row_trans b(3) xy(2) by blast
  moreover have "t \<le> sel_effectiveFrom r" if "r \<in> set y" for r
  proof -
    obtain k where k: "k < length y" "r = y ! k" using \<open>r \<in> set y\<close> by (auto simp: in_set_conv_nth)
    then have "selection_history t (more ! k) r" "more ! k \<in> set more" using xy(3) by (auto simp: list_all2_conv_all_nth)
    then show ?thesis using b(4) frozen_fields unfolding selection_history_def by metis
  qed
  ultimately show "\<exists>changed more. c = changed @ more \<and> list_all2 (selection_history t) a changed \<and> (\<forall>r \<in> set more. t \<le> sel_effectiveFrom r)"
    using c(2,4) xy(1) by (intro exI [of _ x] exI [of _ "y @ more'"]) auto
qed

definition selection_keeps :: "millis \<Rightarrow> 'w selection_world_scheme \<Rightarrow> 'w selection_world_scheme \<Rightarrow> bool" where
  "selection_keeps t w w' \<longleftrightarrow> selections_since t (sw_selections w) (sw_selections w')"

interpretation selection_runs: governed_relation "selection_keeps t"
  by unfold_locales (auto simp: selection_keeps_def since_refl intro: since_trans)

section \<open>What the transactions do\<close>

lemma selection_bounds:
  assumes "validateContext (subject_context p) DEFAULT_REQUIRED_CONTEXT = Inr v"
  shows "selection_visible v r \<longleftrightarrow> sel_userId r = pg_uuid (cp_userId p) \<and> sel_tenantId r = pg_uuid (cp_tenantId p)"
proof -
  have "invalid_keys (subject_context p) = []" using validateContext_Inr [OF assms] by blast
  then have "bound_tenant v = Some (pg_uuid (cp_tenantId p))" "bound_user v = Some (pg_uuid (cp_userId p))"
    using bound_of_context(1,2) [OF assms] by simp_all
  then show ?thesis by (auto simp: selection_visible_def)
qed

lemma stored_fields [simp]:
  "sel_id (stored_selection at s) = pg_uuid (sel_id s)" "sel_userId (stored_selection at s) = pg_uuid (sel_userId s)"
  "sel_tenantId (stored_selection at s) = pg_uuid (sel_tenantId s)" "sel_capabilityId (stored_selection at s) = sel_capabilityId s"
  "sel_effectiveFrom (stored_selection at s) = sel_effectiveFrom s" "sel_status (stored_selection at s) = sel_status s"
  "sel_profileRef (stored_selection at s) = sel_profileRef s" "sel_profileVersion (stored_selection at s) = sel_profileVersion s"
  "sel_jurisdictionRef (stored_selection at s) = sel_jurisdictionRef s" "sel_policyPackVersion (stored_selection at s) = sel_policyPackVersion s"
  by (simp_all add: stored_selection_def selection.extend_def selection_row.fields_def)

definition outgoing_selection :: "consent_principal \<Rightarrow> string \<Rightarrow> selection_row \<Rightarrow> bool" where
  "outgoing_selection p capabilityId r \<longleftrightarrow> own_selection p capabilityId r \<and> sel_status r = SELECTION_ACTIVE"

lemma shadowed_fields [simp]: "sel_id (shadowed r) = sel_id r" "sel_withdrawnAt (shadowed r) = sel_withdrawnAt r"
  "sel_effectiveFrom (shadowed r) = sel_effectiveFrom r" "sel_status (shadowed r) = SELECTION_SUPERSEDED"
  by (simp_all add: shadowed_def)

definition shadow_of :: "consent_principal \<Rightarrow> string \<Rightarrow> selection_row \<Rightarrow> selection_row" where
  "shadow_of p capabilityId r = (if outgoing_selection p capabilityId r then shadowed r else r)"

lemma shadow_fields [simp]: "sel_id (shadow_of p c r) = sel_id r" "sel_withdrawnAt (shadow_of p c r) = sel_withdrawnAt r"
  "sel_effectiveFrom (shadow_of p c r) = sel_effectiveFrom r"
  by (simp_all add: shadow_of_def)

text \<open>A recording shadows exactly the active elections it read, and adds its own.\<close>

lemma record_rows:
  assumes "selections_record at raced p s w = Some (ids, w')" "keyed sel_id (sw_selections w @ raced)"
  shows "w' = w\<lparr>sw_selections := map (shadow_of p (sel_capabilityId s)) (sw_selections w) @ raced @ [stored_selection at s]\<rparr>"
    "pg_uuid (sel_id s) \<notin> sel_id ` set (sw_selections w @ raced)"
    "pg_uuid (sel_userId s) = pg_uuid (cp_userId p) \<and> pg_uuid (sel_tenantId s) = pg_uuid (cp_tenantId p)"
    "\<forall>r \<in> set (sw_selections w). outgoing_selection p (sel_capabilityId s) r \<longrightarrow> selection_guard r (shadowed r)"
proof -
  let ?rows = "sw_selections w" and ?out = "outgoing_selection p (sel_capabilityId s)"
  obtain v where v: "validateContext (subject_context p) DEFAULT_REQUIRED_CONTEXT = Inr v"
    and body: "(let ids = map sel_id (filter (\<lambda>r. selection_visible v r \<and> own_selection p (sel_capabilityId s) r \<and> sel_status r = SELECTION_ACTIVE) ?rows);
         hit = (\<lambda>r. selection_visible v r \<and> sel_id r \<in> set ids);
         rows = ?rows @ raced;
         new = stored_selection at s
     in if list_ex (\<lambda>r. hit r \<and> \<not> (selection_checks (shadowed r) \<and> selection_guard r (shadowed r))) rows then None
        else if list_ex (\<lambda>i. \<not> isUuid i) [sel_id s, sel_userId s, sel_tenantId s, sel_recordedBy s] then None
        else if \<not> selection_visible v new \<or> \<not> selection_checks new then None
        else map_option (\<lambda>rows. (ids, w\<lparr>sw_selections := rows\<rparr>))
          (create_row (same_id sel_id) new (map (\<lambda>r. if hit r then shadowed r else r) rows))) = Some (ids, w')"
    using assms(1) unfolding selections_record_def in_subject_Some by blast
  let ?ids = "map sel_id (filter (\<lambda>r. selection_visible v r \<and> own_selection p (sel_capabilityId s) r \<and> sel_status r = SELECTION_ACTIVE) ?rows)"
  let ?hit = "\<lambda>r. selection_visible v r \<and> sel_id r \<in> set ?ids"
  let ?after = "map (shadow_of p (sel_capabilityId s)) ?rows @ raced"
  have out: "(\<lambda>r. selection_visible v r \<and> own_selection p (sel_capabilityId s) r \<and> sel_status r = SELECTION_ACTIVE) = ?out"
    by (auto simp: fun_eq_iff outgoing_selection_def own_selection_def selection_bounds [OF v])
  have d: "distinct (map sel_id (?rows @ raced))" using assms(2) by (simp add: keyed_def)
  have inj: "inj_on sel_id (set (?rows @ raced))" using d by (simp only: distinct_map)
  have hit: "?hit r \<longleftrightarrow> r \<in> set ?rows \<and> ?out r" if "r \<in> set (?rows @ raced)" for r
    unfolding out using that inj by (auto simp: selection_bounds [OF v] outgoing_selection_def own_selection_def dest: inj_onD)
  have apart: "r \<notin> set ?rows" if "r \<in> set raced" for r using d that by auto
  have "map (\<lambda>r. if ?hit r then shadowed r else r) ?rows = map (shadow_of p (sel_capabilityId s)) ?rows"
    by (rule map_cong [OF refl]) (use hit in \<open>simp add: shadow_of_def\<close>)
  moreover have "map (\<lambda>r. if ?hit r then shadowed r else r) raced = raced" by (rule map_idI) (use hit apart in simp)
  ultimately have m: "map (\<lambda>r. if ?hit r then shadowed r else r) (?rows @ raced) = ?after" by (simp only: map_append)
  have cr: "create_row (same_id sel_id) (stored_selection at s) ?after = Some (sw_selections w')"
    "w' = w\<lparr>sw_selections := sw_selections w'\<rparr>" "selection_visible v (stored_selection at s)"
    "\<not> list_ex (\<lambda>r. ?hit r \<and> \<not> (selection_checks (shadowed r) \<and> selection_guard r (shadowed r))) (?rows @ raced)"
    using body unfolding Let_def m by (auto split: if_splits)
  show "w' = w\<lparr>sw_selections := map (shadow_of p (sel_capabilityId s)) ?rows @ raced @ [stored_selection at s]\<rparr>"
    using cr(1,2) unfolding create_row_iff by simp
  have "\<forall>x \<in> set ?after. sel_id x \<noteq> pg_uuid (sel_id s)" using cr(1) unfolding create_row_iff by (simp add: same_id_def) metis
  moreover have "sel_id ` set ?after = sel_id ` set (?rows @ raced)" by (simp add: image_Un image_image)
  ultimately show "pg_uuid (sel_id s) \<notin> sel_id ` set (?rows @ raced)" by (metis imageE)
  show "pg_uuid (sel_userId s) = pg_uuid (cp_userId p) \<and> pg_uuid (sel_tenantId s) = pg_uuid (cp_tenantId p)"
    using cr(3) by (simp add: selection_bounds [OF v])
  show "\<forall>r \<in> set ?rows. ?out r \<longrightarrow> selection_guard r (shadowed r)"
  proof (intro ballI impI)
    fix r assume r: "r \<in> set ?rows" "?out r"
    then have "r \<in> set (?rows @ raced)" by simp
    moreover have "?hit r" using hit [OF calculation] r by blast
    ultimately show "selection_guard r (shadowed r)" using cr(4) unfolding list_ex_iff by blast
  qed
qed

lemma shadow_history:
  "selection_guard r (shadowed r) \<or> \<not> outgoing_selection p c r \<Longrightarrow> selection_history t r (shadow_of p c r)"
  by (auto simp: selection_history_def shadow_of_def selection_guard_def)

lemma record_keeps:
  assumes "selections_record at raced p s w = Some (ids, w')" "t \<le> sel_effectiveFrom s"
    "keyed sel_id (sw_selections w) \<Longrightarrow> keyed sel_id (sw_selections w @ raced)" "\<forall>r \<in> set raced. t \<le> sel_effectiveFrom r"
  shows "selection_keeps t w w'"
  unfolding selection_keeps_def selections_since_def
proof (intro impI conjI)
  assume k: "keyed sel_id (sw_selections w)"
  note r = record_rows [OF assms(1) assms(3) [OF k]]
  have rows: "sw_selections w' = map (shadow_of p (sel_capabilityId s)) (sw_selections w) @ raced @ [stored_selection at s]"
    by (subst r(1)) simp
  show "keyed sel_id (sw_selections w')" using assms(3) [OF k] r(2) unfolding rows keyed_def by (auto simp: comp_def pg_uuid_idem)
  have "list_all2 (selection_history t) (sw_selections w) (map (shadow_of p (sel_capabilityId s)) (sw_selections w))"
    using r(4) shadow_history by (fastforce simp: list_all2_conv_all_nth)
  then show "\<exists>changed more. sw_selections w' = changed @ more \<and> list_all2 (selection_history t) (sw_selections w) changed
     \<and> (\<forall>r \<in> set more. t \<le> sel_effectiveFrom r)"
    unfolding rows using assms(2,4)
    by (intro exI [of _ "map (shadow_of p (sel_capabilityId s)) (sw_selections w)"] exI [of _ "raced @ [stored_selection at s]"]) auto
qed

lemma since_updated:
  assumes "table_history sel_id (selection_history t) old new" "length new = length old"
  shows "selections_since t old new"
  using assms unfolding selections_since_def table_history_def
  by (metis append_Nil2 append_eq_conv_conj list_all2_lengthD drop_all empty_iff le_refl list.set(1) same_append_eq)

lemma withdraw_row:
  assumes "selections_withdraw p i at w = Some (u, w')" "keyed sel_id (sw_selections w)"
  obtains r where "r \<in> set (sw_selections w)" "sel_id r = pg_uuid i" "sel_status r = SELECTION_ACTIVE" "sel_withdrawnAt r = None"
    "w' = w\<lparr>sw_selections := map (\<lambda>x. if sel_id x = pg_uuid i then ended_selection at x else x) (sw_selections w)\<rparr>"
proof -
  obtain v rows where u: "update_by_id sel_id (\<lambda>old new. selection_visible v old \<and> selection_checks new \<and> selection_guard old new) i
      (ended_selection at) (sw_selections w) = Some rows" "w' = w\<lparr>sw_selections := rows\<rparr>"
    using assms(1) unfolding selections_withdraw_def in_subject_Some by auto
  show thesis
    by (rule update_by_id_Some [OF u(1)], rule that)
      (use u(2) find_by_id_Some in \<open>fastforce simp: selection_guard_def ended_selection_def\<close>)+
qed

lemma withdraw_keeps:
  assumes "selections_withdraw p i at w = Some (u, w')" "t \<le> at"
  shows "selection_keeps t w w'"
proof -
  obtain v rows where u: "update_by_id sel_id (\<lambda>old new. selection_visible v old \<and> selection_checks new \<and> selection_guard old new) i
      (ended_selection at) (sw_selections w) = Some rows" "w' = w\<lparr>sw_selections := rows\<rparr>"
    using assms(1) unfolding selections_withdraw_def in_subject_Some by auto
  have "table_history sel_id (selection_history t) (sw_selections w) rows"
    by (rule selection_rows.table_update [OF u(1)]) (use assms(2) in \<open>auto simp: selection_history_def selection_guard_def ended_selection_def\<close>)
  moreover have "length rows = length (sw_selections w)" by (rule update_by_id_Some [OF u(1)]) simp
  ultimately show ?thesis unfolding selection_keeps_def u(2) by (simp add: since_updated)
qed


section \<open>What the use cases do\<close>

text \<open>The checks of a recording, the two questions to the port included, leave the store alone.\<close>

interpretation quiet: step_relation "(=)"
  by unfold_locales simp_all

lemma quiet_checks:
  "always (=) (require_text f v)" "always (=) (require_optional f o')" "always (=) (require_that f b)" "always (=) (refuse_if e)"
  by (simp_all add: always_def)

lemma quiet_options: "always (=) (declared_options c a)" "always (=) (known_capability c)"
  unfolding declared_options_def known_capability_def
  by (auto simp: always_def returnE_def throwE_def split: option.split option_resolution.split)

lemma quiet_prefix: "always (=) (checked_selection d i)" "always (=) (validated_option d source i)" "always (=) (pin_rechecked d again i s)"
  unfolding checked_selection_def validated_option_def pin_rechecked_def
  by (intro quiet.always_intros quiet_checks quiet_options)+

lemma quiet_then: "always (=) m \<Longrightarrow> R w w \<Longrightarrow> (\<And>x. R w (snd (k x w))) \<Longrightarrow> R w (snd (thenE m k w))"
  unfolding always_def by (auto simp: thenE_def split: sum.split prod.split) (metis snd_conv)+

lemma quiet_Inr: "always (=) m \<Longrightarrow> m w = (Inr x, w') \<Longrightarrow> w' = w"
  unfolding always_def by (metis snd_conv)

lemma new_selection_fields [simp]:
  "sel_effectiveFrom (new_selection d p i s) = gd_now d" "sel_id (new_selection d p i s) = gd_nextId d"
  "sel_capabilityId (new_selection d p i s) = ri_capability i" "sel_userId (new_selection d p i s) = cp_userId p"
  "sel_tenantId (new_selection d p i s) = cp_tenantId p" "sel_status (new_selection d p i s) = SELECTION_ACTIVE"
  "sel_profileRef (new_selection d p i s) = ri_profileRef i" "sel_profileVersion (new_selection d p i s) = ri_profileVersion i"
  "sel_jurisdictionRef (new_selection d p i s) = ri_scope i" "sel_policyPackVersion (new_selection d p i s) = os_policyPackVersion s"
  "sel_effectiveTo (new_selection d p i s) = ri_effectiveTo i" "sel_withdrawnAt (new_selection d p i s) = None"
  by (simp_all add: new_selection_def)

lemma recording_keeps:
  fixes w :: "'w selection_world_scheme"
  assumes "t \<le> gd_now d" "keyed sel_id (sw_selections w) \<Longrightarrow> keyed sel_id (sw_selections w @ raced)" "\<forall>r \<in> set raced. t \<le> sel_effectiveFrom r"
  shows "selection_keeps t w (snd (recordSelection d source again raced p i w))"
proof -
  have wr: "selection_keeps t w (snd ((thenE (governed_write d ''selections.recordSelection'' (gd_nextId d)
      (selections_record (gd_dbNow d) raced p (new_selection d p i s)))
      (\<lambda>ids. thenE (audited d (recorded_entry d p (new_selection d p i s) ids)) (\<lambda>u. returnE (new_selection d p i s)))
        :: ('w, selection) selection_effect) w))" for s
  proof (cases "(governed_write d ''selections.recordSelection'' (gd_nextId d) (selections_record (gd_dbNow d) raced p (new_selection d p i s))
      :: ('w, string list) selection_effect) w")
    case (Pair r w1)
    have k: "selection_keeps t w w1"
      using Pair record_keeps [OF _ _ assms(2,3)] assms(1)
      by (fastforce simp: governed_write_def selection_runs.step_refl split: if_splits option.splits prod.splits)
    have a: "always (selection_keeps t) (thenE (audited d (recorded_entry d p (new_selection d p i s) ids)) (\<lambda>u. returnE (new_selection d p i s))
      :: ('w, selection) selection_effect)" for ids
      by (intro selection_runs.governed_always)
    show ?thesis
    proof (cases r)
      case (Inl e) then show ?thesis using Pair k by (simp add: thenE_def)
    next
      case (Inr ids)
      have "selection_keeps t w (snd ((thenE (audited d (recorded_entry d p (new_selection d p i s) ids)) (\<lambda>u. returnE (new_selection d p i s))
          :: ('w, selection) selection_effect) w1))" using a [of ids] k unfolding always_def by (blast intro: selection_runs.step_trans)
      then show ?thesis using Pair Inr by (simp add: thenE_def)
    qed
  qed
  show ?thesis unfolding recordSelection_def
    by (rule quiet_then [OF quiet_prefix(1) selection_runs.step_refl], rule quiet_then [OF quiet_options(2) selection_runs.step_refl],
        rule quiet_then [OF quiet_prefix(2) selection_runs.step_refl], rule quiet_then [OF quiet_prefix(3) selection_runs.step_refl], rule wr)
qed

lemma withdrawing_keeps:
  assumes "t \<le> gd_now d"
  shows "always (selection_keeps t) (withdrawOwnSelection d p i)"
  unfolding withdrawOwnSelection_def
  by (intro selection_runs.governed_always selection_runs.always_store) (erule withdraw_keeps [OF _ assms])

text \<open>
  The steps of the module from the instant \<open>t\<close> on.  A recording may be overtaken by other recordings; between two steps the
  other modules may change their own tables in any way.
\<close>

inductive selection_step :: "millis \<Rightarrow> 'w selection_world_scheme \<Rightarrow> 'w selection_world_scheme \<Rightarrow> bool" for t where
  record_step: "t \<le> gd_now d \<Longrightarrow> (keyed sel_id (sw_selections w) \<Longrightarrow> keyed sel_id (sw_selections w @ raced))
     \<Longrightarrow> (\<forall>r \<in> set raced. t \<le> sel_effectiveFrom r) \<Longrightarrow> selection_step t w (snd (recordSelection d source again raced p i w))"
| withdraw_step: "t \<le> gd_now d \<Longrightarrow> selection_step t w (snd (withdrawOwnSelection d p i w))"
| elsewhere_step: "sw_selections w' = sw_selections w \<Longrightarrow> selection_step t w w'"

inductive_cases selection_step_cases: "selection_step t w w'"

lemma selection_step_keeps: "selection_step t w w' \<Longrightarrow> selection_keeps t w w'"
proof (induction rule: selection_step.induct)
  case (withdraw_step d w p i)
  then show ?case using withdrawing_keeps unfolding always_def by blast
next
  case (elsewhere_step w' w)
  then show ?case by (simp add: selection_keeps_def since_refl)
qed (rule recording_keeps)

lemma selection_run_keeps: "(selection_step t)\<^sup>*\<^sup>* w w' \<Longrightarrow> selection_keeps t w w'"
  by (induction rule: rtranclp_induct) (auto intro: selection_runs.step_refl selection_runs.step_trans selection_step_keeps)


section \<open>Past instants\<close>

text \<open>Two elections that say the same at an instant.\<close>

definition alike :: "millis \<Rightarrow> selection \<Rightarrow> selection \<Rightarrow> bool" where
  "alike at x y \<longleftrightarrow> pins_of y = pins_of x \<and> in_effect at y = in_effect at x \<and> had_expired at y = had_expired at x"

lemma alike_order: "alike at x x' \<Longrightarrow> alike at y y' \<Longrightarrow> no_later x' y' = no_later x y"
  by (simp add: alike_def pins_of_def no_later_def)

lemma effective_exists: "(\<exists>s. resolveSelectionAt rows at = EFFECTIVE_SELECTION s) \<longleftrightarrow> (\<exists>x \<in> set rows. in_effect at x)"
proof (cases "filter (in_effect at) rows")
  case Nil
  then have "\<forall>x \<in> set rows. \<not> in_effect at x" unfolding filter_empty_conv .
  moreover have "resolveSelectionAt rows at \<noteq> EFFECTIVE_SELECTION s" for s
    using Nil unfolding resolveSelectionAt_def in_effect_def [symmetric] by (simp split: option.split)
  ultimately show ?thesis by blast
next
  case (Cons c cs)
  then have "c \<in> set (filter (in_effect at) rows)" by simp
  moreover have "\<exists>s. resolveSelectionAt rows at = EFFECTIVE_SELECTION s"
    using Cons unfolding resolveSelectionAt_def in_effect_def [symmetric] by simp
  ultimately show ?thesis by auto
qed

lemma version_effective: "version_of (EFFECTIVE_SELECTION s) = PINNED_VERSIONS (pins_of s)"
  by (simp add: version_of_def pins_of_def)

lemma same_version:
  assumes d: "distinct (map sel_id A)" "distinct (map sel_id B)"
    and forth: "\<And>x. x \<in> set A \<Longrightarrow> \<exists>y \<in> set B. alike at x y"
    and fro: "\<And>y. y \<in> set B \<Longrightarrow> (\<exists>x \<in> set A. alike at x y) \<or> \<not> in_effect at y \<and> \<not> had_expired at y"
  shows "version_of (resolveSelectionAt B at) = version_of (resolveSelectionAt A at)"
proof (cases "resolveSelectionAt A at")
  case (EFFECTIVE_SELECTION s)
  then have s: "s \<in> set A" "in_effect at s" "\<And>x. x \<in> set A \<Longrightarrow> in_effect at x \<Longrightarrow> no_later x s" using effective_iff [OF d(1)] by blast+
  obtain s' where s': "s' \<in> set B" "alike at s s'" using forth [OF s(1)] by blast
  have "no_later y s'" if y: "y \<in> set B" "in_effect at y" for y
  proof -
    obtain x where x: "x \<in> set A" "alike at x y" using fro [OF y(1)] y(2) by blast
    then show ?thesis using s(3) [OF x(1)] alike_order [OF x(2) s'(2)] y(2) unfolding alike_def by blast
  qed
  then have "resolveSelectionAt B at = EFFECTIVE_SELECTION s'" using effective_iff [OF d(2)] s' s(2) unfolding alike_def by blast
  then show ?thesis using EFFECTIVE_SELECTION s'(2) by (simp add: version_effective alike_def)
next
  case (EXPIRED_SELECTION i t)
  then have "\<not> (\<exists>x \<in> set A. in_effect at x)" "\<exists>x \<in> set A. in_effect at x \<or> had_expired at x"
    using effective_exists [of A at] ended_iff [of A at] by auto
  then have "\<not> (\<exists>y \<in> set B. in_effect at y)" "\<exists>y \<in> set B. in_effect at y \<or> had_expired at y" using forth fro unfolding alike_def by meson+
  then have "(\<forall>s. resolveSelectionAt B at \<noteq> EFFECTIVE_SELECTION s) \<and> resolveSelectionAt B at \<noteq> NO_SELECTION_AT"
    using effective_exists [of B at] ended_iff [of B at] by blast
  then obtain j u where "resolveSelectionAt B at = EXPIRED_SELECTION j u" by (cases "resolveSelectionAt B at") auto
  then show ?thesis using EXPIRED_SELECTION by (simp add: version_of_def)
next
  case NO_SELECTION_AT
  then have "\<forall>x \<in> set A. \<not> in_effect at x \<and> \<not> had_expired at x" using ended_iff by blast
  then have "resolveSelectionAt B at = NO_SELECTION_AT" using ended_iff [of B at] fro unfolding alike_def by meson
  then show ?thesis using NO_SELECTION_AT by simp
qed

text \<open>What a row of the table is to its reader.\<close>

lemma selection_fields [simp]:
  "sel_id (toSelection r) = sel_id r" "sel_effectiveFrom (toSelection r) = sel_effectiveFrom r" "sel_effectiveTo (toSelection r) = sel_effectiveTo r"
  "sel_withdrawnAt (toSelection r) = sel_withdrawnAt r" "pins_of (toSelection r) = \<lparr>pu_selectionId = sel_id r, pu_capabilityId = sel_capabilityId r,
     pu_jurisdictionRef = sel_jurisdictionRef r, pu_policyPackVersion = sel_policyPackVersion r, pu_profileRef = sel_profileRef r,
     pu_profileVersion = sel_profileVersion r, pu_effectiveFrom = sel_effectiveFrom r\<rparr>"
  by (simp_all add: toSelection_def selection.defs pins_of_def)

lemma history_alike: "selection_history t r r' \<Longrightarrow> at < t \<Longrightarrow> alike at (toSelection r) (toSelection r')"
  unfolding selection_history_def
  by (auto dest!: frozen_fields simp: alike_def in_effect_def had_expired_def windowCovers_def wasWithdrawnBy_def split: option.splits)

lemma future_silent: "at < sel_effectiveFrom r \<Longrightarrow> \<not> in_effect at (toSelection r) \<and> \<not> had_expired at (toSelection r)"
  by (auto simp: in_effect_def had_expired_def windowCovers_def split: option.splits)

lemma own_twice: "(\<lambda>r. sel_userId r = pg_uuid (cp_userId p) \<and> sel_tenantId r = pg_uuid (cp_tenantId p) \<and> own_selection p c r) = own_selection p c"
  by (auto simp: fun_eq_iff own_selection_def)

lemma listed_rows: "selections_list p c w = Some rows \<Longrightarrow> rows = map toSelection (find_many (own_selection p c) oldest_selection (sw_selections w))"
  by (auto simp: selections_list_def in_subject_Some selection_bounds own_twice)

lemma listed_again: "selections_list p c w = Some rows
    \<Longrightarrow> selections_list p c w' = Some (map toSelection (find_many (own_selection p c) oldest_selection (sw_selections w')))"
  by (auto simp: selections_list_def in_subject_Some selection_bounds own_twice)

lemma listed_keyed: "keyed sel_id rows \<Longrightarrow> distinct (map sel_id (map toSelection (find_many P ord rows)))"
proof -
  assume "keyed sel_id rows"
  then have d: "distinct (map sel_id rows)" by (simp add: keyed_def)
  then have "distinct (find_many P ord rows)" unfolding find_many_def by (metis distinct_map distinct_filter mset_eq_imp_distinct_iff mset_js_sort)
  moreover have "inj_on sel_id (set (find_many P ord rows))" using d by (auto simp: distinct_map intro: inj_on_subset)
  ultimately have "distinct (map sel_id (find_many P ord rows))" by (simp add: distinct_map)
  then show ?thesis by (simp add: comp_def)
qed

end
