(* ===== verification/Subject_Policy_Properties.thy ===== *)
theory Subject_Policy_Properties
  imports Subject_Policy_Laws Consent_Properties
begin

text \<open>
  The properties of the elections: what a recording is worth, that the past replays, what a withdrawal leaves, each with a
  concrete run, and the run in which a withdrawal brings a superseded election back.
\<close>

section \<open>Recording\<close>

lemma declared_options_Inr: "declared_options c a w = (Inr x, w') \<longleftrightarrow> a = Some (OPTION_SET x) \<and> w' = w"
  by (auto simp: declared_options_def returnE_def throwE_def split: option.splits option_resolution.splits)

lemma known_capability_Inr: "known_capability c w = (Inr u, w') \<longleftrightarrow> isCapabilityId c \<and> w' = w"
  by (auto simp: known_capability_def returnE_def throwE_def)

lemmas selection_success = governed_success thenE_Inr declared_options_Inr known_capability_Inr

lemma validated_Inr:
  "validated_option d source i w = (Inr s, w') \<Longrightarrow> source (ri_capability i) (ri_scope i) (gd_now d) = Some (OPTION_SET s)
     \<and> os_capabilityId s = ri_capability i \<and> os_jurisdictionRef s = ri_scope i \<and> os_policyPackVersion s = ri_expectedPackVersion i
     \<and> optionPermitted s (ri_profileRef i) (ri_profileVersion i) \<and> w' = w"
  by (auto simp: validated_option_def selection_success returnE_def split: if_splits)

lemma pinned_Inr:
  "pin_rechecked d again i s w = (Inr u, w') \<Longrightarrow> w' = w \<and> (\<exists>r. again (ri_capability i) (ri_scope i) (gd_now d) = Some (OPTION_SET r)
     \<and> os_policyPackVersion r = os_policyPackVersion s)"
  by (auto simp: pin_rechecked_def selection_success split: if_splits)

lemma recorded_parts:
  fixes w :: "'w selection_world_scheme"
  assumes "recordSelection d source again raced p i w = (Inr s, w')"
  obtains q ids w1 where "validated_option d source i w = (Inr q, w)" "pin_rechecked d again i q w = (Inr (), w)" "s = new_selection d p i q"
    "selections_record (gd_dbNow d) raced p s w = Some (ids, w1)" "sw_selections w' = sw_selections w1" "isCapabilityId (ri_capability i)"
proof -
  obtain w0 where w0: "checked_selection d i w = (Inr (), w0)" "isCapabilityId (ri_capability i)"
    and r: "thenE (validated_option d source i) (\<lambda>s. thenE (pin_rechecked d again i s) (\<lambda>u.
       thenE (governed_write d ''selections.recordSelection'' (gd_nextId d) (selections_record (gd_dbNow d) raced p (new_selection d p i s))) (\<lambda>ids.
       thenE (audited d (recorded_entry d p (new_selection d p i s) ids)) (\<lambda>u. returnE (new_selection d p i s))))) w0 = (Inr s, w')"
    using assms unfolding recordSelection_def by (auto simp: selection_success)
  have "w0 = w" by (rule quiet_Inr [OF quiet_prefix(1) w0(1)])
  note r = r [unfolded this]
  obtain q w1 where q: "validated_option d source i w = (Inr q, w1)"
    and r2: "thenE (pin_rechecked d again i q) (\<lambda>u.
       thenE (governed_write d ''selections.recordSelection'' (gd_nextId d) (selections_record (gd_dbNow d) raced p (new_selection d p i q))) (\<lambda>ids.
       thenE (audited d (recorded_entry d p (new_selection d p i q) ids)) (\<lambda>u. returnE (new_selection d p i q)))) w1 = (Inr s, w')"
    using r unfolding thenE_Inr by blast
  have w1: "w1 = w" by (rule quiet_Inr [OF quiet_prefix(2) q])
  obtain w2 where p: "pin_rechecked d again i q w = (Inr (), w2)"
    and r3: "(thenE (governed_write d ''selections.recordSelection'' (gd_nextId d) (selections_record (gd_dbNow d) raced p (new_selection d p i q))) (\<lambda>ids.
       thenE (audited d (recorded_entry d p (new_selection d p i q) ids)) (\<lambda>u. returnE (new_selection d p i q)))
       :: ('w, selection) selection_effect) w2 = (Inr s, w')"
    using r2 unfolding w1 thenE_Inr [of "pin_rechecked d again i q"] by (auto simp del: thenE_Inr)
  have w2: "w2 = w" by (rule quiet_Inr [OF quiet_prefix(3) p])
  obtain ids w3 where g: "selections_record (gd_dbNow d) raced p (new_selection d p i q) w = Some (ids, w3)"
    and a: "(audited d (recorded_entry d p (new_selection d p i q) ids) :: ('w, unit) selection_effect) w3 = (Inr (), w')" "s = new_selection d p i q"
    using r3 unfolding w2 by (auto simp: selection_success returnE_def)
  have "sw_selections w' = sw_selections w3" using audited_Inr [OF a(1)] by auto
  then show thesis using that q p g a(2) w0(2) unfolding w1 w2 by blast
qed

text \<open>
  C19: A recording succeeds only for a capability of the registry and an option that the source permits, under the pack version
  the caller elected under, for that capability and jurisdiction; the second answer of the source, right before the insert,
  carries the same version.  The row pins that version, the jurisdiction and the profile version, and it is the only active
  election of the subject for the capability, except for those that other transactions commit while the recording runs.
\<close>

theorem recorded_selection_is_permitted:
  assumes "recordSelection d source again raced p i w = (Inr s, w')" "keyed sel_id (sw_selections w @ raced)"
  shows "isCapabilityId (sel_capabilityId s)
     \<and> (\<exists>q q'. source (sel_capabilityId s) (sel_jurisdictionRef s) (sel_effectiveFrom s) = Some (OPTION_SET q)
          \<and> again (sel_capabilityId s) (sel_jurisdictionRef s) (sel_effectiveFrom s) = Some (OPTION_SET q')
          \<and> os_capabilityId q = sel_capabilityId s \<and> os_jurisdictionRef q = sel_jurisdictionRef s
          \<and> optionPermitted q (sel_profileRef s) (sel_profileVersion s)
          \<and> os_policyPackVersion q = sel_policyPackVersion s \<and> os_policyPackVersion q' = sel_policyPackVersion s
          \<and> sel_policyPackVersion s = ri_expectedPackVersion i)
     \<and> filter (outgoing_selection p (sel_capabilityId s)) (sw_selections w')
         = filter (outgoing_selection p (sel_capabilityId s)) raced @ [stored_selection (gd_dbNow d) s]"
proof -
  obtain q ids w1 where q: "validated_option d source i w = (Inr q, w)" and q': "pin_rechecked d again i q w = (Inr (), w)"
    and s: "s = new_selection d p i q" and g: "selections_record (gd_dbNow d) raced p s w = Some (ids, w1)" "sw_selections w' = sw_selections w1"
    and known: "isCapabilityId (ri_capability i)"
    by (rule recorded_parts [OF assms(1)])
  note r = record_rows [OF g(1) assms(2)]
  have rows: "sw_selections w' = map (shadow_of p (sel_capabilityId s)) (sw_selections w) @ raced @ [stored_selection (gd_dbNow d) s]"
    unfolding g(2) by (subst r(1)) simp
  have "filter (outgoing_selection p (sel_capabilityId s)) (map (shadow_of p (sel_capabilityId s)) (sw_selections w)) = []"
    by (auto simp: filter_empty_conv shadow_of_def outgoing_selection_def)
  moreover have "outgoing_selection p (sel_capabilityId s) (stored_selection (gd_dbNow d) s)"
    using r(3) by (simp add: outgoing_selection_def own_selection_def s)
  ultimately have f: "filter (outgoing_selection p (sel_capabilityId s)) (sw_selections w')
      = filter (outgoing_selection p (sel_capabilityId s)) raced @ [stored_selection (gd_dbNow d) s]" unfolding rows by simp
  show ?thesis using validated_Inr [OF q] pinned_Inr [OF q'] known f by (auto simp: s)
qed

section \<open>Replay\<close>

lemma listed_None: "selections_list p c w = None \<Longrightarrow> selections_list p c w' = None"
  using listed_again [of p c w' _ w] by (cases "selections_list p c w'") auto

lemma version_answers:
  assumes "\<And>rows rows'. selections_list p c w = Some rows \<Longrightarrow> selections_list p c w' = Some rows'
     \<Longrightarrow> version_of (resolveSelectionAt rows' at) = version_of (resolveSelectionAt rows at)"
  shows "fst (getSelectionVersionForResolution d p c at w') = fst (getSelectionVersionForResolution d p c at w)"
proof (cases "selections_list p c w")
  case None
  then show ?thesis using listed_None [OF None, of w']
    by (simp add: getSelectionVersionForResolution_def thenE_def known_capability_def governed_read_def returnE_def throwE_def)
next
  case (Some rows)
  then obtain rows' where "selections_list p c w' = Some rows'" using listed_again by blast
  then show ?thesis using Some assms [OF Some]
    by (simp add: getSelectionVersionForResolution_def thenE_def known_capability_def governed_read_def returnE_def throwE_def)
qed

lemma own_frozen: "selection_history t r r' \<Longrightarrow> own_selection p c r' = own_selection p c r"
  unfolding selection_history_def own_selection_def using frozen_fields by metis

lemma replayed:
  assumes "selections_since t old new" "keyed sel_id old" "at < t"
  shows "version_of (resolveSelectionAt (map toSelection (find_many (own_selection p c) ord new)) at)
       = version_of (resolveSelectionAt (map toSelection (find_many (own_selection p c) ord old)) at)"
proof -
  obtain ch more where n: "keyed sel_id new" "new = ch @ more" "list_all2 (selection_history t) old ch" "\<forall>r \<in> set more. t \<le> sel_effectiveFrom r"
    using assms(1,2) unfolding selections_since_def by blast
  show ?thesis
  proof (rule same_version [OF listed_keyed [OF assms(2)] listed_keyed [OF n(1)]])
    fix x assume "x \<in> set (map toSelection (find_many (own_selection p c) ord old))"
    then obtain r where r: "r \<in> set old" "own_selection p c r" "x = toSelection r" by auto
    then obtain k where "k < length old" "r = old ! k" by (auto simp: in_set_conv_nth)
    then have "ch ! k \<in> set new" "selection_history t r (ch ! k)" using n(2,3) by (auto simp: list_all2_conv_all_nth)
    then show "\<exists>y \<in> set (map toSelection (find_many (own_selection p c) ord new)). alike at x y"
      using r own_frozen history_alike [OF _ assms(3)] by (intro bexI [of _ "toSelection (ch ! k)"]) auto
  next
    fix y assume "y \<in> set (map toSelection (find_many (own_selection p c) ord new))"
    then obtain r' where r': "r' \<in> set new" "own_selection p c r'" "y = toSelection r'" by auto
    show "(\<exists>x \<in> set (map toSelection (find_many (own_selection p c) ord old)). alike at x y) \<or> \<not> in_effect at y \<and> \<not> had_expired at y"
    proof (cases "r' \<in> set more")
      case True then show ?thesis using n(4) assms(3) future_silent [of at r'] r'(3) by fastforce
    next
      case False
      then obtain k where "k < length ch" "r' = ch ! k" using r'(1) n(2) by (auto simp: in_set_conv_nth)
      then have k: "old ! k \<in> set old" "selection_history t (old ! k) r'" using n(3) by (auto simp: list_all2_conv_all_nth)
      have "toSelection (old ! k) \<in> set (map toSelection (find_many (own_selection p c) ord old))" using k own_frozen [OF k(2)] r'(2) by simp
      moreover have "alike at (toSelection (old ! k)) y" using history_alike [OF k(2) assms(3)] r'(3) by simp
      ultimately show ?thesis by blast
    qed
  qed
qed

text \<open>
  C18: The past replays.  Whatever is recorded and withdrawn from the instant t on, by whom and in whatever interleaving, the
  versions that resolution reads for an earlier instant stay the ones they were: the same election with the same pins, or the
  same kind of absence.
\<close>

theorem past_selections_replay:
  assumes "(selection_step t)\<^sup>*\<^sup>* w w'" "keyed sel_id (sw_selections w)" "at < t"
  shows "fst (getSelectionVersionForResolution d p c at w') = fst (getSelectionVersionForResolution d p c at w)"
proof (rule version_answers)
  fix rows rows' assume l: "selections_list p c w = Some rows" "selections_list p c w' = Some rows'"
  show "version_of (resolveSelectionAt rows' at) = version_of (resolveSelectionAt rows at)"
    unfolding l [THEN listed_rows] by (rule replayed [OF _ assms(2,3)]) (use selection_run_keeps [OF assms(1)] in \<open>simp add: selection_keeps_def\<close>)
qed


section \<open>Withdrawing\<close>

lemma keyed_alike: "map key rows' = map key rows \<Longrightarrow> keyed key rows' = keyed key rows"
proof -
  assume m: "map key rows' = map key rows"
  have "keyed key rs \<longleftrightarrow> distinct (map key rs) \<and> (\<forall>k \<in> set (map key rs). pg_uuid k = k)" for rs by (simp add: keyed_def)
  then show ?thesis by (simp only: m)
qed

lemma findById_own:
  "selections_findById p i w = Some (Some x) \<Longrightarrow> isUuid i \<and> (\<exists>r \<in> set (sw_selections w). sel_id r = pg_uuid i \<and> own_selection p (sel_capabilityId r) r \<and> x = toSelection r)"
  unfolding selections_findById_def in_subject_Some
  by (auto simp: selection_bounds own_selection_def dest!: find_by_id_Some)

lemma withdrawn_parts:
  fixes w :: "'w selection_world_scheme"
  assumes "withdrawOwnSelection d p i w = (Inr s, w')" "keyed sel_id (sw_selections w)"
  obtains r v where "r \<in> set (sw_selections w)" "sel_id r = pg_uuid i" "sel_status r = SELECTION_ACTIVE" "isUuid i"
    "own_selection p (sel_capabilityId s) r" "s = toSelection (ended_selection (gd_now d) r)"
    "sw_selections w' = map (\<lambda>x. if sel_id x = pg_uuid i then ended_selection (gd_now d) x else x) (sw_selections w)"
    "validateContext (subject_context p) DEFAULT_REQUIRED_CONTEXT = Inr v"
proof -
  obtain x u w1 a where f: "selections_findById p i w = Some (Some x)" "sel_status x = SELECTION_ACTIVE"
    and s: "s = x\<lparr>sel_status := SELECTION_WITHDRAWN, sel_withdrawnAt := Some (gd_now d)\<rparr>"
    and g: "selections_withdraw p i (gd_now d) w = Some (u, w1)" and a: "(audited d a :: ('w, unit) selection_effect) w1 = (Inr (), w')"
    using assms(1) unfolding withdrawOwnSelection_def by (auto simp: selection_success returnE_def split: if_splits)
  obtain r where r: "r \<in> set (sw_selections w)" "sel_id r = pg_uuid i" "own_selection p (sel_capabilityId r) r" "x = toSelection r" "isUuid i"
    using findById_own [OF f(1)] by blast
  obtain r' where "w1 = w\<lparr>sw_selections := map (\<lambda>x. if sel_id x = pg_uuid i then ended_selection (gd_now d) x else x) (sw_selections w)\<rparr>"
    by (rule withdraw_row [OF g assms(2)])
  then have rows: "sw_selections w' = map (\<lambda>x. if sel_id x = pg_uuid i then ended_selection (gd_now d) x else x) (sw_selections w)"
    using audited_Inr [OF a] by auto
  obtain v where v: "validateContext (subject_context p) DEFAULT_REQUIRED_CONTEXT = Inr v" using f(1) unfolding selections_findById_def in_subject_Some by blast
  have e: "s = toSelection (ended_selection (gd_now d) r)" unfolding s r(4) by (simp add: toSelection_def selection.truncate_def ended_selection_def)
  have "sel_status r = SELECTION_ACTIVE" using f(2) unfolding r(4) by (simp add: toSelection_def selection.truncate_def)
  moreover have "own_selection p (sel_capabilityId s) r" using r(3) unfolding e by (simp add: toSelection_def selection.truncate_def ended_selection_def)
  ultimately show thesis using that [OF r(1,2) _ r(5) _ e rows v] by blast
qed

lemma ended_fields [simp]: "sel_id (ended_selection at r) = sel_id r" "own_selection p c (ended_selection at r) = own_selection p c r"
  by (simp_all add: ended_selection_def own_selection_def)

lemma ended_silent: "now \<le> at \<Longrightarrow> \<not> in_effect at (toSelection (ended_selection now r)) \<and> \<not> had_expired at (toSelection (ended_selection now r))"
  by (auto simp: in_effect_def had_expired_def wasWithdrawnBy_def ended_selection_def split: option.splits)

lemma ended_rows_keyed: "keyed sel_id rows \<Longrightarrow> keyed sel_id (map (\<lambda>x. if sel_id x = k then ended_selection at x else x) rows)"
proof -
  have "map sel_id (map (\<lambda>x. if sel_id x = k then ended_selection at x else x) rows) = map sel_id rows" by simp
  from keyed_alike [OF this] show "keyed sel_id rows \<Longrightarrow> keyed sel_id (map (\<lambda>x. if sel_id x = k then ended_selection at x else x) rows)" by blast
qed

text \<open>An ended election is still found by its identifier.\<close>

lemma find_hit: "List.find P xs = Some y \<Longrightarrow> y \<in> set xs \<and> P y"
  by (auto simp: find_Some_iff)

lemma refound:
  assumes v: "validateContext (subject_context p) DEFAULT_REQUIRED_CONTEXT = Inr v" and own: "own_selection p c r"
    and k: "keyed sel_id (sw_selections w)" and i: "isUuid i" and r: "r \<in> set (sw_selections w)" "sel_id r = pg_uuid i"
    and rows: "sw_selections w' = map (\<lambda>x. if sel_id x = pg_uuid i then ended_selection now x else x) (sw_selections w)"
  obtains x where "selections_findById p i w' = Some (Some x)" "sel_id x = pg_uuid i" "sel_status x = SELECTION_WITHDRAWN"
proof -
  let ?seen = "filter (selection_visible v) (sw_selections w')"
  have e: "ended_selection now r \<in> set ?seen"
    unfolding rows using r own by (force simp: selection_bounds [OF v] own_selection_def ended_selection_def)
  have "\<exists>y \<in> set ?seen. sel_id y = pg_uuid i" using e r(2) by (intro bexI [of _ "ended_selection now r"]) simp_all
  then have "List.find (\<lambda>r. sel_id r = pg_uuid i) ?seen \<noteq> None" unfolding find_None_iff by blast
  then obtain y where y: "List.find (\<lambda>r. sel_id r = pg_uuid i) ?seen = Some y" by blast
  have "y \<in> set ?seen" "sel_id y = pg_uuid i" using find_hit [OF y] by blast+
  then have "y \<in> set (sw_selections w')" "sel_id y = pg_uuid i" by simp_all
  then have s: "sel_status y = SELECTION_WITHDRAWN" unfolding rows by (auto simp: ended_selection_def split: if_splits)
  have "selections_findById p i w' = Some (Some (toSelection y))"
    using v i y by (auto simp: selections_findById_def in_subject_Some find_by_id_def)
  then show thesis using that [of "toSelection y"] \<open>sel_id y = pg_uuid i\<close> s by (simp add: toSelection_def selection.truncate_def)
qed

text \<open>An ended election is none that a list resolves to.\<close>

lemma ended_unresolved:
  assumes "keyed sel_id rows" "now \<le> at"
    "resolveSelectionAt (map toSelection (find_many P ord (map (\<lambda>x. if sel_id x = k then ended_selection now x else x) rows))) at = EFFECTIVE_SELECTION s"
  shows "sel_id s \<noteq> k"
proof -
  have s: "s \<in> toSelection ` set (map (\<lambda>x. if sel_id x = k then ended_selection now x else x) rows)" "in_effect at s"
    using assms(3) unfolding effective_iff [OF listed_keyed [OF ended_rows_keyed [OF assms(1)]]] by auto
  then obtain r where "s = toSelection (if sel_id r = k then ended_selection now r else r)" unfolding set_map image_image by blast
  then show ?thesis using s(2) ended_silent [OF assms(2)] by (cases "sel_id r = k") auto
qed

lemma version_read:
  "getSelectionVersionForResolution d p c at w = (Inr v, w1) \<longleftrightarrow> isCapabilityId c \<and> \<not> gd_down d ''selections.listSelections'' c \<and> w1 = w
     \<and> (\<exists>rows. selections_list p c w = Some rows \<and> v = version_of (resolveSelectionAt rows at))"
  by (auto simp: getSelectionVersionForResolution_def selection_success returnE_def)

lemma own_read:
  "getOwnSelection d source p c scope at w = (Inr (SELECTION_VIEW s), w1)
    \<Longrightarrow> \<exists>rows. selections_list p c w = Some rows \<and> resolveSelectionAt rows at = EFFECTIVE_SELECTION s"
proof -
  assume a: "getOwnSelection d source p c scope at w = (Inr (SELECTION_VIEW s), w1)"
  obtain rows where l: "selections_list p c w = Some rows"
    and r: "(case resolveSelectionAt rows at of
         EFFECTIVE_SELECTION s \<Rightarrow> returnE (SELECTION_VIEW s)
       | EXPIRED_SELECTION i t \<Rightarrow> returnE (SELECTION_EXPIRED_VIEW i t)
       | NO_SELECTION_AT \<Rightarrow> (case source c scope at of
           None \<Rightarrow> throwE STORE_FAILURE
         | Some NO_SUBJECT_POLICY \<Rightarrow> returnE NO_SELECTION_APPLICABLE_VIEW
         | Some (OPTIONS_UNRESOLVED reason) \<Rightarrow> throwE (REFUSED (OPTION_SET_UNRESOLVED c reason))
         | Some (OPTION_SET s) \<Rightarrow> returnE NO_SELECTION_VIEW)) w = (Inr (SELECTION_VIEW s), w1)"
    using a unfolding getOwnSelection_def selection_success by blast
  have "resolveSelectionAt rows at = EFFECTIVE_SELECTION s"
    using r by (cases "resolveSelectionAt rows at") (auto simp: returnE_def throwE_def split: option.splits option_resolution.splits)
  then show ?thesis using l by blast
qed

text \<open>From its end on, no reader is given an ended election.\<close>

lemma ended_unread:
  assumes "keyed sel_id (sw_selections w)" "now \<le> at"
    and rows: "sw_selections w' = map (\<lambda>x. if sel_id x = k then ended_selection now x else x) (sw_selections w)"
  shows "getSelectionVersionForResolution e q c at w' = (Inr (PINNED_VERSIONS u), w1) \<Longrightarrow> pu_selectionId u \<noteq> k"
    and "getOwnSelection e source q c scope at w' = (Inr (SELECTION_VIEW x), w1) \<Longrightarrow> sel_id x \<noteq> k"
proof -
  note unresolved = ended_unresolved [OF assms(1,2), of _ _ k]
  show "pu_selectionId u \<noteq> k" if a: "getSelectionVersionForResolution e q c at w' = (Inr (PINNED_VERSIONS u), w1)"
  proof -
    obtain l where l: "selections_list q c w' = Some l" "PINNED_VERSIONS u = version_of (resolveSelectionAt l at)"
      using a unfolding version_read by blast
    obtain y where y: "resolveSelectionAt l at = EFFECTIVE_SELECTION y" "pu_selectionId u = sel_id y"
      using l(2) by (cases "resolveSelectionAt l at") (simp_all add: version_of_def)
    show ?thesis unfolding y(2) by (rule unresolved [OF y(1) [unfolded listed_rows [OF l(1)] rows]])
  qed
  show "sel_id x \<noteq> k" if a: "getOwnSelection e source q c scope at w' = (Inr (SELECTION_VIEW x), w1)"
  proof -
    obtain l where l: "selections_list q c w' = Some l" "resolveSelectionAt l at = EFFECTIVE_SELECTION x" using own_read [OF a] by blast
    show ?thesis by (rule unresolved [OF l(2) [unfolded listed_rows [OF l(1)] rows]])
  qed
qed

lemma ended_alone:
  assumes "selections_list p c w' = Some l" "now \<le> at"
    and rows: "sw_selections w' = map (\<lambda>x. if sel_id x = k then ended_selection now x else x) (sw_selections w)"
    and others: "\<forall>r \<in> set (sw_selections w). own_selection p c r \<and> sel_id r \<noteq> k \<longrightarrow> at < sel_effectiveFrom r"
  shows "resolveSelectionAt l at = NO_SELECTION_AT"
  unfolding ended_iff
proof
  fix x assume "x \<in> set l"
  then obtain y where y: "y \<in> set (sw_selections w)" "own_selection p c y" "x = toSelection (if sel_id y = k then ended_selection now y else y)"
    unfolding listed_rows [OF assms(1)] rows by (auto split: if_splits)
  then show "\<not> in_effect at x \<and> \<not> had_expired at x"
    using ended_silent [OF assms(2)] future_silent [of at y] others by (cases "sel_id y = k") auto
qed

text \<open>
  C20: A withdrawn election governs nothing from the instant of its withdrawal on: no reader is given its pins, nor shown it, at
  any such instant, and when the subject has no other election for the capability that had begun, resolution finds none.
  Earlier instants replay as before.  The row is preserved, marked withdrawn at that instant, and no other row changes; a second
  withdrawal is refused.  What governs after it when the subject had elected before is another election, for which see
  \<open>withdrawal_revives_the_superseded_election\<close>.
\<close>

theorem withdrawn_election_governs_nothing:
  assumes "withdrawOwnSelection d p i w = (Inr s, w')" "keyed sel_id (sw_selections w)"
  shows "(\<forall>e q c at v w1. gd_now d \<le> at \<and> getSelectionVersionForResolution e q c at w' = (Inr (PINNED_VERSIONS v), w1) \<longrightarrow> pu_selectionId v \<noteq> sel_id s)
    \<and> (\<forall>e source q c scope at x w1. gd_now d \<le> at \<and> getOwnSelection e source q c scope at w' = (Inr (SELECTION_VIEW x), w1) \<longrightarrow> sel_id x \<noteq> sel_id s)
    \<and> (\<forall>e at. gd_now d \<le> at \<and> isCapabilityId (sel_capabilityId s) \<and> \<not> gd_down e ''selections.listSelections'' (sel_capabilityId s)
          \<and> (\<forall>r \<in> set (sw_selections w). own_selection p (sel_capabilityId s) r \<and> sel_id r \<noteq> sel_id s \<longrightarrow> at < sel_effectiveFrom r)
        \<longrightarrow> getSelectionVersionForResolution e p (sel_capabilityId s) at w' = (Inr NOT_APPLICABLE_NONE, w'))
    \<and> (\<forall>e q c at. at < gd_now d \<longrightarrow>
          fst (getSelectionVersionForResolution e q c at w') = fst (getSelectionVersionForResolution e q c at w))
    \<and> (\<exists>r \<in> set (sw_selections w). sel_id r = sel_id s \<and> sel_status r = SELECTION_ACTIVE \<and> own_selection p (sel_capabilityId s) r)
    \<and> sw_selections w' = map (\<lambda>r. if sel_id r = sel_id s then r\<lparr>sel_status := SELECTION_WITHDRAWN, sel_withdrawnAt := Some (gd_now d)\<rparr> else r)
        (sw_selections w)
    \<and> (\<forall>e. \<not> gd_down e ''selections.findById'' i \<longrightarrow>
          withdrawOwnSelection e p i w' = (Inl (REFUSED (SELECTION_NOT_ACTIVE (sel_id s) SELECTION_WITHDRAWN)), w'))"
proof -
  obtain r v where r: "r \<in> set (sw_selections w)" "sel_id r = pg_uuid i" "sel_status r = SELECTION_ACTIVE" "isUuid i"
    "own_selection p (sel_capabilityId s) r" "s = toSelection (ended_selection (gd_now d) r)"
    and rows: "sw_selections w' = map (\<lambda>x. if sel_id x = pg_uuid i then ended_selection (gd_now d) x else x) (sw_selections w)"
    and v: "validateContext (subject_context p) DEFAULT_REQUIRED_CONTEXT = Inr v"
    by (rule withdrawn_parts [OF assms])
  have i: "sel_id s = pg_uuid i" using r(2,6) by simp
  note rows = rows [folded i]
  have "pu_selectionId u \<noteq> sel_id s" if "gd_now d \<le> at" "getSelectionVersionForResolution e q c at w' = (Inr (PINNED_VERSIONS u), w1)" for e q c at u w1
    by (rule ended_unread(1) [OF assms(2) that(1) rows that(2)])
  moreover have "sel_id x \<noteq> sel_id s" if "gd_now d \<le> at" "getOwnSelection e source q c scope at w' = (Inr (SELECTION_VIEW x), w1)" for e source q c scope at x w1
    by (rule ended_unread(2) [OF assms(2) that(1) rows that(2)])
  moreover have "getSelectionVersionForResolution e p (sel_capabilityId s) at w' = (Inr NOT_APPLICABLE_NONE, w')"
    if c: "gd_now d \<le> at" "isCapabilityId (sel_capabilityId s)" "\<not> gd_down e ''selections.listSelections'' (sel_capabilityId s)"
      and o: "\<forall>r \<in> set (sw_selections w). own_selection p (sel_capabilityId s) r \<and> sel_id r \<noteq> sel_id s \<longrightarrow> at < sel_effectiveFrom r" for e at
  proof -
    obtain l where l: "selections_list p (sel_capabilityId s) w' = Some l" using v by (auto simp: selections_list_def in_subject_Some)
    have "resolveSelectionAt l at = NO_SELECTION_AT" by (rule ended_alone [OF l c(1) rows o])
    then show ?thesis using l c unfolding version_read by (simp add: version_of_def)
  qed
  moreover have "fst (getSelectionVersionForResolution e q c at w') = fst (getSelectionVersionForResolution e q c at w)" if "at < gd_now d" for e q c at
  proof (rule version_answers)
    fix l l' assume l: "selections_list q c w = Some l" "selections_list q c w' = Some l'"
    have "selection_keeps (gd_now d) w w'" using withdrawing_keeps [of "gd_now d" d p i] assms(1) unfolding always_def by (metis order_refl snd_conv)
    then show "version_of (resolveSelectionAt l' at) = version_of (resolveSelectionAt l at)"
      unfolding l [THEN listed_rows] using replayed [OF _ assms(2) that] assms(2) by (simp add: selection_keeps_def)
  qed
  moreover have "withdrawOwnSelection e p i w' = (Inl (REFUSED (SELECTION_NOT_ACTIVE (sel_id s) SELECTION_WITHDRAWN)), w')"
    if "\<not> gd_down e ''selections.findById'' i" for e
  proof -
    obtain x where x: "selections_findById p i w' = Some (Some x)" "sel_id x = sel_id s" "sel_status x = SELECTION_WITHDRAWN"
      by (rule refound [OF v r(5) assms(2) r(4,1,2) rows [unfolded i]]) (use i in simp)
    show ?thesis using that x
      by (simp add: withdrawOwnSelection_def thenE_def governed_read_def found_def refuse_if_def returnE_def throwE_def)
  qed
  ultimately show ?thesis using r(1,2,3,5) unfolding rows i ended_selection_def by blast
qed

section \<open>The latest election\<close>

text \<open>
  C21: A recorded election takes effect: from its instant on and until the end of its window, resolution reads its pins,
  provided the subject's other elections for the capability started earlier.
\<close>

theorem recorded_selection_takes_effect:
  assumes "recordSelection d source again [] p i w = (Inr s, w')" "keyed sel_id (sw_selections w)"
    "\<forall>r \<in> set (sw_selections w). own_selection p (ri_capability i) r \<longrightarrow> sel_effectiveFrom r < gd_now d"
    "gd_now d \<le> at" "case ri_effectiveTo i of None \<Rightarrow> True | Some t \<Rightarrow> at < t" "\<not> gd_down d ''selections.listSelections'' (ri_capability i)"
  shows "fst (getSelectionVersionForResolution d p (ri_capability i) at w') = Inr (PINNED_VERSIONS ((pins_of s)\<lparr>pu_selectionId := pg_uuid (sel_id s)\<rparr>))"
proof -
  let ?c = "ri_capability i"
  obtain q ids w1 where s: "s = new_selection d p i q" and g: "selections_record (gd_dbNow d) [] p s w = Some (ids, w1)" "sw_selections w' = sw_selections w1"
    and known: "isCapabilityId ?c"
    by (rule recorded_parts [OF assms(1)])
  let ?new = "stored_selection (gd_dbNow d) s"
  note r = record_rows [OF g(1), unfolded append_Nil2, OF assms(2)]
  have rows: "sw_selections w' = map (shadow_of p ?c) (sw_selections w) @ [?new]" unfolding g(2) by (subst r(1)) (simp add: s)
  have k: "keyed sel_id (sw_selections w')" using assms(2) r(2) unfolding rows keyed_def by (auto simp: comp_def)
  have "\<exists>l. selections_list p ?c w' = Some l"
    using g(1) unfolding selections_record_def selections_list_def in_subject_Some by auto
  then have l: "selections_list p ?c w' = Some (map toSelection (find_many (own_selection p ?c) oldest_selection (sw_selections w')))"
    using listed_rows by blast
  have own: "own_selection p ?c ?new" using r(3) by (simp add: own_selection_def s)
  have eff: "in_effect at (toSelection ?new)"
    using assms(4,5) by (simp add: in_effect_def windowCovers_def wasWithdrawnBy_def s stored_selection_def selection.extend_def selection_row.fields_def new_selection_def)
  have latest: "no_later (toSelection x) (toSelection ?new)" if x: "x \<in> set (sw_selections w')" "own_selection p ?c x" for x
  proof -
    have "x \<in> shadow_of p ?c ` set (sw_selections w) \<union> {?new}" using x(1) unfolding rows by simp
    then consider "x = ?new" | y where "y \<in> set (sw_selections w)" "x = shadow_of p ?c y" by blast
    then show ?thesis
    proof cases
      case (2 y)
      then have "own_selection p ?c y" using x(2) by (simp add: shadow_of_def own_selection_def shadowed_def split: if_splits)
      then show ?thesis using assms(3) 2 by (simp add: no_later_def s)
    qed simp
  qed
  have "resolveSelectionAt (map toSelection (find_many (own_selection p ?c) oldest_selection (sw_selections w'))) at = EFFECTIVE_SELECTION (toSelection ?new)"
    unfolding effective_iff [OF listed_keyed [OF k]] using own eff latest by (auto simp: rows)
  then show ?thesis using l known assms(6)
    by (simp add: getSelectionVersionForResolution_def thenE_def known_capability_def governed_read_def returnE_def version_effective) (simp add: pins_of_def)
qed


section \<open>Concrete runs\<close>

definition saver_options :: "string \<Rightarrow> option_source" where
  "saver_options version = (\<lambda>c j at. Some (OPTION_SET \<lparr>os_capabilityId = c, os_jurisdictionRef = j, os_policyPackVersion = version,
     os_permittedOptions = [\<lparr>po_profileRef = ''saver'', po_profileVersions = [''1'', ''2'']\<rparr>]\<rparr>))"

definition elected :: "string \<Rightarrow> millis \<Rightarrow> selection_row" where
  "elected i at = \<lparr>sel_id = i, sel_userId = uuid_a, sel_tenantId = uuid_t, sel_capabilityId = ''ZAKAT'', sel_profileRef = ''saver'',
     sel_profileVersion = ''1'', sel_jurisdictionRef = ''BH'', sel_policyPackVersion = ''bh/v1'', sel_effectiveFrom = at, sel_effectiveTo = None,
     sel_status = SELECTION_ACTIVE, sel_source = ''subject-election'', sel_recordedBy = uuid_a, sel_profileSnapshotHash = None,
     sel_withdrawnAt = None, srow_createdAt = at\<rparr>"

definition electing :: "selection_row list \<Rightarrow> selection_world" where
  "electing rows = \<lparr>gw_audit = [], sw_selections = rows\<rparr>"

definition second_election :: record_selection_input where
  "second_election = \<lparr>ri_capability = ''ZAKAT'', ri_scope = ''BH'', ri_expectedPackVersion = ''bh/v2'', ri_profileRef = ''saver'',
     ri_profileVersion = ''2'', ri_effectiveTo = None, ri_snapshotHash = None\<rparr>"

lemma second_run: "case recordSelection open_deps (saver_options ''bh/v2'') (saver_options ''bh/v2'') [] subject_a second_election (electing [elected uuid_a 10]) of
    (Inr s, w') \<Rightarrow> sel_policyPackVersion s = ''bh/v2'' \<and> map sel_status (sw_selections w') = [SELECTION_SUPERSEDED, SELECTION_ACTIVE]
  | (Inl e, w') \<Rightarrow> False"
  by code_simp

lemma second_recorded:
  obtains s w' where "recordSelection open_deps (saver_options ''bh/v2'') (saver_options ''bh/v2'') [] subject_a second_election (electing [elected uuid_a 10]) = (Inr s, w')"
    "sel_policyPackVersion s = ''bh/v2''" "(selection_step 50)\<^sup>*\<^sup>* (electing [elected uuid_a 10]) w'"
proof -
  let ?out = "recordSelection open_deps (saver_options ''bh/v2'') (saver_options ''bh/v2'') [] subject_a second_election (electing [elected uuid_a 10])"
  obtain s w' where r: "?out = (Inr s, w')" "sel_policyPackVersion s = ''bh/v2''" using second_run by (auto split: prod.splits sum.splits)
  have "selection_step 50 (electing [elected uuid_a 10]) (snd ?out)" by (rule record_step) (simp_all add: open_deps_def)
  then show thesis using that [OF r] r(1) by (simp add: r_into_rtranclp)
qed

lemma elected_keyed: "keyed sel_id (sw_selections (electing [elected uuid_a at]))"
  by (simp add: keyed_def electing_def elected_def sample_ids)

theorem recorded_selection_is_permitted_witness:
  "\<exists>s w' q. recordSelection open_deps (saver_options ''bh/v2'') (saver_options ''bh/v2'') [] subject_a second_election (electing [elected uuid_a 10]) = (Inr s, w')
     \<and> optionPermitted q (sel_profileRef s) (sel_profileVersion s) \<and> os_policyPackVersion q = ''bh/v2''
     \<and> filter (outgoing_selection subject_a ''ZAKAT'') (sw_selections w') = [stored_selection 50 s]"
proof -
  obtain s w' where r: "recordSelection open_deps (saver_options ''bh/v2'') (saver_options ''bh/v2'') [] subject_a second_election (electing [elected uuid_a 10]) = (Inr s, w')"
    "sel_policyPackVersion s = ''bh/v2''" by (rule second_recorded)
  have "sel_capabilityId s = ''ZAKAT''" using recorded_parts [OF r(1)] by (metis new_selection_fields(3) second_election_def record_selection_input.select_convs(1))
  then show ?thesis using recorded_selection_is_permitted [OF r(1)] elected_keyed [of 10] r by (auto simp: open_deps_def)
qed

theorem past_selections_replay_witness:
  "\<exists>w' v. (selection_step 50)\<^sup>*\<^sup>* (electing [elected uuid_a 10]) w' \<and> w' \<noteq> electing [elected uuid_a 10]
     \<and> fst (getSelectionVersionForResolution open_deps subject_a ''ZAKAT'' 20 w') = Inr (PINNED_VERSIONS v) \<and> pu_policyPackVersion v = ''bh/v1''"
proof -
  obtain s w' where r: "recordSelection open_deps (saver_options ''bh/v2'') (saver_options ''bh/v2'') [] subject_a second_election (electing [elected uuid_a 10]) = (Inr s, w')"
    "(selection_step 50)\<^sup>*\<^sup>* (electing [elected uuid_a 10]) w'" by (rule second_recorded)
  have "map sel_status (sw_selections w') = [SELECTION_SUPERSEDED, SELECTION_ACTIVE]" using second_run r(1) by simp
  then have "w' \<noteq> electing [elected uuid_a 10]" by (auto simp: electing_def)
  moreover have "fst (getSelectionVersionForResolution open_deps subject_a ''ZAKAT'' 20 (electing [elected uuid_a 10]))
      = Inr (PINNED_VERSIONS (pins_of (toSelection (elected uuid_a 10))))" by code_simp
  ultimately show ?thesis using past_selections_replay [OF r(2) elected_keyed, of 20 open_deps subject_a "''ZAKAT''"] r(2)
    by (auto simp: elected_def)
qed

definition reelected :: selection_world where
  "reelected = electing [shadowed (elected uuid_a 10), elected uuid_b 20]"

lemma withdrawn_run: "case withdrawOwnSelection open_deps subject_a uuid_a (electing [elected uuid_a 10]) of
    (Inr s, w') \<Rightarrow> sel_id s = uuid_a \<and> sel_capabilityId s = ''ZAKAT'' | (Inl e, w') \<Rightarrow> False"
  by code_simp

theorem withdrawn_election_governs_nothing_witness:
  "\<exists>s w'. withdrawOwnSelection open_deps subject_a uuid_a (electing [elected uuid_a 10]) = (Inr s, w')
     \<and> getSelectionVersionForResolution open_deps subject_a ''ZAKAT'' 60 w' = (Inr NOT_APPLICABLE_NONE, w')
     \<and> withdrawOwnSelection open_deps subject_a uuid_a w' = (Inl (REFUSED (SELECTION_NOT_ACTIVE uuid_a SELECTION_WITHDRAWN)), w')"
proof -
  obtain s w' where r: "withdrawOwnSelection open_deps subject_a uuid_a (electing [elected uuid_a 10]) = (Inr s, w')"
    and s: "sel_id s = uuid_a" "sel_capabilityId s = ''ZAKAT''"
    using withdrawn_run by (auto split: prod.splits sum.splits)
  have c: "isCapabilityId ''ZAKAT''" by code_simp
  have d: "gd_now open_deps \<le> 60" "\<not> gd_down open_deps call i" for call i by (simp_all add: open_deps_def)
  have o: "\<forall>r \<in> set (sw_selections (electing [elected uuid_a 10])). own_selection subject_a ''ZAKAT'' r \<and> sel_id r \<noteq> uuid_a \<longrightarrow> 60 < sel_effectiveFrom r"
    by (simp add: electing_def elected_def)
  note p = withdrawn_election_governs_nothing [OF r elected_keyed, unfolded s]
  have "gd_now open_deps \<le> 60 \<and> isCapabilityId ''ZAKAT'' \<and> \<not> gd_down open_deps ''selections.listSelections'' ''ZAKAT''
      \<and> (\<forall>r \<in> set (sw_selections (electing [elected uuid_a 10])). own_selection subject_a ''ZAKAT'' r \<and> sel_id r \<noteq> uuid_a \<longrightarrow> 60 < sel_effectiveFrom r)
      \<longrightarrow> getSelectionVersionForResolution open_deps subject_a ''ZAKAT'' 60 w' = (Inr NOT_APPLICABLE_NONE, w')" using p by blast
  then have v: "getSelectionVersionForResolution open_deps subject_a ''ZAKAT'' 60 w' = (Inr NOT_APPLICABLE_NONE, w')" using c d o by blast
  have "\<not> gd_down open_deps ''selections.findById'' uuid_a \<longrightarrow>
      withdrawOwnSelection open_deps subject_a uuid_a w' = (Inl (REFUSED (SELECTION_NOT_ACTIVE uuid_a SELECTION_WITHDRAWN)), w')" using p by blast
  then show ?thesis using r v d by blast
qed

theorem recorded_selection_takes_effect_witness:
  "\<exists>s w' v. recordSelection open_deps (saver_options ''bh/v2'') (saver_options ''bh/v2'') [] subject_a second_election (electing [elected uuid_a 10]) = (Inr s, w')
     \<and> fst (getSelectionVersionForResolution open_deps subject_a ''ZAKAT'' 60 w') = Inr (PINNED_VERSIONS v) \<and> pu_policyPackVersion v = ''bh/v2''"
proof -
  obtain s w' where r: "recordSelection open_deps (saver_options ''bh/v2'') (saver_options ''bh/v2'') [] subject_a second_election (electing [elected uuid_a 10]) = (Inr s, w')"
    "sel_policyPackVersion s = ''bh/v2''" by (rule second_recorded)
  have c: "ri_capability second_election = ''ZAKAT''" "ri_effectiveTo second_election = None" by (simp_all add: second_election_def)
  have "fst (getSelectionVersionForResolution open_deps subject_a (ri_capability second_election) 60 w')
      = Inr (PINNED_VERSIONS ((pins_of s)\<lparr>pu_selectionId := pg_uuid (sel_id s)\<rparr>))"
    by (rule recorded_selection_takes_effect [OF r(1) elected_keyed]) (simp_all add: c, simp_all add: open_deps_def electing_def elected_def)
  then show ?thesis using r by (simp add: c pins_of_def)
qed

section \<open>Where the code does less than its tests say\<close>

text \<open>
  Withdrawing leaves a subject that had elected before with an election: the superseded one, whose window was never closed,
  governs again.  An expired election is hidden in the same way.
\<close>

lemma withdrawal_revives_the_superseded_election:
  "case withdrawOwnSelection open_deps subject_a uuid_b reelected of
     (Inr s, w') \<Rightarrow> fst (getSelectionVersionForResolution open_deps subject_a ''ZAKAT'' 60 w') = Inr (PINNED_VERSIONS (pins_of (toSelection (elected uuid_a 10))))
       \<and> map sel_status (sw_selections w') = [SELECTION_SUPERSEDED, SELECTION_WITHDRAWN]
   | (Inl e, w') \<Rightarrow> False"
  by code_simp

lemma expiry_revives_the_superseded_election:
  "fst (getSelectionVersionForResolution open_deps subject_a ''ZAKAT'' 60
     (electing [shadowed (elected uuid_a 10), (elected uuid_b 20)\<lparr>sel_effectiveTo := Some 30\<rparr>]))
   = Inr (PINNED_VERSIONS (pins_of (toSelection (elected uuid_a 10))))"
  by code_simp

end
