(* ===== verification/Spec2Isabelle.thy ===== *)
theory Spec2Isabelle
  imports
    Karar_Prelude Integer_Math Money Percentage_Rate Wire_Format
    Policy_Pack Effective_Policy
    Capability_Registry Capability_Gates Table_Store Capability_Store Capability_Resolver
    Effects Identity_Store Identity_Transactions Identity_Sessions Identity_Credentials Identity_Samples
    Identity_Session_Laws Identity_Credential_Laws
    Rate_Limit Job_Queue Job_Laws Job_Properties Event_Catalogue Event_Bus Outbox Outbox_Laws
    Uuid_Ids Principal_Context Audit_Trail Authorization Authorization_Laws Kill_Switch Kill_Switch_Laws
    Tenancy_Store Tenancy Tenancy_Laws Tenancy_Properties Tenant_Switch Tenant_Switch_Laws Governed_Store Operating_Entity_Store Operating_Entity Operating_Entity_Laws Operating_Entity_Properties Consent_Store Consent Consent_Laws Consent_Properties Jurisdiction_Store Jurisdiction Jurisdiction_Laws
    Composition_Root Jurisdiction_Properties Bootstrap Bootstrap_Properties
    Users Users_Laws Subject_Policy Subject_Policy_Laws Subject_Policy_Properties
begin

text \<open>
  Karar is a personal-finance platform: a NestJS modular monolith (\<open>apps\<close>, \<open>modules\<close>, \<open>packages\<close>) behind a Flutter client.  This
  library models the decision-making core of the TypeScript code and proves what it promises.  Every definition translates a
  function, a use case, a repository statement or a table constraint under \<open>src\<close>; \<open>PROJECT.json\<close> beside it maps each to its
  lines.

  \<^bold>\<open>Parts and how they interact.\<close>

  \<^item> Shared kernel (\<open>packages/shared-kernel\<close>).  \<open>Integer_Math\<close>, \<open>Money\<close>, \<open>Percentage_Rate\<close> and \<open>Uuid_Ids\<close>: exact rounded division,
    currencies, amounts with allocation, percentages, rates, and version 7 identifiers.  \<open>Wire_Format\<close> is the JSON face of
    amounts and percentages.  Lemmas: equivalence with rational rounding, conservation and fairness of allocation, round
    trips of the texts, order of the identifiers.
  \<^item> Jurisdiction policy (\<open>packages/jurisdiction-policy\<close>).  \<open>Policy_Pack\<close> has the packs, registers, lifecycle and validation,
    \<open>Effective_Policy\<close> the resolution of one policy from packs, activations, a selection and runtime settings.  Lemmas:
    settings only restrict, a resolved policy is governed, valid pack sets are unambiguous.
  \<^item> Capabilities (\<open>packages/capability-registry\<close>, \<open>modules/capability\<close>).  \<open>Capability_Registry\<close>, \<open>Capability_Gates\<close> (the eight gates),
    \<open>Capability_Store\<close> (availability and entitlement rows, the optimistic writes), \<open>Capability_Resolver\<close> (the fact snapshot, the
    audit of refused expansions, the client view).  The specification \<open>first_failing\<close> says which gate denies, and the code's
    gate chain refines it.
  \<^item> Identity (\<open>modules/identity\<close>).  \<open>Identity_Store\<close> (tables and repositories), \<open>Identity_Transactions\<close> (the tables as a transition
    system with its histories), \<open>Identity_Sessions\<close> and \<open>Identity_Credentials\<close> (every use case), \<open>Identity_Session_Laws\<close> and
    \<open>Identity_Credential_Laws\<close> (refresh rotation, reuse detection, revocation, lockout, MFA, password reset), with
    \<open>Identity_Samples\<close> for the concrete instances.
  \<^item> Tenancy (\<open>modules/tenancy\<close>).  \<open>Tenancy_Store\<close>, \<open>Tenancy\<close>, \<open>Tenancy_Laws\<close>, \<open>Tenancy_Properties\<close>: memberships and invitations.
    \<open>Tenant_Switch\<close> binds tenancy and identity as the composition root does and \<open>Tenant_Switch_Laws\<close> proves what a switch rests on.
  \<^item> Authorization, audit and control plane.  \<open>Authorization\<close> with \<open>Authorization_Laws\<close> (roles, assignments, decisions),
    \<open>Audit_Trail\<close> (the metadata guard and the append-only table every module writes to), \<open>Kill_Switch\<close> with \<open>Kill_Switch_Laws\<close>.
  \<^item> Operating entities and consent.  \<open>Governed_Store\<close> is the shape the two modules share; \<open>Operating_Entity_Store\<close>,
    \<open>Operating_Entity\<close>, \<open>Operating_Entity_Laws\<close>, \<open>Operating_Entity_Properties\<close> model the legal entities and who is bound to which;
    \<open>Consent_Store\<close>, \<open>Consent\<close>, \<open>Consent_Laws\<close>, \<open>Consent_Properties\<close> model documents, versions, grants, the consent gate and
    document content, and resolve the entity through the first.
  \<^item> Jurisdictions (\<open>modules/jurisdiction\<close>).  \<open>Jurisdiction_Store\<close>, \<open>Jurisdiction\<close>, \<open>Jurisdiction_Laws\<close>, \<open>Jurisdiction_Properties\<close>: the
    register of legal regimes, the dated assignments of users and tenants, self-declaration, and the ledger of pack
    activations.  \<open>Composition_Root\<close> has the adapters of \<open>apps/api/src/composition\<close> that decide something: the governing
    jurisdiction, the ceiling of the capability gates, the pack a grant pins, and what the bootstrap reads.
  \<^item> Bootstrap (\<open>modules/bootstrap\<close>).  \<open>Bootstrap\<close> models the authenticated context and the choice of a tenant over the models of
    tenancy and identity; \<open>Bootstrap_Properties\<close> shows that a binding rests on a membership and what a refusal leaves.
  \<^item> Users (\<open>modules/users\<close>).  \<open>Users\<close> models the profiles, their status machine and the HTTP surface; \<open>Users_Laws\<close> shows that the
    history of an account leads to its status, and what a disable request and an edit change.
  \<^item> Subject policy (\<open>modules/subject-policy\<close>).  \<open>Subject_Policy\<close> models the elections and their resolution at an instant;
    \<open>Subject_Policy_Laws\<close> has the runs, and \<open>Subject_Policy_Properties\<close> shows that the past replays and what a recording or a
    withdrawal changes.
  \<^item> Platform (\<open>packages/platform\<close>, \<open>packages/api-contracts\<close>).  \<open>Principal_Context\<close> (row-level security settings), \<open>Rate_Limit\<close>,
    \<open>Job_Queue\<close> with \<open>Job_Laws\<close> and \<open>Job_Properties\<close>, \<open>Event_Catalogue\<close>, \<open>Event_Bus\<close>, \<open>Outbox\<close> with \<open>Outbox_Laws\<close>.
  \<^item> \<open>Karar_Prelude\<close>, \<open>Table_Store\<close> and \<open>Effects\<close> are the vocabulary all share: outcomes, texts, the stable sort, row statements, and use
    cases as functions of a world.

  \<^bold>\<open>How code becomes definitions.\<close>  A \<open>Result\<close> is a sum, \<open>Inl\<close> the error; a throw is an \<open>Inl\<close> or, for a repository, \<open>None\<close>.  A use case is
  an \<open>effect\<close>: from the world it gives an outcome and the new world, and what was written before an error stays written,
  unless a transaction encloses it.  A table is the list of its rows; a Prisma or SQL statement is one atomic function on it,
  with the row-level policy as a filter, the CHECK, UNIQUE and REFERENCES constraints and the guard triggers as conditions
  under which the statement raises.  Which calls fail is a predicate of the environment (the fields named \<open>down\<close>), so that every
  failure branch is a value of the model.  Where other callers may commit between two calls of a use case, the model
  takes their commits as an argument (\<open>meanwhile\<close>, \<open>raced\<close>) or proves the property over runs of transactions in any order.
  Instants are milliseconds and one execution reads the clock once.  A JavaScript number is an integer or
  marked as not whole; big integers are \<open>int\<close>; bytes are words.  Texts are lists of 8-bit characters: \<open>normalize('NFC')\<close> is the
  identity on them, case changes are the ASCII and Latin-1 ones, and U+2026 stands as its Windows-1252 code.  Objects used
  as maps are association lists in insertion order, and the keys every object inherits are modelled where the source
  looks a key up with \<open>in\<close> or by index.  A \<open>uuid\<close> column compares in lower case.  Message texts, logs and metrics are dropped.

  \<^bold>\<open>Parameters.\<close>  Hashing, signing, TOTP, ciphers, random bytes, identifier sources, SHA-256, JSON printing, the payload handlers and
  publishers of jobs and events, and the sorted-set commands of Redis are arguments; the laws assumed of them are named
  hypotheses, and each theorem that has one has a witness with a concrete function.  Loops are structural recursions; the
  poller and the relay are bounded by the batch they claimed, so that no fuel is used anywhere.

  \<^bold>\<open>What the lemmas show.\<close>  The theories named \<open>Laws\<close> hold the invariants: each use case preserves the well-formedness of its
  tables and only extends their history (rows are never lost, evidence never rewritten, a state machine followed).  The
  interfaces are locales interpreted on the code's own definitions: \<open>comparator\<close>, \<open>versioned_store\<close>, \<open>step_relation\<close>, \<open>governed_relation\<close>,
  \<open>evidence_table\<close>, \<open>wire_codec\<close> and those of the rate limiter.  The numbered properties state, on top of them, what a caller may rely
  on; the lemmas named in the findings show by evaluation where the code does less than its comments say.

  \<^bold>\<open>Not modelled.\<close>  HTTP controllers, request validation and problem documents other than those of the users and bootstrap modules and the
  consent acceptance (they read a body, call one use case and print its answer); process configuration, logging, metrics, health endpoints; database connections, migration files and role
  provisioning; the cryptographic adapters; dependency wiring that decides nothing; the option source of the
  elections, which has no implementation in the repository; repository tooling under \<open>scripts\<close> and \<open>infra\<close>; the Dart
  client; and the modules that hold only a description.  The expiry command of Redis, the timers of the poller
  and the relay, and the columns \<open>created_at\<close> and \<open>updated_at\<close> that nothing reads are left out of the modelled parts.
\<close>

end
